(* ===== verification/Prelude.thy ===== *)
theory Prelude
  imports Main "HOL-Library.Sublist" "HOL-Library.Multiset"
begin

text \<open>
  Shared vocabulary of the development: the JavaScript values the modelled code works with
  (strings, the insertion-ordered \<open>Map\<close>, index loops) and the contracts (locales) that the
  components are clients of.

  Strings are lists of UTF-16 code units in the program; the model uses HOL's \<open>string\<close>, so it
  covers the code units below 256. Times are integers, in milliseconds since the epoch.
\<close>

named_theorems map_laws \<open>laws of the insertion-ordered map\<close>

type_synonym time = int

section \<open>Strings\<close>

text \<open>The class \<open>\s\<close> of a JavaScript regular expression, which is also what \<open>trim\<close> removes.\<close>

definition js_ws :: "char \<Rightarrow> bool" where
  "js_ws c \<longleftrightarrow> (of_char c :: nat) \<in> {9, 10, 11, 12, 13, 32, 160}"

definition js_trim :: "string \<Rightarrow> string" where
  "js_trim s = rev (dropWhile js_ws (rev (dropWhile js_ws s)))"

text \<open>\<open>s.slice(a, b)\<close> for offsets that are not negative; empty when \<open>b \<le> a\<close>.\<close>

definition js_slice :: "'a list \<Rightarrow> nat \<Rightarrow> nat \<Rightarrow> 'a list" where
  "js_slice s a b = take (b - a) (drop a s)"

text \<open>\<open>[...new Set(xs)]\<close>: the first of equal elements stays.\<close>

definition js_unique :: "'a list \<Rightarrow> 'a list" where
  "js_unique xs = rev (remdups (rev xs))"

text \<open>\<open>s.startsWith(p, i)\<close>.\<close>

definition starts_with_at :: "string \<Rightarrow> string \<Rightarrow> nat \<Rightarrow> bool" where
  "starts_with_at s p i \<longleftrightarrow> take (length p) (drop i s) = p"

text \<open>\<open>s[i] ?? ''\<close>: reading outside the string is a value, not an error.\<close>

definition char_at :: "string \<Rightarrow> nat \<Rightarrow> char option" where
  "char_at s i = (if i < length s then Some (s ! i) else None)"

text \<open>The next character of what is left, if any, is \<open>c\<close>.\<close>

fun next_is :: "char \<Rightarrow> string \<Rightarrow> bool" where
  "next_is c [] \<longleftrightarrow> False"
| "next_is c (d # r) \<longleftrightarrow> d = c"

text \<open>\<open>toLowerCase\<close> on one code unit below 256.\<close>

definition js_lower_char :: "char \<Rightarrow> char" where
  "js_lower_char c =
     (let n = (of_char c :: nat) in
      if 65 \<le> n \<and> n \<le> 90 \<or> 192 \<le> n \<and> n \<le> 222 \<and> n \<noteq> 215
      then char_of (n + 32) else c)"

definition js_lower :: "string \<Rightarrow> string" where
  "js_lower = map js_lower_char"

text \<open>\<open>toUpperCase\<close> on ASCII text.\<close>

definition ascii_upper :: "string \<Rightarrow> string" where
  "ascii_upper = map (\<lambda>c. let n = (of_char c :: nat) in
     if 97 \<le> n \<and> n \<le> 122 then char_of (n - 32) else c)"

text \<open>\<open>s.split(sep)\<close> for a separator of one character.\<close>

fun js_split :: "char \<Rightarrow> string \<Rightarrow> string list" where
  "js_split d [] = [[]]"
| "js_split d (c # s) =
     (if c = d then [] # js_split d s
      else case js_split d s of [] \<Rightarrow> [[c]] | p # ps \<Rightarrow> (c # p) # ps)"

text \<open>Decimal digits: \<open>/^\d+$/\<close>, \<open>Number(s)\<close> on such a string, and \<open>String(n)\<close>.\<close>

definition digit :: "char \<Rightarrow> bool" where
  "digit c \<longleftrightarrow> (let n = (of_char c :: nat) in 48 \<le> n \<and> n \<le> 57)"

definition digits :: "string \<Rightarrow> bool" where
  "digits s \<longleftrightarrow> s \<noteq> [] \<and> list_all digit s"

definition digit_value :: "char \<Rightarrow> int" where
  "digit_value c = int (of_char c) - 48"

definition decimal :: "string \<Rightarrow> int" where
  "decimal s = foldl (\<lambda>n c. 10 * n + digit_value c) 0 s"

fun show_nat :: "nat \<Rightarrow> string" where
  "show_nat n = (if n < 10 then [char_of (48 + n)] else show_nat (n div 10) @ [char_of (48 + n mod 10)])"

declare show_nat.simps [simp del]

text \<open>\<open>String\<close> of an integer.\<close>

definition show_int :: "int \<Rightarrow> string" where
  "show_int n = (if n < 0 then CHR ''-'' # show_nat (nat (- n)) else show_nat (nat n))"

text \<open>\<open>ss.join(sep)\<close>.\<close>

fun join :: "string \<Rightarrow> string list \<Rightarrow> string" where
  "join sep [] = []"
| "join sep [s] = s"
| "join sep (s # t # ss) = s @ sep @ join sep (t # ss)"

text \<open>The length of the UTF-8 encoding; a code unit below 256 takes one byte or two.\<close>

definition utf8_length :: "string \<Rightarrow> nat" where
  "utf8_length s = sum_list (map (\<lambda>c. if (of_char c :: nat) < 128 then 1 else 2) s)"

lemma js_split_no: "d \<notin> set s \<Longrightarrow> js_split d s = [s]"
  by (induction s) auto

lemma js_split_Cons: "d \<notin> set s \<Longrightarrow> js_split d (s @ d # r) = s # js_split d r"
  by (induction s) auto

lemma js_split_not_Nil [simp]: "js_split d s \<noteq> []"
  by (induction s) (auto split: list.split)

lemma js_split_length: "length (js_split d s) = Suc (length (filter (\<lambda>c. c = d) s))"
  by (induction s) (auto split: list.split)

lemma js_split_two: "2 \<le> length (js_split d (x @ d # y))"
  by (induction x) (auto split: list.split simp: Suc_le_eq)

lemma digit_char: "n < 10 \<Longrightarrow> digit (char_of (48 + n)) \<and> digit_value (char_of (48 + n)) = int n"
  by (simp add: digit_def digit_value_def)

lemma trim_same: "s \<noteq> [] \<Longrightarrow> \<not> js_ws (hd s) \<Longrightarrow> \<not> js_ws (last s) \<Longrightarrow> js_trim s = s"
proof -
  assume "s \<noteq> []" "\<not> js_ws (hd s)" "\<not> js_ws (last s)"
  then have "dropWhile js_ws s = s" "dropWhile js_ws (rev s) = rev s"
    by (simp_all only: dropWhile_eq_self_iff hd_rev simp_thms)
  then show ?thesis by (simp only: js_trim_def rev_rev_ident)
qed

lemma digits_show_nat: "digits (show_nat n)"
proof (induction n rule: show_nat.induct)
  case (1 n)
  then show ?case
    using digit_char [of n] digit_char [of "n mod 10"]
    by (subst show_nat.simps) (auto simp: digits_def)
qed

lemma decimal_show_nat: "decimal (show_nat n) = int n"
proof (induction n rule: show_nat.induct)
  case (1 n)
  show ?case
  proof (cases "n < 10")
    case True
    then show ?thesis using digit_char [of n] by (subst show_nat.simps) (simp add: decimal_def)
  next
    case False
    have "decimal (show_nat n) = 10 * decimal (show_nat (n div 10)) + digit_value (char_of (48 + n mod 10))"
      using False by (subst show_nat.simps) (simp add: decimal_def)
    also have "\<dots> = 10 * int (n div 10) + int (n mod 10)"
      using 1 False digit_char [of "n mod 10"] by simp
    also have "\<dots> = int n" by (simp add: zdiv_int zmod_int)
    finally show ?thesis .
  qed
qed

lemma inj_show_nat: "inj show_nat"
  by (rule injI) (metis decimal_show_nat of_nat_eq_iff)

lemma show_nat_chars: "c \<in> set (show_nat n) \<Longrightarrow> digit c"
  using digits_show_nat [of n] by (auto simp: digits_def list_all_iff)

lemma js_slice_length [simp]: "length (js_slice s a b) = min (b - a) (length s - a)"
  by (simp add: js_slice_def min.commute)

lemma js_slice_nth: "i < b - a \<Longrightarrow> a + i < length s \<Longrightarrow> js_slice s a b ! i = s ! (a + i)"
  by (simp add: js_slice_def)

lemma js_slice_empty: "b \<le> a \<Longrightarrow> js_slice s a b = []"
  by (simp add: js_slice_def)

lemma js_slice_split:
  "a \<le> b \<Longrightarrow> b \<le> c \<Longrightarrow> js_slice s a c = js_slice s a b @ js_slice s b c"
proof -
  assume "a \<le> b" "b \<le> c"
  then have "js_slice s a c = take ((b - a) + (c - b)) (drop a s)"
    by (simp add: js_slice_def)
  also have "\<dots> = take (b - a) (drop a s) @ take (c - b) (drop (b - a) (drop a s))"
    by (rule take_add)
  finally show ?thesis using \<open>a \<le> b\<close> by (simp add: js_slice_def)
qed

lemma js_slice_full: "js_slice s 0 (length s) = s"
  by (simp add: js_slice_def)

lemma js_slice_one: "a < length s \<Longrightarrow> js_slice s a (Suc a) = [s ! a]"
  by (simp add: js_slice_def take_Suc hd_drop_conv_nth)

lemma set_js_slice:
  assumes "x \<in> set (js_slice s a b)"
  shows "\<exists>i. a \<le> i \<and> i < b \<and> i < length s \<and> s ! i = x"
proof -
  from assms obtain j where "j < b - a" "j < length s - a" "js_slice s a b ! j = x"
    by (auto simp: in_set_conv_nth)
  then have "a \<le> a + j \<and> a + j < b \<and> a + j < length s \<and> s ! (a + j) = x"
    by (auto simp: js_slice_nth)
  then show ?thesis by blast
qed

section \<open>Errors\<close>

text \<open>A call that can throw, and what follows it.\<close>

fun and_then :: "'e + 'a \<Rightarrow> ('a \<Rightarrow> 'e + 'b) \<Rightarrow> 'e + 'b" where
  "and_then (Inl e) f = Inl e"
| "and_then (Inr a) f = f a"

lemma and_then_Inr: "and_then m f = Inr b \<longleftrightarrow> (\<exists>a. m = Inr a \<and> f a = Inr b)"
  by (cases m) simp_all

lemma and_then_Inl: "and_then m f = Inl e \<longleftrightarrow> m = Inl e \<or> (\<exists>a. m = Inr a \<and> f a = Inl e)"
  by (cases m) simp_all

section \<open>The insertion-ordered \<open>Map\<close>\<close>

text \<open>
  A JavaScript \<open>Map\<close> iterates in insertion order, and \<open>set\<close> on a present key keeps the key's
  place: an association list.
\<close>

type_synonym ('k, 'v) jsmap = "('k \<times> 'v) list"

fun js_set :: "('k, 'v) jsmap \<Rightarrow> 'k \<Rightarrow> 'v \<Rightarrow> ('k, 'v) jsmap" where
  "js_set [] k v = [(k, v)]"
| "js_set ((a, b) # m) k v = (if a = k then (a, v) # m else (a, b) # js_set m k v)"

definition js_delete :: "('k, 'v) jsmap \<Rightarrow> 'k \<Rightarrow> ('k, 'v) jsmap" where
  "js_delete m k = filter (\<lambda>p. fst p \<noteq> k) m"

definition js_keys :: "('k, 'v) jsmap \<Rightarrow> 'k list" where
  "js_keys m = map fst m"

text \<open>The contract of a keyed store: what its clients may rely on.\<close>

locale keyed_store =
  fixes get :: "'m \<Rightarrow> 'k \<Rightarrow> 'v option"
    and put :: "'m \<Rightarrow> 'k \<Rightarrow> 'v \<Rightarrow> 'm"
    and del :: "'m \<Rightarrow> 'k \<Rightarrow> 'm"
    and keys :: "'m \<Rightarrow> 'k list"
    and ok :: "'m \<Rightarrow> bool"
  assumes get_put: "get (put m k v) k' = (if k' = k then Some v else get m k')"
    and get_del: "get (del m k) k' = (if k' = k then None else get m k')"
    and keys_get: "k \<in> set (keys m) \<longleftrightarrow> get m k \<noteq> None"
    and ok_put: "ok m \<Longrightarrow> ok (put m k v)"
    and ok_del: "ok m \<Longrightarrow> ok (del m k)"
    and put_order: "get m k \<noteq> None \<Longrightarrow> keys (put m k v) = keys m"
    and put_last: "get m k = None \<Longrightarrow> keys (put m k v) = keys m @ [k]"
begin

lemma put_put: "get (put (put m k v) k w) = get (put m k w)"
  by (rule ext) (simp add: get_put)

lemma put_swap: "k \<noteq> l \<Longrightarrow> get (put (put m k v) l w) = get (put (put m l w) k v)"
  by (rule ext) (simp add: get_put)

lemma put_frame: "k' \<noteq> k \<Longrightarrow> get (put m k v) k' = get m k'"
  by (simp add: get_put)

lemma del_frame: "k' \<noteq> k \<Longrightarrow> get (del m k) k' = get m k'"
  by (simp add: get_del)

lemma set_keys_put: "set (keys (put m k v)) = insert k (set (keys m))"
  by (auto simp: keys_get get_put split: if_splits)

lemma set_keys_del: "set (keys (del m k)) = set (keys m) - {k}"
  by (auto simp: keys_get get_del split: if_splits)

end

lemma map_of_js_set [simp, map_laws]: "map_of (js_set m k v) = (map_of m)(k \<mapsto> v)"
  by (induction m k v rule: js_set.induct) auto

lemma map_of_js_delete [simp, map_laws]: "map_of (js_delete m k) = (map_of m)(k := None)"
  by (induction m) (auto simp: js_delete_def)

lemma js_set_set [simp]: "js_set (js_set m k v) k w = js_set m k w"
  by (induction m k v rule: js_set.induct) auto

lemma js_keys_set_present: "k \<in> set (js_keys m) \<Longrightarrow> js_keys (js_set m k v) = js_keys m"
  by (induction m k v rule: js_set.induct) (auto simp: js_keys_def)

lemma js_keys_set_absent: "k \<notin> set (js_keys m) \<Longrightarrow> js_keys (js_set m k v) = js_keys m @ [k]"
  by (induction m k v rule: js_set.induct) (auto simp: js_keys_def)

lemma js_keys_iff: "k \<in> set (js_keys m) \<longleftrightarrow> map_of m k \<noteq> None"
  by (auto simp: js_keys_def map_of_eq_None_iff)

lemma distinct_js_set: "distinct (js_keys m) \<Longrightarrow> distinct (js_keys (js_set m k v))"
  by (cases "k \<in> set (js_keys m)") (simp_all add: js_keys_set_present js_keys_set_absent)

lemma js_keys_delete: "js_keys (js_delete m k) = filter (\<lambda>a. a \<noteq> k) (js_keys m)"
  by (simp add: js_keys_def js_delete_def filter_map comp_def)

lemma distinct_js_delete: "distinct (js_keys m) \<Longrightarrow> distinct (js_keys (js_delete m k))"
  by (simp add: js_keys_delete)

interpretation jsm: keyed_store map_of js_set js_delete js_keys "\<lambda>m. distinct (js_keys m)"
  by unfold_locales
    (auto simp: js_keys_iff distinct_js_set distinct_js_delete
      js_keys_set_present js_keys_set_absent)

text \<open>Entries of a map with distinct keys are exactly its bindings.\<close>

lemma js_entries_iff:
  "distinct (js_keys m) \<Longrightarrow> (k, v) \<in> set m \<longleftrightarrow> map_of m k = Some v"
  by (simp add: js_keys_def)

section \<open>Contracts of stateful components\<close>

text \<open>
  A component that handles events one at a time. The client proves one lemma per event; the
  contract lifts it to every history.
\<close>

locale handler_invariant =
  fixes handle :: "'s \<Rightarrow> 'e \<Rightarrow> 's"
    and inv :: "'s \<Rightarrow> bool"
  assumes handle_inv: "inv s \<Longrightarrow> inv (handle s e)"
begin

lemma run_inv: "inv s \<Longrightarrow> inv (foldl handle s es)"
  by (induction es arbitrary: s) (auto intro: handle_inv)

lemma prefix_inv: "inv s \<Longrightarrow> prefix es fs \<Longrightarrow> inv (foldl handle s es)"
  by (rule run_inv)

end

text \<open>
  A component with a step order: a relation between a state and a later one that each event
  respects, that is reflexive and transitive, holds between the ends of every history.
\<close>

locale handler_order = handler_invariant handle inv
  for handle :: "'s \<Rightarrow> 'e \<Rightarrow> 's" and inv :: "'s \<Rightarrow> bool" +
  fixes le :: "'s \<Rightarrow> 's \<Rightarrow> bool"
  assumes handle_le: "inv s \<Longrightarrow> le s (handle s e)"
    and le_refl: "le s s"
    and le_trans: "le s t \<Longrightarrow> le t u \<Longrightarrow> le s u"
begin

lemma run_le: "inv s \<Longrightarrow> le s (foldl handle s es)"
proof (induction es arbitrary: s)
  case Nil
  show ?case by (simp add: le_refl)
next
  case (Cons e es)
  have "le s (handle s e)" using Cons.prems by (rule handle_le)
  moreover have "le (handle s e) (foldl handle (handle s e) es)"
    using Cons.prems by (intro Cons.IH handle_inv)
  ultimately show ?case by (auto intro: le_trans)
qed

end

section \<open>Index loops\<close>

text \<open>
  \<open>for (let i = a; i < n; i += 1) { body }\<close> where the body may add to \<open>i\<close>: the body
  returns the new state and what it added.
\<close>

function for_index :: "(nat \<Rightarrow> 's \<Rightarrow> 's \<times> nat) \<Rightarrow> nat \<Rightarrow> nat \<Rightarrow> 's \<Rightarrow> 's" where
  "for_index body n i s =
     (if i < n then for_index body n (i + snd (body i s) + 1) (fst (body i s)) else s)"
  by pat_completeness auto
termination
  by (relation "measure (\<lambda>(body, n, i, s). n - i)") auto

declare for_index.simps [simp del]

lemma for_index_stop: "n \<le> i \<Longrightarrow> for_index body n i s = s"
  by (subst for_index.simps) simp

lemma for_index_step:
  "i < n \<Longrightarrow> body i s = (s', k) \<Longrightarrow> for_index body n i s = for_index body n (i + k + 1) s'"
  by (subst for_index.simps) simp

text \<open>Loop rule: an invariant over index and state; the loop ends with an index not below \<open>n\<close>.\<close>

lemma for_index_rule:
  assumes "P i s"
    and "\<And>i s s' k. P i s \<Longrightarrow> i < n \<Longrightarrow> body i s = (s', k) \<Longrightarrow> P (i + k + 1) s'"
  shows "\<exists>j. n \<le> j \<and> P j (for_index body n i s)"
  using assms(1)
proof (induction "n - i" arbitrary: i s rule: less_induct)
  case less
  show ?case
  proof (cases "i < n")
    case True
    obtain s' k where b: "body i s = (s', k)" by (cases "body i s")
    have "P (i + k + 1) s'" by (rule assms(2) [OF less.prems True b])
    moreover have "n - (i + k + 1) < n - i" using True by simp
    ultimately show ?thesis
      using less.hyps [of "i + k + 1" s'] by (simp add: for_index_step [of i n body s s' k, OF True b])
  next
    case False
    then show ?thesis using less.prems by (intro exI [of _ i]) (simp add: for_index_stop)
  qed
qed

section \<open>Sorting\<close>

text \<open>A stable sort by a JavaScript comparator (negative: left first), as \<open>Array.sort\<close> is.\<close>

fun insert_by :: "('a \<Rightarrow> 'a \<Rightarrow> int) \<Rightarrow> 'a \<Rightarrow> 'a list \<Rightarrow> 'a list" where
  "insert_by cmp x [] = [x]"
| "insert_by cmp x (y # ys) = (if cmp x y \<le> 0 then x # y # ys else y # insert_by cmp x ys)"

definition sort_by :: "('a \<Rightarrow> 'a \<Rightarrow> int) \<Rightarrow> 'a list \<Rightarrow> 'a list" where
  "sort_by cmp xs = foldr (insert_by cmp) xs []"

lemma mset_insert_by: "mset (insert_by cmp x ys) = add_mset x (mset ys)"
  by (induction cmp x ys rule: insert_by.induct) auto

lemma mset_sort_by: "mset (sort_by cmp xs) = mset xs"
  by (induction xs) (simp_all add: sort_by_def mset_insert_by)

lemma sorted_insert_by:
  assumes "\<And>x y. cmp x y \<le> 0 \<or> cmp y x \<le> 0"
    and "\<And>x y z. cmp x y \<le> 0 \<Longrightarrow> cmp y z \<le> 0 \<Longrightarrow> cmp x z \<le> 0"
    and "sorted_wrt (\<lambda>x y. cmp x y \<le> 0) ys"
  shows "sorted_wrt (\<lambda>x y. cmp x y \<le> 0) (insert_by cmp x ys)"
  using assms(3)
proof (induction ys)
  case Nil
  show ?case by simp
next
  case (Cons y ys)
  have "set (insert_by cmp x ys) = insert x (set ys)"
    using mset_insert_by [of cmp x ys] by (metis set_mset_add_mset_insert set_mset_mset)
  moreover have "cmp y x \<le> 0" if "\<not> cmp x y \<le> 0" using assms(1) that by blast
  ultimately show ?case
    using Cons assms(2) by (auto dest: assms(2))
qed

lemma sorted_sort_by:
  assumes "\<And>x y. cmp x y \<le> 0 \<or> cmp y x \<le> 0"
    and "\<And>x y z. cmp x y \<le> 0 \<Longrightarrow> cmp y z \<le> 0 \<Longrightarrow> cmp x z \<le> 0"
  shows "sorted_wrt (\<lambda>x y. cmp x y \<le> 0) (sort_by cmp xs)"
proof (induction xs)
  case Nil
  show ?case by (simp add: sort_by_def)
next
  case (Cons x xs)
  then have "sorted_wrt (\<lambda>x y. cmp x y \<le> 0) (insert_by cmp x (sort_by cmp xs))"
    using assms by (intro sorted_insert_by) blast+
  then show ?case by (simp add: sort_by_def)
qed

lemma set_sort_by [simp]: "set (sort_by cmp xs) = set xs"
  by (metis mset_sort_by set_mset_mset)

end
