(* ===== verification/Jobs.thy ===== *)
theory Jobs
  imports Prelude
begin

text \<open>
  \<open>packages/jobs/src/index.ts\<close>: the in-memory FIFO job queue with a bounded number of workers,
  cooperative cancellation, throttled progress events and retention. One synchronous handler of the
  class \<open>JobManager\<close> is one function here; what the event loop decides (when an executor reports
  progress, settles or finishes, when a timer fires) is an event of \<open>job_step\<close>. A handler reads
  the clock once, and its emissions are appended to \<open>log\<close> with that time instead of being
  handed to listeners.
\<close>

section \<open>Data\<close>

datatype job_state = Queued | Running | Completed | Failed | Cancelling | Cancelled

fun transitions :: "job_state \<Rightarrow> job_state list" where
  "transitions Queued = [Running, Cancelled]"
| "transitions Running = [Completed, Failed, Cancelling]"
| "transitions Completed = []"
| "transitions Failed = []"
| "transitions Cancelling = [Cancelled]"
| "transitions Cancelled = []"

definition canTransitionJob :: "job_state \<Rightarrow> job_state \<Rightarrow> bool" where
  "canTransitionJob f t \<longleftrightarrow> t \<in> set (transitions f)"

definition isTerminal :: "job_state \<Rightarrow> bool" where
  "isTerminal s \<longleftrightarrow> s \<in> set [Completed, Failed, Cancelled]"

record progress =
  phase :: string
  current :: int
  total :: "int option"
  pmessage :: "string option"

record job_error =
  errcode :: string
  errmessage :: string

record 'r job =
  jid :: string
  jtype :: string
  ownerUserId :: string
  state :: job_state
  progress :: progress
  result :: "'r option"
  error :: "job_error option"
  createdAt :: time
  startedAt :: "time option"
  endedAt :: "time option"
  cancellable :: bool

record 'r entry =
  job :: "'r job"
  aborted :: bool
  lastProgressEmittedAt :: "time option"
  progressTimer :: "time option"
  executionSettled :: bool
  released :: bool
  entry_disposed :: bool

datatype job_manager_error =
    JOB_NOT_FOUND | JOB_NOT_CANCELLABLE | JOB_ALREADY_FINISHED
  | JOB_INVALID_TRANSITION | JOB_MANAGER_DISPOSED | JOB_VALIDATION_FAILED | NOT_POSITIVE_INTEGER

datatype 'r job_event = StateEvent "'r job" | ProgressEvent "'r job"

text \<open>What an executor can throw: a \<open>DbError\<close>, or anything else.\<close>

datatype thrown = DbErr string string | OtherErr

datatype 'r outcome = Returned "'r option" | Threw thrown

record 'r manager =
  entries :: "(string, 'r entry) jsmap"
  detached :: "(string, 'r entry) jsmap"
  queue :: "string list"
  concurrency :: int
  retentionMs :: int
  progressThrottleMs :: int
  runningCount :: int
  disposed :: bool
  idleWaiters :: nat
  resolvedWaiters :: nat
  log :: "(time \<times> 'r job_event) list"

section \<open>Validation\<close>

definition max_safe_integer :: int where
  "max_safe_integer = 9007199254740991"

definition safe_integer :: "int \<Rightarrow> bool" where
  "safe_integer n \<longleftrightarrow> - max_safe_integer \<le> n \<and> n \<le> max_safe_integer"

definition validText :: "string \<Rightarrow> bool" where
  "validText s \<longleftrightarrow> js_trim s \<noteq> []"

definition positiveInteger :: "int \<Rightarrow> job_manager_error + int" where
  "positiveInteger n = (if \<not> safe_integer n \<or> n < 1 then Inl NOT_POSITIVE_INTEGER else Inr n)"

definition normalizedProgress :: "progress \<Rightarrow> job_manager_error + progress" where
  "normalizedProgress p =
     (if \<not> validText (phase p) then Inl JOB_VALIDATION_FAILED
      else if \<not> safe_integer (current p) \<or> current p < 0 then Inl JOB_VALIDATION_FAILED
      else if (case total p of None \<Rightarrow> False
               | Some n \<Rightarrow> \<not> safe_integer n \<or> n < 0 \<or> current p > n) then Inl JOB_VALIDATION_FAILED
      else if (case pmessage p of None \<Rightarrow> False | Some s \<Rightarrow> \<not> validText s)
        then Inl JOB_VALIDATION_FAILED
      else Inr \<lparr>phase = phase p, current = current p, total = total p, pmessage = pmessage p\<rparr>)"

definition initialProgress :: progress where
  "initialProgress = \<lparr>phase = ''queued'', current = 0, total = None, pmessage = None\<rparr>"

text \<open>\<open>redact\<close> is \<open>Redaction.redactText\<close>.\<close>

fun normalizedError :: "(string \<Rightarrow> string) \<Rightarrow> thrown \<Rightarrow> job_error" where
  "normalizedError redact (DbErr category msg) =
     \<lparr>errcode = ''DB_'' @ ascii_upper category, errmessage = redact msg\<rparr>"
| "normalizedError redact OtherErr =
     \<lparr>errcode = ''JOB_EXECUTOR_FAILED'', errmessage = ''The job could not be completed.''\<rparr>"

section \<open>The manager\<close>

definition new_manager ::
  "int option \<Rightarrow> int option \<Rightarrow> int option \<Rightarrow> int option \<Rightarrow> job_manager_error + 'r manager" where
  "new_manager c r p cl =
     (case positiveInteger (case c of None \<Rightarrow> 4 | Some n \<Rightarrow> n) of Inl e \<Rightarrow> Inl e | Inr c' \<Rightarrow>
      (case positiveInteger (case r of None \<Rightarrow> 60 * 60 * 1000 | Some n \<Rightarrow> n) of Inl e \<Rightarrow> Inl e | Inr r' \<Rightarrow>
       (case positiveInteger (case p of None \<Rightarrow> 200 | Some n \<Rightarrow> n) of Inl e \<Rightarrow> Inl e | Inr p' \<Rightarrow>
        (case positiveInteger (case cl of None \<Rightarrow> min r' 60000 | Some n \<Rightarrow> n) of Inl e \<Rightarrow> Inl e | Inr _ \<Rightarrow>
          Inr \<lparr>entries = [], detached = [], queue = [], concurrency = c', retentionMs = r',
               progressThrottleMs = p', runningCount = 0, disposed = False,
               idleWaiters = 0, resolvedWaiters = 0, log = []\<rparr>))))"

definition emit :: "time \<Rightarrow> 'r job_event \<Rightarrow> 'r manager \<Rightarrow> 'r manager" where
  "emit now ev m = m\<lparr>log := log m @ [(now, ev)]\<rparr>"

definition set_entry :: "string \<Rightarrow> 'r entry \<Rightarrow> 'r manager \<Rightarrow> 'r manager" where
  "set_entry i e m = m\<lparr>entries := js_set (entries m) i e\<rparr>"

definition enter_state :: "time \<Rightarrow> job_state \<Rightarrow> 'r job \<Rightarrow> 'r job" where
  "enter_state now next j =
     j\<lparr>state := next,
       startedAt := (if next = Running then Some now else startedAt j),
       endedAt := (if isTerminal next then Some now else endedAt j)\<rparr>"

definition transition ::
  "time \<Rightarrow> string \<Rightarrow> 'r entry \<Rightarrow> job_state \<Rightarrow> 'r manager \<Rightarrow> job_manager_error + 'r manager" where
  "transition now i e next m =
     (if \<not> canTransitionJob (state (job e)) next then Inl JOB_INVALID_TRANSITION
      else let j = enter_state now next (job e)
           in Inr (emit now (StateEvent j) (set_entry i (e\<lparr>job := j\<rparr>) m)))"

definition resolveIdleWaiters :: "'r manager \<Rightarrow> 'r manager" where
  "resolveIdleWaiters m =
     (if \<not> disposed m \<and> (queue m \<noteq> [] \<or> runningCount m > 0) then m
      else m\<lparr>resolvedWaiters := resolvedWaiters m + idleWaiters m, idleWaiters := 0\<rparr>)"

text \<open>The loop of \<open>pump\<close>, over what is left of the queue.\<close>

fun pump_loop :: "time \<Rightarrow> string list \<Rightarrow> 'r manager \<Rightarrow> 'r manager" where
  "pump_loop now [] m = m\<lparr>queue := []\<rparr>"
| "pump_loop now (i # q) m =
     (if runningCount m < concurrency m then
        (case map_of (entries m) i of
           None \<Rightarrow> pump_loop now q m
         | Some e \<Rightarrow>
             if state (job e) \<noteq> Queued then pump_loop now q m
             else (case transition now i e Running (m\<lparr>runningCount := runningCount m + 1\<rparr>) of
                     Inl _ \<Rightarrow> m\<lparr>runningCount := runningCount m + 1, queue := q\<rparr>
                   | Inr m' \<Rightarrow> pump_loop now q m'))
      else m\<lparr>queue := i # q\<rparr>)"

definition pump :: "time \<Rightarrow> 'r manager \<Rightarrow> 'r manager" where
  "pump now m = (if disposed m then m else resolveIdleWaiters (pump_loop now (queue m) m))"

definition submit ::
  "time \<Rightarrow> string \<Rightarrow> string \<Rightarrow> string \<Rightarrow> bool option \<Rightarrow> 'r manager \<Rightarrow> job_manager_error + 'r manager" where
  "submit now i ty owner canc m =
     (if disposed m then Inl JOB_MANAGER_DISPOSED
      else if \<not> validText ty then Inl JOB_VALIDATION_FAILED
      else if \<not> validText owner then Inl JOB_VALIDATION_FAILED
      else
        let j = \<lparr>jid = i, jtype = ty, ownerUserId = owner, state = Queued,
                 progress = initialProgress, result = None, error = None, createdAt = now,
                 startedAt = None, endedAt = None,
                 cancellable = (case canc of None \<Rightarrow> True | Some b \<Rightarrow> b)\<rparr>;
            e = \<lparr>job = j, aborted = False, lastProgressEmittedAt = None, progressTimer = None,
                 executionSettled = False, released = False, entry_disposed = False\<rparr>;
            m1 = set_entry i e m;
            m2 = m1\<lparr>queue := queue m1 @ [i]\<rparr>
        in Inr (pump now (emit now (StateEvent j) m2)))"

definition cancelEntry ::
  "time \<Rightarrow> string \<Rightarrow> 'r entry option \<Rightarrow> 'r manager \<Rightarrow> job_manager_error + 'r manager" where
  "cancelEntry now i eo m =
     (case eo of None \<Rightarrow> Inl JOB_NOT_FOUND
      | Some e \<Rightarrow>
        if entry_disposed e then Inl JOB_NOT_FOUND
        else if \<not> cancellable (job e) then Inl JOB_NOT_CANCELLABLE
        else if state (job e) = Cancelled then Inr m
        else if state (job e) = Completed \<or> state (job e) = Failed then Inl JOB_ALREADY_FINISHED
        else if executionSettled e then Inr m
        else if state (job e) = Queued then
          (case transition now i (e\<lparr>aborted := True\<rparr>) Cancelled m of
             Inl x \<Rightarrow> Inl x | Inr m' \<Rightarrow> Inr (pump now m'))
        else if state (job e) = Running then
          transition now i (e\<lparr>aborted := True\<rparr>) Cancelling m
        else Inr m)"

definition cancel :: "time \<Rightarrow> string \<Rightarrow> 'r manager \<Rightarrow> job_manager_error + 'r manager" where
  "cancel now i m = cancelEntry now i (map_of (entries m) i) m"

definition cancelForOwner ::
  "time \<Rightarrow> string \<Rightarrow> string \<Rightarrow> 'r manager \<Rightarrow> job_manager_error + 'r manager" where
  "cancelForOwner now i owner m =
     (case map_of (entries m) i of
        None \<Rightarrow> Inl JOB_NOT_FOUND
      | Some e \<Rightarrow> if ownerUserId (job e) \<noteq> owner then Inl JOB_NOT_FOUND
                  else cancelEntry now i (Some e) m)"

text \<open>\<open>cleanup\<close> drops finished jobs older than the retention and counts them.\<close>

definition expired :: "time \<Rightarrow> 'r entry \<Rightarrow> bool" where
  "expired cutoff e \<longleftrightarrow> isTerminal (state (job e)) \<and>
     (case endedAt (job e) of None \<Rightarrow> False | Some t \<Rightarrow> t \<le> cutoff)"

definition cleanup :: "time \<Rightarrow> 'r manager \<Rightarrow> 'r manager \<times> nat" where
  "cleanup now m =
     (let cutoff = now - retentionMs m;
          keep = filter (\<lambda>(i, e). \<not> expired cutoff e) (entries m)
      in (m\<lparr>entries := keep\<rparr>, length (entries m) - length keep))"

definition whenIdle :: "'r manager \<Rightarrow> 'r manager" where
  "whenIdle m =
     (if disposed m \<or> queue m = [] \<and> runningCount m = 0
      then m\<lparr>resolvedWaiters := resolvedWaiters m + 1\<rparr>
      else m\<lparr>idleWaiters := idleWaiters m + 1\<rparr>)"

definition dispose :: "'r manager \<Rightarrow> 'r manager" where
  "dispose m =
     (if disposed m then m
      else resolveIdleWaiters
        (m\<lparr>disposed := True, queue := [], entries := [],
           detached := map (\<lambda>(i, e). (i, e\<lparr>entry_disposed := True, aborted := True,
                                       progressTimer := None\<rparr>)) (entries m)\<rparr>))"

section \<open>Executors: progress and completion\<close>

definition active :: "'r entry \<Rightarrow> bool" where
  "active e \<longleftrightarrow> state (job e) = Running \<or> state (job e) = Cancelling"

definition emitProgress :: "time \<Rightarrow> string \<Rightarrow> 'r entry \<Rightarrow> 'r manager \<Rightarrow> 'r manager" where
  "emitProgress now i e m =
     emit now (ProgressEvent (job e)) (set_entry i (e\<lparr>lastProgressEmittedAt := Some now\<rparr>) m)"

text \<open>Emission is due when the throttle interval has passed; before the first one always.\<close>

definition progress_due :: "time \<Rightarrow> 'r entry \<Rightarrow> 'r manager \<Rightarrow> bool" where
  "progress_due now e m \<longleftrightarrow>
     (case lastProgressEmittedAt e of None \<Rightarrow> True
      | Some t \<Rightarrow> now - t \<ge> progressThrottleMs m)"

definition scheduleProgress :: "time \<Rightarrow> string \<Rightarrow> 'r entry \<Rightarrow> 'r manager \<Rightarrow> 'r manager" where
  "scheduleProgress now i e m =
     (case progressTimer e of Some _ \<Rightarrow> set_entry i e m
      | None \<Rightarrow>
          let wait = (case lastProgressEmittedAt e of None \<Rightarrow> 1
                      | Some t \<Rightarrow> max 1 (progressThrottleMs m - (now - t)))
          in set_entry i (e\<lparr>progressTimer := Some (now + wait)\<rparr>) m)"

definition reportProgress ::
  "time \<Rightarrow> string \<Rightarrow> progress \<Rightarrow> 'r manager \<Rightarrow> job_manager_error + 'r manager" where
  "reportProgress now i p m =
     (case map_of (entries m) i of None \<Rightarrow> Inr m
      | Some e \<Rightarrow>
        if disposed m \<or> entry_disposed e \<or> \<not> active e then Inr m
        else (case normalizedProgress p of Inl x \<Rightarrow> Inl x
              | Inr p' \<Rightarrow>
                  let e' = e\<lparr>job := (job e)\<lparr>progress := p'\<rparr>\<rparr>
                  in Inr (if progress_due now e' m then emitProgress now i e' m
                          else scheduleProgress now i e' m)))"

definition fireTimer :: "time \<Rightarrow> string \<Rightarrow> 'r manager \<Rightarrow> 'r manager" where
  "fireTimer now i m =
     (case map_of (entries m) i of None \<Rightarrow> m
      | Some e \<Rightarrow>
        if progressTimer e = None then m
        else let e' = e\<lparr>progressTimer := None\<rparr> in
          if disposed m \<or> entry_disposed e' \<or> \<not> active e' then set_entry i e' m
          else if progress_due now e' m then emitProgress now i e' m
          else scheduleProgress now i e' m)"

text \<open>The reaction that marks an execution settled, before its continuation runs.\<close>

definition settle :: "string \<Rightarrow> 'r manager \<Rightarrow> 'r manager" where
  "settle i m =
     (case map_of (entries m) i of None \<Rightarrow> m
      | Some e \<Rightarrow> if active e then set_entry i (e\<lparr>executionSettled := True\<rparr>) m else m)"

text \<open>The \<open>try\<close> and \<open>catch\<close> blocks of \<open>execute\<close>: the job's last transition.\<close>

definition conclude ::
  "(string \<Rightarrow> string) \<Rightarrow> time \<Rightarrow> string \<Rightarrow> 'r entry \<Rightarrow> 'r outcome \<Rightarrow> 'r manager
     \<Rightarrow> job_manager_error + 'r manager" where
  "conclude redact now i e out m =
     (case out of
        Returned r \<Rightarrow>
          let e1 = (case r of None \<Rightarrow> e | Some v \<Rightarrow> e\<lparr>job := (job e)\<lparr>result := Some v\<rparr>\<rparr>) in
          if state (job e1) = Cancelling then transition now i e1 Cancelled m
          else if state (job e1) = Running then transition now i e1 Completed m
          else Inr (set_entry i e1 m)
      | Threw x \<Rightarrow>
          if state (job e) = Cancelling then transition now i e Cancelled m
          else transition now i
                 (e\<lparr>job := (job e)\<lparr>error := Some (normalizedError redact x)\<rparr>\<rparr>) Failed m)"

text \<open>The \<open>finally\<close> block: stop the timer, give the worker back once, start what waits.\<close>

definition release :: "time \<Rightarrow> string \<Rightarrow> 'r manager \<Rightarrow> 'r manager" where
  "release now i m =
     pump now
       (case map_of (entries m) i of None \<Rightarrow> m
        | Some e \<Rightarrow>
            if released e then set_entry i (e\<lparr>progressTimer := None\<rparr>) m
            else (set_entry i (e\<lparr>progressTimer := None, released := True\<rparr>) m)
                   \<lparr>runningCount := max 0 (runningCount m - 1)\<rparr>)"

text \<open>
  The continuation of \<open>execute\<close> once its executor is done. It only exists for an entry that was
  started and not finished; after \<open>dispose\<close> it only gives the worker back.
\<close>

definition finish ::
  "(string \<Rightarrow> string) \<Rightarrow> time \<Rightarrow> string \<Rightarrow> 'r outcome \<Rightarrow> 'r manager \<Rightarrow> 'r manager" where
  "finish redact now i out m =
     (case map_of (entries m) i of
        Some e \<Rightarrow>
          if active e \<and> \<not> released e then
            (case conclude redact now i (e\<lparr>executionSettled := True\<rparr>) out m of
               Inr m' \<Rightarrow> release now i m' | Inl _ \<Rightarrow> release now i m)
          else m
      | None \<Rightarrow>
          (case map_of (detached m) i of
             Some e \<Rightarrow>
               if active e \<and> \<not> released e
               then m\<lparr>detached := js_set (detached m) i (e\<lparr>released := True\<rparr>),
                      runningCount := max 0 (runningCount m - 1)\<rparr>
               else m
           | None \<Rightarrow> m))"

section \<open>Queries\<close>

definition getJob :: "string \<Rightarrow> 'r manager \<Rightarrow> 'r job option" where
  "getJob i m = map_option job (map_of (entries m) i)"

definition getForOwner :: "string \<Rightarrow> string \<Rightarrow> 'r manager \<Rightarrow> 'r job option" where
  "getForOwner i owner m =
     (case map_of (entries m) i of None \<Rightarrow> None
      | Some e \<Rightarrow> if ownerUserId (job e) \<noteq> owner then None else Some (job e))"

text \<open>Newest first, ties by descending id; \<open>collate\<close> is \<open>localeCompare\<close>.\<close>

definition job_order :: "(string \<Rightarrow> string \<Rightarrow> int) \<Rightarrow> 'r job \<Rightarrow> 'r job \<Rightarrow> int" where
  "job_order collate l r =
     (if createdAt r - createdAt l \<noteq> 0 then createdAt r - createdAt l
      else collate (jid r) (jid l))"

record 'r job_page =
  items :: "'r job list"
  page_total :: nat
  page_number :: int
  page_size :: int

definition owner_jobs :: "(string \<Rightarrow> string \<Rightarrow> int) \<Rightarrow> string \<Rightarrow> 'r manager \<Rightarrow> 'r job list" where
  "owner_jobs collate owner m =
     sort_by (job_order collate)
       (map job (filter (\<lambda>e. ownerUserId (job e) = owner) (map snd (entries m))))"

definition listByOwner ::
  "(string \<Rightarrow> string \<Rightarrow> int) \<Rightarrow> string \<Rightarrow> int \<Rightarrow> int \<Rightarrow> 'r manager \<Rightarrow> job_manager_error + 'r job_page" where
  "listByOwner collate owner page pageSize m =
     (case positiveInteger page of Inl e \<Rightarrow> Inl e | Inr p \<Rightarrow>
      (case positiveInteger pageSize of Inl e \<Rightarrow> Inl e | Inr n \<Rightarrow>
         let jobs = owner_jobs collate owner m;
             offset = (p - 1) * n
         in Inr \<lparr>items = js_slice jobs (nat offset) (nat (offset + n)),
                 page_total = length jobs, page_number = p, page_size = n\<rparr>))"

section \<open>Histories\<close>

datatype 'r event =
    Submit string string string "bool option"
  | Cancel string
  | CancelForOwner string string
  | Report string progress
  | Timer string
  | Settle string
  | Finish string "'r outcome"
  | Cleanup
  | WhenIdle
  | Dispose

definition submitted :: "'r manager \<Rightarrow> string list" where
  "submitted m = [jid j. (_, StateEvent j) \<leftarrow> log m, state j = Queued]"

definition started :: "'r manager \<Rightarrow> string list" where
  "started m = [jid j. (_, StateEvent j) \<leftarrow> log m, state j = Running]"

text \<open>A handler that throws leaves the manager as it was.\<close>

definition or_same :: "'s \<Rightarrow> 'e + 's \<Rightarrow> 's" where
  "or_same s r = (case r of Inl _ \<Rightarrow> s | Inr s' \<Rightarrow> s')"

text \<open>
  One event at a time. Ids come from \<open>createUuidV7\<close>, which never repeats one: a submission under
  a used id does not happen.
\<close>

fun job_step :: "(string \<Rightarrow> string) \<Rightarrow> 'r manager \<Rightarrow> time \<times> 'r event \<Rightarrow> 'r manager" where
  "job_step redact m (now, Submit i ty owner c) =
     (if i \<in> set (submitted m) then m else or_same m (submit now i ty owner c m))"
| "job_step redact m (now, Cancel i) = or_same m (cancel now i m)"
| "job_step redact m (now, CancelForOwner i owner) = or_same m (cancelForOwner now i owner m)"
| "job_step redact m (now, Report i p) = or_same m (reportProgress now i p m)"
| "job_step redact m (now, Timer i) = fireTimer now i m"
| "job_step redact m (now, Settle i) = settle i m"
| "job_step redact m (now, Finish i out) = finish redact now i out m"
| "job_step redact m (now, Cleanup) = fst (cleanup now m)"
| "job_step redact m (now, WhenIdle) = whenIdle m"
| "job_step redact m (now, Dispose) = dispose m"

end
