(* ===== verification/JobsInv.thy ===== *)
theory JobsInv
  imports Jobs
begin

text \<open>
  The invariant of the job queue, its preservation by every handler and the order of job states
  along a history; both are interpretations of the contracts of \<open>Prelude\<close> on \<open>job_step\<close>.
\<close>

section \<open>Frame lemmas\<close>

lemma emit_simps [simp]:
  "entries (emit t ev m) = entries m" "queue (emit t ev m) = queue m"
  "concurrency (emit t ev m) = concurrency m" "runningCount (emit t ev m) = runningCount m"
  "disposed (emit t ev m) = disposed m" "log (emit t ev m) = log m @ [(t, ev)]"
  "detached (emit t ev m) = detached m" "progressThrottleMs (emit t ev m) = progressThrottleMs m"
  "retentionMs (emit t ev m) = retentionMs m" "idleWaiters (emit t ev m) = idleWaiters m"
  "resolvedWaiters (emit t ev m) = resolvedWaiters m"
  by (simp_all add: emit_def)

lemma set_entry_simps [simp]:
  "entries (set_entry i e m) = js_set (entries m) i e" "queue (set_entry i e m) = queue m"
  "concurrency (set_entry i e m) = concurrency m" "runningCount (set_entry i e m) = runningCount m"
  "disposed (set_entry i e m) = disposed m" "log (set_entry i e m) = log m"
  "detached (set_entry i e m) = detached m"
  "progressThrottleMs (set_entry i e m) = progressThrottleMs m"
  "retentionMs (set_entry i e m) = retentionMs m" "idleWaiters (set_entry i e m) = idleWaiters m"
  "resolvedWaiters (set_entry i e m) = resolvedWaiters m"
  by (simp_all add: set_entry_def)

lemma enter_state_simps [simp]:
  "jid (enter_state now s j) = jid j" "state (enter_state now s j) = s"
  "ownerUserId (enter_state now s j) = ownerUserId j"
  "cancellable (enter_state now s j) = cancellable j"
  "createdAt (enter_state now s j) = createdAt j" "jtype (enter_state now s j) = jtype j"
  by (simp_all add: enter_state_def)

lemma resolve_simps [simp]:
  "entries (resolveIdleWaiters m) = entries m" "queue (resolveIdleWaiters m) = queue m"
  "concurrency (resolveIdleWaiters m) = concurrency m"
  "runningCount (resolveIdleWaiters m) = runningCount m"
  "disposed (resolveIdleWaiters m) = disposed m" "log (resolveIdleWaiters m) = log m"
  "detached (resolveIdleWaiters m) = detached m"
  "progressThrottleMs (resolveIdleWaiters m) = progressThrottleMs m"
  by (simp_all add: resolveIdleWaiters_def)

lemma submitted_emit [simp]:
  "submitted (emit t (ProgressEvent j) m) = submitted m"
  "started (emit t (ProgressEvent j) m) = started m"
  "submitted (emit t (StateEvent j) m) = submitted m @ (if state j = Queued then [jid j] else [])"
  "started (emit t (StateEvent j) m) = started m @ (if state j = Running then [jid j] else [])"
  by (simp_all add: submitted_def started_def)

lemma submitted_log_cong:
  "log m = log m' \<Longrightarrow> submitted m = submitted m'" "log m = log m' \<Longrightarrow> started m = started m'"
  by (simp_all add: submitted_def started_def)

lemma submitted_same [simp]:
  "submitted (set_entry i e m) = submitted m" "started (set_entry i e m) = started m"
  "submitted (resolveIdleWaiters m) = submitted m" "started (resolveIdleWaiters m) = started m"
  "submitted (m\<lparr>runningCount := c\<rparr>) = submitted m" "started (m\<lparr>runningCount := c\<rparr>) = started m"
  "submitted (m\<lparr>queue := q\<rparr>) = submitted m" "started (m\<lparr>queue := q\<rparr>) = started m"
  "submitted (m\<lparr>entries := es\<rparr>) = submitted m" "started (m\<lparr>entries := es\<rparr>) = started m"
  "submitted (m\<lparr>detached := es\<rparr>) = submitted m" "started (m\<lparr>detached := es\<rparr>) = started m"
  "submitted (m\<lparr>disposed := b\<rparr>) = submitted m" "started (m\<lparr>disposed := b\<rparr>) = started m"
  "submitted (m\<lparr>idleWaiters := n\<rparr>) = submitted m" "started (m\<lparr>idleWaiters := n\<rparr>) = started m"
  "submitted (m\<lparr>resolvedWaiters := n\<rparr>) = submitted m" "started (m\<lparr>resolvedWaiters := n\<rparr>) = started m"
  by (simp_all add: submitted_def started_def)

text \<open>Counting entries of a map with distinct keys under an update.\<close>

definition count_if :: "('v \<Rightarrow> bool) \<Rightarrow> ('k, 'v) jsmap \<Rightarrow> nat" where
  "count_if P m = length (filter (\<lambda>p. P (snd p)) m)"

lemma count_if_set_absent:
  "map_of m k = None \<Longrightarrow> count_if P (js_set m k v) = count_if P m + of_bool (P v)"
  by (induction m k v rule: js_set.induct) (auto simp: count_if_def split: if_splits)

lemma count_if_set:
  "map_of m k = Some v0 \<Longrightarrow>
     count_if P (js_set m k v) + of_bool (P v0) = count_if P m + of_bool (P v)"
  by (induction m k v rule: js_set.induct) (auto simp: count_if_def split: if_splits)

lemma count_if_filter:
  "(\<And>k v. (k, v) \<in> set m \<Longrightarrow> P v \<Longrightarrow> Q (k, v)) \<Longrightarrow> count_if P (filter Q m) = count_if P m"
  by (induction m) (auto simp: count_if_def)

section \<open>The invariant\<close>

definition entry_ok :: "'r manager \<Rightarrow> string \<Rightarrow> 'r entry \<Rightarrow> bool" where
  "entry_ok m i e \<longleftrightarrow> jid (job e) = i \<and> \<not> entry_disposed e \<and> (isTerminal (state (job e)) \<or> \<not> released e)
     \<and> i \<in> set (submitted m)"

text \<open>What holds between handlers and inside \<open>pump\<close>, where \<open>q\<close> is the rest of the queue.\<close>

definition core :: "string list \<Rightarrow> 'r manager \<Rightarrow> bool" where
  "core q m \<longleftrightarrow> \<not> disposed m \<and> detached m = [] \<and> distinct (js_keys (entries m)) \<and> 0 < concurrency m
     \<and> (\<forall>i e. map_of (entries m) i = Some e \<longrightarrow> entry_ok m i e)
     \<and> runningCount m = int (count_if active (entries m)) \<and> runningCount m \<le> concurrency m
     \<and> (\<forall>i e. map_of (entries m) i = Some e \<longrightarrow> state (job e) = Queued \<longrightarrow> i \<in> set q)
     \<and> subseq (started m @ q) (submitted m) \<and> distinct (submitted m)"

definition busy :: "'r manager \<Rightarrow> bool" where
  "busy m \<longleftrightarrow> queue m = [] \<or> runningCount m = concurrency m"

definition dead :: "'r manager \<Rightarrow> bool" where
  "dead m \<longleftrightarrow> disposed m \<and> entries m = [] \<and> queue m = []
     \<and> subseq (started m) (submitted m) \<and> distinct (submitted m)"

definition job_inv :: "'r manager \<Rightarrow> bool" where
  "job_inv m \<longleftrightarrow> dead m \<or> core (queue m) m \<and> busy m"

lemma coreD:
  assumes "core q m"
  shows "\<not> disposed m" "distinct (js_keys (entries m))" "0 < concurrency m"
    "map_of (entries m) i = Some e \<Longrightarrow> entry_ok m i e"
    "runningCount m = int (count_if active (entries m))" "runningCount m \<le> concurrency m"
    "map_of (entries m) i = Some e \<Longrightarrow> state (job e) = Queued \<Longrightarrow> i \<in> set q"
    "subseq (started m @ q) (submitted m)" "distinct (submitted m)"
  using assms by (auto simp: core_def)

lemma runningCount_nonneg: "core q m \<Longrightarrow> 0 \<le> runningCount m"
  using coreD(5) by fastforce

lemma core_cong:
  "entries m = entries m' \<Longrightarrow> disposed m = disposed m' \<Longrightarrow> concurrency m = concurrency m' \<Longrightarrow>
     runningCount m = runningCount m' \<Longrightarrow> log m = log m' \<Longrightarrow> detached m = detached m' \<Longrightarrow>
     core q m = core q m'"
  by (simp add: core_def entry_ok_def submitted_log_cong [of m m'])

lemma core_resolve [simp]: "core q (resolveIdleWaiters m) = core q m"
  by (rule core_cong) simp_all

lemma core_queue [simp]: "core q (m\<lparr>queue := x\<rparr>) = core q m"
  by (rule core_cong) simp_all

text \<open>One entry changes, and the running count by what that entry adds to it.\<close>

lemma core_set_entry:
  assumes c: "core q m" and e: "map_of (entries m) i = Some e"
    and ok: "jid (job e') = i" "\<not> entry_disposed e'" "isTerminal (state (job e')) \<or> \<not> released e'"
    and st: "state (job e') = Queued \<longrightarrow> state (job e) = Queued"
    and rc: "rc = runningCount m + of_bool (active e') - of_bool (active e)" "rc \<le> concurrency m"
  shows "core q ((set_entry i e' m)\<lparr>runningCount := rc\<rparr>)"
proof -
  have "int (count_if active (js_set (entries m) i e')) = rc"
    using count_if_set [OF e, of active e'] coreD(5) [OF c] rc(1)
    by (auto simp: of_bool_def split: if_splits)
  moreover have "entry_ok m i e'"
    using coreD(4) [OF c e] ok by (simp add: entry_ok_def)
  ultimately show ?thesis
    using c e st rc(2) unfolding core_def
    by (auto simp: entry_ok_def distinct_js_set)
qed

lemma core_set_entry_same:
  assumes "core q m" "map_of (entries m) i = Some e"
    "jid (job e') = i" "\<not> entry_disposed e'" "isTerminal (state (job e')) \<or> \<not> released e'"
    "state (job e') = Queued \<longrightarrow> state (job e) = Queued" "active e' = active e"
  shows "core q (set_entry i e' m)"
proof -
  have "core q ((set_entry i e' m)\<lparr>runningCount := runningCount m\<rparr>)"
    using assms coreD(6) by (intro core_set_entry) auto
  then show ?thesis by (simp add: set_entry_def)
qed

lemma core_emit:
  assumes "core q m" and "\<And>j. ev = StateEvent j \<Longrightarrow> state j \<noteq> Queued \<and> state j \<noteq> Running"
  shows "core q (emit now ev m)"
  using assms by (cases ev) (auto simp: core_def entry_ok_def)

text \<open>A transition other than to \<open>Running\<close>.\<close>

lemma core_transition:
  assumes c: "core q m" and e: "map_of (entries m) i = Some e"
    and e': "jid (job e') = i" "\<not> entry_disposed e'" "\<not> released e'"
    and next_state: "s \<noteq> Queued" "s \<noteq> Running"
    and t: "transition now i e' s m = Inr m'"
    and rc: "rc = runningCount m + of_bool (s = Cancelling) - of_bool (active e)" "rc \<le> concurrency m"
  shows "core q (m'\<lparr>runningCount := rc\<rparr>)"
proof -
  let ?e = "e'\<lparr>job := enter_state now s (job e')\<rparr>"
  have m': "m' = emit now (StateEvent (job ?e)) (set_entry i ?e m)"
    using t by (auto simp: transition_def Let_def split: if_splits)
  have "core q ((set_entry i ?e m)\<lparr>runningCount := rc\<rparr>)"
    using assms by (intro core_set_entry [OF c e]) (auto simp: active_def)
  then have "core q (emit now (StateEvent (job ?e)) ((set_entry i ?e m)\<lparr>runningCount := rc\<rparr>))"
    using next_state by (intro core_emit) auto
  then show ?thesis
    by (rule core_cong [THEN iffD1, rotated 6]) (simp_all add: m')
qed

section \<open>\<open>pump\<close>\<close>

lemma core_drop:
  assumes "core (i # q) m" "\<And>e. map_of (entries m) i = Some e \<Longrightarrow> state (job e) \<noteq> Queued"
  shows "core q m"
proof -
  have "subseq (started m @ q) (started m @ i # q)" by (auto simp: subseq_append' intro: list_emb_Cons)
  then have "subseq (started m @ q) (submitted m)"
    using coreD(8) [OF assms(1)] subseq_order.order_trans by blast
  moreover have "\<forall>k e. map_of (entries m) k = Some e \<longrightarrow> state (job e) = Queued \<longrightarrow> k \<in> set q"
    using coreD(7) [OF assms(1)] assms(2) by fastforce
  ultimately show ?thesis using assms(1) by (simp add: core_def)
qed

lemma core_start:
  assumes c: "core (i # q) m" and e: "map_of (entries m) i = Some e" "state (job e) = Queued"
    and room: "runningCount m < concurrency m"
    and t: "transition now i e Running (m\<lparr>runningCount := runningCount m + 1\<rparr>) = Inr m'"
  shows "core q m'"
proof -
  let ?j = "enter_state now Running (job e)"
  let ?e = "e\<lparr>job := ?j\<rparr>"
  have ok: "jid (job e) = i" "\<not> entry_disposed e" "i \<in> set (submitted m)" "\<not> released e"
    using coreD(4) [OF c e(1)] e(2) by (auto simp: entry_ok_def isTerminal_def)
  have m': "m' = emit now (StateEvent ?j) (set_entry i ?e (m\<lparr>runningCount := runningCount m + 1\<rparr>))"
    using t by (auto simp: transition_def Let_def split: if_splits)
  have act: "active ?e" "\<not> active e" using e(2) by (auto simp: active_def)
  then have "int (count_if active (js_set (entries m) i ?e)) = runningCount m + 1"
    using count_if_set [OF e(1), of active ?e] coreD(5) [OF c] by simp
  then show ?thesis
    using c ok room e unfolding core_def m' by (auto simp: entry_ok_def distinct_js_set)
qed

lemma pump_loop_core:
  "core q m \<Longrightarrow> core (queue (pump_loop now q m)) (pump_loop now q m) \<and> busy (pump_loop now q m)"
proof (induction q arbitrary: m)
  case Nil
  then show ?case by (simp add: busy_def)
next
  case (Cons i q)
  show ?case
  proof (cases "runningCount m < concurrency m")
    case False
    then show ?thesis
      using Cons.prems coreD(6) [OF Cons.prems]
      by (simp add: busy_def)
  next
    case room: True
    show ?thesis
    proof (cases "map_of (entries m) i")
      case None
      then have "core q m" using core_drop [OF Cons.prems] by simp
      then show ?thesis using room None Cons.IH by simp
    next
      case (Some e)
      show ?thesis
      proof (cases "state (job e) = Queued")
        case False
        then have "core q m" using core_drop [OF Cons.prems] Some by simp
        then show ?thesis using room Some False Cons.IH by simp
      next
        case queued: True
        then obtain m' where t: "transition now i e Running (m\<lparr>runningCount := runningCount m + 1\<rparr>) = Inr m'"
          by (simp add: transition_def canTransitionJob_def Let_def)
        have "core q m'" by (rule core_start [OF Cons.prems Some queued room t])
        then show ?thesis using room Some queued t Cons.IH by simp
      qed
    qed
  qed
qed

lemma pump_inv: "core (queue m) m \<Longrightarrow> job_inv (pump now m)"
  using pump_loop_core [of "queue m" m now] coreD(1) [of "queue m" m]
  by (simp add: pump_def job_inv_def busy_def)

section \<open>The handlers keep the invariant\<close>

lemma job_inv_core: "job_inv m \<Longrightarrow> \<not> disposed m \<Longrightarrow> core (queue m) m"
  by (auto simp: job_inv_def dead_def)

lemma job_inv_disposed: "job_inv m \<Longrightarrow> disposed m \<longleftrightarrow> dead m"
  using coreD(1) by (auto simp: job_inv_def dead_def)

lemma core_new_entry:
  assumes c: "core q m" and i: "i \<notin> set (submitted m)"
    and e: "jid (job e) = i" "state (job e) = Queued" "\<not> entry_disposed e" "\<not> released e"
  shows "core (q @ [i]) (emit now (StateEvent (job e)) (set_entry i e m))"
proof -
  have none: "map_of (entries m) i = None"
    using coreD(4) [OF c, of i] i by (cases "map_of (entries m) i") (auto simp: entry_ok_def)
  have "\<not> active e" using e(2) by (simp add: active_def)
  then have "runningCount m = int (count_if active (js_set (entries m) i e))"
    using count_if_set_absent [OF none, of active e] coreD(5) [OF c] by simp
  moreover have "subseq ((started m @ q) @ [i]) (submitted m @ [i])"
    using coreD(8) [OF c] by (rule list_emb_append_mono) simp
  ultimately show ?thesis
    using c e i unfolding core_def by (auto simp: entry_ok_def distinct_js_set)
qed

lemma submit_inv:
  assumes "job_inv m" "i \<notin> set (submitted m)" "submit now i ty owner canc m = Inr m'"
  shows "job_inv m'"
proof -
  have nd: "\<not> disposed m" using assms(3) by (auto simp: submit_def split: if_splits)
  let ?j = "\<lparr>jid = i, jtype = ty, ownerUserId = owner, state = Queued,
                 progress = initialProgress, result = None, error = None, createdAt = now,
                 startedAt = None, endedAt = None,
                 cancellable = (case canc of None \<Rightarrow> True | Some b \<Rightarrow> b)\<rparr>"
  let ?e = "\<lparr>job = ?j, aborted = False, lastProgressEmittedAt = None, progressTimer = None,
                 executionSettled = False, released = False, entry_disposed = False\<rparr>"
  let ?n = "emit now (StateEvent ?j) ((set_entry i ?e m)\<lparr>queue := queue m @ [i]\<rparr>)"
  have m': "m' = pump now ?n"
    using assms(3) nd by (auto simp: submit_def Let_def split: if_splits)
  have "core (queue m @ [i]) (emit now (StateEvent (job ?e)) (set_entry i ?e m))"
    using job_inv_core [OF assms(1) nd] assms(2) by (intro core_new_entry) auto
  moreover have "core (queue m @ [i]) ?n
      = core (queue m @ [i]) (emit now (StateEvent (job ?e)) (set_entry i ?e m))"
    by (rule core_cong) simp_all
  ultimately have "core (queue ?n) ?n" by simp
  then show ?thesis unfolding m' by (rule pump_inv)
qed

lemma transition_frame:
  assumes "transition now i e s m = Inr m'"
  shows "queue m' = queue m" "runningCount m' = runningCount m" "concurrency m' = concurrency m"
    "disposed m' = disposed m" "detached m' = detached m" "canTransitionJob (state (job e)) s"
    "entries m' = js_set (entries m) i (e\<lparr>job := enter_state now s (job e)\<rparr>)"
  using assms by (auto simp: transition_def Let_def split: if_splits)

lemma core_transition_same:
  assumes "core q m" "map_of (entries m) i = Some e" "jid (job e') = i" "\<not> entry_disposed e'"
    "\<not> released e'" "s \<noteq> Queued" "s \<noteq> Running" "transition now i e' s m = Inr m'"
    "(s = Cancelling) = active e"
  shows "core q m'"
proof -
  have "core q (m'\<lparr>runningCount := runningCount m\<rparr>)"
    using assms coreD(6) [OF assms(1)] by (intro core_transition [where i = i]) auto
  moreover have "core q (m'\<lparr>runningCount := runningCount m\<rparr>) = core q m'"
    using transition_frame(2) [OF assms(8)] by (intro core_cong) simp_all
  ultimately show ?thesis by simp
qed

text \<open>A successful cancellation does nothing, drops a queued job, or asks a running one to stop.\<close>

lemma cancelEntry_cases:
  assumes "cancelEntry now i (Some en) m = Inr m'"
  obtains (same) "m' = m"
    | (queued) m1 where "state (job en) = Queued"
        "transition now i (en\<lparr>aborted := True\<rparr>) Cancelled m = Inr m1" "m' = pump now m1"
    | (running) "state (job en) = Running"
        "transition now i (en\<lparr>aborted := True\<rparr>) Cancelling m = Inr m'"
  using assms by (auto simp: cancelEntry_def split: if_splits sum.splits)

lemma cancelEntry_inv:
  assumes inv: "job_inv m" and e: "eo = map_of (entries m) i"
    and r: "cancelEntry now i eo m = Inr m'"
  shows "job_inv m'"
proof (cases "eo")
  case None
  then show ?thesis using r by (simp add: cancelEntry_def)
next
  case (Some en)
  have nd: "\<not> disposed m" using inv e Some by (auto simp: job_inv_def dead_def coreD(1))
  have c: "core (queue m) m" by (rule job_inv_core [OF inv nd])
  have em: "map_of (entries m) i = Some en" using e Some by simp
  have ok: "entry_ok m i en" by (rule coreD(4) [OF c em])
  from r Some have "cancelEntry now i (Some en) m = Inr m'" by simp
  then show ?thesis
  proof (cases rule: cancelEntry_cases)
    case same
    then show ?thesis using inv by simp
  next
    case (queued m1)
    have "core (queue m) m1"
      using ok queued(1) by (intro core_transition_same [OF c em _ _ _ _ _ queued(2)])
        (auto simp: entry_ok_def isTerminal_def active_def)
    then show ?thesis
      using transition_frame(1) [OF queued(2)] queued(3) by (simp add: pump_inv)
  next
    case running
    have "core (queue m) m'"
      using ok running(1) by (intro core_transition_same [OF c em _ _ _ _ _ running(2)])
        (auto simp: entry_ok_def isTerminal_def active_def)
    then show ?thesis
      using transition_frame [OF running(2)] inv nd
      by (auto simp: job_inv_def dead_def busy_def)
  qed
qed

text \<open>Changes of an entry that the invariant does not look at.\<close>

definition same_core :: "'r entry \<Rightarrow> 'r entry \<Rightarrow> bool" where
  "same_core e e' \<longleftrightarrow> jid (job e') = jid (job e) \<and> state (job e') = state (job e)
     \<and> entry_disposed e' = entry_disposed e \<and> released e' = released e"

lemma same_core_inv:
  assumes "job_inv m" "map_of (entries m) i = Some e" "same_core e e'"
  shows "job_inv (set_entry i e' m)"
proof -
  have nd: "\<not> disposed m" using assms by (auto simp: job_inv_def dead_def coreD(1))
  have c: "core (queue m) m" by (rule job_inv_core [OF assms(1) nd])
  have "core (queue m) (set_entry i e' m)"
    using coreD(4) [OF c assms(2)] assms(3)
    by (intro core_set_entry_same [OF c assms(2)]) (auto simp: same_core_def entry_ok_def active_def)
  then show ?thesis using assms(1) nd by (auto simp: job_inv_def dead_def busy_def)
qed

lemma job_inv_progress_event: "job_inv m \<Longrightarrow> job_inv (emit now (ProgressEvent j) m)"
  by (auto simp: job_inv_def dead_def busy_def intro: core_emit)

lemma emitProgress_inv:
  "job_inv m \<Longrightarrow> map_of (entries m) i = Some e \<Longrightarrow> same_core e e' \<Longrightarrow> job_inv (emitProgress now i e' m)"
  unfolding emitProgress_def
  by (intro job_inv_progress_event same_core_inv) (auto simp: same_core_def)

lemma scheduleProgress_inv:
  "job_inv m \<Longrightarrow> map_of (entries m) i = Some e \<Longrightarrow> same_core e e' \<Longrightarrow> job_inv (scheduleProgress now i e' m)"
  unfolding scheduleProgress_def Let_def
  by (auto split: option.split intro!: same_core_inv simp: same_core_def)

lemma reportProgress_inv:
  assumes "job_inv m" "reportProgress now i p m = Inr m'"
  shows "job_inv m'"
  using assms
  by (auto simp: reportProgress_def Let_def same_core_def
      split: option.splits if_splits sum.splits intro: emitProgress_inv scheduleProgress_inv)

lemma fireTimer_inv: "job_inv m \<Longrightarrow> job_inv (fireTimer now i m)"
  by (auto simp: fireTimer_def Let_def same_core_def active_def
      split: option.split intro: same_core_inv emitProgress_inv scheduleProgress_inv)

lemma settle_inv: "job_inv m \<Longrightarrow> job_inv (settle i m)"
  by (auto simp: settle_def same_core_def split: option.split intro: same_core_inv)

text \<open>The last transition of an execution.\<close>

definition concluded_entry :: "(string \<Rightarrow> string) \<Rightarrow> 'r entry \<Rightarrow> 'r outcome \<Rightarrow> 'r entry" where
  "concluded_entry redact e out =
     (case out of
        Returned None \<Rightarrow> e
      | Returned (Some v) \<Rightarrow> e\<lparr>job := (job e)\<lparr>result := Some v\<rparr>\<rparr>
      | Threw x \<Rightarrow>
          if state (job e) = Cancelling then e
          else e\<lparr>job := (job e)\<lparr>error := Some (normalizedError redact x)\<rparr>\<rparr>)"

definition conclusion :: "job_state \<Rightarrow> 'r outcome \<Rightarrow> job_state" where
  "conclusion s out =
     (if s = Cancelling then Cancelled
      else case out of Returned _ \<Rightarrow> Completed | Threw _ \<Rightarrow> Failed)"

lemma conclude_eq:
  "active e \<Longrightarrow> conclude redact now i e out m
     = transition now i (concluded_entry redact e out) (conclusion (state (job e)) out) m"
  by (auto simp: conclude_def active_def concluded_entry_def conclusion_def
      split: outcome.split option.split)

lemma concluded_same [simp]: "same_core e (concluded_entry redact e out)"
  by (auto simp: same_core_def concluded_entry_def split: outcome.split option.split)

lemma concluded_fields [simp]:
  "state (job (concluded_entry redact e out)) = state (job e)"
  "jid (job (concluded_entry redact e out)) = jid (job e)"
  "released (concluded_entry redact e out) = released e"
  "entry_disposed (concluded_entry redact e out) = entry_disposed e"
  using concluded_same [of e redact out] unfolding same_core_def by auto

lemma conclusion_terminal: "isTerminal (conclusion s out)"
  by (auto simp: conclusion_def isTerminal_def split: outcome.split)

lemma conclude_transition:
  assumes act: "active e"
  obtains m' where "transition now i (concluded_entry redact e out) (conclusion (state (job e)) out) m = Inr m'"
    and "conclude redact now i e out m = Inr m'"
proof -
  have "canTransitionJob (state (job (concluded_entry redact e out))) (conclusion (state (job e)) out)"
    using act by (auto simp: active_def canTransitionJob_def conclusion_def split: outcome.split)
  then show ?thesis
    using that by (simp add: conclude_eq [OF act] transition_def Let_def)
qed

lemma finish_active_inv:
  assumes inv: "job_inv m" and e: "map_of (entries m) i = Some e" and act: "active e" "\<not> released e"
  shows "job_inv (finish redact now i out m)"
proof -
  have nd: "\<not> disposed m" using inv e by (auto simp: job_inv_def dead_def coreD(1))
  have c: "core (queue m) m" by (rule job_inv_core [OF inv nd])
  let ?s = "conclusion (state (job (e\<lparr>executionSettled := True\<rparr>))) out"
  let ?e1 = "concluded_entry redact (e\<lparr>executionSettled := True\<rparr>) out"
  have "active (e\<lparr>executionSettled := True\<rparr>)" using act by (simp add: active_def)
  then obtain m1 where t: "transition now i ?e1 ?s m = Inr m1"
    and cl: "conclude redact now i (e\<lparr>executionSettled := True\<rparr>) out m = Inr m1"
    by (rule conclude_transition)
  let ?e2 = "?e1\<lparr>job := enter_state now ?s (job ?e1)\<rparr>"
  let ?rc = "runningCount m - 1"
  have ok: "jid (job e) = i" "\<not> entry_disposed e"
    using coreD(4) [OF c e] by (simp_all add: entry_ok_def)
  have s: "?s \<noteq> Queued" "?s \<noteq> Running" "?s \<noteq> Cancelling"
    using conclusion_terminal [of "state (job (e\<lparr>executionSettled := True\<rparr>))" out]
    by (auto simp: isTerminal_def)
  have c1: "core (queue m) (m1\<lparr>runningCount := ?rc\<rparr>)"
    using ok act s coreD(6) [OF c] by (intro core_transition [OF c e _ _ _ _ _ t]) auto
  have e2: "map_of (entries (m1\<lparr>runningCount := ?rc\<rparr>)) i = Some ?e2"
    using transition_frame(7) [OF t] by simp
  let ?e3 = "?e2\<lparr>progressTimer := None, released := True\<rparr>"
  have c2: "core (queue m) (set_entry i ?e3 (m1\<lparr>runningCount := ?rc\<rparr>))"
    using ok conclusion_terminal
    by (intro core_set_entry_same [OF c1 e2]) (auto simp: active_def)
  have pos: "0 \<le> ?rc" using runningCount_nonneg [OF c1] by simp
  let ?m2 = "(set_entry i ?e3 m1)\<lparr>runningCount := max 0 (runningCount m1 - 1)\<rparr>"
  have "core (queue m) ?m2"
    by (rule core_cong [THEN iffD1, OF _ _ _ _ _ _ c2])
      (use pos transition_frame(2) [OF t] in simp_all)
  then have "job_inv (pump now ?m2)"
    using transition_frame(1) [OF t] by (intro pump_inv) simp
  moreover have "finish redact now i out m = pump now ?m2"
    using e act cl e2 by (simp add: finish_def release_def)
  ultimately show ?thesis by simp
qed

lemma finish_inv: "job_inv m \<Longrightarrow> job_inv (finish redact now i out m)"
proof (cases "map_of (entries m) i")
  case (Some e)
  moreover assume "job_inv m"
  ultimately show ?thesis
    using finish_active_inv [of m i e redact now out]
    by (cases "active e \<and> \<not> released e") (auto simp: finish_def)
next
  case None
  assume inv: "job_inv m"
  show ?thesis
  proof (cases "disposed m")
    case True
    then show ?thesis
      using inv None by (auto simp: finish_def job_inv_def dead_def core_def split: option.split)
  next
    case False
    then have "detached m = []" using inv by (auto simp: job_inv_def dead_def core_def)
    then show ?thesis using inv None by (simp add: finish_def)
  qed
qed

lemma map_of_filter_keys:
  "distinct (map fst m) \<Longrightarrow> map_of (filter P m) k = Some v \<longleftrightarrow> map_of m k = Some v \<and> P (k, v)"
  by (induction m) (auto dest: map_of_SomeD split: if_splits intro: rev_image_eqI)

lemma cleanup_entries:
  "entries (fst (cleanup now m)) = filter (\<lambda>(i, e). \<not> expired (now - retentionMs m) e) (entries m)"
  by (simp add: cleanup_def Let_def)

lemma cleanup_core: "core q m \<Longrightarrow> core q (fst (cleanup now m))"
proof -
  assume c: "core q m"
  let ?P = "\<lambda>(i :: string, e). \<not> expired (now - retentionMs m) e"
  have d: "distinct (map fst (entries m))" using coreD(2) [OF c] by (simp add: js_keys_def)
  have cnt: "count_if active (filter ?P (entries m)) = count_if active (entries m)"
    by (rule count_if_filter) (auto simp: expired_def active_def isTerminal_def)
  have ents: "map_of (entries m) i = Some e"
    if "map_of (entries (fst (cleanup now m))) i = Some e" for i e
    using that by (simp only: cleanup_entries map_of_filter_keys [OF d])
  have same: "submitted (fst (cleanup now m)) = submitted m" "started (fst (cleanup now m)) = started m"
    by (simp_all add: cleanup_def Let_def)
  have "distinct (map fst (filter ?P (entries m)))" using d by (rule distinct_map_filter)
  then have "distinct (js_keys (entries (fst (cleanup now m))))"
    by (simp only: js_keys_def cleanup_entries)
  moreover have "entry_ok (fst (cleanup now m)) i e"
    if "map_of (entries (fst (cleanup now m))) i = Some e" for i e
    using coreD(4) [OF c ents [OF that]] by (simp add: entry_ok_def same)
  moreover have "i \<in> set q"
    if "map_of (entries (fst (cleanup now m))) i = Some e" "state (job e) = Queued" for i e
    using coreD(7) [OF c ents [OF that(1)] that(2)] .
  moreover have "runningCount (fst (cleanup now m)) = int (count_if active (entries (fst (cleanup now m))))"
    using coreD(5) [OF c] cnt by (simp add: cleanup_def Let_def)
  ultimately show ?thesis
    using c unfolding core_def same by (simp add: cleanup_def Let_def)
qed

lemma cleanup_inv: "job_inv m \<Longrightarrow> job_inv (fst (cleanup now m))"
  using cleanup_core [of "queue m" m now]
  by (auto simp: job_inv_def dead_def busy_def cleanup_def Let_def)

lemma whenIdle_inv: "job_inv m \<Longrightarrow> job_inv (whenIdle m)"
  using core_cong [of "whenIdle m" m "queue m"]
  by (auto simp: job_inv_def dead_def busy_def whenIdle_def)

lemma dispose_inv: "job_inv m \<Longrightarrow> job_inv (dispose m)"
proof (cases "disposed m")
  case False
  assume "job_inv m"
  then have c: "core (queue m) m" using False by (rule job_inv_core)
  have "subseq (started m) (submitted m)"
    using coreD(8) [OF c] by (rule subseq_order.order_trans [rotated]) (simp add: prefix_imp_subseq)
  then show ?thesis using False coreD(9) [OF c] by (simp add: dispose_def job_inv_def dead_def)
qed (simp add: dispose_def)

lemma or_same_inv: "P s \<Longrightarrow> (\<And>s'. r = Inr s' \<Longrightarrow> P s') \<Longrightarrow> P (or_same s r)"
  by (cases r) (auto simp: or_same_def)

lemma cancelForOwner_inv:
  assumes "job_inv m" "cancelForOwner now i owner m = Inr m'"
  shows "job_inv m'"
proof (cases "map_of (entries m) i")
  case None
  then show ?thesis using assms(2) by (simp add: cancelForOwner_def)
next
  case (Some e)
  then have "cancelEntry now i (Some e) m = Inr m'"
    using assms(2) by (simp add: cancelForOwner_def split: if_splits)
  then show ?thesis using Some assms(1) by (metis cancelEntry_inv)
qed

lemma job_step_inv:
  assumes "job_inv m"
  shows "job_inv (job_step redact m ev)"
proof (cases ev)
  case (Pair now x)
  show ?thesis
  proof (cases x)
    case (Submit i ty owner c)
    then show ?thesis
      using assms submit_inv [OF assms] by (simp add: Pair or_same_inv)
  next
    case (Cancel i)
    then show ?thesis
      using assms cancelEntry_inv [OF assms refl] by (simp add: Pair cancel_def or_same_inv)
  next
    case (CancelForOwner i owner)
    then show ?thesis
      using assms cancelForOwner_inv [OF assms] by (simp add: Pair or_same_inv)
  next
    case (Report i p)
    then show ?thesis
      using assms reportProgress_inv [OF assms] by (simp add: Pair or_same_inv)
  qed (use assms in \<open>simp_all add: Pair fireTimer_inv settle_inv finish_inv cleanup_inv
        whenIdle_inv dispose_inv\<close>)
qed

interpretation jobs: handler_invariant "job_step redact" job_inv for redact
  by unfold_locales (rule job_step_inv)

lemma new_manager_inv: "new_manager c r p cl = Inr m \<Longrightarrow> job_inv m"
  by (auto simp: new_manager_def job_inv_def core_def busy_def js_keys_def submitted_def started_def
      count_if_def positiveInteger_def split: sum.splits if_splits)

section \<open>The order of job states\<close>

text \<open>How the entry of one id may differ between a state and a later one.\<close>

fun follows :: "'r entry option \<Rightarrow> 'r entry option \<Rightarrow> bool" where
  "follows None x \<longleftrightarrow> x = None"
| "follows (Some e) None \<longleftrightarrow> True"
| "follows (Some e) (Some e') \<longleftrightarrow>
     canTransitionJob\<^sup>*\<^sup>* (state (job e)) (state (job e'))
     \<and> jid (job e') = jid (job e) \<and> ownerUserId (job e') = ownerUserId (job e)
     \<and> createdAt (job e') = createdAt (job e) \<and> cancellable (job e') = cancellable (job e)
     \<and> (isTerminal (state (job e)) \<longrightarrow> job e' = job e)"

lemma terminal_stuck: "isTerminal s \<Longrightarrow> \<not> canTransitionJob s t"
  by (cases s) (auto simp: isTerminal_def canTransitionJob_def)

lemma follows_refl: "follows x x"
  by (cases x) auto

lemma follows_trans: "follows x y \<Longrightarrow> follows y z \<Longrightarrow> follows x z"
  by (cases x; cases y; cases z) (auto intro: rtranclp_trans)

definition job_le :: "'r manager \<Rightarrow> 'r manager \<Rightarrow> bool" where
  "job_le m m' \<longleftrightarrow> set (submitted m) \<subseteq> set (submitted m') \<and>
     (\<forall>i \<in> set (submitted m). follows (map_of (entries m) i) (map_of (entries m') i))"

lemma job_le_refl: "job_le m m"
  by (simp add: job_le_def follows_refl)

lemma job_le_trans: "job_le m n \<Longrightarrow> job_le n p \<Longrightarrow> job_le m p"
  unfolding job_le_def by (meson follows_trans subset_iff)

lemma job_le_update:
  assumes "map_of (entries m) i = Some e" "follows (Some e) (Some e')"
    and "entries m' = js_set (entries m) i e'" "set (submitted m) \<subseteq> set (submitted m')"
  shows "job_le m m'"
  using assms unfolding job_le_def by (auto simp: follows_refl)

lemma job_le_same:
  "entries m' = entries m \<Longrightarrow> log m' = log m \<Longrightarrow> job_le m m'"
  using submitted_log_cong(1) [of m' m] by (simp add: job_le_def follows_refl)

lemma follows_transition:
  assumes "same_core e e1" "ownerUserId (job e1) = ownerUserId (job e)"
    "createdAt (job e1) = createdAt (job e)" "cancellable (job e1) = cancellable (job e)"
    and "canTransitionJob (state (job e1)) s"
  shows "follows (Some e) (Some (e1\<lparr>job := enter_state now s (job e1)\<rparr>))"
  using assms terminal_stuck [of "state (job e)" s] by (auto simp: same_core_def)

lemma job_le_transition:
  assumes "map_of (entries m) i = Some e" "same_core e e1"
    "ownerUserId (job e1) = ownerUserId (job e)" "createdAt (job e1) = createdAt (job e)"
    "cancellable (job e1) = cancellable (job e)" "transition now i e1 s m = Inr m'"
  shows "job_le m m'"
proof (rule job_le_update [OF assms(1)])
  show "follows (Some e) (Some (e1\<lparr>job := enter_state now s (job e1)\<rparr>))"
    using assms transition_frame(6) by (intro follows_transition) auto
  show "entries m' = js_set (entries m) i (e1\<lparr>job := enter_state now s (job e1)\<rparr>)"
    using assms(6) by (rule transition_frame(7))
  show "set (submitted m) \<subseteq> set (submitted m')"
    using assms(6) by (auto simp: transition_def Let_def split: if_splits)
qed

lemma pump_loop_le: "job_le m (pump_loop now q m)"
proof (induction q arbitrary: m)
  case Nil
  then show ?case by (simp add: job_le_same)
next
  case (Cons i q)
  have rc: "job_le m (m\<lparr>runningCount := c\<rparr>)" "job_le m (m\<lparr>runningCount := c, queue := q\<rparr>)"
    "job_le m (m\<lparr>queue := i # q\<rparr>)" for c
    by (simp_all add: job_le_same)
  have step: "job_le m m'" if "map_of (entries m) i = Some e"
    "transition now i e Running (m\<lparr>runningCount := runningCount m + 1\<rparr>) = Inr m'" for e m'
    by (rule job_le_trans [OF rc(1) job_le_transition [OF _ _ _ _ _ that(2)]])
      (use that(1) in \<open>auto simp: same_core_def\<close>)
  show ?case
    using Cons.IH rc job_le_trans [OF step Cons.IH]
    by (auto split: option.split sum.split)
qed

lemma pump_le: "job_le m (pump now m)"
proof -
  have "job_le m (resolveIdleWaiters (pump_loop now (queue m) m))"
    by (rule job_le_trans [OF pump_loop_le job_le_same]) simp_all
  then show ?thesis by (simp add: pump_def job_le_refl)
qed

lemma same_job_le:
  assumes "map_of (entries m) i = Some e" "job e' = job e"
  shows "job_le m (set_entry i e' m)"
  using assms by (intro job_le_update [of m i e e']) auto

lemma cancelEntry_le:
  assumes "eo = map_of (entries m) i" "cancelEntry now i eo m = Inr m'"
  shows "job_le m m'"
proof (cases eo)
  case None
  then show ?thesis using assms(2) by (simp add: cancelEntry_def)
next
  case (Some e)
  have step: "job_le m m1" if "transition now i (e\<lparr>aborted := True\<rparr>) s m = Inr m1" for s m1
    using assms(1) Some by (intro job_le_transition [OF _ _ _ _ _ that]) (auto simp: same_core_def)
  have "cancelEntry now i (Some e) m = Inr m'" using assms(2) Some by simp
  then show ?thesis
  proof (cases rule: cancelEntry_cases)
    case same
    then show ?thesis by (simp add: job_le_refl)
  next
    case (queued m1)
    then show ?thesis using job_le_trans [OF step pump_le] by simp
  next
    case running
    show ?thesis by (rule step [OF running(2)])
  qed
qed

lemma cancelForOwner_le: "cancelForOwner now i owner m = Inr m' \<Longrightarrow> job_le m m'"
  using cancelEntry_le [of "map_of (entries m) i" m i now m']
  by (simp add: cancelForOwner_def split: option.splits if_splits)

lemma emit_progress_le: "job_le m (emit now (ProgressEvent j) m)"
  by (simp add: job_le_def follows_refl)

lemma progress_le:
  assumes "map_of (entries m) i = Some e"
    "follows (Some e) (Some e')"
  shows "job_le m (emitProgress now i e' m)" "job_le m (scheduleProgress now i e' m)"
proof -
  have set: "job_le m (set_entry i e'' m)" if "job e'' = job e'" for e''
    using assms that by (intro job_le_update [of m i e e'']) auto
  show "job_le m (emitProgress now i e' m)"
    unfolding emitProgress_def by (rule job_le_trans [OF set emit_progress_le]) simp
  show "job_le m (scheduleProgress now i e' m)"
    unfolding scheduleProgress_def Let_def by (auto split: option.split intro: set)
qed

lemma active_follows: "active e \<Longrightarrow> follows (Some e) (Some (e\<lparr>job := (job e)\<lparr>progress := p\<rparr>\<rparr>))"
  by (auto simp: active_def isTerminal_def)

lemma reportProgress_le: "reportProgress now i p m = Inr m' \<Longrightarrow> job_le m m'"
  by (auto simp: reportProgress_def Let_def job_le_refl simp del: follows.simps
      split: option.splits if_splits sum.splits intro!: progress_le active_follows)

lemma fireTimer_le: "job_le m (fireTimer now i m)"
  by (auto simp: fireTimer_def Let_def job_le_refl
      split: option.split intro: same_job_le progress_le)

lemma settle_le: "job_le m (settle i m)"
  by (auto simp: settle_def job_le_refl split: option.split intro: same_job_le)

lemma release_le:
  assumes "map_of (entries m) i = Some e"
  shows "job_le m (release now i m)"
proof -
  have "job_le m (set_entry i e' m)" "job_le m ((set_entry i e' m)\<lparr>runningCount := c\<rparr>)"
    if "job e' = job e" for e' c
    using same_job_le [OF assms that] job_le_same job_le_trans by (auto simp: job_le_def)
  then show ?thesis
    unfolding release_def using assms
    by (auto intro!: job_le_trans [OF _ pump_le])
qed

lemma finish_le: "job_le m (finish redact now i out m)"
proof (cases "map_of (entries m) i")
  case None
  then show ?thesis
    by (auto simp: finish_def job_le_refl split: option.split intro: job_le_same)
next
  case (Some e)
  show ?thesis
  proof (cases "active e \<and> \<not> released e")
    case True
    let ?e = "e\<lparr>executionSettled := True\<rparr>"
    have "active ?e" using True by (simp add: active_def)
    then obtain m1 where t: "transition now i (concluded_entry redact ?e out)
        (conclusion (state (job ?e)) out) m = Inr m1"
      and cl: "conclude redact now i ?e out m = Inr m1"
      by (rule conclude_transition)
    have "job_le m m1"
    proof (rule job_le_transition [OF Some _ _ _ _ t])
      show "same_core e (concluded_entry redact ?e out)"
        using concluded_same [of ?e redact out] by (simp add: same_core_def)
    qed (auto simp: concluded_entry_def split: outcome.split option.split)
    moreover have "job_le m1 (release now i m1)"
      using transition_frame(7) [OF t] by (intro release_le) simp
    ultimately show ?thesis
      using Some True cl by (auto simp: finish_def intro: job_le_trans)
  next
    case False
    then show ?thesis using Some by (auto simp: finish_def job_le_refl)
  qed
qed

lemma cleanup_le:
  assumes "job_inv m"
  shows "job_le m (fst (cleanup now m))"
proof -
  have d: "distinct (map fst (entries m))"
    using assms by (auto simp: job_inv_def dead_def core_def js_keys_def)
  have "follows (map_of (entries m) i)
      (map_of (filter (\<lambda>(i, e). \<not> expired (now - retentionMs m) e) (entries m)) i)" for i
  proof (cases "map_of (filter (\<lambda>(i, e). \<not> expired (now - retentionMs m) e) (entries m)) i")
    case None
    then show ?thesis
      by (cases "map_of (entries m) i") auto
  next
    case (Some e)
    then have "map_of (entries m) i = Some e" by (simp only: map_of_filter_keys [OF d])
    then show ?thesis using Some by (simp add: follows_refl)
  qed
  then show ?thesis by (simp add: job_le_def cleanup_def Let_def)
qed

lemma dispose_le: "job_inv m \<Longrightarrow> job_le m (dispose m)"
proof -
  assume inv: "job_inv m"
  have "follows x None" for x :: "'a entry option" by (cases x) auto
  then show ?thesis by (auto simp: dispose_def job_le_def follows_refl)
qed

lemma submit_le:
  assumes "i \<notin> set (submitted m)" "submit now i ty owner c m = Inr m'"
  shows "job_le m m'"
proof -
  obtain j e where m': "m' = pump now (emit now (StateEvent j) ((set_entry i e m)\<lparr>queue := queue m @ [i]\<rparr>))"
    using assms(2) by (auto simp: submit_def Let_def split: if_splits)
  have "job_le m (emit now (StateEvent j) ((set_entry i e m)\<lparr>queue := queue m @ [i]\<rparr>))"
    using assms(1) by (auto simp: job_le_def follows_refl)
  then show ?thesis unfolding m' by (rule job_le_trans [OF _ pump_le])
qed

lemma job_step_le:
  assumes "job_inv m"
  shows "job_le m (job_step redact m ev)"
proof (cases ev)
  case (Pair now x)
  show ?thesis
  proof (cases x)
    case (CancelForOwner i owner)
    then show ?thesis
      using cancelForOwner_le by (auto simp: Pair or_same_def job_le_refl split: sum.splits)
  qed (use assms in \<open>auto simp: Pair cancel_def job_le_refl cleanup_le dispose_le fireTimer_le settle_le
      finish_le or_same_def submit_le reportProgress_le whenIdle_def
      split: sum.splits intro: cancelEntry_le [OF refl] job_le_same\<close>)
qed

interpretation jobs_order: handler_order "job_step redact" job_inv job_le for redact
  by unfold_locales (auto intro: job_step_le job_le_refl job_le_trans)

end
