(* ===== verification/JobsProps.thy ===== *)
theory JobsProps
  imports JobsInv
begin

text \<open>
  The properties of the job queue (\<open>packages/jobs/src/index.ts\<close>), each over every history of
  events from a new manager: legal state changes, bounded and busy workers, first-in first-out
  starts, cancellation that holds, throttled progress, retention, isolation of owners and draining.
\<close>

section \<open>Progress throttling\<close>

definition progress_times :: "string \<Rightarrow> 'r manager \<Rightarrow> time list" where
  "progress_times i m = [t. (t, ProgressEvent j) \<leftarrow> log m, jid j = i]"

definition spaced :: "int \<Rightarrow> time list \<Rightarrow> bool" where
  "spaced d = successively (\<lambda>a b. b - a \<ge> d)"

definition throttled :: "'r manager \<Rightarrow> bool" where
  "throttled m \<longleftrightarrow>
     (\<forall>i. spaced (progressThrottleMs m) (progress_times i m)) \<and>
     (\<forall>i e. map_of (entries m) i = Some e \<longrightarrow>
        lastProgressEmittedAt e = (if progress_times i m = [] then None else Some (last (progress_times i m)))) \<and>
     (\<forall>i. i \<notin> set (submitted m) \<longrightarrow> progress_times i m = [])"

lemma spaced_snoc: "spaced d (ts @ [t]) \<longleftrightarrow> spaced d ts \<and> (ts \<noteq> [] \<longrightarrow> t - last ts \<ge> d)"
  by (auto simp: spaced_def successively_append_iff)

text \<open>Steps that emit no progress and only carry over when an entry emitted last.\<close>

definition quiet :: "'r manager \<Rightarrow> 'r manager \<Rightarrow> bool" where
  "quiet m m' \<longleftrightarrow> progressThrottleMs m' = progressThrottleMs m
     \<and> (\<forall>i. progress_times i m' = progress_times i m)
     \<and> set (submitted m) \<subseteq> set (submitted m')
     \<and> (\<forall>i e'. map_of (entries m') i = Some e' \<longrightarrow>
          (\<exists>e. map_of (entries m) i = Some e \<and> lastProgressEmittedAt e' = lastProgressEmittedAt e))"

lemma quiet_refl: "quiet m m"
  by (simp add: quiet_def)

lemma quiet_trans: "quiet m n \<Longrightarrow> quiet n p \<Longrightarrow> quiet m p"
  unfolding quiet_def by (metis order_trans)

lemma quiet_throttled: "quiet m m' \<Longrightarrow> throttled m \<Longrightarrow> throttled m'"
  unfolding quiet_def throttled_def by (metis subsetD)

lemma progress_times_emit [simp]:
  "progress_times i (emit t (StateEvent j) m) = progress_times i m"
  "progress_times i (emit t (ProgressEvent j) m)
     = progress_times i m @ (if jid j = i then [t] else [])"
  by (simp_all add: progress_times_def)

lemma progress_times_log: "log m = log m' \<Longrightarrow> progress_times i m = progress_times i m'"
  by (simp add: progress_times_def)

lemma quiet_same:
  assumes "entries m' = entries m" "log m' = log m" "progressThrottleMs m' = progressThrottleMs m"
  shows "quiet m m'"
  using assms progress_times_log [of m' m] submitted_log_cong(1) [of m' m] by (simp add: quiet_def)

lemma quiet_set_entry:
  assumes "map_of (entries m) i = Some e" "lastProgressEmittedAt e' = lastProgressEmittedAt e"
  shows "quiet m (set_entry i e' m)"
  using assms progress_times_log [of "set_entry i e' m" m] by (auto simp: quiet_def)

lemma quiet_emit: "quiet m (emit t (StateEvent j) m)"
  by (auto simp: quiet_def)

lemma quiet_transition:
  assumes "map_of (entries m) i = Some e" "lastProgressEmittedAt e1 = lastProgressEmittedAt e"
    "transition now i e1 s m = Inr m'"
  shows "quiet m m'"
proof -
  have "m' = emit now (StateEvent (enter_state now s (job e1)))
      (set_entry i (e1\<lparr>job := enter_state now s (job e1)\<rparr>) m)"
    using assms(3) by (auto simp: transition_def Let_def split: if_splits)
  moreover have "quiet m (set_entry i (e1\<lparr>job := enter_state now s (job e1)\<rparr>) m)"
    using assms(2) by (intro quiet_set_entry [OF assms(1)]) simp
  ultimately show ?thesis using quiet_trans quiet_emit by blast
qed

lemma quiet_pump_loop: "quiet m (pump_loop now q m)"
proof (induction q arbitrary: m)
  case Nil
  then show ?case by (simp add: quiet_same)
next
  case (Cons i q)
  have rc: "quiet m (m\<lparr>runningCount := c\<rparr>)" "quiet m (m\<lparr>runningCount := c, queue := q\<rparr>)"
    "quiet m (m\<lparr>queue := i # q\<rparr>)" for c
    by (simp_all add: quiet_same)
  have step: "quiet m m'" if "map_of (entries m) i = Some e"
    "transition now i e Running (m\<lparr>runningCount := runningCount m + 1\<rparr>) = Inr m'" for e m'
    by (rule quiet_trans [OF rc(1) quiet_transition [OF _ _ that(2)]]) (use that(1) in auto)
  show ?case
    using Cons.IH rc quiet_trans [OF step Cons.IH] by (auto split: option.split sum.split)
qed

lemma quiet_pump: "quiet m (pump now m)"
proof -
  have "quiet m (resolveIdleWaiters (pump_loop now (queue m) m))"
    by (rule quiet_trans [OF quiet_pump_loop quiet_same]) simp_all
  then show ?thesis by (simp add: pump_def quiet_refl)
qed

lemma quiet_cancelEntry:
  assumes "map_of (entries m) i = Some e" "cancelEntry now i (Some e) m = Inr m'"
  shows "quiet m m'"
  using assms(2)
proof (cases rule: cancelEntry_cases)
  case same
  then show ?thesis by (simp add: quiet_refl)
next
  case (queued m1)
  have "quiet m m1" by (rule quiet_transition [OF assms(1) _ queued(2)]) simp
  then show ?thesis using quiet_trans quiet_pump queued(3) by blast
next
  case running
  show ?thesis by (rule quiet_transition [OF assms(1) _ running(2)]) simp
qed

lemma quiet_finish: "quiet m (finish redact now i out m)"
proof (cases "map_of (entries m) i")
  case None
  then show ?thesis
    by (auto simp: finish_def quiet_refl split: option.split intro: quiet_same)
next
  case (Some e)
  have rel: "quiet n (release now i n)" if "map_of (entries n) i = Some e'" for n e'
  proof -
    have "quiet n (set_entry i e'' n)" "quiet n ((set_entry i e'' n)\<lparr>runningCount := c\<rparr>)"
      if "lastProgressEmittedAt e'' = lastProgressEmittedAt e'" for e'' c
    proof -
      show *: "quiet n (set_entry i e'' n)"
        by (rule quiet_set_entry [OF \<open>map_of (entries n) i = Some e'\<close> that])
      show "quiet n ((set_entry i e'' n)\<lparr>runningCount := c\<rparr>)"
        by (rule quiet_trans [OF * quiet_same]) simp_all
    qed
    then show ?thesis
      unfolding release_def using that by (auto intro!: quiet_trans [OF _ quiet_pump])
  qed
  show ?thesis
  proof (cases "active e \<and> \<not> released e")
    case True
    let ?e = "e\<lparr>executionSettled := True\<rparr>"
    have "active ?e" using True by (simp add: active_def)
    then obtain m1 where t: "transition now i (concluded_entry redact ?e out)
        (conclusion (state (job ?e)) out) m = Inr m1"
      and cl: "conclude redact now i ?e out m = Inr m1"
      by (rule conclude_transition)
    have "quiet m m1"
      by (rule quiet_transition [OF Some _ t])
        (auto simp: concluded_entry_def split: outcome.split option.split)
    moreover have "quiet m1 (release now i m1)"
      using transition_frame(7) [OF t] by (intro rel) simp
    ultimately show ?thesis
      using Some True cl by (auto simp: finish_def intro: quiet_trans)
  next
    case False
    then show ?thesis using Some by (auto simp: finish_def quiet_refl)
  qed
qed

lemma throttled_new_entry:
  assumes "throttled m" "i \<notin> set (submitted m)" "lastProgressEmittedAt e = None" "jid j = i" "state j = Queued"
  shows "throttled (emit t (StateEvent j) (set_entry i e m))"
  using assms progress_times_log [of "set_entry i e m" m] by (auto simp: throttled_def)

lemma throttled_emitProgress:
  assumes "throttled m" "job_inv m" "map_of (entries m) i = Some e" "jid (job e') = i"
    "lastProgressEmittedAt e' = lastProgressEmittedAt e" "progress_due now e' m"
  shows "throttled (emitProgress now i e' m)"
proof -
  have sub: "i \<in> set (submitted m)"
    using assms(2,3) coreD(4) by (fastforce simp: job_inv_def dead_def entry_ok_def)
  let ?ts = "progress_times i m"
  have last: "lastProgressEmittedAt e = (if ?ts = [] then None else Some (last ?ts))"
    using assms(1,3) by (simp add: throttled_def)
  have "spaced (progressThrottleMs m) (?ts @ [now])"
    using assms(1,5,6) last by (auto simp: spaced_snoc throttled_def progress_due_def split: if_splits)
  then show ?thesis
    using assms sub progress_times_log [of "set_entry i e'' m" m for e'']
    by (auto simp: throttled_def emitProgress_def)
qed

lemma throttled_scheduleProgress:
  assumes "throttled m" "map_of (entries m) i = Some e"
    "lastProgressEmittedAt e' = lastProgressEmittedAt e"
  shows "throttled (scheduleProgress now i e' m)"
proof -
  have "quiet m (scheduleProgress now i e' m)"
    unfolding scheduleProgress_def Let_def
    using assms by (auto split: option.split intro: quiet_set_entry)
  then show ?thesis using assms(1) by (rule quiet_throttled)
qed

lemma job_inv_jid: "job_inv m \<Longrightarrow> map_of (entries m) i = Some e \<Longrightarrow> jid (job e) = i"
  using coreD(4) by (fastforce simp: job_inv_def dead_def entry_ok_def)

lemma throttled_report:
  assumes "throttled m" "job_inv m" "reportProgress now i p m = Inr m'"
  shows "throttled m'"
proof (cases "map_of (entries m) i")
  case None
  then show ?thesis using assms by (simp add: reportProgress_def)
next
  case (Some e)
  have "jid (job e) = i" by (rule job_inv_jid [OF assms(2) Some])
  then show ?thesis
    using assms Some throttled_emitProgress [OF assms(1,2) Some] throttled_scheduleProgress [OF assms(1) Some]
    by (auto simp: reportProgress_def Let_def split: if_splits sum.splits)
qed

lemma throttled_timer:
  assumes "throttled m" "job_inv m"
  shows "throttled (fireTimer now i m)"
proof (cases "map_of (entries m) i")
  case None
  then show ?thesis using assms by (simp add: fireTimer_def)
next
  case (Some e)
  have "jid (job e) = i" by (rule job_inv_jid [OF assms(2) Some])
  moreover have "throttled (set_entry i (e\<lparr>progressTimer := None\<rparr>) m)"
    by (rule quiet_throttled [OF quiet_set_entry [OF Some] assms(1)]) simp
  ultimately show ?thesis
    using assms Some throttled_emitProgress [OF assms Some] throttled_scheduleProgress [OF assms(1) Some]
    by (auto simp: fireTimer_def Let_def)
qed

lemma throttled_submit:
  assumes "throttled m" "i \<notin> set (submitted m)" "submit now i ty owner c m = Inr m'"
  shows "throttled m'"
proof -
  obtain j e where m': "m' = pump now (emit now (StateEvent j) ((set_entry i e m)\<lparr>queue := queue m @ [i]\<rparr>))"
    and j: "jid j = i" "state j = Queued" "lastProgressEmittedAt e = None"
    using assms(3) by (auto simp: submit_def Let_def split: if_splits)
  have "quiet (emit now (StateEvent j) (set_entry i e m))
      (emit now (StateEvent j) ((set_entry i e m)\<lparr>queue := queue m @ [i]\<rparr>))"
    by (rule quiet_same) simp_all
  then show ?thesis
    unfolding m' using throttled_new_entry [OF assms(1,2) j(3,1,2)] quiet_throttled quiet_pump by blast
qed

lemma quiet_cleanup: "job_inv m \<Longrightarrow> quiet m (fst (cleanup now m))"
proof -
  assume "job_inv m"
  then have d: "distinct (map fst (entries m))"
    by (auto simp: job_inv_def dead_def core_def js_keys_def)
  have ents: "map_of (entries m) i = Some e"
    if "map_of (entries (fst (cleanup now m))) i = Some e" for i e
    using that by (simp only: cleanup_entries map_of_filter_keys [OF d])
  have "log (fst (cleanup now m)) = log m" "progressThrottleMs (fst (cleanup now m)) = progressThrottleMs m"
    by (simp_all add: cleanup_def Let_def)
  then show ?thesis
    using ents progress_times_log submitted_log_cong(1) [of "fst (cleanup now m)" m]
    unfolding quiet_def by fastforce
qed

lemma throttled_step:
  assumes "job_inv m" "throttled m"
  shows "throttled (job_step redact m ev)"
proof (cases ev)
  case (Pair now x)
  have q: "throttled m'" if "quiet m m'" for m' by (rule quiet_throttled [OF that assms(2)])
  show ?thesis
  proof (cases x)
    case (Submit i ty owner c)
    then show ?thesis
      using assms(2) throttled_submit [OF assms(2)] by (auto simp: Pair or_same_def split: sum.split)
  next
    case (Cancel i)
    then show ?thesis
      using assms(2) q quiet_cancelEntry [of m i _ now]
      by (cases "map_of (entries m) i"; cases "cancelEntry now i (map_of (entries m) i) m")
        (simp_all add: Pair or_same_def cancel_def cancelEntry_def [of _ _ None])
  next
    case (CancelForOwner i owner)
    then show ?thesis
      using assms(2) q quiet_cancelEntry [of m i _ now]
      by (cases "map_of (entries m) i"; cases "cancelEntry now i (map_of (entries m) i) m")
        (simp_all add: Pair or_same_def cancelForOwner_def)
  next
    case (Report i p)
    then show ?thesis
      using assms(2) throttled_report [OF assms(2,1)] by (auto simp: Pair or_same_def split: sum.split)
  next
    case (Timer i)
    then show ?thesis using throttled_timer [OF assms(2,1)] by (simp add: Pair)
  next
    case (Settle i)
    then show ?thesis
      using assms(2) by (auto simp: Pair settle_def split: option.split intro!: q quiet_set_entry)
  next
    case (Finish i out)
    then show ?thesis using q [OF quiet_finish] by (simp add: Pair)
  next
    case Cleanup
    then show ?thesis using q [OF quiet_cleanup [OF assms(1)]] by (simp add: Pair)
  next
    case WhenIdle
    then show ?thesis by (auto simp: Pair whenIdle_def intro!: q quiet_same)
  next
    case Dispose
    have "quiet m (dispose m)"
      by (auto simp: dispose_def quiet_refl quiet_def progress_times_log [of "resolveIdleWaiters m'" m for m'])
    then show ?thesis using q by (simp add: Pair Dispose)
  qed
qed

interpretation throttle: handler_invariant "job_step redact" "\<lambda>m. job_inv m \<and> throttled m" for redact
  by unfold_locales (auto intro: job_step_inv throttled_step)

lemma new_manager_throttled: "new_manager c r p cl = Inr m \<Longrightarrow> throttled m"
  by (auto simp: new_manager_def throttled_def progress_times_def spaced_def split: sum.splits)

section \<open>Sorting and pages\<close>

lemma subseq_distinct: "subseq xs ys \<Longrightarrow> distinct ys \<Longrightarrow> distinct xs"
  by (metis distinct_nthsI subseq_conv_nths)

text \<open>Starting what waits leaves the entries alone that are not waiting.\<close>

lemma pump_loop_keeps:
  "map_of (entries m) k = Some e \<Longrightarrow> state (job e) \<noteq> Queued \<Longrightarrow>
     map_of (entries (pump_loop now q m)) k = Some e"
proof (induction q arbitrary: m)
  case Nil
  then show ?case by simp
next
  case (Cons i q)
  have "map_of (entries m') k = Some e"
    if "transition now i e0 Running (m\<lparr>runningCount := runningCount m + 1\<rparr>) = Inr m'"
      "map_of (entries m) i = Some e0" "state (job e0) = Queued" for e0 m'
    using Cons.prems that transition_frame(7) [OF that(1)] by auto
  then show ?case
    using Cons by (auto split: option.split sum.split)
qed

lemma pump_keeps:
  "map_of (entries m) k = Some e \<Longrightarrow> state (job e) \<noteq> Queued \<Longrightarrow>
     map_of (entries (pump now m)) k = Some e"
  by (simp add: pump_def pump_loop_keeps)

lemma js_slice_pages:
  "concat (map (\<lambda>p. js_slice xs (p * n) ((p + 1) * n)) [0..<k]) = take (k * n) xs"
proof (induction k)
  case 0
  show ?case by simp
next
  case (Suc k)
  have "take (Suc k * n) xs = take (k * n) xs @ take n (drop (k * n) xs)"
    by (metis add.commute mult_Suc take_add)
  then show ?case using Suc by (simp add: js_slice_def)
qed

section \<open>Draining\<close>

lemma pump_loop_measure:
  "runningCount (pump_loop now q m) + int (length (queue (pump_loop now q m)))
     \<le> runningCount m + int (length q)"
proof (induction q arbitrary: m)
  case Nil
  then show ?case by simp
next
  case (Cons i q)
  have drop: "?case" if "pump_loop now (i # q) m = pump_loop now q m"
    using Cons.IH [of m] that by simp
  have start: "?case" if "pump_loop now (i # q) m = pump_loop now q m'"
    "transition now i e Running (m\<lparr>runningCount := runningCount m + 1\<rparr>) = Inr m'" for e m'
    using Cons.IH [of m'] that(1) transition_frame(2) [OF that(2)] by simp
  show ?case
  proof (cases "runningCount m < concurrency m")
    case True
    show ?thesis
    proof (cases "map_of (entries m) i")
      case None
      then show ?thesis using True drop by simp
    next
      case (Some e)
      show ?thesis
      proof (cases "state (job e) = Queued")
        case queued: True
        then obtain m' where t: "transition now i e Running (m\<lparr>runningCount := runningCount m + 1\<rparr>) = Inr m'"
          by (simp add: transition_def canTransitionJob_def Let_def)
        show ?thesis using True Some queued t by (intro start [OF _ t]) simp
      next
        case False
        then show ?thesis using True Some drop by simp
      qed
    qed
  next
    case False
    then show ?thesis by simp
  qed
qed

lemma pump_measure:
  "runningCount (pump now m) + int (length (queue (pump now m)))
     \<le> runningCount m + int (length (queue m))"
  using pump_loop_measure [of now "queue m" m] by (simp add: pump_def)

lemma finish_measure:
  assumes inv: "job_inv m" and e: "map_of (entries m) i = Some e" and act: "active e"
  shows "runningCount (finish redact now i out m) + int (length (queue (finish redact now i out m)))
     < runningCount m + int (length (queue m))"
proof -
  have c: "core (queue m) m"
    using inv e by (auto simp: job_inv_def dead_def)
  have rel: "\<not> released e"
    using coreD(4) [OF c e] act by (auto simp: entry_ok_def active_def isTerminal_def)
  have "count_if active (entries m) \<noteq> 0"
    using map_of_SomeD [OF e] act by (force simp: count_if_def filter_empty_conv)
  then have pos: "0 < runningCount m" using coreD(5) [OF c] by simp
  let ?e = "e\<lparr>executionSettled := True\<rparr>"
  have "active ?e" using act by (simp add: active_def)
  then obtain m1 where t: "transition now i (concluded_entry redact ?e out)
      (conclusion (state (job ?e)) out) m = Inr m1"
    and cl: "conclude redact now i ?e out m = Inr m1"
    by (rule conclude_transition)
  obtain e1 where e1: "map_of (entries m1) i = Some e1" "\<not> released e1"
    using transition_frame(7) [OF t] rel by simp
  let ?n = "(set_entry i (e1\<lparr>progressTimer := None, released := True\<rparr>) m1)
      \<lparr>runningCount := max 0 (runningCount m1 - 1)\<rparr>"
  have fin: "finish redact now i out m = pump now ?n"
    using e act rel cl e1 by (simp add: finish_def release_def)
  have "runningCount ?n + int (length (queue ?n)) < runningCount m + int (length (queue m))"
    using transition_frame(1,2) [OF t] pos by simp
  then show ?thesis unfolding fin using pump_measure [of now ?n] by linarith
qed

text \<open>Finishing running jobs one after the other, in an order a scheduler picks.\<close>

fun finish_all ::
  "(string \<Rightarrow> string) \<Rightarrow> ('r manager \<Rightarrow> string) \<Rightarrow> ('r manager \<Rightarrow> 'r outcome) \<Rightarrow> time \<Rightarrow> nat
     \<Rightarrow> 'r manager \<Rightarrow> 'r manager" where
  "finish_all redact pick out now 0 m = m"
| "finish_all redact pick out now (Suc n) m =
     finish_all redact pick out now n (finish redact now (pick m) (out m) m)"

lemma finish_disposed: "disposed (finish redact now i out m) \<Longrightarrow> job_inv m \<Longrightarrow> disposed m"
proof (cases "map_of (entries m) i")
  case None
  then show "disposed (finish redact now i out m) \<Longrightarrow> disposed m"
    by (auto simp: finish_def split: option.splits if_splits)
next
  case (Some e)
  assume inv: "job_inv m" and d: "disposed (finish redact now i out m)"
  have "entries (finish redact now i out m) \<noteq> []" if "active e" "\<not> released e"
  proof
    assume "entries (finish redact now i out m) = []"
    let ?e = "e\<lparr>executionSettled := True\<rparr>"
    have "active ?e" using that by (simp add: active_def)
    then obtain m1 where t: "transition now i (concluded_entry redact ?e out)
        (conclusion (state (job ?e)) out) m = Inr m1"
      and cl: "conclude redact now i ?e out m = Inr m1"
      by (rule conclude_transition)
    let ?e1 = "(concluded_entry redact ?e out)\<lparr>job := enter_state now
        (conclusion (state (job ?e)) out) (job (concluded_entry redact ?e out))\<rparr>"
    have m1: "map_of (entries m1) i = Some ?e1" using transition_frame(7) [OF t] by simp
    have "\<exists>e2. map_of (entries (release now i m1)) i = Some e2"
      unfolding release_def using m1 conclusion_terminal [of "state (job ?e)" out]
      by (auto intro!: exI pump_keeps simp: isTerminal_def)
    then show False
      using \<open>entries (finish redact now i out m) = []\<close> Some that cl by (auto simp: finish_def)
  qed
  then show "disposed m"
    using d Some finish_inv [OF inv, of redact now i out]
    by (cases "active e \<and> \<not> released e") (auto simp: finish_def job_inv_def dead_def core_def)
qed

lemma finish_all_drains:
  assumes "\<And>m. \<exists>i e. map_of (entries m) i = Some e \<and> active e \<Longrightarrow>
      \<exists>e. map_of (entries m) (pick m) = Some e \<and> active e"
    and "job_inv m" "\<not> disposed m" "runningCount m + int (length (queue m)) \<le> int n"
  shows "queue (finish_all redact pick out now n m) = []
     \<and> runningCount (finish_all redact pick out now n m) = 0
     \<and> job_inv (finish_all redact pick out now n m)"
  using assms(2-4)
proof (induction n arbitrary: m)
  case 0
  have "0 \<le> runningCount m" by (rule runningCount_nonneg [OF job_inv_core [OF "0.prems"(1,2)]])
  moreover have "int (length (queue m)) = 0" using "0.prems"(3) calculation by linarith
  ultimately show ?case using "0.prems" by simp
next
  case (Suc n)
  let ?m = "finish redact now (pick m) (out m) m"
  have c: "core (queue m) m" by (rule job_inv_core [OF Suc.prems(1,2)])
  have next_ok: "job_inv ?m" "\<not> disposed ?m"
    using Suc.prems finish_inv finish_disposed by blast+
  show ?case
  proof (cases "\<exists>i e. map_of (entries m) i = Some e \<and> active e")
    case True
    then obtain e where "map_of (entries m) (pick m) = Some e" "active e" using assms(1) by blast
    then have "runningCount ?m + int (length (queue ?m)) \<le> int n"
      using finish_measure [OF Suc.prems(1), of "pick m" e redact now "out m"] Suc.prems(3) by simp
    then show ?thesis using Suc.IH next_ok by simp
  next
    case False
    then have idle: "count_if active (entries m) = 0"
      using coreD(2) [OF c] by (auto simp: count_if_def filter_empty_conv js_entries_iff)
    then have "runningCount m = 0" "queue m = []"
      using coreD(3,5) [OF c] Suc.prems(1,2) by (auto simp: job_inv_def dead_def busy_def)
    moreover have "?m = m"
    proof -
      have "\<not> active e" if "map_of (entries m) (pick m) = Some e" for e
        using False that by blast
      moreover have "detached m = []" using c by (simp add: core_def)
      ultimately show ?thesis by (auto simp: finish_def split: option.split)
    qed
    ultimately show ?thesis using Suc.IH [of m] Suc.prems by simp
  qed
qed

text \<open>A disposed manager stays disposed and silent.\<close>

lemma dead_step:
  assumes "dead m"
  shows "dead (job_step redact m e) \<and> log (job_step redact m e) = log m"
proof (cases e)
  case (Pair now ev)
  have d: "disposed m" "entries m = []" "queue m = []" using assms by (auto simp: dead_def)
  have "disposed (job_step redact m e) \<and> log (job_step redact m e) = log m"
    unfolding Pair using d
    by (cases ev) (auto simp: or_same_def submit_def cancel_def cancelEntry_def cancelForOwner_def
        reportProgress_def fireTimer_def settle_def finish_def cleanup_def whenIdle_def dispose_def
        Let_def split: option.split)
  moreover have "job_inv (job_step redact m e)"
    unfolding Pair using assms by (intro job_step_inv) (simp add: job_inv_def)
  ultimately show ?thesis using job_inv_disposed by blast
qed

lemma dead_forever:
  assumes "dead m"
  shows "dead (foldl (job_step redact) m fs) \<and> log (foldl (job_step redact) m fs) = log m"
  using assms
proof (induction fs arbitrary: m)
  case Nil
  then show ?case by simp
next
  case (Cons f fs)
  then show ?case using dead_step [OF Cons.prems, of redact f] by simp
qed

section \<open>Properties\<close>

text \<open>Every state of a history from a new manager satisfies the invariants.\<close>

lemma reachable_inv:
  assumes "new_manager c r p cl = Inr m0"
  shows "job_inv (foldl (job_step redact) m0 es) \<and> throttled (foldl (job_step redact) m0 es)"
  using throttle.run_inv [of m0 redact es] new_manager_inv [OF assms] new_manager_throttled [OF assms]
  by simp

text \<open>A concrete history for the witnesses: one worker, two jobs, the second cancelled.\<close>

definition demo_manager :: "nat manager" where
  "demo_manager = \<lparr>entries = [], detached = [], queue = [], concurrency = 1, retentionMs = 3600000,
     progressThrottleMs = 200, runningCount = 0, disposed = False, idleWaiters = 0,
     resolvedWaiters = 0, log = []\<rparr>"

definition demo_progress :: "int \<Rightarrow> progress" where
  "demo_progress n = \<lparr>phase = ''copy'', current = n, total = None, pmessage = None\<rparr>"

definition demo_history :: "(time \<times> nat event) list" where
  "demo_history = [(1, Submit ''a'' ''t'' ''u'' None), (2, Submit ''b'' ''t'' ''v'' None),
     (3, Report ''a'' (demo_progress 1)), (4, Report ''a'' (demo_progress 2))]"

definition demo_end :: "nat manager" where
  "demo_end = foldl (job_step id) demo_manager demo_history"

lemma new_demo: "new_manager (Some 1) None None None = Inr demo_manager"
  by (simp add: new_manager_def positiveInteger_def safe_integer_def max_safe_integer_def demo_manager_def)

lemmas job_eval = demo_manager_def demo_history_def demo_progress_def submit_def validText_def
  js_trim_def js_ws_def initialProgress_def pump_def transition_def canTransitionJob_def
  enter_state_def emit_def set_entry_def or_same_def submitted_def started_def isTerminal_def
  resolveIdleWaiters_def reportProgress_def active_def normalizedProgress_def safe_integer_def
  max_safe_integer_def progress_due_def emitProgress_def scheduleProgress_def cancel_def
  cancelEntry_def finish_def conclude_def release_def cleanup_def expired_def Let_def

lemma history_follows:
  assumes "job_inv m" and "map_of (entries m) i = Some e"
    and "map_of (entries (foldl (job_step redact) m fs)) i = Some e'"
  shows "follows (Some e) (Some e')"
proof -
  have "i \<in> set (submitted m)"
    using assms(1,2) coreD(4) by (fastforce simp: job_inv_def dead_def entry_ok_def)
  then show ?thesis
    using jobs_order.run_le [OF assms(1), of redact fs] assms(2,3) unfolding job_le_def by metis
qed

text \<open>Claim C1: Along any history a job only moves along the transition table, from the state it
  has now to any state it has later; its identity does not change, and once it is completed, failed
  or cancelled its whole record stays as it is until it is dropped.\<close>

theorem job_states_follow_table:
  assumes "new_manager c r p cl = Inr m0" and "m = foldl (job_step redact) m0 es"
    and "map_of (entries m) i = Some e"
    and "map_of (entries (foldl (job_step redact) m fs)) i = Some e'"
  shows "canTransitionJob\<^sup>*\<^sup>* (state (job e)) (state (job e'))
    \<and> jid (job e') = i \<and> ownerUserId (job e') = ownerUserId (job e)
    \<and> (isTerminal (state (job e)) \<longrightarrow> job e' = job e)"
proof -
  have inv: "job_inv m" using reachable_inv [OF assms(1)] assms(2) by blast
  show ?thesis
    using history_follows [OF inv assms(3,4)] job_inv_jid [OF inv assms(3)] by simp
qed

theorem job_states_follow_table_witness:
  "\<exists>e e'. map_of (entries demo_end) ''b'' = Some e
     \<and> map_of (entries (foldl (job_step id) demo_end [(9, Cancel ''b'')])) ''b'' = Some e'
     \<and> state (job e) = Queued \<and> state (job e') = Cancelled
     \<and> canTransitionJob\<^sup>*\<^sup>* (state (job e)) (state (job e'))"
proof -
  have "\<exists>e. map_of (entries demo_end) ''b'' = Some e \<and> state (job e) = Queued"
    by (simp add: demo_end_def job_eval)
  moreover have "\<exists>e'. map_of (entries (foldl (job_step id) demo_end [(9, Cancel ''b'')])) ''b'' = Some e'
      \<and> state (job e') = Cancelled"
    by (simp add: demo_end_def job_eval)
  ultimately obtain e e' where *: "map_of (entries demo_end) ''b'' = Some e" "state (job e) = Queued"
    "map_of (entries (foldl (job_step id) demo_end [(9, Cancel ''b'')])) ''b'' = Some e'"
    "state (job e') = Cancelled"
    by blast
  then show ?thesis
    using job_states_follow_table [OF new_demo demo_end_def *(1,3)] by blast
qed

text \<open>Claim C5: While the manager is not disposed, the number of jobs that are running or being
  cancelled is its running count and never more than the configured concurrency, and a job is only
  left waiting when every worker is taken.\<close>

theorem workers_bounded_and_busy:
  assumes "new_manager c r p cl = Inr m0" and "m = foldl (job_step redact) m0 es" "\<not> disposed m"
  shows "int (count_if active (entries m)) = runningCount m \<and> runningCount m \<le> concurrency m
    \<and> (\<forall>i e. map_of (entries m) i = Some e \<and> state (job e) = Queued \<longrightarrow>
         i \<in> set (queue m) \<and> runningCount m = concurrency m)"
proof -
  have inv: "job_inv m" using reachable_inv [OF assms(1)] assms(2) by blast
  have c: "core (queue m) m" by (rule job_inv_core [OF inv assms(3)])
  have "busy m" using inv assms(3) by (auto simp: job_inv_def dead_def)
  then show ?thesis
    using coreD(5,6) [OF c] coreD(7) [OF c] by (fastforce simp: busy_def)
qed

theorem workers_bounded_and_busy_witness:
  "int (count_if active (entries demo_end)) = runningCount demo_end
    \<and> runningCount demo_end \<le> concurrency demo_end \<and> queue demo_end = [''b'']"
proof -
  have "\<not> disposed demo_end" "queue demo_end = [''b'']" by (simp_all add: demo_end_def job_eval)
  then show ?thesis using workers_bounded_and_busy [OF new_demo demo_end_def] by blast
qed

text \<open>Jobs start in the order they were submitted, and no job is started twice: the
  starts so far, followed by the waiting queue, are a subsequence of the submissions.\<close>

theorem jobs_start_in_submission_order:
  assumes "new_manager c r p cl = Inr m0" and "m = foldl (job_step redact) m0 es"
  shows "subseq (started m @ queue m) (submitted m) \<and> distinct (started m @ queue m)"
proof -
  have inv: "job_inv m" using reachable_inv [OF assms(1)] assms(2) by blast
  then have "subseq (started m @ queue m) (submitted m)" "distinct (submitted m)"
    by (auto simp: job_inv_def dead_def dest: coreD(8,9))
  then show ?thesis using subseq_distinct by blast
qed

theorem jobs_start_in_submission_order_witness:
  "subseq (started demo_end @ queue demo_end) (submitted demo_end)
    \<and> started demo_end @ queue demo_end = [''a'', ''b'']"
proof -
  have "started demo_end @ queue demo_end = [''a'', ''b'']" by (simp add: demo_end_def job_eval)
  then show ?thesis using jobs_start_in_submission_order [OF new_demo demo_end_def] by blast
qed

text \<open>Claim C19: A cancellation that is accepted for a waiting or running job holds. The abort signal
  is set; a waiting job is cancelled at once and a running one is being cancelled; and in every later
  state the job is still cancelled or being cancelled, so it never completes or fails.\<close>

theorem cancellation_holds:
  assumes "new_manager c r p cl = Inr m0" and "m = foldl (job_step redact) m0 es"
    and "map_of (entries m) i = Some e" "\<not> executionSettled e"
    and "state (job e) = Queued \<or> state (job e) = Running"
    and "cancel now i m = Inr m'"
  shows "\<exists>e1. map_of (entries m') i = Some e1 \<and> aborted e1
      \<and> state (job e1) = (if state (job e) = Queued then Cancelled else Cancelling)
      \<and> (\<forall>fs e2. map_of (entries (foldl (job_step redact) m' fs)) i = Some e2 \<longrightarrow>
           state (job e2) = Cancelled \<or> state (job e2) = Cancelling)"
proof -
  have inv: "job_inv m" using reachable_inv [OF assms(1)] assms(2) by blast
  then have nd: "\<not> disposed m" "\<not> entry_disposed e"
    using assms(3) by (auto simp: job_inv_def dead_def coreD(1) dest: coreD(4) simp: entry_ok_def)
  let ?s = "if state (job e) = Queued then Cancelled else Cancelling"
  let ?e1 = "e\<lparr>aborted := True, job := enter_state now ?s (job e)\<rparr>"
  have e1: "map_of (entries m') i = Some ?e1"
  proof (cases "state (job e) = Queued")
    case True
    then obtain m1 where t: "transition now i (e\<lparr>aborted := True\<rparr>) Cancelled m = Inr m1" and m': "m' = pump now m1"
      using assms(3-6) nd by (auto simp: cancel_def cancelEntry_def split: if_splits sum.splits)
    have "map_of (entries m1) i = Some ?e1" using transition_frame(7) [OF t] True by simp
    then show ?thesis unfolding m' by (rule pump_keeps) (simp add: True)
  next
    case False
    then have "transition now i (e\<lparr>aborted := True\<rparr>) Cancelling m = Inr m'"
      using assms(3-6) nd by (auto simp: cancel_def cancelEntry_def split: if_splits)
    from transition_frame(7) [OF this] False show ?thesis by simp
  qed
  have m': "m' = job_step redact m (now, Cancel i)" using assms(6) by (simp add: or_same_def)
  have inv': "job_inv m'" unfolding m' using inv by (rule job_step_inv)
  have later: "state (job e2) = Cancelled \<or> state (job e2) = Cancelling"
    if "map_of (entries (foldl (job_step redact) m' fs)) i = Some e2" for fs e2
  proof -
    have "canTransitionJob\<^sup>*\<^sup>* (state (job ?e1)) (state (job e2))"
      using history_follows [OF inv' e1 that] by simp
    then show ?thesis
      by (induction rule: rtranclp_induct) (auto simp: canTransitionJob_def)
  qed
  then show ?thesis using e1 by auto
qed

theorem cancellation_holds_witness:
  "\<exists>m' e1. cancel 5 ''b'' demo_end = Inr m' \<and> map_of (entries m') ''b'' = Some e1
     \<and> aborted e1 \<and> state (job e1) = Cancelled"
proof -
  have "\<exists>e. map_of (entries demo_end) ''b'' = Some e \<and> state (job e) = Queued
      \<and> \<not> executionSettled e"
    by (simp add: demo_end_def job_eval)
  then obtain e where *: "map_of (entries demo_end) ''b'' = Some e" "\<not> executionSettled e"
    "state (job e) = Queued"
    by blast
  have "\<exists>m'. cancel 5 ''b'' demo_end = Inr m'" by (simp add: demo_end_def job_eval)
  then obtain m' where m': "cancel 5 ''b'' demo_end = Inr m'" by blast
  have q: "state (job e) = Queued \<or> state (job e) = Running" using *(3) by simp
  show ?thesis
    using cancellation_holds [OF new_demo demo_end_def *(1,2) q m'] *(3) m' by auto
qed

text \<open>
  Progress events of a job are throttled: in the events of any history, two progress
  events of one job are at least the configured interval apart, whether a report or its timer sent
  them.\<close>

theorem progress_events_spaced:
  assumes "new_manager c r p cl = Inr m0" and "m = foldl (job_step redact) m0 es"
  shows "spaced (progressThrottleMs m) (progress_times i m)"
  using reachable_inv [OF assms(1), of redact es] assms(2) by (simp add: throttled_def)

theorem progress_events_spaced_witness:
  "spaced 200 (progress_times ''a'' (foldl (job_step id) demo_manager (demo_history @ [(203, Timer ''a'')])))
    \<and> progress_times ''a'' (foldl (job_step id) demo_manager (demo_history @ [(203, Timer ''a'')])) = [3, 203]"
proof -
  let ?m = "foldl (job_step id) demo_manager (demo_history @ [(203, Timer ''a'')])"
  have "progress_times ''a'' ?m = [3, 203]" "progressThrottleMs ?m = 200"
    by (simp_all add: job_eval progress_times_def fireTimer_def)
  then show ?thesis using progress_events_spaced [OF new_demo refl, of id "demo_history @ [(203, Timer ''a'')]" "''a''"]
    by simp
qed

text \<open>Nothing of a job shows to another user: looking it up or cancelling it answers
  exactly what it answers for an id that does not exist, and the user's list holds own jobs only.\<close>

theorem foreign_jobs_hidden:
  assumes "\<forall>e. map_of (entries m) i = Some e \<longrightarrow> ownerUserId (job e) \<noteq> owner"
  shows "getForOwner i owner m = None \<and> cancelForOwner now i owner m = Inl JOB_NOT_FOUND
    \<and> (\<forall>j \<in> set (owner_jobs collate owner m). ownerUserId j = owner)"
proof -
  have "set (owner_jobs collate owner m)
      = set (map job (filter (\<lambda>e. ownerUserId (job e) = owner) (map snd (entries m))))"
    unfolding owner_jobs_def by (metis mset_sort_by set_mset_mset)
  then show ?thesis
    using assms by (auto simp: getForOwner_def cancelForOwner_def split: option.split)
qed

theorem foreign_jobs_hidden_witness:
  "getForOwner ''a'' ''v'' demo_end = None \<and> cancelForOwner 5 ''a'' ''v'' demo_end = Inl JOB_NOT_FOUND
    \<and> getForOwner ''a'' ''u'' demo_end \<noteq> None"
proof -
  have "\<forall>e. map_of (entries demo_end) ''a'' = Some e \<longrightarrow> ownerUserId (job e) \<noteq> ''v''"
    by (simp add: demo_end_def job_eval)
  moreover have "getForOwner ''a'' ''u'' demo_end \<noteq> None"
    by (simp add: demo_end_def job_eval getForOwner_def)
  ultimately show ?thesis using foreign_jobs_hidden [of demo_end "''a''" "''v''"] by blast
qed

text \<open>The pages of a listing partition it: with a consistent collation of ids the owner's
  jobs are listed newest first, each exactly once, and pages 1 to \<open>k\<close> are its first \<open>k * n\<close>
  entries in order.\<close>

theorem pages_partition_listing:
  assumes "\<And>a b. collate a b \<le> 0 \<or> collate b a \<le> 0"
    and "\<And>a b c. collate a b \<le> 0 \<Longrightarrow> collate b c \<le> 0 \<Longrightarrow> collate a c \<le> 0"
    and "0 < n" "int n \<le> max_safe_integer" "int k \<le> max_safe_integer"
  shows "(\<exists>pages. map (\<lambda>p. listByOwner collate owner (int (Suc p)) (int n) m) [0..<k] = map Inr pages
        \<and> concat (map items pages) = take (k * n) (owner_jobs collate owner m))
      \<and> sorted_wrt (\<lambda>x y. job_order collate x y \<le> 0) (owner_jobs collate owner m)
      \<and> mset (owner_jobs collate owner m)
        = mset (map job (filter (\<lambda>e. ownerUserId (job e) = owner) (map snd (entries m))))"
proof -
  let ?js = "owner_jobs collate owner m"
  let ?pg = "\<lambda>p. \<lparr>items = js_slice ?js (p * n) ((p + 1) * n), page_total = length ?js,
      page_number = int (Suc p), page_size = int n\<rparr>"
  have offset: "nat (int p * int n) = p * n" "nat (int p * int n + int n) = (p + 1) * n" for p
    by (simp_all flip: of_nat_mult of_nat_add)
  have "listByOwner collate owner (int (Suc p)) (int n) m = Inr (?pg p)" if "p < k" for p
    using that assms(3-5) offset [of p]
    by (simp add: listByOwner_def positiveInteger_def safe_integer_def max_safe_integer_def Let_def)
  then have "map (\<lambda>p. listByOwner collate owner (int (Suc p)) (int n) m) [0..<k] = map Inr (map ?pg [0..<k])"
    by simp
  moreover have "concat (map items (map ?pg [0..<k])) = take (k * n) ?js"
    using js_slice_pages [of ?js n k] by (simp add: comp_def)
  ultimately have "\<exists>pages. map (\<lambda>p. listByOwner collate owner (int (Suc p)) (int n) m) [0..<k] = map Inr pages
        \<and> concat (map items pages) = take (k * n) ?js"
    by blast
  moreover have "sorted_wrt (\<lambda>x y. job_order collate x y \<le> 0) ?js"
    unfolding owner_jobs_def
  proof (rule sorted_sort_by)
    show "job_order collate x y \<le> 0 \<or> job_order collate y x \<le> 0" for x y :: "'a job"
      using assms(1) by (auto simp: job_order_def)
    show "job_order collate x y \<le> 0 \<Longrightarrow> job_order collate y z \<le> 0 \<Longrightarrow> job_order collate x z \<le> 0"
      for x y z :: "'a job"
      using assms(2) by (auto simp: job_order_def split: if_splits)
  qed
  ultimately show ?thesis by (simp add: owner_jobs_def mset_sort_by)
qed

theorem pages_partition_listing_witness:
  "\<exists>pages. map (\<lambda>p. listByOwner (\<lambda>a b. int (length a) - int (length b)) ''u'' (int (Suc p)) 1 demo_end) [0..<2]
       = map Inr pages
     \<and> map jid (concat (map items pages)) = [''a'']"
proof -
  let ?c = "\<lambda>a b :: string. int (length a) - int (length b)"
  have "\<exists>pages. map (\<lambda>p. listByOwner ?c ''u'' (int (Suc p)) (int 1) demo_end) [0..<2] = map Inr pages
      \<and> concat (map items pages) = take (2 * 1) (owner_jobs ?c ''u'' demo_end)"
    by (rule pages_partition_listing [of ?c 1 2 "''u''" demo_end, THEN conjunct1])
      (linarith | simp add: max_safe_integer_def)+
  then obtain pages where "map (\<lambda>p. listByOwner ?c ''u'' (int (Suc p)) (int 1) demo_end) [0..<2] = map Inr pages"
    "concat (map items pages) = take (2 * 1) (owner_jobs ?c ''u'' demo_end)"
    by blast
  moreover have "map jid (take 2 (owner_jobs ?c ''u'' demo_end)) = [''a'']"
    by (simp add: demo_end_def job_eval owner_jobs_def sort_by_def)
  ultimately show ?thesis by (intro exI [of _ pages]) (simp only: of_nat_1 mult_1_right simp_thms)
qed

text \<open>The queue drains. If a started job always finishes eventually, then whichever
  running job finishes next, after at most as many finishes as there are running and waiting jobs
  nothing runs and nothing waits.\<close>

theorem queue_drains:
  assumes "\<And>m. \<exists>i e. map_of (entries m) i = Some e \<and> active e \<Longrightarrow>
      \<exists>e. map_of (entries m) (pick m) = Some e \<and> active e"
    and "new_manager c r p cl = Inr m0" and "m = foldl (job_step redact) m0 es" "\<not> disposed m"
    and "runningCount m + int (length (queue m)) \<le> int n"
  shows "runningCount (finish_all redact pick out now n m) = 0
    \<and> queue (finish_all redact pick out now n m) = []"
  using finish_all_drains [OF assms(1) _ assms(4,5)] reachable_inv [OF assms(2), of redact es] assms(3)
  by simp

definition first_active :: "'r manager \<Rightarrow> string" where
  "first_active m =
     (case find (\<lambda>i. case map_of (entries m) i of None \<Rightarrow> False | Some e \<Rightarrow> active e) (js_keys (entries m)) of
        None \<Rightarrow> [] | Some i \<Rightarrow> i)"

lemma first_active:
  assumes "\<exists>i e. map_of (entries m) i = Some e \<and> active e"
  shows "\<exists>e. map_of (entries m) (first_active m) = Some e \<and> active e"
proof -
  let ?P = "\<lambda>i. case map_of (entries m) i of None \<Rightarrow> False | Some e \<Rightarrow> active e"
  obtain i e where *: "map_of (entries m) i = Some e" "active e" using assms by blast
  then have "i \<in> set (js_keys (entries m))" by (force simp: js_keys_def dest: map_of_SomeD)
  then have "find ?P (js_keys (entries m)) \<noteq> None" using * by (auto simp: find_None_iff)
  then obtain k where k: "find ?P (js_keys (entries m)) = Some k" by blast
  then have "?P k" by (auto simp: find_Some_iff)
  then show ?thesis using k by (auto simp: first_active_def split: option.splits)
qed

theorem queue_drains_witness:
  "runningCount (finish_all id first_active (\<lambda>_. Returned None) 9 2 demo_end) = 0
    \<and> runningCount demo_end = 1 \<and> queue demo_end = [''b'']"
proof -
  have "\<not> disposed demo_end" "runningCount demo_end + int (length (queue demo_end)) \<le> int 2"
    "runningCount demo_end = 1" "queue demo_end = [''b'']"
    by (simp_all add: demo_end_def job_eval)
  then show ?thesis
    using queue_drains [OF first_active new_demo demo_end_def, of 2] by blast
qed

text \<open>
  Retention drops exactly what is old: \<open>cleanup\<close> removes the jobs that finished at
  least the retention time ago and no other, so no job that waits or runs, and reports how many.\<close>

theorem cleanup_removes_exactly_expired:
  assumes "new_manager c r p cl = Inr m0" and "m = foldl (job_step redact) m0 es"
  shows "(map_of (entries (fst (cleanup now m))) i = Some e
      \<longleftrightarrow> map_of (entries m) i = Some e \<and> \<not> expired (now - retentionMs m) e)
    \<and> (map_of (entries m) i = Some e \<and> \<not> isTerminal (state (job e))
        \<longrightarrow> map_of (entries (fst (cleanup now m))) i = Some e)
    \<and> snd (cleanup now m) = count_if (expired (now - retentionMs m)) (entries m)"
proof -
  have inv: "job_inv m" using reachable_inv [OF assms(1)] assms(2) by blast
  then have d: "distinct (map fst (entries m))"
    by (auto simp: job_inv_def dead_def core_def js_keys_def)
  let ?x = "expired (now - retentionMs m)"
  have "map_of (entries (fst (cleanup now m))) i = Some e
      \<longleftrightarrow> map_of (entries m) i = Some e \<and> \<not> ?x e"
    by (simp only: cleanup_entries map_of_filter_keys [OF d]) simp
  moreover have "length (filter (\<lambda>(i, e). \<not> ?x e) (entries m)) + count_if ?x (entries m) = length (entries m)"
    using sum_length_filter_compl [of "\<lambda>p. ?x (snd p)" "entries m"]
    by (simp add: count_if_def case_prod_unfold add.commute)
  then have "snd (cleanup now m) = count_if ?x (entries m)"
    by (simp add: cleanup_def Let_def)
  ultimately show ?thesis by (auto simp: expired_def)
qed

theorem cleanup_removes_exactly_expired_witness:
  "snd (cleanup 3600005 (foldl (job_step id) demo_manager (demo_history @ [(5, Cancel ''b'')]))) = 1
    \<and> map_of (entries (fst (cleanup 3600005 (foldl (job_step id) demo_manager (demo_history @ [(5, Cancel ''b'')])))))
        ''b'' = None"
proof -
  let ?m = "foldl (job_step id) demo_manager (demo_history @ [(5, Cancel ''b'')])"
  have c: "count_if (expired (3600005 - retentionMs ?m)) (entries ?m) = 1"
    by (simp add: job_eval count_if_def)
  have x: "\<And>e. map_of (entries ?m) ''b'' = Some e \<Longrightarrow> expired (3600005 - retentionMs ?m) e"
    by (simp add: job_eval)
  have d: "map_of (entries (fst (cleanup 3600005 ?m))) ''b'' = Some e \<Longrightarrow> False" for e
    using cleanup_removes_exactly_expired [OF new_demo refl, of 3600005 id "demo_history @ [(5, Cancel ''b'')]" "''b''" e] x
    by blast
  then show ?thesis
    using cleanup_removes_exactly_expired [OF new_demo refl, of 3600005 id "demo_history @ [(5, Cancel ''b'')]"] c
    by (metis not_None_eq)
qed

text \<open>
  Disposal is final: nothing is submitted, started or reported afterwards, whatever
  still arrives from executors and clients, and the manager holds no job.\<close>

theorem disposal_is_final:
  assumes "new_manager c r p cl = Inr m0" and "m = foldl (job_step redact) m0 es"
  shows "(let m' = foldl (job_step redact) (dispose m) fs
     in disposed m' \<and> entries m' = [] \<and> queue m' = [] \<and> log m' = log m
        \<and> submit now i ty owner canc m' = Inl JOB_MANAGER_DISPOSED
        \<and> cancel now i m' = Inl JOB_NOT_FOUND)"
proof -
  have "job_inv m" using reachable_inv [OF assms(1)] assms(2) by blast
  then have "job_inv (job_step redact m (0, Dispose))" by (rule job_step_inv)
  moreover have "disposed (dispose m)" by (simp add: dispose_def resolveIdleWaiters_def)
  ultimately have "dead (dispose m)" using job_inv_disposed by force
  moreover have "log (dispose m) = log m" by (simp add: dispose_def resolveIdleWaiters_def)
  ultimately show ?thesis
    using dead_forever [of "dispose m" redact fs]
    by (auto simp: Let_def dead_def submit_def cancel_def cancelEntry_def)
qed

theorem disposal_is_final_witness:
  "entries (foldl (job_step id) (dispose demo_end) [(9, Finish ''a'' (Returned None)), (9, Report ''a'' (demo_progress 3))]) = []
    \<and> log demo_end \<noteq> []"
proof -
  have "log demo_end \<noteq> []" by (simp add: demo_end_def job_eval)
  then show ?thesis using disposal_is_final [OF new_demo demo_end_def,
        of "[(9, Finish ''a'' (Returned None)), (9, Report ''a'' (demo_progress 3))]"]
    unfolding Let_def by blast
qed

end
