(* ===== verification/Scanner.thy ===== *)
theory Scanner
  imports Prelude
begin

text \<open>
  What the two statement splitters (\<open>packages/database-postgresql/src/query/split-statements.ts\<close>
  and \<open>packages/database-mysql/src/query/split-statements.ts\<close>) share: the trimmed statement with
  its offsets, and the contract of a scanner that cuts a text into statements. The contract is
  the locale \<open>statement_scanner\<close>; \<open>lossless_scanner\<close> adds that only separators are skipped. Each
  splitter's theory interprets both on its own loop body.
\<close>

section \<open>Trimmed statements\<close>

record query_statement =
  qsql :: string
  startOffset :: nat
  endOffset :: nat

text \<open>\<open>/\s/.test(sql[i] ?? '')\<close> and the index that \<open>search(/\S/)\<close> finds.\<close>

definition ws_at :: "string \<Rightarrow> nat \<Rightarrow> bool" where
  "ws_at sql i = (case char_at sql i of None \<Rightarrow> False | Some c \<Rightarrow> js_ws c)"

definition first_nonspace :: "string \<Rightarrow> nat option" where
  "first_nonspace s =
     (let n = length (takeWhile js_ws s) in if n < length s then Some n else None)"

fun trim_end :: "string \<Rightarrow> nat \<Rightarrow> nat \<Rightarrow> nat" where
  "trim_end sql start 0 = 0"
| "trim_end sql start (Suc e) =
     (if start < Suc e \<and> ws_at sql e then trim_end sql start e else Suc e)"

definition trimStatement :: "string \<Rightarrow> nat \<Rightarrow> nat \<Rightarrow> query_statement option" where
  "trimStatement sql start end' =
     (case first_nonspace (js_slice sql start end') of
        None \<Rightarrow> None
      | Some leading \<Rightarrow>
          let trimmedEnd = trim_end sql start end'; statementStart = start + leading
          in Some \<lparr>qsql = js_slice sql statementStart trimmedEnd,
                   startOffset = statementStart, endOffset = trimmedEnd\<rparr>)"

text \<open>\<open>const s = trimStatement(...); if (s) statements.push(s)\<close>.\<close>

definition trimmed :: "string \<Rightarrow> nat \<Rightarrow> nat \<Rightarrow> query_statement list" where
  "trimmed sql start end' =
     (case trimStatement sql start end' of None \<Rightarrow> [] | Some s \<Rightarrow> [s])"

section \<open>What trimming keeps\<close>

text \<open>A statement that is a slice of the text at its offsets, without white space at its ends.\<close>

definition statement_of :: "string \<Rightarrow> query_statement \<Rightarrow> bool" where
  "statement_of sql s \<longleftrightarrow>
     startOffset s < endOffset s \<and> endOffset s \<le> length sql
     \<and> qsql s = js_slice sql (startOffset s) (endOffset s)
     \<and> \<not> js_ws (hd (qsql s)) \<and> \<not> js_ws (last (qsql s))"

lemma first_nonspace_None: "first_nonspace s = None \<longleftrightarrow> (\<forall>c \<in> set s. js_ws c)"
proof -
  have "length (takeWhile js_ws s) < length s \<longleftrightarrow> takeWhile js_ws s \<noteq> s"
    by (metis length_takeWhile_le nat_less_le takeWhile_eq_take take_all_iff)
  then show ?thesis by (simp add: first_nonspace_def Let_def takeWhile_eq_all_conv)
qed

lemma first_nonspace_Some:
  assumes "first_nonspace s = Some n"
  shows "n < length s" "\<not> js_ws (s ! n)" "\<And>i. i < n \<Longrightarrow> js_ws (s ! i)"
proof -
  from assms have n: "n = length (takeWhile js_ws s)" "n < length s"
    by (auto simp: first_nonspace_def Let_def split: if_splits)
  then show "n < length s" "\<not> js_ws (s ! n)" by (auto dest: nth_length_takeWhile)
  show "js_ws (s ! i)" if "i < n" for i
    using that n by (metis nth_mem set_takeWhileD takeWhile_nth)
qed

lemma trim_end_le: "trim_end sql start e \<le> e"
  by (induction e) auto

lemma trim_end_ws: "trim_end sql start e \<le> i \<Longrightarrow> i < e \<Longrightarrow> ws_at sql i"
  by (induction e) (auto split: if_splits simp: less_Suc_eq)

lemma trim_end_stop: "start < trim_end sql start e \<Longrightarrow> \<not> ws_at sql (trim_end sql start e - 1)"
  by (induction e) auto

lemma ws_at_nth: "i < length sql \<Longrightarrow> ws_at sql i = js_ws (sql ! i)"
  by (simp add: ws_at_def char_at_def)

lemma trim_end_above:
  assumes "start \<le> k" "k < e" "\<not> ws_at sql k"
  shows "k < trim_end sql start e"
  using assms by (meson not_le trim_end_ws)

lemma trimStatement_Some:
  assumes "trimStatement sql start e = Some s" and "e \<le> length sql"
  shows "statement_of sql s" "start \<le> startOffset s" "endOffset s \<le> e"
    "\<And>i. start \<le> i \<Longrightarrow> i < startOffset s \<Longrightarrow> js_ws (sql ! i)"
    "\<And>i. endOffset s \<le> i \<Longrightarrow> i < e \<Longrightarrow> js_ws (sql ! i)"
proof -
  from assms(1) obtain n where n: "first_nonspace (js_slice sql start e) = Some n"
    and s: "s = \<lparr>qsql = js_slice sql (start + n) (trim_end sql start e),
      startOffset = start + n, endOffset = trim_end sql start e\<rparr>"
    by (auto simp: trimStatement_def Let_def split: option.splits)
  note N = first_nonspace_Some [OF n]
  have n_lt: "start + n < e" using N(1) by (simp add: less_diff_conv add.commute)
  have at: "js_slice sql start e ! i = sql ! (start + i)" if "i \<le> n" for i
    using that N(1) by (intro js_slice_nth) auto
  have "\<not> ws_at sql (start + n)" using N(2) at [of n] n_lt assms(2) by (simp add: ws_at_nth)
  then have above: "start + n < trim_end sql start e"
    using n_lt by (intro trim_end_above) auto
  have le: "trim_end sql start e \<le> e" by (rule trim_end_le)
  let ?w = "js_slice sql (start + n) (trim_end sql start e)"
  have len: "length ?w = trim_end sql start e - (start + n)"
    using le assms(2) by simp
  have "hd ?w = sql ! (start + n)"
    using above le assms(2) len js_slice_nth [of 0 "trim_end sql start e" "start + n" sql]
    by (subst hd_conv_nth) (auto simp: js_slice_def)
  moreover have "last ?w = sql ! (trim_end sql start e - 1)"
    using above le assms(2) len
      js_slice_nth [of "trim_end sql start e - 1 - (start + n)" "trim_end sql start e" "start + n" sql]
    by (subst last_conv_nth) (auto simp: js_slice_def)
  moreover have "\<not> ws_at sql (trim_end sql start e - 1)"
    using above by (intro trim_end_stop) simp
  ultimately show "statement_of sql s"
    using above le assms(2) N(2) at [of n]
    by (simp add: statement_of_def s ws_at_nth)
  show "start \<le> startOffset s" "endOffset s \<le> e" by (simp_all add: s le)
  show "js_ws (sql ! i)" if "start \<le> i" "i < startOffset s" for i
    using N(3) [of "i - start"] at [of "i - start"] that by (simp add: s)
  show "js_ws (sql ! i)" if "endOffset s \<le> i" "i < e" for i
    using trim_end_ws [of sql start e i] that assms(2) by (simp add: s ws_at_nth)
qed

lemma trimStatement_None:
  assumes "trimStatement sql start e = None" and "start \<le> i" "i < e" "e \<le> length sql"
  shows "js_ws (sql ! i)"
proof -
  have "\<forall>c \<in> set (js_slice sql start e). js_ws c"
    using assms(1) by (auto simp: trimStatement_def Let_def first_nonspace_None split: option.splits)
  moreover have "js_slice sql start e ! (i - start) = sql ! i"
    using assms(2-4) by (subst js_slice_nth) auto
  moreover have "i - start < length (js_slice sql start e)" using assms(2-4) by auto
  ultimately show ?thesis using nth_mem by metis
qed

text \<open>The statement that trimming makes of the text between two positions.\<close>

definition right_trim :: "string \<Rightarrow> string" where
  "right_trim w = rev (dropWhile js_ws (rev w))"

lemma right_trim_snoc: "right_trim (v @ [c]) = (if js_ws c then right_trim v else v @ [c])"
  by (simp add: right_trim_def)

lemma right_trim_length: "length (right_trim w) \<le> length w"
  by (metis length_dropWhile_le length_rev right_trim_def)

lemma right_trim_prefix: "take (length (right_trim w)) w = right_trim w"
proof (induction w rule: rev_induct)
  case Nil
  then show ?case by (simp add: right_trim_def)
next
  case (snoc c v)
  then show ?case using right_trim_length [of v] by (simp add: right_trim_snoc)
qed

lemma trim_end_text:
  "trim_end (pre @ w @ post) (length pre) (length pre + length w) = length pre + length (right_trim w)"
proof (induction w arbitrary: post rule: rev_induct)
  case Nil
  then show ?case by (cases pre) (simp_all add: right_trim_def)
next
  case (snoc c v)
  have "ws_at (pre @ (v @ [c]) @ post) (length pre + length v) = js_ws c"
    by (simp add: ws_at_def char_at_def nth_append)
  then show ?case using snoc.IH [of "c # post"] by (simp add: right_trim_snoc)
qed

lemma trimmed_text:
  "map qsql (trimmed (pre @ w @ post) (length pre) (length pre + length w))
     = (if js_trim w = [] then [] else [js_trim w])"
proof -
  let ?sql = "pre @ w @ post"
  let ?v = "dropWhile js_ws w"
  have slice: "js_slice ?sql (length pre) (length pre + length w) = w"
    by (simp add: js_slice_def)
  have js: "js_trim w = right_trim ?v" by (simp add: js_trim_def right_trim_def)
  show ?thesis
  proof (cases "\<forall>c \<in> set w. js_ws c")
    case True
    then have v: "?v = []" by (simp only: dropWhile_eq_Nil_conv)
    have "js_trim w = []" by (simp only: js_trim_def v rev.simps dropWhile.simps)
    moreover have "first_nonspace w = None" using True by (simp add: first_nonspace_None)
    ultimately show ?thesis by (simp add: trimmed_def trimStatement_def slice)
  next
    case False
    let ?n = "length (takeWhile js_ws w)"
    have n: "first_nonspace w = Some ?n"
      using False first_nonspace_None [of w] by (auto simp: first_nonspace_def Let_def)
    have v: "?v = drop ?n w" by (simp add: dropWhile_eq_drop)
    have w: "w = takeWhile js_ws w @ ?v" by simp
    have "?v \<noteq> []" using False by (simp add: dropWhile_eq_Nil_conv)
    then have hd: "hd ?v \<in> set ?v" "\<not> js_ws (hd ?v)"
      by (rule hd_in_set) (rule hd_dropWhile [OF \<open>?v \<noteq> []\<close>])
    have "right_trim w = takeWhile js_ws w @ right_trim ?v"
    proof -
      have "right_trim w = rev (dropWhile js_ws (rev ?v @ rev (takeWhile js_ws w)))"
        unfolding right_trim_def by (metis rev_append w)
      then show ?thesis using hd dropWhile_append1 [of "hd ?v" "rev ?v" js_ws] by (simp add: right_trim_def)
    qed
    moreover have "js_slice ?sql (length pre + ?n) (length pre + length (right_trim w))
        = drop ?n (right_trim w)"
    proof -
      have "js_slice ?sql (length pre + ?n) (length pre + length (right_trim w))
          = take (length (right_trim w) - ?n) (drop ?n w)"
        using right_trim_length [of w] length_takeWhile_le [of js_ws w] by (simp add: js_slice_def)
      also have "\<dots> = drop ?n (take (length (right_trim w)) w)" by (rule drop_take [symmetric])
      finally show ?thesis by (simp only: right_trim_prefix)
    qed
    moreover have "js_trim w \<noteq> []"
      using hd unfolding js right_trim_def by (auto simp: dropWhile_eq_Nil_conv)
    ultimately show ?thesis
      by (simp add: trimmed_def trimStatement_def slice n trim_end_text js)
  qed
qed

section \<open>The contract of a scanner\<close>

text \<open>Statements in the order of the text, and the positions they take.\<close>

definition in_order :: "query_statement list \<Rightarrow> bool" where
  "in_order = sorted_wrt (\<lambda>a b. endOffset a \<le> startOffset b)"

definition covered :: "query_statement list \<Rightarrow> nat \<Rightarrow> bool" where
  "covered ss p \<longleftrightarrow> (\<exists>s \<in> set ss. startOffset s \<le> p \<and> p < endOffset s)"

lemma in_order_append:
  "in_order ss \<Longrightarrow> (\<And>x. x \<in> set ss \<Longrightarrow> endOffset x \<le> startOffset s) \<Longrightarrow> in_order (ss @ [s])"
  by (simp add: in_order_def sorted_wrt_append)

lemma covered_append [simp]: "covered (xs @ ys) p \<longleftrightarrow> covered xs p \<or> covered ys p"
  by (auto simp: covered_def)

lemma trimmed_covers:
  assumes "start \<le> p" "p < e" "e \<le> length sql"
  shows "covered (trimmed sql start e) p \<or> js_ws (sql ! p)"
proof (cases "trimStatement sql start e")
  case None
  then show ?thesis using trimStatement_None assms by blast
next
  case (Some s)
  note T = trimStatement_Some(4,5) [OF Some assms(3)]
  consider "p < startOffset s" | "startOffset s \<le> p" "p < endOffset s" | "endOffset s \<le> p"
    by linarith
  then show ?thesis
  proof cases
    case 1
    then show ?thesis using T(1) assms(1) by simp
  next
    case 2
    then show ?thesis using Some by (simp add: covered_def trimmed_def)
  next
    case 3
    then show ?thesis using T(2) assms(2) by simp
  qed
qed

text \<open>Statements found so far: slices of the text, in order, none beyond \<open>a\<close>.\<close>

definition found :: "string \<Rightarrow> query_statement list \<Rightarrow> nat \<Rightarrow> bool" where
  "found sql ss a \<longleftrightarrow> in_order ss \<and> (\<forall>s \<in> set ss. statement_of sql s \<and> endOffset s \<le> a)"

lemma found_Nil [simp]: "found sql [] a"
  by (simp add: found_def in_order_def)

lemma found_mono: "found sql ss a \<Longrightarrow> a \<le> b \<Longrightarrow> found sql ss b"
  by (auto simp: found_def)

lemma found_trimmed:
  assumes "found sql ss a" "e \<le> length sql" "a \<le> b" "e \<le> b"
  shows "found sql (ss @ trimmed sql a e) b"
proof (cases "trimStatement sql a e")
  case None
  then show ?thesis using found_mono assms by (auto simp: trimmed_def)
next
  case (Some s)
  note T = trimStatement_Some [OF Some assms(2)]
  have "in_order (ss @ [s])"
    using assms(1) T(2) by (intro in_order_append) (auto simp: found_def)
  then show ?thesis
    using assms T(1,2,3) Some by (fastforce simp: found_def trimmed_def)
qed

text \<open>
  A scanner goes over the text with an index loop. In each step it leaves its statements alone,
  or it pushes the trimmed text since \<open>start\<close> and goes on behind the separator it is at; it may
  also skip text.
\<close>

locale statement_scanner =
  fixes body :: "string \<Rightarrow> nat \<Rightarrow> 's \<Rightarrow> 's \<times> nat" and init :: 's
    and out :: "'s \<Rightarrow> query_statement list" and start :: "'s \<Rightarrow> nat"
  assumes init: "out init = []" "start init = 0"
    and step: "start s \<le> i \<Longrightarrow> i < length sql \<Longrightarrow> body sql i s = (s', k) \<Longrightarrow>
      out s' = out s \<and> (start s' = start s \<or> start s' = i + k + 1)
      \<or> out s' = out s @ trimmed sql (start s) i \<and> start s' = i + k + 1"
begin

lemma scan_found:
  "let s = for_index (body sql) (length sql) 0 init
   in found sql (out s @ trimmed sql (start s) (length sql)) (max (start s) (length sql))"
proof -
  let ?P = "\<lambda>i s. start s \<le> i \<and> found sql (out s) (start s)"
  have "\<exists>j. length sql \<le> j \<and> ?P j (for_index (body sql) (length sql) 0 init)"
  proof (rule for_index_rule)
    show "?P 0 init" by (simp add: init)
    fix i s s' k
    assume P: "?P i s" and i: "i < length sql" and b: "body sql i s = (s', k)"
    then consider (same) "out s' = out s" "start s' = start s"
      | (skip) "out s' = out s" "start s' = i + k + 1"
      | (push) "out s' = out s @ trimmed sql (start s) i" "start s' = i + k + 1"
      using step by blast
    then show "?P (i + k + 1) s'"
    proof cases
      case same
      then show ?thesis using P by simp
    next
      case skip
      then show ?thesis using P found_mono [of sql "out s" "start s" "i + k + 1"] by simp
    next
      case push
      then show ?thesis using P i found_trimmed [of sql "out s" "start s" i "i + k + 1"] by simp
    qed
  qed
  then show ?thesis
    using found_trimmed [of sql] by (simp add: Let_def) (meson max.cobounded1 max.cobounded2 order_refl)
qed

lemma scan_ok:
  assumes "s = for_index (body sql) (length sql) 0 init"
    and "ss = out s @ trimmed sql (start s) (length sql)"
  shows "in_order ss \<and> (\<forall>x \<in> set ss. statement_of sql x)"
  using scan_found [of sql] assms by (auto simp: Let_def found_def)

end

text \<open>
  A scanner that loses nothing on the texts for which \<open>ok\<close> holds: everything it passes goes into
  a statement, except white space and the separators, which are at the positions \<open>gap\<close>.
\<close>

locale lossless_scanner =
  statement_scanner body init out start
  for body :: "string \<Rightarrow> nat \<Rightarrow> 's \<Rightarrow> 's \<times> nat" and init out start +
  fixes ok :: "string \<Rightarrow> 's \<Rightarrow> bool" and gap :: "string \<Rightarrow> nat \<Rightarrow> bool"
  assumes ok_step: "ok sql s \<Longrightarrow> i < length sql \<Longrightarrow> body sql i s = (s', k) \<Longrightarrow> ok sql s'"
    and keeps: "ok sql s \<Longrightarrow> start s \<le> i \<Longrightarrow> i < length sql \<Longrightarrow> body sql i s = (s', k) \<Longrightarrow>
      out s' = out s \<and> start s' = start s
      \<or> out s' = out s @ trimmed sql (start s) i \<and> start s' = i + k + 1
         \<and> (\<forall>p. i \<le> p \<and> p < i + k + 1 \<and> p < length sql \<longrightarrow> gap sql p)"
begin

lemma scan_covers:
  assumes ok: "ok sql init" and s: "s = for_index (body sql) (length sql) 0 init" and p: "p < length sql"
  shows "covered (out s @ trimmed sql (start s) (length sql)) p \<or> js_ws (sql ! p) \<or> gap sql p"
proof -
  let ?C = "\<lambda>s. \<forall>p < start s. p < length sql \<longrightarrow> covered (out s) p \<or> js_ws (sql ! p) \<or> gap sql p"
  let ?P = "\<lambda>i s. ok sql s \<and> start s \<le> i \<and> ?C s"
  have "\<exists>j. length sql \<le> j \<and> ?P j (for_index (body sql) (length sql) 0 init)"
  proof (rule for_index_rule)
    show "?P 0 init" by (simp add: init ok)
    fix i s s' k
    assume P: "?P i s" and i: "i < length sql" and b: "body sql i s = (s', k)"
    have ok': "ok sql s'" using ok_step [OF _ i b] P by blast
    have "?C s' \<and> start s' \<le> i + k + 1"
    proof (cases "out s' = out s \<and> start s' = start s")
      case True
      then show ?thesis using P by simp
    next
      case False
      then have push: "out s' = out s @ trimmed sql (start s) i" "start s' = i + k + 1"
        and gap: "\<And>p. i \<le> p \<Longrightarrow> p < i + k + 1 \<Longrightarrow> p < length sql \<Longrightarrow> gap sql p"
        using keeps [OF _ _ i b] P by blast+
      have "covered (out s') p \<or> js_ws (sql ! p) \<or> gap sql p"
        if "p < start s'" "p < length sql" for p
      proof -
        consider "p < start s" | "start s \<le> p" "p < i" | "i \<le> p" by linarith
        then show ?thesis
          using P that push gap [of p] trimmed_covers [of "start s" p i sql] i by cases auto
      qed
      then show ?thesis using push by simp
    qed
    then show "?P (i + k + 1) s'" using ok' by blast
  qed
  then show ?thesis
    using trimmed_covers [of "start s" p "length sql" sql] p s
    by (cases "p < start s") auto
qed

end

end
