(* ===== verification/SplitPostgresql.thy ===== *)
theory SplitPostgresql
  imports Scanner
begin

text \<open>
  The PostgreSQL statement splitter,
  \<open>packages/database-postgresql/src/query/split-statements.ts\<close>: quotes, line comments, nested
  block comments and dollar-quoted bodies. \<open>pg_body\<close> is the body of the loop over the text,
  \<open>pg_scan\<close> its local variables; the results are that the statements are ordered, trimmed slices
  that lose nothing but separators, and that a script built from lexical tokens is cut at exactly
  the semicolons between its statements.
\<close>

section \<open>The splitter\<close>

definition ident_start :: "char \<Rightarrow> bool" where
  "ident_start c \<longleftrightarrow> (let n = (of_char c :: nat) in
     65 \<le> n \<and> n \<le> 90 \<or> 97 \<le> n \<and> n \<le> 122 \<or> c = CHR ''_'')"

definition ident_char :: "char \<Rightarrow> bool" where
  "ident_char c \<longleftrightarrow> ident_start c \<or> (let n = (of_char c :: nat) in 48 \<le> n \<and> n \<le> 57)"

text \<open>The tag of a dollar quote at the head of a text: \<open>/^\$(?:[A-Za-z_][A-Za-z0-9_]*)?\$/\<close>.\<close>

fun dollar_prefix :: "string \<Rightarrow> string option" where
  "dollar_prefix (d # c # r) =
     (if d \<noteq> CHR ''$'' then None
      else if c = CHR ''$'' then Some [d, c]
      else if \<not> ident_start c then None
      else let w = takeWhile ident_char r in
        case drop (length w) r of
          [] \<Rightarrow> None
        | e # _ \<Rightarrow> if e = CHR ''$'' then Some (d # c # w @ [e]) else None)"
| "dollar_prefix _ = None"

definition dollarTagAt :: "string \<Rightarrow> nat \<Rightarrow> string option" where
  "dollarTagAt sql offset =
     (if char_at sql offset \<noteq> Some CHR ''$'' then None else dollar_prefix (drop offset sql))"

datatype pg_state = PgNormal | PgSingle | PgDouble | PgLineComment | PgBlockComment

record pg_scan =
  pg_statements :: "query_statement list"
  pg_start :: nat
  pg_state :: pg_state
  pg_blockDepth :: int
  pg_dollarTag :: "string option"

definition pg_init :: pg_scan where
  "pg_init = \<lparr>pg_statements = [], pg_start = 0, pg_state = PgNormal, pg_blockDepth = 0,
     pg_dollarTag = None\<rparr>"

definition pg_push :: "string \<Rightarrow> nat \<Rightarrow> pg_scan \<Rightarrow> pg_scan" where
  "pg_push sql end' s =
     s\<lparr>pg_statements := pg_statements s @ trimmed sql (pg_start s) end', pg_start := end' + 1\<rparr>"

text \<open>One pass of the loop body, with what it adds to \<open>index\<close>.\<close>

definition pg_body :: "string \<Rightarrow> nat \<Rightarrow> pg_scan \<Rightarrow> pg_scan \<times> nat" where
  "pg_body sql index s =
     (let current = char_at sql index; next' = char_at sql (index + 1) in
      if pg_state s = PgLineComment then
        (if current = Some (CHR 0x0A) then (s\<lparr>pg_state := PgNormal\<rparr>, 0) else (s, 0))
      else if pg_state s = PgBlockComment then
        (if current = Some CHR ''/'' \<and> next' = Some CHR ''*'' then
           (s\<lparr>pg_blockDepth := pg_blockDepth s + 1\<rparr>, 1)
         else if current = Some CHR ''*'' \<and> next' = Some CHR ''/'' then
           (let d = pg_blockDepth s - 1
            in (s\<lparr>pg_blockDepth := d, pg_state := (if d = 0 then PgNormal else PgBlockComment)\<rparr>, 1))
         else (s, 0))
      else if pg_state s = PgSingle then
        (if current = Some (CHR 0x27) then
           (if next' = Some (CHR 0x27) then (s, 1) else (s\<lparr>pg_state := PgNormal\<rparr>, 0))
         else if current = Some (CHR 0x5C) then (s, 1)
         else (s, 0))
      else if pg_state s = PgDouble then
        (if current = Some (CHR 0x22) then
           (if next' = Some (CHR 0x22) then (s, 1) else (s\<lparr>pg_state := PgNormal\<rparr>, 0))
         else (s, 0))
      else (case pg_dollarTag s of
        Some tag \<Rightarrow>
          if starts_with_at sql tag index then (s\<lparr>pg_dollarTag := None\<rparr>, length tag - 1) else (s, 0)
      | None \<Rightarrow>
          if current = Some CHR ''-'' \<and> next' = Some CHR ''-'' then
            (s\<lparr>pg_state := PgLineComment\<rparr>, 1)
          else if current = Some CHR ''/'' \<and> next' = Some CHR ''*'' then
            (s\<lparr>pg_state := PgBlockComment, pg_blockDepth := 1\<rparr>, 1)
          else if current = Some (CHR 0x27) then (s\<lparr>pg_state := PgSingle\<rparr>, 0)
          else if current = Some (CHR 0x22) then (s\<lparr>pg_state := PgDouble\<rparr>, 0)
          else if current = Some CHR ''$'' then
            (case dollarTagAt sql index of
               None \<Rightarrow> (s\<lparr>pg_dollarTag := None\<rparr>, 0)
             | Some tag \<Rightarrow> (s\<lparr>pg_dollarTag := Some tag\<rparr>, length tag - 1))
          else if current = Some CHR '';'' then (pg_push sql index s, 0)
          else (s, 0)))"

definition splitPostgresqlStatements :: "string \<Rightarrow> query_statement list" where
  "splitPostgresqlStatements sql =
     (let s = for_index (pg_body sql) (length sql) 0 pg_init
      in pg_statements s @ trimmed sql (pg_start s) (length sql))"

section \<open>The contract of scanners\<close>

lemma pg_body_cases:
  assumes "pg_body sql i s = (s', k)"
  shows "pg_statements s' = pg_statements s \<and> pg_start s' = pg_start s
     \<or> char_at sql i = Some CHR '';'' \<and> k = 0 \<and> s' = pg_push sql i s"
  using assms
  by (auto simp: pg_body_def Let_def split: if_splits option.splits)

interpretation pg: lossless_scanner pg_body pg_init pg_statements pg_start
  "\<lambda>sql s. True" "\<lambda>sql p. sql ! p = CHR '';''"
proof
  show "pg_statements pg_init = []" "pg_start pg_init = 0" by (simp_all add: pg_init_def)
  fix sql :: string and s s' :: pg_scan and i k
  assume i: "i < length sql" and b: "pg_body sql i s = (s', k)"
  note C = pg_body_cases [OF b]
  then show "pg_statements s' = pg_statements s \<and> (pg_start s' = pg_start s \<or> pg_start s' = i + k + 1)
      \<or> pg_statements s' = pg_statements s @ trimmed sql (pg_start s) i \<and> pg_start s' = i + k + 1"
    by (auto simp: pg_push_def)
  show "pg_statements s' = pg_statements s \<and> pg_start s' = pg_start s
      \<or> pg_statements s' = pg_statements s @ trimmed sql (pg_start s) i \<and> pg_start s' = i + k + 1
        \<and> (\<forall>p. i \<le> p \<and> p < i + k + 1 \<and> p < length sql \<longrightarrow> sql ! p = CHR '';'')"
    using C i by (auto simp: pg_push_def char_at_def le_less_Suc_eq)
qed simp

section \<open>Scripts as tokens\<close>

text \<open>
  A script as PostgreSQL's lexical structure has it: single characters, quoted strings and names
  with doubled quotes, strings \<open>E'...'\<close> with backslash escapes, line comments, nested block
  comments, dollar-quoted bodies.
\<close>

datatype pg_token =
    PgChar char
  | PgString string
  | PgEscape string
  | PgName string
  | PgLine string
  | PgBlock string
  | PgDollar string string

definition doubled :: "char \<Rightarrow> string \<Rightarrow> string" where
  "doubled q w = concat (map (\<lambda>c. if c = q then [q, q] else [c]) w)"

fun pg_render1 :: "pg_token \<Rightarrow> string" where
  "pg_render1 (PgChar c) = [c]"
| "pg_render1 (PgString w) = CHR 0x27 # doubled (CHR 0x27) w @ [CHR 0x27]"
| "pg_render1 (PgEscape w) = CHR ''E'' # CHR 0x27 # w @ [CHR 0x27]"
| "pg_render1 (PgName w) = CHR 0x22 # doubled (CHR 0x22) w @ [CHR 0x22]"
| "pg_render1 (PgLine w) = ''--'' @ w @ [CHR 0x0A]"
| "pg_render1 (PgBlock w) = ''/*'' @ w"
| "pg_render1 (PgDollar tag w) = (''$'' @ tag @ ''$'') @ w @ (''$'' @ tag @ ''$'')"

definition pg_render :: "pg_token list \<Rightarrow> string" where
  "pg_render ts = concat (map pg_render1 ts)"

text \<open>A text that closes \<open>d\<close> open block comments exactly at its end.\<close>

fun comment_closes :: "nat \<Rightarrow> string \<Rightarrow> bool" where
  "comment_closes d (a # b # r) =
     (if a = CHR ''/'' \<and> b = CHR ''*'' then comment_closes (Suc d) r
      else if a = CHR ''*'' \<and> b = CHR ''/'' then (if d = 1 then r = [] else comment_closes (d - 1) r)
      else comment_closes d (b # r))"
| "comment_closes d _ = False"

definition dollar_name :: "string \<Rightarrow> bool" where
  "dollar_name w \<longleftrightarrow> (case w of [] \<Rightarrow> True | c # r \<Rightarrow> ident_start c \<and> list_all ident_char r)"

definition first_occurrence :: "string \<Rightarrow> string \<Rightarrow> bool" where
  "first_occurrence w p \<longleftrightarrow> (\<forall>i < length w. take (length p) (drop i (w @ p)) \<noteq> p)"

text \<open>
  The text between the quotes of a string \<open>E'...'\<close>: every quote is doubled or behind a backslash.
\<close>

fun escape_body :: "string \<Rightarrow> bool" where
  "escape_body [] \<longleftrightarrow> True"
| "escape_body (c # r) \<longleftrightarrow>
     (if c = CHR 0x5C then (case r of [] \<Rightarrow> False | _ # v \<Rightarrow> escape_body v)
      else if c = CHR 0x27 then (case r of [] \<Rightarrow> False | d # v \<Rightarrow> d = CHR 0x27 \<and> escape_body v)
      else escape_body r)"

text \<open>
  A plain string is \<^emph>\<open>clear\<close> when no backslash that is not itself behind a backslash stands before a
  quote or at the end. In a plain string a backslash is a character like any other (with
  \<open>standard_conforming_strings\<close> on), while the splitter reads it as an escape in every string;
  only in a clear string the two readings end at the same quote.
\<close>

fun clear_body :: "string \<Rightarrow> bool" where
  "clear_body [] \<longleftrightarrow> True"
| "clear_body (c # r) \<longleftrightarrow>
     (if c = CHR 0x5C then (case r of [] \<Rightarrow> False | d # v \<Rightarrow> d \<noteq> CHR 0x27 \<and> clear_body v)
      else clear_body r)"

fun pg_clear :: "pg_token \<Rightarrow> bool" where
  "pg_clear (PgString w) \<longleftrightarrow> clear_body w"
| "pg_clear _ \<longleftrightarrow> True"

text \<open>A token can stand before the text \<open>rest\<close>.\<close>

fun pg_token_ok :: "pg_token \<Rightarrow> string \<Rightarrow> bool" where
  "pg_token_ok (PgChar c) rest \<longleftrightarrow>
     c \<notin> {CHR 0x27, CHR 0x22, CHR '';''}
     \<and> (c = CHR ''-'' \<longrightarrow> \<not> next_is CHR ''-'' rest) \<and> (c = CHR ''/'' \<longrightarrow> \<not> next_is CHR ''*'' rest)
     \<and> (c = CHR ''$'' \<longrightarrow> dollar_prefix (c # rest) = None)"
| "pg_token_ok (PgString w) rest \<longleftrightarrow> \<not> next_is (CHR 0x27) rest"
| "pg_token_ok (PgEscape w) rest \<longleftrightarrow> escape_body w \<and> \<not> next_is (CHR 0x27) rest"
| "pg_token_ok (PgName w) rest \<longleftrightarrow> \<not> next_is (CHR 0x22) rest"
| "pg_token_ok (PgLine w) rest \<longleftrightarrow> CHR 0x0A \<notin> set w"
| "pg_token_ok (PgBlock w) rest \<longleftrightarrow> comment_closes 1 w"
| "pg_token_ok (PgDollar tag w) rest \<longleftrightarrow> dollar_name tag \<and> first_occurrence w (''$'' @ tag @ ''$'')"

fun pg_wf :: "pg_token list \<Rightarrow> bool" where
  "pg_wf [] \<longleftrightarrow> True"
| "pg_wf (t # ts) \<longleftrightarrow> pg_token_ok t (pg_render ts) \<and> pg_wf ts"

definition pg_script :: "pg_token list list \<Rightarrow> pg_token list \<Rightarrow> string" where
  "pg_script tss last_ts = concat (map (\<lambda>ts. pg_render ts @ '';'') tss) @ pg_render last_ts"

section \<open>The scanner on one token\<close>

abbreviation pg_loop :: "string \<Rightarrow> nat \<Rightarrow> pg_scan \<Rightarrow> pg_scan" where
  "pg_loop sql i s \<equiv> for_index (pg_body sql) (length sql) i s"

lemma pg_here [simp]:
  "char_at (pre @ c # post) (length pre) = Some c"
  "char_at (pre @ c # post) (Suc (length pre)) = Some d \<longleftrightarrow> next_is d post"
  "starts_with_at (pre @ r) p (length pre) \<longleftrightarrow> take (length p) r = p"
  "dollarTagAt (pre @ c # post) (length pre) = (if c = CHR ''$'' then dollar_prefix (c # post) else None)"
  by (cases post; auto simp: char_at_def starts_with_at_def dollarTagAt_def nth_append)+

text \<open>The loop body at the character \<open>c\<close>, in each state.\<close>

lemma pg_line_step:
  "pg_state s = PgLineComment \<Longrightarrow> pg_body (pre @ c # post) (length pre) s
     = (if c = CHR 0x0A then (s\<lparr>pg_state := PgNormal\<rparr>, 0) else (s, 0))"
  by (simp add: pg_body_def)

lemma pg_block_step:
  "pg_state s = PgBlockComment \<Longrightarrow> pg_body (pre @ c # post) (length pre) s
     = (if c = CHR ''/'' \<and> next_is CHR ''*'' post then (s\<lparr>pg_blockDepth := pg_blockDepth s + 1\<rparr>, 1)
        else if c = CHR ''*'' \<and> next_is CHR ''/'' post then
          (s\<lparr>pg_blockDepth := pg_blockDepth s - 1,
             pg_state := (if pg_blockDepth s - 1 = 0 then PgNormal else PgBlockComment)\<rparr>, 1)
        else (s, 0))"
  by (simp add: pg_body_def)

lemma pg_single_step:
  "pg_state s = PgSingle \<Longrightarrow> pg_body (pre @ c # post) (length pre) s
     = (if c = CHR 0x27 then (if next_is (CHR 0x27) post then (s, 1) else (s\<lparr>pg_state := PgNormal\<rparr>, 0))
        else if c = CHR 0x5C then (s, 1) else (s, 0))"
  by (simp add: pg_body_def)

lemma pg_double_step:
  "pg_state s = PgDouble \<Longrightarrow> pg_body (pre @ c # post) (length pre) s
     = (if c = CHR 0x22 then (if next_is (CHR 0x22) post then (s, 1) else (s\<lparr>pg_state := PgNormal\<rparr>, 0))
        else (s, 0))"
  by (simp add: pg_body_def)

lemma pg_dollar_step:
  "pg_state s = PgNormal \<Longrightarrow> pg_dollarTag s = Some tag \<Longrightarrow> pg_body (pre @ c # post) (length pre) s
     = (if take (length tag) (c # post) = tag then (s\<lparr>pg_dollarTag := None\<rparr>, length tag - 1) else (s, 0))"
  by (simp add: pg_body_def)

lemma pg_normal_step:
  "pg_state s = PgNormal \<Longrightarrow> pg_dollarTag s = None \<Longrightarrow> pg_body (pre @ c # post) (length pre) s
     = (if c = CHR ''-'' \<and> next_is CHR ''-'' post then (s\<lparr>pg_state := PgLineComment\<rparr>, 1)
        else if c = CHR ''/'' \<and> next_is CHR ''*'' post then
          (s\<lparr>pg_state := PgBlockComment, pg_blockDepth := 1\<rparr>, 1)
        else if c = CHR 0x27 then (s\<lparr>pg_state := PgSingle\<rparr>, 0)
        else if c = CHR 0x22 then (s\<lparr>pg_state := PgDouble\<rparr>, 0)
        else if c = CHR ''$'' then
          (case dollar_prefix (c # post) of
             None \<Rightarrow> (s\<lparr>pg_dollarTag := None\<rparr>, 0)
           | Some tag \<Rightarrow> (s\<lparr>pg_dollarTag := Some tag\<rparr>, length tag - 1))
        else if c = CHR '';'' then (pg_push (pre @ c # post) (length pre) s, 0)
        else (s, 0))"
  by (simp add: pg_body_def Let_def)

lemmas pg_steps = pg_line_step pg_block_step pg_single_step pg_double_step pg_dollar_step pg_normal_step

lemma pg_loop_step:
  assumes "pg_body (pre @ c # post) (length pre) s = (s', k)"
  shows "pg_loop (pre @ c # post) (length pre) s = pg_loop (pre @ c # post) (length pre + k + 1) s'"
  using assms by (intro for_index_step) auto

lemma doubled_Cons [simp]: "doubled q (c # w) = (if c = q then [q, q] else [c]) @ doubled q w"
  by (simp add: doubled_def)

lemma doubled_Nil [simp]: "doubled q [] = []"
  by (simp add: doubled_def)

lemma clear_is_escape: "clear_body w \<Longrightarrow> escape_body (doubled (CHR 0x27) w)"
  by (induction w rule: clear_body.induct) (auto split: list.splits if_splits)

lemma no_backslash_clear: "CHR 0x5C \<notin> set w \<Longrightarrow> clear_body w"
  by (induction w) auto

text \<open>Every string is left at the quote that ends it as an \<open>E'...'\<close> string.\<close>

lemma pg_string_scan:
  assumes "escape_body w" "\<not> next_is (CHR 0x27) post" "pg_state s = PgSingle"
  shows "pg_loop (pre @ w @ CHR 0x27 # post) (length pre) s
     = pg_loop (pre @ w @ CHR 0x27 # post) (length pre + length w + 1) (s\<lparr>pg_state := PgNormal\<rparr>)"
  using assms(1)
proof (induction w arbitrary: pre rule: escape_body.induct)
  case 1
  then show ?case
    using assms(2,3) pg_loop_step [of pre "CHR 0x27" post s "s\<lparr>pg_state := PgNormal\<rparr>" 0]
    by (simp add: pg_steps)
next
  case (2 c r)
  consider (esc) "c = CHR 0x5C" | (quote) "c = CHR 0x27" | (other) "c \<noteq> CHR 0x5C" "c \<noteq> CHR 0x27" by blast
  then show ?case
  proof cases
    case esc
    then obtain d v where r: "r = d # v" "escape_body v" using "2.prems" by (cases r) auto
    then show ?thesis
      using "2.IH"(1) [OF esc r(1,2), of "pre @ [c, d]"] esc assms(3) pg_loop_step [of pre c "d # v @ CHR 0x27 # post" s s 1]
      by (simp add: pg_steps)
  next
    case quote
    then obtain d v where r: "r = d # v" "d = CHR 0x27" "escape_body v" using "2.prems" by (cases r) auto
    then show ?thesis
      using "2.IH"(2) [OF _ quote r(1,3), of "pre @ [c, d]"] quote assms(3)
        pg_loop_step [of pre c "d # v @ CHR 0x27 # post" s s 1]
      by (simp add: pg_steps)
  next
    case other
    then show ?thesis
      using "2.IH"(3) [of "pre @ [c]"] "2.prems" assms(3) pg_loop_step [of pre c "r @ CHR 0x27 # post" s s 0]
      by (simp add: pg_steps)
  qed
qed

lemma pg_name_scan:
  assumes "\<not> next_is (CHR 0x22) post" "pg_state s = PgDouble"
  shows "pg_loop (pre @ doubled (CHR 0x22) w @ CHR 0x22 # post) (length pre) s
     = pg_loop (pre @ doubled (CHR 0x22) w @ CHR 0x22 # post)
         (length pre + length (doubled (CHR 0x22) w) + 1) (s\<lparr>pg_state := PgNormal\<rparr>)"
proof (induction w arbitrary: pre)
  case Nil
  then show ?case
    using assms pg_loop_step [of pre "CHR 0x22" post s "s\<lparr>pg_state := PgNormal\<rparr>" 0]
    by (simp add: doubled_def pg_steps)
next
  case (Cons c w)
  let ?post = "doubled (CHR 0x22) w @ CHR 0x22 # post"
  show ?case
  proof (cases "c = CHR 0x22")
    case True
    then show ?thesis
      using Cons.IH [of "pre @ [c, c]"] assms(2) pg_loop_step [of pre c "c # ?post" s s 1]
      by (simp add: doubled_def pg_steps)
  next
    case False
    then show ?thesis
      using Cons.IH [of "pre @ [c]"] assms(2) pg_loop_step [of pre c ?post s s 0]
      by (simp add: doubled_def pg_steps)
  qed
qed

lemma pg_line_scan:
  assumes "CHR 0x0A \<notin> set w" "pg_state s = PgLineComment"
  shows "pg_loop (pre @ w @ CHR 0x0A # post) (length pre) s
     = pg_loop (pre @ w @ CHR 0x0A # post) (length pre + length w + 1) (s\<lparr>pg_state := PgNormal\<rparr>)"
  using assms(1)
proof (induction w arbitrary: pre)
  case Nil
  then show ?case
    using assms(2) pg_loop_step [of pre "CHR 0x0A" post s "s\<lparr>pg_state := PgNormal\<rparr>" 0]
    by (simp add: pg_steps)
next
  case (Cons c w)
  then have "c \<noteq> CHR 0x0A" by auto
  then show ?case
    using Cons.IH [of "pre @ [c]"] Cons.prems assms(2) pg_loop_step [of pre c "w @ CHR 0x0A # post" s s 0]
    by (simp add: pg_steps)
qed

lemma pg_block_scan:
  assumes "comment_closes d w" "0 < d" "pg_state s = PgBlockComment" "pg_blockDepth s = int d"
  shows "pg_loop (pre @ w @ post) (length pre) s
     = pg_loop (pre @ w @ post) (length pre + length w) (s\<lparr>pg_state := PgNormal, pg_blockDepth := 0\<rparr>)"
  using assms
proof (induction d w arbitrary: pre s rule: comment_closes.induct)
  case (1 d a b r)
  consider (op) "a = CHR ''/''" "b = CHR ''*''" | (cl) "a = CHR ''*''" "b = CHR ''/''"
    | (oth) "\<not> (a = CHR ''/'' \<and> b = CHR ''*'')" "\<not> (a = CHR ''*'' \<and> b = CHR ''/'')"
    by blast
  then show ?case
  proof cases
    case op
    then show ?thesis
      using "1.IH"(1) [of "s\<lparr>pg_blockDepth := pg_blockDepth s + 1\<rparr>" "pre @ [a, b]"] "1.prems"
        pg_loop_step [of pre a "b # r @ post" s "s\<lparr>pg_blockDepth := pg_blockDepth s + 1\<rparr>" 1]
      by (simp add: pg_steps)
  next
    case cl
    show ?thesis
    proof (cases "d = 1")
      case True
      then show ?thesis
        using cl "1.prems"
          pg_loop_step [of pre a "b # r @ post" s "s\<lparr>pg_state := PgNormal, pg_blockDepth := 0\<rparr>" 1]
        by (simp add: pg_steps)
    next
      case False
      let ?s = "s\<lparr>pg_blockDepth := pg_blockDepth s - 1\<rparr>"
      have "pg_body (pre @ a # b # r @ post) (length pre) s = (?s, 1)"
        using cl "1.prems" False by (simp add: pg_steps)
      moreover have "comment_closes (d - 1) r" using cl "1.prems"(1) False by simp
      ultimately show ?thesis
        using "1.IH"(2) [of ?s "pre @ [a, b]"] cl "1.prems" False
          pg_loop_step [of pre a "b # r @ post" s ?s 1]
        by (simp add: of_nat_diff)
    qed
  next
    case oth
    then have "pg_body (pre @ a # b # r @ post) (length pre) s = (s, 0)"
      using "1.prems"(3) by (auto simp: pg_steps)
    moreover have "comment_closes d (b # r)" using oth "1.prems"(1) by simp
    ultimately show ?thesis
      using "1.IH"(3) [of s "pre @ [a]"] oth "1.prems"
        pg_loop_step [of pre a "b # r @ post" s s 0]
      by simp
  qed
qed auto

lemma pg_dollar_scan:
  assumes "first_occurrence w tag" "tag \<noteq> []" "pg_state s = PgNormal" "pg_dollarTag s = Some tag"
  shows "pg_loop (pre @ w @ tag @ post) (length pre) s
     = pg_loop (pre @ w @ tag @ post) (length pre + length w + length tag) (s\<lparr>pg_dollarTag := None\<rparr>)"
  using assms(1)
proof (induction w arbitrary: pre)
  case Nil
  obtain c r where "tag = c # r" using assms(2) by (cases tag) auto
  then show ?case
    using assms(3,4) pg_loop_step [of pre c "r @ post" s "s\<lparr>pg_dollarTag := None\<rparr>" "length tag - 1"]
    by (simp add: pg_steps)
next
  case (Cons c w)
  have "take (length tag) ((c # w) @ tag) \<noteq> tag"
    using Cons.prems unfolding first_occurrence_def by (metis drop0 length_greater_0_conv list.discI)
  then have "take (length tag) (c # w @ tag @ post) \<noteq> tag"
    using take_append [of "length tag" "(c # w) @ tag" post] by simp
  then have "pg_body (pre @ c # w @ tag @ post) (length pre) s = (s, 0)"
    using assms(3,4) by (simp add: pg_steps)
  moreover have "first_occurrence w tag"
    using Cons.prems unfolding first_occurrence_def
    by (metis (no_types, lifting) Suc_less_eq append_Cons drop_Suc_Cons length_Cons)
  ultimately show ?case
    using Cons.IH [of "pre @ [c]"] pg_loop_step [of pre c "w @ tag @ post" s s 0] by simp
qed

lemma dollar_prefix_name:
  assumes "dollar_name w"
  shows "dollar_prefix (CHR ''$'' # w @ CHR ''$'' # r) = Some (''$'' @ w @ ''$'')"
proof (cases w)
  case Nil
  then show ?thesis by simp
next
  case (Cons c v)
  have "\<not> ident_char CHR ''$''" by (simp add: ident_char_def ident_start_def)
  then have tw: "takeWhile ident_char (v @ CHR ''$'' # r) = v"
    using assms Cons by (simp add: dollar_name_def takeWhile_append2 list_all_iff)
  have "ident_start c" "c \<noteq> CHR ''$''"
    using assms Cons by (auto simp: dollar_name_def ident_start_def)
  then show ?thesis using Cons tw by (simp add: Let_def)
qed

lemma pg_same [simp]:
  "pg_state s = PgNormal \<Longrightarrow> s\<lparr>pg_state := PgNormal\<rparr> = s"
  "pg_dollarTag s = None \<Longrightarrow> s\<lparr>pg_dollarTag := None\<rparr> = s"
  "s\<lparr>pg_blockDepth := pg_blockDepth s\<rparr> = s"
  by (cases s; simp)+

lemma pg_token_scan:
  assumes "pg_state s = PgNormal" "pg_dollarTag s = None" "pg_token_ok t post" "pg_clear t"
  shows "\<exists>d. pg_loop (pre @ pg_render1 t @ post) (length pre) s
     = pg_loop (pre @ pg_render1 t @ post) (length pre + length (pg_render1 t)) (s\<lparr>pg_blockDepth := d\<rparr>)"
proof (cases t)
  case (PgChar c)
  then have "pg_body (pre @ c # post) (length pre) s = (s, 0)"
    using assms by (auto simp: pg_steps)
  then show ?thesis
    using pg_loop_step [of pre c post s s 0] PgChar by (intro exI [of _ "pg_blockDepth s"]) simp
next
  case (PgString w)
  let ?s = "s\<lparr>pg_state := PgSingle\<rparr>"
  have "pg_body (pre @ CHR 0x27 # doubled (CHR 0x27) w @ CHR 0x27 # post) (length pre) s = (?s, 0)"
    using assms(1,2) by (simp add: pg_steps)
  then show ?thesis
    using PgString assms pg_loop_step [of pre "CHR 0x27" "doubled (CHR 0x27) w @ CHR 0x27 # post" s ?s 0]
      pg_string_scan [of "doubled (CHR 0x27) w" post ?s "pre @ [CHR 0x27]"] clear_is_escape [of w]
    by (intro exI [of _ "pg_blockDepth s"]) simp
next
  case (PgEscape w)
  let ?s = "s\<lparr>pg_state := PgSingle\<rparr>"
  let ?post = "CHR 0x27 # w @ CHR 0x27 # post"
  have "pg_body (pre @ CHR ''E'' # ?post) (length pre) s = (s, 0)"
    "pg_body ((pre @ ''E'') @ ?post) (length (pre @ ''E'')) s = (?s, 0)"
    using assms(1,2) by (subst pg_normal_step; simp)+
  then show ?thesis
    using PgEscape assms pg_loop_step [of pre "CHR ''E''" ?post s s 0]
      pg_loop_step [of "pre @ ''E''" "CHR 0x27" "w @ CHR 0x27 # post" s ?s 0]
      pg_string_scan [of w post ?s "pre @ [CHR ''E'', CHR 0x27]"]
    by (intro exI [of _ "pg_blockDepth s"]) simp
next
  case (PgName w)
  let ?s = "s\<lparr>pg_state := PgDouble\<rparr>"
  have "pg_body (pre @ CHR 0x22 # doubled (CHR 0x22) w @ CHR 0x22 # post) (length pre) s = (?s, 0)"
    using assms(1,2) by (simp add: pg_steps)
  then show ?thesis
    using PgName assms pg_loop_step [of pre "CHR 0x22" "doubled (CHR 0x22) w @ CHR 0x22 # post" s ?s 0]
      pg_name_scan [of post ?s "pre @ [CHR 0x22]" w]
    by (intro exI [of _ "pg_blockDepth s"]) simp
next
  case (PgLine w)
  let ?s = "s\<lparr>pg_state := PgLineComment\<rparr>"
  have "pg_body (pre @ CHR ''-'' # CHR ''-'' # w @ CHR 0x0A # post) (length pre) s = (?s, 1)"
    using assms(1,2) by (simp add: pg_steps)
  then show ?thesis
    using PgLine assms pg_loop_step [of pre "CHR ''-''" "CHR ''-'' # w @ CHR 0x0A # post" s ?s 1]
      pg_line_scan [of w ?s "pre @ ''--''" post]
    by (intro exI [of _ "pg_blockDepth s"]) simp
next
  case (PgBlock w)
  let ?s = "s\<lparr>pg_state := PgBlockComment, pg_blockDepth := 1\<rparr>"
  have "pg_body (pre @ CHR ''/'' # CHR ''*'' # w @ post) (length pre) s = (?s, 1)"
    using assms(1,2) by (simp add: pg_steps)
  then show ?thesis
    using PgBlock assms pg_loop_step [of pre "CHR ''/''" "CHR ''*'' # w @ post" s ?s 1]
      pg_block_scan [of 1 w ?s "pre @ ''/*''" post]
    by (intro exI [of _ 0]) simp
next
  case (PgDollar tag w)
  let ?t = "''$'' @ tag @ ''$''"
  let ?s = "s\<lparr>pg_dollarTag := Some ?t\<rparr>"
  have "dollar_prefix (CHR ''$'' # tag @ CHR ''$'' # w @ ?t @ post) = Some ?t"
    using PgDollar assms(3) by (intro dollar_prefix_name) simp
  then have "pg_body (pre @ CHR ''$'' # tag @ CHR ''$'' # w @ ?t @ post) (length pre) s = (?s, length ?t - 1)"
    using assms(1,2) by (simp add: pg_steps)
  then have "pg_loop (pre @ ?t @ w @ ?t @ post) (length pre) s
      = pg_loop (pre @ ?t @ w @ ?t @ post) (length pre + length ?t) ?s"
    using pg_loop_step [of pre "CHR ''$''" "tag @ CHR ''$'' # w @ ?t @ post" s ?s "length ?t - 1"] by simp
  also have "\<dots> = pg_loop (pre @ ?t @ w @ ?t @ post) (length pre + length ?t + length w + length ?t) s"
    using pg_dollar_scan [of w ?t ?s "pre @ ?t" post] PgDollar assms by simp
  finally show ?thesis
    using PgDollar by (intro exI [of _ "pg_blockDepth s"]) (simp add: add.assoc)
qed

section \<open>Whole scripts\<close>

definition pg_tail :: "string \<Rightarrow> bool" where
  "pg_tail r \<longleftrightarrow> r = [] \<or> (\<exists>v. r = CHR '';'' # v)"

lemma next_is_tail: "pg_tail r \<Longrightarrow> c \<noteq> CHR '';'' \<Longrightarrow> next_is c (x @ r) = next_is c x"
  by (cases x) (auto simp: pg_tail_def)

lemma dollar_prefix_tail:
  assumes "dollar_prefix (CHR ''$'' # x) = None" "pg_tail r"
  shows "dollar_prefix (CHR ''$'' # x @ r) = None"
proof (cases x)
  case Nil
  then show ?thesis using assms(2) by (auto simp: pg_tail_def ident_start_def)
next
  case (Cons c v)
  show ?thesis
  proof (cases "ident_start c \<and> c \<noteq> CHR ''$''")
    case True
    let ?w = "takeWhile ident_char v"
    have semi: "\<not> ident_char CHR '';''" by (simp add: ident_char_def ident_start_def)
    show ?thesis
    proof (cases "drop (length ?w) v")
      case Nil
      then have "?w = v" by (metis append_Nil2 dropWhile_eq_drop takeWhile_dropWhile_id)
      then have "\<forall>x \<in> set v. ident_char x" by (simp add: takeWhile_eq_all_conv)
      then have "takeWhile ident_char (v @ r) = v"
        using assms(2) semi by (auto simp: pg_tail_def takeWhile_append2)
      then show ?thesis using Cons True assms(2) by (auto simp: Let_def pg_tail_def)
    next
      case (Cons e u)
      then have "dropWhile ident_char v \<noteq> []" by (simp add: dropWhile_eq_drop)
      then have "hd (dropWhile ident_char v) \<in> set v" "\<not> ident_char (hd (dropWhile ident_char v))"
        by (metis hd_in_set set_dropWhileD) (rule hd_dropWhile [OF \<open>dropWhile ident_char v \<noteq> []\<close>])
      then have "takeWhile ident_char (v @ r) = ?w" by (rule takeWhile_append1)
      moreover have "length ?w \<le> length v" by (rule length_takeWhile_le)
      ultimately show ?thesis
        using Cons \<open>x = c # v\<close> True assms(1) by (auto simp: Let_def split: if_splits)
    qed
  next
    case False
    then show ?thesis using Cons assms(1) by auto
  qed
qed

lemma pg_token_ok_tail: "pg_token_ok t x \<Longrightarrow> pg_tail r \<Longrightarrow> pg_token_ok t (x @ r)"
  by (cases t) (auto simp: next_is_tail dollar_prefix_tail)

lemma pg_render_scan:
  assumes "pg_state s = PgNormal" "pg_dollarTag s = None" "pg_wf ts \<and> list_all pg_clear ts" "pg_tail r"
  shows "\<exists>d. pg_loop (pre @ pg_render ts @ r) (length pre) s
     = pg_loop (pre @ pg_render ts @ r) (length pre + length (pg_render ts)) (s\<lparr>pg_blockDepth := d\<rparr>)"
  using assms(1-3)
proof (induction ts arbitrary: pre s)
  case Nil
  then show ?case by (intro exI [of _ "pg_blockDepth s"]) (simp add: pg_render_def)
next
  case (Cons t ts)
  let ?post = "pg_render ts @ r"
  have "pg_token_ok t ?post" "pg_clear t" using Cons.prems(3) assms(4) by (simp_all add: pg_token_ok_tail)
  then obtain d where d: "pg_loop (pre @ pg_render1 t @ ?post) (length pre) s
      = pg_loop (pre @ pg_render1 t @ ?post) (length pre + length (pg_render1 t)) (s\<lparr>pg_blockDepth := d\<rparr>)"
    using pg_token_scan [OF Cons.prems(1,2)] by blast
  obtain d' where "pg_loop ((pre @ pg_render1 t) @ ?post) (length (pre @ pg_render1 t)) (s\<lparr>pg_blockDepth := d\<rparr>)
      = pg_loop ((pre @ pg_render1 t) @ ?post) (length (pre @ pg_render1 t) + length (pg_render ts))
          (s\<lparr>pg_blockDepth := d, pg_blockDepth := d'\<rparr>)"
    using Cons.IH [of "s\<lparr>pg_blockDepth := d\<rparr>" "pre @ pg_render1 t"] Cons.prems by auto
  then show ?case
    using d by (intro exI [of _ d']) (simp add: pg_render_def add.assoc)
qed

lemma pg_script_scan:
  assumes "\<forall>ts \<in> set (tss @ [ts']). pg_wf ts \<and> list_all pg_clear ts"
    and "pg_state s = PgNormal" "pg_dollarTag s = None" "pg_start s = length pre"
    and "f = pg_loop (pre @ pg_script tss ts') (length pre) s"
  shows "map qsql (pg_statements f @ trimmed (pre @ pg_script tss ts') (pg_start f) (length (pre @ pg_script tss ts')))
     = map qsql (pg_statements s) @ filter (\<lambda>w. w \<noteq> []) (map (\<lambda>ts. js_trim (pg_render ts)) (tss @ [ts']))"
  using assms
proof (induction tss arbitrary: pre s)
  case Nil
  have sql: "pre @ pg_script [] ts' = pre @ pg_render ts' @ []" by (simp add: pg_script_def)
  have "pg_wf ts' \<and> list_all pg_clear ts'" "pg_tail []" using Nil.prems(1) by (simp_all add: pg_tail_def)
  from pg_render_scan [OF Nil.prems(2,3) this, of pre] obtain d where
    "f = pg_loop (pre @ pg_render ts' @ []) (length pre + length (pg_render ts')) (s\<lparr>pg_blockDepth := d\<rparr>)"
    using Nil.prems(5) sql by auto
  then have "f = s\<lparr>pg_blockDepth := d\<rparr>" by (simp add: for_index_stop)
  then show ?case
    using Nil.prems(4) trimmed_text [of pre "pg_render ts'" "[]"] by (simp add: pg_script_def)
next
  case (Cons ts tss)
  let ?rest = "pg_script tss ts'"
  have sql: "pre @ pg_script (ts # tss) ts' = pre @ pg_render ts @ CHR '';'' # ?rest"
    by (simp add: pg_script_def)
  have "pg_wf ts \<and> list_all pg_clear ts" "pg_tail (CHR '';'' # ?rest)" using Cons.prems(1) by (simp_all add: pg_tail_def)
  from pg_render_scan [OF Cons.prems(2,3) this, of pre] obtain d where
    f: "f = pg_loop (pre @ pg_render ts @ CHR '';'' # ?rest) (length pre + length (pg_render ts))
          (s\<lparr>pg_blockDepth := d\<rparr>)"
    using Cons.prems(5) sql by auto
  let ?pre = "pre @ pg_render ts"
  let ?s = "pg_push (?pre @ CHR '';'' # ?rest) (length ?pre) (s\<lparr>pg_blockDepth := d\<rparr>)"
  have "pg_body (?pre @ CHR '';'' # ?rest) (length ?pre) (s\<lparr>pg_blockDepth := d\<rparr>) = (?s, 0)"
    using Cons.prems(2,3) by (subst pg_normal_step) simp_all
  from pg_loop_step [OF this] f have
    f': "f = pg_loop ((?pre @ '';'') @ ?rest) (length (?pre @ '';'')) ?s" by simp
  have "map qsql (pg_statements f @ trimmed ((?pre @ '';'') @ ?rest) (pg_start f) (length ((?pre @ '';'') @ ?rest)))
      = map qsql (pg_statements ?s) @ filter (\<lambda>w. w \<noteq> []) (map (\<lambda>ts. js_trim (pg_render ts)) (tss @ [ts']))"
    by (rule Cons.IH [OF _ _ _ _ f']) (use Cons.prems in \<open>simp_all add: pg_push_def\<close>)
  moreover have "map qsql (pg_statements ?s)
      = map qsql (pg_statements s) @ (if js_trim (pg_render ts) = [] then [] else [js_trim (pg_render ts)])"
    using Cons.prems(4) trimmed_text [of pre "pg_render ts" "CHR '';'' # ?rest"] by (simp add: pg_push_def)
  ultimately show ?case by (simp add: sql)
qed

section \<open>Properties\<close>

lemma pg_script_statements:
  assumes "\<forall>ts \<in> set (tss @ [ts']). pg_wf ts \<and> list_all pg_clear ts"
  shows "map qsql (splitPostgresqlStatements (pg_script tss ts'))
     = filter (\<lambda>w. w \<noteq> []) (map (\<lambda>ts. js_trim (pg_render ts)) (tss @ [ts']))"
  using pg_script_scan [OF assms, of pg_init "[]"]
  by (simp add: splitPostgresqlStatements_def Let_def pg_init_def)



text \<open>
  Splitting a PostgreSQL script loses and invents nothing: the statements are
  slices of the text at their offsets, non-empty, without white space at their ends, in the order
  of the text without overlaps, and every character outside them is white space or a semicolon.\<close>

theorem pg_split_lossless:
  "in_order (splitPostgresqlStatements sql)
    \<and> (\<forall>s \<in> set (splitPostgresqlStatements sql). statement_of sql s)
    \<and> (\<forall>p < length sql. covered (splitPostgresqlStatements sql) p
          \<or> js_ws (sql ! p) \<or> sql ! p = CHR '';'')"
  using pg.scan_ok [OF refl refl, of sql] pg.scan_covers [OF TrueI refl, of _ sql]
  by (simp add: splitPostgresqlStatements_def Let_def)

theorem pg_split_lossless_witness:
  "\<exists>s. splitPostgresqlStatements '' a;'' = [s] \<and> statement_of '' a;'' s \<and> qsql s = ''a''"
proof -
  have "splitPostgresqlStatements '' a;'' = [\<lparr>qsql = ''a'', startOffset = 1, endOffset = 2\<rparr>]"
    by (simp add: splitPostgresqlStatements_def for_index.simps pg_body_def pg_init_def pg_push_def
        char_at_def trimmed_def trimStatement_def first_nonspace_def js_slice_def js_ws_def ws_at_def
        numeral_eq_Suc)
  then show ?thesis using pg_split_lossless [of "'' a;''"] by simp
qed

text \<open>A backslash inside a plain string does not escape in PostgreSQL (unless
  \<open>standard_conforming_strings\<close> is off), but the splitter skips the character after it: two
  statements come out as one.\<close>

theorem pg_backslash_merges:
  "map qsql (splitPostgresqlStatements ([CHR 0x27, CHR 0x5C, CHR 0x27] @ ''; B''))
     = [[CHR 0x27, CHR 0x5C, CHR 0x27] @ ''; B'']"
  by (simp add: splitPostgresqlStatements_def for_index.simps pg_body_def pg_init_def pg_push_def
      char_at_def trimmed_def trimStatement_def first_nonspace_def js_slice_def js_ws_def ws_at_def
      numeral_eq_Suc)

end
