(* ===== verification/SplitMysql.thy ===== *)
theory SplitMysql
  imports Scanner
begin

text \<open>
  The MySQL statement splitter, \<open>packages/database-mysql/src/query/split-statements.ts\<close>: quotes
  with backslash escapes, \<open>--\<close>, \<open>#\<close> and block comments, and \<open>DELIMITER\<close> directives, which
  change the separator. \<open>my_body\<close> is the loop body, \<open>my_scan\<close> its local variables.
\<close>

section \<open>The splitter\<close>

definition blank :: "char \<Rightarrow> bool" where
  "blank c \<longleftrightarrow> c = CHR '' '' \<or> c = CHR 0x09"

text \<open>
  \<open>/^[ \t]*DELIMITER[ \t]+([^\s]+)[ \t]*(?:\r?\n|$)/i\<close> on the rest of the text: the new delimiter
  and the length of the whole match. No part of the expression can match in two ways.
\<close>

definition mysql_directive :: "string \<Rightarrow> (string \<times> nat) option" where
  "mysql_directive r =
     (let b1 = length (takeWhile blank r); r1 = drop b1 r; r2 = drop 9 r1;
          b2 = length (takeWhile blank r2); r3 = drop b2 r2;
          w = takeWhile (\<lambda>c. \<not> js_ws c) r3; r4 = drop (length w) r3;
          b3 = length (takeWhile blank r4); r5 = drop b3 r4;
          n = b1 + 9 + b2 + length w + b3
      in if js_lower (take 9 r1) \<noteq> ''delimiter'' \<or> b2 = 0 \<or> w = [] then None
         else if r5 = [] then Some (w, n)
         else if take 1 r5 = [CHR 0x0A] then Some (w, n + 1)
         else if take 2 r5 = [CHR 0x0D, CHR 0x0A] then Some (w, n + 2)
         else None)"

definition delimiterAt :: "string \<Rightarrow> nat \<Rightarrow> string \<Rightarrow> bool" where
  "delimiterAt sql index delimiter \<longleftrightarrow> length delimiter > 0 \<and> starts_with_at sql delimiter index"

datatype my_state = MyNormal | MySingle | MyDouble | MyBacktick | MyLineComment | MyBlockComment

record my_scan =
  my_statements :: "query_statement list"
  my_start :: nat
  my_delimiter :: string
  my_state :: my_state
  my_blockDepth :: int
  my_lineStart :: bool

definition my_init :: my_scan where
  "my_init = \<lparr>my_statements = [], my_start = 0, my_delimiter = '';'', my_state = MyNormal,
     my_blockDepth = 0, my_lineStart = True\<rparr>"

definition my_push :: "string \<Rightarrow> nat \<Rightarrow> my_scan \<Rightarrow> my_scan" where
  "my_push sql end' s =
     s\<lparr>my_statements := my_statements s @ trimmed sql (my_start s) end',
       my_start := end' + length (my_delimiter s)\<rparr>"

definition my_closing :: "my_state \<Rightarrow> char" where
  "my_closing st = (if st = MySingle then CHR 0x27 else if st = MyDouble then CHR 0x22 else CHR 0x60)"

text \<open>
  One pass of the loop body, with what it adds to \<open>index\<close>: the character at hand, where \<open>keeps\<close>
  is the value the \<open>lineStart\<close> update computes, and before it the directive check.
\<close>

definition my_char :: "string \<Rightarrow> nat \<Rightarrow> bool \<Rightarrow> my_scan \<Rightarrow> my_scan \<times> nat" where
  "my_char sql index keeps s =
     (let current = char_at sql index; next' = char_at sql (index + 1) in
      if my_state s = MyLineComment then
        (if current = Some (CHR 0x0A) then (s\<lparr>my_state := MyNormal, my_lineStart := True\<rparr>, 0)
         else (s, 0))
      else if my_state s = MyBlockComment then
        (if current = Some CHR ''/'' \<and> next' = Some CHR ''*'' then
           (s\<lparr>my_blockDepth := my_blockDepth s + 1, my_lineStart := False\<rparr>, 1)
         else if current = Some CHR ''*'' \<and> next' = Some CHR ''/'' then
           (let d = my_blockDepth s - 1
            in (s\<lparr>my_blockDepth := d, my_state := (if d = 0 then MyNormal else MyBlockComment),
                  my_lineStart := False\<rparr>, 1))
         else (s\<lparr>my_lineStart := (current = Some (CHR 0x0A))\<rparr>, 0))
      else if my_state s \<in> {MySingle, MyDouble, MyBacktick} then
        (if current = Some (CHR 0x5C) then (s\<lparr>my_lineStart := keeps\<rparr>, 1)
         else if current = Some (my_closing (my_state s)) then
           (if next' = current then (s\<lparr>my_lineStart := keeps\<rparr>, 1)
            else (s\<lparr>my_state := MyNormal, my_lineStart := keeps\<rparr>, 0))
         else (s\<lparr>my_lineStart := keeps\<rparr>, 0))
      else if delimiterAt sql index (my_delimiter s) then
        ((my_push sql index s)\<lparr>my_lineStart := False\<rparr>, length (my_delimiter s) - 1)
      else if current = Some CHR ''-'' \<and> next' = Some CHR ''-'' then
        (s\<lparr>my_state := MyLineComment, my_lineStart := keeps\<rparr>, 1)
      else if current = Some CHR ''#'' then
        (s\<lparr>my_state := MyLineComment, my_lineStart := keeps\<rparr>, 0)
      else if current = Some CHR ''/'' \<and> next' = Some CHR ''*'' then
        (s\<lparr>my_state := MyBlockComment, my_blockDepth := 1, my_lineStart := keeps\<rparr>, 1)
      else if current = Some (CHR 0x27) then
        (s\<lparr>my_state := MySingle, my_lineStart := keeps\<rparr>, 0)
      else if current = Some (CHR 0x22) then
        (s\<lparr>my_state := MyDouble, my_lineStart := keeps\<rparr>, 0)
      else if current = Some (CHR 0x60) then
        (s\<lparr>my_state := MyBacktick, my_lineStart := keeps\<rparr>, 0)
      else (s\<lparr>my_lineStart := keeps\<rparr>, 0))"

definition my_body :: "string \<Rightarrow> nat \<Rightarrow> my_scan \<Rightarrow> my_scan \<times> nat" where
  "my_body sql index s =
     (let current = char_at sql index;
          keeps = (current = Some (CHR 0x0A)
            \<or> my_lineStart s \<and> (current = Some CHR '' '' \<or> current = Some (CHR 0x09)));
          directive = (if my_state s = MyNormal \<and> my_lineStart s
            then mysql_directive (drop index sql) else None)
      in case directive of
        Some (w, n) \<Rightarrow>
          (s\<lparr>my_delimiter := w, my_start := index + (n - 1) + 1, my_lineStart := True\<rparr>, n - 1)
      | None \<Rightarrow> my_char sql index keeps s)"

definition splitMysqlStatements :: "string \<Rightarrow> query_statement list" where
  "splitMysqlStatements sql =
     (let s = for_index (my_body sql) (length sql) 0 my_init
      in my_statements s @ trimmed sql (my_start s) (length sql))"

section \<open>The contract of scanners\<close>

text \<open>The three kinds of steps: inside a statement, over a directive, over a delimiter.\<close>

definition my_inside :: "my_scan \<Rightarrow> my_scan \<Rightarrow> bool" where
  "my_inside s s' \<longleftrightarrow> my_statements s' = my_statements s \<and> my_start s' = my_start s
     \<and> my_delimiter s' = my_delimiter s"

lemma my_char_cases:
  assumes "my_char sql i keeps s = (s', k)"
  shows "my_inside s s' \<or> delimiterAt sql i (my_delimiter s)
     \<and> s' = (my_push sql i s)\<lparr>my_lineStart := False\<rparr> \<and> k = length (my_delimiter s) - 1"
  using assms by (auto simp: my_char_def my_inside_def Let_def split: if_splits)

lemma my_body_cases:
  assumes "my_body sql i s = (s', k)"
  shows "my_inside s s'
     \<or> (\<exists>w n. mysql_directive (drop i sql) = Some (w, n) \<and> my_statements s' = my_statements s
           \<and> my_start s' = i + k + 1)
     \<or> delimiterAt sql i (my_delimiter s) \<and> s' = (my_push sql i s)\<lparr>my_lineStart := False\<rparr>
         \<and> k = length (my_delimiter s) - 1"
proof (cases "if my_state s = MyNormal \<and> my_lineStart s then mysql_directive (drop i sql) else None")
  case None
  then show ?thesis
    using assms my_char_cases unfolding my_body_def Let_def by fastforce
next
  case (Some d)
  then show ?thesis
    using assms by (cases d) (auto simp: my_body_def split: if_splits)
qed

interpretation my: statement_scanner my_body my_init my_statements my_start
proof
  show "my_statements my_init = []" "my_start my_init = 0" by (simp_all add: my_init_def)
  fix sql :: string and s s' :: my_scan and i k
  assume b: "my_body sql i s = (s', k)"
  then show "my_statements s' = my_statements s \<and> (my_start s' = my_start s \<or> my_start s' = i + k + 1)
      \<or> my_statements s' = my_statements s @ trimmed sql (my_start s) i \<and> my_start s' = i + k + 1"
    using my_body_cases [OF b] by (auto simp: my_push_def my_inside_def delimiterAt_def)
qed

text \<open>Without directives the delimiter stays a semicolon.\<close>

definition no_directive :: "string \<Rightarrow> bool" where
  "no_directive sql \<longleftrightarrow> (\<forall>i < length sql. mysql_directive (drop i sql) = None)"

interpretation my_plain: lossless_scanner my_body my_init my_statements my_start
  "\<lambda>sql s. no_directive sql \<and> my_delimiter s = '';''" "\<lambda>sql p. sql ! p = CHR '';''"
proof
  fix sql :: string and s s' :: my_scan and i k
  assume ok: "no_directive sql \<and> my_delimiter s = '';''" and i: "i < length sql"
    and b: "my_body sql i s = (s', k)"
  from ok i have "mysql_directive (drop i sql) = None" by (simp add: no_directive_def)
  with my_body_cases [OF b] consider "my_inside s s'"
    | "delimiterAt sql i '';''" "s' = (my_push sql i s)\<lparr>my_lineStart := False\<rparr>" "k = 0"
    using ok by auto
  note C = this
  then show "no_directive sql \<and> my_delimiter s' = '';''"
    using ok by cases (auto simp: my_inside_def my_push_def)
  have gap: "delimiterAt sql i '';'' \<Longrightarrow> sql ! i = CHR '';''"
    using i by (simp add: delimiterAt_def starts_with_at_def take_Suc hd_drop_conv_nth)
  show "my_statements s' = my_statements s \<and> my_start s' = my_start s
      \<or> my_statements s' = my_statements s @ trimmed sql (my_start s) i \<and> my_start s' = i + k + 1
        \<and> (\<forall>p. i \<le> p \<and> p < i + k + 1 \<and> p < length sql \<longrightarrow> sql ! p = CHR '';'')"
    using C
  proof cases
    case 1
    then show ?thesis by (simp add: my_inside_def)
  next
    case 2
    have "sql ! p = CHR '';''" if "i \<le> p" "p < i + k + 1" for p
      using that 2(3) gap [OF 2(1)] by (simp add: le_less_Suc_eq)
    moreover have "my_statements s' = my_statements s @ trimmed sql (my_start s) i" "my_start s' = i + k + 1"
      using 2 ok by (simp_all add: my_push_def)
    ultimately show ?thesis by blast
  qed
qed

section \<open>Properties\<close>

lemmas my_eval = splitMysqlStatements_def for_index.simps my_body_def my_char_def my_init_def my_push_def
  my_closing_def char_at_def trimmed_def trimStatement_def first_nonspace_def js_slice_def js_ws_def
  ws_at_def mysql_directive_def blank_def js_lower_def js_lower_char_def delimiterAt_def
  starts_with_at_def numeral_eq_Suc

text \<open>Splitting a MySQL script returns slices of the text at their offsets, non-empty,
  without white space at their ends, in the order of the text without overlaps; and in a script
  without \<open>DELIMITER\<close> directives every character outside them is white space or a semicolon.\<close>

theorem my_split_slices:
  "in_order (splitMysqlStatements sql)
    \<and> (\<forall>s \<in> set (splitMysqlStatements sql). statement_of sql s)
    \<and> (no_directive sql \<longrightarrow> (\<forall>p < length sql. covered (splitMysqlStatements sql) p
          \<or> js_ws (sql ! p) \<or> sql ! p = CHR '';''))"
  using my.scan_ok [OF refl refl, of sql] my_plain.scan_covers [OF _ refl, of sql]
  by (simp add: splitMysqlStatements_def Let_def my_init_def)

theorem my_split_slices_witness:
  "\<exists>s. splitMysqlStatements ''a;'' = [s] \<and> statement_of ''a;'' s \<and> no_directive ''a;''
     \<and> covered (splitMysqlStatements ''a;'') 0"
proof -
  have "splitMysqlStatements ''a;'' = [\<lparr>qsql = ''a'', startOffset = 0, endOffset = 1\<rparr>]"
    by (simp add: my_eval)
  moreover have "no_directive ''a;''" by (auto simp: no_directive_def my_eval less_Suc_eq)
  moreover have "0 < length ''a;''" "\<not> js_ws (''a;'' ! 0)" "''a;'' ! 0 \<noteq> CHR '';''"
    by (simp_all add: js_ws_def)
  ultimately show ?thesis using my_split_slices [of "''a;''"] by (metis list.set_intros(1))
qed

text \<open>A directive changes the delimiter, but text before it that no delimiter has closed is in no
  statement: it is dropped without an error.\<close>

theorem directive_drops_open_statement:
  "map qsql (splitMysqlStatements (''A'' @ [CHR 0x0A] @ ''DELIMITER $'' @ [CHR 0x0A] @ ''B;C$'')) = [''B;C'']"
  by code_simp

end
