(* ===== verification/RateLimiter.thy ===== *)
theory RateLimiter
  imports Prelude
begin

text \<open>
  \<open>packages/auth/src/rate-limiter.ts\<close>: the process-local limiter in front of the setup, login,
  connection-test and upload endpoints. A key owns a bucket: a fixed window with a counter, and a
  lockout that doubles with each violation, up to fifteen minutes. \<open>now()\<close> is an argument of
  each call; JavaScript's \<open>2 ** n\<close> is exact here because the code caps the product.
\<close>

record bucket =
  bcount :: int
  resetAt :: time
  blockedUntil :: time
  blocks :: nat

record limiter =
  limit :: int
  windowMs :: int
  buckets :: "(string, bucket) jsmap"

record rate_result =
  allowed :: bool
  remaining :: int
  retryAfterSeconds :: int

datatype rate_policy = PolicySetup | PolicyLogin | PolicyConnectionTest | PolicyImportUpload

datatype range_error = RangeError string

fun rate_limit_policies :: "rate_policy \<Rightarrow> int \<times> int" where
  "rate_limit_policies PolicySetup = (5, 60000)"
| "rate_limit_policies PolicyLogin = (5, 60000)"
| "rate_limit_policies PolicyConnectionTest = (10, 60000)"
| "rate_limit_policies PolicyImportUpload = (10, 60000)"

definition new_limiter :: "int option \<Rightarrow> int option \<Rightarrow> range_error + limiter" where
  "new_limiter l w =
     (let l' = (case l of None \<Rightarrow> 5 | Some x \<Rightarrow> x);
          w' = (case w of None \<Rightarrow> 60000 | Some x \<Rightarrow> x)
      in if l' < 1 then Inl (RangeError ''Rate limiter limit must be a positive integer'')
         else if w' < 1 then Inl (RangeError ''Rate limiter window must be a positive integer'')
         else Inr \<lparr>limit = l', windowMs = w', buckets = []\<rparr>)"

definition create_rate_limiter :: "rate_policy \<Rightarrow> range_error + limiter" where
  "create_rate_limiter p =
     (case rate_limit_policies p of (l, w) \<Rightarrow> new_limiter (Some l) (Some w))"

text \<open>\<open>Math.max(1, Math.ceil(ms / 1000))\<close>.\<close>

definition retry_seconds :: "int \<Rightarrow> int" where
  "retry_seconds ms = max 1 (- ((- ms) div 1000))"

text \<open>The bucket \<open>consume\<close> works on: a new window once the old one is over, lockout kept.\<close>

definition current_bucket :: "limiter \<Rightarrow> time \<Rightarrow> string \<Rightarrow> bucket" where
  "current_bucket L t k =
     (case map_of (buckets L) k of
        None \<Rightarrow> \<lparr>bcount = 0, resetAt = t + windowMs L, blockedUntil = 0, blocks = 0\<rparr>
      | Some b \<Rightarrow>
          if t \<ge> resetAt b
          then \<lparr>bcount = 0, resetAt = t + windowMs L,
                blockedUntil = blockedUntil b, blocks = blocks b\<rparr>
          else b)"

definition max_lockout :: int where
  "max_lockout = 15 * 60000"

definition store_bucket :: "limiter \<Rightarrow> string \<Rightarrow> bucket \<Rightarrow> limiter" where
  "store_bucket L k b = L\<lparr>buckets := js_set (buckets L) k b\<rparr>"

definition consume :: "limiter \<Rightarrow> time \<Rightarrow> string \<Rightarrow> limiter \<times> rate_result" where
  "consume L t k =
     (let b = current_bucket L t k in
      if t < blockedUntil b then
        (store_bucket L k b,
         \<lparr>allowed = False, remaining = 0, retryAfterSeconds = retry_seconds (blockedUntil b - t)\<rparr>)
      else if bcount b \<ge> limit L then
        let n = blocks b + 1;
            until = t + min (windowMs L * 2 ^ (n - 1)) max_lockout
        in (store_bucket L k (b\<lparr>blocks := n, blockedUntil := until\<rparr>),
            \<lparr>allowed = False, remaining = 0, retryAfterSeconds = retry_seconds (until - t)\<rparr>)
      else
        let b' = b\<lparr>bcount := bcount b + 1\<rparr>
        in (store_bucket L k b',
            \<lparr>allowed = True, remaining = limit L - bcount b', retryAfterSeconds = 0\<rparr>))"

definition reset :: "limiter \<Rightarrow> string \<Rightarrow> limiter" where
  "reset L k = L\<lparr>buckets := js_delete (buckets L) k\<rparr>"

text \<open>A history of calls: each consumes a key at a time or resets a key.\<close>

datatype rate_event = Consume time string | Reset string

fun rate_step :: "limiter \<Rightarrow> rate_event \<Rightarrow> limiter" where
  "rate_step L (Consume t k) = fst (consume L t k)"
| "rate_step L (Reset k) = reset L k"

text \<open>The answers a client gets for calls on one key, in order.\<close>

fun consume_all :: "limiter \<Rightarrow> string \<Rightarrow> time list \<Rightarrow> limiter \<times> bool list" where
  "consume_all L k [] = (L, [])"
| "consume_all L k (t # ts) =
     (let (L1, r) = consume L t k; (L2, rs) = consume_all L1 k ts in (L2, allowed r # rs))"

section \<open>Lemmas\<close>

lemma store_bucket_simps [simp]:
  "limit (store_bucket L k b) = limit L"
  "windowMs (store_bucket L k b) = windowMs L"
  "map_of (buckets (store_bucket L k b)) = (map_of (buckets L))(k \<mapsto> b)"
  by (simp_all add: store_bucket_def)

lemma reset_simps [simp]:
  "limit (reset L k) = limit L"
  "windowMs (reset L k) = windowMs L"
  "map_of (buckets (reset L k)) = (map_of (buckets L))(k := None)"
  by (simp_all add: reset_def)

lemma store_bucket_twice [simp]: "store_bucket (store_bucket L k b) k c = store_bucket L k c"
  by (simp add: store_bucket_def)

text \<open>The bucket a call leaves behind.\<close>

definition bucket_after :: "limiter \<Rightarrow> time \<Rightarrow> bucket \<Rightarrow> bucket" where
  "bucket_after L t b =
     (if t < blockedUntil b then b
      else if bcount b \<ge> limit L
      then b\<lparr>blocks := blocks b + 1,
             blockedUntil := t + min (windowMs L * 2 ^ blocks b) max_lockout\<rparr>
      else b\<lparr>bcount := bcount b + 1\<rparr>)"

lemma fst_consume: "fst (consume L t k) = store_bucket L k (bucket_after L t (current_bucket L t k))"
  by (simp add: consume_def bucket_after_def Let_def)

lemma consume_config [simp]:
  "limit (fst (consume L t k)) = limit L"
  "windowMs (fst (consume L t k)) = windowMs L"
  by (simp_all add: consume_def Let_def)

lemma consume_frame:
  "k' \<noteq> k \<Longrightarrow> map_of (buckets (fst (consume L t k))) k' = map_of (buckets L) k'"
  by (simp add: consume_def Let_def)

lemma retry_seconds_pos: "1 \<le> retry_seconds ms"
  by (simp add: retry_seconds_def)

lemma retry_seconds_cover: "ms \<le> 1000 * retry_seconds ms"
  unfolding retry_seconds_def by linarith

lemma lockout_bounds:
  assumes "0 < windowMs L"
  shows "0 < min (windowMs L * 2 ^ n) max_lockout" "min (windowMs L * 2 ^ n) max_lockout \<le> max_lockout"
  using assms by (simp_all add: max_lockout_def)

text \<open>The result only depends on the key's own bucket.\<close>

lemma current_bucket_cong:
  "windowMs L = windowMs L' \<Longrightarrow> map_of (buckets L) k = map_of (buckets L') k \<Longrightarrow>
     current_bucket L t k = current_bucket L' t k"
  by (simp add: current_bucket_def split: option.split)

lemma consume_cong:
  "limit L = limit L' \<Longrightarrow> windowMs L = windowMs L' \<Longrightarrow>
     map_of (buckets L) k = map_of (buckets L') k \<Longrightarrow>
     snd (consume L t k) = snd (consume L' t k) \<and>
     map_of (buckets (fst (consume L t k))) k = map_of (buckets (fst (consume L' t k))) k"
  using current_bucket_cong [of L L' k t] by (simp add: consume_def Let_def)

text \<open>Case analysis on a call: refused while locked, refused and locked, or counted.\<close>

lemma consume_locked:
  "t < blockedUntil (current_bucket L t k) \<Longrightarrow>
     consume L t k = (store_bucket L k (current_bucket L t k),
       \<lparr>allowed = False, remaining = 0,
        retryAfterSeconds = retry_seconds (blockedUntil (current_bucket L t k) - t)\<rparr>)"
  by (simp add: consume_def Let_def)

lemma consume_allowed_iff:
  "allowed (snd (consume L t k)) \<longleftrightarrow>
     blockedUntil (current_bucket L t k) \<le> t \<and> bcount (current_bucket L t k) < limit L"
  by (auto simp: consume_def Let_def)

definition lock_end :: "limiter \<Rightarrow> string \<Rightarrow> time" where
  "lock_end L k = (case map_of (buckets L) k of None \<Rightarrow> 0 | Some b \<Rightarrow> blockedUntil b)"

lemma blockedUntil_current [simp]: "blockedUntil (current_bucket L t k) = lock_end L k"
  by (simp add: current_bucket_def lock_end_def split: option.split)

lemma lock_end_consume_locked:
  "t < lock_end L k \<Longrightarrow> lock_end (fst (consume L t k)) k = lock_end L k"
  by (simp add: consume_locked) (simp add: lock_end_def [of "store_bucket L k b" for b])

lemma lock_end_frame: "k' \<noteq> k \<Longrightarrow> lock_end (fst (consume L t k')) k = lock_end L k"
  by (simp add: lock_end_def consume_frame)

lemma lock_end_reset_frame: "k' \<noteq> k \<Longrightarrow> lock_end (reset L k') k = lock_end L k"
  by (simp add: lock_end_def)

lemma lock_end_violation:
  assumes "lock_end L k \<le> t" and "\<not> allowed (snd (consume L t k))"
  shows "lock_end (fst (consume L t k)) k
    = t + min (windowMs L * 2 ^ blocks (current_bucket L t k)) max_lockout"
  using assms by (simp add: consume_allowed_iff) (simp add: consume_def Let_def lock_end_def)

text \<open>Events that keep a lock of \<open>k\<close>: no reset of \<open>k\<close>, and calls on \<open>k\<close> before its end.\<close>

fun keeps_lock :: "string \<Rightarrow> time \<Rightarrow> rate_event \<Rightarrow> bool" where
  "keeps_lock k u (Consume t k') \<longleftrightarrow> (k' = k \<longrightarrow> t < u)"
| "keeps_lock k u (Reset k') \<longleftrightarrow> k' \<noteq> k"

lemma lock_end_step: "keeps_lock k (lock_end L k) e \<Longrightarrow> lock_end (rate_step L e) k = lock_end L k"
  by (cases "(k, lock_end L k, e)" rule: keeps_lock.cases)
    (auto simp: lock_end_reset_frame intro: lock_end_consume_locked lock_end_frame)

lemma lock_end_run:
  "list_all (keeps_lock k (lock_end L k)) es \<Longrightarrow> lock_end (foldl rate_step L es) k = lock_end L k"
proof (induction es arbitrary: L)
  case Nil
  show ?case by simp
next
  case (Cons e es)
  then have "lock_end (rate_step L e) k = lock_end L k" by (simp add: lock_end_step)
  with Cons show ?case by simp
qed

text \<open>Within one window the bucket only counts.\<close>

lemma consume_in_window:
  assumes "map_of (buckets L) k = Some b" and "t < resetAt b"
  shows "current_bucket L t k = b"
  using assms by (simp add: current_bucket_def)

lemma consume_all_in_window:
  assumes "map_of (buckets L) k = Some b" and "\<forall>t \<in> set ts. t < resetAt b \<and> 0 \<le> t"
    and "bcount b < limit L \<longrightarrow> blockedUntil b = 0" and "0 < windowMs L"
  shows "snd (consume_all L k ts) = map (\<lambda>i. int i + bcount b < limit L) [0..<length ts]"
  using assms
proof (induction ts arbitrary: L b)
  case Nil
  show ?case by simp
next
  case (Cons t ts)
  let ?L1 = "fst (consume L t k)"
  have cur: "current_bucket L t k = b" using Cons.prems by (simp add: consume_in_window)
  have lock: "lock_end L k = blockedUntil b" using Cons.prems by (simp add: lock_end_def)
  have ans: "allowed (snd (consume L t k)) = (bcount b < limit L)"
    using Cons.prems by (auto simp: consume_allowed_iff cur lock)
  have split: "snd (consume_all L k (t # ts)) = allowed (snd (consume L t k)) # snd (consume_all ?L1 k ts)"
    by (simp add: split_beta)
  define b1 where "b1 = bucket_after L t b"
  have b1: "map_of (buckets ?L1) k = Some b1" "resetAt b1 = resetAt b"
    "bcount b1 = (if bcount b < limit L then bcount b + 1 else bcount b)"
    "bcount b1 < limit L \<longrightarrow> blockedUntil b1 = 0"
    using Cons.prems by (auto simp: fst_consume cur b1_def bucket_after_def)
  have IH: "snd (consume_all ?L1 k ts) = map (\<lambda>i. int i + bcount b1 < limit L) [0..<length ts]"
    using Cons.prems Cons.IH [of ?L1 b1] b1 by auto
  have "map (\<lambda>i. int i + bcount b < limit L) [0..<length (t # ts)]
      = (bcount b < limit L) # map (\<lambda>i. int (Suc i) + bcount b < limit L) [0..<length ts]"
    by (simp add: upt_conv_Cons map_Suc_upt [symmetric] del: upt_Suc)
  also have "\<dots> = snd (consume_all L k (t # ts))"
    unfolding split ans IH using b1(3) by auto
  finally show ?case by (rule sym)
qed

text \<open>
  Histories under a clock that does not go back: each call comes some time after the event before.
\<close>

datatype clocked_event = Call nat string | Forget string

fun clocked_step :: "limiter \<times> time \<Rightarrow> clocked_event \<Rightarrow> limiter \<times> time" where
  "clocked_step (L, c) (Call d k) = (fst (consume L (c + int d) k), c + int d)"
| "clocked_step (L, c) (Forget k) = (reset L k, c)"

definition limiter_inv :: "limiter \<times> time \<Rightarrow> bool" where
  "limiter_inv s \<longleftrightarrow> (case s of (L, c) \<Rightarrow>
     0 < limit L \<and> 0 < windowMs L \<and> 0 \<le> c \<and>
     (\<forall>k b. map_of (buckets L) k = Some b \<longrightarrow>
        0 \<le> bcount b \<and> bcount b \<le> limit L \<and> blockedUntil b \<le> c + max_lockout))"

lemma current_bucket_inv:
  assumes "limiter_inv (L, c)" "c \<le> t"
  shows "0 \<le> bcount (current_bucket L t k) \<and> bcount (current_bucket L t k) \<le> limit L \<and>
    blockedUntil (current_bucket L t k) \<le> t + max_lockout"
proof (cases "map_of (buckets L) k")
  case None
  then show ?thesis using assms by (simp add: current_bucket_def limiter_inv_def max_lockout_def)
next
  case (Some b)
  then have "0 \<le> bcount b \<and> bcount b \<le> limit L \<and> blockedUntil b \<le> t + max_lockout"
    using assms by (force simp: limiter_inv_def)
  then show ?thesis using Some assms by (simp add: current_bucket_def limiter_inv_def)
qed

lemma bucket_after_inv:
  assumes "0 \<le> bcount b" "bcount b \<le> limit L" "blockedUntil b \<le> t + max_lockout"
  shows "0 \<le> bcount (bucket_after L t b) \<and> bcount (bucket_after L t b) \<le> limit L \<and>
    blockedUntil (bucket_after L t b) \<le> t + max_lockout"
  using assms by (simp add: bucket_after_def)

lemma clocked_call_inv:
  assumes inv: "limiter_inv (L, c)"
  shows "limiter_inv (clocked_step (L, c) (Call d k))"
proof -
  let ?t = "c + int d"
  let ?b = "bucket_after L ?t (current_bucket L ?t k)"
  have b: "0 \<le> bcount ?b \<and> bcount ?b \<le> limit L \<and> blockedUntil ?b \<le> ?t + max_lockout"
    using current_bucket_inv [OF inv, of ?t k] by (intro bucket_after_inv) auto
  have "0 \<le> bcount b' \<and> bcount b' \<le> limit L \<and> blockedUntil b' \<le> ?t + max_lockout"
    if "map_of (buckets (store_bucket L k ?b)) k' = Some b'" for k' b'
    using that b inv by (fastforce simp: limiter_inv_def split: if_splits)
  then show ?thesis using inv by (simp add: limiter_inv_def fst_consume)
qed

lemma clocked_forget_inv: "limiter_inv (L, c) \<Longrightarrow> limiter_inv (clocked_step (L, c) (Forget k))"
  by (simp add: limiter_inv_def)

interpretation rate: handler_invariant clocked_step limiter_inv
  by unfold_locales
    (metis clocked_call_inv clocked_forget_inv clocked_event.exhaust surj_pair)

lemma new_limiter_inv: "new_limiter l w = Inr L \<Longrightarrow> 0 \<le> c \<Longrightarrow> limiter_inv (L, c)"
  by (auto simp: new_limiter_def limiter_inv_def Let_def split: if_splits)

lemma retry_seconds_bound: "ms \<le> max_lockout \<Longrightarrow> retry_seconds ms \<le> 900"
  unfolding retry_seconds_def max_lockout_def by linarith

lemma consume_answer_bounds:
  assumes "limiter_inv (L, c)" "c \<le> t"
  shows "if allowed (snd (consume L t k))
    then retryAfterSeconds (snd (consume L t k)) = 0 \<and>
         0 \<le> remaining (snd (consume L t k)) \<and> remaining (snd (consume L t k)) < limit L
    else remaining (snd (consume L t k)) = 0 \<and>
         1 \<le> retryAfterSeconds (snd (consume L t k)) \<and> retryAfterSeconds (snd (consume L t k)) \<le> 900"
  using current_bucket_inv [OF assms, of k]
  by (auto simp: consume_def Let_def retry_seconds_pos intro!: retry_seconds_bound)

text \<open>The events of one key, and the bucket they lead to.\<close>

fun event_key :: "rate_event \<Rightarrow> string" where
  "event_key (Consume t k) = k"
| "event_key (Reset k) = k"

lemma rate_step_config:
  "limit (rate_step L e) = limit L \<and> windowMs (rate_step L e) = windowMs L"
  by (cases e) auto

lemma rate_step_other:
  "event_key e \<noteq> k \<Longrightarrow> map_of (buckets (rate_step L e)) k = map_of (buckets L) k"
  by (cases e) (auto simp: consume_frame)

lemma rate_step_same:
  assumes "limit L = limit L'" "windowMs L = windowMs L'"
    and "map_of (buckets L) k = map_of (buckets L') k" and "event_key e = k"
  shows "map_of (buckets (rate_step L e)) k = map_of (buckets (rate_step L' e)) k"
  using assms consume_cong [of L L' k] by (cases e) auto

lemma run_key_bucket:
  assumes "limit L = limit L'" "windowMs L = windowMs L'"
    and "map_of (buckets L) k = map_of (buckets L') k"
  shows "map_of (buckets (foldl rate_step L es)) k
       = map_of (buckets (foldl rate_step L' (filter (\<lambda>e. event_key e = k) es))) k
     \<and> limit (foldl rate_step L es) = limit (foldl rate_step L' (filter (\<lambda>e. event_key e = k) es))
     \<and> windowMs (foldl rate_step L es) = windowMs (foldl rate_step L' (filter (\<lambda>e. event_key e = k) es))"
  using assms
proof (induction es arbitrary: L L')
  case Nil
  then show ?case by simp
next
  case (Cons e es)
  show ?case
  proof (cases "event_key e = k")
    case True
    then show ?thesis
      using Cons rate_step_same [OF Cons.prems True] by (simp add: rate_step_config)
  next
    case False
    then show ?thesis
      using Cons rate_step_other [OF False, of L] by (simp add: rate_step_config)
  qed
qed

section \<open>Properties\<close>

text \<open>Claim C35: In the window a fresh key opens, exactly the first \<open>limit\<close> calls are allowed and
  every later one is refused, in whatever order the clock values come.\<close>

theorem window_admits_exactly_limit:
  assumes "0 < limit L" "0 < windowMs L" "map_of (buckets L) k = None"
    and "0 \<le> t0" and "\<forall>t \<in> set ts. t0 \<le> t \<and> t < t0 + windowMs L"
  shows "snd (consume_all L k (t0 # ts)) = map (\<lambda>i. int i < limit L) [0..<length (t0 # ts)]"
proof -
  let ?b = "\<lparr>bcount = 0, resetAt = t0 + windowMs L, blockedUntil = 0, blocks = 0\<rparr>"
  let ?L = "store_bucket L k ?b"
  have same: "current_bucket L t0 k = ?b" "current_bucket ?L t0 k = ?b"
    using assms by (simp_all add: current_bucket_def)
  have first: "consume L t0 k = consume ?L t0 k"
    unfolding consume_def same by (simp add: Let_def)
  have "snd (consume_all ?L k (t0 # ts)) = map (\<lambda>i. int i + bcount ?b < limit ?L) [0..<length (t0 # ts)]"
    using assms by (intro consume_all_in_window) auto
  moreover have "consume_all L k (t0 # ts) = consume_all ?L k (t0 # ts)"
    by (simp add: first)
  ultimately show ?thesis by simp
qed

theorem window_admits_exactly_limit_witness:
  "snd (consume_all \<lparr>limit = 2, windowMs = 60000, buckets = []\<rparr> ''ip'' [0, 10, 59999, 20])
     = [True, True, False, False]"
  using window_admits_exactly_limit [of "\<lparr>limit = 2, windowMs = 60000, buckets = []\<rparr>" "''ip''" 0
      "[10, 59999, 20]"]
  by (simp add: upt_rec)

text \<open>A refused call leaves the key locked past its own time. Whatever other keys do
  and however often the key is tried before the lock ends, every call before that end is refused,
  and trying does not prolong the lock.\<close>

theorem refusal_locks_key:
  assumes "0 < windowMs L" and "\<not> allowed (snd (consume L t k))"
    and "list_all (keeps_lock k (lock_end (fst (consume L t k)) k)) es"
    and "t' < lock_end (fst (consume L t k)) k"
  shows "t < lock_end (fst (consume L t k)) k
    \<and> \<not> allowed (snd (consume (foldl rate_step (fst (consume L t k)) es) t' k))
    \<and> lock_end (foldl rate_step (fst (consume L t k)) es) k = lock_end (fst (consume L t k)) k"
proof -
  have "t < lock_end (fst (consume L t k)) k"
  proof (cases "t < lock_end L k")
    case True
    then show ?thesis by (simp add: lock_end_consume_locked)
  next
    case False
    then show ?thesis
      using lock_end_violation [of L k t] lockout_bounds(1) [OF assms(1)] assms(2) by simp
  qed
  then show ?thesis
    using assms(4) lock_end_run [OF assms(3)] by (simp add: consume_allowed_iff)
qed

theorem refusal_locks_key_witness:
  "\<not> allowed (snd (consume
     (foldl rate_step (fst (consume \<lparr>limit = 1, windowMs = 1000,
        buckets = [(''a'', \<lparr>bcount = 1, resetAt = 1500, blockedUntil = 0, blocks = 0\<rparr>)]\<rparr> 700 ''a''))
       [Consume 900 ''a'', Consume 950 ''b'', Reset ''b'']) 1600 ''a''))"
  by (rule refusal_locks_key [THEN conjunct2, THEN conjunct1])
    (simp_all add: consume_def current_bucket_def store_bucket_def lock_end_def max_lockout_def)

text \<open>
  A violation outside a lock locks the key for the window length doubled once per
  earlier violation of the key, never for more than fifteen minutes, counts the violation, and the
  answer's seconds cover the lock.\<close>

theorem lockout_doubles:
  assumes "lock_end L k \<le> t" and "\<not> allowed (snd (consume L t k))"
  shows "\<exists>b. map_of (buckets (fst (consume L t k))) k = Some b
    \<and> blocks b = blocks (current_bucket L t k) + 1
    \<and> blockedUntil b = t + min (windowMs L * 2 ^ (blocks b - 1)) max_lockout
    \<and> blockedUntil b - t \<le> 1000 * retryAfterSeconds (snd (consume L t k))"
  using assms by (simp add: consume_allowed_iff) (simp add: consume_def Let_def retry_seconds_cover)

theorem lockout_doubles_witness:
  "\<exists>b. map_of (buckets (fst (consume \<lparr>limit = 1, windowMs = 60000,
        buckets = [(''a'', \<lparr>bcount = 1, resetAt = 90000, blockedUntil = 5000, blocks = 2\<rparr>)]\<rparr> 40000 ''a''))) ''a'' = Some b
    \<and> blocks b = 3 \<and> blockedUntil b = 40000 + 240000"
  using lockout_doubles [of "\<lparr>limit = 1, windowMs = 60000,
        buckets = [(''a'', \<lparr>bcount = 1, resetAt = 90000, blockedUntil = 5000, blocks = 2\<rparr>)]\<rparr>" "''a''" 40000]
  by (simp add: consume_def current_bucket_def store_bucket_def lock_end_def max_lockout_def)

text \<open>After any history from a new limiter under a clock that does not go back, an
  allowed call reports between 0 and \<open>limit - 1\<close> calls left and no waiting time; a refused one
  reports none left and between 1 and 900 seconds.\<close>

theorem answers_bounded:
  assumes "new_limiter l w = Inr L0" "0 \<le> c0"
    and "foldl clocked_step (L0, c0) es = (L, c)" and "c \<le> t"
  shows "if allowed (snd (consume L t k))
    then retryAfterSeconds (snd (consume L t k)) = 0 \<and>
         0 \<le> remaining (snd (consume L t k)) \<and> remaining (snd (consume L t k)) < limit L
    else remaining (snd (consume L t k)) = 0 \<and>
         1 \<le> retryAfterSeconds (snd (consume L t k)) \<and> retryAfterSeconds (snd (consume L t k)) \<le> 900"
proof -
  have "limiter_inv (L, c)"
    using rate.run_inv [OF new_limiter_inv [OF assms(1,2)], of es] by (simp add: assms(3))
  then show ?thesis using assms(4) by (rule consume_answer_bounds)
qed

theorem answers_bounded_witness:
  "remaining (snd (consume (fst (foldl clocked_step
      (\<lparr>limit = 5, windowMs = 60000, buckets = []\<rparr>, 0) [Call 10 ''a''])) 20 ''a'')) < 5"
  using answers_bounded [of "None" "None" "\<lparr>limit = 5, windowMs = 60000, buckets = []\<rparr>" 0
      "[Call 10 ''a'']" "fst (foldl clocked_step
      (\<lparr>limit = 5, windowMs = 60000, buckets = []\<rparr>, 0) [Call 10 ''a''])" 10 20 "''a''"]
  by (simp add: new_limiter_def consume_def current_bucket_def store_bucket_def)

text \<open>Keys are isolated. What a call on a key answers after a history depends only on
  the history's events on that key.\<close>

theorem keys_isolated:
  "snd (consume (foldl rate_step L es) t k)
     = snd (consume (foldl rate_step L (filter (\<lambda>e. event_key e = k) es)) t k)"
  using run_key_bucket [of L L k es] consume_cong by blast

end
