(* ===== verification/Password.thy ===== *)
theory Password
  imports Prelude
begin

text \<open>
  The password policy and the reading of stored password hashes:
  \<open>packages/crypto/src/password/{password-policy,password-hasher}.ts\<close>. Computing and verifying an
  Argon2 hash is the runtime's; \<open>verify\<close> below wraps its answer.
\<close>

section \<open>Policy\<close>

definition PASSWORD_MIN_LENGTH :: nat where "PASSWORD_MIN_LENGTH = 10"

definition PASSWORD_MAX_LENGTH :: nat where "PASSWORD_MAX_LENGTH = 256"

datatype password_violation = PwTooShort | PwTooLong | PwMatchesUsername

definition validatePassword :: "string \<Rightarrow> string \<Rightarrow> password_violation list" where
  "validatePassword password username =
     (if length password < PASSWORD_MIN_LENGTH then [PwTooShort] else [])
     @ (if length password > PASSWORD_MAX_LENGTH then [PwTooLong] else [])
     @ (if length username > 0 \<and> js_lower password = js_lower username then [PwMatchesUsername] else [])"

definition isPasswordValid :: "string \<Rightarrow> string \<Rightarrow> bool" where
  "isPasswordValid password username \<longleftrightarrow> validatePassword password username = []"

section \<open>Stored hashes\<close>

definition max_safe :: int where
  "max_safe = 9007199254740991"

definition parseParameterValue :: "string \<Rightarrow> int option" where
  "parseParameterValue value =
     (if \<not> digits value then None
      else if decimal value \<le> max_safe \<and> decimal value > 0 then Some (decimal value) else None)"

record hash_parameters =
  algorithm :: string
  version :: int
  memoryCost :: "int option"
  timeCost :: "int option"
  parallelism :: "int option"

text \<open>The loop over the parameters, which returns at the first malformed one.\<close>

fun parse_parameters :: "string list \<Rightarrow> (string, int) jsmap \<Rightarrow> (string, int) jsmap option" where
  "parse_parameters [] m = Some m"
| "parse_parameters (p # ps) m =
     (case js_split CHR ''='' p of
        name # value # _ \<Rightarrow>
          if name = [] then None
          else (case parseParameterValue value of
                  None \<Rightarrow> None | Some n \<Rightarrow> parse_parameters ps (js_set m name n))
      | _ \<Rightarrow> None)"

text \<open>\<open>/^v=(\d+)$/\<close>.\<close>

definition version_match :: "string \<Rightarrow> string option" where
  "version_match s = (if take 2 s = ''v='' \<and> digits (drop 2 s) then Some (drop 2 s) else None)"

definition parsePasswordHash :: "string \<Rightarrow> hash_parameters option" where
  "parsePasswordHash h =
     (let parts = js_split CHR ''$'' h in
      if length parts < 6 \<or> parts ! 0 \<noteq> [] \<or> parts ! 1 = [] \<or> parts ! 2 = [] \<or> parts ! 3 = [] then None
      else case version_match (parts ! 2) of None \<Rightarrow> None
      | Some v \<Rightarrow> (case parseParameterValue v of None \<Rightarrow> None
      | Some n \<Rightarrow> (case parse_parameters (js_split CHR '','' (parts ! 3)) [] of None \<Rightarrow> None
      | Some m \<Rightarrow> Some \<lparr>algorithm = parts ! 1, version = n, memoryCost = map_of m ''m'',
                        timeCost = map_of m ''t'', parallelism = map_of m ''p''\<rparr>)))"

definition passwordHashNeedsRehash :: "string \<Rightarrow> bool" where
  "passwordHashNeedsRehash h =
     (case parsePasswordHash h of None \<Rightarrow> True
      | Some p \<Rightarrow> algorithm p \<noteq> ''argon2id'' \<or> version p \<noteq> 19
          \<or> (case memoryCost p of None \<Rightarrow> True | Some n \<Rightarrow> n < 19456)
          \<or> (case timeCost p of None \<Rightarrow> True | Some n \<Rightarrow> n < 2)
          \<or> parallelism p \<noteq> Some 1)"

text \<open>\<open>PasswordHasher.verify\<close>: what the runtime answers (\<open>None\<close>: it threw) and the hash.\<close>

record verification =
  ok :: bool
  needsRehash :: bool

definition hasher_verify :: "bool option \<Rightarrow> string \<Rightarrow> verification" where
  "hasher_verify answer h =
     (let b = (case answer of None \<Rightarrow> False | Some b \<Rightarrow> b)
      in \<lparr>ok = b, needsRehash = b \<and> passwordHashNeedsRehash h\<rparr>)"

section \<open>Properties\<close>

text \<open>The PHC string that Argon2 writes for its parameters.\<close>

definition phc :: "string \<Rightarrow> nat \<Rightarrow> nat \<Rightarrow> nat \<Rightarrow> nat \<Rightarrow> string \<Rightarrow> string \<Rightarrow> string" where
  "phc alg v m t p salt dig =
     ''$'' @ alg @ ''$v='' @ show_nat v @ ''$m='' @ show_nat m @ '',t='' @ show_nat t @ '',p='' @ show_nat p
       @ ''$'' @ salt @ ''$'' @ dig"

lemma not_in_show_nat: "\<not> digit c \<Longrightarrow> c \<notin> set (show_nat n)"
  using show_nat_chars by blast

lemma parseParameterValue_show:
  "0 < n \<Longrightarrow> int n \<le> max_safe \<Longrightarrow> parseParameterValue (show_nat n) = Some (int n)"
  by (simp add: parseParameterValue_def digits_show_nat decimal_show_nat)

lemma parse_phc:
  assumes "CHR ''$'' \<notin> set alg" "alg \<noteq> []"
    and "0 < v" "int v \<le> max_safe" "0 < m" "int m \<le> max_safe" "0 < t" "int t \<le> max_safe"
    and "0 < p" "int p \<le> max_safe"
  shows "parsePasswordHash (phc alg v m t p salt dig)
     = Some \<lparr>algorithm = alg, version = int v, memoryCost = Some (int m),
             timeCost = Some (int t), parallelism = Some (int p)\<rparr>"
proof -
  have nd: "\<not> digit CHR ''$''" "\<not> digit CHR '',''" "\<not> digit CHR ''=''" by (simp_all add: digit_def)
  let ?ps = "''m='' @ show_nat m @ '',t='' @ show_nat t @ '',p='' @ show_nat p"
  let ?rest = "salt @ CHR ''$'' # dig"
  have no: "CHR ''$'' \<notin> set []" "CHR ''$'' \<notin> set (''v='' @ show_nat v)" "CHR ''$'' \<notin> set ?ps"
    using nd by (simp_all add: not_in_show_nat)
  have phc: "phc alg v m t p salt dig
      = [] @ CHR ''$'' # (alg @ CHR ''$'' # ((''v='' @ show_nat v) @ CHR ''$'' # (?ps @ CHR ''$'' # ?rest)))"
    by (simp add: phc_def)
  have split: "js_split CHR ''$'' (phc alg v m t p salt dig)
      = [] # alg # (''v='' @ show_nat v) # ?ps # js_split CHR ''$'' ?rest"
    unfolding phc js_split_Cons [OF no(1)] js_split_Cons [OF assms(1)] js_split_Cons [OF no(2)]
      js_split_Cons [OF no(3)] ..
  have no': "CHR '','' \<notin> set (''m='' @ show_nat m)" "CHR '','' \<notin> set (''t='' @ show_nat t)"
    "CHR '','' \<notin> set (''p='' @ show_nat p)"
    using nd by (simp_all add: not_in_show_nat)
  have ps: "?ps = (''m='' @ show_nat m) @ CHR '','' # ((''t='' @ show_nat t) @ CHR '','' # (''p='' @ show_nat p))"
    by simp
  have comma: "js_split CHR '','' ?ps = [''m='' @ show_nat m, ''t='' @ show_nat t, ''p='' @ show_nat p]"
    unfolding ps js_split_Cons [OF no'(1)] js_split_Cons [OF no'(2)] js_split_no [OF no'(3)] ..
  have eq: "js_split CHR ''='' (show_nat k) = [show_nat k]" for k
    using nd by (intro js_split_no not_in_show_nat) simp
  have "parse_parameters (js_split CHR '','' ?ps) []
      = Some [(''m'', int m), (''t'', int t), (''p'', int p)]"
    unfolding comma using assms by (simp add: eq parseParameterValue_show)
  moreover have "version_match (''v='' @ show_nat v) = Some (show_nat v)"
    by (simp add: version_match_def digits_show_nat)
  moreover have "6 \<le> length (js_split CHR ''$'' (phc alg v m t p salt dig))"
    unfolding split using js_split_two [of "CHR ''$''" salt dig] by simp
  ultimately show ?thesis
    using assms unfolding parsePasswordHash_def split Let_def
    by (simp del: js_split.simps add: parseParameterValue_show numeral_eq_Suc)
qed

text \<open>
  A stored hash is read as it was written: for every algorithm name and every
  parameters in range the PHC string is parsed to exactly these, whatever salt and digest are; and
  it is replaced at the next login exactly when it is weaker than, or different from, the current
  settings (Argon2id version 19, 19456 KiB, 2 passes, 1 lane).\<close>

theorem stored_hash_read_back:
  assumes "CHR ''$'' \<notin> set alg" "alg \<noteq> []"
    and "0 < v" "int v \<le> max_safe" "0 < m" "int m \<le> max_safe" "0 < t" "int t \<le> max_safe"
    and "0 < p" "int p \<le> max_safe"
  shows "parsePasswordHash (phc alg v m t p salt dig)
       = Some \<lparr>algorithm = alg, version = int v, memoryCost = Some (int m),
               timeCost = Some (int t), parallelism = Some (int p)\<rparr>
     \<and> (passwordHashNeedsRehash (phc alg v m t p salt dig)
        \<longleftrightarrow> \<not> (alg = ''argon2id'' \<and> v = 19 \<and> 19456 \<le> m \<and> 2 \<le> t \<and> p = 1))"
  using parse_phc [OF assms, of salt dig] by (auto simp: passwordHashNeedsRehash_def)

theorem stored_hash_read_back_witness:
  "\<not> passwordHashNeedsRehash (phc ''argon2id'' 19 19456 2 1 ''c2FsdA'' ''ZGln'')"
proof -
  have "CHR ''$'' \<notin> set ''argon2id''" "''argon2id'' \<noteq> []" by simp_all
  moreover have "int 19 \<le> max_safe" "int 19456 \<le> max_safe" "int 2 \<le> max_safe" "int 1 \<le> max_safe"
    by (simp_all add: max_safe_def)
  ultimately show ?thesis
    using stored_hash_read_back [of "''argon2id''" 19 19456 2 1 "''c2FsdA''" "''ZGln''"] by simp
qed

end
