(* ===== verification/Store.thy ===== *)
theory Store
  imports Prelude
begin

text \<open>
  The tables behind users, sessions and audit entries, with the SQL of their repositories:
  \<open>packages/internal-sqlite/src/repositories/{users,sessions,audit,shared}.ts\<close> over the schema of
  \<open>migrations/0001-initial.ts\<close>. A table is the list of its rows, in insertion order; a statement
  that breaks a primary key, a \<open>UNIQUE\<close> or a foreign key constraint throws (\<open>Inl Constraint\<close>).
  Times are stored as ISO strings, whose order is the order of the times.
\<close>

section \<open>Rows\<close>

datatype user_role = RoleAdmin | RoleUser

record user =
  uid :: string
  username :: string
  passwordHash :: string
  role :: user_role
  isActive :: bool
  ucreatedAt :: time
  updatedAt :: time

record session =
  sid :: string
  suser :: string
  tokenHash :: string
  screatedAt :: time
  expiresAt :: time
  lastSeenAt :: "time option"
  revokedAt :: "time option"

datatype audit_result = Success | Failure | Denied

text \<open>JSON values; the numbers are whole. An audit row carries an object or nothing.\<close>

datatype json = JNull | JBool bool | JNum int | JStr string | JArr "json list"
  | JObj "(string \<times> json) list"

text \<open>\<open>String(v)\<close> of a JSON value; the elements of an array that are null are empty.\<close>

fun js_string :: "json \<Rightarrow> string" where
  "js_string JNull = ''null''"
| "js_string (JBool b) = (if b then ''true'' else ''false'')"
| "js_string (JNum n) = show_int n"
| "js_string (JStr s) = s"
| "js_string (JArr vs) = join '','' (map (\<lambda>v. if v = JNull then [] else js_string v) vs)"
| "js_string (JObj fs) = ''[object Object]''"

record audit_event =
  aid :: string
  occurredAt :: time
  actorUserId :: "string option"
  action :: string
  targetType :: "string option"
  targetRef :: "string option"
  connectionId :: "string option"
  aresult :: audit_result
  correlationId :: "string option"
  details :: "(string, json) jsmap option"

record db =
  users :: "user list"
  sessions :: "session list"
  audit :: "audit_event list"

datatype store_error = Constraint

section \<open>Users\<close>

definition user_findByUsername :: "string \<Rightarrow> db \<Rightarrow> user option" where
  "user_findByUsername n d = find (\<lambda>u. username u = n) (users d)"

definition user_findById :: "string \<Rightarrow> db \<Rightarrow> user option" where
  "user_findById i d = find (\<lambda>u. uid u = i) (users d)"

text \<open>\<open>id TEXT PRIMARY KEY\<close>, \<open>username TEXT NOT NULL UNIQUE\<close>.\<close>

definition user_create :: "user \<Rightarrow> db \<Rightarrow> store_error + db" where
  "user_create u d =
     (if user_findById (uid u) d \<noteq> None \<or> user_findByUsername (username u) d \<noteq> None
      then Inl Constraint else Inr (d\<lparr>users := users d @ [u]\<rparr>))"

definition user_update :: "user \<Rightarrow> db \<Rightarrow> store_error + db" where
  "user_update u d =
     (if user_findById (uid u) d \<noteq> None
         \<and> (\<exists>v \<in> set (users d). uid v \<noteq> uid u \<and> username v = username u)
      then Inl Constraint
      else Inr (d\<lparr>users := map (\<lambda>v. if uid v = uid u
            then v\<lparr>username := username u, passwordHash := passwordHash u, role := role u,
                   isActive := isActive u, updatedAt := updatedAt u\<rparr> else v) (users d)\<rparr>))"

text \<open>\<open>ORDER BY created_at ASC, id ASC\<close>; \<open>collate\<close> is the order of ids as SQLite compares text.\<close>

definition user_order :: "(string \<Rightarrow> string \<Rightarrow> int) \<Rightarrow> user \<Rightarrow> user \<Rightarrow> int" where
  "user_order collate l r =
     (if ucreatedAt l \<noteq> ucreatedAt r then ucreatedAt l - ucreatedAt r else collate (uid l) (uid r))"

definition user_list :: "(string \<Rightarrow> string \<Rightarrow> int) \<Rightarrow> db \<Rightarrow> user list" where
  "user_list collate d = sort_by (user_order collate) (users d)"

record page_request =
  rpage :: "int option"
  rpageSize :: "int option"
  rlimit :: "int option"
  roffset :: "int option"

record page_window =
  wpage :: int
  wpageSize :: int
  woffset :: int

text \<open>For requests of whole numbers, where \<open>Math.floor\<close> changes nothing.\<close>

definition pageWindow :: "page_request option \<Rightarrow> page_window" where
  "pageWindow request =
     (let get = (\<lambda>f. case request of None \<Rightarrow> None | Some q \<Rightarrow> f q);
          size = max 1 (case get rpageSize of Some n \<Rightarrow> n
                        | None \<Rightarrow> (case get rlimit of Some n \<Rightarrow> n | None \<Rightarrow> 50));
          offset = max 0 (case get roffset of Some n \<Rightarrow> n
                          | None \<Rightarrow> ((case get rpage of Some n \<Rightarrow> n | None \<Rightarrow> 1) - 1) * size)
      in \<lparr>wpage = offset div size + 1, wpageSize = size, woffset = offset\<rparr>)"

record 'a page =
  pitems :: "'a list"
  ptotal :: nat
  ppage :: int
  ppageSize :: int

text \<open>\<open>LIMIT pageSize OFFSET offset\<close> over the rows of the query.\<close>

definition pageOf :: "'a list \<Rightarrow> page_window \<Rightarrow> 'a page" where
  "pageOf rows w =
     \<lparr>pitems = take (nat (wpageSize w)) (drop (nat (woffset w)) rows), ptotal = length rows,
      ppage = wpage w, ppageSize = wpageSize w\<rparr>"

definition user_listPage ::
  "(string \<Rightarrow> string \<Rightarrow> int) \<Rightarrow> page_request option \<Rightarrow> db \<Rightarrow> user page" where
  "user_listPage collate request d = pageOf (user_list collate d) (pageWindow request)"

definition user_setActive :: "string \<Rightarrow> bool \<Rightarrow> time \<Rightarrow> db \<Rightarrow> db" where
  "user_setActive i b now d =
     d\<lparr>users := map (\<lambda>v. if uid v = i then v\<lparr>isActive := b, updatedAt := now\<rparr> else v) (users d)\<rparr>"

section \<open>Sessions\<close>

text \<open>
  \<open>id TEXT PRIMARY KEY\<close>, \<open>user_id REFERENCES users(id)\<close>, \<open>token_hash TEXT NOT NULL UNIQUE\<close>.
\<close>

definition session_create :: "session \<Rightarrow> db \<Rightarrow> store_error + db" where
  "session_create s d =
     (if (\<exists>t \<in> set (sessions d). sid t = sid s \<or> tokenHash t = tokenHash s)
         \<or> user_findById (suser s) d = None
      then Inl Constraint else Inr (d\<lparr>sessions := sessions d @ [s]\<rparr>))"

definition session_findByTokenHash :: "string \<Rightarrow> db \<Rightarrow> session option" where
  "session_findByTokenHash h d = find (\<lambda>s. tokenHash s = h) (sessions d)"

definition session_touch :: "string \<Rightarrow> time \<Rightarrow> db \<Rightarrow> db" where
  "session_touch i now d =
     d\<lparr>sessions := map (\<lambda>s. if sid s = i then s\<lparr>lastSeenAt := Some now\<rparr> else s) (sessions d)\<rparr>"

text \<open>\<open>UPDATE sessions SET revoked_at = ? WHERE \<dots> AND revoked_at IS NULL\<close>.\<close>

definition revoke_where :: "(session \<Rightarrow> bool) \<Rightarrow> time \<Rightarrow> db \<Rightarrow> db" where
  "revoke_where c now d =
     d\<lparr>sessions := map (\<lambda>s. if c s \<and> revokedAt s = None then s\<lparr>revokedAt := Some now\<rparr> else s)
        (sessions d)\<rparr>"

definition session_revoke :: "string \<Rightarrow> time \<Rightarrow> db \<Rightarrow> db" where
  "session_revoke i now d = revoke_where (\<lambda>s. sid s = i) now d"

definition session_revokeAllForUser :: "string \<Rightarrow> time \<Rightarrow> db \<Rightarrow> db" where
  "session_revokeAllForUser u now d = revoke_where (\<lambda>s. suser s = u) now d"

definition session_revokeAllForUserExcept :: "string \<Rightarrow> string \<Rightarrow> time \<Rightarrow> db \<Rightarrow> db" where
  "session_revokeAllForUserExcept u keep now d =
     revoke_where (\<lambda>s. suser s = u \<and> sid s \<noteq> keep) now d"

definition session_listExpired :: "time \<Rightarrow> int \<Rightarrow> db \<Rightarrow> session list" where
  "session_listExpired at idle d =
     filter (\<lambda>s. expiresAt s \<le> at
         \<or> idle > 0 \<and> (case lastSeenAt s of None \<Rightarrow> screatedAt s | Some t \<Rightarrow> t) \<le> at - idle * 60000)
       (sessions d)"

definition session_deleteExpired :: "time \<Rightarrow> int \<Rightarrow> db \<Rightarrow> db \<times> nat" where
  "session_deleteExpired at idle d =
     (let expired = session_listExpired at idle d in
      if expired = [] then (d, 0)
      else let keep = filter (\<lambda>s. sid s \<notin> set (map sid expired)) (sessions d)
           in (d\<lparr>sessions := keep\<rparr>, length (sessions d) - length keep))"

section \<open>Audit entries\<close>

text \<open>\<open>id TEXT PRIMARY KEY\<close>, \<open>actor_user_id TEXT REFERENCES users(id)\<close>.\<close>

definition audit_append :: "audit_event \<Rightarrow> db \<Rightarrow> store_error + db" where
  "audit_append e d =
     (if (\<exists>x \<in> set (audit d). aid x = aid e)
         \<or> (case actorUserId e of None \<Rightarrow> False | Some u \<Rightarrow> user_findById u d = None)
      then Inl Constraint else Inr (d\<lparr>audit := audit d @ [e]\<rparr>))"

section \<open>Integrity\<close>

text \<open>The constraints of the schema, which every statement keeps.\<close>

definition db_ok :: "db \<Rightarrow> bool" where
  "db_ok d \<longleftrightarrow> distinct (map uid (users d)) \<and> distinct (map username (users d))
     \<and> distinct (map sid (sessions d)) \<and> distinct (map tokenHash (sessions d))
     \<and> set (map suser (sessions d)) \<subseteq> set (map uid (users d))
     \<and> distinct (map aid (audit d))"

lemma find_eq_Some: "find P xs = Some x \<Longrightarrow> x \<in> set xs \<and> P x"
  by (auto simp: find_Some_iff)

lemma find_eq_None: "find P xs = None \<longleftrightarrow> (\<forall>x \<in> set xs. \<not> P x)"
  by (auto simp: find_None_iff)

lemma find_unique:
  "distinct (map f xs) \<Longrightarrow> x \<in> set xs \<Longrightarrow> find (\<lambda>y. f y = f x) xs = Some x"
  by (induction xs) auto

lemma user_findById_Some: "user_findById i d = Some u \<Longrightarrow> u \<in> set (users d) \<and> uid u = i"
  by (auto simp: user_findById_def dest: find_eq_Some)

lemma user_findById_None: "user_findById i d = None \<longleftrightarrow> i \<notin> uid ` set (users d)"
  by (auto simp: user_findById_def find_eq_None)

lemma user_findByUsername_Some:
  "user_findByUsername n d = Some u \<Longrightarrow> u \<in> set (users d) \<and> username u = n"
  by (auto simp: user_findByUsername_def dest: find_eq_Some)

lemma user_findByUsername_None: "user_findByUsername n d = None \<longleftrightarrow> n \<notin> username ` set (users d)"
  by (auto simp: user_findByUsername_def find_eq_None)

lemma user_findById_in:
  "db_ok d \<Longrightarrow> u \<in> set (users d) \<Longrightarrow> user_findById (uid u) d = Some u"
  by (simp add: user_findById_def find_unique db_ok_def)

lemma session_find_in:
  "db_ok d \<Longrightarrow> s \<in> set (sessions d) \<Longrightarrow> session_findByTokenHash (tokenHash s) d = Some s"
  by (simp add: session_findByTokenHash_def find_unique db_ok_def)

lemma session_find_Some:
  "session_findByTokenHash h d = Some s \<Longrightarrow> s \<in> set (sessions d) \<and> tokenHash s = h"
  by (auto simp: session_findByTokenHash_def dest: find_eq_Some)

lemma map_if_same: "(\<And>x. f (g x) = f x) \<Longrightarrow> map f (map (\<lambda>x. if c x then g x else x) xs) = map f xs"
  by (induction xs) auto

lemma user_create_Inr:
  assumes "user_create u d = Inr d'"
  shows "d' = d\<lparr>users := users d @ [u]\<rparr>" "uid u \<notin> set (map uid (users d))"
    "username u \<notin> set (map username (users d))"
  using assms by (auto simp: user_create_def user_findById_None user_findByUsername_None split: if_splits)

lemma user_create_ok: "db_ok d \<Longrightarrow> user_create u d = Inr d' \<Longrightarrow> db_ok d'"
  using user_create_Inr [of u d d'] by (auto simp: db_ok_def)

lemma session_create_ok: "db_ok d \<Longrightarrow> session_create s d = Inr d' \<Longrightarrow> db_ok d'"
  by (fastforce simp: session_create_def db_ok_def user_findById_None split: if_splits)

lemma audit_append_ok: "db_ok d \<Longrightarrow> audit_append e d = Inr d' \<Longrightarrow> db_ok d'"
  by (fastforce simp: audit_append_def db_ok_def split: if_splits)

lemma revoke_where_keys [simp]:
  "map sid (sessions (revoke_where c now d)) = map sid (sessions d)"
  "map tokenHash (sessions (revoke_where c now d)) = map tokenHash (sessions d)"
  "map suser (sessions (revoke_where c now d)) = map suser (sessions d)"
  "users (revoke_where c now d) = users d" "audit (revoke_where c now d) = audit d"
  unfolding revoke_where_def by (simp_all del: map_map add: map_if_same)

lemma session_touch_keys [simp]:
  "map sid (sessions (session_touch i now d)) = map sid (sessions d)"
  "map tokenHash (sessions (session_touch i now d)) = map tokenHash (sessions d)"
  "map suser (sessions (session_touch i now d)) = map suser (sessions d)"
  "users (session_touch i now d) = users d" "audit (session_touch i now d) = audit d"
  unfolding session_touch_def by (simp_all del: map_map add: map_if_same)

lemma revoke_where_ok [simp]: "db_ok (revoke_where c now d) \<longleftrightarrow> db_ok d"
  by (simp only: db_ok_def revoke_where_keys)

lemma session_touch_ok [simp]: "db_ok (session_touch i now d) \<longleftrightarrow> db_ok d"
  by (simp only: db_ok_def session_touch_keys)

lemma session_deleteExpired_ok: "db_ok d \<Longrightarrow> db_ok (fst (session_deleteExpired at idle d))"
  by (fastforce simp: session_deleteExpired_def db_ok_def Let_def distinct_map_filter)

text \<open>What an update writes; the identity of the row stays.\<close>

definition updated_row :: "user \<Rightarrow> user \<Rightarrow> user" where
  "updated_row u v =
     (if uid v = uid u then v\<lparr>username := username u, passwordHash := passwordHash u,
        role := role u, isActive := isActive u, updatedAt := updatedAt u\<rparr> else v)"

lemma user_update_Inr:
  assumes "user_update u d = Inr d'"
  shows "d' = d\<lparr>users := map (updated_row u) (users d)\<rparr>"
    "v \<in> set (users d) \<Longrightarrow> uid u \<in> uid ` set (users d) \<Longrightarrow> uid v \<noteq> uid u \<Longrightarrow> username v \<noteq> username u"
  using assms by (auto simp: user_update_def updated_row_def [abs_def] user_findById_None split: if_splits)

lemma updated_row_uid [simp]: "uid (updated_row u v) = uid v"
  by (simp add: updated_row_def)

lemma user_update_ok:
  assumes "db_ok d" "user_update u d = Inr d'"
  shows "db_ok d'"
proof -
  note U = user_update_Inr [OF assms(2)]
  have inj: "inj_on uid (set (users d))" "inj_on username (set (users d))"
    using assms(1) by (auto simp: db_ok_def distinct_map)
  have "inj_on (\<lambda>v. username (updated_row u v)) (set (users d))"
  proof (rule inj_onI)
    fix v w
    assume vw: "v \<in> set (users d)" "w \<in> set (users d)"
      and eq: "username (updated_row u v) = username (updated_row u w)"
    have "username x \<noteq> username u" if "x \<in> set (users d)" "y \<in> set (users d)"
      "uid y = uid u" "uid x \<noteq> uid u" for x y
      using U(2) [of x] that by (metis image_eqI)
    then have "uid v = uid w \<or> username v = username w"
      using eq vw by (auto simp: updated_row_def split: if_splits)
    then show "v = w" using inj vw by (auto simp: inj_on_def)
  qed
  moreover have "distinct (users d)" using assms(1) by (auto simp: db_ok_def distinct_map)
  ultimately have "distinct (map username (map (updated_row u) (users d)))"
    by (simp add: distinct_map comp_def)
  then show ?thesis using assms(1) unfolding U(1) db_ok_def by (simp add: comp_def)
qed

end
