(* ===== verification/AuditLog.thy ===== *)
theory AuditLog
  imports Store
begin

text \<open>
  The audit log: the registered actions (\<open>packages/audit/src/events/index.ts\<close>), what details may
  hold (\<open>policies/index.ts\<close>) and the writer (\<open>writers/audit-writer.ts\<close>). The redaction of an
  event is a parameter of the writer here (as the option \<open>redaction\<close> is in the code); what the
  policies promise holds for every such function.
\<close>

section \<open>Registered actions\<close>

text \<open>Every action with its target type; all of them are required audits.\<close>

definition audit_definitions :: "(string \<times> string) list" where
  "audit_definitions = [
     (''auth.initial_admin.created'', ''user''),
     (''auth.login_succeeded'', ''user''),
     (''auth.login_failed'', ''user''),
     (''auth.logout'', ''session''),
     (''connection.created'', ''connection''),
     (''connection.updated'', ''connection''),
     (''connection.deleted'', ''connection''),
     (''connection.opened'', ''connection''),
     (''connection.closed'', ''connection''),
     (''servergroup.deleted'', ''server_group''),
     (''user.created'', ''user''),
     (''user.role_changed'', ''user''),
     (''user.deactivated'', ''user''),
     (''user.activated'', ''user''),
     (''user.password_changed'', ''user''),
     (''user.password_reset'', ''user''),
     (''table.created'', ''table''),
     (''table.altered'', ''table''),
     (''table.column_dropped'', ''table''),
     (''table.renamed'', ''table''),
     (''table.truncated'', ''table''),
     (''table.dropped'', ''table''),
     (''data.rows_deleted'', ''table''),
     (''query.history_deleted'', ''query_history''),
     (''query.saved_deleted'', ''saved_query''),
     (''schema.created'', ''schema''),
     (''schema.renamed'', ''schema''),
     (''schema.dropped'', ''schema''),
     (''database.created'', ''database''),
     (''database.dropped'', ''database''),
     (''view.created'', ''view''),
     (''view.replaced'', ''view''),
     (''view.dropped'', ''view''),
     (''security.principal_created'', ''principal''),
     (''security.principal_updated'', ''principal''),
     (''security.principal_password_reset'', ''principal''),
     (''security.principal_deleted'', ''principal''),
     (''security.credential_reset'', ''principal''),
     (''security.principal_dropped'', ''principal''),
     (''security.privilege_granted'', ''privilege''),
     (''security.privilege_revoked'', ''privilege''),
     (''import.started'', ''import''),
     (''import.destructive_started'', ''import''),
     (''import.completed'', ''import''),
     (''import.failed'', ''import''),
     (''backup.started'', ''backup''),
     (''backup.completed'', ''backup''),
     (''backup.failed'', ''backup''),
     (''backup.deleted'', ''backup''),
     (''restore.started'', ''restore''),
     (''restore.completed'', ''restore''),
     (''restore.failed'', ''restore''),
     (''export.completed'', ''export''),
     (''export.failed'', ''export''),
     (''settings.changed'', ''setting'')]"

definition getAuditActionDefinition :: "string \<Rightarrow> (string \<times> string \<times> bool) option" where
  "getAuditActionDefinition a =
     map_option (\<lambda>(n, t). (n, t, True)) (find (\<lambda>(n, t). n = a) audit_definitions)"

definition isAuditAction :: "string \<Rightarrow> bool" where
  "isAuditAction a \<longleftrightarrow> a \<in> set (map fst audit_definitions)"

definition isRequiredAuditAction :: "string \<Rightarrow> bool" where
  "isRequiredAuditAction a =
     (case getAuditActionDefinition a of None \<Rightarrow> False | Some (_, _, required) \<Rightarrow> required)"

section \<open>Details\<close>

definition MAX_AUDIT_DETAILS_BYTES :: nat where "MAX_AUDIT_DETAILS_BYTES = 4096"

definition MAX_USERNAME_ATTEMPTED_LENGTH :: nat where "MAX_USERNAME_ATTEMPTED_LENGTH = 128"

definition forbiddenDetailKeys :: "string list" where
  "forbiddenDetailKeys = [''row'', ''rows'', ''record'', ''records'', ''data'', ''payload'', ''sql'',
     ''query'', ''querytext'', ''values'']"

definition ascii_upper_letter :: "char \<Rightarrow> bool" where
  "ascii_upper_letter c \<longleftrightarrow> (let n = (of_char c :: nat) in 65 \<le> n \<and> n \<le> 90)"

definition ascii_lower_or_digit :: "char \<Rightarrow> bool" where
  "ascii_lower_or_digit c \<longleftrightarrow> digit c \<or> (let n = (of_char c :: nat) in 97 \<le> n \<and> n \<le> 122)"

text \<open>\<open>replace(/([a-z0-9])([A-Z])/g, '$1_$2')\<close>.\<close>

fun camel_split :: "string \<Rightarrow> string" where
  "camel_split (c # d # s) =
     (if ascii_lower_or_digit c \<and> ascii_upper_letter d then c # CHR ''_'' # d # camel_split s
      else c # camel_split (d # s))"
| "camel_split s = s"

definition normalizedKey :: "string \<Rightarrow> string" where
  "normalizedKey key =
     js_lower (filter (\<lambda>c. ascii_lower_or_digit c \<or> ascii_upper_letter c) (camel_split key))"

fun containsForbiddenKey :: "json \<Rightarrow> bool" where
  "containsForbiddenKey (JArr vs) = list_ex containsForbiddenKey vs"
| "containsForbiddenKey (JObj fs) =
     list_ex (\<lambda>(k, v). normalizedKey k \<in> set forbiddenDetailKeys \<or> containsForbiddenKey v) fs"
| "containsForbiddenKey _ = False"

text \<open>\<open>JSON.stringify\<close>.\<close>

definition hex_digit :: "nat \<Rightarrow> char" where
  "hex_digit n = (if n < 10 then char_of (48 + n) else char_of (87 + n))"

definition json_escape :: "char \<Rightarrow> string" where
  "json_escape c =
     (let n = (of_char c :: nat) in
      if n = 34 then [CHR 0x5C, CHR 0x22] else if n = 92 then [CHR 0x5C, CHR 0x5C]
      else if n = 8 then CHR 0x5C # ''b'' else if n = 9 then CHR 0x5C # ''t''
      else if n = 10 then CHR 0x5C # ''n'' else if n = 12 then CHR 0x5C # ''f''
      else if n = 13 then CHR 0x5C # ''r''
      else if n < 32 then CHR 0x5C # ''u00'' @ [hex_digit (n div 16), hex_digit (n mod 16)]
      else [c])"

definition json_string :: "string \<Rightarrow> string" where
  "json_string s = CHR 0x22 # concat (map json_escape s) @ [CHR 0x22]"

fun stringify :: "json \<Rightarrow> string" where
  "stringify JNull = ''null''"
| "stringify (JBool b) = (if b then ''true'' else ''false'')"
| "stringify (JNum n) = show_int n"
| "stringify (JStr s) = json_string s"
| "stringify (JArr vs) = ''['' @ join '','' (map stringify vs) @ '']''"
| "stringify (JObj fs) =
     ''{'' @ join '','' (map (\<lambda>(k, v). json_string k @ '':'' @ stringify v) fs) @ ''}''"

datatype audit_error =
    InvalidAuditAction | AuditDetails | AuditWriteFailed | AuditStore store_error

definition validateAuditDetails :: "(string, json) jsmap option \<Rightarrow> audit_error + unit" where
  "validateAuditDetails d =
     (case d of None \<Rightarrow> Inr ()
      | Some fs \<Rightarrow>
          if containsForbiddenKey (JObj fs) then Inl AuditDetails
          else if length (stringify (JObj fs)) > MAX_AUDIT_DETAILS_BYTES then Inl AuditDetails
          else Inr ())"

definition boundUsernameAttempted :: "(string, json) jsmap option \<Rightarrow> (string, json) jsmap option" where
  "boundUsernameAttempted d =
     (case d of None \<Rightarrow> None
      | Some fs \<Rightarrow>
          (case map_of fs ''usernameAttempted'' of
             Some (JStr s) \<Rightarrow>
               Some (js_set fs ''usernameAttempted'' (JStr (js_slice s 0 MAX_USERNAME_ATTEMPTED_LENGTH)))
           | _ \<Rightarrow> Some fs))"

section \<open>The writer\<close>

record audit_draft =
  daction :: string
  dactor :: "string option"
  dtargetType :: "string option"
  dtargetRef :: "string option"
  dconnection :: "string option"
  ddetails :: "(string, json) jsmap option"

text \<open>What the writer gets from its surroundings: the clock, a new id, the correlation id, redaction.\<close>

record audit_context =
  anow :: time
  anewId :: string
  acorrelation :: "string option"
  aredact :: "audit_event \<Rightarrow> audit_event"

definition audit_record ::
  "audit_context \<Rightarrow> audit_draft \<Rightarrow> audit_result \<Rightarrow> db \<Rightarrow> audit_error + db" where
  "audit_record c e r d =
     (case getAuditActionDefinition (daction e) of None \<Rightarrow> Inl InvalidAuditAction
      | Some (_, defaultTarget, _) \<Rightarrow>
          let candidate = \<lparr>aid = anewId c, occurredAt = anow c, actorUserId = dactor e,
                action = daction e,
                targetType = (case dtargetType e of None \<Rightarrow> Some defaultTarget | Some t \<Rightarrow> Some t),
                targetRef = dtargetRef e, connectionId = dconnection e, aresult = r,
                correlationId = acorrelation c, details = ddetails e\<rparr>;
              safeEvent = aredact c candidate;
              safeDetails = boundUsernameAttempted (details safeEvent)
          in (case validateAuditDetails safeDetails of Inl x \<Rightarrow> Inl x
              | Inr _ \<Rightarrow> (case audit_append (safeEvent\<lparr>details := safeDetails\<rparr>) d of
                             Inl x \<Rightarrow> Inl (AuditStore x) | Inr d' \<Rightarrow> Inr d')))"

text \<open>
  \<open>withAudit\<close>: run an operation and record how it ended. The operation returns its value or throws
  an error, and the store it leaves.
\<close>

datatype 'e audited_error = OperationError 'e | NotRegistered | NotAudited

definition withAudit ::
  "audit_context \<Rightarrow> audit_draft \<Rightarrow> (db \<Rightarrow> ('e + 'a) \<times> db) \<Rightarrow> db \<Rightarrow> ('e audited_error + 'a) \<times> db" where
  "withAudit c e operation d =
     (if \<not> isAuditAction (daction e) then (Inl NotRegistered, d)
      else let (r, d1) = operation d in
        case r of
          Inl err \<Rightarrow>
            (case audit_record c e Failure d1 of
               Inl _ \<Rightarrow> (Inl NotAudited, d1) | Inr d2 \<Rightarrow> (Inl (OperationError err), d2))
        | Inr value \<Rightarrow>
            (case audit_record c e Success d1 of
               Inl _ \<Rightarrow>
                 if isRequiredAuditAction (daction e) then (Inl NotAudited, d1) else (Inr value, d1)
             | Inr d2 \<Rightarrow> (Inr value, d2)))"

section \<open>Properties\<close>

lemma find_key: "find (\<lambda>(n, t). n = a) xs = None \<longleftrightarrow> a \<notin> set (map fst xs)"
  by (induction xs) auto

lemma registered: "getAuditActionDefinition a = None \<longleftrightarrow> \<not> isAuditAction a"
  by (simp add: getAuditActionDefinition_def isAuditAction_def find_key)

lemma required_iff_registered: "isRequiredAuditAction a \<longleftrightarrow> isAuditAction a"
  using registered [of a]
  by (auto simp: isRequiredAuditAction_def getAuditActionDefinition_def split: option.splits)

lemma audit_append_Inr:
  assumes "audit_append e d = Inr d'"
  shows "d' = d\<lparr>audit := audit d @ [e]\<rparr>"
  using assms by (simp add: audit_append_def split: if_splits)

lemma bound_username:
  assumes "boundUsernameAttempted d = Some fs" "map_of fs ''usernameAttempted'' = Some (JStr s)"
  shows "length s \<le> MAX_USERNAME_ATTEMPTED_LENGTH"
  using assms
  by (auto simp: boundUsernameAttempted_def map_of_js_set split: option.splits json.splits)

lemma audit_record_Inr:
  assumes "audit_record c e r d = Inr d'"
  obtains row where "d' = d\<lparr>audit := audit d @ [row]\<rparr>"
    and "\<And>fs. details row = Some fs \<Longrightarrow> \<not> containsForbiddenKey (JObj fs)
        \<and> length (stringify (JObj fs)) \<le> MAX_AUDIT_DETAILS_BYTES
        \<and> (\<forall>s. map_of fs ''usernameAttempted'' = Some (JStr s) \<longrightarrow> length s \<le> MAX_USERNAME_ATTEMPTED_LENGTH)"
    and "(\<And>x. aresult (aredact c x) = aresult x) \<Longrightarrow> aresult row = r"
    and "isAuditAction (daction e)"
proof -
  from assms obtain n t req where def: "getAuditActionDefinition (daction e) = Some (n, t, req)"
    by (auto simp: audit_record_def split: option.splits)
  let ?x = "\<lparr>aid = anewId c, occurredAt = anow c, actorUserId = dactor e, action = daction e,
      targetType = (case dtargetType e of None \<Rightarrow> Some t | Some t \<Rightarrow> Some t),
      targetRef = dtargetRef e, connectionId = dconnection e, aresult = r,
      correlationId = acorrelation c, details = ddetails e\<rparr>"
  let ?row = "(aredact c ?x)\<lparr>details := boundUsernameAttempted (details (aredact c ?x))\<rparr>"
  have v: "validateAuditDetails (details ?row) = Inr ()" and a: "audit_append ?row d = Inr d'"
    using assms def by (auto simp: audit_record_def Let_def split: sum.splits)
  show thesis
  proof
    show "d' = d\<lparr>audit := audit d @ [?row]\<rparr>" using audit_append_Inr [OF a] .
    show "\<not> containsForbiddenKey (JObj fs) \<and> length (stringify (JObj fs)) \<le> MAX_AUDIT_DETAILS_BYTES
        \<and> (\<forall>s. map_of fs ''usernameAttempted'' = Some (JStr s) \<longrightarrow> length s \<le> MAX_USERNAME_ATTEMPTED_LENGTH)"
      if "details ?row = Some fs" for fs
      using v that bound_username by (auto simp: validateAuditDetails_def split: if_splits)
    show "aresult ?row = r" if "\<And>x. aresult (aredact c x) = aresult x" using that by simp
    show "isAuditAction (daction e)" using def registered [of "daction e"] by auto
  qed
qed

lemma audit_record_ok: "db_ok d \<Longrightarrow> audit_record c e r d = Inr d' \<Longrightarrow> db_ok d'"
  by (auto simp: audit_record_def Let_def dest: audit_append_ok split: option.splits sum.splits prod.splits)

lemma normalizedKey_plain:
  "normalizedKey key = js_lower (filter (\<lambda>c. ascii_lower_or_digit c \<or> ascii_upper_letter c) key)"
proof -
  have "\<not> ascii_lower_or_digit CHR ''_''" "\<not> ascii_upper_letter CHR ''_''"
    by (simp_all add: ascii_lower_or_digit_def ascii_upper_letter_def digit_def)
  then have "filter (\<lambda>c. ascii_lower_or_digit c \<or> ascii_upper_letter c) (camel_split key)
      = filter (\<lambda>c. ascii_lower_or_digit c \<or> ascii_upper_letter c) key"
    by (induction key rule: camel_split.induct) auto
  then show ?thesis by (simp add: normalizedKey_def)
qed

text \<open>What the audit log holds is bounded, whatever the caller passes and whatever the
  redaction does: every entry that is written has a registered action, no detail whose name stands
  for row or query data at any depth (in any case and with any separators), at most 4096
  characters of details and at most 128 of an attempted user name; nothing else in the store
  changes.\<close>

theorem audit_entries_bounded:
  assumes "audit_record c e r d = Inr d'"
  shows "isAuditAction (daction e) \<and> users d' = users d \<and> sessions d' = sessions d
    \<and> (\<exists>row. audit d' = audit d @ [row]
        \<and> (\<forall>fs. details row = Some fs \<longrightarrow> \<not> containsForbiddenKey (JObj fs)
            \<and> length (stringify (JObj fs)) \<le> MAX_AUDIT_DETAILS_BYTES
            \<and> (\<forall>s. map_of fs ''usernameAttempted'' = Some (JStr s) \<longrightarrow> length s \<le> MAX_USERNAME_ATTEMPTED_LENGTH)))"
  using assms by (rule audit_record_Inr) auto

definition empty_db :: db where
  "empty_db = \<lparr>users = [], sessions = [], audit = []\<rparr>"

definition plain_context :: "time \<Rightarrow> string \<Rightarrow> audit_context" where
  "plain_context now i = \<lparr>anow = now, anewId = i, acorrelation = None, aredact = id\<rparr>"

definition login_failed_draft :: "string \<Rightarrow> audit_draft" where
  "login_failed_draft n = \<lparr>daction = ''auth.login_failed'', dactor = None, dtargetType = None,
     dtargetRef = None, dconnection = None, ddetails = Some [(''usernameAttempted'', JStr n)]\<rparr>"

lemmas audit_eval = audit_record_def getAuditActionDefinition_def audit_definitions_def Let_def
  boundUsernameAttempted_def validateAuditDetails_def audit_append_def normalizedKey_plain
  forbiddenDetailKeys_def ascii_lower_or_digit_def ascii_upper_letter_def digit_def js_lower_def
  js_lower_char_def json_string_def json_escape_def js_slice_def MAX_AUDIT_DETAILS_BYTES_def
  MAX_USERNAME_ATTEMPTED_LENGTH_def isAuditAction_def isRequiredAuditAction_def

theorem audit_entries_bounded_witness:
  "\<exists>d'. audit_record (plain_context 1 ''x'') (login_failed_draft ''eve'') Failure empty_db = Inr d'
     \<and> length (audit d') = 1 \<and> users d' = []"
proof -
  have "\<exists>d'. audit_record (plain_context 1 ''x'') (login_failed_draft ''eve'') Failure empty_db = Inr d'"
    by (simp add: audit_eval plain_context_def login_failed_draft_def empty_db_def)
  then obtain d' where d': "audit_record (plain_context 1 ''x'') (login_failed_draft ''eve'') Failure empty_db = Inr d'"
    by blast
  from audit_entries_bounded [OF d'] d' show ?thesis by (auto simp: empty_db_def)
qed

text \<open>
  No outcome of an audited operation reaches the caller without its entry: when
  \<open>withAudit\<close> returns a value, the operation returned it and a success entry was appended; when it
  throws the operation's error, a failure entry was appended; when the entry cannot be written the
  caller gets an audit error instead, and an unregistered action does not run at all.\<close>

theorem audited_outcomes:
  assumes "\<And>x. aresult (aredact c x) = aresult x"
  shows "case withAudit c e operation d of
      (Inr value, d') \<Rightarrow> (\<exists>d1 row. operation d = (Inr value, d1)
          \<and> d' = d1\<lparr>audit := audit d1 @ [row]\<rparr> \<and> aresult row = Success)
    | (Inl (OperationError err), d') \<Rightarrow> (\<exists>d1 row. operation d = (Inl err, d1)
          \<and> d' = d1\<lparr>audit := audit d1 @ [row]\<rparr> \<and> aresult row = Failure)
    | (Inl NotRegistered, d') \<Rightarrow> d' = d \<and> \<not> isAuditAction (daction e)
    | (Inl NotAudited, d') \<Rightarrow> (\<exists>r. d' = snd (operation d) \<and> audit_record c e r d' \<in> range Inl)"
proof (cases "isAuditAction (daction e)")
  case False
  then show ?thesis by (simp add: withAudit_def)
next
  case True
  obtain res d1 where op: "operation d = (res, d1)" by (cases "operation d")
  have row: "\<exists>row. d' = d1\<lparr>audit := audit d1 @ [row]\<rparr> \<and> aresult row = r"
    if "audit_record c e r d1 = Inr d'" for r d'
    using that by (rule audit_record_Inr) (use assms in \<open>blast\<close>)
  show ?thesis
  proof (cases res)
    case (Inl err)
    show ?thesis
      using True op Inl row [of Failure]
      by (cases "audit_record c e Failure d1") (auto simp: withAudit_def)
  next
    case (Inr v)
    show ?thesis
      using True op Inr row [of Success] required_iff_registered [of "daction e"]
      by (cases "audit_record c e Success d1") (auto simp: withAudit_def)
  qed
qed

theorem audited_outcomes_witness:
  "\<exists>d' row. withAudit (plain_context 1 ''x'') (login_failed_draft ''eve'') (\<lambda>d. (Inr (7 :: nat) :: string + nat, d)) empty_db
       = (Inr 7, d') \<and> audit d' = [row] \<and> aresult row = Success"
proof -
  let ?w = "withAudit (plain_context 1 ''x'') (login_failed_draft ''eve'') (\<lambda>d. (Inr (7 :: nat) :: string + nat, d)) empty_db"
  have "\<exists>d'. ?w = (Inr 7, d')"
    by (simp add: withAudit_def audit_eval plain_context_def login_failed_draft_def empty_db_def)
  then obtain d' where w: "?w = (Inr 7, d')" by blast
  have "aresult (aredact (plain_context 1 ''x'') x) = aresult x" for x by (simp add: plain_context_def)
  from audited_outcomes [OF this, where e = "login_failed_draft ''eve''"
      and operation = "\<lambda>d. (Inr (7 :: nat) :: string + nat, d)" and d = empty_db]
  show ?thesis using w by (auto simp: empty_db_def)
qed

end
