(* ===== verification/Auth.thy ===== *)
theory Auth
  imports RateLimiter Password AuditLog
begin

text \<open>
  Login, sessions and password changes, \<open>packages/auth/src/session.ts\<close>, over the tables of
  \<open>Store\<close>. An asynchronous method (hashing and verifying a password takes time, other requests run
  meanwhile) is one definition per synchronous stretch, each a transaction of its own; the whole
  method is their composition. The password runtime, the token digest, random tokens and new ids
  are arguments.
\<close>

section \<open>Types\<close>

datatype auth_error =
    AUTH_INVALID_CREDENTIALS | AUTH_UNAUTHENTICATED | SESSION_EXPIRED | RATE_LIMITED int
  | VALIDATION_FAILED "password_violation list" | AuditThrew audit_error | StoreThrew store_error

datatype end_reason = EndLogout | EndExpired

record public_user =
  pub_id :: string
  pub_username :: string
  pub_role :: user_role

record auth_config =
  idleTimeoutMinutes :: int
  absoluteTimeoutHours :: int
  touchIntervalMs :: int

text \<open>
  The store, the login limiter, the users whose session end was reported (in order), and what
  \<open>InitialAdminService\<close> has cached.
\<close>

record auth =
  adb :: db
  alimiter :: limiter
  aended :: "(string \<times> end_reason) list"
  ainitialized :: "bool option"

definition publicUser :: "user \<Rightarrow> public_user" where
  "publicUser u = \<lparr>pub_id = uid u, pub_username = username u, pub_role = role u\<rparr>"

text \<open>The constructor: defaults and range checks.\<close>

definition new_auth_config :: "int option \<Rightarrow> int option \<Rightarrow> int option \<Rightarrow> range_error + auth_config" where
  "new_auth_config idle absolute touch =
     (let i = (case idle of None \<Rightarrow> 720 | Some n \<Rightarrow> n);
          a = (case absolute of None \<Rightarrow> 168 | Some n \<Rightarrow> n);
          t = (case touch of None \<Rightarrow> 60000 | Some n \<Rightarrow> n) in
      if i < 1 then Inl (RangeError ''Session idle timeout must be a positive integer'')
      else if a < 1 then Inl (RangeError ''Session absolute timeout must be a positive integer'')
      else if t < 1 then Inl (RangeError ''Session touch interval must be a positive integer'')
      else Inr \<lparr>idleTimeoutMinutes = i, absoluteTimeoutHours = a, touchIntervalMs = t\<rparr>)"

text \<open>\<open>withTransaction\<close> outside another transaction: commit on return, roll back on a throw.\<close>

definition transact :: "(db \<Rightarrow> 'e + 'a \<times> db) \<Rightarrow> auth \<Rightarrow> ('e + 'a) \<times> auth" where
  "transact operation st =
     (case operation (adb st) of
        Inl e \<Rightarrow> (Inl e, st) | Inr (a, d) \<Rightarrow> (Inr a, st\<lparr>adb := d\<rparr>))"

definition recorded :: "audit_context \<Rightarrow> audit_draft \<Rightarrow> audit_result \<Rightarrow> db \<Rightarrow> auth_error + db" where
  "recorded c e r d = (case audit_record c e r d of Inl x \<Rightarrow> Inl (AuditThrew x) | Inr d' \<Rightarrow> Inr d')"

section \<open>Deadlines\<close>

definition idleDeadline :: "session \<Rightarrow> int \<Rightarrow> time" where
  "idleDeadline s idle = (case lastSeenAt s of None \<Rightarrow> screatedAt s | Some t \<Rightarrow> t) + idle * 60000"

definition absoluteDeadline :: "session \<Rightarrow> time" where
  "absoluteDeadline s = expiresAt s"

definition isExpired :: "session \<Rightarrow> time \<Rightarrow> int \<Rightarrow> bool" where
  "isExpired s now idle \<longleftrightarrow> now \<ge> absoluteDeadline s \<or> now \<ge> idleDeadline s idle"

section \<open>Login\<close>

definition ip_key :: "string \<Rightarrow> string" where "ip_key ip = ''ip:'' @ ip"

definition username_key :: "string \<Rightarrow> string" where "username_key n = ''username:'' @ js_lower n"

definition login_gate :: "time \<Rightarrow> string \<Rightarrow> string \<Rightarrow> auth \<Rightarrow> (auth_error + unit) \<times> auth" where
  "login_gate now ip name st =
     (let (l1, ipLimit) = consume (alimiter st) now (ip_key ip);
          (l2, usernameLimit) =
            (if allowed ipLimit then consume l1 now (username_key name) else (l1, ipLimit));
          st' = st\<lparr>alimiter := l2\<rparr>
      in if \<not> allowed ipLimit \<or> \<not> allowed usernameLimit
         then (Inl (RATE_LIMITED (max (retryAfterSeconds ipLimit) (retryAfterSeconds usernameLimit))), st')
         else (Inr (), st'))"

definition DUMMY_PASSWORD_HASH :: string where
  "DUMMY_PASSWORD_HASH = ''$argon2id$v=19$m=19456,t=2,p=1$ze5edbzdJWdIm/VzAxNq+Qw7kJJdCi1G3ofg62PiL18$d32RNJJ6VP1UQvQckmd7OwaZtDj9jgmEG/doyzSXVfo''"

text \<open>The hash that is verified: of the user, or the dummy one for a name that does not exist.\<close>

definition login_hash :: "user option \<Rightarrow> string" where
  "login_hash found = (case found of None \<Rightarrow> DUMMY_PASSWORD_HASH | Some u \<Rightarrow> passwordHash u)"

definition login_failed_event :: "user option \<Rightarrow> string \<Rightarrow> audit_draft" where
  "login_failed_event found name =
     \<lparr>daction = ''auth.login_failed'', dactor = None, dtargetType = None,
      dtargetRef = map_option uid found, dconnection = None,
      ddetails = Some [(''usernameAttempted'', JStr name),
        (''reason'', JStr (if (case found of None \<Rightarrow> False | Some u \<Rightarrow> \<not> isActive u)
                           then ''user_inactive'' else ''credentials_invalid''))]\<rparr>"

text \<open>After the verification: the failure entry and the error, or the limiter's two resets.\<close>

definition login_decide ::
  "audit_context \<Rightarrow> string \<Rightarrow> string \<Rightarrow> user option \<Rightarrow> verification \<Rightarrow> auth
     \<Rightarrow> (auth_error + user) \<times> auth" where
  "login_decide ctx ip name found v st =
     (case found of
        Some u \<Rightarrow>
          if isActive u \<and> ok v then
            (Inr u, st\<lparr>alimiter := reset (reset (alimiter st) (ip_key ip)) (username_key name)\<rparr>)
          else (case transact (\<lambda>d. case recorded ctx (login_failed_event found name) Failure d of
                                    Inl x \<Rightarrow> Inl x | Inr d' \<Rightarrow> Inr ((), d')) st of
                  (Inl x, st') \<Rightarrow> (Inl x, st') | (Inr _, st') \<Rightarrow> (Inl AUTH_INVALID_CREDENTIALS, st'))
      | None \<Rightarrow>
          (case transact (\<lambda>d. case recorded ctx (login_failed_event None name) Failure d of
                                Inl x \<Rightarrow> Inl x | Inr d' \<Rightarrow> Inr ((), d')) st of
             (Inl x, st') \<Rightarrow> (Inl x, st') | (Inr _, st') \<Rightarrow> (Inl AUTH_INVALID_CREDENTIALS, st')))"

text \<open>A fresh hash replaces the one that was verified, unless that one has changed meanwhile.\<close>

definition login_rehash :: "user \<Rightarrow> string \<Rightarrow> time \<Rightarrow> auth \<Rightarrow> (auth_error + unit) \<times> auth" where
  "login_rehash u newHash now st =
     transact (\<lambda>d.
       case user_findById (uid u) d of
         None \<Rightarrow> Inr ((), d)
       | Some current \<Rightarrow>
           if \<not> isActive current \<or> passwordHash current \<noteq> passwordHash u then Inr ((), d)
           else (case user_update (current\<lparr>passwordHash := newHash, updatedAt := now\<rparr>) d of
                   Inl x \<Rightarrow> Inl (StoreThrew x) | Inr d' \<Rightarrow> Inr ((), d'))) st"

definition login_succeeded_event :: "user \<Rightarrow> audit_draft" where
  "login_succeeded_event u =
     \<lparr>daction = ''auth.login_succeeded'', dactor = Some (uid u), dtargetType = None,
      dtargetRef = Some (uid u), dconnection = None,
      ddetails = Some [(''username'', JStr (username u))]\<rparr>"

definition new_session ::
  "(string \<Rightarrow> string) \<Rightarrow> auth_config \<Rightarrow> user \<Rightarrow> string \<Rightarrow> string \<Rightarrow> time \<Rightarrow> session" where
  "new_session digest cfg u token i now =
     \<lparr>sid = i, suser = uid u, tokenHash = digest token, screatedAt = now,
      expiresAt = now + absoluteTimeoutHours cfg * 60 * 60000, lastSeenAt = Some now, revokedAt = None\<rparr>"

definition login_session ::
  "(string \<Rightarrow> string) \<Rightarrow> auth_config \<Rightarrow> audit_context \<Rightarrow> user \<Rightarrow> string \<Rightarrow> string \<Rightarrow> time \<Rightarrow> auth
     \<Rightarrow> (auth_error + public_user \<times> string) \<times> auth" where
  "login_session digest cfg ctx u token i now st =
     transact (\<lambda>d.
       case session_create (new_session digest cfg u token i now) d of
         Inl x \<Rightarrow> Inl (StoreThrew x)
       | Inr d1 \<Rightarrow>
           (case recorded ctx (login_succeeded_event u) Success d1 of
              Inl x \<Rightarrow> Inl x | Inr d2 \<Rightarrow> Inr ((publicUser u, token), d2))) st"

text \<open>What one login brings with it from outside.\<close>

record login_input =
  in_username :: string
  in_password :: string
  in_ip :: string

record login_env =
  env_gate :: time
  env_rehash :: "string \<times> time"
  env_token :: string
  env_sid :: string
  env_created :: time
  env_audit :: audit_context

definition login ::
  "(string \<Rightarrow> string \<Rightarrow> bool option) \<Rightarrow> (string \<Rightarrow> string) \<Rightarrow> auth_config \<Rightarrow> login_env \<Rightarrow> login_input \<Rightarrow> auth
     \<Rightarrow> (auth_error + public_user \<times> string) \<times> auth" where
  "login runtime digest cfg env inp st =
     (case login_gate (env_gate env) (in_ip inp) (in_username inp) st of
        (Inl e, st1) \<Rightarrow> (Inl e, st1)
      | (Inr _, st1) \<Rightarrow>
          let found = user_findByUsername (in_username inp) (adb st1);
              h = login_hash found;
              v = hasher_verify (runtime (in_password inp) h) h
          in (case login_decide (env_audit env) (in_ip inp) (in_username inp) found v st1 of
                (Inl e, st2) \<Rightarrow> (Inl e, st2)
              | (Inr u, st2) \<Rightarrow>
                  (case (if needsRehash v then login_rehash u (fst (env_rehash env)) (snd (env_rehash env)) st2
                         else (Inr (), st2)) of
                     (Inl e, st3) \<Rightarrow> (Inl e, st3)
                   | (Inr _, st3) \<Rightarrow>
                       login_session digest cfg (env_audit env) u (env_token env) (env_sid env)
                         (env_created env) st3)))"

section \<open>Validation and logout\<close>

datatype session_validation =
    Authenticated session public_user
  | Rejected auth_error

definition notifySessionEnded :: "string \<Rightarrow> end_reason \<Rightarrow> auth \<Rightarrow> auth" where
  "notifySessionEnded u r st = st\<lparr>aended := aended st @ [(u, r)]\<rparr>"

definition validateSession ::
  "(string \<Rightarrow> string) \<Rightarrow> auth_config \<Rightarrow> time \<Rightarrow> string option \<Rightarrow> auth \<Rightarrow> session_validation \<times> auth" where
  "validateSession digest cfg now token st =
     (case token of
        None \<Rightarrow> (Rejected AUTH_UNAUTHENTICATED, st)
      | Some t \<Rightarrow>
          if t = [] \<or> length t > 512 then (Rejected AUTH_UNAUTHENTICATED, st)
          else (case session_findByTokenHash (digest t) (adb st) of
            None \<Rightarrow> (Rejected AUTH_UNAUTHENTICATED, st)
          | Some s \<Rightarrow>
              if revokedAt s \<noteq> None then (Rejected AUTH_UNAUTHENTICATED, st)
              else if isExpired s now (idleTimeoutMinutes cfg)
                then (Rejected SESSION_EXPIRED, notifySessionEnded (suser s) EndExpired st)
              else (case user_findById (suser s) (adb st) of
                  None \<Rightarrow> (Rejected AUTH_UNAUTHENTICATED, st)
                | Some u \<Rightarrow>
                    if \<not> isActive u then (Rejected AUTH_UNAUTHENTICATED, st)
                    else if (case lastSeenAt s of None \<Rightarrow> True | Some l \<Rightarrow> now - l \<ge> touchIntervalMs cfg)
                      then (Authenticated (s\<lparr>lastSeenAt := Some now\<rparr>) (publicUser u),
                            st\<lparr>adb := session_touch (sid s) now (adb st)\<rparr>)
                    else (Authenticated s (publicUser u), st))))"

definition logout_event :: "session \<Rightarrow> public_user \<Rightarrow> audit_draft" where
  "logout_event s u =
     \<lparr>daction = ''auth.logout'', dactor = Some (pub_id u), dtargetType = None,
      dtargetRef = Some (sid s), dconnection = None,
      ddetails = Some [(''username'', JStr (pub_username u))]\<rparr>"

definition logout ::
  "(string \<Rightarrow> string) \<Rightarrow> auth_config \<Rightarrow> audit_context \<Rightarrow> time \<Rightarrow> time \<Rightarrow> string option \<Rightarrow> auth
     \<Rightarrow> (auth_error + session_validation) \<times> auth" where
  "logout digest cfg ctx now revokeTime token st =
     (case validateSession digest cfg now token st of
        (Rejected e, st1) \<Rightarrow> (Inr (Rejected e), st1)
      | (Authenticated s u, st1) \<Rightarrow>
          (case transact (\<lambda>d. case recorded ctx (logout_event s u) Success
                                   (session_revoke (sid s) revokeTime d) of
                                Inl x \<Rightarrow> Inl x | Inr d' \<Rightarrow> Inr ((), d')) st1 of
             (Inl x, st2) \<Rightarrow> (Inl x, st2)
           | (Inr _, st2) \<Rightarrow> (Inr (Authenticated s u), notifySessionEnded (pub_id u) EndLogout st2)))"

section \<open>Password change\<close>

definition password_event :: "user \<Rightarrow> (string, json) jsmap \<Rightarrow> audit_draft" where
  "password_event u ds =
     \<lparr>daction = ''user.password_changed'', dactor = Some (uid u), dtargetType = None,
      dtargetRef = Some (uid u), dconnection = None, ddetails = Some ds\<rparr>"

text \<open>Up to the verification, then up to the new hash.\<close>

definition change_lookup :: "string \<Rightarrow> auth \<Rightarrow> auth_error + user" where
  "change_lookup i st =
     (case user_findById i (adb st) of
        None \<Rightarrow> Inl AUTH_UNAUTHENTICATED
      | Some u \<Rightarrow> if isActive u then Inr u else Inl AUTH_UNAUTHENTICATED)"

definition change_refused ::
  "audit_context \<Rightarrow> user \<Rightarrow> string \<Rightarrow> auth_error \<Rightarrow> auth \<Rightarrow> (auth_error + unit) \<times> auth" where
  "change_refused ctx u reason e st =
     (case transact (\<lambda>d. case recorded ctx (password_event u [(''reason'', JStr reason)]) Failure d of
                           Inl x \<Rightarrow> Inl x | Inr d' \<Rightarrow> Inr ((), d')) st of
        (Inl x, st') \<Rightarrow> (Inl x, st') | (Inr _, st') \<Rightarrow> (Inl e, st'))"

definition change_check ::
  "audit_context \<Rightarrow> user \<Rightarrow> verification \<Rightarrow> string \<Rightarrow> auth \<Rightarrow> (auth_error + unit) \<times> auth" where
  "change_check ctx u v newPassword st =
     (if \<not> ok v then change_refused ctx u ''current_password_invalid'' AUTH_INVALID_CREDENTIALS st
      else let violations = validatePassword newPassword (username u) in
        if violations \<noteq> [] then
          change_refused ctx u ''password_policy_invalid'' (VALIDATION_FAILED violations) st
        else (Inr (), st))"

definition change_commit ::
  "audit_context \<Rightarrow> user \<Rightarrow> string \<Rightarrow> string \<Rightarrow> time \<Rightarrow> auth \<Rightarrow> (auth_error + unit) \<times> auth" where
  "change_commit ctx u keep newHash now st =
     transact (\<lambda>d.
       case user_findById (uid u) d of
         None \<Rightarrow> Inl AUTH_UNAUTHENTICATED
       | Some current \<Rightarrow>
           if \<not> isActive current then Inl AUTH_UNAUTHENTICATED
           else if passwordHash current \<noteq> passwordHash u then Inl AUTH_INVALID_CREDENTIALS
           else (case user_update (current\<lparr>passwordHash := newHash, updatedAt := now\<rparr>) d of
               Inl x \<Rightarrow> Inl (StoreThrew x)
             | Inr d1 \<Rightarrow>
                 (case recorded ctx (password_event current [(''username'', JStr (username current))])
                         Success (session_revokeAllForUserExcept (uid current) keep now d1) of
                    Inl x \<Rightarrow> Inl x | Inr d2 \<Rightarrow> Inr ((), d2)))) st"

definition changePassword ::
  "(string \<Rightarrow> string \<Rightarrow> bool option) \<Rightarrow> audit_context \<Rightarrow> string \<Rightarrow> string \<Rightarrow> string \<Rightarrow> string \<Rightarrow> string \<Rightarrow> time
     \<Rightarrow> auth \<Rightarrow> (auth_error + unit) \<times> auth" where
  "changePassword runtime ctx userId sessionId currentPassword newPassword newHash now st =
     (case change_lookup userId st of
        Inl e \<Rightarrow> (Inl e, st)
      | Inr u \<Rightarrow>
          (case change_check ctx u (hasher_verify (runtime currentPassword (passwordHash u)) (passwordHash u))
                  newPassword st of
             (Inl e, st1) \<Rightarrow> (Inl e, st1)
           | (Inr _, st1) \<Rightarrow> change_commit ctx u sessionId newHash now st1))"

section \<open>Cleanup\<close>

definition deleteExpired :: "auth_config \<Rightarrow> time \<Rightarrow> auth \<Rightarrow> nat \<times> auth" where
  "deleteExpired cfg now st =
     (let expired = session_listExpired now (idleTimeoutMinutes cfg) (adb st);
          (d, count) = session_deleteExpired now (idleTimeoutMinutes cfg) (adb st)
      in (count, fold (\<lambda>u. notifySessionEnded u EndExpired) (js_unique (map suser expired))
                   (st\<lparr>adb := d\<rparr>)))"

end
