(* ===== verification/UserManagement.thy ===== *)
theory UserManagement
  imports Auth
begin

text \<open>
  The administrator's user lifecycle (\<open>packages/auth/src/user-management.ts\<close>) and the one-way claim
  of an empty instance (\<open>packages/auth/src/initial-admin.ts\<close>), over the same store as \<open>Auth\<close>. Roles
  are the two of the schema, so the check of the role's value always passes.
\<close>

section \<open>Validation\<close>

datatype username_violation = UnTooShort | UnTooLong | UnInvalidCharacters

definition username_char :: "char \<Rightarrow> bool" where
  "username_char c \<longleftrightarrow> ascii_lower_or_digit c \<or> ascii_upper_letter c \<or> c \<in> {CHR ''.'', CHR ''_'', CHR ''-''}"

definition usernameViolations :: "string \<Rightarrow> username_violation list" where
  "usernameViolations n =
     (if length n < 3 then [UnTooShort] else [])
     @ (if length n > 32 then [UnTooLong] else [])
     @ (if n = [] \<or> \<not> list_all username_char n then [UnInvalidCharacters] else [])"

datatype user_error =
    UserValidationFailed "username_violation list" "password_violation list"
  | UsernameTaken | UserNotFound | LastAdmin | AlreadyInitialized
  | UserAuditThrew audit_error | UserStoreThrew store_error

record managed_user = public_user +
  man_active :: bool

definition managedUser :: "user \<Rightarrow> managed_user" where
  "managedUser u = \<lparr>pub_id = uid u, pub_username = username u, pub_role = role u, man_active = isActive u\<rparr>"

definition active_admin :: "user \<Rightarrow> bool" where
  "active_admin u \<longleftrightarrow> role u = RoleAdmin \<and> isActive u"

definition activeAdminCount :: "user list \<Rightarrow> nat" where
  "activeAdminCount us = length (filter active_admin us)"

definition assertNotLastAdmin ::
  "user list \<Rightarrow> user \<Rightarrow> user_role \<Rightarrow> bool \<Rightarrow> user_error + unit" where
  "assertNotLastAdmin us target nextRole nextIsActive =
     (let remainsAdmin = nextRole = RoleAdmin \<and> nextIsActive in
      if role target = RoleAdmin \<and> isActive target \<and> \<not> remainsAdmin then
        (let otherActiveAdmins = length (filter (\<lambda>u. uid u \<noteq> uid target \<and> role u = RoleAdmin \<and> isActive u) us)
         in if otherActiveAdmins = 0 then Inl LastAdmin else Inr ())
      else Inr ())"

definition um_record :: "audit_context \<Rightarrow> audit_draft \<Rightarrow> db \<Rightarrow> user_error + db" where
  "um_record c e d =
     (case audit_record c e Success d of Inl x \<Rightarrow> Inl (UserAuditThrew x) | Inr d' \<Rightarrow> Inr d')"

definition user_event :: "string \<Rightarrow> string \<Rightarrow> string \<Rightarrow> (string, json) jsmap \<Rightarrow> audit_draft" where
  "user_event a actor target ds =
     \<lparr>daction = a, dactor = Some actor, dtargetType = None, dtargetRef = Some target,
      dconnection = None, ddetails = Some ds\<rparr>"

fun role_text :: "user_role \<Rightarrow> string" where
  "role_text RoleAdmin = ''admin''"
| "role_text RoleUser = ''user''"

section \<open>User management\<close>

record create_user_input =
  cu_username :: string
  cu_password :: string
  cu_role :: user_role

definition new_user :: "create_user_input \<Rightarrow> string \<Rightarrow> string \<Rightarrow> time \<Rightarrow> user" where
  "new_user inp i newHash now =
     \<lparr>uid = i, username = cu_username inp, passwordHash = newHash, role = cu_role inp,
      isActive = True, ucreatedAt = now, updatedAt = now\<rparr>"

definition listUsers ::
  "(string \<Rightarrow> string \<Rightarrow> int) \<Rightarrow> page_request option \<Rightarrow> auth \<Rightarrow> managed_user page" where
  "listUsers collate request st =
     (let p = user_listPage collate request (adb st)
      in \<lparr>pitems = map managedUser (pitems p), ptotal = ptotal p, ppage = ppage p, ppageSize = ppageSize p\<rparr>)"

definition createUser ::
  "audit_context \<Rightarrow> create_user_input \<Rightarrow> string \<Rightarrow> string \<Rightarrow> string \<Rightarrow> time \<Rightarrow> auth
     \<Rightarrow> (user_error + managed_user) \<times> auth" where
  "createUser ctx inp i newHash actor now st =
     (let ue = usernameViolations (cu_username inp);
          pe = validatePassword (cu_password inp) (cu_username inp) in
      if ue \<noteq> [] \<or> pe \<noteq> [] then (Inl (UserValidationFailed ue pe), st)
      else let u = new_user inp i newHash now in
        transact (\<lambda>d.
          if user_findByUsername (username u) d \<noteq> None then Inl UsernameTaken
          else (case user_create u d of
              Inl x \<Rightarrow> Inl (UserStoreThrew x)
            | Inr d1 \<Rightarrow>
                (case um_record ctx (user_event ''user.created'' actor (uid u)
                        [(''username'', JStr (username u)), (''role'', JStr (role_text (role u)))]) d1 of
                   Inl x \<Rightarrow> Inl x | Inr d2 \<Rightarrow> Inr (managedUser u, d2)))) st)"

text \<open>\<open>input.role ?? user.role\<close> and \<open>input.isActive ?? user.isActive\<close>.\<close>

definition or_else :: "'a option \<Rightarrow> 'a \<Rightarrow> 'a" where
  "or_else x y = (case x of None \<Rightarrow> y | Some v \<Rightarrow> v)"

text \<open>The writes of a change, once it is allowed: the row, the sessions, the audit entries.\<close>

definition role_status_write ::
  "audit_context \<Rightarrow> audit_context \<Rightarrow> user \<Rightarrow> user_role \<Rightarrow> bool \<Rightarrow> string \<Rightarrow> time \<Rightarrow> db
     \<Rightarrow> user_error + managed_user \<times> db" where
  "role_status_write ctx1 ctx2 u nextRole nextIsActive actor now d =
     (let updated = u\<lparr>role := nextRole, isActive := nextIsActive, updatedAt := now\<rparr> in
      case user_update updated d of
        Inl x \<Rightarrow> Inl (UserStoreThrew x)
      | Inr d1 \<Rightarrow>
          (case (if nextIsActive \<noteq> isActive u
                 then um_record ctx1 (user_event
                        (if nextIsActive then ''user.activated'' else ''user.deactivated'')
                        actor (uid u) [(''username'', JStr (username u))])
                      (if nextIsActive then d1 else session_revokeAllForUser (uid u) now d1)
                 else Inr d1) of
             Inl x \<Rightarrow> Inl x
           | Inr d2 \<Rightarrow>
               (case (if nextRole \<noteq> role u
                      then um_record ctx2 (user_event ''user.role_changed'' actor (uid u)
                             [(''username'', JStr (username u)), (''from'', JStr (role_text (role u))),
                              (''to'', JStr (role_text nextRole))]) d2
                      else Inr d2) of
                  Inl x \<Rightarrow> Inl x | Inr d3 \<Rightarrow> Inr (managedUser updated, d3))))"

definition role_status_tx ::
  "(string \<Rightarrow> string \<Rightarrow> int) \<Rightarrow> audit_context \<Rightarrow> audit_context \<Rightarrow> string \<Rightarrow> user_role option \<Rightarrow> bool option
     \<Rightarrow> string \<Rightarrow> time \<Rightarrow> db \<Rightarrow> user_error + managed_user \<times> db" where
  "role_status_tx collate ctx1 ctx2 target inRole inActive actor now d =
     (case user_findById target d of
        None \<Rightarrow> Inl UserNotFound
      | Some u \<Rightarrow>
          let nextRole = or_else inRole (role u); nextIsActive = or_else inActive (isActive u) in
          (case assertNotLastAdmin (user_list collate d) u nextRole nextIsActive of
             Inl x \<Rightarrow> Inl x
           | Inr _ \<Rightarrow>
               let changedRole = nextRole \<noteq> role u; changedStatus = nextIsActive \<noteq> isActive u in
               if \<not> changedRole \<and> \<not> changedStatus then Inr (managedUser u, d)
               else role_status_write ctx1 ctx2 u nextRole nextIsActive actor now d))"

definition updateUserRoleStatus ::
  "(string \<Rightarrow> string \<Rightarrow> int) \<Rightarrow> audit_context \<Rightarrow> audit_context \<Rightarrow> string \<Rightarrow> user_role option \<Rightarrow> bool option
     \<Rightarrow> string \<Rightarrow> time \<Rightarrow> auth \<Rightarrow> (user_error + managed_user) \<times> auth" where
  "updateUserRoleStatus collate ctx1 ctx2 target inRole inActive actor now st =
     (if inRole = None \<and> inActive = None then (Inl (UserValidationFailed [] []), st)
      else transact (role_status_tx collate ctx1 ctx2 target inRole inActive actor now) st)"

text \<open>\<open>resetPassword\<close>, before and after the new password is hashed.\<close>

definition reset_check :: "string \<Rightarrow> string \<Rightarrow> auth \<Rightarrow> user_error + unit" where
  "reset_check target newPassword st =
     (case user_findById target (adb st) of
        None \<Rightarrow> Inl UserNotFound
      | Some u \<Rightarrow>
          let violations = validatePassword newPassword (username u) in
          if violations \<noteq> [] then Inl (UserValidationFailed [] violations) else Inr ())"

definition reset_commit ::
  "audit_context \<Rightarrow> string \<Rightarrow> string \<Rightarrow> string \<Rightarrow> time \<Rightarrow> auth \<Rightarrow> (user_error + unit) \<times> auth" where
  "reset_commit ctx target newHash actor now st =
     transact (\<lambda>d.
       case user_findById target d of
         None \<Rightarrow> Inl UserNotFound
       | Some current \<Rightarrow>
           (case user_update (current\<lparr>passwordHash := newHash, updatedAt := now\<rparr>) d of
              Inl x \<Rightarrow> Inl (UserStoreThrew x)
            | Inr d1 \<Rightarrow>
                (case um_record ctx (user_event ''user.password_reset'' actor (uid current)
                        [(''username'', JStr (username current))])
                        (session_revokeAllForUser (uid current) now d1) of
                   Inl x \<Rightarrow> Inl x | Inr d2 \<Rightarrow> Inr ((), d2)))) st"

definition resetPassword ::
  "audit_context \<Rightarrow> string \<Rightarrow> string \<Rightarrow> string \<Rightarrow> string \<Rightarrow> time \<Rightarrow> auth \<Rightarrow> (user_error + unit) \<times> auth" where
  "resetPassword ctx target newPassword newHash actor now st =
     (case reset_check target newPassword st of
        Inl x \<Rightarrow> (Inl x, st) | Inr _ \<Rightarrow> reset_commit ctx target newHash actor now st)"

section \<open>The initial administrator\<close>

definition activeAdmin :: "(string \<Rightarrow> string \<Rightarrow> int) \<Rightarrow> db \<Rightarrow> user option" where
  "activeAdmin collate d = find active_admin (user_list collate d)"

definition isInitialized :: "(string \<Rightarrow> string \<Rightarrow> int) \<Rightarrow> auth \<Rightarrow> bool \<times> auth" where
  "isInitialized collate st =
     (case ainitialized st of
        Some b \<Rightarrow> (b, st)
      | None \<Rightarrow> let b = activeAdmin collate (adb st) \<noteq> None in (b, st\<lparr>ainitialized := Some b\<rparr>))"

definition initial_admin_event :: "user \<Rightarrow> audit_draft" where
  "initial_admin_event u =
     \<lparr>daction = ''auth.initial_admin.created'', dactor = Some (uid u), dtargetType = Some ''user'',
      dtargetRef = Some (uid u), dconnection = None,
      ddetails = Some [(''username'', JStr (username u))]\<rparr>"

text \<open>
  The service has an audit writer, or else appends the entry itself, with an id of its own and the
  correlation id of the request.
\<close>

type_synonym initial_writer = "audit_context + string \<times> string option"

definition record_initial_admin :: "initial_writer \<Rightarrow> user \<Rightarrow> db \<Rightarrow> user_error + db" where
  "record_initial_admin w u d =
     (case w of
        Inl ctx \<Rightarrow> um_record ctx (initial_admin_event u) d
      | Inr (i, correlation) \<Rightarrow>
          (case audit_append \<lparr>aid = i, occurredAt = ucreatedAt u, actorUserId = Some (uid u),
               action = ''auth.initial_admin.created'', targetType = Some ''user'', targetRef = Some (uid u),
               connectionId = None, aresult = Success, correlationId = correlation,
               details = Some [(''username'', JStr (username u))]\<rparr> d of
             Inl x \<Rightarrow> Inl (UserStoreThrew x) | Inr d' \<Rightarrow> Inr d'))"

definition createInitialAdmin ::
  "(string \<Rightarrow> string \<Rightarrow> int) \<Rightarrow> initial_writer \<Rightarrow> string \<Rightarrow> string \<Rightarrow> string \<Rightarrow> string \<Rightarrow> time \<Rightarrow> auth
     \<Rightarrow> (user_error + public_user) \<times> auth" where
  "createInitialAdmin collate ctx name password i newHash now st =
     (let ue = usernameViolations name; pe = validatePassword password name in
      if ue \<noteq> [] \<or> pe \<noteq> [] then (Inl (UserValidationFailed ue pe), st)
      else let u = new_user \<lparr>cu_username = name, cu_password = password, cu_role = RoleAdmin\<rparr> i newHash now in
        (case transact (\<lambda>d.
            if activeAdmin collate d \<noteq> None then Inl AlreadyInitialized
            else if user_findByUsername (username u) d \<noteq> None then Inl UsernameTaken
            else (case user_create u d of
                Inl x \<Rightarrow> Inl (UserStoreThrew x)
              | Inr d1 \<Rightarrow>
                  (case record_initial_admin ctx u d1 of
                     Inl x \<Rightarrow> Inl x | Inr d2 \<Rightarrow> Inr (publicUser u, d2)))) st of
           (Inl x, st') \<Rightarrow> (Inl x, st')
         | (Inr p, st') \<Rightarrow> (Inr p, st'\<lparr>ainitialized := Some True\<rparr>)))"

section \<open>Histories\<close>

text \<open>
  Every synchronous stretch of the two services. What a stretch got from an earlier one (a user it
  read, a verification) is an argument: a history may hand it any value, also one that is stale.
\<close>

datatype auth_event =
    EvGate time string string
  | EvDecide audit_context string string "user option" verification
  | EvRehash user string time
  | EvSession audit_context user string string time
  | EvValidate time "string option"
  | EvLogout audit_context time time "string option"
  | EvChangeCheck audit_context user verification string
  | EvChangeCommit audit_context user string string time
  | EvDeleteExpired time
  | EvCreateUser audit_context create_user_input string string string time
  | EvRoleStatus audit_context audit_context string "user_role option" "bool option" string time
  | EvReset audit_context string string string time
  | EvInitialAdmin initial_writer string string string string time
  | EvIsInitialized

fun auth_step ::
  "(string \<Rightarrow> string \<Rightarrow> int) \<Rightarrow> (string \<Rightarrow> string) \<Rightarrow> auth_config \<Rightarrow> auth \<Rightarrow> auth_event \<Rightarrow> auth" where
  "auth_step collate digest cfg st (EvGate now ip n) = snd (login_gate now ip n st)"
| "auth_step collate digest cfg st (EvDecide ctx ip n found v) = snd (login_decide ctx ip n found v st)"
| "auth_step collate digest cfg st (EvRehash u h now) = snd (login_rehash u h now st)"
| "auth_step collate digest cfg st (EvSession ctx u token i now) =
     snd (login_session digest cfg ctx u token i now st)"
| "auth_step collate digest cfg st (EvValidate now token) = snd (validateSession digest cfg now token st)"
| "auth_step collate digest cfg st (EvLogout ctx now revokeTime token) =
     snd (logout digest cfg ctx now revokeTime token st)"
| "auth_step collate digest cfg st (EvChangeCheck ctx u v p) = snd (change_check ctx u v p st)"
| "auth_step collate digest cfg st (EvChangeCommit ctx u keep h now) =
     snd (change_commit ctx u keep h now st)"
| "auth_step collate digest cfg st (EvDeleteExpired now) = snd (deleteExpired cfg now st)"
| "auth_step collate digest cfg st (EvCreateUser ctx inp i h actor now) =
     snd (createUser ctx inp i h actor now st)"
| "auth_step collate digest cfg st (EvRoleStatus c1 c2 target r a actor now) =
     snd (updateUserRoleStatus collate c1 c2 target r a actor now st)"
| "auth_step collate digest cfg st (EvReset ctx target h actor now) =
     snd (reset_commit ctx target h actor now st)"
| "auth_step collate digest cfg st (EvInitialAdmin ctx n p i h now) =
     snd (createInitialAdmin collate ctx n p i h now st)"
| "auth_step collate digest cfg st EvIsInitialized = snd (isInitialized collate st)"

end
