(* ===== verification/AuthInv.thy ===== *)
theory AuthInv
  imports UserManagement
begin

text \<open>
  What every step of login, session and user management keeps: the constraints of the tables, an
  active administrator once there is one, all users, the audit log as a prefix, and the identity
  and revocation of sessions. The steps' effects on the store are one relation, \<open>db_le E\<close>, with the
  sessions \<open>E\<close> that the step creates.
\<close>

section \<open>What a step does to the store\<close>

definition has_admin :: "db \<Rightarrow> bool" where
  "has_admin d \<longleftrightarrow> (\<exists>u \<in> set (users d). active_admin u)"

definition users_kept :: "db \<Rightarrow> db \<Rightarrow> bool" where
  "users_kept d d' \<longleftrightarrow> (\<forall>u \<in> set (users d). \<exists>v \<in> set (users d'). uid v = uid u \<and> username v = username u)"

definition session_le :: "session \<Rightarrow> session \<Rightarrow> bool" where
  "session_le s t \<longleftrightarrow> sid t = sid s \<and> suser t = suser s \<and> tokenHash t = tokenHash s
     \<and> screatedAt t = screatedAt s \<and> expiresAt t = expiresAt s
     \<and> (revokedAt s \<noteq> None \<longrightarrow> revokedAt t = revokedAt s)"

definition db_le :: "session set \<Rightarrow> db \<Rightarrow> db \<Rightarrow> bool" where
  "db_le E d d' \<longleftrightarrow> db_ok d' \<and> (has_admin d \<longrightarrow> has_admin d') \<and> users_kept d d'
     \<and> prefix (audit d) (audit d')
     \<and> (\<forall>t \<in> set (sessions d'). \<exists>s \<in> set (sessions d) \<union> E. session_le s t)"

lemma session_le_refl [simp]: "session_le s s"
  by (simp add: session_le_def)

lemma session_le_trans: "session_le s t \<Longrightarrow> session_le t u \<Longrightarrow> session_le s u"
  by (auto simp: session_le_def)

lemma users_kept_refl [simp]: "users_kept d d"
  by (auto simp: users_kept_def)

lemma users_kept_trans: "users_kept d e \<Longrightarrow> users_kept e f \<Longrightarrow> users_kept d f"
  unfolding users_kept_def by metis

lemma db_le_refl: "db_ok d \<Longrightarrow> db_le E d d"
  by (force simp: db_le_def)

lemma db_le_trans:
  assumes "db_le E d e" "db_le F e f"
  shows "db_le (E \<union> F) d f"
proof -
  have "\<exists>s \<in> set (sessions d) \<union> (E \<union> F). session_le s u" if u: "u \<in> set (sessions f)" for u
  proof -
    obtain t where t: "t \<in> set (sessions e) \<union> F" "session_le t u"
      using assms(2) u by (auto simp: db_le_def)
    show ?thesis
    proof (cases "t \<in> F")
      case True
      then show ?thesis using t by blast
    next
      case False
      then obtain s where "s \<in> set (sessions d) \<union> E" "session_le s t"
        using t assms(1) by (auto simp: db_le_def)
      then show ?thesis using t(2) session_le_trans by blast
    qed
  qed
  then show ?thesis
    using assms users_kept_trans [of d e f] prefix_order.trans [of "audit d" "audit e" "audit f"]
    by (simp add: db_le_def)
qed

lemma db_le_trans0: "db_le {} d e \<Longrightarrow> db_le {} e f \<Longrightarrow> db_le {} d f"
  using db_le_trans [of "{}" d e "{}" f] by simp

lemma db_le_sessions:
  assumes "users d' = users d" "audit d' = audit d" "db_ok d'"
    and "\<forall>t \<in> set (sessions d'). \<exists>s \<in> set (sessions d). session_le s t"
  shows "db_le {} d d'"
  using assms by (auto simp: db_le_def has_admin_def users_kept_def)

lemma session_le_self: "t \<in> S \<Longrightarrow> \<exists>s \<in> S. session_le s t"
  by (rule bexI) simp_all

lemma session_le_map: "(\<And>s. session_le s (f s)) \<Longrightarrow> t \<in> set (map f ss) \<Longrightarrow> \<exists>s \<in> set ss. session_le s t"
  by auto

lemma db_le_revoke:
  assumes "db_ok d"
  shows "db_le {} d (revoke_where c now d)"
proof (rule db_le_sessions)
  show "\<forall>t \<in> set (sessions (revoke_where c now d)). \<exists>s \<in> set (sessions d). session_le s t"
    unfolding revoke_where_def by (auto simp del: set_map intro!: session_le_map) (simp add: session_le_def)
qed (simp_all add: assms)

lemma db_le_touch:
  assumes "db_ok d"
  shows "db_le {} d (session_touch i now d)"
proof (rule db_le_sessions)
  show "\<forall>t \<in> set (sessions (session_touch i now d)). \<exists>s \<in> set (sessions d). session_le s t"
    unfolding session_touch_def by (auto simp del: set_map intro!: session_le_map) (simp add: session_le_def)
qed (simp_all add: assms)

lemma db_le_deleteExpired:
  assumes "db_ok d"
  shows "db_le {} d (fst (session_deleteExpired now idle d))"
proof (rule db_le_sessions)
  show "\<forall>t \<in> set (sessions (fst (session_deleteExpired now idle d))). \<exists>s \<in> set (sessions d). session_le s t"
    by (auto simp: session_deleteExpired_def Let_def intro: session_le_self)
  show "db_ok (fst (session_deleteExpired now idle d))" by (rule session_deleteExpired_ok [OF assms])
qed (simp_all add: session_deleteExpired_def Let_def)

lemma db_le_audit:
  assumes "db_ok d" "audit_record c e r d = Inr d'"
  shows "db_le {} d d'"
  using assms(2)
proof (rule audit_record_Inr)
  fix row
  assume "d' = d\<lparr>audit := audit d @ [row]\<rparr>"
  then show ?thesis
    using audit_record_ok [OF assms]
    by (auto simp: db_le_def has_admin_def users_kept_def intro: session_le_self)
qed

lemma db_le_session_create:
  assumes "db_ok d" "session_create s d = Inr d'"
  shows "db_le {s} d d'"
  using session_create_ok [OF assms] assms(2)
  by (auto simp: session_create_def db_le_def has_admin_def users_kept_def split: if_splits
      intro: session_le_self) (metis session_le_refl)

lemma db_le_user_create:
  assumes "db_ok d" "user_create u d = Inr d'"
  shows "db_le {} d d'"
  using user_create_ok [OF assms] user_create_Inr(1) [OF assms(2)]
  by (auto simp: db_le_def has_admin_def users_kept_def intro: session_le_self)

text \<open>An update of the row that was just read changes that row only.\<close>

lemma user_update_current:
  assumes "db_ok d" "user_findById i d = Some cur" "uid u = uid cur" "username u = username cur"
    and "user_update u d = Inr d'"
  shows "db_ok d'" "users_kept d d'" "sessions d' = sessions d" "audit d' = audit d"
    "\<And>v. v \<in> set (users d) \<Longrightarrow> v \<noteq> cur \<Longrightarrow> v \<in> set (users d')"
    "\<exists>v \<in> set (users d'). uid v = uid cur \<and> passwordHash v = passwordHash u \<and> role v = role u
       \<and> isActive v = isActive u"
proof -
  note U = user_update_Inr(1) [OF assms(5)]
  have cur: "cur \<in> set (users d)" using user_findById_Some [OF assms(2)] by simp
  have only: "v = cur" if "v \<in> set (users d)" "uid v = uid cur" for v
    using assms(1) that cur by (auto simp: db_ok_def distinct_map inj_on_def)
  show "db_ok d'" by (rule user_update_ok [OF assms(1,5)])
  show "sessions d' = sessions d" "audit d' = audit d" by (simp_all add: U)
  have "username (updated_row u v) = username v" if "v \<in> set (users d)" for v
    using only [OF that] assms(3,4) by (auto simp: updated_row_def)
  then show "users_kept d d'" by (auto simp: users_kept_def U)
  show "v \<in> set (users d')" if "v \<in> set (users d)" "v \<noteq> cur" for v
  proof -
    have "updated_row u v = v" using only that assms(3) by (auto simp: updated_row_def)
    then show ?thesis using that by (force simp: U)
  qed
  have "updated_row u cur \<in> set (users d')" using cur by (simp add: U)
  then show "\<exists>v \<in> set (users d'). uid v = uid cur \<and> passwordHash v = passwordHash u \<and> role v = role u
       \<and> isActive v = isActive u"
    using assms(3) by (intro bexI [of _ "updated_row u cur"]) (simp_all add: updated_row_def)
qed

lemma db_le_update:
  assumes "db_ok d" "user_findById i d = Some cur" "uid u = uid cur" "username u = username cur"
    and "user_update u d = Inr d'"
    and "active_admin cur \<Longrightarrow> active_admin u \<or> (\<exists>v \<in> set (users d). v \<noteq> cur \<and> active_admin v)"
  shows "db_le {} d d'"
proof -
  note U = user_update_current [OF assms(1-5)]
  have "has_admin d'" if "has_admin d"
  proof -
    from that obtain v where v: "v \<in> set (users d)" "active_admin v" by (auto simp: has_admin_def)
    show ?thesis
    proof (cases "\<exists>v \<in> set (users d). v \<noteq> cur \<and> active_admin v")
      case True
      then show ?thesis using U(5) by (auto simp: has_admin_def)
    next
      case False
      then have "active_admin cur" using v by (cases "v = cur") auto
      then have "active_admin u" using False assms(6) by blast
      then show ?thesis using U(6) by (auto simp: has_admin_def active_admin_def)
    qed
  qed
  then show ?thesis using U(1-4) by (auto simp: db_le_def intro: session_le_self)
qed

section \<open>Transactions\<close>

lemma transact_adb:
  assumes "\<And>a d'. operation (adb st) = Inr (a, d') \<Longrightarrow> db_le E (adb st) d'" "db_ok (adb st)"
  shows "db_le E (adb st) (adb (snd (transact operation st)))"
  using assms db_le_refl by (auto simp: transact_def split: sum.split)

lemma transact_rest [simp]:
  "alimiter (snd (transact operation st)) = alimiter st"
  "aended (snd (transact operation st)) = aended st"
  "ainitialized (snd (transact operation st)) = ainitialized st"
  by (simp_all add: transact_def split: sum.split prod.split)

lemma transact_fields:
  "transact operation st = (r, st') \<Longrightarrow>
     alimiter st' = alimiter st \<and> aended st' = aended st \<and> ainitialized st' = ainitialized st"
  using transact_rest [of operation st] by simp

lemma db_le_recorded: "db_ok d \<Longrightarrow> recorded c e r d = Inr d' \<Longrightarrow> db_le {} d d'"
  by (auto simp: recorded_def dest: db_le_audit split: sum.splits)

lemma db_le_um_record: "db_ok d \<Longrightarrow> um_record c e d = Inr d' \<Longrightarrow> db_le {} d d'"
  by (auto simp: um_record_def dest: db_le_audit split: sum.splits)

lemma db_le_ok: "db_le E d d' \<Longrightarrow> db_ok d'"
  by (simp add: db_le_def)

section \<open>The steps of \<open>AuthService\<close>\<close>

definition just_audit :: "audit_context \<Rightarrow> audit_draft \<Rightarrow> audit_result \<Rightarrow> db \<Rightarrow> auth_error + unit \<times> db" where
  "just_audit c e r d = (case recorded c e r d of Inl x \<Rightarrow> Inl x | Inr d' \<Rightarrow> Inr ((), d'))"

lemma just_audit_le:
  "db_ok (adb st) \<Longrightarrow> db_le {} (adb st) (adb (snd (transact (just_audit c e r) st)))"
  by (rule transact_adb) (auto simp: just_audit_def dest: db_le_recorded split: sum.splits)

lemma login_decide_le:
  "db_ok (adb st) \<Longrightarrow> db_le {} (adb st) (adb (snd (login_decide ctx ip n found v st)))"
  using just_audit_le [of st ctx "login_failed_event found n" Failure]
  by (auto simp: login_decide_def just_audit_def [abs_def] db_le_refl
      split: option.split sum.split prod.split)

lemma login_rehash_le:
  assumes "db_ok (adb st)"
  shows "db_le {} (adb st) (adb (snd (login_rehash u h now st)))"
  unfolding login_rehash_def
proof (rule transact_adb [OF _ assms])
  fix a d'
  assume "(case user_findById (uid u) (adb st) of None \<Rightarrow> Inr ((), adb st)
     | Some current \<Rightarrow> if \<not> isActive current \<or> passwordHash current \<noteq> passwordHash u then Inr ((), adb st)
         else (case user_update (current\<lparr>passwordHash := h, updatedAt := now\<rparr>) (adb st) of
                 Inl x \<Rightarrow> Inl (StoreThrew x) | Inr d' \<Rightarrow> Inr ((), d'))) = Inr (a, d')"
  then consider "d' = adb st" | current where "user_findById (uid u) (adb st) = Some current"
      "user_update (current\<lparr>passwordHash := h, updatedAt := now\<rparr>) (adb st) = Inr d'"
    by (auto split: option.splits if_splits sum.splits)
  then show "db_le {} (adb st) d'"
  proof cases
    case 1
    then show ?thesis using assms by (simp add: db_le_refl)
  next
    case 2
    show ?thesis by (rule db_le_update [OF assms 2(1) _ _ 2(2)]) (auto simp: active_admin_def)
  qed
qed

lemma login_session_le:
  assumes "db_ok (adb st)"
  shows "db_le {new_session digest cfg u token i now} (adb st)
      (adb (snd (login_session digest cfg ctx u token i now st)))"
  unfolding login_session_def
proof (rule transact_adb [OF _ assms])
  fix a d'
  let ?s = "new_session digest cfg u token i now"
  assume "(case session_create ?s (adb st) of Inl x \<Rightarrow> Inl (StoreThrew x)
     | Inr d1 \<Rightarrow> (case recorded ctx (login_succeeded_event u) Success d1 of
          Inl x \<Rightarrow> Inl x | Inr d2 \<Rightarrow> Inr ((publicUser u, token), d2))) = Inr (a, d')"
  then obtain d1 where d1: "session_create ?s (adb st) = Inr d1"
    and d2: "recorded ctx (login_succeeded_event u) Success d1 = Inr d'"
    by (auto split: sum.splits)
  have "db_le {?s} (adb st) d1" by (rule db_le_session_create [OF assms d1])
  then show "db_le {?s} (adb st) d'"
    using db_le_trans [of "{?s}" "adb st" d1 "{}" d'] db_le_recorded [OF db_le_ok d2] by simp
qed

lemma validateSession_le:
  "db_ok (adb st) \<Longrightarrow> db_le {} (adb st) (adb (snd (validateSession digest cfg now token st)))"
  by (auto simp: validateSession_def notifySessionEnded_def db_le_refl db_le_touch
      split: option.split)

lemma logout_le:
  assumes "db_ok (adb st)"
  shows "db_le {} (adb st) (adb (snd (logout digest cfg ctx now rt token st)))"
proof -
  obtain r st1 where v: "validateSession digest cfg now token st = (r, st1)"
    by (cases "validateSession digest cfg now token st")
  have le1: "db_le {} (adb st) (adb st1)" using validateSession_le [OF assms] v by (metis snd_conv)
  note ok1 = db_le_ok [OF le1]
  show ?thesis
  proof (cases r)
    case (Rejected e)
    then show ?thesis using v le1 by (simp add: logout_def)
  next
    case (Authenticated s u)
    let ?op = "\<lambda>d. case recorded ctx (logout_event s u) Success (session_revoke (sid s) rt d) of
        Inl x \<Rightarrow> Inl x | Inr d' \<Rightarrow> Inr ((), d')"
    have "db_le {} (adb st1) (adb (snd (transact ?op st1)))"
    proof (rule transact_adb [OF _ ok1])
      fix a d'
      assume "?op (adb st1) = Inr (a, d')"
      then have "recorded ctx (logout_event s u) Success (session_revoke (sid s) rt (adb st1)) = Inr d'"
        by (auto split: sum.splits)
      moreover have "db_le {} (adb st1) (session_revoke (sid s) rt (adb st1))"
        unfolding session_revoke_def by (rule db_le_revoke [OF ok1])
      ultimately show "db_le {} (adb st1) d'"
        using db_le_trans0 db_le_recorded db_le_ok by blast
    qed
    then have "db_le {} (adb st) (adb (snd (transact ?op st1)))" using le1 db_le_trans0 by blast
    then show ?thesis
      using v Authenticated
      by (auto simp: logout_def notifySessionEnded_def split: sum.split prod.split)
  qed
qed

lemma change_refused_le:
  "db_ok (adb st) \<Longrightarrow> db_le {} (adb st) (adb (snd (change_refused ctx u reason e st)))"
  using just_audit_le [of st ctx "password_event u [(''reason'', JStr reason)]" Failure]
  by (auto simp: change_refused_def just_audit_def [abs_def] split: sum.split prod.split)

lemma change_check_le:
  "db_ok (adb st) \<Longrightarrow> db_le {} (adb st) (adb (snd (change_check ctx u v p st)))"
  by (simp add: change_check_def change_refused_le db_le_refl Let_def)

lemma change_commit_Inr:
  assumes "db_ok d"
    and "(case user_findById (uid u) d of None \<Rightarrow> Inl AUTH_UNAUTHENTICATED
       | Some current \<Rightarrow>
           if \<not> isActive current then Inl AUTH_UNAUTHENTICATED
           else if passwordHash current \<noteq> passwordHash u then Inl AUTH_INVALID_CREDENTIALS
           else (case user_update (current\<lparr>passwordHash := h, updatedAt := now\<rparr>) d of
               Inl x \<Rightarrow> Inl (StoreThrew x)
             | Inr d1 \<Rightarrow>
                 (case recorded ctx (password_event current [(''username'', JStr (username current))])
                         Success (session_revokeAllForUserExcept (uid current) keep now d1) of
                    Inl x \<Rightarrow> Inl x | Inr d2 \<Rightarrow> Inr ((), d2)))) = Inr (a, d')"
  obtains current d1 where "user_findById (uid u) d = Some current" "isActive current"
    "passwordHash current = passwordHash u"
    "user_update (current\<lparr>passwordHash := h, updatedAt := now\<rparr>) d = Inr d1" "db_le {} d d1"
    "db_le {} (session_revokeAllForUserExcept (uid current) keep now d1) d'"
    "sessions d' = sessions (session_revokeAllForUserExcept (uid current) keep now d1)"
    "users d' = users d1"
proof -
  from assms(2) obtain current d1 where c: "user_findById (uid u) d = Some current" "isActive current"
    "passwordHash current = passwordHash u"
    "user_update (current\<lparr>passwordHash := h, updatedAt := now\<rparr>) d = Inr d1"
    and r: "recorded ctx (password_event current [(''username'', JStr (username current))])
       Success (session_revokeAllForUserExcept (uid current) keep now d1) = Inr d'"
    by (auto split: option.splits if_splits sum.splits)
  have le: "db_le {} d d1"
    by (rule db_le_update [OF assms(1) c(1) _ _ c(4)]) (auto simp: active_admin_def)
  have "db_ok (session_revokeAllForUserExcept (uid current) keep now d1)"
    using db_le_ok [OF le] by (simp add: session_revokeAllForUserExcept_def)
  moreover have "sessions d' = sessions (session_revokeAllForUserExcept (uid current) keep now d1)"
    "users d' = users d1"
    using r unfolding recorded_def
    by (auto simp: session_revokeAllForUserExcept_def split: sum.splits elim!: audit_record_Inr)
  ultimately show thesis using that c le db_le_recorded r by blast
qed

lemma change_commit_le:
  assumes "db_ok (adb st)"
  shows "db_le {} (adb st) (adb (snd (change_commit ctx u keep h now st)))"
  unfolding change_commit_def
proof (rule transact_adb [OF _ assms], elim change_commit_Inr [OF assms])
  fix d' current d1
  assume "db_le {} (adb st) d1" "db_le {} (session_revokeAllForUserExcept (uid current) keep now d1) d'"
  moreover have "db_le {} d1 (session_revokeAllForUserExcept (uid current) keep now d1)"
    unfolding session_revokeAllForUserExcept_def using calculation(1) by (intro db_le_revoke db_le_ok)
  ultimately show "db_le {} (adb st) d'" using db_le_trans0 by blast
qed

lemma fold_notify:
  "adb (fold (\<lambda>u. notifySessionEnded u r) us st) = adb st"
  "ainitialized (fold (\<lambda>u. notifySessionEnded u r) us st) = ainitialized st"
  by (induction us arbitrary: st) (simp_all add: notifySessionEnded_def)

lemma deleteExpired_le:
  "db_ok (adb st) \<Longrightarrow> db_le {} (adb st) (adb (snd (deleteExpired cfg now st)))"
  using db_le_deleteExpired [of "adb st" now "idleTimeoutMinutes cfg"]
  by (auto simp: deleteExpired_def Let_def fold_notify split: prod.split)

section \<open>The steps of user management\<close>

lemma createUser_le:
  assumes "db_ok (adb st)"
  shows "db_le {} (adb st) (adb (snd (createUser ctx inp i h actor now st)))"
proof -
  let ?u = "new_user inp i h now"
  have "db_le {} (adb st) (adb (snd (transact (\<lambda>d.
          if user_findByUsername (username ?u) d \<noteq> None then Inl UsernameTaken
          else (case user_create ?u d of Inl x \<Rightarrow> Inl (UserStoreThrew x)
            | Inr d1 \<Rightarrow> (case um_record ctx (user_event ''user.created'' actor (uid ?u)
                [(''username'', JStr (username ?u)), (''role'', JStr (role_text (role ?u)))]) d1 of
                Inl x \<Rightarrow> Inl x | Inr d2 \<Rightarrow> Inr (managedUser ?u, d2)))) st)))"
  proof (rule transact_adb [OF _ assms])
    fix a d'
    assume "(if user_findByUsername (username ?u) (adb st) \<noteq> None then Inl UsernameTaken
          else (case user_create ?u (adb st) of Inl x \<Rightarrow> Inl (UserStoreThrew x)
            | Inr d1 \<Rightarrow> (case um_record ctx (user_event ''user.created'' actor (uid ?u)
                [(''username'', JStr (username ?u)), (''role'', JStr (role_text (role ?u)))]) d1 of
                Inl x \<Rightarrow> Inl x | Inr d2 \<Rightarrow> Inr (managedUser ?u, d2)))) = Inr (a, d')"
    then obtain d1 e where "user_create ?u (adb st) = Inr d1" "um_record ctx e d1 = Inr d'"
      by (auto split: if_splits sum.splits)
    then show "db_le {} (adb st) d'"
      using db_le_user_create [OF assms] db_le_um_record db_le_ok db_le_trans0 by metis
  qed
  then show ?thesis by (simp add: createUser_def Let_def db_le_refl assms)
qed

lemma role_status_write_Inr:
  assumes "db_ok d" "user_findById target d = Some u"
    and "assertNotLastAdmin (user_list collate d) u r b = Inr ()"
    and "role_status_write c1 c2 u r b actor now d = Inr (a, d')"
  shows "db_le {} d d'" "b \<noteq> isActive u \<Longrightarrow> \<not> b \<Longrightarrow>
      \<forall>s \<in> set (sessions d'). suser s = uid u \<longrightarrow> revokedAt s \<noteq> None"
proof -
  let ?u = "u\<lparr>role := r, isActive := b, updatedAt := now\<rparr>"
  obtain d1 d2 e1 e2 where d1: "user_update ?u d = Inr d1"
    and d2: "(if b \<noteq> isActive u then um_record c1 e1 (if b then d1 else session_revokeAllForUser (uid u) now d1)
              else Inr d1) = Inr d2"
    and d3: "(if r \<noteq> role u then um_record c2 e2 d2 else Inr d2) = Inr d'"
    using assms(4) unfolding role_status_write_def Let_def
    by (auto split: sum.splits simp del: if_split) 
  have le1: "db_le {} d d1"
  proof (rule db_le_update [OF assms(1,2) _ _ d1])
    assume "active_admin u"
    show "active_admin ?u \<or> (\<exists>v \<in> set (users d). v \<noteq> u \<and> active_admin v)"
    proof (cases "r = RoleAdmin \<and> b")
      case False
      then have "filter (\<lambda>v. uid v \<noteq> uid u \<and> role v = RoleAdmin \<and> isActive v) (user_list collate d) \<noteq> []"
        using assms(3) \<open>active_admin u\<close>
        by (auto simp: assertNotLastAdmin_def active_admin_def Let_def split: if_splits)
      then obtain v where "v \<in> set (user_list collate d)" "uid v \<noteq> uid u" "role v = RoleAdmin" "isActive v"
        by (auto simp: filter_empty_conv)
      then show ?thesis by (auto simp: user_list_def active_admin_def)
    qed (simp add: active_admin_def)
  qed simp_all
  note ok1 = db_le_ok [OF le1]
  let ?d1 = "if b \<noteq> isActive u \<and> \<not> b then session_revokeAllForUser (uid u) now d1 else d1"
  have le2: "db_le {} d1 ?d1"
    using ok1 db_le_revoke db_le_refl by (simp add: session_revokeAllForUser_def)
  have le3: "db_le {} ?d1 d2" "sessions d2 = sessions ?d1"
  proof -
    have "um_record c1 e1 ?d1 = Inr d2 \<or> d2 = ?d1" using d2 by (auto split: if_splits)
    then show "db_le {} ?d1 d2" using db_le_um_record db_le_refl db_le_ok [OF le2] by blast
    show "sessions d2 = sessions ?d1"
      using \<open>um_record c1 e1 ?d1 = Inr d2 \<or> d2 = ?d1\<close> unfolding um_record_def
      by (auto split: sum.splits elim!: audit_record_Inr)
  qed
  have le4: "db_le {} d2 d'" "sessions d' = sessions d2"
  proof -
    have "um_record c2 e2 d2 = Inr d' \<or> d' = d2" using d3 by (auto split: if_splits)
    then show "db_le {} d2 d'" using db_le_um_record db_le_refl db_le_ok [OF le3(1)] by blast
    show "sessions d' = sessions d2"
      using \<open>um_record c2 e2 d2 = Inr d' \<or> d' = d2\<close> unfolding um_record_def
      by (auto split: sum.splits elim!: audit_record_Inr)
  qed
  show "db_le {} d d'" using le1 le2 le3(1) le4(1) db_le_trans0 by blast
  show "\<forall>s \<in> set (sessions d'). suser s = uid u \<longrightarrow> revokedAt s \<noteq> None" if "b \<noteq> isActive u" "\<not> b"
    using that le3(2) le4(2) by (auto simp: session_revokeAllForUser_def revoke_where_def)
qed

lemma role_status_le:
  assumes "db_ok d" and "role_status_tx collate c1 c2 target inRole inActive actor now d = Inr (a, d')"
  shows "db_le {} d d'"
proof -
  obtain u where u: "user_findById target d = Some u"
    using assms(2) by (auto simp: role_status_tx_def split: option.splits)
  let ?r = "or_else inRole (role u)" and ?b = "or_else inActive (isActive u)"
  have not_last: "assertNotLastAdmin (user_list collate d) u ?r ?b = Inr ()"
    using assms(2) u by (auto simp: role_status_tx_def Let_def split: sum.splits)
  then consider "d' = d" | "role_status_write c1 c2 u ?r ?b actor now d = Inr (a, d')"
    using assms(2) u by (auto simp: role_status_tx_def Let_def split: if_splits)
  then show ?thesis
    using role_status_write_Inr(1) [OF assms(1) u not_last] db_le_refl assms(1) by cases auto
qed

lemma updateUserRoleStatus_le:
  assumes "db_ok (adb st)"
  shows "db_le {} (adb st) (adb (snd (updateUserRoleStatus collate c1 c2 target r a actor now st)))"
proof -
  have "db_le {} (adb st) (adb (snd (transact (role_status_tx collate c1 c2 target r a actor now) st)))"
    by (rule transact_adb [OF role_status_le [OF assms] assms])
  then show ?thesis by (simp add: updateUserRoleStatus_def db_le_refl assms)
qed

lemma reset_commit_Inr:
  assumes "db_ok d"
    and "(case user_findById target d of None \<Rightarrow> Inl UserNotFound
       | Some current \<Rightarrow>
           (case user_update (current\<lparr>passwordHash := h, updatedAt := now\<rparr>) d of
              Inl x \<Rightarrow> Inl (UserStoreThrew x)
            | Inr d1 \<Rightarrow>
                (case um_record ctx (user_event ''user.password_reset'' actor (uid current)
                        [(''username'', JStr (username current))])
                        (session_revokeAllForUser (uid current) now d1) of
                   Inl x \<Rightarrow> Inl x | Inr d2 \<Rightarrow> Inr ((), d2)))) = Inr (a, d')"
  obtains current d1 where "user_findById target d = Some current"
    "user_update (current\<lparr>passwordHash := h, updatedAt := now\<rparr>) d = Inr d1" "db_le {} d d1"
    "db_le {} (session_revokeAllForUser (uid current) now d1) d'"
    "sessions d' = sessions (session_revokeAllForUser (uid current) now d1)" "users d' = users d1"
proof -
  from assms(2) obtain current d1 where c: "user_findById target d = Some current"
    "user_update (current\<lparr>passwordHash := h, updatedAt := now\<rparr>) d = Inr d1"
    and r: "um_record ctx (user_event ''user.password_reset'' actor (uid current)
        [(''username'', JStr (username current))]) (session_revokeAllForUser (uid current) now d1) = Inr d'"
    by (auto split: option.splits sum.splits)
  have le: "db_le {} d d1"
    by (rule db_le_update [OF assms(1) c(1) _ _ c(2)]) (auto simp: active_admin_def)
  have "db_ok (session_revokeAllForUser (uid current) now d1)"
    using db_le_ok [OF le] by (simp add: session_revokeAllForUser_def)
  moreover have "sessions d' = sessions (session_revokeAllForUser (uid current) now d1)" "users d' = users d1"
    using r unfolding um_record_def
    by (auto simp: session_revokeAllForUser_def split: sum.splits elim!: audit_record_Inr)
  ultimately show thesis using that c le db_le_um_record r by blast
qed

lemma reset_commit_le:
  assumes "db_ok (adb st)"
  shows "db_le {} (adb st) (adb (snd (reset_commit ctx target h actor now st)))"
  unfolding reset_commit_def
proof (rule transact_adb [OF _ assms], elim reset_commit_Inr [OF assms])
  fix d' current d1
  assume "db_le {} (adb st) d1" "db_le {} (session_revokeAllForUser (uid current) now d1) d'"
  moreover have "db_le {} d1 (session_revokeAllForUser (uid current) now d1)"
    unfolding session_revokeAllForUser_def using calculation(1) by (intro db_le_revoke db_le_ok)
  ultimately show "db_le {} (adb st) d'" using db_le_trans0 by blast
qed

lemma record_initial_admin_Inr:
  assumes "db_ok d" "record_initial_admin w u d = Inr d'"
  shows "db_le {} d d'" "users d' = users d"
proof -
  have append: "db_le {} d d' \<and> users d' = users d" if "audit_append e d = Inr d'" for e
  proof -
    have d': "d' = d\<lparr>audit := audit d @ [e]\<rparr>" "aid e \<notin> aid ` set (audit d)"
      using that by (auto simp: audit_append_def split: if_splits)
    then have "db_ok d'" using assms(1) by (simp add: db_ok_def)
    then show ?thesis by (auto simp: d'(1) db_le_def has_admin_def users_kept_def intro: session_le_self)
  qed
  have "db_le {} d d' \<and> users d' = users d"
  proof (cases w)
    case (Inl c)
    then have r: "um_record c (initial_admin_event u) d = Inr d'" using assms(2) by (simp add: record_initial_admin_def)
    moreover have "users d' = users d" using r unfolding um_record_def by (auto split: sum.splits elim!: audit_record_Inr)
    ultimately show ?thesis using db_le_um_record [OF assms(1)] by blast
  qed (use assms(2) append in \<open>auto simp: record_initial_admin_def split: prod.splits sum.splits\<close>)
  then show "db_le {} d d'" "users d' = users d" by auto
qed

definition initial_admin_tx ::
  "(string \<Rightarrow> string \<Rightarrow> int) \<Rightarrow> initial_writer \<Rightarrow> user \<Rightarrow> db \<Rightarrow> user_error + public_user \<times> db" where
  "initial_admin_tx collate ctx u d =
     (if activeAdmin collate d \<noteq> None then Inl AlreadyInitialized
      else if user_findByUsername (username u) d \<noteq> None then Inl UsernameTaken
      else (case user_create u d of Inl x \<Rightarrow> Inl (UserStoreThrew x)
        | Inr d1 \<Rightarrow> (case record_initial_admin ctx u d1 of
            Inl x \<Rightarrow> Inl x | Inr d2 \<Rightarrow> Inr (publicUser u, d2))))"

lemma initial_admin_tx_Inr:
  assumes "db_ok d" "initial_admin_tx collate ctx u d = Inr (a, d')"
  shows "db_le {} d d'" "u \<in> set (users d')" "activeAdmin collate d = None" "a = publicUser u"
proof -
  from assms(2) obtain d1 where d1: "user_create u d = Inr d1"
    and d2: "record_initial_admin ctx u d1 = Inr d'"
    by (auto simp: initial_admin_tx_def split: if_splits sum.splits)
  show "db_le {} d d'"
    using db_le_user_create [OF assms(1) d1] record_initial_admin_Inr(1) d2 db_le_ok db_le_trans0 by blast
  have "users d' = users d1"
    using record_initial_admin_Inr(2) [OF db_le_ok d2] db_le_user_create [OF assms(1) d1] by blast
  then show "u \<in> set (users d')" using user_create_Inr(1) [OF d1] by simp
  show "activeAdmin collate d = None" "a = publicUser u"
    using assms(2) by (auto simp: initial_admin_tx_def split: if_splits sum.splits)
qed

lemma createInitialAdmin_tx:
  "createInitialAdmin collate ctx n p i h now st =
     (if usernameViolations n \<noteq> [] \<or> validatePassword p n \<noteq> []
      then (Inl (UserValidationFailed (usernameViolations n) (validatePassword p n)), st)
      else (case transact (initial_admin_tx collate ctx
              (new_user \<lparr>cu_username = n, cu_password = p, cu_role = RoleAdmin\<rparr> i h now)) st of
         (Inl x, st') \<Rightarrow> (Inl x, st') | (Inr p, st') \<Rightarrow> (Inr p, st'\<lparr>ainitialized := Some True\<rparr>)))"
  by (simp add: createInitialAdmin_def Let_def initial_admin_tx_def [abs_def])

lemma createInitialAdmin_le:
  assumes "db_ok (adb st)"
  shows "db_le {} (adb st) (adb (snd (createInitialAdmin collate ctx n p i h now st)))"
proof -
  let ?u = "new_user \<lparr>cu_username = n, cu_password = p, cu_role = RoleAdmin\<rparr> i h now"
  have "db_le {} (adb st) (adb (snd (transact (initial_admin_tx collate ctx ?u) st)))"
    by (rule transact_adb [OF initial_admin_tx_Inr(1) [OF assms] assms])
  then show ?thesis
    by (auto simp: createInitialAdmin_tx db_le_refl assms split: sum.split prod.split)
qed

section \<open>Every step\<close>

text \<open>The sessions that an event may create.\<close>

fun issued :: "(string \<Rightarrow> string) \<Rightarrow> auth_config \<Rightarrow> auth_event \<Rightarrow> session set" where
  "issued digest cfg (EvSession ctx u token i now) = {new_session digest cfg u token i now}"
| "issued digest cfg _ = {}"

lemma auth_step_le:
  "db_ok (adb st) \<Longrightarrow> db_le (issued digest cfg ev) (adb st) (adb (auth_step collate digest cfg st ev))"
proof (cases ev)
  case (EvGate now ip n)
  assume "db_ok (adb st)"
  then show ?thesis
    using EvGate by (simp add: login_gate_def Let_def db_le_refl split: prod.split)
next
  case EvIsInitialized
  assume "db_ok (adb st)"
  then show ?thesis
    using EvIsInitialized by (simp add: isInitialized_def Let_def db_le_refl split: option.split)
qed (simp_all add: login_decide_le login_rehash_le login_session_le validateSession_le logout_le
    change_check_le change_commit_le deleteExpired_le createUser_le updateUserRoleStatus_le
    reset_commit_le createInitialAdmin_le)

text \<open>What is cached about the claim of the instance is true.\<close>

definition auth_inv :: "auth \<Rightarrow> bool" where
  "auth_inv st \<longleftrightarrow> db_ok (adb st) \<and> (ainitialized st = Some True \<longrightarrow> has_admin (adb st))"

lemma activeAdmin_has: "activeAdmin collate d \<noteq> None \<longleftrightarrow> has_admin d"
  by (auto simp: activeAdmin_def find_None_iff user_list_def has_admin_def)

lemma notify_cache [simp]: "ainitialized (notifySessionEnded u r st) = ainitialized st"
  by (simp add: notifySessionEnded_def)

lemma cache_kept:
  assumes "\<And>ctx n p i h now. ev \<noteq> EvInitialAdmin ctx n p i h now"
  shows "ainitialized (auth_step collate digest cfg st ev) = ainitialized st
    \<or> ainitialized (auth_step collate digest cfg st ev) = Some (has_admin (adb st))
        \<and> adb (auth_step collate digest cfg st ev) = adb st"
proof (cases ev)
  case (EvLogout ctx now rt token)
  have "ainitialized (snd (validateSession digest cfg now token st)) = ainitialized st"
    by (simp add: validateSession_def split: option.split)
  then show ?thesis
    using EvLogout
    by (auto simp: logout_def dest!: transact_fields split: prod.split sum.split session_validation.split)
qed (use assms activeAdmin_has [of collate "adb st"] in \<open>auto simp: login_gate_def login_decide_def login_rehash_def login_session_def
    validateSession_def change_check_def change_refused_def change_commit_def deleteExpired_def
    createUser_def Let_def updateUserRoleStatus_def reset_commit_def isInitialized_def
    fold_notify dest!: transact_fields split: prod.split option.split sum.split\<close>)

lemma auth_step_inv:
  assumes "auth_inv st"
  shows "auth_inv (auth_step collate digest cfg st ev)"
proof -
  let ?st = "auth_step collate digest cfg st ev"
  have le: "db_le (issued digest cfg ev) (adb st) (adb ?st)"
    using assms by (intro auth_step_le) (simp add: auth_inv_def)
  have "has_admin (adb ?st)" if cached: "ainitialized ?st = Some True"
  proof (cases "\<exists>ctx n p i h now. ev = EvInitialAdmin ctx n p i h now")
    case False
    then show ?thesis
      using cache_kept [of ev collate digest cfg st] cached assms le
      by (auto simp: auth_inv_def db_le_def)
  next
    case True
    then obtain ctx n p i h now where ev: "ev = EvInitialAdmin ctx n p i h now" by blast
    let ?u = "new_user \<lparr>cu_username = n, cu_password = p, cu_role = RoleAdmin\<rparr> i h now"
    have "ainitialized ?st = ainitialized st
        \<or> (\<exists>a. initial_admin_tx collate ctx ?u (adb st) = Inr (a, adb ?st))"
      using ev by (cases "initial_admin_tx collate ctx ?u (adb st)")
        (auto simp: createInitialAdmin_tx transact_def)
    then consider "ainitialized ?st = ainitialized st"
      | a where "initial_admin_tx collate ctx ?u (adb st) = Inr (a, adb ?st)"
      by blast
    then show ?thesis
    proof cases
      case 1
      then show ?thesis using cached assms le by (auto simp: auth_inv_def db_le_def)
    next
      case 2
      then have "?u \<in> set (users (adb ?st))"
        using initial_admin_tx_Inr(2) assms by (auto simp: auth_inv_def)
      then show ?thesis
        unfolding has_admin_def by (rule bexI [rotated]) (simp add: new_user_def active_admin_def)
    qed
  qed
  then show ?thesis using le by (simp add: auth_inv_def db_le_def)
qed

interpretation auth: handler_invariant "auth_step collate digest cfg" auth_inv for collate digest cfg
  by unfold_locales (rule auth_step_inv)

text \<open>What never goes back, whatever happens: administration, users, the audit log.\<close>

definition auth_le :: "auth \<Rightarrow> auth \<Rightarrow> bool" where
  "auth_le st st' \<longleftrightarrow> (has_admin (adb st) \<longrightarrow> has_admin (adb st')) \<and> users_kept (adb st) (adb st')
     \<and> prefix (audit (adb st)) (audit (adb st'))"

interpretation auth_order: handler_order "auth_step collate digest cfg" auth_inv auth_le
  for collate digest cfg
proof
  show "auth_le s (auth_step collate digest cfg s e)" if "auth_inv s" for s e
    using auth_step_le [of s digest cfg e collate] that by (simp add: auth_inv_def auth_le_def db_le_def)
  show "auth_le s s" for s by (simp add: auth_le_def)
  show "auth_le s t \<Longrightarrow> auth_le t u \<Longrightarrow> auth_le s u" for s t u
    using users_kept_trans prefix_order.trans by (auto simp: auth_le_def)
qed

section \<open>Tokens\<close>

text \<open>No session with the digest \<open>h\<close> is open; only a new session can change that.\<close>

definition closed_token :: "string \<Rightarrow> db \<Rightarrow> bool" where
  "closed_token h d \<longleftrightarrow> (\<forall>s \<in> set (sessions d). tokenHash s = h \<longrightarrow> revokedAt s \<noteq> None)"

lemma closed_token_le:
  assumes "db_le E d d'" "closed_token h d" "\<And>s. s \<in> E \<Longrightarrow> tokenHash s \<noteq> h"
  shows "closed_token h d'"
  using assms unfolding db_le_def closed_token_def session_le_def by fastforce

lemma closed_token_run:
  assumes "auth_inv st" "closed_token h (adb st)"
    and "\<And>ev s. ev \<in> set es \<Longrightarrow> s \<in> issued digest cfg ev \<Longrightarrow> tokenHash s \<noteq> h"
  shows "closed_token h (adb (foldl (auth_step collate digest cfg) st es))"
  using assms
proof (induction es arbitrary: st)
  case Nil
  then show ?case by simp
next
  case (Cons ev es)
  have "closed_token h (adb (auth_step collate digest cfg st ev))"
    using Cons.prems
    by (intro closed_token_le [OF auth_step_le [of st digest cfg ev collate]]) (auto simp: auth_inv_def)
  moreover have "auth_inv (auth_step collate digest cfg st ev)" by (rule auth_step_inv [OF Cons.prems(1)])
  moreover have "tokenHash s \<noteq> h" if "e \<in> set es" "s \<in> issued digest cfg e" for e s
    using Cons.prems(3) [of e s] that by simp
  ultimately show ?case using Cons.IH [of "auth_step collate digest cfg st ev"] by simp
qed

lemma closed_token_rejected:
  assumes "closed_token (digest t) (adb st)"
  shows "validateSession digest cfg now (Some t) st = (Rejected AUTH_UNAUTHENTICATED, st)"
  using assms session_find_Some [of "digest t" "adb st"]
  by (auto simp: validateSession_def closed_token_def split: option.split)

end
