(* ===== verification/AuthProps.thy ===== *)
theory AuthProps
  imports AuthInv
begin

text \<open>
  The properties of authentication and user management (\<open>packages/auth/src\<close>), each about a single
  call or about every history of calls: administration is never lost, sessions end when they should
  and stay ended, login tells nothing about which part was wrong, the cleanup agrees with the
  validation.
\<close>

section \<open>Administration\<close>

text \<open>Claim C2: Administration is never lost: once a store has an active administrator, every
  history of logins, password changes, user management and setup calls leaves it with one; and once
  the instance is claimed, every later attempt to create the initial administrator is refused.\<close>

theorem admin_never_lost:
  assumes "auth_inv st" "has_admin (adb st)"
  shows "has_admin (adb (foldl (auth_step collate digest cfg) st es))
    \<and> fst (createInitialAdmin collate ctx n p i h now (foldl (auth_step collate digest cfg) st es)) \<in> range Inl"
proof -
  let ?st = "foldl (auth_step collate digest cfg) st es"
  have admin: "has_admin (adb ?st)"
    using auth_order.run_le [OF assms(1), of collate digest cfg es] assms(2) by (simp add: auth_le_def)
  then have "initial_admin_tx collate ctx u (adb ?st) = Inl AlreadyInitialized" for u
    using activeAdmin_has [of collate "adb ?st"] by (simp add: initial_admin_tx_def)
  then have "fst (createInitialAdmin collate ctx n p i h now ?st) \<in> range Inl"
    by (simp add: createInitialAdmin_tx transact_def)
  then show ?thesis using admin by blast
qed

text \<open>A store with one administrator and one user, for the witnesses.\<close>

definition root :: user where
  "root = \<lparr>uid = ''r'', username = ''root'', passwordHash = ''h0'', role = RoleAdmin, isActive = True,
     ucreatedAt = 0, updatedAt = 0\<rparr>"

definition ann :: user where
  "ann = \<lparr>uid = ''a'', username = ''ann'', passwordHash = ''h1'', role = RoleUser, isActive = True,
     ucreatedAt = 1, updatedAt = 1\<rparr>"

definition demo_limiter :: limiter where
  "demo_limiter = \<lparr>limit = 5, windowMs = 60000, buckets = []\<rparr>"

definition demo_config :: auth_config where
  "demo_config = \<lparr>idleTimeoutMinutes = 720, absoluteTimeoutHours = 168, touchIntervalMs = 60000\<rparr>"

definition ann_session :: session where
  "ann_session = \<lparr>sid = ''s1'', suser = ''a'', tokenHash = ''t1'', screatedAt = 10, expiresAt = 604800010,
     lastSeenAt = Some 10, revokedAt = None\<rparr>"

definition demo_auth :: auth where
  "demo_auth = \<lparr>adb = \<lparr>users = [root, ann], sessions = [ann_session], audit = []\<rparr>,
     alimiter = demo_limiter, aended = [], ainitialized = None\<rparr>"

definition no_collate :: "string \<Rightarrow> string \<Rightarrow> int" where
  "no_collate a b = int (length a) - int (length b)"

lemma demo_inv: "auth_inv demo_auth"
  by (simp add: auth_inv_def demo_auth_def db_ok_def root_def ann_def ann_session_def)

lemma demo_admin: "has_admin (adb demo_auth)"
  by (simp add: has_admin_def demo_auth_def active_admin_def root_def)

lemmas auth_eval = demo_auth_def demo_config_def demo_limiter_def root_def ann_def ann_session_def
  transact_def user_findById_def user_findByUsername_def session_findByTokenHash_def
  no_collate_def plain_context_def Let_def

theorem admin_never_lost_witness:
  "has_admin (adb (foldl (auth_step no_collate id demo_config) demo_auth
     [EvRoleStatus (plain_context 5 ''x'') (plain_context 5 ''y'') ''r'' (Some RoleUser) None ''r'' 5]))"
  using admin_never_lost [OF demo_inv demo_admin] by blast

text \<open>
  The last administrator cannot be demoted or deactivated: in a store with exactly
  one active administrator a request that would take the role or the activity from that user is
  answered with \<open>LAST_ADMIN\<close> and changes nothing.\<close>

theorem last_admin_protected:
  assumes "db_ok (adb st)" "filter active_admin (users (adb st)) = [u]"
    and "or_else inRole (role u) = RoleUser \<or> \<not> or_else inActive (isActive u)"
  shows "updateUserRoleStatus collate c1 c2 (uid u) inRole inActive actor now st = (Inl LastAdmin, st)"
proof -
  have one: "{v \<in> set (users (adb st)). active_admin v} = {u}"
    using assms(2) by (metis empty_set list.simps(15) set_filter)
  then have u: "u \<in> set (users (adb st))" "active_admin u" by blast+
  then have find: "user_findById (uid u) (adb st) = Some u" using user_findById_in assms(1) by blast
  have "v = u" if "v \<in> set (users (adb st))" "active_admin v" for v
    using one that by blast
  then have others: "filter (\<lambda>v. uid v \<noteq> uid u \<and> role v = RoleAdmin \<and> isActive v) (user_list collate (adb st)) = []"
    by (auto simp: filter_empty_conv user_list_def active_admin_def)
  have "assertNotLastAdmin (user_list collate (adb st)) u (or_else inRole (role u)) (or_else inActive (isActive u))
      = Inl LastAdmin"
    using u(2) others assms(3) by (auto simp: assertNotLastAdmin_def active_admin_def Let_def)
  moreover have "\<not> (inRole = None \<and> inActive = None)"
    using assms(3) u(2) by (auto simp: or_else_def active_admin_def)
  ultimately show ?thesis
    by (simp add: updateUserRoleStatus_def role_status_tx_def transact_def find Let_def)
qed

theorem last_admin_protected_witness:
  "updateUserRoleStatus no_collate (plain_context 5 ''x'') (plain_context 5 ''y'') ''r'' None (Some False) ''r'' 5 demo_auth = (Inl LastAdmin, demo_auth)"
proof -
  have "db_ok (adb demo_auth)" using demo_inv by (simp add: auth_inv_def)
  moreover have "filter active_admin (users (adb demo_auth)) = [root]"
    by (simp add: demo_auth_def active_admin_def root_def ann_def)
  moreover have "or_else None (role root) = RoleUser \<or> \<not> or_else (Some False) (isActive root)"
    by (simp add: or_else_def)
  ultimately have "updateUserRoleStatus no_collate (plain_context 5 ''x'') (plain_context 5 ''y'') (uid root) None (Some False) ''r'' 5 demo_auth
      = (Inl LastAdmin, demo_auth)"
    by (rule last_admin_protected)
  then show ?thesis by (simp add: root_def)
qed

section \<open>Sessions\<close>

text \<open>A session token that is revoked stays worthless: if no session with the token's
  digest is open, then after any history in which no login issues that digest again the token is
  rejected, and the attempt changes nothing.\<close>

theorem revoked_token_stays_rejected:
  assumes "auth_inv st" "closed_token (digest t) (adb st)"
    and "\<forall>ev \<in> set es. \<forall>s \<in> issued digest cfg ev. tokenHash s \<noteq> digest t"
    and "st' = foldl (auth_step collate digest cfg) st es"
  shows "validateSession digest cfg now (Some t) st' = (Rejected AUTH_UNAUTHENTICATED, st')"
  using closed_token_run [OF assms(1,2), where es = es and cfg = cfg and collate = collate] assms(3,4)
  by (intro closed_token_rejected) auto

theorem revoked_token_stays_rejected_witness:
  "\<exists>st'. st' = foldl (auth_step no_collate id demo_config) (demo_auth\<lparr>adb := session_revoke ''s1'' 20 (adb demo_auth)\<rparr>)
       [EvValidate 30 (Some ''t1''), EvDeleteExpired 40]
     \<and> validateSession id demo_config 50 (Some ''t1'') st' = (Rejected AUTH_UNAUTHENTICATED, st')"
proof -
  let ?st = "demo_auth\<lparr>adb := session_revoke ''s1'' 20 (adb demo_auth)\<rparr>"
  have 1: "auth_inv ?st"
    using demo_inv by (simp add: auth_inv_def session_revoke_def demo_auth_def)
  have 2: "closed_token (id ''t1'') (adb ?st)"
    by (simp add: closed_token_def session_revoke_def revoke_where_def auth_eval)
  have 3: "\<forall>ev \<in> set [EvValidate 30 (Some ''t1''), EvDeleteExpired 40].
      \<forall>s \<in> issued id demo_config ev. tokenHash s \<noteq> id ''t1''"
    by simp
  show ?thesis
    by (intro exI conjI, rule refl) (rule revoked_token_stays_rejected [OF 1 2 3 refl])
qed

text \<open>Deactivating a user or resetting the user's password ends every session of the user
  at once: right after the call no open session belongs to the user.\<close>

theorem reset_and_deactivation_end_sessions:
  assumes "db_ok (adb st)"
    and "(\<exists>inRole. updateUserRoleStatus collate c1 c2 i inRole (Some False) actor now st = (Inr r, st')
           \<and> user_findById i (adb st) = Some u \<and> isActive u)
       \<or> reset_commit ctx i h actor now st = (Inr (), st')"
  shows "\<forall>s \<in> set (sessions (adb st')). suser s = i \<longrightarrow> revokedAt s \<noteq> None"
  using assms(2)
proof
  assume "\<exists>inRole. updateUserRoleStatus collate c1 c2 i inRole (Some False) actor now st = (Inr r, st')
           \<and> user_findById i (adb st) = Some u \<and> isActive u"
  then obtain inRole where call: "updateUserRoleStatus collate c1 c2 i inRole (Some False) actor now st = (Inr r, st')"
    and u: "user_findById i (adb st) = Some u" "isActive u" by blast
  let ?r = "or_else inRole (role u)"
  have tx: "role_status_tx collate c1 c2 i inRole (Some False) actor now (adb st) = Inr (r, adb st')"
    using call by (auto simp: updateUserRoleStatus_def transact_def split: sum.splits)
  then have last: "assertNotLastAdmin (user_list collate (adb st)) u ?r False = Inr ()"
    and "role_status_write c1 c2 u ?r False actor now (adb st) = Inr (r, adb st')"
    using u by (auto simp: role_status_tx_def or_else_def Let_def split: sum.splits)
  from role_status_write_Inr(2) [OF assms(1) u(1) this] show ?thesis
    using u user_findById_Some [OF u(1)] by simp
next
  assume "reset_commit ctx i h actor now st = (Inr (), st')"
  then obtain a where "(case user_findById i (adb st) of None \<Rightarrow> Inl UserNotFound
       | Some current \<Rightarrow>
           (case user_update (current\<lparr>passwordHash := h, updatedAt := now\<rparr>) (adb st) of
              Inl x \<Rightarrow> Inl (UserStoreThrew x)
            | Inr d1 \<Rightarrow>
                (case um_record ctx (user_event ''user.password_reset'' actor (uid current)
                        [(''username'', JStr (username current))])
                        (session_revokeAllForUser (uid current) now d1) of
                   Inl x \<Rightarrow> Inl x | Inr d2 \<Rightarrow> Inr ((), d2)))) = Inr (a, adb st')"
    unfolding reset_commit_def transact_def by (auto split: sum.splits)
  then show ?thesis
  proof (rule reset_commit_Inr [OF assms(1)])
    fix current d1
    assume cur: "user_findById i (adb st) = Some current"
      and ss: "sessions (adb st') = sessions (session_revokeAllForUser (uid current) now d1)"
    have "uid current = i" using user_findById_Some [OF cur] by simp
    then show ?thesis unfolding ss session_revokeAllForUser_def revoke_where_def by auto
  qed
qed

theorem reset_and_deactivation_end_sessions_witness:
  "\<exists>st'. reset_commit (plain_context 5 ''x'') ''a'' ''h2'' ''r'' 5 demo_auth = (Inr (), st')
     \<and> sessions (adb st') \<noteq> [] \<and> (\<forall>s \<in> set (sessions (adb st')). suser s = ''a'' \<longrightarrow> revokedAt s \<noteq> None)"
proof -
  have "fst (reset_commit (plain_context 5 ''x'') ''a'' ''h2'' ''r'' 5 demo_auth) = Inr ()
      \<and> sessions (adb (snd (reset_commit (plain_context 5 ''x'') ''a'' ''h2'' ''r'' 5 demo_auth))) \<noteq> []"
    by code_simp
  then have "\<exists>st'. reset_commit (plain_context 5 ''x'') ''a'' ''h2'' ''r'' 5 demo_auth = (Inr (), st')
      \<and> sessions (adb st') \<noteq> []"
    by (metis prod.collapse)
  then obtain st' where st': "reset_commit (plain_context 5 ''x'') ''a'' ''h2'' ''r'' 5 demo_auth = (Inr (), st')"
    "sessions (adb st') \<noteq> []" by blast
  have "db_ok (adb demo_auth)" using demo_inv by (simp add: auth_inv_def)
  from reset_and_deactivation_end_sessions [OF this disjI2, OF st'(1)] st' show ?thesis by blast
qed

text \<open>Claim C21: An accepted session is alive: a token is only accepted while its session is open,
  before the absolute deadline that was fixed at login, within the idle time since it was last
  seen, and for an active user, who is the one reported; and a validation changes nothing but the
  time at which that session was last seen.\<close>

theorem accepted_sessions_are_alive:
  assumes "auth_inv st" "validateSession digest cfg now (Some t) st = (Authenticated s p, st')"
  shows "\<exists>s0 u. s0 \<in> set (sessions (adb st)) \<and> tokenHash s0 = digest t \<and> revokedAt s0 = None
      \<and> now < expiresAt s0 \<and> now < idleDeadline s0 (idleTimeoutMinutes cfg)
      \<and> u \<in> set (users (adb st)) \<and> uid u = suser s0 \<and> isActive u \<and> p = publicUser u
      \<and> (s = s0 \<and> st' = st \<or> s = s0\<lparr>lastSeenAt := Some now\<rparr> \<and> st' = st\<lparr>adb := session_touch (sid s0) now (adb st)\<rparr>)"
proof -
  from assms(2) obtain s0 u where "session_findByTokenHash (digest t) (adb st) = Some s0"
    "revokedAt s0 = None" "\<not> isExpired s0 now (idleTimeoutMinutes cfg)"
    "user_findById (suser s0) (adb st) = Some u" "isActive u" "p = publicUser u"
    "s = s0 \<and> st' = st \<or> s = s0\<lparr>lastSeenAt := Some now\<rparr> \<and> st' = st\<lparr>adb := session_touch (sid s0) now (adb st)\<rparr>"
    by (auto simp: validateSession_def split: option.splits if_splits)
  then show ?thesis
    using session_find_Some user_findById_Some
    by (intro exI [of _ s0] exI [of _ u]) (auto simp: isExpired_def absoluteDeadline_def not_le)
qed

theorem accepted_sessions_are_alive_witness:
  "\<exists>s p st'. validateSession id demo_config 100 (Some ''t1'') demo_auth = (Authenticated s p, st')
     \<and> 100 < expiresAt s \<and> p = publicUser ann"
proof -
  have "\<exists>s p st'. validateSession id demo_config 100 (Some ''t1'') demo_auth = (Authenticated s p, st')"
    by (simp add: validateSession_def auth_eval isExpired_def absoluteDeadline_def idleDeadline_def)
  then obtain s p st' where v: "validateSession id demo_config 100 (Some ''t1'') demo_auth = (Authenticated s p, st')"
    by blast
  from accepted_sessions_are_alive [OF demo_inv v] v show ?thesis
    by (auto simp: demo_auth_def ann_session_def publicUser_def ann_def root_def)
qed

text \<open>The cleanup agrees with the validation: \<open>deleteExpired\<close> removes exactly the sessions
  that a validation at that time would call expired, counts them, and reports the end of each of
  their users' sessions once.\<close>

theorem cleanup_agrees_with_validation:
  assumes "auth_inv st" "0 < idleTimeoutMinutes cfg"
  shows "case deleteExpired cfg now st of (n, st') \<Rightarrow>
      sessions (adb st') = filter (\<lambda>s. \<not> isExpired s now (idleTimeoutMinutes cfg)) (sessions (adb st))
      \<and> n = length (filter (\<lambda>s. isExpired s now (idleTimeoutMinutes cfg)) (sessions (adb st)))
      \<and> users (adb st') = users (adb st)"
proof -
  let ?idle = "idleTimeoutMinutes cfg"
  let ?ss = "sessions (adb st)"
  have expired: "session_listExpired now ?idle (adb st) = filter (\<lambda>s. isExpired s now ?idle) ?ss"
    unfolding session_listExpired_def
  proof (rule filter_cong [OF refl])
    fix s
    show "(expiresAt s \<le> now \<or> 0 < ?idle
        \<and> (case lastSeenAt s of None \<Rightarrow> screatedAt s | Some t \<Rightarrow> t) \<le> now - ?idle * 60000)
        = isExpired s now ?idle"
      using assms(2) by (auto simp: isExpired_def absoluteDeadline_def idleDeadline_def split: option.split)
  qed
  have inj: "inj_on sid (set ?ss)"
    using assms(1) by (simp add: auth_inv_def db_ok_def distinct_map)
  have keep: "filter (\<lambda>s. sid s \<notin> set (map sid (filter (\<lambda>s. isExpired s now ?idle) ?ss))) ?ss
      = filter (\<lambda>s. \<not> isExpired s now ?idle) ?ss"
    by (rule filter_cong [OF refl]) (use inj in \<open>auto simp: inj_on_def\<close>)
  have n: "length ?ss - length (filter (\<lambda>s. \<not> isExpired s now ?idle) ?ss)
      = length (filter (\<lambda>s. isExpired s now ?idle) ?ss)"
    using sum_length_filter_compl [of "\<lambda>s. isExpired s now ?idle" ?ss] by linarith
  have all: "filter (\<lambda>s. \<not> isExpired s now ?idle) ?ss = ?ss"
    if "filter (\<lambda>s. isExpired s now ?idle) ?ss = []"
    using that by (simp add: filter_empty_conv)
  show ?thesis
    using all n
    by (auto simp: deleteExpired_def session_deleteExpired_def expired keep Let_def fold_notify
        simp del: set_map)
qed

theorem cleanup_agrees_with_validation_witness:
  "\<exists>st'. deleteExpired demo_config 43200010 demo_auth = (1, st') \<and> sessions (adb st') = []"
proof -
  have "0 < idleTimeoutMinutes demo_config" by (simp add: demo_config_def)
  from cleanup_agrees_with_validation [OF demo_inv this, of 43200010] show ?thesis
    by (auto simp: auth_eval isExpired_def absoluteDeadline_def idleDeadline_def split: prod.splits)
qed

section \<open>Login\<close>

lemma json_escape_length: "length (json_escape c) \<le> 6"
  by (simp add: json_escape_def Let_def)

lemma json_string_length: "length (json_string s) \<le> 6 * length s + 2"
proof -
  have "length (concat (map json_escape s)) \<le> 6 * length s"
  proof (induction s)
    case (Cons c s)
    then show ?case using json_escape_length [of c] by simp
  qed simp
  then show ?thesis by (simp add: json_string_def)
qed

lemma login_gate_store: "login_gate now ip n st = (r, st') \<Longrightarrow> adb st' = adb st"
  by (auto simp: login_gate_def Let_def split: prod.splits if_splits)

definition demo_env :: login_env where
  "demo_env = \<lparr>env_gate = 100, env_rehash = (''h9'', 110), env_token = ''tok'', env_sid = ''s2'',
     env_created = 120, env_audit = plain_context 120 ''x''\<rparr>"

text \<open>A runtime that accepts the password \<open>pw\<close> for the hash of \<open>ann\<close>.\<close>

definition demo_runtime :: "string \<Rightarrow> string \<Rightarrow> bool option" where
  "demo_runtime pw h = Some (pw = ''pw'' \<and> h = ''h1'')"

lemma demo_gate: "fst (login_gate 100 ''1.2.3.4'' n demo_auth) = Inr ()"
  by (simp add: login_gate_def auth_eval consume_def current_bucket_def store_bucket_def
      ip_key_def username_key_def)

lemma login_rehash_user:
  assumes "db_ok (adb st)" "u \<in> set (users (adb st))" "isActive u"
  shows "\<exists>w. user_findById (uid u) (adb (snd (login_rehash u h now st))) = Some w
     \<and> isActive w \<and> publicUser w = publicUser u"
proof -
  let ?d = "adb st" and ?u = "u\<lparr>passwordHash := h, updatedAt := now\<rparr>"
  have cur: "user_findById (uid u) ?d = Some u" by (rule user_findById_in [OF assms(1,2)])
  show ?thesis
  proof (cases "user_update ?u ?d")
    case (Inl x)
    then show ?thesis using cur assms(3) by (simp add: login_rehash_def transact_def)
  next
    case (Inr d')
    have "updated_row ?u u \<in> set (users d')" using user_update_Inr(1) [OF Inr] assms(2) by simp
    then have "user_findById (uid u) d' = Some (updated_row ?u u)"
      using user_findById_in [OF user_update_ok [OF assms(1) Inr], of "updated_row ?u u"] by simp
    moreover have "adb (snd (login_rehash u h now st)) = d'"
      using cur assms(3) Inr by (simp add: login_rehash_def transact_def)
    ultimately show ?thesis using assms(3) by (simp add: updated_row_def publicUser_def)
  qed
qed

text \<open>Claim C36: A login succeeds only with the right password of an active user, and what it hands
  out works: the token it returns is accepted by a validation right after it, for that user.\<close>

theorem login_success:
  assumes "db_ok (adb st)" "0 < idleTimeoutMinutes cfg" "0 < absoluteTimeoutHours cfg" "0 < touchIntervalMs cfg"
    and "login runtime digest cfg env inp st = (Inr (p, token), st')"
    and "token \<noteq> []" "length token \<le> 512"
  shows "\<exists>u. user_findByUsername (in_username inp) (adb st) = Some u \<and> isActive u
      \<and> runtime (in_password inp) (passwordHash u) = Some True \<and> p = publicUser u
      \<and> (\<exists>s. validateSession digest cfg (env_created env) (Some token) st' = (Authenticated s p, st'))"
proof -
  let ?cr = "env_created env"
  obtain st1 where gate: "login_gate (env_gate env) (in_ip inp) (in_username inp) st = (Inr (), st1)"
    using assms(5) by (auto simp: login_def split: prod.splits sum.splits)
  have store: "adb st1 = adb st" by (rule login_gate_store [OF gate])
  let ?found = "user_findByUsername (in_username inp) (adb st1)"
  let ?v = "hasher_verify (runtime (in_password inp) (login_hash ?found)) (login_hash ?found)"
  let ?decide = "login_decide (env_audit env) (in_ip inp) (in_username inp) ?found ?v st1"
  obtain u st2 where decide: "?decide = (Inr u, st2)"
    using assms(5) by (auto simp: login_def gate Let_def split: prod.splits sum.splits)
  let ?rehash = "if needsRehash ?v then login_rehash u (fst (env_rehash env)) (snd (env_rehash env)) st2
      else (Inr (), st2)"
  obtain st3 where rehash: "?rehash = (Inr (), st3)"
    and last: "login_session digest cfg (env_audit env) u (env_token env) (env_sid env) ?cr st3 = (Inr (p, token), st')"
    using assms(5) by (auto simp: login_def gate decide Let_def split: prod.splits sum.splits)
  have found: "?found = Some u" "isActive u" "ok ?v" and st2: "adb st2 = adb st1"
    using decide by (auto simp: login_decide_def split: option.splits if_splits prod.splits sum.splits)
  have le3: "db_le {} (adb st) (adb st3)"
  proof (cases "needsRehash ?v")
    case True
    then have "adb st3 = adb (snd (login_rehash u (fst (env_rehash env)) (snd (env_rehash env)) st2))"
      using rehash by simp
    then show ?thesis using login_rehash_le [of st2] st2 store assms(1) by simp
  next
    case False
    then show ?thesis using rehash st2 store assms(1) db_le_refl by simp
  qed
  let ?s = "new_session digest cfg u (env_token env) (env_sid env) ?cr"
  obtain d1 where d1: "session_create ?s (adb st3) = Inr d1"
    and d2: "recorded (env_audit env) (login_succeeded_event u) Success d1 = Inr (adb st')"
    and tok: "token = env_token env" and p: "p = publicUser u"
    using last by (auto simp: login_session_def transact_def split: sum.splits)
  have ok1: "db_ok d1" by (rule session_create_ok [OF db_le_ok [OF le3] d1])
  have same: "sessions (adb st') = sessions d1" "users (adb st') = users d1"
    using d2 unfolding recorded_def by (auto split: sum.splits elim!: audit_record_Inr)
  have "?s \<in> set (sessions (adb st'))" using d1 same by (auto simp: session_create_def split: if_splits)
  then have find_s: "session_findByTokenHash (digest token) (adb st') = Some ?s"
    using session_find_in [OF db_le_ok [OF db_le_recorded [OF ok1 d2]], of ?s]
    by (simp add: new_session_def tok)
  have "u \<in> set (users (adb st2))" using user_findByUsername_Some [OF found(1)] st2 by simp
  then have "\<exists>w. user_findById (uid u) (adb st3) = Some w \<and> isActive w \<and> publicUser w = publicUser u"
    using rehash login_rehash_user [of st2 u "fst (env_rehash env)" "snd (env_rehash env)"]
      user_findById_in [of "adb st2" u] st2 store assms(1) found(2)
    by (auto split: if_splits)
  moreover have "users d1 = users (adb st3)" using d1 by (auto simp: session_create_def split: if_splits)
  ultimately obtain w where w: "user_findById (uid u) (adb st') = Some w" "isActive w" "publicUser w = publicUser u"
    using same(2) by (auto simp: user_findById_def)
  have "\<not> isExpired ?s ?cr (idleTimeoutMinutes cfg)"
    using assms(2,3) by (simp add: isExpired_def absoluteDeadline_def idleDeadline_def new_session_def)
  then have "validateSession digest cfg ?cr (Some token) st' = (Authenticated ?s p, st')"
    using assms(4,6,7) find_s w p by (simp add: validateSession_def new_session_def)
  moreover have "runtime (in_password inp) (passwordHash u) = Some True"
    using found(1,3) by (auto simp: hasher_verify_def login_hash_def Let_def split: option.splits)
  ultimately show ?thesis using found(1,2) store p by auto
qed

theorem login_success_witness:
  "\<exists>s st'. login demo_runtime id demo_config demo_env \<lparr>in_username = ''ann'', in_password = ''pw'', in_ip = ''1.2.3.4''\<rparr> demo_auth
       = (Inr (publicUser ann, ''tok''), st')
     \<and> validateSession id demo_config 120 (Some ''tok'') st' = (Authenticated s (publicUser ann), st')"
proof -
  let ?inp = "\<lparr>in_username = ''ann'', in_password = ''pw'', in_ip = ''1.2.3.4''\<rparr>"
  let ?l = "login demo_runtime id demo_config demo_env ?inp demo_auth"
  have "fst ?l = Inr (publicUser ann, ''tok'')" by code_simp
  then obtain st' where l: "?l = (Inr (publicUser ann, ''tok''), st')" by (metis prod.collapse)
  have "db_ok (adb demo_auth)" using demo_inv by (simp add: auth_inv_def)
  moreover have "0 < idleTimeoutMinutes demo_config" "0 < absoluteTimeoutHours demo_config"
    "0 < touchIntervalMs demo_config" "''tok'' \<noteq> []" "length ''tok'' \<le> 512"
    by (simp_all add: demo_config_def)
  ultimately have "\<exists>s. validateSession id demo_config (env_created demo_env) (Some ''tok'') st'
      = (Authenticated s (publicUser ann), st')"
    using login_success [OF _ _ _ _ l] by blast
  then show ?thesis using l by (simp add: demo_env_def)
qed

section \<open>Changing a password\<close>

text \<open>
  A password change that succeeds was asked for with the current password of an active
  user and a new one within the policy; it stores the new hash, revokes every open session of the
  user except the one that asked, and touches no other user and no other session.\<close>

theorem password_change_effects:
  assumes "db_ok (adb st)"
    and "changePassword runtime ctx i keep old new newHash now st = (Inr (), st')"
  shows "\<exists>u. user_findById i (adb st) = Some u \<and> isActive u
      \<and> runtime old (passwordHash u) = Some True \<and> validatePassword new (username u) = []
      \<and> (\<exists>w \<in> set (users (adb st')). uid w = i \<and> passwordHash w = newHash)
      \<and> (\<forall>v \<in> set (users (adb st)). v \<noteq> u \<longrightarrow> v \<in> set (users (adb st')))
      \<and> sessions (adb st') = map (\<lambda>s. if (suser s = i \<and> sid s \<noteq> keep) \<and> revokedAt s = None
           then s\<lparr>revokedAt := Some now\<rparr> else s) (sessions (adb st))"
proof -
  obtain u where u: "user_findById i (adb st) = Some u" "isActive u"
    using assms(2) by (auto simp: changePassword_def change_lookup_def split: option.splits if_splits)
  then have look: "change_lookup i st = Inr u" by (simp add: change_lookup_def)
  let ?v = "hasher_verify (runtime old (passwordHash u)) (passwordHash u)"
  obtain st1 where check: "change_check ctx u ?v new st = (Inr (), st1)"
    and commit: "change_commit ctx u keep newHash now st1 = (Inr (), st')"
    using assms(2) by (auto simp: changePassword_def look split: prod.splits sum.splits)
  have v: "ok ?v" "validatePassword new (username u) = []" "st1 = st"
    using check by (auto simp: change_check_def change_refused_def Let_def split: if_splits prod.splits sum.splits)
  have run: "runtime old (passwordHash u) = Some True"
    using v(1) by (auto simp: hasher_verify_def Let_def split: option.splits)
  have i: "uid u = i" using user_findById_Some [OF u(1)] by simp
  obtain a where "(case user_findById (uid u) (adb st) of None \<Rightarrow> Inl AUTH_UNAUTHENTICATED
       | Some current \<Rightarrow>
           if \<not> isActive current then Inl AUTH_UNAUTHENTICATED
           else if passwordHash current \<noteq> passwordHash u then Inl AUTH_INVALID_CREDENTIALS
           else (case user_update (current\<lparr>passwordHash := newHash, updatedAt := now\<rparr>) (adb st) of
               Inl x \<Rightarrow> Inl (StoreThrew x)
             | Inr d1 \<Rightarrow>
                 (case recorded ctx (password_event current [(''username'', JStr (username current))])
                         Success (session_revokeAllForUserExcept (uid current) keep now d1) of
                    Inl x \<Rightarrow> Inl x | Inr d2 \<Rightarrow> Inr ((), d2)))) = Inr (a, adb st')"
    using commit unfolding change_commit_def transact_def v(3) by (auto split: sum.splits)
  then show ?thesis
  proof (rule change_commit_Inr [OF assms(1)])
    fix current d1
    assume cur: "user_findById (uid u) (adb st) = Some current"
      and up: "user_update (current\<lparr>passwordHash := newHash, updatedAt := now\<rparr>) (adb st) = Inr d1"
      and ss: "sessions (adb st') = sessions (session_revokeAllForUserExcept (uid current) keep now d1)"
      and us: "users (adb st') = users d1"
    have c: "current = u" using cur u(1) i by simp
    note U = user_update_current [OF assms(1) u(1) _ _ up [unfolded c]]
    have "\<exists>w \<in> set (users (adb st')). uid w = i \<and> passwordHash w = newHash"
      using U(6) i us by auto
    moreover have "\<forall>v \<in> set (users (adb st)). v \<noteq> u \<longrightarrow> v \<in> set (users (adb st'))"
      using U(5) us by auto
    moreover have "sessions d1 = sessions (adb st)" using U(3) by simp
    ultimately show ?thesis
      using u run v(2) i c ss
      by (intro exI [of _ u]) (simp add: session_revokeAllForUserExcept_def revoke_where_def)
  qed
qed

theorem password_change_effects_witness:
  "\<exists>st' w. changePassword demo_runtime (plain_context 9 ''x'') ''a'' ''s1'' ''pw'' ''correct horse'' ''h3'' 9 demo_auth = (Inr (), st')
     \<and> w \<in> set (users (adb st')) \<and> uid w = ''a'' \<and> passwordHash w = ''h3''"
proof -
  let ?c = "changePassword demo_runtime (plain_context 9 ''x'') ''a'' ''s1'' ''pw'' ''correct horse'' ''h3'' 9 demo_auth"
  have "fst ?c = Inr ()" by code_simp
  then obtain st' where c: "?c = (Inr (), st')" by (metis prod.collapse)
  have "db_ok (adb demo_auth)" using demo_inv by (simp add: auth_inv_def)
  from password_change_effects [OF this c] c show ?thesis by blast
qed

section \<open>A login that races with a password reset\<close>

text \<open>
  A login reads the user, verifies the password while other requests run, and then opens the session
  without looking at the user again: when an administrator resets the password in between, which
  revokes all sessions of the user, the login with the old password still opens one.
\<close>

theorem stale_login_survives_reset:
  "(let st1 = snd (reset_commit (plain_context 5 ''x'') ''a'' ''h2'' ''r'' 5 demo_auth);
        (r, st2) = login_session id demo_config (plain_context 6 ''y'') ann ''tok'' ''s2'' 6 st1
    in r = Inr (publicUser ann, ''tok'')
       \<and> map passwordHash (users (adb st2)) = [''h0'', ''h2'']
       \<and> (case fst (validateSession id demo_config 7 (Some ''tok'') st2) of
            Authenticated s p \<Rightarrow> p = publicUser ann | Rejected _ \<Rightarrow> False))"
  by code_simp

end
