(* ===== verification/Connections.thy ===== *)
theory Connections
  imports Prelude
begin

text \<open>
  The registry of database connections per user, \<open>ConnectionSessionRegistry\<close> of
  \<open>apps/server/src/connections/connection-manager.ts\<close>, with the end of the manager's \<open>connect\<close>
  that settles a reservation. Opening a connection takes time; meanwhile the user may disconnect,
  log out or connect again, so a reservation carries a token. Closing a handle is a call of the
  provider whose failure is ignored: the registry records the calls in \<open>rclosed\<close>.

  \<open>'i\<close> stands for what the server says about itself and \<open>'c\<close> for the provider's capability
  description, which the registry only passes on.
\<close>

section \<open>The registry\<close>

datatype lifecycle_status = Disconnected | Connecting | Connected | ErrorState

datatype lifecycle_reason = IdleClosed

record active_session =
  suserId :: "string option"
  sconnectionId :: string
  handle :: nat

record ('i, 'c) lifecycle_view =
  vconnectionId :: string
  vstatus :: lifecycle_status
  vchangedAt :: time
  vserverInfo :: "'i option"
  vcapability :: "'c option"
  vlatencyMs :: "int option"
  verrorCategory :: "string option"
  vreason :: "lifecycle_reason option"

record ('i, 'c) lifecycle_state =
  userId :: string
  connId :: string
  status :: lifecycle_status
  changedAt :: time
  serverInfo :: "'i option"
  capability :: "'c option"
  latencyMs :: "int option"
  errorCategory :: "string option"
  reason :: "lifecycle_reason option"
  lastActivityAt :: time
  session :: "active_session option"
  token :: int

record reservation =
  res_userId :: string
  res_connectionId :: string
  res_key :: string
  res_token :: int

datatype reservation_result = Reserved reservation | AlreadyConnected | AlreadyConnecting

text \<open>\<open>rclosed\<close>, \<open>rpublished\<close>, \<open>ridle\<close>: the calls of \<open>close\<close>, of the status publisher and of
  \<open>onIdleClosed\<close>, in order.\<close>

record ('i, 'c) registry =
  rsessions :: "(string, active_session list) jsmap"
  rstates :: "(string, ('i, 'c) lifecycle_state) jsmap"
  idleTimeout :: int
  nextToken :: int
  rclosed :: "nat list"
  rpublished :: "(string \<times> ('i, 'c) lifecycle_view) list"
  ridle :: "(string \<times> string) list"

definition lifecycleKey :: "string \<Rightarrow> string \<Rightarrow> string" where
  "lifecycleKey u c = u @ [CHR 0x00] @ c"

text \<open>The constructor; \<open>None\<close> is the \<open>RangeError\<close>.\<close>

definition new_registry :: "int option \<Rightarrow> ('i, 'c) registry option" where
  "new_registry idle =
     (let n = (case idle of None \<Rightarrow> 30 | Some n \<Rightarrow> n) in
      if n < 1 then None
      else Some \<lparr>rsessions = [], rstates = [], idleTimeout = n, nextToken = 1, rclosed = [],
                 rpublished = [], ridle = []\<rparr>)"

definition publicState :: "('i, 'c) lifecycle_state \<Rightarrow> ('i, 'c) lifecycle_view" where
  "publicState s =
     \<lparr>vconnectionId = connId s, vstatus = status s, vchangedAt = changedAt s,
      vserverInfo = serverInfo s, vcapability = capability s, vlatencyMs = latencyMs s,
      verrorCategory = errorCategory s, vreason = reason s\<rparr>"

definition defaultState :: "time \<Rightarrow> string \<Rightarrow> ('i, 'c) lifecycle_view" where
  "defaultState now c =
     \<lparr>vconnectionId = c, vstatus = Disconnected, vchangedAt = now, vserverInfo = None,
      vcapability = None, vlatencyMs = None, verrorCategory = None, vreason = None\<rparr>"

definition notifyStatus :: "string \<Rightarrow> ('i, 'c) registry \<Rightarrow> ('i, 'c) registry" where
  "notifyStatus key r =
     (case map_of (rstates r) key of
        None \<Rightarrow> r | Some s \<Rightarrow> r\<lparr>rpublished := rpublished r @ [(userId s, publicState s)]\<rparr>)"

definition put_state :: "string \<Rightarrow> ('i, 'c) lifecycle_state \<Rightarrow> ('i, 'c) registry \<Rightarrow> ('i, 'c) registry" where
  "put_state key s r = notifyStatus key (r\<lparr>rstates := js_set (rstates r) key s\<rparr>)"

definition close_handles :: "nat list \<Rightarrow> ('i, 'c) registry \<Rightarrow> ('i, 'c) registry" where
  "close_handles hs r = r\<lparr>rclosed := rclosed r @ hs\<rparr>"

section \<open>Operations\<close>

definition stateFor :: "time \<Rightarrow> string \<Rightarrow> string \<Rightarrow> ('i, 'c) registry \<Rightarrow> ('i, 'c) lifecycle_view" where
  "stateFor now u c r =
     (case map_of (rstates r) (lifecycleKey u c) of
        None \<Rightarrow> defaultState now c | Some s \<Rightarrow> publicState s)"

definition sessionFor :: "string \<Rightarrow> string \<Rightarrow> ('i, 'c) registry \<Rightarrow> active_session option" where
  "sessionFor u c r =
     (case map_of (rstates r) (lifecycleKey u c) of None \<Rightarrow> None | Some s \<Rightarrow> session s)"

definition register :: "active_session \<Rightarrow> ('i, 'c) registry \<Rightarrow> ('i, 'c) registry" where
  "register s r =
     (let existing = (case map_of (rsessions r) (sconnectionId s) of None \<Rightarrow> [] | Some l \<Rightarrow> l)
      in r\<lparr>rsessions := js_set (rsessions r) (sconnectionId s) (existing @ [s])\<rparr>)"

text \<open>The function that \<open>register\<close> returns.\<close>

definition unregister :: "active_session \<Rightarrow> ('i, 'c) registry \<Rightarrow> ('i, 'c) registry" where
  "unregister s r =
     (let existing = (case map_of (rsessions r) (sconnectionId s) of None \<Rightarrow> [] | Some l \<Rightarrow> l);
          remaining = filter (\<lambda>x. x \<noteq> s) existing
      in if remaining = [] then r\<lparr>rsessions := js_delete (rsessions r) (sconnectionId s)\<rparr>
         else r\<lparr>rsessions := js_set (rsessions r) (sconnectionId s) remaining\<rparr>)"

definition markDisconnected ::
  "time \<Rightarrow> lifecycle_reason option \<Rightarrow> ('i, 'c) lifecycle_state \<Rightarrow> ('i, 'c) registry \<Rightarrow> ('i, 'c) registry" where
  "markDisconnected now why s r =
     put_state (lifecycleKey (userId s) (connId s))
       (s\<lparr>status := Disconnected, changedAt := now, errorCategory := None, reason := why,
          lastActivityAt := now, token := nextToken r, session := None\<rparr>)
       (r\<lparr>nextToken := nextToken r + 1\<rparr>)"

definition reserve ::
  "time \<Rightarrow> string \<Rightarrow> string \<Rightarrow> ('i, 'c) registry \<Rightarrow> reservation_result \<times> ('i, 'c) registry" where
  "reserve now u c r =
     (let key = lifecycleKey u c; current = map_of (rstates r) key in
      if (case current of None \<Rightarrow> False | Some s \<Rightarrow> status s = Connected) then (AlreadyConnected, r)
      else if (case current of None \<Rightarrow> False | Some s \<Rightarrow> status s = Connecting) then (AlreadyConnecting, r)
      else
        let t = nextToken r;
            s = \<lparr>userId = u, connId = c, status = Connecting, changedAt = now,
                 serverInfo = Option.bind current serverInfo, capability = Option.bind current capability,
                 latencyMs = Option.bind current latencyMs, errorCategory = None, reason = None,
                 lastActivityAt = now, session = None, token = t\<rparr>
        in (Reserved \<lparr>res_userId = u, res_connectionId = c, res_key = key, res_token = t\<rparr>,
            put_state key s (r\<lparr>nextToken := t + 1\<rparr>)))"

definition complete ::
  "time \<Rightarrow> reservation \<Rightarrow> active_session \<Rightarrow> 'i \<Rightarrow> 'c \<Rightarrow> int \<Rightarrow> ('i, 'c) registry \<Rightarrow> bool \<times> ('i, 'c) registry" where
  "complete now res sess info cap latency r =
     (case map_of (rstates r) (res_key res) of
        None \<Rightarrow> (False, r)
      | Some current \<Rightarrow>
          if token current \<noteq> res_token res \<or> status current \<noteq> Connecting then (False, r)
          else (True, put_state (res_key res)
                  (current\<lparr>status := Connected, changedAt := now, serverInfo := Some info,
                     capability := Some cap, latencyMs := Some latency, errorCategory := None,
                     reason := None, lastActivityAt := now, session := Some sess\<rparr>) r))"

definition fail :: "time \<Rightarrow> reservation \<Rightarrow> string \<Rightarrow> ('i, 'c) registry \<Rightarrow> ('i, 'c) registry" where
  "fail now res category r =
     (case map_of (rstates r) (res_key res) of
        None \<Rightarrow> r
      | Some current \<Rightarrow>
          if token current \<noteq> res_token res then r
          else put_state (res_key res)
                 (current\<lparr>status := ErrorState, changedAt := now, errorCategory := Some category,
                    reason := None, session := None\<rparr>) r)"

definition touch :: "time \<Rightarrow> string \<Rightarrow> string \<Rightarrow> int option \<Rightarrow> ('i, 'c) registry \<Rightarrow> ('i, 'c) registry" where
  "touch now u c latency r =
     (let key = lifecycleKey u c in
      case map_of (rstates r) key of
        None \<Rightarrow> r
      | Some s \<Rightarrow>
          if status s \<noteq> Connected then r
          else put_state key
                 (s\<lparr>lastActivityAt := now,
                    latencyMs := (case latency of None \<Rightarrow> latencyMs s | Some n \<Rightarrow> Some n)\<rparr>) r)"

definition handle_of :: "('i, 'c) lifecycle_state \<Rightarrow> nat list" where
  "handle_of s = (case session s of None \<Rightarrow> [] | Some x \<Rightarrow> [handle x])"

definition disconnect ::
  "time \<Rightarrow> string \<Rightarrow> string \<Rightarrow> lifecycle_reason option \<Rightarrow> ('i, 'c) registry \<Rightarrow> ('i, 'c) registry" where
  "disconnect now u c why r =
     (case map_of (rstates r) (lifecycleKey u c) of
        None \<Rightarrow> r | Some s \<Rightarrow> close_handles (handle_of s) (markDisconnected now why s r))"

definition markError :: "time \<Rightarrow> string \<Rightarrow> string \<Rightarrow> string \<Rightarrow> ('i, 'c) registry \<Rightarrow> ('i, 'c) registry" where
  "markError now u c category r =
     (let key = lifecycleKey u c in
      case map_of (rstates r) key of
        None \<Rightarrow> r
      | Some s \<Rightarrow>
          close_handles (handle_of s)
            (put_state key
               (s\<lparr>status := ErrorState, changedAt := now, errorCategory := Some category,
                  reason := None, session := None\<rparr>) r))"

text \<open>Disconnecting the states that a condition picks, then closing their handles.\<close>

definition disconnect_all ::
  "time \<Rightarrow> lifecycle_reason option \<Rightarrow> ('i, 'c) lifecycle_state list \<Rightarrow> ('i, 'c) registry \<Rightarrow> ('i, 'c) registry" where
  "disconnect_all now why ss r =
     close_handles (concat (map handle_of ss)) (fold (markDisconnected now why) ss r)"

definition sweepIdle :: "time \<Rightarrow> ('i, 'c) registry \<Rightarrow> nat \<times> ('i, 'c) registry" where
  "sweepIdle at r =
     (let threshold = idleTimeout r * 60000;
          idle = filter (\<lambda>s. status s = Connected \<and> at - lastActivityAt s \<ge> threshold) (map snd (rstates r));
          r1 = disconnect_all at (Some IdleClosed) idle r
      in (length idle, r1\<lparr>ridle := ridle r1 @ map (\<lambda>s. (userId s, connId s)) idle\<rparr>))"

definition closeForConnection :: "time \<Rightarrow> string \<Rightarrow> ('i, 'c) registry \<Rightarrow> ('i, 'c) registry" where
  "closeForConnection now c r =
     (let legacy = (case map_of (rsessions r) c of None \<Rightarrow> [] | Some l \<Rightarrow> l);
          states = filter (\<lambda>s. connId s = c) (map snd (rstates r));
          r1 = r\<lparr>rsessions := js_delete (rsessions r) c\<rparr>
      in close_handles (map handle legacy @ concat (map handle_of states))
           (fold (markDisconnected now None) states r1))"

definition closeForUser :: "time \<Rightarrow> string \<Rightarrow> ('i, 'c) registry \<Rightarrow> ('i, 'c) registry" where
  "closeForUser now u r =
     disconnect_all now None (filter (\<lambda>s. userId s = u) (map snd (rstates r))) r"

definition closeAll :: "time \<Rightarrow> ('i, 'c) registry \<Rightarrow> ('i, 'c) registry" where
  "closeAll now r =
     (let states = map snd (rstates r); legacy = concat (map snd (rsessions r));
          r1 = (fold (markDisconnected now None) states r)\<lparr>rsessions := []\<rparr>
      in close_handles (map handle legacy @ concat (map handle_of states)) r1)"

text \<open>
  What \<open>connect\<close> does when the provider has opened a handle: complete the reservation, or close the
  handle when it is stale; when the success entry of the audit log cannot be written
  (\<open>audited = False\<close>) it fails the reservation and throws.
\<close>

definition connect_opened ::
  "time \<Rightarrow> reservation \<Rightarrow> active_session \<Rightarrow> 'i \<Rightarrow> 'c \<Rightarrow> int \<Rightarrow> bool \<Rightarrow> string \<Rightarrow> ('i, 'c) registry
     \<Rightarrow> ('i, 'c) registry" where
  "connect_opened now res sess info cap latency audited category r =
     (case complete now res sess info cap latency r of
        (False, r1) \<Rightarrow> close_handles [handle sess] r1
      | (True, r1) \<Rightarrow> if audited then r1 else fail now res category r1)"

section \<open>Histories\<close>

text \<open>
  A history: the registry, the reservations that were given out, the tokens of those that \<open>connect\<close> has
  settled, the handles that providers have opened, and those that were lost. A provider never hands out a
  handle twice, and \<open>connect\<close> settles each of its reservations once: with a handle, whose success entry in
  the audit log is written or not, or with a failure.
\<close>

datatype ('i, 'c) conn_event =
    CReserve time string string
  | COpened time reservation active_session 'i 'c int bool string
  | CFailed time reservation string
  | CTouch time string string "int option"
  | CDisconnect time string string "lifecycle_reason option"
  | CMarkError time string string string
  | CSweep time
  | CCloseConnection time string
  | CCloseUser time string
  | CCloseAll time

record ('i, 'c) conn_run =
  reg :: "('i, 'c) registry"
  opened :: "nat list"
  issued :: "reservation list"
  settled :: "int list"
  lost :: "nat list"

definition settles :: "('i, 'c) conn_run \<Rightarrow> reservation \<Rightarrow> bool" where
  "settles h res \<longleftrightarrow> res \<in> set (issued h) \<and> res_token res \<notin> set (settled h)"

fun conn_step :: "('i, 'c) conn_run \<Rightarrow> ('i, 'c) conn_event \<Rightarrow> ('i, 'c) conn_run" where
  "conn_step h (CReserve now u c) =
     (let (x, r) = reserve now u c (reg h) in
      h\<lparr>reg := r, issued := (case x of Reserved res \<Rightarrow> res # issued h | _ \<Rightarrow> issued h)\<rparr>)"
| "conn_step h (COpened now res sess info cap lat audited category) =
     (if settles h res \<and> handle sess \<notin> set (opened h)
      then h\<lparr>reg := connect_opened now res sess info cap lat audited category (reg h),
             opened := handle sess # opened h, settled := res_token res # settled h,
             lost := (if fst (complete now res sess info cap lat (reg h)) \<and> \<not> audited then handle sess # lost h else lost h)\<rparr>
      else h)"
| "conn_step h (CFailed now res cat) =
     (if settles h res then h\<lparr>reg := fail now res cat (reg h), settled := res_token res # settled h\<rparr> else h)"
| "conn_step h (CTouch now u c lat) = h\<lparr>reg := touch now u c lat (reg h)\<rparr>"
| "conn_step h (CDisconnect now u c why) = h\<lparr>reg := disconnect now u c why (reg h)\<rparr>"
| "conn_step h (CMarkError now u c cat) = h\<lparr>reg := markError now u c cat (reg h)\<rparr>"
| "conn_step h (CSweep at) = h\<lparr>reg := snd (sweepIdle at (reg h))\<rparr>"
| "conn_step h (CCloseConnection now c) = h\<lparr>reg := closeForConnection now c (reg h)\<rparr>"
| "conn_step h (CCloseUser now u) = h\<lparr>reg := closeForUser now u (reg h)\<rparr>"
| "conn_step h (CCloseAll now) = h\<lparr>reg := closeAll now (reg h)\<rparr>"

end
