(* ===== verification/ConnectionsInv.thy ===== *)
theory ConnectionsInv
  imports Connections
begin

text \<open>
  The invariant of the connection registry: the keys of its states, the tokens, and the account of
  handles (opened = closed + held). Both contracts of \<open>Prelude\<close> are interpreted on \<open>conn_step\<close>.
\<close>

section \<open>Frame lemmas\<close>

lemma put_state_simps [simp]:
  "rstates (put_state k s r) = js_set (rstates r) k s"
  "rsessions (put_state k s r) = rsessions r" "idleTimeout (put_state k s r) = idleTimeout r"
  "nextToken (put_state k s r) = nextToken r" "rclosed (put_state k s r) = rclosed r"
  "ridle (put_state k s r) = ridle r"
  by (simp_all add: put_state_def notifyStatus_def)

lemma close_handles_simps [simp]:
  "rstates (close_handles hs r) = rstates r" "rclosed (close_handles hs r) = rclosed r @ hs"
  "rsessions (close_handles hs r) = rsessions r" "nextToken (close_handles hs r) = nextToken r"
  "idleTimeout (close_handles hs r) = idleTimeout r" "ridle (close_handles hs r) = ridle r"
  by (simp_all add: close_handles_def)

definition state_key :: "('i, 'c) lifecycle_state \<Rightarrow> string" where
  "state_key s = lifecycleKey (userId s) (connId s)"

definition disconnected_state :: "time \<Rightarrow> lifecycle_reason option \<Rightarrow> int \<Rightarrow> ('i, 'c) lifecycle_state \<Rightarrow> ('i, 'c) lifecycle_state" where
  "disconnected_state now why t s =
     s\<lparr>status := Disconnected, changedAt := now, errorCategory := None, reason := why,
       lastActivityAt := now, token := t, session := None\<rparr>"

lemma disconnected_state_simps [simp]:
  "status (disconnected_state now why t s) = Disconnected"
  "session (disconnected_state now why t s) = None" "token (disconnected_state now why t s) = t"
  "reason (disconnected_state now why t s) = why" "connId (disconnected_state now why t s) = connId s"
  "userId (disconnected_state now why t s) = userId s"
  "state_key (disconnected_state now why t s) = state_key s"
  "handle_of (disconnected_state now why t s) = []"
  by (simp_all add: disconnected_state_def state_key_def handle_of_def)

lemma markDisconnected_eq:
  "markDisconnected now why s r =
     put_state (state_key s) (disconnected_state now why (nextToken r) s) (r\<lparr>nextToken := nextToken r + 1\<rparr>)"
  by (simp add: markDisconnected_def state_key_def disconnected_state_def)

section \<open>The account of handles\<close>

definition held :: "('i, 'c) registry \<Rightarrow> nat list" where
  "held r = concat (map (handle_of \<circ> snd) (rstates r))"

lemma held_js_set:
  assumes "distinct (js_keys m)"
  shows "mset (concat (map (handle_of \<circ> snd) (js_set m k s)))
         + (case map_of m k of None \<Rightarrow> {#} | Some s0 \<Rightarrow> mset (handle_of s0))
       = mset (concat (map (handle_of \<circ> snd) m)) + mset (handle_of s)"
  using assms
proof (induction m k s rule: js_set.induct)
  case (1 k v)
  show ?case by simp
next
  case (2 a b m k v)
  show ?case
  proof (cases "a = k")
    case True
    then show ?thesis by (simp add: ac_simps)
  next
    case False
    then show ?thesis using 2 by (simp add: js_keys_def ac_simps)
  qed
qed

section \<open>The invariant\<close>

definition state_ok :: "int set \<Rightarrow> int \<Rightarrow> string \<Rightarrow> ('i, 'c) lifecycle_state \<Rightarrow> bool" where
  "state_ok S n k s \<longleftrightarrow> k = state_key s \<and> token s < n
     \<and> (session s \<noteq> None \<longleftrightarrow> status s = Connected) \<and> (session s \<noteq> None \<longrightarrow> token s \<in> S)"

definition reg_ok :: "int set \<Rightarrow> ('i, 'c) registry \<Rightarrow> bool" where
  "reg_ok S r \<longleftrightarrow> distinct (js_keys (rstates r))
     \<and> (\<forall>k s. map_of (rstates r) k = Some s \<longrightarrow> state_ok S (nextToken r) k s)"

lemma state_ok_mono: "state_ok S n k s \<Longrightarrow> S \<subseteq> T \<Longrightarrow> n \<le> m \<Longrightarrow> state_ok T m k s"
  unfolding state_ok_def by fastforce

lemma reg_ok_mono: "reg_ok S r \<Longrightarrow> S \<subseteq> T \<Longrightarrow> reg_ok T r"
  unfolding reg_ok_def using state_ok_mono by blast

lemma reg_ok_close [simp]: "reg_ok S (close_handles hs r) = reg_ok S r"
  by (simp add: reg_ok_def)

lemma reg_ok_put:
  assumes "reg_ok S r" "state_ok S n k s" "nextToken r \<le> n"
  shows "reg_ok S (put_state k s (r\<lparr>nextToken := n\<rparr>))"
  using assms by (auto simp: reg_ok_def distinct_js_set intro: state_ok_mono [OF _ subset_refl])

lemma reg_ok_put0:
  assumes "reg_ok S r" "state_ok S (nextToken r) k s"
  shows "reg_ok S (put_state k s r)"
  using assms by (auto simp: reg_ok_def distinct_js_set)

lemma reg_ok_state: "reg_ok S r \<Longrightarrow> map_of (rstates r) k = Some s \<Longrightarrow> state_ok S (nextToken r) k s"
  by (simp add: reg_ok_def)

lemma reg_ok_entry: "reg_ok S r \<Longrightarrow> s \<in> set (map snd (rstates r)) \<Longrightarrow> map_of (rstates r) (state_key s) = Some s"
  unfolding reg_ok_def by (auto simp: js_entries_iff state_ok_def)

lemma held_put_state:
  assumes "reg_ok S r"
  shows "mset (held (put_state k s r)) + (case map_of (rstates r) k of None \<Rightarrow> {#} | Some s0 \<Rightarrow> mset (handle_of s0))
       = mset (held r) + mset (handle_of s)"
  using held_js_set [of "rstates r" k s] assms by (simp add: held_def reg_ok_def)

lemma held_close [simp]: "held (close_handles hs r) = held r"
  by (simp add: held_def)

lemma held_next [simp]: "held (put_state k s (r\<lparr>nextToken := n\<rparr>)) = held (put_state k s r)"
  by (simp add: held_def)

text \<open>What an operation may do: keep the invariant for the settled tokens, never lower a token, and
  account for the handles \<open>new\<close> that come in.\<close>

definition tokens_le :: "('i, 'c) registry \<Rightarrow> ('i, 'c) registry \<Rightarrow> bool" where
  "tokens_le r r' \<longleftrightarrow> nextToken r \<le> nextToken r'
     \<and> (\<forall>k s. map_of (rstates r) k = Some s \<longrightarrow> (\<exists>s'. map_of (rstates r') k = Some s' \<and> token s \<le> token s'))"

definition balance :: "('i, 'c) registry \<Rightarrow> nat multiset" where
  "balance r = mset (rclosed r) + mset (held r)"

definition op_ok :: "int set \<Rightarrow> nat multiset \<Rightarrow> ('i, 'c) registry \<Rightarrow> ('i, 'c) registry \<Rightarrow> bool" where
  "op_ok S new r r' \<longleftrightarrow> reg_ok S r' \<and> tokens_le r r' \<and> balance r' = balance r + new"

lemma tokens_le_refl [simp]: "tokens_le r r"
  by (simp add: tokens_le_def)

lemma tokens_le_trans: "tokens_le r s \<Longrightarrow> tokens_le s t \<Longrightarrow> tokens_le r t"
  unfolding tokens_le_def by (meson order_trans)

lemma tokens_le_put:
  assumes "nextToken r \<le> n" "case map_of (rstates r) k of None \<Rightarrow> True | Some s0 \<Rightarrow> token s0 \<le> token s"
  shows "tokens_le r (put_state k s (r\<lparr>nextToken := n\<rparr>))"
  using assms by (auto simp: tokens_le_def)

lemma op_ok_refl: "reg_ok S r \<Longrightarrow> op_ok S {#} r r"
  by (simp add: op_ok_def)

lemma op_ok_trans: "op_ok S a r s \<Longrightarrow> op_ok S b s t \<Longrightarrow> op_ok S (a + b) r t"
  using tokens_le_trans by (fastforce simp: op_ok_def ac_simps)

text \<open>Every operation is such an update of one key, with the handles \<open>hs\<close> closed after it.\<close>

lemma op_put:
  assumes "reg_ok S r" "state_ok S n k s" "nextToken r \<le> n"
    and "case map_of (rstates r) k of None \<Rightarrow> True | Some s0 \<Rightarrow> token s0 \<le> token s"
    and "mset hs + mset (handle_of s)
         = (case map_of (rstates r) k of None \<Rightarrow> {#} | Some s0 \<Rightarrow> mset (handle_of s0)) + new"
  shows "op_ok S new r (close_handles hs (put_state k s (r\<lparr>nextToken := n\<rparr>)))"
proof -
  let ?r = "put_state k s (r\<lparr>nextToken := n\<rparr>)"
  let ?old = "case map_of (rstates r) k of None \<Rightarrow> {#} | Some s0 \<Rightarrow> mset (handle_of s0)"
  have "mset (held ?r) + ?old = mset (held r) + mset (handle_of s)"
    using held_put_state [OF assms(1), of k s] by simp
  then have "mset (held ?r) + mset hs + ?old = mset (held r) + new + ?old"
    using assms(5) by (metis (no_types, lifting) add.assoc add.commute)
  then have "mset (held ?r) + mset hs = mset (held r) + new" by simp
  then have "balance (close_handles hs ?r) = balance r + new"
    by (simp add: balance_def ac_simps)
  then show ?thesis
    using reg_ok_put [OF assms(1-3)] tokens_le_put [OF assms(3,4)] by (simp add: op_ok_def tokens_le_def)
qed

lemma close_none [simp]: "close_handles [] r = r"
  by (simp add: close_handles_def)

lemma same_next [simp]: "r\<lparr>nextToken := nextToken r\<rparr> = r"
  by simp

lemmas op_put_same = op_put [where n = "nextToken r" and r = r for r, simplified]
lemmas op_put_open = op_put [where hs = "[]", simplified]
lemmas op_put_plain = op_put_same [where hs = "[]", simplified]

section \<open>Every operation\<close>

lemma handle_of_None: "session s = None \<Longrightarrow> handle_of s = []"
  by (simp add: handle_of_def)

lemma reserve_op:
  assumes "reg_ok S r"
  shows "op_ok S {#} r (snd (reserve now u c r))"
proof (cases "map_of (rstates r) (lifecycleKey u c)")
  case None
  then show ?thesis
    by (auto simp: reserve_def Let_def state_ok_def state_key_def handle_of_def intro!: op_put_open [OF assms])
next
  case (Some s0)
  have "state_ok S (nextToken r) (lifecycleKey u c) s0" by (rule reg_ok_state [OF assms Some])
  with Some show ?thesis
    by (auto simp: reserve_def Let_def state_ok_def state_key_def handle_of_def op_ok_refl [OF assms]
        intro!: op_put_open [OF assms])
qed

lemma complete_op:
  assumes "reg_ok S r" "res_token res \<in> S"
  shows "op_ok S (if fst (complete now res sess i cap l r) then {#handle sess#} else {#}) r
           (snd (complete now res sess i cap l r))"
proof (cases "map_of (rstates r) (res_key res)")
  case None
  then show ?thesis by (simp add: complete_def op_ok_refl [OF assms(1)])
next
  case (Some s0)
  have "state_ok S (nextToken r) (res_key res) s0" by (rule reg_ok_state [OF assms(1) Some])
  with Some assms(2) show ?thesis
    by (auto simp: complete_def state_ok_def state_key_def handle_of_def op_ok_refl [OF assms(1)]
        intro!: op_put_plain [OF assms(1)])
qed

lemma op_ok_close:
  "op_ok S new r (close_handles hs r') \<longleftrightarrow>
     reg_ok S r' \<and> tokens_le r r' \<and> balance r' + mset hs = balance r + new"
  by (simp add: op_ok_def tokens_le_def balance_def ac_simps)

lemma complete_stale: "complete now res sess i cap l r = (False, r1) \<Longrightarrow> r1 = r"
  by (auto simp: complete_def split: option.splits if_splits)

text \<open>Without its success entry a handle that was taken over is dropped again, and not closed.\<close>

lemma connect_opened_op:
  assumes "reg_ok S r" "res_token res \<in> S"
  shows "op_ok S (if fst (complete now res sess i cap l r) \<and> \<not> audited then {#} else {#handle sess#}) r
           (connect_opened now res sess i cap l audited cat r)"
proof (cases "map_of (rstates r) (res_key res)")
  case None
  then show ?thesis using assms(1) by (simp add: connect_opened_def complete_def op_ok_def tokens_le_def balance_def)
next
  case (Some s0)
  have s0: "state_ok S (nextToken r) (res_key res) s0" by (rule reg_ok_state [OF assms(1) Some])
  obtain b r1 where c: "complete now res sess i cap l r = (b, r1)" by (cases "complete now res sess i cap l r")
  show ?thesis
  proof (cases b)
    case False
    then show ?thesis using c complete_stale [of now res sess i cap l r r1] assms(1)
      by (simp add: connect_opened_def op_ok_def tokens_le_def balance_def)
  next
    case True
    have new: "op_ok S {#handle sess#} r r1" using complete_op [OF assms, of now sess i cap l] c True by simp
    obtain s1 where s1: "map_of (rstates r1) (res_key res) = Some s1" "handle_of s1 = [handle sess]" "token s1 = res_token res"
      using c Some True by (auto simp: complete_def handle_of_def split: if_splits)
    have ok: "reg_ok S r1" using new by (simp add: op_ok_def)
    let ?s = "s1\<lparr>status := ErrorState, changedAt := now, errorCategory := Some cat, reason := None, session := None\<rparr>"
    have f: "fail now res cat r1 = put_state (res_key res) ?s r1" using s1 by (simp add: fail_def)
    have "state_ok S (nextToken r1) (res_key res) ?s"
      using reg_ok_state [OF ok s1(1)] by (simp add: state_ok_def state_key_def)
    then have "op_ok S {#} r1 (close_handles [handle sess] (fail now res cat r1))"
      unfolding f by (intro op_put_same [OF ok]) (simp_all add: s1 handle_of_None)
    then have "reg_ok S (fail now res cat r1)" "tokens_le r1 (fail now res cat r1)"
      "balance (fail now res cat r1) + {#handle sess#} = balance r1" by (simp_all add: op_ok_close)
    then have "op_ok S {#} r (fail now res cat r1)"
      using new tokens_le_trans [of r r1 "fail now res cat r1"] by (simp add: op_ok_def)
    then show ?thesis using c True new by (simp add: connect_opened_def)
  qed
qed

lemma fail_op:
  assumes "reg_ok S r" "res_token res \<notin> S"
  shows "op_ok S {#} r (fail now res cat r)"
proof (cases "map_of (rstates r) (res_key res)")
  case None
  then show ?thesis by (simp add: fail_def op_ok_refl [OF assms(1)])
next
  case (Some s0)
  have "state_ok S (nextToken r) (res_key res) s0" by (rule reg_ok_state [OF assms(1) Some])
  with Some assms(2) show ?thesis
    by (auto simp: fail_def state_ok_def state_key_def handle_of_def op_ok_refl [OF assms(1)]
        intro!: op_put_plain [OF assms(1)])
qed

lemma touch_op:
  assumes "reg_ok S r"
  shows "op_ok S {#} r (touch now u c l r)"
proof (cases "map_of (rstates r) (lifecycleKey u c)")
  case None
  then show ?thesis by (simp add: touch_def op_ok_refl [OF assms])
next
  case (Some s0)
  have "state_ok S (nextToken r) (lifecycleKey u c) s0" by (rule reg_ok_state [OF assms Some])
  with Some show ?thesis
    by (auto simp: touch_def state_ok_def state_key_def handle_of_def Let_def op_ok_refl [OF assms]
        intro!: op_put_plain [OF assms])
qed

lemma markError_op:
  assumes "reg_ok S r"
  shows "op_ok S {#} r (markError now u c cat r)"
proof (cases "map_of (rstates r) (lifecycleKey u c)")
  case None
  then show ?thesis by (simp add: markError_def op_ok_refl [OF assms])
next
  case (Some s0)
  have "state_ok S (nextToken r) (lifecycleKey u c) s0" by (rule reg_ok_state [OF assms Some])
  with Some show ?thesis
    by (auto simp: markError_def state_ok_def state_key_def handle_of_None Let_def
        intro!: op_put_same [OF assms])
qed

section \<open>Disconnecting a list of states\<close>

text \<open>The handles of a state are closed after its state is marked; several states are marked first
  and their handles closed afterwards. The order does not matter for the account.\<close>

lemma mark_op:
  assumes "reg_ok S r" "map_of (rstates r) (state_key s) = Some s"
  shows "op_ok S {#} r (close_handles (handle_of s) (markDisconnected now why s r))"
  using reg_ok_state [OF assms] assms(2)
  by (auto simp: markDisconnected_eq state_ok_def intro!: op_put [OF assms(1)])

lemma markDisconnected_map:
  "map_of (rstates (markDisconnected now why s r))
     = (map_of (rstates r))(state_key s \<mapsto> disconnected_state now why (nextToken r) s)"
  by (simp add: markDisconnected_eq)

lemma mark_all_op:
  assumes "reg_ok S r" "distinct (map state_key ss)" "\<And>s. s \<in> set ss \<Longrightarrow> map_of (rstates r) (state_key s) = Some s"
  shows "op_ok S {#} r (close_handles (concat (map handle_of ss)) (fold (markDisconnected now why) ss r))"
  using assms
proof (induction ss arbitrary: r)
  case Nil
  then show ?case by (simp add: op_ok_refl)
next
  case (Cons s ss)
  let ?r = "markDisconnected now why s r"
  let ?e = "fold (markDisconnected now why) ss ?r"
  have m: "op_ok S {#} r (close_handles (handle_of s) ?r)" by (rule mark_op) (use Cons.prems in auto)
  have "op_ok S {#} ?r (close_handles (concat (map handle_of ss)) ?e)"
  proof (rule Cons.IH)
    show "reg_ok S ?r" using m by (simp add: op_ok_def)
    show "map_of (rstates ?r) (state_key x) = Some x" if "x \<in> set ss" for x
      using Cons.prems that by (auto simp: markDisconnected_map) (metis imageI)
  qed (use Cons.prems in simp)
  with m have "balance ?e + mset (concat (map handle_of ss)) + mset (handle_of s) = balance r"
    and "tokens_le r ?e" "reg_ok S ?e"
    using tokens_le_trans by (auto simp: op_ok_close)
  then show ?case by (simp add: op_ok_close ac_simps)
qed

lemma picked_states:
  assumes "reg_ok S r"
  shows "distinct (map state_key (filter P (map snd (rstates r))))"
    and "s \<in> set (filter P (map snd (rstates r))) \<Longrightarrow> map_of (rstates r) (state_key s) = Some s"
proof -
  have "state_key (snd p) = fst p" if "p \<in> set (rstates r)" for p
    using assms that js_entries_iff [of "rstates r" "fst p" "snd p"] by (auto simp: reg_ok_def state_ok_def)
  then have "map state_key (map snd (rstates r)) = js_keys (rstates r)" by (simp add: js_keys_def)
  then have "distinct (map state_key (map snd (rstates r)))" using assms by (simp add: reg_ok_def)
  then show "distinct (map state_key (filter P (map snd (rstates r))))" by (rule distinct_map_filter)
  show "map_of (rstates r) (state_key s) = Some s" if "s \<in> set (filter P (map snd (rstates r)))"
    using reg_ok_entry [OF assms] that by simp
qed


lemma disconnect_op: "reg_ok S r \<Longrightarrow> op_ok S {#} r (disconnect now u c why r)"
proof (cases "map_of (rstates r) (lifecycleKey u c)")
  case None
  then show "reg_ok S r \<Longrightarrow> ?thesis" by (simp add: disconnect_def op_ok_refl)
next
  case (Some s)
  assume r: "reg_ok S r"
  then have "lifecycleKey u c = state_key s" using reg_ok_state [OF r Some] by (simp add: state_ok_def)
  with Some show ?thesis using mark_op [OF r, of s now why] by (simp add: disconnect_def)
qed

lemma disconnect_all_op:
  "reg_ok S r \<Longrightarrow> op_ok S {#} r (disconnect_all now why (filter P (map snd (rstates r))) r)"
  unfolding disconnect_all_def by (rule mark_all_op) (use picked_states in blast)+

lemma op_ok_frame:
  "op_ok S new r r1 \<Longrightarrow> rstates r2 = rstates r1 \<Longrightarrow> nextToken r2 = nextToken r1 \<Longrightarrow> rclosed r2 = rclosed r1
     \<Longrightarrow> op_ok S new r r2"
  by (simp add: op_ok_def reg_ok_def tokens_le_def balance_def held_def)

lemma sweepIdle_op: "reg_ok S r \<Longrightarrow> op_ok S {#} r (snd (sweepIdle at r))"
  by (rule op_ok_frame [OF disconnect_all_op]) (simp_all add: sweepIdle_def Let_def)

lemma closeForUser_op: "reg_ok S r \<Longrightarrow> op_ok S {#} r (closeForUser now u r)"
  by (simp add: closeForUser_def disconnect_all_op)

text \<open>Sessions that \<open>register\<close> added are not in the histories below; the map of them stays empty.\<close>

lemma fold_mark_sessions [simp]:
  "rsessions (fold (markDisconnected now why) ss r) = rsessions r"
  by (induction ss arbitrary: r) (simp_all add: markDisconnected_eq)

lemma put_state_rsessions: "put_state k s (r\<lparr>rsessions := x\<rparr>) = (put_state k s r)\<lparr>rsessions := x\<rparr>"
  by (simp add: put_state_def notifyStatus_def)

lemma fold_mark_with:
  "fold (markDisconnected now why) ss (r\<lparr>rsessions := x\<rparr>) = (fold (markDisconnected now why) ss r)\<lparr>rsessions := x\<rparr>"
proof (induction ss arbitrary: r)
  case Nil
  show ?case by simp
next
  case (Cons s ss)
  have "markDisconnected now why s (r\<lparr>rsessions := x\<rparr>) = (markDisconnected now why s r)\<lparr>rsessions := x\<rparr>"
    by (simp add: markDisconnected_def put_state_def notifyStatus_def)
  then show ?case using Cons by simp
qed

lemma closeForConnection_op:
  assumes "reg_ok S r" "rsessions r = []"
  shows "op_ok S {#} r (closeForConnection now c r)"
  by (rule op_ok_frame [OF disconnect_all_op [OF assms(1), of now None "\<lambda>s. connId s = c"]])
    (simp_all add: closeForConnection_def Let_def assms(2) disconnect_all_def fold_mark_with)

lemma closeAll_op:
  assumes "reg_ok S r" "rsessions r = []"
  shows "op_ok S {#} r (closeAll now r)"
  by (rule op_ok_frame [OF disconnect_all_op [OF assms(1), of now None "\<lambda>s. True"]])
    (simp_all add: closeAll_def Let_def assms(2) disconnect_all_def)

section \<open>What disconnecting a list of states does\<close>

lemma mark_all_other:
  "k \<notin> state_key ` set ss \<Longrightarrow> map_of (rstates (fold (markDisconnected now why) ss r)) k = map_of (rstates r) k"
  by (induction ss arbitrary: r) (simp_all add: markDisconnected_map)

lemma mark_all_picked:
  assumes "distinct (map state_key ss)" "s \<in> set ss"
  shows "\<exists>t. map_of (rstates (fold (markDisconnected now why) ss r)) (state_key s)
           = Some (disconnected_state now why t s)"
  using assms
proof (induction ss arbitrary: r)
  case Nil
  then show ?case by simp
next
  case (Cons x ss)
  then show ?case by (cases "s = x") (auto simp: mark_all_other markDisconnected_map)
qed

lemma disconnect_all_effect:
  assumes "reg_ok S r" "map_of (rstates r) k = Some s"
  shows "if P s
         then \<exists>t. map_of (rstates (disconnect_all now why (filter P (map snd (rstates r))) r)) k
                = Some (disconnected_state now why t s)
         else map_of (rstates (disconnect_all now why (filter P (map snd (rstates r))) r)) k = Some s"
proof -
  let ?ss = "filter P (map snd (rstates r))"
  have k: "k = state_key s" using reg_ok_state [OF assms] by (simp add: state_ok_def)
  have s: "s \<in> set (map snd (rstates r))" using map_of_SomeD [OF assms(2)] by force
  show ?thesis
  proof (cases "P s")
    case True
    then show ?thesis using mark_all_picked [OF picked_states(1) [OF assms(1), of P], of s now why r] s k by (simp add: disconnect_all_def)
  next
    case False
    have "k \<notin> state_key ` set ?ss"
      using False assms picked_states(2) [OF assms(1), where P = P] by fastforce
    then show ?thesis using mark_all_other [of k ?ss now why r] assms(2) False by (simp add: disconnect_all_def)
  qed
qed

lemma mark_all_fields:
  "rclosed (fold (markDisconnected now why) ss r) = rclosed r"
  "ridle (fold (markDisconnected now why) ss r) = ridle r"
  by (induction ss arbitrary: r) (simp_all add: markDisconnected_eq)

section \<open>Histories\<close>

definition conn_start :: "('i, 'c) registry \<Rightarrow> ('i, 'c) conn_run" where
  "conn_start r = \<lparr>reg = r, opened = [], issued = [], settled = [], lost = []\<rparr>"

text \<open>No reservation that was given out has the token of a connection that was disconnected.\<close>

definition issued_ok :: "reservation list \<Rightarrow> ('i, 'c) registry \<Rightarrow> bool" where
  "issued_ok xs r \<longleftrightarrow> (\<forall>x \<in> set xs. res_token x < nextToken r
     \<and> (\<forall>k s. map_of (rstates r) k = Some s \<longrightarrow> status s = Disconnected \<longrightarrow> token s \<noteq> res_token x))"

definition conn_inv :: "('i, 'c) conn_run \<Rightarrow> bool" where
  "conn_inv h \<longleftrightarrow> reg_ok (set (settled h)) (reg h) \<and> rsessions (reg h) = [] \<and> issued_ok (issued h) (reg h)
     \<and> distinct (opened h) \<and> mset (opened h) = balance (reg h) + mset (lost h)"

definition conn_le :: "('i, 'c) conn_run \<Rightarrow> ('i, 'c) conn_run \<Rightarrow> bool" where
  "conn_le h h' \<longleftrightarrow> tokens_le (reg h) (reg h')"

lemma rsessions_ops:
  "rsessions (snd (reserve now u c r)) = rsessions r"
  "rsessions (connect_opened now res s i cap l a cat r) = rsessions r"
  "rsessions (fail now res cat r) = rsessions r" "rsessions (touch now u c lat r) = rsessions r"
  "rsessions (disconnect now u c why r) = rsessions r" "rsessions (markError now u c cat r) = rsessions r"
  "rsessions (snd (sweepIdle now r)) = rsessions r" "rsessions (closeForUser now u r) = rsessions r"
  "rsessions r = [] \<Longrightarrow> rsessions (closeForConnection now c r) = []"
  "rsessions (closeAll now r) = []"
  by (simp_all add: reserve_def connect_opened_def complete_def fail_def touch_def disconnect_def Let_def
      markError_def sweepIdle_def disconnect_all_def closeForUser_def closeForConnection_def closeAll_def
      markDisconnected_eq js_delete_def split: option.splits)

section \<open>Tokens that were given out\<close>

text \<open>A state that is disconnected after an operation was so before, or has a token that is new.\<close>

definition rests_fresh :: "('i, 'c) registry \<Rightarrow> ('i, 'c) registry \<Rightarrow> bool" where
  "rests_fresh r r' \<longleftrightarrow> nextToken r \<le> nextToken r' \<and> (\<forall>k s. map_of (rstates r') k = Some s \<longrightarrow> status s = Disconnected \<longrightarrow>
     map_of (rstates r) k = Some s \<or> nextToken r \<le> token s)"

lemma rests_issued: "rests_fresh r r' \<Longrightarrow> issued_ok xs r \<Longrightarrow> issued_ok xs r'"
  unfolding rests_fresh_def issued_ok_def by fastforce

lemma rests_refl: "rests_fresh r r"
  by (simp add: rests_fresh_def)

lemma rests_trans: "rests_fresh r s \<Longrightarrow> rests_fresh s t \<Longrightarrow> rests_fresh r t"
  unfolding rests_fresh_def by (meson order_trans)

lemma rests_frame: "rstates r' = rstates r \<Longrightarrow> nextToken r' = nextToken r \<Longrightarrow> rests_fresh r r'"
  by (simp add: rests_fresh_def)

lemma rests_put: "status s \<noteq> Disconnected \<Longrightarrow> nextToken r \<le> n \<Longrightarrow> rests_fresh r (put_state k s (r\<lparr>nextToken := n\<rparr>))"
  by (simp add: rests_fresh_def)

lemmas rests_put_same = rests_put [where n = "nextToken r" and r = r for r, simplified]

lemma rests_mark: "rests_fresh r (markDisconnected now why s r)"
  by (simp add: rests_fresh_def markDisconnected_eq)

lemma rests_mark_all: "rests_fresh r (fold (markDisconnected now why) ss r)"
  by (induction ss arbitrary: r) (auto simp: rests_refl intro: rests_trans [OF rests_mark])

lemma rests_ops:
  "rests_fresh r (snd (reserve now u c r))"
  "rests_fresh r (connect_opened now res s i cap l a cat r)"
  "rests_fresh r (fail now res cat r)" "rests_fresh r (touch now u c lat r)"
  "rests_fresh r (disconnect now u c why r)" "rests_fresh r (markError now u c cat r)"
proof -
  show "rests_fresh r (snd (reserve now u c r))"
    by (auto simp: reserve_def Let_def rests_refl intro!: rests_put split: option.split)
  show fails: "rests_fresh r (fail now res cat r)" for r
    by (auto simp: fail_def rests_refl intro!: rests_put_same split: option.split)
  have "rests_fresh r (snd (complete now res s i cap l r))"
    by (auto simp: complete_def rests_refl intro!: rests_put_same split: option.split)
  then show "rests_fresh r (connect_opened now res s i cap l a cat r)"
    using rests_trans [OF _ fails, of r "snd (complete now res s i cap l r)"]
    by (cases "complete now res s i cap l r")
      (auto simp: connect_opened_def intro: rests_trans [OF _ rests_frame] split: bool.split)
  show "rests_fresh r (touch now u c lat r)"
    by (auto simp: touch_def Let_def rests_refl intro!: rests_put_same split: option.split)
  show "rests_fresh r (disconnect now u c why r)"
    by (auto simp: disconnect_def rests_refl intro: rests_trans [OF rests_mark rests_frame] split: option.split)
  show "rests_fresh r (markError now u c cat r)"
    by (auto simp: markError_def Let_def rests_fresh_def split: option.split if_splits)
qed

lemma rests_closings:
  "rests_fresh r (snd (sweepIdle now r))" "rests_fresh r (closeForUser now u r)"
  "rests_fresh r (closeForConnection now c r)" "rests_fresh r (closeAll now r)"
  by (auto simp: sweepIdle_def closeForUser_def closeForConnection_def closeAll_def disconnect_all_def Let_def fold_mark_with
      intro!: rests_trans [OF rests_mark_all rests_frame])

lemma reserved_issued:
  assumes "reserve now u c r = (Reserved res, r')" "issued_ok xs r" "reg_ok S r"
  shows "issued_ok (res # xs) r'"
proof -
  have "issued_ok xs r'" using rests_issued [OF rests_ops(1) assms(2)] assms(1) by (metis snd_conv)
  moreover have "res_token res = nextToken r" "nextToken r' = nextToken r + 1"
    "map_of (rstates r') k = Some s \<Longrightarrow> status s = Disconnected \<Longrightarrow> map_of (rstates r) k = Some s" for k s
    using assms(1) by (auto simp: reserve_def Let_def split: option.splits if_splits)
  moreover have "token s < nextToken r" if "map_of (rstates r) k = Some s" for k s
    using reg_ok_state [OF assms(3) that] by (simp add: state_ok_def)
  ultimately show ?thesis by (fastforce simp: issued_ok_def)
qed

section \<open>Every event\<close>

lemma conn_step_op:
  assumes "op_ok (set (settled h)) {#} (reg h) r'" "rsessions r' = []" "rests_fresh (reg h) r'" "conn_inv h"
  shows "conn_inv (h\<lparr>reg := r'\<rparr>) \<and> conn_le h (h\<lparr>reg := r'\<rparr>)"
  using assms rests_issued [OF assms(3)] by (simp add: conn_inv_def conn_le_def op_ok_def)

lemma conn_step_ok:
  assumes "conn_inv h"
  shows "conn_inv (conn_step h e) \<and> conn_le h (conn_step h e)"
proof -
  have r: "reg_ok (set (settled h)) (reg h)" and s: "rsessions (reg h) = []" and x: "issued_ok (issued h) (reg h)"
    using assms by (simp_all add: conn_inv_def)
  note ops = rsessions_ops s
  show ?thesis
  proof (cases e)
    case (CReserve now u c)
    obtain y r' where y: "reserve now u c (reg h) = (y, r')" by (cases "reserve now u c (reg h)")
    have step: "conn_inv (h\<lparr>reg := r'\<rparr>) \<and> conn_le h (h\<lparr>reg := r'\<rparr>)"
      using conn_step_op [OF reserve_op [OF r, of now u c] _ rests_ops(1) assms] ops(1) [of now u c "reg h"] s y by simp
    show ?thesis
    proof (cases y)
      case (Reserved res)
      then show ?thesis using step reserved_issued [of now u c "reg h" res r', OF _ x r] y
        by (simp add: CReserve conn_inv_def conn_le_def)
    qed (use step y in \<open>simp_all add: CReserve\<close>)
  next
    case (COpened now res sess i cap l audited cat)
    let ?S = "insert (res_token res) (set (settled h))"
    have "op_ok ?S (if fst (complete now res sess i cap l (reg h)) \<and> \<not> audited then {#} else {#handle sess#}) (reg h)
        (connect_opened now res sess i cap l audited cat (reg h))"
      by (rule connect_opened_op [OF reg_ok_mono [OF r]]) auto
    with assms rests_issued [OF rests_ops(2) x] show ?thesis
      by (auto simp: COpened conn_inv_def conn_le_def op_ok_def ops split: if_splits)
  next
    case (CFailed now res cat)
    show ?thesis
    proof (cases "settles h res")
      case True
      then have "op_ok (set (settled h)) {#} (reg h) (fail now res cat (reg h))"
        by (intro fail_op [OF r]) (simp add: settles_def)
      with True assms rests_issued [OF rests_ops(3) x] show ?thesis
        by (auto simp: CFailed conn_inv_def conn_le_def op_ok_def ops intro: reg_ok_mono)
    qed (simp add: CFailed assms conn_le_def)
  qed (simp_all add: conn_step_op assms ops touch_op [OF r] disconnect_op [OF r]
        markError_op [OF r] sweepIdle_op [OF r] closeForUser_op [OF r] closeForConnection_op [OF r s]
        closeAll_op [OF r s] rests_ops rests_closings)
qed

interpretation conn: handler_invariant conn_step conn_inv
  by unfold_locales (simp add: conn_step_ok)

interpretation conn_order: handler_order conn_step conn_inv conn_le
  by unfold_locales (simp add: conn_step_ok, simp add: conn_le_def, auto simp: conn_le_def intro: tokens_le_trans)

lemma conn_start_inv: "new_registry idle = Some r \<Longrightarrow> conn_inv (conn_start r)"
  by (auto simp: new_registry_def Let_def conn_inv_def conn_start_def reg_ok_def balance_def held_def issued_ok_def
      js_keys_def split: if_splits)

end
