(* ===== verification/ConnectionsProps.thy ===== *)
theory ConnectionsProps
  imports ConnectionsInv
begin

text \<open>
  What the connection registry guarantees, over every history of its operations: handles are never
  lost nor closed twice, a connection that was given up stays given up, and sign-out and the idle
  sweep close exactly what they should.
\<close>

section \<open>A concrete history\<close>

text \<open>Two users connect; the first touches the connection, a third reservation stays open.\<close>

definition sample_reservation :: "string \<Rightarrow> string \<Rightarrow> int \<Rightarrow> reservation" where
  "sample_reservation u c t = \<lparr>res_userId = u, res_connectionId = c, res_key = lifecycleKey u c, res_token = t\<rparr>"

definition sample_session :: "string \<Rightarrow> string \<Rightarrow> nat \<Rightarrow> active_session" where
  "sample_session u c n = \<lparr>suserId = Some u, sconnectionId = c, handle = n\<rparr>"

definition sample_registry :: "(nat, nat) registry" where
  "sample_registry = the (new_registry (Some 1))"

definition sample_history :: "(nat, nat) conn_event list" where
  "sample_history =
     [CReserve 0 ''u'' ''c'', COpened 5 (sample_reservation ''u'' ''c'' 1) (sample_session ''u'' ''c'' 7) 0 0 5 True ''x'',
      CReserve 6 ''v'' ''c'', COpened 9 (sample_reservation ''v'' ''c'' 2) (sample_session ''v'' ''c'' 8) 0 0 3 True ''x'',
      CTouch 70000 ''v'' ''c'' None, CReserve 70000 ''u'' ''d'']"

lemma sample_registry: "new_registry (Some 1) = Some sample_registry"
  by (simp add: sample_registry_def new_registry_def)

section \<open>Handles\<close>

lemma lost_only_unaudited:
  "x \<in> set (lost (foldl conn_step h es)) \<Longrightarrow> x \<in> set (lost h)
     \<or> (\<exists>now res sess i c l cat. COpened now res sess i c l False cat \<in> set es \<and> handle sess = x)"
proof (induction es arbitrary: h)
  case (Cons e es)
  then have "x \<in> set (lost (conn_step h e))
      \<or> (\<exists>now res sess i c l cat. COpened now res sess i c l False cat \<in> set es \<and> handle sess = x)" by simp
  moreover have "x \<in> set (lost h) \<or> (\<exists>now res sess i c l cat. e = COpened now res sess i c l False cat \<and> handle sess = x)"
    if "x \<in> set (lost (conn_step h e))"
    using that by (cases e) (auto simp: split_beta split: if_splits)
  ultimately show ?case by fastforce
qed simp

text \<open>
  Claim C6: Over every history of connects, failures, disconnects, errors, idle sweeps and closings,
  every handle a provider has opened is either held by exactly one connection in the state
  \<open>connected\<close>, or has been closed exactly once, or was lost: its connection was completed, but the entry of
  this success in the audit log was refused. No other handle leaks, none is closed twice and none is
  both held and closed. A state has a session exactly when its status is \<open>connected\<close>.
\<close>

theorem handles_accounted:
  assumes "new_registry idle = Some r0" "h = foldl conn_step (conn_start r0) es"
  shows "distinct (opened h) \<and> mset (opened h) = mset (rclosed (reg h)) + mset (held (reg h)) + mset (lost h)
    \<and> (\<forall>x \<in> set (lost h). \<exists>now res sess i c l cat. COpened now res sess i c l False cat \<in> set es \<and> handle sess = x)
    \<and> (\<forall>k s. map_of (rstates (reg h)) k = Some s \<longrightarrow> (session s \<noteq> None \<longleftrightarrow> status s = Connected))"
proof -
  have "conn_inv h" unfolding assms(2) by (rule conn.run_inv [OF conn_start_inv [OF assms(1)]])
  moreover have "\<forall>x \<in> set (lost h). \<exists>now res sess i c l cat. COpened now res sess i c l False cat \<in> set es \<and> handle sess = x"
    using lost_only_unaudited [of _ "conn_start r0" es] by (simp add: assms(2) conn_start_def)
  ultimately show ?thesis by (simp add: conn_inv_def balance_def reg_ok_def state_ok_def)
qed

text \<open>One handle is closed by the sweep, one by the user, and one is lost.\<close>

definition longer_history :: "(nat, nat) conn_event list" where
  "longer_history = sample_history @ [CSweep 65000, CDisconnect 71000 ''v'' ''c'' None,
     COpened 72000 (sample_reservation ''u'' ''d'' 3) (sample_session ''u'' ''d'' 9) 0 0 4 False ''audit'']"

theorem handles_accounted_witness:
  "let h = foldl conn_step (conn_start sample_registry) longer_history
   in mset (opened h) = mset (rclosed (reg h)) + mset (held (reg h)) + mset (lost h) \<and> length (opened h) = 3 \<and> lost h = [9]"
proof -
  have "length (opened (foldl conn_step (conn_start sample_registry) longer_history)) = 3"
    "lost (foldl conn_step (conn_start sample_registry) longer_history) = [9]"
    by code_simp+
  then show ?thesis
    using handles_accounted [OF sample_registry refl, of longer_history] by (simp add: Let_def)
qed

section \<open>A connection that was given up\<close>

text \<open>
  A connection attempt that is overtaken by a disconnect stays overtaken: whatever happens
  before and after the disconnect, including further attempts of the same user for the same
  connection, the completion of the old reservation is refused, leaves every state as it is and
  closes the handle it came with.
\<close>

theorem late_completion_refused:
  assumes "new_registry idle = Some r0" "h = foldl conn_step (conn_start r0) es"
    and "fst (reserve now u c (reg h)) = Reserved res"
    and "h1 = foldl conn_step (conn_step h (CReserve now u c)) es1"
    and "h2 = foldl conn_step (conn_step h1 (CDisconnect t u c why)) es2"
  shows "\<not> fst (complete t' res s i cap l (reg h2))
    \<and> connect_opened t' res s i cap l a cat (reg h2) = close_handles [handle s] (reg h2)"
proof -
  let ?k = "lifecycleKey u c" and ?g = "conn_step h (CReserve now u c)" and ?d = "conn_step h1 (CDisconnect t u c why)"
  have inv: "conn_inv h" unfolding assms(2) by (rule conn.run_inv [OF conn_start_inv [OF assms(1)]])
  have inv1: "conn_inv h1" unfolding assms(4) by (intro conn.run_inv conn.handle_inv inv)
  have "res_key res = ?k \<and> (\<exists>s0. map_of (rstates (reg ?g)) ?k = Some s0 \<and> token s0 = res_token res)"
    using assms(3) by (auto simp: reserve_def Let_def split_beta split: option.splits if_splits)
  moreover have "conn_le ?g h1" unfolding assms(4) by (intro conn_order.run_le conn.handle_inv inv)
  ultimately obtain s1 where k: "res_key res = ?k" and s1: "map_of (rstates (reg h1)) ?k = Some s1" "res_token res \<le> token s1"
    unfolding conn_le_def tokens_le_def by metis
  have s1k: "?k = state_key s1" "token s1 < nextToken (reg h1)"
    using reg_ok_state [OF _ s1(1)] inv1 by (auto simp: conn_inv_def state_ok_def)
  have "map_of (rstates (reg ?d)) ?k = Some (disconnected_state t why (nextToken (reg h1)) s1)"
    using s1(1) s1k(1) by (simp add: disconnect_def markDisconnected_map)
  moreover have "conn_le ?d h2" unfolding assms(5) by (intro conn_order.run_le conn.handle_inv inv1)
  ultimately obtain s2 where "map_of (rstates (reg h2)) ?k = Some s2" "nextToken (reg h1) \<le> token s2"
    unfolding conn_le_def tokens_le_def by fastforce
  then have "complete t' res s i cap l (reg h2) = (False, reg h2)"
    using k s1(2) s1k(2) by (simp add: complete_def)
  then show ?thesis by (simp add: connect_opened_def)
qed

text \<open>The user disconnects while the provider is still opening, and connects again.\<close>

theorem late_completion_refused_witness:
  "\<not> fst (complete 9 (sample_reservation ''u'' ''d'' 5) (sample_session ''u'' ''d'' 9) 0 0 1
      (reg (foldl conn_step (conn_step (conn_step (foldl conn_step (conn_start sample_registry)
         (sample_history @ [CDisconnect 71000 ''u'' ''d'' None])) (CReserve 71001 ''u'' ''d''))
         (CDisconnect 71002 ''u'' ''d'' None)) [CReserve 71003 ''u'' ''d''])))"
proof -
  have r: "fst (reserve 71001 ''u'' ''d'' (reg (foldl conn_step (conn_start sample_registry)
      (sample_history @ [CDisconnect 71000 ''u'' ''d'' None])))) = Reserved (sample_reservation ''u'' ''d'' 5)"
    by code_simp
  show ?thesis
    using late_completion_refused [OF sample_registry refl r refl refl, of 9 _ 0 0 1 "[]" 71002 None]
    by (simp only: foldl_Nil not_False_eq_True)
qed

section \<open>Closing by user and by idle time\<close>

text \<open>
  Signing a user out disconnects every connection of that user, open or being opened,
  closes exactly the handles they held, and leaves the connections of all other users alone.
\<close>

theorem sign_out_closes_user:
  assumes "new_registry idle = Some r0" "h = foldl conn_step (conn_start r0) es"
    and "map_of (rstates (reg h)) k = Some s" "h' = conn_step h (CCloseUser now u)"
  shows "(if userId s = u then \<exists>t. map_of (rstates (reg h')) k = Some (disconnected_state now None t s)
          else map_of (rstates (reg h')) k = Some s)
    \<and> rclosed (reg h') = rclosed (reg h)
        @ concat (map handle_of (filter (\<lambda>x. userId x = u) (map snd (rstates (reg h)))))"
proof -
  have "conn_inv h" unfolding assms(2) by (rule conn.run_inv [OF conn_start_inv [OF assms(1)]])
  then have "reg_ok (set (settled h)) (reg h)" by (simp add: conn_inv_def)
  note E = disconnect_all_effect [OF this assms(3), of "\<lambda>x. userId x = u" now None]
  show ?thesis
  proof
    show "if userId s = u then \<exists>t. map_of (rstates (reg h')) k = Some (disconnected_state now None t s)
          else map_of (rstates (reg h')) k = Some s"
      using E by (simp add: assms(4) closeForUser_def)
  qed (simp add: assms(4) closeForUser_def disconnect_all_def mark_all_fields)
qed

theorem sign_out_closes_user_witness:
  "rclosed (reg (conn_step (foldl conn_step (conn_start sample_registry) sample_history) (CCloseUser 80000 ''u''))) = [7]"
proof -
  let ?h = "foldl conn_step (conn_start sample_registry) sample_history"
  have "map_option userId (map_of (rstates (reg ?h)) (lifecycleKey ''u'' ''c'')) = Some ''u''"
    "rclosed (reg ?h) = []"
    "concat (map handle_of (filter (\<lambda>x. userId x = ''u'') (map snd (rstates (reg ?h))))) = [7]"
    by code_simp+
  then show ?thesis
    using sign_out_closes_user [OF sample_registry refl _ refl, of sample_history "lifecycleKey ''u'' ''c''"] by auto
qed

text \<open>
  The idle sweep disconnects exactly the open connections without activity for the idle
  time, with the reason \<open>idle_closed\<close>; all other states stay as they are. It reports their number,
  tells the idle listener of each of them and closes their handles, in order.
\<close>

theorem sweep_closes_exactly_idle:
  assumes "new_registry idle = Some r0" "h = foldl conn_step (conn_start r0) es"
    and "map_of (rstates (reg h)) k = Some s" "h' = conn_step h (CSweep at)"
    and "stale = (\<lambda>x. status x = Connected \<and> at - lastActivityAt x \<ge> idleTimeout (reg h) * 60000)"
    and "picked = filter stale (map snd (rstates (reg h)))"
  shows "(if stale s then \<exists>t. map_of (rstates (reg h')) k = Some (disconnected_state at (Some IdleClosed) t s)
          else map_of (rstates (reg h')) k = Some s)
    \<and> fst (sweepIdle at (reg h)) = length picked
    \<and> rclosed (reg h') = rclosed (reg h) @ concat (map handle_of picked)
    \<and> ridle (reg h') = ridle (reg h) @ map (\<lambda>x. (userId x, connId x)) picked"
proof -
  have "conn_inv h" unfolding assms(2) by (rule conn.run_inv [OF conn_start_inv [OF assms(1)]])
  then have "reg_ok (set (settled h)) (reg h)" by (simp add: conn_inv_def)
  note E = disconnect_all_effect [OF this assms(3), of stale at "Some IdleClosed"]
  have h': "rstates (reg h') = rstates (disconnect_all at (Some IdleClosed) picked (reg h))"
    by (simp add: assms(4-6) sweepIdle_def Let_def)
  show ?thesis
  proof
    show "if stale s then \<exists>t. map_of (rstates (reg h')) k = Some (disconnected_state at (Some IdleClosed) t s)
          else map_of (rstates (reg h')) k = Some s"
      using E unfolding h' assms(6) by (simp only:)
  qed (simp add: assms(4-6) sweepIdle_def Let_def disconnect_all_def mark_all_fields)
qed

text \<open>At 65 s the first user has been idle for the minute, the second has just been active.\<close>

theorem sweep_closes_exactly_idle_witness:
  "fst (sweepIdle 75000 (reg (foldl conn_step (conn_start sample_registry) sample_history))) = 1"
proof -
  let ?h = "foldl conn_step (conn_start sample_registry) sample_history"
  have "map_option userId (map_of (rstates (reg ?h)) (lifecycleKey ''u'' ''c'')) = Some ''u''"
    "length (filter (\<lambda>x. status x = Connected \<and> 75000 - lastActivityAt x \<ge> idleTimeout (reg ?h) * 60000)
       (map snd (rstates (reg ?h)))) = 1"
    by code_simp+
  then show ?thesis
    using sweep_closes_exactly_idle [OF sample_registry refl _ refl refl refl, of sample_history
        "lifecycleKey ''u'' ''c''" _ 75000] by auto
qed

section \<open>A failure of the audit log\<close>

text \<open>
  When the connection was opened but the audit entry of the success cannot be written,
  the state of the connection becomes an error without a session, and the handle is not closed: it
  is then neither held nor closed.
\<close>

theorem audit_failure_leaks_handle:
  assumes "fst (complete now res s i cap l r)"
  shows "rclosed (connect_opened now res s i cap l False cat r) = rclosed r
    \<and> (\<exists>x. map_of (rstates (connect_opened now res s i cap l False cat r)) (res_key res) = Some x
           \<and> status x = ErrorState \<and> session x = None)"
proof -
  obtain r1 where c: "complete now res s i cap l r = (True, r1)" using assms by (cases "complete now res s i cap l r") auto
  then show ?thesis
    by (auto simp: complete_def connect_opened_def fail_def split: option.splits if_splits)
qed

theorem audit_failure_leaks_handle_witness:
  "rclosed (connect_opened 1 (sample_reservation ''u'' ''c'' 1) (sample_session ''u'' ''c'' 7) 0 0 1 False ''x''
      (snd (reserve 0 ''u'' ''c'' sample_registry))) = []"
proof -
  have c: "fst (complete 1 (sample_reservation ''u'' ''c'' 1) (sample_session ''u'' ''c'' 7) 0 0 1
      (snd (reserve 0 ''u'' ''c'' sample_registry)))"
    "rclosed (snd (reserve 0 ''u'' ''c'' sample_registry)) = []" by code_simp+
  then show ?thesis using audit_failure_leaks_handle [OF c(1)] by simp
qed

end
