(* ===== verification/ConnectionsRefine.thy ===== *)
theory ConnectionsRefine
  imports ConnectionsProps
begin

text \<open>
  The registry against its abstract specification: for each user and connection one link, which is
  unused, off, opening under a token, live with one handle, or faulty, and which moves by a function of
  what happens to it. Every event of a history moves every link exactly as this function says.
\<close>

section \<open>The abstract link\<close>

text \<open>A live link knows the time of its last activity.\<close>

datatype link = Unused | Off | Opening int | Live nat time | Faulty

text \<open>
  What can happen to a link: an attempt to open it begins under a new token; the attempt of a token ends
  with a handle, whose success entry is written or not, or with a failure; the link is used, breaks, is
  closed, or is swept at a time with a threshold.
\<close>

datatype link_input =
    Begins int | Opens int nat time bool | Fails int | Used time | Breaks | Closes | Swept time int | Nothing

text \<open>Only the attempt that opens the link decides how it ends; attempts that were overtaken do nothing.\<close>

fun link_next :: "link_input \<Rightarrow> link \<Rightarrow> link" where
  "link_next (Begins t) l = (case l of Opening _ \<Rightarrow> l | Live _ _ \<Rightarrow> l | _ \<Rightarrow> Opening t)"
| "link_next (Opens t h now audited) l = (if l = Opening t then if audited then Live h now else Faulty else l)"
| "link_next (Fails t) l = (if l = Opening t then Faulty else l)"
| "link_next (Used now) l = (case l of Live h _ \<Rightarrow> Live h now | _ \<Rightarrow> l)"
| "link_next Breaks l = (if l = Unused then Unused else Faulty)"
| "link_next Closes l = (if l = Unused then Unused else Off)"
| "link_next (Swept now limit) l = (case l of Live h t \<Rightarrow> if now - t \<ge> limit then Off else l | _ \<Rightarrow> l)"
| "link_next Nothing l = l"

definition link_of :: "('i, 'c) registry \<Rightarrow> string \<Rightarrow> link" where
  "link_of r k =
     (case map_of (rstates r) k of
        None \<Rightarrow> Unused
      | Some s \<Rightarrow>
          (case status s of
             Disconnected \<Rightarrow> Off
           | Connecting \<Rightarrow> Opening (token s)
           | Connected \<Rightarrow> (case session s of None \<Rightarrow> Off | Some x \<Rightarrow> Live (handle x) (lastActivityAt s))
           | ErrorState \<Rightarrow> Faulty))"

text \<open>What an event of the history is for the link of a key.\<close>

definition about :: "(('i, 'c) lifecycle_state \<Rightarrow> bool) \<Rightarrow> ('i, 'c) conn_run \<Rightarrow> string \<Rightarrow> link_input" where
  "about P h k = (case map_of (rstates (reg h)) k of None \<Rightarrow> Nothing | Some s \<Rightarrow> if P s then Closes else Nothing)"

fun link_event :: "('i, 'c) conn_run \<Rightarrow> ('i, 'c) conn_event \<Rightarrow> string \<Rightarrow> link_input" where
  "link_event h (CReserve now u c) k = (if lifecycleKey u c = k then Begins (nextToken (reg h)) else Nothing)"
| "link_event h (COpened now res sess info cap lat audited cat) k =
     (if settles h res \<and> handle sess \<notin> set (opened h) \<and> res_key res = k
      then Opens (res_token res) (handle sess) now audited else Nothing)"
| "link_event h (CFailed now res cat) k = (if settles h res \<and> res_key res = k then Fails (res_token res) else Nothing)"
| "link_event h (CTouch now u c lat) k = (if lifecycleKey u c = k then Used now else Nothing)"
| "link_event h (CDisconnect now u c why) k = (if lifecycleKey u c = k then Closes else Nothing)"
| "link_event h (CMarkError now u c cat) k = (if lifecycleKey u c = k then Breaks else Nothing)"
| "link_event h (CSweep now) k = Swept now (idleTimeout (reg h) * 60000)"
| "link_event h (CCloseConnection now c) k = about (\<lambda>s. connId s = c) h k"
| "link_event h (CCloseUser now u) k = about (\<lambda>s. userId s = u) h k"
| "link_event h (CCloseAll now) k = Closes"

section \<open>The operations\<close>

lemma link_frame: "rstates r' = rstates r \<Longrightarrow> link_of r' k = link_of r k"
  by (simp add: link_of_def)

lemma link_put:
  "link_of (put_state k s r) l =
     (if l = k then (case status s of
        Disconnected \<Rightarrow> Off | Connecting \<Rightarrow> Opening (token s)
      | Connected \<Rightarrow> (case session s of None \<Rightarrow> Off | Some x \<Rightarrow> Live (handle x) (lastActivityAt s))
      | ErrorState \<Rightarrow> Faulty) else link_of r l)"
  by (simp add: link_of_def)

lemma link_next_token [simp]:
  "link_of (r\<lparr>nextToken := n\<rparr>) k = link_of r k" "link_of (close_handles hs r) k = link_of r k"
  by (simp_all add: link_of_def)

lemma reserve_link:
  assumes "reg_ok S r"
  shows "link_of (snd (reserve now u c r)) k = (if lifecycleKey u c = k then link_next (Begins (nextToken r)) (link_of r k) else link_of r k)"
proof (cases "map_of (rstates r) (lifecycleKey u c)")
  case None
  then show ?thesis by (auto simp: reserve_def Let_def link_put) (simp add: link_of_def)
next
  case (Some s)
  then show ?thesis using reg_ok_state [OF assms Some]
    by (cases "status s") (auto simp: reserve_def Let_def link_put link_of_def state_ok_def)
qed

lemma opening_state:
  "link_of r k = Opening t \<longleftrightarrow> (\<exists>s. map_of (rstates r) k = Some s \<and> status s = Connecting \<and> token s = t)"
  by (cases "map_of (rstates r) k") (auto simp: link_of_def split: lifecycle_status.split option.split)

lemma complete_link:
  assumes "complete now res sess i c l r = (b, r')"
  shows "b = (link_of r (res_key res) = Opening (res_token res)) \<and>
     link_of r' k = (if b \<and> res_key res = k then Live (handle sess) now else link_of r k)"
proof (cases "link_of r (res_key res) = Opening (res_token res)")
  case True
  then show ?thesis using assms unfolding opening_state by (auto simp: complete_def link_put)
next
  case False
  then have "complete now res sess i c l r = (False, r)"
    unfolding opening_state by (auto simp: complete_def split: option.split)
  then show ?thesis using assms False by simp
qed

lemma opened_link:
  "link_of (connect_opened now res sess i c l audited cat r) k =
     (if res_key res = k then link_next (Opens (res_token res) (handle sess) now audited) (link_of r k) else link_of r k)"
proof -
  obtain b r1 where c: "complete now res sess i c l r = (b, r1)" by (cases "complete now res sess i c l r")
  note L = complete_link [OF c]
  show ?thesis
  proof (cases "b \<and> \<not> audited")
    case True
    then obtain s where "map_of (rstates r1) (res_key res) = Some s" "token s = res_token res"
      using c by (auto simp: complete_def split: option.splits if_splits)
    then have "link_of (fail now res cat r1) k = (if res_key res = k then Faulty else link_of r1 k)"
      by (auto simp: fail_def link_put)
    then show ?thesis using L [of k] True c by (auto simp: connect_opened_def)
  qed (use L [of k] c in \<open>auto simp: connect_opened_def split: bool.split\<close>)
qed

text \<open>A reservation that is not settled fails only the attempt it was made for.\<close>

lemma failed_link:
  assumes "conn_inv h" "settles h res"
  shows "link_of (fail now res cat (reg h)) k = (if res_key res = k then link_next (Fails (res_token res)) (link_of (reg h) k) else link_of (reg h) k)"
proof (cases "map_of (rstates (reg h)) (res_key res)")
  case None
  then show ?thesis by (auto simp: fail_def link_of_def)
next
  case (Some s)
  have "state_ok (set (settled h)) (nextToken (reg h)) (res_key res) s"
    using assms(1) Some by (simp add: conn_inv_def reg_ok_def)
  moreover have "status s = Disconnected \<longrightarrow> token s \<noteq> res_token res"
    using assms Some by (auto simp: conn_inv_def issued_ok_def settles_def)
  moreover have "res_token res \<notin> set (settled h)" using assms(2) by (simp add: settles_def)
  ultimately show ?thesis using Some
    by (cases "status s") (auto simp: fail_def link_put link_of_def state_ok_def)
qed

lemma touch_link:
  "link_of (touch now u c lat r) k = (if lifecycleKey u c = k then link_next (Used now) (link_of r k) else link_of r k)"
  by (auto simp: touch_def Let_def link_put link_of_def split: option.splits lifecycle_status.splits)

lemma markError_link:
  "link_of (markError now u c cat r) k = (if lifecycleKey u c = k then link_next Breaks (link_of r k) else link_of r k)"
  by (auto simp: markError_def Let_def link_put link_of_def split: option.splits lifecycle_status.splits)

section \<open>Closing many\<close>

lemma closed_link:
  assumes "reg_ok S r" "rstates r' = rstates (disconnect_all now why (filter P (map snd (rstates r))) r)"
  shows "link_of r' k = (case map_of (rstates r) k of None \<Rightarrow> Unused | Some s \<Rightarrow> if P s then Off else link_of r k)"
proof (cases "map_of (rstates r) k")
  case None
  have "k \<notin> state_key ` set (filter P (map snd (rstates r)))"
    using None picked_states(2) [OF assms(1), where P = P] by (metis imageE option.distinct(1))
  then have "map_of (rstates r') k = None" using mark_all_other [of k _ now why r] None by (simp add: assms(2) disconnect_all_def)
  then show ?thesis using None by (simp add: link_of_def)
next
  case (Some s)
  then show ?thesis using disconnect_all_effect [OF assms(1) Some, of P now why] unfolding assms(2) [symmetric]
    by (auto simp: link_of_def split: if_splits)
qed

lemma disconnect_link:
  assumes "reg_ok S r"
  shows "link_of (disconnect now u c why r) k = (if lifecycleKey u c = k then link_next Closes (link_of r k) else link_of r k)"
proof (cases "map_of (rstates r) (lifecycleKey u c)")
  case None
  then show ?thesis by (auto simp: disconnect_def link_of_def)
next
  case (Some s)
  then have "state_key s = lifecycleKey u c" using reg_ok_state [OF assms Some] by (simp add: state_ok_def)
  moreover have "link_of r (lifecycleKey u c) \<noteq> Unused"
    using Some by (auto simp: link_of_def split: lifecycle_status.splits option.splits)
  ultimately show ?thesis using Some by (auto simp: disconnect_def markDisconnected_eq link_put)
qed

lemma closings:
  "rstates (snd (sweepIdle at r)) =
     rstates (disconnect_all at (Some IdleClosed) (filter (\<lambda>s. status s = Connected \<and> at - lastActivityAt s \<ge> idleTimeout r * 60000)
       (map snd (rstates r))) r)"
  "rstates (closeForConnection now c r) = rstates (disconnect_all now None (filter (\<lambda>s. connId s = c) (map snd (rstates r))) r)"
  "rstates (closeForUser now u r) = rstates (disconnect_all now None (filter (\<lambda>s. userId s = u) (map snd (rstates r))) r)"
  "rstates (closeAll now r) = rstates (disconnect_all now None (filter (\<lambda>s. True) (map snd (rstates r))) r)"
  by (simp_all add: sweepIdle_def closeForConnection_def closeForUser_def closeAll_def disconnect_all_def Let_def fold_mark_with)

lemma sweep_link:
  assumes "reg_ok S r"
  shows "link_of (snd (sweepIdle at r)) k = link_next (Swept at (idleTimeout r * 60000)) (link_of r k)"
proof (cases "map_of (rstates r) k")
  case (Some s)
  then show ?thesis using reg_ok_state [OF assms Some] closed_link [OF assms closings(1), of at k]
    by (cases "status s") (auto simp: link_of_def state_ok_def)
next
  case None
  then have "link_of (snd (sweepIdle at r)) k = Unused" using closed_link [OF assms closings(1), of at k] by simp
  then show ?thesis using None by (simp add: link_of_def)
qed

lemma link_used: "map_of (rstates r) k = Some s \<Longrightarrow> link_of r k \<noteq> Unused"
  by (auto simp: link_of_def split: lifecycle_status.splits option.splits)

lemma about_link:
  assumes "reg_ok S (reg h)" "rstates r' = rstates (disconnect_all now why (filter P (map snd (rstates (reg h)))) (reg h))"
  shows "link_of r' k = link_next (about P h k) (link_of (reg h) k)"
  using closed_link [OF assms, of k] link_used [of "reg h" k]
  by (auto simp: about_def link_of_def split: option.split)

section \<open>Properties\<close>

text \<open>
  Claim C13: along every history of the registry, each event moves the abstract link of every key exactly
  as the specification says. So an attempt that was overtaken by a disconnect or a later attempt neither
  opens nor breaks the link, a live link keeps its handle until it is closed or breaks, and the sweep closes
  exactly the links that were idle for the limit.
\<close>

theorem registry_refines_links:
  assumes "new_registry idle = Some r0" "h = foldl conn_step (conn_start r0) es"
  shows "link_of (reg (conn_step h e)) k = link_next (link_event h e k) (link_of (reg h) k)"
proof -
  have inv: "conn_inv h" unfolding assms(2) by (rule conn.run_inv [OF conn_start_inv [OF assms(1)]])
  then have r: "reg_ok (set (settled h)) (reg h)" by (simp add: conn_inv_def)
  show ?thesis
  proof (cases e)
    case (CReserve now u c)
    then show ?thesis using reserve_link [OF r, of now u c k] by (auto simp: split_beta)
  next
    case (CCloseAll now)
    then show ?thesis using about_link [OF r closings(4), of now k] by (cases "map_of (rstates (reg h)) k")
      (auto simp: about_def link_of_def)
  qed (auto simp: opened_link failed_link [OF inv] touch_link markError_link disconnect_link [OF r] sweep_link [OF r]
      about_link [OF r closings(2)] about_link [OF r closings(3)])
qed

text \<open>The first attempt of a user is overtaken by a disconnect and a second one, which its handle does not open.\<close>

theorem registry_refines_links_witness:
  "let h = foldl conn_step (conn_start sample_registry)
        (sample_history @ [CDisconnect 71002 ''u'' ''d'' None, CReserve 71003 ''u'' ''d''])
   in link_of (reg (conn_step h (COpened 71004 (sample_reservation ''u'' ''d'' 3) (sample_session ''u'' ''d'' 9) 0 0 1 True ''x'')))
        (lifecycleKey ''u'' ''d'') = Opening 5"
proof -
  let ?es = "sample_history @ [CDisconnect 71002 ''u'' ''d'' None, CReserve 71003 ''u'' ''d'']"
  let ?h = "foldl conn_step (conn_start sample_registry) ?es"
  have "link_of (reg ?h) (lifecycleKey ''u'' ''d'') = Opening 5" by code_simp
  then show ?thesis
    using registry_refines_links [OF sample_registry refl, of ?es
        "COpened 71004 (sample_reservation ''u'' ''d'' 3) (sample_session ''u'' ''d'' 9) 0 0 1 True ''x''" "lifecycleKey ''u'' ''d''"]
    by (simp add: Let_def sample_reservation_def)
qed

end
