(* ===== verification/QueryResults.thy ===== *)
theory QueryResults
  imports Prelude "HOL-Library.Word"
begin

unbundle bit_operations_syntax

text \<open>
  How query results become values of the API: \<open>packages/database-core/src/contracts/query.ts\<close>.
  A driver value that JavaScript turns into text by a library function (\<open>String\<close> of a number,
  \<open>toISOString\<close> of a date, \<open>JSON.stringify\<close> of an object) is represented by that text.
\<close>

section \<open>Base64\<close>

definition base64_alphabet :: string where
  "base64_alphabet = ''ABCDEFGHIJKLMNOPQRSTUVWXYZabcdefghijklmnopqrstuvwxyz0123456789+/''"

definition b64 :: "nat \<Rightarrow> char" where
  "b64 n = base64_alphabet ! n"

text \<open>Three bytes per turn of the loop; the last turn may have one or two.\<close>

fun base64_bytes :: "nat list \<Rightarrow> string" where
  "base64_bytes [] = []"
| "base64_bytes [a] = [b64 (drop_bit 2 a), b64 (push_bit 4 (a AND 3) OR drop_bit 4 0), CHR ''='', CHR ''='']"
| "base64_bytes [a, b] =
     [b64 (drop_bit 2 a), b64 (push_bit 4 (a AND 3) OR drop_bit 4 b),
      b64 (push_bit 2 (b AND 15) OR drop_bit 6 0), CHR ''='']"
| "base64_bytes (a # b # c # bytes) =
     [b64 (drop_bit 2 a), b64 (push_bit 4 (a AND 3) OR drop_bit 4 b),
      b64 (push_bit 2 (b AND 15) OR drop_bit 6 c), b64 (c AND 63)] @ base64_bytes bytes"

definition bytesToBase64 :: "8 word list \<Rightarrow> string" where
  "bytesToBase64 bytes = base64_bytes (map unat bytes)"

section \<open>Cells and rows\<close>

datatype db_value =
    VNull | VUndefined | VDate string | VBigint int | VNumber string | VBoolean bool
  | VString string | VBytes "8 word list" | VObject string

datatype query_cell =
    CNull | CString string | CNumber string | CBoolean bool | CDate string | CBytes string | CJson string

fun serializeQueryCell :: "db_value \<Rightarrow> query_cell" where
  "serializeQueryCell VNull = CNull"
| "serializeQueryCell VUndefined = CNull"
| "serializeQueryCell (VDate s) = CDate s"
| "serializeQueryCell (VBigint n) = CNumber (show_int n)"
| "serializeQueryCell (VNumber s) = CNumber s"
| "serializeQueryCell (VBoolean b) = CBoolean b"
| "serializeQueryCell (VString s) = CString s"
| "serializeQueryCell (VBytes bs) = CBytes (bytesToBase64 bs)"
| "serializeQueryCell (VObject s) = CJson s"

type_synonym data_row = "(string, db_value) jsmap"
type_synonym serialized_row = "(string, query_cell) jsmap"

record query_result =
  columns :: "string list"
  rows :: "data_row list"
  affectedRows :: "int option"
  durationMs :: "int option"

record serialized_result =
  scolumns :: "string list"
  srows :: "serialized_row list"
  saffectedRows :: "int option"
  sdurationMs :: "int option"
  totalRows :: nat
  truncated :: bool

definition add_columns :: "string list \<Rightarrow> data_row list \<Rightarrow> string list" where
  "add_columns cols rs =
     fold (\<lambda>row cs. fold (\<lambda>c cs. if c \<notin> set cs then cs @ [c] else cs) (js_keys row) cs) rs cols"

definition row_value :: "data_row \<Rightarrow> string \<Rightarrow> db_value" where
  "row_value row c = (case map_of row c of None \<Rightarrow> VUndefined | Some v \<Rightarrow> v)"

definition serialize_row :: "string list \<Rightarrow> data_row \<Rightarrow> serialized_row" where
  "serialize_row cols row = foldl (\<lambda>m c. js_set m c (serializeQueryCell (row_value row c))) [] cols"

definition serializeQueryResult :: "query_result \<Rightarrow> nat \<Rightarrow> serialized_result" where
  "serializeQueryResult r maxRows =
     (let lim = (if 0 < maxRows then maxRows else 1000);
          cols = add_columns (js_unique (columns r)) (rows r)
      in \<lparr>scolumns = cols, srows = map (serialize_row cols) (take lim (rows r)),
          saffectedRows = affectedRows r, sdurationMs = durationMs r,
          totalRows = length (rows r), truncated = length (rows r) > lim\<rparr>)"

section \<open>Decoding Base64\<close>

text \<open>The decoder of RFC 4648, as the specification of the encoder.\<close>

fun sextet_index :: "string \<Rightarrow> char \<Rightarrow> nat" where
  "sextet_index [] c = 0"
| "sextet_index (a # as) c = (if a = c then 0 else Suc (sextet_index as c))"

definition sextet :: "char \<Rightarrow> nat" where
  "sextet c = sextet_index base64_alphabet c"

fun base64_decode :: "string \<Rightarrow> nat list" where
  "base64_decode (p # q # r # s # rest) =
     (let b0 = sextet p * 4 + sextet q div 16;
          b1 = sextet q mod 16 * 16 + sextet r div 4;
          b2 = sextet r mod 4 * 64 + sextet s
      in if r = CHR ''='' then [b0] else if s = CHR ''='' then [b0, b1]
         else b0 # b1 # b2 # base64_decode rest)"
| "base64_decode _ = []"

lemma sextet_index_nth: "distinct as \<Longrightarrow> n < length as \<Longrightarrow> sextet_index as (as ! n) = n"
proof (induction as arbitrary: n)
  case (Cons a as)
  then show ?case by (cases n) (auto dest: nth_mem)
qed simp

lemma alphabet: "distinct base64_alphabet" "length base64_alphabet = 64" "CHR ''='' \<notin> set base64_alphabet"
  by code_simp+

lemma sextet_b64 [simp]: "n < 64 \<Longrightarrow> sextet (b64 n) = n"
  by (simp add: sextet_def b64_def sextet_index_nth alphabet)

lemma b64_not_pad [simp]: "n < 64 \<Longrightarrow> b64 n \<noteq> CHR ''=''"
  using alphabet(2,3) nth_mem [of n base64_alphabet] unfolding b64_def by metis

lemma split_bits:
  fixes a b :: nat
  assumes "b < 2 ^ (8 - n)" "n \<le> 8"
  shows "push_bit (8 - n) (a AND mask k) OR b = a mod 2 ^ k * 2 ^ (8 - n) + b"
proof -
  have "push_bit (8 - n) (take_bit k a) AND b = 0"
  proof (rule bit_eqI)
    fix m
    show "bit (push_bit (8 - n) (take_bit k a) AND b) m = bit 0 m"
      using assms(1) bit_take_bit_iff [of "8 - n" b m] take_bit_nat_eq_self [OF assms(1)]
      by (auto simp: bit_and_iff bit_push_bit_iff)
  qed
  then have "push_bit (8 - n) (take_bit k a) OR b = push_bit (8 - n) (take_bit k a) + b"
    by (simp add: disjunctive_add_eq_or)
  then show ?thesis by (simp add: take_bit_eq_mask [symmetric] push_bit_eq_mult take_bit_eq_mod)
qed

lemma bits_sextet:
  fixes a b c :: nat
  shows "drop_bit 2 a = a div 4" "c AND 63 = c mod 64"
    and "b < 256 \<Longrightarrow> push_bit 4 (a AND 3) OR drop_bit 4 b = a mod 4 * 16 + b div 16"
    and "c < 256 \<Longrightarrow> push_bit 2 (b AND 15) OR drop_bit 6 c = b mod 16 * 4 + c div 64"
proof -
  have m: "mask 2 = (3::nat)" "mask 4 = (15::nat)" "mask 6 = (63::nat)" by code_simp+
  show "drop_bit 2 a = a div 4" by (simp add: drop_bit_eq_div)
  show "c AND 63 = c mod 64" using take_bit_eq_mask [of 6 c] by (simp add: m take_bit_eq_mod)
  show "b < 256 \<Longrightarrow> push_bit 4 (a AND 3) OR drop_bit 4 b = a mod 4 * 16 + b div 16"
    using split_bits [of "b div 16" 4 a 2] by (simp add: m drop_bit_eq_div less_mult_imp_div_less)
  show "c < 256 \<Longrightarrow> push_bit 2 (b AND 15) OR drop_bit 6 c = b mod 16 * 4 + c div 64"
    using split_bits [of "c div 64" 6 b 4] by (simp add: m drop_bit_eq_div less_mult_imp_div_less)
qed

lemma byte_of_sextets:
  fixes a b c :: nat
  assumes "a < 256" "b < 256" "c < 256"
  shows "a div 4 < 64" "a mod 4 * 16 + b div 16 < 64" "b mod 16 * 4 + c div 64 < 64" "c mod 64 < 64"
    and "a div 4 * 4 + (a mod 4 * 16 + b div 16) div 16 = a"
    and "(a mod 4 * 16 + b div 16) mod 16 * 16 + (b mod 16 * 4 + c div 64) div 4 = b"
    and "(b mod 16 * 4 + c div 64) mod 4 * 64 + c mod 64 = c"
proof -
  have d: "b div 16 < 16" "c div 64 < 4" "a mod 4 < 4" "b mod 16 < 16" using assms by auto
  show "a div 4 < 64" using assms by auto
  show "a mod 4 * 16 + b div 16 < 64" "b mod 16 * 4 + c div 64 < 64" "c mod 64 < 64" using d by auto
  show "a div 4 * 4 + (a mod 4 * 16 + b div 16) div 16 = a" using d by auto
  show "(a mod 4 * 16 + b div 16) mod 16 * 16 + (b mod 16 * 4 + c div 64) div 4 = b" using d by auto
  show "(b mod 16 * 4 + c div 64) mod 4 * 64 + c mod 64 = c" using d by auto
qed

lemma base64_three:
  assumes "b < 256" "c < 256"
  shows "base64_bytes (a # b # c # bytes) =
    [b64 (a div 4), b64 (a mod 4 * 16 + b div 16), b64 (b mod 16 * 4 + c div 64), b64 (c mod 64)] @ base64_bytes bytes"
  by (simp only: base64_bytes.simps bits_sextet(1,2) bits_sextet(3) [OF assms(1)] bits_sextet(4) [OF assms(2)])

lemma decode_three:
  assumes "p < 64" "q < 64" "r < 64" "s < 64"
  shows "base64_decode ([b64 p, b64 q, b64 r, b64 s] @ rest)
    = (p * 4 + q div 16) # (q mod 16 * 16 + r div 4) # (r mod 4 * 64 + s) # base64_decode rest"
  using assms by (simp add: Let_def)

lemma decode_bytes: "list_all (\<lambda>b. b < 256) bs \<Longrightarrow> base64_decode (base64_bytes bs) = bs"
proof (induction bs rule: base64_bytes.induct)
  case 1
  show ?case by simp
next
  case (2 a)
  then show ?case
    using byte_of_sextets [of a 0 0] bits_sextet(3) [of 0 a] by (simp add: bits_sextet(1))
next
  case (3 a b)
  then show ?case
    using byte_of_sextets [of a b 0] bits_sextet(3) [of b a] bits_sextet(4) [of 0 b]
    by (simp add: bits_sextet(1) Let_def)
next
  case (4 a b c bs)
  then have l: "a < 256" "b < 256" "c < 256" and IH: "base64_decode (base64_bytes bs) = bs" by simp_all
  show ?case
    unfolding base64_three [OF l(2,3)] decode_three [OF byte_of_sextets(1-4) [OF l]]
    by (simp only: byte_of_sextets(5-7) [OF l] IH)
qed

text \<open>
  Binary values lose nothing on their way to the API: decoding the text of
  \<open>bytesToBase64\<close> by the standard's rules gives the bytes back, with either padding.
\<close>

theorem base64_round_trip: "map of_nat (base64_decode (bytesToBase64 bs)) = (bs :: 8 word list)"
proof -
  have "list_all (\<lambda>b. b < 256) (map unat bs)"
    using unsigned_less [where ?'b = 8 and ?'a = nat] by (auto simp: list_all_iff)
  then show ?thesis by (simp add: bytesToBase64_def decode_bytes comp_def)
qed

section \<open>Columns\<close>

lemma add_row_columns:
  "distinct cs \<Longrightarrow> distinct (fold (\<lambda>c cs. if c \<notin> set cs then cs @ [c] else cs) ks cs)"
  "set (fold (\<lambda>c cs. if c \<notin> set cs then cs @ [c] else cs) ks cs) = set cs \<union> set ks"
  "prefix cs (fold (\<lambda>c cs. if c \<notin> set cs then cs @ [c] else cs) ks cs)"
proof (induction ks arbitrary: cs)
  case (Cons k ks)
  { case 1 then show ?case using Cons by simp
  next case 2 then show ?case using Cons by auto
  next case 3 then show ?case using Cons(3) [of "cs @ [k]"] Cons(3) [of cs] by (auto dest: append_prefixD) }
qed simp_all

lemma add_columns_Cons:
  "add_columns cs (r # rs)
     = add_columns (fold (\<lambda>c cs. if c \<notin> set cs then cs @ [c] else cs) (js_keys r) cs) rs"
  by (simp add: add_columns_def)

lemma distinct_add_columns: "distinct cs \<Longrightarrow> distinct (add_columns cs rs)"
  by (induction rs arbitrary: cs) (simp_all only: add_columns_Cons add_row_columns(1), simp add: add_columns_def)

lemma set_add_columns: "set (add_columns cs rs) = set cs \<union> (\<Union>row \<in> set rs. set (js_keys row))"
  by (induction rs arbitrary: cs) (auto simp: add_columns_Cons add_row_columns(2), auto simp: add_columns_def)

lemma prefix_add_columns: "prefix cs (add_columns cs rs)"
proof (induction rs arbitrary: cs)
  case Nil
  show ?case by (simp add: add_columns_def)
next
  case (Cons r rs)
  show ?case unfolding add_columns_Cons by (rule prefix_order.trans [OF add_row_columns(3) Cons])
qed

lemma serialize_row:
  assumes "distinct cols"
  shows "js_keys (serialize_row cols row) = cols"
    and "map_of (serialize_row cols row) c = (if c \<in> set cols then Some (serializeQueryCell (row_value row c)) else None)"
proof -
  have *: "distinct (js_keys m @ cs) \<Longrightarrow>
      foldl (\<lambda>m c. js_set m c (serializeQueryCell (row_value row c))) m cs
        = m @ map (\<lambda>c. (c, serializeQueryCell (row_value row c))) cs" for m cs
  proof (induction cs arbitrary: m)
    case (Cons c cs)
    have "js_set m c v = m @ [(c, v)]" if "c \<notin> set (js_keys m)" for v :: query_cell
      using that by (induction m c v rule: js_set.induct) (auto simp: js_keys_def)
    then show ?case using Cons by (simp add: js_keys_def)
  qed simp
  then have e: "serialize_row cols row = map (\<lambda>c. (c, serializeQueryCell (row_value row c))) cols"
    using assms by (simp add: serialize_row_def js_keys_def)
  show "js_keys (serialize_row cols row) = cols" by (simp add: e js_keys_def comp_def)
  show "map_of (serialize_row cols row) c = (if c \<in> set cols then Some (serializeQueryCell (row_value row c)) else None)"
    by (simp add: e map_of_map_restrict restrict_map_def)
qed

text \<open>
  The serialized result has each column once, the driver's columns first and in its
  order; every row has exactly these columns, with the serialized value of the driver's row or null;
  at most the limit of rows is kept (the first ones), and \<open>truncated\<close> and \<open>totalRows\<close> tell of the rest.
\<close>

theorem result_rows_complete:
  assumes "s = serializeQueryResult r maxRows" "lim = (if 0 < maxRows then maxRows else 1000)"
  shows "distinct (scolumns s) \<and> prefix (js_unique (columns r)) (scolumns s)
    \<and> length (srows s) = min lim (length (rows r)) \<and> totalRows s = length (rows r)
    \<and> (truncated s \<longleftrightarrow> length (srows s) < totalRows s)
    \<and> (\<forall>i < length (srows s). js_keys (srows s ! i) = scolumns s
         \<and> (\<forall>c. (map_of (rows r ! i) c \<noteq> None \<longrightarrow> c \<in> set (scolumns s))
              \<and> (c \<in> set (scolumns s) \<longrightarrow>
                  map_of (srows s ! i) c = Some (serializeQueryCell (row_value (rows r ! i) c)))))"
proof -
  define cols where "cols = add_columns (js_unique (columns r)) (rows r)"
  have d: "distinct cols" unfolding cols_def by (rule distinct_add_columns) (simp add: js_unique_def)
  have p: "prefix (js_unique (columns r)) cols" unfolding cols_def by (rule prefix_add_columns)
  have k: "c \<in> set cols" if "i < length (rows r)" "map_of (rows r ! i) c \<noteq> None" for i c
    using that nth_mem [of i "rows r"] by (auto simp: cols_def set_add_columns js_keys_iff)
  have s: "scolumns s = cols" "srows s = map (serialize_row cols) (take lim (rows r))"
    "totalRows s = length (rows r)" "truncated s = (length (rows r) > lim)"
    by (simp_all add: assms serializeQueryResult_def Let_def cols_def)
  show ?thesis
    using d p k by (auto simp: s serialize_row [OF d])
qed

theorem result_rows_complete_witness:
  "truncated (serializeQueryResult \<lparr>columns = [''a'', ''a''],
      rows = [[(''a'', VBigint (- 12)), (''b'', VBytes [77, 97])], [(''b'', VNull)]],
      affectedRows = None, durationMs = None\<rparr> 1) \<and> show_int (- 12) = ''-12'' \<and> bytesToBase64 [77, 97] = ''TWE=''"
proof -
  let ?r = "\<lparr>columns = [''a'', ''a''],
      rows = [[(''a'', VBigint (- 12)), (''b'', VBytes [77, 97])], [(''b'', VNull)]],
      affectedRows = None, durationMs = None\<rparr>"
  have "length (srows (serializeQueryResult ?r 1)) < totalRows (serializeQueryResult ?r 1)"
    "show_int (- 12) = ''-12''" "bytesToBase64 [77, 97] = ''TWE=''" by code_simp+
  then show ?thesis using result_rows_complete [OF refl refl, of ?r 1] by simp
qed

end
