(* ===== verification/QueryText.thy ===== *)
theory QueryText
  imports SplitPostgresql SplitMysql QueryResults
begin

text \<open>
  The pure part of \<open>apps/server/src/query/query-execution.ts\<close>: validation of the requests, the
  position of an error in the text, the statements that change the transaction state, the statement
  at the cursor. An offset or a limit that is not an integer has no representation.
\<close>

section \<open>Types\<close>

datatype query_mode = Selection | Full | StatementAtCursor

datatype exec_state = ExQueued | ExRunning | ExCancelling | ExCompleted | ExFailed | ExCancelled

datatype stmt_state = StPending | StRunning | StDone | StError | StSkipped

datatype query_error_code =
    QUERY_NOT_FOUND | NOT_CONNECTED | QUERY_VALIDATION_FAILED | QUERY_UNAVAILABLE
  | QUERY_CANCEL_FAILED | QUERY_UNSUPPORTED | QUERY_BUSY

fun code_text :: "query_error_code \<Rightarrow> string" where
  "code_text QUERY_NOT_FOUND = ''QUERY_NOT_FOUND''"
| "code_text NOT_CONNECTED = ''NOT_CONNECTED''"
| "code_text QUERY_VALIDATION_FAILED = ''QUERY_VALIDATION_FAILED''"
| "code_text QUERY_UNAVAILABLE = ''QUERY_UNAVAILABLE''"
| "code_text QUERY_CANCEL_FAILED = ''QUERY_CANCEL_FAILED''"
| "code_text QUERY_UNSUPPORTED = ''QUERY_UNSUPPORTED''"
| "code_text QUERY_BUSY = ''QUERY_BUSY''"

record service_error =
  sv_code :: query_error_code
  sv_message :: string
  sv_status :: nat

datatype error_position = AtNumber int | AtPlace "int option" "int option" "int option"

text \<open>What a provider, the connection manager or the service throws.\<close>

datatype query_thrown =
    ThrownDb string string "error_position option" | ThrownManager string string
  | ThrownService service_error | ThrownOther

record error_snapshot =
  er_code :: string
  er_category :: string
  er_message :: string
  er_position :: "int option"

record start_input =
  in_connectionId :: string
  in_database :: string
  in_schema :: "string option"
  in_sql :: string
  in_mode :: query_mode
  in_tabSessionId :: string
  in_sourceOffset :: "int option"
  in_cursorOffset :: "int option"

section \<open>Validation\<close>

definition isPositiveOffset :: "int option \<Rightarrow> bool" where
  "isPositiveOffset v = (case v of None \<Rightarrow> True | Some n \<Rightarrow> 0 \<le> n \<and> n \<le> 9007199254740991)"

definition normalizedText :: "string \<Rightarrow> string \<Rightarrow> service_error + string" where
  "normalizedText v field =
     (let n = js_trim v in
      if n = [] then Inl \<lparr>sv_code = QUERY_VALIDATION_FAILED, sv_message = field @ '' must not be empty.'',
                          sv_status = 422\<rparr>
      else Inr n)"

definition invalid :: "string \<Rightarrow> service_error" where
  "invalid m = \<lparr>sv_code = QUERY_VALIDATION_FAILED, sv_message = m, sv_status = 422\<rparr>"

text \<open>The mode is one of the three by its type. The properties are evaluated in source order.\<close>

definition validateStartInput :: "start_input \<Rightarrow> service_error + start_input" where
  "validateStartInput i =
     (if \<not> isPositiveOffset (in_sourceOffset i) \<or> \<not> isPositiveOffset (in_cursorOffset i)
        then Inl (invalid ''Query offsets are invalid.'')
      else if in_mode i = StatementAtCursor \<and> in_cursorOffset i = None
        then Inl (invalid ''A cursor offset is required for statementAtCursor.'')
      else and_then (normalizedText (in_connectionId i) ''Connection id'') (\<lambda>c.
           and_then (normalizedText (in_database i) ''Database'') (\<lambda>d.
           and_then (normalizedText (in_sql i) ''SQL'') (\<lambda>q.
           and_then (normalizedText (in_tabSessionId i) ''Tab session id'') (\<lambda>t.
           and_then (case in_schema i of None \<Rightarrow> Inr None
                     | Some s \<Rightarrow> and_then (normalizedText s ''Schema'') (\<lambda>x. Inr (Some x))) (\<lambda>s.
           Inr (i\<lparr>in_connectionId := c, in_database := d, in_sql := q, in_tabSessionId := t,
                  in_schema := s\<rparr>)))))))"

section \<open>The position of an error\<close>

definition clamp :: "string \<Rightarrow> int \<Rightarrow> int" where
  "clamp sql n = max 0 (min (int (length sql)) n)"

text \<open>\<open>lines[index] ?? ''\<close> summed up for the lines before \<open>line\<close>.\<close>

definition line_start :: "string \<Rightarrow> int \<Rightarrow> int" where
  "line_start sql line =
     (let lines = js_split (CHR 0x0A) sql in
      sum_list (map (\<lambda>k. (if k < length lines then int (length (lines ! k)) else 0) + 1) [0..<nat (line - 1)]))"

fun errorOffset :: "error_position option \<Rightarrow> string \<Rightarrow> int option" where
  "errorOffset None sql = None"
| "errorOffset (Some (AtNumber n)) sql = Some (clamp sql (n - 1))"
| "errorOffset (Some (AtPlace line column offset)) sql =
     (case offset of
        Some n \<Rightarrow> Some (clamp sql (n - 1))
      | None \<Rightarrow>
          (case line of None \<Rightarrow> None
           | Some l \<Rightarrow> Some (clamp sql (line_start sql l + max 0 ((case column of None \<Rightarrow> 1 | Some c \<Rightarrow> c) - 1)))))"

fun queryError :: "query_thrown \<Rightarrow> string \<Rightarrow> int \<Rightarrow> error_snapshot" where
  "queryError (ThrownDb cat m pos) sql start =
     \<lparr>er_code = ''DB_'' @ ascii_upper cat, er_category = cat, er_message = m,
      er_position = map_option (\<lambda>n. start + n) (errorOffset pos sql)\<rparr>"
| "queryError (ThrownManager c m) sql start =
     \<lparr>er_code = c, er_category = ''connection'', er_message = m, er_position = None\<rparr>"
| "queryError (ThrownService e) sql start =
     \<lparr>er_code = code_text (sv_code e), er_category = ''query'', er_message = sv_message e, er_position = None\<rparr>"
| "queryError ThrownOther sql start =
     \<lparr>er_code = ''QUERY_EXECUTION_FAILED'', er_category = ''internal'',
      er_message = ''The query could not be completed.'', er_position = None\<rparr>"

section \<open>Transaction commands\<close>

fun skip_block :: "string \<Rightarrow> string option" where
  "skip_block [] = None"
| "skip_block (c # r) = (if c = CHR ''*'' \<and> next_is (CHR ''/'') r then Some (tl r) else skip_block r)"

definition skip_line :: "string \<Rightarrow> string" where
  "skip_line s = drop 1 (dropWhile (\<lambda>c. c \<noteq> CHR 0x0A) s)"

lemma skip_block_length: "skip_block s = Some r \<Longrightarrow> length r < length s"
  by (induction s) (fastforce split: if_splits)+

lemma skip_line_length: "length (skip_line s) \<le> length s"
  unfolding skip_line_def by (metis diff_le_self le_trans length_drop length_dropWhile_le)

text \<open>The leading white space and comments that the regular expression removes.\<close>

function strip_comments :: "string \<Rightarrow> string" where
  "strip_comments s =
     (case s of
        [] \<Rightarrow> []
      | c # r \<Rightarrow>
          if js_ws c then strip_comments r
          else if c = CHR ''/'' \<and> next_is (CHR ''*'') r \<and> skip_block (tl r) \<noteq> None
            then strip_comments (the (skip_block (tl r)))
          else if c = CHR ''-'' \<and> next_is (CHR ''-'') r then strip_comments (skip_line (tl r))
          else if c = CHR ''#'' then strip_comments (skip_line r)
          else s)"
  by pat_completeness auto
termination
proof (relation "measure length", goal_cases)
  case 1
  show ?case by simp
next
  case (2 s c r)
  then show ?case by simp
next
  case (3 s c r)
  then obtain x where "skip_block (tl r) = Some x" by blast
  then show ?case using skip_block_length [of "tl r" x] 3 by simp
next
  case (4 s c r)
  then show ?case using skip_line_length [of "tl r"] by simp
next
  case (5 s c r)
  then show ?case using skip_line_length [of r] by simp
qed

declare strip_comments.simps [simp del]

definition word_char :: "char \<Rightarrow> bool" where
  "word_char c \<longleftrightarrow> digit c \<or> c = CHR ''_'' \<or> (let n = (of_char c :: nat) in 65 \<le> n \<and> n \<le> 90 \<or> 97 \<le> n \<and> n \<le> 122)"

text \<open>The keyword, then \<open>\b\<close>; a keyword ends in a word character.\<close>

definition keyword :: "string \<Rightarrow> string \<Rightarrow> bool" where
  "keyword kw s \<longleftrightarrow> take (length kw) s = kw
     \<and> (case drop (length kw) s of [] \<Rightarrow> True | c # _ \<Rightarrow> \<not> word_char c)"

datatype transaction_command = TxBegin | TxEnd

definition transactionCommand :: "string \<Rightarrow> transaction_command option" where
  "transactionCommand sql =
     (let command = js_lower (js_trim (strip_comments sql)) in
      if keyword ''begin'' command
         \<or> take 5 command = ''start'' \<and> (let r = drop 5 command; t = dropWhile js_ws r in t \<noteq> r \<and> keyword ''transaction'' t)
        then Some TxBegin
      else if keyword ''commit'' command \<or> keyword ''rollback'' command \<or> keyword ''end'' command then Some TxEnd
      else None)"

section \<open>Messages and selection\<close>

definition plural :: "int \<Rightarrow> string" where
  "plural n = (if n = 1 then [] else ''s'')"

definition statementMessage :: "serialized_result \<Rightarrow> string" where
  "statementMessage r =
     (case saffectedRows r of
        Some n \<Rightarrow> show_int n @ '' row'' @ plural n @ '' affected.''
      | None \<Rightarrow>
          if truncated r then ''Result truncated, first '' @ show_nat (length (srows r)) @ '' rows shown.''
          else show_nat (totalRows r) @ '' row'' @ plural (int (totalRows r)) @ '' returned.'')"

definition isTerminalState :: "exec_state \<Rightarrow> bool" where
  "isTerminalState s \<longleftrightarrow> s = ExCompleted \<or> s = ExFailed \<or> s = ExCancelled"

definition selectStatementAtCursor :: "query_statement list \<Rightarrow> int \<Rightarrow> query_statement list" where
  "selectStatementAtCursor ss cursor =
     (case find (\<lambda>s. cursor \<ge> int (startOffset s) \<and> cursor \<le> int (endOffset s)) ss of
        Some s \<Rightarrow> [s]
      | None \<Rightarrow> if ss \<noteq> [] then [last ss] else [])"

datatype engine = Postgresql | Mysql

text \<open>\<open>provider.query.splitStatements\<close> of the two providers.\<close>

fun splitStatements :: "engine \<Rightarrow> string \<Rightarrow> query_statement list" where
  "splitStatements Postgresql sql = splitPostgresqlStatements sql"
| "splitStatements Mysql sql = splitMysqlStatements sql"

section \<open>Explain\<close>

record explain_input =
  ex_connectionId :: string
  ex_database :: string
  ex_schema :: "string option"
  ex_sql :: string
  ex_tabSessionId :: "string option"

definition normalizedOption :: "string option \<Rightarrow> string \<Rightarrow> service_error + string option" where
  "normalizedOption v field =
     (case v of None \<Rightarrow> Inr None | Some s \<Rightarrow> and_then (normalizedText s field) (\<lambda>x. Inr (Some x)))"

definition validateExplainInput :: "explain_input \<Rightarrow> service_error + explain_input" where
  "validateExplainInput i =
     and_then (normalizedText (ex_connectionId i) ''Connection id'') (\<lambda>c.
     and_then (normalizedText (ex_database i) ''Database'') (\<lambda>d.
     and_then (normalizedText (ex_sql i) ''SQL'') (\<lambda>q.
     and_then (normalizedOption (ex_schema i) ''Schema'') (\<lambda>s.
     and_then (normalizedOption (ex_tabSessionId i) ''Tab session id'') (\<lambda>t.
     Inr \<lparr>ex_connectionId = c, ex_database = d, ex_schema = s, ex_sql = q, ex_tabSessionId = t\<rparr>)))))"

fun contains_word :: "string \<Rightarrow> bool \<Rightarrow> string \<Rightarrow> bool" where
  "contains_word kw boundary [] \<longleftrightarrow> False"
| "contains_word kw boundary (c # s) \<longleftrightarrow> (boundary \<and> keyword kw (c # s)) \<or> contains_word kw (\<not> word_char c) s"

definition isExplainAnalyze :: "string \<Rightarrow> bool" where
  "isExplainAnalyze sql =
     (let t = js_lower (js_trim sql) in
      take 7 t = ''explain'' \<and>
      (let r = dropWhile js_ws (drop 7 t) in
       keyword ''analyze'' r
       \<or> next_is (CHR ''('') r \<and> CHR '')'' \<in> set r
         \<and> contains_word ''analyze'' True (takeWhile (\<lambda>c. c \<noteq> CHR '')'') (tl r))))"

section \<open>Positions\<close>

lemma errorOffset_bounds: "errorOffset pos sql = Some n \<Longrightarrow> 0 \<le> n \<and> n \<le> int (length sql)"
  by (cases "(pos, sql)" rule: errorOffset.cases) (auto simp: clamp_def split: option.splits)

lemma js_split_lines:
  "\<forall>l \<in> set ls. d \<notin> set l \<Longrightarrow> js_split d (concat (map (\<lambda>l. l @ [d]) ls) @ rest) = ls @ js_split d rest"
  by (induction ls) (simp_all add: js_split_Cons)

lemma line_start_lines:
  assumes "\<forall>l \<in> set ls. CHR 0x0A \<notin> set l"
  shows "line_start (concat (map (\<lambda>l. l @ [CHR 0x0A]) ls) @ rest) (int (length ls) + 1)
       = int (length (concat (map (\<lambda>l. l @ [CHR 0x0A]) ls)))"
proof -
  let ?lines = "ls @ js_split (CHR 0x0A) rest"
  have m: "map (\<lambda>k. (if k < length ?lines then int (length (?lines ! k)) else 0) + 1) [0..<length ls]
      = map (\<lambda>l. int (length l) + 1) ls"
    by (rule nth_equalityI) (auto simp: nth_append)
  have s: "sum_list (map (\<lambda>l. int (length l) + 1) xs) = int (length (concat (map (\<lambda>l. l @ [CHR 0x0A]) xs)))"
    for xs :: "string list" by (induction xs) simp_all
  show ?thesis
    using assms m s [of ls] unfolding line_start_def Let_def js_split_lines [OF assms] by simp
qed

text \<open>
  An error that a provider reports by line and column is shown at that character of the
  statement: behind the lines \<open>ls\<close> (each with its line end), column \<open>c\<close> of the next line is the
  offset of these lines plus c - 1.
\<close>

theorem line_and_column_to_offset:
  assumes "sql = concat (map (\<lambda>l. l @ [CHR 0x0A]) ls) @ rest" "\<forall>l \<in> set ls. CHR 0x0A \<notin> set l"
    and "1 \<le> c" "c \<le> int (length rest) + 1"
  shows "er_position (queryError (ThrownDb cat m (Some (AtPlace (Some (int (length ls) + 1)) (Some c) None))) sql start)
       = Some (start + int (length (concat (map (\<lambda>l. l @ [CHR 0x0A]) ls))) + (c - 1))"
  using assms(3,4) line_start_lines [OF assms(2), of rest] by (simp add: assms(1) clamp_def)

theorem line_and_column_to_offset_witness:
  "er_position (queryError (ThrownDb ''syntax_error'' [] (Some (AtPlace (Some 2) (Some 3) None)))
     (''ab'' @ [CHR 0x0A] @ ''cde'') 10) = Some 15"
  using line_and_column_to_offset [of "''ab'' @ [CHR 0x0A] @ ''cde''" "[''ab'']" "''cde''" 3 "''syntax_error''" "[]" 10]
  by simp

section \<open>Two misreadings\<close>

text \<open>\<open>ROLLBACK TO SAVEPOINT\<close> does not end the transaction, but counts as its end.\<close>

lemma savepoint_counts_as_end: "transactionCommand ''ROLLBACK TO SAVEPOINT a'' = Some TxEnd"
  by code_simp

text \<open>The text is trimmed but the cursor's offset is not moved: with the cursor in the first statement
  behind two empty lines, the second statement is selected.\<close>

lemma leading_lines_shift_cursor:
  "map_sum id (\<lambda>i. map qsql (selectStatementAtCursor (splitStatements Postgresql (in_sql i)) (the (in_cursorOffset i))))
     (validateStartInput \<lparr>in_connectionId = ''c'', in_database = ''d'', in_schema = None,
        in_sql = [CHR 0x0A, CHR 0x0A] @ ''a;b'', in_mode = StatementAtCursor, in_tabSessionId = ''t'',
        in_sourceOffset = None, in_cursorOffset = Some 2\<rparr>) = Inr [''b'']"
  by code_simp

end
