(* ===== verification/QueryExecution.thy ===== *)
theory QueryExecution
  imports QueryText
begin

text \<open>
  \<open>QueryExecutionService\<close> of \<open>apps/server/src/query/query-execution.ts\<close>: executions, tab sessions and
  cancellation. \<open>run\<close> is asynchronous: it is one function per stretch between two awaits, and the
  execution's \<open>epc\<close> says at which await it stands. What the event loop and the provider decide (when
  a session opens, a statement returns, a cancellation settles) is an event of \<open>query_step\<close>.

  Executions and tab sessions are objects that several places refer to; the service keeps them in
  stores (\<open>objects\<close>, \<open>tab_store\<close>) and refers to them by id. A snapshot that is handed out is the
  execution at that moment. \<open>performance.now\<close> is read in whole milliseconds.
\<close>

section \<open>State\<close>

record statement =
  st_sql :: string
  st_start :: int
  st_end :: int
  st_state :: stmt_state
  st_duration :: "int option"
  st_message :: "string option"
  st_result :: "serialized_result option"
  st_error :: "error_snapshot option"

record tab_session =
  ts_handle :: nat
  ts_engine :: engine
  ts_hasQuery :: bool
  ts_canCancel :: bool
  ts_cancelReason :: "string option"
  ts_owner :: string
  ts_tab :: string
  ts_connection :: string
  ts_database :: string
  ts_lastActivity :: time
  ts_transaction :: bool

text \<open>The await at which \<open>run\<close> stands: for the tab's earlier executions, for the closing of the tab's
  former session, for an opening, just resumed with its outcome, for a statement (with the clock at
  its start), or past its end.\<close>

datatype control =
    AtQueue | AtClose | AtOpen | AtSession "query_thrown + nat" | AtStatement int | AtEnd

datatype cancel_promise = CpPending | CpResolved | CpRejected service_error

record execution =
  eid :: string
  eowner :: string
  einput :: start_input
  ecreated :: time
  estate :: exec_state
  estatements :: "statement list"
  ecurrent :: int
  etransaction :: bool
  ecancelRequested :: bool
  ecancelPromise :: "cancel_promise option"
  esession :: "nat option"
  eduration :: "int option"
  eerror :: "error_snapshot option"
  epc :: control
  estarted :: int

record history_entry =
  h_id :: string
  h_user :: string
  h_connection :: string
  h_database :: string
  h_schema :: "string option"
  h_sql :: string
  h_status :: exec_state
  h_duration :: "int option"
  h_rows :: nat
  h_executedAt :: time

text \<open>\<open>q_ids\<close> is \<open>createId\<close>: the ids it will give, of which \<open>q_count\<close> have been given. \<open>q_events\<close>,
  \<open>q_appends\<close>, \<open>q_closed\<close> and \<open>q_executed\<close> record the calls of \<open>publish\<close>, \<open>append\<close>,
  \<open>closeQuerySession\<close> (by handle) and of the provider's \<open>execute\<close> (session and statement). \<open>q_accepts\<close> says for
  which entries \<open>append\<close> does not throw, and \<open>q_history\<close> is what the repository then has.\<close>

record service =
  objects :: "(string, execution) jsmap"
  tabs :: "(string, nat) jsmap"
  tab_store :: "(nat, tab_session) jsmap"
  opening_tabs :: "(string, string \<times> string \<times> string \<times> string) jsmap"
  resultMaxRows :: nat
  idleTimeoutMs :: int
  q_disposed :: bool
  q_cleared :: bool
  q_ids :: "nat \<Rightarrow> string"
  q_count :: nat
  q_events :: "execution list"
  q_accepts :: "history_entry \<Rightarrow> bool"
  q_appends :: "(string \<times> history_entry) list"
  q_history :: "(string \<times> history_entry) list"
  q_closed :: "nat list"
  q_executed :: "(string \<times> int \<times> nat) list"

definition new_service :: "nat option \<Rightarrow> int option \<Rightarrow> (nat \<Rightarrow> string) \<Rightarrow> (history_entry \<Rightarrow> bool) \<Rightarrow> service option" where
  "new_service maxRows idle ids accepts =
     (let i = (case idle of None \<Rightarrow> 30 | Some n \<Rightarrow> n) in
      if i < 1 then None
      else Some \<lparr>objects = [], tabs = [], tab_store = [], opening_tabs = [],
                 resultMaxRows = (case maxRows of None \<Rightarrow> 1000 | Some n \<Rightarrow> if 0 < n then n else 1000),
                 idleTimeoutMs = i * 60000, q_disposed = False, q_cleared = False, q_ids = ids, q_count = 0,
                 q_events = [], q_accepts = accepts, q_appends = [], q_history = [], q_closed = [], q_executed = []\<rparr>)"

text \<open>At its end \<open>dispose\<close> empties \<open>this.executions\<close>; the executions themselves go on.\<close>

definition executions :: "service \<Rightarrow> (string, execution) jsmap" where
  "executions q = (if q_cleared q then [] else objects q)"

definition sessionKey :: "string \<Rightarrow> string \<Rightarrow> string" where
  "sessionKey u t = u @ [CHR 0x00] @ t"

definition tab_key :: "execution \<Rightarrow> string" where
  "tab_key e = sessionKey (eowner e) (in_tabSessionId (einput e))"

definition active_state :: "exec_state \<Rightarrow> bool" where
  "active_state s \<longleftrightarrow> s = ExQueued \<or> s = ExRunning \<or> s = ExCancelling"

definition put_exec :: "execution \<Rightarrow> service \<Rightarrow> service" where
  "put_exec e q = q\<lparr>objects := js_set (objects q) (eid e) e\<rparr>"

text \<open>The execution as it has been changed, and its snapshot to the publisher.\<close>

definition emit :: "execution \<Rightarrow> service \<Rightarrow> service" where
  "emit e q = (put_exec e q)\<lparr>q_events := q_events q @ [e]\<rparr>"

definition result_rows :: "statement \<Rightarrow> nat" where
  "result_rows s = (case st_result s of None \<Rightarrow> 0 | Some r \<Rightarrow> totalRows r)"

definition history_row :: "time \<Rightarrow> execution \<Rightarrow> service \<Rightarrow> history_entry" where
  "history_row now e q =
     \<lparr>h_id = q_ids q (q_count q), h_user = eowner e, h_connection = in_connectionId (einput e),
      h_database = in_database (einput e), h_schema = in_schema (einput e), h_sql = in_sql (einput e),
      h_status = estate e, h_duration = eduration e,
      h_rows = sum_list (map result_rows (estatements e)), h_executedAt = now\<rparr>"

text \<open>An error of the repository is swallowed: the result is shown without an entry.\<close>

definition recordHistory :: "time \<Rightarrow> execution \<Rightarrow> service \<Rightarrow> service" where
  "recordHistory now e q =
     (let entry = history_row now e q in
      q\<lparr>q_count := q_count q + 1, q_appends := q_appends q @ [(eid e, entry)],
        q_history := (if q_accepts q entry then q_history q @ [(eid e, entry)] else q_history q)\<rparr>)"

text \<open>The \<open>finally\<close> block of \<open>run\<close>.\<close>

definition run_end :: "time \<Rightarrow> int \<Rightarrow> execution \<Rightarrow> service \<Rightarrow> service" where
  "run_end now p e q =
     (let e1 = e\<lparr>eduration := Some (max 0 (p - estarted e)), epc := AtEnd\<rparr>
      in recordHistory now e1 (emit e1 q))"

text \<open>The outer \<open>catch\<close> block, then \<open>finally\<close>.\<close>

definition run_throw :: "time \<Rightarrow> int \<Rightarrow> query_thrown \<Rightarrow> execution \<Rightarrow> service \<Rightarrow> service" where
  "run_throw now p err e q =
     (let e1 = e\<lparr>estate := ExFailed,
                 eerror := Some (queryError err (in_sql (einput e))
                   (case in_sourceOffset (einput e) of None \<Rightarrow> 0 | Some n \<Rightarrow> n))\<rparr>
      in run_end now p e1 (emit e1 q))"

definition skip_unfinished :: "statement \<Rightarrow> statement" where
  "skip_unfinished s = (if st_state s = StPending \<or> st_state s = StRunning then s\<lparr>st_state := StSkipped\<rparr> else s)"

definition finished_cancellation :: "execution \<Rightarrow> execution" where
  "finished_cancellation e = e\<lparr>estatements := map skip_unfinished (estatements e), estate := ExCancelled\<rparr>"

section \<open>Tab sessions\<close>

text \<open>\<open>sessionFor\<close> up to its first await: the session that fits, or the former session closed. A session
  that the map refers to is always in the store; a handle is never handed out twice.\<close>

datatype session_outcome = SessionHere nat | SessionClosing | SessionMissing

definition session_enter :: "time \<Rightarrow> string \<Rightarrow> string \<Rightarrow> string \<Rightarrow> service \<Rightarrow> session_outcome \<times> service" where
  "session_enter now key c d q =
     (case map_of (tabs q) key of
        None \<Rightarrow> (SessionMissing, q)
      | Some sid \<Rightarrow>
          (case map_of (tab_store q) sid of
             None \<Rightarrow> (SessionMissing, q)
           | Some s \<Rightarrow>
               if ts_connection s = c \<and> ts_database s = d
               then (SessionHere sid, q\<lparr>tab_store := js_set (tab_store q) sid (s\<lparr>ts_lastActivity := now\<rparr>)\<rparr>)
               else (SessionClosing, q\<lparr>tabs := js_delete (tabs q) key, q_closed := q_closed q @ [ts_handle s]\<rparr>)))"

text \<open>The rest: join the tab's opening when there is one, start one otherwise.\<close>

definition session_open :: "string \<Rightarrow> string \<Rightarrow> string \<Rightarrow> string \<Rightarrow> service \<Rightarrow> service" where
  "session_open u t c d q =
     (let key = sessionKey u t in
      case map_of (opening_tabs q) key of
        Some _ \<Rightarrow> q
      | None \<Rightarrow> q\<lparr>opening_tabs := js_set (opening_tabs q) key (u, t, c, d)\<rparr>)"

text \<open>What the provider hands over: the handle, the engine, whether there is a query port and whether
  it can cancel (the reason if not).\<close>

record opened_handle =
  oh_handle :: nat
  oh_engine :: engine
  oh_hasQuery :: bool
  oh_canCancel :: bool
  oh_cancelReason :: "string option"

text \<open>An opening settles: the session is the tab's, and everybody who waits for it resumes with it.\<close>

definition resume_waiting :: "string \<Rightarrow> query_thrown + nat \<Rightarrow> execution \<Rightarrow> execution" where
  "resume_waiting key outcome e =
     (if epc e = AtOpen \<and> tab_key e = key then e\<lparr>epc := AtSession outcome\<rparr> else e)"

definition wake :: "string \<Rightarrow> query_thrown + nat \<Rightarrow> service \<Rightarrow> service" where
  "wake key outcome q =
     q\<lparr>objects := map (\<lambda>(i, e). (i, resume_waiting key outcome e)) (objects q)\<rparr>"

definition opening_settled :: "time \<Rightarrow> string \<Rightarrow> query_thrown + opened_handle \<Rightarrow> service \<Rightarrow> service" where
  "opening_settled now key outcome q =
     (case map_of (opening_tabs q) key of
        None \<Rightarrow> q
      | Some (u, t, c, d) \<Rightarrow>
          (case outcome of
             Inl err \<Rightarrow> wake key (Inl err) (q\<lparr>opening_tabs := js_delete (opening_tabs q) key\<rparr>)
           | Inr h \<Rightarrow>
               let sid = oh_handle h;
                   s = \<lparr>ts_handle = sid, ts_engine = oh_engine h, ts_hasQuery = oh_hasQuery h,
                        ts_canCancel = oh_canCancel h, ts_cancelReason = oh_cancelReason h, ts_owner = u, ts_tab = t, ts_connection = c,
                        ts_database = d, ts_lastActivity = now, ts_transaction = False\<rparr>
               in if map_of (tab_store q) sid \<noteq> None then q
                  else wake key (Inr sid)
                    (q\<lparr>tab_store := js_set (tab_store q) sid s, tabs := js_set (tabs q) key sid,
                       opening_tabs := js_delete (opening_tabs q) key\<rparr>)))"

section \<open>Starting and running\<close>

definition service_err :: "query_error_code \<Rightarrow> string \<Rightarrow> nat \<Rightarrow> service_error" where
  "service_err c m s = \<lparr>sv_code = c, sv_message = m, sv_status = s\<rparr>"

text \<open>\<open>connected\<close> is \<open>connectionManager.isConnected(owner.id, \<dots>)\<close>. The execution is queued behind the
  tab's earlier ones.\<close>

definition start :: "time \<Rightarrow> (string \<Rightarrow> bool) \<Rightarrow> string \<Rightarrow> start_input \<Rightarrow> service \<Rightarrow> (service_error + string) \<times> service" where
  "start now connected u raw q =
     (if q_disposed q then (Inl (service_err QUERY_UNAVAILABLE ''Query execution is unavailable.'' 503), q)
      else case validateStartInput raw of
        Inl e \<Rightarrow> (Inl e, q)
      | Inr input \<Rightarrow>
          if \<not> connected (in_connectionId input)
          then (Inl (service_err NOT_CONNECTED ''Connect the database before running a query.'' 409), q)
          else
            let i = q_ids q (q_count q);
                e = \<lparr>eid = i, eowner = u, einput = input, ecreated = now, estate = ExQueued, estatements = [],
                     ecurrent = - 1, etransaction = False, ecancelRequested = False, ecancelPromise = None,
                     esession = None, eduration = None, eerror = None, epc = AtQueue, estarted = 0\<rparr>
            in (Inr i, emit e (q\<lparr>q_count := q_count q + 1\<rparr>)))"

definition getForOwner :: "string \<Rightarrow> string \<Rightarrow> service \<Rightarrow> execution option" where
  "getForOwner i u q =
     (case map_of (executions q) i of None \<Rightarrow> None | Some e \<Rightarrow> if eowner e \<noteq> u then None else Some e)"

definition canSubscribe :: "string \<Rightarrow> string \<Rightarrow> service \<Rightarrow> bool" where
  "canSubscribe u i q \<longleftrightarrow> map_option eowner (map_of (executions q) i) = Some u"

text \<open>The promise chain of \<open>queueExecution\<close>: an execution runs when all earlier ones of its tab ended.\<close>

definition turn :: "execution \<Rightarrow> service \<Rightarrow> bool" where
  "turn e q \<longleftrightarrow> list_all (\<lambda>(i, x). tab_key x = tab_key e \<longrightarrow> epc x = AtEnd)
     (takeWhile (\<lambda>(i, x). i \<noteq> eid e) (objects q))"

definition run_start :: "time \<Rightarrow> int \<Rightarrow> execution \<Rightarrow> service \<Rightarrow> service" where
  "run_start now p e q =
     (let e0 = e\<lparr>estarted := p\<rparr>; i = einput e in
      if estate e = ExCancelled then run_end now p e0 q
      else
        let e1 = e0\<lparr>estate := ExRunning\<rparr> in
        case session_enter now (tab_key e) (in_connectionId i) (in_database i) (emit e1 q) of
          (SessionHere sid, q1) \<Rightarrow> put_exec (e1\<lparr>epc := AtSession (Inr sid)\<rparr>) q1
        | (SessionClosing, q1) \<Rightarrow> put_exec (e1\<lparr>epc := AtClose\<rparr>) q1
        | (SessionMissing, q1) \<Rightarrow>
            put_exec (e1\<lparr>epc := AtOpen\<rparr>)
              (session_open (eowner e) (in_tabSessionId i) (in_connectionId i) (in_database i) q1))"

text \<open>The former session of the tab is closed, or its provider threw.\<close>

definition run_closed :: "time \<Rightarrow> int \<Rightarrow> query_thrown option \<Rightarrow> execution \<Rightarrow> service \<Rightarrow> service" where
  "run_closed now p err e q =
     (case err of
        Some x \<Rightarrow> run_throw now p x e q
      | None \<Rightarrow>
          put_exec (e\<lparr>epc := AtOpen\<rparr>)
            (session_open (eowner e) (in_tabSessionId (einput e)) (in_connectionId (einput e)) (in_database (einput e)) q))"

definition set_statement :: "int \<Rightarrow> (statement \<Rightarrow> statement) \<Rightarrow> execution \<Rightarrow> execution" where
  "set_statement k f e = e\<lparr>estatements := (estatements e)[nat k := f (estatements e ! nat k)]\<rparr>"

text \<open>The head of the loop over the statements, and what follows the loop.\<close>

definition run_statement :: "time \<Rightarrow> int \<Rightarrow> int \<Rightarrow> nat \<Rightarrow> execution \<Rightarrow> service \<Rightarrow> service" where
  "run_statement now p k sid e q =
     (if nat k < length (estatements e) then
        let e1 = set_statement k (\<lambda>s. s\<lparr>st_state := StRunning\<rparr>) (e\<lparr>ecurrent := k\<rparr>); q1 = emit e1 q in
        if ecancelRequested e1 then
          let e2 = finished_cancellation e1 in run_end now p e2 (emit e2 q1)
        else (put_exec (e1\<lparr>epc := AtStatement p\<rparr>) q1)\<lparr>q_executed := q_executed q1 @ [(eid e, k, sid)]\<rparr>
      else run_end now p (if estate e = ExRunning then e\<lparr>estate := ExCompleted\<rparr> else e) q)"

definition pending_statement :: "int \<Rightarrow> query_statement \<Rightarrow> statement" where
  "pending_statement offset s =
     \<lparr>st_sql = qsql s, st_start = offset + int (startOffset s), st_end = offset + int (endOffset s),
      st_state = StPending, st_duration = None, st_message = None, st_result = None, st_error = None\<rparr>"

definition run_session :: "time \<Rightarrow> int \<Rightarrow> query_thrown + nat \<Rightarrow> execution \<Rightarrow> service \<Rightarrow> service" where
  "run_session now p outcome e q =
     (case outcome of
        Inl err \<Rightarrow> run_throw now p err e q
      | Inr sid \<Rightarrow>
          (case map_of (tab_store q) sid of
             None \<Rightarrow> q
           | Some s \<Rightarrow>
               let e1 = e\<lparr>esession := Some sid\<rparr>; i = einput e in
               if ecancelRequested e then run_end now p e1 q
               else if \<not> ts_hasQuery s then
                 run_throw now p (ThrownService (service_err QUERY_UNAVAILABLE ''Query execution is unavailable.'' 503)) e1 q
               else
                 let ss = splitStatements (ts_engine s) (in_sql i);
                     selected = (if in_mode i = StatementAtCursor
                       then selectStatementAtCursor ss (case in_cursorOffset i of None \<Rightarrow> 0 | Some n \<Rightarrow> n) else ss)
                 in if selected = [] then
                      run_throw now p (ThrownService (invalid ''No SQL statement was found.'')) e1 q
                    else
                      let offset = (case in_sourceOffset i of None \<Rightarrow> 0 | Some n \<Rightarrow> n);
                          e2 = e1\<lparr>estatements := map (pending_statement offset) selected\<rparr>
                      in run_statement now p 0 sid e2 (emit e2 q)))"

text \<open>\<open>query.execute\<close> returned or threw for the statement that runs.\<close>

definition after_command :: "transaction_command option \<Rightarrow> bool \<Rightarrow> bool" where
  "after_command cmd active =
     (case cmd of None \<Rightarrow> active | Some TxBegin \<Rightarrow> True | Some TxEnd \<Rightarrow> False)"

definition done_statement :: "int \<Rightarrow> serialized_result \<Rightarrow> statement \<Rightarrow> statement" where
  "done_statement d r s =
     s\<lparr>st_state := StDone, st_duration := Some d, st_result := Some r, st_message := Some (statementMessage r)\<rparr>"

definition error_statement :: "int \<Rightarrow> error_snapshot \<Rightarrow> statement \<Rightarrow> statement" where
  "error_statement d x s = s\<lparr>st_state := StError, st_duration := Some d, st_error := Some x\<rparr>"

definition statement_done ::
  "time \<Rightarrow> int \<Rightarrow> int \<Rightarrow> query_result \<Rightarrow> nat \<Rightarrow> tab_session \<Rightarrow> execution \<Rightarrow> service \<Rightarrow> service" where
  "statement_done now p p0 raw sid s e q =
     (let k = ecurrent e; r = serializeQueryResult raw (resultMaxRows q);
          active = after_command (transactionCommand (st_sql (estatements e ! nat k))) (ts_transaction s);
          s1 = s\<lparr>ts_transaction := active, ts_lastActivity := now\<rparr>;
          e1 = (set_statement k (done_statement (max 0 (p - p0)) r) e)\<lparr>etransaction := active\<rparr>
      in run_statement now p (k + 1) sid e1 (emit e1 (q\<lparr>tab_store := js_set (tab_store q) sid s1\<rparr>)))"

definition statement_failed ::
  "time \<Rightarrow> int \<Rightarrow> int \<Rightarrow> query_thrown \<Rightarrow> tab_session \<Rightarrow> execution \<Rightarrow> service \<Rightarrow> service" where
  "statement_failed now p p0 err s e q =
     (let k = nat (ecurrent e); current = estatements e ! k;
          x = queryError err (st_sql current) (st_start current);
          ss = map (\<lambda>(j, y). if j = k then error_statement (max 0 (p - p0)) x y
                             else if k < j then y\<lparr>st_state := StSkipped\<rparr> else y)
                 (zip [0..<length (estatements e)] (estatements e));
          e1 = e\<lparr>estatements := ss, eerror := Some x,
                 estate := (if ecancelRequested e \<and> er_category x = ''cancelled'' then ExCancelled else ExFailed),
                 etransaction := ts_transaction s\<rparr>
      in run_end now p e1 (emit e1 q))"

definition run_executed ::
  "time \<Rightarrow> int \<Rightarrow> int \<Rightarrow> query_thrown + query_result \<Rightarrow> execution \<Rightarrow> service \<Rightarrow> service" where
  "run_executed now p p0 outcome e q =
     (case esession e of
        None \<Rightarrow> q
      | Some sid \<Rightarrow>
          (case map_of (tab_store q) sid of
             None \<Rightarrow> q
           | Some s \<Rightarrow>
               (case outcome of
                  Inr raw \<Rightarrow> statement_done now p p0 raw sid s e q
                | Inl err \<Rightarrow> statement_failed now p p0 err s e q)))"

section \<open>Cancelling\<close>

datatype cancel_answer = CancelError service_error | CancelDone execution | CancelWaits

text \<open>The statement that is running on a session with a query port, if there is one.\<close>

definition running_session :: "execution \<Rightarrow> service \<Rightarrow> tab_session option" where
  "running_session e q =
     (case Option.bind (esession e) (map_of (tab_store q)) of
        None \<Rightarrow> None
      | Some s \<Rightarrow>
          if ts_hasQuery s \<and> 0 \<le> ecurrent e \<and> nat (ecurrent e) < length (estatements e)
             \<and> st_state (estatements e ! nat (ecurrent e)) = StRunning
          then Some s else None)"

definition cancel_now :: "execution \<Rightarrow> service \<Rightarrow> cancel_answer \<times> service" where
  "cancel_now e q =
     (let e1 = e\<lparr>ecancelRequested := True, estate := ExCancelling\<rparr>; q1 = emit e1 q in
      case running_session e1 q1 of
        None \<Rightarrow> (let e2 = finished_cancellation e1 in (CancelDone e2, emit e2 q1))
      | Some s \<Rightarrow>
          if \<not> ts_canCancel s then
            (CancelError (service_err QUERY_UNSUPPORTED
               (case ts_cancelReason s of Some m \<Rightarrow> m | None \<Rightarrow> ''Query cancellation is unavailable.'') 501),
             emit (e1\<lparr>ecancelRequested := False, estate := ExRunning\<rparr>) q1)
          else (CancelWaits, put_exec (e1\<lparr>ecancelPromise := Some CpPending\<rparr>) q1))"

definition cancel :: "string \<Rightarrow> string \<Rightarrow> service \<Rightarrow> cancel_answer \<times> service" where
  "cancel i u q =
     (case getForOwner i u q of
        None \<Rightarrow> (CancelError (service_err QUERY_NOT_FOUND ''Query not found.'' 404), q)
      | Some e \<Rightarrow>
          if isTerminalState (estate e) then (CancelDone e, q)
          else case ecancelPromise e of
            Some CpPending \<Rightarrow> (CancelWaits, q)
          | Some CpResolved \<Rightarrow> (CancelDone e, q)
          | Some (CpRejected x) \<Rightarrow> (CancelError x, q)
          | None \<Rightarrow> cancel_now e q)"

text \<open>The provider's \<open>cancel\<close> settled; \<open>Some m\<close> is a rejection.\<close>

definition cancel_settled :: "string option \<Rightarrow> execution \<Rightarrow> service \<Rightarrow> service" where
  "cancel_settled err e q =
     (case err of
        None \<Rightarrow> put_exec (e\<lparr>ecancelPromise := Some CpResolved\<rparr>) q
      | Some m \<Rightarrow>
          if isTerminalState (estate e) then put_exec (e\<lparr>ecancelPromise := Some CpResolved\<rparr>) q
          else emit (e\<lparr>ecancelRequested := False, estate := ExRunning,
                       ecancelPromise := Some (CpRejected (service_err QUERY_CANCEL_FAILED m 502))\<rparr>) q)"

section \<open>Closing sessions\<close>

definition tab_busy :: "string \<Rightarrow> service \<Rightarrow> bool" where
  "tab_busy key q \<longleftrightarrow> list_ex (\<lambda>(i, e). tab_key e = key \<and> active_state (estate e)) (executions q)"

definition tab_handle :: "service \<Rightarrow> nat \<Rightarrow> nat list" where
  "tab_handle q sid = (case map_of (tab_store q) sid of None \<Rightarrow> [] | Some s \<Rightarrow> [ts_handle s])"

definition closeSession :: "string \<Rightarrow> string \<Rightarrow> bool \<Rightarrow> service \<Rightarrow> bool \<times> service" where
  "closeSession u t force q =
     (let key = sessionKey u t in
      case map_of (tabs q) key of
        None \<Rightarrow> (False, q)
      | Some sid \<Rightarrow>
          if tab_busy key q \<and> \<not> force then (False, q)
          else (True, q\<lparr>tabs := js_delete (tabs q) key, q_closed := q_closed q @ tab_handle q sid\<rparr>))"

definition idle_tab :: "time \<Rightarrow> service \<Rightarrow> string \<times> nat \<Rightarrow> bool" where
  "idle_tab at q kv \<longleftrightarrow> \<not> tab_busy (fst kv) q \<and>
     (case map_of (tab_store q) (snd kv) of None \<Rightarrow> False | Some s \<Rightarrow> at - ts_lastActivity s \<ge> idleTimeoutMs q)"

definition sweepIdle :: "time \<Rightarrow> service \<Rightarrow> nat \<times> service" where
  "sweepIdle at q =
     (let idle = filter (idle_tab at q) (tabs q)
      in (length idle,
          q\<lparr>tabs := fold (\<lambda>kv m. js_delete m (fst kv)) idle (tabs q),
            q_closed := q_closed q @ concat (map (\<lambda>kv. tab_handle q (snd kv)) idle)\<rparr>))"

text \<open>\<open>dispose\<close> up to its await, and what follows when all closings have settled.\<close>

definition dispose :: "service \<Rightarrow> service" where
  "dispose q =
     (if q_disposed q then q
      else q\<lparr>q_disposed := True, tabs := [],
             q_closed := q_closed q @ concat (map (\<lambda>kv. tab_handle q (snd kv)) (tabs q))\<rparr>)"

definition disposed_done :: "service \<Rightarrow> service" where
  "disposed_done q = (if q_disposed q then q\<lparr>q_cleared := True\<rparr> else q)"

definition isDatabaseActive :: "string \<Rightarrow> string \<Rightarrow> string \<Rightarrow> service \<Rightarrow> bool" where
  "isDatabaseActive u c d q \<longleftrightarrow>
     list_ex (\<lambda>kv. case map_of (tab_store q) (snd kv) of None \<Rightarrow> False
                 | Some s \<Rightarrow> ts_owner s = u \<and> ts_connection s = c \<and> ts_database s = d) (tabs q)"

section \<open>Explain and autocomplete\<close>

text \<open>\<open>explain\<close> up to its session: the tab it works in, or the refusal.\<close>

definition explain_check :: "(string \<Rightarrow> bool) \<Rightarrow> string \<Rightarrow> explain_input \<Rightarrow> service \<Rightarrow> service_error + (string \<times> explain_input)" where
  "explain_check connected u raw q =
     (if q_disposed q then Inl (service_err QUERY_UNAVAILABLE ''Query execution is unavailable.'' 503)
      else and_then (validateExplainInput raw) (\<lambda>i.
        if isExplainAnalyze (ex_sql i) then
          Inl (service_err QUERY_UNSUPPORTED
            ''EXPLAIN ANALYZE is not available in V1 because it executes the statement.'' 501)
        else if \<not> connected (ex_connectionId i) then
          Inl (service_err NOT_CONNECTED ''Connect the database before explaining a query.'' 409)
        else
          let t = (case ex_tabSessionId i of Some x \<Rightarrow> x
                   | None \<Rightarrow> ''explain:'' @ ex_connectionId i @ '':'' @ ex_database i)
          in if tab_busy (sessionKey u t) q then
               Inl (service_err QUERY_BUSY
                 ''Wait for the active query in this tab to finish before explaining it.'' 409)
             else Inr (t, i)))"

text \<open>What \<open>explain\<close> and \<open>autocomplete\<close> do to the tab's session before they use it.\<close>

definition peek :: "time \<Rightarrow> string \<Rightarrow> string \<Rightarrow> string \<Rightarrow> string \<Rightarrow> service \<Rightarrow> service" where
  "peek now u t c d q =
     (case session_enter now (sessionKey u t) c d q of
        (SessionMissing, q1) \<Rightarrow> session_open u t c d q1
      | (_, q1) \<Rightarrow> q1)"

section \<open>Histories\<close>

datatype query_event =
    QStart time "string \<Rightarrow> bool" string start_input
  | QRun time int string
  | QClosed time int string "query_thrown option"
  | QOpened time string "query_thrown + opened_handle"
  | QResume time int string
  | QExecuted time int string "query_thrown + query_result"
  | QCancel string string
  | QCancelSettled string "string option"
  | QPeek time string string string string
  | QPeekOpen string string string string
  | QCloseSession string string bool
  | QSweep time
  | QDispose
  | QDisposed

definition at_exec :: "string \<Rightarrow> (execution \<Rightarrow> service) \<Rightarrow> service \<Rightarrow> service" where
  "at_exec i f q = (case map_of (objects q) i of None \<Rightarrow> q | Some e \<Rightarrow> f e)"

fun query_step :: "service \<Rightarrow> query_event \<Rightarrow> service" where
  "query_step q (QStart now connected u input) = snd (start now connected u input q)"
| "query_step q (QRun now p i) =
     at_exec i (\<lambda>e. if epc e = AtQueue \<and> turn e q then run_start now p e q else q) q"
| "query_step q (QClosed now p i err) =
     at_exec i (\<lambda>e. if epc e = AtClose then run_closed now p err e q else q) q"
| "query_step q (QOpened now key outcome) = opening_settled now key outcome q"
| "query_step q (QResume now p i) =
     at_exec i (\<lambda>e. case epc e of AtSession outcome \<Rightarrow> run_session now p outcome e q | _ \<Rightarrow> q) q"
| "query_step q (QExecuted now p i outcome) =
     at_exec i (\<lambda>e. case epc e of AtStatement p0 \<Rightarrow> run_executed now p p0 outcome e q | _ \<Rightarrow> q) q"
| "query_step q (QCancel i u) = snd (cancel i u q)"
| "query_step q (QCancelSettled i err) =
     at_exec i (\<lambda>e. if ecancelPromise e = Some CpPending then cancel_settled err e q else q) q"
| "query_step q (QPeek now u t c d) = peek now u t c d q"
| "query_step q (QPeekOpen u t c d) = session_open u t c d q"
| "query_step q (QCloseSession u t force) = snd (closeSession u t force q)"
| "query_step q (QSweep at) = snd (sweepIdle at q)"
| "query_step q QDispose = dispose q"
| "query_step q QDisposed = disposed_done q"

end
