(* ===== verification/QueryInv.thy ===== *)
theory QueryInv
  imports QueryExecution
begin

text \<open>
  The invariant of query execution: where each execution stands, which statements have been handed
  to the provider, what history has, and the turns within a tab. The contracts of \<open>Prelude\<close> are
  interpreted on \<open>query_step\<close>.
\<close>

section \<open>Frame lemmas\<close>

lemma put_exec_simps [simp]:
  "objects (put_exec e q) = js_set (objects q) (eid e) e" "tab_store (put_exec e q) = tab_store q"
  "tabs (put_exec e q) = tabs q" "q_executed (put_exec e q) = q_executed q"
  "q_appends (put_exec e q) = q_appends q" "q_ids (put_exec e q) = q_ids q"
  "q_count (put_exec e q) = q_count q" "opening_tabs (put_exec e q) = opening_tabs q"
  "q_disposed (put_exec e q) = q_disposed q" "resultMaxRows (put_exec e q) = resultMaxRows q"
  by (simp_all add: put_exec_def)

lemma q_emit_simps [simp]:
  "objects (emit e q) = js_set (objects q) (eid e) e" "tab_store (emit e q) = tab_store q"
  "tabs (emit e q) = tabs q" "q_executed (emit e q) = q_executed q"
  "q_appends (emit e q) = q_appends q" "q_ids (emit e q) = q_ids q"
  "q_count (emit e q) = q_count q" "opening_tabs (emit e q) = opening_tabs q"
  "q_disposed (emit e q) = q_disposed q" "resultMaxRows (emit e q) = resultMaxRows q"
  by (simp_all add: emit_def)

definition ended :: "int \<Rightarrow> execution \<Rightarrow> execution" where
  "ended p e = e\<lparr>eduration := Some (max 0 (p - estarted e)), epc := AtEnd\<rparr>"

lemma ended_simps [simp]:
  "eid (ended p e) = eid e" "epc (ended p e) = AtEnd" "estate (ended p e) = estate e"
  "estatements (ended p e) = estatements e" "eowner (ended p e) = eowner e" "einput (ended p e) = einput e"
  "ecancelPromise (ended p e) = ecancelPromise e" "ecurrent (ended p e) = ecurrent e"
  "ecancelRequested (ended p e) = ecancelRequested e"
  by (simp_all add: ended_def)

lemma run_end_simps [simp]:
  "objects (run_end now p e q) = js_set (objects q) (eid e) (ended p e)"
  "tab_store (run_end now p e q) = tab_store q" "q_executed (run_end now p e q) = q_executed q"
  "map fst (q_appends (run_end now p e q)) = map fst (q_appends q) @ [eid e]"
  "q_ids (run_end now p e q) = q_ids q" "q_count (run_end now p e q) = Suc (q_count q)"
  by (simp_all add: run_end_def recordHistory_def Let_def ended_def)

section \<open>Where an execution stands\<close>

definition begun :: "execution \<Rightarrow> nat" where
  "begun e = length (filter (\<lambda>s. st_state s \<in> {StRunning, StDone, StError}) (estatements e))"

definition states_are :: "statement list \<Rightarrow> (nat \<Rightarrow> stmt_state) \<Rightarrow> bool" where
  "states_are ss f \<longleftrightarrow> (\<forall>j < length ss. st_state (ss ! j) = f j)"

definition unstarted :: "execution \<Rightarrow> bool" where
  "unstarted e \<longleftrightarrow> estatements e = [] \<and> ecurrent e = - 1 \<and> esession e = None
     \<and> ecancelPromise e = None \<and> (ecancelRequested e \<longleftrightarrow> estate e = ExCancelled)"

definition query_session :: "(nat, tab_session) jsmap \<Rightarrow> nat \<Rightarrow> bool" where
  "query_session st sid \<longleftrightarrow> (case map_of st sid of None \<Rightarrow> False | Some s \<Rightarrow> ts_hasQuery s)"

text \<open>At the head of the loop, before statement \<open>k\<close>.\<close>

definition in_loop :: "(nat, tab_session) jsmap \<Rightarrow> nat \<Rightarrow> nat \<Rightarrow> execution \<Rightarrow> bool" where
  "in_loop st k sid e \<longleftrightarrow> esession e = Some sid \<and> query_session st sid \<and> k \<le> length (estatements e)
     \<and> states_are (estatements e) (\<lambda>j. if j < k then StDone else StPending)
     \<and> estate e \<in> {ExRunning, ExCancelling} \<and> (ecancelRequested e \<longleftrightarrow> estate e = ExCancelling)
     \<and> (estate e = ExCancelling \<longrightarrow> ecancelPromise e \<noteq> None)"

definition finished_states :: "statement list \<Rightarrow> bool" where
  "finished_states ss \<longleftrightarrow> (\<exists>m b. states_are ss
     (\<lambda>j. if j < m then StDone else if j = m \<and> b then StError else StSkipped))"

definition all_done :: "statement list \<Rightarrow> bool" where
  "all_done ss \<longleftrightarrow> (\<forall>s \<in> set ss. st_state s = StDone)"

fun shape :: "(nat, tab_session) jsmap \<Rightarrow> execution \<Rightarrow> control \<Rightarrow> bool" where
  "shape st e AtQueue \<longleftrightarrow> estate e \<in> {ExQueued, ExCancelled} \<and> unstarted e"
| "shape st e AtClose \<longleftrightarrow> estate e \<in> {ExRunning, ExCancelled} \<and> unstarted e"
| "shape st e AtOpen \<longleftrightarrow> estate e \<in> {ExRunning, ExCancelled} \<and> unstarted e"
| "shape st e (AtSession r) \<longleftrightarrow> estate e \<in> {ExRunning, ExCancelled} \<and> unstarted e
     \<and> (case r of Inl _ \<Rightarrow> True | Inr sid \<Rightarrow> map_of st sid \<noteq> None)"
| "shape st e (AtStatement p) \<longleftrightarrow> (\<exists>sid. esession e = Some sid \<and> query_session st sid)
     \<and> 0 \<le> ecurrent e \<and> nat (ecurrent e) < length (estatements e)
     \<and> states_are (estatements e)
         (\<lambda>j. if j < nat (ecurrent e) then StDone else if j = nat (ecurrent e) then StRunning else StPending)
     \<and> estate e \<in> {ExRunning, ExCancelling} \<and> (ecancelRequested e \<longleftrightarrow> estate e = ExCancelling)
     \<and> (estate e = ExCancelling \<longrightarrow> ecancelPromise e \<noteq> None)"
| "shape st e AtEnd \<longleftrightarrow> finished_states (estatements e) \<and> (estate e = ExCompleted \<longrightarrow> all_done (estatements e))
     \<and> (isTerminalState (estate e) \<or> ecancelPromise e \<noteq> None \<and> all_done (estatements e))"

lemma begun_states:
  assumes "states_are ss f" "\<And>j. j < length ss \<Longrightarrow> (f j \<in> {StRunning, StDone, StError}) = (j < n)" "n \<le> length ss"
  shows "length (filter (\<lambda>s. st_state s \<in> {StRunning, StDone, StError}) ss) = n"
  using assms
proof (induction ss arbitrary: f n)
  case Nil
  then show ?case by simp
next
  case (Cons s ss)
  have s: "st_state s = f 0" "states_are ss (\<lambda>j. f (Suc j))"
    using Cons.prems(1) by (force simp: states_are_def)+
  have h: "(f 0 \<in> {StRunning, StDone, StError}) = (0 < n)" using Cons.prems(2) [of 0] by simp
  have t: "(f (Suc j) \<in> {StRunning, StDone, StError}) = (j < n - 1)" if "j < length ss" for j
    using Cons.prems(2) [of "Suc j"] that by (auto simp: less_diff_conv)
  have "length (filter (\<lambda>s. st_state s \<in> {StRunning, StDone, StError}) ss) = n - 1"
    by (rule Cons.IH [OF s(2) t]) (use Cons.prems(3) in auto)
  then show ?case using s(1) h by simp
qed

lemma begun_loop: "in_loop st k sid e \<Longrightarrow> begun e = k"
  unfolding begun_def in_loop_def by (rule begun_states) (auto split: if_splits)

lemma begun_statement: "shape st e (AtStatement p) \<Longrightarrow> begun e = Suc (nat (ecurrent e))"
  unfolding begun_def by (rule begun_states) (auto split: if_splits)

lemma begun_unstarted [simp]: "unstarted e \<Longrightarrow> begun e = 0"
  by (simp add: begun_def unstarted_def)

lemma begun_cong: "estatements e' = estatements e \<Longrightarrow> begun e' = begun e"
  by (simp add: begun_def)

section \<open>One execution moves\<close>

definition store_le :: "(nat, tab_session) jsmap \<Rightarrow> (nat, tab_session) jsmap \<Rightarrow> bool" where
  "store_le st st' \<longleftrightarrow> (\<forall>sid s. map_of st sid = Some s \<longrightarrow>
     (\<exists>s'. map_of st' sid = Some s' \<and> ts_hasQuery s' = ts_hasQuery s))"

lemma store_le_refl [simp]: "store_le st st"
  by (simp add: store_le_def)

lemma store_le_update:
  "map_of st sid = Some s \<Longrightarrow> ts_hasQuery s' = ts_hasQuery s \<Longrightarrow> store_le st (js_set st sid s')"
  by (simp add: store_le_def)

lemma store_le_insert: "map_of st sid = None \<Longrightarrow> store_le st (js_set st sid s')"
  by (simp add: store_le_def)

lemma query_session_le: "query_session st sid \<Longrightarrow> store_le st st' \<Longrightarrow> query_session st' sid"
  by (fastforce simp: query_session_def store_le_def split: option.splits)

lemma shape_le: "shape st e c \<Longrightarrow> store_le st st' \<Longrightarrow> shape st' e c"
  by (cases c) (auto simp: query_session_le store_le_def split: sum.splits)

definition calls :: "service \<Rightarrow> string \<Rightarrow> int list" where
  "calls q i = map (fst \<circ> snd) (filter (\<lambda>x. fst x = i) (q_executed q))"

definition recorded :: "service \<Rightarrow> string \<Rightarrow> history_entry list" where
  "recorded q i = map snd (filter (\<lambda>x. fst x = i) (q_appends q))"

definition state_le :: "exec_state \<Rightarrow> exec_state \<Rightarrow> bool" where
  "state_le s t \<longleftrightarrow> (isTerminalState s \<longrightarrow> t = s \<or> s = ExCancelled \<and> t = ExFailed)"

text \<open>The step \<open>q \<rightarrow> q'\<close> turns the execution \<open>e\<close> into \<open>e'\<close> and changes no other.\<close>

definition moved :: "execution \<Rightarrow> service \<Rightarrow> execution \<Rightarrow> service \<Rightarrow> bool" where
  "moved e q e' q' \<longleftrightarrow> objects q' = js_set (objects q) (eid e) e' \<and> eid e' = eid e
     \<and> eowner e' = eowner e \<and> einput e' = einput e \<and> shape (tab_store q') e' (epc e')
     \<and> (\<exists>sid. q_executed q' = q_executed q @ map (\<lambda>k. (eid e, int k, sid)) [begun e..<begun e'])
     \<and> begun e \<le> begun e'
     \<and> map fst (q_appends q') = map fst (q_appends q) @ (if epc e' = AtEnd \<and> epc e \<noteq> AtEnd then [eid e] else [])
     \<and> (epc e = AtEnd \<longrightarrow> epc e' = AtEnd \<and> estatements e' = estatements e) \<and> (epc e' = AtQueue \<longrightarrow> epc e = AtQueue)
     \<and> state_le (estate e) (estate e') \<and> (isTerminalState (estate e) \<longrightarrow> begun e' = begun e)
     \<and> q_ids q' = q_ids q \<and> q_count q \<le> q_count q' \<and> store_le (tab_store q) (tab_store q')"

lemma state_leI: "\<not> isTerminalState s \<Longrightarrow> state_le s t"
  by (simp add: state_le_def)

lemma state_le_refl [simp]: "state_le s s"
  by (simp add: state_le_def)

lemma state_le_trans: "state_le s t \<Longrightarrow> state_le t u \<Longrightarrow> state_le s u"
  by (auto simp: state_le_def isTerminalState_def)

lemma finished_Nil [simp]: "finished_states []"
  by (simp add: finished_states_def states_are_def)

lemma finished_all_done: "all_done ss \<Longrightarrow> finished_states ss"
  unfolding finished_states_def by (intro exI [of _ "length ss"] exI [of _ False]) (auto simp: states_are_def all_done_def)

lemma moved_from:
  assumes "moved e1 q1 e' q'" "objects q1 = js_set (objects q) (eid e) e1 \<or> objects q1 = objects q"
    and "eid e1 = eid e" "eowner e1 = eowner e" "einput e1 = einput e" "begun e1 = begun e" "epc e1 = epc e"
    and "epc e \<noteq> AtEnd" "state_le (estate e) (estate e1)"
    and "isTerminalState (estate e) \<longrightarrow> isTerminalState (estate e1)"
    and "q_executed q1 = q_executed q" "map fst (q_appends q1) = map fst (q_appends q)"
    and "q_ids q1 = q_ids q" "q_count q1 = q_count q" "store_le (tab_store q) (tab_store q1)"
  shows "moved e q e' q'"
proof -
  have "store_le (tab_store q) (tab_store q')"
    using assms(1,15) by (fastforce simp: moved_def store_le_def)
  then show ?thesis
    using assms state_le_trans [of "estate e" "estate e1" "estate e'"] by (auto simp: moved_def)
qed

section \<open>The stretches of \<open>run\<close>\<close>

lemma set_statement_simps [simp]:
  "eid (set_statement k f e) = eid e" "eowner (set_statement k f e) = eowner e"
  "einput (set_statement k f e) = einput e" "esession (set_statement k f e) = esession e"
  "estate (set_statement k f e) = estate e" "ecancelRequested (set_statement k f e) = ecancelRequested e"
  "ecancelPromise (set_statement k f e) = ecancelPromise e" "ecurrent (set_statement k f e) = ecurrent e"
  "estatements (set_statement k f e) = (estatements e)[nat k := f (estatements e ! nat k)]"
  "epc (set_statement k f e) = epc e"
  by (simp_all add: set_statement_def)

lemma finished_cancellation_simps [simp]:
  "eid (finished_cancellation e) = eid e" "eowner (finished_cancellation e) = eowner e"
  "einput (finished_cancellation e) = einput e" "estate (finished_cancellation e) = ExCancelled"
  "estatements (finished_cancellation e) = map skip_unfinished (estatements e)"
  "epc (finished_cancellation e) = epc e" "ecancelPromise (finished_cancellation e) = ecancelPromise e"
  "ecurrent (finished_cancellation e) = ecurrent e" "esession (finished_cancellation e) = esession e"
  "ecancelRequested (finished_cancellation e) = ecancelRequested e"
  by (simp_all add: finished_cancellation_def)

lemma skip_unfinished_state [simp]:
  "st_state (skip_unfinished s) = (if st_state s \<in> {StPending, StRunning} then StSkipped else st_state s)"
  by (simp add: skip_unfinished_def)

lemma states_are_cancelled:
  assumes "states_are ss (\<lambda>j. if j < k then StDone else StPending)" "k \<le> length ss"
  shows "states_are (map skip_unfinished (ss[k := (ss ! k)\<lparr>st_state := StRunning\<rparr>])) (\<lambda>j. if j < k then StDone else StSkipped)"
  using assms by (auto simp: states_are_def nth_list_update)

lemma finished_cancelled:
  "states_are ss (\<lambda>j. if j < k then StDone else StSkipped) \<Longrightarrow> finished_states ss"
  unfolding finished_states_def by (intro exI [of _ k] exI [of _ False]) (auto simp: states_are_def)

lemma run_statement_moved:
  assumes "in_loop (tab_store q) k sid e" "epc e \<noteq> AtEnd"
  shows "\<exists>e'. moved e q e' (run_statement now p (int k) sid e q)"
proof -
  let ?q = "run_statement now p (int k) sid e q"
  have b: "begun e = k" by (rule begun_loop [OF assms(1)])
  have nt: "\<not> isTerminalState (estate e)" using assms(1) by (auto simp: in_loop_def isTerminalState_def)
  have ss: "states_are (estatements e) (\<lambda>j. if j < k then StDone else StPending)"
    and len: "k \<le> length (estatements e)" using assms(1) by (simp_all add: in_loop_def)
  consider (stop) "k < length (estatements e)" "ecancelRequested e"
    | (go) "k < length (estatements e)" "\<not> ecancelRequested e" | (over) "k = length (estatements e)"
    using len by fastforce
  then show ?thesis
  proof cases
    case stop
    let ?e1 = "set_statement (int k) (\<lambda>s. s\<lparr>st_state := StRunning\<rparr>) (e\<lparr>ecurrent := int k\<rparr>)"
    let ?e = "ended p (finished_cancellation ?e1)"
    note sc = states_are_cancelled [OF ss len]
    have "begun ?e = k"
      unfolding begun_def using len by (intro begun_states) (use sc in \<open>auto split: if_splits\<close>)
    then have "moved e q ?e ?q"
      using stop assms(2) nt b finished_cancelled [OF sc]
      by (simp add: moved_def run_statement_def Let_def isTerminalState_def state_leI)
    then show ?thesis by blast
  next
    case go
    let ?e = "(set_statement (int k) (\<lambda>s. s\<lparr>st_state := StRunning\<rparr>) (e\<lparr>ecurrent := int k\<rparr>))\<lparr>epc := AtStatement p\<rparr>"
    have sh: "shape (tab_store q) ?e (AtStatement p)"
      using assms(1) go by (auto simp: in_loop_def states_are_def nth_list_update)
    then have "begun ?e = Suc k" using begun_statement [OF sh] by simp
    then have "moved e q ?e ?q"
      using go assms(2) nt b sh
      by (auto simp: moved_def run_statement_def Let_def state_leI simp del: shape.simps)
    then show ?thesis by blast
  next
    case over
    let ?e = "ended p (if estate e = ExRunning then e\<lparr>estate := ExCompleted\<rparr> else e)"
    have d: "all_done (estatements e)" using ss over by (auto simp: all_done_def states_are_def in_set_conv_nth)
    have "begun ?e = k" using b by (simp add: begun_def)
    then have "moved e q ?e ?q"
      using over assms nt b d finished_all_done [OF d]
      by (auto simp: moved_def run_statement_def Let_def state_leI in_loop_def isTerminalState_def)
    then show ?thesis by blast
  qed
qed

lemma unstarted_cong:
  "unstarted e \<Longrightarrow> estatements e' = estatements e \<Longrightarrow> ecurrent e' = ecurrent e \<Longrightarrow> esession e' = esession e
     \<Longrightarrow> ecancelPromise e' = ecancelPromise e \<Longrightarrow> ecancelRequested e' = ecancelRequested e
     \<Longrightarrow> estate e' = ExCancelled \<longleftrightarrow> estate e = ExCancelled \<Longrightarrow> unstarted e'"
  by (simp add: unstarted_def)

lemma begun_Nil [simp]: "estatements e = [] \<Longrightarrow> begun e = 0"
  by (simp add: begun_def)

lemma run_throw_moved:
  assumes "estatements e = []" "epc e \<noteq> AtEnd" "state_le (estate e) ExFailed"
  shows "\<exists>e'. moved e q e' (run_throw now p err e q)"
proof -
  let ?e = "ended p (e\<lparr>estate := ExFailed, eerror := Some (queryError err (in_sql (einput e))
                   (case in_sourceOffset (einput e) of None \<Rightarrow> 0 | Some n \<Rightarrow> n))\<rparr>)"
  have "moved e q ?e (run_throw now p err e q)"
    using assms by (simp add: moved_def run_throw_def Let_def isTerminalState_def all_done_def)
  then show ?thesis by blast
qed

lemma run_end_moved:
  assumes "estatements e = []" "epc e \<noteq> AtEnd" "estate e = ExCancelled" "eid e1 = eid e" "eowner e1 = eowner e"
    "einput e1 = einput e" "estatements e1 = []" "estate e1 = ExCancelled"
  shows "\<exists>e'. moved e q e' (run_end now p e1 q)"
proof -
  have "moved e q (ended p e1) (run_end now p e1 q)"
    using assms by (simp add: moved_def isTerminalState_def all_done_def)
  then show ?thesis by blast
qed

text \<open>What the handling of the tab's session does to the rest of the service.\<close>

lemma session_enter_frame:
  assumes "session_enter now key c d q = (r, q')"
  shows "objects q' = objects q" "q_executed q' = q_executed q" "q_appends q' = q_appends q"
    "q_ids q' = q_ids q" "q_count q' = q_count q" "store_le (tab_store q) (tab_store q')"
    "r = SessionHere sid \<Longrightarrow> map_of (tab_store q') sid \<noteq> None" "q_disposed q' = q_disposed q"
  using assms by (auto simp: session_enter_def store_le_def split: option.splits if_splits)

lemma session_open_frame [simp]:
  "objects (session_open u t c d q) = objects q" "q_executed (session_open u t c d q) = q_executed q"
  "q_appends (session_open u t c d q) = q_appends q" "q_ids (session_open u t c d q) = q_ids q"
  "q_count (session_open u t c d q) = q_count q" "tab_store (session_open u t c d q) = tab_store q"
  "q_disposed (session_open u t c d q) = q_disposed q"
  by (simp_all add: session_open_def Let_def split: option.split)

lemma run_start_moved:
  assumes "shape (tab_store q) e AtQueue" "epc e = AtQueue"
  shows "\<exists>e'. moved e q e' (run_start now p e q)"
proof (cases "estate e = ExCancelled")
  case True
  then show ?thesis
    using assms run_end_moved [of e "e\<lparr>estarted := p\<rparr>" q now p] by (simp add: run_start_def Let_def unstarted_def)
next
  case False
  let ?e = "e\<lparr>estarted := p, estate := ExRunning\<rparr>"
  obtain r q1 where s: "session_enter now (tab_key e) (in_connectionId (einput e)) (in_database (einput e)) (emit ?e q) = (r, q1)"
    by (cases "session_enter now (tab_key e) (in_connectionId (einput e)) (in_database (einput e)) (emit ?e q)")
  note f = session_enter_frame [OF s]
  have u: "unstarted e" "estate e = ExQueued" using assms(1) False by auto
  have m: "moved e q (?e\<lparr>epc := c\<rparr>) (put_exec (?e\<lparr>epc := c\<rparr>) q2)"
    if "c \<noteq> AtEnd" "c \<noteq> AtQueue" "objects q2 = objects q1" "q_executed q2 = q_executed q1"
      "q_appends q2 = q_appends q1" "q_ids q2 = q_ids q1" "q_count q2 = q_count q1" "tab_store q2 = tab_store q1"
      "shape (tab_store q1) (?e\<lparr>epc := c\<rparr>) c" for c q2
    using that f u assms(2) by (simp add: moved_def state_leI isTerminalState_def begun_cong unstarted_def)
  have us: "unstarted (?e\<lparr>epc := c\<rparr>)" for c using u by (simp add: unstarted_def)
  have "\<exists>c q2. run_start now p e q = put_exec (?e\<lparr>epc := c\<rparr>) q2 \<and> moved e q (?e\<lparr>epc := c\<rparr>) (put_exec (?e\<lparr>epc := c\<rparr>) q2)"
  proof (cases r)
    case (SessionHere sid)
    then show ?thesis using s False f(7) us m [of "AtSession (Inr sid)" q1]
      by (intro exI [of _ "AtSession (Inr sid)"] exI [of _ q1]) (simp add: run_start_def Let_def)
  next
    case SessionClosing
    then show ?thesis using s False us m [of AtClose q1]
      by (intro exI [of _ AtClose] exI [of _ q1]) (simp add: run_start_def Let_def)
  next
    case SessionMissing
    then show ?thesis using s False us
        m [of AtOpen "session_open (eowner e) (in_tabSessionId (einput e)) (in_connectionId (einput e)) (in_database (einput e)) q1"]
      by (intro exI [of _ AtOpen] exI) (simp add: run_start_def Let_def)
  qed
  then show ?thesis by metis
qed

lemma run_closed_moved:
  assumes "shape (tab_store q) e AtClose" "epc e = AtClose"
  shows "\<exists>e'. moved e q e' (run_closed now p err e q)"
proof (cases err)
  case (Some x)
  have "state_le (estate e) ExFailed" using assms(1) by (auto simp: state_le_def isTerminalState_def)
  then show ?thesis using Some assms run_throw_moved [of e q now p x] by (simp add: run_closed_def unstarted_def)
next
  case None
  have "unstarted (e\<lparr>epc := AtOpen\<rparr>)" using assms(1) by (simp add: unstarted_def)
  then have "moved e q (e\<lparr>epc := AtOpen\<rparr>) (run_closed now p err e q)"
    using None assms by (simp add: moved_def run_closed_def)
  then show ?thesis by blast
qed

lemma run_session_moved:
  assumes "shape (tab_store q) e (AtSession r)" "epc e = AtSession r"
  shows "\<exists>e'. moved e q e' (run_session now p r e q)"
proof -
  have u: "unstarted e" "estate e \<in> {ExRunning, ExCancelled}" using assms(1) by simp_all
  have le: "state_le (estate e) ExFailed" using u(2) by (auto simp: state_le_def isTerminalState_def)
  show ?thesis
  proof (cases r)
    case (Inl err)
    then show ?thesis using run_throw_moved [of e q now p err] u(1) assms(2) le
      by (simp add: run_session_def unstarted_def)
  next
    case (Inr sid)
    then obtain s where s: "map_of (tab_store q) sid = Some s" using assms(1) by auto
    let ?e1 = "e\<lparr>esession := Some sid\<rparr>"
    have throw: "\<exists>e'. moved e q e' (run_throw now p err ?e1 q)" for err
    proof -
      obtain e' where "moved ?e1 q e' (run_throw now p err ?e1 q)"
        using run_throw_moved [of ?e1 q now p err] u(1) assms(2) le by (auto simp: unstarted_def)
      then have "moved e q e' (run_throw now p err ?e1 q)"
        by (rule moved_from) (use assms(2) in \<open>simp_all add: begun_def\<close>)
      then show ?thesis by blast
    qed
    show ?thesis
    proof (cases "ecancelRequested e")
      case True
      then show ?thesis using run_end_moved [of e ?e1 q now p] u assms(2) s Inr
        by (simp add: run_session_def unstarted_def Let_def)
    next
      case False
      define ss where "ss = (if in_mode (einput e) = StatementAtCursor
          then selectStatementAtCursor (splitStatements (ts_engine s) (in_sql (einput e)))
            (case in_cursorOffset (einput e) of None \<Rightarrow> 0 | Some n \<Rightarrow> n)
          else splitStatements (ts_engine s) (in_sql (einput e)))"
      let ?e2 = "?e1\<lparr>estatements := map (pending_statement (case in_sourceOffset (einput e) of None \<Rightarrow> 0 | Some n \<Rightarrow> n)) ss\<rparr>"
      show ?thesis
      proof (cases "\<not> ts_hasQuery s \<or> ss = []")
        case True
        then show ?thesis using throw s Inr False
          by (auto simp: run_session_def Let_def ss_def [symmetric])
      next
        case go: False
        have run: "run_session now p r e q = run_statement now p (int 0) sid ?e2 (emit ?e2 q)"
          using go s Inr False by (simp add: run_session_def Let_def ss_def [symmetric])
        have "in_loop (tab_store (emit ?e2 q)) 0 sid ?e2"
          using u False go s by (auto simp: in_loop_def unstarted_def query_session_def states_are_def pending_statement_def)
        then obtain e' where m: "moved ?e2 (emit ?e2 q) e' (run_statement now p (int 0) sid ?e2 (emit ?e2 q))"
          using run_statement_moved [of "emit ?e2 q" 0 sid ?e2 now p] assms(2) by auto
        have "begun ?e2 = begun e" using u(1) by (simp add: begun_def unstarted_def pending_statement_def comp_def)
        then have "moved e q e' (run_session now p r e q)"
          unfolding run by (intro moved_from [OF m]) (use assms(2) in simp_all)
        then show ?thesis by blast
      qed
    qed
  qed
qed

lemma statement_done_moved:
  assumes "shape (tab_store q) e (AtStatement p0)" "epc e = AtStatement p0" "esession e = Some sid"
    "map_of (tab_store q) sid = Some s"
  shows "\<exists>e'. moved e q e' (statement_done now p p0 raw sid s e q)"
proof -
  let ?k = "nat (ecurrent e)"
  define r where "r = serializeQueryResult raw (resultMaxRows q)"
  define a where "a = after_command (transactionCommand (st_sql (estatements e ! ?k))) (ts_transaction s)"
  let ?e1 = "(set_statement (ecurrent e) (done_statement (max 0 (p - p0)) r) e)\<lparr>etransaction := a\<rparr>"
  let ?q1 = "q\<lparr>tab_store := js_set (tab_store q) sid (s\<lparr>ts_transaction := a, ts_lastActivity := now\<rparr>)\<rparr>"
  have sh: "0 \<le> ecurrent e" "?k < length (estatements e)" using assms(1) by simp_all
  have run: "statement_done now p p0 raw sid s e q = run_statement now p (int (Suc ?k)) sid ?e1 (emit ?e1 ?q1)"
    using sh(1) by (simp add: statement_done_def Let_def r_def a_def add.commute)
  have loop: "in_loop (tab_store (emit ?e1 ?q1)) (Suc ?k) sid ?e1"
    using assms by (auto simp: in_loop_def states_are_def nth_list_update query_session_def done_statement_def less_Suc_eq)
  have "begun ?e1 = begun e"
    using begun_loop [OF loop] begun_statement [OF assms(1)] by simp
  moreover obtain e' where m: "moved ?e1 (emit ?e1 ?q1) e' (run_statement now p (int (Suc ?k)) sid ?e1 (emit ?e1 ?q1))"
    using run_statement_moved [OF loop, of now p] assms(2) by auto
  moreover have "store_le (tab_store q) (tab_store (emit ?e1 ?q1))"
    using assms(4) by (auto intro!: store_le_update)
  ultimately have "moved e q e' (statement_done now p p0 raw sid s e q)"
    unfolding run by (intro moved_from [OF m]) (use assms(2) in simp_all)
  then show ?thesis by blast
qed

lemma statement_failed_moved:
  assumes "shape (tab_store q) e (AtStatement p0)" "epc e = AtStatement p0"
  shows "\<exists>e'. moved e q e' (statement_failed now p p0 err s e q)"
proof -
  let ?k = "nat (ecurrent e)"
  define x where "x = queryError err (st_sql (estatements e ! ?k)) (st_start (estatements e ! ?k))"
  define ss where "ss = map (\<lambda>(j, y). if j = ?k then error_statement (max 0 (p - p0)) x y
                             else if ?k < j then y\<lparr>st_state := StSkipped\<rparr> else y)
                 (zip [0..<length (estatements e)] (estatements e))"
  let ?e1 = "e\<lparr>estatements := ss, eerror := Some x,
                 estate := (if ecancelRequested e \<and> er_category x = ''cancelled'' then ExCancelled else ExFailed),
                 etransaction := ts_transaction s\<rparr>"
  have run: "statement_failed now p p0 err s e q = run_end now p ?e1 (emit ?e1 q)"
    unfolding statement_failed_def Let_def ss_def x_def by (rule refl)
  have st: "states_are ss (\<lambda>j. if j < ?k then StDone else if j = ?k then StError else StSkipped)" and l: "?k < length ss"
    using assms(1) by (auto simp: ss_def states_are_def error_statement_def)
  have f: "finished_states ss"
    unfolding finished_states_def using st by (intro exI [of _ ?k] exI [of _ True]) (simp add: states_are_def)
  have "length (filter (\<lambda>s. st_state s \<in> {StRunning, StDone, StError}) ss) = Suc ?k"
    by (rule begun_states [OF st]) (use l in \<open>auto split: if_splits\<close>)
  then have b: "begun (ended p ?e1) = begun e"
    using begun_statement [OF assms(1)] by (simp add: begun_def)
  have nt: "\<not> isTerminalState (estate e)" using assms(1) by (auto simp: isTerminalState_def)
  have "moved e q (ended p ?e1) (run_end now p ?e1 (emit ?e1 q))"
    using assms(2) nt f b by (simp add: moved_def state_leI isTerminalState_def)
  then show ?thesis unfolding run by blast
qed

lemma run_executed_moved:
  assumes "shape (tab_store q) e (AtStatement p0)" "epc e = AtStatement p0"
  shows "\<exists>e'. moved e q e' (run_executed now p p0 outcome e q)"
proof -
  obtain sid s where s: "esession e = Some sid" "map_of (tab_store q) sid = Some s"
    using assms(1) by (auto simp: query_session_def split: option.splits)
  then show ?thesis
    using statement_done_moved [OF assms s] statement_failed_moved [OF assms]
    by (cases outcome) (auto simp: run_executed_def)
qed

section \<open>Cancelling\<close>

lemma no_running_session:
  "shape (tab_store q) e (AtStatement p) \<Longrightarrow> estatements e' = estatements e \<Longrightarrow> esession e' = esession e
     \<Longrightarrow> ecurrent e' = ecurrent e \<Longrightarrow> tab_store q' = tab_store q \<Longrightarrow> running_session e' q' \<noteq> None"
  by (auto simp: running_session_def query_session_def states_are_def split: option.splits)

lemma running_at_statement:
  assumes "shape (tab_store q) e (epc e)" "\<not> isTerminalState (estate e)" "ecancelPromise e = None"
    and "running_session e' q' = Some s" "estatements e' = estatements e"
  shows "\<exists>p. epc e = AtStatement p"
proof (cases "epc e")
  case AtEnd
  then show ?thesis using assms by auto
qed (use assms in \<open>auto simp: running_session_def unstarted_def split: option.splits if_splits\<close>)

lemma cancel_now_moved:
  assumes "shape (tab_store q) e (epc e)" "\<not> isTerminalState (estate e)" "ecancelPromise e = None"
  shows "\<exists>e'. moved e q e' (snd (cancel_now e q)) \<and> epc e' = epc e"
proof -
  let ?e1 = "e\<lparr>ecancelRequested := True, estate := ExCancelling\<rparr>"
  have nend: "epc e \<noteq> AtEnd" using assms by auto
  show ?thesis
  proof (cases "running_session ?e1 (emit ?e1 q)")
    case None
    have ns: "\<nexists>p. epc e = AtStatement p"
      using None no_running_session [of q e _ ?e1 "emit ?e1 q"] assms(1) by auto
    have u: "estatements e = []" "shape (tab_store q) (finished_cancellation ?e1) (epc e)"
      using assms ns nend by (cases "epc e"; auto simp: unstarted_def isTerminalState_def)+
    have "moved e q (finished_cancellation ?e1) (snd (cancel_now e q))"
      using None u nend assms(2) by (simp add: cancel_now_def Let_def moved_def state_leI)
    then show ?thesis by (intro exI [of _ "finished_cancellation ?e1"]) simp
  next
    case (Some s)
    obtain p where p: "epc e = AtStatement p"
      using running_at_statement [OF assms Some] by auto
    have b: "begun (e\<lparr>ecancelRequested := True, estate := ExCancelling, ecancelPromise := Some CpPending\<rparr>) = begun e"
      "begun (e\<lparr>ecancelRequested := False, estate := ExRunning\<rparr>) = begun e" by (simp_all add: begun_def)
    let ?e2 = "if ts_canCancel s
        then e\<lparr>ecancelRequested := True, estate := ExCancelling, ecancelPromise := Some CpPending\<rparr>
        else e\<lparr>ecancelRequested := False, estate := ExRunning\<rparr>"
    have "moved e q ?e2 (snd (cancel_now e q))"
      using Some p assms b by (auto simp: cancel_now_def Let_def moved_def state_leI cong: if_cong)
    then show ?thesis by (intro exI [of _ ?e2]) simp
  qed
qed

lemma cancel_settled_moved:
  assumes "shape (tab_store q) e (epc e)" "ecancelPromise e = Some CpPending"
  shows "\<exists>e'. moved e q e' (cancel_settled err e q)"
proof -
  have np: "\<not> unstarted e" using assms(2) by (simp add: unstarted_def)
  let ?e1 = "e\<lparr>ecancelPromise := Some CpResolved\<rparr>"
  have b: "begun ?e1 = begun e" by (simp add: begun_def)
  have 1: "moved e q ?e1 (put_exec ?e1 q)"
    using assms np b by (cases "epc e") (auto simp: moved_def cong: if_cong)
  show ?thesis
  proof (cases "err = None \<or> isTerminalState (estate e)")
    case True
    then show ?thesis using 1 by (auto simp: cancel_settled_def split: option.split)
  next
    case False
    then obtain m where m: "err = Some m" by (cases err) auto
    let ?e2 = "e\<lparr>ecancelRequested := False, estate := ExRunning,
      ecancelPromise := Some (CpRejected (service_err QUERY_CANCEL_FAILED m 502))\<rparr>"
    have b: "begun ?e2 = begun e" by (simp add: begun_def)
    have "moved e q ?e2 (emit ?e2 q)"
      using assms np b False by (cases "epc e") (auto simp: moved_def state_leI cong: if_cong)
    then show ?thesis using False m by (auto simp: cancel_settled_def)
  qed
qed

section \<open>The invariant\<close>

definition exec_ok :: "service \<Rightarrow> string \<Rightarrow> execution \<Rightarrow> bool" where
  "exec_ok q i e \<longleftrightarrow> eid e = i \<and> (\<exists>n < q_count q. i = q_ids q n) \<and> shape (tab_store q) e (epc e)
     \<and> calls q i = map int [0..<begun e]
     \<and> length (recorded q i) = (if epc e = AtEnd then 1 else 0) \<and> (epc e \<noteq> AtQueue \<longrightarrow> turn e q)"

definition query_inv :: "service \<Rightarrow> bool" where
  "query_inv q \<longleftrightarrow> distinct (js_keys (objects q)) \<and> inj (q_ids q)
     \<and> (\<forall>i e. map_of (objects q) i = Some e \<longrightarrow> exec_ok q i e)
     \<and> (\<forall>x \<in> set (q_executed q). map_of (objects q) (fst x) \<noteq> None)
     \<and> (\<forall>x \<in> set (q_appends q). map_of (objects q) (fst x) \<noteq> None)"

definition query_le :: "service \<Rightarrow> service \<Rightarrow> bool" where
  "query_le q q' \<longleftrightarrow> (\<forall>i e. map_of (objects q) i = Some e \<longrightarrow>
     (\<exists>e'. map_of (objects q') i = Some e' \<and> eowner e' = eowner e \<and> einput e' = einput e
        \<and> state_le (estate e) (estate e')
        \<and> (isTerminalState (estate e) \<longrightarrow> calls q' i = calls q i)
        \<and> (epc e = AtEnd \<longrightarrow> epc e' = AtEnd \<and> estatements e' = estatements e \<and> calls q' i = calls q i)))"

lemma query_le_refl [simp]: "query_le q q"
  by (simp add: query_le_def)

lemma state_le_terminal: "state_le s t \<Longrightarrow> isTerminalState s \<Longrightarrow> isTerminalState t"
  by (auto simp: state_le_def isTerminalState_def)

lemma query_le_trans:
  assumes "query_le q r" "query_le r s"
  shows "query_le q s"
  unfolding query_le_def
proof (intro allI impI)
  fix i e
  assume "map_of (objects q) i = Some e"
  then obtain f where f: "map_of (objects r) i = Some f" "eowner f = eowner e" "einput f = einput e"
    "state_le (estate e) (estate f)" "isTerminalState (estate e) \<longrightarrow> calls r i = calls q i"
    "epc e = AtEnd \<longrightarrow> epc f = AtEnd \<and> estatements f = estatements e \<and> calls r i = calls q i"
    using assms(1) unfolding query_le_def by blast
  then obtain g where g: "map_of (objects s) i = Some g" "eowner g = eowner f" "einput g = einput f"
    "state_le (estate f) (estate g)" "isTerminalState (estate f) \<longrightarrow> calls s i = calls r i"
    "epc f = AtEnd \<longrightarrow> epc g = AtEnd \<and> estatements g = estatements f \<and> calls s i = calls r i"
    using assms(2) unfolding query_le_def by blast
  show "\<exists>g. map_of (objects s) i = Some g \<and> eowner g = eowner e \<and> einput g = einput e
        \<and> state_le (estate e) (estate g) \<and> (isTerminalState (estate e) \<longrightarrow> calls s i = calls q i)
        \<and> (epc e = AtEnd \<longrightarrow> epc g = AtEnd \<and> estatements g = estatements e \<and> calls s i = calls q i)"
    using f g state_le_trans [OF f(4) g(4)] state_le_terminal [OF f(4)] by (intro exI [of _ g]) simp
qed

text \<open>The order of the executions is fixed; \<open>turn\<close> speaks of the earlier ones.\<close>

lemma turn_map:
  assumes "objects q' = map (\<lambda>(i, x). (i, f i x)) (objects q)" "turn e q" "eid e' = eid e" "tab_key e' = tab_key e"
    and "\<And>i x. (i, x) \<in> set (objects q) \<Longrightarrow> tab_key (f i x) = tab_key x \<and> (epc x = AtEnd \<longrightarrow> epc (f i x) = AtEnd)"
  shows "turn e' q'"
proof -
  have "takeWhile (\<lambda>(i, x). i \<noteq> eid e') (objects q') = map (\<lambda>(i, x). (i, f i x)) (takeWhile (\<lambda>(i, x). i \<noteq> eid e) (objects q))"
    by (simp add: assms(1,3) takeWhile_map comp_def case_prod_unfold)
  then show ?thesis
    using assms(2,4,5) set_takeWhileD by (fastforce simp: turn_def list_all_iff)
qed

lemma js_set_map:
  "distinct (js_keys m) \<Longrightarrow> map_of m k = Some v0 \<Longrightarrow> js_set m k v = map (\<lambda>(i, x). (i, if i = k then v else x)) m"
proof (induction m k v rule: js_set.induct)
  case (2 a b m k v)
  show ?case
  proof (cases "a = k")
    case True
    then have "map (\<lambda>(i, x). (i, if i = k then v else x)) m = m"
      using 2 by (intro map_idI) (auto simp: js_keys_def image_iff)
    then show ?thesis using True by simp
  next
    case False
    then show ?thesis using 2 by (simp add: js_keys_def)
  qed
qed simp

lemma moved_le:
  assumes "moved e q e' q'" "map_of (objects q) i = Some e" "eid e = i"
  shows "query_le q q'"
proof -
  obtain sid where x: "q_executed q' = q_executed q @ map (\<lambda>k. (eid e, int k, sid)) [begun e..<begun e']"
    using assms(1) by (auto simp: moved_def)
  have o: "calls q' j = calls q j" if "j \<noteq> i" for j
    using that x assms(3) by (simp add: calls_def)
  have s: "calls q' i = calls q i" if "begun e' = begun e" using that x by (simp add: calls_def)
  have b: "begun e' = begun e" if "estatements e' = estatements e" using that by (simp add: begun_def)
  show ?thesis
    using assms o s b by (auto simp: query_le_def moved_def)
qed

text \<open>Every change of the executions is a map over them; what each of them has to keep.\<close>

lemma map_of_map_values: "map_of (map (\<lambda>(i, x). (i, f i x)) m) k = map_option (f k) (map_of m k)"
  by (induction m) auto

lemma inv_map:
  assumes "query_inv q" "objects q' = map (\<lambda>(i, x). (i, f i x)) (objects q)"
    and "q_ids q' = q_ids q" "q_count q \<le> q_count q'"
    and "\<And>i x. map_of (objects q) i = Some x \<Longrightarrow> eid (f i x) = eid x \<and> tab_key (f i x) = tab_key x
        \<and> (epc x = AtEnd \<longrightarrow> epc (f i x) = AtEnd) \<and> shape (tab_store q') (f i x) (epc (f i x))
        \<and> calls q' i = map int [0..<begun (f i x)]
        \<and> length (recorded q' i) = (if epc (f i x) = AtEnd then 1 else 0)
        \<and> (epc (f i x) \<noteq> AtQueue \<longrightarrow> turn x q)"
    and "\<forall>x \<in> set (q_executed q'). map_of (objects q) (fst x) \<noteq> None"
    and "\<forall>x \<in> set (q_appends q'). map_of (objects q) (fst x) \<noteq> None"
  shows "query_inv q'"
proof -
  have m: "map_of (objects q') = (\<lambda>i. map_option (f i) (map_of (objects q) i))"
    unfolding assms(2) by (rule ext) (rule map_of_map_values)
  have k: "js_keys (objects q') = js_keys (objects q)"
    by (simp add: assms(2) js_keys_def comp_def case_prod_unfold)
  have d: "distinct (js_keys (objects q))" using assms(1) by (simp add: query_inv_def)
  have t: "turn (f i x) q'" if "map_of (objects q) i = Some x" "turn x q" for i x
    by (rule turn_map [OF assms(2) that(2)]) (use assms(5) that d js_entries_iff [OF d] in auto)
  have "exec_ok q' i (f i x)" if x: "map_of (objects q) i = Some x" for i x
  proof -
    have "exec_ok q i x" using assms(1) x by (simp add: query_inv_def)
    then have "eid x = i" "\<exists>n < q_count q'. i = q_ids q' n"
      using assms(3,4) by (auto simp: exec_ok_def intro: less_le_trans)
    then show ?thesis using assms(5) [OF x] t [OF x] by (simp add: exec_ok_def)
  qed
  then show ?thesis
    using assms(1,3,6,7) by (auto simp: query_inv_def m k)
qed

lemma moved_inv:
  assumes "query_inv q" "moved e q e' q'" "map_of (objects q) i = Some e"
    "epc e = AtQueue \<longrightarrow> epc e' = AtQueue \<or> turn e q"
  shows "query_inv q' \<and> query_le q q'"
proof
  have ok: "exec_ok q j x" if "map_of (objects q) j = Some x" for j x
    using assms(1) that by (simp add: query_inv_def)
  have i: "eid e = i" and turn: "epc e' \<noteq> AtQueue \<longrightarrow> turn e q"
    using ok [OF assms(3)] assms(4) by (auto simp: exec_ok_def)
  show "query_le q q'" by (rule moved_le [OF assms(2,3) i])
  have d: "distinct (js_keys (objects q))" using assms(1) by (simp add: query_inv_def)
  note M = assms(2) [unfolded moved_def i]
  obtain sid where x: "q_executed q' = q_executed q @ map (\<lambda>k. (i, int k, sid)) [begun e..<begun e']"
    using M by blast
  have b: "begun e \<le> begun e'" and o: "objects q' = js_set (objects q) i e'"
    and e': "eid e' = i" "eowner e' = eowner e" "einput e' = einput e" "shape (tab_store q') e' (epc e')"
    and pc: "epc e = AtEnd \<longrightarrow> epc e' = AtEnd" "epc e' = AtQueue \<longrightarrow> epc e = AtQueue"
    and ids: "q_ids q' = q_ids q" "q_count q \<le> q_count q'" and le: "store_le (tab_store q) (tab_store q')"
    and h: "map fst (q_appends q') = map fst (q_appends q) @ (if epc e' = AtEnd \<and> epc e \<noteq> AtEnd then [i] else [])"
    using M by blast+
  have cnt: "length (recorded r j) = length (filter (\<lambda>y. y = j) (map fst (q_appends r)))" for r j
    by (simp add: recorded_def filter_map comp_def)
  show "query_inv q'"
  proof (rule inv_map [OF assms(1), where f = "\<lambda>j x. if j = i then e' else x"])
    show "objects q' = map (\<lambda>(j, x). (j, if j = i then e' else x)) (objects q)"
      unfolding o by (rule js_set_map [OF d assms(3)])
    show "q_ids q' = q_ids q" "q_count q \<le> q_count q'" by (fact ids)+
    have known: "\<forall>x \<in> set (q_executed q). map_of (objects q) (fst x) \<noteq> None"
      "\<forall>x \<in> set (q_appends q). map_of (objects q) (fst x) \<noteq> None"
      using assms(1) unfolding query_inv_def by blast+
    show "\<forall>x \<in> set (q_executed q'). map_of (objects q) (fst x) \<noteq> None"
      using known(1) assms(3) unfolding x by auto
    have "set (map fst (q_appends q')) \<subseteq> insert i (set (map fst (q_appends q)))" unfolding h by auto
    then have "fst x = i \<or> fst x \<in> fst ` set (q_appends q)" if "x \<in> set (q_appends q')" for x
      using that by auto
    then show "\<forall>x \<in> set (q_appends q'). map_of (objects q) (fst x) \<noteq> None"
      using known(2) assms(3) by fastforce
  next
    fix j x0
    assume j: "map_of (objects q) j = Some x0"
    let ?x = "if j = i then e' else x0"
    have ok0: "exec_ok q j x0" by (rule ok [OF j])
    show "eid ?x = eid x0 \<and> tab_key ?x = tab_key x0 \<and> (epc x0 = AtEnd \<longrightarrow> epc ?x = AtEnd)
        \<and> shape (tab_store q') ?x (epc ?x) \<and> calls q' j = map int [0..<begun ?x]
        \<and> length (recorded q' j) = (if epc ?x = AtEnd then 1 else 0) \<and> (epc ?x \<noteq> AtQueue \<longrightarrow> turn x0 q)"
    proof (cases "j = i")
      case True
      then have x0: "x0 = e" using j assms(3) by simp
      have "calls q' i = map int [0..<begun e] @ map int [begun e..<begun e']"
        using ok0 True x0 by (simp add: calls_def x exec_ok_def comp_def)
      also have "\<dots> = map int [0..<begun e']"
        using upt_add_eq_append [of 0 "begun e" "begun e' - begun e"] b by (simp flip: map_append)
      finally have c: "calls q' i = map int [0..<begun e']" .
      have "length (recorded q' i) = (if epc e' = AtEnd then 1 else 0)"
        using ok0 True x0 cnt [of q i] pc(1) by (auto simp: cnt [of q'] h exec_ok_def)
      then show ?thesis
        using True x0 c i e' pc turn by (simp add: tab_key_def)
    next
      case False
      have "calls q' j = calls q j" using False by (simp add: calls_def x)
      moreover have "length (recorded q' j) = length (recorded q j)" using False by (simp add: cnt h)
      ultimately show ?thesis using False ok0 shape_le [OF _ le] by (simp add: exec_ok_def)
    qed
  qed
qed

text \<open>Steps that leave the executions alone, and the waking of those that wait for a session.\<close>

lemma frame_inv:
  assumes "query_inv q" "objects q' = objects q" "q_executed q' = q_executed q" "q_appends q' = q_appends q"
    "q_ids q' = q_ids q" "q_count q' = q_count q" "store_le (tab_store q) (tab_store q')"
  shows "query_inv q' \<and> query_le q q'"
proof
  have c: "calls q' = calls q" "recorded q' = recorded q"
    by (rule ext, simp add: calls_def recorded_def assms)+
  then show "query_le q q'" using assms(2) by (simp add: query_le_def)
  have "exec_ok q' i e" if "map_of (objects q) i = Some e" for i e
    using assms(1) that shape_le [OF _ assms(7)] c assms(2,5,6)
    by (auto simp: query_inv_def exec_ok_def turn_def)
  then show "query_inv q'" using assms by (simp add: query_inv_def)
qed

lemma resume_waiting_simps [simp]:
  "eid (resume_waiting k r e) = eid e" "tab_key (resume_waiting k r e) = tab_key e"
  "eowner (resume_waiting k r e) = eowner e" "einput (resume_waiting k r e) = einput e"
  "estate (resume_waiting k r e) = estate e" "estatements (resume_waiting k r e) = estatements e"
  "epc e \<noteq> AtOpen \<Longrightarrow> resume_waiting k r e = e" "begun (resume_waiting k r e) = begun e"
  by (simp_all add: resume_waiting_def tab_key_def begun_def)

lemma wake_inv:
  assumes "query_inv q" "case r of Inl _ \<Rightarrow> True | Inr sid \<Rightarrow> map_of (tab_store q) sid \<noteq> None"
  shows "query_inv (wake k r q) \<and> query_le q (wake k r q)"
proof
  have w: "map_of (objects (wake k r q)) i = map_option (resume_waiting k r) (map_of (objects q) i)" for i
    by (simp add: wake_def map_of_map_values)
  have c: "calls (wake k r q) = calls q" "recorded (wake k r q) = recorded q"
    by (rule ext, simp add: calls_def recorded_def wake_def)+
  show "query_le q (wake k r q)" by (auto simp: query_le_def w c)
  show "query_inv (wake k r q)"
  proof (rule inv_map [OF assms(1), where f = "\<lambda>i. resume_waiting k r"])
    fix i x
    assume x: "map_of (objects q) i = Some x"
    then have ok: "exec_ok q i x" using assms(1) by (simp add: query_inv_def)
    let ?x = "resume_waiting k r x"
    have "shape (tab_store (wake k r q)) ?x (epc ?x) \<and> (epc ?x = AtEnd \<longleftrightarrow> epc x = AtEnd)
        \<and> (epc ?x \<noteq> AtQueue \<longrightarrow> epc x \<noteq> AtQueue)"
    proof (cases "epc x = AtOpen \<and> tab_key x = k")
      case True
      then have "unstarted ?x" using ok by (auto simp: exec_ok_def resume_waiting_def unstarted_def)
      then show ?thesis using True ok assms(2) by (auto simp: exec_ok_def resume_waiting_def wake_def)
    next
      case False
      then have "?x = x" by (simp add: resume_waiting_def)
      then show ?thesis using ok by (simp add: exec_ok_def wake_def)
    qed
    then show "eid ?x = eid x \<and> tab_key ?x = tab_key x \<and> (epc x = AtEnd \<longrightarrow> epc ?x = AtEnd)
        \<and> shape (tab_store (wake k r q)) ?x (epc ?x) \<and> calls (wake k r q) i = map int [0..<begun ?x]
        \<and> length (recorded (wake k r q) i) = (if epc ?x = AtEnd then 1 else 0)
        \<and> (epc ?x \<noteq> AtQueue \<longrightarrow> turn x q)"
      using ok by (simp add: exec_ok_def c)
  next
    show "\<forall>x \<in> set (q_executed (wake k r q)). map_of (objects q) (fst x) \<noteq> None"
      "\<forall>x \<in> set (q_appends (wake k r q)). map_of (objects q) (fst x) \<noteq> None"
      using assms(1) unfolding query_inv_def wake_def by simp_all
  qed (simp_all add: wake_def)
qed

lemma opening_settled_inv:
  assumes "query_inv q"
  shows "query_inv (opening_settled now key outcome q) \<and> query_le q (opening_settled now key outcome q)"
proof (cases "map_of (opening_tabs q) key")
  case None
  then show ?thesis using assms by (simp add: opening_settled_def)
next
  case (Some o')
  obtain u t c d where o': "o' = (u, t, c, d)" by (cases o') auto
  have via: "query_inv (wake key r q1) \<and> query_le q (wake key r q1)"
    if "objects q1 = objects q" "q_executed q1 = q_executed q" "q_appends q1 = q_appends q" "q_ids q1 = q_ids q"
      "q_count q1 = q_count q" "store_le (tab_store q) (tab_store q1)"
      "case r of Inl _ \<Rightarrow> True | Inr sid \<Rightarrow> map_of (tab_store q1) sid \<noteq> None" for r q1
    using frame_inv [OF assms that(1-6)] wake_inv [of q1 r key] that(7) query_le_trans by blast
  show ?thesis
  proof (cases outcome)
    case (Inl err)
    then show ?thesis using Some o' via [of _ "Inl err"] by (simp add: opening_settled_def)
  next
    case (Inr h)
    then show ?thesis using Some o' via [of _ "Inr (oh_handle h)"] assms
      by (auto simp: opening_settled_def Let_def store_le_insert)
  qed
qed

section \<open>Every event\<close>

lemma js_set_fresh: "map_of m k = None \<Longrightarrow> js_set m k v = m @ [(k, v)]"
  by (induction m k v rule: js_set.induct) (auto split: if_splits)

lemma turn_append:
  assumes "objects q' = objects q @ [(i, e)]" "eid x \<in> fst ` set (objects q)"
  shows "turn x q' = turn x q"
proof -
  obtain y where "(eid x, y) \<in> set (objects q)" using assms(2) by force
  then have "takeWhile (\<lambda>(i, y). i \<noteq> eid x) (objects q @ [(i, e)]) = takeWhile (\<lambda>(i, y). i \<noteq> eid x) (objects q)"
    by (intro takeWhile_append1) auto
  then show ?thesis by (simp add: turn_def assms(1))
qed

definition fresh_execution :: "time \<Rightarrow> string \<Rightarrow> start_input \<Rightarrow> string \<Rightarrow> execution" where
  "fresh_execution now u input i =
     \<lparr>eid = i, eowner = u, einput = input, ecreated = now, estate = ExQueued, estatements = [],
      ecurrent = - 1, etransaction = False, ecancelRequested = False, ecancelPromise = None,
      esession = None, eduration = None, eerror = None, epc = AtQueue, estarted = 0\<rparr>"

lemma fresh_simps [simp]:
  "eid (fresh_execution now u input i) = i" "epc (fresh_execution now u input i) = AtQueue"
  "estate (fresh_execution now u input i) = ExQueued" "unstarted (fresh_execution now u input i)"
  by (simp_all add: fresh_execution_def unstarted_def)

lemma start_cases:
  "snd (start now connected u raw q) = q
   \<or> (\<exists>input. snd (start now connected u raw q)
         = emit (fresh_execution now u input (q_ids q (q_count q))) (q\<lparr>q_count := q_count q + 1\<rparr>))"
  by (auto simp: start_def Let_def fresh_execution_def split: sum.split)

lemma start_inv:
  assumes "query_inv q"
  shows "query_inv (snd (start now connected u raw q)) \<and> query_le q (snd (start now connected u raw q))"
proof (rule disjE [OF start_cases [of now connected u raw q]])
  assume "snd (start now connected u raw q) = q"
  then show ?thesis using assms by simp
next
  assume "\<exists>input. snd (start now connected u raw q)
      = emit (fresh_execution now u input (q_ids q (q_count q))) (q\<lparr>q_count := q_count q + 1\<rparr>)"
  then obtain input where q: "snd (start now connected u raw q)
      = emit (fresh_execution now u input (q_ids q (q_count q))) (q\<lparr>q_count := q_count q + 1\<rparr>)" ..
  let ?i = "q_ids q (q_count q)"
  let ?e = "fresh_execution now u input ?i"
  let ?q = "emit ?e (q\<lparr>q_count := Suc (q_count q)\<rparr>)"
  have ok: "exec_ok q j x" if "map_of (objects q) j = Some x" for j x
    using assms that by (simp add: query_inv_def)
  have fresh: "map_of (objects q) ?i = None"
  proof (rule ccontr)
    assume "map_of (objects q) ?i \<noteq> None"
    then obtain x n where "n < q_count q" "?i = q_ids q n" using ok by (fastforce simp: exec_ok_def)
    then show False using assms by (auto simp: query_inv_def inj_eq)
  qed
  have obj: "objects ?q = objects q @ [(?i, ?e)]"
    using js_set_fresh [OF fresh] by simp
  have m: "map_of (objects ?q) = (map_of (objects q))(?i \<mapsto> ?e)" by simp
  have c: "calls ?q = calls q" "recorded ?q = recorded q" by (rule ext, simp add: calls_def recorded_def)+
  have none: "calls q ?i = []" "recorded q ?i = []"
    using assms fresh by (force simp: query_inv_def calls_def recorded_def filter_empty_conv)+
  have "exec_ok ?q j x" if "map_of (objects ?q) j = Some x" for j x
  proof (cases "j = ?i")
    case True
    then have "x = ?e" using that m by simp
    then show ?thesis
      using True none by (auto simp: exec_ok_def c)
  next
    case False
    then have x: "map_of (objects q) j = Some x" using that m by simp
    then have "j \<in> fst ` set (objects q)" by (metis map_of_eq_None_iff option.distinct(1))
    then have "turn x ?q = turn x q" using ok [OF x] turn_append [OF obj] by (simp add: exec_ok_def)
    then show ?thesis using ok [OF x] by (auto simp: exec_ok_def c intro: less_SucI)
  qed
  moreover have "distinct (js_keys (objects ?q))" "inj (q_ids ?q)"
    using assms by (simp_all add: query_inv_def distinct_js_set)
  moreover have "\<forall>x \<in> set (q_executed ?q). map_of (objects ?q) (fst x) \<noteq> None"
    "\<forall>x \<in> set (q_appends ?q). map_of (objects ?q) (fst x) \<noteq> None"
    using assms unfolding query_inv_def m by auto
  ultimately have "query_inv ?q" unfolding query_inv_def by blast
  moreover have "query_le q ?q"
    using fresh by (auto simp: query_le_def m c)
  ultimately show ?thesis by (simp add: q)
qed

lemma at_exec_inv:
  assumes "query_inv q"
    and "\<And>e. map_of (objects q) i = Some e \<Longrightarrow> exec_ok q i e \<Longrightarrow>
      f e = q \<or> (\<exists>e'. moved e q e' (f e)) \<and> (epc e = AtQueue \<longrightarrow> turn e q)"
  shows "query_inv (at_exec i f q) \<and> query_le q (at_exec i f q)"
proof (cases "map_of (objects q) i")
  case None
  then show ?thesis using assms(1) by (simp add: at_exec_def)
next
  case (Some e)
  then have "exec_ok q i e" using assms(1) by (simp add: query_inv_def)
  then show ?thesis
    using assms(2) [OF Some] moved_inv [OF assms(1) _ Some] assms(1) Some by (auto simp: at_exec_def)
qed

lemma cancel_inv:
  assumes "query_inv q"
  shows "query_inv (snd (cancel i u q)) \<and> query_le q (snd (cancel i u q))"
proof (cases "\<exists>e. getForOwner i u q = Some e \<and> \<not> isTerminalState (estate e) \<and> ecancelPromise e = None")
  case True
  then obtain e where e: "getForOwner i u q = Some e" "\<not> isTerminalState (estate e)" "ecancelPromise e = None"
    by blast
  then have m: "map_of (objects q) i = Some e"
    by (auto simp: getForOwner_def executions_def split: option.splits if_splits)
  then have ok: "exec_ok q i e" using assms by (simp add: query_inv_def)
  have "\<exists>e'. moved e q e' (snd (cancel_now e q)) \<and> epc e' = epc e"
    by (rule cancel_now_moved) (use ok e in \<open>simp_all add: exec_ok_def\<close>)
  then obtain e' where mv: "moved e q e' (snd (cancel_now e q))" "epc e' = epc e" by blast
  have c: "snd (cancel i u q) = snd (cancel_now e q)" using e by (simp add: cancel_def)
  show ?thesis using moved_inv [OF assms mv(1) m] mv(2) by (simp add: c)
next
  case False
  then have "snd (cancel i u q) = q"
    by (auto simp: cancel_def split: option.splits cancel_promise.splits)
  then show ?thesis using assms by simp
qed

lemma closing_inv:
  assumes "query_inv q"
  shows "query_inv (snd (closeSession u t force q)) \<and> query_le q (snd (closeSession u t force q))"
    "query_inv (snd (sweepIdle at q)) \<and> query_le q (snd (sweepIdle at q))"
    "query_inv (dispose q) \<and> query_le q (dispose q)"
    "query_inv (disposed_done q) \<and> query_le q (disposed_done q)"
    "query_inv (session_open u t c d q) \<and> query_le q (session_open u t c d q)"
proof -
  show "query_inv (snd (closeSession u t force q)) \<and> query_le q (snd (closeSession u t force q))"
    by (rule frame_inv [OF assms]) (simp_all add: closeSession_def Let_def split: option.splits)
  show "query_inv (snd (sweepIdle at q)) \<and> query_le q (snd (sweepIdle at q))"
    by (rule frame_inv [OF assms]) (simp_all add: sweepIdle_def Let_def)
  show "query_inv (dispose q) \<and> query_le q (dispose q)"
    by (rule frame_inv [OF assms]) (simp_all add: dispose_def)
  show "query_inv (disposed_done q) \<and> query_le q (disposed_done q)"
    by (rule frame_inv [OF assms]) (simp_all add: disposed_done_def)
  show "query_inv (session_open u t c d q) \<and> query_le q (session_open u t c d q)"
    by (rule frame_inv [OF assms]) simp_all
qed

lemma peek_inv:
  assumes "query_inv q"
  shows "query_inv (peek now u t c d q) \<and> query_le q (peek now u t c d q)"
proof -
  obtain r q1 where s: "session_enter now (sessionKey u t) c d q = (r, q1)"
    by (cases "session_enter now (sessionKey u t) c d q")
  note f = session_enter_frame [OF s]
  show ?thesis
    by (rule frame_inv [OF assms]) (simp_all add: peek_def s f split: session_outcome.split)
qed

lemma query_step_ok:
  assumes "query_inv q"
  shows "query_inv (query_step q ev) \<and> query_le q (query_step q ev)"
proof (cases ev)
  case (QRun now p i)
  show ?thesis unfolding QRun query_step.simps
    by (rule at_exec_inv [OF assms]) (auto simp: exec_ok_def simp del: shape.simps intro: run_start_moved)
next
  case (QClosed now p i err)
  show ?thesis unfolding QClosed query_step.simps
    by (rule at_exec_inv [OF assms]) (auto simp: exec_ok_def simp del: shape.simps intro: run_closed_moved)
next
  case (QResume now p i)
  show ?thesis unfolding QResume query_step.simps
    by (rule at_exec_inv [OF assms])
      (auto simp: exec_ok_def simp del: shape.simps intro: run_session_moved split: control.splits)
next
  case (QExecuted now p i outcome)
  show ?thesis unfolding QExecuted query_step.simps
    by (rule at_exec_inv [OF assms])
      (auto simp: exec_ok_def simp del: shape.simps intro: run_executed_moved split: control.splits)
next
  case (QCancelSettled i err)
  have "epc e \<noteq> AtQueue" if "shape (tab_store q) e (epc e)" "ecancelPromise e = Some CpPending" for e
    using that by (auto simp: unstarted_def)
  then show ?thesis unfolding QCancelSettled query_step.simps
    by (intro at_exec_inv [OF assms])
      (auto simp: exec_ok_def simp del: shape.simps intro: cancel_settled_moved)
qed (simp_all add: assms start_inv opening_settled_inv cancel_inv peek_inv closing_inv)

interpretation query: handler_invariant query_step query_inv
  by unfold_locales (simp add: query_step_ok)

interpretation query_order: handler_order query_step query_inv query_le
  by (unfold_locales, simp add: query_step_ok, simp, rule query_le_trans)

lemma new_service_inv:
  assumes "new_service maxRows idle ids accepts = Some q" "inj ids"
  shows "query_inv q"
  using assms by (auto simp: new_service_def Let_def query_inv_def js_keys_def split: if_splits)


section \<open>What the repository has\<close>

text \<open>The entries whose \<open>append\<close> did not throw, in the order of the calls.\<close>

definition logged :: "(history_entry \<Rightarrow> bool) \<Rightarrow> service \<Rightarrow> bool" where
  "logged accepts q \<longleftrightarrow> q_accepts q = accepts \<and> q_history q = filter (\<lambda>x. accepts (snd x)) (q_appends q)"

lemma logged_frame:
  "q_history q' = q_history q \<Longrightarrow> q_accepts q' = q_accepts q \<Longrightarrow> q_appends q' = q_appends q \<Longrightarrow> logged accepts q' = logged accepts q"
  by (simp add: logged_def)

named_theorems logs

lemma logged_put [simp]: "logged accepts (put_exec e q) = logged accepts q"
  by (simp add: logged_def put_exec_def)

lemma logged_emit [simp]: "logged accepts (emit e q) = logged accepts q"
  by (simp add: logged_def emit_def put_exec_def)

lemma logged_record [logs]: "logged accepts q \<Longrightarrow> logged accepts (recordHistory now e q)"
  by (simp add: logged_def recordHistory_def Let_def)

lemma logged_end [logs]: "logged accepts q \<Longrightarrow> logged accepts (run_end now p e q)"
  by (simp add: run_end_def Let_def logs)

lemma logged_throw [logs]: "logged accepts q \<Longrightarrow> logged accepts (run_throw now p err e q)"
  by (simp add: run_throw_def Let_def logs)

lemma logged_enter: "logged accepts q \<Longrightarrow> session_enter now key c d q = (r, q') \<Longrightarrow> logged accepts q'"
  by (auto simp: session_enter_def logged_def split: option.splits if_splits)

lemma logged_open [logs]: "logged accepts q \<Longrightarrow> logged accepts (session_open u t c d q)"
  by (simp add: session_open_def Let_def logged_def split: option.split)

lemma logged_settled [logs]: "logged accepts q \<Longrightarrow> logged accepts (opening_settled now key outcome q)"
  by (auto simp: opening_settled_def Let_def logged_def wake_def split: option.split sum.split)

lemma logged_start [logs]: "logged accepts q \<Longrightarrow> logged accepts (snd (start now connected u raw q))"
  by (auto simp: start_def Let_def logged_def emit_def put_exec_def split: sum.split)

lemma logged_run_start [logs]:
  assumes "logged accepts q"
  shows "logged accepts (run_start now p e q)"
proof -
  let ?e = "e\<lparr>estarted := p, estate := ExRunning\<rparr>"
  obtain r q1 where s: "session_enter now (tab_key e) (in_connectionId (einput e)) (in_database (einput e)) (emit ?e q) = (r, q1)"
    by (cases "session_enter now (tab_key e) (in_connectionId (einput e)) (in_database (einput e)) (emit ?e q)")
  then have "logged accepts q1" using assms by (intro logged_enter [OF _ s]) simp
  then show ?thesis using assms s by (cases r) (simp_all add: run_start_def Let_def logs)
qed

lemma logged_run_closed [logs]: "logged accepts q \<Longrightarrow> logged accepts (run_closed now p err e q)"
  by (simp add: run_closed_def logs split: option.split)

lemma logged_run_statement [logs]: "logged accepts q \<Longrightarrow> logged accepts (run_statement now p k sid e q)"
proof -
  assume q: "logged accepts q"
  have "logged accepts (x\<lparr>q_executed := y\<rparr>) = logged accepts x" for x y by (simp add: logged_def)
  then show ?thesis using q by (simp add: run_statement_def Let_def logs)
qed

lemma logged_run_session [logs]:
  assumes "logged accepts q"
  shows "logged accepts (run_session now p outcome e q)"
proof (cases outcome)
  case (Inr sid)
  then show ?thesis using assms by (cases "map_of (tab_store q) sid") (simp_all add: run_session_def Let_def logs)
qed (use assms in \<open>simp add: run_session_def logs\<close>)

lemma logged_done [logs]: "logged accepts q \<Longrightarrow> logged accepts (statement_done now p p0 raw sid s e q)"
  by (simp add: statement_done_def Let_def logs) (intro logs, simp, simp add: logged_def)

lemma logged_failed [logs]: "logged accepts q \<Longrightarrow> logged accepts (statement_failed now p p0 err s e q)"
  by (simp add: statement_failed_def Let_def logs)

lemma logged_run_executed [logs]: "logged accepts q \<Longrightarrow> logged accepts (run_executed now p p0 outcome e q)"
  by (simp add: run_executed_def logs split: sum.split option.split)

lemma logged_cancel [logs]: "logged accepts q \<Longrightarrow> logged accepts (snd (cancel i u q))"
  by (auto simp: cancel_def cancel_now_def Let_def split: option.split cancel_promise.split)

lemma logged_cancel_settled [logs]: "logged accepts q \<Longrightarrow> logged accepts (cancel_settled err e q)"
  by (simp add: cancel_settled_def split: option.split)

lemma logged_peek [logs]:
  assumes "logged accepts q"
  shows "logged accepts (peek now u t c d q)"
proof -
  obtain r q1 where s: "session_enter now (sessionKey u t) c d q = (r, q1)" by (cases "session_enter now (sessionKey u t) c d q")
  then show ?thesis using logged_enter [OF assms s] by (cases r) (simp_all add: peek_def logs)
qed

lemma logged_closing [logs]:
  "logged accepts q \<Longrightarrow> logged accepts (snd (closeSession u t force q))" "logged accepts q \<Longrightarrow> logged accepts (snd (sweepIdle at q))"
  "logged accepts q \<Longrightarrow> logged accepts (dispose q)" "logged accepts q \<Longrightarrow> logged accepts (disposed_done q)"
  by (auto simp: closeSession_def sweepIdle_def dispose_def disposed_done_def Let_def logged_def split: option.split)

lemma logged_at [logs]: "logged accepts q \<Longrightarrow> (\<And>e. logged accepts (f e)) \<Longrightarrow> logged accepts (at_exec i f q)"
  by (simp add: at_exec_def split: option.split)

interpretation query_log: handler_invariant query_step "logged accepts" for accepts
proof
  fix q ev
  assume "logged accepts q"
  then show "logged accepts (query_step q ev)" by (cases ev) (auto intro!: logs split: control.split)
qed

lemma new_service_logged: "new_service maxRows idle ids accepts = Some q \<Longrightarrow> logged accepts q"
  by (auto simp: new_service_def Let_def logged_def split: if_splits)

end
