(* ===== verification/QueryProps.thy ===== *)
theory QueryProps
  imports QueryInv
begin

text \<open>
  What query execution guarantees over every history of requests, provider answers and timers, and
  histories in which it does not do what it means to.
\<close>

section \<open>A concrete history\<close>

definition sample_input :: "string \<Rightarrow> string \<Rightarrow> start_input" where
  "sample_input d sql = \<lparr>in_connectionId = ''c'', in_database = d, in_schema = None, in_sql = sql,
     in_mode = Full, in_tabSessionId = ''t'', in_sourceOffset = None, in_cursorOffset = None\<rparr>"

definition sample_handle :: "nat \<Rightarrow> opened_handle" where
  "sample_handle n = \<lparr>oh_handle = n, oh_engine = Postgresql, oh_hasQuery = True, oh_canCancel = True,
     oh_cancelReason = None\<rparr>"

definition sample_result :: query_result where
  "sample_result = \<lparr>columns = [], rows = [], affectedRows = Some 1, durationMs = None\<rparr>"

definition sample_service :: service where
  "sample_service = the (new_service None None show_nat (\<lambda>_. True))"

lemma sample_service: "new_service None None show_nat (\<lambda>_. True) = Some sample_service"
  by (simp add: sample_service_def new_service_def)

text \<open>Two requests in one tab; the first runs its first statement, then fails at the second.\<close>

definition sample_start :: "query_event list" where
  "sample_start =
     [QStart 0 (\<lambda>_. True) ''u'' (sample_input ''d'' ''a;b;c''), QStart 0 (\<lambda>_. True) ''u'' (sample_input ''d'' ''x''),
      QRun 1 1 ''0'', QOpened 2 (sessionKey ''u'' ''t'') (Inr (sample_handle 7)), QResume 3 3 ''0'',
      QExecuted 4 4 ''0'' (Inr sample_result)]"

definition sample_end :: "query_event list" where
  "sample_end = [QExecuted 5 5 ''0'' (Inl ThrownOther), QRun 6 6 ''1'']"

text \<open>What \<open>executions\<close> shows of one execution.\<close>

definition view :: "service \<Rightarrow> string \<Rightarrow> (exec_state \<times> stmt_state list \<times> control) option" where
  "view q i = map_option (\<lambda>e. (estate e, map st_state (estatements e), epc e)) (map_of (objects q) i)"

lemma sample_views:
  "view (foldl query_step sample_service sample_start) ''0''
     = Some (ExRunning, [StDone, StRunning, StPending], AtStatement 4)"
  "view (foldl query_step sample_service (sample_start @ sample_end)) ''0''
     = Some (ExFailed, [StDone, StError, StSkipped], AtEnd)"
  "view (foldl query_step sample_service (sample_start @ sample_end)) ''1'' = Some (ExRunning, [], AtSession (Inr 7))"
  "view (foldl query_step sample_service sample_start) ''1'' = Some (ExQueued, [], AtQueue)"
  by code_simp+

lemma view_Some:
  assumes "view q i = Some (s, ss, c)"
  obtains e where "map_of (objects q) i = Some e" "estate e = s" "map st_state (estatements e) = ss" "epc e = c"
  using assms by (auto simp: view_def)

lemma one_is_earlier:
  assumes "(i, e) \<in> set xs" "(j, f) \<in> set xs" "i \<noteq> j" "distinct (map fst xs)"
  shows "(i, e) \<in> set (takeWhile (\<lambda>(a, x). a \<noteq> j) xs) \<or> (j, f) \<in> set (takeWhile (\<lambda>(a, x). a \<noteq> i) xs)"
  using assms by (induction xs) (auto intro: rev_image_eqI)

section \<open>Statements\<close>

text \<open>The shapes of the invariant, read off: what is after a statement that has not succeeded.\<close>

lemma shape_statements:
  assumes "shape st e c" "j < length (estatements e)" "st_state (estatements e ! j) \<noteq> StDone"
    and "j < k" "k < length (estatements e)"
  shows "st_state (estatements e ! k) \<in> {StPending, StSkipped}"
proof (cases c)
  case AtEnd
  then obtain m b where "states_are (estatements e) (\<lambda>j. if j < m then StDone else if j = m \<and> b then StError else StSkipped)"
    using assms(1) by (auto simp: finished_states_def)
  then show ?thesis using assms(2-5) by (auto simp: states_are_def split: if_splits)
qed (use assms in \<open>auto simp: unstarted_def states_are_def split: if_splits\<close>)

text \<open>
  Claim C3: In every history the statements of an execution are handed to the provider in their
  order, each at most once: the calls are 0, 1, \<dots>, n - 1, where n counts the statements that are
  running, done or failed. No statement is begun after one that has not succeeded.
\<close>

theorem statements_run_once_in_order:
  assumes "new_service maxRows idle ids accepts = Some q0" "inj ids" "q = foldl query_step q0 es"
    and "map_of (objects q) i = Some e"
  shows "calls q i = map int [0..<length (filter (\<lambda>s. st_state s \<in> {StRunning, StDone, StError}) (estatements e))]
    \<and> (\<forall>j k. j < k \<longrightarrow> k < length (estatements e) \<longrightarrow> st_state (estatements e ! j) \<noteq> StDone \<longrightarrow>
         st_state (estatements e ! k) \<in> {StPending, StSkipped})"
proof -
  have "query_inv q" unfolding assms(3) by (rule query.run_inv [OF new_service_inv [OF assms(1,2)]])
  then have "exec_ok q i e" using assms(4) by (simp add: query_inv_def)
  then show ?thesis using shape_statements unfolding exec_ok_def begun_def by (meson less_trans)
qed

theorem statements_run_once_in_order_witness:
  "calls (foldl query_step sample_service (sample_start @ sample_end)) ''0'' = [0, 1]"
proof -
  let ?q = "foldl query_step sample_service (sample_start @ sample_end)"
  obtain e where e: "map_of (objects ?q) ''0'' = Some e" "map st_state (estatements e) = [StDone, StError, StSkipped]"
    by (rule view_Some [OF sample_views(2)])
  have "length (filter (\<lambda>s. st_state s \<in> {StRunning, StDone, StError}) (estatements e))
      = length (filter (\<lambda>s. s \<in> {StRunning, StDone, StError}) (map st_state (estatements e)))"
    by (simp add: filter_map comp_def)
  also have "\<dots> = 2" unfolding e(2) by simp
  finally show ?thesis
    using statements_run_once_in_order [OF sample_service inj_show_nat refl e(1)] by (simp add: upt_conv_Cons)
qed

text \<open>
  The executions of one tab do not interleave: while one of them has begun and not ended,
  every other execution of the same user and tab is still waiting for its turn or is over, and
  those that were submitted before it are over.
\<close>

theorem tab_executions_take_turns:
  assumes "new_service maxRows idle ids accepts = Some q0" "inj ids" "q = foldl query_step q0 es"
    and "map_of (objects q) i = Some e" "map_of (objects q) j = Some f" "i \<noteq> j" "tab_key e = tab_key f"
    and "epc e \<noteq> AtQueue" "epc e \<noteq> AtEnd"
  shows "epc f = AtQueue \<or> epc f = AtEnd"
proof (rule ccontr)
  assume n: "\<not> ?thesis"
  have inv: "query_inv q" unfolding assms(3) by (rule query.run_inv [OF new_service_inv [OF assms(1,2)]])
  then have ok: "exec_ok q i e" "exec_ok q j f" using assms(4,5) by (simp_all add: query_inv_def)
  then have t: "turn e q" "turn f q" "eid e = i" "eid f = j" using n assms(8) by (auto simp: exec_ok_def)
  have e: "(i, e) \<in> set (objects q)" "(j, f) \<in> set (objects q)" using assms(4,5) map_of_SomeD by fastforce+
  have "(i, e) \<in> set (takeWhile (\<lambda>(a, x). a \<noteq> j) (objects q)) \<or> (j, f) \<in> set (takeWhile (\<lambda>(a, x). a \<noteq> i) (objects q))"
    by (rule one_is_earlier [OF e assms(6)]) (use inv in \<open>simp add: query_inv_def js_keys_def\<close>)
  then show False
    using t n assms(7,9) by (auto simp: turn_def list_all_iff)
qed

theorem tab_executions_take_turns_witness:
  "\<exists>f. map_of (objects (foldl query_step sample_service sample_start)) ''1'' = Some f \<and> epc f \<in> {AtQueue, AtEnd}"
proof -
  let ?q = "foldl query_step sample_service sample_start"
  obtain e where e: "map_of (objects ?q) ''0'' = Some e" "epc e = AtStatement 4"
    by (rule view_Some [OF sample_views(1)])
  obtain f where f: "map_of (objects ?q) ''1'' = Some f"
    by (rule view_Some [OF sample_views(4)])
  have k: "map_option tab_key (map_of (objects ?q) ''0'') = map_option tab_key (map_of (objects ?q) ''1'')"
    by code_simp
  have "epc f = AtQueue \<or> epc f = AtEnd"
    by (rule tab_executions_take_turns [OF sample_service inj_show_nat refl e(1) f]) (use e k f in simp_all)
  then show ?thesis using f by simp
qed

text \<open>
  An execution that is completed or failed keeps that state through every later history; a
  cancelled one stays cancelled, except that it becomes failed when its session then cannot be
  opened. None of them hands another statement to the provider, and owner and request never change.
\<close>

theorem finished_executions_rest:
  assumes "new_service maxRows idle ids accepts = Some q0" "inj ids" "q = foldl query_step q0 es"
    and "map_of (objects q) i = Some e" "isTerminalState (estate e)" "q' = foldl query_step q es'"
  shows "\<exists>e'. map_of (objects q') i = Some e' \<and> eowner e' = eowner e \<and> einput e' = einput e
     \<and> (estate e' = estate e \<or> estate e = ExCancelled \<and> estate e' = ExFailed) \<and> calls q' i = calls q i"
proof -
  have "query_inv q" unfolding assms(3) by (rule query.run_inv [OF new_service_inv [OF assms(1,2)]])
  then have "query_le q q'" unfolding assms(6) by (rule query_order.run_le)
  then show ?thesis using assms(4,5) by (fastforce simp: query_le_def state_le_def)
qed

theorem finished_executions_rest_witness:
  "calls (foldl query_step (foldl query_step sample_service (sample_start @ sample_end))
     [QExecuted 7 7 ''0'' (Inr sample_result), QCancel ''0'' ''u'']) ''0''
   = calls (foldl query_step sample_service (sample_start @ sample_end)) ''0''"
proof -
  obtain e where e: "map_of (objects (foldl query_step sample_service (sample_start @ sample_end))) ''0'' = Some e"
    "estate e = ExFailed" by (rule view_Some [OF sample_views(2)])
  then have "isTerminalState (estate e)" by (simp add: isTerminalState_def)
  from finished_executions_rest [OF sample_service inj_show_nat refl e(1) this refl]
  show ?thesis by blast
qed



section \<open>Histories that go wrong\<close>

text \<open>A cancelled execution whose session then cannot be opened becomes a failed one.\<close>

lemma cancelled_becomes_failed:
  "view (foldl query_step sample_service
      [QStart 0 (\<lambda>_. True) ''u'' (sample_input ''d'' ''a''), QRun 1 1 ''0'', QCancel ''0'' ''u'']) ''0''
     = Some (ExCancelled, [], AtOpen)"
  "view (foldl query_step sample_service
      [QStart 0 (\<lambda>_. True) ''u'' (sample_input ''d'' ''a''), QRun 1 1 ''0'', QCancel ''0'' ''u'',
       QOpened 2 (sessionKey ''u'' ''t'') (Inl ThrownOther), QResume 3 3 ''0'']) ''0'' = Some (ExFailed, [], AtEnd)"
  by code_simp+

text \<open>
  A cancellation that the provider accepts while the last statement runs, which then
  succeeds, leaves the execution in the state \<open>cancelling\<close> although its run has ended; the tab counts
  as busy, so its session is not closed by the user nor by the idle sweep, however late.
\<close>

theorem accepted_cancel_can_hang:
  "let q = foldl query_step sample_service
      [QStart 0 (\<lambda>_. True) ''u'' (sample_input ''d'' ''a''), QRun 1 1 ''0'',
       QOpened 2 (sessionKey ''u'' ''t'') (Inr (sample_handle 7)), QResume 3 3 ''0'', QCancel ''0'' ''u'',
       QCancelSettled ''0'' None, QExecuted 4 4 ''0'' (Inr sample_result)]
   in view q ''0'' = Some (ExCancelling, [StDone], AtEnd)
      \<and> fst (closeSession ''u'' ''t'' False q) = False \<and> fst (sweepIdle 1000000000000 q) = 0"
  by code_simp

text \<open>
  A request joins an opening of its tab even when that opening is for another database: here
  an autocomplete request for the database \<open>prod\<close> opens the session, and the statement that was sent
  for the database \<open>test\<close> is executed on it.
\<close>

theorem statement_can_run_in_other_database:
  "let q = foldl query_step sample_service
      [QPeek 0 ''u'' ''t'' ''c'' ''prod'', QStart 1 (\<lambda>_. True) ''u'' (sample_input ''test'' ''delete from x''), QRun 2 2 ''0'',
       QOpened 3 (sessionKey ''u'' ''t'') (Inr (sample_handle 7)), QResume 4 4 ''0'']
   in map_option (in_database \<circ> einput) (map_of (objects q) ''0'') = Some ''test''
      \<and> map (\<lambda>(i, k, sid). map_option ts_database (map_of (tab_store q) sid)) (q_executed q) = [Some ''prod'']"
  by code_simp

end
