(* ===== verification/QueryEnds.thy ===== *)
theory QueryEnds
  imports QueryProps
begin

text \<open>
  Termination of the statement loop of \<open>run\<close>: the number of statements still to be answered is a
  measure that every answer of the provider lowers and no other event raises, however the events of
  other executions, of cancellations and of timers come in between.
\<close>

section \<open>Events of other executions\<close>

lemma at_statement_facts:
  assumes "query_inv q" "map_of (objects q) i = Some e" "epc e = AtStatement p"
  shows "eid e = i" "shape (tab_store q) e (AtStatement p)" "\<exists>n < q_count q. i = q_ids q n"
    "0 \<le> ecurrent e" "nat (ecurrent e) < length (estatements e)"
    "\<exists>sid s. esession e = Some sid \<and> map_of (tab_store q) sid = Some s"
proof -
  have ok: "exec_ok q i e" using assms(1,2) by (simp add: query_inv_def)
  show "eid e = i" and sh: "shape (tab_store q) e (AtStatement p)" and "\<exists>n < q_count q. i = q_ids q n"
    using ok assms(3) by (simp_all add: exec_ok_def del: shape.simps)
  show "0 \<le> ecurrent e" "nat (ecurrent e) < length (estatements e)" using sh by simp_all
  show "\<exists>sid s. esession e = Some sid \<and> map_of (tab_store q) sid = Some s"
    using sh by (auto simp: query_session_def split: option.splits)
qed

lemma at_exec_other:
  assumes "query_inv q" "j \<noteq> i"
    and "\<And>x. map_of (objects q) j = Some x \<Longrightarrow> exec_ok q j x \<Longrightarrow> f x = q \<or> (\<exists>x'. moved x q x' (f x))"
  shows "map_of (objects (at_exec j f q)) i = map_of (objects q) i"
proof (cases "map_of (objects q) j")
  case None
  then show ?thesis by (simp add: at_exec_def)
next
  case (Some x)
  then have ok: "exec_ok q j x" using assms(1) by (simp add: query_inv_def)
  then show ?thesis
    using assms(3) [OF Some ok] assms(2) Some by (auto simp: at_exec_def moved_def exec_ok_def)
qed

definition event_exec :: "query_event \<Rightarrow> string option" where
  "event_exec ev =
     (case ev of QRun _ _ j \<Rightarrow> Some j | QClosed _ _ j _ \<Rightarrow> Some j | QResume _ _ j \<Rightarrow> Some j
      | QExecuted _ _ j _ \<Rightarrow> Some j | QCancel j _ \<Rightarrow> Some j | QCancelSettled j _ \<Rightarrow> Some j | _ \<Rightarrow> None)"

lemma cancel_other:
  assumes "query_inv q" "j \<noteq> i"
  shows "map_of (objects (snd (cancel j u q))) i = map_of (objects q) i"
proof (cases "\<exists>x. getForOwner j u q = Some x \<and> \<not> isTerminalState (estate x) \<and> ecancelPromise x = None")
  case True
  then obtain x where x: "getForOwner j u q = Some x" "\<not> isTerminalState (estate x)" "ecancelPromise x = None"
    by blast
  then have m: "map_of (objects q) j = Some x"
    by (auto simp: getForOwner_def executions_def split: option.splits if_splits)
  then have ok: "exec_ok q j x" using assms(1) by (simp add: query_inv_def)
  obtain x' where "moved x q x' (snd (cancel_now x q))"
    using cancel_now_moved [of q x] ok x by (auto simp: exec_ok_def)
  then show ?thesis using x ok assms(2) by (simp add: cancel_def moved_def exec_ok_def)
next
  case False
  then have "snd (cancel j u q) = q"
    by (auto simp: cancel_def split: option.splits cancel_promise.splits)
  then show ?thesis by simp
qed

lemma step_other:
  assumes "query_inv q" "event_exec ev = Some j" "j \<noteq> i"
  shows "map_of (objects (query_step q ev)) i = map_of (objects q) i"
proof (cases ev)
  case (QRun now p k)
  show ?thesis unfolding QRun query_step.simps using assms QRun
    by (intro at_exec_other)
      (auto simp: event_exec_def exec_ok_def simp del: shape.simps intro: run_start_moved)
next
  case (QClosed now p k err)
  show ?thesis unfolding QClosed query_step.simps using assms QClosed
    by (intro at_exec_other)
      (auto simp: event_exec_def exec_ok_def simp del: shape.simps intro: run_closed_moved)
next
  case (QResume now p k)
  show ?thesis unfolding QResume query_step.simps using assms QResume
    by (intro at_exec_other)
      (auto simp: event_exec_def exec_ok_def simp del: shape.simps intro: run_session_moved split: control.splits)
next
  case (QExecuted now p k out)
  show ?thesis unfolding QExecuted query_step.simps using assms QExecuted
    by (intro at_exec_other)
      (auto simp: event_exec_def exec_ok_def simp del: shape.simps intro: run_executed_moved split: control.splits)
next
  case (QCancelSettled k err)
  show ?thesis unfolding QCancelSettled query_step.simps using assms QCancelSettled
    by (intro at_exec_other)
      (auto simp: event_exec_def exec_ok_def simp del: shape.simps intro: cancel_settled_moved)
qed (use assms cancel_other in \<open>auto simp: event_exec_def\<close>)

text \<open>Events of no execution: an opening that settles resumes only those who wait for it.\<close>

lemma wake_statement:
  assumes "map_of (objects q) i = Some e" "epc e = AtStatement p"
  shows "map_of (objects (wake key r q)) i = Some e"
proof -
  have "map_of (objects (wake key r q)) i = map_option (resume_waiting key r) (map_of (objects q) i)"
    using map_of_map_values [where f = "\<lambda>_. resume_waiting key r" and m = "objects q" and k = i]
    unfolding wake_def by (simp del: resume_waiting_simps)
  then show ?thesis using assms by (simp add: resume_waiting_def)
qed

lemma opening_settled_statement:
  assumes "map_of (objects q) i = Some e" "epc e = AtStatement p"
  shows "map_of (objects (opening_settled now key out q)) i = Some e"
  using assms by (auto simp: opening_settled_def Let_def wake_statement split: option.split sum.split)

lemma start_statement:
  assumes "query_inv q" "map_of (objects q) i = Some e" "epc e = AtStatement p"
  shows "map_of (objects (snd (start now connected u raw q))) i = Some e"
proof -
  have "inj (q_ids q)" using assms(1) by (simp add: query_inv_def)
  then have "q_ids q (q_count q) \<noteq> i"
    using at_statement_facts(3) [OF assms] by (auto simp: inj_def)
  then show ?thesis using assms(2) by (auto simp: start_def Let_def split: sum.split)
qed

lemma step_nobody:
  assumes "query_inv q" "event_exec ev = None" "map_of (objects q) i = Some e" "epc e = AtStatement p"
  shows "map_of (objects (query_step q ev)) i = Some e"
proof (cases ev)
  case (QStart now connected u raw)
  then show ?thesis using start_statement assms by simp
next
  case (QOpened now key out)
  then show ?thesis using opening_settled_statement assms by simp
next
  case (QPeek now u t c d)
  obtain r q1 where s: "session_enter now (sessionKey u t) c d q = (r, q1)"
    by (cases "session_enter now (sessionKey u t) c d q")
  show ?thesis using assms(3) session_enter_frame [OF s] QPeek
    by (simp add: peek_def s split: session_outcome.split)
qed (use assms in \<open>auto simp: event_exec_def closeSession_def sweepIdle_def dispose_def disposed_done_def Let_def split: option.split\<close>)

section \<open>The execution's own events\<close>

definition at_loop :: "nat \<Rightarrow> int \<Rightarrow> execution option \<Rightarrow> bool" where
  "at_loop n k x \<longleftrightarrow> (\<exists>e. x = Some e \<and> (epc e = AtEnd
     \<or> (\<exists>p. epc e = AtStatement p) \<and> length (estatements e) = n \<and> ecurrent e = k))"

lemma cancel_statement:
  assumes "query_inv q" "map_of (objects q) i = Some e" "epc e = AtStatement p"
  shows "at_loop (length (estatements e)) (ecurrent e) (map_of (objects (snd (cancel i u q))) i)"
proof -
  note ok = at_statement_facts [OF assms]
  define e1 where "e1 = e\<lparr>ecancelRequested := True, estate := ExCancelling\<rparr>"
  have "running_session e1 (emit e1 q) \<noteq> None"
    by (rule no_running_session [OF ok(2)]) (simp_all add: e1_def)
  then obtain s where s: "running_session e1 (emit e1 q) = Some s" by blast
  have now: "at_loop (length (estatements e)) (ecurrent e) (map_of (objects (snd (cancel_now e q))) i)"
    unfolding cancel_now_def e1_def [symmetric] Let_def s option.case
    using assms(3) ok(1) by (simp add: e1_def at_loop_def)
  have "snd (cancel i u q) = q \<or> snd (cancel i u q) = snd (cancel_now e q)"
    using assms(2) by (auto simp: cancel_def getForOwner_def executions_def split: option.split cancel_promise.split)
  then show ?thesis using now assms(2,3) by (auto simp: at_loop_def)
qed

lemma run_statement_loop:
  assumes "eid e = i"
  shows "at_loop (length (estatements e)) k (map_of (objects (run_statement now p k sid e q)) i)"
proof (cases "nat k < length (estatements e)")
  case True
  show ?thesis
  proof (cases "ecancelRequested e")
    case True
    with \<open>nat k < _\<close> assms show ?thesis
      by (simp add: run_statement_def Let_def at_loop_def)
  next
    case False
    with \<open>nat k < _\<close> assms show ?thesis
      by (simp add: run_statement_def Let_def at_loop_def)
  qed
next
  case False
  then have "run_statement now p k sid e q = run_end now p (if estate e = ExRunning then e\<lparr>estate := ExCompleted\<rparr> else e) q"
    by (simp only: run_statement_def if_False)
  moreover have "eid (if estate e = ExRunning then e\<lparr>estate := ExCompleted\<rparr> else e) = i"
    using assms by simp
  moreover have "at_loop n k (map_of (objects (run_end now p e' q)) i)" if "eid e' = i" for n e'
    using that by (simp add: at_loop_def)
  ultimately show ?thesis by metis
qed

lemma answer_statement:
  assumes "query_inv q" "map_of (objects q) i = Some e" "epc e = AtStatement p"
  shows "at_loop (length (estatements e)) (ecurrent e + 1) (map_of (objects (query_step q (QExecuted now p' i out))) i)"
proof -
  note ok = at_statement_facts [OF assms]
  obtain sid s where s: "esession e = Some sid" "map_of (tab_store q) sid = Some s" "0 \<le> ecurrent e"
    using ok(4,6) by blast
  show ?thesis
  proof (cases out)
    case (Inl err)
    then show ?thesis using assms(2,3) s ok(1)
      by (simp add: at_exec_def run_executed_def statement_failed_def Let_def run_end_def recordHistory_def at_loop_def)
  next
    case (Inr raw)
    let ?a = "after_command (transactionCommand (st_sql (estatements e ! nat (ecurrent e)))) (ts_transaction s)"
    let ?e = "(set_statement (ecurrent e) (done_statement (max 0 (p' - p)) (serializeQueryResult raw (resultMaxRows q))) e)
      \<lparr>etransaction := ?a\<rparr>"
    have "at_loop (length (estatements ?e)) (ecurrent e + 1) (map_of (objects (run_statement now p' (ecurrent e + 1) sid ?e q')) i)" for q'
      by (rule run_statement_loop) (use ok in simp)
    then show ?thesis using Inr assms(2,3) s
      by (simp add: at_exec_def run_executed_def statement_done_def Let_def)
  qed
qed

fun answers :: "string \<Rightarrow> query_event \<Rightarrow> bool" where
  "answers i (QExecuted _ _ j _) \<longleftrightarrow> j = i"
| "answers i _ \<longleftrightarrow> False"

lemma step_at_statement:
  assumes "query_inv q" "map_of (objects q) i = Some e" "epc e = AtStatement p"
  shows "at_loop (length (estatements e)) (ecurrent e + (if answers i ev then 1 else 0)) (map_of (objects (query_step q ev)) i)"
proof (cases "event_exec ev = Some i")
  case False
  then have n: "\<not> answers i ev" by (cases ev) (auto simp: event_exec_def)
  have "map_of (objects (query_step q ev)) i = Some e"
  proof (cases "event_exec ev")
    case None
    then show ?thesis using step_nobody assms by blast
  next
    case (Some j)
    then show ?thesis using step_other [OF assms(1) Some] False assms(2) by simp
  qed
  then show ?thesis using n assms(3) by (simp add: at_loop_def)
next
  case True
  note eid = at_statement_facts(1) [OF assms]
  show ?thesis
  proof (cases ev)
    case (QExecuted now p' j out)
    then show ?thesis using answer_statement [OF assms] True by (simp add: event_exec_def del: query_step.simps)
  next
    case (QCancel j u)
    then show ?thesis using cancel_statement [OF assms] True by (simp add: event_exec_def)
  next
    case (QCancelSettled j err)
    then show ?thesis using assms(2,3) True eid
      by (auto simp: event_exec_def at_exec_def at_loop_def cancel_settled_def split: option.split)
  qed (use assms(2,3) True in \<open>auto simp: event_exec_def at_exec_def at_loop_def\<close>)
qed

section \<open>Termination\<close>

lemma answers_end_run:
  assumes "query_inv q" "map_of (objects q) i = Some e" "epc e = AtStatement p"
    and "length (estatements e) \<le> nat (ecurrent e) + length (filter (answers i) es)"
  shows "\<exists>e'. map_of (objects (foldl query_step q es)) i = Some e' \<and> epc e' = AtEnd"
  using assms
proof (induction es arbitrary: q e p)
  case Nil
  then show ?case using at_statement_facts(5) [OF Nil.prems(1-3)] by simp
next
  case (Cons ev es)
  have inv: "query_inv (query_step q ev)" using query_step_ok Cons.prems(1) by blast
  note pos = at_statement_facts(4) [OF Cons.prems(1-3)]
  obtain f where f: "map_of (objects (query_step q ev)) i = Some f"
    "epc f = AtEnd \<or> (\<exists>p. epc f = AtStatement p) \<and> length (estatements f) = length (estatements e)
       \<and> ecurrent f = ecurrent e + (if answers i ev then 1 else 0)"
    using step_at_statement [OF Cons.prems(1-3), of ev] unfolding at_loop_def by blast
  show ?case
  proof (cases "epc f = AtEnd")
    case True
    have "query_le (query_step q ev) (foldl query_step (query_step q ev) es)" by (rule query_order.run_le [OF inv])
    then show ?thesis using f(1) True by (fastforce simp: query_le_def)
  next
    case False
    then obtain p' where p': "epc f = AtStatement p'" and m: "length (estatements f) = length (estatements e)"
      "ecurrent f = ecurrent e + (if answers i ev then 1 else 0)" using f(2) by blast
    show ?thesis using Cons.IH [OF inv f(1) p'] m pos Cons.prems(4)
      by (auto simp: nat_add_distrib split: if_splits)
  qed
qed

text \<open>
  Claim C27: The statement loop ends: once an execution waits for its statement k of n, the next n - k
  answers of the provider (results or errors) bring its run to its end, whatever events of other
  executions, cancellations, closings and sweeps come in between; no further answer is needed.
\<close>

theorem statement_loop_terminates:
  assumes "new_service maxRows idle ids accepts = Some q0" "inj ids" "q = foldl query_step q0 es"
    and "map_of (objects q) i = Some e" "epc e = AtStatement p"
    and "length (filter (answers i) es') = length (estatements e) - nat (ecurrent e)"
  shows "\<exists>e'. map_of (objects (foldl query_step q es')) i = Some e' \<and> epc e' = AtEnd"
proof -
  have "query_inv q" unfolding assms(3) by (rule query.run_inv [OF new_service_inv [OF assms(1,2)]])
  then show ?thesis by (rule answers_end_run [OF _ assms(4,5)]) (use assms(6) in simp)
qed

text \<open>Two statements are left; a request, a sweep and a refused cancellation come in between.\<close>

theorem statement_loop_terminates_witness:
  "\<exists>e'. map_of (objects (foldl query_step (foldl query_step sample_service sample_start)
     [QCancel ''0'' ''v'', QExecuted 5 5 ''0'' (Inr sample_result), QRun 5 5 ''1'', QSweep 6,
      QExecuted 7 7 ''0'' (Inr sample_result)])) ''0'' = Some e' \<and> epc e' = AtEnd"
proof -
  let ?q = "foldl query_step sample_service sample_start"
  obtain e where e: "map_of (objects ?q) ''0'' = Some e" "epc e = AtStatement 4"
    by (rule view_Some [OF sample_views(1)])
  have "map_option (\<lambda>e. length (estatements e) - nat (ecurrent e)) (map_of (objects ?q) ''0'') = Some 2"
    by code_simp
  then have "length (estatements e) - nat (ecurrent e) = 2" using e(1) by simp
  then show ?thesis by (intro statement_loop_terminates [OF sample_service inj_show_nat refl e]) simp
qed

end
