(* ===== verification/Workspace.thy ===== *)
theory Workspace
  imports AuditLog
begin

text \<open>
  The state of a user's workspace: the schema, inspection, migration and sanitization of
  \<open>packages/workspace/src/index.ts\<close> and the service that keeps one state per user
  (\<open>apps/server/src/workspace/index.ts\<close>, over the table of
  \<open>packages/internal-sqlite/src/repositories/workspaces.ts\<close>). A state arrives as an untrusted JSON
  value and stays one: the code only asserts its TypeScript type after the check. The schema
  checker (\<open>Value.Check\<close>) is a library, so it is a parameter; what it promises is the locale
  \<open>schema_checker\<close>, with the reference meaning of the schemas as its instance.
\<close>

section \<open>Reading and building objects\<close>

text \<open>\<open>v.k\<close>; a property that is not there is undefined.\<close>

fun field :: "json option \<Rightarrow> string \<Rightarrow> json option" where
  "field (Some (JObj fs)) k = map_of fs k"
| "field _ k = None"

fun items :: "json option \<Rightarrow> json list" where
  "items (Some (JArr vs)) = vs"
| "items _ = []"

text \<open>An object literal; an undefined property is the same as none.\<close>

definition obj :: "(string \<times> json option) list \<Rightarrow> json" where
  "obj fs = JObj (List.map_filter (\<lambda>(k, v). map_option (Pair k) v) fs)"

text \<open>\<open>{ ...v }\<close>, and \<open>{ ...v, k: x }\<close> for the properties that are defined.\<close>

fun spread :: "json option \<Rightarrow> json" where
  "spread (Some (JObj fs)) = JObj fs"
| "spread _ = JObj []"

definition spread_with :: "json \<Rightarrow> (string \<times> json option) list \<Rightarrow> json" where
  "spread_with v fs =
     (case spread (Some v) of
        JObj ps \<Rightarrow> JObj (foldl (\<lambda>ps (k, x). case x of None \<Rightarrow> ps | Some y \<Rightarrow> js_set ps k y) ps fs)
      | j \<Rightarrow> j)"

section \<open>The schema\<close>

text \<open>The schema constructors the code uses; a property of an object is marked when it is optional.\<close>

datatype schema =
    SBoolean
  | SString nat nat
  | SNumber int int
  | SLiteral int
  | SArray nat schema
  | SObject "(string \<times> bool \<times> schema) list"

definition WORKSPACE_STATE_VERSION :: int where "WORKSPACE_STATE_VERSION = 1"

definition MAX_WORKSPACE_STATE_BYTES :: nat where "MAX_WORKSPACE_STATE_BYTES = 256 * 1024"

definition tabContextSchema :: schema where
  "tabContextSchema = SObject [
     (''route'', True, SString 0 512),
     (''connectionId'', True, SString 1 128),
     (''database'', True, SString 0 256),
     (''schema'', True, SString 0 256),
     (''ref'', True, SString 0 2048),
     (''draftSql'', True, SString 0 MAX_WORKSPACE_STATE_BYTES),
     (''connectionMissing'', True, SBoolean),
     (''savedQueryName'', True, SString 0 256),
     (''stale'', True, SBoolean)]"

definition tabDescriptorSchema :: schema where
  "tabDescriptorSchema = SObject [
     (''id'', False, SString 1 128),
     (''type'', False, SString 1 64),
     (''title'', False, SString 1 256),
     (''context'', False, tabContextSchema)]"

definition workspacePanelsSchema :: schema where
  "workspacePanelsSchema = SObject [
     (''sidebarWidth'', False, SNumber 16 32),
     (''bottomHeight'', False, SNumber 12 48),
     (''sidebarCollapsed'', False, SBoolean),
     (''bottomCollapsed'', True, SBoolean)]"

definition workspaceStateSchema :: schema where
  "workspaceStateSchema = SObject [
     (''version'', False, SLiteral WORKSPACE_STATE_VERSION),
     (''tabs'', False, SArray 100 tabDescriptorSchema),
     (''activeTabId'', False, SString 0 128),
     (''panels'', False, workspacePanelsSchema),
     (''activeConnectionId'', True, SString 1 128)]"

text \<open>
  What the checker promises: each schema accepts exactly the values JSON Schema gives it, and an
  object has no property the schema does not name (\<open>additionalProperties: false\<close>).
\<close>

definition object_shape :: "(schema \<Rightarrow> json \<Rightarrow> bool) \<Rightarrow> (string \<times> bool \<times> schema) list \<Rightarrow> (string \<times> json) list \<Rightarrow> bool" where
  "object_shape check fs ps \<longleftrightarrow>
     (\<forall>p \<in> set ps. fst p \<in> set (map fst fs)) \<and>
     (\<forall>(k, opt, s) \<in> set fs. case map_of ps k of None \<Rightarrow> opt | Some v \<Rightarrow> check s v)"

locale schema_checker =
  fixes check :: "schema \<Rightarrow> json \<Rightarrow> bool"
  assumes boolean: "check SBoolean v \<longleftrightarrow> (\<exists>b. v = JBool b)"
    and str: "check (SString lo hi) v \<longleftrightarrow> (\<exists>s. v = JStr s \<and> lo \<le> length s \<and> length s \<le> hi)"
    and number: "check (SNumber a b) v \<longleftrightarrow> (\<exists>n. v = JNum n \<and> a \<le> n \<and> n \<le> b)"
    and literal: "check (SLiteral n) v \<longleftrightarrow> v = JNum n"
    and array: "check (SArray m s) v \<longleftrightarrow> (\<exists>vs. v = JArr vs \<and> length vs \<le> m \<and> (\<forall>w \<in> set vs. check s w))"
    and object: "check (SObject fs) v \<longleftrightarrow> (\<exists>ps. v = JObj ps \<and> object_shape check fs ps)"

text \<open>The reference meaning, which computes.\<close>

fun conforms :: "schema \<Rightarrow> json \<Rightarrow> bool" where
  "conforms SBoolean v = (case v of JBool b \<Rightarrow> True | _ \<Rightarrow> False)"
| "conforms (SString lo hi) v = (case v of JStr s \<Rightarrow> lo \<le> length s \<and> length s \<le> hi | _ \<Rightarrow> False)"
| "conforms (SNumber a b) v = (case v of JNum n \<Rightarrow> a \<le> n \<and> n \<le> b | _ \<Rightarrow> False)"
| "conforms (SLiteral n) v = (case v of JNum k \<Rightarrow> k = n | _ \<Rightarrow> False)"
| "conforms (SArray m s) v = (case v of JArr vs \<Rightarrow> length vs \<le> m \<and> list_all (conforms s) vs | _ \<Rightarrow> False)"
| "conforms (SObject fs) v =
     (case v of
        JObj ps \<Rightarrow>
          list_all (\<lambda>p. fst p \<in> set (map fst fs)) ps \<and>
          list_all (\<lambda>(k, opt, s). case map_of ps k of None \<Rightarrow> opt | Some w \<Rightarrow> conforms s w) fs
      | _ \<Rightarrow> False)"

interpretation json_schema: schema_checker conforms
  by unfold_locales
    (auto simp: object_shape_def list_all_iff split: json.splits)

section \<open>Inspection and migration\<close>

datatype workspace_notice = UnknownVersion | InvalidState | TooLarge

definition DEFAULT_WORKSPACE_STATE :: json where
  "DEFAULT_WORKSPACE_STATE = JObj [
     (''version'', JNum WORKSPACE_STATE_VERSION),
     (''tabs'', JArr [JObj [
        (''id'', JStr ''workspace''),
        (''type'', JStr ''workspace''),
        (''title'', JStr ''Workspace''),
        (''context'', JObj [(''route'', JStr ''/workspace'')])]]),
     (''activeTabId'', JStr ''workspace''),
     (''panels'', JObj [
        (''sidebarWidth'', JNum 22),
        (''bottomHeight'', JNum 22),
        (''sidebarCollapsed'', JBool False),
        (''bottomCollapsed'', JBool False)])]"

fun isRecord :: "json \<Rightarrow> bool" where
  "isRecord (JObj fs) = True"
| "isRecord _ = False"

definition normalized_tab :: "json \<Rightarrow> json" where
  "normalized_tab tab = obj [
     (''id'', field (Some tab) ''id''),
     (''type'', field (Some tab) ''type''),
     (''title'', field (Some tab) ''title''),
     (''context'', Some (spread (field (Some tab) ''context'')))]"

definition normalizedState :: "json \<Rightarrow> json" where
  "normalizedState v =
     (let panels = field (Some v) ''panels'' in obj [
     (''version'', Some (JNum WORKSPACE_STATE_VERSION)),
     (''tabs'', Some (JArr (map normalized_tab (items (field (Some v) ''tabs''))))),
     (''activeTabId'', field (Some v) ''activeTabId''),
     (''panels'', Some (obj [
        (''sidebarWidth'', field panels ''sidebarWidth''),
        (''bottomHeight'', field panels ''bottomHeight''),
        (''sidebarCollapsed'', field panels ''sidebarCollapsed''),
        (''bottomCollapsed'', case field panels ''bottomCollapsed'' of None \<Rightarrow> Some (JBool False) | b \<Rightarrow> b)])),
     (''activeConnectionId'', field (Some v) ''activeConnectionId'')])"

text \<open>\<open>state.tabs.some((tab) => tab.id === id)\<close>.\<close>

definition has_tab :: "json list \<Rightarrow> json option \<Rightarrow> bool" where
  "has_tab tabs i \<longleftrightarrow> list_ex (\<lambda>tab. field (Some tab) ''id'' = i) tabs"

definition inspectWorkspaceState :: "(schema \<Rightarrow> json \<Rightarrow> bool) \<Rightarrow> json \<Rightarrow> workspace_notice + json" where
  "inspectWorkspaceState check v =
     (if \<not> isRecord v \<or> field (Some v) ''version'' \<noteq> Some (JNum WORKSPACE_STATE_VERSION)
      then Inl UnknownVersion
      else if \<not> check workspaceStateSchema v then Inl InvalidState
      else
        let tabs = items (field (Some v) ''tabs''); active = field (Some v) ''activeTabId'' in
        if tabs = [] \<and> active \<noteq> Some (JStr '''') then Inl InvalidState
        else if tabs \<noteq> [] \<and> \<not> has_tab tabs active then Inl InvalidState
        else Inr (normalizedState v))"

definition migrateWorkspaceState ::
  "(schema \<Rightarrow> json \<Rightarrow> bool) \<Rightarrow> json \<Rightarrow> json \<times> workspace_notice option" where
  "migrateWorkspaceState check v =
     (case inspectWorkspaceState check v of
        Inr s \<Rightarrow> (s, None)
      | Inl reason \<Rightarrow> (DEFAULT_WORKSPACE_STATE, Some reason))"

definition workspaceStateByteLength :: "json \<Rightarrow> nat" where
  "workspaceStateByteLength v = utf8_length (stringify v)"

definition retained :: "string list \<Rightarrow> json \<Rightarrow> bool" where
  "retained valid tab =
     (case field (field (Some tab) ''context'') ''connectionId'' of
        None \<Rightarrow> True
      | Some (JStr c) \<Rightarrow> c \<in> set valid
      | Some _ \<Rightarrow> False)"

definition sanitizeWorkspaceState :: "json \<Rightarrow> string list \<Rightarrow> json \<times> nat" where
  "sanitizeWorkspaceState state valid =
     (let tabs = items (field (Some state) ''tabs'');
          retainedTabs = filter (retained valid) tabs;
          skippedTabs = length tabs - length retainedTabs
      in if retainedTabs = [] then (DEFAULT_WORKSPACE_STATE, skippedTabs)
         else
           let active = field (Some state) ''activeTabId'';
               activeTabId = (if has_tab retainedTabs active then active
                              else field (Some (hd retainedTabs)) ''id'');
               connection = (case field (Some state) ''activeConnectionId'' of
                  Some (JStr c) \<Rightarrow> if c \<in> set valid then Some (JStr c) else None
                | _ \<Rightarrow> None)
           in (spread_with state [
                 (''tabs'', Some (JArr retainedTabs)),
                 (''activeTabId'', activeTabId),
                 (''activeConnectionId'', connection)], skippedTabs))"

section \<open>The service\<close>

text \<open>
  A row of the table; the text of a state that is not JSON makes the read throw. The connections
  are the pairs of an id and its owner.
\<close>

record workspace_row =
  wid :: string
  wuser :: string
  wstate :: "json option"
  wupdatedAt :: time

record workspace_db =
  wusers :: "string list"
  wconnections :: "(string \<times> string) list"
  wrows :: "workspace_row list"

datatype workspace_error =
    WORKSPACE_STATE_TOO_LARGE | WORKSPACE_STATE_INVALID workspace_notice | WORKSPACE_STORE store_error

record workspace_load =
  lstate :: json
  lskipped :: nat
  lnotice :: "workspace_notice option"

definition workspace_row_of :: "string \<Rightarrow> workspace_db \<Rightarrow> workspace_row option" where
  "workspace_row_of u d = find (\<lambda>r. wuser r = u) (wrows d)"

text \<open>\<open>workspaces.get\<close>: throws (\<open>Inl\<close>) when the stored text is not JSON.\<close>

definition workspace_get :: "string \<Rightarrow> workspace_db \<Rightarrow> unit + (workspace_row \<times> json) option" where
  "workspace_get u d =
     (case workspace_row_of u d of
        None \<Rightarrow> Inr None
      | Some r \<Rightarrow> (case wstate r of None \<Rightarrow> Inl () | Some j \<Rightarrow> Inr (Some (r, j))))"

text \<open>The \<open>INSERT .. ON CONFLICT(user_id) DO UPDATE\<close>, with the keys of the table.\<close>

definition workspace_upsert :: "workspace_row \<Rightarrow> workspace_db \<Rightarrow> store_error + workspace_db" where
  "workspace_upsert r d =
     (if wuser r \<notin> set (wusers d) \<or> (\<exists>x \<in> set (wrows d). wid x = wid r \<and> wuser x \<noteq> wuser r)
      then Inl Constraint
      else if workspace_row_of (wuser r) d = None then Inr (d\<lparr>wrows := wrows d @ [r]\<rparr>)
      else Inr (d\<lparr>wrows := map (\<lambda>x. if wuser x = wuser r then r else x) (wrows d)\<rparr>))"

definition listByOwner :: "string \<Rightarrow> workspace_db \<Rightarrow> string list" where
  "listByOwner u d = map fst (filter (\<lambda>(c, owner). owner = u) (wconnections d))"

definition workspace_default :: "workspace_notice option \<Rightarrow> workspace_load" where
  "workspace_default n = \<lparr>lstate = DEFAULT_WORKSPACE_STATE, lskipped = 0, lnotice = n\<rparr>"

definition service_get ::
  "(schema \<Rightarrow> json \<Rightarrow> bool) \<Rightarrow> string \<Rightarrow> workspace_db \<Rightarrow> workspace_load" where
  "service_get check u d =
     (case workspace_get u d of
        Inl _ \<Rightarrow> workspace_default (Some InvalidState)
      | Inr None \<Rightarrow> workspace_default None
      | Inr (Some (r, stored)) \<Rightarrow>
          (case inspectWorkspaceState check stored of
             Inl reason \<Rightarrow> workspace_default (Some reason)
           | Inr state \<Rightarrow>
               if workspaceStateByteLength state > MAX_WORKSPACE_STATE_BYTES
               then workspace_default (Some TooLarge)
               else case sanitizeWorkspaceState state (listByOwner u d) of
                      (s, n) \<Rightarrow> \<lparr>lstate = s, lskipped = n, lnotice = None\<rparr>))"

definition service_save ::
  "(schema \<Rightarrow> json \<Rightarrow> bool) \<Rightarrow> time \<Rightarrow> string \<Rightarrow> string \<Rightarrow> json \<Rightarrow> workspace_db \<Rightarrow>
     workspace_error + workspace_db" where
  "service_save check now newId u v d =
     (if workspaceStateByteLength v > MAX_WORKSPACE_STATE_BYTES then Inl WORKSPACE_STATE_TOO_LARGE
      else case inspectWorkspaceState check v of
        Inl reason \<Rightarrow> Inl (WORKSPACE_STATE_INVALID reason)
      | Inr state \<Rightarrow>
          let rowId = (case workspace_get u d of
                Inr (Some (r, _)) \<Rightarrow> wid r
              | _ \<Rightarrow> newId)
          in case workspace_upsert \<lparr>wid = rowId, wuser = u, wstate = Some state, wupdatedAt = now\<rparr> d of
               Inl e \<Rightarrow> Inl (WORKSPACE_STORE e)
             | Inr d' \<Rightarrow> Inr d')"

end
