(* ===== verification/WorkspaceProps.thy ===== *)
theory WorkspaceProps
  imports Workspace
begin

text \<open>
  What the workspace promises: a state that is loaded or migrated always has the shape of the
  schema, whatever was stored; inspection and sanitization are stable on their own results; saving
  and loading fit together.
\<close>

section \<open>Shape\<close>

lemmas schema_defs = workspaceStateSchema_def tabDescriptorSchema_def workspacePanelsSchema_def

text \<open>The tab ids and the active tab fit: the rule that inspection adds to the schema.\<close>

definition active_ok :: "json \<Rightarrow> bool" where
  "active_ok v \<longleftrightarrow>
     (let tabs = items (field (Some v) ''tabs''); active = field (Some v) ''activeTabId'' in
      if tabs = [] then active = Some (JStr '''') else has_tab tabs active)"

lemma map_filter_simps [simp]:
  "List.map_filter f [] = []"
  "List.map_filter f (x # xs) = (case f x of None \<Rightarrow> List.map_filter f xs | Some y \<Rightarrow> y # List.map_filter f xs)"
  by (simp_all add: List.map_filter_def split: option.splits)

lemma some_false [simp]: "Ex Not"
  by (rule exI [of _ False]) simp

context schema_checker begin

lemma required:
  assumes "object_shape check fs ps" "(k, False, s) \<in> set fs"
  obtains v where "map_of ps k = Some v" "check s v"
  using assms by (fastforce simp: object_shape_def split: option.splits)

lemma optional:
  assumes "object_shape check fs ps" "(k, opt, s) \<in> set fs" "map_of ps k = Some v"
  shows "check s v"
  using assms by (fastforce simp: object_shape_def split: option.splits)

lemma tab_object:
  assumes "check tabDescriptorSchema tab"
  obtains i t n cs where "field (Some tab) ''id'' = Some i" "check (SString 1 128) i"
    "field (Some tab) ''type'' = Some t" "check (SString 1 64) t"
    "field (Some tab) ''title'' = Some n" "check (SString 1 256) n"
    "field (Some tab) ''context'' = Some (JObj cs)" "check tabContextSchema (JObj cs)"
proof -
  from assms obtain ps where tab: "tab = JObj ps" and sh: "object_shape check
      [(''id'', False, SString 1 128), (''type'', False, SString 1 64),
       (''title'', False, SString 1 256), (''context'', False, tabContextSchema)] ps"
    by (auto simp: tabDescriptorSchema_def object)
  obtain i where i: "map_of ps ''id'' = Some i" "check (SString 1 128) i"
    by (rule required [OF sh, of "''id''"]) auto
  obtain t where t: "map_of ps ''type'' = Some t" "check (SString 1 64) t"
    by (rule required [OF sh, of "''type''"]) auto
  obtain n where n: "map_of ps ''title'' = Some n" "check (SString 1 256) n"
    by (rule required [OF sh, of "''title''"]) auto
  obtain c where c: "map_of ps ''context'' = Some c" "check tabContextSchema c"
    by (rule required [OF sh, of "''context''"]) auto
  then obtain cs where "c = JObj cs" by (auto simp: tabContextSchema_def object)
  with tab i t n c show thesis by (intro that) auto
qed

lemma tab_normal:
  assumes "check tabDescriptorSchema tab"
  shows "check tabDescriptorSchema (normalized_tab tab)"
    and "field (Some (normalized_tab tab)) ''id'' = field (Some tab) ''id''"
    and "field (Some (normalized_tab tab)) ''context'' = field (Some tab) ''context''"
    and "normalized_tab (normalized_tab tab) = normalized_tab tab"
  using assms
  by (rule tab_object; simp add: normalized_tab_def obj_def tabDescriptorSchema_def object object_shape_def)+

lemma state_object:
  assumes "check workspaceStateSchema v"
  obtains tabs a ps where "field (Some v) ''version'' = Some (JNum 1)"
    "field (Some v) ''tabs'' = Some (JArr tabs)" "length tabs \<le> 100"
    "\<forall>t \<in> set tabs. check tabDescriptorSchema t"
    "field (Some v) ''activeTabId'' = Some a" "check (SString 0 128) a"
    "field (Some v) ''panels'' = Some (JObj ps)" "check workspacePanelsSchema (JObj ps)"
    "\<forall>c. field (Some v) ''activeConnectionId'' = Some c \<longrightarrow> check (SString 1 128) c"
    "isRecord v"
proof -
  from assms obtain fs where v: "v = JObj fs" and sh: "object_shape check
      [(''version'', False, SLiteral 1), (''tabs'', False, SArray 100 tabDescriptorSchema),
       (''activeTabId'', False, SString 0 128), (''panels'', False, workspacePanelsSchema),
       (''activeConnectionId'', True, SString 1 128)] fs"
    by (auto simp: workspaceStateSchema_def WORKSPACE_STATE_VERSION_def object)
  obtain x where x: "map_of fs ''version'' = Some x" "check (SLiteral 1) x"
    by (rule required [OF sh, of "''version''"]) auto
  obtain t where t: "map_of fs ''tabs'' = Some t" "check (SArray 100 tabDescriptorSchema) t"
    by (rule required [OF sh, of "''tabs''"]) auto
  obtain a where a: "map_of fs ''activeTabId'' = Some a" "check (SString 0 128) a"
    by (rule required [OF sh, of "''activeTabId''"]) auto
  obtain p where p: "map_of fs ''panels'' = Some p" "check workspacePanelsSchema p"
    by (rule required [OF sh, of "''panels''"]) auto
  from t obtain tabs where tabs: "t = JArr tabs" "length tabs \<le> 100"
    "\<forall>t \<in> set tabs. check tabDescriptorSchema t" by (auto simp: array)
  from p obtain ps where ps: "p = JObj ps" by (auto simp: workspacePanelsSchema_def object)
  have "\<forall>c. map_of fs ''activeConnectionId'' = Some c \<longrightarrow> check (SString 1 128) c"
    using optional [OF sh, of "''activeConnectionId''"] by auto
  with v x t a p tabs ps show thesis by (intro that) (auto simp: literal)
qed

lemma panels_normal:
  assumes "check workspacePanelsSchema (JObj ps)"
  defines "n \<equiv> obj [(''sidebarWidth'', map_of ps ''sidebarWidth''),
        (''bottomHeight'', map_of ps ''bottomHeight''),
        (''sidebarCollapsed'', map_of ps ''sidebarCollapsed''),
        (''bottomCollapsed'', case map_of ps ''bottomCollapsed'' of None \<Rightarrow> Some (JBool False) | b \<Rightarrow> b)]"
  shows "check workspacePanelsSchema n"
    and "\<exists>w h c b. n = JObj [(''sidebarWidth'', w), (''bottomHeight'', h), (''sidebarCollapsed'', c),
            (''bottomCollapsed'', b)]"
proof -
  from assms(1) have sh: "object_shape check
      [(''sidebarWidth'', False, SNumber 16 32), (''bottomHeight'', False, SNumber 12 48),
       (''sidebarCollapsed'', False, SBoolean), (''bottomCollapsed'', True, SBoolean)] ps"
    by (auto simp: workspacePanelsSchema_def object)
  obtain w where w: "map_of ps ''sidebarWidth'' = Some w" "check (SNumber 16 32) w"
    by (rule required [OF sh, of "''sidebarWidth''"]) auto
  obtain h where h: "map_of ps ''bottomHeight'' = Some h" "check (SNumber 12 48) h"
    by (rule required [OF sh, of "''bottomHeight''"]) auto
  obtain c where c: "map_of ps ''sidebarCollapsed'' = Some c" "check SBoolean c"
    by (rule required [OF sh, of "''sidebarCollapsed''"]) auto
  obtain b where b: "(case map_of ps ''bottomCollapsed'' of None \<Rightarrow> Some (JBool False) | b \<Rightarrow> b) = Some b"
    "check SBoolean b"
  proof (cases "map_of ps ''bottomCollapsed''")
    case None then show ?thesis using that [of "JBool False"] by (simp add: boolean)
  next
    case (Some b) then show ?thesis using that [of b] optional [OF sh _ Some] by simp
  qed
  show "\<exists>w h c b. n = JObj [(''sidebarWidth'', w), (''bottomHeight'', h), (''sidebarCollapsed'', c),
            (''bottomCollapsed'', b)]"
    by (simp add: n_def obj_def w h c b)
  show "check workspacePanelsSchema n"
    by (simp add: n_def obj_def workspacePanelsSchema_def object object_shape_def w h c b)
qed

text \<open>The normal form of a state that passes the schema: it passes again and is its own normal form.\<close>

lemma state_normal:
  assumes "check workspaceStateSchema v"
  shows "check workspaceStateSchema (normalizedState v)"
    and "normalizedState (normalizedState v) = normalizedState v"
    and "active_ok (normalizedState v) \<longleftrightarrow> active_ok v"
proof -
  from assms obtain tabs a ps where v: "field (Some v) ''tabs'' = Some (JArr tabs)"
    "field (Some v) ''activeTabId'' = Some a" "field (Some v) ''panels'' = Some (JObj ps)"
    and len: "length tabs \<le> 100" and tabs: "\<forall>t \<in> set tabs. check tabDescriptorSchema t"
    and a: "check (SString 0 128) a" and ps: "check workspacePanelsSchema (JObj ps)"
    and c: "\<forall>c. field (Some v) ''activeConnectionId'' = Some c \<longrightarrow> check (SString 1 128) c"
    by (rule state_object)
  obtain w h co b where n: "obj [(''sidebarWidth'', map_of ps ''sidebarWidth''),
        (''bottomHeight'', map_of ps ''bottomHeight''),
        (''sidebarCollapsed'', map_of ps ''sidebarCollapsed''),
        (''bottomCollapsed'', case map_of ps ''bottomCollapsed'' of None \<Rightarrow> Some (JBool False) | b \<Rightarrow> b)]
      = JObj [(''sidebarWidth'', w), (''bottomHeight'', h), (''sidebarCollapsed'', co), (''bottomCollapsed'', b)]"
    using panels_normal(2) [OF ps] by blast
  let ?p = "JObj [(''sidebarWidth'', w), (''bottomHeight'', h), (''sidebarCollapsed'', co), (''bottomCollapsed'', b)]"
  have p: "check workspacePanelsSchema ?p" using panels_normal(1) [OF ps] n by simp
  have eq: "normalizedState v = obj [(''version'', Some (JNum 1)),
      (''tabs'', Some (JArr (map normalized_tab tabs))), (''activeTabId'', Some a), (''panels'', Some ?p),
      (''activeConnectionId'', field (Some v) ''activeConnectionId'')]"
    by (simp add: normalizedState_def v n WORKSPACE_STATE_VERSION_def)
  show "check workspaceStateSchema (normalizedState v)"
    using len tabs a p c
    by (cases "field (Some v) ''activeConnectionId''")
      (auto simp: eq obj_def workspaceStateSchema_def WORKSPACE_STATE_VERSION_def object object_shape_def
        literal array tab_normal)
  have n: "field (Some (normalizedState v)) ''tabs'' = Some (JArr (map normalized_tab tabs))"
    "field (Some (normalizedState v)) ''activeTabId'' = Some a"
    "field (Some (normalizedState v)) ''panels'' = Some ?p"
    "field (Some (normalizedState v)) ''activeConnectionId'' = field (Some v) ''activeConnectionId''"
    by (cases "field (Some v) ''activeConnectionId''"; simp add: eq obj_def)+
  have "map normalized_tab (map normalized_tab tabs) = map normalized_tab tabs"
    using tabs tab_normal(4) by simp
  then show "normalizedState (normalizedState v) = normalizedState v"
    by (subst normalizedState_def [of "normalizedState v"])
      (simp add: n Let_def WORKSPACE_STATE_VERSION_def eq del: map_map, simp add: obj_def split: option.split)
  have "list_ex (\<lambda>t. field (Some t) ''id'' = Some a) (map normalized_tab tabs) =
      list_ex (\<lambda>t. field (Some t) ''id'' = Some a) tabs"
    using tabs tab_normal(2) by (auto simp: list_ex_iff)
  then show "active_ok (normalizedState v) \<longleftrightarrow> active_ok v"
    by (cases "field (Some v) ''activeConnectionId''") (simp_all add: active_ok_def eq obj_def v has_tab_def)
qed

lemma inspected:
  assumes "inspectWorkspaceState check v = Inr s"
  shows "check workspaceStateSchema v" "s = normalizedState v" "active_ok v"
  using assms by (auto simp: inspectWorkspaceState_def active_ok_def Let_def split: if_splits)

lemma inspect_ok:
  assumes "check workspaceStateSchema v" "active_ok v"
  shows "inspectWorkspaceState check v = Inr (normalizedState v)"
  using assms
  by (auto elim!: state_object simp: inspectWorkspaceState_def active_ok_def Let_def WORKSPACE_STATE_VERSION_def
      split: if_splits)

lemma inspect_normal:
  assumes "inspectWorkspaceState check v = Inr s"
  shows "inspectWorkspaceState check s = Inr s" "check workspaceStateSchema s" "active_ok s"
  using inspected [OF assms] state_normal [of v] inspect_ok [of s] by auto

lemma default_ok: "check workspaceStateSchema DEFAULT_WORKSPACE_STATE" "active_ok DEFAULT_WORKSPACE_STATE"
  by (simp_all add: DEFAULT_WORKSPACE_STATE_def workspaceStateSchema_def object object_shape_def literal array
      WORKSPACE_STATE_VERSION_def tabDescriptorSchema_def str workspacePanelsSchema_def number boolean
      tabContextSchema_def active_ok_def has_tab_def)

end

section \<open>Sanitization\<close>

lemma js_set_names: "fst ` set (js_set m k v) = insert k (fst ` set m)"
  by (induction m k v rule: js_set.induct) auto

lemma object_shape_set:
  assumes "object_shape check fs ps" "(k, opt, s) \<in> set fs" "distinct (map fst fs)" "check s v"
  shows "object_shape check fs (js_set ps k v)"
proof -
  have "(k', o', s') \<in> set fs \<Longrightarrow> k' = k \<Longrightarrow> s' = s" for k' o' s'
    using assms(2,3) by (metis eq_key_imp_eq_value prod.inject)
  moreover have "fst ` set (js_set ps k v) \<subseteq> fst ` set fs"
    using assms(1,2) by (auto simp: object_shape_def js_set_names image_subset_iff rev_image_eqI)
  then have "fst p \<in> set (map fst fs)" if "p \<in> set (js_set ps k v)" for p
    using that by (metis image_subset_iff set_map)
  ultimately show ?thesis
    using assms(1,4) by (auto simp: object_shape_def map_of_js_set)
qed

lemma field_spread_with:
  "field (Some (spread_with (JObj fs) [])) k = map_of fs k"
  "field (Some (spread_with (JObj fs) ((a, None) # xs))) k = field (Some (spread_with (JObj fs) xs)) k"
  "field (Some (spread_with (JObj fs) ((a, Some y) # xs))) k = field (Some (spread_with (JObj (js_set fs a y)) xs)) k"
  by (simp_all add: spread_with_def)

text \<open>What a state must be for a client: the schema, an active tab, and no tab of an invalid connection.\<close>

definition client_ok :: "(schema \<Rightarrow> json \<Rightarrow> bool) \<Rightarrow> string list \<Rightarrow> json \<Rightarrow> bool" where
  "client_ok check valid s \<longleftrightarrow>
     check workspaceStateSchema s \<and> items (field (Some s) ''tabs'') \<noteq> [] \<and>
     has_tab (items (field (Some s) ''tabs'')) (field (Some s) ''activeTabId'') \<and>
     list_all (retained valid) (items (field (Some s) ''tabs''))"

context schema_checker begin

lemma default_client_ok: "client_ok check valid DEFAULT_WORKSPACE_STATE"
  using default_ok by (simp add: client_ok_def DEFAULT_WORKSPACE_STATE_def has_tab_def retained_def)

lemma sanitize_kept:
  assumes "check workspaceStateSchema s"
    and kept: "filter (retained valid) (items (field (Some s) ''tabs'')) = t # ts"
    and r: "r = fst (sanitizeWorkspaceState s valid)"
  shows "check workspaceStateSchema r" "field (Some r) ''tabs'' = Some (JArr (t # ts))"
    "has_tab (t # ts) (field (Some r) ''activeTabId'')"
proof -
  from assms(1) obtain fs where s: "s = JObj fs" by (auto simp: workspaceStateSchema_def object)
  from assms(1) obtain tabs a where f: "map_of fs ''tabs'' = Some (JArr tabs)" "length tabs \<le> 100"
    "\<forall>t \<in> set tabs. check tabDescriptorSchema t" "map_of fs ''activeTabId'' = Some a" "check (SString 0 128) a"
    and c: "\<forall>c. map_of fs ''activeConnectionId'' = Some c \<longrightarrow> check (SString 1 128) c"
    by (rule state_object) (auto simp: s)
  have k: "filter (retained valid) tabs = t # ts" using kept by (simp add: s f)
  then have t: "set (t # ts) \<subseteq> set tabs" "length (t # ts) \<le> 100"
    using f(2) length_filter_le [of "retained valid" tabs] by (metis filter_is_subset, simp)
  then have "check tabDescriptorSchema t" using f(3) by simp
  then obtain i where i: "field (Some t) ''id'' = Some i" "check (SString 1 128) i" by (rule tab_object)
  let ?a = "if has_tab (t # ts) (Some a) then a else i"
  let ?c = "case map_of fs ''activeConnectionId'' of Some (JStr c) \<Rightarrow> if c \<in> set valid then Some (JStr c) else None
     | _ \<Rightarrow> None"
  have r': "r = spread_with (JObj fs)
      [(''tabs'', Some (JArr (t # ts))), (''activeTabId'', Some ?a), (''activeConnectionId'', ?c)]"
    using i by (simp add: r sanitizeWorkspaceState_def s f k Let_def)
  have a: "check (SString 0 128) ?a" using f(5) i(2) by (auto simp: str)
  have sh: "object_shape check [(''version'', False, SLiteral 1), (''tabs'', False, SArray 100 tabDescriptorSchema),
       (''activeTabId'', False, SString 0 128), (''panels'', False, workspacePanelsSchema),
       (''activeConnectionId'', True, SString 1 128)] fs"
    using assms(1) by (auto simp: s workspaceStateSchema_def object WORKSPACE_STATE_VERSION_def)
  note sh = object_shape_set [OF sh, of "''tabs''" False _ "JArr (t # ts)"]
  have "check (SArray 100 tabDescriptorSchema) (JArr (t # ts))" using t f(3) by (auto simp: array)
  then have "object_shape check [(''version'', False, SLiteral 1), (''tabs'', False, SArray 100 tabDescriptorSchema),
       (''activeTabId'', False, SString 0 128), (''panels'', False, workspacePanelsSchema),
       (''activeConnectionId'', True, SString 1 128)] (js_set fs ''tabs'' (JArr (t # ts)))"
    by (intro sh) auto
  from object_shape_set [OF this, of "''activeTabId''" False _ ?a] a
  have sh2: "object_shape check [(''version'', False, SLiteral 1), (''tabs'', False, SArray 100 tabDescriptorSchema),
       (''activeTabId'', False, SString 0 128), (''panels'', False, workspacePanelsSchema),
       (''activeConnectionId'', True, SString 1 128)] (js_set (js_set fs ''tabs'' (JArr (t # ts))) ''activeTabId'' ?a)"
    by simp
  show "check workspaceStateSchema r"
  proof (cases ?c)
    case None
    then show ?thesis using sh2
      by (simp add: r' spread_with_def workspaceStateSchema_def object WORKSPACE_STATE_VERSION_def)
  next
    case (Some x)
    then have "check (SString 1 128) x" using c by (auto split: option.splits json.splits if_splits)
    from object_shape_set [OF sh2, of "''activeConnectionId''" True _ x, OF _ _ this] Some show ?thesis
      by (simp add: r' spread_with_def workspaceStateSchema_def object WORKSPACE_STATE_VERSION_def)
  qed
  have ft: "field (Some r) ''tabs'' = Some (JArr (t # ts)) \<and> field (Some r) ''activeTabId'' = Some ?a"
    by (cases ?c) (simp_all add: r' spread_with_def)
  then show "field (Some r) ''tabs'' = Some (JArr (t # ts))" ..
  from ft i show "has_tab (t # ts) (field (Some r) ''activeTabId'')" by (simp add: has_tab_def)
qed

lemma sanitize_ok:
  assumes "check workspaceStateSchema s"
  shows "client_ok check valid (fst (sanitizeWorkspaceState s valid))"
proof (cases "filter (retained valid) (items (field (Some s) ''tabs''))")
  case Nil
  then have "fst (sanitizeWorkspaceState s valid) = DEFAULT_WORKSPACE_STATE"
    by (simp add: sanitizeWorkspaceState_def Let_def)
  then show ?thesis by (simp only: default_client_ok)
next
  case (Cons t ts)
  then have "list_all (retained valid) (t # ts)" by (simp flip: Cons add: list_all_iff)
  with sanitize_kept [OF assms Cons refl] show ?thesis by (simp add: client_ok_def)
qed

lemma get_client_ok: "client_ok check (listByOwner u d) (lstate (service_get check u d))"
proof -
  have "client_ok check (listByOwner u d) (fst (sanitizeWorkspaceState s (listByOwner u d)))"
    if "inspectWorkspaceState check v = Inr s" for v s
    using that by (intro sanitize_ok inspect_normal(2))
  then show ?thesis
    by (auto simp: service_get_def workspace_default_def default_client_ok split: sum.splits option.splits prod.splits)
      (metis fst_conv)
qed

end

section \<open>Saving\<close>

lemma workspace_upsert_row:
  assumes "workspace_upsert r d = Inr d'"
  shows "workspace_row_of (wuser r) d' = Some r"
    and "u \<noteq> wuser r \<Longrightarrow> workspace_row_of u d' = workspace_row_of u d"
    and "wconnections d' = wconnections d"
proof -
  have new: "find (\<lambda>x. wuser x = wuser r) (map (\<lambda>x. if wuser x = wuser r then r else x) xs) = Some r"
    if "find (\<lambda>x. wuser x = wuser r) xs \<noteq> None" for xs
    using that by (induction xs) (auto split: if_splits)
  have app: "find P (xs @ [r]) = (case find P xs of None \<Rightarrow> if P r then Some r else None | y \<Rightarrow> y)" for P xs
    by (induction xs) auto
  have other: "find (\<lambda>x. wuser x = u) (map (\<lambda>x. if wuser x = wuser r then r else x) xs) =
      find (\<lambda>x. wuser x = u) xs" if "u \<noteq> wuser r" for xs
    using that by (induction xs) auto
  show "workspace_row_of (wuser r) d' = Some r" "wconnections d' = wconnections d"
    using assms new [of "wrows d"]
    by (auto simp: workspace_upsert_def workspace_row_of_def app split: if_splits)
  show "workspace_row_of u d' = workspace_row_of u d" if "u \<noteq> wuser r"
    using assms other [OF that, of "wrows d"] that
    by (auto simp: workspace_upsert_def workspace_row_of_def app split: if_splits option.splits)
qed

lemma service_save_row:
  assumes "service_save check now i u v d = Inr d'"
  obtains s where "inspectWorkspaceState check v = Inr s" "workspaceStateByteLength v \<le> MAX_WORKSPACE_STATE_BYTES"
    "workspace_get u d' = Inr (Some (the (workspace_row_of u d'), s))"
    "\<And>w. w \<noteq> u \<Longrightarrow> workspace_get w d' = workspace_get w d" "wconnections d' = wconnections d"
proof -
  from assms obtain s r where s: "inspectWorkspaceState check v = Inr s"
    "workspaceStateByteLength v \<le> MAX_WORKSPACE_STATE_BYTES"
    and up: "workspace_upsert r d = Inr d'" and r: "wuser r = u" "wstate r = Some s"
    by (auto simp: service_save_def Let_def split: if_splits sum.splits)
  show thesis
    using workspace_upsert_row [OF up] r
    by (intro that [OF s]) (auto simp: workspace_get_def)
qed

text \<open>A state with one long draft, without the optional \<open>bottomCollapsed\<close>.\<close>

definition long_draft :: "nat \<Rightarrow> json" where
  "long_draft n = JObj [
     (''version'', JNum 1),
     (''tabs'', JArr [JObj [
        (''id'', JStr ''q''), (''type'', JStr ''query''), (''title'', JStr ''Q''),
        (''context'', JObj [(''draftSql'', JStr (replicate n (CHR ''a'')))])]]),
     (''activeTabId'', JStr ''q''),
     (''panels'', JObj [
        (''sidebarWidth'', JNum 22), (''bottomHeight'', JNum 22), (''sidebarCollapsed'', JBool False)])]"

lemma utf8_simps [simp]:
  "utf8_length (a @ b) = utf8_length a + utf8_length b"
  "utf8_length [] = 0"
  "utf8_length (c # s) = (if (of_char c :: nat) < 128 then 1 else 2) + utf8_length s"
  by (simp_all add: utf8_length_def)

lemma long_string: "utf8_length (json_string (replicate n (CHR ''a''))) = n + 2"
proof -
  have "json_escape (CHR ''a'') = ''a''" by (simp add: json_escape_def)
  then have "utf8_length (concat (map json_escape (replicate n (CHR ''a'')))) = n"
    by (induction n) simp_all
  then show ?thesis by (simp add: json_string_def)
qed

lemma string_lengths:
  "utf8_length (json_string ''version'') = 9" "utf8_length (json_string ''tabs'') = 6"
  "utf8_length (json_string ''id'') = 4" "utf8_length (json_string ''q'') = 3"
  "utf8_length (json_string ''type'') = 6" "utf8_length (json_string ''query'') = 7"
  "utf8_length (json_string ''title'') = 7" "utf8_length (json_string ''Q'') = 3"
  "utf8_length (json_string ''context'') = 9" "utf8_length (json_string ''draftSql'') = 10"
  "utf8_length (json_string ''activeTabId'') = 13" "utf8_length (json_string ''panels'') = 8"
  "utf8_length (json_string ''sidebarWidth'') = 14" "utf8_length (json_string ''bottomHeight'') = 14"
  "utf8_length (json_string ''sidebarCollapsed'') = 18" "utf8_length (json_string ''bottomCollapsed'') = 17"
  "utf8_length (show_int 1) = 1" "utf8_length (show_int 22) = 2"
  by code_simp+

lemma long_draft_length: "workspaceStateByteLength (long_draft n) = n + 176"
  by (simp add: workspaceStateByteLength_def long_draft_def string_lengths long_string)

lemma long_draft_normal_length: "workspaceStateByteLength (normalizedState (long_draft n)) = n + 200"
  by (simp add: workspaceStateByteLength_def long_draft_def normalizedState_def normalized_tab_def obj_def
      WORKSPACE_STATE_VERSION_def string_lengths long_string)

section \<open>Properties\<close>

definition sample_workspace :: workspace_db where
  "sample_workspace = \<lparr>wusers = [''u'', ''v''], wconnections = [(''c1'', ''u''), (''c2'', ''v'')], wrows = []\<rparr>"

text \<open>A state with a tab on the connection \<open>c\<close>, which is also the active connection.\<close>

definition connection_state :: "string \<Rightarrow> string \<Rightarrow> json" where
  "connection_state c active = JObj [
     (''version'', JNum 1),
     (''tabs'', JArr [
        JObj [(''id'', JStr ''a''), (''type'', JStr ''query''), (''title'', JStr ''A''),
          (''context'', JObj [(''connectionId'', JStr c)])],
        JObj [(''id'', JStr ''b''), (''type'', JStr ''home''), (''title'', JStr ''B''), (''context'', JObj [])]]),
     (''activeTabId'', JStr active),
     (''panels'', JObj [
        (''sidebarWidth'', JNum 20), (''bottomHeight'', JNum 20), (''sidebarCollapsed'', JBool True)]),
     (''activeConnectionId'', JStr c)]"

lemma connection_state_ok:
  "conforms workspaceStateSchema (connection_state c a) \<longleftrightarrow>
     1 \<le> length c \<and> length c \<le> 128 \<and> length a \<le> 128"
  "active_ok (connection_state c a) \<longleftrightarrow> a = ''a'' \<or> a = ''b''"
  "isRecord (connection_state c a)" "field (Some (connection_state c a)) ''version'' = Some (JNum 1)"
  by (auto simp: connection_state_def workspaceStateSchema_def tabDescriptorSchema_def tabContextSchema_def
      workspacePanelsSchema_def WORKSPACE_STATE_VERSION_def MAX_WORKSPACE_STATE_BYTES_def active_ok_def has_tab_def)

text \<open>
  Claim C29: whatever is stored for a user (a state of another version, one that is malformed, too
  large or not JSON at all), the state that the service loads conforms to the schema, has at least
  one tab, has its active tab among them and has no tab of a connection the user does not own.
\<close>

theorem loaded_state_well_formed:
  assumes "schema_checker check"
  shows "client_ok check (listByOwner u d) (lstate (service_get check u d))"
  using schema_checker.get_client_ok [OF assms] .

theorem loaded_state_well_formed_witness:
  "client_ok conforms [''c1'']
     (lstate (service_get conforms ''u'' (sample_workspace\<lparr>wrows :=
        [\<lparr>wid = ''w'', wuser = ''u'', wstate = Some (connection_state ''gone'' ''a''), wupdatedAt = 0\<rparr>]\<rparr>)))"
  using loaded_state_well_formed [OF json_schema.schema_checker_axioms,
    of "''u''" "sample_workspace\<lparr>wrows :=
        [\<lparr>wid = ''w'', wuser = ''u'', wstate = Some (connection_state ''gone'' ''a''), wupdatedAt = 0\<rparr>]\<rparr>"]
  by (simp add: sample_workspace_def listByOwner_def)

text \<open>
  Migration always gives a state that inspection accepts and leaves as it is, so
  migrating again changes nothing and has nothing to report.
\<close>

theorem migration_idempotent:
  assumes "schema_checker check"
  shows "migrateWorkspaceState check (fst (migrateWorkspaceState check v)) =
           (fst (migrateWorkspaceState check v), None)"
proof -
  note c = schema_checker.inspect_normal(1) [OF assms] schema_checker.inspect_ok [OF assms]
    schema_checker.default_ok [OF assms]
  have "normalizedState DEFAULT_WORKSPACE_STATE = DEFAULT_WORKSPACE_STATE" by code_simp
  then show ?thesis
    using c by (cases "inspectWorkspaceState check v") (simp_all add: migrateWorkspaceState_def)
qed

theorem migration_idempotent_witness:
  "migrateWorkspaceState conforms (fst (migrateWorkspaceState conforms (connection_state ''c1'' ''zz''))) =
     (DEFAULT_WORKSPACE_STATE, None)"
proof -
  have "field (Some (connection_state ''c1'' ''zz'')) ''tabs'' \<noteq> None"
    "\<not> has_tab (items (field (Some (connection_state ''c1'' ''zz'')) ''tabs''))
        (field (Some (connection_state ''c1'' ''zz'')) ''activeTabId'')"
    "items (field (Some (connection_state ''c1'' ''zz'')) ''tabs'') \<noteq> []"
    by code_simp+
  then have "fst (migrateWorkspaceState conforms (connection_state ''c1'' ''zz'')) = DEFAULT_WORKSPACE_STATE"
    using connection_state_ok [of "''c1''" "''zz''"]
    by (simp add: migrateWorkspaceState_def inspectWorkspaceState_def WORKSPACE_STATE_VERSION_def Let_def)
  then show ?thesis
    using migration_idempotent [OF json_schema.schema_checker_axioms, of "connection_state ''c1'' ''zz''"] by simp
qed

text \<open>
  A state that was saved is what the user loads next, in its normal form and without the
  tabs of connections the user does not own, unless that normal form is over the size limit; what
  every other user loads is unchanged.
\<close>

theorem saved_state_loads:
  assumes "schema_checker check" "service_save check now newId u v d = Inr d'"
  shows "service_get check u d' =
           (if workspaceStateByteLength (normalizedState v) > MAX_WORKSPACE_STATE_BYTES
            then workspace_default (Some TooLarge)
            else case sanitizeWorkspaceState (normalizedState v) (listByOwner u d) of
                   (s, n) \<Rightarrow> \<lparr>lstate = s, lskipped = n, lnotice = None\<rparr>) \<and>
         (\<forall>w. w \<noteq> u \<longrightarrow> service_get check w d' = service_get check w d)"
proof -
  from assms(2) obtain s where s: "inspectWorkspaceState check v = Inr s"
    and get: "workspace_get u d' = Inr (Some (the (workspace_row_of u d'), s))"
      "\<And>w. w \<noteq> u \<Longrightarrow> workspace_get w d' = workspace_get w d"
    and con: "wconnections d' = wconnections d"
    by (rule service_save_row) blast
  have "inspectWorkspaceState check s = Inr s" "s = normalizedState v"
    using schema_checker.inspect_normal(1) [OF assms(1) s] schema_checker.inspected(2) [OF assms(1) s] .
  moreover have own: "listByOwner w d' = listByOwner w d" for w by (simp add: listByOwner_def con)
  moreover have "service_get check w d' = service_get check w d" if "w \<noteq> u" for w
    by (simp only: service_get_def get(2) [OF that] own)
  ultimately show ?thesis using get(1) by (simp add: service_get_def)
qed

theorem saved_state_loads_witness:
  "\<exists>d'. service_save conforms 5 ''w'' ''u'' (connection_state ''c1'' ''b'') sample_workspace = Inr d' \<and>
     lnotice (service_get conforms ''u'' d') = None \<and> lskipped (service_get conforms ''u'' d') = 0"
proof -
  let ?v = "connection_state ''c1'' ''b''"
  have len: "workspaceStateByteLength ?v = 257" "workspaceStateByteLength (normalizedState ?v) = 281"
    and n: "snd (sanitizeWorkspaceState (normalizedState ?v) (listByOwner ''u'' sample_workspace)) = 0"
    by code_simp+
  have "inspectWorkspaceState conforms ?v = Inr (normalizedState ?v)"
    by (intro json_schema.inspect_ok) (simp_all add: connection_state_ok)
  then have "\<exists>d'. service_save conforms 5 ''w'' ''u'' ?v sample_workspace = Inr d'"
    by (simp add: service_save_def len MAX_WORKSPACE_STATE_BYTES_def sample_workspace_def
        workspace_get_def workspace_row_of_def workspace_upsert_def)
  then obtain d' where d: "service_save conforms 5 ''w'' ''u'' ?v sample_workspace = Inr d'" ..
  with saved_state_loads [OF json_schema.schema_checker_axioms d] len n show ?thesis
    by (auto simp: MAX_WORKSPACE_STATE_BYTES_def split: prod.splits)
qed

text \<open>
  The limit is checked on different values when a state is saved and when it is loaded. A
  state within the limit that omits the optional \<open>bottomCollapsed\<close> is accepted, grows over the limit
  in its normal form, and is lost: it loads as the default state with the notice \<open>too-large\<close>.
\<close>

theorem accepted_state_can_be_lost:
  "\<exists>v d'. service_save conforms 5 ''w'' ''u'' v sample_workspace = Inr d' \<and>
     service_get conforms ''u'' d' = workspace_default (Some TooLarge)"
proof -
  let ?v = "long_draft 261968"
  have con: "conforms workspaceStateSchema (long_draft n) \<longleftrightarrow> n \<le> 262144" for n
    by (simp add: long_draft_def workspaceStateSchema_def tabDescriptorSchema_def tabContextSchema_def
        workspacePanelsSchema_def WORKSPACE_STATE_VERSION_def MAX_WORKSPACE_STATE_BYTES_def)
  have "active_ok (long_draft n)" for n by (simp add: active_ok_def long_draft_def has_tab_def)
  then have i: "inspectWorkspaceState conforms ?v = Inr (normalizedState ?v)"
    by (intro json_schema.inspect_ok) (simp_all add: con)
  have "\<exists>d'. service_save conforms 5 ''w'' ''u'' ?v sample_workspace = Inr d'"
    by (simp add: service_save_def i long_draft_length MAX_WORKSPACE_STATE_BYTES_def sample_workspace_def
        workspace_get_def workspace_row_of_def workspace_upsert_def)
  then obtain d' where d: "service_save conforms 5 ''w'' ''u'' ?v sample_workspace = Inr d'" ..
  then obtain s where get: "workspace_get ''u'' d' = Inr (Some (the (workspace_row_of ''u'' d'), s))"
    and "inspectWorkspaceState conforms ?v = Inr s" by (rule service_save_row)
  then have "s = normalizedState ?v" "inspectWorkspaceState conforms s = Inr s"
    using i json_schema.inspect_normal(1) [OF i] by auto
  with get have "service_get conforms ''u'' d' = workspace_default (Some TooLarge)"
    by (simp add: service_get_def long_draft_normal_length MAX_WORKSPACE_STATE_BYTES_def)
  with d show ?thesis by blast
qed

text \<open>
  Sanitization leaves an active connection that the user does not own: the spread of the
  old state keeps the property that the conditional spread was to drop.
\<close>

theorem stale_active_connection_kept:
  "field (Some (fst (sanitizeWorkspaceState (connection_state ''gone'' ''b'') []))) ''activeConnectionId'' =
     Some (JStr ''gone'')"
  by code_simp

end
