(* ===== verification/Dialect.thy ===== *)
theory Dialect
  imports Prelude
begin

text \<open>
  What the database providers share: the identity of an object (\<open>ObjectRef\<close> of
  \<open>packages/database-core/src/models\<close>), the quoting of identifiers and literals
  (\<open>metadata/quoting.ts\<close> of the two providers) and the text searches of their code.
\<close>

section \<open>Objects\<close>

record object_ref =
  ref_database :: string
  ref_schema :: "string option"
  ref_name :: string
  ref_type :: string

section \<open>Quoting\<close>

definition double_quotes :: "char \<Rightarrow> string \<Rightarrow> string" where
  "double_quotes q s = concat (map (\<lambda>c. if c = q then [q, q] else [c]) s)"

text \<open>The message of the thrown \<open>DbError\<close>, or the quoted identifier.\<close>

definition quotePostgresqlIdentifier :: "string \<Rightarrow> string + string" where
  "quotePostgresqlIdentifier i =
     (if CHR 0x00 \<in> set i then Inl ''PostgreSQL identifier contains an invalid character''
      else Inr (CHR 0x22 # double_quotes (CHR 0x22) i @ [CHR 0x22]))"

definition quoteMysqlIdentifier :: "string \<Rightarrow> string + string" where
  "quoteMysqlIdentifier i =
     (if CHR 0x00 \<in> set i then Inl ''MySQL identifier contains an invalid character''
      else Inr (CHR 0x60 # double_quotes (CHR 0x60) i @ [CHR 0x60]))"

lemma double_quotes_simps [simp]:
  "double_quotes q [] = []"
  "double_quotes q (c # s) = (if c = q then q # q # double_quotes q s else c # double_quotes q s)"
  by (simp_all add: double_quotes_def)

lemma set_double_quotes [simp]: "set (double_quotes q s) = set s"
  by (induction s) auto

section \<open>Searching text\<close>

text \<open>\<open>s.includes(p)\<close>.\<close>

fun js_includes :: "string \<Rightarrow> string \<Rightarrow> bool" where
  "js_includes p [] \<longleftrightarrow> p = []"
| "js_includes p (c # s) \<longleftrightarrow> take (length p) (c # s) = p \<or> js_includes p s"

lemma js_includes_iff: "js_includes p s \<longleftrightarrow> (\<exists>a b. s = a @ p @ b)"
proof (induction s)
  case (Cons c s)
  have "take (length p) (c # s) = p \<longleftrightarrow> (\<exists>b. c # s = p @ b)"
    by (metis append_eq_conv_conj append_take_drop_id)
  moreover have "(\<exists>a b. c # s = a @ p @ b) \<longleftrightarrow> (\<exists>b. c # s = p @ b) \<or> (\<exists>a b. s = a @ p @ b)"
    by (metis Cons_eq_append_conv append_Cons append_Nil)
  ultimately show ?case using Cons.IH by simp
qed simp

lemma js_includes_middle [simp]: "js_includes p (a @ p @ b)"
  by (auto simp: js_includes_iff)

text \<open>\<open>ss.map(f)\<close> where \<open>f\<close> can throw: the first error ends it.\<close>

fun map_throw :: "('a \<Rightarrow> 'e + 'b) \<Rightarrow> 'a list \<Rightarrow> 'e + 'b list" where
  "map_throw f [] = Inr []"
| "map_throw f (x # xs) = and_then (f x) (\<lambda>y. and_then (map_throw f xs) (\<lambda>ys. Inr (y # ys)))"

lemma map_throw_Inr: "map_throw f xs = Inr ys \<longleftrightarrow> list_all2 (\<lambda>x y. f x = Inr y) xs ys"
proof (induction xs arbitrary: ys)
  case (Cons x xs)
  show ?case by (cases ys; cases "f x"; cases "map_throw f xs") (auto simp: Cons.IH [symmetric])
qed (cases "ys = []"; auto)

lemma map_throw_ok: "(\<And>x. x \<in> set xs \<Longrightarrow> f x = Inr (g x)) \<Longrightarrow> map_throw f xs = Inr (map g xs)"
  by (induction xs) auto

end
