(* ===== verification/Csv.thy ===== *)
theory Csv
  imports AuditLog
begin

text \<open>
  CSV transfer: the rows that the export writes (\<open>packages/export/src/index.ts\<close>: \<open>cellValue\<close>,
  \<open>csvValue\<close>, \<open>escapeCsv\<close> and the CSV lines of \<open>writeRows\<close>) and the streaming reader of the import
  (\<open>packages/import/src/index.ts\<close>: \<open>csvRecords\<close>). The reader works chunk by chunk and looks one
  character ahead within a chunk only; the results are that exported rows are read back, that the
  chunks do not matter unless one ends between the two quotes of a doubled quote, and that there
  they do.
\<close>

section \<open>Writing\<close>

text \<open>A cell is a value or \<open>{ type, value }\<close>; a missing cell is undefined.\<close>

definition cellValue :: "json option \<Rightarrow> json option" where
  "cellValue v =
     (case v of
        Some (JObj fs) \<Rightarrow>
          (case (map_of fs ''type'', map_of fs ''value'') of
             (Some (JStr t), Some x) \<Rightarrow>
               if t = ''null'' then Some JNull
               else if t = ''number'' then Some x
               else if t = ''boolean'' then Some (JBool (x = JBool True))
               else Some x
           | _ \<Rightarrow> v)
      | _ \<Rightarrow> v)"

definition csvValue :: "json option \<Rightarrow> string" where
  "csvValue v =
     (case cellValue v of
        None \<Rightarrow> []
      | Some JNull \<Rightarrow> []
      | Some (JStr s) \<Rightarrow> s
      | Some j \<Rightarrow> stringify j)"

abbreviation quote :: char where "quote \<equiv> CHR 0x22"
abbreviation newline :: char where "newline \<equiv> CHR 0x0A"
abbreviation return :: char where "return \<equiv> CHR 0x0D"

definition escapeCsv :: "char \<Rightarrow> string \<Rightarrow> string" where
  "escapeCsv d s =
     (if d \<in> set s \<or> list_ex (\<lambda>c. c = quote \<or> c = return \<or> c = newline) s
      then quote # concat (map (\<lambda>c. if c = quote then [quote, quote] else [c]) s) @ [quote]
      else s)"

definition csv_line :: "char \<Rightarrow> string list \<Rightarrow> string" where
  "csv_line d cells = join [d] (map (escapeCsv d) cells) @ [newline]"

text \<open>What \<open>writeRows\<close> writes in the format \<open>csv\<close>.\<close>

definition csv_export :: "char \<Rightarrow> bool \<Rightarrow> string list \<Rightarrow> (string, json) jsmap list \<Rightarrow> string" where
  "csv_export d header columns rows =
     (if header then csv_line d columns else []) @
     concat (map (\<lambda>row. csv_line d (map (\<lambda>c. csvValue (map_of row c)) columns)) rows)"

section \<open>Reading\<close>

record csv_record =
  rvalues :: "string list"
  rbytes :: nat

text \<open>The local variables of the generator, with what it has yielded.\<close>

record csv_reader =
  cfield :: string
  crow :: "string list"
  cquoted :: bool
  cstart :: bool
  cbytes :: nat
  cout :: "csv_record list"

definition csv_init :: csv_reader where
  "csv_init = \<lparr>cfield = [], crow = [], cquoted = False, cstart = True, cbytes = 0, cout = []\<rparr>"

text \<open>One pass of the loop at the character \<open>c\<close>, with the character after it skipped or not.\<close>

definition csv_step :: "char \<Rightarrow> csv_reader \<Rightarrow> char \<Rightarrow> string \<Rightarrow> csv_reader \<times> bool" where
  "csv_step d r c rest =
     (if cquoted r then
        (if c = quote then
           (if next_is quote rest then (r\<lparr>cfield := cfield r @ [quote]\<rparr>, True)
            else (r\<lparr>cquoted := False\<rparr>, False))
         else (r\<lparr>cfield := cfield r @ [c]\<rparr>, False))
      else if c = quote \<and> cstart r then (r\<lparr>cquoted := True, cstart := False\<rparr>, False)
      else if c = d then (r\<lparr>crow := crow r @ [cfield r], cfield := [], cstart := True\<rparr>, False)
      else if c = newline then
        (r\<lparr>cout := cout r @ [\<lparr>rvalues = crow r @ [cfield r], rbytes = cbytes r\<rparr>],
          crow := [], cfield := [], cstart := True\<rparr>, False)
      else if c \<noteq> return then (r\<lparr>cfield := cfield r @ [c], cstart := False\<rparr>, False)
      else (r, False))"

text \<open>The loop over the characters of one decoded chunk.\<close>

fun csv_text :: "char \<Rightarrow> csv_reader \<Rightarrow> string \<Rightarrow> csv_reader" where
  "csv_text d r [] = r"
| "csv_text d r (c # s) =
     (case csv_step d r c s of (r', skip) \<Rightarrow> csv_text d r' (if skip then tl s else s))"

text \<open>A chunk is its length in bytes with the text the streaming decoder makes of it.\<close>

definition csv_chunk :: "char \<Rightarrow> nat \<times> string \<Rightarrow> csv_reader \<Rightarrow> csv_reader" where
  "csv_chunk d ch r = csv_text d (r\<lparr>cbytes := cbytes r + fst ch\<rparr>) (snd ch)"

definition csv_emit :: "csv_reader \<Rightarrow> csv_record list" where
  "csv_emit r =
     (if crow r \<noteq> [] \<or> cfield r \<noteq> [] then cout r @ [\<lparr>rvalues = crow r @ [cfield r], rbytes = cbytes r\<rparr>]
      else cout r)"

text \<open>The records of a stream; \<open>rest\<close> is what the decoder still holds at the end.\<close>

definition csvRecords :: "char \<Rightarrow> (nat \<times> string) list \<Rightarrow> string \<Rightarrow> csv_record list" where
  "csvRecords d chunks rest =
     (let r = fold (csv_chunk d) chunks csv_init
      in csv_emit (r\<lparr>cfield := cfield r @ rest\<rparr>))"

section \<open>Chunks\<close>

text \<open>The reader without the bookkeeping of bytes.\<close>

definition csv_view :: "csv_reader \<Rightarrow> csv_reader" where
  "csv_view r = r\<lparr>cbytes := 0, cout := map (\<lambda>x. x\<lparr>rbytes := 0\<rparr>) (cout r)\<rparr>"

lemma csv_view_simps [simp]:
  "cfield (csv_view r) = cfield r" "crow (csv_view r) = crow r" "cquoted (csv_view r) = cquoted r"
  "cstart (csv_view r) = cstart r" "map rvalues (cout (csv_view r)) = map rvalues (cout r)"
  "csv_view (r\<lparr>cfield := x\<rparr>) = (csv_view r)\<lparr>cfield := x\<rparr>"
  "csv_view (r\<lparr>crow := y\<rparr>) = (csv_view r)\<lparr>crow := y\<rparr>"
  "csv_view (r\<lparr>cquoted := b\<rparr>) = (csv_view r)\<lparr>cquoted := b\<rparr>"
  "csv_view (r\<lparr>cstart := b\<rparr>) = (csv_view r)\<lparr>cstart := b\<rparr>"
  "csv_view (r\<lparr>cbytes := n\<rparr>) = csv_view r"
  "csv_view (r\<lparr>cout := cout r @ [\<lparr>rvalues = vs, rbytes = n\<rparr>]\<rparr>) =
     (csv_view r)\<lparr>cout := cout (csv_view r) @ [\<lparr>rvalues = vs, rbytes = cbytes (csv_view r)\<rparr>]\<rparr>"
  by (simp_all add: csv_view_def)

lemma csv_step_view:
  "csv_step d r c s = (r', b) \<Longrightarrow> csv_step d (csv_view r) c s = (csv_view r', b)"
  by (auto simp: csv_step_def split: if_splits)

lemma csv_view_text: "csv_view (csv_text d r s) = csv_text d (csv_view r) s"
  by (induction d r s rule: csv_text.induct) (auto dest: csv_step_view split: prod.split)

lemma csv_text_view: "csv_view r = csv_view r' \<Longrightarrow> csv_view (csv_text d r s) = csv_view (csv_text d r' s)"
  by (simp add: csv_view_text)

lemma csv_step_append:
  assumes "\<not> (s = [] \<and> c = quote \<and> next_is quote b)"
  shows "csv_step d r c (s @ b) = csv_step d r c s" "snd (csv_step d r c s) \<Longrightarrow> s \<noteq> []"
proof -
  show "csv_step d r c (s @ b) = csv_step d r c s"
  proof (cases "c = quote")
    case True
    with assms have "next_is quote (s @ b) = next_is quote s" by (cases s) auto
    then show ?thesis by (simp only: csv_step_def)
  qed (simp add: csv_step_def)
  show "s \<noteq> []" if "snd (csv_step d r c s)"
  proof
    assume "s = []"
    then show False using that by (auto simp: csv_step_def split: if_splits)
  qed
qed

lemma csv_text_append:
  assumes "\<not> (a \<noteq> [] \<and> last a = quote \<and> next_is quote b)"
  shows "csv_text d r (a @ b) = csv_text d (csv_text d r a) b"
  using assms
proof (induction d r a rule: csv_text.induct)
  case (2 d r c s)
  obtain r' k where step: "csv_step d r c s = (r', k)" by (cases "csv_step d r c s")
  have ok: "\<not> (s = [] \<and> c = quote \<and> next_is quote b)" using "2.prems" by auto
  let ?s = "if k then tl s else s"
  have "\<not> (?s \<noteq> [] \<and> last ?s = quote \<and> next_is quote b)"
    using "2.prems" by (auto simp: last_tl split: if_splits)
  moreover have "(if k then tl (s @ b) else s @ b) = ?s @ b"
    using csv_step_append(2) [OF ok, of d r] step by auto
  ultimately show ?case using "2.IH" [OF step [symmetric]] csv_step_append(1) [OF ok, of d r] step
    by simp
qed simp

text \<open>No chunk ends between two adjacent quotes.\<close>

fun seams_ok :: "string list \<Rightarrow> bool" where
  "seams_ok [] \<longleftrightarrow> True"
| "seams_ok (s # ss) \<longleftrightarrow> \<not> (s \<noteq> [] \<and> last s = quote \<and> next_is quote (concat ss)) \<and> seams_ok ss"

lemma csv_chunks_view:
  assumes "seams_ok (map snd chunks)" "csv_view r = csv_view r'"
  shows "csv_view (fold (csv_chunk d) chunks r) = csv_view (csv_text d r' (concat (map snd chunks)))"
  using assms
proof (induction chunks arbitrary: r r')
  case (Cons ch chunks)
  have "csv_view (csv_chunk d ch r) = csv_view (csv_text d r' (snd ch))"
    unfolding csv_chunk_def using Cons.prems(2) by (intro csv_text_view) simp
  with Cons.IH Cons.prems(1)
  have "csv_view (fold (csv_chunk d) chunks (csv_chunk d ch r)) =
      csv_view (csv_text d (csv_text d r' (snd ch)) (concat (map snd chunks)))" by simp
  moreover have "csv_text d r' (snd ch @ concat (map snd chunks)) =
      csv_text d (csv_text d r' (snd ch)) (concat (map snd chunks))"
    using Cons.prems(1) by (intro csv_text_append) simp
  ultimately show ?case by simp
qed simp

lemma csv_emit_view: "csv_view r = csv_view r' \<Longrightarrow> map rvalues (csv_emit r) = map rvalues (csv_emit r')"
proof -
  assume v: "csv_view r = csv_view r'"
  have "crow r = crow r'" "cfield r = cfield r'" "map rvalues (cout r) = map rvalues (cout r')"
    using arg_cong [OF v, of crow] arg_cong [OF v, of cfield] arg_cong [OF v, of "\<lambda>x. map rvalues (cout x)"]
    by simp_all
  then show ?thesis by (simp add: csv_emit_def)
qed

lemma csv_records_values:
  assumes "seams_ok (map snd chunks)"
  shows "map rvalues (csvRecords d chunks rest) =
    map rvalues (csv_emit ((\<lambda>r. r\<lparr>cfield := cfield r @ rest\<rparr>) (csv_text d csv_init (concat (map snd chunks)))))"
  unfolding csvRecords_def Let_def
  using csv_chunks_view [OF assms refl, of d csv_init]
  by (intro csv_emit_view) (metis csv_view_simps(1,6))

section \<open>Lines\<close>

lemma csv_quoted_text:
  assumes "cquoted r" "\<not> next_is quote rest"
  shows "csv_text d r (concat (map (\<lambda>c. if c = quote then [quote, quote] else [c]) s) @ quote # rest) =
    csv_text d (r\<lparr>cfield := cfield r @ s, cquoted := False\<rparr>) rest"
  using assms by (induction s arbitrary: r) (auto simp: csv_step_def)

lemma csv_plain_text:
  assumes "\<not> cquoted r" "d \<notin> set s" "\<forall>c \<in> set s. c \<noteq> quote \<and> c \<noteq> return \<and> c \<noteq> newline"
  shows "csv_text d r (s @ rest) = csv_text d (r\<lparr>cfield := cfield r @ s, cstart := cstart r \<and> s = []\<rparr>) rest"
  using assms by (induction s arbitrary: r) (auto simp: csv_step_def)

text \<open>A field that was escaped is read as itself, up to the mark for the start of a field.\<close>

lemma csv_field:
  assumes r: "\<not> cquoted r" "cstart r" "cfield r = []" and rest: "\<not> next_is quote rest"
  obtains b where "csv_text d r (escapeCsv d s @ rest) = csv_text d (r\<lparr>cfield := s, cstart := b\<rparr>) rest"
proof (cases "d \<in> set s \<or> list_ex (\<lambda>c. c = quote \<or> c = return \<or> c = newline) s")
  case True
  then have "csv_text d r (escapeCsv d s @ rest) =
      csv_text d (r\<lparr>cquoted := True, cstart := False\<rparr>)
        (concat (map (\<lambda>c. if c = quote then [quote, quote] else [c]) s) @ quote # rest)"
    using r by (simp add: escapeCsv_def csv_step_def)
  also have "\<dots> = csv_text d (r\<lparr>cfield := s, cstart := False\<rparr>) rest"
    using r rest by (subst csv_quoted_text) (simp, simp, cases r, simp)
  finally show thesis by (rule that)
next
  case False
  then have "csv_text d r (escapeCsv d s @ rest) =
      csv_text d (r\<lparr>cfield := s, cstart := (s = [])\<rparr>) rest"
    using r csv_plain_text [of r d s rest] by (auto simp: escapeCsv_def list_ex_iff)
  then show thesis by (rule that)
qed

definition csv_delimiter :: "char \<Rightarrow> bool" where
  "csv_delimiter d \<longleftrightarrow> d \<noteq> quote \<and> d \<noteq> newline \<and> d \<noteq> return"

lemma csv_fields:
  assumes "csv_delimiter d" "\<not> cquoted r" "cstart r" "cfield r = []" "fs \<noteq> []"
  shows "csv_text d r (join [d] (map (escapeCsv d) fs) @ newline # rest) =
    csv_text d (r\<lparr>crow := [], cout := cout r @ [\<lparr>rvalues = crow r @ fs, rbytes = cbytes r\<rparr>]\<rparr>) rest"
  using assms(2-)
proof (induction fs arbitrary: r)
  case (Cons s fs)
  let ?more = "case fs of [] \<Rightarrow> newline # rest | _ \<Rightarrow> d # join [d] (map (escapeCsv d) fs) @ newline # rest"
  have more: "\<not> next_is quote ?more" using assms(1) by (cases fs) (auto simp: csv_delimiter_def)
  obtain b where "csv_text d r (escapeCsv d s @ ?more) = csv_text d (r\<lparr>cfield := s, cstart := b\<rparr>) ?more"
    using csv_field [OF _ _ _ more] Cons.prems by blast
  moreover have "join [d] (map (escapeCsv d) (s # fs)) @ newline # rest = escapeCsv d s @ ?more"
    by (cases fs) simp_all
  ultimately have eq: "csv_text d r (join [d] (map (escapeCsv d) (s # fs)) @ newline # rest) =
      csv_text d (r\<lparr>cfield := s, cstart := b\<rparr>) ?more" by (simp only:)
  show ?case
  proof (cases fs)
    case Nil
    have "csv_step d (r\<lparr>cfield := s, cstart := b\<rparr>) newline rest =
        (r\<lparr>crow := [], cout := cout r @ [\<lparr>rvalues = crow r @ [s], rbytes = cbytes r\<rparr>]\<rparr>, False)"
      using Cons.prems assms(1) by (cases r) (auto simp: csv_step_def csv_delimiter_def)
    then show ?thesis unfolding eq using Nil by simp
  next
    case (Cons s' fs')
    have "csv_step d (r\<lparr>cfield := s, cstart := b\<rparr>) d t = (r\<lparr>crow := crow r @ [s]\<rparr>, False)" for t
      using Cons.prems assms(1) by (cases r) (simp add: csv_step_def csv_delimiter_def)
    then have "csv_text d r (join [d] (map (escapeCsv d) (s # fs)) @ newline # rest) =
        csv_text d (r\<lparr>crow := crow r @ [s]\<rparr>) (join [d] (map (escapeCsv d) fs) @ newline # rest)"
      unfolding eq using Cons by simp
    also have "\<dots> = csv_text d (r\<lparr>crow := [], cout := cout r @ [\<lparr>rvalues = crow r @ s # fs, rbytes = cbytes r\<rparr>]\<rparr>) rest"
      using Cons.IH [of "r\<lparr>crow := crow r @ [s]\<rparr>"] Cons.prems Cons by simp
    finally show ?thesis .
  qed
qed simp

lemma csv_lines:
  assumes "csv_delimiter d" "\<not> cquoted r" "cstart r" "cfield r = []" "crow r = []" "[] \<notin> set rows"
  shows "csv_text d r (concat (map (csv_line d) rows)) =
    r\<lparr>cout := cout r @ map (\<lambda>row. \<lparr>rvalues = row, rbytes = cbytes r\<rparr>) rows\<rparr>"
  using assms(2-)
proof (induction rows arbitrary: r)
  case (Cons row rows)
  have "csv_text d r (csv_line d row @ concat (map (csv_line d) rows)) =
      csv_text d (r\<lparr>cout := cout r @ [\<lparr>rvalues = row, rbytes = cbytes r\<rparr>]\<rparr>) (concat (map (csv_line d) rows))"
    using csv_fields [OF assms(1), of r row "concat (map (csv_line d) rows)"] Cons.prems
    by (cases r) (auto simp: csv_line_def)
  then show ?case
    using Cons.IH [of "r\<lparr>cout := cout r @ [\<lparr>rvalues = row, rbytes = cbytes r\<rparr>]\<rparr>"] Cons.prems by simp
qed simp

lemma csv_export_lines:
  "csv_export d header columns rows =
     concat (map (csv_line d) ((if header then [columns] else []) @
       map (\<lambda>row. map (\<lambda>c. csvValue (map_of row c)) columns) rows))"
  by (simp add: csv_export_def o_def)

section \<open>Properties\<close>

text \<open>
  Claim C9: the CSV file that an export writes is read back by an import as the header and the rows
  of the export, cell by cell, whatever the cells contain (delimiters, quotes, line breaks) and
  however the file is cut into chunks, as long as no chunk ends between two adjacent quotes.
\<close>

theorem csv_export_import:
  assumes "csv_delimiter d" "columns \<noteq> []"
    and "concat (map snd chunks) = csv_export d header columns rows" "seams_ok (map snd chunks)"
  shows "map rvalues (csvRecords d chunks []) =
    (if header then [columns] else []) @ map (\<lambda>row. map (\<lambda>c. csvValue (map_of row c)) columns) rows"
proof -
  let ?rows = "(if header then [columns] else []) @ map (\<lambda>row. map (\<lambda>c. csvValue (map_of row c)) columns) rows"
  have "[] \<notin> set ?rows" using assms(2) by auto
  then have "csv_text d csv_init (concat (map snd chunks)) =
      csv_init\<lparr>cout := map (\<lambda>row. \<lparr>rvalues = row, rbytes = 0\<rparr>) ?rows\<rparr>"
    using csv_lines [OF assms(1), of csv_init ?rows] by (simp add: assms(3) csv_export_lines csv_init_def)
  then show ?thesis
    by (simp only: csv_records_values [OF assms(4)]) (simp add: csv_emit_def csv_init_def o_def)
qed

definition sample_rows :: "(string, json) jsmap list" where
  "sample_rows = [[(''id'', JNum 1), (''note'', JStr (''a'' @ [quote] @ '', b''))], [(''id'', JNum 2)]]"

theorem csv_export_import_witness:
  "map rvalues (csvRecords (CHR '','') [(20, take 20 (csv_export (CHR '','') True [''id'', ''note''] sample_rows)),
     (4, drop 20 (csv_export (CHR '','') True [''id'', ''note''] sample_rows))] []) =
   [[''id'', ''note''], [''1'', ''a'' @ [quote] @ '', b''], [''2'', '''']]"
proof -
  let ?e = "csv_export (CHR '','') True [''id'', ''note''] sample_rows"
  have s: "seams_ok [take 20 ?e, drop 20 ?e]" by code_simp
  have v: "map (\<lambda>row. map (\<lambda>c. csvValue (map_of row c)) [''id'', ''note'']) sample_rows =
      [[''1'', ''a'' @ [quote] @ '', b''], [''2'', '''']]" by code_simp
  show ?thesis
    using csv_export_import [of "CHR '',''" "[''id'', ''note'']" "[(20, take 20 ?e), (4, drop 20 ?e)]" True sample_rows] s v
    by (simp add: csv_delimiter_def)
qed

text \<open>
  A chunk that ends between the two quotes of a doubled quote changes what is read: the
  first ends the quoted part and the second is taken as text, so a delimiter that follows inside the
  quotes splits the field. The same file in one chunk is read as it was written.
\<close>

theorem csv_chunk_boundary_splits_field:
  "let file = csv_line (CHR '','') [''a'' @ [quote] @ '',b''] in
     map rvalues (csvRecords (CHR '','') [(9, file)] []) = [[''a'' @ [quote] @ '',b'']] \<and>
     map rvalues (csvRecords (CHR '','') [(3, take 3 file), (6, drop 3 file)] []) =
       [[''a'' @ [quote], ''b'' @ [quote]]]"
  by code_simp

end
