(* ===== verification/SqlReader.thy ===== *)
theory SqlReader
  imports QueryText
begin

text \<open>
  The streaming SQL reader of the import, \<open>sqlRecords\<close> of \<open>packages/import/src/index.ts\<close>: it scans an
  upload chunk by chunk with one set of local variables and yields a statement at each semicolon.
  It is a second splitter beside those of the providers. The results: on a file in one chunk
  without backslashes it yields exactly the statements of the PostgreSQL splitter, and the end of a
  chunk inside a two-character token makes it cut elsewhere.
\<close>

section \<open>The reader\<close>

datatype sql_mode = SqlNormal | SqlSingle | SqlDouble | SqlBacktick | SqlLineComment | SqlBlockComment

record sql_record =
  sstatement :: query_statement
  sbytesProcessed :: nat

record sql_reader =
  stext :: string
  sbytes :: nat
  sbase :: nat
  sstart :: nat
  smode :: sql_mode
  sdepth :: int
  stag :: "string option"
  sout :: "sql_record list"

definition sql_init :: sql_reader where
  "sql_init = \<lparr>stext = [], sbytes = 0, sbase = 0, sstart = 0, smode = SqlNormal, sdepth = 0,
     stag = None, sout = []\<rparr>"

text \<open>\<open>emit(end)\<close>: the trimmed text since the start of the statement, at offsets of the whole upload.\<close>

definition sql_emit :: "string \<Rightarrow> nat \<Rightarrow> sql_reader \<Rightarrow> sql_record list" where
  "sql_emit text end' r =
     (case first_nonspace (js_slice text (sstart r) end') of
        None \<Rightarrow> []
      | Some leading \<Rightarrow>
          let trimmedEnd = trim_end text (sstart r) end'
          in [\<lparr>sstatement = \<lparr>qsql = js_slice text (sstart r + leading) trimmedEnd,
                 startOffset = sbase r + sstart r + leading, endOffset = sbase r + trimmedEnd\<rparr>,
               sbytesProcessed = sbytes r\<rparr>])"

text \<open>One pass of the loop body, with what it adds to \<open>index\<close>.\<close>

definition sql_body :: "engine \<Rightarrow> string \<Rightarrow> nat \<Rightarrow> sql_reader \<Rightarrow> sql_reader \<times> nat" where
  "sql_body engine text index r =
     (let current = char_at text index; next' = char_at text (index + 1) in
      if smode r = SqlLineComment then
        (if current = Some (CHR 0x0A) then (r\<lparr>smode := SqlNormal\<rparr>, 0) else (r, 0))
      else if smode r = SqlBlockComment then
        (if current = Some CHR ''/'' \<and> next' = Some CHR ''*'' then (r\<lparr>sdepth := sdepth r + 1\<rparr>, 1)
         else if current = Some CHR ''*'' \<and> next' = Some CHR ''/'' then
           (let d = sdepth r - 1
            in (r\<lparr>sdepth := d, smode := (if d = 0 then SqlNormal else SqlBlockComment)\<rparr>, 1))
         else (r, 0))
      else if smode r = SqlSingle \<or> smode r = SqlDouble \<or> smode r = SqlBacktick then
        (let closing = (if smode r = SqlSingle then CHR 0x27 else if smode r = SqlDouble then CHR 0x22 else CHR 0x60) in
         if current = Some (CHR 0x5C) then (r, 1)
         else if current = Some closing then
           (if next' = Some closing then (r, 1) else (r\<lparr>smode := SqlNormal\<rparr>, 0))
         else (r, 0))
      else (case stag r of
        Some tag \<Rightarrow>
          if starts_with_at text tag index then (r\<lparr>stag := None\<rparr>, length tag - 1) else (r, 0)
      | None \<Rightarrow>
          if current = Some CHR ''-'' \<and> next' = Some CHR ''-'' then (r\<lparr>smode := SqlLineComment\<rparr>, 1)
          else if current = Some CHR ''#'' \<and> engine = Mysql then (r\<lparr>smode := SqlLineComment\<rparr>, 0)
          else if current = Some CHR ''/'' \<and> next' = Some CHR ''*'' then
            (r\<lparr>smode := SqlBlockComment, sdepth := 1\<rparr>, 1)
          else if current = Some (CHR 0x27) then (r\<lparr>smode := SqlSingle\<rparr>, 0)
          else if current = Some (CHR 0x22) then (r\<lparr>smode := SqlDouble\<rparr>, 0)
          else if current = Some (CHR 0x60) \<and> engine = Mysql then (r\<lparr>smode := SqlBacktick\<rparr>, 0)
          else if current = Some CHR ''$'' \<and> engine = Postgresql then
            (case dollarTagAt text index of
               None \<Rightarrow> (r, 0)
             | Some tag \<Rightarrow> (r\<lparr>stag := Some tag\<rparr>, length tag - 1))
          else if current = Some CHR '';'' then
            (r\<lparr>sout := sout r @ sql_emit text index r, sstart := index + 1\<rparr>, 0)
          else (r, 0)))"

text \<open>A chunk is its length in bytes with the text the streaming decoder makes of it.\<close>

definition sql_chunk :: "engine \<Rightarrow> nat \<times> string \<Rightarrow> sql_reader \<Rightarrow> sql_reader" where
  "sql_chunk engine ch r =
     (let startIndex = length (stext r);
          text = stext r @ snd ch;
          r' = for_index (sql_body engine text) (length text) startIndex
                 (r\<lparr>stext := text, sbytes := sbytes r + fst ch\<rparr>)
      in if 0 < sstart r'
         then r'\<lparr>sbase := sbase r' + sstart r', stext := drop (sstart r') text, sstart := 0\<rparr>
         else r')"

text \<open>The statements of an upload; \<open>rest\<close> is what the decoder still holds at the end.\<close>

definition sqlRecords :: "engine \<Rightarrow> (nat \<times> string) list \<Rightarrow> string \<Rightarrow> sql_record list" where
  "sqlRecords engine chunks rest =
     (let r = fold (sql_chunk engine) chunks sql_init;
          text = stext r @ rest;
          final = js_trim text
      in if final \<noteq> []
         then sout r @ [\<lparr>sstatement = \<lparr>qsql = final, startOffset = sbase r,
                           endOffset = sbase r + length text\<rparr>, sbytesProcessed = sbytes r\<rparr>]
         else sout r)"

section \<open>Against the splitter\<close>

text \<open>Two loops that run in step keep a relation between their states.\<close>

lemma for_index_simulation:
  assumes "R s t"
    and "\<And>i s t. R s t \<Longrightarrow> i < n \<Longrightarrow> R (fst (f i s)) (fst (g i t)) \<and> snd (f i s) = snd (g i t)"
  shows "R (for_index f n i s) (for_index g n i t)"
  using assms(1)
proof (induction "n - i" arbitrary: i s t rule: less_induct)
  case less
  show ?case
  proof (cases "i < n")
    case True
    from assms(2) [OF less.prems True]
    have step: "R (fst (f i s)) (fst (g i t))" "snd (f i s) = snd (g i t)" by auto
    have "R (for_index f n (i + snd (f i s) + 1) (fst (f i s))) (for_index g n (i + snd (g i t) + 1) (fst (g i t)))"
      unfolding step(2) using True by (intro less.hyps step(1)) simp
    then show ?thesis using True by (subst (1 2) for_index.simps) simp
  next
    case False
    then show ?thesis using less.prems by (simp add: for_index_stop)
  qed
qed

fun same_mode :: "sql_mode \<Rightarrow> pg_state \<Rightarrow> bool" where
  "same_mode SqlNormal m \<longleftrightarrow> m = PgNormal"
| "same_mode SqlSingle m \<longleftrightarrow> m = PgSingle"
| "same_mode SqlDouble m \<longleftrightarrow> m = PgDouble"
| "same_mode SqlLineComment m \<longleftrightarrow> m = PgLineComment"
| "same_mode SqlBlockComment m \<longleftrightarrow> m = PgBlockComment"
| "same_mode SqlBacktick m \<longleftrightarrow> False"

definition reads_as :: "sql_reader \<Rightarrow> pg_scan \<Rightarrow> bool" where
  "reads_as r s \<longleftrightarrow> sbase r = 0 \<and> sstart r = pg_start s \<and> same_mode (smode r) (pg_state s) \<and>
     sdepth r = pg_blockDepth s \<and> stag r = pg_dollarTag s \<and> map sstatement (sout r) = pg_statements s"

lemma sql_emit_trimmed:
  "sbase r = 0 \<Longrightarrow> map sstatement (sql_emit text e r) = trimmed text (sstart r) e"
  by (simp add: sql_emit_def trimmed_def trimStatement_def Let_def split: option.split)

lemma same_mode_iff:
  "same_mode m p \<Longrightarrow> (m = SqlNormal) = (p = PgNormal) \<and> (m = SqlSingle) = (p = PgSingle) \<and>
     (m = SqlDouble) = (p = PgDouble) \<and> (m = SqlLineComment) = (p = PgLineComment) \<and>
     (m = SqlBlockComment) = (p = PgBlockComment) \<and> m \<noteq> SqlBacktick"
  by (cases m; cases p) auto

lemma sql_body_step:
  assumes "reads_as r s" "i < length text" "CHR 0x5C \<notin> set text"
  shows "reads_as (fst (sql_body Postgresql text i r)) (fst (pg_body text i s)) \<and>
    snd (sql_body Postgresql text i r) = snd (pg_body text i s)"
proof -
  from assms(2,3) have c: "char_at text i \<noteq> Some (CHR 0x5C)"
    by (auto simp: char_at_def dest: nth_mem)
  note R = assms(1) [unfolded reads_as_def]
  have push: "reads_as (r\<lparr>sout := sout r @ sql_emit text i r, sstart := i + 1\<rparr>) (pg_push text i s)"
    using R by (simp add: reads_as_def pg_push_def sql_emit_trimmed)
  show ?thesis
  proof (cases "smode r")
    case SqlNormal
    then have "pg_state s = PgNormal" using R by simp
    moreover have "pg_dollarTag s = stag r" using R by simp
    ultimately show ?thesis
      using SqlNormal push R c
      by (cases "stag r") (auto simp: sql_body_def pg_body_def Let_def reads_as_def split: option.splits)
  qed (use R c in \<open>auto simp: sql_body_def pg_body_def Let_def reads_as_def\<close>)
qed

lemma sql_body_keeps:
  assumes "sql_body engine text i r = (r', k)" "i < length text" "stext r = text" "sstart r \<le> length text"
  shows "stext r' = text" "sstart r' \<le> length text"
  using assms by (auto simp: sql_body_def Let_def split: if_splits option.splits)

lemma sql_loop_keeps:
  assumes "stext r = text" "sstart r \<le> length text"
  shows "stext (for_index (sql_body engine text) (length text) i r) = text \<and>
    sstart (for_index (sql_body engine text) (length text) i r) \<le> length text"
proof -
  let ?P = "\<lambda>i r. stext r = text \<and> sstart r \<le> length text"
  have "\<exists>j. length text \<le> j \<and> ?P j (for_index (sql_body engine text) (length text) i r)"
    using assms sql_body_keeps by (intro for_index_rule [where P = ?P]) blast+
  then show ?thesis by blast
qed

lemma reader_single_chunk:
  assumes "CHR 0x5C \<notin> set sql"
  shows "map (qsql \<circ> sstatement) (sqlRecords Postgresql [(n, sql)] []) = map qsql (splitPostgresqlStatements sql)"
proof -
  define r where "r = for_index (sql_body Postgresql sql) (length sql) 0 (sql_init\<lparr>stext := sql, sbytes := n\<rparr>)"
  define s where "s = for_index (pg_body sql) (length sql) 0 pg_init"
  have R: "reads_as r s"
    unfolding r_def s_def
    by (rule for_index_simulation) (simp add: reads_as_def sql_init_def pg_init_def, rule sql_body_step [OF _ _ assms])
  have keep: "stext r = sql" "sstart r \<le> length sql"
    using sql_loop_keeps [of "sql_init\<lparr>stext := sql, sbytes := n\<rparr>" sql Postgresql 0]
    by (simp_all add: r_def sql_init_def)
  let ?w = "drop (sstart r) sql"
  obtain r' where ch: "sql_chunk Postgresql (n, sql) sql_init = r'" "stext r' = ?w" "sout r' = sout r"
    using keep unfolding sql_chunk_def r_def
    by (cases "sstart r = 0") (auto simp: sql_init_def r_def Let_def)
  have "map qsql (trimmed sql (pg_start s) (length sql)) = (if js_trim ?w = [] then [] else [js_trim ?w])"
  proof -
    have "length (take (sstart r) sql) = sstart r" "sstart r + length ?w = length sql"
      "take (sstart r) sql @ ?w @ [] = sql" "pg_start s = sstart r"
      using keep(2) R by (simp_all add: reads_as_def)
    then show ?thesis using trimmed_text [of "take (sstart r) sql" ?w "[]"] by (simp only:)
  qed
  moreover have "map (qsql \<circ> sstatement) (sout r) = map qsql (pg_statements s)"
    using R unfolding reads_as_def by (metis list.map_comp)
  ultimately show ?thesis
    by (simp add: sqlRecords_def ch Let_def splitPostgresqlStatements_def flip: s_def)
qed

text \<open>
  Claim C34: on an upload that arrives as one chunk and has no backslash, the streaming reader of the
  import yields exactly the statements of the PostgreSQL splitter that the query editor uses.
\<close>

theorem reader_agrees_with_splitter:
  assumes "CHR 0x5C \<notin> set sql"
  shows "map (qsql \<circ> sstatement) (sqlRecords Postgresql [(n, sql)] []) = map qsql (splitPostgresqlStatements sql)"
  by (rule reader_single_chunk [OF assms])

theorem reader_agrees_with_splitter_witness:
  "map (qsql \<circ> sstatement) (sqlRecords Postgresql [(20, ''SELECT $$;$$; a/*;*/'')] []) =
     [''SELECT $$;$$'', ''a/*;*/'']"
proof -
  have "CHR 0x5C \<notin> set ''SELECT $$;$$; a/*;*/''" by simp
  from reader_agrees_with_splitter [OF this] show ?thesis by code_simp
qed

text \<open>
  A chunk that ends inside a two-character token makes the reader cut the script elsewhere:
  the comment of \<open>SELECT 1 -- a;b\<close> is one statement in one chunk, and two statements when the
  chunk ends between the dashes. The splitter of the query editor sees one statement.
\<close>

theorem reader_chunk_boundary_cuts_comment:
  "map (qsql \<circ> sstatement) (sqlRecords Postgresql [(15, ''SELECT 1 -- a;b'')] []) = [''SELECT 1 -- a;b''] \<and>
   map (qsql \<circ> sstatement) (sqlRecords Postgresql [(10, ''SELECT 1 -''), (5, ''- a;b'')] []) =
     [''SELECT 1 -- a'', ''b''] \<and>
   map qsql (splitPostgresqlStatements ''SELECT 1 -- a;b'') = [''SELECT 1 -- a;b'']"
  by (intro conjI; code_simp)

end
