(* ===== verification/ImportRun.thy ===== *)
theory ImportRun
  imports Csv SqlReader
begin

text \<open>
  The executors of an import job, \<open>executeSql\<close> and \<open>executeCsv\<close> of \<open>packages/import/src/index.ts\<close>, with
  the transaction wrapper that the providers share (\<open>withTransaction\<close> of
  \<open>packages/database-mysql/src/driver/mysql-connection.ts\<close>). The database, the connection manager,
  the audit writer, the abort signal and the clock are a port over a world \<open>'w\<close>: every awaited
  operation takes the world to a new one, in which the job may have been aborted.
\<close>

section \<open>Errors and results\<close>

datatype import_code =
    IMPORT_VALIDATION_FAILED | IMPORT_UPLOAD_TOO_LARGE | IMPORT_UPLOAD_INVALID | IMPORT_UPLOAD_NOT_FOUND
  | IMPORT_UPLOAD_EXPIRED | IMPORT_UNSUPPORTED | IMPORT_CONFIRMATION_REQUIRED | IMPORT_LIMIT_REACHED

datatype import_error =
    AbortError
  | DbFailure string string "error_position option"
  | ServiceFailure import_code string nat
  | OtherFailure string

fun positionOf :: "import_error \<Rightarrow> int option" where
  "positionOf (DbFailure cat m (Some (AtNumber n))) = Some n"
| "positionOf (DbFailure cat m (Some (AtPlace line column offset))) =
     (case offset of Some n \<Rightarrow> Some n | None \<Rightarrow> column)"
| "positionOf _ = None"

fun reasonOf :: "import_error \<Rightarrow> string" where
  "reasonOf AbortError = ''Import cancelled.''"
| "reasonOf (DbFailure cat m pos) = m"
| "reasonOf (ServiceFailure c m status) = m"
| "reasonOf (OtherFailure m) = m"

definition statementError :: "import_error \<Rightarrow> nat \<Rightarrow> query_statement \<Rightarrow> import_error" where
  "statementError e number s =
     (let position = (case positionOf e of None \<Rightarrow> int (startOffset s) | Some p \<Rightarrow> p) in
      DbFailure (case e of DbFailure cat _ _ \<Rightarrow> cat | _ \<Rightarrow> ''internal'')
        (''Import failed at statement '' @ show_nat number @ '' (position '' @ show_int position @ ''): '' @ reasonOf e)
        (Some (AtNumber position)))"

text \<open>What a run has counted, with the progress it has reported as (current, fileSize).\<close>

record import_summary =
  statementsSucceeded :: nat
  statementsFailed :: nat
  rowsSucceeded :: nat
  rowsFailed :: nat
  failedRows :: "(nat \<times> string) list"
  bytesDone :: nat
  reported :: "(nat \<times> nat) list"

definition empty_summary :: import_summary where
  "empty_summary = \<lparr>statementsSucceeded = 0, statementsFailed = 0, rowsSucceeded = 0, rowsFailed = 0,
     failedRows = [], bytesDone = 0, reported = []\<rparr>"

datatype import_format = SqlFormat | CsvFormat

record import_result =
  iformat :: import_format
  isummary :: import_summary
  ibytesProcessed :: nat
  idurationMs :: int
  ipartial :: bool
  icancelled :: bool
  idestructive :: bool

definition sqlResult :: "import_summary \<Rightarrow> nat \<Rightarrow> int \<Rightarrow> bool \<Rightarrow> bool \<Rightarrow> import_result" where
  "sqlResult s bytes ms cancelled destructive =
     \<lparr>iformat = SqlFormat, isummary = s\<lparr>failedRows := []\<rparr>, ibytesProcessed = bytes, idurationMs = max 0 ms,
      ipartial = (cancelled \<or> statementsFailed s > 0), icancelled = cancelled, idestructive = destructive\<rparr>"

definition csvResult :: "import_summary \<Rightarrow> nat \<Rightarrow> int \<Rightarrow> bool \<Rightarrow> bool \<Rightarrow> import_result" where
  "csvResult s bytes ms cancelled destructive =
     \<lparr>iformat = CsvFormat, isummary = s, ibytesProcessed = bytes, idurationMs = max 0 ms,
      ipartial = (cancelled \<or> rowsFailed s > 0), icancelled = cancelled, idestructive = destructive\<rparr>"

text \<open>The audit entries \<open>import.completed\<close> and \<open>import.failed\<close> of a run.\<close>

datatype import_audit = AuditCompleted import_result | AuditFailed import_result

section \<open>The port\<close>

text \<open>The value of a cell; a number is \<open>m / 2 ^ k\<close> for the pair \<open>(m, k)\<close>, whole when \<open>k\<close> is 0.\<close>

datatype csv_cell = CellNull | CellText string | CellNumber int nat | CellBool bool

record 'w import_port =
  ip_engine :: engine
  ip_sql :: bool
  ip_csv :: bool
  ip_open :: "'w \<Rightarrow> 'w \<times> (import_error + unit)"
  ip_execute :: "string \<Rightarrow> 'w \<Rightarrow> 'w \<times> (import_error + nat)"
  ip_insert :: "string list \<Rightarrow> csv_cell list list \<Rightarrow> 'w \<Rightarrow> 'w \<times> (import_error + nat)"
  ip_truncate :: "'w \<Rightarrow> 'w \<times> (import_error + unit)"
  ip_begin :: "'w \<Rightarrow> 'w \<times> (import_error + unit)"
  ip_commit :: "'w \<Rightarrow> 'w \<times> (import_error + unit)"
  ip_rollback :: "'w \<Rightarrow> 'w \<times> (import_error + unit)"
  ip_describe :: "'w \<Rightarrow> 'w \<times> (import_error + (string \<times> string) list)"
  ip_close :: "'w \<Rightarrow> 'w"
  ip_audit :: "import_audit \<Rightarrow> 'w \<Rightarrow> 'w \<times> (import_error + unit)"
  ip_aborted :: "'w \<Rightarrow> bool"
  ip_now :: "'w \<Rightarrow> time"

text \<open>A step of a run: the world, the summary and the error that was thrown, if any.\<close>

type_synonym 'w run = "'w \<times> import_summary \<times> import_error option"

text \<open>
  \<open>runTransaction\<close>, by the provider's \<open>withTransaction\<close> or by its commands: both begin, run, and then
  commit, or roll back when the operation or the commit throws; an error of the rollback is dropped.
\<close>

definition runTransaction ::
  "'w import_port \<Rightarrow> ('w \<Rightarrow> import_summary \<Rightarrow> 'w run) \<Rightarrow> 'w \<Rightarrow> import_summary \<Rightarrow> 'w run" where
  "runTransaction p operation w s =
     (case ip_begin p w of
        (w1, Inl e) \<Rightarrow> (w1, s, Some e)
      | (w1, Inr _) \<Rightarrow>
          (case operation w1 s of
             (w2, s', Some e) \<Rightarrow> (fst (ip_rollback p w2), s', Some e)
           | (w2, s', None) \<Rightarrow>
               (case ip_commit p w2 of
                  (w3, Inl e) \<Rightarrow> (fst (ip_rollback p w3), s', Some e)
                | (w3, Inr _) \<Rightarrow> (w3, s', None))))"

section \<open>SQL\<close>

fun execute_records :: "'w import_port \<Rightarrow> nat \<Rightarrow> sql_record list \<Rightarrow> 'w \<Rightarrow> import_summary \<Rightarrow> 'w run" where
  "execute_records p fileSize [] w s = (w, s, None)"
| "execute_records p fileSize (r # rs) w s =
     (if ip_aborted p w then (w, s, Some AbortError)
      else
        let number = statementsSucceeded s + statementsFailed s + 1 in
        case ip_execute p (qsql (sstatement r)) w of
          (w', Inr affected) \<Rightarrow>
            let bytes = min (sbytesProcessed r) fileSize in
            execute_records p fileSize rs w'
              (s\<lparr>statementsSucceeded := statementsSucceeded s + 1, rowsSucceeded := rowsSucceeded s + affected,
                 bytesDone := bytes, reported := reported s @ [(bytes, fileSize)]\<rparr>)
        | (w', Inl e) \<Rightarrow>
            if ip_aborted p w' then (w', s, Some AbortError)
            else (w', s\<lparr>statementsFailed := statementsFailed s + 1\<rparr>, Some (statementError e number (sstatement r))))"

definition executeStatements :: "'w import_port \<Rightarrow> nat \<Rightarrow> sql_record list \<Rightarrow> 'w \<Rightarrow> import_summary \<Rightarrow> 'w run" where
  "executeStatements p fileSize rs w s =
     (case execute_records p fileSize rs w s of
        (w', s', Some e) \<Rightarrow> (w', s', Some e)
      | (w', s', None) \<Rightarrow>
          (w', s', if rs = [] then Some (DbFailure ''syntax_error'' ''The SQL upload has no statements.'' None)
                   else None))"

datatype transaction_mode = Single | PerStatement

definition sql_mode_of :: "'w import_port \<Rightarrow> transaction_mode option \<Rightarrow> transaction_mode" where
  "sql_mode_of p mode =
     (case mode of Some m \<Rightarrow> m | None \<Rightarrow> if ip_engine p = Postgresql then Single else PerStatement)"

text \<open>\<open>catch\<close>: the failed run is audited; an abort is a result, anything else is thrown.\<close>

definition sql_catch ::
  "'w import_port \<Rightarrow> time \<Rightarrow> import_error \<Rightarrow> 'w \<Rightarrow> import_summary \<Rightarrow> 'w \<times> (import_error + import_result)" where
  "sql_catch p startedAt e w s =
     (let result = sqlResult s (bytesDone s) (ip_now p w - startedAt) (e = AbortError) False in
      case ip_audit p (AuditFailed result) w of
        (w', Inl e') \<Rightarrow> (w', Inl e')
      | (w', Inr _) \<Rightarrow> (w', if e = AbortError then Inr result else Inl e))"

text \<open>The end of a run: the error that it threw, or a result.\<close>

definition sql_settle ::
  "'w import_port \<Rightarrow> nat \<Rightarrow> time \<Rightarrow> 'w run \<Rightarrow> 'w \<times> (import_error + import_result)" where
  "sql_settle p fileSize startedAt run =
     (case run of
        (w, s, Some e) \<Rightarrow> sql_catch p startedAt e w s
      | (w, s, None) \<Rightarrow>
          if ip_aborted p w
          then (w, Inr (sqlResult s (bytesDone s) (ip_now p w - startedAt) True False))
          else
            let result = sqlResult s fileSize (ip_now p w - startedAt) False False in
            case ip_audit p (AuditCompleted result) w of
              (w', Inl e) \<Rightarrow> sql_catch p startedAt e w' s
            | (w', Inr _) \<Rightarrow> (w', Inr result))"

definition executeSql ::
  "'w import_port \<Rightarrow> transaction_mode option \<Rightarrow> nat \<Rightarrow> (nat \<times> string) list \<Rightarrow> string \<Rightarrow> 'w \<Rightarrow>
     'w \<times> (import_error + import_result)" where
  "executeSql p mode fileSize chunks rest w =
     (case ip_open p w of
        (w1, Inl e) \<Rightarrow> sql_settle p fileSize (ip_now p w) (w1, empty_summary, Some e)
      | (w1, Inr _) \<Rightarrow>
          let execute = executeStatements p fileSize (sqlRecords (ip_engine p) chunks rest);
              run = (if \<not> ip_sql p
                then (w1, empty_summary, Some (ServiceFailure IMPORT_UNSUPPORTED
                       ''This database provider does not support SQL imports.'' 501))
                else if sql_mode_of p mode = Single then runTransaction p execute w1 empty_summary
                else execute w1 empty_summary);
              (w', r) = sql_settle p fileSize (ip_now p w) run
          in (ip_close p w', r))"

section \<open>CSV\<close>

record csv_import_options =
  opt_delimiter :: "char option"
  opt_header :: "bool option"
  opt_mapping :: "(string \<times> string) list"
  opt_nullLiteral :: "string option"
  opt_batchSize :: "nat option"

definition DEFAULT_CSV_BATCH_SIZE :: nat where "DEFAULT_CSV_BATCH_SIZE = 500"
definition MAX_CSV_BATCH_SIZE :: nat where "MAX_CSV_BATCH_SIZE = 1000"
definition CSV_ROW_ERROR_THRESHOLD :: nat where "CSV_ROW_ERROR_THRESHOLD = 100"

text \<open>
  \<open>typedCsvValue\<close>; \<open>number\<close> is \<open>Number\<close> of a string, where it is finite.
\<close>

definition typedCsvValue ::
  "(string \<Rightarrow> (int \<times> nat) option) \<Rightarrow> string option \<Rightarrow> string option \<Rightarrow> csv_cell" where
  "typedCsvValue number v dataType =
     (case v of
        None \<Rightarrow> CellNull
      | Some s \<Rightarrow>
          (case dataType of
             None \<Rightarrow> CellText s
           | Some t \<Rightarrow>
               if t = [] then CellText s
               else
                 let type = js_lower t in
                 if type \<in> set [''smallint'', ''integer'', ''int'', ''int2'', ''int4'', ''serial'', ''serial2'', ''serial4'']
                 then (case number s of Some (n, 0) \<Rightarrow> CellNumber n 0 | _ \<Rightarrow> CellText s)
                 else if type \<in> set [''numeric'', ''decimal'', ''real'', ''float'', ''float4'', ''float8'', ''double'',
                   ''double precision'']
                 then (case number s of Some (n, k) \<Rightarrow> CellNumber n k | None \<Rightarrow> CellText s)
                 else if type \<in> set [''boolean'', ''bool'', ''tinyint(1)'']
                 then (if js_lower s = ''true'' \<or> s = ''1'' then CellBool True
                       else if js_lower s = ''false'' \<or> s = ''0'' then CellBool False else CellText s)
                 else CellText s))"

definition typed_row ::
  "(string \<Rightarrow> (int \<times> nat) option) \<Rightarrow> string \<Rightarrow> string option list \<Rightarrow> string list \<Rightarrow> csv_cell list" where
  "typed_row number nullLiteral types values =
     map (\<lambda>i. typedCsvValue number (if values ! i = nullLiteral then None else Some (values ! i)) (types ! i))
       [0..<length values]"

text \<open>A row that waits for the next batch.\<close>

record pending_row =
  pvalues :: "string list"
  pbytes :: nat
  prow :: nat

text \<open>What the loop reads from its surroundings: the columns and the conversion of a row.\<close>

record csv_target =
  tcolumns :: "string list"
  tconvert :: "string list \<Rightarrow> csv_cell list"

fun insert_each :: "'w import_port \<Rightarrow> csv_target \<Rightarrow> pending_row list \<Rightarrow> 'w \<Rightarrow> import_summary \<Rightarrow> 'w run" where
  "insert_each p t [] w s = (w, s, None)"
| "insert_each p t (r # rs) w s =
     (if ip_aborted p w then (w, s, Some AbortError)
      else case ip_insert p (tcolumns t) [tconvert t (pvalues r)] w of
        (w', Inr n) \<Rightarrow> insert_each p t rs w' (s\<lparr>rowsSucceeded := rowsSucceeded s + (if n = 0 then 1 else n)\<rparr>)
      | (w', Inl e) \<Rightarrow>
          let s' = s\<lparr>rowsFailed := rowsFailed s + 1,
                failedRows := (if length (failedRows s) < CSV_ROW_ERROR_THRESHOLD
                               then failedRows s @ [(prow r, reasonOf e)] else failedRows s)\<rparr>
          in if rowsFailed s' \<ge> CSV_ROW_ERROR_THRESHOLD
             then (w', s', Some (DbFailure ''constraint_violation''
               (''CSV import stopped after '' @ show_nat CSV_ROW_ERROR_THRESHOLD @ '' failed rows; first failed row is '' @
                show_nat (case failedRows s' of [] \<Rightarrow> prow r | f # _ \<Rightarrow> fst f) @ ''.'') None))
             else insert_each p t rs w' s')"

definition csv_flush ::
  "'w import_port \<Rightarrow> csv_target \<Rightarrow> nat \<Rightarrow> pending_row list \<Rightarrow> 'w \<Rightarrow> import_summary \<Rightarrow> 'w run" where
  "csv_flush p t fileSize batch w s =
     (if batch = [] then (w, s, None)
      else if ip_aborted p w then (w, s, Some AbortError)
      else
        let (w', s', e) =
          (case ip_insert p (tcolumns t) (map (\<lambda>r. tconvert t (pvalues r)) batch) w of
             (w1, Inr n) \<Rightarrow> (w1, s\<lparr>rowsSucceeded := rowsSucceeded s + (if n = 0 then length batch else n)\<rparr>, None)
           | (w1, Inl _) \<Rightarrow> insert_each p t batch w1 s)
        in case e of
             Some x \<Rightarrow> (w', s', Some x)
           | None \<Rightarrow> (w', s'\<lparr>reported := reported s' @ [(min (pbytes (last batch)) fileSize, fileSize)]\<rparr>, None))"

text \<open>A row is queued; a full batch is flushed.\<close>

definition csv_push ::
  "'w import_port \<Rightarrow> csv_target \<Rightarrow> nat \<Rightarrow> nat \<Rightarrow> pending_row \<Rightarrow> pending_row list \<Rightarrow> 'w \<Rightarrow> import_summary \<Rightarrow>
     pending_row list \<times> 'w run" where
  "csv_push p t fileSize batchSize r pending w s =
     (let pending' = pending @ [r] in
      if length pending' \<ge> batchSize then ([], csv_flush p t fileSize pending' w s)
      else (pending', w, s, None))"

fun csv_rows ::
  "'w import_port \<Rightarrow> csv_target \<Rightarrow> nat \<Rightarrow> nat \<Rightarrow> pending_row list \<Rightarrow> pending_row list \<Rightarrow> 'w \<Rightarrow> import_summary \<Rightarrow>
     'w run" where
  "csv_rows p t fileSize batchSize [] pending w s =
     (case csv_flush p t fileSize pending w s of
        (w', s', Some e) \<Rightarrow> (w', s', Some e)
      | (w', s', None) \<Rightarrow> (w', s', if ip_aborted p w' then Some AbortError else None))"
| "csv_rows p t fileSize batchSize (r # rs) pending w s =
     (case csv_push p t fileSize batchSize r pending w s of
        (pending', w', s', Some e) \<Rightarrow> (w', s', Some e)
      | (pending', w', s', None) \<Rightarrow> csv_rows p t fileSize batchSize rs pending' w' s')"

text \<open>
  The rows in the order in which they are queued, with their numbers. Without a header the first
  record is numbered 1, and so is the second: the counter starts at 1 after the first was queued.
\<close>

definition queued_rows :: "bool \<Rightarrow> nat list \<Rightarrow> csv_record \<Rightarrow> csv_record list \<Rightarrow> pending_row list" where
  "queued_rows header indexes first rest =
     (let pick = (\<lambda>r. map (\<lambda>i. case map_of (enumerate 0 (rvalues r)) i of None \<Rightarrow> [] | Some v \<Rightarrow> v) indexes);
          row = (\<lambda>n r. \<lparr>pvalues = pick r, pbytes = rbytes r, prow = n\<rparr>)
      in (if header then [] else [row 1 first]) @
         map (\<lambda>(n, r). row n r) (enumerate (if header then 2 else 1) rest))"

definition csv_indexes :: "string list \<Rightarrow> (string \<times> string) list \<Rightarrow> import_error + nat list" where
  "csv_indexes headers mappings =
     foldl (\<lambda>acc (source, target).
        case acc of
          Inl e \<Rightarrow> Inl e
        | Inr is \<Rightarrow>
            (case find (\<lambda>i. headers ! i = source) [0..<length headers] of
               None \<Rightarrow> Inl (DbFailure ''syntax_error'' (''CSV column '' @ source @ '' was not found.'') None)
             | Some i \<Rightarrow> Inr (is @ [i]))) (Inr []) mappings"

definition csv_catch ::
  "'w import_port \<Rightarrow> nat \<Rightarrow> bool \<Rightarrow> time \<Rightarrow> import_error \<Rightarrow> 'w \<Rightarrow> import_summary \<Rightarrow> 'w \<times> (import_error + import_result)" where
  "csv_catch p fileSize destructive startedAt e w s =
     (let result = csvResult s fileSize (ip_now p w - startedAt) (e = AbortError) destructive in
      case ip_audit p (AuditFailed result) w of
        (w', Inl e') \<Rightarrow> (w', Inl e')
      | (w', Inr _) \<Rightarrow> (w', if e = AbortError then Inr result else Inl e))"

definition csv_header :: "csv_import_options \<Rightarrow> bool" where
  "csv_header opts = (case opt_header opts of None \<Rightarrow> True | Some h \<Rightarrow> h)"

definition csv_null :: "csv_import_options \<Rightarrow> string" where
  "csv_null opts = (case opt_nullLiteral opts of None \<Rightarrow> ''NULL'' | Some l \<Rightarrow> l)"

text \<open>The target columns and the rows to insert, from the records of the file.\<close>

definition csv_plan ::
  "csv_import_options \<Rightarrow> csv_record list \<Rightarrow> import_error + string list \<times> pending_row list" where
  "csv_plan opts records =
     (case records of
        [] \<Rightarrow> Inl (DbFailure ''syntax_error'' ''The CSV upload has no rows.'' None)
      | first # rest \<Rightarrow>
          let headers = (if csv_header opts then rvalues first else map show_nat [0..<length (rvalues first)]);
              mappings = (if opt_mapping opts \<noteq> [] then opt_mapping opts else map (\<lambda>h. (h, h)) headers)
          in case csv_indexes headers mappings of
               Inl e \<Rightarrow> Inl e
             | Inr indexes \<Rightarrow> Inr (map snd mappings, queued_rows (csv_header opts) indexes first rest))"

text \<open>The body of the \<open>try\<close> after the session is open, up to the result.\<close>

definition csv_session ::
  "'w import_port \<Rightarrow> (string \<Rightarrow> (int \<times> nat) option) \<Rightarrow> csv_import_options \<Rightarrow> bool \<Rightarrow> nat \<Rightarrow>
     csv_record list \<Rightarrow> 'w \<Rightarrow> 'w run" where
  "csv_session p number opts truncateFirst fileSize records w =
     (if \<not> ip_csv p
      then (w, empty_summary, Some (ServiceFailure IMPORT_UNSUPPORTED
             ''This database provider does not support CSV imports.'' 501))
      else case csv_plan opts records of
        Inl e \<Rightarrow> (w, empty_summary, Some e)
      | Inr (targets, queue) \<Rightarrow>
          (case ip_describe p w of
             (w1, Inl e) \<Rightarrow> (w1, empty_summary, Some e)
           | (w1, Inr description) \<Rightarrow>
               let target = \<lparr>tcolumns = targets,
                     tconvert = typed_row number (csv_null opts) (map (map_of description) targets)\<rparr>;
                   batchSize = (case opt_batchSize opts of None \<Rightarrow> DEFAULT_CSV_BATCH_SIZE | Some b \<Rightarrow> b)
               in runTransaction p (\<lambda>w s.
                    if truncateFirst
                    then (case ip_truncate p w of
                            (w', Inl e) \<Rightarrow> (w', s, Some e)
                          | (w', Inr _) \<Rightarrow> csv_rows p target fileSize batchSize queue [] w' s)
                    else csv_rows p target fileSize batchSize queue [] w s) w1 empty_summary))"

definition csv_settle ::
  "'w import_port \<Rightarrow> nat \<Rightarrow> bool \<Rightarrow> time \<Rightarrow> 'w run \<Rightarrow> 'w \<times> (import_error + import_result)" where
  "csv_settle p fileSize destructive startedAt run =
     (case run of
        (w, s, Some e) \<Rightarrow> csv_catch p fileSize destructive startedAt e w s
      | (w, s, None) \<Rightarrow>
          let result = csvResult s fileSize (ip_now p w - startedAt) False destructive in
          case ip_audit p (AuditCompleted result) w of
            (w', Inl e) \<Rightarrow> csv_catch p fileSize destructive startedAt e w' s
          | (w', Inr _) \<Rightarrow> (w', Inr result))"

definition executeCsv ::
  "'w import_port \<Rightarrow> (string \<Rightarrow> (int \<times> nat) option) \<Rightarrow> csv_import_options \<Rightarrow> bool \<Rightarrow> nat \<Rightarrow>
     (nat \<times> string) list \<Rightarrow> string \<Rightarrow> 'w \<Rightarrow> 'w \<times> (import_error + import_result)" where
  "executeCsv p number opts truncateFirst fileSize chunks rest w =
     (case ip_open p w of
        (w1, Inl e) \<Rightarrow> csv_settle p fileSize truncateFirst (ip_now p w) (w1, empty_summary, Some e)
      | (w1, Inr _) \<Rightarrow>
          let d = (case opt_delimiter opts of None \<Rightarrow> CHR '','' | Some d \<Rightarrow> d);
              (w', r) = csv_settle p fileSize truncateFirst (ip_now p w)
                (csv_session p number opts truncateFirst fileSize (csvRecords d chunks rest) w1)
          in (ip_close p w', r))"

end
