(* ===== verification/ImportProps.thy ===== *)
theory ImportProps
  imports ImportRun
begin

text \<open>
  What an import does to the database: the contract of a database session (\<open>import_session\<close>) and what
  the executors make of it. A SQL import in one transaction is all or nothing; statement by statement
  it stores a prefix of the upload and counts it; a CSV import stores exactly the rows it counts, if
  a failed insert leaves the transaction usable. A reference session instantiates the contract.
\<close>

section \<open>The contract of a session\<close>

text \<open>What an operation did, and the transaction of a session with what it did so far.\<close>

datatype db_entry = Statement string | Rows "csv_cell list list"

datatype session_tx = NoTx | InTx "db_entry list" | Broken

fun entries_of :: "session_tx \<Rightarrow> db_entry list" where
  "entries_of (InTx es) = es"
| "entries_of _ = []"

definition does :: "('w \<Rightarrow> db_entry list) \<Rightarrow> ('w \<Rightarrow> session_tx) \<Rightarrow> db_entry \<Rightarrow> 'w \<Rightarrow> 'w \<Rightarrow> bool" where
  "does stored tx e w w' \<longleftrightarrow>
     (case tx w of
        NoTx \<Rightarrow> stored w' = stored w @ [e] \<and> tx w' = NoTx
      | InTx es \<Rightarrow> stored w' = stored w \<and> tx w' = InTx (es @ [e])
      | Broken \<Rightarrow> False)"

definition fails :: "('w \<Rightarrow> db_entry list) \<Rightarrow> ('w \<Rightarrow> session_tx) \<Rightarrow> 'w \<Rightarrow> 'w \<Rightarrow> bool" where
  "fails stored tx w w' \<longleftrightarrow> stored w' = stored w \<and>
     (case tx w of NoTx \<Rightarrow> tx w' = NoTx | InTx es \<Rightarrow> tx w' = InTx es \<or> tx w' = Broken | Broken \<Rightarrow> tx w' = Broken)"

text \<open>
  A session stores what it does at once, or at the commit of a transaction; a failed operation does
  nothing, and may break the transaction (as in PostgreSQL), which then refuses everything and
  commits nothing. Only \<open>plain\<close> statements obey: one that ends the transaction itself does not.
\<close>

locale import_session =
  fixes p :: "'w import_port" and stored :: "'w \<Rightarrow> db_entry list" and tx :: "'w \<Rightarrow> session_tx"
    and plain :: "string \<Rightarrow> bool"
  assumes opened: "ip_open p w = (w', r) \<Longrightarrow> stored w' = stored w \<and> (r = Inr () \<longrightarrow> tx w' = NoTx)"
    and begun: "tx w = NoTx \<Longrightarrow> ip_begin p w = (w', Inr ()) \<Longrightarrow> stored w' = stored w \<and> tx w' = InTx []"
    and not_begun: "ip_begin p w = (w', Inl e) \<Longrightarrow> stored w' = stored w"
    and executed: "plain q \<Longrightarrow> ip_execute p q w = (w', Inr n) \<Longrightarrow> does stored tx (Statement q) w w'"
    and not_executed: "plain q \<Longrightarrow> ip_execute p q w = (w', Inl e) \<Longrightarrow> fails stored tx w w'"
    and inserted: "ip_insert p cs rs w = (w', Inr n) \<Longrightarrow> does stored tx (Rows rs) w w' \<and> (n = 0 \<or> n = length rs)"
    and not_inserted: "ip_insert p cs rs w = (w', Inl e) \<Longrightarrow> fails stored tx w w'"
    and committed: "ip_commit p w = (w', Inr ()) \<Longrightarrow>
      stored w' = stored w @ entries_of (tx w)"
    and not_committed: "ip_commit p w = (w', Inl e) \<Longrightarrow> stored w' = stored w"
    and rolled_back: "ip_rollback p w = (w', r') \<Longrightarrow> stored w' = stored w"
    and described: "ip_describe p w = (w', r'') \<Longrightarrow> stored w' = stored w \<and> tx w' = tx w"
    and audited: "ip_audit p a w = (w', r') \<Longrightarrow> stored w' = stored w"
    and closed: "stored (ip_close p w) = stored w"
begin

lemma records_in_tx:
  assumes "execute_records p n rs w s = (w', s', e)" "tx w = InTx es"
    and "\<forall>r \<in> set rs. plain (qsql (sstatement r))"
  shows "stored w' = stored w"
    and "e = None \<Longrightarrow> tx w' = InTx (es @ map (\<lambda>r. Statement (qsql (sstatement r))) rs) \<and>
      statementsSucceeded s' = statementsSucceeded s + length rs \<and> statementsFailed s' = statementsFailed s"
  using assms
proof (induction rs arbitrary: w s es)
  case (Cons r rs)
  case 1
  then show ?case
    using Cons.IH(1) executed [of "qsql (sstatement r)"] not_executed [of "qsql (sstatement r)"]
    by (fastforce simp: Let_def does_def fails_def split: if_splits prod.splits sum.splits)
next
  case (Cons r rs)
  case 2
  then show ?case
    using Cons.IH(2) executed [of "qsql (sstatement r)"]
    by (fastforce simp: Let_def does_def split: if_splits prod.splits sum.splits)
qed auto

end

context import_session begin

lemma records_direct:
  assumes "execute_records p n rs w s = (w', s', e)" "tx w = NoTx"
    and "\<forall>r \<in> set rs. plain (qsql (sstatement r))"
  shows "\<exists>k \<le> length rs. stored w' = stored w @ map (\<lambda>r. Statement (qsql (sstatement r))) (take k rs) \<and>
    statementsSucceeded s' = statementsSucceeded s + k \<and> (e = None \<longrightarrow> k = length rs)"
  using assms
proof (induction rs arbitrary: w s)
  case (Cons r rs)
  show ?case
  proof (cases "ip_aborted p w")
    case True
    then show ?thesis using Cons.prems by (intro exI [of _ 0]) auto
  next
    case False
    obtain w1 x where x: "ip_execute p (qsql (sstatement r)) w = (w1, x)"
      by (cases "ip_execute p (qsql (sstatement r)) w")
    show ?thesis
    proof (cases x)
      case (Inl a)
      then have "stored w1 = stored w"
        using not_executed [of "qsql (sstatement r)" w w1 a] x Cons.prems(2,3) by (simp add: fails_def)
      then show ?thesis using Cons.prems(1) False x Inl
        by (intro exI [of _ 0]) (auto simp: Let_def split: if_splits)
    next
      case (Inr m)
      then have d: "stored w1 = stored w @ [Statement (qsql (sstatement r))]" "tx w1 = NoTx"
        using executed [of "qsql (sstatement r)" w w1 m] x Cons.prems(2,3) by (simp_all add: does_def)
      from Cons.prems(1) False x Inr obtain s1 where run: "execute_records p n rs w1 s1 = (w', s', e)"
        and s1: "statementsSucceeded s1 = statementsSucceeded s + 1"
        by (auto simp: Let_def)
      obtain k where "k \<le> length rs" "stored w' = stored w1 @ map (\<lambda>r. Statement (qsql (sstatement r))) (take k rs)"
        "statementsSucceeded s' = statementsSucceeded s1 + k" "e = None \<longrightarrow> k = length rs"
        using Cons.IH [OF run d(2)] Cons.prems(3) by auto
      with d s1 show ?thesis by (intro exI [of _ "Suc k"]) auto
    qed
  qed
qed auto

text \<open>A transaction stores nothing, or all that its operation did.\<close>

lemma transaction_atomic:
  assumes run: "runTransaction p operation w s = (w', s', e)" and tx: "tx w = NoTx"
    and op: "\<And>w1 w2 s2 e2. tx w1 = InTx [] \<Longrightarrow> operation w1 s = (w2, s2, e2) \<Longrightarrow>
      stored w2 = stored w1 \<and> (e2 = None \<longrightarrow> Q s2 (tx w2))"
  shows "stored w' = stored w \<and> e \<noteq> None \<or> (\<exists>t. Q s' t \<and> stored w' = stored w @ entries_of t \<and> e = None)"
proof (cases "ip_begin p w")
  case (Pair w1 b)
  show ?thesis
  proof (cases b)
    case (Inl x)
    then show ?thesis using run Pair not_begun [of w w1 x] by (auto simp: runTransaction_def)
  next
    case (Inr u)
    then have w1: "stored w1 = stored w" "tx w1 = InTx []" using begun [OF tx, of w1] Pair by auto
    obtain w2 s2 e2 where o: "operation w1 s = (w2, s2, e2)" by (cases "operation w1 s")
    note O = op [OF w1(2) o]
    show ?thesis
    proof (cases e2)
      case (Some x)
      then show ?thesis
        using run Pair Inr o w1 O rolled_back [of w2] by (cases "ip_rollback p w2") (auto simp: runTransaction_def)
    next
      case None
      then have q: "Q s2 (tx w2)" using O by simp
      obtain w3 c where c: "ip_commit p w2 = (w3, c)" by (cases "ip_commit p w2")
      show ?thesis
      proof (cases c)
        case (Inl x)
        then show ?thesis
          using run Pair Inr o w1 O None c not_committed [of w2 w3 x] rolled_back [of w3]
          by (cases "ip_rollback p w3") (auto simp: runTransaction_def)
      next
        case (Inr v)
        have "stored w3 = stored w @ entries_of (tx w2)"
          using committed [of w2 w3] c Inr O w1 by (cases "tx w2") auto
        then show ?thesis using run Pair \<open>b = Inr u\<close> o None c Inr q by (auto simp: runTransaction_def)
      qed
    qed
  qed
qed

lemma sql_catch_stored:
  assumes "sql_catch p t0 e w s = (w', r)"
  shows "stored w' = stored w" "r = Inr res \<Longrightarrow> icancelled res"
    "r = Inr res \<Longrightarrow> statementsSucceeded (isummary res) = statementsSucceeded s"
  using assms audited by (auto simp: sql_catch_def Let_def sqlResult_def split: prod.splits sum.splits if_splits)

lemma sql_settle_stored:
  assumes "sql_settle p n t0 (w, s, e) = (w', r)"
  shows "stored w' = stored w" "r = Inr res \<Longrightarrow> e \<noteq> None \<Longrightarrow> icancelled res"
    "r = Inr res \<Longrightarrow> statementsSucceeded (isummary res) = statementsSucceeded s"
  using assms audited sql_catch_stored
  by (cases e; fastforce simp: sql_settle_def Let_def sqlResult_def split: prod.splits sum.splits if_splits)+

text \<open>A run stores what its statements stored, and counts them.\<close>

lemma sql_finish:
  assumes exec: "executeSql p mode n chunks rest w = (w', r)" and sql: "ip_sql p"
  obtains (no_session) "stored w' = stored w" "\<And>res. r = Inr res \<Longrightarrow>
      icancelled res \<and> statementsSucceeded (isummary res) = 0"
    | (run) w1 w2 s e where "stored w1 = stored w" "tx w1 = NoTx" "stored w' = stored w2"
      "(if sql_mode_of p mode = Single
        then runTransaction p (executeStatements p n (sqlRecords (ip_engine p) chunks rest)) w1 empty_summary
        else executeStatements p n (sqlRecords (ip_engine p) chunks rest) w1 empty_summary) = (w2, s, e)"
      "\<And>res. r = Inr res \<Longrightarrow> (e \<noteq> None \<longrightarrow> icancelled res) \<and>
        statementsSucceeded (isummary res) = statementsSucceeded s"
proof (cases "ip_open p w")
  case (Pair w1 o1)
  note O = opened [OF Pair]
  show thesis
  proof (cases o1)
    case (Inl e)
    then have "sql_settle p n (ip_now p w) (w1, empty_summary, Some e) = (w', r)"
      using exec Pair by (simp add: executeSql_def)
    from sql_settle_stored [OF this] O show thesis by (intro no_session) (auto simp: empty_summary_def)
  next
    case (Inr u)
    let ?run = "executeStatements p n (sqlRecords (ip_engine p) chunks rest)"
    obtain w2 s e where x: "(if sql_mode_of p mode = Single then runTransaction p ?run w1 empty_summary
        else ?run w1 empty_summary) = (w2, s, e)" by (metis prod_cases3)
    obtain w4 where w4: "sql_settle p n (ip_now p w) (w2, s, e) = (w4, r)" "w' = ip_close p w4"
      using exec Pair Inr sql x
      by (cases "sql_settle p n (ip_now p w) (w2, s, e)") (auto simp: executeSql_def Let_def)
    show thesis
      using O Inr x closed w4(2) sql_settle_stored [OF w4(1)] by (intro run [of w1 w2 s e]) auto
  qed
qed

end

abbreviation script :: "engine \<Rightarrow> (nat \<times> string) list \<Rightarrow> string \<Rightarrow> string list" where
  "script engine chunks rest \<equiv> map (qsql \<circ> sstatement) (sqlRecords engine chunks rest)"

context import_session begin

lemma statements_in_tx:
  assumes "tx w = InTx []" "executeStatements p n rs w empty_summary = (w', s', e)"
    "\<forall>r \<in> set rs. plain (qsql (sstatement r))"
  shows "stored w' = stored w \<and> (e = None \<longrightarrow>
     tx w' = InTx (map Statement (map (qsql \<circ> sstatement) rs)) \<and> statementsSucceeded s' = length rs)"
proof -
  obtain e' where "execute_records p n rs w empty_summary = (w', s', e')" "e = None \<longrightarrow> e' = None"
    using assms(2) by (auto simp: executeStatements_def split: prod.splits option.splits)
  then show ?thesis
    using records_in_tx [OF _ assms(1,3)] by (fastforce simp: empty_summary_def o_def)
qed

lemma sql_atomic:
  assumes exec: "executeSql p mode n chunks rest w = (w', r)" and sql: "ip_sql p" "sql_mode_of p mode = Single"
    and pl: "\<forall>q \<in> set (script (ip_engine p) chunks rest). plain q"
  defines "ss \<equiv> map Statement (script (ip_engine p) chunks rest)"
  shows "(stored w' = stored w \<or> stored w' = stored w @ ss) \<and>
    (\<forall>res. r = Inr res \<and> \<not> icancelled res \<longrightarrow>
       stored w' = stored w @ ss \<and> statementsSucceeded (isummary res) = length ss)"
  using exec sql(1)
proof (cases rule: sql_finish)
  case no_session
  then show ?thesis by auto
next
  case (run w1 w2 s e)
  let ?rs = "sqlRecords (ip_engine p) chunks rest"
  have "runTransaction p (executeStatements p n ?rs) w1 empty_summary = (w2, s, e)"
    using run(4) sql(2) by simp
  moreover define Q where "Q = (\<lambda>(s :: import_summary) t. t = InTx ss \<and> statementsSucceeded s = length ?rs)"
  have "stored w2 = stored w1 \<and> (e2 = None \<longrightarrow> Q s2 (tx w2))"
    if "tx w1 = InTx []" "executeStatements p n ?rs w1 empty_summary = (w2, s2, e2)" for w1 w2 s2 e2
    using statements_in_tx [OF that] pl by (simp add: Q_def ss_def)
  ultimately have "stored w2 = stored w1 \<and> e \<noteq> None \<or> (\<exists>t. Q s t \<and> stored w2 = stored w1 @ entries_of t \<and> e = None)"
    by (rule transaction_atomic [OF _ run(2)])
  then have "stored w2 = stored w1 \<and> e \<noteq> None \<or>
      stored w2 = stored w1 @ ss \<and> statementsSucceeded s = length ?rs \<and> e = None"
    by (auto simp: Q_def)
  with run(1,3,5) show ?thesis by (auto simp: ss_def)
qed

lemma sql_prefix:
  assumes exec: "executeSql p mode n chunks rest w = (w', r)" and sql: "ip_sql p" "sql_mode_of p mode = PerStatement"
    and pl: "\<forall>q \<in> set (script (ip_engine p) chunks rest). plain q"
  defines "ss \<equiv> map Statement (script (ip_engine p) chunks rest)"
  shows "\<exists>k \<le> length ss. stored w' = stored w @ take k ss \<and>
    (\<forall>res. r = Inr res \<longrightarrow> statementsSucceeded (isummary res) = k \<and> (icancelled res \<or> k = length ss))"
  using exec sql(1)
proof (cases rule: sql_finish)
  case no_session
  then show ?thesis by (intro exI [of _ 0]) auto
next
  case (run w1 w2 s e)
  let ?rs = "sqlRecords (ip_engine p) chunks rest"
  obtain e' where "execute_records p n ?rs w1 empty_summary = (w2, s, e')" "e = None \<longrightarrow> e' = None"
    using run(4) sql(2) by (auto simp: executeStatements_def split: prod.splits option.splits)
  from records_direct [OF this(1) run(2)] this(2) pl
  obtain k where "k \<le> length ?rs" "stored w2 = stored w1 @ map (\<lambda>r. Statement (qsql (sstatement r))) (take k ?rs)"
    "statementsSucceeded s = k" "e = None \<longrightarrow> k = length ?rs"
    by (auto simp: empty_summary_def)
  with run show ?thesis
    by (intro exI [of _ k]) (auto simp: ss_def take_map o_def)
qed

end

section \<open>CSV imports\<close>

text \<open>In some databases (MySQL) a failed insert leaves the transaction as it was.\<close>

locale tolerant_session = import_session +
  assumes tolerated: "ip_insert p cs rs w = (w', Inl e) \<Longrightarrow> tx w = InTx es \<Longrightarrow> tx w' = InTx es"

fun rows_of :: "db_entry list \<Rightarrow> csv_cell list list" where
  "rows_of [] = []"
| "rows_of (Rows rs # es) = rs @ rows_of es"
| "rows_of (Statement q # es) = rows_of es"

lemma rows_of_append [simp]: "rows_of (es @ fs) = rows_of es @ rows_of fs"
  by (induction es rule: rows_of.induct) simp_all

text \<open>
  From \<open>(w, s)\<close> to \<open>(w', s')\<close> the transaction took rows out of \<open>rs\<close>, in order, and counted them;
  without an error every row was counted, as taken or as failed.
\<close>

definition takes ::
  "('w \<Rightarrow> db_entry list) \<Rightarrow> ('w \<Rightarrow> session_tx) \<Rightarrow> csv_cell list list \<Rightarrow> 'w \<Rightarrow> import_summary \<Rightarrow> 'w run \<Rightarrow> bool" where
  "takes stored tx rs w s run \<longleftrightarrow>
     (case run of (w', s', e) \<Rightarrow> stored w' = stored w \<and> (\<forall>es. tx w = InTx es \<longrightarrow>
        (\<exists>fs. tx w' = InTx (es @ fs) \<and> subseq (rows_of fs) rs \<and>
          rowsSucceeded s' = rowsSucceeded s + length (rows_of fs) \<and>
          (e = None \<longrightarrow> rowsSucceeded s' + rowsFailed s' = rowsSucceeded s + rowsFailed s + length rs))))"

lemma takes_trans:
  assumes "takes stored tx rs w s (w1, s1, None)" "takes stored tx rs' w1 s1 (w2, s2, e)" "tx w = InTx es"
  shows "takes stored tx (rs @ rs') w s (w2, s2, e)"
proof -
  from assms(1,3) obtain fs where 1: "stored w1 = stored w" "tx w1 = InTx (es @ fs)" "subseq (rows_of fs) rs"
    "rowsSucceeded s1 = rowsSucceeded s + length (rows_of fs)"
    "rowsSucceeded s1 + rowsFailed s1 = rowsSucceeded s + rowsFailed s + length rs"
    by (auto simp: takes_def)
  from assms(2) 1(2) obtain gs where 2: "stored w2 = stored w1" "tx w2 = InTx ((es @ fs) @ gs)"
    "subseq (rows_of gs) rs'" "rowsSucceeded s2 = rowsSucceeded s1 + length (rows_of gs)"
    "e = None \<longrightarrow> rowsSucceeded s2 + rowsFailed s2 = rowsSucceeded s1 + rowsFailed s1 + length rs'"
    by (auto simp: takes_def)
  have "subseq (rows_of (fs @ gs)) (rs @ rs')" using 1(3) 2(3) by (simp add: list_emb_append_mono)
  with 1 2 assms(3) show ?thesis by (auto simp: takes_def intro!: exI [of _ "fs @ gs"])
qed

lemma takes_more:
  assumes "takes stored tx rs w s (w', s', Some x)"
  shows "takes stored tx (rs @ rr) w s (w', s', Some x)"
proof -
  have "subseq xs (rs @ rr)" if "subseq xs rs" for xs
    using list_emb_append_mono [OF that, of "[]" rr] by simp
  then show ?thesis using assms by (fastforce simp: takes_def)
qed

context tolerant_session begin

abbreviation "moves \<equiv> takes stored tx"

lemma moves_error: "moves rs w s (w, s, Some e)" "moves [] w s (w, s, None)"
  by (auto simp: takes_def intro!: exI [of _ "[]"])

lemma moves_insert:
  assumes "ip_insert p cs rs w = (w', Inr n)" "tx w = InTx es"
  shows "moves rs w s (w', s\<lparr>rowsSucceeded := rowsSucceeded s + length rs\<rparr>, None)" "n = 0 \<or> n = length rs"
  using inserted [OF assms(1)] assms(2) by (auto simp: takes_def does_def)

lemma moves_failed:
  assumes "ip_insert p cs rs w = (w', Inl e)" "tx w = InTx es"
  shows "moves [r] w s (w', s\<lparr>rowsFailed := rowsFailed s + 1, failedRows := fr\<rparr>, None)"
    "moves (r # rr) w s (w', s\<lparr>rowsFailed := rowsFailed s + 1, failedRows := fr\<rparr>, Some x)"
  using not_inserted [OF assms(1)] tolerated [OF assms] assms(2)
  by (auto simp: takes_def fails_def intro!: exI [of _ "[]"])

lemma moves_tx: "moves rs w s (w', s', e) \<Longrightarrow> tx w = InTx es \<Longrightarrow> \<exists>fs. tx w' = InTx fs"
  by (auto simp: takes_def)

lemma each_moves:
  "tx w = InTx es \<Longrightarrow> moves (map (\<lambda>r. tconvert t (pvalues r)) rs) w s (insert_each p t rs w s)"
proof (induction rs arbitrary: w s es)
  case Nil
  then show ?case by (simp add: moves_error)
next
  case (Cons r rs)
  let ?c = "\<lambda>r. tconvert t (pvalues r)"
  show ?case
  proof (cases "ip_aborted p w")
    case True
    then show ?thesis by (simp add: moves_error)
  next
    case False
    obtain w1 x where x: "ip_insert p (tcolumns t) [?c r] w = (w1, x)" by force
    have step: "moves (map ?c (r # rs)) w s (insert_each p t rs w1 s1)" if m: "moves [?c r] w s (w1, s1, None)" for s1
    proof -
      from moves_tx [OF m Cons.prems] obtain fs where "tx w1 = InTx fs" ..
      from Cons.IH [OF this, of s1] obtain w2 s2 e where
        "insert_each p t rs w1 s1 = (w2, s2, e)" "moves (map ?c rs) w1 s1 (w2, s2, e)"
        by (cases "insert_each p t rs w1 s1") auto
      with takes_trans [OF m _ Cons.prems] show ?thesis by fastforce
    qed
    show ?thesis
    proof (cases x)
      case (Inr n)
      note m = moves_insert [OF x [unfolded Inr] Cons.prems]
      have "(if n = 0 then 1 else n) = length [?c r]" using m(2) by auto
      then show ?thesis using step [OF m(1)] False x Inr by (simp only: insert_each.simps if_False prod.case sum.case)
    next
      case (Inl e)
      note f = moves_failed [OF x [unfolded Inl] Cons.prems]
      show ?thesis using False x Inl step [OF f(1)] f(2) by (simp add: Let_def)
    qed
  qed
qed

lemma moves_reported:
  "moves rs w s (w', s'\<lparr>reported := x\<rparr>, e) \<longleftrightarrow> moves rs w s (w', s', e)"
  by (simp add: takes_def)

lemma flush_moves:
  assumes "tx w = InTx es"
  shows "moves (map (\<lambda>r. tconvert t (pvalues r)) batch) w s (csv_flush p t n batch w s)"
proof (cases "batch = [] \<or> ip_aborted p w")
  case True
  then show ?thesis by (auto simp: csv_flush_def moves_error)
next
  case False
  let ?rs = "map (\<lambda>r. tconvert t (pvalues r)) batch"
  obtain w1 x where x: "ip_insert p (tcolumns t) ?rs w = (w1, x)" by force
  show ?thesis
  proof (cases x)
    case (Inr m)
    note m' = moves_insert [OF x [unfolded Inr] assms]
    have "(if m = 0 then length batch else m) = length ?rs" using m'(2) by auto
    then have "csv_flush p t n batch w s = (w1, s\<lparr>rowsSucceeded := rowsSucceeded s + length ?rs,
        reported := reported s @ [(min (pbytes (last batch)) n, n)]\<rparr>, None)"
      using False x Inr by (simp add: csv_flush_def Let_def split del: if_split)
    then show ?thesis using m'(1) [of s] moves_reported
      by (simp only: import_summary.select_convs import_summary.surjective)
  next
    case (Inl e)
    have w1: "tx w1 = InTx es" "stored w1 = stored w"
      using tolerated [OF x [unfolded Inl] assms] not_inserted [OF x [unfolded Inl]] by (simp_all add: fails_def)
    obtain w2 s2 e2 where y: "insert_each p t batch w1 s = (w2, s2, e2)" by (metis prod_cases3)
    have "moves ?rs w1 s (w2, s2, e2)" using each_moves [OF w1(1), of t batch s] y by simp
    then have "moves ?rs w s (w2, s2, e2)" using w1 assms by (simp add: takes_def)
    then show ?thesis using False x Inl y
      by (cases e2) (simp_all add: csv_flush_def Let_def moves_reported)
  qed
qed

lemma rows_move:
  "tx w = InTx es \<Longrightarrow>
     moves (map (\<lambda>r. tconvert t (pvalues r)) (pending @ rs)) w s (csv_rows p t n b rs pending w s)"
proof (induction rs arbitrary: pending w s es)
  case Nil
  show ?case using flush_moves [OF Nil, of t pending s n]
    by (auto simp: takes_def split: prod.split option.split)
next
  case (Cons r rs)
  show ?case
  proof (cases "length (pending @ [r]) \<ge> b")
    case False
    then show ?thesis using Cons.IH [OF Cons.prems, of "pending @ [r]" s] by (simp add: csv_push_def)
  next
    case True
    let ?c = "\<lambda>r. tconvert t (pvalues r)"
    obtain w1 s1 e where f: "csv_flush p t n (pending @ [r]) w s = (w1, s1, e)" by (metis prod_cases3)
    then have m: "moves (map ?c (pending @ [r])) w s (w1, s1, e)"
      using flush_moves [OF Cons.prems, of t "pending @ [r]" s n] by simp
    show ?thesis
    proof (cases e)
      case (Some x)
      have "moves (map ?c (pending @ r # rs)) w s (w1, s1, Some x)"
        using takes_more [OF m [unfolded Some], of "map ?c rs"] by simp
      then show ?thesis using True f Some by (simp add: csv_push_def Let_def)
    next
      case None
      from moves_tx [OF m Cons.prems] obtain fs where "tx w1 = InTx fs" ..
      moreover obtain w2 s2 e2 where r: "csv_rows p t n b rs [] w1 s1 = (w2, s2, e2)" by (metis prod_cases3)
      ultimately have "moves (map ?c rs) w1 s1 (w2, s2, e2)"
        using Cons.IH [of w1 fs "[]" s1] by simp
      from takes_trans [OF m [unfolded None] this Cons.prems]
      have "moves (map ?c (pending @ r # rs)) w s (w2, s2, e2)" by simp
      moreover have "csv_rows p t n b (r # rs) pending w s = (w2, s2, e2)"
        using True f None r by (simp add: csv_push_def Let_def)
      ultimately show ?thesis by simp
    qed
  qed
qed

end

context tolerant_session begin

lemma csv_catch_result:
  assumes "csv_catch p n b t0 e w s = (w', r)"
  shows "stored w' = stored w" "r = Inr res \<Longrightarrow> icancelled res"
  using assms audited by (auto simp: csv_catch_def Let_def csvResult_def split: prod.splits sum.splits if_splits)

lemma csv_settle_result:
  assumes "csv_settle p n b t0 (w, s, e) = (w', Inr res)" "\<not> icancelled res"
  shows "e = None" "stored w' = stored w" "isummary res = s"
  using assms audited csv_catch_result
  by (cases e; fastforce simp: csv_settle_def csvResult_def Let_def split: prod.splits sum.splits)+

lemma csv_success:
  assumes exec: "executeCsv p number opts False n chunks rest w = (w', Inr res)" and ok: "\<not> icancelled res"
  obtains targets queue types es where
    "csv_plan opts (csvRecords (case opt_delimiter opts of None \<Rightarrow> CHR '','' | Some d \<Rightarrow> d) chunks rest) = Inr (targets, queue)"
    "stored w' = stored w @ es"
    "subseq (rows_of es) (map (\<lambda>r. typed_row number (csv_null opts) types (pvalues r)) queue)"
    "rowsSucceeded (isummary res) = length (rows_of es)"
    "rowsSucceeded (isummary res) + rowsFailed (isummary res) = length queue"
proof -
  let ?recs = "csvRecords (case opt_delimiter opts of None \<Rightarrow> CHR '','' | Some d \<Rightarrow> d) chunks rest"
  obtain w1 o1 where op: "ip_open p w = (w1, o1)" by force
  obtain u where o1: "o1 = Inr u"
  proof (cases o1)
    case (Inl e)
    then show thesis using exec op csv_settle_result(1) [OF _ ok, of n False "ip_now p w" w1 empty_summary "Some e" w']
      by (simp add: executeCsv_def)
  qed auto
  have w1: "stored w1 = stored w" "tx w1 = NoTx" using opened [OF op] o1 by simp_all
  obtain w2 s e where run: "csv_session p number opts False n ?recs w1 = (w2, s, e)" by (metis prod_cases3)
  obtain w3 where settle: "csv_settle p n False (ip_now p w) (w2, s, e) = (w3, Inr res)" "w' = ip_close p w3"
    using exec op o1 run by (cases "csv_settle p n False (ip_now p w) (w2, s, e)") (auto simp: executeCsv_def Let_def)
  note S = csv_settle_result [OF settle(1) ok]
  obtain targets queue where plan: "csv_plan opts ?recs = Inr (targets, queue)"
    using run S(1) by (auto simp: csv_session_def split: if_splits sum.splits)
  obtain w1' d where de: "ip_describe p w1 = (w1', d)" by force
  obtain description where d: "d = Inr description"
    using run S(1) plan de by (auto simp: csv_session_def split: if_splits sum.splits)
  have w1': "stored w1' = stored w" "tx w1' = NoTx" using described [OF de] w1 by simp_all
  let ?types = "map (map_of description) targets"
  let ?t = "\<lparr>tcolumns = targets, tconvert = typed_row number (csv_null opts) ?types\<rparr>"
  let ?b = "case opt_batchSize opts of None \<Rightarrow> DEFAULT_CSV_BATCH_SIZE | Some b \<Rightarrow> b"
  let ?rows = "map (\<lambda>r. typed_row number (csv_null opts) ?types (pvalues r)) queue"
  have tr: "runTransaction p (\<lambda>w s. csv_rows p ?t n ?b queue [] w s) w1' empty_summary = (w2, s, None)"
    using run S(1) plan de d by (auto simp: csv_session_def Let_def split: if_splits)
  define Q where "Q = (\<lambda>(s :: import_summary) t. \<exists>es. t = InTx es \<and> subseq (rows_of es) ?rows \<and>
      rowsSucceeded s = length (rows_of es) \<and> rowsSucceeded s + rowsFailed s = length queue)"
  have "stored w3 = stored w2 \<and> (e3 = None \<longrightarrow> Q s3 (tx w3))"
    if "tx w2 = InTx []" "csv_rows p ?t n ?b queue [] w2 empty_summary = (w3, s3, e3)" for w2 w3 s3 e3
    using rows_move [OF that(1), of ?t "[]" queue empty_summary n ?b] that
    by (auto simp: takes_def Q_def empty_summary_def)
  from transaction_atomic [OF tr w1'(2), of Q, OF this]
  obtain es where "Q s (InTx es)" "stored w2 = stored w1' @ es" by (auto simp: Q_def)
  then show thesis
    using plan w1'(1) S settle(2) closed [of w3] by (intro that [of targets queue es ?types]) (auto simp: Q_def)
qed

end

section \<open>A reference session\<close>

text \<open>
  A session over a list of entries: it has a breaking or a tolerant transaction, entries that fail,
  and an operation before which the job is aborted.
\<close>

record sim_config =
  sc_engine :: engine
  sc_breaks :: bool
  sc_fails :: "db_entry \<Rightarrow> bool"
  sc_abortAt :: "nat option"

record sim_world =
  sw_stored :: "db_entry list"
  sw_tx :: session_tx
  sw_clock :: nat
  sw_audits :: "import_audit list"

definition sim_tick :: "sim_world \<Rightarrow> sim_world" where
  "sim_tick w = w\<lparr>sw_clock := sw_clock w + 1\<rparr>"

definition sim_do :: "sim_config \<Rightarrow> db_entry \<Rightarrow> nat \<Rightarrow> sim_world \<Rightarrow> sim_world \<times> (import_error + nat)" where
  "sim_do c e n w =
     (let err = Inl (DbFailure ''query'' ''rejected'' None) in
      case sw_tx w of
        Broken \<Rightarrow> (sim_tick w, err)
      | NoTx \<Rightarrow> if sc_fails c e then (sim_tick w, err)
                else (sim_tick (w\<lparr>sw_stored := sw_stored w @ [e]\<rparr>), Inr n)
      | InTx es \<Rightarrow> if sc_fails c e then (sim_tick (w\<lparr>sw_tx := (if sc_breaks c then Broken else InTx es)\<rparr>), err)
                   else (sim_tick (w\<lparr>sw_tx := InTx (es @ [e])\<rparr>), Inr n))"

definition sim_port :: "sim_config \<Rightarrow> sim_world import_port" where
  "sim_port c = \<lparr>ip_engine = sc_engine c, ip_sql = True, ip_csv = True,
     ip_open = (\<lambda>w. (sim_tick (w\<lparr>sw_tx := NoTx\<rparr>), Inr ())),
     ip_execute = (\<lambda>q. sim_do c (Statement q) 0),
     ip_insert = (\<lambda>cs rs. sim_do c (Rows rs) (length rs)),
     ip_truncate = (\<lambda>w. (sim_tick w, Inl (OtherFailure ''not simulated''))),
     ip_begin = (\<lambda>w. (sim_tick (w\<lparr>sw_tx := InTx []\<rparr>), Inr ())),
     ip_commit = (\<lambda>w. (sim_tick (w\<lparr>sw_stored := sw_stored w @ entries_of (sw_tx w), sw_tx := NoTx\<rparr>), Inr ())),
     ip_rollback = (\<lambda>w. (sim_tick (w\<lparr>sw_tx := NoTx\<rparr>), Inr ())),
     ip_describe = (\<lambda>w. (sim_tick w, Inr [])),
     ip_close = sim_tick,
     ip_audit = (\<lambda>a w. (sim_tick (w\<lparr>sw_audits := sw_audits w @ [a]\<rparr>), Inr ())),
     ip_aborted = (\<lambda>w. case sc_abortAt c of None \<Rightarrow> False | Some k \<Rightarrow> k \<le> sw_clock w),
     ip_now = (\<lambda>w. int (sw_clock w))\<rparr>"

definition sim_start :: sim_world where
  "sim_start = \<lparr>sw_stored = [], sw_tx = NoTx, sw_clock = 0, sw_audits = []\<rparr>"

interpretation sim: import_session "sim_port c" sw_stored sw_tx "\<lambda>q. True"
  by unfold_locales
    (auto simp: sim_port_def sim_tick_def sim_do_def does_def fails_def Let_def
      split: session_tx.splits if_splits)

interpretation sim_tolerant: tolerant_session "sim_port (c\<lparr>sc_breaks := False\<rparr>)" sw_stored sw_tx "\<lambda>q. True"
  by unfold_locales
    (auto simp: sim_port_def sim_tick_def sim_do_def Let_def split: session_tx.splits if_splits)

section \<open>Properties\<close>

text \<open>
  Claim C4: a SQL import in one transaction is all or nothing: the database holds afterwards what it
  held before, or additionally all statements of the upload in their order. When the import returns
  a result that is not cancelled, it is all of them, and the result counts them all.
\<close>

theorem single_transaction_import_is_atomic:
  assumes "import_session p stored tx plain" "ip_sql p" "sql_mode_of p mode = Single"
    and "\<forall>q \<in> set (script (ip_engine p) chunks rest). plain q"
    and "executeSql p mode n chunks rest w = (w', r)"
  shows "(stored w' = stored w \<or> stored w' = stored w @ map Statement (script (ip_engine p) chunks rest)) \<and>
    (\<forall>res. r = Inr res \<and> \<not> icancelled res \<longrightarrow>
       stored w' = stored w @ map Statement (script (ip_engine p) chunks rest) \<and>
       statementsSucceeded (isummary res) = length (script (ip_engine p) chunks rest))"
  using import_session.sql_atomic [OF assms(1,5,2,3,4)] unfolding length_map by blast

definition pg_session :: sim_config where
  "pg_session = \<lparr>sc_engine = Postgresql, sc_breaks = True, sc_fails = (\<lambda>e. e = Statement ''bad''), sc_abortAt = None\<rparr>"

theorem single_transaction_import_is_atomic_witness:
  "let (w', r) = executeSql (sim_port pg_session) None 9 [(9, ''a;bad;b;c'')] [] sim_start in
     sw_stored w' = [] \<or> sw_stored w' = map Statement [''a'', ''bad'', ''b'', ''c'']"
proof -
  obtain w' r where e: "executeSql (sim_port pg_session) None 9 [(9, ''a;bad;b;c'')] [] sim_start = (w', r)"
    by (metis prod.exhaust)
  have s: "script (ip_engine (sim_port pg_session)) [(9, ''a;bad;b;c'')] [] = [''a'', ''bad'', ''b'', ''c'']"
    "ip_sql (sim_port pg_session)" "sql_mode_of (sim_port pg_session) None = Single"
    "sw_stored sim_start = []"
    by code_simp+
  show ?thesis
    using single_transaction_import_is_atomic [OF sim.import_session_axioms s(2,3) _ e] by (simp add: e s)
qed

text \<open>
  A SQL import statement by statement stores a prefix of the upload, in order and nothing
  else; a returned result counts exactly the statements that were stored, and is cancelled unless
  that is the whole upload.
\<close>

theorem statement_import_stores_prefix:
  assumes "import_session p stored tx plain" "ip_sql p" "sql_mode_of p mode = PerStatement"
    and "\<forall>q \<in> set (script (ip_engine p) chunks rest). plain q"
    and "executeSql p mode n chunks rest w = (w', r)"
  shows "\<exists>k \<le> length (script (ip_engine p) chunks rest).
    stored w' = stored w @ take k (map Statement (script (ip_engine p) chunks rest)) \<and>
    (\<forall>res. r = Inr res \<longrightarrow> statementsSucceeded (isummary res) = k \<and>
       (icancelled res \<or> k = length (script (ip_engine p) chunks rest)))"
  using import_session.sql_prefix [OF assms(1,5,2,3,4)] unfolding length_map by blast

theorem statement_import_stores_prefix_witness:
  "\<exists>k \<le> 4. sw_stored (fst (executeSql (sim_port pg_session) (Some PerStatement) 9 [(9, ''a;bad;b;c'')] [] sim_start)) =
     take k (map Statement [''a'', ''bad'', ''b'', ''c''])"
proof -
  obtain w' r where e: "executeSql (sim_port pg_session) (Some PerStatement) 9 [(9, ''a;bad;b;c'')] [] sim_start = (w', r)"
    by (metis prod.exhaust)
  have s: "script (ip_engine (sim_port pg_session)) [(9, ''a;bad;b;c'')] [] = [''a'', ''bad'', ''b'', ''c'']"
    "ip_sql (sim_port pg_session)" "sql_mode_of (sim_port pg_session) (Some PerStatement) = PerStatement"
    "sw_stored sim_start = []"
    by code_simp+
  obtain k where "k \<le> length [''a'', ''bad'', ''b'', ''c'']"
    "sw_stored w' = sw_stored sim_start @ take k (map Statement [''a'', ''bad'', ''b'', ''c''])"
    using statement_import_stores_prefix [OF sim.import_session_axioms s(2,3) _ e] unfolding s(1) by blast
  then show ?thesis by (intro exI [of _ k]) (simp add: e s(4))
qed

text \<open>
  A job that is aborted while its transaction commits reports a cancelled import although
  every statement is stored, and writes no audit entry of how it ended.
\<close>

theorem committed_import_reported_cancelled:
  "let (w', r) = executeSql (sim_port (pg_session\<lparr>sc_abortAt := Some 5\<rparr>)) None 3 [(3, ''a;b'')] [] sim_start in
     sw_stored w' = map Statement [''a'', ''b''] \<and> sw_audits w' = [] \<and>
     (case r of Inr res \<Rightarrow> icancelled res \<and> ipartial res | Inl _ \<Rightarrow> False)"
  by code_simp

text \<open>
  Claim C39: where a failed insert leaves the transaction usable, a finished CSV import stored exactly
  the rows it counts as succeeded: they are rows of the file, converted, in the order of the file,
  and every row of the file was counted once, as succeeded or as failed.
\<close>

theorem csv_import_stores_what_it_counts:
  assumes "tolerant_session p stored tx plain"
    and "executeCsv p number opts False n chunks rest w = (w', Inr res)" "\<not> icancelled res"
  shows "\<exists>targets queue types es.
    csv_plan opts (csvRecords (case opt_delimiter opts of None \<Rightarrow> CHR '','' | Some d \<Rightarrow> d) chunks rest) = Inr (targets, queue) \<and>
    stored w' = stored w @ es \<and>
    subseq (rows_of es) (map (\<lambda>r. typed_row number (csv_null opts) types (pvalues r)) queue) \<and>
    rowsSucceeded (isummary res) = length (rows_of es) \<and>
    rowsSucceeded (isummary res) + rowsFailed (isummary res) = length queue"
  using tolerant_session.csv_success [OF assms] by metis

definition csv_options :: "nat \<Rightarrow> csv_import_options" where
  "csv_options b = \<lparr>opt_delimiter = None, opt_header = Some True, opt_mapping = [], opt_nullLiteral = None,
     opt_batchSize = Some b\<rparr>"

text \<open>A session that rejects every insert with the row \<open>bad\<close> in it.\<close>

definition row_session :: "engine \<Rightarrow> bool \<Rightarrow> sim_config" where
  "row_session engine breaks = \<lparr>sc_engine = engine, sc_breaks = breaks,
     sc_fails = (\<lambda>e. case e of Rows rs \<Rightarrow> [CellText ''bad''] \<in> set rs | _ \<Rightarrow> False), sc_abortAt = None\<rparr>"

definition csv_file :: string where
  "csv_file = ''h'' @ [newline] @ ''x'' @ [newline] @ ''y'' @ [newline] @ ''bad'' @ [newline] @ ''z''"

theorem csv_import_stores_what_it_counts_witness:
  "\<exists>w' res. executeCsv (sim_port (row_session Mysql False)) (\<lambda>_. None) (csv_options 2) False 11 [(11, csv_file)] [] sim_start
     = (w', Inr res) \<and> rowsSucceeded (isummary res) = 3 \<and> rowsFailed (isummary res) = 1 \<and>
     (\<exists>es. sw_stored w' = es \<and> length (rows_of es) = 3)"
proof -
  let ?run = "executeCsv (sim_port (row_session Mysql False)) (\<lambda>_. None) (csv_options 2) False 11 [(11, csv_file)] [] sim_start"
  have "(case ?run of (w', Inr res) \<Rightarrow> \<not> icancelled res \<and> rowsSucceeded (isummary res) = 3 \<and> rowsFailed (isummary res) = 1
     | _ \<Rightarrow> False)" by code_simp
  then obtain w' res where e: "?run = (w', Inr res)" and c: "\<not> icancelled res" "rowsSucceeded (isummary res) = 3"
    "rowsFailed (isummary res) = 1" by (auto split: prod.splits sum.splits)
  have "tolerant_session (sim_port (row_session Mysql False)) sw_stored sw_tx (\<lambda>q. True)"
    using sim_tolerant.tolerant_session_axioms [of "row_session Mysql False"] by (simp add: row_session_def)
  from csv_import_stores_what_it_counts [OF this e c(1)] c e show ?thesis
    by (auto simp: sim_start_def)
qed

text \<open>
  Where a failed insert breaks the transaction, as in PostgreSQL, a CSV import that
  finishes can report rows that are not stored: the batch before the failed one is counted as
  succeeded, each retry fails with the broken transaction, and the commit of it stores nothing.
\<close>

theorem csv_import_reports_lost_rows:
  "let (w', r) = executeCsv (sim_port (row_session Postgresql True)) (\<lambda>_. None) (csv_options 2) False 11
         [(11, csv_file)] [] sim_start in
     sw_stored w' = [] \<and>
     (case r of Inr res \<Rightarrow> \<not> icancelled res \<and> rowsSucceeded (isummary res) = 2 \<and> rowsFailed (isummary res) = 2
      | Inl _ \<Rightarrow> False)"
  by code_simp

text \<open>
  Without a header the second record of a CSV file gets the number 1 of the first: the
  rows of the file are numbered 1, 1, 2, 3 and so on in the errors of an import.
\<close>

theorem headerless_rows_misnumbered:
  "map prow (queued_rows False indexes first rest) = 1 # [1..<1 + length rest]"
  by (simp add: queued_rows_def Let_def enumerate_eq_zip comp_def case_prod_unfold)

end
