(* ===== verification/Uploads.thy ===== *)
theory Uploads
  imports ImportRun
begin

text \<open>
  The store of import uploads, \<open>ImportUploadStore\<close> of \<open>packages/import/src/index.ts\<close>: an upload is a
  data file and a manifest in one directory, kept for an hour. The directory is a map from file names
  to contents; the clock, the normalization of Unicode (\<open>NFKC\<close>) and the chunks of the request are
  arguments. The results: an upload is found by its owner only and until it expires, a failed upload
  leaves no files of its id, and no stored upload is over the limit.
\<close>

section \<open>File names and types\<close>

definition IMPORT_UPLOAD_RETENTION_MS :: int where "IMPORT_UPLOAD_RETENTION_MS = 60 * 60 * 1000"

fun formatFor :: "string \<Rightarrow> import_format option" where
  "formatFor fileName =
     (let extension = last (js_split (CHR ''.'') (js_lower fileName)) in
      if extension = ''sql'' then Some SqlFormat else if extension = ''csv'' then Some CsvFormat else None)"

definition contentTypeAllowed :: "import_format \<Rightarrow> string option \<Rightarrow> bool" where
  "contentTypeAllowed f v =
     (case v of
        None \<Rightarrow> False
      | Some v \<Rightarrow>
          if v = [] then False
          else
            let type = js_lower (js_trim (hd (js_split (CHR '';'') v))) in
            if type = ''application/octet-stream'' then True
            else if f = CsvFormat then type = ''text/csv'' \<or> type = ''application/csv''
            else type = ''application/sql'' \<or> type = ''text/sql'' \<or> type = ''application/x-sql'')"

definition ascii_alnum :: "char \<Rightarrow> bool" where
  "ascii_alnum c \<longleftrightarrow> ascii_lower_or_digit c \<or> ascii_upper_letter c"

text \<open>\<open>/^[A-Za-z0-9][A-Za-z0-9-]{0,127}$/\<close>.\<close>

definition safeUploadId :: "string \<Rightarrow> bool" where
  "safeUploadId v =
     (case v of [] \<Rightarrow> False
      | c # r \<Rightarrow> ascii_alnum c \<and> length r \<le> 127 \<and> list_all (\<lambda>c. ascii_alnum c \<or> c = CHR ''-'') r)"

text \<open>\<open>basename\<close>: the last part of a path, without trailing slashes.\<close>

definition basename :: "string \<Rightarrow> string" where
  "basename path = last (js_split (CHR ''/'') (rev (dropWhile (\<lambda>c. c = CHR ''/'') (rev path))))"

definition normalizedFileName :: "(string \<Rightarrow> string) \<Rightarrow> string \<Rightarrow> string" where
  "normalizedFileName nfkc v =
     (let name = js_trim (nfkc (basename v)) in if name \<noteq> [] \<and> length name \<le> 255 then name else [])"

section \<open>The directory\<close>

record upload_manifest =
  uploadId :: string
  fileName :: string
  uformat :: import_format
  uowner :: string
  sizeBytes :: nat
  ucreated :: time
  uexpires :: time

text \<open>A file holds bytes, a manifest, or something that is not one.\<close>

datatype upload_file = FBytes nat | FManifest upload_manifest | FOther

type_synonym upload_dir = "(string, upload_file) jsmap"

abbreviation partial_of :: "string \<Rightarrow> string" where "partial_of i \<equiv> i @ ''.partial''"
abbreviation data_of :: "string \<Rightarrow> string" where "data_of i \<equiv> i @ ''.data''"
abbreviation manifest_of :: "string \<Rightarrow> string" where "manifest_of i \<equiv> i @ ''.json''"

definition rm_upload :: "string \<Rightarrow> upload_dir \<Rightarrow> upload_dir" where
  "rm_upload i fs = js_delete (js_delete (js_delete fs (partial_of i)) (data_of i)) (manifest_of i)"

definition upload_remove :: "string \<Rightarrow> upload_dir \<Rightarrow> upload_dir" where
  "upload_remove i fs = (if safeUploadId i then rm_upload i fs else fs)"

definition manifest :: "string \<Rightarrow> upload_dir \<Rightarrow> upload_manifest option" where
  "manifest i fs = (case map_of fs (manifest_of i) of Some (FManifest m) \<Rightarrow> Some m | _ \<Rightarrow> None)"

definition uploadNotFound :: import_error where
  "uploadNotFound = ServiceFailure IMPORT_UPLOAD_NOT_FOUND ''The import upload was not found.'' 404"

section \<open>Saving\<close>

text \<open>
  The bytes of the request, chunk by chunk: a chunk that is not binary data (\<open>None\<close>) or one that
  takes the sum over the limit stops the upload.
\<close>

fun receive :: "nat \<Rightarrow> nat option list \<Rightarrow> nat \<Rightarrow> import_error + nat" where
  "receive maxBytes [] n = Inr n"
| "receive maxBytes (None # cs) n =
     Inl (ServiceFailure IMPORT_UPLOAD_INVALID ''The upload stream is invalid.'' 422)"
| "receive maxBytes (Some k # cs) n =
     (if n + k > maxBytes
      then Inl (ServiceFailure IMPORT_UPLOAD_TOO_LARGE
             (''The upload exceeds the '' @ show_nat maxBytes @ '' byte limit.'') 413)
      else receive maxBytes cs (n + k))"

text \<open>
  \<open>save\<close>: with the file that \<open>wx\<close> creates already there it fails, and like every failure from there
  on it removes the files of the id.
\<close>

definition upload_save ::
  "(string \<Rightarrow> string) \<Rightarrow> time \<Rightarrow> string \<Rightarrow> string \<Rightarrow> string option \<Rightarrow> nat option list \<Rightarrow> nat \<Rightarrow> string \<Rightarrow>
     upload_dir \<Rightarrow> upload_dir \<times> (import_error + upload_manifest)" where
  "upload_save nfkc now owner rawName contentType chunks maxBytes i fs =
     (if maxBytes < 1
      then (fs, Inl (ServiceFailure IMPORT_UPLOAD_INVALID ''The upload limit is invalid.'' 500))
      else
        let name = normalizedFileName nfkc rawName in
        case formatFor name of
          None \<Rightarrow> (fs, Inl (ServiceFailure IMPORT_UPLOAD_INVALID
                    ''Only SQL and CSV uploads with a matching content type are accepted.'' 422))
        | Some f \<Rightarrow>
            if \<not> contentTypeAllowed f contentType
            then (fs, Inl (ServiceFailure IMPORT_UPLOAD_INVALID
                    ''Only SQL and CSV uploads with a matching content type are accepted.'' 422))
            else if \<not> safeUploadId i
            then (fs, Inl (ServiceFailure IMPORT_UPLOAD_INVALID ''The upload id is invalid.'' 500))
            else if map_of fs (partial_of i) \<noteq> None
            then (rm_upload i fs, Inl (OtherFailure ''EEXIST''))
            else case receive maxBytes chunks 0 of
              Inl e \<Rightarrow> (rm_upload i fs, Inl e)
            | Inr n \<Rightarrow>
                if n < 1
                then (rm_upload i fs, Inl (ServiceFailure IMPORT_UPLOAD_INVALID ''The upload is empty.'' 422))
                else if map_of fs (manifest_of i) \<noteq> None
                then (rm_upload i fs, Inl (OtherFailure ''EEXIST''))
                else
                  let m = \<lparr>uploadId = i, fileName = name, uformat = f, uowner = owner, sizeBytes = n,
                           ucreated = now, uexpires = now + IMPORT_UPLOAD_RETENTION_MS\<rparr>
                  in (js_set (js_set fs (data_of i) (FBytes n)) (manifest_of i) (FManifest m), Inr m))"

section \<open>Reading and cleaning up\<close>

definition upload_get :: "time \<Rightarrow> string \<Rightarrow> string \<Rightarrow> upload_dir \<Rightarrow> upload_dir \<times> (import_error + upload_manifest)" where
  "upload_get now owner i fs =
     (if \<not> safeUploadId i then (fs, Inl uploadNotFound)
      else case manifest i fs of
        None \<Rightarrow> (fs, Inl uploadNotFound)
      | Some m \<Rightarrow>
          if uowner m \<noteq> owner then (fs, Inl uploadNotFound)
          else if uexpires m \<le> now
          then (upload_remove i fs, Inl (ServiceFailure IMPORT_UPLOAD_EXPIRED ''The import upload has expired.'' 410))
          else case map_of fs (data_of i) of
            Some (FBytes n) \<Rightarrow> if n \<noteq> sizeBytes m then (fs, Inl uploadNotFound) else (fs, Inr m)
          | _ \<Rightarrow> (fs, Inl uploadNotFound))"

text \<open>\<open>entry.endsWith('.json')\<close> and \<open>entry.slice(0, -5)\<close>.\<close>

definition json_id :: "string \<Rightarrow> string option" where
  "json_id entry =
     (if 5 \<le> length entry \<and> drop (length entry - 5) entry = ''.json'' then Some (take (length entry - 5) entry)
      else None)"

definition upload_cleanup :: "time \<Rightarrow> upload_dir \<Rightarrow> upload_dir \<times> nat" where
  "upload_cleanup now fs =
     foldl (\<lambda>(fs, removed) entry.
        case json_id entry of
          None \<Rightarrow> (fs, removed)
        | Some i \<Rightarrow>
            (case manifest i fs of
               None \<Rightarrow> (upload_remove i fs, removed + 1)
             | Some m \<Rightarrow> if uexpires m \<le> now then (upload_remove i fs, removed + 1) else (fs, removed)))
       (fs, 0) (js_keys fs)"

section \<open>Properties\<close>

lemma upload_names [simp]:
  "data_of i \<noteq> manifest_of j" "manifest_of i \<noteq> data_of j" "data_of i = data_of j \<longleftrightarrow> i = j"
  "manifest_of i = manifest_of j \<longleftrightarrow> i = j"
  "partial_of i \<noteq> manifest_of j" "partial_of i \<noteq> data_of j" "manifest_of i \<noteq> partial_of j" "data_of i \<noteq> partial_of j"
proof -
  have "last (data_of i) \<noteq> last (manifest_of j)" "last (partial_of i) \<noteq> last (manifest_of j)" for i j by simp_all
  then show "data_of i \<noteq> manifest_of j" "manifest_of i \<noteq> data_of j" "partial_of i \<noteq> manifest_of j"
    "manifest_of i \<noteq> partial_of j" by metis+
  have "rev (partial_of i) \<noteq> rev (data_of j)" for i j by simp
  then show "partial_of i \<noteq> data_of j" "data_of i \<noteq> partial_of j" by metis+
qed simp_all

lemma receive_bound:
  "receive maxBytes cs n = Inr k \<Longrightarrow> n \<le> maxBytes \<Longrightarrow> k \<le> maxBytes \<and> k = n + sum_list (map the cs)"
  by (induction maxBytes cs n rule: receive.induct) (auto split: if_splits)

lemma manifest_rm [simp]: "manifest j (rm_upload i fs) = (if j = i then None else manifest j fs)"
  by (auto simp: manifest_def rm_upload_def)

lemma data_rm [simp]: "map_of (rm_upload i fs) (data_of j) = (if j = i then None else map_of fs (data_of j))"
  by (auto simp: rm_upload_def)

lemma upload_saved:
  assumes "upload_save nfkc now owner rawName contentType chunks maxBytes i fs = (fs', Inr m)"
  shows "safeUploadId i" "uploadId m = i" "uowner m = owner" "uexpires m = now + IMPORT_UPLOAD_RETENTION_MS"
    "1 \<le> sizeBytes m" "sizeBytes m \<le> maxBytes" "sizeBytes m = sum_list (map the chunks)"
    "fs' = js_set (js_set fs (data_of i) (FBytes (sizeBytes m))) (manifest_of i) (FManifest m)"
proof -
  from assms obtain n where n: "receive maxBytes chunks 0 = Inr n" "\<not> n < 1" "\<not> maxBytes < 1"
    "sizeBytes m = n" "safeUploadId i" "uploadId m = i" "uowner m = owner"
    "uexpires m = now + IMPORT_UPLOAD_RETENTION_MS"
    "fs' = js_set (js_set fs (data_of i) (FBytes (sizeBytes m))) (manifest_of i) (FManifest m)"
    by (auto simp: upload_save_def Let_def split: if_splits option.splits sum.splits)
  from n(4-9) show "safeUploadId i" "uploadId m = i" "uowner m = owner"
    "uexpires m = now + IMPORT_UPLOAD_RETENTION_MS"
    "fs' = js_set (js_set fs (data_of i) (FBytes (sizeBytes m))) (manifest_of i) (FManifest m)" by simp_all
  show "1 \<le> sizeBytes m" "sizeBytes m \<le> maxBytes" "sizeBytes m = sum_list (map the chunks)"
    using receive_bound [OF n(1)] n(2,4) by linarith+
qed

text \<open>
  An upload that was saved is within the limit and can be read back, with its size and
  format, by its owner and nobody else, until it expires an hour later; then reading it removes it.
  The files of other uploads stay as they are.
\<close>

theorem saved_upload_readable:
  assumes "upload_save nfkc now owner rawName contentType chunks maxBytes i fs = (fs', Inr m)"
  shows "1 \<le> sizeBytes m \<and> sizeBytes m \<le> maxBytes \<and> sizeBytes m = sum_list (map the chunks) \<and>
    upload_get t reader i fs' =
      (if reader \<noteq> owner then (fs', Inl uploadNotFound)
       else if now + IMPORT_UPLOAD_RETENTION_MS \<le> t
       then (rm_upload i fs', Inl (ServiceFailure IMPORT_UPLOAD_EXPIRED ''The import upload has expired.'' 410))
       else (fs', Inr m)) \<and>
    (\<forall>j. j \<noteq> i \<longrightarrow> manifest j fs' = manifest j fs \<and> map_of fs' (data_of j) = map_of fs (data_of j))"
proof -
  note S = upload_saved [OF assms]
  have "manifest i fs' = Some m" "map_of fs' (data_of i) = Some (FBytes (sizeBytes m))"
    by (simp_all add: S(8) manifest_def)
  moreover have "manifest j fs' = manifest j fs \<and> map_of fs' (data_of j) = map_of fs (data_of j)" if "j \<noteq> i" for j
    using that by (simp add: S(8) manifest_def)
  ultimately show ?thesis
    using S(1-7) by (auto simp: upload_get_def upload_remove_def)
qed

definition sample_save :: "upload_dir \<times> (import_error + upload_manifest)" where
  "sample_save = upload_save (\<lambda>s. s) 1000 ''ann'' ''/tmp/Data.CSV'' (Some ''text/csv; charset=utf-8'')
     [Some 3, Some 4] 10 ''u-1'' [(''old.json'', FOther)]"

theorem saved_upload_readable_witness:
  "\<exists>fs m. sample_save = (fs, Inr m) \<and> sizeBytes m = 7 \<and>
     upload_get 2000 ''ann'' ''u-1'' fs = (fs, Inr m) \<and>
     upload_get 2000 ''bob'' ''u-1'' fs = (fs, Inl uploadNotFound)"
proof -
  have "(case snd sample_save of Inr m \<Rightarrow> sizeBytes m = 7 | Inl _ \<Rightarrow> False)" by code_simp
  then obtain m where m: "snd sample_save = Inr m" "sizeBytes m = 7" by (auto split: sum.splits)
  define fs where "fs = fst sample_save"
  with m have e: "sample_save = (fs, Inr m)" "sizeBytes m = 7" by (simp_all add: prod_eq_iff)
  note S = saved_upload_readable [OF e(1) [unfolded sample_save_def], of 2000]
  from S [of "''ann''"] S [of "''bob''"] e show ?thesis
    by (intro exI [of _ fs] exI [of _ m]) (simp add: IMPORT_UPLOAD_RETENTION_MS_def)
qed

text \<open>An upload that fails after its id was accepted leaves no file of that id that counts.\<close>

lemma failed_upload_leaves_nothing:
  assumes "upload_save nfkc now owner rawName contentType chunks maxBytes i fs = (fs', Inl e)"
  shows "fs' = fs \<or> manifest i fs' = None \<and> map_of fs' (data_of i) = None"
  using assms by (auto simp: upload_save_def Let_def split: if_splits option.splits sum.splits)

end
