(* ===== verification/Imports.thy ===== *)
theory Imports
  imports Dialect ImportProps Uploads Jobs
begin

text \<open>
  The operations of the import service (\<open>ImportService\<close> of \<open>packages/import/src/index.ts\<close>): validation of
  the requests, the limit on active jobs, creating an import job from an upload, and the preview. The
  executors that the jobs run are in \<open>ImportRun\<close>.
\<close>

section \<open>Validation\<close>

record import_sql_input =
  si_connectionId :: string
  si_database :: string
  si_uploadId :: string
  si_mode :: "transaction_mode option"

record import_csv_input =
  ci_connectionId :: string
  ci_table :: object_ref
  ci_uploadId :: string
  ci_options :: csv_import_options
  ci_truncateFirst :: bool
  ci_confirmName :: "string option"

definition import_invalid :: "string \<Rightarrow> import_error" where
  "import_invalid m = ServiceFailure IMPORT_VALIDATION_FAILED m 422"

definition assertConnectionId :: "string \<Rightarrow> import_error + unit" where
  "assertConnectionId v = (if js_trim v = [] then Inl (import_invalid ''A connection is required.'') else Inr ())"

definition assertDatabase :: "string \<Rightarrow> import_error + unit" where
  "assertDatabase v = (if js_trim v = [] then Inl (import_invalid ''A database is required.'') else Inr ())"

text \<open>The header option and the mode have their types.\<close>

definition normalizeCsv :: "import_csv_input \<Rightarrow> import_error + import_csv_input" where
  "normalizeCsv i =
     and_then (assertConnectionId (ci_connectionId i)) (\<lambda>_.
       let t = ci_table i; opts = ci_options i;
           batchSize = (case opt_batchSize opts of None \<Rightarrow> DEFAULT_CSV_BATCH_SIZE | Some b \<Rightarrow> b) in
       if ref_type t \<noteq> ''table'' \<or> ref_name t = [] \<or> ref_database t = []
       then Inl (import_invalid ''A table target is required.'')
       else if batchSize < 1 \<or> batchSize > MAX_CSV_BATCH_SIZE
       then Inl (import_invalid ''The CSV batch size is invalid.'')
       else if (case opt_delimiter opts of None \<Rightarrow> False
                | Some d \<Rightarrow> d \<notin> set [CHR '','', CHR '';'', CHR 0x09])
       then Inl (import_invalid ''The CSV delimiter is invalid.'')
       else if ci_truncateFirst i \<and> ci_confirmName i \<noteq> Some (ref_name t)
       then Inl (ServiceFailure IMPORT_CONFIRMATION_REQUIRED
              (''Confirm destructive import by entering the table name '' @ ref_name t @ ''.'') 409)
       else Inr (i\<lparr>ci_options := opts\<lparr>opt_batchSize := Some batchSize\<rparr>\<rparr>))"

definition normalizeSql :: "import_sql_input \<Rightarrow> import_error + import_sql_input" where
  "normalizeSql i =
     and_then (assertConnectionId (si_connectionId i)) (\<lambda>_.
     and_then (assertDatabase (si_database i)) (\<lambda>_. Inr i))"

section \<open>The limit\<close>

definition IMPORT_JOB_TYPE :: string where "IMPORT_JOB_TYPE = ''database.import''"
definition IMPORT_MAX_ACTIVE_JOBS_PER_USER :: nat where "IMPORT_MAX_ACTIVE_JOBS_PER_USER = 4"

text \<open>The active import jobs among the first 100 jobs of a user, newest first.\<close>

definition active_imports :: "(string \<Rightarrow> string \<Rightarrow> int) \<Rightarrow> string \<Rightarrow> 'r manager \<Rightarrow> 'r job list" where
  "active_imports collate owner m =
     (case listByOwner collate owner 1 100 m of
        Inl _ \<Rightarrow> []
      | Inr page \<Rightarrow> filter (\<lambda>j. jtype j = IMPORT_JOB_TYPE \<and> state j \<in> set [Queued, Running, Cancelling]) (items page))"

definition assertActiveLimit :: "(string \<Rightarrow> string \<Rightarrow> int) \<Rightarrow> string \<Rightarrow> 'r manager \<Rightarrow> import_error + unit" where
  "assertActiveLimit collate owner m =
     (if length (active_imports collate owner m) \<ge> IMPORT_MAX_ACTIVE_JOBS_PER_USER
      then Inl (ServiceFailure IMPORT_LIMIT_REACHED ''The import job limit has been reached.'' 409)
      else Inr ())"

section \<open>Creating jobs\<close>

text \<open>
  The service's state: the directory of uploads, the job manager and the audit entries written. A
  refused audit (\<open>audit_ok\<close>) throws after the job was submitted, which stays.
\<close>

datatype import_audit_entry =
    ImportStarted string string import_format bool
  | DestructiveStarted string string

record 'r import_state =
  im_dir :: upload_dir
  im_jobs :: "'r manager"
  im_audit :: "import_audit_entry list"

definition record_audit ::
  "(import_audit_entry \<Rightarrow> bool) \<Rightarrow> import_audit_entry \<Rightarrow> 'r import_state \<Rightarrow> 'r import_state \<times> (import_error + unit)" where
  "record_audit audit_ok a st =
     (if audit_ok a then (st\<lparr>im_audit := im_audit st @ [a]\<rparr>, Inr ()) else (st, Inl (OtherFailure ''audit'')))"

text \<open>The steps that both kinds of import share, up to the submitted job.\<close>

definition import_submit ::
  "(string \<Rightarrow> string \<Rightarrow> int) \<Rightarrow> time \<Rightarrow> string \<Rightarrow> string \<Rightarrow> string \<Rightarrow> import_format \<Rightarrow> string \<Rightarrow>
     'r import_state \<Rightarrow> 'r import_state \<times> (import_error + string)" where
  "import_submit collate now newId actor upload format wrong st =
     (case assertActiveLimit collate actor (im_jobs st) of
        Inl e \<Rightarrow> (st, Inl e)
      | Inr _ \<Rightarrow>
          (case upload_get now actor upload (im_dir st) of
             (dir, Inl e) \<Rightarrow> (st\<lparr>im_dir := dir\<rparr>, Inl e)
           | (dir, Inr m) \<Rightarrow>
               let st1 = st\<lparr>im_dir := dir\<rparr> in
               if uformat m \<noteq> format then (st1, Inl (import_invalid wrong))
               else case submit now newId IMPORT_JOB_TYPE actor (Some True) (im_jobs st1) of
                 Inl _ \<Rightarrow> (st1, Inl (OtherFailure ''job manager''))
               | Inr jobs \<Rightarrow> (st1\<lparr>im_jobs := jobs\<rparr>, Inr newId)))"

definition createSql ::
  "(import_audit_entry \<Rightarrow> bool) \<Rightarrow> (string \<Rightarrow> string \<Rightarrow> int) \<Rightarrow> time \<Rightarrow> string \<Rightarrow> string \<Rightarrow> import_sql_input \<Rightarrow>
     'r import_state \<Rightarrow> 'r import_state \<times> (import_error + string)" where
  "createSql audit_ok collate now newId actor input st =
     (case normalizeSql input of
        Inl e \<Rightarrow> (st, Inl e)
      | Inr i \<Rightarrow>
          (case import_submit collate now newId actor (si_uploadId i) SqlFormat ''The upload is not a SQL file.'' st of
             (st1, Inl e) \<Rightarrow> (st1, Inl e)
           | (st1, Inr jobKey) \<Rightarrow>
               (case record_audit audit_ok (ImportStarted jobKey (si_connectionId i) SqlFormat False) st1 of
                  (st2, Inl e) \<Rightarrow> (st2, Inl e)
                | (st2, Inr _) \<Rightarrow> (st2, Inr jobKey))))"

definition createCsv ::
  "(import_audit_entry \<Rightarrow> bool) \<Rightarrow> (string \<Rightarrow> string \<Rightarrow> int) \<Rightarrow> time \<Rightarrow> string \<Rightarrow> string \<Rightarrow> import_csv_input \<Rightarrow>
     'r import_state \<Rightarrow> 'r import_state \<times> (import_error + string)" where
  "createCsv audit_ok collate now newId actor input st =
     (case normalizeCsv input of
        Inl e \<Rightarrow> (st, Inl e)
      | Inr i \<Rightarrow>
          (case import_submit collate now newId actor (ci_uploadId i) CsvFormat ''The upload is not a CSV file.'' st of
             (st1, Inl e) \<Rightarrow> (st1, Inl e)
           | (st1, Inr jobKey) \<Rightarrow>
               (case record_audit audit_ok (ImportStarted jobKey (ci_connectionId i) CsvFormat (ci_truncateFirst i)) st1 of
                  (st2, Inl e) \<Rightarrow> (st2, Inl e)
                | (st2, Inr _) \<Rightarrow>
                    if ci_truncateFirst i
                    then (case record_audit audit_ok (DestructiveStarted jobKey (ci_connectionId i)) st2 of
                            (st3, Inl e) \<Rightarrow> (st3, Inl e)
                          | (st3, Inr _) \<Rightarrow> (st3, Inr jobKey))
                    else (st2, Inr jobKey))))"

section \<open>Preview\<close>

definition IMPORT_PREVIEW_ROWS :: nat where "IMPORT_PREVIEW_ROWS = 20"

datatype import_preview =
    SqlPreview string bool
  | CsvPreview "string list" "string list list" bool

definition sql_preview :: "(nat \<times> string) list \<Rightarrow> string \<Rightarrow> import_preview" where
  "sql_preview chunks rest =
     (case map (qsql \<circ> sstatement) (sqlRecords Postgresql chunks rest) of
        [] \<Rightarrow> SqlPreview [] False
      | q # qs \<Rightarrow> SqlPreview q (qs \<noteq> []))"

definition csv_preview :: "csv_import_options \<Rightarrow> (nat \<times> string) list \<Rightarrow> string \<Rightarrow> import_preview" where
  "csv_preview opts chunks rest =
     (let d = (case opt_delimiter opts of None \<Rightarrow> CHR '','' | Some d \<Rightarrow> d);
          all = take (IMPORT_PREVIEW_ROWS + 2) (map rvalues (csvRecords d chunks rest));
          body = (if csv_header opts then tl all else all);
          names = (if csv_header opts then (case all of [] \<Rightarrow> [] | h # _ \<Rightarrow> h)
                   else (case all of [] \<Rightarrow> [] | h # _ \<Rightarrow> map show_nat [0..<length h]))
      in CsvPreview names (take IMPORT_PREVIEW_ROWS body) (IMPORT_PREVIEW_ROWS < length body))"

definition preview ::
  "time \<Rightarrow> string \<Rightarrow> string \<Rightarrow> import_format option \<Rightarrow> csv_import_options \<Rightarrow> (nat \<times> string) list \<Rightarrow> string \<Rightarrow>
     'r import_state \<Rightarrow> 'r import_state \<times> (import_error + import_preview)" where
  "preview now actor upload format opts chunks rest st =
     (case upload_get now actor upload (im_dir st) of
        (dir, Inl e) \<Rightarrow> (st\<lparr>im_dir := dir\<rparr>, Inl e)
      | (dir, Inr m) \<Rightarrow>
          let st1 = st\<lparr>im_dir := dir\<rparr> in
          if (case format of None \<Rightarrow> False | Some f \<Rightarrow> f \<noteq> uformat m)
          then (st1, Inl (import_invalid ''The preview format does not match the upload.''))
          else (st1, Inr (if uformat m = SqlFormat then sql_preview chunks rest else csv_preview opts chunks rest)))"

definition import_jobs ::
  "(string \<Rightarrow> string \<Rightarrow> int) \<Rightarrow> string \<Rightarrow> int \<Rightarrow> int \<Rightarrow> 'r import_state \<Rightarrow> job_manager_error + 'r job_page" where
  "import_jobs collate actor page pageSize st =
     (case listByOwner collate actor page pageSize (im_jobs st) of
        Inl e \<Rightarrow> Inl e
      | Inr p \<Rightarrow> Inr (p\<lparr>items := filter (\<lambda>j. jtype j = IMPORT_JOB_TYPE) (items p)\<rparr>))"

section \<open>Properties\<close>

lemma upload_get_ok:
  assumes "upload_get now actor i fs = (fs', Inr m)"
  shows "manifest i fs = Some m \<and> uowner m = actor \<and> now < uexpires m"
  using assms by (auto simp: upload_get_def split: if_splits option.splits upload_file.splits)

lemma import_submit_cases:
  assumes "import_submit collate now newId actor upload format wrong st = (st', r)"
    and "im_jobs st' \<noteq> im_jobs st \<or> r = Inr j"
  shows "length (active_imports collate actor (im_jobs st)) < IMPORT_MAX_ACTIVE_JOBS_PER_USER"
    "\<exists>m. manifest upload (im_dir st) = Some m \<and> uowner m = actor \<and> now < uexpires m \<and> uformat m = format"
  using assms
  by (auto simp: import_submit_def assertActiveLimit_def Let_def
      split: if_splits prod.splits sum.splits dest!: upload_get_ok)

lemma record_audit_jobs: "record_audit audit_ok a st = (st', r) \<Longrightarrow> im_jobs st' = im_jobs st"
  by (auto simp: record_audit_def split: if_splits)

text \<open>
  A CSV import job is only ever submitted for a user with fewer than four active imports,
  from an upload of the same user that has not expired and is a CSV file, with a batch size between 1
  and 1000; and if it empties the table first, only when the table's name was entered as confirmation.
\<close>

theorem csv_import_job_guarded:
  assumes "createCsv audit_ok collate now newId actor input st = (st', r)" "im_jobs st' \<noteq> im_jobs st"
  shows "length (active_imports collate actor (im_jobs st)) < IMPORT_MAX_ACTIVE_JOBS_PER_USER \<and>
    (\<exists>m. manifest (ci_uploadId input) (im_dir st) = Some m \<and> uowner m = actor \<and> now < uexpires m \<and>
       uformat m = CsvFormat) \<and>
    (ci_truncateFirst input \<longrightarrow> ci_confirmName input = Some (ref_name (ci_table input))) \<and>
    (case opt_batchSize (ci_options input) of None \<Rightarrow> True | Some b \<Rightarrow> 1 \<le> b \<and> b \<le> MAX_CSV_BATCH_SIZE)"
proof -
  obtain i where n: "normalizeCsv input = Inr i"
    using assms by (cases "normalizeCsv input") (auto simp: createCsv_def)
  have same: "ci_uploadId i = ci_uploadId input" "ci_truncateFirst i = ci_truncateFirst input"
    and guard: "ci_truncateFirst input \<longrightarrow> ci_confirmName input = Some (ref_name (ci_table input))"
    "case opt_batchSize (ci_options input) of None \<Rightarrow> True | Some b \<Rightarrow> 1 \<le> b \<and> b \<le> MAX_CSV_BATCH_SIZE"
    using n by (cases "assertConnectionId (ci_connectionId input)";
        auto simp: normalizeCsv_def Let_def split: if_splits option.splits)+
  obtain st1 r1 where s: "import_submit collate now newId actor (ci_uploadId i) CsvFormat
      ''The upload is not a CSV file.'' st = (st1, r1)" by force
  have "im_jobs st' = im_jobs st1"
    using assms(1) n s
    by (auto simp: createCsv_def split: sum.splits prod.splits if_splits dest!: record_audit_jobs)
  then have "im_jobs st1 \<noteq> im_jobs st" using assms(2) by simp
  with import_submit_cases [OF s] guard same show ?thesis by auto
qed

definition sample_imports :: "unit import_state" where
  "sample_imports = \<lparr>im_dir = fst sample_save,
     im_jobs = (case new_manager None None None None of Inr m \<Rightarrow> m), im_audit = []\<rparr>"

definition sample_csv_input :: "string option \<Rightarrow> import_csv_input" where
  "sample_csv_input confirm = \<lparr>ci_connectionId = ''c'',
     ci_table = \<lparr>ref_database = ''d'', ref_schema = None, ref_name = ''t'', ref_type = ''table''\<rparr>,
     ci_uploadId = ''u-1'', ci_options = csv_options 500, ci_truncateFirst = True, ci_confirmName = confirm\<rparr>"

theorem csv_import_job_guarded_witness:
  "\<exists>st'. fst (createCsv (\<lambda>_. True) (\<lambda>_ _. 0) 2000 ''j'' ''ann'' (sample_csv_input (Some ''t'')) sample_imports) = st' \<and>
     im_jobs st' \<noteq> im_jobs sample_imports \<and> ci_confirmName (sample_csv_input (Some ''t'')) = Some ''t''"
proof -
  let ?c = "createCsv (\<lambda>_. True) (\<lambda>_ _. 0) 2000 ''j'' ''ann'' (sample_csv_input (Some ''t'')) sample_imports"
  have "map fst (entries (im_jobs (fst ?c))) = [''j'']" "map fst (entries (im_jobs sample_imports)) = []"
    by code_simp+
  then have "im_jobs (fst ?c) \<noteq> im_jobs sample_imports" by force
  moreover from csv_import_job_guarded [OF prod.collapse [symmetric] this]
  have "ci_truncateFirst (sample_csv_input (Some ''t'')) \<longrightarrow>
      ci_confirmName (sample_csv_input (Some ''t'')) = Some (ref_name (ci_table (sample_csv_input (Some ''t''))))"
    by simp
  ultimately show ?thesis by (simp add: sample_csv_input_def)
qed

text \<open>
  When the audit entry of a started import cannot be written, the request fails although
  its job was submitted: the user is told of an error and the import runs.
\<close>

theorem refused_audit_leaves_import_job:
  "let (st', r) = createCsv (\<lambda>_. False) (\<lambda>_ _. 0) 2000 ''j'' ''ann'' (sample_csv_input (Some ''t'')) sample_imports in
     (case r of Inl _ \<Rightarrow> True | Inr _ \<Rightarrow> False) \<and> im_audit st' = [] \<and>
     map (\<lambda>(k, e). (k, state (job e))) (entries (im_jobs st')) = [(''j'', Running)]"
  by code_simp

end
