(* ===== verification/Exports.thy ===== *)
theory Exports
  imports Imports
begin

text \<open>
  Exports: the SQL values of the providers (\<open>import-export.ts\<close> of
  \<open>packages/database-postgresql\<close> and \<open>packages/database-mysql\<close>), the writer of the three formats and
  the artifacts of the export service (\<open>packages/export/src/index.ts\<close>). The CSV lines are in \<open>Csv\<close>.
\<close>

section \<open>Quoting\<close>

datatype export_error =
    ExportAborted
  | ExportDb string
  | ExportService string nat
  | ExportOther

text \<open>\<open>unwrappedCell\<close> of the providers is the function \<open>cellValue\<close> of the export.\<close>

definition quotePostgresqlValue :: "json option \<Rightarrow> string" where
  "quotePostgresqlValue v =
     (case cellValue v of
        None \<Rightarrow> ''NULL''
      | Some JNull \<Rightarrow> ''NULL''
      | Some (JBool b) \<Rightarrow> if b then ''TRUE'' else ''FALSE''
      | Some (JNum n) \<Rightarrow> show_int n
      | Some j \<Rightarrow> CHR 0x27 # double_quotes (CHR 0x27) (js_string j) @ [CHR 0x27])"

definition quoteMysqlValue :: "json option \<Rightarrow> string" where
  "quoteMysqlValue v =
     (case cellValue v of
        None \<Rightarrow> ''NULL''
      | Some JNull \<Rightarrow> ''NULL''
      | Some (JBool b) \<Rightarrow> if b then ''TRUE'' else ''FALSE''
      | Some (JNum n) \<Rightarrow> show_int n
      | Some j \<Rightarrow> CHR 0x27 # double_quotes (CHR 0x27) (double_quotes (CHR 0x5C) (js_string j)) @ [CHR 0x27])"

fun quoteIdentifier :: "engine \<Rightarrow> string \<Rightarrow> export_error + string" where
  "quoteIdentifier Postgresql i = map_sum ExportDb id (quotePostgresqlIdentifier i)"
| "quoteIdentifier Mysql i = map_sum ExportDb id (quoteMysqlIdentifier i)"

fun quoteValue :: "engine \<Rightarrow> json option \<Rightarrow> string" where
  "quoteValue Postgresql v = quotePostgresqlValue v"
| "quoteValue Mysql v = quoteMysqlValue v"

section \<open>Writing rows\<close>

datatype export_format = ExportSql | ExportCsv | ExportJson

datatype sql_scope = Structure | Data | Both

record writer_options =
  wo_delimiter :: char
  wo_header :: bool
  wo_sqlScope :: sql_scope

text \<open>The names of the columns, quoted; the first that cannot be quoted throws.\<close>

fun quote_all :: "engine \<Rightarrow> string list \<Rightarrow> export_error + string list" where
  "quote_all engine [] = Inr []"
| "quote_all engine (c # cs) =
     (case quoteIdentifier engine c of
        Inl e \<Rightarrow> Inl e
      | Inr q \<Rightarrow> (case quote_all engine cs of Inl e \<Rightarrow> Inl e | Inr qs \<Rightarrow> Inr (q # qs)))"

definition insert_statement :: "string \<Rightarrow> string list \<Rightarrow> string list \<Rightarrow> string" where
  "insert_statement target names vals =
     ''INSERT INTO '' @ target @ '' ('' @ join '', '' names @ '') VALUES ('' @ join '', '' vals @ '')''"

text \<open>The text of one row. An object of \<open>fromEntries\<close> keeps the last value of a repeated column.\<close>

definition row_text ::
  "engine \<Rightarrow> export_format \<Rightarrow> writer_options \<Rightarrow> string list \<Rightarrow> string option \<Rightarrow> nat \<Rightarrow> (string, json) jsmap \<Rightarrow>
     export_error + string" where
  "row_text engine f opts cols table n row =
     (case f of
        ExportCsv \<Rightarrow> Inr (csv_line (wo_delimiter opts) (map (\<lambda>c. csvValue (map_of row c)) cols))
      | ExportJson \<Rightarrow>
          Inr ((if n = 0 then [] else '','') @
            stringify (JObj (foldl (\<lambda>fs c. case cellValue (map_of row c) of
              None \<Rightarrow> js_delete fs c | Some v \<Rightarrow> js_set fs c v) [] cols)))
      | ExportSql \<Rightarrow>
          if wo_sqlScope opts = Structure then Inr []
          else
            (case (case table of Some t \<Rightarrow> Inr t | None \<Rightarrow> quoteIdentifier engine ''export_result'') of
               Inl e \<Rightarrow> Inl e
             | Inr target \<Rightarrow>
                 (case quote_all engine cols of
                    Inl e \<Rightarrow> Inl e
                  | Inr names \<Rightarrow>
                      Inr (insert_statement target names (map (\<lambda>c. quoteValue engine (map_of row c)) cols)
                           @ '';'' @ [newline]))))"

text \<open>The rows of the stream, each with whether the job was aborted when it arrived.\<close>

fun write_rows_loop ::
  "(nat \<Rightarrow> (string, json) jsmap \<Rightarrow> export_error + string) \<Rightarrow> (bool \<times> (string, json) jsmap) list \<Rightarrow> nat \<Rightarrow> string \<Rightarrow>
     string \<times> (export_error + nat)" where
  "write_rows_loop text [] n out = (out, Inr n)"
| "write_rows_loop text ((stop, row) # rs) n out =
     (if stop then (out, Inl ExportAborted)
      else case text n row of
        Inl e \<Rightarrow> (out, Inl e)
      | Inr t \<Rightarrow> write_rows_loop text rs (n + 1) (out @ t))"

definition writeRows ::
  "engine \<Rightarrow> export_format \<Rightarrow> writer_options \<Rightarrow> string list \<Rightarrow> (bool \<times> (string, json) jsmap) list \<Rightarrow>
     string option \<Rightarrow> string option \<Rightarrow> string \<times> (export_error + nat)" where
  "writeRows engine f opts cols rs table ddl =
     (let head = (case f of
            ExportCsv \<Rightarrow> if wo_header opts then csv_line (wo_delimiter opts) cols else []
          | ExportJson \<Rightarrow> ''[''
          | ExportSql \<Rightarrow>
              (case ddl of
                 Some t \<Rightarrow> if wo_sqlScope opts \<noteq> Data \<and> t \<noteq> [] then t @ [newline] else []
               | None \<Rightarrow> []))
      in case write_rows_loop (row_text engine f opts cols table) rs 0 head of
           (out, Inl e) \<Rightarrow> (out, Inl e)
         | (out, Inr n) \<Rightarrow> (if f = ExportJson then out @ '']'' @ [newline] else out, Inr n))"

section \<open>Requests\<close>

text \<open>The filters of a page of a table; of a selection only the first key is read.\<close>

datatype export_source =
    SourceTable object_ref "(string \<times> json option) list"
  | SourceQuery string
  | SourceSelection object_ref "(string, json) jsmap list"
  | SourceDatabase string "string option"

fun request_filters :: "export_source \<Rightarrow> (string \<times> json option) list" where
  "request_filters (SourceTable ref filters) = filters"
| "request_filters (SourceSelection ref (key # keys)) = map (\<lambda>(c, v). (c, cellValue (Some v))) key"
| "request_filters _ = []"

record export_input =
  ei_connectionId :: string
  ei_source :: export_source
  ei_format :: export_format
  ei_delimiter :: "char option"
  ei_header :: "bool option"
  ei_sqlScope :: "sql_scope option"

definition EXPORT_MAX_QUERY_LENGTH :: nat where "EXPORT_MAX_QUERY_LENGTH = 100000"
definition EXPORT_MAX_SELECTION_ROWS :: nat where "EXPORT_MAX_SELECTION_ROWS = 10000"
definition EXPORT_MAX_ACTIVE_JOBS_PER_USER :: nat where "EXPORT_MAX_ACTIVE_JOBS_PER_USER = 4"
definition EXPORT_JOB_TYPE :: string where "EXPORT_JOB_TYPE = ''database.export''"
definition EXPORT_RETENTION_MS :: int where "EXPORT_RETENTION_MS = 60 * 60 * 1000"
definition EXPORT_DOWNLOAD_GRACE_MS :: int where "EXPORT_DOWNLOAD_GRACE_MS = 10 * 60 * 1000"

text \<open>The format and the header option have their types.\<close>

definition normalizeInput :: "export_input \<Rightarrow> export_error + export_input" where
  "normalizeInput i =
     (if js_trim (ei_connectionId i) = [] then Inl (ExportService ''A connection is required.'' 422)
      else if (case ei_source i of SourceQuery q \<Rightarrow> js_trim q = [] \<or> length q > EXPORT_MAX_QUERY_LENGTH | _ \<Rightarrow> False)
      then Inl (ExportService ''The export query is invalid or too long.'' 422)
      else if (case ei_source i of
                 SourceSelection _ keys \<Rightarrow> length keys < 1 \<or> length keys > EXPORT_MAX_SELECTION_ROWS | _ \<Rightarrow> False)
      then Inl (ExportService ''The selected row count is invalid.'' 422)
      else Inr i)"

fun sourceLabelOf :: "export_source \<Rightarrow> string" where
  "sourceLabelOf (SourceQuery q) = ''query''"
| "sourceLabelOf (SourceDatabase d s) =
     (case s of None \<Rightarrow> d | Some s \<Rightarrow> if s = [] then d else d @ ''.'' @ s)"
| "sourceLabelOf (SourceTable ref fs) =
     (case ref_schema ref of None \<Rightarrow> ref_name ref | Some s \<Rightarrow> if s = [] then ref_name ref else s @ ''.'' @ ref_name ref)"
| "sourceLabelOf (SourceSelection ref ks) =
     (case ref_schema ref of None \<Rightarrow> ref_name ref | Some s \<Rightarrow> if s = [] then ref_name ref else s @ ''.'' @ ref_name ref)"

text \<open>The target of the inserts of a table: its schema, or its database, and its name.\<close>

definition export_target :: "engine \<Rightarrow> object_ref \<Rightarrow> export_error + string" where
  "export_target engine ref =
     (case quoteIdentifier engine (case ref_schema ref of None \<Rightarrow> ref_database ref | Some s \<Rightarrow> s) of
        Inl e \<Rightarrow> Inl e
      | Inr a \<Rightarrow> (case quoteIdentifier engine (ref_name ref) of Inl e \<Rightarrow> Inl e | Inr b \<Rightarrow> Inr (a @ ''.'' @ b)))"

end
