(* ===== verification/ExportProps.thy ===== *)
theory ExportProps
  imports Exports
begin

text \<open>
  Exported SQL read back: the inserts that an export writes, as lexical tokens of PostgreSQL, so that
  the splitter of the query editor cuts the file into exactly the inserts; and where it does not,
  because the readers take a backslash in a string for an escape and the export does not write one.
\<close>

section \<open>Inserts as tokens\<close>

definition safe_char :: "char \<Rightarrow> bool" where
  "safe_char c \<longleftrightarrow> c \<notin> {CHR 0x27, CHR 0x22, CHR '';'', CHR ''-'', CHR ''/'', CHR ''$''}"

lemma render_simps [simp]:
  "pg_render [] = []" "pg_render (t # ts) = pg_render1 t @ pg_render ts"
  "pg_render (ts @ us) = pg_render ts @ pg_render us" "pg_render (map PgChar s) = s"
  by (induction s) (simp_all add: pg_render_def)

lemma wf_chars: "list_all safe_char s \<Longrightarrow> pg_wf ts \<Longrightarrow> pg_wf (map PgChar s @ ts)"
  by (induction s) (auto simp: safe_char_def)

lemma digit_safe: "digit c \<Longrightarrow> safe_char c"
  by (auto simp: digit_def safe_char_def Let_def)

lemma show_nat_safe: "list_all safe_char (show_nat n)"
  using digits_show_nat [of n] by (auto simp: digits_def list_all_iff digit_safe)

lemma wf_int: "pg_wf ts \<Longrightarrow> pg_wf (map PgChar (show_int n) @ ts)"
proof -
  assume ts: "pg_wf ts"
  obtain c s where s: "show_nat (nat (- n)) = c # s" "digit c"
    using digits_show_nat [of "nat (- n)"] by (cases "show_nat (nat (- n))") (auto simp: digits_def)
  then have "c \<noteq> CHR ''-''" by (auto simp: digit_def)
  with s show ?thesis
    using wf_chars [OF show_nat_safe [of "nat (- n)"] ts] wf_chars [OF show_nat_safe [of "nat n"] ts]
    by (simp add: show_int_def)
qed

text \<open>A text that goes on with neither quote, as after every name and string of an insert.\<close>

definition no_quote :: "pg_token list \<Rightarrow> bool" where
  "no_quote ts \<longleftrightarrow> \<not> next_is (CHR 0x27) (pg_render ts) \<and> \<not> next_is (CHR 0x22) (pg_render ts)"

lemma wf_quoted:
  assumes "pg_wf ts" "no_quote ts"
  shows "pg_wf (PgName w # ts)" "CHR 0x5C \<notin> set w \<Longrightarrow> pg_wf (PgString w # ts)"
  using assms by (simp_all add: no_quote_def)

text \<open>The tokens of a list whose elements are separated by a comma and a space.\<close>

fun sep_tokens :: "pg_token list list \<Rightarrow> pg_token list" where
  "sep_tokens [] = []"
| "sep_tokens [t] = t"
| "sep_tokens (t # u # ts) = t @ map PgChar '', '' @ sep_tokens (u # ts)"

lemma sep_render: "pg_render (sep_tokens ts) = join '', '' (map pg_render ts)"
  by (induction ts rule: sep_tokens.induct) simp_all

lemma no_quote_chars: "c \<noteq> CHR 0x27 \<Longrightarrow> c \<noteq> CHR 0x22 \<Longrightarrow> no_quote (PgChar c # ts)"
  by (simp add: no_quote_def)

lemma sep_wf:
  assumes "\<And>t ts. t \<in> set xs \<Longrightarrow> pg_wf ts \<Longrightarrow> no_quote ts \<Longrightarrow> pg_wf (t @ ts)"
    and "pg_wf ts" "no_quote ts"
  shows "pg_wf (sep_tokens xs @ ts)"
  using assms
proof (induction xs rule: sep_tokens.induct)
  case (3 t u us)
  have "pg_wf (map PgChar '', '' @ sep_tokens (u # us) @ ts)"
    using "3.IH" "3.prems" by (intro wf_chars) (auto simp: safe_char_def)
  moreover have "no_quote (map PgChar '', '' @ sep_tokens (u # us) @ ts)" by (simp add: no_quote_def)
  ultimately show ?case using "3.prems"(1) [of t] by simp
qed simp_all

fun value_tokens :: "json option \<Rightarrow> pg_token list" where
  "value_tokens v =
     (case cellValue v of
        None \<Rightarrow> map PgChar ''NULL''
      | Some JNull \<Rightarrow> map PgChar ''NULL''
      | Some (JBool b) \<Rightarrow> map PgChar (if b then ''TRUE'' else ''FALSE'')
      | Some (JNum n) \<Rightarrow> map PgChar (show_int n)
      | Some j \<Rightarrow> [PgString (js_string j)])"

lemma doubled_quotes: "doubled = double_quotes"
  by (intro ext) (simp add: doubled_def double_quotes_def)

lemma value_render: "pg_render (value_tokens v) = quotePostgresqlValue v"
  by (simp add: quotePostgresqlValue_def doubled_quotes split: option.split json.split)

definition no_backslash :: "json option \<Rightarrow> bool" where
  "no_backslash v \<longleftrightarrow> CHR 0x5C \<notin> set (quotePostgresqlValue v)"

lemma set_doubled: "set (double_quotes q w) = set w"
  by (auto simp: double_quotes_def)

lemma value_wf:
  assumes "no_backslash v" "pg_wf ts" "no_quote ts"
  shows "pg_wf (value_tokens v @ ts)"
proof -
  have "pg_wf (map PgChar s @ ts)" if "s \<in> {''NULL'', ''TRUE'', ''FALSE''}" for s
    using that assms(2) by (intro wf_chars) (auto simp: safe_char_def)
  then show ?thesis
    using assms wf_int [OF assms(2)]
    by (auto simp: no_backslash_def quotePostgresqlValue_def set_doubled no_quote_def
        simp del: pg_wf.simps split: option.splits json.splits)
      (auto simp: no_quote_def)
qed

definition insert_tokens :: "string \<Rightarrow> string \<Rightarrow> string list \<Rightarrow> json option list \<Rightarrow> pg_token list" where
  "insert_tokens a b cols vals =
     map PgChar ''INSERT INTO '' @ PgName a # PgChar (CHR ''.'') # PgName b # map PgChar '' ('' @
     sep_tokens (map (\<lambda>c. [PgName c]) cols) @ map PgChar '') VALUES ('' @
     sep_tokens (map value_tokens vals) @ map PgChar '')''"

lemma clear_chars: "list_all pg_clear (map PgChar s)"
  by (simp add: list_all_iff)

lemma sep_clear: "list_all (list_all pg_clear) xs \<Longrightarrow> list_all pg_clear (sep_tokens xs)"
  by (induction xs rule: sep_tokens.induct) (simp_all add: clear_chars)

lemma value_clear: "no_backslash v \<Longrightarrow> list_all pg_clear (value_tokens v)"
  by (auto simp: no_backslash_def quotePostgresqlValue_def set_doubled clear_chars no_backslash_clear
      split: option.split json.split)

lemma insert_clear:
  assumes "list_all no_backslash vals"
  shows "list_all pg_clear (insert_tokens a b cols vals)"
proof -
  have "list_all pg_clear (sep_tokens (map value_tokens vals))"
    using assms value_clear [unfolded list_all_iff] by (intro sep_clear) (auto simp: list_all_iff simp del: value_tokens.simps)
  moreover have "list_all pg_clear (sep_tokens (map (\<lambda>c. [PgName c]) cols))"
    by (intro sep_clear) (simp add: list_all_iff)
  ultimately show ?thesis by (simp add: insert_tokens_def clear_chars)
qed

definition pg_quoted :: "string \<Rightarrow> string" where
  "pg_quoted i = CHR 0x22 # double_quotes (CHR 0x22) i @ [CHR 0x22]"

lemma insert_render:
  "pg_render (insert_tokens a b cols vals) =
     insert_statement (pg_quoted a @ ''.'' @ pg_quoted b) (map pg_quoted cols) (map quotePostgresqlValue vals)"
proof -
  have "pg_render (value_tokens v) = quotePostgresqlValue v" for v by (rule value_render)
  then show ?thesis
    by (simp add: insert_tokens_def insert_statement_def sep_render pg_quoted_def [abs_def] doubled_quotes comp_def
        del: value_tokens.simps)
qed

lemma insert_wf:
  assumes "list_all no_backslash vals"
  shows "pg_wf (insert_tokens a b cols vals)"
proof -
  have 1: "pg_wf (map PgChar '')'' @ [])" by (intro wf_chars) (simp_all add: safe_char_def)
  have n1: "no_quote (map PgChar '')'')" by (simp add: no_quote_def)
  have 2: "pg_wf (sep_tokens (map value_tokens vals) @ map PgChar '')'')"
    using assms 1 n1 by (intro sep_wf) (auto simp: list_all_iff simp del: value_tokens.simps intro!: value_wf)
  have 3: "pg_wf (map PgChar '') VALUES ('' @ sep_tokens (map value_tokens vals) @ map PgChar '')'')"
    using 2 by (intro wf_chars) (simp_all add: safe_char_def)
  have n3: "no_quote (map PgChar '') VALUES ('' @ sep_tokens (map value_tokens vals) @ map PgChar '')'')"
    by (simp add: no_quote_def)
  have 4: "pg_wf (sep_tokens (map (\<lambda>c. [PgName c]) cols) @
      map PgChar '') VALUES ('' @ sep_tokens (map value_tokens vals) @ map PgChar '')'')"
    using 3 n3 by (intro sep_wf) (auto simp: no_quote_def)
  have 5: "pg_wf (map PgChar '' ('' @ sep_tokens (map (\<lambda>c. [PgName c]) cols) @
      map PgChar '') VALUES ('' @ sep_tokens (map value_tokens vals) @ map PgChar '')'')"
    using 4 by (intro wf_chars) (simp_all add: safe_char_def)
  show ?thesis
    unfolding insert_tokens_def
    using 5 by (intro wf_chars wf_quoted(1)) (auto simp: safe_char_def no_quote_def)
qed

lemma trim_newline: "js_trim (newline # s) = js_trim s"
  by (simp add: js_trim_def js_ws_def)

lemma insert_trim: "js_trim (insert_statement target names vals) = insert_statement target names vals"
  by (rule trim_same) (simp_all add: insert_statement_def js_ws_def)

lemma script_lines:
  "concat (map (\<lambda>r. pg_render (f r) @ '';'' @ [newline]) (r # rs)) =
     pg_script (f r # map (\<lambda>r. PgChar newline # f r) rs) [PgChar newline]"
  by (induction rs arbitrary: r) (simp_all add: pg_script_def)

section \<open>Properties\<close>

lemma quoted_ok: "CHR 0x00 \<notin> set i \<Longrightarrow> quoteIdentifier Postgresql i = Inr (pg_quoted i)"
  by (simp add: quotePostgresqlIdentifier_def pg_quoted_def)

lemma quote_all_ok:
  "CHR 0x00 \<notin> set (concat cols) \<Longrightarrow> quote_all Postgresql cols = Inr (map pg_quoted cols)"
  by (induction cols) (auto simp: quoted_ok simp del: quoteIdentifier.simps)

text \<open>The insert of one row of a table \<open>a.b\<close>.\<close>

definition row_insert :: "string \<Rightarrow> string \<Rightarrow> string list \<Rightarrow> (string, json) jsmap \<Rightarrow> string" where
  "row_insert a b cols row =
     insert_statement (pg_quoted a @ ''.'' @ pg_quoted b) (map pg_quoted cols)
       (map (\<lambda>c. quotePostgresqlValue (map_of row c)) cols)"

lemma write_inserts:
  assumes "CHR 0x00 \<notin> set (concat cols)" "wo_sqlScope opts \<noteq> Structure"
  shows "write_rows_loop (row_text Postgresql ExportSql opts cols (Some (pg_quoted a @ ''.'' @ pg_quoted b)))
      (map (Pair False) rs) n out =
    (out @ concat (map (\<lambda>r. row_insert a b cols r @ '';'' @ [newline]) rs), Inr (n + length rs))"
  by (induction rs arbitrary: n out)
    (simp_all add: row_text_def assms(2) quote_all_ok [OF assms(1)] row_insert_def del: quoteValue.simps(2))

text \<open>
  The data of a PostgreSQL table that is exported as SQL splits into exactly one insert per
  row, in the order of the rows, whatever the names and values contain (quotes, semicolons, line
  breaks, comment marks), if no value contains a backslash.
\<close>

theorem exported_inserts_split:
  assumes "export_target Postgresql ref = Inr t" "CHR 0x00 \<notin> set (concat cols)" "wo_sqlScope opts \<noteq> Structure"
    and "\<forall>r \<in> set rs. \<forall>c \<in> set cols. no_backslash (map_of r c)"
  shows "\<exists>a b. writeRows Postgresql ExportSql opts cols (map (Pair False) rs) (Some t) None =
      (concat (map (\<lambda>r. row_insert a b cols r @ '';'' @ [newline]) rs), Inr (length rs)) \<and>
    map qsql (splitPostgresqlStatements
      (fst (writeRows Postgresql ExportSql opts cols (map (Pair False) rs) (Some t) None))) =
      map (row_insert a b cols) rs"
proof -
  define a where "a = (case ref_schema ref of None \<Rightarrow> ref_database ref | Some s \<Rightarrow> s)"
  define b where "b = ref_name ref"
  have t: "t = pg_quoted a @ ''.'' @ pg_quoted b"
    using assms(1) by (auto simp: export_target_def a_def b_def quotePostgresqlIdentifier_def pg_quoted_def
        split: sum.splits if_splits)
  let ?out = "concat (map (\<lambda>r. row_insert a b cols r @ '';'' @ [newline]) rs)"
  have w: "writeRows Postgresql ExportSql opts cols (map (Pair False) rs) (Some t) None = (?out, Inr (length rs))"
    using write_inserts [OF assms(2,3), of a b rs 0 "[]"] by (simp add: writeRows_def t)
  let ?f = "\<lambda>r. insert_tokens a b cols (map (\<lambda>c. map_of r c) cols)"
  have render: "pg_render (?f r) = row_insert a b cols r" for r
    by (simp add: insert_render row_insert_def comp_def)
  have wf: "pg_wf (?f r)" "list_all pg_clear (?f r)" if "r \<in> set rs" for r
    using assms(4) that by (intro insert_wf insert_clear; auto simp: list_all_iff)+
  have "map qsql (splitPostgresqlStatements ?out) = map (row_insert a b cols) rs"
  proof (cases rs)
    case Nil
    have "splitPostgresqlStatements [] = []" by code_simp
    with Nil show ?thesis by simp
  next
    case (Cons r rs')
    let ?tss = "?f r # map (\<lambda>r. PgChar newline # ?f r) rs'"
    have out: "?out = pg_script ?tss [PgChar newline]"
      using script_lines [of ?f r rs'] by (simp add: render Cons)
    have "\<forall>ts \<in> set (?tss @ [[PgChar newline]]). pg_wf ts \<and> list_all pg_clear ts"
      using wf Cons by auto
    moreover have "js_trim (row_insert a b cols r) = row_insert a b cols r" "row_insert a b cols r \<noteq> []" for r
      by (simp_all add: row_insert_def insert_trim) (simp add: insert_statement_def)
    moreover have "js_trim [newline] = []" by (simp add: js_trim_def js_ws_def)
    ultimately show ?thesis
      unfolding out using pg_script_statements [of ?tss "[PgChar newline]"]
      by (simp add: render Cons trim_newline comp_def)
  qed
  with w show ?thesis by (intro exI [of _ a] exI [of _ b]) simp
qed

definition data_options :: writer_options where
  "data_options = \<lparr>wo_delimiter = CHR '','', wo_header = True, wo_sqlScope = Data\<rparr>"

definition sample_ref :: object_ref where
  "sample_ref = \<lparr>ref_database = ''db'', ref_schema = Some ''s'', ref_name = ''t'', ref_type = ''table''\<rparr>"

definition sample_target :: string where
  "sample_target = pg_quoted ''s'' @ ''.'' @ pg_quoted ''t''"

theorem exported_inserts_split_witness:
  "length (splitPostgresqlStatements (fst (writeRows Postgresql ExportSql data_options [''a;b'']
     (map (Pair False) [[(''a;b'', JStr ''it's; -- x'')], [(''a;b'', JNull)]]) (Some sample_target) None))) = 2"
proof -
  let ?rs = "[[(''a;b'', JStr ''it's; -- x'')], [(''a;b'', JNull)]] :: (string, json) jsmap list"
  have 1: "export_target Postgresql sample_ref = Inr sample_target" by code_simp
  have 2: "CHR 0x00 \<notin> set (concat [''a;b''])" by simp
  have 3: "wo_sqlScope data_options \<noteq> Structure" by (simp add: data_options_def)
  have 4: "\<forall>r \<in> set ?rs. \<forall>c \<in> set [''a;b'']. no_backslash (map_of r c)"
    by (simp add: no_backslash_def quotePostgresqlValue_def cellValue_def double_quotes_def)
  from exported_inserts_split [OF 1 2 3 4] obtain a b where
    "map qsql (splitPostgresqlStatements (fst (writeRows Postgresql ExportSql data_options [''a;b'']
       (map (Pair False) ?rs) (Some sample_target) None))) = map (row_insert a b [''a;b'']) ?rs" by blast
  from arg_cong [OF this, of length] show ?thesis by simp
qed

text \<open>
  A value that ends in a backslash breaks this: the export doubles quotes and leaves the
  backslash, which PostgreSQL takes for a character, and both readers take it for an escape of the
  closing quote, so the inserts of two rows are read as one statement.
\<close>

theorem exported_backslash_merges_inserts:
  "let file = fst (writeRows Postgresql ExportSql data_options [''c'']
       (map (Pair False) [[(''c'', JStr [CHR 0x5C])], [(''c'', JNum 1)]]) (Some sample_target) None) in
     length (splitPostgresqlStatements file) = 1 \<and> length (sqlRecords Postgresql [(length file, file)] []) = 1"
  by code_simp

text \<open>Of the rows of a selection only the first is asked for.\<close>

lemma selection_reads_first_key:
  "request_filters (SourceSelection ref (k # ks)) = request_filters (SourceSelection ref [k])"
  by simp

end
