(* ===== verification/Artifacts.thy ===== *)
theory Artifacts
  imports Exports
begin

text \<open>
  The artifacts of the export service (\<open>ExportService\<close> of \<open>packages/export/src/index.ts\<close>): creating an
  export job, running it, downloading its file and cleaning up. A download is for the owner of a
  completed job, for an hour; after the first download a file is kept ten minutes.
\<close>

section \<open>State\<close>

record artifact =
  ajob :: string
  afileName :: string
  aformat :: export_format
  asource :: string
  arowCount :: nat
  asizeBytes :: nat
  acreated :: time
  aexpires :: time
  aowner :: string
  apath :: string
  apartial :: string
  adownloaded :: "time option"

datatype export_audit = ExportCompleted string string nat | ExportFailed string string bool

record 'r export_state =
  ex_artifacts :: "(string, artifact) jsmap"
  ex_files :: "(string, string) jsmap"
  ex_jobs :: "'r manager"
  ex_audit :: "export_audit list"

section \<open>File names\<close>

definition file_char :: "char \<Rightarrow> bool" where
  "file_char c \<longleftrightarrow> ascii_alnum c \<or> c = CHR ''.'' \<or> c = CHR ''_'' \<or> c = CHR ''-''"

text \<open>\<open>replace(/[^A-Za-z0-9._-]+/g, '-')\<close>: each run of other characters is one dash.\<close>

fun dash_runs :: "bool \<Rightarrow> string \<Rightarrow> string" where
  "dash_runs inside [] = []"
| "dash_runs inside (c # s) =
     (if file_char c then c # dash_runs False s
      else if inside then dash_runs True s else CHR ''-'' # dash_runs True s)"

definition dot_or_dash :: "char \<Rightarrow> bool" where
  "dot_or_dash c \<longleftrightarrow> c = CHR ''.'' \<or> c = CHR ''-''"

definition safeFilePart :: "(string \<Rightarrow> string) \<Rightarrow> string \<Rightarrow> string" where
  "safeFilePart nfkc v =
     (let s = dash_runs False (nfkc v);
          t = take 80 (rev (dropWhile dot_or_dash (rev (dropWhile dot_or_dash s))))
      in if t = [] then ''export'' else t)"

fun extension :: "export_format \<Rightarrow> string" where
  "extension ExportSql = ''sql''"
| "extension ExportCsv = ''csv''"
| "extension ExportJson = ''json''"

section \<open>Running\<close>

text \<open>
  One source of an export: its stream fails to open, or gives columns and rows; the target and the
  table definition of a table.
\<close>

record export_stream =
  es_columns :: "string list"
  es_rows :: "(bool \<times> (string, json) jsmap) list"
  es_target :: "string option"
  es_ddl :: "string option"

definition options_of :: "export_input \<Rightarrow> writer_options" where
  "options_of i = \<lparr>wo_delimiter = (case ei_delimiter i of None \<Rightarrow> CHR '','' | Some d \<Rightarrow> d),
     wo_header = (case ei_header i of None \<Rightarrow> True | Some h \<Rightarrow> h),
     wo_sqlScope = (case ei_sqlScope i of None \<Rightarrow> Both | Some s \<Rightarrow> s)\<rparr>"

text \<open>The loop over the sources: the text of the file so far and the rows written.\<close>

fun export_sources ::
  "engine \<Rightarrow> export_input \<Rightarrow> (export_error + export_stream) list \<Rightarrow> string \<Rightarrow> nat \<Rightarrow> string \<times> (export_error + nat)" where
  "export_sources engine i [] out n = (out, Inr n)"
| "export_sources engine i (Inl e # ss) out n = (out, Inl e)"
| "export_sources engine i (Inr s # ss) out n =
     (case writeRows engine (ei_format i) (options_of i) (es_columns s) (es_rows s) (es_target s) (es_ddl s) of
        (t, Inl e) \<Rightarrow> (out @ t, Inl e)
      | (t, Inr k) \<Rightarrow> export_sources engine i ss (out @ t) (n + k))"

definition export_path :: "string \<Rightarrow> export_format \<Rightarrow> string" where
  "export_path jobKey f = jobKey @ ''.'' @ extension f"

text \<open>
  \<open>execute\<close>: the sources (\<open>Inl\<close> when the session cannot be opened or the provider cannot export) are
  written to the partial file, which becomes the artifact; any error removes both files. The name of
  the download has the time of day, \<open>stamp\<close>. A refused audit (\<open>audit_ok\<close>) throws.
\<close>

definition export_failed ::
  "(export_audit \<Rightarrow> bool) \<Rightarrow> string \<Rightarrow> export_input \<Rightarrow> export_error \<Rightarrow> 'r export_state \<Rightarrow>
     'r export_state \<times> (export_error + artifact)" where
  "export_failed audit_ok jobKey i e st =
     (let path = export_path jobKey (ei_format i);
          st1 = st\<lparr>ex_files := js_delete (js_delete (ex_files st) (path @ ''.partial'')) path\<rparr>;
          a = ExportFailed jobKey (sourceLabelOf (ei_source i)) (e = ExportAborted)
      in if audit_ok a then (st1\<lparr>ex_audit := ex_audit st1 @ [a]\<rparr>, Inl e) else (st1, Inl ExportOther))"

definition export_execute ::
  "(export_audit \<Rightarrow> bool) \<Rightarrow> (string \<Rightarrow> string) \<Rightarrow> (time \<Rightarrow> string) \<Rightarrow> time \<Rightarrow> engine \<Rightarrow> string \<Rightarrow> string \<Rightarrow> export_input \<Rightarrow>
     export_error + (export_error + export_stream) list \<Rightarrow> 'r export_state \<Rightarrow>
     'r export_state \<times> (export_error + artifact)" where
  "export_execute audit_ok nfkc stamp now engine actor jobKey i sources st =
     (let path = export_path jobKey (ei_format i); partial = path @ ''.partial'';
          label = sourceLabelOf (ei_source i);
          (text, written) =
            (case sources of
               Inl e \<Rightarrow> ([], Inl e)
             | Inr ss \<Rightarrow>
                 if ei_format i = ExportJson \<and> length ss > 1
                 then ([], Inl (ExportService ''JSON database exports support one table at a time.'' 422))
                 else export_sources engine i ss [] 0)
      in case written of
           Inl e \<Rightarrow> export_failed audit_ok jobKey i e (st\<lparr>ex_files := js_set (ex_files st) partial text\<rparr>)
         | Inr n \<Rightarrow>
             let a = \<lparr>ajob = jobKey, afileName = safeFilePart nfkc label @ ''-'' @ stamp now @ ''.'' @ extension (ei_format i),
                   aformat = ei_format i, asource = label, arowCount = n, asizeBytes = utf8_length text,
                   acreated = now, aexpires = now + EXPORT_RETENTION_MS, aowner = actor, apath = path,
                   apartial = partial, adownloaded = None\<rparr>;
                 st1 = st\<lparr>ex_files := js_set (js_delete (ex_files st) partial) path text,
                          ex_artifacts := js_set (ex_artifacts st) jobKey a\<rparr>;
                 e = ExportCompleted jobKey label n
             in if audit_ok e then (st1\<lparr>ex_audit := ex_audit st1 @ [e]\<rparr>, Inr a)
                else export_failed audit_ok jobKey i ExportOther st1)"

section \<open>Requests\<close>

definition active_exports :: "(string \<Rightarrow> string \<Rightarrow> int) \<Rightarrow> string \<Rightarrow> 'r manager \<Rightarrow> 'r job list" where
  "active_exports collate owner m =
     (case listByOwner collate owner 1 100 m of
        Inl _ \<Rightarrow> []
      | Inr page \<Rightarrow> filter (\<lambda>j. jtype j = EXPORT_JOB_TYPE \<and> state j \<in> set [Queued, Running, Cancelling]) (items page))"

text \<open>\<open>create\<close>; \<open>reachable\<close> is the outcome of opening the connection to see whether it can export.\<close>

definition export_create ::
  "(string \<Rightarrow> string \<Rightarrow> int) \<Rightarrow> time \<Rightarrow> string \<Rightarrow> string \<Rightarrow> export_error + unit \<Rightarrow> export_input \<Rightarrow> 'r export_state \<Rightarrow>
     'r export_state \<times> (export_error + string)" where
  "export_create collate now newId actor reachable input st =
     (case normalizeInput input of
        Inl e \<Rightarrow> (st, Inl e)
      | Inr i \<Rightarrow>
          if length (active_exports collate actor (ex_jobs st)) \<ge> EXPORT_MAX_ACTIVE_JOBS_PER_USER
          then (st, Inl (ExportService ''The export job limit has been reached.'' 409))
          else case reachable of
            Inl e \<Rightarrow> (st, Inl e)
          | Inr _ \<Rightarrow>
              (case submit now newId EXPORT_JOB_TYPE actor (Some True) (ex_jobs st) of
                 Inl _ \<Rightarrow> (st, Inl ExportOther)
               | Inr jobs \<Rightarrow> (st\<lparr>ex_jobs := jobs\<rparr>, Inr newId)))"

definition export_get :: "string \<Rightarrow> string \<Rightarrow> 'r export_state \<Rightarrow> artifact option" where
  "export_get actor jobKey st =
     (case map_of (ex_artifacts st) jobKey of
        None \<Rightarrow> None
      | Some a \<Rightarrow> if aowner a = actor then Some a else None)"

definition removeArtifact :: "artifact \<Rightarrow> 'r export_state \<Rightarrow> 'r export_state" where
  "removeArtifact a st =
     st\<lparr>ex_artifacts := js_delete (ex_artifacts st) (ajob a),
        ex_files := js_delete (js_delete (ex_files st) (apath a)) (apartial a)\<rparr>"

text \<open>An artifact is due when it expired, or when its grace after the first download is over.\<close>

definition artifact_due :: "time \<Rightarrow> artifact \<Rightarrow> bool" where
  "artifact_due now a \<longleftrightarrow>
     aexpires a \<le> now \<or>
     (case adownloaded a of None \<Rightarrow> False | Some t \<Rightarrow> t + EXPORT_DOWNLOAD_GRACE_MS \<le> now)"

definition export_cleanup :: "time \<Rightarrow> string option \<Rightarrow> 'r export_state \<Rightarrow> 'r export_state \<times> nat" where
  "export_cleanup now excluded st =
     (let due = filter (\<lambda>a. Some (ajob a) \<noteq> excluded \<and> artifact_due now a) (map snd (ex_artifacts st))
      in (foldl (\<lambda>st a. removeArtifact a st) st due, length due))"

definition download :: "time \<Rightarrow> string \<Rightarrow> string \<Rightarrow> 'r export_state \<Rightarrow> 'r export_state \<times> (export_error + artifact)" where
  "download now actor jobKey st =
     (let st1 = fst (export_cleanup now (Some jobKey) st) in
      case getForOwner jobKey actor (ex_jobs st1) of
        None \<Rightarrow> (st1, Inl (ExportService ''Export was not found.'' 404))
      | Some j \<Rightarrow>
          (case map_of (ex_artifacts st1) jobKey of
             None \<Rightarrow> (st1, Inl (ExportService ''The export artifact is not available.'' 404))
           | Some a \<Rightarrow>
               if state j \<noteq> Completed
               then (st1, Inl (ExportService ''The export artifact is not available.'' 404))
               else if aexpires a \<le> now
               then (removeArtifact a st1, Inl (ExportService ''The export artifact has expired.'' 410))
               else (case adownloaded a of
                       None \<Rightarrow> (st1\<lparr>ex_artifacts := js_set (ex_artifacts st1) jobKey (a\<lparr>adownloaded := Some now\<rparr>)\<rparr>, Inr a)
                     | Some _ \<Rightarrow> (st1, Inr a))))"

section \<open>Properties\<close>

lemma removed_artifacts:
  "map_of (ex_artifacts (foldl (\<lambda>st a. removeArtifact a st) st as)) k =
     (if k \<in> ajob ` set as then None else map_of (ex_artifacts st) k)"
  "ex_jobs (foldl (\<lambda>st a. removeArtifact a st) st as) = ex_jobs st"
  by (induction as arbitrary: st) (auto simp: removeArtifact_def)

text \<open>Each artifact is kept under the id of its job.\<close>

definition artifacts_keyed :: "'r export_state \<Rightarrow> bool" where
  "artifacts_keyed st \<longleftrightarrow> distinct (js_keys (ex_artifacts st)) \<and> (\<forall>(k, a) \<in> set (ex_artifacts st). ajob a = k)"

lemma cleanup_artifacts:
  assumes "artifacts_keyed st"
  shows "map_of (ex_artifacts (fst (export_cleanup now ex st))) k =
    (case map_of (ex_artifacts st) k of
       None \<Rightarrow> None
     | Some a \<Rightarrow> if Some k \<noteq> ex \<and> artifact_due now a then None else Some a)"
proof -
  let ?due = "filter (\<lambda>a. Some (ajob a) \<noteq> ex \<and> artifact_due now a) (map snd (ex_artifacts st))"
  have "k \<in> ajob ` set ?due \<longleftrightarrow> (\<exists>a. map_of (ex_artifacts st) k = Some a \<and> Some k \<noteq> ex \<and> artifact_due now a)"
    using assms js_entries_iff [of "ex_artifacts st" k]
    by (fastforce simp: artifacts_keyed_def image_iff)
  then show ?thesis
    by (auto simp: export_cleanup_def Let_def removed_artifacts split: option.splits)
qed

text \<open>
  A download succeeds exactly when the job is the user's, it is completed, and its artifact
  is there and has not expired; it returns that artifact, remembers the time of the first download,
  and on the way removes of the other artifacts exactly those that expired or whose grace is over.
\<close>

theorem download_authorized:
  assumes "artifacts_keyed st" "download now actor k st = (st', r)"
  shows "(r = Inr a \<longleftrightarrow>
      (\<exists>j. getForOwner k actor (ex_jobs st) = Some j \<and> state j = Completed) \<and>
      map_of (ex_artifacts st) k = Some a \<and> now < aexpires a) \<and>
    (r = Inr a \<longrightarrow> (\<exists>b. map_of (ex_artifacts st') k = Some b \<and>
      adownloaded b = (case adownloaded a of None \<Rightarrow> Some now | Some t \<Rightarrow> Some t))) \<and>
    (\<forall>l. l \<noteq> k \<longrightarrow> map_of (ex_artifacts st') l =
      (case map_of (ex_artifacts st) l of None \<Rightarrow> None | Some b \<Rightarrow> if artifact_due now b then None else Some b))"
proof -
  define st1 where "st1 = fst (export_cleanup now (Some k) st)"
  have jobs: "ex_jobs st1 = ex_jobs st"
    by (simp add: st1_def export_cleanup_def Let_def removed_artifacts)
  have own: "map_of (ex_artifacts st1) k = map_of (ex_artifacts st) k"
    using cleanup_artifacts [OF assms(1), of now "Some k" k] by (simp add: st1_def split: option.splits)
  have others: "map_of (ex_artifacts st1) l =
      (case map_of (ex_artifacts st) l of None \<Rightarrow> None | Some b \<Rightarrow> if artifact_due now b then None else Some b)"
    if "l \<noteq> k" for l
    using cleanup_artifacts [OF assms(1), of now "Some k" l] that by (simp add: st1_def split: option.splits)
  have keyed: "ajob b = k" if "map_of (ex_artifacts st) k = Some b" for b
    using assms(1) map_of_SomeD [OF that] by (auto simp: artifacts_keyed_def)
  note D = assms(2) [unfolded download_def Let_def, folded st1_def, unfolded jobs own]
  show ?thesis
  proof (cases "getForOwner k actor (ex_jobs st)")
    case None
    then show ?thesis using D others by auto
  next
    case (Some j)
    note j = this
    show ?thesis
    proof (cases "map_of (ex_artifacts st) k")
      case None
      then show ?thesis using D j others by auto
    next
      case (Some b)
      then have key: "ajob b = k" by (rule keyed)
      show ?thesis
      proof (cases "state j = Completed \<and> now < aexpires b")
        case False
        then show ?thesis using D j Some others key by (auto simp: removeArtifact_def split: if_splits)
      next
        case True
        then show ?thesis using D j Some others own
          by (cases "adownloaded b") (auto split: if_splits)
      qed
    qed
  qed
qed

definition done_job :: "unit job" where
  "done_job = \<lparr>jid = ''j'', jtype = EXPORT_JOB_TYPE, ownerUserId = ''ann'', state = Completed,
     progress = initialProgress, result = None, error = None, createdAt = 0, startedAt = Some 0,
     endedAt = Some 5, cancellable = True\<rparr>"

definition sample_artifact :: "string \<Rightarrow> time option \<Rightarrow> artifact" where
  "sample_artifact k d = \<lparr>ajob = k, afileName = ''t.csv'', aformat = ExportCsv, asource = ''t'', arowCount = 1,
     asizeBytes = 4, acreated = 5, aexpires = 3600005, aowner = ''ann'', apath = k @ ''.csv'',
     apartial = k @ ''.csv.partial'', adownloaded = d\<rparr>"

definition sample_exports :: "unit export_state" where
  "sample_exports = \<lparr>ex_artifacts = [(''j'', sample_artifact ''j'' None), (''old'', sample_artifact ''old'' (Some 10))],
     ex_files = [], ex_jobs = (case new_manager None None None None of
       Inr m \<Rightarrow> m\<lparr>entries := [(''j'', \<lparr>job = done_job, aborted = False, lastProgressEmittedAt = None,
         progressTimer = None, executionSettled = True, released = True, entry_disposed = False\<rparr>)]\<rparr>),
     ex_audit = []\<rparr>"

theorem download_authorized_witness:
  "\<exists>st'. download 600010 ''ann'' ''j'' sample_exports = (st', Inr (sample_artifact ''j'' None)) \<and>
     map_of (ex_artifacts st') ''old'' = None"
proof -
  have keyed: "artifacts_keyed sample_exports"
    by (simp add: artifacts_keyed_def sample_exports_def sample_artifact_def js_keys_def)
  obtain st' r where d: "download 600010 ''ann'' ''j'' sample_exports = (st', r)" by force
  have j: "getForOwner ''j'' ''ann'' (ex_jobs sample_exports) = Some done_job" by code_simp
  have "map_of (ex_artifacts sample_exports) ''j'' = Some (sample_artifact ''j'' None)"
    "600010 < aexpires (sample_artifact ''j'' None)" "state done_job = Completed"
    "map_of (ex_artifacts sample_exports) ''old'' = Some (sample_artifact ''old'' (Some 10))"
    "artifact_due 600010 (sample_artifact ''old'' (Some 10))"
    by (simp_all add: sample_exports_def sample_artifact_def done_job_def artifact_due_def EXPORT_DOWNLOAD_GRACE_MS_def)
  with download_authorized [OF keyed d, of "sample_artifact ''j'' None"] d j show ?thesis by auto
qed

end
