(* ===== verification/Ddl.thy ===== *)
theory Ddl
  imports Dialect
begin

text \<open>
  The contract of the table designers (\<open>packages/database-core/src/contracts/table-designer.ts\<close> and
  the column, index and constraint models of \<open>models/index.ts\<close>), and what the designers of the two
  providers have in common word for word: the checks of names, expressions and defaults, the
  parameters of a type, and the merging of a column with a patch. A field that may be missing is an
  option; where a patch can also ask for removal with \<open>null\<close> it is an option of an option. The
  designers' ``lower case for the locale'' is the lower case of the model's characters.
\<close>

section \<open>The contract\<close>

datatype default_kind = DefaultLiteral | DefaultExpression

record default_value =
  dv_kind :: default_kind
  dv_value :: string

record generated_value =
  gv_expression :: string
  gv_stored :: "bool option"

record column_input =
  co_name :: string
  co_dataType :: string
  co_length :: "int option"
  co_precision :: "int option"
  co_scale :: "int option"
  co_nullable :: bool
  co_default :: "default_value option"
  co_identity :: "bool option"
  co_generated :: "generated_value option"
  co_comment :: "string option"
  co_primaryKey :: "bool option"

record column_patch =
  pa_dataType :: "string option"
  pa_length :: "int option option"
  pa_precision :: "int option option"
  pa_scale :: "int option option"
  pa_nullable :: "bool option"
  pa_default :: "default_value option option"
  pa_identity :: "bool option"
  pa_generated :: "generated_value option option"
  pa_comment :: "string option option"
  pa_primaryKey :: "bool option"

datatype referential_action = NoAction | Restrict | Cascade | SetNull | SetDefault

fun action_sql :: "referential_action \<Rightarrow> string" where
  "action_sql NoAction = ''NO ACTION''"
| "action_sql Restrict = ''RESTRICT''"
| "action_sql Cascade = ''CASCADE''"
| "action_sql SetNull = ''SET NULL''"
| "action_sql SetDefault = ''SET DEFAULT''"

record index_input =
  ix_name :: "string option"
  ix_columns :: "string list"
  ix_unique :: "bool option"

datatype constraint_input =
    PrimaryKey "string option" "string list"
  | ForeignKey "string option" "string list" object_ref "string list"
      "referential_action option" "referential_action option"
  | Unique "string option" "string list"
  | Check "string option" string

datatype constraint_type = TypePrimaryKey | TypeForeignKey | TypeUnique | TypeCheck | TypeOther

datatype alteration =
    AddColumn column_input
  | ModifyColumn string column_patch
  | RenameColumn string string
  | DropColumn string
  | AddIndex index_input
  | DropIndex string
  | AddConstraint constraint_input
  | DropConstraint string "constraint_type option"

datatype ddl_operation = CreateTable | AlterTable

record change_set =
  cs_operation :: ddl_operation
  cs_ref :: object_ref
  cs_columns :: "column_input list"
  cs_indexes :: "index_input list"
  cs_constraints :: "constraint_input list"
  cs_alterations :: "alteration list"

record ddl_statement =
  ddl_sql :: string
  ddl_warning :: "string option"
  ddl_columns :: "string list"
  ddl_indexes :: "string list"
  ddl_constraints :: "string list"

record ddl_preview =
  pv_operation :: ddl_operation
  pv_statements :: "ddl_statement list"
  pv_warnings :: "string list"
  pv_destructive :: bool

datatype ddl_status = DdlSuccess | DdlFailed string

record ddl_result =
  dr_index :: nat
  dr_sql :: string
  dr_status :: ddl_status

record ddl_apply_result =
  ar_operation :: ddl_operation
  ar_transactional :: bool
  ar_committed :: bool
  ar_statements :: "ddl_result list"

text \<open>A validation issue is its path, code and message.\<close>

type_synonym issue = "string \<times> string \<times> string"

datatype designer_error =
    TableInvalid "issue list"
  | TableDb string
  | TableApply nat ddl_apply_result string
  | TableService string nat

section \<open>What the metadata says of a table\<close>

record column_definition =
  cd_name :: string
  cd_dataType :: string
  cd_nullable :: bool
  cd_default :: "string option"
  cd_comment :: "string option"
  cd_identity :: "bool option"
  cd_isGenerated :: "bool option"
  cd_generated :: "string option"

record index_definition =
  id_name :: string
  id_columns :: "string list"
  id_unique :: bool
  id_primary :: bool

record constraint_definition =
  cn_name :: string
  cn_type :: constraint_type
  cn_columns :: "string list option"

record table_definition =
  td_columns :: "column_definition list"
  td_indexes :: "index_definition list"
  td_constraints :: "constraint_definition list"

text \<open>What a provider reports of its server; the texts say why something is not supported.\<close>

record capability =
  cap_version :: string
  cap_flags :: "(string, bool) jsmap"
  cap_reasons :: "(string, string) jsmap"

definition capable :: "capability \<Rightarrow> string \<Rightarrow> bool" where
  "capable cap k \<longleftrightarrow> map_of (cap_flags cap) k = Some True"

definition reason :: "capability \<Rightarrow> string \<Rightarrow> string \<Rightarrow> string" where
  "reason cap k m = (case map_of (cap_reasons cap) k of Some r \<Rightarrow> r | None \<Rightarrow> m)"

text \<open>
  What the designers read from the database: the server's version, whether a table exists, and the
  definition of a table. Each read can fail.
\<close>

record designer_reads =
  rd_version :: "designer_error + string"
  rd_exists :: "string \<Rightarrow> string \<Rightarrow> designer_error + bool"
  rd_describe :: "object_ref \<Rightarrow> designer_error + table_definition"

section \<open>Checks\<close>

text \<open>A property path \<open>p[i]\<close>.\<close>

definition at_index :: "string \<Rightarrow> nat \<Rightarrow> string" where
  "at_index p i = p @ ''['' @ show_nat i @ '']''"

definition control_char :: "char \<Rightarrow> bool" where
  "control_char c \<longleftrightarrow> (of_char c :: nat) < 32 \<or> (of_char c :: nat) = 127"

text \<open>\<open>identifier\<close>: \<open>limit\<close> is the longest name in bytes, \<open>server\<close> names the engine.\<close>

definition valid_identifier :: "nat \<Rightarrow> string \<Rightarrow> string \<Rightarrow> string \<Rightarrow> issue list + string" where
  "valid_identifier limit server v label =
     (let n = js_trim v in
      if n = [] \<or> n \<noteq> v \<or> list_ex control_char n \<or> utf8_length n > limit
      then Inl [(label, ''invalid_name'', label @ '' is not a valid '' @ server @ '' identifier.'')]
      else Inr n)"

definition expression :: "string \<Rightarrow> string \<Rightarrow> issue list + string" where
  "expression v path =
     (let n = js_trim v in
      if n = [] \<or> js_includes '';'' n \<or> js_includes ''--'' n \<or> js_includes ''/*'' n
      then Inl [(path, ''invalid_expression'', ''SQL expressions cannot contain statement separators or comments.'')]
      else Inr n)"

text \<open>\<open>/^-?(?:\d+(?:\.\d*)?|\.\d+)$/\<close>.\<close>

definition numeric_literal :: "string \<Rightarrow> bool" where
  "numeric_literal s =
     (let t = (case s of c # r \<Rightarrow> if c = CHR ''-'' then r else s | [] \<Rightarrow> []);
          a = takeWhile digit t; b = dropWhile digit t
      in case b of
           [] \<Rightarrow> a \<noteq> []
         | c # r \<Rightarrow> c = CHR ''.'' \<and> list_all digit r \<and> (a \<noteq> [] \<or> r \<noteq> []))"

text \<open>\<open>/^(?:true|false|0|1)$/i\<close>.\<close>

definition boolean_literal :: "string \<Rightarrow> bool" where
  "boolean_literal s \<longleftrightarrow> js_lower s \<in> {''true'', ''false'', ''0'', ''1''}"

definition null_literal :: "string \<Rightarrow> bool" where
  "null_literal s \<longleftrightarrow> ascii_upper s = ''NULL''"

definition validateDefault :: "string list \<Rightarrow> default_value option \<Rightarrow> string \<Rightarrow> string \<Rightarrow> issue list" where
  "validateDefault numerics v type path =
     (case v of
        None \<Rightarrow> []
      | Some d \<Rightarrow>
          if dv_kind d = DefaultExpression
          then (case expression (dv_value d) (path @ ''.value'') of Inl is \<Rightarrow> is | Inr _ \<Rightarrow> [])
          else if null_literal (dv_value d) then []
          else if type \<in> set numerics \<and> \<not> numeric_literal (js_trim (dv_value d))
          then [(path, ''incompatible_default'', ''The default literal is not compatible with this numeric type.'')]
          else if type = ''boolean'' \<and> \<not> boolean_literal (js_trim (dv_value d))
          then [(path, ''incompatible_default'', ''Boolean defaults must be true, false, 0, or 1.'')]
          else [])"

definition safe_integer :: "int \<Rightarrow> bool" where
  "safe_integer n \<longleftrightarrow> \<bar>n\<bar> \<le> 9007199254740991"

text \<open>The first character of a run of white space becomes a blank, the rest go:
  \<open>replace(/\s+/g, ' ')\<close>.\<close>

fun collapse_ws :: "string \<Rightarrow> string" where
  "collapse_ws [] = []"
| "collapse_ws [c] = (if js_ws c then '' '' else [c])"
| "collapse_ws (c # d # s) =
     (if js_ws c then (if js_ws d then collapse_ws (d # s) else CHR '' '' # collapse_ws (d # s))
      else c # collapse_ws (d # s))"

text \<open>What follows a match of \<open>/\(\d+(?:,\d+)?\)/\<close> at the start of the text.\<close>

definition match_params :: "string \<Rightarrow> string option" where
  "match_params s =
     (case s of
        c # r \<Rightarrow>
          if c \<noteq> CHR ''('' \<or> takeWhile digit r = [] then None
          else (case dropWhile digit r of
                  d # t \<Rightarrow>
                    if d = CHR '')'' then Some t
                    else if d = CHR '','' \<and> takeWhile digit t \<noteq> []
                    then (case dropWhile digit t of
                            e # u \<Rightarrow> if e = CHR '')'' then Some u else None | [] \<Rightarrow> None)
                    else None
                | [] \<Rightarrow> None)
      | [] \<Rightarrow> None)"

text \<open>\<open>replace(/\(\d+(?:,\d+)?\)/, '')\<close>: the first match goes.\<close>

fun strip_params :: "string \<Rightarrow> string" where
  "strip_params [] = []"
| "strip_params (c # s) = (case match_params (c # s) of Some r \<Rightarrow> r | None \<Rightarrow> c # strip_params s)"

text \<open>The text between the parentheses of \<open>name(\<dots>)\<close>.\<close>

definition type_args :: "string \<Rightarrow> string \<Rightarrow> string option" where
  "type_args name raw =
     (let n = length name in
      if take (n + 1) raw = name @ ''('' \<and> length raw > n + 1 \<and> last raw = CHR '')''
      then Some (butlast (drop (n + 1) raw)) else None)"

text \<open>\<open>/^name\((\d+)\)$/\<close> and \<open>/^name\((\d+)(?:,(\d+))?\)$/\<close>.\<close>

definition type_length :: "string \<Rightarrow> string \<Rightarrow> int option" where
  "type_length name raw =
     (case type_args name raw of
        Some a \<Rightarrow> if digits a then Some (decimal a) else None | None \<Rightarrow> None)"

definition type_numeric :: "string \<Rightarrow> string \<Rightarrow> (int \<times> int option) option" where
  "type_numeric name raw =
     (case type_args name raw of
        None \<Rightarrow> None
      | Some a \<Rightarrow>
          (case js_split CHR '','' a of
             [p] \<Rightarrow> if digits p then Some (decimal p, None) else None
           | [p, s] \<Rightarrow> if digits p \<and> digits s then Some (decimal p, Some (decimal s)) else None
           | _ \<Rightarrow> None))"

definition has_key :: "(string, 'a) jsmap \<Rightarrow> string \<Rightarrow> bool" where
  "has_key m k \<longleftrightarrow> map_of m k \<noteq> None"

text \<open>The issues of a list of names, each with the keys seen before it.\<close>

fun name_issues :: "(string, 'a) jsmap \<Rightarrow> string \<Rightarrow> nat \<Rightarrow> string list \<Rightarrow> string list \<Rightarrow> issue list" where
  "name_issues cols path i seen [] = []"
| "name_issues cols path i seen (n # ns) =
     (let k = js_lower n in
      (if has_key cols k then [] else [(at_index path i, ''not_found'', ''Column '' @ n @ '' does not exist.'')])
      @ (if k \<in> set seen then [(at_index path i, ''duplicate_name'', ''Columns must be unique.'')] else [])
      @ name_issues cols path (i + 1) (k # seen) ns)"

definition list_issues :: "nat \<Rightarrow> string \<Rightarrow> string list \<Rightarrow> (string, 'a) jsmap \<Rightarrow> string \<Rightarrow> issue list" where
  "list_issues limit tooMany names cols path =
     (if names = [] then [(path, ''required'', ''At least one column is required.'')] else [])
     @ (if length names > limit then [(path, ''too_many_columns'', tooMany)] else [])
     @ name_issues cols path 0 [] names"

fun duplicate_issues :: "string \<Rightarrow> nat \<Rightarrow> string list \<Rightarrow> column_input list \<Rightarrow> issue list" where
  "duplicate_issues path i seen [] = []"
| "duplicate_issues path i seen (c # cs) =
     (let k = js_lower (co_name c) in
      (if k \<in> set seen then [(at_index path i @ ''.name'', ''duplicate_name'', ''Column names must be unique.'')] else [])
      @ duplicate_issues path (i + 1) (k # seen) cs)"

definition throw_issues :: "issue list \<Rightarrow> designer_error + unit" where
  "throw_issues is = (if is = [] then Inr () else Inl (TableInvalid is))"

definition throw_if :: "bool \<Rightarrow> issue \<Rightarrow> designer_error + unit" where
  "throw_if b i = (if b then Inl (TableInvalid [i]) else Inr ())"

definition issues_of :: "issue list + 'a \<Rightarrow> issue list" where
  "issues_of r = (case r of Inl is \<Rightarrow> is | Inr _ \<Rightarrow> [])"

definition throws :: "issue list + 'a \<Rightarrow> designer_error + 'a" where
  "throws r = map_sum TableInvalid id r"

definition quoted :: "string + string \<Rightarrow> designer_error + string" where
  "quoted r = map_sum TableDb id r"

definition quoteLiteral :: "string \<Rightarrow> string" where
  "quoteLiteral v = CHR 0x27 # double_quotes (CHR 0x27) v @ [CHR 0x27]"

definition generatedName :: "nat \<Rightarrow> string \<Rightarrow> string \<Rightarrow> string list \<Rightarrow> string" where
  "generatedName limit pre table cols = take limit (pre @ ''_'' @ table @ ''_'' @ join ''_'' cols)"

fun constraint_name :: "constraint_input \<Rightarrow> string option" where
  "constraint_name (PrimaryKey n cs) = n"
| "constraint_name (ForeignKey n cs ref rcs d u) = n"
| "constraint_name (Unique n cs) = n"
| "constraint_name (Check n e) = n"

text \<open>The prefix of a generated name, the columns (none of a check) and the type.\<close>

fun constraint_prefix :: "constraint_input \<Rightarrow> string" where
  "constraint_prefix (ForeignKey n cs ref rcs d u) = ''fk''"
| "constraint_prefix (PrimaryKey n cs) = ''pk''"
| "constraint_prefix (Check n e) = ''chk''"
| "constraint_prefix (Unique n cs) = ''uq''"

fun constraint_columns :: "constraint_input \<Rightarrow> string list option" where
  "constraint_columns (PrimaryKey n cs) = Some cs"
| "constraint_columns (ForeignKey n cs ref rcs d u) = Some cs"
| "constraint_columns (Unique n cs) = Some cs"
| "constraint_columns (Check n e) = None"

fun constraint_kind :: "constraint_input \<Rightarrow> constraint_type" where
  "constraint_kind (PrimaryKey n cs) = TypePrimaryKey"
| "constraint_kind (ForeignKey n cs ref rcs d u) = TypeForeignKey"
| "constraint_kind (Unique n cs) = TypeUnique"
| "constraint_kind (Check n e) = TypeCheck"

definition constraint_named :: "nat \<Rightarrow> string \<Rightarrow> constraint_input \<Rightarrow> string" where
  "constraint_named limit table c =
     (case constraint_name c of
        Some n \<Rightarrow> n
      | None \<Rightarrow> generatedName limit (constraint_prefix c) table
                 (case constraint_columns c of Some cs \<Rightarrow> cs | None \<Rightarrow> []))"

text \<open>\<open>patch.x === null ? { x: undefined } : patch.x === undefined ? {} : { x: patch.x }\<close>.\<close>

definition patched :: "'a option option \<Rightarrow> 'a option \<Rightarrow> 'a option" where
  "patched p old = (case p of None \<Rightarrow> old | Some v \<Rightarrow> v)"

definition patched_flag :: "'a option \<Rightarrow> 'a option \<Rightarrow> 'a option" where
  "patched_flag p old = (case p of None \<Rightarrow> old | Some v \<Rightarrow> Some v)"

definition apply_patch :: "column_patch \<Rightarrow> column_input \<Rightarrow> column_input" where
  "apply_patch p c =
     c\<lparr>co_dataType := (case pa_dataType p of None \<Rightarrow> co_dataType c | Some t \<Rightarrow> t),
       co_length := patched (pa_length p) (co_length c),
       co_precision := patched (pa_precision p) (co_precision c),
       co_scale := patched (pa_scale p) (co_scale c),
       co_nullable := (case pa_nullable p of None \<Rightarrow> co_nullable c | Some b \<Rightarrow> b),
       co_default := patched (pa_default p) (co_default c),
       co_identity := patched_flag (pa_identity p) (co_identity c),
       co_generated := patched (pa_generated p) (co_generated c),
       co_comment := patched (pa_comment p) (co_comment c),
       co_primaryKey := patched_flag (pa_primaryKey p) (co_primaryKey c)\<rparr>"

section \<open>The tables a designer works on\<close>

text \<open>
  The map of columns by lower-case name holds column definitions; an added column is put into it as
  it is. What the designers read of such an entry as a definition: it has a name, a type, a comment
  and whether it is nullable, and none of the fields that only a definition has.
\<close>

definition as_definition :: "column_input \<Rightarrow> column_definition" where
  "as_definition c =
     \<lparr>cd_name = co_name c, cd_dataType = co_dataType c, cd_nullable = co_nullable c, cd_default = None,
      cd_comment = co_comment c, cd_identity = None, cd_isGenerated = None, cd_generated = None\<rparr>"

text \<open>\<open>{ ...current, ...next, dataType: next.dataType }\<close>, read as a definition.\<close>

definition overlay :: "column_definition \<Rightarrow> column_input \<Rightarrow> column_definition" where
  "overlay current next =
     current\<lparr>cd_name := co_name next, cd_dataType := co_dataType next, cd_nullable := co_nullable next,
       cd_comment := co_comment next\<rparr>"

text \<open>What a compilation has so far: the statements, and the table as it will be.\<close>

record designer =
  dg_statements :: "ddl_statement list"
  dg_working :: "(string, column_definition) jsmap"
  dg_indexes :: "index_definition list"
  dg_constraints :: "constraint_definition list"

definition plain :: "string \<Rightarrow> ddl_statement" where
  "plain s = \<lparr>ddl_sql = s, ddl_warning = None, ddl_columns = [], ddl_indexes = [], ddl_constraints = []\<rparr>"

definition push :: "ddl_statement \<Rightarrow> designer \<Rightarrow> designer" where
  "push s g = g\<lparr>dg_statements := dg_statements g @ [s]\<rparr>"

definition by_key :: "('a \<Rightarrow> string) \<Rightarrow> 'a list \<Rightarrow> (string, 'a) jsmap" where
  "by_key name xs = foldl (\<lambda>m x. js_set m (js_lower (name x)) x) [] xs"

definition taken :: "designer \<Rightarrow> string \<Rightarrow> bool" where
  "taken g n \<longleftrightarrow> js_lower n \<in> set (map (js_lower \<circ> id_name) (dg_indexes g) @ map (js_lower \<circ> cn_name) (dg_constraints g))"

text \<open>\<open>splice(position, 1)\<close> at the first element with the name, if there is one.\<close>

fun remove_named :: "('a \<Rightarrow> string) \<Rightarrow> string \<Rightarrow> 'a list \<Rightarrow> ('a \<times> 'a list) option" where
  "remove_named name n [] = None"
| "remove_named name n (x # xs) =
     (if js_lower (name x) = js_lower n then Some (x, xs)
      else case remove_named name n xs of None \<Rightarrow> None | Some (y, ys) \<Rightarrow> Some (y, x # ys))"

text \<open>The names of given indexes: each must have its columns, and a name no other input has.\<close>

fun validate_indexes ::
  "(string list \<Rightarrow> string \<Rightarrow> issue list) \<Rightarrow> nat \<Rightarrow> string list \<Rightarrow> string \<Rightarrow> nat \<Rightarrow> string list \<Rightarrow> index_input list \<Rightarrow>
     designer_error + unit" where
  "validate_indexes check limit cnames path i seen [] = Inr ()"
| "validate_indexes check limit cnames path i seen (x # xs) =
     and_then (throw_issues (check (ix_columns x) (at_index path i @ ''.columns''))) (\<lambda>_.
       let n = js_lower (case ix_name x of Some n \<Rightarrow> n | None \<Rightarrow> generatedName limit ''idx'' ''table'' (ix_columns x)) in
       and_then (throw_if (n \<in> set seen \<or> n \<in> set cnames)
           (at_index path i @ ''.name'', ''conflict'', ''An index or constraint with this name already exists.''))
         (\<lambda>_. validate_indexes check limit cnames path (i + 1) (n # seen) xs))"

definition index_name :: "nat \<Rightarrow> string \<Rightarrow> index_input \<Rightarrow> string" where
  "index_name limit table x =
     (case ix_name x of Some n \<Rightarrow> n | None \<Rightarrow> generatedName limit ''idx'' table (ix_columns x))"

text \<open>The end of \<open>compile\<close>: the warnings, each once, and whether anything is lost.\<close>

definition destructive_statement :: "ddl_statement \<Rightarrow> bool" where
  "destructive_statement s \<longleftrightarrow> ddl_columns s \<noteq> [] \<or> ddl_indexes s \<noteq> [] \<or> ddl_constraints s \<noteq> []"

definition with_warning :: "(ddl_statement \<Rightarrow> string option) \<Rightarrow> ddl_statement \<Rightarrow> ddl_statement" where
  "with_warning f s = (case f s of None \<Rightarrow> s | Some w \<Rightarrow> if w = [] then s else s\<lparr>ddl_warning := Some w\<rparr>)"

definition preview_of :: "ddl_operation \<Rightarrow> (ddl_statement \<Rightarrow> string option) \<Rightarrow> ddl_statement list \<Rightarrow> ddl_preview" where
  "preview_of op warning ss =
     (let ws = map (with_warning warning) ss in
      \<lparr>pv_operation = op, pv_statements = ws,
       pv_warnings = js_unique (concat (map (\<lambda>s. case ddl_warning s of None \<Rightarrow> [] | Some w \<Rightarrow> [w]) ws)),
       pv_destructive = list_ex destructive_statement ws\<rparr>)"

text \<open>The statements that ran before one failed, and that one.\<close>

definition success :: "nat \<Rightarrow> string \<Rightarrow> ddl_result" where
  "success i s = \<lparr>dr_index = i, dr_sql = s, dr_status = DdlSuccess\<rparr>"

definition failed_at :: "nat \<Rightarrow> string \<Rightarrow> string \<Rightarrow> ddl_result" where
  "failed_at i s m = \<lparr>dr_index = i, dr_sql = s, dr_status = DdlFailed m\<rparr>"

end
