(* ===== verification/DdlPostgresql.thy ===== *)
theory DdlPostgresql
  imports Ddl
begin

text \<open>
  The PostgreSQL table designer, \<open>packages/database-postgresql/src/table-designer.ts\<close>: the types it
  offers, the checks of a column, the SQL of columns, indexes and constraints, the compilation of a
  change set into statements with their warnings, and its application in one transaction.
\<close>

section \<open>Types\<close>

definition pg_TYPES :: "(string \<times> string \<times> string list) list" where
  "pg_TYPES = [
     (''smallint'', ''Small integer'', []), (''integer'', ''Integer'', []), (''bigint'', ''Large integer'', []),
     (''numeric'', ''Numeric'', [''precision'', ''scale'']), (''real'', ''Real'', []),
     (''double precision'', ''Double precision'', []), (''boolean'', ''Boolean'', []),
     (''char'', ''Character'', [''length'']), (''varchar'', ''Variable character'', [''length'']),
     (''text'', ''Text'', []), (''date'', ''Date'', []), (''time'', ''Time'', []),
     (''timestamp'', ''Timestamp'', []), (''timestamptz'', ''Timestamp with time zone'', []),
     (''jsonb'', ''JSONB'', []), (''uuid'', ''UUID'', []), (''bytea'', ''Binary'', [])]"

definition pg_INTEGER_TYPES :: "string list" where
  "pg_INTEGER_TYPES = [''smallint'', ''integer'', ''bigint'']"

definition pg_NUMERIC_TYPES :: "string list" where
  "pg_NUMERIC_TYPES = [''smallint'', ''integer'', ''bigint'', ''numeric'', ''real'', ''double precision'']"

definition POSTGRES_REFERENTIAL_ACTIONS :: "referential_action list" where
  "POSTGRES_REFERENTIAL_ACTIONS = [NoAction, Restrict, Cascade, SetNull, SetDefault]"

definition POSTGRES_MAX_CONSTRAINT_COLUMNS :: nat where "POSTGRES_MAX_CONSTRAINT_COLUMNS = 32"

definition pg_typeDefinition :: "string \<Rightarrow> (string \<times> string \<times> string list) option" where
  "pg_typeDefinition v = find (\<lambda>t. fst t = js_lower (js_trim v)) pg_TYPES"

section \<open>Checks\<close>

definition pg_identifier :: "string \<Rightarrow> string \<Rightarrow> issue list + string" where
  "pg_identifier = valid_identifier 63 ''PostgreSQL''"

definition pg_tableRef :: "object_ref \<Rightarrow> designer_error + (string \<times> string)" where
  "pg_tableRef r =
     (if ref_type r \<noteq> ''table'' then Inl (TableInvalid [(''ref.type'', ''invalid_type'', ''ref.type must be table.'')])
      else case ref_schema r of
        None \<Rightarrow> Inl (TableInvalid [(''ref.schema'', ''required'', ''A PostgreSQL schema is required.'')])
      | Some s \<Rightarrow>
          if s = [] then Inl (TableInvalid [(''ref.schema'', ''required'', ''A PostgreSQL schema is required.'')])
          else and_then (throws (pg_identifier s ''ref.schema'')) (\<lambda>s'.
               and_then (throws (pg_identifier (ref_name r) ''ref.name'')) (\<lambda>n. Inr (s', n))))"

definition pg_column_issues :: "column_input \<Rightarrow> string \<Rightarrow> capability \<Rightarrow> issue list" where
  "pg_column_issues c path cap =
     (let dataType = js_lower (js_trim (co_dataType c));
          params = map_option (snd \<circ> snd) (pg_typeDefinition dataType);
          takes = (\<lambda>p. case params of None \<Rightarrow> False | Some ps \<Rightarrow> p \<in> set ps);
          is_identity = (co_identity c = Some True); is_generated = (co_generated c \<noteq> None) in
      issues_of (pg_identifier (co_name c) (path @ ''.name''))
      @ (if params = None then [(path @ ''.dataType'', ''unknown_type'', ''This PostgreSQL column type is not supported.'')] else [])
      @ (case co_length c of None \<Rightarrow> [] | Some n \<Rightarrow>
           if params \<noteq> None \<and> (\<not> takes ''length'' \<or> \<not> safe_integer n \<or> n < 1 \<or> n > 1000000)
           then [(path @ ''.length'', ''invalid_parameter'', ''Length must be a positive integer supported by this type.'')]
           else [])
      @ (case co_precision c of None \<Rightarrow> [] | Some n \<Rightarrow>
           if params \<noteq> None \<and> (\<not> takes ''precision'' \<or> \<not> safe_integer n \<or> n < 1 \<or> n > 1000)
           then [(path @ ''.precision'', ''invalid_parameter'', ''Precision must be an integer between 1 and 1000.'')]
           else [])
      @ (case co_scale c of None \<Rightarrow> [] | Some n \<Rightarrow>
           if params \<noteq> None \<and> (\<not> takes ''scale'' \<or> \<not> safe_integer n \<or> n < 0
              \<or> (case co_precision c of None \<Rightarrow> True | Some p \<Rightarrow> n > p))
           then [(path @ ''.scale'', ''invalid_parameter'', ''Scale must be between zero and precision.'')]
           else [])
      @ (if is_identity \<and> \<not> capable cap ''identityColumns''
         then [(path @ ''.identity'', ''unsupported'',
                reason cap ''identityColumns'' ''Identity columns are not supported by this server.'')] else [])
      @ (if is_generated \<and> \<not> capable cap ''generatedColumns''
         then [(path @ ''.generated'', ''unsupported'',
                reason cap ''generatedColumns'' ''Generated columns are not supported by this server.'')] else [])
      @ (if is_identity \<and> is_generated
         then [(path @ ''.generated'', ''mutually_exclusive'', ''Identity and generated columns cannot be combined.'')] else [])
      @ (if params = None then []
         else validateDefault pg_NUMERIC_TYPES (co_default c) dataType (path @ ''.default'')
           @ (if (is_identity \<or> is_generated) \<and> co_default c \<noteq> None
              then [(path @ ''.default'', ''mutually_exclusive'', ''Identity or generated columns cannot have a default.'')]
              else []))
      @ (case co_generated c of None \<Rightarrow> []
         | Some g \<Rightarrow> issues_of (expression (gv_expression g) (path @ ''.generated.expression'')))
      @ (if is_identity \<and> params \<noteq> None \<and> dataType \<notin> set pg_INTEGER_TYPES
         then [(path @ ''.identity'', ''incompatible_type'', ''Identity columns require smallint, integer, or bigint.'')]
         else []))"

definition pg_validateColumn :: "column_input \<Rightarrow> string \<Rightarrow> capability \<Rightarrow> designer_error + unit" where
  "pg_validateColumn c path cap = throw_issues (pg_column_issues c path cap)"

definition pg_list_issues :: "string list \<Rightarrow> (string, 'a) jsmap \<Rightarrow> string \<Rightarrow> issue list" where
  "pg_list_issues names cols path =
     list_issues POSTGRES_MAX_CONSTRAINT_COLUMNS
       ''This PostgreSQL provider supports at most 32 columns per index or constraint.'' names cols path"

definition pg_validateUnique :: "column_input list \<Rightarrow> string \<Rightarrow> designer_error + unit" where
  "pg_validateUnique cs path = throw_issues (duplicate_issues path 0 [] cs)"

definition normalizedPostgresType :: "string \<Rightarrow> string" where
  "normalizedPostgresType v =
     (let t = collapse_ws (js_lower (js_trim v)) in
      if t = ''character varying'' \<or> starts_with_at t ''character varying('' 0 then ''varchar''
      else if t = ''character'' \<or> starts_with_at t ''character('' 0 then ''char''
      else if t = ''timestamp without time zone'' then ''timestamp''
      else if t = ''timestamp with time zone'' then ''timestamptz''
      else strip_params t)"

section \<open>SQL\<close>

definition pg_generatedName :: "string \<Rightarrow> string \<Rightarrow> string list \<Rightarrow> string" where
  "pg_generatedName = generatedName 63"

definition pg_quote :: "string \<Rightarrow> designer_error + string" where
  "pg_quote n = quoted (quotePostgresqlIdentifier n)"

definition pg_names :: "string list \<Rightarrow> designer_error + string" where
  "pg_names ns = and_then (map_throw pg_quote ns) (\<lambda>qs. Inr (join '', '' qs))"

definition pg_indexSql :: "string \<Rightarrow> index_input \<Rightarrow> string \<Rightarrow> designer_error + string" where
  "pg_indexSql target x n =
     and_then (pg_quote n) (\<lambda>q. and_then (pg_names (ix_columns x)) (\<lambda>cs.
       Inr (''CREATE'' @ (if ix_unique x = Some True then '' UNIQUE'' else []) @ '' INDEX '' @ q @ '' ON '' @ target
            @ '' ('' @ cs @ '')'')))"

definition pg_defaultSql :: "default_value option \<Rightarrow> string \<Rightarrow> designer_error + string" where
  "pg_defaultSql v type =
     (case v of
        None \<Rightarrow> Inr []
      | Some d \<Rightarrow>
          if dv_kind d = DefaultExpression
          then and_then (throws (expression (dv_value d) ''default'')) (\<lambda>e. Inr ('' DEFAULT '' @ e))
          else if null_literal (dv_value d) then Inr '' DEFAULT NULL''
          else if type = ''boolean''
          then Inr ('' DEFAULT '' @ (if js_lower (dv_value d) \<in> {''true'', ''1''} then ''TRUE'' else ''FALSE''))
          else Inr ('' DEFAULT '' @
            (if type \<in> set pg_NUMERIC_TYPES then js_trim (dv_value d) else quoteLiteral (dv_value d))))"

definition pg_typeSql :: "column_input \<Rightarrow> string" where
  "pg_typeSql c =
     (let type = js_lower (js_trim (co_dataType c)) in
      type @
      (if type = ''char'' \<or> type = ''varchar''
       then (case co_length c of None \<Rightarrow> [] | Some n \<Rightarrow> ''('' @ show_int n @ '')'')
       else if type = ''numeric''
       then (case co_precision c of None \<Rightarrow> []
             | Some p \<Rightarrow> ''('' @ show_int p @ (case co_scale c of None \<Rightarrow> [] | Some s \<Rightarrow> '','' @ show_int s) @ '')'')
       else []))"

definition pg_columnSql :: "column_input \<Rightarrow> designer_error + string" where
  "pg_columnSql c =
     (let type = js_lower (js_trim (co_dataType c)) in
      and_then (case co_generated c of None \<Rightarrow> Inr []
                | Some g \<Rightarrow> and_then (throws (expression (gv_expression g) ''generated.expression''))
                              (\<lambda>e. Inr ('' GENERATED ALWAYS AS ('' @ e @ '') STORED''))) (\<lambda>generated.
      and_then (pg_quote (co_name c)) (\<lambda>q.
      and_then (pg_defaultSql (co_default c) type) (\<lambda>def.
        Inr (q @ '' '' @ pg_typeSql c
             @ (if co_generated c \<noteq> None then generated
                else if co_identity c = Some True then '' GENERATED BY DEFAULT AS IDENTITY'' else [])
             @ (if co_nullable c then [] else '' NOT NULL'') @ def
             @ (if co_primaryKey c = Some True then '' PRIMARY KEY'' else []))))))"

text \<open>A column of the metadata as the input that would give it.\<close>

definition pg_columnInput :: "column_definition \<Rightarrow> column_input" where
  "pg_columnInput d =
     (let raw = js_lower (js_trim (cd_dataType d));
          varchar = (case type_length ''character varying'' raw of Some n \<Rightarrow> Some n | None \<Rightarrow> type_length ''varchar'' raw);
          character = (case type_length ''character'' raw of Some n \<Rightarrow> Some n | None \<Rightarrow> type_length ''char'' raw);
          numeric = type_numeric ''numeric'' raw in
      \<lparr>co_name = cd_name d,
       co_dataType =
         (if raw = ''timestamp without time zone'' then ''timestamp''
          else if raw = ''timestamp with time zone'' then ''timestamptz''
          else if varchar \<noteq> None then ''varchar'' else if character \<noteq> None then ''char''
          else if numeric \<noteq> None then ''numeric'' else raw),
       co_length = (case character of Some n \<Rightarrow> Some n | None \<Rightarrow> varchar),
       co_precision = map_option fst numeric,
       co_scale = Option.bind numeric snd,
       co_nullable = cd_nullable d,
       co_default = map_option (\<lambda>v. \<lparr>dv_kind = DefaultExpression, dv_value = v\<rparr>) (cd_default d),
       co_identity = (if cd_identity d = Some True then Some True else None),
       co_generated =
         (case cd_generated d of
            Some e \<Rightarrow> if cd_isGenerated d = Some True \<and> e \<noteq> [] then Some \<lparr>gv_expression = e, gv_stored = None\<rparr> else None
          | None \<Rightarrow> None),
       co_comment = cd_comment d, co_primaryKey = None\<rparr>)"

definition pg_alterationColumn :: "column_patch \<Rightarrow> column_definition \<Rightarrow> column_input" where
  "pg_alterationColumn p d = apply_patch p (pg_columnInput d)"

definition pg_alterTarget :: "string \<times> string \<Rightarrow> designer_error + string" where
  "pg_alterTarget r =
     and_then (pg_quote (fst r)) (\<lambda>s. and_then (pg_quote (snd r)) (\<lambda>n. Inr (s @ ''.'' @ n)))"

definition pg_warningFor :: "ddl_operation \<Rightarrow> ddl_statement \<Rightarrow> string option" where
  "pg_warningFor op s =
     (if op = AlterTable \<and> js_includes '' TYPE '' (ddl_sql s)
      then Some ''Changing a PostgreSQL type may rewrite or lock the table.''
      else if js_includes ''ADD COLUMN'' (ddl_sql s) \<and> js_includes '' DEFAULT '' (ddl_sql s)
      then Some ''A volatile PostgreSQL default may be evaluated for existing rows.''
      else None)"

section \<open>Constraints and indexes\<close>

text \<open>The first pair of columns of a foreign key whose types differ.\<close>

fun pg_type_conflict ::
  "(string, column_definition) jsmap \<Rightarrow> (string, column_definition) jsmap \<Rightarrow> string \<Rightarrow> nat \<Rightarrow>
     string list \<Rightarrow> string list \<Rightarrow> designer_error + unit" where
  "pg_type_conflict cols remotes path i (c # cs) (r # rs) =
     (case (map_of cols (js_lower c), map_of remotes (js_lower r)) of
        (Some a, Some b) \<Rightarrow>
          if normalizedPostgresType (cd_dataType a) \<noteq> normalizedPostgresType (cd_dataType b)
          then Inl (TableInvalid [(at_index (path @ ''.columns'') i, ''incompatible_type'',
                 ''Column '' @ c @ '' must have a compatible type with '' @ r @ ''.'')])
          else pg_type_conflict cols remotes path (i + 1) cs rs
      | _ \<Rightarrow> pg_type_conflict cols remotes path (i + 1) cs rs)"
| "pg_type_conflict cols remotes path i _ _ = Inr ()"

definition action_clause :: "string \<Rightarrow> referential_action option \<Rightarrow> string" where
  "action_clause on a = (case a of None \<Rightarrow> [] | Some x \<Rightarrow> on @ action_sql x)"

definition unsupported_action :: "referential_action list \<Rightarrow> referential_action option \<Rightarrow> bool" where
  "unsupported_action actions a = (case a of None \<Rightarrow> False | Some x \<Rightarrow> x \<notin> set actions)"

definition pg_foreignKey ::
  "designer_reads \<Rightarrow> string \<times> string \<Rightarrow> string \<Rightarrow> string list \<Rightarrow> object_ref \<Rightarrow> string list \<Rightarrow>
     referential_action option \<Rightarrow> referential_action option \<Rightarrow> (string, column_definition) jsmap \<Rightarrow> string \<Rightarrow>
     designer_error + string" where
  "pg_foreignKey reads r pre cs ref rcs onDelete onUpdate cols path =
     and_then (throw_if (ref_type ref \<noteq> ''table'')
       (path @ ''.referencedTable.type'', ''invalid_type'', ''The referenced object must be a table.'')) (\<lambda>_.
     and_then (throw_if (unsupported_action POSTGRES_REFERENTIAL_ACTIONS onDelete)
       (path @ ''.onDelete'', ''invalid_rule'', ''The ON DELETE rule is not supported by PostgreSQL.'')) (\<lambda>_.
     and_then (throw_if (unsupported_action POSTGRES_REFERENTIAL_ACTIONS onUpdate)
       (path @ ''.onUpdate'', ''invalid_rule'', ''The ON UPDATE rule is not supported by PostgreSQL.'')) (\<lambda>_.
     let schema = (case ref_schema ref of Some s \<Rightarrow> s | None \<Rightarrow> fst r) in
     and_then (rd_describe reads
       \<lparr>ref_database = ref_database ref, ref_schema = Some schema, ref_name = ref_name ref, ref_type = ''table''\<rparr>) (\<lambda>target.
     let remotes = by_key cd_name (td_columns target) in
     and_then (throw_issues (pg_list_issues rcs remotes (path @ ''.referencedColumns''))) (\<lambda>_.
     and_then (throw_if (length rcs \<noteq> length cs)
       (path, ''invalid_length'', ''Foreign key column lists must have the same length.'')) (\<lambda>_.
     and_then (pg_type_conflict cols remotes path 0 cs rcs) (\<lambda>_.
     and_then (pg_alterTarget (schema, ref_name ref)) (\<lambda>targetRef.
     and_then (pg_names cs) (\<lambda>qs. and_then (pg_names rcs) (\<lambda>rqs.
       Inr (pre @ ''FOREIGN KEY ('' @ qs @ '') REFERENCES '' @ targetRef @ '' ('' @ rqs @ '')''
            @ action_clause '' ON DELETE '' onDelete @ action_clause '' ON UPDATE '' onUpdate)))))))))))"

definition pg_constraintSql ::
  "designer_reads \<Rightarrow> string \<times> string \<Rightarrow> constraint_input \<Rightarrow> (string, column_definition) jsmap \<Rightarrow> string \<Rightarrow>
     designer_error + string" where
  "pg_constraintSql reads r c cols path =
     and_then (pg_quote (constraint_named 63 (snd r) c)) (\<lambda>q.
       let pre = ''CONSTRAINT '' @ q @ '' '' in
       case c of
         Check n e \<Rightarrow>
           and_then (throws (expression e (path @ ''.expression''))) (\<lambda>e'. Inr (pre @ ''CHECK ('' @ e' @ '')''))
       | PrimaryKey n cs \<Rightarrow>
           and_then (throw_issues (pg_list_issues cs cols (path @ ''.columns''))) (\<lambda>_.
             and_then (pg_names cs) (\<lambda>qs. Inr (pre @ ''PRIMARY KEY ('' @ qs @ '')'')))
       | Unique n cs \<Rightarrow>
           and_then (throw_issues (pg_list_issues cs cols (path @ ''.columns''))) (\<lambda>_.
             and_then (pg_names cs) (\<lambda>qs. Inr (pre @ ''UNIQUE ('' @ qs @ '')'')))
       | ForeignKey n cs ref rcs d u \<Rightarrow>
           and_then (throw_issues (pg_list_issues cs cols (path @ ''.columns''))) (\<lambda>_.
             pg_foreignKey reads r pre cs ref rcs d u cols path))"

definition pg_validateIndexInputs ::
  "index_input list \<Rightarrow> (string, column_definition) jsmap \<Rightarrow> string list \<Rightarrow> string \<Rightarrow> designer_error + unit" where
  "pg_validateIndexInputs xs cols cnames path =
     validate_indexes (\<lambda>ns. pg_list_issues ns cols) 63 (map js_lower cnames) path 0 [] xs"

definition pg_capabilityFor :: "string \<Rightarrow> capability" where
  "pg_capabilityFor version =
     (let ds = takeWhile digit (dropWhile (\<lambda>c. \<not> digit c) version);
          major = (if ds = [] then 0 else decimal ds) in
      \<lparr>cap_version = version,
       cap_flags = [(''schemas'', True), (''viewEditor'', True), (''explain'', True), (''cancelQuery'', True),
         (''backupRestore'', False), (''importExport'', True), (''principals'', True), (''grants'', True),
         (''tableComments'', True), (''generatedColumns'', major \<ge> 12), (''identityColumns'', major \<ge> 10),
         (''checkConstraints'', True), (''materializedViews'', False), (''vacuum'', False),
         (''rowLevelSecurity'', False), (''events'', False), (''binlog'', False)],
       cap_reasons =
         (if major < 12 then [(''generatedColumns'', ''Generated columns require PostgreSQL 12 or newer.'')] else [])
         @ (if major < 10 then [(''identityColumns'', ''Identity columns require PostgreSQL 10 or newer.'')] else [])\<rparr>)"

definition pg_capability :: "designer_reads \<Rightarrow> designer_error + capability" where
  "pg_capability reads = and_then (rd_version reads) (\<lambda>v. Inr (pg_capabilityFor v))"

end
