(* ===== verification/DdlPgCompile.thy ===== *)
theory DdlPgCompile
  imports DdlPostgresql
begin

text \<open>
  The operations of \<open>PostgresqlTableDesigner\<close>: \<open>compile\<close> for a new table and for the alterations of
  an existing one, \<open>preview\<close> and \<open>apply\<close>. The table as it will be is kept in a \<open>designer\<close> state
  while the alterations are compiled one after the other.
\<close>

section \<open>Alterations\<close>

definition alter_table :: "string \<Rightarrow> string \<Rightarrow> ddl_statement" where
  "alter_table target s = plain (''ALTER TABLE '' @ target @ s)"

definition pg_addIndex :: "string \<Rightarrow> string \<times> string \<Rightarrow> index_input \<Rightarrow> nat \<Rightarrow> designer \<Rightarrow> designer_error + designer" where
  "pg_addIndex target r x i g =
     (let n = index_name 63 (snd r) x; path = at_index ''alterations'' i @ ''.index'' in
      and_then (pg_validateIndexInputs [x] (dg_working g) (map cn_name (dg_constraints g)) path) (\<lambda>_.
      and_then (throw_if (taken g n)
        (path @ ''.name'', ''conflict'', ''An index or constraint with this name already exists.'')) (\<lambda>_.
      and_then (pg_indexSql target x n) (\<lambda>sql.
        Inr (push (plain sql) (g\<lparr>dg_indexes := dg_indexes g @
          [\<lparr>id_name = n, id_columns = ix_columns x, id_unique = (ix_unique x = Some True), id_primary = False\<rparr>]\<rparr>))))))"

definition pg_dropIndex :: "string \<times> string \<Rightarrow> string \<Rightarrow> nat \<Rightarrow> designer \<Rightarrow> designer_error + designer" where
  "pg_dropIndex r n i g =
     (let path = at_index ''alterations'' i @ ''.name'' in
      and_then (throws (pg_identifier n path)) (\<lambda>_.
        case remove_named id_name n (dg_indexes g) of
          None \<Rightarrow> Inl (TableInvalid [(path, ''not_found'', ''The index does not exist.'')])
        | Some (x, rest) \<Rightarrow>
            if id_primary x
            then Inl (TableInvalid [(path, ''unsupported'', ''Drop the primary key as a constraint, not as an index.'')])
            else and_then (pg_quote (fst r)) (\<lambda>s. and_then (pg_quote n) (\<lambda>q.
              Inr (push ((plain (''DROP INDEX '' @ s @ ''.'' @ q))\<lparr>ddl_indexes := [n]\<rparr>) (g\<lparr>dg_indexes := rest\<rparr>))))))"

definition named :: "string \<Rightarrow> constraint_input \<Rightarrow> constraint_input" where
  "named n c =
     (case c of PrimaryKey _ cs \<Rightarrow> PrimaryKey (Some n) cs | Unique _ cs \<Rightarrow> Unique (Some n) cs
      | Check _ e \<Rightarrow> Check (Some n) e | ForeignKey _ cs ref rcs d u \<Rightarrow> ForeignKey (Some n) cs ref rcs d u)"

definition pg_addConstraint ::
  "designer_reads \<Rightarrow> string \<Rightarrow> string \<times> string \<Rightarrow> constraint_input \<Rightarrow> nat \<Rightarrow> designer \<Rightarrow> designer_error + designer" where
  "pg_addConstraint reads target r c i g =
     (let n = constraint_named 63 (snd r) c; path = at_index ''alterations'' i @ ''.constraint'' in
      and_then (throw_if (taken g n)
        (path @ ''.name'', ''conflict'', ''An index or constraint with this name already exists.'')) (\<lambda>_.
      and_then (pg_constraintSql reads r (named n c) (dg_working g) path) (\<lambda>sql.
        Inr (push (alter_table target ('' ADD '' @ sql)) (g\<lparr>dg_constraints := dg_constraints g @
          [\<lparr>cn_name = n, cn_type = constraint_kind c, cn_columns = constraint_columns c\<rparr>]\<rparr>)))))"

definition drop_warning :: "constraint_type \<Rightarrow> string option" where
  "drop_warning t =
     (if t = TypePrimaryKey then Some ''Dropping the primary key removes the row identity used by the data browser.''
      else if t = TypeForeignKey then Some ''Dropping the foreign key removes relational integrity.''
      else None)"

definition pg_dropConstraint ::
  "string \<Rightarrow> string \<Rightarrow> constraint_type option \<Rightarrow> nat \<Rightarrow> designer \<Rightarrow> designer_error + designer" where
  "pg_dropConstraint target n t i g =
     (let path = at_index ''alterations'' i @ ''.name'' in
      and_then (throws (pg_identifier n path)) (\<lambda>_.
        case remove_named cn_name n (dg_constraints g) of
          None \<Rightarrow> Inl (TableInvalid [(path, ''not_found'', ''The constraint does not exist.'')])
        | Some (x, rest) \<Rightarrow>
            and_then (pg_quote n) (\<lambda>q.
              Inr (push ((alter_table target ('' DROP CONSTRAINT '' @ q))
                    \<lparr>ddl_constraints := [n], ddl_warning := drop_warning (case t of Some t \<Rightarrow> t | None \<Rightarrow> cn_type x)\<rparr>)
                  (g\<lparr>dg_constraints := rest\<rparr>)))))"

definition comment_on :: "string \<Rightarrow> string \<Rightarrow> string option \<Rightarrow> ddl_statement" where
  "comment_on target q c =
     plain (''COMMENT ON COLUMN '' @ target @ ''.'' @ q @ '' IS '' @
            (case c of None \<Rightarrow> ''NULL'' | Some t \<Rightarrow> quoteLiteral t))"

definition pg_addColumn ::
  "string \<Rightarrow> capability \<Rightarrow> column_input \<Rightarrow> nat \<Rightarrow> designer \<Rightarrow> designer_error + designer" where
  "pg_addColumn target cap c i g =
     (let path = at_index ''alterations'' i @ ''.column''; k = js_lower (co_name c) in
      and_then (pg_validateColumn c path cap) (\<lambda>_.
      and_then (throw_if (has_key (dg_working g) k) (path @ ''.name'', ''conflict'', ''This column already exists.'')) (\<lambda>_.
      and_then (pg_columnSql c) (\<lambda>sql.
      let g1 = push (alter_table target ('' ADD COLUMN '' @ sql))
                 (g\<lparr>dg_working := js_set (dg_working g) k (as_definition c)\<rparr>) in
      case co_comment c of
        None \<Rightarrow> Inr g1
      | Some t \<Rightarrow> and_then (pg_quote (co_name c)) (\<lambda>q. Inr (push (comment_on target q (Some t)) g1))))))"

definition pg_dropColumn :: "string \<Rightarrow> string \<Rightarrow> designer \<Rightarrow> designer_error + designer" where
  "pg_dropColumn target n g =
     and_then (pg_quote n) (\<lambda>q.
       Inr (push ((alter_table target ('' DROP COLUMN '' @ q))\<lparr>ddl_columns := [n]\<rparr>)
         (g\<lparr>dg_working := js_delete (dg_working g) (js_lower n)\<rparr>)))"

definition pg_renameColumn ::
  "string \<Rightarrow> string \<Rightarrow> string \<Rightarrow> column_definition \<Rightarrow> nat \<Rightarrow> designer \<Rightarrow> designer_error + designer" where
  "pg_renameColumn target n newName current i g =
     (let path = at_index ''alterations'' i @ ''.newName'' in
      and_then (throws (pg_identifier newName path)) (\<lambda>_.
      and_then (throw_if (has_key (dg_working g) (js_lower newName)) (path, ''conflict'', ''This column already exists.'')) (\<lambda>_.
      and_then (pg_quote n) (\<lambda>q. and_then (pg_quote newName) (\<lambda>q'.
        Inr (push (alter_table target ('' RENAME COLUMN '' @ q @ '' TO '' @ q'))
          (g\<lparr>dg_working := js_set (js_delete (dg_working g) (js_lower n)) (js_lower newName)
               (current\<lparr>cd_name := newName\<rparr>)\<rparr>)))))))"

definition recreate_warning :: string where
  "recreate_warning = ''Changing a generated expression recreates the column and can remove its data.''"

definition push_all :: "ddl_statement list \<Rightarrow> designer \<Rightarrow> designer" where
  "push_all ss g = g\<lparr>dg_statements := dg_statements g @ ss\<rparr>"

text \<open>The statements that turn a column into another; the new default is computed on the way.\<close>

definition pg_changes ::
  "string \<Rightarrow> string \<Rightarrow> column_definition \<Rightarrow> column_input \<Rightarrow> designer_error + ddl_statement list" where
  "pg_changes target q current next =
     (let old = pg_columnInput current; column = '' ALTER COLUMN '' @ q in
      and_then (if map_option dv_value (co_default next) \<noteq> map_option dv_value (co_default old)
                   \<or> map_option dv_kind (co_default next) \<noteq> map_option dv_kind (co_default old)
                then (case co_default next of
                        None \<Rightarrow> Inr [alter_table target (column @ '' DROP DEFAULT'')]
                      | Some d \<Rightarrow> and_then (pg_defaultSql (Some d) (co_dataType next))
                                   (\<lambda>s. Inr [alter_table target (column @ '' SET'' @ s)]))
                else Inr []) (\<lambda>defaults.
       Inr ((if co_dataType next \<noteq> co_dataType old \<or> co_length next \<noteq> co_length old
                \<or> co_precision next \<noteq> co_precision old \<or> co_scale next \<noteq> co_scale old
             then [alter_table target (column @ '' TYPE '' @ pg_typeSql next)] else [])
         @ (if co_nullable next \<noteq> cd_nullable current
            then [alter_table target (column @ '' '' @ (if co_nullable next then ''DROP NOT NULL'' else ''SET NOT NULL''))]
            else [])
         @ defaults
         @ (if co_identity next \<noteq> cd_identity current
            then [alter_table target (column @ '' '' @ (if co_identity next = Some True
                    then ''ADD GENERATED BY DEFAULT AS IDENTITY'' else ''DROP IDENTITY IF EXISTS''))]
            else [])
         @ (if co_comment next \<noteq> cd_comment current then [comment_on target q (co_comment next)] else []))))"

definition pg_modifyColumn ::
  "string \<Rightarrow> capability \<Rightarrow> column_patch \<Rightarrow> column_definition \<Rightarrow> nat \<Rightarrow> designer \<Rightarrow> designer_error + designer" where
  "pg_modifyColumn target cap p current i g =
     (let next = pg_alterationColumn p current; path = at_index ''alterations'' i @ ''.changes'' in
      and_then (pg_validateColumn next path cap) (\<lambda>_.
      and_then (throw_if (pa_primaryKey p \<noteq> None)
        (path @ ''.primaryKey'', ''unsupported'', ''Primary key editing is handled by the table constraint designer.'')) (\<lambda>_.
      and_then (pg_quote (cd_name current)) (\<lambda>q.
      and_then (if map_option gv_expression (co_generated next)
                   \<noteq> map_option gv_expression (co_generated (pg_columnInput current))
                then and_then (pg_columnSql (next\<lparr>co_name := cd_name current\<rparr>)) (\<lambda>sql.
                  Inr [(alter_table target ('' DROP COLUMN '' @ q))
                         \<lparr>ddl_columns := [cd_name current], ddl_warning := Some recreate_warning\<rparr>,
                       (alter_table target ('' ADD COLUMN '' @ sql))
                         \<lparr>ddl_columns := [cd_name current], ddl_warning := Some recreate_warning\<rparr>])
                else pg_changes target q current next) (\<lambda>ss.
        Inr (push_all ss (g\<lparr>dg_working := js_set (dg_working g) (js_lower (cd_name current)) (overlay current next)\<rparr>)))))))"

definition pg_compileAlteration ::
  "designer_reads \<Rightarrow> string \<times> string \<Rightarrow> capability \<Rightarrow> nat \<Rightarrow> alteration \<Rightarrow> designer \<Rightarrow> designer_error + designer" where
  "pg_compileAlteration reads r cap i a g =
     and_then (pg_alterTarget r) (\<lambda>target.
       let column = (\<lambda>n f. case map_of (dg_working g) (js_lower n) of
             None \<Rightarrow> Inl (TableInvalid [(at_index ''alterations'' i @ ''.name'', ''not_found'', ''The column does not exist.'')])
           | Some d \<Rightarrow> f d) in
       case a of
         AddIndex x \<Rightarrow> pg_addIndex target r x i g
       | DropIndex n \<Rightarrow> pg_dropIndex r n i g
       | AddConstraint c \<Rightarrow> pg_addConstraint reads target r c i g
       | DropConstraint n t \<Rightarrow> pg_dropConstraint target n t i g
       | AddColumn c \<Rightarrow> pg_addColumn target cap c i g
       | DropColumn n \<Rightarrow> column n (\<lambda>d. pg_dropColumn target n g)
       | RenameColumn n m \<Rightarrow> column n (\<lambda>d. pg_renameColumn target n m d i g)
       | ModifyColumn n p \<Rightarrow> column n (\<lambda>d. pg_modifyColumn target cap p d i g))"

fun pg_alterations ::
  "designer_reads \<Rightarrow> string \<times> string \<Rightarrow> capability \<Rightarrow> nat \<Rightarrow> alteration list \<Rightarrow> designer \<Rightarrow> designer_error + designer" where
  "pg_alterations reads r cap i [] g = Inr g"
| "pg_alterations reads r cap i (a # as) g =
     and_then (pg_compileAlteration reads r cap i a g) (pg_alterations reads r cap (i + 1) as)"

section \<open>Compiling\<close>

fun column_checks :: "(column_input \<Rightarrow> string \<Rightarrow> designer_error + unit) \<Rightarrow> nat \<Rightarrow> column_input list \<Rightarrow> designer_error + unit" where
  "column_checks check i [] = Inr ()"
| "column_checks check i (c # cs) =
     and_then (check c (at_index ''columns'' i)) (\<lambda>_. column_checks check (i + 1) cs)"

fun constraint_definitions ::
  "(constraint_input \<Rightarrow> string \<Rightarrow> designer_error + string) \<Rightarrow> nat \<Rightarrow> constraint_input list \<Rightarrow> designer_error + string list" where
  "constraint_definitions f i [] = Inr []"
| "constraint_definitions f i (c # cs) =
     and_then (f c (at_index ''constraints'' i)) (\<lambda>s.
       and_then (constraint_definitions f (i + 1) cs) (\<lambda>ss. Inr (s # ss)))"

definition constraint_names :: "constraint_input list \<Rightarrow> string list" where
  "constraint_names cs = concat (map (\<lambda>c. case constraint_name c of None \<Rightarrow> [] | Some n \<Rightarrow> [n]) cs)"

definition pg_column_comments :: "string \<Rightarrow> column_input list \<Rightarrow> designer_error + ddl_statement list" where
  "pg_column_comments target cs =
     map_throw (\<lambda>c. and_then (pg_quote (co_name c)) (\<lambda>q. Inr (comment_on target q (co_comment c))))
       (filter (\<lambda>c. co_comment c \<noteq> None) cs)"

definition pg_create ::
  "designer_reads \<Rightarrow> string \<times> string \<Rightarrow> capability \<Rightarrow> change_set \<Rightarrow> designer_error + ddl_statement list" where
  "pg_create reads r cap s =
     (let columns = cs_columns s in
      and_then (throw_if (columns = []) (''columns'', ''required'', ''At least one column is required.'')) (\<lambda>_.
      and_then (pg_validateUnique columns ''columns'') (\<lambda>_.
      and_then (column_checks (\<lambda>c p. pg_validateColumn c p cap) 0 columns) (\<lambda>_.
      and_then (rd_exists reads (fst r) (snd r)) (\<lambda>existing.
      and_then (throw_if existing (''ref.name'', ''conflict'', ''A table with this name already exists.'')) (\<lambda>_.
      let working = map (\<lambda>(k, c). (k, as_definition c)) (by_key co_name columns) in
      and_then (map_throw pg_columnSql columns) (\<lambda>defs.
      and_then (constraint_definitions (\<lambda>c p. pg_constraintSql reads r c working p) 0 (cs_constraints s)) (\<lambda>cdefs.
      and_then (pg_validateIndexInputs (cs_indexes s) working (constraint_names (cs_constraints s)) ''indexes'') (\<lambda>_.
      and_then (pg_alterTarget r) (\<lambda>target.
      and_then (map_throw (\<lambda>x. and_then (pg_indexSql target x (index_name 63 (snd r) x)) (\<lambda>q. Inr (plain q))) (cs_indexes s)) (\<lambda>is.
      and_then (pg_column_comments target columns) (\<lambda>cs.
        Inr (plain (''CREATE TABLE '' @ target @ '' ('' @ join '', '' (defs @ cdefs) @ '')'') # is @ cs)))))))))))))"

definition pg_alter ::
  "designer_reads \<Rightarrow> string \<times> string \<Rightarrow> capability \<Rightarrow> change_set \<Rightarrow> designer_error + ddl_statement list" where
  "pg_alter reads r cap s =
     and_then (rd_describe reads ((cs_ref s)\<lparr>ref_type := ''table''\<rparr>)) (\<lambda>current.
     and_then (pg_alterations reads r cap 0 (cs_alterations s)
         \<lparr>dg_statements = [], dg_working = by_key cd_name (td_columns current),
          dg_indexes = td_indexes current, dg_constraints = td_constraints current\<rparr>) (\<lambda>g.
     and_then (throw_if (cs_alterations s = []) (''alterations'', ''required'', ''At least one alteration is required.'')) (\<lambda>_.
       Inr (dg_statements g))))"

definition pg_compile :: "designer_reads \<Rightarrow> change_set \<Rightarrow> designer_error + ddl_preview" where
  "pg_compile reads s =
     and_then (pg_tableRef (cs_ref s)) (\<lambda>r.
     and_then (pg_capability reads) (\<lambda>cap.
     and_then (case cs_operation s of CreateTable \<Rightarrow> pg_create reads r cap s | AlterTable \<Rightarrow> pg_alter reads r cap s) (\<lambda>ss.
       Inr (preview_of (cs_operation s) (pg_warningFor (cs_operation s)) ss))))"

section \<open>Applying\<close>

text \<open>
  The connection over a world \<open>'w\<close>: what is read, running a statement, and the transaction. An error
  is its message.
\<close>

record 'w ddl_port =
  dp_reads :: "'w \<Rightarrow> designer_reads"
  dp_run :: "string \<Rightarrow> 'w \<Rightarrow> 'w \<times> (string + unit)"
  dp_begin :: "'w \<Rightarrow> 'w \<times> (string + unit)"
  dp_commit :: "'w \<Rightarrow> 'w \<times> (string + unit)"
  dp_rollback :: "'w \<Rightarrow> 'w \<times> (string + unit)"

text \<open>\<open>query\<close> without values: the text is cut at its question marks, of which there may be none.\<close>

definition pg_query :: "'w ddl_port \<Rightarrow> string \<Rightarrow> 'w \<Rightarrow> 'w \<times> (string + unit)" where
  "pg_query p sql w =
     (if length (js_split CHR ''?'' sql) \<noteq> 1 then (w, Inl ''PostgreSQL table designer query is invalid.'')
      else dp_run p sql w)"

fun run_statements ::
  "(string \<Rightarrow> 'w \<Rightarrow> 'w \<times> (string + unit)) \<Rightarrow> (nat \<Rightarrow> ddl_result list \<Rightarrow> designer_error) \<Rightarrow> nat \<Rightarrow> ddl_statement list \<Rightarrow>
     ddl_result list \<Rightarrow> 'w \<Rightarrow> 'w \<times> (designer_error + ddl_result list)" where
  "run_statements run fail i [] done w = (w, Inr done)"
| "run_statements run fail i (s # ss) done w =
     (case run (ddl_sql s) w of
        (w', Inr _) \<Rightarrow> run_statements run fail (i + 1) ss (done @ [success i (ddl_sql s)]) w'
      | (w', Inl m) \<Rightarrow> (w', Inl (fail i (done @ [failed_at i (ddl_sql s) m]))))"

definition pg_failure :: "ddl_operation \<Rightarrow> nat \<Rightarrow> ddl_result list \<Rightarrow> designer_error" where
  "pg_failure op i rs =
     TableApply i \<lparr>ar_operation = op, ar_transactional = True, ar_committed = False, ar_statements = rs\<rparr>
       (''PostgreSQL statement '' @ show_nat (i + 1) @ '' failed and the transaction was rolled back.'')"

text \<open>\<open>withTransaction\<close>: an error of the rollback is dropped.\<close>

definition in_transaction ::
  "'w ddl_port \<Rightarrow> ('w \<Rightarrow> 'w \<times> (designer_error + 'a)) \<Rightarrow> 'w \<Rightarrow> 'w \<times> (designer_error + 'a)" where
  "in_transaction p operation w =
     (case dp_begin p w of
        (w1, Inl m) \<Rightarrow> (w1, Inl (TableDb m))
      | (w1, Inr _) \<Rightarrow>
          (case operation w1 of
             (w2, Inl e) \<Rightarrow> (fst (dp_rollback p w2), Inl e)
           | (w2, Inr a) \<Rightarrow>
               (case dp_commit p w2 of
                  (w3, Inl m) \<Rightarrow> (fst (dp_rollback p w3), Inl (TableDb m))
                | (w3, Inr _) \<Rightarrow> (w3, Inr a))))"

definition pg_preview :: "'w ddl_port \<Rightarrow> change_set \<Rightarrow> 'w \<Rightarrow> designer_error + ddl_preview" where
  "pg_preview p s w = pg_compile (dp_reads p w) s"

definition pg_apply :: "'w ddl_port \<Rightarrow> change_set \<Rightarrow> 'w \<Rightarrow> 'w \<times> (designer_error + ddl_apply_result)" where
  "pg_apply p s w =
     (case pg_compile (dp_reads p w) s of
        Inl e \<Rightarrow> (w, Inl e)
      | Inr preview \<Rightarrow>
          in_transaction p (\<lambda>w.
            case run_statements (pg_query p) (pg_failure (cs_operation s)) 0 (pv_statements preview) [] w of
              (w', Inl e) \<Rightarrow> (w', Inl e)
            | (w', Inr rs) \<Rightarrow>
                (w', Inr \<lparr>ar_operation = cs_operation s, ar_transactional = True, ar_committed = True, ar_statements = rs\<rparr>)) w)"

end
