(* ===== verification/DdlMysql.thy ===== *)
theory DdlMysql
  imports DdlPgCompile
begin

text \<open>
  The MySQL table designer, \<open>packages/database-mysql/src/table-designer.ts\<close>: as the PostgreSQL one, with
  the types and limits of MySQL, auto increment in place of identity, a supporting index for each
  foreign key, one \<open>MODIFY COLUMN\<close> for every change of a column, and no transaction around the
  statements. The state of a compilation and the loops over columns, constraints and statements are
  those of the PostgreSQL designer, whose text is the same.
\<close>

section \<open>Types\<close>

definition my_TYPES :: "(string \<times> string \<times> string list) list" where
  "my_TYPES = [
     (''tinyint'', ''Tiny integer'', []), (''smallint'', ''Small integer'', []), (''mediumint'', ''Medium integer'', []),
     (''int'', ''Integer'', []), (''bigint'', ''Large integer'', []), (''decimal'', ''Decimal'', [''precision'', ''scale'']),
     (''float'', ''Float'', []), (''double'', ''Double'', []), (''boolean'', ''Boolean'', []),
     (''char'', ''Character'', [''length'']), (''varchar'', ''Variable character'', [''length'']), (''text'', ''Text'', []),
     (''date'', ''Date'', []), (''datetime'', ''Date and time'', []), (''timestamp'', ''Timestamp'', []),
     (''time'', ''Time'', []), (''json'', ''JSON'', []), (''blob'', ''Binary'', [])]"

definition my_INTEGER_TYPES :: "string list" where
  "my_INTEGER_TYPES = [''tinyint'', ''smallint'', ''mediumint'', ''int'', ''bigint'']"

definition my_NUMERIC_TYPES :: "string list" where
  "my_NUMERIC_TYPES = my_INTEGER_TYPES @ [''decimal'', ''float'', ''double'']"

definition MYSQL_REFERENTIAL_ACTIONS :: "referential_action list" where
  "MYSQL_REFERENTIAL_ACTIONS = [NoAction, Restrict, Cascade, SetNull]"

definition MYSQL_MAX_CONSTRAINT_COLUMNS :: nat where "MYSQL_MAX_CONSTRAINT_COLUMNS = 16"

definition my_typeDefinition :: "string \<Rightarrow> (string \<times> string \<times> string list) option" where
  "my_typeDefinition v = find (\<lambda>t. fst t = js_lower (js_trim v)) my_TYPES"

section \<open>Checks\<close>

definition my_identifier :: "string \<Rightarrow> string \<Rightarrow> issue list + string" where
  "my_identifier = valid_identifier 64 ''MySQL''"

definition my_tableRef :: "object_ref \<Rightarrow> designer_error + (string \<times> string)" where
  "my_tableRef r =
     (if ref_type r \<noteq> ''table'' then Inl (TableInvalid [(''ref.type'', ''invalid_type'', ''ref.type must be table.'')])
      else and_then (throws (my_identifier (ref_database r) ''ref.database'')) (\<lambda>d.
           and_then (throws (my_identifier (ref_name r) ''ref.name'')) (\<lambda>n. Inr (d, n))))"

definition my_column_issues :: "column_input \<Rightarrow> string \<Rightarrow> capability \<Rightarrow> issue list" where
  "my_column_issues c path cap =
     (let dataType = js_lower (js_trim (co_dataType c));
          params = map_option (snd \<circ> snd) (my_typeDefinition dataType);
          takes = (\<lambda>p. case params of None \<Rightarrow> False | Some ps \<Rightarrow> p \<in> set ps);
          is_identity = (co_identity c = Some True); is_generated = (co_generated c \<noteq> None) in
      issues_of (my_identifier (co_name c) (path @ ''.name''))
      @ (if params = None then [(path @ ''.dataType'', ''unknown_type'', ''This MySQL column type is not supported.'')] else [])
      @ (case co_length c of None \<Rightarrow> [] | Some n \<Rightarrow>
           if params \<noteq> None \<and> (\<not> takes ''length'' \<or> \<not> safe_integer n \<or> n < 1 \<or> n > 65535)
           then [(path @ ''.length'', ''invalid_parameter'', ''Length must be a positive integer supported by this type.'')]
           else [])
      @ (case co_precision c of None \<Rightarrow> [] | Some n \<Rightarrow>
           if params \<noteq> None \<and> (\<not> takes ''precision'' \<or> \<not> safe_integer n \<or> n < 1 \<or> n > 65)
           then [(path @ ''.precision'', ''invalid_parameter'', ''Precision must be an integer between 1 and 65.'')]
           else [])
      @ (case co_scale c of None \<Rightarrow> [] | Some n \<Rightarrow>
           if params \<noteq> None \<and> (\<not> takes ''scale'' \<or> \<not> safe_integer n \<or> n < 0
              \<or> (case co_precision c of None \<Rightarrow> True | Some p \<Rightarrow> n > p))
           then [(path @ ''.scale'', ''invalid_parameter'', ''Scale must be between zero and precision.'')]
           else [])
      @ (if is_identity \<and> \<not> capable cap ''identityColumns''
         then [(path @ ''.identity'', ''unsupported'',
                reason cap ''identityColumns'' ''Auto increment columns are not supported by this server.'')] else [])
      @ (if is_generated \<and> \<not> capable cap ''generatedColumns''
         then [(path @ ''.generated'', ''unsupported'',
                reason cap ''generatedColumns'' ''Generated columns are not supported by this server.'')] else [])
      @ (if is_identity \<and> is_generated
         then [(path @ ''.generated'', ''mutually_exclusive'', ''Auto increment and generated columns cannot be combined.'')]
         else [])
      @ validateDefault my_NUMERIC_TYPES (co_default c) dataType (path @ ''.default'')
      @ (if (is_identity \<or> is_generated) \<and> co_default c \<noteq> None
         then [(path @ ''.default'', ''mutually_exclusive'', ''Auto increment or generated columns cannot have a default.'')]
         else [])
      @ (case co_generated c of None \<Rightarrow> []
         | Some g \<Rightarrow> issues_of (expression (gv_expression g) (path @ ''.generated.expression'')))
      @ (if is_identity \<and> params \<noteq> None \<and> dataType \<notin> set my_INTEGER_TYPES
         then [(path @ ''.identity'', ''incompatible_type'', ''Auto increment columns require an integer type.'')]
         else []))"

definition my_validateColumn :: "column_input \<Rightarrow> string \<Rightarrow> capability \<Rightarrow> designer_error + unit" where
  "my_validateColumn c path cap = throw_issues (my_column_issues c path cap)"

definition my_list_issues :: "string list \<Rightarrow> (string, 'a) jsmap \<Rightarrow> string \<Rightarrow> issue list" where
  "my_list_issues names cols path =
     list_issues MYSQL_MAX_CONSTRAINT_COLUMNS
       ''This MySQL server supports at most 16 columns per index or constraint.'' names cols path"

definition my_validateUnique :: "column_input list \<Rightarrow> string \<Rightarrow> designer_error + unit" where
  "my_validateUnique cs path = throw_issues (duplicate_issues path 0 [] cs)"

definition normalizedMysqlType :: "string \<Rightarrow> string" where
  "normalizedMysqlType v = strip_params (collapse_ws (js_lower (js_trim v)))"

definition sameMysqlForeignKeyType :: "string \<Rightarrow> string \<Rightarrow> bool" where
  "sameMysqlForeignKeyType a b \<longleftrightarrow> normalizedMysqlType a = normalizedMysqlType b"

fun starts_with_columns :: "string list \<Rightarrow> string list \<Rightarrow> bool" where
  "starts_with_columns [] ys \<longleftrightarrow> True"
| "starts_with_columns (x # xs) [] \<longleftrightarrow> False"
| "starts_with_columns (x # xs) (y # ys) \<longleftrightarrow> js_lower y = js_lower x \<and> starts_with_columns xs ys"

definition hasSupportingIndex :: "index_definition list \<Rightarrow> string list \<Rightarrow> bool" where
  "hasSupportingIndex ixs cs \<longleftrightarrow> list_ex (\<lambda>x. starts_with_columns cs (id_columns x)) ixs"

section \<open>SQL\<close>

definition my_generatedName :: "string \<Rightarrow> string \<Rightarrow> string list \<Rightarrow> string" where
  "my_generatedName = generatedName 64"

definition my_quote :: "string \<Rightarrow> designer_error + string" where
  "my_quote n = quoted (quoteMysqlIdentifier n)"

definition my_names :: "string list \<Rightarrow> designer_error + string" where
  "my_names ns = and_then (map_throw my_quote ns) (\<lambda>qs. Inr (join '', '' qs))"

definition my_indexSql :: "string \<Rightarrow> index_input \<Rightarrow> string \<Rightarrow> designer_error + string" where
  "my_indexSql target x n =
     and_then (my_quote n) (\<lambda>q. and_then (my_names (ix_columns x)) (\<lambda>cs.
       Inr (''CREATE'' @ (if ix_unique x = Some True then '' UNIQUE'' else []) @ '' INDEX '' @ q @ '' ON '' @ target
            @ '' ('' @ cs @ '')'')))"

definition my_defaultSql :: "default_value option \<Rightarrow> string \<Rightarrow> designer_error + string" where
  "my_defaultSql v type =
     (case v of
        None \<Rightarrow> Inr []
      | Some d \<Rightarrow>
          if dv_kind d = DefaultExpression
          then and_then (throws (expression (dv_value d) ''default'')) (\<lambda>e. Inr ('' DEFAULT '' @ e))
          else if null_literal (dv_value d) then Inr '' DEFAULT NULL''
          else if type = ''boolean''
          then Inr ('' DEFAULT '' @ (if js_lower (dv_value d) \<in> {''true'', ''1''} then ''1'' else ''0''))
          else Inr ('' DEFAULT '' @
            (if type \<in> set my_NUMERIC_TYPES then js_trim (dv_value d) else quoteLiteral (dv_value d))))"

definition my_typeSql :: "column_input \<Rightarrow> string" where
  "my_typeSql c =
     (let type = js_lower (js_trim (co_dataType c)) in
      type @
      (if type = ''char'' \<or> type = ''varchar''
       then (case co_length c of None \<Rightarrow> [] | Some n \<Rightarrow> ''('' @ show_int n @ '')'')
       else if type = ''decimal''
       then (case co_precision c of None \<Rightarrow> []
             | Some p \<Rightarrow> ''('' @ show_int p @ (case co_scale c of None \<Rightarrow> [] | Some s \<Rightarrow> '','' @ show_int s) @ '')'')
       else []))"

definition my_columnSql :: "column_input \<Rightarrow> designer_error + string" where
  "my_columnSql c =
     (let type = js_lower (js_trim (co_dataType c)) in
      and_then (case co_generated c of None \<Rightarrow> Inr []
                | Some g \<Rightarrow> and_then (throws (expression (gv_expression g) ''generated.expression''))
                              (\<lambda>e. Inr ('' GENERATED ALWAYS AS ('' @ e @ '') ''
                                        @ (if gv_stored g = Some False then ''VIRTUAL'' else ''STORED'')))) (\<lambda>generated.
      and_then (my_quote (co_name c)) (\<lambda>q.
      and_then (my_defaultSql (co_default c) type) (\<lambda>def.
        Inr (q @ '' '' @ my_typeSql c
             @ (if co_nullable c then [] else '' NOT NULL'')
             @ (if generated \<noteq> [] then generated
                else if co_identity c = Some True then '' AUTO_INCREMENT'' else [])
             @ def
             @ (case co_comment c of None \<Rightarrow> [] | Some t \<Rightarrow> '' COMMENT '' @ quoteLiteral t)
             @ (if co_primaryKey c = Some True then '' PRIMARY KEY'' else []))))))"

definition my_columnInput :: "column_definition \<Rightarrow> column_input" where
  "my_columnInput d =
     (let raw = js_lower (js_trim (cd_dataType d));
          parameterized = (case type_length ''varchar'' raw of Some n \<Rightarrow> Some n | None \<Rightarrow> type_length ''char'' raw);
          dec = type_numeric ''decimal'' raw in
      \<lparr>co_name = cd_name d,
       co_dataType =
         (if parameterized \<noteq> None then takeWhile (\<lambda>c. c \<noteq> CHR ''('') raw
          else if dec \<noteq> None then ''decimal'' else raw),
       co_length = parameterized,
       co_precision = map_option fst dec,
       co_scale = Option.bind dec snd,
       co_nullable = cd_nullable d,
       co_default = map_option (\<lambda>v. \<lparr>dv_kind = DefaultExpression, dv_value = v\<rparr>) (cd_default d),
       co_identity = (if cd_identity d = Some True then Some True else None),
       co_generated =
         (case cd_generated d of
            Some e \<Rightarrow> if cd_isGenerated d = Some True \<and> e \<noteq> [] then Some \<lparr>gv_expression = e, gv_stored = None\<rparr> else None
          | None \<Rightarrow> None),
       co_comment = cd_comment d, co_primaryKey = None\<rparr>)"

definition mergedColumn :: "column_patch \<Rightarrow> column_definition \<Rightarrow> column_input" where
  "mergedColumn p d = apply_patch p (my_columnInput d)"

definition my_warningFor :: "ddl_statement \<Rightarrow> string option" where
  "my_warningFor s =
     (if js_includes ''MODIFY COLUMN'' (ddl_sql s) \<or> js_includes ''RENAME COLUMN'' (ddl_sql s)
      then Some ''MySQL may rewrite and lock the table for this column change.''
      else None)"

definition my_target :: "string \<times> string \<Rightarrow> designer_error + string" where
  "my_target r =
     and_then (my_quote (fst r)) (\<lambda>s. and_then (my_quote (snd r)) (\<lambda>n. Inr (s @ ''.'' @ n)))"

section \<open>Constraints and indexes\<close>

fun my_type_conflict ::
  "(string, column_definition) jsmap \<Rightarrow> (string, column_definition) jsmap \<Rightarrow> string \<Rightarrow> nat \<Rightarrow>
     string list \<Rightarrow> string list \<Rightarrow> designer_error + unit" where
  "my_type_conflict cols remotes path i (c # cs) (r # rs) =
     (case (map_of cols (js_lower c), map_of remotes (js_lower r)) of
        (Some a, Some b) \<Rightarrow>
          if \<not> sameMysqlForeignKeyType (cd_dataType a) (cd_dataType b)
          then Inl (TableInvalid [(at_index (path @ ''.columns'') i, ''incompatible_type'',
                 ''Column '' @ c @ '' must have the same type as '' @ r @ ''.'')])
          else my_type_conflict cols remotes path (i + 1) cs rs
      | _ \<Rightarrow> my_type_conflict cols remotes path (i + 1) cs rs)"
| "my_type_conflict cols remotes path i _ _ = Inr ()"

definition my_unsupported :: "referential_action option \<Rightarrow> string" where
  "my_unsupported a = ''MySQL does not support '' @ action_clause [] a @ '' for foreign keys.''"

definition my_foreignKey ::
  "designer_reads \<Rightarrow> string \<Rightarrow> string list \<Rightarrow> object_ref \<Rightarrow> string list \<Rightarrow>
     referential_action option \<Rightarrow> referential_action option \<Rightarrow> (string, column_definition) jsmap \<Rightarrow> string \<Rightarrow>
     designer_error + string" where
  "my_foreignKey reads pre cs ref rcs onDelete onUpdate cols path =
     and_then (throw_if (ref_type ref \<noteq> ''table'')
       (path @ ''.referencedTable.type'', ''invalid_type'', ''The referenced object must be a table.'')) (\<lambda>_.
     and_then (throw_if (unsupported_action MYSQL_REFERENTIAL_ACTIONS onDelete)
       (path @ ''.onDelete'', ''unsupported'', my_unsupported onDelete)) (\<lambda>_.
     and_then (throw_if (unsupported_action MYSQL_REFERENTIAL_ACTIONS onUpdate)
       (path @ ''.onUpdate'', ''unsupported'', my_unsupported onUpdate)) (\<lambda>_.
     and_then (rd_describe reads
       \<lparr>ref_database = ref_database ref, ref_schema = None, ref_name = ref_name ref, ref_type = ''table''\<rparr>) (\<lambda>target.
     let remotes = by_key cd_name (td_columns target) in
     and_then (throw_issues (my_list_issues rcs remotes (path @ ''.referencedColumns''))) (\<lambda>_.
     and_then (throw_if (length rcs \<noteq> length cs)
       (path, ''invalid_length'', ''Foreign key column lists must have the same length.'')) (\<lambda>_.
     and_then (my_type_conflict cols remotes path 0 cs rcs) (\<lambda>_.
     and_then (my_target (ref_database ref, ref_name ref)) (\<lambda>targetRef.
     and_then (my_names cs) (\<lambda>qs. and_then (my_names rcs) (\<lambda>rqs.
       Inr (pre @ ''FOREIGN KEY ('' @ qs @ '') REFERENCES '' @ targetRef @ '' ('' @ rqs @ '')''
            @ action_clause '' ON DELETE '' onDelete @ action_clause '' ON UPDATE '' onUpdate)))))))))))"

text \<open>
  \<open>capability\<close>. A part of the version that is not a number is \<open>NaN\<close> (None), which no comparison
  holds of; a part that is missing counts as 0. The other spellings of numbers that \<open>Number\<close> reads
  (a sign, an exponent, another base) are no parts of a version.
\<close>

definition version_number :: "string \<Rightarrow> int option" where
  "version_number s = (if s = [] then Some 0 else if digits s then Some (decimal s) else None)"

definition version_part :: "int option list \<Rightarrow> nat \<Rightarrow> int option" where
  "version_part vs i = (if i < length vs then vs ! i else Some 0)"

definition gt_number :: "int option \<Rightarrow> int \<Rightarrow> bool" where
  "gt_number x n = (case x of None \<Rightarrow> False | Some m \<Rightarrow> m > n)"

definition my_checks :: "string \<Rightarrow> bool" where
  "my_checks version =
     (let vs = map version_number (js_split CHR ''.'' version) in
      gt_number (version_part vs 0) 8
      \<or> version_part vs 0 = Some 8 \<and> gt_number (version_part vs 1) 0
      \<or> version_part vs 0 = Some 8 \<and> version_part vs 1 = Some 0 \<and> gt_number (version_part vs 2) 15)"

definition my_capabilityFor :: "string \<Rightarrow> capability" where
  "my_capabilityFor version =
     (let checks = my_checks version in
      \<lparr>cap_version = version,
       cap_flags = [(''schemas'', False), (''viewEditor'', True), (''explain'', True), (''cancelQuery'', True),
         (''backupRestore'', False), (''importExport'', True), (''principals'', True), (''grants'', True),
         (''tableComments'', True), (''generatedColumns'', True), (''identityColumns'', True),
         (''checkConstraints'', checks), (''materializedViews'', False), (''vacuum'', False),
         (''rowLevelSecurity'', False), (''events'', False), (''binlog'', False)],
       cap_reasons = (''schemas'', ''MySQL uses databases as schemas.'') #
         (if checks then [] else [(''checkConstraints'', ''MySQL check constraints require MySQL 8.0.16 or newer.'')])\<rparr>)"

definition my_capability :: "designer_reads \<Rightarrow> designer_error + capability" where
  "my_capability reads = and_then (rd_version reads) (\<lambda>v. Inr (my_capabilityFor v))"

definition my_constraintSql ::
  "designer_reads \<Rightarrow> string \<times> string \<Rightarrow> constraint_input \<Rightarrow> (string, column_definition) jsmap \<Rightarrow> string \<Rightarrow>
     designer_error + string" where
  "my_constraintSql reads r c cols path =
     and_then (my_quote (constraint_named 64 (snd r) c)) (\<lambda>q.
       let pre = ''CONSTRAINT '' @ q @ '' '' in
       case c of
         Check n e \<Rightarrow>
           and_then (my_capability reads) (\<lambda>cap.
           and_then (throw_if (\<not> capable cap ''checkConstraints'')
             (path @ ''.type'', ''unsupported'',
              reason cap ''checkConstraints'' ''This MySQL server does not enforce check constraints.'')) (\<lambda>_.
           and_then (throws (expression e (path @ ''.expression''))) (\<lambda>e'. Inr (pre @ ''CHECK ('' @ e' @ '')''))))
       | PrimaryKey n cs \<Rightarrow>
           and_then (throw_issues (my_list_issues cs cols (path @ ''.columns''))) (\<lambda>_.
             and_then (my_names cs) (\<lambda>qs. Inr (pre @ ''PRIMARY KEY ('' @ qs @ '')'')))
       | Unique n cs \<Rightarrow>
           and_then (throw_issues (my_list_issues cs cols (path @ ''.columns''))) (\<lambda>_.
             and_then (my_names cs) (\<lambda>qs. Inr (pre @ ''UNIQUE ('' @ qs @ '')'')))
       | ForeignKey n cs ref rcs d u \<Rightarrow>
           and_then (throw_issues (my_list_issues cs cols (path @ ''.columns''))) (\<lambda>_.
             my_foreignKey reads pre cs ref rcs d u cols path))"

definition my_validateIndexInputs ::
  "index_input list \<Rightarrow> (string, column_definition) jsmap \<Rightarrow> string list \<Rightarrow> string \<Rightarrow> designer_error + unit" where
  "my_validateIndexInputs xs cols cnames path =
     validate_indexes (\<lambda>ns. my_list_issues ns cols) 64 (map js_lower cnames) path 0 [] xs"

end
