(* ===== verification/Capabilities.thy ===== *)
theory Capabilities
  imports DdlMysql "HOL-Library.Product_Lexorder"
begin

text \<open>
  What the providers report of a server: \<open>createPostgresqlCapabilities\<close>
  (\<open>packages/database-postgresql/src/capabilities\<close>) and \<open>createMysqlCapabilityDescription\<close>
  (\<open>packages/database-mysql/src/capabilities\<close>), with the answer of the backup port merged in. The
  table designers compute the same flags a second time; the results are where the two agree.
\<close>

section \<open>PostgreSQL\<close>

definition majorVersion :: "string \<Rightarrow> int" where
  "majorVersion version =
     (let ds = takeWhile digit (dropWhile (\<lambda>c. \<not> digit c) version) in if ds = [] then 0 else decimal ds)"

definition createPostgresqlCapabilities :: "string \<Rightarrow> capability" where
  "createPostgresqlCapabilities version =
     (let major = majorVersion version in
      \<lparr>cap_version = version,
       cap_flags = [(''schemas'', True), (''viewEditor'', True), (''explain'', True), (''cancelQuery'', True),
         (''backupRestore'', False), (''importExport'', True), (''principals'', True), (''grants'', True),
         (''tableComments'', True), (''generatedColumns'', major \<ge> 12), (''identityColumns'', major \<ge> 10),
         (''checkConstraints'', True), (''materializedViews'', False), (''vacuum'', False),
         (''rowLevelSecurity'', False), (''events'', False), (''binlog'', False)],
       cap_reasons =
         [(''backupRestore'', ''belum tersedia''), (''materializedViews'', ''ditunda ke V2''),
          (''vacuum'', ''ditunda ke V2''), (''rowLevelSecurity'', ''ditunda ke V2''),
          (''events'', ''tidak berlaku untuk PostgreSQL V1''), (''binlog'', ''tidak berlaku untuk PostgreSQL V1'')]
         @ (if major < 12 then [(''generatedColumns'', ''membutuhkan PostgreSQL 12 atau lebih baru'')] else [])
         @ (if major < 10 then [(''identityColumns'', ''membutuhkan PostgreSQL 10 atau lebih baru'')] else [])\<rparr>)"

section \<open>MySQL\<close>

text \<open>A group \<open>(?:\.(\d+))?\<close>: its digits, none without a match, and what is left.\<close>

definition version_group :: "string \<Rightarrow> string \<times> string" where
  "version_group s =
     (case s of
        c # r \<Rightarrow> if c = CHR ''.'' \<and> takeWhile digit r \<noteq> [] then (takeWhile digit r, dropWhile digit r) else ([], s)
      | [] \<Rightarrow> ([], s))"

definition number_or_zero :: "string \<Rightarrow> int" where
  "number_or_zero ds = (if ds = [] then 0 else decimal ds)"

definition parseMysqlVersion :: "string \<Rightarrow> int \<times> int \<times> int" where
  "parseMysqlVersion version =
     (let s = js_trim version; major = takeWhile digit s in
      if major = [] then (0, 0, 0)
      else
        let (minor, r) = version_group (dropWhile digit s); (patch, _) = version_group r
        in (decimal major, number_or_zero minor, number_or_zero patch))"

definition supportsMysqlCheckConstraints :: "string \<Rightarrow> bool" where
  "supportsMysqlCheckConstraints version =
     (let (major, minor, patch) = parseMysqlVersion version in
      major > 8 \<or> (major = 8 \<and> (minor > 0 \<or> (minor = 0 \<and> patch \<ge> 16))))"

definition createMysqlCapabilityDescription :: "string \<Rightarrow> capability" where
  "createMysqlCapabilityDescription version =
     (let checks = supportsMysqlCheckConstraints version in
      \<lparr>cap_version = version,
       cap_flags = [(''schemas'', False), (''viewEditor'', True), (''explain'', True), (''cancelQuery'', True),
         (''backupRestore'', False), (''importExport'', True), (''principals'', True), (''grants'', True),
         (''tableComments'', True), (''generatedColumns'', True), (''identityColumns'', True),
         (''checkConstraints'', checks), (''materializedViews'', False), (''vacuum'', False),
         (''rowLevelSecurity'', False), (''events'', False), (''binlog'', False), (''optimize'', False), (''repair'', False)],
       cap_reasons =
         [(''schemas'', ''MySQL memakai database sebagai schema''),
          (''backupRestore'', ''Belum tersedia sampai spec backup dan restore'')]
         @ (if checks then [] else [(''checkConstraints'', ''CHECK constraints ditegakkan mulai MySQL 8.0.16'')])\<rparr>)"

section \<open>The backup port\<close>

record backup_capability =
  bk_supported :: bool
  bk_restoreSupported :: "bool option"
  bk_reason :: "string option"
  bk_restoreReason :: "string option"

definition withBackup :: "capability \<Rightarrow> backup_capability option \<Rightarrow> capability" where
  "withBackup d b =
     (case b of
        None \<Rightarrow> d
      | Some k \<Rightarrow>
          let supported = bk_supported k \<and> bk_restoreSupported k \<noteq> Some False in
          d\<lparr>cap_flags := js_set (cap_flags d) ''backupRestore'' supported,
            cap_reasons :=
              (if supported then cap_reasons d
               else js_set (cap_reasons d) ''backupRestore''
                 (case bk_restoreReason k of Some r \<Rightarrow> r
                  | None \<Rightarrow> (case bk_reason k of Some r \<Rightarrow> r | None \<Rightarrow> ''Backup and restore are unavailable.'')))\<rparr>)"

text \<open>\<open>describe\<close> on an open handle: the version and the backup port's answer can fail.\<close>

definition pg_describe ::
  "designer_error + string \<Rightarrow> designer_error + backup_capability option \<Rightarrow> designer_error + capability" where
  "pg_describe version backup =
     and_then version (\<lambda>v. and_then backup (\<lambda>b. Inr (withBackup (createPostgresqlCapabilities v) b)))"

definition my_describe ::
  "designer_error + string \<Rightarrow> designer_error + backup_capability option \<Rightarrow> designer_error + capability" where
  "my_describe version backup =
     and_then version (\<lambda>v. and_then backup (\<lambda>b. Inr (withBackup (createMysqlCapabilityDescription v) b)))"

section \<open>Agreement with the designers\<close>

lemma pg_flags_agree: "cap_flags (createPostgresqlCapabilities v) = cap_flags (pg_capabilityFor v)"
  by (simp add: createPostgresqlCapabilities_def pg_capabilityFor_def majorVersion_def Let_def)

lemma takeWhile_digit [simp]:
  "list_all digit a \<Longrightarrow> takeWhile digit (a @ s) = a @ takeWhile digit s"
  "list_all digit a \<Longrightarrow> dropWhile digit (a @ s) = dropWhile digit s"
  by (induction a) auto

definition plain_version :: "string \<Rightarrow> string \<Rightarrow> string \<Rightarrow> string" where
  "plain_version a b c = a @ ''.'' @ b @ ''.'' @ c"

lemma not_digit_dot [simp]: "\<not> digit CHR ''.''"
  by (simp add: digit_def)

lemma digits_no_dot: "digits s \<Longrightarrow> CHR ''.'' \<notin> set s"
  by (auto simp: digits_def list_all_iff)

lemma digit_not_ws: "digit c \<Longrightarrow> \<not> js_ws c"
  by (auto simp: digit_def js_ws_def Let_def)

lemma trim_plain:
  assumes "digits a" "digits c"
  shows "js_trim (plain_version a b c) = plain_version a b c"
proof -
  obtain x xs where a: "a = x # xs" "digit x" using assms(1) by (cases a) (auto simp: digits_def)
  obtain y ys where c: "rev c = y # ys" using assms(2) by (cases "rev c") (simp_all add: digits_def)
  then have "y \<in> set c" by (metis list.set_intros(1) set_rev)
  then have "digit y" using assms(2) by (simp add: digits_def list_all_iff)
  with a c show ?thesis by (simp add: js_trim_def plain_version_def digit_not_ws)
qed

lemma takeWhile_digits_all: "list_all digit a \<Longrightarrow> takeWhile digit a = a" "list_all digit a \<Longrightarrow> dropWhile digit a = []"
  by (simp_all add: list_all_iff)

lemma parse_plain:
  assumes "digits a" "digits b" "digits c"
  shows "parseMysqlVersion (plain_version a b c) = (decimal a, decimal b, decimal c)"
proof -
  have d: "list_all digit a" "list_all digit b" "list_all digit c" "a \<noteq> []" "b \<noteq> []" "c \<noteq> []"
    using assms by (simp_all add: digits_def)
  show ?thesis
    unfolding parseMysqlVersion_def trim_plain [OF assms(1,3)]
    using d by (simp add: plain_version_def version_group_def number_or_zero_def takeWhile_digits_all)
qed

lemma split_plain:
  assumes "digits a" "digits b" "digits c"
  shows "js_split CHR ''.'' (plain_version a b c) = [a, b, c]"
proof -
  note n = digits_no_dot [OF assms(1)] digits_no_dot [OF assms(2)] digits_no_dot [OF assms(3)]
  show ?thesis
    using js_split_Cons [OF n(1)] js_split_Cons [OF n(2)] js_split_no [OF n(3)]
    by (simp add: plain_version_def)
qed

lemma decimal_nonneg: "list_all digit s \<Longrightarrow> 0 \<le> decimal s"
proof -
  have "0 \<le> n \<Longrightarrow> list_all digit s \<Longrightarrow> 0 \<le> foldl (\<lambda>n c. 10 * n + digit_value c) n s" for n
    by (induction s arbitrary: n) (auto simp: digit_def digit_value_def Let_def)
  then show "list_all digit s \<Longrightarrow> 0 \<le> decimal s" by (simp add: decimal_def)
qed

text \<open>
  The capability service and the table designers compute the same flags twice. They agree on
  every PostgreSQL version, and on every MySQL version of three plain numbers, so that the designer
  refuses a check constraint exactly where the service says that they are not supported.
\<close>

theorem designer_flags_agree:
  assumes "digits a" "digits b" "digits c"
  shows "cap_flags (createPostgresqlCapabilities v) = cap_flags (pg_capabilityFor v)
    \<and> my_checks (plain_version a b c) = supportsMysqlCheckConstraints (plain_version a b c)
    \<and> (my_checks (plain_version a b c) \<longleftrightarrow> (8, 0, 16) \<le> (decimal a, decimal b, decimal c))"
proof -
  have "0 \<le> decimal b" using assms(2) by (simp add: digits_def decimal_nonneg)
  then show ?thesis
    using assms
    by (auto simp: pg_flags_agree my_checks_def split_plain version_number_def version_part_def gt_number_def
        supportsMysqlCheckConstraints_def parse_plain digits_def)
qed

theorem designer_flags_agree_witness:
  "my_checks ''8.0.16'' = supportsMysqlCheckConstraints ''8.0.16''"
proof -
  have v: "plain_version ''8'' ''0'' ''16'' = ''8.0.16''" by (simp add: plain_version_def)
  have "digits ''8''" "digits ''0''" "digits ''16''" by (simp_all add: digits_def digit_def)
  from designer_flags_agree [OF this] show ?thesis unfolding v by blast
qed

text \<open>
  They disagree on a version with a suffix, as the packages of most distributions have it: the
  service reads the number in front of the suffix, the designer makes it \<open>NaN\<close>, so it refuses a check
  constraint that the service calls supported.
\<close>

theorem suffixed_version_loses_checks:
  "supportsMysqlCheckConstraints ''8.0.36-0ubuntu1'' \<and> \<not> my_checks ''8.0.36-0ubuntu1''
    \<and> capable (createMysqlCapabilityDescription ''8.0.36-0ubuntu1'') ''checkConstraints''
    \<and> \<not> capable (my_capabilityFor ''8.0.36-0ubuntu1'') ''checkConstraints''"
  by code_simp

end
