(* ===== verification/DdlMyCompile.thy ===== *)
theory DdlMyCompile
  imports DdlMysql
begin

text \<open>
  The operations of \<open>MysqlTableDesigner\<close>: \<open>compile\<close>, \<open>preview\<close> and \<open>apply\<close>. MySQL commits each
  statement by itself, so an application that fails has kept the statements before.
\<close>

section \<open>Alterations\<close>

definition my_addIndex :: "string \<Rightarrow> string \<times> string \<Rightarrow> index_input \<Rightarrow> nat \<Rightarrow> designer \<Rightarrow> designer_error + designer" where
  "my_addIndex target r x i g =
     (let n = index_name 64 (snd r) x; path = at_index ''alterations'' i @ ''.index'' in
      and_then (my_validateIndexInputs [x] (dg_working g) (map cn_name (dg_constraints g)) path) (\<lambda>_.
      and_then (throw_if (taken g n)
        (path @ ''.name'', ''conflict'', ''An index or constraint with this name already exists.'')) (\<lambda>_.
      and_then (my_indexSql target x n) (\<lambda>sql.
        Inr (push (plain sql) (g\<lparr>dg_indexes := dg_indexes g @
          [\<lparr>id_name = n, id_columns = ix_columns x, id_unique = (ix_unique x = Some True), id_primary = False\<rparr>]\<rparr>))))))"

definition my_dropIndex :: "string \<Rightarrow> string \<Rightarrow> nat \<Rightarrow> designer \<Rightarrow> designer_error + designer" where
  "my_dropIndex target n i g =
     (let path = at_index ''alterations'' i @ ''.name'' in
      and_then (throws (my_identifier n path)) (\<lambda>_.
        case remove_named id_name n (dg_indexes g) of
          None \<Rightarrow> Inl (TableInvalid [(path, ''not_found'', ''The index does not exist.'')])
        | Some (x, rest) \<Rightarrow>
            if id_primary x
            then Inl (TableInvalid [(path, ''unsupported'', ''Drop the primary key as a constraint, not as an index.'')])
            else and_then (my_quote n) (\<lambda>q.
              Inr (push ((alter_table target ('' DROP INDEX '' @ q))\<lparr>ddl_indexes := [n]\<rparr>) (g\<lparr>dg_indexes := rest\<rparr>)))))"

text \<open>The index that a foreign key needs is added, under its generated name, when there is none.\<close>

definition my_support ::
  "string \<Rightarrow> string \<times> string \<Rightarrow> constraint_input \<Rightarrow> designer \<Rightarrow> designer_error + designer" where
  "my_support target r c g =
     (case c of
        ForeignKey n cs ref rcs d u \<Rightarrow>
          if hasSupportingIndex (dg_indexes g) cs then Inr g
          else
            let support = my_generatedName ''idx'' (snd r) cs in
            and_then (my_indexSql target \<lparr>ix_name = None, ix_columns = cs, ix_unique = None\<rparr> support) (\<lambda>sql.
              Inr (push ((plain sql)\<lparr>ddl_warning := Some (''MySQL requires a supporting index for this foreign key. Added ''
                     @ support @ '' automatically.'')\<rparr>)
                  (g\<lparr>dg_indexes := dg_indexes g @
                    [\<lparr>id_name = support, id_columns = cs, id_unique = False, id_primary = False\<rparr>]\<rparr>)))
      | _ \<Rightarrow> Inr g)"

definition my_addConstraint ::
  "designer_reads \<Rightarrow> string \<Rightarrow> string \<times> string \<Rightarrow> constraint_input \<Rightarrow> nat \<Rightarrow> designer \<Rightarrow> designer_error + designer" where
  "my_addConstraint reads target r c i g =
     (let n = constraint_named 64 (snd r) c; path = at_index ''alterations'' i @ ''.constraint'' in
      and_then (throw_if (taken g n)
        (path @ ''.name'', ''conflict'', ''An index or constraint with this name already exists.'')) (\<lambda>_.
      and_then (my_constraintSql reads r c (dg_working g) path) (\<lambda>sql.
      and_then (my_support target r c g) (\<lambda>g1.
        Inr (push (alter_table target ('' ADD '' @ sql)) (g1\<lparr>dg_constraints := dg_constraints g1 @
          [\<lparr>cn_name = n, cn_type = constraint_kind c, cn_columns = constraint_columns c\<rparr>]\<rparr>))))))"

definition my_drop_clause :: "constraint_type \<Rightarrow> string" where
  "my_drop_clause t =
     (if t = TypeForeignKey then ''FOREIGN KEY'' else if t = TypeCheck then ''CHECK'' else ''INDEX'')"

definition my_dropConstraint ::
  "string \<Rightarrow> string \<Rightarrow> constraint_type option \<Rightarrow> nat \<Rightarrow> designer \<Rightarrow> designer_error + designer" where
  "my_dropConstraint target n t i g =
     (let path = at_index ''alterations'' i @ ''.name'' in
      and_then (throws (my_identifier n path)) (\<lambda>_.
        case remove_named cn_name n (dg_constraints g) of
          None \<Rightarrow> Inl (TableInvalid [(path, ''not_found'', ''The constraint does not exist.'')])
        | Some (x, rest) \<Rightarrow>
            let type = (case t of Some t \<Rightarrow> t | None \<Rightarrow> cn_type x) in
            and_then (if type = TypePrimaryKey then Inr '' DROP PRIMARY KEY''
                      else and_then (my_quote n) (\<lambda>q. Inr ('' DROP '' @ my_drop_clause type @ '' '' @ q))) (\<lambda>clause.
              Inr (push ((alter_table target clause)\<lparr>ddl_constraints := [n], ddl_warning := drop_warning type\<rparr>)
                  (g\<lparr>dg_constraints := rest\<rparr>)))))"

definition my_addColumn ::
  "string \<Rightarrow> capability \<Rightarrow> column_input \<Rightarrow> nat \<Rightarrow> designer \<Rightarrow> designer_error + designer" where
  "my_addColumn target cap c i g =
     (let path = at_index ''alterations'' i @ ''.column''; k = js_lower (co_name c) in
      and_then (my_validateColumn c path cap) (\<lambda>_.
      and_then (throw_if (has_key (dg_working g) k) (path @ ''.name'', ''conflict'', ''This column already exists.'')) (\<lambda>_.
      and_then (my_columnSql c) (\<lambda>sql.
        Inr (push (alter_table target ('' ADD COLUMN '' @ sql))
               (g\<lparr>dg_working := js_set (dg_working g) k (as_definition c)\<rparr>))))))"

definition my_dropColumn :: "string \<Rightarrow> string \<Rightarrow> designer \<Rightarrow> designer_error + designer" where
  "my_dropColumn target n g =
     and_then (my_quote n) (\<lambda>q.
       Inr (push ((alter_table target ('' DROP COLUMN '' @ q))\<lparr>ddl_columns := [n]\<rparr>)
         (g\<lparr>dg_working := js_delete (dg_working g) (js_lower n)\<rparr>)))"

definition my_renameColumn ::
  "string \<Rightarrow> string \<Rightarrow> string \<Rightarrow> column_definition \<Rightarrow> nat \<Rightarrow> designer \<Rightarrow> designer_error + designer" where
  "my_renameColumn target n newName current i g =
     (let path = at_index ''alterations'' i @ ''.newName'' in
      and_then (throws (my_identifier newName path)) (\<lambda>_.
      and_then (throw_if (has_key (dg_working g) (js_lower newName)) (path, ''conflict'', ''This column already exists.'')) (\<lambda>_.
      and_then (my_quote n) (\<lambda>q. and_then (my_quote newName) (\<lambda>q'.
        Inr (push (alter_table target ('' RENAME COLUMN '' @ q @ '' TO '' @ q'))
          (g\<lparr>dg_working := js_set (js_delete (dg_working g) (js_lower n)) (js_lower newName)
               (current\<lparr>cd_name := newName\<rparr>)\<rparr>)))))))"

definition my_recreate_warning :: string where
  "my_recreate_warning = ''Changing a generated expression drops and recreates the column, which can remove its data.''"

definition my_modifyColumn ::
  "string \<Rightarrow> capability \<Rightarrow> column_patch \<Rightarrow> column_definition \<Rightarrow> nat \<Rightarrow> designer \<Rightarrow> designer_error + designer" where
  "my_modifyColumn target cap p current i g =
     (let next = mergedColumn p current; path = at_index ''alterations'' i @ ''.changes'' in
      and_then (my_validateColumn next path cap) (\<lambda>_.
      and_then (throw_if (pa_primaryKey p \<noteq> None)
        (path @ ''.primaryKey'', ''unsupported'', ''Primary key editing is handled by the table constraint designer.'')) (\<lambda>_.
      and_then (my_columnSql (next\<lparr>co_name := cd_name current\<rparr>)) (\<lambda>sql.
      and_then (if map_option gv_expression (co_generated next)
                   \<noteq> map_option gv_expression (co_generated (my_columnInput current))
                then and_then (my_quote (cd_name current)) (\<lambda>q.
                  Inr [(alter_table target ('' DROP COLUMN '' @ q))
                         \<lparr>ddl_columns := [cd_name current], ddl_warning := Some my_recreate_warning\<rparr>,
                       (alter_table target ('' ADD COLUMN '' @ sql))
                         \<lparr>ddl_columns := [cd_name current], ddl_warning := Some my_recreate_warning\<rparr>])
                else Inr [alter_table target ('' MODIFY COLUMN '' @ sql)]) (\<lambda>ss.
        Inr (push_all ss (g\<lparr>dg_working := js_set (dg_working g) (js_lower (cd_name current)) (overlay current next)\<rparr>)))))))"

definition my_compileAlteration ::
  "designer_reads \<Rightarrow> string \<times> string \<Rightarrow> capability \<Rightarrow> nat \<Rightarrow> alteration \<Rightarrow> designer \<Rightarrow> designer_error + designer" where
  "my_compileAlteration reads r cap i a g =
     and_then (my_target r) (\<lambda>target.
       let column = (\<lambda>n f. case map_of (dg_working g) (js_lower n) of
             None \<Rightarrow> Inl (TableInvalid [(at_index ''alterations'' i @ ''.name'', ''not_found'', ''The column does not exist.'')])
           | Some d \<Rightarrow> f d) in
       case a of
         AddIndex x \<Rightarrow> my_addIndex target r x i g
       | DropIndex n \<Rightarrow> my_dropIndex target n i g
       | AddConstraint c \<Rightarrow> my_addConstraint reads target r c i g
       | DropConstraint n t \<Rightarrow> my_dropConstraint target n t i g
       | AddColumn c \<Rightarrow> my_addColumn target cap c i g
       | DropColumn n \<Rightarrow> column n (\<lambda>d. my_dropColumn target n g)
       | RenameColumn n m \<Rightarrow> column n (\<lambda>d. my_renameColumn target n m d i g)
       | ModifyColumn n p \<Rightarrow> column n (\<lambda>d. my_modifyColumn target cap p d i g))"

fun my_alterations ::
  "designer_reads \<Rightarrow> string \<times> string \<Rightarrow> capability \<Rightarrow> nat \<Rightarrow> alteration list \<Rightarrow> designer \<Rightarrow> designer_error + designer" where
  "my_alterations reads r cap i [] g = Inr g"
| "my_alterations reads r cap i (a # as) g =
     and_then (my_compileAlteration reads r cap i a g) (my_alterations reads r cap (i + 1) as)"

section \<open>Compiling\<close>

definition my_create ::
  "designer_reads \<Rightarrow> string \<times> string \<Rightarrow> capability \<Rightarrow> change_set \<Rightarrow> designer_error + ddl_statement list" where
  "my_create reads r cap s =
     (let columns = cs_columns s in
      and_then (throw_if (columns = []) (''columns'', ''required'', ''At least one column is required.'')) (\<lambda>_.
      and_then (my_validateUnique columns ''columns'') (\<lambda>_.
      and_then (column_checks (\<lambda>c p. my_validateColumn c p cap) 0 columns) (\<lambda>_.
      and_then (rd_exists reads (fst r) (snd r)) (\<lambda>existing.
      and_then (throw_if existing (''ref.name'', ''conflict'', ''A table with this name already exists.'')) (\<lambda>_.
      let working = map (\<lambda>(k, c). (k, as_definition c)) (by_key co_name columns) in
      and_then (map_throw my_columnSql columns) (\<lambda>defs.
      and_then (constraint_definitions (\<lambda>c p. my_constraintSql reads r c working p) 0 (cs_constraints s)) (\<lambda>cdefs.
      and_then (my_validateIndexInputs (cs_indexes s) working (constraint_names (cs_constraints s)) ''indexes'') (\<lambda>_.
      and_then (my_target r) (\<lambda>target.
      and_then (map_throw (\<lambda>x. and_then (my_indexSql target x (index_name 64 (snd r) x)) (\<lambda>q. Inr (plain q))) (cs_indexes s)) (\<lambda>is.
        Inr (plain (''CREATE TABLE '' @ target @ '' ('' @ join '', '' (defs @ cdefs) @ '')'') # is))))))))))))"

definition my_alter ::
  "designer_reads \<Rightarrow> string \<times> string \<Rightarrow> capability \<Rightarrow> change_set \<Rightarrow> designer_error + ddl_statement list" where
  "my_alter reads r cap s =
     and_then (rd_describe reads \<lparr>ref_database = fst r, ref_schema = None, ref_name = snd r, ref_type = ''table''\<rparr>) (\<lambda>current.
     and_then (my_alterations reads r cap 0 (cs_alterations s)
         \<lparr>dg_statements = [], dg_working = by_key cd_name (td_columns current),
          dg_indexes = td_indexes current, dg_constraints = td_constraints current\<rparr>) (\<lambda>g.
     and_then (throw_if (cs_alterations s = []) (''alterations'', ''required'', ''At least one alteration is required.'')) (\<lambda>_.
       Inr (dg_statements g))))"

definition my_compile :: "designer_reads \<Rightarrow> change_set \<Rightarrow> designer_error + ddl_preview" where
  "my_compile reads s =
     and_then (my_tableRef (cs_ref s)) (\<lambda>r.
     and_then (my_capability reads) (\<lambda>cap.
     and_then (case cs_operation s of CreateTable \<Rightarrow> my_create reads r cap s | AlterTable \<Rightarrow> my_alter reads r cap s) (\<lambda>ss.
       Inr (preview_of (cs_operation s) my_warningFor ss))))"

section \<open>Applying\<close>

definition my_failure :: "ddl_operation \<Rightarrow> nat \<Rightarrow> ddl_result list \<Rightarrow> designer_error" where
  "my_failure op i rs =
     TableApply i \<lparr>ar_operation = op, ar_transactional = False, ar_committed = False, ar_statements = rs\<rparr>
       (''MySQL statement '' @ show_nat (i + 1) @ '' failed. Earlier statements were kept and execution stopped.'')"

definition my_preview :: "'w ddl_port \<Rightarrow> change_set \<Rightarrow> 'w \<Rightarrow> designer_error + ddl_preview" where
  "my_preview p s w = my_compile (dp_reads p w) s"

definition my_apply :: "'w ddl_port \<Rightarrow> change_set \<Rightarrow> 'w \<Rightarrow> 'w \<times> (designer_error + ddl_apply_result)" where
  "my_apply p s w =
     (case my_compile (dp_reads p w) s of
        Inl e \<Rightarrow> (w, Inl e)
      | Inr preview \<Rightarrow>
          (case run_statements (dp_run p) (my_failure (cs_operation s)) 0 (pv_statements preview) [] w of
             (w', Inl e) \<Rightarrow> (w', Inl e)
           | (w', Inr rs) \<Rightarrow>
               (w', Inr \<lparr>ar_operation = cs_operation s, ar_transactional = False, ar_committed = True, ar_statements = rs\<rparr>)))"

end
