(* ===== verification/DdlProps.thy ===== *)
theory DdlProps
  imports DdlMyCompile
begin

text \<open>
  What the two table designers guarantee. The columns of a table, by lower-case name, follow the same
  abstract specification in both; a statement that loses something is always marked; PostgreSQL
  applies a change set as a whole and MySQL a prefix of it. Then the change sets for which a designer
  does something else than it means to.
\<close>

section \<open>Compiled alterations, as an interface\<close>

text \<open>
  What compiling one alteration may do to the columns, and to the statements: the contract both
  designers keep. \<open>moves\<close> is the abstract step on the set of column names.
\<close>

fun moves :: "alteration \<Rightarrow> string set \<Rightarrow> string set option" where
  "moves (AddColumn c) S = (if js_lower (co_name c) \<in> S then None else Some (insert (js_lower (co_name c)) S))"
| "moves (DropColumn n) S = (if js_lower n \<in> S then Some (S - {js_lower n}) else None)"
| "moves (RenameColumn n m) S =
     (if js_lower n \<in> S \<and> js_lower m \<notin> S then Some (insert (js_lower m) (S - {js_lower n})) else None)"
| "moves (ModifyColumn n p) S = (if js_lower n \<in> S then Some S else None)"
| "moves (AddIndex x) S = Some S"
| "moves (DropIndex n) S = Some S"
| "moves (AddConstraint c) S = Some S"
| "moves (DropConstraint n t) S = Some S"

fun moves_all :: "alteration list \<Rightarrow> string set \<Rightarrow> string set option" where
  "moves_all [] S = Some S"
| "moves_all (a # as) S = (case moves a S of None \<Rightarrow> None | Some T \<Rightarrow> moves_all as T)"

fun drops :: "alteration \<Rightarrow> bool" where
  "drops (DropColumn n) \<longleftrightarrow> True"
| "drops (DropIndex n) \<longleftrightarrow> True"
| "drops (DropConstraint n t) \<longleftrightarrow> True"
| "drops _ \<longleftrightarrow> False"

fun regenerates :: "alteration \<Rightarrow> bool" where
  "regenerates (ModifyColumn n p) \<longleftrightarrow> pa_generated p \<noteq> None"
| "regenerates _ \<longleftrightarrow> False"

definition names_of :: "designer \<Rightarrow> string set" where
  "names_of g = set (js_keys (dg_working g))"

definition table_ok :: "designer \<Rightarrow> bool" where
  "table_ok g \<longleftrightarrow> distinct (js_keys (dg_working g)) \<and>
     (\<forall>(k, d) \<in> set (dg_working g). k = js_lower (cd_name d))"

definition loses :: "ddl_statement list \<Rightarrow> bool" where
  "loses ss \<longleftrightarrow> list_ex destructive_statement ss"

fun compile_all ::
  "(nat \<Rightarrow> alteration \<Rightarrow> designer \<Rightarrow> designer_error + designer) \<Rightarrow> nat \<Rightarrow> alteration list \<Rightarrow> designer \<Rightarrow>
     designer_error + designer" where
  "compile_all compiled i [] g = Inr g"
| "compile_all compiled i (a # as) g = and_then (compiled i a g) (compile_all compiled (i + 1) as)"

locale ddl_compiler =
  fixes compiled :: "nat \<Rightarrow> alteration \<Rightarrow> designer \<Rightarrow> designer_error + designer"
  assumes columns: "table_ok g \<Longrightarrow> compiled i a g = Inr g' \<Longrightarrow> table_ok g' \<and> moves a (names_of g) = Some (names_of g')"
    and statements: "compiled i a g = Inr g' \<Longrightarrow> \<exists>ss. dg_statements g' = dg_statements g @ ss
      \<and> (drops a \<longrightarrow> loses ss) \<and> (loses ss \<longrightarrow> drops a \<or> regenerates a)"
begin

lemma run_columns: "table_ok g \<Longrightarrow> compile_all compiled i as g = Inr g' \<Longrightarrow> table_ok g' \<and> moves_all as (names_of g) = Some (names_of g')"
proof (induction as arbitrary: i g)
  case (Cons a as)
  then obtain h where h: "compiled i a g = Inr h" "compile_all compiled (i + 1) as h = Inr g'" by (auto simp: and_then_Inr)
  show ?case using columns [OF Cons.prems(1) h(1)] Cons.IH [OF _ h(2)] by auto
qed simp

lemma run_statements: "compile_all compiled i as g = Inr g' \<Longrightarrow> \<exists>ss. dg_statements g' = dg_statements g @ ss
    \<and> ((\<exists>a \<in> set as. drops a) \<longrightarrow> loses ss) \<and> (loses ss \<longrightarrow> (\<exists>a \<in> set as. drops a \<or> regenerates a))"
proof (induction as arbitrary: i g)
  case Nil
  then show ?case by (simp add: loses_def)
next
  case (Cons a as)
  then obtain h where h: "compiled i a g = Inr h" "compile_all compiled (i + 1) as h = Inr g'" by (auto simp: and_then_Inr)
  obtain ss where ss: "dg_statements h = dg_statements g @ ss" "drops a \<longrightarrow> loses ss" "loses ss \<longrightarrow> drops a \<or> regenerates a"
    using statements [OF h(1)] by blast
  obtain ts where ts: "dg_statements g' = dg_statements h @ ts" "(\<exists>a \<in> set as. drops a) \<longrightarrow> loses ts"
    "loses ts \<longrightarrow> (\<exists>a \<in> set as. drops a \<or> regenerates a)"
    using Cons.IH [OF h(2)] by blast
  have "loses (ss @ ts) \<longleftrightarrow> loses ss \<or> loses ts" by (simp add: loses_def)
  then show ?case using ss ts by (intro exI [of _ "ss @ ts"]) auto
qed

end

section \<open>The designers are such compilers\<close>

lemma push_simps [simp]:
  "dg_working (push s g) = dg_working g" "dg_statements (push s g) = dg_statements g @ [s]"
  "dg_working (push_all ss g) = dg_working g" "dg_statements (push_all ss g) = dg_statements g @ ss"
  by (simp_all add: push_def push_all_def)

lemma throw_simps [simp]:
  "throw_issues is = Inr u \<longleftrightarrow> is = []" "throw_if b x = Inr u \<longleftrightarrow> \<not> b"
  by (simp_all add: throw_issues_def throw_if_def)

lemma destructive_simps [simp]:
  "\<not> destructive_statement (plain s)" "\<not> destructive_statement (alter_table t s)"
  "\<not> destructive_statement (comment_on t q c)"
  by (simp_all add: destructive_statement_def plain_def alter_table_def comment_on_def)

lemma loses_simps [simp]:
  "loses [] \<longleftrightarrow> False" "loses (s # ss) \<longleftrightarrow> destructive_statement s \<or> loses ss" "loses (ss @ ts) \<longleftrightarrow> loses ss \<or> loses ts"
  by (simp_all add: loses_def)

lemma names_in: "js_lower n \<in> names_of g \<longleftrightarrow> map_of (dg_working g) (js_lower n) \<noteq> None"
  by (simp add: names_of_def js_keys_iff)

lemma names_put: "set (js_keys (js_set m k v)) = insert k (set (js_keys m))"
  by (rule jsm.set_keys_put)

lemma names_delete: "set (js_keys (js_delete m k)) = set (js_keys m) - {k}"
  by (rule jsm.set_keys_del)

lemma entries_set: "(a, b) \<in> set (js_set m k v) \<Longrightarrow> (a, b) = (k, v) \<or> (a, b) \<in> set m"
  by (induction m k v rule: js_set.induct) (auto split: if_splits)

lemma table_ok_put:
  "table_ok g \<Longrightarrow> dg_working g' = js_set (dg_working g) k d \<Longrightarrow> k = js_lower (cd_name d) \<Longrightarrow> table_ok g'"
  by (auto simp: table_ok_def distinct_js_set dest!: entries_set)

lemma table_ok_delete: "table_ok g \<Longrightarrow> dg_working g' = js_delete (dg_working g) k \<Longrightarrow> table_ok g'"
  using distinct_js_delete by (auto simp: table_ok_def js_delete_def)

lemma table_ok_cong: "dg_working h = dg_working g \<Longrightarrow> table_ok h = table_ok g"
  by (simp add: table_ok_def)

lemma names_of_cong: "dg_working h = dg_working g \<Longrightarrow> names_of h = names_of g"
  by (simp add: names_of_def)

lemma table_ok_name: "table_ok g \<Longrightarrow> map_of (dg_working g) k = Some d \<Longrightarrow> js_lower (cd_name d) = k"
  by (fastforce simp: table_ok_def dest: map_of_SomeD)

lemma has_key_simp [simp]: "has_key m k \<longleftrightarrow> k \<in> set (js_keys m)"
  by (simp add: has_key_def js_keys_iff)

lemma pg_columnInput_name [simp]: "co_name (pg_columnInput d) = cd_name d"
  by (simp add: pg_columnInput_def Let_def)

lemma my_columnInput_name [simp]: "co_name (my_columnInput d) = cd_name d"
  by (simp add: my_columnInput_def Let_def)

lemma patch_simps [simp]:
  "co_name (apply_patch p c) = co_name c"
  "pa_generated p = None \<Longrightarrow> co_generated (apply_patch p c) = co_generated c"
  by (simp_all add: apply_patch_def patched_def)

lemma overlay_name [simp]: "cd_name (overlay d c) = co_name c"
  by (simp add: overlay_def)

text \<open>Neither the indexes nor the constraints touch the columns.\<close>

lemma pg_other_alterations:
  "pg_addIndex t r x i g = Inr g' \<Longrightarrow> dg_working g' = dg_working g \<and> (\<exists>s. dg_statements g' = dg_statements g @ [s] \<and> \<not> destructive_statement s)"
  "pg_dropIndex r n i g = Inr g' \<Longrightarrow> dg_working g' = dg_working g \<and> (\<exists>s. dg_statements g' = dg_statements g @ [s] \<and> destructive_statement s)"
  "pg_addConstraint reads t r c i g = Inr g' \<Longrightarrow> dg_working g' = dg_working g \<and> (\<exists>s. dg_statements g' = dg_statements g @ [s] \<and> \<not> destructive_statement s)"
  "pg_dropConstraint t n ty i g = Inr g' \<Longrightarrow> dg_working g' = dg_working g \<and> (\<exists>s. dg_statements g' = dg_statements g @ [s] \<and> destructive_statement s)"
  by (auto simp: pg_addIndex_def pg_dropIndex_def pg_addConstraint_def pg_dropConstraint_def and_then_Inr Let_def
      destructive_statement_def plain_def alter_table_def split: option.splits if_splits)

lemma loses_if: "loses (if b then ss else ts) \<longleftrightarrow> (if b then loses ss else loses ts)"
  by simp

definition keeps :: "designer_error + ddl_statement list \<Rightarrow> bool" where
  "keeps r \<longleftrightarrow> (\<forall>ss. r = Inr ss \<longrightarrow> \<not> loses ss)"

lemma keeps_then: "keeps m \<Longrightarrow> (\<And>ss. \<not> loses ss \<Longrightarrow> keeps (f ss)) \<Longrightarrow> keeps (and_then m f)"
  by (cases m) (auto simp: keeps_def)

lemma keeps_Inr [simp]: "keeps (Inr ss) \<longleftrightarrow> \<not> loses ss" "keeps (Inl e)"
  by (simp_all add: keeps_def)

lemma keeps_any: "(\<And>s. keeps (f s)) \<Longrightarrow> keeps (and_then m f)"
  by (cases m) (auto simp: keeps_def)

lemma pg_changes_keeps: "keeps (pg_changes t q d c)"
  unfolding pg_changes_def Let_def
proof (rule keeps_then)
  show "keeps (if b then (case co_default c of None \<Rightarrow> Inr [alter_table t x]
      | Some v \<Rightarrow> and_then (pg_defaultSql (Some v) ty) (\<lambda>s. Inr [alter_table t (f s)])) else Inr [])" for b x ty f
    by (cases b; cases "co_default c") (auto intro: keeps_any)
qed (simp add: loses_if)

lemma pg_addColumn_step:
  assumes "pg_addColumn t cap c i g = Inr g'"
  shows "js_lower (co_name c) \<notin> names_of g"
    "dg_working g' = js_set (dg_working g) (js_lower (co_name c)) (as_definition c)"
    "\<exists>ss. dg_statements g' = dg_statements g @ ss \<and> \<not> loses ss"
proof -
  let ?k = "js_lower (co_name c)"
  obtain sql where "\<not> has_key (dg_working g) ?k"
    and g': "(case co_comment c of
        None \<Rightarrow> Inr (push (alter_table t ('' ADD COLUMN '' @ sql)) (g\<lparr>dg_working := js_set (dg_working g) ?k (as_definition c)\<rparr>))
      | Some x \<Rightarrow> and_then (pg_quote (co_name c)) (\<lambda>q. Inr (push (comment_on t q (Some x))
          (push (alter_table t ('' ADD COLUMN '' @ sql)) (g\<lparr>dg_working := js_set (dg_working g) ?k (as_definition c)\<rparr>))))) = Inr g'"
    using assms unfolding pg_addColumn_def Let_def and_then_Inr throw_simps by blast
  then show "?k \<notin> names_of g" by (simp add: names_of_def)
  show "dg_working g' = js_set (dg_working g) ?k (as_definition c)" "\<exists>ss. dg_statements g' = dg_statements g @ ss \<and> \<not> loses ss"
    using g' by (auto simp: and_then_Inr split: option.splits)
qed

lemma pg_modifyColumn_step:
  assumes "pg_modifyColumn t cap p d i g = Inr g'"
  shows "dg_working g' = js_set (dg_working g) (js_lower (cd_name d)) (overlay d (pg_alterationColumn p d))"
    "\<exists>ss. dg_statements g' = dg_statements g @ ss \<and> (loses ss \<longrightarrow> pa_generated p \<noteq> None)"
proof -
  let ?n = "pg_alterationColumn p d"
  obtain q ss where ss: "(if map_option gv_expression (co_generated ?n) \<noteq> map_option gv_expression (co_generated (pg_columnInput d))
      then and_then (pg_columnSql (?n\<lparr>co_name := cd_name d\<rparr>)) (\<lambda>sql.
        Inr [(alter_table t ('' DROP COLUMN '' @ q))\<lparr>ddl_columns := [cd_name d], ddl_warning := Some recreate_warning\<rparr>,
             (alter_table t ('' ADD COLUMN '' @ sql))\<lparr>ddl_columns := [cd_name d], ddl_warning := Some recreate_warning\<rparr>])
      else pg_changes t q d ?n) = Inr ss"
    and g': "g' = push_all ss (g\<lparr>dg_working := js_set (dg_working g) (js_lower (cd_name d)) (overlay d ?n)\<rparr>)"
    using assms unfolding pg_modifyColumn_def Let_def and_then_Inr by blast
  show "dg_working g' = js_set (dg_working g) (js_lower (cd_name d)) (overlay d ?n)" by (simp add: g')
  have "\<not> loses ss" if "pa_generated p = None"
  proof -
    have "pg_changes t q d ?n = Inr ss" using ss that by (simp add: pg_alterationColumn_def)
    then show ?thesis using pg_changes_keeps by (simp add: keeps_def)
  qed
  then show "\<exists>ss. dg_statements g' = dg_statements g @ ss \<and> (loses ss \<longrightarrow> pa_generated p \<noteq> None)"
    by (auto simp: g')
qed

lemma pg_renameColumn_step:
  assumes "pg_renameColumn t n m d i g = Inr g'"
  shows "js_lower m \<notin> names_of g"
    "dg_working g' = js_set (js_delete (dg_working g) (js_lower n)) (js_lower m) (d\<lparr>cd_name := m\<rparr>)"
    "\<exists>s. dg_statements g' = dg_statements g @ [s] \<and> \<not> destructive_statement s"
  using assms by (auto simp: pg_renameColumn_def Let_def and_then_Inr names_of_def)

lemma pg_dropColumn_step:
  assumes "pg_dropColumn t n g = Inr g'"
  shows "dg_working g' = js_delete (dg_working g) (js_lower n)"
    "\<exists>s. dg_statements g' = dg_statements g @ [s] \<and> destructive_statement s"
  using assms by (auto simp: pg_dropColumn_def and_then_Inr destructive_statement_def)


text \<open>What the two designers make of the columns and the statements, in one form.\<close>

definition step_ok :: "alteration \<Rightarrow> designer \<Rightarrow> designer \<Rightarrow> bool" where
  "step_ok a g g' \<longleftrightarrow> (table_ok g \<longrightarrow> table_ok g' \<and> moves a (names_of g) = Some (names_of g')) \<and>
     (\<exists>ss. dg_statements g' = dg_statements g @ ss \<and> (drops a \<longrightarrow> loses ss) \<and> (loses ss \<longrightarrow> drops a \<or> regenerates a))"

lemma step_same_columns:
  assumes "dg_working g' = dg_working g" "moves a (names_of g) = Some (names_of g)"
    and "\<exists>s. dg_statements g' = dg_statements g @ [s] \<and> (drops a = destructive_statement s)"
  shows "step_ok a g g'"
proof -
  obtain s where "dg_statements g' = dg_statements g @ [s]" "drops a = destructive_statement s" using assms(3) by blast
  then show ?thesis
    using assms(1,2) table_ok_cong [OF assms(1)] names_of_cong [OF assms(1)]
    by (auto simp: step_ok_def intro!: exI [of _ "[s]"])
qed

lemma step_add:
  assumes "js_lower (co_name c) \<notin> names_of g"
    "dg_working g' = js_set (dg_working g) (js_lower (co_name c)) (as_definition c)"
    "\<exists>ss. dg_statements g' = dg_statements g @ ss \<and> \<not> loses ss"
  shows "step_ok (AddColumn c) g g'"
proof -
  have "table_ok g'" if "table_ok g"
    using table_ok_put [OF that assms(2)] by (simp add: as_definition_def)
  then show ?thesis using assms by (auto simp: step_ok_def names_of_def names_put)
qed

lemma step_drop:
  assumes "map_of (dg_working g) (js_lower n) = Some d" "dg_working g' = js_delete (dg_working g) (js_lower n)"
    "\<exists>s. dg_statements g' = dg_statements g @ [s] \<and> destructive_statement s"
  shows "step_ok (DropColumn n) g g'"
proof -
  have "table_ok g'" if "table_ok g" using table_ok_delete [OF that assms(2)] .
  then show ?thesis using assms names_in [of n g]
    by (auto simp: step_ok_def names_of_def names_delete)
qed

lemma step_rename:
  assumes "map_of (dg_working g) (js_lower n) = Some d" "js_lower m \<notin> names_of g"
    "dg_working g' = js_set (js_delete (dg_working g) (js_lower n)) (js_lower m) (d\<lparr>cd_name := m\<rparr>)"
    "\<exists>s. dg_statements g' = dg_statements g @ [s] \<and> \<not> destructive_statement s"
  shows "step_ok (RenameColumn n m) g g'"
proof -
  let ?h = "g\<lparr>dg_working := js_delete (dg_working g) (js_lower n)\<rparr>"
  have "table_ok g'" if "table_ok g"
  proof (rule table_ok_put [where g = ?h and d = "d\<lparr>cd_name := m\<rparr>" and k = "js_lower m"])
    show "table_ok ?h" by (rule table_ok_delete [OF that]) simp
  qed (use assms(3) in simp_all)
  then show ?thesis using assms names_in [of n g]
    by (auto simp: step_ok_def names_of_def names_delete names_put)
qed

lemma step_modify:
  assumes "map_of (dg_working g) (js_lower n) = Some d" "co_name next = cd_name d"
    "dg_working g' = js_set (dg_working g) (js_lower (cd_name d)) (overlay d next)"
    "\<exists>ss. dg_statements g' = dg_statements g @ ss \<and> (loses ss \<longrightarrow> pa_generated p \<noteq> None)"
  shows "step_ok (ModifyColumn n p) g g'"
proof -
  have "table_ok g' \<and> names_of g' = names_of g" if ok: "table_ok g"
  proof
    show "table_ok g'"
      using table_ok_put [OF ok assms(3)] assms(2) by simp
    have "js_lower (cd_name d) \<in> names_of g" using table_ok_name [OF ok assms(1)] names_in [of n g] assms(1) by simp
    then show "names_of g' = names_of g" using assms(3) by (auto simp: names_of_def names_put)
  qed
  then show ?thesis using assms(1,4) names_in [of n g] by (auto simp: step_ok_def)
qed

lemma pg_step:
  assumes "pg_compileAlteration reads r cap i a g = Inr g'"
  shows "step_ok a g g'"
proof (cases a)
  case (AddIndex x)
  then obtain u where "pg_addIndex u r x i g = Inr g'"
    using assms by (auto simp: pg_compileAlteration_def and_then_Inr)
  from pg_other_alterations(1) [OF this] show ?thesis
    unfolding AddIndex by (intro step_same_columns) auto
next
  case (DropIndex n)
  then obtain u where "pg_dropIndex r n i g = Inr g'"
    using assms by (auto simp: pg_compileAlteration_def and_then_Inr)
  from pg_other_alterations(2) [OF this] show ?thesis
    unfolding DropIndex by (intro step_same_columns) auto
next
  case (AddConstraint c)
  then obtain u where "pg_addConstraint reads u r c i g = Inr g'"
    using assms by (auto simp: pg_compileAlteration_def and_then_Inr)
  from pg_other_alterations(3) [OF this] show ?thesis
    unfolding AddConstraint by (intro step_same_columns) auto
next
  case (DropConstraint n t)
  then obtain u where "pg_dropConstraint u n t i g = Inr g'"
    using assms by (auto simp: pg_compileAlteration_def and_then_Inr)
  from pg_other_alterations(4) [OF this] show ?thesis
    unfolding DropConstraint by (intro step_same_columns) auto
next
  case (AddColumn c)
  then obtain t where "pg_addColumn t cap c i g = Inr g'"
    using assms by (auto simp: pg_compileAlteration_def and_then_Inr)
  then show ?thesis unfolding AddColumn by (intro step_add pg_addColumn_step)
next
  case (DropColumn n)
  then obtain t d where "map_of (dg_working g) (js_lower n) = Some d" "pg_dropColumn t n g = Inr g'"
    using assms by (auto simp: pg_compileAlteration_def and_then_Inr split: option.splits)
  then show ?thesis unfolding DropColumn using pg_dropColumn_step by (intro step_drop) blast+
next
  case (RenameColumn n m)
  then obtain t d where "map_of (dg_working g) (js_lower n) = Some d" "pg_renameColumn t n m d i g = Inr g'"
    using assms by (auto simp: pg_compileAlteration_def and_then_Inr split: option.splits)
  then show ?thesis unfolding RenameColumn using pg_renameColumn_step by (intro step_rename) blast+
next
  case (ModifyColumn n p)
  then obtain t d where d: "map_of (dg_working g) (js_lower n) = Some d" "pg_modifyColumn t cap p d i g = Inr g'"
    using assms by (auto simp: pg_compileAlteration_def and_then_Inr split: option.splits)
  show ?thesis unfolding ModifyColumn
    by (rule step_modify [OF d(1) _ pg_modifyColumn_step [OF d(2)]]) (simp add: pg_alterationColumn_def)
qed

interpretation postgresql: ddl_compiler "pg_compileAlteration reads r cap"
  by unfold_locales (use pg_step in \<open>auto simp: step_ok_def\<close>)

lemma pg_alterations_all: "pg_alterations reads r cap i as g = compile_all (pg_compileAlteration reads r cap) i as g"
proof (induction as arbitrary: i g)
  case (Cons a as)
  then show ?case by (cases "pg_compileAlteration reads r cap i a g") simp_all
qed simp

section \<open>MySQL\<close>

lemma my_support_step:
  assumes "my_support t r c g = Inr g'"
  shows "dg_working g' = dg_working g" "\<exists>ss. dg_statements g' = dg_statements g @ ss \<and> \<not> loses ss"
proof -
  have "dg_working g' = dg_working g \<and> (\<exists>ss. dg_statements g' = dg_statements g @ ss \<and> \<not> loses ss)"
    using assms
    by (auto simp: my_support_def Let_def and_then_Inr plain_def destructive_statement_def
        split: constraint_input.splits if_splits)
  then show "dg_working g' = dg_working g" "\<exists>ss. dg_statements g' = dg_statements g @ ss \<and> \<not> loses ss" by simp_all
qed

lemma my_addConstraint_step:
  assumes "my_addConstraint reads t r c i g = Inr g'"
  shows "step_ok (AddConstraint c) g g'"
proof -
  obtain sql h n where h: "my_support t r c g = Inr h"
    and g': "g' = push (alter_table t ('' ADD '' @ sql)) (h\<lparr>dg_constraints := dg_constraints h @
          [\<lparr>cn_name = n, cn_type = constraint_kind c, cn_columns = constraint_columns c\<rparr>]\<rparr>)"
    using assms unfolding my_addConstraint_def Let_def and_then_Inr throw_simps by blast
  have w: "dg_working g' = dg_working g" using my_support_step(1) [OF h] by (simp add: g')
  obtain ss where "dg_statements h = dg_statements g @ ss" "\<not> loses ss" using my_support_step(2) [OF h] by blast
  then have "\<exists>ss. dg_statements g' = dg_statements g @ ss \<and> \<not> loses ss" by (intro exI [of _ "ss @ _"]) (auto simp: g')
  then show ?thesis using table_ok_cong [OF w] names_of_cong [OF w] by (auto simp: step_ok_def)
qed

lemma my_other_alterations:
  "my_addIndex t r x i g = Inr g' \<Longrightarrow> dg_working g' = dg_working g \<and> (\<exists>s. dg_statements g' = dg_statements g @ [s] \<and> \<not> destructive_statement s)"
  "my_dropIndex t n i g = Inr g' \<Longrightarrow> dg_working g' = dg_working g \<and> (\<exists>s. dg_statements g' = dg_statements g @ [s] \<and> destructive_statement s)"
  "my_dropConstraint t n ty i g = Inr g' \<Longrightarrow> dg_working g' = dg_working g \<and> (\<exists>s. dg_statements g' = dg_statements g @ [s] \<and> destructive_statement s)"
  by (auto simp: my_addIndex_def my_dropIndex_def my_dropConstraint_def and_then_Inr Let_def
      destructive_statement_def plain_def split: option.splits if_splits)

lemma my_columns_step:
  "my_addColumn t cap c i g = Inr g' \<Longrightarrow> step_ok (AddColumn c) g g'"
  "map_of (dg_working g) (js_lower n) = Some d \<Longrightarrow> my_dropColumn t n g = Inr g' \<Longrightarrow> step_ok (DropColumn n) g g'"
  "map_of (dg_working g) (js_lower n) = Some d \<Longrightarrow> my_renameColumn t n m d i g = Inr g' \<Longrightarrow> step_ok (RenameColumn n m) g g'"
proof -
  show "step_ok (AddColumn c) g g'" if "my_addColumn t cap c i g = Inr g'"
    using that by (intro step_add) (auto simp: my_addColumn_def Let_def and_then_Inr names_of_def)
  show "step_ok (DropColumn n) g g'" if "map_of (dg_working g) (js_lower n) = Some d" "my_dropColumn t n g = Inr g'"
    using that by (intro step_drop) (auto simp: my_dropColumn_def and_then_Inr destructive_statement_def)
  show "step_ok (RenameColumn n m) g g'"
    if "map_of (dg_working g) (js_lower n) = Some d" "my_renameColumn t n m d i g = Inr g'"
    using that by (intro step_rename) (auto simp: my_renameColumn_def Let_def and_then_Inr names_of_def)
qed

lemma my_modifyColumn_step:
  assumes "my_modifyColumn t cap p d i g = Inr g'"
  shows "dg_working g' = js_set (dg_working g) (js_lower (cd_name d)) (overlay d (mergedColumn p d))"
    "\<exists>ss. dg_statements g' = dg_statements g @ ss \<and> (loses ss \<longrightarrow> pa_generated p \<noteq> None)"
proof -
  let ?n = "mergedColumn p d"
  obtain sql ss where ss: "(if map_option gv_expression (co_generated ?n) \<noteq> map_option gv_expression (co_generated (my_columnInput d))
      then and_then (my_quote (cd_name d)) (\<lambda>q.
        Inr [(alter_table t ('' DROP COLUMN '' @ q))\<lparr>ddl_columns := [cd_name d], ddl_warning := Some my_recreate_warning\<rparr>,
             (alter_table t ('' ADD COLUMN '' @ sql))\<lparr>ddl_columns := [cd_name d], ddl_warning := Some my_recreate_warning\<rparr>])
      else Inr [alter_table t ('' MODIFY COLUMN '' @ sql)]) = Inr ss"
    and g': "g' = push_all ss (g\<lparr>dg_working := js_set (dg_working g) (js_lower (cd_name d)) (overlay d ?n)\<rparr>)"
    using assms unfolding my_modifyColumn_def Let_def and_then_Inr by blast
  show "dg_working g' = js_set (dg_working g) (js_lower (cd_name d)) (overlay d ?n)" by (simp add: g')
  have "\<not> loses ss" if "pa_generated p = None" using ss that by (auto simp: mergedColumn_def)
  then show "\<exists>ss. dg_statements g' = dg_statements g @ ss \<and> (loses ss \<longrightarrow> pa_generated p \<noteq> None)"
    by (auto simp: g')
qed

lemma my_step:
  assumes "my_compileAlteration reads r cap i a g = Inr g'"
  shows "step_ok a g g'"
proof (cases a)
  case (AddIndex x)
  then obtain u where "my_addIndex u r x i g = Inr g'"
    using assms by (auto simp: my_compileAlteration_def and_then_Inr)
  from my_other_alterations(1) [OF this] show ?thesis
    unfolding AddIndex by (intro step_same_columns) auto
next
  case (DropIndex n)
  then obtain u where "my_dropIndex u n i g = Inr g'"
    using assms by (auto simp: my_compileAlteration_def and_then_Inr)
  from my_other_alterations(2) [OF this] show ?thesis
    unfolding DropIndex by (intro step_same_columns) auto
next
  case (DropConstraint n t)
  then obtain u where "my_dropConstraint u n t i g = Inr g'"
    using assms by (auto simp: my_compileAlteration_def and_then_Inr)
  from my_other_alterations(3) [OF this] show ?thesis
    unfolding DropConstraint by (intro step_same_columns) auto
next
  case (ModifyColumn n p)
  then obtain t d where d: "map_of (dg_working g) (js_lower n) = Some d" "my_modifyColumn t cap p d i g = Inr g'"
    using assms by (auto simp: my_compileAlteration_def and_then_Inr split: option.splits)
  show ?thesis unfolding ModifyColumn
    by (rule step_modify [OF d(1) _ my_modifyColumn_step [OF d(2)]]) (simp add: mergedColumn_def)
next
  case (AddConstraint c)
  then obtain u where "my_addConstraint reads u r c i g = Inr g'"
    using assms by (auto simp: my_compileAlteration_def and_then_Inr)
  then show ?thesis unfolding AddConstraint by (rule my_addConstraint_step)
qed (use assms my_columns_step in
      \<open>auto simp: my_compileAlteration_def and_then_Inr split: option.splits\<close>)

interpretation mysql: ddl_compiler "my_compileAlteration reads r cap"
  by unfold_locales (use my_step in \<open>auto simp: step_ok_def\<close>)

lemma my_alterations_all: "my_alterations reads r cap i as g = compile_all (my_compileAlteration reads r cap) i as g"
proof (induction as arbitrary: i g)
  case (Cons a as)
  then show ?case by (cases "my_compileAlteration reads r cap i a g") simp_all
qed simp

section \<open>Statements that drop, by their text\<close>

text \<open>
  Independent of any mark: the statement drops something of the table whose quoted name is
  \<open>target\<close>, or an index by its own name. Both designers write the drops in one of these two forms.
\<close>

definition drop_text :: "string \<Rightarrow> string \<Rightarrow> bool" where
  "drop_text target sql \<longleftrightarrow>
     (let p = ''ALTER TABLE '' @ target @ '' DROP '' in take (length p) sql = p) \<or> take 11 sql = ''DROP INDEX ''"

lemma drop_text_simps [simp]:
  "drop_text t (ddl_sql (alter_table t x)) \<longleftrightarrow> take 6 x = '' DROP ''"
  "\<not> drop_text t (CHR ''C'' # x)"
  by (simp_all add: drop_text_def Let_def alter_table_def plain_def)

definition drops_marked :: "string \<Rightarrow> ddl_statement list \<Rightarrow> bool" where
  "drops_marked target ss \<longleftrightarrow> list_all (\<lambda>s. drop_text target (ddl_sql s) \<longrightarrow> destructive_statement s) ss"

lemma drops_marked_simps [simp]:
  "drops_marked t []" "drops_marked t (s # ss) \<longleftrightarrow> (drop_text t (ddl_sql s) \<longrightarrow> destructive_statement s) \<and> drops_marked t ss"
  "drops_marked t (ss @ ts) \<longleftrightarrow> drops_marked t ss \<and> drops_marked t ts"
  by (simp_all add: drops_marked_def)

lemma text_simps [simp]:
  "ddl_sql (plain s) = s" "\<not> drop_text u (ddl_sql (comment_on t q c))"
  by (simp_all add: plain_def comment_on_def)

lemma compile_all_marked:
  assumes "\<And>i a g g'. compiled i a g = Inr g' \<Longrightarrow> drops_marked t (dg_statements g) \<Longrightarrow> drops_marked t (dg_statements g')"
  shows "compile_all compiled i as g = Inr g' \<Longrightarrow> drops_marked t (dg_statements g) \<Longrightarrow> drops_marked t (dg_statements g')"
  by (induction as arbitrary: i g) (auto simp: and_then_Inr dest: assms)

lemma marked_if: "drops_marked t (if b then ss else ts) \<longleftrightarrow> (if b then drops_marked t ss else drops_marked t ts)"
  by simp

lemma drop_simps [simp]:
  "destructive_statement (s\<lparr>ddl_columns := [n]\<rparr>)" "destructive_statement (s\<lparr>ddl_indexes := [n]\<rparr>)"
  "destructive_statement (s\<lparr>ddl_constraints := [n]\<rparr>)"
  "destructive_statement (s\<lparr>ddl_warning := w\<rparr>) = destructive_statement s"
  by (simp_all add: destructive_statement_def)

definition marks :: "string \<Rightarrow> designer_error + ddl_statement list \<Rightarrow> bool" where
  "marks t r \<longleftrightarrow> (\<forall>ss. r = Inr ss \<longrightarrow> drops_marked t ss)"

lemma marks_then: "marks t m \<Longrightarrow> (\<And>ss. drops_marked t ss \<Longrightarrow> marks t (f ss)) \<Longrightarrow> marks t (and_then m f)"
  by (cases m) (auto simp: marks_def)

lemma marks_simps [simp]: "marks t (Inr ss) \<longleftrightarrow> drops_marked t ss" "marks t (Inl e)"
  by (simp_all add: marks_def)

lemma marks_any: "(\<And>s. marks t (f s)) \<Longrightarrow> marks t (and_then m f)"
  by (cases m) (auto simp: marks_def)

lemma pg_changes_marked: "marks t (pg_changes t q d c)"
  unfolding pg_changes_def Let_def
proof (rule marks_then)
  show "marks t (if b then (case co_default c of None \<Rightarrow> Inr [alter_table t (('' ALTER COLUMN '' @ q) @ x)]
      | Some v \<Rightarrow> and_then (pg_defaultSql (Some v) ty) (\<lambda>s. Inr [alter_table t (('' ALTER COLUMN '' @ q) @ f s)])) else Inr [])"
    for b x ty f
    by (cases b; cases "co_default c") (auto intro: marks_any)
qed (simp add: marked_if)

lemma pg_modify_marked:
  assumes "pg_modifyColumn t cap p d i g = Inr g'" "drops_marked t (dg_statements g)"
  shows "drops_marked t (dg_statements g')"
proof -
  let ?n = "pg_alterationColumn p d"
  obtain q ss where ss: "(if map_option gv_expression (co_generated ?n) \<noteq> map_option gv_expression (co_generated (pg_columnInput d))
      then and_then (pg_columnSql (?n\<lparr>co_name := cd_name d\<rparr>)) (\<lambda>sql.
        Inr [(alter_table t ('' DROP COLUMN '' @ q))\<lparr>ddl_columns := [cd_name d], ddl_warning := Some recreate_warning\<rparr>,
             (alter_table t ('' ADD COLUMN '' @ sql))\<lparr>ddl_columns := [cd_name d], ddl_warning := Some recreate_warning\<rparr>])
      else pg_changes t q d ?n) = Inr ss"
    and g': "g' = push_all ss (g\<lparr>dg_working := js_set (dg_working g) (js_lower (cd_name d)) (overlay d ?n)\<rparr>)"
    using assms unfolding pg_modifyColumn_def Let_def and_then_Inr by blast
  have "drops_marked t ss" using ss using pg_changes_marked [of t q d ?n]
    by (auto simp: and_then_Inr marks_def split: if_splits)
  then show ?thesis using assms(2) by (simp add: g')
qed

lemma my_modify_marked:
  assumes "my_modifyColumn t cap p d i g = Inr g'" "drops_marked t (dg_statements g)"
  shows "drops_marked t (dg_statements g')"
proof -
  let ?n = "mergedColumn p d"
  obtain sql ss where ss: "(if map_option gv_expression (co_generated ?n) \<noteq> map_option gv_expression (co_generated (my_columnInput d))
      then and_then (my_quote (cd_name d)) (\<lambda>q.
        Inr [(alter_table t ('' DROP COLUMN '' @ q))\<lparr>ddl_columns := [cd_name d], ddl_warning := Some my_recreate_warning\<rparr>,
             (alter_table t ('' ADD COLUMN '' @ sql))\<lparr>ddl_columns := [cd_name d], ddl_warning := Some my_recreate_warning\<rparr>])
      else Inr [alter_table t ('' MODIFY COLUMN '' @ sql)]) = Inr ss"
    and g': "g' = push_all ss (g\<lparr>dg_working := js_set (dg_working g) (js_lower (cd_name d)) (overlay d ?n)\<rparr>)"
    using assms unfolding my_modifyColumn_def Let_def and_then_Inr by blast
  have "drops_marked t ss" using ss by (auto simp: and_then_Inr split: if_splits)
  then show ?thesis using assms(2) by (simp add: g')
qed

lemma my_support_marked: "my_support t r c g = Inr g' \<Longrightarrow> drops_marked t (dg_statements g) \<Longrightarrow> drops_marked t (dg_statements g')"
  by (auto simp: my_support_def Let_def and_then_Inr my_indexSql_def split: constraint_input.splits if_splits)

lemma pg_marked:
  assumes "pg_compileAlteration reads r cap i a g = Inr g'" "pg_alterTarget r = Inr t" "drops_marked t (dg_statements g)"
  shows "drops_marked t (dg_statements g')"
  using assms(1) unfolding pg_compileAlteration_def
  by (auto simp: and_then_Inr Let_def assms(2,3) pg_addIndex_def pg_dropIndex_def
       pg_addConstraint_def pg_dropConstraint_def pg_addColumn_def pg_dropColumn_def pg_renameColumn_def pg_indexSql_def
       dest: pg_modify_marked split: alteration.splits option.splits if_splits)

lemma my_marked:
  assumes "my_compileAlteration reads r cap i a g = Inr g'" "my_target r = Inr t" "drops_marked t (dg_statements g)"
  shows "drops_marked t (dg_statements g')"
  using assms(1) unfolding my_compileAlteration_def
  by (auto simp: and_then_Inr Let_def assms(2,3) my_addIndex_def my_dropIndex_def
       my_addConstraint_def my_dropConstraint_def my_addColumn_def my_dropColumn_def my_renameColumn_def my_indexSql_def
       dest: my_modify_marked my_support_marked split: alteration.splits option.splits if_splits)

section \<open>Properties\<close>

lemma by_key_snoc: "by_key f (xs @ [x]) = js_set (by_key f xs) (js_lower (f x)) x"
  by (simp add: by_key_def)

lemma by_key_ok:
  "distinct (js_keys (by_key f xs)) \<and> (\<forall>(k, x) \<in> set (by_key f xs). k = js_lower (f x))
     \<and> set (js_keys (by_key f xs)) = (\<lambda>x. js_lower (f x)) ` set xs"
proof (induction xs rule: rev_induct)
  case Nil
  then show ?case by (simp add: by_key_def js_keys_def)
next
  case (snoc x xs)
  then show ?case
    unfolding by_key_snoc using entries_set
    by (fastforce simp: distinct_js_set names_put)
qed

definition start_table :: "table_definition \<Rightarrow> designer" where
  "start_table td = \<lparr>dg_statements = [], dg_working = by_key cd_name (td_columns td),
     dg_indexes = td_indexes td, dg_constraints = td_constraints td\<rparr>"

lemma start_table_simps [simp]:
  "table_ok (start_table td)" "dg_statements (start_table td) = []"
  "names_of (start_table td) = (\<lambda>d. js_lower (cd_name d)) ` set (td_columns td)"
  using by_key_ok [of cd_name "td_columns td"] by (simp_all add: start_table_def table_ok_def names_of_def)

lemma destructive_with_warning [simp]: "destructive_statement (with_warning f s) = destructive_statement s"
  by (simp add: with_warning_def destructive_statement_def split: option.split)

lemma preview_destructive [simp]: "pv_destructive (preview_of op f ss) \<longleftrightarrow> loses ss"
  by (simp add: preview_of_def Let_def loses_def list_ex_iff)

text \<open>What a successful preview of alterations comes from, in either engine.\<close>

lemma pg_alter_Inr:
  "pg_alter reads r cap s = Inr ss \<Longrightarrow> \<exists>td g. rd_describe reads ((cs_ref s)\<lparr>ref_type := ''table''\<rparr>) = Inr td
     \<and> compile_all (pg_compileAlteration reads r cap) 0 (cs_alterations s) (start_table td) = Inr g \<and> ss = dg_statements g"
  by (auto simp: pg_alter_def and_then_Inr start_table_def pg_alterations_all)

lemma my_alter_Inr:
  "my_alter reads r cap s = Inr ss \<Longrightarrow> \<exists>td g.
     rd_describe reads \<lparr>ref_database = fst r, ref_schema = None, ref_name = snd r, ref_type = ''table''\<rparr> = Inr td
     \<and> compile_all (my_compileAlteration reads r cap) 0 (cs_alterations s) (start_table td) = Inr g \<and> ss = dg_statements g"
  by (auto simp: my_alter_def and_then_Inr start_table_def my_alterations_all)

lemma pg_compile_alter:
  assumes "pg_compile reads s = Inr pv" "cs_operation s = AlterTable"
  obtains r cap td g where "rd_describe reads ((cs_ref s)\<lparr>ref_type := ''table''\<rparr>) = Inr td"
    "compile_all (pg_compileAlteration reads r cap) 0 (cs_alterations s) (start_table td) = Inr g"
    "pv = preview_of AlterTable (pg_warningFor AlterTable) (dg_statements g)"
proof -
  obtain r cap ss where "pg_alter reads r cap s = Inr ss" "pv = preview_of AlterTable (pg_warningFor AlterTable) ss"
    using assms by (auto simp: pg_compile_def and_then_Inr)
  then show thesis using pg_alter_Inr that by blast
qed

lemma my_compile_alter:
  assumes "my_compile reads s = Inr pv" "cs_operation s = AlterTable"
  obtains r cap td g ref where "rd_describe reads ref = Inr td" "ref_name ref = ref_name (cs_ref s)"
    "compile_all (my_compileAlteration reads r cap) 0 (cs_alterations s) (start_table td) = Inr g"
    "pv = preview_of AlterTable my_warningFor (dg_statements g)"
proof -
  obtain r cap ss where r: "my_tableRef (cs_ref s) = Inr r" and ss: "my_alter reads r cap s = Inr ss"
    "pv = preview_of AlterTable my_warningFor ss"
    using assms by (auto simp: my_compile_def and_then_Inr)
  have "snd r = ref_name (cs_ref s)" using r
    by (auto simp: my_tableRef_def my_identifier_def valid_identifier_def throws_def Let_def and_then_Inr split: if_splits)
  moreover obtain td g where
    "rd_describe reads \<lparr>ref_database = fst r, ref_schema = None, ref_name = snd r, ref_type = ''table''\<rparr> = Inr td"
    "compile_all (my_compileAlteration reads r cap) 0 (cs_alterations s) (start_table td) = Inr g" "ss = dg_statements g"
    using my_alter_Inr [OF ss(1)] by blast
  ultimately show thesis using that [of _ td] ss(2) by auto
qed

text \<open>
  Claim C16: in both engines a change set that a designer accepts follows the specification of a table's
  columns: read in order, no alteration adds a column that is there, and none renames, changes or drops
  one that is not, up to the case of the letters; so the statements never refer to a column that an
  earlier one removed.
\<close>

theorem accepted_alterations_fit_columns:
  assumes "pg_compile reads s = Inr pv \<or> my_compile reads s = Inr pv" "cs_operation s = AlterTable"
  shows "\<exists>ref td S. rd_describe reads ref = Inr td \<and> ref_name ref = ref_name (cs_ref s)
    \<and> moves_all (cs_alterations s) ((\<lambda>d. js_lower (cd_name d)) ` set (td_columns td)) = Some S"
  using assms(1)
proof
  assume "pg_compile reads s = Inr pv"
  then obtain r cap td g where td: "rd_describe reads ((cs_ref s)\<lparr>ref_type := ''table''\<rparr>) = Inr td"
    and g: "compile_all (pg_compileAlteration reads r cap) 0 (cs_alterations s) (start_table td) = Inr g"
    by (rule pg_compile_alter [OF _ assms(2)])
  have "ref_name ((cs_ref s)\<lparr>ref_type := ''table''\<rparr>) = ref_name (cs_ref s)" by simp
  with td show ?thesis
    using postgresql.run_columns [OF start_table_simps(1) g, unfolded start_table_simps, THEN conjunct2] by blast
next
  assume "my_compile reads s = Inr pv"
  then obtain r cap td g ref where td: "rd_describe reads ref = Inr td" "ref_name ref = ref_name (cs_ref s)"
    and g: "compile_all (my_compileAlteration reads r cap) 0 (cs_alterations s) (start_table td) = Inr g"
    by (rule my_compile_alter [OF _ assms(2)])
  with td show ?thesis
    using mysql.run_columns [OF start_table_simps(1) g, unfolded start_table_simps, THEN conjunct2] by blast
qed

lemma destructive_marked:
  assumes "pg_compile reads s = Inr pv \<or> my_compile reads s = Inr pv" "cs_operation s = AlterTable"
  shows "((\<exists>a \<in> set (cs_alterations s). drops a) \<longrightarrow> pv_destructive pv)
    \<and> (pv_destructive pv \<longrightarrow> (\<exists>a \<in> set (cs_alterations s). drops a \<or> regenerates a))"
  using assms(1)
proof
  assume "pg_compile reads s = Inr pv"
  then obtain r cap td g where
    "compile_all (pg_compileAlteration reads r cap) 0 (cs_alterations s) (start_table td) = Inr g"
    "pv = preview_of AlterTable (pg_warningFor AlterTable) (dg_statements g)"
    by (rule pg_compile_alter [OF _ assms(2)])
  then show ?thesis using postgresql.run_statements [of reads r cap 0 "cs_alterations s" "start_table td"] by auto
next
  assume "my_compile reads s = Inr pv"
  then obtain r cap td g ref where
    "compile_all (my_compileAlteration reads r cap) 0 (cs_alterations s) (start_table td) = Inr g"
    "pv = preview_of AlterTable my_warningFor (dg_statements g)"
    by (rule my_compile_alter [OF _ assms(2)])
  then show ?thesis using mysql.run_statements [of reads r cap 0 "cs_alterations s" "start_table td"] by auto
qed

text \<open>The quoted name of the table, as the designer writes it.\<close>

definition table_target :: "bool \<Rightarrow> change_set \<Rightarrow> designer_error + string" where
  "table_target postgres s =
     (if postgres then and_then (pg_tableRef (cs_ref s)) pg_alterTarget else and_then (my_tableRef (cs_ref s)) my_target)"

lemma text_with_warning [simp]: "ddl_sql (with_warning f s) = ddl_sql s"
  by (simp add: with_warning_def split: option.split)

lemma marked_preview:
  "drops_marked t ss \<Longrightarrow> st \<in> set (pv_statements (preview_of op f ss)) \<Longrightarrow> drop_text t (ddl_sql st) \<Longrightarrow> loses ss"
  by (auto simp: preview_of_def Let_def drops_marked_def loses_def list_all_iff list_ex_iff)

lemma drop_texts_marked:
  assumes "if postgres then pg_compile reads s = Inr pv else my_compile reads s = Inr pv" "cs_operation s = AlterTable"
    "table_target postgres s = Inr t" "st \<in> set (pv_statements pv)" "drop_text t (ddl_sql st)"
  shows "pv_destructive pv"
proof (cases postgres)
  case True
  then obtain r cap ss where r: "pg_tableRef (cs_ref s) = Inr r" "pg_alter reads r cap s = Inr ss"
      "pv = preview_of AlterTable (pg_warningFor AlterTable) ss"
    using assms(1,2) by (auto simp: pg_compile_def and_then_Inr)
  obtain td g where g: "compile_all (pg_compileAlteration reads r cap) 0 (cs_alterations s) (start_table td) = Inr g" "ss = dg_statements g"
    using pg_alter_Inr [OF r(2)] by blast
  have t: "pg_alterTarget r = Inr t" using True assms(3) r(1) by (simp add: table_target_def)
  have "drops_marked t ss"
    using compile_all_marked [where t = t and compiled = "pg_compileAlteration reads r cap", OF pg_marked [OF _ t] g(1)] g(2) by simp
  from marked_preview [OF this] show ?thesis using assms(4,5) r(3) by simp
next
  case False
  then obtain r cap ss where r: "my_tableRef (cs_ref s) = Inr r" "my_alter reads r cap s = Inr ss"
      "pv = preview_of AlterTable my_warningFor ss"
    using assms(1,2) by (auto simp: my_compile_def and_then_Inr)
  obtain td g where g: "compile_all (my_compileAlteration reads r cap) 0 (cs_alterations s) (start_table td) = Inr g" "ss = dg_statements g"
    using my_alter_Inr [OF r(2)] by blast
  have t: "my_target r = Inr t" using False assms(3) r(1) by (simp add: table_target_def)
  have "drops_marked t ss"
    using compile_all_marked [where t = t and compiled = "my_compileAlteration reads r cap", OF my_marked [OF _ t] g(1)] g(2) by simp
  from marked_preview [OF this] show ?thesis using assms(4,5) r(3) by simp
qed

section \<open>A sample table\<close>

definition sample_column :: "string \<Rightarrow> string \<Rightarrow> column_definition" where
  "sample_column n t = \<lparr>cd_name = n, cd_dataType = t, cd_nullable = True, cd_default = None, cd_comment = None,
     cd_identity = Some False, cd_isGenerated = Some False, cd_generated = None\<rparr>"

definition sample_table :: table_definition where
  "sample_table = \<lparr>td_columns = [sample_column ''Id'' ''integer'', sample_column ''price'' ''decimal(10,2)''],
     td_indexes = [], td_constraints = []\<rparr>"

definition sample_reads :: "string \<Rightarrow> designer_reads" where
  "sample_reads v = \<lparr>rd_version = Inr v, rd_exists = (\<lambda>_ _. Inr False), rd_describe = (\<lambda>_. Inr sample_table)\<rparr>"

definition new_column :: "string \<Rightarrow> string \<Rightarrow> default_value option \<Rightarrow> column_input" where
  "new_column n t d = \<lparr>co_name = n, co_dataType = t, co_length = None, co_precision = None, co_scale = None,
     co_nullable = True, co_default = d, co_identity = None, co_generated = None, co_comment = None,
     co_primaryKey = None\<rparr>"

definition no_patch :: column_patch where
  "no_patch = \<lparr>pa_dataType = None, pa_length = None, pa_precision = None, pa_scale = None, pa_nullable = None,
     pa_default = None, pa_identity = None, pa_generated = None, pa_comment = None, pa_primaryKey = None\<rparr>"

definition sample_change :: "alteration list \<Rightarrow> change_set" where
  "sample_change as = \<lparr>cs_operation = AlterTable,
     cs_ref = \<lparr>ref_database = ''d'', ref_schema = Some ''s'', ref_name = ''t'', ref_type = ''table''\<rparr>,
     cs_columns = [], cs_indexes = [], cs_constraints = [], cs_alterations = as\<rparr>"

lemma sample_change_simps [simp]: "cs_operation (sample_change as) = AlterTable" "cs_alterations (sample_change as) = as"
  by (simp_all add: sample_change_def)

definition shown :: "designer_error + ddl_preview \<Rightarrow> (string list \<times> bool) option" where
  "shown r = (case r of Inl _ \<Rightarrow> None | Inr pv \<Rightarrow> Some (map ddl_sql (pv_statements pv), pv_destructive pv))"

definition sample_as :: "alteration list" where
  "sample_as = [RenameColumn ''price'' ''cost'', AddColumn (new_column ''price'' ''integer'' None), DropColumn ''ID'']"

lemma sample_as_shown:
  "shown (pg_compile (sample_reads ''16.2'') (sample_change sample_as)) =
     Some ([''ALTER TABLE \"s\".\"t\" RENAME COLUMN \"price\" TO \"cost\"'',
            ''ALTER TABLE \"s\".\"t\" ADD COLUMN \"price\" integer'',
            ''ALTER TABLE \"s\".\"t\" DROP COLUMN \"ID\"''], True)"
  by code_simp

theorem accepted_alterations_fit_columns_witness:
  "\<exists>S. moves_all sample_as ((\<lambda>d. js_lower (cd_name d)) ` set (td_columns sample_table)) = Some S"
proof -
  obtain pv where "pg_compile (sample_reads ''16.2'') (sample_change sample_as) = Inr pv"
    using sample_as_shown by (auto simp: shown_def split: sum.splits)
  then obtain ref td S where td: "rd_describe (sample_reads ''16.2'') ref = Inr td"
    and S: "moves_all (cs_alterations (sample_change sample_as)) ((\<lambda>d. js_lower (cd_name d)) ` set (td_columns td)) = Some S"
    using accepted_alterations_fit_columns [of "sample_reads ''16.2''" "sample_change sample_as" pv] sample_change_simps(1)
    by blast
  have "td = sample_table" using td by (simp add: sample_reads_def)
  then show ?thesis using S unfolding sample_change_simps by blast
qed

section \<open>Change sets that go wrong\<close>

text \<open>
  The check of an expression keeps out separators and comments, but not a comma: the default
  \<open>0, DROP COLUMN price\<close> gives a statement that also drops a column, and the preview does not mark it
  as destructive, so it is applied without the confirmation that dropping a column needs.
\<close>

theorem expression_can_drop_column:
  "shown (pg_compile (sample_reads ''16.2'') (sample_change [AddColumn (new_column ''c'' ''integer''
       (Some \<lparr>dv_kind = DefaultExpression, dv_value = ''0, DROP COLUMN price''\<rparr>))])) =
     Some ([''ALTER TABLE \"s\".\"t\" ADD COLUMN \"c\" integer DEFAULT 0, DROP COLUMN price''], False)"
  by code_simp

text \<open>
  The second change of a column in one change set starts from the column as it was, with the
  type of the first but without its parameters: after a change of \<open>decimal(10,2)\<close>, the second
  statement makes the column a plain \<open>decimal\<close>, which has no decimal places in MySQL, and drops the
  default that the first had set.
\<close>

theorem second_change_loses_type:
  "shown (my_compile (sample_reads ''8.0.36'') (sample_change
      [ModifyColumn ''price'' (no_patch\<lparr>pa_default := Some (Some \<lparr>dv_kind = DefaultLiteral, dv_value = ''1.5''\<rparr>)\<rparr>),
       ModifyColumn ''price'' (no_patch\<lparr>pa_nullable := Some False\<rparr>)])) =
     Some ([''ALTER TABLE `d`.`t` MODIFY COLUMN `price` decimal(10,2) DEFAULT 1.5'',
            ''ALTER TABLE `d`.`t` MODIFY COLUMN `price` decimal NOT NULL''], False)"
  by code_simp

text \<open>
  A literal default of a boolean column is checked without its outer blanks and written with
  them: \<open>true\<close> with a blank is accepted, and the column gets the default false.
\<close>

theorem boolean_default_inverted:
  "let c = new_column ''b'' ''boolean'' (Some \<lparr>dv_kind = DefaultLiteral, dv_value = ''true ''\<rparr>) in
   pg_column_issues c ''column'' (pg_capabilityFor ''16'') = [] \<and> pg_columnSql c = Inr ''\"b\" boolean DEFAULT FALSE''
   \<and> my_column_issues c ''column'' (my_capabilityFor ''8.0.36'') = [] \<and> my_columnSql c = Inr ''`b` boolean DEFAULT 0''"
  by code_simp

text \<open>
  Every change of an ordinary PostgreSQL column also drops its identity: the old column says
  that it has none with \<open>false\<close>, the new one by having no such field, and the two are compared.
\<close>

theorem comment_change_drops_identity:
  "shown (pg_compile (sample_reads ''16.2'') (sample_change
      [ModifyColumn ''id'' (no_patch\<lparr>pa_comment := Some (Some ''key'')\<rparr>)])) =
     Some ([''ALTER TABLE \"s\".\"t\" ALTER COLUMN \"Id\" DROP IDENTITY IF EXISTS'',
            ''COMMENT ON COLUMN \"s\".\"t\".\"Id\" IS '' @ [CHR 0x27] @ ''key'' @ [CHR 0x27]], False)"
  by code_simp

end
