(* ===== verification/DdlApply.thy ===== *)
theory DdlApply
  imports DdlProps
begin

text \<open>
  Applying a change set: the contract of a database session that runs DDL (\<open>ddl_session\<close>, with a
  reference session that instantiates it), that PostgreSQL stores all statements of the preview or
  none, that MySQL stores a prefix and reports it, and that the PostgreSQL designer cannot run a
  statement that contains a question mark.
\<close>

section \<open>The contract of a session\<close>

text \<open>
  What is \<open>stored\<close> for good, and what the open transaction has run (None outside of one). A statement
  that fails stores nothing.
\<close>

locale ddl_session =
  fixes p :: "'w ddl_port" and stored :: "'w \<Rightarrow> string list" and tx :: "'w \<Rightarrow> string list option"
  assumes begun: "tx w = None \<Longrightarrow> dp_begin p w = (w', Inr ()) \<Longrightarrow> stored w' = stored w \<and> tx w' = Some []"
    and not_begun: "dp_begin p w = (w', Inl m) \<Longrightarrow> stored w' = stored w"
    and ran: "dp_run p s w = (w', Inr ()) \<Longrightarrow>
      (case tx w of None \<Rightarrow> stored w' = stored w @ [s] \<and> tx w' = None
       | Some ss \<Rightarrow> stored w' = stored w \<and> tx w' = Some (ss @ [s]))"
    and not_ran: "dp_run p s w = (w', Inl m) \<Longrightarrow> stored w' = stored w \<and> (tx w = None \<longrightarrow> tx w' = None)"
    and committed: "dp_commit p w = (w', Inr ()) \<Longrightarrow> stored w' = stored w @ (case tx w of None \<Rightarrow> [] | Some ss \<Rightarrow> ss)"
    and not_committed: "dp_commit p w = (w', Inl m) \<Longrightarrow> stored w' = stored w"
    and rolled_back: "dp_rollback p w = (w', r) \<Longrightarrow> stored w' = stored w"
begin

lemma run_in_tx:
  assumes "run_statements (pg_query p) fail i ss done w = (w', r)" "tx w = Some ts"
  shows "stored w' = stored w" "r = Inr rs \<Longrightarrow> tx w' = Some (ts @ map ddl_sql ss) \<and> length rs = length done + length ss"
proof -
  have "stored w' = stored w \<and> (\<forall>rs. r = Inr rs \<longrightarrow> tx w' = Some (ts @ map ddl_sql ss) \<and> length rs = length done + length ss)"
    using assms
  proof (induction ss arbitrary: i "done" w ts)
    case (Cons s ss)
    obtain w1 x where x: "pg_query p (ddl_sql s) w = (w1, x)" by (cases "pg_query p (ddl_sql s) w")
    show ?case
    proof (cases x)
      case (Inl m)
      then have "stored w1 = stored w" using x not_ran by (auto simp: pg_query_def split: if_splits)
      then show ?thesis using Cons.prems(1) x Inl by auto
    next
      case (Inr u)
      then have "dp_run p (ddl_sql s) w = (w1, Inr ())" using x by (auto simp: pg_query_def split: if_splits)
      then have w1: "stored w1 = stored w" "tx w1 = Some (ts @ [ddl_sql s])" using ran Cons.prems(2) by fastforce+
      have "run_statements (pg_query p) fail (i + 1) ss (done @ [success i (ddl_sql s)]) w1 = (w', r)"
        using Cons.prems(1) x Inr by simp
      then show ?thesis using Cons.IH [OF _ w1(2)] w1(1) by fastforce
    qed
  qed auto
  then show "stored w' = stored w" "r = Inr rs \<Longrightarrow> tx w' = Some (ts @ map ddl_sql ss) \<and> length rs = length done + length ss"
    by auto
qed

lemma run_direct:
  assumes "run_statements (dp_run p) (my_failure op) i ss done w = (w', r)" "tx w = None"
  shows "\<exists>k \<le> length ss. stored w' = stored w @ map ddl_sql (take k ss) \<and>
    (case r of Inr rs \<Rightarrow> k = length ss \<and> rs = done @ map (\<lambda>j. success (i + j) (ddl_sql (ss ! j))) [0..<k]
     | Inl e \<Rightarrow> k < length ss \<and> (\<exists>m. e = my_failure op (i + k)
         (done @ map (\<lambda>j. success (i + j) (ddl_sql (ss ! j))) [0..<k] @ [failed_at (i + k) (ddl_sql (ss ! k)) m])))"
  using assms
proof (induction ss arbitrary: i "done" w)
  case (Cons s ss)
  obtain w1 x where x: "dp_run p (ddl_sql s) w = (w1, x)" by (cases "dp_run p (ddl_sql s) w")
  show ?case
  proof (cases x)
    case (Inl m)
    then have "stored w1 = stored w" using x not_ran by blast
    then show ?thesis using Cons.prems(1) x Inl by (intro exI [of _ 0]) auto
  next
    case (Inr u)
    then have w1: "stored w1 = stored w @ [ddl_sql s]" "tx w1 = None" using x ran [of "ddl_sql s" w w1] Cons.prems(2) by auto
    have run: "run_statements (dp_run p) (my_failure op) (i + 1) ss (done @ [success i (ddl_sql s)]) w1 = (w', r)"
      using Cons.prems(1) x Inr by simp
    obtain k where k: "k \<le> length ss" "stored w' = stored w1 @ map ddl_sql (take k ss)"
      "case r of Inr rs \<Rightarrow> k = length ss \<and> rs = (done @ [success i (ddl_sql s)])
            @ map (\<lambda>j. success (i + 1 + j) (ddl_sql (ss ! j))) [0..<k]
       | Inl e \<Rightarrow> k < length ss \<and> (\<exists>m. e = my_failure op (i + 1 + k) ((done @ [success i (ddl_sql s)])
            @ map (\<lambda>j. success (i + 1 + j) (ddl_sql (ss ! j))) [0..<k] @ [failed_at (i + 1 + k) (ddl_sql (ss ! k)) m]))"
      using Cons.IH [OF run w1(2)] by blast
    have m: "map (\<lambda>j. success (i + j) (ddl_sql ((s # ss) ! j))) [0..<Suc k]
        = success i (ddl_sql s) # map (\<lambda>j. success (i + 1 + j) (ddl_sql (ss ! j))) [0..<k]"
      by (simp add: upt_conv_Cons map_Suc_upt [symmetric] comp_def del: upt_Suc)
    show ?thesis
      by (intro exI [of _ "Suc k"]) (use k w1 in \<open>auto simp del: upt_Suc simp: m split: sum.splits\<close>)
  qed
qed auto

lemma pg_apply_atomic:
  assumes "pg_apply p s w = (w', r)" "tx w = None" "pg_compile (dp_reads p w) s = Inr pv"
  shows "(\<exists>e. r = Inl e) \<and> stored w' = stored w \<or>
    (\<exists>a. r = Inr a \<and> ar_committed a \<and> length (ar_statements a) = length (pv_statements pv)) \<and>
      stored w' = stored w @ map ddl_sql (pv_statements pv)"
proof (cases "dp_begin p w")
  case (Pair w1 b)
  show ?thesis
  proof (cases b)
    case (Inl m)
    then show ?thesis using assms(1,3) Pair not_begun by (auto simp: pg_apply_def in_transaction_def)
  next
    case (Inr u)
    then have w1: "stored w1 = stored w" "tx w1 = Some []" using begun [OF assms(2), of w1] Pair by auto
    obtain w2 x where x: "run_statements (pg_query p) (pg_failure (cs_operation s)) 0 (pv_statements pv) [] w1 = (w2, x)"
      by (cases "run_statements (pg_query p) (pg_failure (cs_operation s)) 0 (pv_statements pv) [] w1")
    note r = run_in_tx [OF x w1(2)]
    show ?thesis
    proof (cases x)
      case x': (Inl e)
      obtain w3 q where q: "dp_rollback p w2 = (w3, q)" by (cases "dp_rollback p w2")
      have "w' = w3 \<and> r = Inl e" using assms(1,3) Pair Inr x x' q by (simp add: pg_apply_def in_transaction_def)
      then show ?thesis using q r(1) w1(1) rolled_back [of w2 w3 q] by simp
    next
      case x': (Inr rs)
      obtain w3 c where c: "dp_commit p w2 = (w3, c)" by (cases "dp_commit p w2")
      show ?thesis
      proof (cases c)
        case c': (Inl m)
        obtain w4 q where "dp_rollback p w3 = (w4, q)" by (cases "dp_rollback p w3")
        then show ?thesis using assms(1,3) Pair Inr x x' c c' r(1) w1(1) not_committed [of w2 w3 m] rolled_back [of w3 w4 q]
          by (intro disjI1) (auto simp: pg_apply_def in_transaction_def)
      next
        case c': (Inr v)
        then have "stored w3 = stored w @ map ddl_sql (pv_statements pv)"
          using committed [of w2 w3] c r(1) r(2) [OF x'] w1(1) by simp
        moreover have "w' = w3 \<and> r = Inr \<lparr>ar_operation = cs_operation s, ar_transactional = True,
            ar_committed = True, ar_statements = rs\<rparr>"
          using assms(1,3) Pair Inr x x' c c' by (simp add: pg_apply_def in_transaction_def)
        ultimately show ?thesis using r(2) [OF x'] by simp
      qed
    qed
  qed
qed

end

section \<open>A reference session\<close>

text \<open>Statements for which \<open>fails\<close> holds are refused; everything else works.\<close>

record ddl_world =
  dw_stored :: "string list"
  dw_tx :: "string list option"

definition ddl_sim :: "designer_reads \<Rightarrow> (string \<Rightarrow> bool) \<Rightarrow> ddl_world ddl_port" where
  "ddl_sim reads fails = \<lparr>dp_reads = (\<lambda>w. reads),
     dp_run = (\<lambda>s w. if fails s then (w, Inl ''refused'')
       else case dw_tx w of None \<Rightarrow> (w\<lparr>dw_stored := dw_stored w @ [s]\<rparr>, Inr ())
         | Some ss \<Rightarrow> (w\<lparr>dw_tx := Some (ss @ [s])\<rparr>, Inr ())),
     dp_begin = (\<lambda>w. (w\<lparr>dw_tx := Some []\<rparr>, Inr ())),
     dp_commit = (\<lambda>w. (w\<lparr>dw_stored := dw_stored w @ (case dw_tx w of None \<Rightarrow> [] | Some ss \<Rightarrow> ss), dw_tx := None\<rparr>, Inr ())),
     dp_rollback = (\<lambda>w. (w\<lparr>dw_tx := None\<rparr>, Inr ()))\<rparr>"

definition ddl_start :: ddl_world where
  "ddl_start = \<lparr>dw_stored = [], dw_tx = None\<rparr>"

interpretation ddl_sim: ddl_session "ddl_sim reads fails" dw_stored dw_tx
  by unfold_locales (auto simp: ddl_sim_def split: option.splits if_splits)

section \<open>Properties\<close>

text \<open>
  Claim C26: PostgreSQL applies a change set as a whole: after \<open>apply\<close> the database has all statements of
  the preview, in order, and the result reports each of them as committed, or it has none and
  \<open>apply\<close> ends with an error.
\<close>

theorem postgresql_apply_is_atomic:
  assumes "ddl_session p stored tx" "tx w = None" "pg_compile (dp_reads p w) s = Inr pv" "pg_apply p s w = (w', r)"
  shows "(\<exists>e. r = Inl e) \<and> stored w' = stored w \<or>
    (\<exists>a. r = Inr a \<and> ar_committed a \<and> length (ar_statements a) = length (pv_statements pv)) \<and>
      stored w' = stored w @ map ddl_sql (pv_statements pv)"
  using ddl_session.pg_apply_atomic [OF assms(1,4,2,3)] .

theorem postgresql_apply_is_atomic_witness:
  "dw_stored (fst (pg_apply (ddl_sim (sample_reads ''16.2'') (\<lambda>s. s = ''ALTER TABLE \"s\".\"t\" DROP COLUMN \"ID\"''))
     (sample_change sample_as) ddl_start)) = []"
proof -
  let ?p = "ddl_sim (sample_reads ''16.2'') (\<lambda>s. s = ''ALTER TABLE \"s\".\"t\" DROP COLUMN \"ID\"'')"
  obtain pv where pv: "pg_compile (dp_reads ?p ddl_start) (sample_change sample_as) = Inr pv"
    using sample_as_shown by (auto simp: shown_def ddl_sim_def split: sum.splits)
  obtain w' r where a: "pg_apply ?p (sample_change sample_as) ddl_start = (w', r)" by (metis prod.exhaust)
  have "dw_tx ddl_start = None" "dw_stored ddl_start = []" by (simp_all add: ddl_start_def)
  moreover have "case snd (pg_apply ?p (sample_change sample_as) ddl_start) of Inl e \<Rightarrow> True | Inr x \<Rightarrow> False"
    by code_simp
  ultimately show ?thesis
    using postgresql_apply_is_atomic [OF ddl_sim.ddl_session_axioms _ pv a] a by auto
qed

text \<open>
  MySQL keeps what ran: after \<open>apply\<close> the database has the first k statements of the preview;
  the result is a success that reports all of them, or the error of statement k, which reports the
  k statements before it as successful, that one as failed, and no other.
\<close>

theorem mysql_apply_keeps_prefix:
  assumes "ddl_session p stored tx" "tx w = None" "my_compile (dp_reads p w) s = Inr pv" "my_apply p s w = (w', r)"
  shows "\<exists>k \<le> length (pv_statements pv). stored w' = stored w @ map ddl_sql (take k (pv_statements pv)) \<and>
    (let reports = map (\<lambda>j. success j (ddl_sql (pv_statements pv ! j))) [0..<k] in
     case r of Inr a \<Rightarrow> k = length (pv_statements pv) \<and> ar_statements a = reports
     | Inl e \<Rightarrow> k < length (pv_statements pv) \<and>
         (\<exists>m. e = my_failure (cs_operation s) k (reports @ [failed_at k (ddl_sql (pv_statements pv ! k)) m])))"
proof -
  let ?reports = "\<lambda>k. map (\<lambda>j. success j (ddl_sql (pv_statements pv ! j))) [0..<k]"
  obtain w1 x where x: "run_statements (dp_run p) (my_failure (cs_operation s)) 0 (pv_statements pv) [] w = (w1, x)"
    by (cases "run_statements (dp_run p) (my_failure (cs_operation s)) 0 (pv_statements pv) [] w")
  have w': "w' = w1" using assms(3,4) x by (cases x) (auto simp: my_apply_def)
  obtain k where k: "k \<le> length (pv_statements pv)" "stored w' = stored w @ map ddl_sql (take k (pv_statements pv))"
    and r: "case x of Inr rs \<Rightarrow> k = length (pv_statements pv) \<and> rs = ?reports k
       | Inl e \<Rightarrow> k < length (pv_statements pv) \<and>
           (\<exists>m. e = my_failure (cs_operation s) k (?reports k @ [failed_at k (ddl_sql (pv_statements pv ! k)) m]))"
    using ddl_session.run_direct [OF assms(1) x assms(2)] unfolding w' append_Nil add_0 by blast
  have "case r of Inr a \<Rightarrow> k = length (pv_statements pv) \<and> ar_statements a = ?reports k
     | Inl e \<Rightarrow> k < length (pv_statements pv) \<and>
         (\<exists>m. e = my_failure (cs_operation s) k (?reports k @ [failed_at k (ddl_sql (pv_statements pv ! k)) m]))"
    using r assms(3,4) x by (cases x) (auto simp: my_apply_def)
  then show ?thesis using k unfolding Let_def by blast
qed

definition my_sample_as :: "alteration list" where
  "my_sample_as = [RenameColumn ''price'' ''cost'', DropColumn ''ID'']"

lemma my_sample_shown:
  "shown (my_compile (sample_reads ''8.0.36'') (sample_change my_sample_as)) =
     Some ([''ALTER TABLE `d`.`t` RENAME COLUMN `price` TO `cost`'', ''ALTER TABLE `d`.`t` DROP COLUMN `ID`''], True)"
  by code_simp

theorem mysql_apply_keeps_prefix_witness:
  "\<exists>k \<le> 2. dw_stored (fst (my_apply (ddl_sim (sample_reads ''8.0.36'') (\<lambda>s. s = ''ALTER TABLE `d`.`t` DROP COLUMN `ID`''))
     (sample_change my_sample_as) ddl_start))
   = take k [''ALTER TABLE `d`.`t` RENAME COLUMN `price` TO `cost`'', ''ALTER TABLE `d`.`t` DROP COLUMN `ID`'']"
proof -
  let ?p = "ddl_sim (sample_reads ''8.0.36'') (\<lambda>s. s = ''ALTER TABLE `d`.`t` DROP COLUMN `ID`'')"
  obtain pv where pv: "my_compile (dp_reads ?p ddl_start) (sample_change my_sample_as) = Inr pv"
    and sql: "map ddl_sql (pv_statements pv) = [''ALTER TABLE `d`.`t` RENAME COLUMN `price` TO `cost`'', ''ALTER TABLE `d`.`t` DROP COLUMN `ID`'']"
    using my_sample_shown by (auto simp: shown_def ddl_sim_def split: sum.splits)
  obtain w' r where a: "my_apply ?p (sample_change my_sample_as) ddl_start = (w', r)" by (metis prod.exhaust)
  have s: "dw_tx ddl_start = None" "dw_stored ddl_start = []" by (simp_all add: ddl_start_def)
  have l: "length (pv_statements pv) = 2" using arg_cong [OF sql, of length] by simp
  obtain k where "k \<le> length (pv_statements pv)" "dw_stored w' = dw_stored ddl_start @ map ddl_sql (take k (pv_statements pv))"
    using mysql_apply_keeps_prefix [OF ddl_sim.ddl_session_axioms s(1) pv a] by blast
  then show ?thesis unfolding a fst_conv l s(2) append_Nil take_map [symmetric] sql by blast
qed

lemma query_refuses: "CHR ''?'' \<in> set s \<Longrightarrow> pg_query p s w = (w, Inl ''PostgreSQL table designer query is invalid.'')"
  by (auto simp: pg_query_def js_split_length filter_empty_conv)

lemma run_refuses:
  "run_statements (pg_query p) fail i ss done w = (w', r) \<Longrightarrow> x \<in> set ss \<Longrightarrow> CHR ''?'' \<in> set (ddl_sql x) \<Longrightarrow> \<exists>e. r = Inl e"
proof (induction ss arbitrary: i "done" w)
  case (Cons s ss)
  then show ?case
    by (cases "pg_query p (ddl_sql s) w"; cases "snd (pg_query p (ddl_sql s) w)") (auto simp: query_refuses)
qed simp

text \<open>
  The PostgreSQL designer runs its statements through the helper for parametrized queries, which
  cuts a text at its question marks: a change set with a question mark anywhere in a statement, as in
  a comment, is previewed and can never be applied, whatever the database.
\<close>

theorem question_mark_never_applied:
  assumes "pg_preview p s w = Inr pv" "x \<in> set (pv_statements pv)" "CHR ''?'' \<in> set (ddl_sql x)"
  shows "\<exists>e. snd (pg_apply p s w) = Inl e"
proof -
  have pv: "pg_compile (dp_reads p w) s = Inr pv" using assms(1) by (simp add: pg_preview_def)
  show ?thesis
  proof (cases "dp_begin p w")
    case (Pair w1 b)
    obtain w2 r where r: "run_statements (pg_query p) (pg_failure (cs_operation s)) 0 (pv_statements pv) [] w1 = (w2, r)"
      by (cases "run_statements (pg_query p) (pg_failure (cs_operation s)) 0 (pv_statements pv) [] w1")
    obtain e where "r = Inl e" using run_refuses [OF r assms(2,3)] by blast
    then show ?thesis using Pair pv r by (cases b) (simp_all add: pg_apply_def in_transaction_def)
  qed
qed

definition asking :: change_set where
  "asking = sample_change [ModifyColumn ''id'' (no_patch\<lparr>pa_comment := Some (Some ''key?'')\<rparr>)]"

lemma asking_shown:
  "case pg_preview (ddl_sim (sample_reads ''16.2'') (\<lambda>s. False)) asking ddl_start of
     Inl e \<Rightarrow> False | Inr pv \<Rightarrow> length (pv_statements pv) = 2 \<and> CHR ''?'' \<in> set (ddl_sql (pv_statements pv ! 1))"
  by code_simp

theorem question_mark_never_applied_witness:
  "\<exists>e. snd (pg_apply (ddl_sim (sample_reads ''16.2'') (\<lambda>s. False)) asking ddl_start) = Inl e"
proof -
  obtain pv where "pg_preview (ddl_sim (sample_reads ''16.2'') (\<lambda>s. False)) asking ddl_start = Inr pv"
    "length (pv_statements pv) = 2" "CHR ''?'' \<in> set (ddl_sql (pv_statements pv ! 1))"
    using asking_shown by (auto split: sum.splits)
  then show ?thesis by (intro question_mark_never_applied) (auto simp: ddl_sim_def)
qed

end
