(* ===== verification/TableService.thy ===== *)
theory TableService
  imports DdlApply AuditLog
begin

text \<open>
  \<open>TableDesignerService\<close> of \<open>apps/server/src/table-designer/table-designer.ts\<close>: preview and application of
  a change set on a connected provider, the confirmation that a destructive one needs, and its audit
  entries. The world is the provider's and the store is the internal one. Then what the service and
  the designers guarantee together.
\<close>

section \<open>The designer of a provider\<close>

record 'w table_designer =
  td_preview :: "change_set \<Rightarrow> 'w \<Rightarrow> designer_error + ddl_preview"
  td_apply :: "change_set \<Rightarrow> 'w \<Rightarrow> 'w \<times> (designer_error + ddl_apply_result)"

definition postgresql_designer :: "'w ddl_port \<Rightarrow> 'w table_designer" where
  "postgresql_designer p = \<lparr>td_preview = pg_preview p, td_apply = pg_apply p\<rparr>"

definition mysql_designer :: "'w ddl_port \<Rightarrow> 'w table_designer" where
  "mysql_designer p = \<lparr>td_preview = my_preview p, td_apply = my_apply p\<rparr>"

section \<open>The service\<close>

record table_connection =
  tc_id :: string
  tc_label :: string
  tc_engine :: string

datatype table_error =
    TableUnavailable
  | TableRefused designer_error
  | ConfirmationRequired string "string list" "string list" "string list"
  | TableAudited "designer_error audited_error"
  | TableNotRecorded audit_error

definition targetLabel :: "change_set \<Rightarrow> string" where
  "targetLabel s =
     (case ref_schema (cs_ref s) of
        Some n \<Rightarrow> if n \<noteq> [] then n @ ''.'' @ ref_name (cs_ref s)
                  else ref_database (cs_ref s) @ ''.'' @ ref_name (cs_ref s)
      | None \<Rightarrow> ref_database (cs_ref s) @ ''.'' @ ref_name (cs_ref s))"

fun alteration_kind :: "alteration \<Rightarrow> string" where
  "alteration_kind (AddColumn c) = ''add''"
| "alteration_kind (ModifyColumn n p) = ''modify''"
| "alteration_kind (RenameColumn n m) = ''rename''"
| "alteration_kind (DropColumn n) = ''drop''"
| "alteration_kind (AddIndex x) = ''addIndex''"
| "alteration_kind (DropIndex n) = ''dropIndex''"
| "alteration_kind (AddConstraint c) = ''addConstraint''"
| "alteration_kind (DropConstraint n t) = ''dropConstraint''"

definition strings :: "string list \<Rightarrow> json" where
  "strings ss = JArr (map JStr ss)"

definition auditDetails :: "table_connection \<Rightarrow> change_set \<Rightarrow> ddl_preview \<Rightarrow> (string, json) jsmap" where
  "auditDetails conn s pv =
     [(''connectionLabel'', JStr (tc_label conn)), (''engine'', JStr (tc_engine conn)),
      (''operation'', JStr (if cs_operation s = CreateTable then ''create'' else ''alter'')),
      (''table'', JStr (targetLabel s)), (''statementCount'', JNum (int (length (pv_statements pv)))),
      (''destructive'', JBool (pv_destructive pv)),
      (''changes'', strings (map alteration_kind (cs_alterations s) @ map (\<lambda>_. ''addIndex'') (cs_indexes s)
                            @ map (\<lambda>_. ''addConstraint'') (cs_constraints s))),
      (''indexCount'', JNum (int (length (cs_indexes s)))), (''constraintCount'', JNum (int (length (cs_constraints s)))),
      (''destructiveIndexes'', strings (concat (map ddl_indexes (pv_statements pv)))),
      (''destructiveConstraints'', strings (concat (map ddl_constraints (pv_statements pv))))]"

definition table_action :: "change_set \<Rightarrow> string" where
  "table_action s = (if cs_operation s = CreateTable then ''table.created'' else ''table.altered'')"

definition auditDraft :: "string \<Rightarrow> string \<Rightarrow> table_connection \<Rightarrow> change_set \<Rightarrow> ddl_preview \<Rightarrow> audit_draft" where
  "auditDraft act actor conn s pv =
     \<lparr>daction = act, dactor = Some actor, dtargetType = Some ''table'', dtargetRef = Some (targetLabel s),
      dconnection = Some (tc_id conn), ddetails = Some (auditDetails conn s pv)\<rparr>"

definition recordDenied ::
  "audit_context \<Rightarrow> string \<Rightarrow> table_connection \<Rightarrow> change_set \<Rightarrow> ddl_preview \<Rightarrow> db \<Rightarrow> audit_error + db" where
  "recordDenied c actor conn s pv d =
     audit_record c ((auditDraft (table_action s) actor conn s pv)
       \<lparr>ddetails := Some (auditDetails conn s pv @ [(''reason'', JStr ''confirmation_required'')])\<rparr>) Denied d"

definition droppedColumns :: "ddl_preview \<Rightarrow> string list" where
  "droppedColumns pv = js_unique (concat (map ddl_columns (pv_statements pv)))"

definition dropped_draft :: "string \<Rightarrow> table_connection \<Rightarrow> change_set \<Rightarrow> ddl_preview \<Rightarrow> string \<Rightarrow> audit_draft" where
  "dropped_draft actor conn s pv column =
     (auditDraft ''table.column_dropped'' actor conn s pv)
       \<lparr>dtargetRef := Some (targetLabel s @ ''.'' @ column),
        ddetails := Some (js_set (auditDetails conn s pv @ [(''column'', JStr column)]) ''destructive'' (JBool True))\<rparr>"

text \<open>Each entry has an id and a time of its own: the n-th is written in the context \<open>c n\<close>.\<close>

fun record_dropped ::
  "(nat \<Rightarrow> audit_context) \<Rightarrow> (string \<Rightarrow> audit_draft) \<Rightarrow> nat \<Rightarrow> string list \<Rightarrow> db \<Rightarrow> audit_error option \<times> db" where
  "record_dropped c draft n [] d = (None, d)"
| "record_dropped c draft n (x # xs) d =
     (case audit_record (c n) (draft x) Success d of
        Inl e \<Rightarrow> (Some e, d) | Inr d' \<Rightarrow> record_dropped c draft (n + 1) xs d')"

definition table_preview ::
  "'w table_designer option \<Rightarrow> change_set \<Rightarrow> 'w \<Rightarrow> table_error + ddl_preview" where
  "table_preview designer s w =
     (case designer of None \<Rightarrow> Inl TableUnavailable | Some t \<Rightarrow> map_sum TableRefused id (td_preview t s w))"

definition table_apply ::
  "(nat \<Rightarrow> audit_context) \<Rightarrow> 'w table_designer option \<Rightarrow> string \<Rightarrow> table_connection \<Rightarrow> change_set \<Rightarrow> bool \<Rightarrow>
     'w \<Rightarrow> db \<Rightarrow> ('w \<times> db) \<times> (table_error + ddl_apply_result)" where
  "table_apply c designer actor conn s confirm w d =
     (case designer of
        None \<Rightarrow> ((w, d), Inl TableUnavailable)
      | Some t \<Rightarrow>
          (case td_preview t s w of
             Inl e \<Rightarrow> ((w, d), Inl (TableRefused e))
           | Inr pv \<Rightarrow>
               if pv_destructive pv \<and> \<not> confirm then
                 (case recordDenied (c 0) actor conn s pv d of
                    Inl e \<Rightarrow> ((w, d), Inl (TableNotRecorded e))
                  | Inr d' \<Rightarrow> ((w, d'), Inl (ConfirmationRequired (targetLabel s)
                      (concat (map ddl_columns (pv_statements pv))) (concat (map ddl_indexes (pv_statements pv)))
                      (concat (map ddl_constraints (pv_statements pv))))))
               else
                 let (w', r) = td_apply t s w in
                 (case withAudit (c 0) (auditDraft (table_action s) actor conn s pv) (\<lambda>d. (r, d)) d of
                    (Inl e, d1) \<Rightarrow> ((w', d1), Inl (TableAudited e))
                  | (Inr a, d1) \<Rightarrow>
                      (case record_dropped c (dropped_draft actor conn s pv) 1 (droppedColumns pv) d1 of
                         (Some e, d2) \<Rightarrow> ((w', d2), Inl (TableNotRecorded e))
                       | (None, d2) \<Rightarrow> ((w', d2), Inr a)))))"

definition tableDesignerErrorStatus :: "table_error \<Rightarrow> nat" where
  "tableDesignerErrorStatus e =
     (case e of
        TableUnavailable \<Rightarrow> 501
      | ConfirmationRequired _ _ _ _ \<Rightarrow> 409
      | TableRefused (TableInvalid _) \<Rightarrow> 422
      | TableAudited (OperationError (TableInvalid _)) \<Rightarrow> 422
      | TableRefused (TableApply _ _ _) \<Rightarrow> 502
      | TableAudited (OperationError (TableApply _ _ _)) \<Rightarrow> 502
      | _ \<Rightarrow> 500)"

section \<open>Properties\<close>

definition designer_for :: "bool \<Rightarrow> 'w ddl_port \<Rightarrow> 'w table_designer" where
  "designer_for postgres p = (if postgres then postgresql_designer p else mysql_designer p)"

lemma designer_preview:
  "td_preview (designer_for b p) s w = Inr pv \<Longrightarrow>
     (if b then pg_compile (dp_reads p w) s = Inr pv else my_compile (dp_reads p w) s = Inr pv)"
  by (auto simp: designer_for_def postgresql_designer_def mysql_designer_def pg_preview_def my_preview_def split: if_splits)

text \<open>
  Claim C17: with either provider, a change set with an alteration that drops a column, an index or a
  constraint changes nothing and answers with an error unless it is confirmed; the same holds if any
  statement that was compiled from it is by its text one that drops something of the table
  (\<open>drop_text\<close>), as the first of the two statements that replace a generated column with a new
  expression; and a confirmation is only asked for a change set that drops something or changes the
  expression of a generated column. A drop that a caller smuggles into a statement of another kind by
  means of an expression is not covered: it is not confirmed (\<open>DdlProps.expression_can_drop_column\<close>).
\<close>

theorem drop_needs_confirmation:
  assumes "cs_operation s = AlterTable"
    and "table_apply c (Some (designer_for b p)) actor conn s False w d = ((w', d'), r)"
  shows "((\<exists>a \<in> set (cs_alterations s). drops a) \<longrightarrow> w' = w \<and> (\<exists>e. r = Inl e))
    \<and> (\<forall>pv t st. td_preview (designer_for b p) s w = Inr pv \<and> table_target b s = Inr t \<and> st \<in> set (pv_statements pv)
          \<and> drop_text t (ddl_sql st) \<longrightarrow> w' = w \<and> (\<exists>e. r = Inl e))
    \<and> (\<forall>l x y z. r = Inl (ConfirmationRequired l x y z) \<longrightarrow> (\<exists>a \<in> set (cs_alterations s). drops a \<or> regenerates a))"
proof (cases "td_preview (designer_for b p) s w")
  case (Inl e)
  then show ?thesis using assms(2) by (auto simp: table_apply_def)
next
  case (Inr pv)
  note compiled = designer_preview [OF Inr]
  have m: "((\<exists>a \<in> set (cs_alterations s). drops a) \<longrightarrow> pv_destructive pv)
      \<and> (pv_destructive pv \<longrightarrow> (\<exists>a \<in> set (cs_alterations s). drops a \<or> regenerates a))"
    using compiled by (intro destructive_marked [OF _ assms(1)]) (auto split: if_splits)
  have texts: "\<forall>t st. table_target b s = Inr t \<and> st \<in> set (pv_statements pv) \<and> drop_text t (ddl_sql st) \<longrightarrow> pv_destructive pv"
    using drop_texts_marked [OF compiled assms(1)] by blast
  show ?thesis
  proof (cases "pv_destructive pv")
    case True
    then show ?thesis using assms(2) Inr m by (auto simp: table_apply_def split: sum.splits)
  next
    case False
    then have "r = Inl e \<Longrightarrow> \<forall>l x y z. e \<noteq> ConfirmationRequired l x y z" for e
      using assms(2) Inr by (auto simp: table_apply_def Let_def split: sum.splits prod.splits option.splits)
    then show ?thesis using False m texts Inr by (simp, blast)
  qed
qed

text \<open>A store and a writer for the witnesses; its redaction leaves no details.\<close>

definition one_user :: db where
  "one_user = \<lparr>users = [\<lparr>uid = ''u'', username = ''ann'', passwordHash = [], role = RoleAdmin, isActive = True,
     ucreatedAt = 0, updatedAt = 0\<rparr>], sessions = [], audit = []\<rparr>"

definition sample_context :: "nat \<Rightarrow> audit_context" where
  "sample_context n = \<lparr>anow = int n, anewId = show_nat n, acorrelation = None, aredact = (\<lambda>e. e\<lparr>details := None\<rparr>)\<rparr>"

definition sample_conn :: table_connection where
  "sample_conn = \<lparr>tc_id = ''c'', tc_label = ''main'', tc_engine = ''postgresql''\<rparr>"

text \<open>A column of the table is made a generated one: it is dropped and added again.\<close>

definition sample_regeneration :: change_set where
  "sample_regeneration = sample_change [ModifyColumn ''Id''
     (no_patch\<lparr>pa_generated := Some (Some \<lparr>gv_expression = ''price * 2'', gv_stored = Some True\<rparr>)\<rparr>)]"

lemma sample_regeneration_drops:
  "(case (td_preview (designer_for True (ddl_sim (sample_reads ''16.2'') (\<lambda>s. False))) sample_regeneration ddl_start,
         table_target True sample_regeneration) of
      (Inr pv, Inr t) \<Rightarrow> list_ex (\<lambda>st. drop_text t (ddl_sql st)) (pv_statements pv)
    | _ \<Rightarrow> False)"
  by code_simp

theorem drop_needs_confirmation_witness:
  "fst (fst (table_apply sample_context (Some (designer_for True (ddl_sim (sample_reads ''16.2'') (\<lambda>s. False))))
     ''u'' sample_conn sample_regeneration False ddl_start one_user)) = ddl_start"
proof -
  let ?t = "designer_for True (ddl_sim (sample_reads ''16.2'') (\<lambda>s. False))"
  let ?r = "table_apply sample_context (Some ?t) ''u'' sample_conn sample_regeneration False ddl_start one_user"
  obtain w' d' r where r: "?r = ((w', d'), r)" by (metis prod.exhaust)
  obtain pv t st where "td_preview ?t sample_regeneration ddl_start = Inr pv" "table_target True sample_regeneration = Inr t"
    "st \<in> set (pv_statements pv)" "drop_text t (ddl_sql st)"
    using sample_regeneration_drops by (auto simp: list_ex_iff split: sum.splits)
  moreover have "cs_operation sample_regeneration = AlterTable" by (simp add: sample_regeneration_def)
  ultimately show ?thesis using drop_needs_confirmation [OF _ r] by (auto simp: r)
qed

lemma audit_record_adds:
  assumes "audit_record c e r d = Inr d'"
  shows "\<exists>row. audit d' = audit d @ [row]"
  by (rule audit_record_Inr [OF assms]) simp

lemma record_dropped_adds:
  "record_dropped c draft n xs d = (None, d') \<Longrightarrow> \<exists>rows. audit d' = audit d @ rows \<and> length rows = length xs"
proof (induction xs arbitrary: n d)
  case (Cons x xs)
  then obtain d1 where d1: "audit_record (c n) (draft x) Success d = Inr d1" "record_dropped c draft (n + 1) xs d1 = (None, d')"
    by (auto split: sum.splits)
  obtain row where "audit d1 = audit d @ [row]" using audit_record_adds [OF d1(1)] by blast
  then show ?case using Cons.IH [OF d1(2)] by fastforce
qed auto

text \<open>
  A change set that is reported as applied is in the audit log: one entry for the change and
  one for every column that it dropped, after the entries that were there, whatever the provider.
\<close>

theorem applied_changes_are_audited:
  assumes "table_apply c (Some t) actor conn s confirm w d = ((w', d'), Inr a)" "td_preview t s w = Inr pv"
  shows "td_apply t s w = (w', Inr a) \<and>
    (\<exists>rows. audit d' = audit d @ rows \<and> length rows = 1 + length (droppedColumns pv))"
proof -
  obtain w1 r where r: "td_apply t s w = (w1, r)" by (cases "td_apply t s w")
  let ?audited = "withAudit (c 0) (auditDraft (table_action s) actor conn s pv) (\<lambda>d. (r, d)) d"
  have "\<not> (pv_destructive pv \<and> \<not> confirm)"
  proof
    assume "pv_destructive pv \<and> \<not> confirm"
    then show False using assms by (simp add: table_apply_def split: sum.splits)
  qed
  then obtain d1 where d1: "?audited = (Inr a, d1)" "w' = w1"
    and dropped: "record_dropped c (dropped_draft actor conn s pv) 1 (droppedColumns pv) d1 = (None, d')"
    using assms r by (auto simp: table_apply_def split: sum.splits prod.splits option.splits)
  have "r = Inr a \<and> (\<exists>row. audit d1 = audit d @ [row])"
    using d1(1) registered required_iff_registered
    by (auto simp: withAudit_def split: sum.splits if_splits dest: audit_record_adds)
  then show ?thesis using r d1(2) record_dropped_adds [OF dropped] by fastforce
qed

theorem applied_changes_are_audited_witness:
  "\<exists>rows. audit (snd (fst (table_apply sample_context (Some (designer_for True (ddl_sim (sample_reads ''16.2'') (\<lambda>s. False))))
     ''u'' sample_conn (sample_change [DropColumn ''ID'']) True ddl_start one_user))) = audit one_user @ rows \<and> length rows = 2"
proof -
  let ?t = "designer_for True (ddl_sim (sample_reads ''16.2'') (\<lambda>s. False))"
  let ?r = "table_apply sample_context (Some ?t) ''u'' sample_conn (sample_change [DropColumn ''ID'']) True ddl_start one_user"
  have ok: "case snd ?r of Inl _ \<Rightarrow> False | Inr _ \<Rightarrow> True"
    "case td_preview ?t (sample_change [DropColumn ''ID'']) ddl_start of Inl _ \<Rightarrow> False | Inr pv \<Rightarrow> length (droppedColumns pv) = 1"
    by code_simp+
  obtain w' d' a where r: "?r = ((w', d'), Inr a)" using ok(1) by (cases ?r; cases "snd ?r") (auto split: sum.splits)
  obtain pv where pv: "td_preview ?t (sample_change [DropColumn ''ID'']) ddl_start = Inr pv" "length (droppedColumns pv) = 1"
    using ok(2) by (auto split: sum.splits)
  show ?thesis using applied_changes_are_audited [OF r pv(1)] by (simp add: r pv(2) numeral_2_eq_2)
qed

end
