(* ===== verification/TableRequests.thy ===== *)
theory TableRequests
  imports DdlProps AuditLog
begin

text \<open>
  The bodies of the table designer's requests: the parser of change sets in
  \<open>apps/server/src/table-designer/routes.ts\<close>, from JSON to the types of the contract. A result
  \<open>null\<close> of the parser is None. Every change set that is well formed is read back from its JSON form,
  and whatever is accepted is well formed.
\<close>

section \<open>Values\<close>

definition allowed :: "(string, json) jsmap \<Rightarrow> string list \<Rightarrow> bool" where
  "allowed fs names \<longleftrightarrow> list_all (\<lambda>k. k \<in> set names) (js_keys fs)"

definition as_object :: "json option \<Rightarrow> (string, json) jsmap option" where
  "as_object v = (case v of Some (JObj fs) \<Rightarrow> Some fs | _ \<Rightarrow> None)"

definition as_string :: "json option \<Rightarrow> string option" where
  "as_string v = (case v of Some (JStr s) \<Rightarrow> Some s | _ \<Rightarrow> None)"

definition as_bool :: "json option \<Rightarrow> bool option" where
  "as_bool v = (case v of Some (JBool b) \<Rightarrow> Some b | _ \<Rightarrow> None)"

definition as_integer :: "json option \<Rightarrow> int option" where
  "as_integer v = (case v of Some (JNum n) \<Rightarrow> if safe_integer n then Some n else None | _ \<Rightarrow> None)"

definition as_array :: "json option \<Rightarrow> json list option" where
  "as_array v = (case v of Some (JArr vs) \<Rightarrow> Some vs | _ \<Rightarrow> None)"

text \<open>A property that may be missing: None is a failure, \<open>Some None\<close> is undefined.\<close>

definition maybe :: "(json option \<Rightarrow> 'a option) \<Rightarrow> json option \<Rightarrow> 'a option option" where
  "maybe f v = (case v of None \<Rightarrow> Some None | Some _ \<Rightarrow> map_option Some (f v))"

text \<open>One that may also be \<open>null\<close>, which is \<open>Some (Some None)\<close>.\<close>

definition maybe_null :: "(json option \<Rightarrow> 'a option) \<Rightarrow> json option \<Rightarrow> 'a option option option" where
  "maybe_null f v =
     (case v of None \<Rightarrow> Some None | Some JNull \<Rightarrow> Some (Some None) | Some _ \<Rightarrow> map_option (Some \<circ> Some) (f v))"

fun all_some :: "'a option list \<Rightarrow> 'a list option" where
  "all_some [] = Some []"
| "all_some (x # xs) = (case (x, all_some xs) of (Some a, Some as) \<Rightarrow> Some (a # as) | _ \<Rightarrow> None)"

definition stringArray :: "json option \<Rightarrow> string list option" where
  "stringArray v = Option.bind (as_array v) (\<lambda>vs. all_some (map (\<lambda>x. as_string (Some x)) vs))"

definition require :: "bool \<Rightarrow> 'a option \<Rightarrow> 'a option" where
  "require b x = (if b then x else None)"

section \<open>Indexes and constraints\<close>

definition parseIndex :: "json option \<Rightarrow> index_input option" where
  "parseIndex v =
     Option.bind (as_object v) (\<lambda>fs. require (allowed fs [''name'', ''columns'', ''unique''])
       (Option.bind (stringArray (map_of fs ''columns'')) (\<lambda>cs.
        Option.bind (maybe as_string (map_of fs ''name'')) (\<lambda>n.
        Option.bind (maybe as_bool (map_of fs ''unique'')) (\<lambda>u.
          Some \<lparr>ix_name = n, ix_columns = cs, ix_unique = u\<rparr>)))))"

text \<open>The schema of a reference: a string, \<open>null\<close> or undefined, of which the last two are the same.\<close>

definition parse_schema :: "json option \<Rightarrow> string option option" where
  "parse_schema v = (case v of None \<Rightarrow> Some None | Some JNull \<Rightarrow> Some None | Some (JStr s) \<Rightarrow> Some (Some s) | _ \<Rightarrow> None)"

definition parseObjectRef :: "json option \<Rightarrow> object_ref option" where
  "parseObjectRef v =
     Option.bind (as_object v) (\<lambda>fs. require (allowed fs [''database'', ''schema'', ''name'', ''type''])
       (Option.bind (as_string (map_of fs ''database'')) (\<lambda>d.
        Option.bind (as_string (map_of fs ''name'')) (\<lambda>n.
        require (map_of fs ''type'' = Some (JStr ''table''))
        (Option.bind (parse_schema (map_of fs ''schema'')) (\<lambda>s.
          Some \<lparr>ref_database = d, ref_schema = s, ref_name = n, ref_type = ''table''\<rparr>))))))"

definition REFERENTIAL_ACTIONS :: "referential_action list" where
  "REFERENTIAL_ACTIONS = [NoAction, Restrict, Cascade, SetNull, SetDefault]"

definition as_action :: "json option \<Rightarrow> referential_action option" where
  "as_action v = Option.bind (as_string v) (\<lambda>s. find (\<lambda>a. action_sql a = s) REFERENTIAL_ACTIONS)"

definition parseConstraint :: "json option \<Rightarrow> constraint_input option" where
  "parseConstraint v =
     Option.bind (as_object v) (\<lambda>fs.
     Option.bind (as_string (map_of fs ''type'')) (\<lambda>t.
     Option.bind (maybe as_string (map_of fs ''name'')) (\<lambda>n.
       if t = ''check'' then
         require (allowed fs [''type'', ''name'', ''expression''])
           (map_option (Check n) (as_string (map_of fs ''expression'')))
       else require (t \<in> {''primaryKey'', ''unique'', ''foreignKey''})
         (Option.bind (stringArray (map_of fs ''columns'')) (\<lambda>cs. require (cs \<noteq> [])
           (if t \<noteq> ''foreignKey'' then
              require (allowed fs [''type'', ''name'', ''columns''])
                (Some (if t = ''primaryKey'' then PrimaryKey n cs else Unique n cs))
            else
              require (allowed fs [''type'', ''name'', ''columns'', ''referencedTable'', ''referencedColumns'', ''onDelete'', ''onUpdate''])
                (Option.bind (parseObjectRef (map_of fs ''referencedTable'')) (\<lambda>ref.
                 Option.bind (stringArray (map_of fs ''referencedColumns'')) (\<lambda>rcs.
                 require (length rcs = length cs)
                 (Option.bind (maybe as_action (map_of fs ''onDelete'')) (\<lambda>d.
                  Option.bind (maybe as_action (map_of fs ''onUpdate'')) (\<lambda>u.
                    Some (ForeignKey n cs ref rcs d u)))))))))))))"

section \<open>Columns\<close>

definition as_kind :: "json option \<Rightarrow> default_kind option" where
  "as_kind v =
     (if v = Some (JStr ''literal'') then Some DefaultLiteral
      else if v = Some (JStr ''expression'') then Some DefaultExpression else None)"

definition as_default :: "json option \<Rightarrow> default_value option" where
  "as_default v =
     Option.bind (as_object v) (\<lambda>fs. require (allowed fs [''kind'', ''value''])
       (Option.bind (as_kind (map_of fs ''kind'')) (\<lambda>k.
        Option.bind (as_string (map_of fs ''value'')) (\<lambda>s. Some \<lparr>dv_kind = k, dv_value = s\<rparr>))))"

definition parseDefault :: "json option \<Rightarrow> default_value option option" where
  "parseDefault = maybe as_default"

definition as_generated :: "json option \<Rightarrow> generated_value option" where
  "as_generated v =
     Option.bind (as_object v) (\<lambda>fs. require (allowed fs [''expression'', ''stored''])
       (Option.bind (as_string (map_of fs ''expression'')) (\<lambda>e.
        Option.bind (maybe as_bool (map_of fs ''stored'')) (\<lambda>b. Some \<lparr>gv_expression = e, gv_stored = b\<rparr>))))"

definition parseGenerated :: "json option \<Rightarrow> generated_value option option" where
  "parseGenerated = maybe as_generated"

definition parseColumn :: "json option \<Rightarrow> column_input option" where
  "parseColumn v =
     Option.bind (as_object v) (\<lambda>fs.
     require (allowed fs [''name'', ''dataType'', ''length'', ''precision'', ''scale'', ''nullable'', ''default'',
       ''identity'', ''generated'', ''comment'', ''primaryKey''])
     (Option.bind (as_string (map_of fs ''name'')) (\<lambda>n.
      Option.bind (as_string (map_of fs ''dataType'')) (\<lambda>t.
      Option.bind (as_bool (map_of fs ''nullable'')) (\<lambda>nu.
      Option.bind (parseDefault (map_of fs ''default'')) (\<lambda>d.
      Option.bind (parseGenerated (map_of fs ''generated'')) (\<lambda>g.
      Option.bind (maybe as_integer (map_of fs ''length'')) (\<lambda>l.
      Option.bind (maybe as_integer (map_of fs ''precision'')) (\<lambda>p.
      Option.bind (maybe as_integer (map_of fs ''scale'')) (\<lambda>sc.
      Option.bind (maybe as_bool (map_of fs ''identity'')) (\<lambda>i.
      Option.bind (maybe as_bool (map_of fs ''primaryKey'')) (\<lambda>pk.
      Option.bind (maybe as_string (map_of fs ''comment'')) (\<lambda>c.
        Some \<lparr>co_name = n, co_dataType = t, co_length = l, co_precision = p, co_scale = sc, co_nullable = nu,
          co_default = d, co_identity = i, co_generated = g, co_comment = c, co_primaryKey = pk\<rparr>)))))))))))))"

text \<open>The changes of a column. Only the numbers may be \<open>null\<close>.\<close>

definition parsePatch :: "(string, json) jsmap \<Rightarrow> column_patch option" where
  "parsePatch fs =
     require (allowed fs [''dataType'', ''length'', ''precision'', ''scale'', ''nullable'', ''default'', ''identity'',
       ''generated'', ''comment'', ''primaryKey''])
     (Option.bind (maybe as_string (map_of fs ''dataType'')) (\<lambda>t.
      Option.bind (maybe as_string (map_of fs ''comment'')) (\<lambda>c.
      Option.bind (maybe_null as_integer (map_of fs ''length'')) (\<lambda>l.
      Option.bind (maybe_null as_integer (map_of fs ''precision'')) (\<lambda>p.
      Option.bind (maybe_null as_integer (map_of fs ''scale'')) (\<lambda>sc.
      Option.bind (maybe as_bool (map_of fs ''nullable'')) (\<lambda>nu.
      Option.bind (maybe as_bool (map_of fs ''identity'')) (\<lambda>i.
      Option.bind (maybe as_bool (map_of fs ''primaryKey'')) (\<lambda>pk.
      Option.bind (parseDefault (map_of fs ''default'')) (\<lambda>d.
      Option.bind (parseGenerated (map_of fs ''generated'')) (\<lambda>g.
        Some \<lparr>pa_dataType = t, pa_length = l, pa_precision = p, pa_scale = sc, pa_nullable = nu,
          pa_default = map_option Some d, pa_identity = i, pa_generated = map_option Some g,
          pa_comment = map_option Some c, pa_primaryKey = pk\<rparr>)))))))))))"

section \<open>Alterations\<close>

definition as_constraint_type :: "json option \<Rightarrow> constraint_type option" where
  "as_constraint_type v =
     Option.bind (as_string v) (map_of [(''primaryKey'', TypePrimaryKey), (''foreignKey'', TypeForeignKey),
       (''unique'', TypeUnique), (''check'', TypeCheck)])"

definition parseAlteration :: "json \<Rightarrow> alteration option" where
  "parseAlteration v =
     Option.bind (as_object (Some v)) (\<lambda>fs.
     Option.bind (as_string (map_of fs ''kind'')) (\<lambda>k.
     let name = as_string (map_of fs ''name'') in
       if k = ''add'' then map_option AddColumn (parseColumn (map_of fs ''column''))
       else if k = ''drop'' then require (allowed fs [''kind'', ''name'']) (map_option DropColumn name)
       else if k = ''rename'' then
         require (allowed fs [''kind'', ''name'', ''newName''])
           (Option.bind name (\<lambda>n. map_option (RenameColumn n) (as_string (map_of fs ''newName''))))
       else if k = ''addIndex'' then
         require (allowed fs [''kind'', ''index'']) (map_option AddIndex (parseIndex (map_of fs ''index'')))
       else if k = ''dropIndex'' then require (allowed fs [''kind'', ''name'']) (map_option DropIndex name)
       else if k = ''addConstraint'' then
         require (allowed fs [''kind'', ''constraint'']) (map_option AddConstraint (parseConstraint (map_of fs ''constraint'')))
       else if k = ''dropConstraint'' then
         require (allowed fs [''kind'', ''name'', ''type''])
           (Option.bind name (\<lambda>n. map_option (DropConstraint n) (maybe as_constraint_type (map_of fs ''type''))))
       else require (k = ''modify'' \<and> allowed fs [''kind'', ''name'', ''changes''])
         (Option.bind name (\<lambda>n. Option.bind (as_object (map_of fs ''changes'')) (\<lambda>cs.
           map_option (ModifyColumn n) (parsePatch cs))))))"

definition parseAlterations :: "json option \<Rightarrow> alteration list option" where
  "parseAlterations v = Option.bind (as_array v) (\<lambda>vs. all_some (map parseAlteration vs))"

section \<open>Change sets\<close>

definition parse_list :: "(json option \<Rightarrow> 'a option) \<Rightarrow> json option \<Rightarrow> 'a list option" where
  "parse_list f v = Option.bind (as_array v) (\<lambda>vs. all_some (map (\<lambda>x. f (Some x)) vs))"

definition parse_optional_list :: "(json option \<Rightarrow> 'a option) \<Rightarrow> json option \<Rightarrow> 'a list option" where
  "parse_optional_list f v = (case v of None \<Rightarrow> Some [] | Some _ \<Rightarrow> parse_list f v)"

definition parseChangeSet :: "json \<Rightarrow> change_set option" where
  "parseChangeSet v =
     Option.bind (as_object (Some v)) (\<lambda>fs.
     require (allowed fs [''operation'', ''ref'', ''columns'', ''indexes'', ''constraints'', ''alterations''])
     (Option.bind (as_string (map_of fs ''operation'')) (\<lambda>op. require (op = ''create'' \<or> op = ''alter'')
     (Option.bind (parseObjectRef (map_of fs ''ref'')) (\<lambda>ref.
       if op = ''create'' then
         Option.bind (parse_list parseColumn (map_of fs ''columns'')) (\<lambda>cs.
         Option.bind (parse_optional_list parseIndex (map_of fs ''indexes'')) (\<lambda>is.
         Option.bind (parse_optional_list parseConstraint (map_of fs ''constraints'')) (\<lambda>ks.
           Some \<lparr>cs_operation = CreateTable, cs_ref = ref, cs_columns = cs, cs_indexes = is, cs_constraints = ks,
             cs_alterations = []\<rparr>)))
       else
         Option.bind (parseAlterations (map_of fs ''alterations'')) (\<lambda>as.
           Some \<lparr>cs_operation = AlterTable, cs_ref = ref, cs_columns = [], cs_indexes = [], cs_constraints = [],
             cs_alterations = as\<rparr>))))))"

section \<open>What is accepted\<close>

text \<open>What the parser promises of a change set, beyond its type.\<close>

definition safe_opt :: "int option \<Rightarrow> bool" where
  "safe_opt n = (case n of Some i \<Rightarrow> safe_integer i | None \<Rightarrow> True)"

definition table_ref :: "object_ref \<Rightarrow> bool" where
  "table_ref r \<longleftrightarrow> ref_type r = ''table''"

definition column_ok :: "column_input \<Rightarrow> bool" where
  "column_ok c \<longleftrightarrow> safe_opt (co_length c) \<and> safe_opt (co_precision c) \<and> safe_opt (co_scale c)"

fun constraint_ok :: "constraint_input \<Rightarrow> bool" where
  "constraint_ok (PrimaryKey n cs) \<longleftrightarrow> cs \<noteq> []"
| "constraint_ok (Unique n cs) \<longleftrightarrow> cs \<noteq> []"
| "constraint_ok (ForeignKey n cs ref rcs d u) \<longleftrightarrow> cs \<noteq> [] \<and> length rcs = length cs \<and> table_ref ref"
| "constraint_ok (Check n e) \<longleftrightarrow> True"

definition safe_opt2 :: "int option option \<Rightarrow> bool" where
  "safe_opt2 n = (case n of Some i \<Rightarrow> safe_opt i | None \<Rightarrow> True)"

definition patch_ok :: "column_patch \<Rightarrow> bool" where
  "patch_ok p \<longleftrightarrow> safe_opt2 (pa_length p) \<and> safe_opt2 (pa_precision p) \<and> safe_opt2 (pa_scale p)
     \<and> pa_default p \<noteq> Some None \<and> pa_generated p \<noteq> Some None \<and> pa_comment p \<noteq> Some None"

fun alteration_ok :: "alteration \<Rightarrow> bool" where
  "alteration_ok (AddColumn c) \<longleftrightarrow> column_ok c"
| "alteration_ok (ModifyColumn n p) \<longleftrightarrow> patch_ok p"
| "alteration_ok (AddConstraint k) \<longleftrightarrow> constraint_ok k"
| "alteration_ok (DropConstraint n t) \<longleftrightarrow> t \<noteq> Some TypeOther"
| "alteration_ok _ \<longleftrightarrow> True"

definition change_set_ok :: "change_set \<Rightarrow> bool" where
  "change_set_ok s \<longleftrightarrow> table_ref (cs_ref s) \<and> list_all column_ok (cs_columns s)
     \<and> list_all constraint_ok (cs_constraints s) \<and> list_all alteration_ok (cs_alterations s)
     \<and> (case cs_operation s of
          CreateTable \<Rightarrow> cs_alterations s = []
        | AlterTable \<Rightarrow> cs_columns s = [] \<and> cs_indexes s = [] \<and> cs_constraints s = [])"

subsection \<open>Parsers of optional values\<close>

named_theorems accepted

lemma require_Some [accepted]: "require b x = Some y \<longleftrightarrow> b \<and> x = Some y"
  by (simp add: require_def)

lemma bind_Some [accepted]: "Option.bind x f = Some y \<longleftrightarrow> (\<exists>a. x = Some a \<and> f a = Some y)"
  by (cases x) auto

lemma all_some_map [simp]: "all_some (map Some ys) = Some ys"
  by (induction ys) simp_all

lemma all_some_inv: "all_some xs = Some ys \<Longrightarrow> xs = map Some ys"
  by (induction xs arbitrary: ys) (auto split: option.splits)

lemma all_some_Some: "all_some xs = Some ys \<longleftrightarrow> xs = map Some ys"
  using all_some_inv by auto

lemma all_some_all:
  assumes "all_some (map f xs) = Some ys" "\<And>x y. f x = Some y \<Longrightarrow> P y"
  shows "list_all P ys"
  using assms(1) unfolding all_some_Some
  by (induction xs arbitrary: ys) (auto simp: Cons_eq_map_conv map_eq_Cons_conv dest: assms(2))

lemma maybe_safe: "maybe as_integer v = Some n \<Longrightarrow> safe_opt n"
  by (auto simp: maybe_def as_integer_def safe_opt_def split: option.splits json.splits if_splits)

lemma maybe_null_safe: "maybe_null as_integer v = Some n \<Longrightarrow> safe_opt2 n"
  by (auto simp: maybe_null_def as_integer_def safe_opt2_def safe_opt_def split: option.splits json.splits if_splits)

lemma parsed_ref: "parseObjectRef v = Some r \<Longrightarrow> table_ref r"
  unfolding parseObjectRef_def accepted by (auto simp: table_ref_def)

lemma parsed_column: "parseColumn v = Some c \<Longrightarrow> column_ok c"
  unfolding parseColumn_def accepted by (auto simp: column_ok_def dest: maybe_safe)

lemma parsed_patch: "parsePatch fs = Some p \<Longrightarrow> patch_ok p"
  unfolding parsePatch_def accepted by (auto simp: patch_ok_def dest: maybe_null_safe)

text \<open>What a parser yields, if it yields anything: the rules follow its steps.\<close>

definition yields :: "('a \<Rightarrow> bool) \<Rightarrow> 'a option \<Rightarrow> bool" where
  "yields P x \<longleftrightarrow> (\<forall>y. x = Some y \<longrightarrow> P y)"

lemma yieldsD: "yields P x \<Longrightarrow> x = Some y \<Longrightarrow> P y"
  by (simp add: yields_def)

lemma yields_bind: "(\<And>a. x = Some a \<Longrightarrow> yields P (f a)) \<Longrightarrow> yields P (Option.bind x f)"
  by (auto simp: yields_def accepted)

lemma yields_require: "(b \<Longrightarrow> yields P x) \<Longrightarrow> yields P (require b x)"
  by (auto simp: yields_def accepted)

lemma yields_map: "(\<And>a. x = Some a \<Longrightarrow> P (f a)) \<Longrightarrow> yields P (map_option f x)"
  by (auto simp: yields_def)

lemma yields_Some: "P a \<Longrightarrow> yields P (Some a)"
  by (simp add: yields_def)

lemma yields_if: "(b \<Longrightarrow> yields P x) \<Longrightarrow> (\<not> b \<Longrightarrow> yields P y) \<Longrightarrow> yields P (if b then x else y)"
  by simp

lemmas yields_steps = yields_bind yields_require yields_map yields_Some yields_if

lemma parsed_constraint: "parseConstraint v = Some k \<Longrightarrow> constraint_ok k"
proof (rule yieldsD [where P = constraint_ok])
  show "yields constraint_ok (parseConstraint v)"
    unfolding parseConstraint_def by (intro yields_steps) (simp_all add: parsed_ref)
qed

lemma parsed_type: "maybe as_constraint_type v = Some t \<Longrightarrow> t \<noteq> Some TypeOther"
  unfolding maybe_def as_constraint_type_def
  by (auto simp: accepted split: option.splits if_splits)

lemma parsed_alteration: "parseAlteration v = Some a \<Longrightarrow> alteration_ok a"
proof (rule yieldsD [where P = alteration_ok])
  show "yields alteration_ok (parseAlteration v)"
    unfolding parseAlteration_def Let_def
    by (intro yields_steps) (simp_all add: parsed_column parsed_patch parsed_constraint parsed_type)
qed

lemma parsed_lists:
  "parse_list parseColumn v = Some cs \<Longrightarrow> list_all column_ok cs"
  "parse_list parseConstraint v = Some ks \<Longrightarrow> list_all constraint_ok ks"
  "parse_optional_list parseConstraint v = Some ks \<Longrightarrow> list_all constraint_ok ks"
  "parseAlterations v = Some as \<Longrightarrow> list_all alteration_ok as"
  unfolding parse_optional_list_def parse_list_def parseAlterations_def accepted
  by (auto split: option.splits simp: accepted intro: all_some_all parsed_column parsed_constraint parsed_alteration)

text \<open>
  Every change set that the parser accepts is well formed. Its table and the tables its foreign keys
  refer to are marked as tables, keys have columns and foreign keys as many of them on both sides,
  lengths, precisions and scales are safe integers, a creation alters nothing and an alteration creates
  nothing. \<open>patch_ok\<close> also says that no modification asks to remove a default, a generation expression or a
  comment: the contract's patches have \<open>null\<close> for this, and the parser refuses every request with it.
\<close>

theorem parsed_change_set_ok:
  assumes "parseChangeSet v = Some s"
  shows "change_set_ok s"
  using assms unfolding parseChangeSet_def accepted
  by (auto simp: change_set_ok_def accepted dest: parsed_ref parsed_lists split: if_splits)

lemma null_removals_are_refused:
  assumes "k \<in> {''default'', ''generated'', ''comment''}" "map_of fs k = Some JNull"
  shows "parsePatch fs = None"
proof (rule ccontr)
  assume "parsePatch fs \<noteq> None"
  then have "maybe as_string (map_of fs ''comment'') \<noteq> None" "parseDefault (map_of fs ''default'') \<noteq> None"
    "parseGenerated (map_of fs ''generated'') \<noteq> None"
    by (auto simp: parsePatch_def require_def bind_eq_Some_conv split: if_splits)
  then show False using assms by (auto simp: maybe_def as_string_def parseDefault_def parseGenerated_def as_default_def as_generated_def as_object_def)
qed

section \<open>The JSON form of a change set\<close>

text \<open>An object whose entries may be missing.\<close>

definition fields :: "(string \<times> json option) list \<Rightarrow> (string, json) jsmap" where
  "fields kvs = map (\<lambda>(k, v). (k, the v)) (filter (\<lambda>(k, v). v \<noteq> None) kvs)"

definition json_strings :: "string list \<Rightarrow> json" where
  "json_strings cs = JArr (map JStr cs)"

definition json_ref :: "object_ref \<Rightarrow> json" where
  "json_ref r = JObj (fields [(''database'', Some (JStr (ref_database r))),
     (''schema'', Some (case ref_schema r of Some s \<Rightarrow> JStr s | None \<Rightarrow> JNull)),
     (''name'', Some (JStr (ref_name r))), (''type'', Some (JStr (ref_type r)))])"

definition json_index :: "index_input \<Rightarrow> json" where
  "json_index i = JObj (fields [(''name'', map_option JStr (ix_name i)),
     (''columns'', Some (json_strings (ix_columns i))), (''unique'', map_option JBool (ix_unique i))])"

definition json_key :: "string \<Rightarrow> string option \<Rightarrow> string list \<Rightarrow> json" where
  "json_key t n cs = JObj (fields [(''type'', Some (JStr t)), (''name'', map_option JStr n),
     (''columns'', Some (json_strings cs))])"

definition json_action :: "referential_action \<Rightarrow> json" where
  "json_action a = JStr (action_sql a)"

fun json_constraint :: "constraint_input \<Rightarrow> json" where
  "json_constraint (PrimaryKey n cs) = json_key ''primaryKey'' n cs"
| "json_constraint (Unique n cs) = json_key ''unique'' n cs"
| "json_constraint (Check n e) = JObj (fields [(''type'', Some (JStr ''check'')), (''name'', map_option JStr n),
     (''expression'', Some (JStr e))])"
| "json_constraint (ForeignKey n cs ref rcs d u) = JObj (fields [(''type'', Some (JStr ''foreignKey'')),
     (''name'', map_option JStr n), (''columns'', Some (json_strings cs)),
     (''referencedTable'', Some (json_ref ref)), (''referencedColumns'', Some (json_strings rcs)),
     (''onDelete'', map_option json_action d), (''onUpdate'', map_option json_action u)])"

definition json_default :: "default_value \<Rightarrow> json" where
  "json_default d = JObj (fields [(''kind'', Some (JStr (case dv_kind d of DefaultLiteral \<Rightarrow> ''literal'' | DefaultExpression \<Rightarrow> ''expression''))),
     (''value'', Some (JStr (dv_value d)))])"

definition json_generated :: "generated_value \<Rightarrow> json" where
  "json_generated g = JObj (fields [(''expression'', Some (JStr (gv_expression g))), (''stored'', map_option JBool (gv_stored g))])"

definition json_column :: "column_input \<Rightarrow> json" where
  "json_column c = JObj (fields [(''name'', Some (JStr (co_name c))), (''dataType'', Some (JStr (co_dataType c))),
     (''length'', map_option JNum (co_length c)), (''precision'', map_option JNum (co_precision c)),
     (''scale'', map_option JNum (co_scale c)), (''nullable'', Some (JBool (co_nullable c))),
     (''default'', map_option json_default (co_default c)), (''identity'', map_option JBool (co_identity c)),
     (''generated'', map_option json_generated (co_generated c)), (''comment'', map_option JStr (co_comment c)),
     (''primaryKey'', map_option JBool (co_primaryKey c))])"

definition json_or_null :: "('a \<Rightarrow> json) \<Rightarrow> 'a option \<Rightarrow> json" where
  "json_or_null f x = (case x of Some a \<Rightarrow> f a | None \<Rightarrow> JNull)"

definition json_patch :: "column_patch \<Rightarrow> (string, json) jsmap" where
  "json_patch p = fields [(''dataType'', map_option JStr (pa_dataType p)),
     (''length'', map_option (json_or_null JNum) (pa_length p)),
     (''precision'', map_option (json_or_null JNum) (pa_precision p)),
     (''scale'', map_option (json_or_null JNum) (pa_scale p)), (''nullable'', map_option JBool (pa_nullable p)),
     (''default'', map_option json_default (Option.bind (pa_default p) id)),
     (''identity'', map_option JBool (pa_identity p)),
     (''generated'', map_option json_generated (Option.bind (pa_generated p) id)),
     (''comment'', map_option JStr (Option.bind (pa_comment p) id)),
     (''primaryKey'', map_option JBool (pa_primaryKey p))]"

fun json_type :: "constraint_type \<Rightarrow> json" where
  "json_type TypePrimaryKey = JStr ''primaryKey''"
| "json_type TypeForeignKey = JStr ''foreignKey''"
| "json_type TypeUnique = JStr ''unique''"
| "json_type TypeCheck = JStr ''check''"
| "json_type TypeOther = JNull"

definition json_step :: "string \<Rightarrow> (string \<times> json option) list \<Rightarrow> json" where
  "json_step k kvs = JObj (fields ((''kind'', Some (JStr k)) # kvs))"

fun json_alteration :: "alteration \<Rightarrow> json" where
  "json_alteration (AddColumn c) = json_step ''add'' [(''column'', Some (json_column c))]"
| "json_alteration (ModifyColumn n p) = json_step ''modify'' [(''name'', Some (JStr n)), (''changes'', Some (JObj (json_patch p)))]"
| "json_alteration (RenameColumn n m) = json_step ''rename'' [(''name'', Some (JStr n)), (''newName'', Some (JStr m))]"
| "json_alteration (DropColumn n) = json_step ''drop'' [(''name'', Some (JStr n))]"
| "json_alteration (AddIndex i) = json_step ''addIndex'' [(''index'', Some (json_index i))]"
| "json_alteration (DropIndex n) = json_step ''dropIndex'' [(''name'', Some (JStr n))]"
| "json_alteration (AddConstraint k) = json_step ''addConstraint'' [(''constraint'', Some (json_constraint k))]"
| "json_alteration (DropConstraint n t) = json_step ''dropConstraint'' [(''name'', Some (JStr n)), (''type'', map_option json_type t)]"

definition json_change_set :: "change_set \<Rightarrow> json" where
  "json_change_set s =
     (case cs_operation s of
        CreateTable \<Rightarrow>
          JObj (fields [(''operation'', Some (JStr ''create'')), (''ref'', Some (json_ref (cs_ref s))),
            (''columns'', Some (JArr (map json_column (cs_columns s)))),
            (''indexes'', Some (JArr (map json_index (cs_indexes s)))),
            (''constraints'', Some (JArr (map json_constraint (cs_constraints s))))])
      | AlterTable \<Rightarrow>
          JObj (fields [(''operation'', Some (JStr ''alter'')), (''ref'', Some (json_ref (cs_ref s))),
            (''alterations'', Some (JArr (map json_alteration (cs_alterations s))))]))"

subsection \<open>Reading it back\<close>

lemma map_of_fields [simp]:
  "distinct (map fst kvs) \<Longrightarrow> map_of (fields kvs) k = (case map_of kvs k of Some v \<Rightarrow> v | None \<Rightarrow> None)"
  unfolding fields_def
  by (induction kvs) (auto simp: map_of_eq_None_iff image_iff split: option.splits)

lemma allowed_fields [simp]: "list_all (\<lambda>k. k \<in> set ns) (map fst kvs) \<Longrightarrow> allowed (fields kvs) ns"
  by (auto simp: allowed_def js_keys_def fields_def list_all_iff)

named_theorems reads

lemma as_values [reads]:
  "as_object (Some (JObj fs)) = Some fs" "as_string (Some (JStr s)) = Some s" "as_bool (Some (JBool b)) = Some b"
  "as_array (Some (JArr vs)) = Some vs"
  by (simp_all add: as_object_def as_string_def as_bool_def as_array_def)

lemma maybe_reads: "(\<And>a. x = Some a \<Longrightarrow> f (Some (g a)) = Some a) \<Longrightarrow> maybe f (map_option g x) = Some x"
  by (cases x) (simp_all add: maybe_def)

lemma maybe_string [reads]: "maybe as_string (map_option JStr x) = Some x"
  by (rule maybe_reads) (simp add: reads)

lemma maybe_bool [reads]: "maybe as_bool (map_option JBool x) = Some x"
  by (rule maybe_reads) (simp add: reads)

lemma maybe_integer: "safe_opt x \<Longrightarrow> maybe as_integer (map_option JNum x) = Some x"
  by (rule maybe_reads) (simp add: as_integer_def safe_opt_def)

lemma maybe_null_integer: "safe_opt2 x \<Longrightarrow> maybe_null as_integer (map_option (json_or_null JNum) x) = Some x"
  by (cases x; cases "the x")
    (simp_all add: maybe_null_def as_integer_def safe_opt2_def safe_opt_def json_or_null_def)

lemma all_some_list: "(\<And>x. x \<in> set xs \<Longrightarrow> f (g x) = Some x) \<Longrightarrow> all_some (map (\<lambda>x. f (g x)) xs) = Some xs"
  by (induction xs) simp_all

lemma stringArray_reads [reads]: "stringArray (Some (json_strings cs)) = Some cs"
  by (simp add: stringArray_def json_strings_def reads comp_def)

lemma index_reads [reads]: "parseIndex (Some (json_index i)) = Some i"
  unfolding parseIndex_def json_index_def by (simp add: reads require_def)

lemma ref_reads: "table_ref r \<Longrightarrow> parseObjectRef (Some (json_ref r)) = Some r"
  unfolding parseObjectRef_def json_ref_def table_ref_def
  by (cases "ref_schema r") (simp_all add: reads require_def parse_schema_def)

lemma action_found: "as_action (Some (json_action a)) = Some a"
  by (cases a) (simp_all add: as_action_def json_action_def reads REFERENTIAL_ACTIONS_def)

lemma action_reads [reads]: "maybe as_action (map_option json_action x) = Some x"
  by (rule maybe_reads) (rule action_found)

lemma default_reads [reads]: "parseDefault (map_option json_default x) = Some x"
  unfolding parseDefault_def
  by (rule maybe_reads) (simp add: as_default_def json_default_def reads require_def as_kind_def split: default_kind.split)

lemma generated_reads [reads]: "parseGenerated (map_option json_generated x) = Some x"
  unfolding parseGenerated_def
  by (rule maybe_reads) (simp add: as_generated_def json_generated_def reads require_def)

lemma type_found: "a \<noteq> TypeOther \<Longrightarrow> as_constraint_type (Some (json_type a)) = Some a"
  by (cases a) (simp_all add: as_constraint_type_def reads)

lemma type_reads: "t \<noteq> Some TypeOther \<Longrightarrow> maybe as_constraint_type (map_option json_type t) = Some t"
  by (rule maybe_reads) (simp add: type_found)

lemma column_reads: "column_ok c \<Longrightarrow> parseColumn (Some (json_column c)) = Some c"
  unfolding parseColumn_def json_column_def column_ok_def
  by (simp add: reads require_def maybe_integer)

lemma not_removed [simp]: "x \<noteq> Some None \<Longrightarrow> map_option Some (Option.bind x id) = x"
  by (cases x) auto

lemma patch_reads: "patch_ok p \<Longrightarrow> parsePatch (json_patch p) = Some p"
  unfolding parsePatch_def json_patch_def patch_ok_def
  by (simp add: reads require_def maybe_null_integer)

lemma key_reads:
  "cs \<noteq> [] \<Longrightarrow> parseConstraint (Some (json_key ''primaryKey'' n cs)) = Some (PrimaryKey n cs)"
  "cs \<noteq> [] \<Longrightarrow> parseConstraint (Some (json_key ''unique'' n cs)) = Some (Unique n cs)"
  unfolding parseConstraint_def json_key_def by (simp_all add: reads require_def)

lemma constraint_reads: "constraint_ok k \<Longrightarrow> parseConstraint (Some (json_constraint k)) = Some k"
proof (cases k)
  case (ForeignKey n cs ref rcs d u)
  assume "constraint_ok k"
  then show ?thesis unfolding ForeignKey parseConstraint_def by (simp add: reads require_def ref_reads)
next
  case (Check n e)
  then show ?thesis unfolding Check parseConstraint_def by (simp add: reads require_def)
qed (simp_all add: key_reads)

lemma alteration_reads: "alteration_ok a \<Longrightarrow> parseAlteration (json_alteration a) = Some a"
  by (cases a) (simp_all add: parseAlteration_def json_step_def reads require_def column_reads patch_reads
    constraint_reads type_reads)

lemma list_reads:
  "list_all column_ok cs \<Longrightarrow> parse_list parseColumn (Some (JArr (map json_column cs))) = Some cs"
  "parse_list parseIndex (Some (JArr (map json_index is))) = Some is"
  "list_all constraint_ok ks \<Longrightarrow> parse_list parseConstraint (Some (JArr (map json_constraint ks))) = Some ks"
  "list_all alteration_ok as \<Longrightarrow> parseAlterations (Some (JArr (map json_alteration as))) = Some as"
  unfolding parse_list_def parseAlterations_def
  by (simp_all add: reads comp_def all_some_list [where f = "\<lambda>j. parseColumn (Some j)"]
    all_some_list [where f = "\<lambda>j. parseIndex (Some j)"] all_some_list [where f = "\<lambda>j. parseConstraint (Some j)"]
    all_some_list [where f = parseAlteration] column_reads constraint_reads alteration_reads list_all_iff)

text \<open>
  Claim C22: Round trip of the request parser: a well-formed change set, a creation or an alteration
  with columns, indexes, constraints, defaults, generated columns and patches of any shape, is read
  back unchanged from its JSON form. With the type of the parser this says exactly which change sets
  a request can carry.
\<close>

theorem change_set_roundtrip:
  assumes "change_set_ok s"
  shows "parseChangeSet (json_change_set s) = Some s"
proof (cases "cs_operation s")
  case CreateTable
  then show ?thesis using assms unfolding parseChangeSet_def json_change_set_def change_set_ok_def
    by (simp add: reads require_def ref_reads list_reads parse_optional_list_def)
next
  case AlterTable
  then show ?thesis using assms unfolding parseChangeSet_def json_change_set_def change_set_ok_def
    by (simp add: reads require_def ref_reads list_reads)
qed

text \<open>A request that modifies a column's type and drops another column.\<close>

definition sample_request :: json where
  "sample_request = JObj [(''operation'', JStr ''alter''),
     (''ref'', JObj [(''database'', JStr ''shop''), (''name'', JStr ''orders''), (''type'', JStr ''table'')]),
     (''alterations'', JArr [
        JObj [(''kind'', JStr ''modify''), (''name'', JStr ''note''),
          (''changes'', JObj [(''dataType'', JStr ''varchar''), (''length'', JNum 40)])],
        JObj [(''kind'', JStr ''drop''), (''name'', JStr ''old'')]])]"

definition sample_change_set :: change_set where
  "sample_change_set = \<lparr>cs_operation = AlterTable,
     cs_ref = \<lparr>ref_database = ''shop'', ref_schema = None, ref_name = ''orders'', ref_type = ''table''\<rparr>,
     cs_columns = [], cs_indexes = [], cs_constraints = [],
     cs_alterations = [
       ModifyColumn ''note'' \<lparr>pa_dataType = Some ''varchar'', pa_length = Some (Some 40), pa_precision = None,
         pa_scale = None, pa_nullable = None, pa_default = None, pa_identity = None, pa_generated = None,
         pa_comment = None, pa_primaryKey = None\<rparr>,
       DropColumn ''old'']\<rparr>"

lemma sample_parsed: "parseChangeSet sample_request = Some sample_change_set"
  unfolding sample_request_def sample_change_set_def parseChangeSet_def
  by (simp add: reads require_def allowed_def js_keys_def parseObjectRef_def parse_schema_def parseAlterations_def
    parseAlteration_def parsePatch_def maybe_def maybe_null_def as_integer_def safe_integer_def parseDefault_def parseGenerated_def)

theorem parsed_change_set_ok_witness: "change_set_ok sample_change_set"
  using parsed_change_set_ok [OF sample_parsed] .

lemma sample_ok: "change_set_ok sample_change_set"
  by (simp add: change_set_ok_def sample_change_set_def table_ref_def patch_ok_def safe_opt2_def safe_opt_def safe_integer_def)

theorem change_set_roundtrip_witness:
  "change_set_ok sample_change_set \<and> parseChangeSet (json_change_set sample_change_set) = Some sample_change_set"
  using change_set_roundtrip [OF sample_ok] sample_ok by blast

end
