(* ===== verification/RowQuery.thy ===== *)
theory RowQuery
  imports Ddl QueryResults Store
begin

text \<open>
  The SQL of the data browser: what \<open>packages/database-postgresql/src/data.ts\<close> and
  \<open>packages/database-mysql/src/data.ts\<close> have in common. The two files differ in the quoting of names, the
  words they look for in the name of a type, the text around a condition and what an insert returns; these
  are the fields of a dialect, and the two providers are its instances in \<open>RowEngines\<close>. A result \<open>Inl\<close> is
  the error that is thrown. Property names are kept in the order in which the request has them.
\<close>

section \<open>Requests\<close>

datatype filter_operator =
    OpEq | OpNeq | OpGt | OpGte | OpLt | OpLte | OpContains | OpStartsWith | OpEndsWith | OpIsNull | OpIsNotNull | OpIn

fun operator_name :: "filter_operator \<Rightarrow> string" where
  "operator_name OpEq = ''eq''"
| "operator_name OpNeq = ''neq''"
| "operator_name OpGt = ''gt''"
| "operator_name OpGte = ''gte''"
| "operator_name OpLt = ''lt''"
| "operator_name OpLte = ''lte''"
| "operator_name OpContains = ''contains''"
| "operator_name OpStartsWith = ''startsWith''"
| "operator_name OpEndsWith = ''endsWith''"
| "operator_name OpIsNull = ''isNull''"
| "operator_name OpIsNotNull = ''isNotNull''"
| "operator_name OpIn = ''in''"

record data_filter =
  df_column :: string
  df_operator :: filter_operator
  df_value :: "json option"
  df_values :: "json list option"

datatype direction = Asc | Desc

datatype total_mode = TotalAuto | TotalExact | TotalEstimate

record page_request =
  pr_table :: object_ref
  pr_limit :: "int option"
  pr_offset :: "int option"
  pr_columns :: "string list option"
  pr_filters :: "data_filter list option"
  pr_search :: "string option"
  pr_sort :: "(string \<times> direction) list option"
  pr_total :: "total_mode option"

type_synonym cells = "(string, query_cell) jsmap"

datatype identity_kind = IdPrimary | IdUnique

record row_identity =
  ri_columns :: "string list"
  ri_kind :: "identity_kind option"
  ri_editable :: bool
  ri_reason :: "string option"

datatype data_error = DataSyntax string | DataConflict string | DataInternal string | DataDriver string | DataUnsupported

text \<open>
  A parameter: a value of the request, the number or the date of a text, each represented by the text.
\<close>

datatype param = Par json | ParFloat string | ParDate string

record bound_query =
  bq_sql :: string
  bq_parameters :: "param list"

text \<open>
  What the standard library makes of a text: whether \<open>Number\<close> is finite, whether \<open>Date\<close> is valid,
  the result of \<open>JSON.parse\<close> (None when it throws), and \<open>Number\<close> as a whole number if it is one.
\<close>

record js_reader =
  js_finite :: "string \<Rightarrow> bool"
  js_date :: "string \<Rightarrow> bool"
  js_parse :: "string \<Rightarrow> json option"
  js_number :: "string \<Rightarrow> int option"

datatype column_kind = KindText | KindNumber | KindDate | KindOther

record data_dialect =
  dd_quote :: "string \<Rightarrow> string + string"
  dd_target :: "object_ref \<Rightarrow> string"
  dd_kind :: "column_definition \<Rightarrow> column_kind"
  dd_numbers :: "string list"
  dd_like :: string
  dd_defaults :: string
  dd_returning :: string

section \<open>Words of a type\<close>

definition has_any :: "string list \<Rightarrow> string \<Rightarrow> bool" where
  "has_any ws s \<longleftrightarrow> list_ex (\<lambda>w. js_includes w s) ws"

definition word_char :: "char \<Rightarrow> bool" where
  "word_char c \<longleftrightarrow> (let n = (of_char c :: nat) in
     digit c \<or> n = 95 \<or> 97 \<le> n \<and> n \<le> 122 \<or> 65 \<le> n \<and> n \<le> 90)"

text \<open>The longest runs of word characters; \<open>\b(?:w\<^sub>1|\<dots>)\b\<close> matches when one of them is a \<open>w\<^sub>i\<close>.\<close>

fun words_from :: "string \<Rightarrow> string \<Rightarrow> string list" where
  "words_from w [] = [rev w]"
| "words_from w (c # s) = (if word_char c then words_from (c # w) s else rev w # words_from [] s)"

definition has_word :: "string list \<Rightarrow> string \<Rightarrow> bool" where
  "has_word ws s \<longleftrightarrow> list_ex (\<lambda>w. w \<in> set ws) (words_from [] s)"

definition INTEGER_WORDS :: "string list" where
  "INTEGER_WORDS = [''tinyint'', ''smallint'', ''mediumint'', ''bigint'', ''integer'', ''int'', ''int2'', ''int4'', ''int8'',
     ''serial'', ''smallserial'', ''bigserial'', ''serial2'', ''serial4'', ''serial8'', ''year'']"

definition EXACT_WORDS :: "string list" where
  "EXACT_WORDS = [''numeric'', ''decimal'', ''dec'', ''money'']"

section \<open>Values\<close>

definition drop_sign :: "string \<Rightarrow> string" where
  "drop_sign s = (case s of c # r \<Rightarrow> if c = CHR ''+'' \<or> c = CHR ''-'' then r else s | [] \<Rightarrow> [])"

text \<open>\<open>/^[+-]?\d+$/\<close> and \<open>/^[+-]?(?:\d+(?:\.\d*)?|\.\d+)(?:[eE][+-]?\d+)?$/\<close>.\<close>

definition whole_number :: "string \<Rightarrow> bool" where
  "whole_number s \<longleftrightarrow> digits (drop_sign s)"

definition mantissa :: "string \<Rightarrow> bool" where
  "mantissa s =
     (let a = takeWhile digit s in
      case dropWhile digit s of
        [] \<Rightarrow> a \<noteq> []
      | c # r \<Rightarrow> c = CHR ''.'' \<and> list_all digit r \<and> (a \<noteq> [] \<or> r \<noteq> []))"

definition exact_number :: "string \<Rightarrow> bool" where
  "exact_number s =
     (let t = drop_sign s; e = (\<lambda>c. c \<noteq> CHR ''e'' \<and> c \<noteq> CHR ''E'')
      in mantissa (takeWhile e t) \<and> (case dropWhile e t of [] \<Rightarrow> True | _ # x \<Rightarrow> digits (drop_sign x)))"

definition numericParameter :: "js_reader \<Rightarrow> string \<Rightarrow> string \<Rightarrow> string \<Rightarrow> data_error + param" where
  "numericParameter js v type name =
     (let t = js_trim v in
      if has_word INTEGER_WORDS type then
        (if whole_number t then Inr (Par (JStr t)) else Inl (DataSyntax (''Column '' @ name @ '' expects a whole number'')))
      else if has_word EXACT_WORDS type then
        (if exact_number t then Inr (Par (JStr t)) else Inl (DataSyntax (''Column '' @ name @ '' contains an invalid number'')))
      else if js_finite js t then Inr (ParFloat t)
      else Inl (DataSyntax (''Column '' @ name @ '' contains an invalid number'')))"

definition expects :: "column_definition \<Rightarrow> string \<Rightarrow> data_error + 'a" where
  "expects c what = Inl (DataSyntax (''Column '' @ cd_name c @ what))"

definition writeValue :: "js_reader \<Rightarrow> data_dialect \<Rightarrow> query_cell \<Rightarrow> column_definition \<Rightarrow> data_error + param" where
  "writeValue js d cell c =
     (if cell = CNull then (if cd_nullable c then Inr (Par JNull) else expects c '' does not allow NULL'')
      else
        let type = js_lower (cd_dataType c) in
        if (case cell of CBytes _ \<Rightarrow> True | _ \<Rightarrow> False) then expects c '' is binary and read only in V1''
        else if js_includes ''json'' type then
          (case cell of
             CJson s \<Rightarrow> (case js_parse js s of Some v \<Rightarrow> Inr (Par v) | None \<Rightarrow> expects c '' contains invalid JSON'')
           | _ \<Rightarrow> expects c '' expects JSON'')
        else if js_includes ''bool'' type then
          (case cell of CBoolean b \<Rightarrow> Inr (Par (JBool b)) | _ \<Rightarrow> expects c '' expects a boolean'')
        else if has_any (dd_numbers d) type then
          (case cell of CNumber s \<Rightarrow> numericParameter js s type (cd_name c) | _ \<Rightarrow> expects c '' expects a number'')
        else if has_any [''date'', ''time'', ''timestamp''] type then
          (case cell of
             CDate s \<Rightarrow> if js_date js s then Inr (ParDate s) else expects c '' contains an invalid date''
           | _ \<Rightarrow> expects c '' expects a date or time'')
        else (case cell of CString s \<Rightarrow> Inr (Par (JStr s)) | _ \<Rightarrow> expects c '' expects text''))"

text \<open>\<open>new Map(columns.map((column) => [column.name, column]))\<close>.\<close>

definition by_name :: "column_definition list \<Rightarrow> string \<Rightarrow> column_definition option" where
  "by_name cs n = map_of (rev (map (\<lambda>c. (cd_name c, c)) cs)) n"

section \<open>The identity of a row\<close>

definition all_required :: "column_definition list \<Rightarrow> string list \<Rightarrow> bool" where
  "all_required cs ns \<longleftrightarrow> list_all (\<lambda>n. case by_name cs n of Some c \<Rightarrow> \<not> cd_nullable c | None \<Rightarrow> False) ns"

definition unique_identity :: "column_definition list \<Rightarrow> index_definition list \<Rightarrow> row_identity" where
  "unique_identity cs is =
     (case find (\<lambda>i. id_unique i \<and> \<not> id_primary i \<and> id_columns i \<noteq> [] \<and> all_required cs (id_columns i)) is of
        Some u \<Rightarrow> \<lparr>ri_columns = id_columns u, ri_kind = Some IdUnique, ri_editable = True, ri_reason = None\<rparr>
      | None \<Rightarrow> \<lparr>ri_columns = [], ri_kind = None, ri_editable = False,
                  ri_reason = Some ''This table has no primary key or non nullable unique index.''\<rparr>)"

definition resolveRowIdentity ::
  "object_ref \<Rightarrow> column_definition list \<Rightarrow> index_definition list \<Rightarrow> row_identity" where
  "resolveRowIdentity ref cs is =
     (if ref_type ref \<noteq> ''table'' then
        \<lparr>ri_columns = [], ri_kind = None, ri_editable = False, ri_reason = Some ''Views are read only.''\<rparr>
      else
        case find (\<lambda>i. id_primary i \<and> id_columns i \<noteq> []) is of
          Some p \<Rightarrow>
            if all_required cs (id_columns p)
            then \<lparr>ri_columns = id_columns p, ri_kind = Some IdPrimary, ri_editable = True, ri_reason = None\<rparr>
            else unique_identity cs is
        | None \<Rightarrow> unique_identity cs is)"


section \<open>Mutations\<close>

definition quoted_name :: "data_dialect \<Rightarrow> string \<Rightarrow> data_error + string" where
  "quoted_name d n = map_sum DataSyntax id (dd_quote d n)"

definition table_name :: "data_dialect \<Rightarrow> object_ref \<Rightarrow> data_error + string" where
  "table_name d ref =
     and_then (quoted_name d (dd_target d ref)) (\<lambda>s. and_then (quoted_name d (ref_name ref)) (\<lambda>t. Inr (s @ ''.'' @ t)))"

definition mutationValues ::
  "js_reader \<Rightarrow> data_dialect \<Rightarrow> cells \<Rightarrow> column_definition list \<Rightarrow> (column_definition \<Rightarrow> bool) \<Rightarrow>
     data_error + (column_definition list \<times> param list)" where
  "mutationValues js d vs cs allowed =
     and_then (map_throw (\<lambda>n. case by_name cs n of
         Some c \<Rightarrow> if allowed c then Inr c else Inl (DataSyntax (''Column '' @ n @ '' cannot be changed''))
       | None \<Rightarrow> Inl (DataSyntax (''Column '' @ n @ '' cannot be changed''))) (js_keys vs))
     (\<lambda>selected. and_then (map_throw (\<lambda>c. writeValue js d (the (map_of vs (cd_name c))) c) selected)
       (\<lambda>ps. Inr (selected, ps)))"

text \<open>
  One condition of the identity: its text and its parameter. A column that the table does not have is
  not read (see \<open>RowProps\<close>, where a resolved identity has none).
\<close>

definition identity_condition ::
  "js_reader \<Rightarrow> data_dialect \<Rightarrow> cells \<Rightarrow> column_definition list \<Rightarrow> string \<Rightarrow> data_error + (string \<times> param)" where
  "identity_condition js d key cs n =
     (case by_name cs n of
        None \<Rightarrow> Inl (DataInternal ''undefined'')
      | Some c \<Rightarrow>
          and_then (writeValue js d (the (map_of key n)) c) (\<lambda>v.
            if v = Par JNull then Inl (DataSyntax (''Identity column '' @ n @ '' cannot be NULL''))
            else and_then (quoted_name d n) (\<lambda>q. Inr (q @ '' = ?'', v))))"

definition identityWhere ::
  "js_reader \<Rightarrow> data_dialect \<Rightarrow> cells \<Rightarrow> row_identity \<Rightarrow> column_definition list \<Rightarrow> data_error + (string \<times> param list)" where
  "identityWhere js d key ident cs =
     (if \<not> ri_editable ident \<or> ri_columns ident = [] then
        Inl (DataSyntax (case ri_reason ident of Some r \<Rightarrow> r | None \<Rightarrow> ''This table is read only''))
      else if length (js_keys key) \<noteq> length (ri_columns ident) \<or> list_ex (\<lambda>n. map_of key n = None) (ri_columns ident) then
        Inl (DataSyntax ''The complete row identity is required'')
      else and_then (map_throw (identity_condition js d key cs) (ri_columns ident))
        (\<lambda>xs. Inr (join '' AND '' (map fst xs), map snd xs)))"

definition not_generated :: "column_definition \<Rightarrow> bool" where
  "not_generated c \<longleftrightarrow> cd_isGenerated c \<noteq> Some True"

definition places :: "'a list \<Rightarrow> string" where
  "places xs = join '', '' (map (\<lambda>_. ''?'') xs)"

definition buildInsertQuery ::
  "js_reader \<Rightarrow> data_dialect \<Rightarrow> object_ref \<Rightarrow> cells \<Rightarrow> column_definition list \<Rightarrow> data_error + bound_query" where
  "buildInsertQuery js d ref vs cs =
     and_then (mutationValues js d vs cs not_generated) (\<lambda>(selected, ps).
     and_then (table_name d ref) (\<lambda>table.
       if selected = [] then Inr \<lparr>bq_sql = ''INSERT INTO '' @ table @ dd_defaults d, bq_parameters = []\<rparr>
       else and_then (map_throw (\<lambda>c. quoted_name d (cd_name c)) selected) (\<lambda>names.
         Inr \<lparr>bq_sql = ''INSERT INTO '' @ table @ '' ('' @ join '', '' names @ '') VALUES ('' @ places selected @ '')'' @ dd_returning d,
              bq_parameters = ps\<rparr>)))"

definition buildUpdateQuery ::
  "js_reader \<Rightarrow> data_dialect \<Rightarrow> object_ref \<Rightarrow> cells \<Rightarrow> cells \<Rightarrow> column_definition list \<Rightarrow> row_identity \<Rightarrow>
     data_error + bound_query" where
  "buildUpdateQuery js d ref key vs cs ident =
     and_then (mutationValues js d vs cs (\<lambda>c. cd_name c \<notin> set (ri_columns ident) \<and> not_generated c)) (\<lambda>(selected, ps).
     if selected = [] then Inl (DataSyntax ''At least one changed value is required'')
     else
       and_then (identityWhere js d key ident cs) (\<lambda>(whr, ks).
       and_then (table_name d ref) (\<lambda>table.
       and_then (map_throw (\<lambda>c. map_sum id (\<lambda>q. q @ '' = ?'') (quoted_name d (cd_name c))) selected) (\<lambda>sets.
         Inr \<lparr>bq_sql = ''UPDATE '' @ table @ '' SET '' @ join '', '' sets @ '' WHERE '' @ whr @ dd_returning d,
              bq_parameters = ps @ ks\<rparr>))))"

definition buildDeleteQuery ::
  "js_reader \<Rightarrow> data_dialect \<Rightarrow> object_ref \<Rightarrow> cells \<Rightarrow> column_definition list \<Rightarrow> row_identity \<Rightarrow> data_error + bound_query" where
  "buildDeleteQuery js d ref key cs ident =
     and_then (identityWhere js d key ident cs) (\<lambda>(whr, ks).
     and_then (table_name d ref) (\<lambda>table.
       Inr \<lparr>bq_sql = ''DELETE FROM '' @ table @ '' WHERE '' @ whr @ dd_returning d, bq_parameters = ks\<rparr>))"

section \<open>Pages\<close>

definition allowedOperator :: "data_dialect \<Rightarrow> column_definition \<Rightarrow> filter_operator \<Rightarrow> bool" where
  "allowedOperator d c oper =
     (oper \<in> {OpIsNull, OpIsNotNull, OpIn} \<or>
      (case dd_kind d c of
         KindText \<Rightarrow> oper \<in> {OpEq, OpNeq, OpContains, OpStartsWith, OpEndsWith}
       | KindNumber \<Rightarrow> oper \<in> {OpEq, OpNeq, OpGt, OpGte, OpLt, OpLte}
       | KindDate \<Rightarrow> oper \<in> {OpEq, OpNeq, OpGt, OpGte, OpLt, OpLte}
       | KindOther \<Rightarrow> oper \<in> {OpEq, OpNeq}))"

text \<open>The three replacements double the backslash first, so that no escape is escaped again.\<close>

definition replace_char :: "char \<Rightarrow> string \<Rightarrow> string \<Rightarrow> string" where
  "replace_char c r s = concat (map (\<lambda>x. if x = c then r else [x]) s)"

definition escapeLike :: "string \<Rightarrow> string" where
  "escapeLike s =
     replace_char CHR ''_'' [CHR 0x5C, CHR ''_''] (replace_char CHR ''%'' [CHR 0x5C, CHR ''%'']
       (replace_char (CHR 0x5C) [CHR 0x5C, CHR 0x5C] s))"

fun like_pattern :: "filter_operator \<Rightarrow> string \<Rightarrow> string" where
  "like_pattern OpContains v = ''%'' @ v @ ''%''"
| "like_pattern OpStartsWith v = v @ ''%''"
| "like_pattern _ v = ''%'' @ v"

fun comparison :: "filter_operator \<Rightarrow> string option" where
  "comparison OpEq = Some ''=''"
| "comparison OpNeq = Some ''<>''"
| "comparison OpGt = Some ''>''"
| "comparison OpGte = Some ''>=''"
| "comparison OpLt = Some ''<''"
| "comparison OpLte = Some ''<=''"
| "comparison _ = None"

definition filterClause :: "data_dialect \<Rightarrow> data_filter \<Rightarrow> column_definition \<Rightarrow> data_error + (string \<times> param list)" where
  "filterClause d f c =
     (if \<not> allowedOperator d c (df_operator f)
      then Inl (DataSyntax (''Filter operator is not valid for '' @ cd_name c))
      else and_then (quoted_name d (cd_name c)) (\<lambda>q.
        if df_operator f = OpIsNull then Inr (q @ '' IS NULL'', [])
        else if df_operator f = OpIsNotNull then Inr (q @ '' IS NOT NULL'', [])
        else if df_operator f = OpIn then
          (case df_values f of
             Some (v # vs) \<Rightarrow> Inr (q @ '' IN ('' @ places (v # vs) @ '')'', map Par (v # vs))
           | _ \<Rightarrow> Inl (DataSyntax ''IN needs at least one value''))
        else
          (case df_value f of
             None \<Rightarrow> Inl (DataSyntax (''Filter value is required for '' @ operator_name (df_operator f)))
           | Some v \<Rightarrow>
               if df_operator f \<in> {OpContains, OpStartsWith, OpEndsWith}
               then Inr (q @ dd_like d, [Par (JStr (like_pattern (df_operator f) (escapeLike (js_string v))))])
               else (case comparison (df_operator f) of
                       Some x \<Rightarrow> Inr (q @ '' '' @ x @ '' ?'', [Par v])
                     | None \<Rightarrow> Inl (DataSyntax (''Filter operator is not supported: '' @ operator_name (df_operator f)))))))"

definition DATA_MAX_PAGE_SIZE :: int where
  "DATA_MAX_PAGE_SIZE = 500"

definition DATA_DEFAULT_PAGE_SIZE :: int where
  "DATA_DEFAULT_PAGE_SIZE = 100"

definition page_limit :: "page_request \<Rightarrow> int" where
  "page_limit r = (case pr_limit r of Some n \<Rightarrow> n | None \<Rightarrow> DATA_DEFAULT_PAGE_SIZE)"

definition page_offset :: "page_request \<Rightarrow> int" where
  "page_offset r = (case pr_offset r of Some n \<Rightarrow> n | None \<Rightarrow> 0)"

definition normalizePage :: "page_request \<Rightarrow> data_error + int \<times> int" where
  "normalizePage r =
     (if \<not> safe_integer (page_limit r) \<or> page_limit r < 1 \<or> page_limit r > DATA_MAX_PAGE_SIZE
      then Inl (DataSyntax ''Data page limit must be between 1 and 500'')
      else if \<not> safe_integer (page_offset r) \<or> page_offset r < 0
      then Inl (DataSyntax ''Data page offset is invalid'')
      else Inr (page_limit r, page_offset r))"

definition selected_columns :: "page_request \<Rightarrow> column_definition list \<Rightarrow> string list" where
  "selected_columns r cs = (case pr_columns r of Some (n # ns) \<Rightarrow> n # ns | _ \<Rightarrow> map cd_name cs)"

definition filter_predicate ::
  "data_dialect \<Rightarrow> column_definition list \<Rightarrow> data_filter \<Rightarrow> data_error + (string \<times> param list)" where
  "filter_predicate d cs f =
     (case by_name cs (df_column f) of
        None \<Rightarrow> Inl (DataSyntax (''Filter column is invalid: '' @ df_column f))
      | Some c \<Rightarrow> filterClause d f c)"

definition is_text :: "data_dialect \<Rightarrow> column_definition list \<Rightarrow> string \<Rightarrow> bool" where
  "is_text d cs n \<longleftrightarrow> (case by_name cs n of Some c \<Rightarrow> dd_kind d c = KindText | None \<Rightarrow> False)"

text \<open>The search: nothing, or one alternative for each selected column of text.\<close>

definition search_predicate ::
  "data_dialect \<Rightarrow> column_definition list \<Rightarrow> string list \<Rightarrow> string option \<Rightarrow> data_error + (string \<times> param list) list" where
  "search_predicate d cs selected s =
     (let search = (case s of Some t \<Rightarrow> js_trim t | None \<Rightarrow> []); ns = filter (is_text d cs) selected in
      if search = [] \<or> ns = [] then Inr []
      else and_then (map_throw (\<lambda>n. map_sum id (\<lambda>q. q @ dd_like d) (quoted_name d n)) ns) (\<lambda>qs.
        Inr [(''('' @ join '' OR '' qs @ '')'', map (\<lambda>_. Par (JStr (''%'' @ escapeLike search @ ''%''))) ns)]))"

text \<open>The first direction asked for a column counts; then come the columns of the primary key.\<close>

fun requested_sorts ::
  "column_definition list \<Rightarrow> (string \<times> direction) list \<Rightarrow> (string \<times> direction) list \<Rightarrow> data_error + (string \<times> direction) list" where
  "requested_sorts cs acc [] = Inr acc"
| "requested_sorts cs acc ((n, x) # ss) =
     (if by_name cs n = None then Inl (DataSyntax ''Sort specification is invalid'')
      else requested_sorts cs (if n \<in> set (map fst acc) then acc else acc @ [(n, x)]) ss)"

fun key_sorts :: "(string \<times> direction) list \<Rightarrow> string list \<Rightarrow> (string \<times> direction) list" where
  "key_sorts acc [] = acc"
| "key_sorts acc (n # ns) = key_sorts (if n \<in> set (map fst acc) then acc else acc @ [(n, Asc)]) ns"

fun direction_sql :: "direction \<Rightarrow> string" where
  "direction_sql Asc = ''ASC''"
| "direction_sql Desc = ''DESC''"

definition sort_item :: "data_dialect \<Rightarrow> string \<times> direction \<Rightarrow> data_error + string" where
  "sort_item d s = map_sum id (\<lambda>q. q @ '' '' @ direction_sql (snd s)) (quoted_name d (fst s))"

definition order_clause :: "data_dialect \<Rightarrow> (string \<times> direction) list \<Rightarrow> data_error + string" where
  "order_clause d ss =
     (if ss = [] then Inr []
      else and_then (map_throw (sort_item d) ss) (\<lambda>qs. Inr ('' ORDER BY '' @ join '', '' qs)))"

definition where_clause :: "(string \<times> param list) list \<Rightarrow> string" where
  "where_clause ps = (if ps = [] then [] else '' WHERE '' @ join '' AND '' (map fst ps))"

definition buildDataQuery ::
  "data_dialect \<Rightarrow> page_request \<Rightarrow> column_definition list \<Rightarrow> string list \<Rightarrow> data_error + bound_query" where
  "buildDataQuery d r cs primary =
     and_then (normalizePage r) (\<lambda>(limit, offset).
     let selected = selected_columns r cs in
     if \<not> distinct selected \<or> list_ex (\<lambda>n. by_name cs n = None) selected
     then Inl (DataSyntax ''Selected data columns are invalid'')
     else
       and_then (map_throw (filter_predicate d cs) (case pr_filters r of Some fs \<Rightarrow> fs | None \<Rightarrow> [])) (\<lambda>fs.
       and_then (search_predicate d cs selected (pr_search r)) (\<lambda>ss.
       and_then (requested_sorts cs [] (case pr_sort r of Some s \<Rightarrow> s | None \<Rightarrow> [])) (\<lambda>sorts.
       and_then (order_clause d (key_sorts sorts primary)) (\<lambda>order.
       and_then (table_name d (pr_table r)) (\<lambda>table.
       and_then (map_throw (quoted_name d) selected) (\<lambda>names.
         Inr \<lparr>bq_sql = ''SELECT '' @ join '', '' names @ '' FROM '' @ table @ where_clause (fs @ ss) @ order @ '' LIMIT ? OFFSET ?'',
              bq_parameters = concat (map snd (fs @ ss)) @ [Par (JNum (limit + 1)), Par (JNum offset)]\<rparr>)))))))"

section \<open>Counting\<close>

text \<open>\<open>indexOf\<close> and \<open>lastIndexOf\<close>.\<close>

fun index_of :: "string \<Rightarrow> string \<Rightarrow> nat option" where
  "index_of p [] = (if p = [] then Some 0 else None)"
| "index_of p (c # s) = (if take (length p) (c # s) = p then Some 0 else map_option Suc (index_of p s))"

fun last_index_of :: "string \<Rightarrow> string \<Rightarrow> nat option" where
  "last_index_of p [] = (if p = [] then Some 0 else None)"
| "last_index_of p (c # s) =
     (case last_index_of p s of
        Some i \<Rightarrow> Some (Suc i)
      | None \<Rightarrow> if take (length p) (c # s) = p then Some 0 else None)"

text \<open>An index that is not found is -1, from where \<open>slice\<close> starts at the last character and ends before it.\<close>

definition from_to_limit :: "string \<Rightarrow> string" where
  "from_to_limit s =
     js_slice s (case index_of '' FROM '' s of Some i \<Rightarrow> i | None \<Rightarrow> length s - 1)
       (case last_index_of '' LIMIT '' s of Some i \<Rightarrow> i | None \<Rightarrow> length s - 1)"

definition countQuery ::
  "data_dialect \<Rightarrow> page_request \<Rightarrow> column_definition list \<Rightarrow> string list \<Rightarrow> data_error + bound_query" where
  "countQuery d r cs primary =
     and_then (buildDataQuery d (r\<lparr>pr_limit := Some 1, pr_offset := Some 0, pr_sort := Some [],
         pr_columns := Some (map cd_name cs)\<rparr>) cs primary)
       (\<lambda>q. Inr \<lparr>bq_sql = ''SELECT COUNT(*) AS total'' @ from_to_limit (bq_sql q),
             bq_parameters = butlast (butlast (bq_parameters q))\<rparr>)"

end
