(* ===== verification/RowEngines.thy ===== *)
theory RowEngines
  imports RowQuery
begin

text \<open>
  The data adapters of the providers, \<open>PostgresqlDataAdapter\<close> and \<open>MysqlDataAdapter\<close>, with their dialects
  and query builders (\<open>packages/database-postgresql/src/data.ts\<close>, \<open>packages/database-mysql/src/data.ts\<close>).
  The database session is a port: reading the description of a table, running a statement with its
  parameters, and the transaction. An operation returns the new world and an error or a result.
\<close>

section \<open>The session\<close>

record data_table =
  dt_columns :: "column_definition list"
  dt_indexes :: "index_definition list"
  dt_estimated :: "int option"

record 'w data_port =
  dq_describe :: "object_ref \<Rightarrow> 'w \<Rightarrow> data_error + data_table"
  dq_columns :: "object_ref \<Rightarrow> 'w \<Rightarrow> data_error + column_definition list"
  dq_run :: "string \<Rightarrow> param list \<Rightarrow> 'w \<Rightarrow> 'w \<times> (data_error + data_row list)"
  dq_begin :: "'w \<Rightarrow> 'w \<times> (data_error + unit)"
  dq_commit :: "'w \<Rightarrow> 'w \<times> (data_error + unit)"
  dq_rollback :: "'w \<Rightarrow> 'w \<times> (data_error + unit)"

record mutation_result =
  mr_affected :: int
  mr_returning :: "data_row list option"

record data_page =
  dg_rows :: "data_row list"
  dg_columns :: "(column_definition \<times> bool) list"
  dg_total :: int
  dg_exact :: bool
  dg_hasMore :: bool
  dg_identity :: row_identity

text \<open>The next step of an \<open>async\<close> function: it runs with the result, an error ends the function.\<close>

definition continue :: "('w \<Rightarrow> 'w \<times> ('e + 'a)) \<Rightarrow> ('a \<Rightarrow> 'w \<Rightarrow> 'w \<times> ('e + 'b)) \<Rightarrow> 'w \<Rightarrow> 'w \<times> ('e + 'b)" where
  "continue m f w = (case m w of (w', Inl e) \<Rightarrow> (w', Inl e) | (w', Inr a) \<Rightarrow> f a w')"

definition finish_with :: "'e + 'a \<Rightarrow> 'w \<Rightarrow> 'w \<times> ('e + 'a)" where
  "finish_with r w = (w, r)"

text \<open>\<open>withTransaction\<close>: an error of the rollback is dropped. The PostgreSQL driver has the same in its \<open>begin\<close>.\<close>

definition transacted :: "'w data_port \<Rightarrow> ('w \<Rightarrow> 'w \<times> (data_error + 'a)) \<Rightarrow> 'w \<Rightarrow> 'w \<times> (data_error + 'a)" where
  "transacted p operation w =
     (case dq_begin p w of
        (w1, Inl e) \<Rightarrow> (w1, Inl e)
      | (w1, Inr _) \<Rightarrow>
          (case continue operation (\<lambda>a. continue (dq_commit p) (\<lambda>_. finish_with (Inr a))) w1 of
             (w2, Inl e) \<Rightarrow> (fst (dq_rollback p w2), Inl e)
           | (w2, Inr a) \<Rightarrow> (w2, Inr a)))"

section \<open>PostgreSQL\<close>

definition pg_columnKind :: "column_definition \<Rightarrow> column_kind" where
  "pg_columnKind c =
     (let type = js_lower (cd_dataType c) in
      if has_any [''char'', ''text'', ''uuid'', ''citext'', ''xml''] type then KindText
      else if has_any [''int'', ''numeric'', ''decimal'', ''real'', ''double'', ''float'', ''serial'', ''money'', ''bit''] type then KindNumber
      else if has_any [''date'', ''time'', ''timestamp'', ''interval''] type then KindDate
      else KindOther)"

definition pg_dialect :: data_dialect where
  "pg_dialect = \<lparr>dd_quote = quotePostgresqlIdentifier,
     dd_target = (\<lambda>ref. case ref_schema ref of Some s \<Rightarrow> s | None \<Rightarrow> []),
     dd_kind = pg_columnKind,
     dd_numbers = [''int'', ''numeric'', ''decimal'', ''real'', ''double'', ''float'', ''serial'', ''money''],
     dd_like = '' ILIKE ? ESCAPE '' @ [CHR 0x27, CHR 0x5C, CHR 0x27],
     dd_defaults = '' DEFAULT VALUES RETURNING *'', dd_returning = '' RETURNING *''\<rparr>"

definition pg_requireTable :: "object_ref \<Rightarrow> data_error + unit" where
  "pg_requireTable ref =
     (if (ref_type ref \<noteq> ''table'' \<and> ref_type ref \<noteq> ''view'') \<or> ref_schema ref = None \<or> ref_schema ref = Some [] \<or> ref_name ref = []
      then Inl (DataSyntax ''A schema qualified table or view is required'') else Inr ())"

definition pg_tableOnly :: "object_ref \<Rightarrow> data_error + unit" where
  "pg_tableOnly ref =
     and_then (pg_requireTable ref) (\<lambda>_.
       if ref_type ref \<noteq> ''table'' then Inl (DataSyntax ''Data mutations are only supported for tables'') else Inr ())"

definition buildPostgresqlInsertQuery ::
  "js_reader \<Rightarrow> object_ref \<Rightarrow> cells \<Rightarrow> column_definition list \<Rightarrow> data_error + bound_query" where
  "buildPostgresqlInsertQuery js ref vs cs = and_then (pg_tableOnly ref) (\<lambda>_. buildInsertQuery js pg_dialect ref vs cs)"

definition buildPostgresqlUpdateQuery ::
  "js_reader \<Rightarrow> object_ref \<Rightarrow> cells \<Rightarrow> cells \<Rightarrow> column_definition list \<Rightarrow> row_identity \<Rightarrow> data_error + bound_query" where
  "buildPostgresqlUpdateQuery js ref key vs cs ident =
     and_then (pg_tableOnly ref) (\<lambda>_. buildUpdateQuery js pg_dialect ref key vs cs ident)"

definition buildPostgresqlDeleteQuery ::
  "js_reader \<Rightarrow> object_ref \<Rightarrow> cells \<Rightarrow> column_definition list \<Rightarrow> row_identity \<Rightarrow> data_error + bound_query" where
  "buildPostgresqlDeleteQuery js ref key cs ident =
     and_then (pg_tableOnly ref) (\<lambda>_. buildDeleteQuery js pg_dialect ref key cs ident)"

definition buildPostgresqlDataQuery ::
  "page_request \<Rightarrow> column_definition list \<Rightarrow> string list \<Rightarrow> data_error + bound_query" where
  "buildPostgresqlDataQuery r cs primary =
     and_then (pg_requireTable (pr_table r)) (\<lambda>_. buildDataQuery pg_dialect r cs primary)"

text \<open>\<open>executeParameterized\<close> on the parts between the question marks.\<close>

definition pg_execute :: "'w data_port \<Rightarrow> bound_query \<Rightarrow> 'w \<Rightarrow> 'w \<times> (data_error + data_row list)" where
  "pg_execute p q w =
     (if length (js_split CHR ''?'' (bq_sql q)) \<noteq> length (bq_parameters q) + 1
      then (w, Inl (DataInternal ''PostgreSQL parameterized query has mismatched parts and values''))
      else dq_run p (bq_sql q) (bq_parameters q) w)"

text \<open>The description that a page starts from; a view has its columns only.\<close>

definition page_table :: "'w data_port \<Rightarrow> object_ref \<Rightarrow> 'w \<Rightarrow> data_error + data_table" where
  "page_table p ref w =
     (if ref_type ref = ''table'' then dq_describe p ref w
      else and_then (dq_columns p ref w) (\<lambda>cs. Inr \<lparr>dt_columns = cs, dt_indexes = [], dt_estimated = None\<rparr>))"

definition primary_columns :: "data_table \<Rightarrow> string list" where
  "primary_columns t = (case find id_primary (dt_indexes t) of Some i \<Rightarrow> id_columns i | None \<Rightarrow> [])"

definition page_columns :: "page_request \<Rightarrow> data_table \<Rightarrow> (column_definition \<times> bool) list" where
  "page_columns r t =
     (let cs = map (\<lambda>c. (c, cd_name c \<in> set (primary_columns t))) (dt_columns t) in
      case pr_columns r of Some (n # ns) \<Rightarrow> filter (\<lambda>(c, _). cd_name c \<in> set (n # ns)) cs | _ \<Rightarrow> cs)"

text \<open>\<open>Number\<close> of a value that the driver returned; None is NaN or a fraction.\<close>

definition number_of :: "js_reader \<Rightarrow> db_value \<Rightarrow> int option" where
  "number_of js v =
     (case v of
        VNull \<Rightarrow> Some 0 | VBigint n \<Rightarrow> Some n | VNumber s \<Rightarrow> js_number js s | VString s \<Rightarrow> js_number js s
      | VBoolean b \<Rightarrow> Some (if b then 1 else 0) | _ \<Rightarrow> None)"

definition EXACT_COUNT_THRESHOLD :: int where
  "EXACT_COUNT_THRESHOLD = 100000"

text \<open>The estimate, where there is one and it is to be used.\<close>

definition estimated_total :: "page_request \<Rightarrow> data_table \<Rightarrow> int option" where
  "estimated_total r t =
     (case dt_estimated t of
        Some n \<Rightarrow> if pr_total r = Some TotalEstimate \<or> (pr_total r \<noteq> Some TotalExact \<and> n > EXACT_COUNT_THRESHOLD)
                  then Some (max 0 n) else None
      | None \<Rightarrow> None)"

definition exact_total :: "js_reader \<Rightarrow> data_row list \<Rightarrow> int" where
  "exact_total js rs =
     (let v = (case rs of [] \<Rightarrow> VUndefined | r # _ \<Rightarrow> row_value r ''total'') in
      case (if v = VUndefined \<or> v = VNull then Some 0 else number_of js v) of
        Some n \<Rightarrow> if safe_integer n then n else 0
      | None \<Rightarrow> 0)"

definition pg_total ::
  "'w data_port \<Rightarrow> js_reader \<Rightarrow> page_request \<Rightarrow> data_table \<Rightarrow> 'w \<Rightarrow> 'w \<times> (data_error + int \<times> bool)" where
  "pg_total p js r t =
     (case estimated_total r t of
        Some n \<Rightarrow> finish_with (Inr (n, False))
      | None \<Rightarrow>
          continue (finish_with (and_then (pg_requireTable (pr_table r)) (\<lambda>_. countQuery pg_dialect r (dt_columns t) [])))
            (\<lambda>q. continue (pg_execute p q) (\<lambda>rs. finish_with (Inr (exact_total js rs, True)))))"

definition page_of :: "page_request \<Rightarrow> data_table \<Rightarrow> data_row list \<Rightarrow> int \<times> bool \<Rightarrow> data_page" where
  "page_of r t rs tot =
     \<lparr>dg_rows = take (nat (page_limit r)) rs, dg_columns = page_columns r t, dg_total = fst tot, dg_exact = snd tot,
      dg_hasMore = int (length rs) > page_limit r,
      dg_identity = resolveRowIdentity (pr_table r) (dt_columns t) (dt_indexes t)\<rparr>"

definition pg_page :: "'w data_port \<Rightarrow> js_reader \<Rightarrow> page_request \<Rightarrow> 'w \<Rightarrow> 'w \<times> (data_error + data_page)" where
  "pg_page p js r w =
     continue (finish_with (and_then (pg_requireTable (pr_table r)) (\<lambda>_. page_table p (pr_table r) w))) (\<lambda>t.
     continue (finish_with (buildPostgresqlDataQuery r (dt_columns t) (primary_columns t))) (\<lambda>q.
     continue (pg_execute p q) (\<lambda>rs.
     continue (pg_total p js r t) (\<lambda>tot. finish_with (Inr (page_of r t rs tot)))))) w"

definition pg_insert ::
  "'w data_port \<Rightarrow> js_reader \<Rightarrow> object_ref \<Rightarrow> cells \<Rightarrow> 'w \<Rightarrow> 'w \<times> (data_error + mutation_result)" where
  "pg_insert p js ref vs w =
     continue (finish_with (dq_describe p ref w)) (\<lambda>t.
     continue (finish_with (buildPostgresqlInsertQuery js ref vs (dt_columns t))) (\<lambda>q.
     transacted p (continue (pg_execute p q) (\<lambda>rs.
       finish_with (if length rs \<noteq> 1 then Inl (DataInternal ''Insert did not return exactly one row'')
         else Inr \<lparr>mr_affected = 1, mr_returning = Some rs\<rparr>))))) w"

definition row_gone :: data_error where
  "row_gone = DataConflict ''The row changed or no longer exists. Reload the data and try again.''"

definition rows_gone :: data_error where
  "rows_gone = DataConflict ''One or more selected rows changed or no longer exist. Reload the data and try again.''"

definition pg_update ::
  "'w data_port \<Rightarrow> js_reader \<Rightarrow> object_ref \<Rightarrow> cells \<Rightarrow> cells \<Rightarrow> 'w \<Rightarrow> 'w \<times> (data_error + mutation_result)" where
  "pg_update p js ref key vs w =
     continue (finish_with (dq_describe p ref w)) (\<lambda>t.
     let ident = resolveRowIdentity ref (dt_columns t) (dt_indexes t) in
     continue (finish_with (buildPostgresqlUpdateQuery js ref key vs (dt_columns t) ident)) (\<lambda>q.
     transacted p (continue (pg_execute p q) (\<lambda>rs.
       finish_with (if rs = [] then Inl row_gone
         else if length rs > 1 then Inl (DataInternal ''Row identity matched more than one row'')
         else Inr \<lparr>mr_affected = 1, mr_returning = Some rs\<rparr>))))) w"

definition pg_delete ::
  "'w data_port \<Rightarrow> js_reader \<Rightarrow> object_ref \<Rightarrow> cells \<Rightarrow> 'w \<Rightarrow> 'w \<times> (data_error + mutation_result)" where
  "pg_delete p js ref key w =
     continue (finish_with (dq_describe p ref w)) (\<lambda>t.
     let ident = resolveRowIdentity ref (dt_columns t) (dt_indexes t) in
     continue (finish_with (buildPostgresqlDeleteQuery js ref key (dt_columns t) ident)) (\<lambda>q.
     transacted p (continue (pg_execute p q) (\<lambda>rs.
       finish_with (if length rs \<noteq> 1 then Inl row_gone else Inr \<lparr>mr_affected = 1, mr_returning = None\<rparr>))))) w"

text \<open>The loop over the identities, each with a statement that must delete one row.\<close>

fun delete_each ::
  "(cells \<Rightarrow> 'w \<Rightarrow> 'w \<times> (data_error + bool)) \<Rightarrow> int \<Rightarrow> cells list \<Rightarrow> 'w \<Rightarrow> 'w \<times> (data_error + mutation_result)" where
  "delete_each one n [] = finish_with (Inr \<lparr>mr_affected = n, mr_returning = None\<rparr>)"
| "delete_each one n (k # ks) =
     continue (one k) (\<lambda>single. if single then delete_each one (n + 1) ks else finish_with (Inl rows_gone))"

definition pg_delete_one ::
  "'w data_port \<Rightarrow> js_reader \<Rightarrow> object_ref \<Rightarrow> data_table \<Rightarrow> cells \<Rightarrow> 'w \<Rightarrow> 'w \<times> (data_error + bool)" where
  "pg_delete_one p js ref t key =
     continue (finish_with (buildPostgresqlDeleteQuery js ref key (dt_columns t)
         (resolveRowIdentity ref (dt_columns t) (dt_indexes t))))
       (\<lambda>q. continue (pg_execute p q) (\<lambda>rs. finish_with (Inr (length rs = 1))))"

definition pg_bulkDelete ::
  "'w data_port \<Rightarrow> js_reader \<Rightarrow> object_ref \<Rightarrow> cells list \<Rightarrow> 'w \<Rightarrow> 'w \<times> (data_error + mutation_result)" where
  "pg_bulkDelete p js ref keys w =
     continue (finish_with (dq_describe p ref w)) (\<lambda>t.
       transacted p (delete_each (pg_delete_one p js ref t) 0 keys)) w"

section \<open>MySQL\<close>

definition my_columnKind :: "column_definition \<Rightarrow> column_kind" where
  "my_columnKind c =
     (let type = js_lower (cd_dataType c) in
      if has_any [''char'', ''text'', ''enum'', ''set'', ''json'', ''uuid''] type then KindText
      else if has_any [''int'', ''numeric'', ''decimal'', ''real'', ''double'', ''float'', ''serial'', ''bit'', ''year''] type then KindNumber
      else if has_any [''date'', ''time'', ''timestamp''] type then KindDate
      else KindOther)"

definition my_dialect :: data_dialect where
  "my_dialect = \<lparr>dd_quote = quoteMysqlIdentifier, dd_target = ref_database,
     dd_kind = my_columnKind,
     dd_numbers = [''int'', ''numeric'', ''decimal'', ''real'', ''double'', ''float'', ''serial'', ''money'', ''year''],
     dd_like = '' LIKE ? ESCAPE '' @ [CHR 0x27, CHR 0x5C, CHR 0x5C, CHR 0x27],
     dd_defaults = '' () VALUES ()'', dd_returning = []\<rparr>"

definition my_tableOnly :: "object_ref \<Rightarrow> data_error + unit" where
  "my_tableOnly ref =
     (if ref_type ref \<noteq> ''table'' \<or> ref_database ref = [] \<or> ref_name ref = []
      then Inl (DataSyntax ''Data mutations are only supported for tables'') else Inr ())"

definition buildMysqlInsertQuery ::
  "js_reader \<Rightarrow> object_ref \<Rightarrow> cells \<Rightarrow> column_definition list \<Rightarrow> data_error + bound_query" where
  "buildMysqlInsertQuery js ref vs cs = and_then (my_tableOnly ref) (\<lambda>_. buildInsertQuery js my_dialect ref vs cs)"

definition buildMysqlUpdateQuery ::
  "js_reader \<Rightarrow> object_ref \<Rightarrow> cells \<Rightarrow> cells \<Rightarrow> column_definition list \<Rightarrow> row_identity \<Rightarrow> data_error + bound_query" where
  "buildMysqlUpdateQuery js ref key vs cs ident =
     and_then (my_tableOnly ref) (\<lambda>_. buildUpdateQuery js my_dialect ref key vs cs ident)"

definition buildMysqlDeleteQuery ::
  "js_reader \<Rightarrow> object_ref \<Rightarrow> cells \<Rightarrow> column_definition list \<Rightarrow> row_identity \<Rightarrow> data_error + bound_query" where
  "buildMysqlDeleteQuery js ref key cs ident =
     and_then (my_tableOnly ref) (\<lambda>_. buildDeleteQuery js my_dialect ref key cs ident)"

definition my_readable :: "object_ref \<Rightarrow> data_error + unit" where
  "my_readable ref =
     (if (ref_type ref \<noteq> ''table'' \<and> ref_type ref \<noteq> ''view'') \<or> ref_name ref = []
      then Inl (DataSyntax ''A table or view is required'') else Inr ())"

definition buildMysqlDataQuery ::
  "page_request \<Rightarrow> column_definition list \<Rightarrow> string list \<Rightarrow> data_error + bound_query" where
  "buildMysqlDataQuery r cs primary =
     and_then (my_readable (pr_table r)) (\<lambda>_. buildDataQuery my_dialect r cs primary)"

definition identityLookupQuery ::
  "js_reader \<Rightarrow> object_ref \<Rightarrow> cells \<Rightarrow> column_definition list \<Rightarrow> row_identity \<Rightarrow> data_error + bound_query" where
  "identityLookupQuery js ref key cs ident =
     and_then (identityWhere js my_dialect key ident cs) (\<lambda>(whr, ps).
     and_then (table_name my_dialect ref) (\<lambda>table.
       Inr \<lparr>bq_sql = ''SELECT * FROM '' @ table @ '' WHERE '' @ whr, bq_parameters = ps\<rparr>))"

text \<open>The auto-increment column of a primary key of one column, if the request does not set it.\<close>

definition generated_key :: "cells \<Rightarrow> column_definition list \<Rightarrow> index_definition list \<Rightarrow> string option" where
  "generated_key vs cs is =
     (case find (\<lambda>i. id_primary i \<and> length (id_columns i) = 1) is of
        None \<Rightarrow> None
      | Some i \<Rightarrow>
          let n = hd (id_columns i) in
          (case find (\<lambda>c. cd_name c = n) cs of
             Some c \<Rightarrow> if n \<noteq> [] \<and> cd_identity c = Some True \<and> map_of vs n = None then Some n else None
           | None \<Rightarrow> None))"

definition insertedRowQuery ::
  "js_reader \<Rightarrow> object_ref \<Rightarrow> cells \<Rightarrow> column_definition list \<Rightarrow> index_definition list \<Rightarrow> data_error + bound_query" where
  "insertedRowQuery js ref vs cs is =
     and_then (table_name my_dialect ref) (\<lambda>table.
       case generated_key vs cs is of
         Some n \<Rightarrow>
           and_then (quoted_name my_dialect n) (\<lambda>q.
             Inr \<lparr>bq_sql = ''SELECT * FROM '' @ table @ '' WHERE '' @ q @ '' = LAST_INSERT_ID()'', bq_parameters = []\<rparr>)
       | None \<Rightarrow>
           and_then (mutationValues js my_dialect vs cs not_generated) (\<lambda>(selected, ps).
           and_then (map_throw (\<lambda>c. map_sum id (\<lambda>q. q @ '' = ?'') (quoted_name my_dialect (cd_name c))) selected) (\<lambda>qs.
             Inr \<lparr>bq_sql = ''SELECT * FROM '' @ table @ '' WHERE '' @ join '' AND '' qs, bq_parameters = ps\<rparr>)))"

definition my_execute :: "'w data_port \<Rightarrow> bound_query \<Rightarrow> 'w \<Rightarrow> 'w \<times> (data_error + data_row list)" where
  "my_execute p q = dq_run p (bq_sql q) (bq_parameters q)"

text \<open>A statement and \<open>ROW_COUNT\<close>, read with \<open>Number\<close>.\<close>

definition row_count_query :: bound_query where
  "row_count_query = \<lparr>bq_sql = ''SELECT ROW_COUNT() AS affected_rows'', bq_parameters = []\<rparr>"

definition affected_rows :: "js_reader \<Rightarrow> data_row list \<Rightarrow> int option" where
  "affected_rows js rs = (case rs of [] \<Rightarrow> None | r # _ \<Rightarrow> number_of js (row_value r ''affected_rows''))"

definition my_counted ::
  "'w data_port \<Rightarrow> js_reader \<Rightarrow> bound_query \<Rightarrow> 'w \<Rightarrow> 'w \<times> (data_error + int option)" where
  "my_counted p js q =
     continue (my_execute p q) (\<lambda>_. continue (my_execute p row_count_query) (\<lambda>rs. finish_with (Inr (affected_rows js rs))))"

definition my_returned :: "int \<Rightarrow> data_row list \<Rightarrow> mutation_result" where
  "my_returned n rs = \<lparr>mr_affected = n, mr_returning = (if length rs = 1 then Some rs else None)\<rparr>"

definition my_total ::
  "'w data_port \<Rightarrow> js_reader \<Rightarrow> page_request \<Rightarrow> data_table \<Rightarrow> 'w \<Rightarrow> 'w \<times> (data_error + int \<times> bool)" where
  "my_total p js r t =
     (case estimated_total r t of
        Some n \<Rightarrow> finish_with (Inr (n, False))
      | None \<Rightarrow>
          continue (finish_with (and_then (my_readable (pr_table r)) (\<lambda>_. countQuery my_dialect r (dt_columns t) (primary_columns t))))
            (\<lambda>q. continue (my_execute p q) (\<lambda>rs. finish_with (Inr (exact_total js rs, True)))))"

definition my_page :: "'w data_port \<Rightarrow> js_reader \<Rightarrow> page_request \<Rightarrow> 'w \<Rightarrow> 'w \<times> (data_error + data_page)" where
  "my_page p js r w =
     continue (finish_with (if ref_type (pr_table r) \<noteq> ''table'' \<and> ref_type (pr_table r) \<noteq> ''view''
         then Inl (DataSyntax ''A table or view is required'') else page_table p (pr_table r) w)) (\<lambda>t.
     continue (finish_with (buildMysqlDataQuery r (dt_columns t) (primary_columns t))) (\<lambda>q.
     continue (my_execute p q) (\<lambda>rs.
     continue (my_total p js r t) (\<lambda>tot. finish_with (Inr (page_of r t rs tot)))))) w"

definition my_insert ::
  "'w data_port \<Rightarrow> js_reader \<Rightarrow> object_ref \<Rightarrow> cells \<Rightarrow> 'w \<Rightarrow> 'w \<times> (data_error + mutation_result)" where
  "my_insert p js ref vs w =
     continue (finish_with (dq_describe p ref w)) (\<lambda>t.
     continue (finish_with (buildMysqlInsertQuery js ref vs (dt_columns t))) (\<lambda>q.
     transacted p (continue (my_counted p js q) (\<lambda>n.
       if n \<noteq> Some 1 then finish_with (Inl (DataInternal ''Insert did not affect exactly one row''))
       else continue (finish_with (insertedRowQuery js ref vs (dt_columns t) (dt_indexes t))) (\<lambda>look.
         continue (my_execute p look) (\<lambda>rs. finish_with (Inr (my_returned 1 rs)))))))) w"

text \<open>
  MySQL counts a row that had the values already as not affected, so with no row affected the identity
  is looked up.
\<close>

definition my_update ::
  "'w data_port \<Rightarrow> js_reader \<Rightarrow> object_ref \<Rightarrow> cells \<Rightarrow> cells \<Rightarrow> 'w \<Rightarrow> 'w \<times> (data_error + mutation_result)" where
  "my_update p js ref key vs w =
     continue (finish_with (dq_describe p ref w)) (\<lambda>t.
     let ident = resolveRowIdentity ref (dt_columns t) (dt_indexes t) in
     continue (finish_with (buildMysqlUpdateQuery js ref key vs (dt_columns t) ident)) (\<lambda>q.
     transacted p (
       continue (my_counted p js q) (\<lambda>n.
       continue (if n = Some 0
         then continue (finish_with (identityLookupQuery js ref key (dt_columns t) ident)) (\<lambda>look.
           continue (my_execute p look) (\<lambda>rs. finish_with (if rs = [] then Inl row_gone else Inr (Some 1))))
         else finish_with (Inr n)) (\<lambda>m.
       if m \<noteq> Some 1 then finish_with (Inl (DataInternal ''Row identity matched more than one row''))
       else continue (finish_with (identityLookupQuery js ref key (dt_columns t) ident)) (\<lambda>look.
         continue (my_execute p look) (\<lambda>rs. finish_with (Inr (my_returned 1 rs))))))))) w"

definition my_delete ::
  "'w data_port \<Rightarrow> js_reader \<Rightarrow> object_ref \<Rightarrow> cells \<Rightarrow> 'w \<Rightarrow> 'w \<times> (data_error + mutation_result)" where
  "my_delete p js ref key w =
     continue (finish_with (dq_describe p ref w)) (\<lambda>t.
     let ident = resolveRowIdentity ref (dt_columns t) (dt_indexes t) in
     continue (finish_with (buildMysqlDeleteQuery js ref key (dt_columns t) ident)) (\<lambda>q.
     transacted p (continue (my_counted p js q) (\<lambda>n.
       finish_with (if n \<noteq> Some 1 then Inl row_gone else Inr \<lparr>mr_affected = 1, mr_returning = None\<rparr>))))) w"

definition my_delete_one ::
  "'w data_port \<Rightarrow> js_reader \<Rightarrow> object_ref \<Rightarrow> data_table \<Rightarrow> cells \<Rightarrow> 'w \<Rightarrow> 'w \<times> (data_error + bool)" where
  "my_delete_one p js ref t key =
     continue (finish_with (buildMysqlDeleteQuery js ref key (dt_columns t)
         (resolveRowIdentity ref (dt_columns t) (dt_indexes t))))
       (\<lambda>q. continue (my_counted p js q) (\<lambda>n. finish_with (Inr (n = Some 1))))"

definition my_bulkDelete ::
  "'w data_port \<Rightarrow> js_reader \<Rightarrow> object_ref \<Rightarrow> cells list \<Rightarrow> 'w \<Rightarrow> 'w \<times> (data_error + mutation_result)" where
  "my_bulkDelete p js ref keys w =
     continue (finish_with (dq_describe p ref w)) (\<lambda>t.
       transacted p (delete_each (my_delete_one p js ref t) 0 keys)) w"

end
