(* ===== verification/RowRequests.thy ===== *)
theory RowRequests
  imports TableRequests RowEngines
begin

text \<open>
  The bodies of the data browser's requests: the parsers of \<open>apps/server/src/data-browser/routes.ts\<close>, from
  JSON to the requests of \<open>RowQuery\<close>. A result \<open>null\<close> of a parser is None. Requests are read back from
  their JSON form, and whatever is accepted is within the limits of the adapters.
\<close>

section \<open>Reading\<close>

definition API_OPERATORS :: "(string \<times> filter_operator) list" where
  "API_OPERATORS = [(''='', OpEq), (''!='', OpNeq), (''>'', OpGt), (''>='', OpGte), (''<'', OpLt), (''<='', OpLte),
     (''contains'', OpContains), (''startsWith'', OpStartsWith), (''endsWith'', OpEndsWith),
     (''is null'', OpIsNull), (''is not null'', OpIsNotNull), (''in'', OpIn)]"

definition parse_operator :: "json option \<Rightarrow> filter_operator option" where
  "parse_operator v = Option.bind (as_string v) (map_of API_OPERATORS)"

definition parse_ref :: "json option \<Rightarrow> object_ref option" where
  "parse_ref v =
     Option.bind (as_object v) (\<lambda>fs. require (allowed fs [''database'', ''schema'', ''name'', ''type''])
       (Option.bind (as_string (map_of fs ''database'')) (\<lambda>d.
        Option.bind (as_string (map_of fs ''name'')) (\<lambda>n.
        Option.bind (parse_schema (map_of fs ''schema'')) (\<lambda>s.
        Option.bind (as_string (map_of fs ''type'')) (\<lambda>t. require (t = ''table'' \<or> t = ''view'')
          (Some \<lparr>ref_database = d, ref_schema = s, ref_name = n, ref_type = t\<rparr>)))))))"

definition parse_filter :: "json option \<Rightarrow> data_filter option" where
  "parse_filter v =
     Option.bind (as_object v) (\<lambda>fs. require (allowed fs [''column'', ''operator'', ''value'', ''values''])
       (Option.bind (as_string (map_of fs ''column'')) (\<lambda>c.
        Option.bind (parse_operator (map_of fs ''operator'')) (\<lambda>oper.
          if oper = OpIsNull \<or> oper = OpIsNotNull then
            Some \<lparr>df_column = c, df_operator = oper, df_value = None, df_values = None\<rparr>
          else if oper = OpIn then
            Option.bind (as_array (map_of fs ''values'')) (\<lambda>vs. require (vs \<noteq> [])
              (Some \<lparr>df_column = c, df_operator = oper, df_value = None, df_values = Some vs\<rparr>))
          else Option.bind (map_of fs ''value'') (\<lambda>x.
            Some \<lparr>df_column = c, df_operator = oper, df_value = Some x, df_values = None\<rparr>)))))"

definition parse_direction :: "json option \<Rightarrow> direction option" where
  "parse_direction v =
     (if v = Some (JStr ''asc'') then Some Asc else if v = Some (JStr ''desc'') then Some Desc else None)"

definition parse_sort :: "json option \<Rightarrow> (string \<times> direction) option" where
  "parse_sort v =
     Option.bind (as_object v) (\<lambda>fs. require (allowed fs [''column'', ''direction''])
       (Option.bind (as_string (map_of fs ''column'')) (\<lambda>c.
        Option.bind (parse_direction (map_of fs ''direction'')) (\<lambda>d. Some (c, d)))))"

definition as_count :: "json option \<Rightarrow> int option" where
  "as_count v = Option.bind (as_integer v) (\<lambda>n. require (n \<ge> 0) (Some n))"

definition as_limit :: "json option \<Rightarrow> int option" where
  "as_limit v = Option.bind (as_count v) (\<lambda>n. require (1 \<le> n \<and> n \<le> 500) (Some n))"

text \<open>The window of a page that is missing is the first one of 100 rows.\<close>

definition parse_page :: "json option \<Rightarrow> (int \<times> int) option" where
  "parse_page v =
     (case v of
        None \<Rightarrow> Some (100, 0)
      | Some _ \<Rightarrow>
          Option.bind (as_object v) (\<lambda>fs. require (allowed fs [''limit'', ''offset''])
            (Option.bind (maybe as_limit (map_of fs ''limit'')) (\<lambda>l.
             Option.bind (maybe as_count (map_of fs ''offset'')) (\<lambda>off.
               Some (case l of Some n \<Rightarrow> n | None \<Rightarrow> 100, case off of Some n \<Rightarrow> n | None \<Rightarrow> 0))))))"

text \<open>A list of at most \<open>n\<close> elements.\<close>

definition at_most :: "nat \<Rightarrow> (json option \<Rightarrow> 'a option) \<Rightarrow> json option \<Rightarrow> 'a list option" where
  "at_most n f v = Option.bind (parse_list f v) (\<lambda>xs. require (length xs \<le> n) (Some xs))"

definition as_column :: "json option \<Rightarrow> string option" where
  "as_column v = Option.bind (as_string v) (\<lambda>s. require (s \<noteq> []) (Some s))"

definition as_columns :: "json option \<Rightarrow> string list option" where
  "as_columns v = Option.bind (at_most 200 as_column v) (\<lambda>cs. require (cs \<noteq> []) (Some cs))"

definition as_total :: "json option \<Rightarrow> total_mode option" where
  "as_total v = Option.bind (as_string v)
     (map_of [(''auto'', TotalAuto), (''exact'', TotalExact), (''estimate'', TotalEstimate)])"

text \<open>The connection and the request; the connection's name is not empty.\<close>

definition requestInput :: "json \<Rightarrow> (string \<times> page_request) option" where
  "requestInput v =
     Option.bind (as_object (Some v)) (\<lambda>fs.
     require (allowed fs [''connectionId'', ''ref'', ''page'', ''sort'', ''filters'', ''search'', ''columns'', ''total''])
     (Option.bind (as_column (map_of fs ''connectionId'')) (\<lambda>i.
      Option.bind (parse_ref (map_of fs ''ref'')) (\<lambda>ref.
      Option.bind (parse_page (map_of fs ''page'')) (\<lambda>(l, off).
      Option.bind (maybe (at_most 16 parse_sort) (map_of fs ''sort'')) (\<lambda>ss.
      Option.bind (maybe (at_most 32 parse_filter) (map_of fs ''filters'')) (\<lambda>ps.
      Option.bind (maybe as_columns (map_of fs ''columns'')) (\<lambda>cs.
      Option.bind (maybe as_string (map_of fs ''search'')) (\<lambda>se.
      Option.bind (maybe as_total (map_of fs ''total'')) (\<lambda>t.
        Some (i, \<lparr>pr_table = ref, pr_limit = Some l, pr_offset = Some off, pr_columns = cs, pr_filters = ps,
          pr_search = se, pr_sort = ss, pr_total = t\<rparr>)))))))))))"

section \<open>Mutations\<close>

definition queryCell :: "json option \<Rightarrow> query_cell option" where
  "queryCell v =
     Option.bind (as_object v) (\<lambda>fs. require (allowed fs [''type'', ''value'', ''encoding''])
       (Option.bind (as_string (map_of fs ''type'')) (\<lambda>t.
        let plain = allowed fs [''type'', ''value'']; val = map_of fs ''value''; s = as_string val in
          if t = ''null'' \<and> plain \<and> val = Some JNull then Some CNull
          else if t = ''string'' \<and> plain then map_option CString s
          else if t = ''number'' \<and> plain then Option.bind s (\<lambda>n. require (n \<noteq> []) (Some (CNumber n)))
          else if t = ''boolean'' \<and> plain then map_option CBoolean (as_bool val)
          else if t = ''date'' \<and> plain then map_option CDate s
          else if t = ''json'' \<and> plain then map_option CJson s
          else if t = ''bytes'' \<and> map_of fs ''encoding'' = Some (JStr ''base64'') then map_option CBytes s
          else None)))"

definition parse_cells :: "json option \<Rightarrow> cells option" where
  "parse_cells v =
     Option.bind (as_object v) (\<lambda>fs.
       all_some (map (\<lambda>(n, c). require (n \<noteq> []) (map_option (Pair n) (queryCell (Some c)))) fs))"

datatype mutation_kind = KindInsert | KindUpdate | KindDelete | KindBulkDelete

datatype mutation_request = InsertRow cells | UpdateRow cells cells | DeleteRow cells | DeleteRows "cells list"

fun mutation_keys :: "mutation_kind \<Rightarrow> string list" where
  "mutation_keys KindInsert = [''connectionId'', ''ref'', ''values'']"
| "mutation_keys KindUpdate = [''connectionId'', ''ref'', ''identity'', ''changes'']"
| "mutation_keys KindDelete = [''connectionId'', ''ref'', ''identity'']"
| "mutation_keys KindBulkDelete = [''connectionId'', ''ref'', ''identities'']"

fun parse_mutation :: "mutation_kind \<Rightarrow> (string, json) jsmap \<Rightarrow> mutation_request option" where
  "parse_mutation KindInsert fs = map_option InsertRow (parse_cells (map_of fs ''values''))"
| "parse_mutation KindUpdate fs =
     Option.bind (parse_cells (map_of fs ''identity'')) (\<lambda>k.
       map_option (UpdateRow k) (parse_cells (map_of fs ''changes'')))"
| "parse_mutation KindDelete fs = map_option DeleteRow (parse_cells (map_of fs ''identity''))"
| "parse_mutation KindBulkDelete fs =
     Option.bind (at_most 500 parse_cells (map_of fs ''identities'')) (\<lambda>ks.
       require (ks \<noteq> []) (Some (DeleteRows ks)))"

definition mutationInput :: "json \<Rightarrow> mutation_kind \<Rightarrow> (string \<times> object_ref \<times> mutation_request) option" where
  "mutationInput v kind =
     Option.bind (as_object (Some v)) (\<lambda>fs. require (allowed fs (mutation_keys kind))
       (Option.bind (as_column (map_of fs ''connectionId'')) (\<lambda>i.
        Option.bind (parse_ref (map_of fs ''ref'')) (\<lambda>ref. require (table_ref ref)
          (Option.bind (parse_mutation kind fs) (\<lambda>r. Some (i, ref, r)))))))"

section \<open>What is accepted\<close>

definition filter_ok :: "data_filter \<Rightarrow> bool" where
  "filter_ok f \<longleftrightarrow>
     (if df_operator f = OpIsNull \<or> df_operator f = OpIsNotNull then df_value f = None \<and> df_values f = None
      else if df_operator f = OpIn then df_value f = None \<and> df_values f \<noteq> None \<and> df_values f \<noteq> Some []
      else df_value f \<noteq> None \<and> df_values f = None)"

definition readable_ref :: "object_ref \<Rightarrow> bool" where
  "readable_ref r \<longleftrightarrow> ref_type r = ''table'' \<or> ref_type r = ''view''"

definition opt_all :: "('a \<Rightarrow> bool) \<Rightarrow> 'a option \<Rightarrow> bool" where
  "opt_all P x = (case x of Some a \<Rightarrow> P a | None \<Rightarrow> True)"

definition columns_ok :: "string list \<Rightarrow> bool" where
  "columns_ok cs \<longleftrightarrow> cs \<noteq> [] \<and> length cs \<le> 200 \<and> list_all (\<lambda>c. c \<noteq> []) cs"

definition page_request_ok :: "page_request \<Rightarrow> bool" where
  "page_request_ok r \<longleftrightarrow> readable_ref (pr_table r)
     \<and> (\<exists>l off. pr_limit r = Some l \<and> pr_offset r = Some off \<and> 1 \<le> l \<and> l \<le> 500 \<and> 0 \<le> off \<and> safe_integer off)
     \<and> opt_all (\<lambda>ss. length ss \<le> 16) (pr_sort r) \<and> opt_all (\<lambda>fs. length fs \<le> 32 \<and> list_all filter_ok fs) (pr_filters r)
     \<and> opt_all columns_ok (pr_columns r)"

definition cells_ok :: "cells \<Rightarrow> bool" where
  "cells_ok cs \<longleftrightarrow> list_all (\<lambda>(n, c). n \<noteq> [] \<and> c \<noteq> CNumber []) cs"

fun mutation_ok :: "mutation_kind \<Rightarrow> mutation_request \<Rightarrow> bool" where
  "mutation_ok KindInsert (InsertRow vs) \<longleftrightarrow> cells_ok vs"
| "mutation_ok KindUpdate (UpdateRow k vs) \<longleftrightarrow> cells_ok k \<and> cells_ok vs"
| "mutation_ok KindDelete (DeleteRow k) \<longleftrightarrow> cells_ok k"
| "mutation_ok KindBulkDelete (DeleteRows ks) \<longleftrightarrow> ks \<noteq> [] \<and> length ks \<le> 500 \<and> list_all cells_ok ks"
| "mutation_ok _ _ \<longleftrightarrow> False"

lemma maybe_all: "maybe f v = Some x \<Longrightarrow> (\<And>w a. f w = Some a \<Longrightarrow> P a) \<Longrightarrow> opt_all P x"
  by (auto simp: maybe_def opt_all_def split: option.splits)

lemma parsed_filter: "parse_filter v = Some f \<Longrightarrow> filter_ok f"
  unfolding parse_filter_def accepted by (auto simp: filter_ok_def accepted split: if_splits)

lemma parse_list_all: "parse_list f v = Some xs \<Longrightarrow> (\<And>w a. f w = Some a \<Longrightarrow> P a) \<Longrightarrow> list_all P xs"
  unfolding parse_list_def accepted by (auto intro: all_some_all)

lemma at_most_all: "at_most n f v = Some xs \<Longrightarrow> (\<And>w a. f w = Some a \<Longrightarrow> P a) \<Longrightarrow> length xs \<le> n \<and> list_all P xs"
  unfolding at_most_def accepted by (auto intro: parse_list_all)

lemma parsed_columns: "as_columns v = Some cs \<Longrightarrow> columns_ok cs"
  unfolding as_columns_def accepted columns_ok_def
  by (auto dest!: at_most_all [where P = "\<lambda>c. c \<noteq> []"] simp: as_column_def accepted)

lemma counted: "as_count v = Some n \<Longrightarrow> 0 \<le> n \<and> safe_integer n"
  by (auto simp: as_count_def as_integer_def accepted split: option.splits json.splits if_splits)

lemma limited: "as_limit v = Some n \<Longrightarrow> 1 \<le> n \<and> n \<le> 500"
  by (auto simp: as_limit_def accepted)

lemma parsed_page:
  assumes "parse_page v = Some (l, off)"
  shows "1 \<le> l \<and> l \<le> 500 \<and> 0 \<le> off \<and> safe_integer off"
proof (cases v)
  case None
  then show ?thesis using assms by (simp add: parse_page_def safe_integer_def)
next
  case (Some j)
  then obtain fs m k where m: "maybe as_limit (map_of fs ''limit'') = Some m" "l = (case m of Some n \<Rightarrow> n | None \<Rightarrow> 100)"
    and k: "maybe as_count (map_of fs ''offset'') = Some k" "off = (case k of Some n \<Rightarrow> n | None \<Rightarrow> 0)"
    using assms by (auto simp: parse_page_def accepted)
  have "opt_all (\<lambda>n. 1 \<le> n \<and> n \<le> 500) m" by (rule maybe_all [OF m(1)]) (rule limited)
  moreover have "opt_all (\<lambda>n. 0 \<le> n \<and> safe_integer n) k" by (rule maybe_all [OF k(1)]) (rule counted)
  ultimately show ?thesis unfolding m(2) k(2) by (cases m; cases k) (simp_all add: opt_all_def safe_integer_def)
qed

lemma parsed_readable: "parse_ref v = Some r \<Longrightarrow> readable_ref r"
  unfolding parse_ref_def accepted by (auto simp: readable_ref_def)

lemma parsed_request:
  assumes "requestInput v = Some (i, r)"
  shows "i \<noteq> [] \<and> page_request_ok r"
proof -
  obtain fs l off ss ps cs where i: "as_column (map_of fs ''connectionId'') = Some i"
    and ref: "parse_ref (map_of fs ''ref'') = Some (pr_table r)"
    and page: "parse_page (map_of fs ''page'') = Some (l, off)" "pr_limit r = Some l" "pr_offset r = Some off"
    and ss: "maybe (at_most 16 parse_sort) (map_of fs ''sort'') = Some ss" "pr_sort r = ss"
    and ps: "maybe (at_most 32 parse_filter) (map_of fs ''filters'') = Some ps" "pr_filters r = ps"
    and cs: "maybe as_columns (map_of fs ''columns'') = Some cs" "pr_columns r = cs"
    using assms unfolding requestInput_def accepted by (auto simp: accepted)
  have "opt_all (\<lambda>ss. length ss \<le> 16) (pr_sort r)"
    unfolding ss(2) by (rule maybe_all [OF ss(1)]) (simp add: at_most_def accepted)
  moreover have "opt_all (\<lambda>fs. length fs \<le> 32 \<and> list_all filter_ok fs) (pr_filters r)"
    unfolding ps(2) by (rule maybe_all [OF ps(1)]) (erule at_most_all, rule parsed_filter)
  moreover have "opt_all columns_ok (pr_columns r)"
    unfolding cs(2) by (rule maybe_all [OF cs(1)]) (rule parsed_columns)
  moreover have "i \<noteq> []" using i by (auto simp: as_column_def accepted)
  ultimately show ?thesis
    using parsed_readable [OF ref] parsed_page [OF page(1)] page(2,3) unfolding page_request_ok_def by blast
qed

lemma parsed_cell: "queryCell v = Some c \<Longrightarrow> c \<noteq> CNumber []"
  unfolding queryCell_def accepted Let_def by (auto simp: accepted split: if_splits)

lemma parsed_cells: "parse_cells v = Some cs \<Longrightarrow> cells_ok cs"
  unfolding parse_cells_def accepted cells_ok_def
  by (auto intro!: all_some_all [where P = "\<lambda>(n, c). n \<noteq> [] \<and> c \<noteq> CNumber []"] simp: accepted dest: parsed_cell)

lemma parsed_mutation: "parse_mutation kind fs = Some r \<Longrightarrow> mutation_ok kind r"
  by (cases kind) (auto simp: accepted dest: parsed_cells at_most_all [where P = cells_ok] intro: parsed_cells)

section \<open>The JSON form of a request\<close>

definition json_operator :: "filter_operator \<Rightarrow> json" where
  "json_operator oper = JStr (the (map_of (map (\<lambda>(s, oper). (oper, s)) API_OPERATORS) oper))"

definition json_filter :: "data_filter \<Rightarrow> json" where
  "json_filter f = JObj (TableRequests.fields [(''column'', Some (JStr (df_column f))), (''operator'', Some (json_operator (df_operator f))),
     (''value'', df_value f), (''values'', map_option JArr (df_values f))])"

definition json_sort :: "string \<times> direction \<Rightarrow> json" where
  "json_sort s = JObj (TableRequests.fields [(''column'', Some (JStr (fst s))),
     (''direction'', Some (JStr (case snd s of Asc \<Rightarrow> ''asc'' | Desc \<Rightarrow> ''desc'')))])"

fun json_total :: "total_mode \<Rightarrow> json" where
  "json_total TotalAuto = JStr ''auto''"
| "json_total TotalExact = JStr ''exact''"
| "json_total TotalEstimate = JStr ''estimate''"

definition json_request :: "string \<Rightarrow> page_request \<Rightarrow> json" where
  "json_request i r = JObj (TableRequests.fields [(''connectionId'', Some (JStr i)), (''ref'', Some (json_ref (pr_table r))),
     (''page'', Some (JObj (TableRequests.fields [(''limit'', map_option JNum (pr_limit r)), (''offset'', map_option JNum (pr_offset r))]))),
     (''sort'', map_option (\<lambda>ss. JArr (map json_sort ss)) (pr_sort r)),
     (''filters'', map_option (\<lambda>fs. JArr (map json_filter fs)) (pr_filters r)),
     (''search'', map_option JStr (pr_search r)), (''columns'', map_option json_strings (pr_columns r)),
     (''total'', map_option json_total (pr_total r))])"

fun cell_type :: "query_cell \<Rightarrow> string \<times> json" where
  "cell_type CNull = (''null'', JNull)"
| "cell_type (CString s) = (''string'', JStr s)"
| "cell_type (CNumber s) = (''number'', JStr s)"
| "cell_type (CBoolean b) = (''boolean'', JBool b)"
| "cell_type (CDate s) = (''date'', JStr s)"
| "cell_type (CBytes s) = (''bytes'', JStr s)"
| "cell_type (CJson s) = (''json'', JStr s)"

definition json_cell :: "query_cell \<Rightarrow> json" where
  "json_cell c = JObj (TableRequests.fields [(''type'', Some (JStr (fst (cell_type c)))), (''value'', Some (snd (cell_type c))),
     (''encoding'', if fst (cell_type c) = ''bytes'' then Some (JStr ''base64'') else None)])"

definition json_cells :: "cells \<Rightarrow> json" where
  "json_cells cs = JObj (map (\<lambda>(n, c). (n, json_cell c)) cs)"

fun json_mutation_fields :: "mutation_request \<Rightarrow> (string \<times> json option) list" where
  "json_mutation_fields (InsertRow vs) = [(''values'', Some (json_cells vs))]"
| "json_mutation_fields (UpdateRow k vs) = [(''identity'', Some (json_cells k)), (''changes'', Some (json_cells vs))]"
| "json_mutation_fields (DeleteRow k) = [(''identity'', Some (json_cells k))]"
| "json_mutation_fields (DeleteRows ks) = [(''identities'', Some (JArr (map json_cells ks)))]"

definition json_mutation :: "string \<Rightarrow> object_ref \<Rightarrow> mutation_request \<Rightarrow> json" where
  "json_mutation i ref r = JObj (TableRequests.fields ([(''connectionId'', Some (JStr i)), (''ref'', Some (json_ref ref))] @ json_mutation_fields r))"

subsection \<open>Reading it back\<close>

lemma operator_reads [reads]: "parse_operator (Some (json_operator oper)) = Some oper"
  by (cases oper) (simp_all add: parse_operator_def json_operator_def API_OPERATORS_def reads)

lemma filter_reads: "filter_ok f \<Longrightarrow> parse_filter (Some (json_filter f)) = Some f"
  unfolding parse_filter_def json_filter_def filter_ok_def
  by (cases f) (auto simp: reads require_def split: if_splits)

lemma sort_reads: "parse_sort (Some (json_sort s)) = Some s"
  unfolding parse_sort_def json_sort_def
  by (cases s) (simp add: reads require_def parse_direction_def split: direction.split)

lemma readable_reads: "readable_ref r \<Longrightarrow> parse_ref (Some (json_ref r)) = Some r"
  unfolding parse_ref_def json_ref_def readable_ref_def
  by (cases "ref_schema r") (auto simp: reads require_def parse_schema_def)

lemma parse_list_reads:
  "(\<And>x. x \<in> set xs \<Longrightarrow> f (Some (g x)) = Some x) \<Longrightarrow> parse_list f (Some (JArr (map g xs))) = Some xs"
  by (simp add: parse_list_def reads comp_def all_some_list [where f = "\<lambda>j. f (Some j)"])

lemma at_most_reads:
  "length xs \<le> n \<Longrightarrow> (\<And>x. x \<in> set xs \<Longrightarrow> f (Some (g x)) = Some x) \<Longrightarrow> at_most n f (Some (JArr (map g xs))) = Some xs"
  by (simp add: at_most_def parse_list_reads require_def)

lemma columns_reads: "columns_ok cs \<Longrightarrow> as_columns (Some (json_strings cs)) = Some cs"
  unfolding as_columns_def columns_ok_def json_strings_def
  by (auto simp: at_most_reads as_column_def reads require_def list_all_iff)

lemma opt_maybe_reads:
  "opt_all P x \<Longrightarrow> (\<And>a. P a \<Longrightarrow> f (Some (g a)) = Some a) \<Longrightarrow> maybe f (map_option g x) = Some x"
  by (rule maybe_reads) (simp add: opt_all_def)

lemma total_found: "as_total (Some (json_total t)) = Some t"
  by (cases t) (simp_all add: as_total_def reads)

lemma total_reads [reads]: "maybe as_total (map_option json_total x) = Some x"
  by (rule maybe_reads) (rule total_found)

lemma page_reads:
  "0 \<le> off \<Longrightarrow> safe_integer off \<Longrightarrow> 1 \<le> l \<Longrightarrow> l \<le> 500 \<Longrightarrow>
   parse_page (Some (JObj (TableRequests.fields [(''limit'', Some (JNum l)), (''offset'', Some (JNum off))]))) = Some (l, off)"
  by (simp add: parse_page_def reads require_def maybe_def as_limit_def as_count_def as_integer_def safe_integer_def)

lemma request_reads:
  assumes "i \<noteq> []" "page_request_ok r"
  shows "requestInput (json_request i r) = Some (i, r)"
proof -
  obtain l off where l: "pr_limit r = Some l" "pr_offset r = Some off"
    "1 \<le> l" "l \<le> 500" "0 \<le> off" "safe_integer off" and ref: "readable_ref (pr_table r)"
    and opts: "opt_all (\<lambda>ss. length ss \<le> 16) (pr_sort r)" "opt_all (\<lambda>fs. length fs \<le> 32 \<and> list_all filter_ok fs) (pr_filters r)"
      "opt_all columns_ok (pr_columns r)"
    using assms(2) unfolding page_request_ok_def by blast
  have "maybe (at_most 16 parse_sort) (map_option (\<lambda>ss. JArr (map json_sort ss)) (pr_sort r)) = Some (pr_sort r)"
    by (rule opt_maybe_reads [OF opts(1)]) (simp add: at_most_reads sort_reads)
  moreover have "maybe (at_most 32 parse_filter) (map_option (\<lambda>fs. JArr (map json_filter fs)) (pr_filters r)) = Some (pr_filters r)"
    by (rule opt_maybe_reads [OF opts(2)]) (auto simp: at_most_reads filter_reads list_all_iff)
  moreover have "maybe as_columns (map_option json_strings (pr_columns r)) = Some (pr_columns r)"
    by (rule opt_maybe_reads [OF opts(3)]) (rule columns_reads)
  moreover have "as_column (Some (JStr i)) = Some i" using assms(1) by (simp add: as_column_def reads require_def)
  ultimately show ?thesis
    unfolding requestInput_def json_request_def
    using l by (simp add: reads require_def readable_reads [OF ref] page_reads)
qed

lemma cell_reads: "c \<noteq> CNumber [] \<Longrightarrow> queryCell (Some (json_cell c)) = Some c"
  unfolding queryCell_def json_cell_def by (cases c) (auto simp: reads require_def Let_def allowed_def js_keys_def TableRequests.fields_def)

lemma cells_reads: "cells_ok cs \<Longrightarrow> parse_cells (Some (json_cells cs)) = Some cs"
proof (induction cs)
  case (Cons x cs)
  then have "all_some (map (\<lambda>(n, c). require (n \<noteq> []) (map_option (Pair n) (queryCell (Some c)))) (map (\<lambda>(n, c). (n, json_cell c)) cs)) = Some cs"
    by (simp add: parse_cells_def json_cells_def cells_ok_def reads)
  moreover have "fst x \<noteq> []" "queryCell (Some (json_cell (snd x))) = Some (snd x)"
    using Cons.prems cell_reads by (auto simp: cells_ok_def)
  ultimately show ?case by (cases x) (simp add: parse_cells_def json_cells_def reads require_def)
qed (simp add: parse_cells_def json_cells_def reads)

text \<open>
  Claim C32: Round trip and type of page requests: exactly the well-formed requests are read back from
  their JSON form, and no request body whatsoever yields another one. A well-formed request names a table
  or a view and a connection, its page has 1 to 500 rows from a safe offset on, it has at most 16 orders,
  32 filters with the operands of their operator, and 1 to 200 named columns if it selects any.
\<close>

theorem page_requests_read_back:
  "(requestInput (json_request i r) = Some (i, r) \<longleftrightarrow> i \<noteq> [] \<and> page_request_ok r) \<and>
   ((\<exists>v. requestInput v = Some (i, r)) \<longleftrightarrow> i \<noteq> [] \<and> page_request_ok r)"
  using parsed_request request_reads by blast

lemma mutation_reads:
  assumes "i \<noteq> []" "table_ref ref" "mutation_ok kind r"
  shows "mutationInput (json_mutation i ref r) kind = Some (i, ref, r)"
proof -
  have "readable_ref ref" using assms(2) by (simp add: readable_ref_def table_ref_def)
  note ref = readable_reads [OF this]
  have i: "as_column (Some (JStr i)) = Some i" using assms(1) by (simp add: as_column_def reads require_def)
  show ?thesis unfolding mutationInput_def json_mutation_def using assms(2,3)
    by (cases "(kind, r)" rule: mutation_ok.cases)
      (simp_all add: reads require_def i ref cells_reads at_most_reads list_all_iff)
qed

text \<open>
  The same for mutations: exactly those of a table with a connection, named columns and
  cells of the result format are read, a bulk deletion with 1 to 500 keys, and each kind of request
  yields its own kind of mutation.
\<close>

theorem mutations_read_back:
  "(mutationInput (json_mutation i ref r) kind = Some (i, ref, r) \<longleftrightarrow> i \<noteq> [] \<and> table_ref ref \<and> mutation_ok kind r) \<and>
   ((\<exists>v. mutationInput v kind = Some (i, ref, r)) \<longleftrightarrow> i \<noteq> [] \<and> table_ref ref \<and> mutation_ok kind r)"
proof -
  have "i \<noteq> [] \<and> table_ref ref \<and> mutation_ok kind r" if "mutationInput v kind = Some (i, ref, r)" for v
    using that unfolding mutationInput_def accepted by (auto simp: as_column_def accepted dest: parsed_mutation)
  then show ?thesis using mutation_reads by blast
qed

text \<open>So no accepted request is refused for its page or for a missing operand.\<close>

lemma accepted_page: "page_request_ok r \<Longrightarrow> \<exists>w. normalizePage r = Inr w"
  by (auto simp: page_request_ok_def normalizePage_def page_limit_def page_offset_def DATA_MAX_PAGE_SIZE_def safe_integer_def)

end
