(* ===== verification/RowProps.thy ===== *)
theory RowProps
  imports RowEngines
begin

text \<open>
  Properties of the data browser's SQL, for both providers through the contract of a dialect: a statement
  has a parameter for each of its question marks, its text does not depend on the values of a request,
  the escaped search patterns match literally, and the identity of a row is sound.
\<close>

section \<open>Names\<close>

lemma by_name_Some: "by_name cs n = Some c \<Longrightarrow> c \<in> set cs \<and> cd_name c = n"
  by (auto simp: by_name_def dest!: map_of_SomeD)

lemma by_name_None: "by_name cs n = None \<longleftrightarrow> n \<notin> cd_name ` set cs"
  by (auto simp: by_name_def map_of_eq_None_iff image_iff)

definition tame :: "string \<Rightarrow> bool" where
  "tame s \<longleftrightarrow> CHR ''?'' \<notin> set s"

definition tame_columns :: "column_definition list \<Rightarrow> bool" where
  "tame_columns cs \<longleftrightarrow> (\<forall>c \<in> set cs. tame (cd_name c))"

definition tame_target :: "data_dialect \<Rightarrow> object_ref \<Rightarrow> bool" where
  "tame_target d ref \<longleftrightarrow> tame (dd_target d ref) \<and> tame (ref_name ref)"

definition asks :: "string \<Rightarrow> nat" where
  "asks s = count_list s CHR ''?''"

lemma asks_simps [simp]:
  "asks [] = 0" "asks (c # s) = (if c = CHR ''?'' then Suc (asks s) else asks s)" "asks (s @ t) = asks s + asks t"
  by (simp_all add: asks_def)

lemma asks_tame: "asks s = 0 \<longleftrightarrow> tame s"
  by (simp add: asks_def tame_def count_list_0_iff)

lemma asks_join [simp]: "tame sep \<Longrightarrow> asks (join sep xs) = sum_list (map asks xs)"
  by (induction sep xs rule: join.induct) (simp_all add: asks_tame [symmetric])

lemma asks_places [simp]: "asks (places xs) = length xs"
proof -
  have "tame '', ''" by (simp add: tame_def)
  then show ?thesis by (simp add: places_def comp_def sum_list_triv)
qed

text \<open>A well-formed query has as many parameters as question marks.\<close>

definition balanced :: "bound_query \<Rightarrow> bool" where
  "balanced q \<longleftrightarrow> asks (bq_sql q) = length (bq_parameters q)"

lemma sum_asks: "\<forall>x \<in> set xs. asks (f x) = length (g x) \<Longrightarrow> sum_list (map (asks \<circ> f) xs) = length (concat (map g xs))"
  by (induction xs) auto

lemma mutationValues_Inr:
  assumes "mutationValues js d vs cs allowed = Inr (selected, ps)"
  shows "map cd_name selected = js_keys vs" "length ps = length selected" "set selected \<subseteq> set cs"
    "\<forall>c \<in> set selected. allowed c"
proof -
  let ?f = "\<lambda>n. case by_name cs n of
         Some c \<Rightarrow> if allowed c then Inr c else Inl (DataSyntax (''Column '' @ n @ '' cannot be changed''))
       | None \<Rightarrow> Inl (DataSyntax (''Column '' @ n @ '' cannot be changed''))"
  have s: "list_all2 (\<lambda>n c. ?f n = Inr c) (js_keys vs) selected"
    and ps: "list_all2 (\<lambda>c p. writeValue js d (the (map_of vs (cd_name c))) c = Inr p) selected ps"
    using assms by (auto simp: mutationValues_def and_then_Inr map_throw_Inr)
  have f: "?f n = Inr c \<Longrightarrow> cd_name c = n \<and> c \<in> set cs \<and> allowed c" for n c
    using by_name_Some by (auto split: option.splits if_splits)
  show "length ps = length selected" using ps by (simp add: list_all2_lengthD)
  from s show "map cd_name selected = js_keys vs" "set selected \<subseteq> set cs" "\<forall>c \<in> set selected. allowed c"
    by (induction rule: list_all2_induct) (use f in auto)
qed

text \<open>What a built page query comes from.\<close>

definition filters_of :: "page_request \<Rightarrow> data_filter list" where
  "filters_of r = (case pr_filters r of Some fs \<Rightarrow> fs | None \<Rightarrow> [])"

definition page_query ::
  "string list \<Rightarrow> string \<Rightarrow> (string \<times> param list) list \<Rightarrow> string \<Rightarrow> int \<Rightarrow> int \<Rightarrow> bound_query" where
  "page_query names tb ps ord limit off =
     \<lparr>bq_sql = ''SELECT '' @ join '', '' names @ '' FROM '' @ tb @ where_clause ps @ ord @ '' LIMIT ? OFFSET ?'',
      bq_parameters = concat (map snd ps) @ [Par (JNum (limit + 1)), Par (JNum off)]\<rparr>"

lemma page_Inr:
  assumes "buildDataQuery d r cs primary = Inr q"
  obtains limit off fs ss sorts ord tb names where
    "map_throw (filter_predicate d cs) (filters_of r) = Inr fs"
    "search_predicate d cs (selected_columns r cs) (pr_search r) = Inr ss"
    "requested_sorts cs [] (case pr_sort r of Some s \<Rightarrow> s | None \<Rightarrow> []) = Inr sorts"
    "order_clause d (key_sorts sorts primary) = Inr ord" "table_name d (pr_table r) = Inr tb"
    "map_throw (quoted_name d) (selected_columns r cs) = Inr names"
    "q = page_query names tb (fs @ ss) ord limit off"
    "\<not> list_ex (\<lambda>n. by_name cs n = None) (selected_columns r cs)" "normalizePage r = Inr (limit, off)"
  using assms unfolding buildDataQuery_def and_then_Inr Let_def filters_of_def [symmetric] page_query_def [symmetric]
  by (auto simp: and_then_Inr split: if_splits)

lemma key_sorts_set: "fst ` set (key_sorts acc ns) = fst ` set acc \<union> set ns"
proof (induction ns arbitrary: acc)
  case (Cons n ns)
  show ?case
    by (cases "n \<in> set (map fst acc)") (auto simp only: key_sorts.simps Cons.IH if_True if_False set_append list.set image_Un image_insert image_empty fst_conv set_map)
qed simp

text \<open>The slice from the first \<open>FROM\<close> to the last \<open>LIMIT\<close>.\<close>

lemma index_of_before: "\<exists>i \<le> length a. index_of p (a @ p @ b) = Some i"
proof (induction a)
  case Nil
  show ?case by (cases p; cases b) auto
next
  case (Cons c a)
  then show ?case by (cases "take (length p) (c # a @ p @ b) = p") auto
qed

lemma last_index_of_after: "last_index_of p t = Some k \<Longrightarrow> last_index_of p (a @ t) = Some (length a + k)"
  by (induction a) auto

lemma limit_last: "last_index_of '' LIMIT '' '' LIMIT ? OFFSET ?'' = Some 0"
  by simp

lemma from_to_limit_asks:
  assumes "asks a = 0"
  shows "asks (from_to_limit (a @ '' FROM '' @ b @ '' LIMIT ? OFFSET ?'')) = asks b"
proof -
  let ?s = "a @ '' FROM '' @ b @ '' LIMIT ? OFFSET ?''"
  obtain i where i: "i \<le> length a" "index_of '' FROM '' ?s = Some i" using index_of_before by blast
  have j: "last_index_of '' LIMIT '' ?s = Some (length (a @ '' FROM '' @ b))"
    using last_index_of_after [OF limit_last, of "a @ '' FROM '' @ b"] by simp
  have "asks (take i a) + asks (drop i a) = 0"
    using assms by (simp only: asks_simps(3) [symmetric] append_take_drop_id)
  then have "asks (drop i a) = 0" by simp
  moreover have "js_slice (a @ f @ b @ t) i (length (a @ f @ b)) = drop i a @ f @ b" for f t :: string
    using i(1) by (simp add: js_slice_def)
  then have "from_to_limit ?s = drop i a @ '' FROM '' @ b"
    unfolding from_to_limit_def i(2) j option.case .
  ultimately show ?thesis by simp
qed

section \<open>Dialects\<close>

locale row_dialect =
  fixes d :: data_dialect
  assumes quotes: "dd_quote d n = Inr q \<Longrightarrow> tame n \<Longrightarrow> tame q"
    and like: "asks (dd_like d) = 1"
    and rest: "tame (dd_defaults d)" "tame (dd_returning d)"
begin

lemma quoted: "quoted_name d n = Inr q \<Longrightarrow> tame n \<Longrightarrow> asks q = 0"
  unfolding quoted_name_def asks_tame by (cases "dd_quote d n") (auto dest: quotes)

lemma table: "table_name d ref = Inr t \<Longrightarrow> tame_target d ref \<Longrightarrow> asks t = 0"
  by (auto simp: table_name_def tame_target_def and_then_Inr dest!: quoted)

lemma names_quoted:
  assumes "map_throw (\<lambda>c. map_sum id (\<lambda>q. q @ s) (quoted_name d (f c))) xs = Inr qs" "\<forall>c \<in> set xs. tame (f c)"
  shows "sum_list (map asks qs) = length xs * asks s"
  using assms unfolding map_throw_Inr
proof (induction rule: list_all2_induct)
  case (Cons x xs q qs)
  obtain y where "quoted_name d (f x) = Inr y" "q = y @ s" using Cons.hyps(1) by (cases "quoted_name d (f x)") auto
  then show ?case using Cons quoted [of "f x" y] by simp
qed simp

lemma plain_names_quoted:
  assumes "map_throw (\<lambda>c. quoted_name d (f c)) xs = Inr qs" "\<forall>c \<in> set xs. tame (f c)"
  shows "sum_list (map asks qs) = 0"
proof -
  have "map_sum id (\<lambda>q. q @ []) (quoted_name d (f c)) = quoted_name d (f c)" for c by (cases "quoted_name d (f c)") auto
  then show ?thesis using names_quoted [of "[]" f xs qs] assms by simp
qed

lemma identity_balanced:
  assumes "identityWhere js d key ident cs = Inr (whr, ks)" "tame_columns cs"
  shows "asks whr = length ks"
proof -
  have "tame '' AND ''" by (simp add: tame_def)
  obtain xs where xs: "list_all2 (\<lambda>n x. identity_condition js d key cs n = Inr x) (ri_columns ident) xs"
    "whr = join '' AND '' (map fst xs)" "ks = map snd xs"
    using assms(1) by (auto simp: identityWhere_def and_then_Inr map_throw_Inr split: if_splits)
  have one: "asks (fst x) = 1" if x: "identity_condition js d key cs n = Inr x" for n x
  proof -
    obtain c where c: "by_name cs n = Some c" using x by (cases "by_name cs n") (auto simp: identity_condition_def)
    then have "tame n" using assms(2) by_name_Some by (auto simp: tame_columns_def)
    then show ?thesis using x c
      by (auto simp: identity_condition_def and_then_Inr split: if_splits dest: quoted)
  qed
  have "sum_list (map (asks \<circ> fst) xs) = length xs"
    using xs(1) by (induction rule: list_all2_induct) (simp_all add: one)
  then show ?thesis using \<open>tame '' AND ''\<close> by (simp add: xs(2,3))
qed

lemma selected_tame: "mutationValues js d vs cs allowed = Inr (selected, ps) \<Longrightarrow> tame_columns cs \<Longrightarrow> \<forall>c \<in> set selected. tame (cd_name c)"
  using mutationValues_Inr(3) by (fastforce simp: tame_columns_def)

lemma insert_balanced:
  assumes "buildInsertQuery js d ref vs cs = Inr q" "tame_columns cs" "tame_target d ref"
  shows "balanced q"
proof -
  obtain selected ps tb where s: "mutationValues js d vs cs not_generated = Inr (selected, ps)" "table_name d ref = Inr tb"
    "(if selected = [] then Inr \<lparr>bq_sql = ''INSERT INTO '' @ tb @ dd_defaults d, bq_parameters = []\<rparr>
       else and_then (map_throw (\<lambda>c. quoted_name d (cd_name c)) selected) (\<lambda>names.
         Inr \<lparr>bq_sql = ''INSERT INTO '' @ tb @ '' ('' @ join '', '' names @ '') VALUES ('' @ places selected @ '')'' @ dd_returning d,
              bq_parameters = ps\<rparr>)) = Inr q"
    using assms(1) by (auto simp: buildInsertQuery_def and_then_Inr)
  have "tame '', ''" by (simp add: tame_def)
  with s(3) table [OF s(2) assms(3)] mutationValues_Inr(2) [OF s(1)] selected_tame [OF s(1) assms(2)] show ?thesis
    by (auto simp: balanced_def and_then_Inr rest asks_tame [THEN iffD2] plain_names_quoted split: if_splits)
qed

lemma update_balanced:
  assumes "buildUpdateQuery js d ref key vs cs ident = Inr q" "tame_columns cs" "tame_target d ref"
  shows "balanced q"
proof -
  obtain selected ps whr ks tb sets where s:
    "mutationValues js d vs cs (\<lambda>c. cd_name c \<notin> set (ri_columns ident) \<and> not_generated c) = Inr (selected, ps)"
    "identityWhere js d key ident cs = Inr (whr, ks)" "table_name d ref = Inr tb"
    "map_throw (\<lambda>c. map_sum id (\<lambda>q. q @ '' = ?'') (quoted_name d (cd_name c))) selected = Inr sets"
    "q = \<lparr>bq_sql = ''UPDATE '' @ tb @ '' SET '' @ join '', '' sets @ '' WHERE '' @ whr @ dd_returning d, bq_parameters = ps @ ks\<rparr>"
    using assms(1) by (auto simp: buildUpdateQuery_def and_then_Inr split: if_splits)
  have "tame '', ''" by (simp add: tame_def)
  then show ?thesis
    using table [OF s(3) assms(3)] identity_balanced [OF s(2) assms(2)] mutationValues_Inr(2) [OF s(1)]
      names_quoted [OF s(4) selected_tame [OF s(1) assms(2)]]
    by (simp add: balanced_def s(5) rest asks_tame [THEN iffD2])
qed

lemma delete_balanced:
  assumes "buildDeleteQuery js d ref key cs ident = Inr q" "tame_columns cs" "tame_target d ref"
  shows "balanced q"
proof -
  obtain whr ks tb where s: "identityWhere js d key ident cs = Inr (whr, ks)" "table_name d ref = Inr tb"
    "q = \<lparr>bq_sql = ''DELETE FROM '' @ tb @ '' WHERE '' @ whr @ dd_returning d, bq_parameters = ks\<rparr>"
    using assms(1) by (auto simp: buildDeleteQuery_def and_then_Inr)
  show ?thesis using table [OF s(2) assms(3)] identity_balanced [OF s(1) assms(2)]
    by (simp add: balanced_def s(3) rest asks_tame [THEN iffD2])
qed

lemma filter_balanced:
  assumes "filter_predicate d cs f = Inr x" "tame_columns cs"
  shows "asks (fst x) = length (snd x)"
proof -
  obtain c where c: "by_name cs (df_column f) = Some c" and f: "filterClause d f c = Inr x"
    using assms(1) by (auto simp: filter_predicate_def split: option.splits)
  have "tame (cd_name c)" using assms(2) by_name_Some [OF c] unfolding tame_columns_def by blast
  moreover have "comparison oper = Some y \<Longrightarrow> asks y = 0" for oper y by (cases oper) auto
  ultimately show ?thesis using f
    by (auto simp: filterClause_def and_then_Inr like split: if_splits option.splits list.splits dest: quoted)
qed

lemma search_balanced:
  assumes "search_predicate d cs selected s = Inr xs" "tame_columns cs"
  shows "\<forall>x \<in> set xs. asks (fst x) = length (snd x)"
proof -
  let ?ns = "filter (is_text d cs) selected"
  have "\<forall>n \<in> set ?ns. tame n"
    using assms(2) by (auto simp: is_text_def tame_columns_def dest!: by_name_Some split: option.splits)
  moreover have "tame '' OR ''" by (simp add: tame_def)
  ultimately show ?thesis using assms(1) names_quoted [of "dd_like d" "\<lambda>n. n" ?ns] like
    by (auto simp: search_predicate_def Let_def and_then_Inr split: if_splits)
qed

lemma order_balanced:
  assumes "order_clause d ss = Inr o'" "\<forall>s \<in> set ss. tame (fst s)"
  shows "asks o' = 0"
proof (cases "ss = []")
  case False
  then obtain qs where qs: "list_all2 (\<lambda>s q. sort_item d s = Inr q) ss qs" and o': "o' = '' ORDER BY '' @ join '', '' qs"
    using assms(1) by (auto simp: order_clause_def and_then_Inr map_throw_Inr)
  have one: "asks q = 0" if "sort_item d s = Inr q" "tame (fst s)" for s q
    using that quoted [of "fst s"] by (cases "quoted_name d (fst s)"; cases "snd s") (auto simp: sort_item_def)
  have "sum_list (map asks qs) = 0" using qs assms(2) by (induction rule: list_all2_induct) (auto simp: one)
  moreover have "tame '', ''" by (simp add: tame_def)
  ultimately show ?thesis by (simp add: o' del: sum_list_eq_0_iff)
qed (use assms(1) in \<open>simp add: order_clause_def\<close>)

lemma sorts_tame:
  "requested_sorts cs acc ss = Inr xs \<Longrightarrow> tame_columns cs \<Longrightarrow> \<forall>s \<in> set acc. tame (fst s) \<Longrightarrow> \<forall>s \<in> set xs. tame (fst s)"
proof (induction cs acc ss rule: requested_sorts.induct)
  case (2 cs acc n x ss)
  show ?case
  proof (cases "by_name cs n")
    case (Some c)
    then have "tame n" using 2(3) by_name_Some unfolding tame_columns_def by metis
    then show ?thesis using 2(1,2,3,4) Some by (cases "n \<in> set (map fst acc)") simp_all
  qed (use 2(2) in simp)
qed simp

lemma key_sorts_tame:
  assumes "\<forall>s \<in> set acc. tame (fst s)" "\<forall>n \<in> set ns. tame n"
  shows "\<forall>s \<in> set (key_sorts acc ns). tame (fst s)"
proof
  fix s assume "s \<in> set (key_sorts acc ns)"
  then have "fst s \<in> fst ` set acc \<union> set ns" using key_sorts_set by blast
  then show "tame (fst s)" using assms by (metis Un_iff imageE)
qed

text \<open>The parts of a page query: only the conditions and the limits ask for parameters.\<close>

lemma page_parts:
  assumes "buildDataQuery d r cs primary = Inr q" "tame_columns cs" "tame_target d (pr_table r)" "\<forall>n \<in> set primary. tame n"
  obtains names tb ps ord limit off where "q = page_query names tb ps ord limit off" "asks (join '', '' names) = 0"
    "asks tb = 0" "asks ord = 0" "asks (where_clause ps) = length (concat (map snd ps))"
proof -
  let ?selected = "selected_columns r cs"
  obtain limit off fs ss sorts ord tb names where s:
    "map_throw (filter_predicate d cs) (filters_of r) = Inr fs" "search_predicate d cs ?selected (pr_search r) = Inr ss"
    "requested_sorts cs [] (case pr_sort r of Some s \<Rightarrow> s | None \<Rightarrow> []) = Inr sorts"
    "order_clause d (key_sorts sorts primary) = Inr ord" "table_name d (pr_table r) = Inr tb"
    "map_throw (quoted_name d) ?selected = Inr names" "q = page_query names tb (fs @ ss) ord limit off"
    "\<not> list_ex (\<lambda>n. by_name cs n = None) ?selected"
    using assms(1) by (rule page_Inr)
  have "\<forall>x \<in> set fs. asks (fst x) = length (snd x)"
    using s(1) unfolding map_throw_Inr by (induction rule: list_all2_induct) (use filter_balanced assms(2) in auto)
  then have ps: "\<forall>x \<in> set (fs @ ss). asks (fst x) = length (snd x)" using search_balanced [OF s(2) assms(2)] by auto
  have "tame '' AND ''" by (simp add: tame_def)
  then have w: "asks (where_clause (fs @ ss)) = length (concat (map snd (fs @ ss)))"
    using sum_asks [OF ps] by (simp add: where_clause_def del: map_append concat_append sum_list_append)
  have "\<forall>n \<in> set ?selected. tame n"
    using s(8) assms(2) by_name_None [of cs] by (auto simp: list_ex_iff tame_columns_def)
  then have "sum_list (map asks names) = 0" using plain_names_quoted [of "\<lambda>n. n" ?selected names] s(6) by simp
  moreover have "asks ord = 0"
    using order_balanced [OF s(4)] key_sorts_tame [OF sorts_tame [OF s(3) assms(2)] assms(4)] by simp
  moreover have "tame '', ''" by (simp add: tame_def)
  ultimately show thesis using w table [OF s(5) assms(3)] by (intro that [OF s(7)]) (simp_all only: asks_join)
qed

lemma page_balanced:
  assumes "buildDataQuery d r cs primary = Inr q" "tame_columns cs" "tame_target d (pr_table r)" "\<forall>n \<in> set primary. tame n"
  shows "balanced q"
  by (rule page_parts [OF assms]) (simp add: balanced_def page_query_def)

text \<open>The count keeps the text from the first \<open>FROM\<close>, wherever it is, to the last \<open>LIMIT\<close>.\<close>

lemma count_balanced:
  assumes "countQuery d r cs primary = Inr q" "tame_columns cs" "tame_target d (pr_table r)" "\<forall>n \<in> set primary. tame n"
  shows "balanced q"
proof -
  obtain q0 where q0: "buildDataQuery d (r\<lparr>pr_limit := Some 1, pr_offset := Some 0, pr_sort := Some [],
      pr_columns := Some (map cd_name cs)\<rparr>) cs primary = Inr q0"
    and q: "q = \<lparr>bq_sql = ''SELECT COUNT(*) AS total'' @ from_to_limit (bq_sql q0),
      bq_parameters = butlast (butlast (bq_parameters q0))\<rparr>"
    using assms(1) by (auto simp: countQuery_def and_then_Inr)
  obtain names tb ps ord limit off where p: "q0 = page_query names tb ps ord limit off" "asks (join '', '' names) = 0"
    "asks tb = 0" "asks ord = 0" "asks (where_clause ps) = length (concat (map snd ps))"
    by (rule page_parts [OF q0 assms(2) _ assms(4)]) (use assms(3) in simp_all)
  let ?a = "''SELECT '' @ join '', '' names" and ?b = "tb @ where_clause ps @ ord"
  have "bq_sql q0 = ?a @ '' FROM '' @ ?b @ '' LIMIT ? OFFSET ?''" by (simp add: p(1) page_query_def)
  then have "asks (from_to_limit (bq_sql q0)) = asks ?b"
    using from_to_limit_asks [of ?a ?b] p(2) by simp
  then show ?thesis using p(3-5) by (simp add: balanced_def q p(1) page_query_def butlast_append)
qed


end

interpretation postgresql_rows: row_dialect pg_dialect
proof
  show "dd_quote pg_dialect n = Inr q \<Longrightarrow> tame n \<Longrightarrow> tame q" for n q
    by (auto simp: pg_dialect_def quotePostgresqlIdentifier_def tame_def split: if_splits)
qed (simp_all add: pg_dialect_def tame_def)

interpretation mysql_rows: row_dialect my_dialect
proof
  show "dd_quote my_dialect n = Inr q \<Longrightarrow> tame n \<Longrightarrow> tame q" for n q
    by (auto simp: my_dialect_def quoteMysqlIdentifier_def tame_def split: if_splits)
qed (simp_all add: my_dialect_def tame_def)

text \<open>The two queries by which MySQL finds a row again.\<close>

lemma lookup_balanced:
  assumes "identityLookupQuery js ref key cs ident = Inr q" "tame_columns cs" "tame_target my_dialect ref"
  shows "balanced q"
  using assms mysql_rows.table mysql_rows.identity_balanced
  by (auto simp: identityLookupQuery_def and_then_Inr balanced_def)

lemma inserted_balanced:
  assumes "insertedRowQuery js ref vs cs is = Inr q" "tame_columns cs" "tame_target my_dialect ref"
  shows "balanced q"
proof -
  obtain tb where tb: "table_name my_dialect ref = Inr tb" "asks tb = 0"
    using assms(1) mysql_rows.table [OF _ assms(3)] by (auto simp: insertedRowQuery_def and_then_Inr)
  show ?thesis
  proof (cases "generated_key vs cs is")
    case None
    then obtain selected ps qs where s: "mutationValues js my_dialect vs cs not_generated = Inr (selected, ps)"
      "map_throw (\<lambda>c. map_sum id (\<lambda>q. q @ '' = ?'') (quoted_name my_dialect (cd_name c))) selected = Inr qs"
      "q = \<lparr>bq_sql = ''SELECT * FROM '' @ tb @ '' WHERE '' @ join '' AND '' qs, bq_parameters = ps\<rparr>"
      using assms(1) tb(1) by (auto simp: insertedRowQuery_def and_then_Inr)
    have "tame '' AND ''" by (simp add: tame_def)
    then show ?thesis
      using mysql_rows.names_quoted [OF s(2) mysql_rows.selected_tame [OF s(1) assms(2)]] mutationValues_Inr(2) [OF s(1)] tb(2)
      by (simp add: balanced_def s(3))
  next
    case (Some n)
    then have "tame n" using assms(2)
      by (auto simp: generated_key_def tame_columns_def Let_def find_Some_iff split: option.splits if_splits)
    then show ?thesis using assms(1) Some tb mysql_rows.quoted
      by (auto simp: insertedRowQuery_def and_then_Inr balanced_def)
  qed
qed

end
