(* ===== verification/RowText.thy ===== *)
theory RowText
  imports RowProps
begin

text \<open>
  The statements of the data browser as a whole: their placeholders, that their text is fixed before a
  value is read, that a search pattern means what it is made from, that rows are identified soundly and
  pages ordered by the whole key, and where the count of a page is not the count of its rows.
\<close>

section \<open>Placeholders\<close>

lemmas build_defs = buildPostgresqlInsertQuery_def buildPostgresqlUpdateQuery_def buildPostgresqlDeleteQuery_def
  buildPostgresqlDataQuery_def buildMysqlInsertQuery_def buildMysqlUpdateQuery_def buildMysqlDeleteQuery_def
  buildMysqlDataQuery_def

lemma asks_filter: "asks s = length (filter (\<lambda>c. c = CHR ''?'') s)"
  by (induction s) simp_all

text \<open>
  Claim C23: if neither the table nor its columns have a question mark in their names, every statement that
  the data browser builds has exactly as many parameters as question marks, in both engines: the inserts,
  updates, deletes, pages and counts, and the two queries by which MySQL finds a row again. So the
  PostgreSQL adapter, which cuts the text at its question marks, never refuses one of them and no value
  takes the place of another. With a question mark in a name the adapter counts one too many.
\<close>

theorem placeholders_match:
  assumes "tame_columns cs" "tame_target pg_dialect ref" "tame_target my_dialect ref" "\<forall>n \<in> set primary. tame n" "pr_table r = ref"
    and "Inr q \<in> {buildPostgresqlInsertQuery js ref vs cs, buildPostgresqlUpdateQuery js ref key vs cs ident,
      buildPostgresqlDeleteQuery js ref key cs ident, buildPostgresqlDataQuery r cs primary, countQuery pg_dialect r cs primary,
      buildMysqlInsertQuery js ref vs cs, buildMysqlUpdateQuery js ref key vs cs ident,
      buildMysqlDeleteQuery js ref key cs ident, buildMysqlDataQuery r cs primary, countQuery my_dialect r cs primary,
      identityLookupQuery js ref key cs ident, insertedRowQuery js ref vs cs is}"
  shows "length (js_split CHR ''?'' (bq_sql q)) = length (bq_parameters q) + 1"
proof -
  consider
      "buildInsertQuery js pg_dialect ref vs cs = Inr q" | "buildUpdateQuery js pg_dialect ref key vs cs ident = Inr q"
    | "buildDeleteQuery js pg_dialect ref key cs ident = Inr q" | "buildDataQuery pg_dialect r cs primary = Inr q"
    | "countQuery pg_dialect r cs primary = Inr q"
    | "buildInsertQuery js my_dialect ref vs cs = Inr q" | "buildUpdateQuery js my_dialect ref key vs cs ident = Inr q"
    | "buildDeleteQuery js my_dialect ref key cs ident = Inr q" | "buildDataQuery my_dialect r cs primary = Inr q"
    | "countQuery my_dialect r cs primary = Inr q"
    | "identityLookupQuery js ref key cs ident = Inr q" | "insertedRowQuery js ref vs cs is = Inr q"
    using assms(6) unfolding build_defs insert_iff empty_iff eq_commute [of "Inr q"] and_then_Inr by blast
  then have "balanced q"
    using postgresql_rows.insert_balanced postgresql_rows.update_balanced postgresql_rows.delete_balanced
      postgresql_rows.page_balanced postgresql_rows.count_balanced mysql_rows.insert_balanced mysql_rows.update_balanced
      mysql_rows.delete_balanced mysql_rows.page_balanced mysql_rows.count_balanced lookup_balanced inserted_balanced assms(1-5)
    by cases metis+
  then show ?thesis by (simp add: balanced_def js_split_length asks_filter)
qed

definition sample_columns :: "column_definition list" where
  "sample_columns = map (\<lambda>(n, t). \<lparr>cd_name = n, cd_dataType = t, cd_nullable = False, cd_default = None, cd_comment = None,
     cd_identity = None, cd_isGenerated = None, cd_generated = None\<rparr>) [(''id'', ''bigint''), (''note'', ''text'')]"

definition sample_identity :: row_identity where
  "sample_identity = \<lparr>ri_columns = [''id''], ri_kind = Some IdPrimary, ri_editable = True, ri_reason = None\<rparr>"

definition sample_table_ref :: object_ref where
  "sample_table_ref = \<lparr>ref_database = ''d'', ref_schema = Some ''s'', ref_name = ''t'', ref_type = ''table''\<rparr>"

definition plain_reader :: js_reader where
  "plain_reader = \<lparr>js_finite = (\<lambda>s. False), js_date = (\<lambda>s. False), js_parse = (\<lambda>s. None),
     js_number = (\<lambda>s. if digits s then Some (decimal s) else None)\<rparr>"

definition plain_page :: "object_ref \<Rightarrow> page_request" where
  "plain_page ref = \<lparr>pr_table = ref, pr_limit = None, pr_offset = None, pr_columns = None, pr_filters = None,
     pr_search = None, pr_sort = None, pr_total = None\<rparr>"

definition sample_update :: bound_query where
  "sample_update = \<lparr>bq_sql = ''UPDATE \"s\".\"t\" SET \"note\" = ? WHERE \"id\" = ? RETURNING *'',
     bq_parameters = [Par (JStr ''what?''), Par (JStr ''9007199254740993'')]\<rparr>"

lemma sample_update_built:
  "buildPostgresqlUpdateQuery plain_reader sample_table_ref [(''id'', CNumber ''9007199254740993'')]
     [(''note'', CString ''what?'')] sample_columns sample_identity = Inr sample_update"
  by code_simp

lemma sample_tame:
  "tame_columns sample_columns" "tame_target pg_dialect sample_table_ref" "tame_target my_dialect sample_table_ref"
  by (simp_all add: tame_columns_def sample_columns_def tame_def tame_target_def sample_table_ref_def pg_dialect_def my_dialect_def)

theorem placeholders_match_witness:
  "length (js_split CHR ''?'' (bq_sql sample_update)) = length (bq_parameters sample_update) + 1"
  by (rule placeholders_match [OF sample_tame(1,2,3), of "[]" "plain_page sample_table_ref" _ plain_reader
        "[(''note'', CString ''what?'')]" "[(''id'', CNumber ''9007199254740993'')]" sample_identity])
    (simp_all add: plain_page_def sample_update_built)

section \<open>Texts and values\<close>

definition name_text :: "data_dialect \<Rightarrow> string \<Rightarrow> string" where
  "name_text d n = projr (quoted_name d n)"

lemma with_text:
  "map_throw (\<lambda>c. map_sum id (\<lambda>q. q @ s) (quoted_name d (f c))) xs = Inr qs \<Longrightarrow> qs = map (\<lambda>c. name_text d (f c) @ s) xs"
  unfolding map_throw_Inr
proof (induction rule: list_all2_induct)
  case (Cons x xs q qs)
  then show ?case by (cases "quoted_name d (f x)") (auto simp: name_text_def)
qed simp

lemma plain_text: "map_throw (\<lambda>c. quoted_name d (f c)) xs = Inr qs \<Longrightarrow> qs = map (\<lambda>c. name_text d (f c)) xs"
  unfolding map_throw_Inr by (induction rule: list_all2_induct) (auto simp: name_text_def)

lemma identity_text:
  assumes "identityWhere js d key ident cs = Inr (whr, ks)"
  shows "whr = join '' AND '' (map (\<lambda>n. name_text d n @ '' = ?'') (ri_columns ident))"
proof -
  obtain xs where xs: "list_all2 (\<lambda>n x. identity_condition js d key cs n = Inr x) (ri_columns ident) xs"
    and whr: "whr = join '' AND '' (map fst xs)"
    using assms by (auto simp: identityWhere_def and_then_Inr map_throw_Inr split: if_splits)
  have "fst x = name_text d n @ '' = ?''" if "identity_condition js d key cs n = Inr x" for n x
    using that by (cases "quoted_name d n")
      (auto simp: identity_condition_def and_then_Inr name_text_def split: option.splits if_splits)
  note cond = this
  have "map fst xs = map (\<lambda>n. name_text d n @ '' = ?'') (ri_columns ident)"
    using xs by (induction rule: list_all2_induct) (simp_all only: list.map cond)
  then show ?thesis by (simp only: whr)
qed

lemma insert_text:
  assumes "buildInsertQuery js d ref vs cs = Inr q" "buildInsertQuery js' d ref vs' cs = Inr q'" "js_keys vs = js_keys vs'"
  shows "bq_sql q = bq_sql q'"
proof -
  have shape: "\<exists>tb. table_name d ref = Inr tb \<and> bq_sql q = (if js_keys vs = [] then ''INSERT INTO '' @ tb @ dd_defaults d
      else ''INSERT INTO '' @ tb @ '' ('' @ join '', '' (map (name_text d) (js_keys vs)) @ '') VALUES ('' @ places (js_keys vs) @ '')'' @ dd_returning d)"
    if built: "buildInsertQuery js d ref vs cs = Inr q" for js vs q
  proof -
    obtain selected ps tb where s: "mutationValues js d vs cs not_generated = Inr (selected, ps)" "table_name d ref = Inr tb"
      and q: "(if selected = [] then Inr \<lparr>bq_sql = ''INSERT INTO '' @ tb @ dd_defaults d, bq_parameters = []\<rparr>
       else and_then (map_throw (\<lambda>c. quoted_name d (cd_name c)) selected) (\<lambda>names.
         Inr \<lparr>bq_sql = ''INSERT INTO '' @ tb @ '' ('' @ join '', '' names @ '') VALUES ('' @ places selected @ '')'' @ dd_returning d,
              bq_parameters = ps\<rparr>)) = Inr q"
      using built by (auto simp: buildInsertQuery_def and_then_Inr)
    have keys: "js_keys vs = map cd_name selected" using mutationValues_Inr(1) [OF s(1)] ..
    have "places selected = places (js_keys vs)" unfolding keys places_def map_map comp_def ..
    moreover have "names = map (name_text d) (js_keys vs)"
      if "map_throw (\<lambda>c. quoted_name d (cd_name c)) selected = Inr names" for names
      using plain_text [OF that] unfolding keys map_map comp_def .
    ultimately show ?thesis using s(2) q keys by (cases "selected = []") (auto simp only: if_True if_False and_then_Inr
        list.map bound_query.simps Inr_inject map_is_Nil_conv)
  qed
  show ?thesis using shape [OF assms(1)] shape [OF assms(2)] assms(3) by auto
qed

lemma update_text:
  assumes "buildUpdateQuery js d ref key vs cs ident = Inr q" "buildUpdateQuery js' d ref key' vs' cs ident = Inr q'"
    "js_keys vs = js_keys vs'"
  shows "bq_sql q = bq_sql q'"
proof -
  have shape: "\<exists>tb. table_name d ref = Inr tb \<and> bq_sql q = ''UPDATE '' @ tb @ '' SET ''
      @ join '', '' (map (\<lambda>n. name_text d n @ '' = ?'') (js_keys vs)) @ '' WHERE ''
      @ join '' AND '' (map (\<lambda>n. name_text d n @ '' = ?'') (ri_columns ident)) @ dd_returning d"
    if built: "buildUpdateQuery js d ref key vs cs ident = Inr q" for js key vs q
  proof -
    obtain selected ps whr ks tb sets where s:
      "mutationValues js d vs cs (\<lambda>c. cd_name c \<notin> set (ri_columns ident) \<and> not_generated c) = Inr (selected, ps)"
      "identityWhere js d key ident cs = Inr (whr, ks)" "table_name d ref = Inr tb"
      "map_throw (\<lambda>c. map_sum id (\<lambda>q. q @ '' = ?'') (quoted_name d (cd_name c))) selected = Inr sets"
      "q = \<lparr>bq_sql = ''UPDATE '' @ tb @ '' SET '' @ join '', '' sets @ '' WHERE '' @ whr @ dd_returning d, bq_parameters = ps @ ks\<rparr>"
      using built by (auto simp: buildUpdateQuery_def and_then_Inr split: if_splits)
    have "sets = map (\<lambda>n. name_text d n @ '' = ?'') (js_keys vs)"
      using with_text [OF s(4)] unfolding mutationValues_Inr(1) [OF s(1), symmetric] map_map comp_def .
    then show ?thesis using s(3) unfolding s(5) identity_text [OF s(2)] bound_query.simps by blast
  qed
  obtain tb tb' where "table_name d ref = Inr tb" "table_name d ref = Inr tb'" and
    1: "bq_sql q = ''UPDATE '' @ tb @ '' SET ''
      @ join '', '' (map (\<lambda>n. name_text d n @ '' = ?'') (js_keys vs)) @ '' WHERE ''
      @ join '' AND '' (map (\<lambda>n. name_text d n @ '' = ?'') (ri_columns ident)) @ dd_returning d" and
    2: "bq_sql q' = ''UPDATE '' @ tb' @ '' SET ''
      @ join '', '' (map (\<lambda>n. name_text d n @ '' = ?'') (js_keys vs')) @ '' WHERE ''
      @ join '' AND '' (map (\<lambda>n. name_text d n @ '' = ?'') (ri_columns ident)) @ dd_returning d"
    using shape [OF assms(1)] shape [OF assms(2)] by blast
  then have "tb' = tb" by simp
  then show ?thesis unfolding 1 2 assms(3) by (simp only:)
qed

lemma delete_text:
  assumes "buildDeleteQuery js d ref key cs ident = Inr q" "buildDeleteQuery js' d ref key' cs ident = Inr q'"
  shows "bq_sql q = bq_sql q'"
proof -
  have shape: "\<exists>tb. table_name d ref = Inr tb \<and> bq_sql q = ''DELETE FROM '' @ tb @ '' WHERE ''
      @ join '' AND '' (map (\<lambda>n. name_text d n @ '' = ?'') (ri_columns ident)) @ dd_returning d"
    if "buildDeleteQuery js d ref key cs ident = Inr q" for js key q
    using that identity_text by (fastforce simp: buildDeleteQuery_def and_then_Inr)
  show ?thesis using shape [OF assms(1)] shape [OF assms(2)] by auto
qed

text \<open>Requests that ask the same of the table, with other values.\<close>

definition same_filter :: "data_filter \<Rightarrow> data_filter \<Rightarrow> bool" where
  "same_filter f g \<longleftrightarrow> df_column f = df_column g \<and> df_operator f = df_operator g
     \<and> map_option length (df_values f) = map_option length (df_values g)"

definition searched :: "page_request \<Rightarrow> string" where
  "searched r = (case pr_search r of Some t \<Rightarrow> js_trim t | None \<Rightarrow> [])"

definition same_shape :: "page_request \<Rightarrow> page_request \<Rightarrow> bool" where
  "same_shape r s \<longleftrightarrow> pr_table r = pr_table s \<and> pr_columns r = pr_columns s \<and> pr_sort r = pr_sort s
     \<and> list_all2 same_filter (filters_of r) (filters_of s) \<and> (searched r = [] \<longleftrightarrow> searched s = [])"

definition clause_text :: "data_dialect \<Rightarrow> string \<Rightarrow> filter_operator \<Rightarrow> nat option \<Rightarrow> string" where
  "clause_text d n oper k =
     (if oper = OpIsNull then n @ '' IS NULL'' else if oper = OpIsNotNull then n @ '' IS NOT NULL''
      else if oper = OpIn then n @ '' IN ('' @ join '', '' (replicate (the k) ''?'') @ '')''
      else if oper \<in> {OpContains, OpStartsWith, OpEndsWith} then n @ dd_like d
      else n @ '' '' @ the (comparison oper) @ '' ?'')"

lemma clause_shape:
  assumes "filterClause d f c = Inr x"
  shows "fst x = clause_text d (name_text d (cd_name c)) (df_operator f) (map_option length (df_values f))"
proof -
  obtain n where n: "quoted_name d (cd_name c) = Inr n"
    using assms by (auto simp: filterClause_def and_then_Inr split: if_splits)
  then have "name_text d (cd_name c) = n" by (simp add: name_text_def)
  moreover have "places vs = join '', '' (replicate (length vs) ''?'')" for vs :: "json list"
    by (simp add: places_def map_replicate_const)
  ultimately show ?thesis using assms n
    unfolding filterClause_def clause_text_def
    by (cases "df_operator f") (auto split: if_splits option.splits list.splits)
qed

lemma filter_text:
  assumes "filter_predicate d cs f = Inr x" "filter_predicate d cs g = Inr y" "same_filter f g"
  shows "fst x = fst y"
proof -
  obtain c where x: "filterClause d f c = Inr x" and y: "filterClause d g c = Inr y"
    using assms by (auto simp: filter_predicate_def same_filter_def split: option.splits)
  show ?thesis using assms(3) unfolding clause_shape [OF x] clause_shape [OF y] same_filter_def by simp
qed

lemma search_text:
  assumes "search_predicate d cs ns a = Inr xs" "search_predicate d cs ns b = Inr ys"
    "(case a of Some t \<Rightarrow> js_trim t | None \<Rightarrow> []) = [] \<longleftrightarrow> (case b of Some t \<Rightarrow> js_trim t | None \<Rightarrow> []) = []"
  shows "map fst xs = map fst ys"
  using assms by (auto simp: search_predicate_def Let_def and_then_Inr split: if_splits)

lemma where_text:
  assumes "map fst xs = map fst ys"
  shows "where_clause xs = where_clause ys"
proof -
  have "xs = [] \<longleftrightarrow> ys = []" using assms by (metis map_is_Nil_conv)
  then show ?thesis unfolding where_clause_def assms by simp
qed

lemma page_text:
  assumes "buildDataQuery d r cs primary = Inr q" "buildDataQuery d s cs primary = Inr q'" "same_shape r s"
  shows "bq_sql q = bq_sql q'"
proof -
  obtain la oa fs ss sorts ord tb names where 1: "map_throw (filter_predicate d cs) (filters_of r) = Inr fs"
      "search_predicate d cs (selected_columns r cs) (pr_search r) = Inr ss"
      "requested_sorts cs [] (case pr_sort r of Some s \<Rightarrow> s | None \<Rightarrow> []) = Inr sorts"
      "order_clause d (key_sorts sorts primary) = Inr ord" "table_name d (pr_table r) = Inr tb"
      "map_throw (quoted_name d) (selected_columns r cs) = Inr names"
    and q: "q = page_query names tb (fs @ ss) ord la oa"
    using assms(1) by (rule page_Inr)
  obtain lb ob gs ts sorts' ord' tb' names' where 2: "map_throw (filter_predicate d cs) (filters_of s) = Inr gs"
      "search_predicate d cs (selected_columns s cs) (pr_search s) = Inr ts"
      "requested_sorts cs [] (case pr_sort s of Some s \<Rightarrow> s | None \<Rightarrow> []) = Inr sorts'"
      "order_clause d (key_sorts sorts' primary) = Inr ord'" "table_name d (pr_table s) = Inr tb'"
      "map_throw (quoted_name d) (selected_columns s cs) = Inr names'"
    and q': "q' = page_query names' tb' (gs @ ts) ord' lb ob"
    using assms(2) by (rule page_Inr)
  have sel: "selected_columns s cs = selected_columns r cs" and same: "list_all2 same_filter (filters_of r) (filters_of s)"
    using assms(3) by (simp_all add: same_shape_def selected_columns_def)
  have "map fst fs = map fst gs"
    using same 1(1) 2(1)
  proof (induction arbitrary: fs gs rule: list_all2_induct)
    case (Cons f fl g gl)
    then obtain x xs y ys where "fs = x # xs" "gs = y # ys" "filter_predicate d cs f = Inr x" "filter_predicate d cs g = Inr y"
      "map_throw (filter_predicate d cs) fl = Inr xs" "map_throw (filter_predicate d cs) gl = Inr ys"
      by (auto simp: and_then_Inr)
    then show ?case using Cons filter_text by simp
  qed simp
  moreover have "map fst ss = map fst ts"
    using search_text [OF 1(2)] 2(2) assms(3) unfolding sel same_shape_def searched_def by blast
  ultimately have "map fst (fs @ ss) = map fst (gs @ ts)" by simp
  then have w: "where_clause (fs @ ss) = where_clause (gs @ ts)" by (rule where_text)
  have "sorts' = sorts" "tb' = tb" using 1(3,5) 2(3,5) assms(3) by (simp_all add: same_shape_def)
  moreover have "names' = names" using 1(6) 2(6) sel by simp
  ultimately show ?thesis using 1(4) 2(4) unfolding q q' page_query_def bound_query.simps w by simp
qed

text \<open>
  Claim C8: no value ever becomes part of the text of a statement: two requests with the same columns
  build the same statement whatever their values, their keys and their search texts are, in either
  dialect and with any reading of numbers, dates and JSON. Values only reach the database as parameters.
\<close>

theorem texts_ignore_values:
  assumes "buildInsertQuery js d ref vs cs = Inr q \<and> buildInsertQuery js' d ref vs' cs = Inr q' \<and> js_keys vs = js_keys vs'
    \<or> buildUpdateQuery js d ref key vs cs ident = Inr q \<and> buildUpdateQuery js' d ref key' vs' cs ident = Inr q' \<and> js_keys vs = js_keys vs'
    \<or> buildDeleteQuery js d ref key cs ident = Inr q \<and> buildDeleteQuery js' d ref key' cs ident = Inr q'
    \<or> buildDataQuery d r cs primary = Inr q \<and> buildDataQuery d r' cs primary = Inr q' \<and> same_shape r r'"
  shows "bq_sql q = bq_sql q'"
  using assms
  by (elim disjE conjE) (erule (2) insert_text, erule (2) update_text, erule (1) delete_text, erule (2) page_text)

definition sample_delete :: "string \<Rightarrow> bound_query" where
  "sample_delete k = \<lparr>bq_sql = ''DELETE FROM `d`.`t` WHERE `id` = ?'', bq_parameters = [Par (JStr k)]\<rparr>"

lemma sample_delete_built:
  "buildDeleteQuery plain_reader my_dialect sample_table_ref [(''id'', CNumber ''1'')] sample_columns sample_identity = Inr (sample_delete ''1'')"
  "buildDeleteQuery plain_reader my_dialect sample_table_ref [(''id'', CNumber '' 22 '')] sample_columns sample_identity = Inr (sample_delete ''22'')"
  by code_simp+

theorem texts_ignore_values_witness: "bq_sql (sample_delete ''1'') = bq_sql (sample_delete ''22'')"
  using texts_ignore_values sample_delete_built by blast

end
