(* ===== verification/RowMeaning.thy ===== *)
theory RowMeaning
  imports RowText
begin

text \<open>
  What the data browser's statements mean: search patterns against a definition of \<open>LIKE\<close>, the identity
  of a row against the indexes of its table, the order and the size of a page, integers that keep all
  their digits, and three requests that do not get what they ask for.
\<close>

section \<open>Texts of numbers\<close>

lemma show_int_number: "js_trim (show_int n) = show_int n" "whole_number (show_int n)"
proof -
  have d: "digits (show_nat m)" for m by (rule digits_show_nat)
  have ws: "\<not> js_ws c" if "digit c \<or> c = CHR ''-''" for c using that by (auto simp: digit_def js_ws_def Let_def)
  have ne: "show_nat m \<noteq> []" and all: "\<forall>c \<in> set (show_nat m). digit c" for m
    using d [of m] by (auto simp: digits_def list_all_iff)
  have h: "digit (hd (show_nat m))" "digit (last (show_nat m))" for m using ne all by (auto intro: hd_in_set last_in_set)
  have "\<not> js_ws (hd (show_int n)) \<and> \<not> js_ws (last (show_int n)) \<and> show_int n \<noteq> []"
    using h ne ws by (auto simp: show_int_def)
  then show "js_trim (show_int n) = show_int n" using trim_same by blast
  have sign: "drop_sign (show_nat m) = show_nat m" for m
    using h [of m] by (cases "show_nat m") (auto simp: drop_sign_def digit_def)
  show "whole_number (show_int n)" using d sign by (auto simp: show_int_def whole_number_def drop_sign_def)
qed

section \<open>Patterns\<close>

text \<open>\<open>LIKE\<close> with a backslash as escape: an escaped character stands for itself, a percent sign for any
  text and an underscore for any character.\<close>

function like_match :: "string \<Rightarrow> string \<Rightarrow> bool" where
  "like_match [] s \<longleftrightarrow> s = []"
| "like_match (c # p) s \<longleftrightarrow>
     (if c = CHR 0x5C then
        (case p of [] \<Rightarrow> False | e # r \<Rightarrow> (case s of [] \<Rightarrow> False | x # t \<Rightarrow> x = e \<and> like_match r t))
      else if c = CHR ''%'' then like_match p s \<or> (case s of [] \<Rightarrow> False | x # t \<Rightarrow> like_match (c # p) t)
      else (case s of [] \<Rightarrow> False | x # t \<Rightarrow> (c = CHR ''_'' \<or> x = c) \<and> like_match p t))"
  by pat_completeness auto
termination by (relation "measure (\<lambda>(p, s). length p + length s)") auto

declare like_match.simps(2) [simp del]

definition escaped :: "char \<Rightarrow> string" where
  "escaped c = (if c \<in> {CHR 0x5C, CHR ''%'', CHR ''_''} then [CHR 0x5C, c] else [c])"

lemma replace_char_append: "replace_char c r (s @ t) = replace_char c r s @ replace_char c r t"
  by (simp add: replace_char_def)

lemma escapeLike_Cons: "escapeLike (c # s) = escaped c @ escapeLike s"
proof -
  have "escapeLike [c] = escaped c"
    by (auto simp: escapeLike_def escaped_def replace_char_def)
  moreover have "escapeLike ([c] @ s) = escapeLike [c] @ escapeLike s"
    unfolding escapeLike_def replace_char_append ..
  ultimately show ?thesis by simp
qed

lemma match_escaped: "like_match (escaped c @ p) s \<longleftrightarrow> (\<exists>t. s = c # t \<and> like_match p t)"
  by (cases s) (auto simp: escaped_def like_match.simps(2))

lemma match_literal: "like_match (escapeLike v @ p) s \<longleftrightarrow> (\<exists>t. s = v @ t \<and> like_match p t)"
proof (induction v arbitrary: s)
  case (Cons c v)
  show ?case unfolding escapeLike_Cons append_assoc match_escaped Cons.IH by auto
qed (simp add: escapeLike_def replace_char_def)

lemma match_percent: "like_match (CHR ''%'' # p) s \<longleftrightarrow> (\<exists>a b. s = a @ b \<and> like_match p b)"
proof (induction s)
  case Nil
  then show ?case by (simp add: like_match.simps(2))
next
  case (Cons x s)
  have "like_match (CHR ''%'' # p) (x # s) \<longleftrightarrow> like_match p (x # s) \<or> like_match (CHR ''%'' # p) s"
    by (simp add: like_match.simps(2))
  also have "\<dots> \<longleftrightarrow> (\<exists>a b. x # s = a @ b \<and> like_match p b)"
    unfolding Cons.IH by (metis append_Cons append_Nil neq_Nil_conv list.inject)
  finally show ?case .
qed

text \<open>
  Claim C24: the search patterns are literal: under the definition of \<open>LIKE\<close> with a backslash as escape,
  the pattern of ``contains'' matches exactly the texts that contain the given one, that of ``starts
  with'' those that start with it and that of ``ends with'' those that end with it, whatever percent
  signs, underscores and backslashes it has.
\<close>

theorem like_patterns_are_literal:
  "(like_match (like_pattern OpContains (escapeLike v)) s \<longleftrightarrow> js_includes v s) \<and>
   (like_match (like_pattern OpStartsWith (escapeLike v)) s \<longleftrightarrow> (\<exists>t. s = v @ t)) \<and>
   (like_match (like_pattern OpEndsWith (escapeLike v)) s \<longleftrightarrow> (\<exists>t. s = t @ v))"
proof (intro conjI)
  have all: "like_match ''%'' t" for t by (simp add: match_percent)
  have none: "like_match (escapeLike v) t \<longleftrightarrow> t = v" for t
    using match_literal [of v "[]" t] by simp
  show "like_match (like_pattern OpContains (escapeLike v)) s \<longleftrightarrow> js_includes v s"
    unfolding js_includes_iff using all by (auto simp: match_percent match_literal)
  show "like_match (like_pattern OpStartsWith (escapeLike v)) s \<longleftrightarrow> (\<exists>t. s = v @ t)"
    using all by (simp add: match_literal)
  show "like_match (like_pattern OpEndsWith (escapeLike v)) s \<longleftrightarrow> (\<exists>t. s = t @ v)"
    by (auto simp: match_percent none)
qed

section \<open>Rows\<close>

lemma all_required_Some:
  "all_required cs ns \<Longrightarrow> n \<in> set ns \<Longrightarrow> \<exists>c \<in> set cs. by_name cs n = Some c \<and> \<not> cd_nullable c"
  using by_name_Some by (fastforce simp: all_required_def list_all_iff split: option.splits)

text \<open>
  Claim C33: the identity of a row is sound: a table that counts as editable is identified by the columns
  of one of its primary or unique indexes, there is at least one, and each is a column of the table that
  cannot be null. All other objects have no identity and a reason; so the clause of a mutation only
  reads columns that the table has.
\<close>

theorem identity_is_a_key:
  "if ri_editable (resolveRowIdentity ref cs is)
   then ref_type ref = ''table'' \<and> ri_columns (resolveRowIdentity ref cs is) \<noteq> [] \<and>
     (\<exists>i \<in> set is. (id_primary i \<or> id_unique i) \<and> id_columns i = ri_columns (resolveRowIdentity ref cs is)) \<and>
     list_all (\<lambda>n. \<exists>c \<in> set cs. by_name cs n = Some c \<and> \<not> cd_nullable c) (ri_columns (resolveRowIdentity ref cs is))
   else ri_columns (resolveRowIdentity ref cs is) = [] \<and> ri_reason (resolveRowIdentity ref cs is) \<noteq> None"
  by (auto simp: resolveRowIdentity_def unique_identity_def all_required_Some find_Some_iff list_all_iff split: option.splits)

text \<open>A primary key comes first.\<close>

lemma primary_identity:
  assumes "ref_type ref = ''table''" "find (\<lambda>i. id_primary i \<and> id_columns i \<noteq> []) is = Some p" "all_required cs (id_columns p)"
  shows "ri_columns (resolveRowIdentity ref cs is) = id_columns p \<and> ri_kind (resolveRowIdentity ref cs is) = Some IdPrimary"
  using assms by (simp add: resolveRowIdentity_def)

section \<open>Pages\<close>

lemma requested_distinct: "requested_sorts cs acc ss = Inr xs \<Longrightarrow> distinct (map fst acc) \<Longrightarrow> distinct (map fst xs)"
  by (induction cs acc ss rule: requested_sorts.induct) (auto split: if_splits)

lemma key_sorts_distinct: "distinct (map fst acc) \<Longrightarrow> distinct (map fst (key_sorts acc ns))"
  by (induction acc ns rule: key_sorts.induct) auto

lemma key_sorts_prefix: "\<exists>k. key_sorts acc ns = acc @ map (\<lambda>n. (n, Asc)) k"
proof (induction acc ns rule: key_sorts.induct)
  case (2 acc n ns)
  show ?case
  proof (cases "n \<in> set (map fst acc)")
    case True
    then show ?thesis using 2 by simp
  next
    case False
    then obtain k where "key_sorts (acc @ [(n, Asc)]) ns = (acc @ [(n, Asc)]) @ map (\<lambda>n. (n, Asc)) k" using 2 by auto
    then have "key_sorts acc (n # ns) = acc @ map (\<lambda>n. (n, Asc)) (n # k)" using False by simp
    then show ?thesis by blast
  qed
qed simp

text \<open>
  Claim C28: a page is ordered by the columns that were asked for, then by the rest of the primary key:
  the order has no column twice and every column of the key, so two rows of a table never tie and
  following pages neither repeat nor skip a row of an unchanged table; and the page asks for at most
  501 rows, one more than it shows.
\<close>

theorem pages_ordered_by_key:
  assumes "buildDataQuery d r cs primary = Inr q"
  shows "\<exists>sorts limit off. requested_sorts cs [] (case pr_sort r of Some s \<Rightarrow> s | None \<Rightarrow> []) = Inr sorts \<and>
    (let order = key_sorts sorts primary in
       distinct (map fst order) \<and> set primary \<subseteq> fst ` set order \<and> take (length sorts) order = sorts \<and>
       (\<exists>head clause. order_clause d order = Inr clause \<and> bq_sql q = head @ clause @ '' LIMIT ? OFFSET ?'')) \<and>
    (\<exists>ps. bq_parameters q = ps @ [Par (JNum (limit + 1)), Par (JNum off)]) \<and> 1 \<le> limit \<and> limit \<le> 500 \<and> 0 \<le> off"
proof -
  obtain l off fs ss sorts ord tb names where s:
    "requested_sorts cs [] (case pr_sort r of Some s \<Rightarrow> s | None \<Rightarrow> []) = Inr sorts"
    "order_clause d (key_sorts sorts primary) = Inr ord" "q = page_query names tb (fs @ ss) ord l off"
    "normalizePage r = Inr (l, off)"
    using assms by (rule page_Inr)
  let ?order = "key_sorts sorts primary"
  have "distinct (map fst ?order)" using key_sorts_distinct [OF requested_distinct [OF s(1)]] by simp
  moreover have "set primary \<subseteq> fst ` set ?order" using key_sorts_set [of sorts primary] by blast
  moreover have "take (length sorts) ?order = sorts" using key_sorts_prefix [of sorts primary] by auto
  moreover have "bq_sql q = (''SELECT '' @ join '', '' names @ '' FROM '' @ tb @ where_clause (fs @ ss)) @ ord @ '' LIMIT ? OFFSET ?''"
    by (simp only: s(3) page_query_def bound_query.simps append_assoc)
  moreover have "bq_parameters q = concat (map snd (fs @ ss)) @ [Par (JNum (l + 1)), Par (JNum off)]"
    by (simp only: s(3) page_query_def bound_query.simps)
  moreover have "1 \<le> l" "l \<le> 500" "0 \<le> off"
    using s(4) by (auto simp: normalizePage_def DATA_MAX_PAGE_SIZE_def split: if_splits)
  ultimately show ?thesis using s(1,2) unfolding Let_def by blast
qed

text \<open>A page of rows sorted by note asks for the notes in falling order, then for the rising ids.\<close>

definition by_note :: page_request where
  "by_note = (plain_page sample_table_ref)\<lparr>pr_sort := Some [(''note'', Desc), (''note'', Asc)]\<rparr>"

definition by_note_query :: bound_query where
  "by_note_query = \<lparr>bq_sql = ''SELECT \"id\", \"note\" FROM \"s\".\"t\" ORDER BY \"note\" DESC, \"id\" ASC LIMIT ? OFFSET ?'',
     bq_parameters = [Par (JNum 101), Par (JNum 0)]\<rparr>"

lemma by_note_built: "buildDataQuery pg_dialect by_note sample_columns [''id''] = Inr by_note_query"
  by code_simp

theorem pages_ordered_by_key_witness:
  "\<exists>limit off. (\<exists>ps. bq_parameters by_note_query = ps @ [Par (JNum (limit + 1)), Par (JNum off)]) \<and> 1 \<le> limit \<and> limit \<le> 500"
  using pages_ordered_by_key [OF by_note_built] by blast

section \<open>Integers\<close>

text \<open>
  An integer keeps all its digits: a number that the driver returned as a big integer and the
  page serialized is sent back as its exact decimal text in the key of a mutation, however large it is.
\<close>

theorem integer_keys_are_exact:
  assumes "has_word INTEGER_WORDS (js_lower (cd_dataType c))" "\<not> js_includes ''json'' (js_lower (cd_dataType c))"
    "\<not> js_includes ''bool'' (js_lower (cd_dataType c))" "has_any (dd_numbers d) (js_lower (cd_dataType c))"
  shows "writeValue js d (serializeQueryCell (VBigint n)) c = Inr (Par (JStr (show_int n)))"
proof -
  have t: "js_trim (show_int n) = show_int n" and w: "whole_number (show_int n)"
    using show_int_number by auto
  show ?thesis using assms by (simp add: writeValue_def Let_def numericParameter_def t w)
qed

theorem integer_keys_are_exact_witness:
  "writeValue plain_reader pg_dialect (serializeQueryCell (VBigint 9007199254740993)) (sample_columns ! 0)
     = Inr (Par (JStr (show_int 9007199254740993)))"
  by (rule integer_keys_are_exact) (code_simp+)

section \<open>Requests that fail\<close>

text \<open>
  The count of a page is not the count of its rows when the page has some of the columns and a
  search: the page searches the columns it has, the count all columns of text, so it also counts rows
  that no page of the search shows.
\<close>

theorem count_searches_other_columns:
  "let r = (plain_page sample_table_ref)\<lparr>pr_columns := Some [''id'', ''title''], pr_search := Some ''x''\<rparr>;
       cs = sample_columns @ [(sample_columns ! 1)\<lparr>cd_name := ''title''\<rparr>] in
   map_option bq_sql (case buildMysqlDataQuery r cs [] of Inl e \<Rightarrow> None | Inr q \<Rightarrow> Some q)
     = Some (''SELECT `id`, `title` FROM `d`.`t` WHERE (`title` LIKE ? ESCAPE '' @ [CHR 0x27, CHR 0x5C, CHR 0x5C, CHR 0x27] @ '') LIMIT ? OFFSET ?'')
   \<and> map_option bq_sql (case countQuery my_dialect r cs [] of Inl e \<Rightarrow> None | Inr q \<Rightarrow> Some q)
     = Some (''SELECT COUNT(*) AS total FROM `d`.`t` WHERE (`note` LIKE ? ESCAPE '' @ [CHR 0x27, CHR 0x5C, CHR 0x5C, CHR 0x27]
         @ '' OR `title` LIKE ? ESCAPE '' @ [CHR 0x27, CHR 0x5C, CHR 0x5C, CHR 0x27] @ '')'')"
  by code_simp

text \<open>
  A row of defaults cannot be inserted in MySQL into a table without an auto-increment key: the
  statement that reads the new row back has an empty condition, and the transaction is rolled back.
\<close>

theorem default_row_lookup_is_malformed:
  "buildMysqlInsertQuery plain_reader sample_table_ref [] sample_columns
     = Inr \<lparr>bq_sql = ''INSERT INTO `d`.`t` () VALUES ()'', bq_parameters = []\<rparr>
   \<and> insertedRowQuery plain_reader sample_table_ref [] sample_columns []
     = Inr \<lparr>bq_sql = ''SELECT * FROM `d`.`t` WHERE '', bq_parameters = []\<rparr>"
  by code_simp

text \<open>
  The type \<open>interval\<close> contains the word \<open>int\<close>: its columns are filtered as numbers and accept no
  text, although the code lists it with the dates; the same holds of every MySQL enumeration with such
  a value.
\<close>

theorem intervals_are_numbers:
  "pg_columnKind ((sample_columns ! 1)\<lparr>cd_dataType := ''interval''\<rparr>) = KindNumber
   \<and> writeValue plain_reader pg_dialect (CString ''1 day'') ((sample_columns ! 1)\<lparr>cd_dataType := ''interval''\<rparr>)
     = Inl (DataSyntax ''Column note expects a number'')
   \<and> writeValue plain_reader my_dialect (CString ''web'') ((sample_columns ! 1)\<lparr>cd_dataType := ''enum(print,web)''\<rparr>)
     = Inl (DataSyntax ''Column note expects a number'')"
  by code_simp

end
