(* ===== verification/RowSafety.thy ===== *)
theory RowSafety
  imports RowMeaning
begin

text \<open>
  Mutations of rows and their transactions: the contract of a session that runs statements
  (\<open>data_session\<close>, with a reference session), rules that follow an operation step by step, and that a
  mutation stores either nothing or the statements for exactly the rows it names.
\<close>

section \<open>The contract of a session\<close>

text \<open>A statement, its parameters and the rows the database answered with.\<close>

type_synonym entry = "string \<times> param list \<times> data_row list"

text \<open>
  What is \<open>stored\<close> for good and what the open transaction has run. Inside of a transaction nothing is
  stored; a commit stores what it has run, a rollback nothing.
\<close>

locale data_session =
  fixes p :: "'w data_port" and stored :: "'w \<Rightarrow> entry list" and tx :: "'w \<Rightarrow> entry list option"
  assumes begun: "tx w = None \<Longrightarrow> dq_begin p w = (w', Inr ()) \<Longrightarrow> stored w' = stored w \<and> tx w' = Some []"
    and not_begun: "dq_begin p w = (w', Inl e) \<Longrightarrow> stored w' = stored w"
    and ran: "tx w = Some log \<Longrightarrow> dq_run p s ps w = (w', Inr rs) \<Longrightarrow> stored w' = stored w \<and> tx w' = Some (log @ [(s, ps, rs)])"
    and not_ran: "tx w = Some log \<Longrightarrow> dq_run p s ps w = (w', Inl e) \<Longrightarrow> stored w' = stored w"
    and committed: "tx w = Some log \<Longrightarrow> dq_commit p w = (w', Inr ()) \<Longrightarrow> stored w' = stored w @ log"
    and not_committed: "dq_commit p w = (w', Inl e) \<Longrightarrow> stored w' = stored w"
    and rolled_back: "dq_rollback p w = (w', r) \<Longrightarrow> stored w' = stored w"

text \<open>
  An operation in a transaction: it stores nothing, and with a result \<open>a\<close> it has run statements that
  satisfy \<open>P a\<close>.
\<close>

definition grows ::
  "('w \<Rightarrow> entry list) \<Rightarrow> ('w \<Rightarrow> entry list option) \<Rightarrow> ('w \<Rightarrow> 'w \<times> (data_error + 'a)) \<Rightarrow> ('a \<Rightarrow> entry list \<Rightarrow> bool) \<Rightarrow> bool" where
  "grows stored tx operation P \<longleftrightarrow> (\<forall>w log w' r. tx w = Some log \<longrightarrow> operation w = (w', r) \<longrightarrow>
     stored w' = stored w \<and> (\<forall>a. r = Inr a \<longrightarrow> (\<exists>x. tx w' = Some (log @ x) \<and> P a x)))"

lemma grows_finish: "(\<And>a. r = Inr a \<Longrightarrow> P a []) \<Longrightarrow> grows stored tx (finish_with r) P"
  by (simp add: grows_def finish_with_def)

lemma grows_error: "grows stored tx (finish_with (Inl e)) P"
  by (rule grows_finish) simp

lemma grows_continue:
  assumes "grows stored tx m M" "\<And>a x. M a x \<Longrightarrow> grows stored tx (f a) (\<lambda>b y. P b (x @ y))"
  shows "grows stored tx (continue m f) P"
  unfolding grows_def
proof (intro allI impI)
  fix w log w' r assume w: "tx w = Some log" and c: "continue m f w = (w', r)"
  obtain w1 r1 where m: "m w = (w1, r1)" by (cases "m w")
  have s1: "stored w1 = stored w" and a1: "r1 = Inr a \<Longrightarrow> \<exists>x. tx w1 = Some (log @ x) \<and> M a x" for a
    using assms(1) w m unfolding grows_def by blast+
  show "stored w' = stored w \<and> (\<forall>a. r = Inr a \<longrightarrow> (\<exists>x. tx w' = Some (log @ x) \<and> P a x))"
  proof (cases r1)
    case (Inl e)
    then show ?thesis using c m s1 by (auto simp: continue_def)
  next
    case (Inr a)
    obtain x where x: "tx w1 = Some (log @ x)" "M a x" using a1 [OF Inr] by blast
    have "f a w1 = (w', r)" using c m Inr by (simp add: continue_def)
    then show ?thesis using assms(2) [OF x(2)] x(1) s1 unfolding grows_def by fastforce
  qed
qed

lemma grows_weaken: "grows stored tx m M \<Longrightarrow> (\<And>a x. M a x \<Longrightarrow> P a x) \<Longrightarrow> grows stored tx m P"
  unfolding grows_def by blast

lemma one_row: "rs \<noteq> [] \<Longrightarrow> \<not> length rs > 1 \<Longrightarrow> \<exists>row. rs = [row]"
  by (cases rs) auto

text \<open>The loop of a bulk deletion: what each key satisfies, all of them do.\<close>

lemma grows_each:
  assumes "\<And>k. grows stored tx (one k) (\<lambda>single x. single \<longrightarrow> D k x)"
  shows "grows stored tx (delete_each one n ks)
    (\<lambda>m x. m = \<lparr>mr_affected = n + int (length ks), mr_returning = None\<rparr> \<and> (\<exists>xs. list_all2 D ks xs \<and> x = concat xs))"
proof (induction ks arbitrary: n)
  case Nil
  show ?case by (auto intro!: grows_finish)
next
  case (Cons k ks)
  show ?case unfolding delete_each.simps
  proof (rule grows_continue [OF assms])
    fix single x assume x: "single \<longrightarrow> D k x"
    show "grows stored tx (if single then delete_each one (n + 1) ks else finish_with (Inl rows_gone))
      (\<lambda>m y. m = \<lparr>mr_affected = n + int (length (k # ks)), mr_returning = None\<rparr> \<and> (\<exists>xs. list_all2 D (k # ks) xs \<and> x @ y = concat xs))"
    proof (cases single)
      case True
      have "\<exists>zs. list_all2 D (k # ks) zs \<and> x @ concat xs = concat zs" if "list_all2 D ks xs" for xs
        using that x True by (intro exI [of _ "x # xs"]) simp
      then show ?thesis using True by (auto intro!: grows_weaken [OF Cons.IH [of "n + 1"]])
    qed (simp add: grows_error)
  qed
qed

context data_session begin

lemma my_execute_grows: "grows stored tx (my_execute p q) (\<lambda>rs x. x = [(bq_sql q, bq_parameters q, rs)])"
  unfolding grows_def my_execute_def
proof (intro allI impI)
  fix w log w' r assume "tx w = Some log" "dq_run p (bq_sql q) (bq_parameters q) w = (w', r)"
  then show "stored w' = stored w \<and> (\<forall>a. r = Inr a \<longrightarrow> (\<exists>x. tx w' = Some (log @ x) \<and> x = [(bq_sql q, bq_parameters q, a)]))"
    using ran not_ran by (cases r) auto
qed

lemma pg_execute_grows: "grows stored tx (pg_execute p q) (\<lambda>rs x. x = [(bq_sql q, bq_parameters q, rs)])"
  using my_execute_grows [of q] unfolding grows_def my_execute_def pg_execute_def by auto

lemma my_counted_grows:
  "grows stored tx (my_counted p js q) (\<lambda>n x. \<exists>rs cs. n = affected_rows js cs
     \<and> x = [(bq_sql q, bq_parameters q, rs), (bq_sql row_count_query, [], cs)])"
  unfolding my_counted_def
proof (rule grows_continue [OF my_execute_grows], rule grows_continue [OF my_execute_grows])
  fix rs cs :: "data_row list" and x y
  assume "x = [(bq_sql q, bq_parameters q, rs)]" "y = [(bq_sql row_count_query, bq_parameters row_count_query, cs)]"
  then show "grows stored tx (finish_with (Inr (affected_rows js cs))) (\<lambda>n z. \<exists>rs cs. n = affected_rows js cs
      \<and> x @ y @ z = [(bq_sql q, bq_parameters q, rs), (bq_sql row_count_query, [], cs)])"
    by (intro grows_finish) (auto simp: row_count_query_def)
qed

lemma transacted_grows:
  assumes "grows stored tx operation P" "tx w = None" "transacted p operation w = (w', r)"
  shows "(\<exists>e. r = Inl e) \<and> stored w' = stored w \<or> (\<exists>a log. r = Inr a \<and> stored w' = stored w @ log \<and> P a log)"
proof -
  obtain w1 b where b: "dq_begin p w = (w1, b)" by (cases "dq_begin p w")
  obtain w2 x where x: "operation w1 = (w2, x)" by (cases "operation w1")
  obtain w3 c where c: "dq_commit p w2 = (w3, c)" by (cases "dq_commit p w2")
  note rb = rolled_back [OF prod.collapse [symmetric]]
  show ?thesis
  proof (cases b)
    case (Inl e)
    then show ?thesis using assms(3) b not_begun by (auto simp: transacted_def)
  next
    case (Inr u)
    then have w1: "stored w1 = stored w" "tx w1 = Some []" using begun [OF assms(2), of w1] b by simp_all
    have w2: "stored w2 = stored w1" "x = Inr a \<Longrightarrow> \<exists>log. tx w2 = Some log \<and> P a log" for a
      using assms(1) w1(2) x unfolding grows_def by fastforce+
    show ?thesis
    proof (cases x)
      case e: (Inl e)
      then have "w' = fst (dq_rollback p w2) \<and> r = Inl e"
        using assms(3) b Inr x by (simp add: transacted_def continue_def)
      then show ?thesis using rb [of w2] w1 w2 by simp
    next
      case a: (Inr a)
      obtain log where log: "tx w2 = Some log" "P a log" using w2(2) [OF a] by blast
      show ?thesis
      proof (cases c)
        case d: (Inl d)
        then have "w' = fst (dq_rollback p w3) \<and> r = Inl d"
          using assms(3) b Inr x a c by (simp add: transacted_def continue_def)
        then show ?thesis using rb [of w3] not_committed c d w1 w2 by simp
      next
        case d: (Inr d)
        then have "w' = w3 \<and> r = Inr a"
          using assms(3) b Inr x a c by (simp add: transacted_def continue_def finish_with_def)
        then show ?thesis using committed [OF log(1), of w3] c d log(2) w1 w2 by simp
      qed
    qed
  qed
qed

lemma pg_bulk:
  assumes "pg_bulkDelete p js ref keys w = (w', r)" "tx w = None"
  shows "(\<exists>e. r = Inl e) \<and> stored w' = stored w \<or>
    (\<exists>t log. dq_describe p ref w = Inr t \<and> stored w' = stored w @ log \<and>
      r = Inr \<lparr>mr_affected = int (length keys), mr_returning = None\<rparr> \<and>
      list_all2 (\<lambda>k (s, ps, rs). buildPostgresqlDeleteQuery js ref k (dt_columns t)
          (resolveRowIdentity ref (dt_columns t) (dt_indexes t)) = Inr \<lparr>bq_sql = s, bq_parameters = ps\<rparr> \<and> length rs = 1) keys log)"
proof (cases "dq_describe p ref w")
  case (Inr t)
  let ?D = "\<lambda>k x. \<exists>e. x = [e] \<and> (case e of (s, ps, rs) \<Rightarrow> buildPostgresqlDeleteQuery js ref k (dt_columns t)
          (resolveRowIdentity ref (dt_columns t) (dt_indexes t)) = Inr \<lparr>bq_sql = s, bq_parameters = ps\<rparr> \<and> length rs = 1)"
  have "grows stored tx (pg_delete_one p js ref t k) (\<lambda>single x. single \<longrightarrow> ?D k x)" for k
    unfolding pg_delete_one_def
    by (rule grows_continue [where M = "\<lambda>q x. x = [] \<and> buildPostgresqlDeleteQuery js ref k (dt_columns t)
          (resolveRowIdentity ref (dt_columns t) (dt_indexes t)) = Inr q"])
      (auto intro!: grows_finish grows_continue [OF pg_execute_grows])
  note each = grows_each [of stored tx, OF this]
  have "transacted p (delete_each (pg_delete_one p js ref t) 0 keys) w = (w', r)"
    using assms(1) Inr by (simp add: pg_bulkDelete_def continue_def finish_with_def)
  from transacted_grows [OF each assms(2) this]
  show ?thesis
  proof (elim disjE exE conjE)
    fix a log xs assume a: "r = Inr a" "stored w' = stored w @ log" "list_all2 ?D keys xs" "log = concat xs"
      "a = \<lparr>mr_affected = 0 + int (length keys), mr_returning = None\<rparr>"
    have "list_all2 (\<lambda>k (s, ps, rs). buildPostgresqlDeleteQuery js ref k (dt_columns t)
          (resolveRowIdentity ref (dt_columns t) (dt_indexes t)) = Inr \<lparr>bq_sql = s, bq_parameters = ps\<rparr> \<and> length rs = 1) keys (concat xs)"
      using a(3) by (induction rule: list_all2_induct) auto
    then show ?thesis using Inr a by auto
  qed auto
qed (use assms(1) in \<open>auto simp: pg_bulkDelete_def continue_def finish_with_def\<close>)

lemma my_bulk:
  assumes "my_bulkDelete p js ref keys w = (w', r)" "tx w = None"
  shows "(\<exists>e. r = Inl e) \<and> stored w' = stored w \<or>
    (\<exists>t logs. dq_describe p ref w = Inr t \<and> stored w' = stored w @ concat logs \<and>
      r = Inr \<lparr>mr_affected = int (length keys), mr_returning = None\<rparr> \<and>
      list_all2 (\<lambda>k log. \<exists>q rs cs. buildMysqlDeleteQuery js ref k (dt_columns t)
          (resolveRowIdentity ref (dt_columns t) (dt_indexes t)) = Inr q \<and> affected_rows js cs = Some 1 \<and>
          log = [(bq_sql q, bq_parameters q, rs), (bq_sql row_count_query, [], cs)]) keys logs)"
proof (cases "dq_describe p ref w")
  case (Inr t)
  let ?D = "\<lambda>k log. \<exists>q rs cs. buildMysqlDeleteQuery js ref k (dt_columns t)
          (resolveRowIdentity ref (dt_columns t) (dt_indexes t)) = Inr q \<and> affected_rows js cs = Some 1 \<and>
          log = [(bq_sql q, bq_parameters q, rs), (bq_sql row_count_query, [], cs)]"
  have "grows stored tx (my_delete_one p js ref t k) (\<lambda>single x. single \<longrightarrow> ?D k x)" for k
    unfolding my_delete_one_def
    by (rule grows_continue [where M = "\<lambda>q x. x = [] \<and> buildMysqlDeleteQuery js ref k (dt_columns t)
          (resolveRowIdentity ref (dt_columns t) (dt_indexes t)) = Inr q"])
      (auto intro!: grows_finish grows_continue [OF my_counted_grows])
  note each = grows_each [of stored tx, OF this]
  have "transacted p (delete_each (my_delete_one p js ref t) 0 keys) w = (w', r)"
    using assms(1) Inr by (simp add: my_bulkDelete_def continue_def finish_with_def)
  from transacted_grows [OF each assms(2) this] show ?thesis using Inr by auto
qed (use assms(1) in \<open>auto simp: my_bulkDelete_def continue_def finish_with_def\<close>)

lemma pg_update_one:
  assumes "pg_update p js ref key vs w = (w', r)" "tx w = None"
  shows "(\<exists>e. r = Inl e) \<and> stored w' = stored w \<or>
    (\<exists>t q row. dq_describe p ref w = Inr t \<and>
      buildPostgresqlUpdateQuery js ref key vs (dt_columns t) (resolveRowIdentity ref (dt_columns t) (dt_indexes t)) = Inr q \<and>
      stored w' = stored w @ [(bq_sql q, bq_parameters q, [row])] \<and> r = Inr \<lparr>mr_affected = 1, mr_returning = Some [row]\<rparr>)"
proof (cases "dq_describe p ref w")
  case (Inr t)
  let ?b = "buildPostgresqlUpdateQuery js ref key vs (dt_columns t) (resolveRowIdentity ref (dt_columns t) (dt_indexes t))"
  show ?thesis
  proof (cases ?b)
    case q: (Inr q)
    let ?op = "continue (pg_execute p q) (\<lambda>rs.
       finish_with (if rs = [] then Inl row_gone
         else if length rs > 1 then Inl (DataInternal ''Row identity matched more than one row'')
         else Inr \<lparr>mr_affected = 1, mr_returning = Some rs\<rparr>))"
    have "grows stored tx ?op (\<lambda>m x. \<exists>row. x = [(bq_sql q, bq_parameters q, [row])] \<and> m = \<lparr>mr_affected = 1, mr_returning = Some [row]\<rparr>)"
      by (rule grows_continue [OF pg_execute_grows], rule grows_finish)
        (use one_row in \<open>auto split: if_splits\<close>)
    moreover have "transacted p ?op w = (w', r)"
      using assms(1) Inr q by (simp add: pg_update_def continue_def finish_with_def Let_def)
    ultimately show ?thesis using transacted_grows [OF _ assms(2)] Inr q by blast
  qed (use assms(1) Inr in \<open>auto simp: pg_update_def continue_def finish_with_def Let_def\<close>)
qed (use assms(1) in \<open>auto simp: pg_update_def continue_def finish_with_def\<close>)

lemma my_update_one:
  assumes "my_update p js ref key vs w = (w', r)" "tx w = None"
  shows "(\<exists>e. r = Inl e) \<and> stored w' = stored w \<or>
    (\<exists>t q look rs cs rest. dq_describe p ref w = Inr t \<and>
      buildMysqlUpdateQuery js ref key vs (dt_columns t) (resolveRowIdentity ref (dt_columns t) (dt_indexes t)) = Inr q \<and>
      identityLookupQuery js ref key (dt_columns t) (resolveRowIdentity ref (dt_columns t) (dt_indexes t)) = Inr look \<and>
      stored w' = stored w @ (bq_sql q, bq_parameters q, rs) # (bq_sql row_count_query, [], cs) # rest \<and>
      (\<forall>(s, ps, _) \<in> set rest. s = bq_sql look \<and> ps = bq_parameters look) \<and>
      (affected_rows js cs = Some 1 \<or> affected_rows js cs = Some 0 \<and> (\<exists>found \<in> set rest. snd (snd found) \<noteq> [])) \<and>
      (\<exists>m. r = Inr m \<and> mr_affected m = 1))"
proof (cases "dq_describe p ref w")
  case (Inr t)
  let ?i = "resolveRowIdentity ref (dt_columns t) (dt_indexes t)"
  let ?b = "buildMysqlUpdateQuery js ref key vs (dt_columns t) ?i"
  show ?thesis
  proof (cases ?b)
    case q: (Inr q)
    let ?look = "finish_with (identityLookupQuery js ref key (dt_columns t) ?i)"
    let ?check = "\<lambda>n. if n = Some 0 then continue ?look (\<lambda>look.
           continue (my_execute p look) (\<lambda>rs. finish_with (if rs = [] then Inl row_gone else Inr (Some 1))))
         else finish_with (Inr n)"
    let ?final = "\<lambda>m. if m \<noteq> Some 1 then finish_with (Inl (DataInternal ''Row identity matched more than one row''))
       else continue ?look (\<lambda>look. continue (my_execute p look) (\<lambda>rs. finish_with (Inr (my_returned 1 rs))))"
    let ?op = "continue (my_counted p js q) (\<lambda>n. continue (?check n) ?final)"
    let ?P = "\<lambda>m x. mr_affected m = 1 \<and> (\<exists>look rs cs rest. identityLookupQuery js ref key (dt_columns t) ?i = Inr look \<and>
        x = (bq_sql q, bq_parameters q, rs) # (bq_sql row_count_query, [], cs) # rest \<and>
        (\<forall>(s, ps, _) \<in> set rest. s = bq_sql look \<and> ps = bq_parameters look) \<and>
        (affected_rows js cs = Some 1 \<or> affected_rows js cs = Some 0 \<and> (\<exists>found \<in> set rest. snd (snd found) \<noteq> [])))"
    have check: "grows stored tx (?check n) (\<lambda>m y. n \<noteq> Some 0 \<and> m = n \<and> y = [] \<or>
        n = Some 0 \<and> (\<exists>look rs. identityLookupQuery js ref key (dt_columns t) ?i = Inr look \<and> rs \<noteq> [] \<and> y = [(bq_sql look, bq_parameters look, rs)]))" for n
    proof (cases "n = Some 0")
      case True
      then show ?thesis unfolding if_P [OF True]
        by (intro grows_continue [where M = "\<lambda>look x. x = [] \<and> identityLookupQuery js ref key (dt_columns t) ?i = Inr look"])
          (auto intro!: grows_finish grows_continue [OF my_execute_grows] split: if_splits)
    qed (auto intro!: grows_finish)
    have ends: "grows stored tx (?final m) (\<lambda>a z. m = Some 1 \<and> mr_affected a = 1 \<and>
        (\<exists>look rs. identityLookupQuery js ref key (dt_columns t) ?i = Inr look \<and> z = [(bq_sql look, bq_parameters look, rs)]))" for m
    proof (cases "m = Some 1")
      case True
      then show ?thesis
        by (auto intro!: grows_finish grows_continue [where M = "\<lambda>look x. x = [] \<and> identityLookupQuery js ref key (dt_columns t) ?i = Inr look"]
            grows_continue [OF my_execute_grows] simp: my_returned_def)
    qed (simp add: grows_error)
    have g: "grows stored tx ?op ?P"
      by (intro grows_continue [OF my_counted_grows] grows_continue [OF check] grows_weaken [OF ends]) auto
    have "transacted p ?op w = (w', r)"
      using assms(1) Inr q by (simp add: my_update_def continue_def finish_with_def Let_def)
    from transacted_grows [OF g assms(2) this] show ?thesis
    proof (elim disjE exE conjE)
      fix e assume "r = Inl e" "stored w' = stored w"
      then show ?thesis by simp
    next
      fix m log look rs cs rest
      assume a: "r = Inr m" "stored w' = stored w @ log" "mr_affected m = 1"
        "identityLookupQuery js ref key (dt_columns t) ?i = Inr look"
        "log = (bq_sql q, bq_parameters q, rs) # (bq_sql row_count_query, [], cs) # rest"
        "\<forall>(s, ps, _) \<in> set rest. s = bq_sql look \<and> ps = bq_parameters look"
        "affected_rows js cs = Some 1"
      show ?thesis
        by (rule disjI2, rule exI [of _ t], rule exI [of _ q], rule exI [of _ look], rule exI [of _ rs], rule exI [of _ cs],
            rule exI [of _ rest]) (use a Inr q in simp)
    next
      fix m log look rs cs rest
      assume a: "r = Inr m" "stored w' = stored w @ log" "mr_affected m = 1"
        "identityLookupQuery js ref key (dt_columns t) ?i = Inr look"
        "log = (bq_sql q, bq_parameters q, rs) # (bq_sql row_count_query, [], cs) # rest"
        "\<forall>(s, ps, _) \<in> set rest. s = bq_sql look \<and> ps = bq_parameters look"
        "affected_rows js cs = Some 0" "\<exists>found \<in> set rest. snd (snd found) \<noteq> []"
      show ?thesis
        by (rule disjI2, rule exI [of _ t], rule exI [of _ q], rule exI [of _ look], rule exI [of _ rs], rule exI [of _ cs],
            rule exI [of _ rest]) (use a Inr q in simp)
    qed
  qed (use assms(1) Inr in \<open>auto simp: my_update_def continue_def finish_with_def Let_def\<close>)
qed (use assms(1) in \<open>auto simp: my_update_def continue_def finish_with_def\<close>)

end

section \<open>A reference session\<close>

text \<open>
  The session that keeps what it has run in its world: \<open>t\<close> is the description of every table and
  \<open>answers\<close> the outcome of a statement with its parameters.
\<close>

record row_world =
  rw_stored :: "entry list"
  rw_tx :: "entry list option"

definition row_start :: row_world where
  "row_start = \<lparr>rw_stored = [], rw_tx = None\<rparr>"

definition row_sim :: "data_table \<Rightarrow> (string \<Rightarrow> param list \<Rightarrow> data_error + data_row list) \<Rightarrow> row_world data_port" where
  "row_sim t answers = \<lparr>dq_describe = (\<lambda>ref w. Inr t), dq_columns = (\<lambda>ref w. Inr (dt_columns t)),
     dq_run = (\<lambda>s ps w. case answers s ps of Inl e \<Rightarrow> (w, Inl e)
       | Inr rs \<Rightarrow> (w\<lparr>rw_tx := map_option (\<lambda>log. log @ [(s, ps, rs)]) (rw_tx w)\<rparr>, Inr rs)),
     dq_begin = (\<lambda>w. (w\<lparr>rw_tx := Some []\<rparr>, Inr ())),
     dq_commit = (\<lambda>w. (\<lparr>rw_stored = rw_stored w @ (case rw_tx w of None \<Rightarrow> [] | Some log \<Rightarrow> log), rw_tx = None\<rparr>, Inr ())),
     dq_rollback = (\<lambda>w. (w\<lparr>rw_tx := None\<rparr>, Inr ()))\<rparr>"

interpretation row_sim: data_session "row_sim t answers" rw_stored rw_tx
  by unfold_locales (auto simp: row_sim_def split: sum.splits)

definition sample_described :: data_table where
  "sample_described = \<lparr>dt_columns = sample_columns, dt_indexes = [\<lparr>id_name = ''t_pkey'', id_columns = [''id''],
     id_unique = True, id_primary = True\<rparr>], dt_estimated = None\<rparr>"

section \<open>Mutations on the adapters\<close>

text \<open>
  A bulk deletion of the PostgreSQL adapter is all or nothing and exact: it either fails and
  stores nothing, or it stores one statement for each key, in the order of the keys, each built from that
  key by the identity of the table and each with exactly one row deleted, and answers their number.
\<close>

theorem bulk_deletes_are_exact:
  assumes "data_session p stored tx" "tx w = None" "pg_bulkDelete p js ref keys w = (w', r)"
  shows "(\<exists>e. r = Inl e) \<and> stored w' = stored w \<or>
    (\<exists>t log. dq_describe p ref w = Inr t \<and> stored w' = stored w @ log \<and>
      r = Inr \<lparr>mr_affected = int (length keys), mr_returning = None\<rparr> \<and>
      list_all2 (\<lambda>k (s, ps, rs). buildPostgresqlDeleteQuery js ref k (dt_columns t)
          (resolveRowIdentity ref (dt_columns t) (dt_indexes t)) = Inr \<lparr>bq_sql = s, bq_parameters = ps\<rparr> \<and> length rs = 1) keys log)"
  using data_session.pg_bulk [OF assms(1,3,2)] .

text \<open>The second key matches no row, so the first row stays.\<close>

definition one_row_only :: "row_world data_port" where
  "one_row_only = row_sim sample_described (\<lambda>s ps. Inr (if ps = [Par (JStr ''1'')] then [[]] else []))"

lemma second_key_fails:
  "\<exists>e. snd (pg_bulkDelete one_row_only plain_reader sample_table_ref [[(''id'', CNumber ''1'')], [(''id'', CNumber ''2'')]] row_start) = Inl e"
  by (rule exI [of _ rows_gone]) code_simp

theorem bulk_deletes_are_exact_witness:
  "rw_stored (fst (pg_bulkDelete one_row_only plain_reader sample_table_ref
     [[(''id'', CNumber ''1'')], [(''id'', CNumber ''2'')]] row_start)) = []"
proof -
  let ?keys = "[[(''id'', CNumber ''1'')], [(''id'', CNumber ''2'')]]"
  have d: "data_session one_row_only rw_stored rw_tx"
    unfolding one_row_only_def by (rule row_sim.data_session_axioms)
  have s: "rw_tx row_start = None" "rw_stored row_start = []" by (simp_all add: row_start_def)
  obtain e where e: "snd (pg_bulkDelete one_row_only plain_reader sample_table_ref ?keys row_start) = Inl e"
    using second_key_fails by blast
  show ?thesis
    using bulk_deletes_are_exact [OF d s(1) prod.collapse [symmetric], of plain_reader sample_table_ref ?keys] e s(2) by auto
qed

text \<open>
  Claim C18: an update of the MySQL adapter stores the statement of the row's identity and changes one
  row: it fails and stores nothing, or \<open>ROW_COUNT\<close> read right after the statement was one, or it was zero
  and a row of that identity was found, which had the values already. The answer is one row.
\<close>

theorem updates_change_one_row:
  assumes "data_session p stored tx" "tx w = None" "my_update p js ref key vs w = (w', r)"
  shows "(\<exists>e. r = Inl e) \<and> stored w' = stored w \<or>
    (\<exists>t q look rs cs rest. dq_describe p ref w = Inr t \<and>
      buildMysqlUpdateQuery js ref key vs (dt_columns t) (resolveRowIdentity ref (dt_columns t) (dt_indexes t)) = Inr q \<and>
      identityLookupQuery js ref key (dt_columns t) (resolveRowIdentity ref (dt_columns t) (dt_indexes t)) = Inr look \<and>
      stored w' = stored w @ (bq_sql q, bq_parameters q, rs) # (bq_sql row_count_query, [], cs) # rest \<and>
      (\<forall>(s, ps, _) \<in> set rest. s = bq_sql look \<and> ps = bq_parameters look) \<and>
      (affected_rows js cs = Some 1 \<or> affected_rows js cs = Some 0 \<and> (\<exists>found \<in> set rest. snd (snd found) \<noteq> [])) \<and>
      (\<exists>m. r = Inr m \<and> mr_affected m = 1))"
  using data_session.my_update_one [OF assms(1,3,2)] .

text \<open>A database that answers \<open>n\<close> to the count of affected rows.\<close>

definition counts :: "int \<Rightarrow> row_world data_port" where
  "counts n = row_sim sample_described (\<lambda>s ps. Inr (if ps = [] then [[(''affected_rows'', VBigint n)]] else []))"

lemma two_rows_fail:
  "\<exists>e. snd (my_update (counts 2) plain_reader sample_table_ref [(''id'', CNumber ''1'')] [(''note'', CString ''x'')] row_start) = Inl e"
  by (rule exI [of _ "DataInternal ''Row identity matched more than one row''"]) code_simp

theorem updates_change_one_row_witness:
  "rw_stored (fst (my_update (counts 2) plain_reader sample_table_ref [(''id'', CNumber ''1'')] [(''note'', CString ''x'')] row_start)) = []"
proof -
  have d: "data_session (counts 2) rw_stored rw_tx"
    unfolding counts_def by (rule row_sim.data_session_axioms)
  have s: "rw_tx row_start = None" "rw_stored row_start = []" by (simp_all add: row_start_def)
  obtain e where e: "snd (my_update (counts 2) plain_reader sample_table_ref [(''id'', CNumber ''1'')] [(''note'', CString ''x'')] row_start) = Inl e"
    using two_rows_fail by blast
  show ?thesis
    using updates_change_one_row [OF d s(1) prod.collapse [symmetric], of plain_reader sample_table_ref "[(''id'', CNumber ''1'')]" "[(''note'', CString ''x'')]"]
      e s(2) by auto
qed

lemma one_row_updates:
  "snd (my_update (counts 1) plain_reader sample_table_ref [(''id'', CNumber ''1'')] [(''note'', CString ''x'')] row_start)
     = Inr \<lparr>mr_affected = 1, mr_returning = None\<rparr>"
  by code_simp

end
