(* ===== verification/RowService.thy ===== *)
theory RowService
  imports RowRequests RowSafety
begin

text \<open>
  \<open>DataBrowserService\<close> of \<open>apps/server/src/data-browser/data-browser.ts\<close> and the routes on it
  (\<open>apps/server/src/data-browser/routes.ts\<close>): reading pages, mutations, and the audit entry of a deletion.
  The adapter of the connection is given, None if the provider has none; so is the actor. The metadata
  cache that a mutation clears is not modelled. Then what a deletion guarantees from the request body to
  the rows and the audit log.
\<close>

section \<open>The service\<close>

record 'w data_adapter =
  da_page :: "page_request \<Rightarrow> 'w \<Rightarrow> 'w \<times> (data_error + data_page)"
  da_insert :: "object_ref \<Rightarrow> cells \<Rightarrow> 'w \<Rightarrow> 'w \<times> (data_error + mutation_result)"
  da_update :: "object_ref \<Rightarrow> cells \<Rightarrow> cells \<Rightarrow> 'w \<Rightarrow> 'w \<times> (data_error + mutation_result)"
  da_delete :: "object_ref \<Rightarrow> cells \<Rightarrow> 'w \<Rightarrow> 'w \<times> (data_error + mutation_result)"
  da_bulkDelete :: "object_ref \<Rightarrow> cells list \<Rightarrow> 'w \<Rightarrow> 'w \<times> (data_error + mutation_result)"

definition postgresql_data :: "'w data_port \<Rightarrow> js_reader \<Rightarrow> 'w data_adapter" where
  "postgresql_data p js = \<lparr>da_page = pg_page p js, da_insert = pg_insert p js, da_update = pg_update p js,
     da_delete = pg_delete p js, da_bulkDelete = pg_bulkDelete p js\<rparr>"

definition mysql_data :: "'w data_port \<Rightarrow> js_reader \<Rightarrow> 'w data_adapter" where
  "mysql_data p js = \<lparr>da_page = my_page p js, da_insert = my_insert p js, da_update = my_update p js,
     da_delete = my_delete p js, da_bulkDelete = my_bulkDelete p js\<rparr>"

record read_response =
  rd_ref :: object_ref
  rd_columns :: "string list"
  rd_meta :: "(column_definition \<times> bool) list"
  rd_rows :: "serialized_row list"
  rd_total :: "int \<times> bool"
  rd_limit :: int
  rd_offset :: int
  rd_hasMore :: bool
  rd_identity :: row_identity

record mutation_response =
  mu_affected :: int
  mu_row :: "serialized_row option"

definition dataPort :: "'w data_adapter option \<Rightarrow> 'w \<Rightarrow> 'w \<times> (data_error + 'w data_adapter)" where
  "dataPort a = finish_with (case a of None \<Rightarrow> Inl DataUnsupported | Some x \<Rightarrow> Inr x)"

definition serializeRow :: "data_row \<Rightarrow> serialized_row" where
  "serializeRow row = foldl (\<lambda>m (n, v). js_set m n (serializeQueryCell v)) [] row"

definition read_response_of :: "page_request \<Rightarrow> data_page \<Rightarrow> read_response" where
  "read_response_of r g =
     (let cs = map (\<lambda>(c, _). cd_name c) (dg_columns g) in
      \<lparr>rd_ref = pr_table r, rd_columns = cs, rd_meta = dg_columns g, rd_rows = map (serialize_row cs) (dg_rows g),
       rd_total = (dg_total g, dg_exact g), rd_limit = page_limit r, rd_offset = page_offset r,
       rd_hasMore = dg_hasMore g, rd_identity = dg_identity g\<rparr>)"

definition browser_read :: "'w data_adapter option \<Rightarrow> page_request \<Rightarrow> 'w \<Rightarrow> 'w \<times> (data_error + read_response)" where
  "browser_read a r = continue (dataPort a) (\<lambda>x. continue (da_page x r) (\<lambda>g. finish_with (Inr (read_response_of r g))))"

definition browser_mutate ::
  "('w \<Rightarrow> 'w \<times> (data_error + mutation_result)) \<Rightarrow> 'w \<Rightarrow> 'w \<times> (data_error + mutation_response)" where
  "browser_mutate operation = continue operation (\<lambda>m. finish_with (Inr \<lparr>mu_affected = mr_affected m,
     mu_row = (case mr_returning m of Some (row # _) \<Rightarrow> Some (serializeRow row) | _ \<Rightarrow> None)\<rparr>))"

definition browser_insert ::
  "'w data_adapter option \<Rightarrow> object_ref \<Rightarrow> cells \<Rightarrow> 'w \<Rightarrow> 'w \<times> (data_error + mutation_response)" where
  "browser_insert a ref vs = browser_mutate (continue (dataPort a) (\<lambda>x. da_insert x ref vs))"

definition browser_update ::
  "'w data_adapter option \<Rightarrow> object_ref \<Rightarrow> cells \<Rightarrow> cells \<Rightarrow> 'w \<Rightarrow> 'w \<times> (data_error + mutation_response)" where
  "browser_update a ref key vs = browser_mutate (continue (dataPort a) (\<lambda>x. da_update x ref key vs))"

text \<open>The audit entry of a deletion of \<open>n\<close> rows.\<close>

definition deletion_draft :: "string \<Rightarrow> string \<Rightarrow> object_ref \<Rightarrow> nat \<Rightarrow> audit_draft" where
  "deletion_draft actor conn ref n =
     \<lparr>daction = ''data.rows_deleted'', dactor = Some actor, dtargetType = None,
      dtargetRef = Some (ref_database ref @ ''.'' @ (case ref_schema ref of Some s \<Rightarrow> s | None \<Rightarrow> []) @ ''.'' @ ref_name ref),
      dconnection = Some conn, ddetails = Some [(''table'', JStr (ref_name ref)), (''count'', JNum (int n))]\<rparr>"

definition run_deletion ::
  "'w data_adapter option \<Rightarrow> ('w data_adapter \<Rightarrow> 'w \<Rightarrow> 'w \<times> (data_error + mutation_result)) \<Rightarrow> 'w \<Rightarrow> 'w \<times> (data_error + int)" where
  "run_deletion a delete = continue (dataPort a) (\<lambda>x. continue (delete x) (\<lambda>m. finish_with (Inr (mr_affected m))))"

definition deleteMutation ::
  "audit_context option \<Rightarrow> string \<Rightarrow> string \<Rightarrow> object_ref \<Rightarrow> nat \<Rightarrow> ('w \<Rightarrow> 'w \<times> (data_error + int)) \<Rightarrow>
     'w \<Rightarrow> db \<Rightarrow> ('w \<times> db) \<times> (data_error audited_error + int)" where
  "deleteMutation c actor conn ref n run w d =
     (let (w', r) = run w in
      case c of
        None \<Rightarrow> ((w', d), map_sum OperationError id r)
      | Some c' \<Rightarrow>
          let (r', d') = withAudit c' (deletion_draft actor conn ref n) (\<lambda>d. (r, d)) d in ((w', d'), r'))"

definition browser_delete ::
  "audit_context option \<Rightarrow> 'w data_adapter option \<Rightarrow> string \<Rightarrow> string \<Rightarrow> object_ref \<Rightarrow> cells \<Rightarrow>
     'w \<Rightarrow> db \<Rightarrow> ('w \<times> db) \<times> (data_error audited_error + int)" where
  "browser_delete c a actor conn ref key =
     deleteMutation c actor conn ref 1 (run_deletion a (\<lambda>x. da_delete x ref key))"

definition browser_bulkDelete ::
  "audit_context option \<Rightarrow> 'w data_adapter option \<Rightarrow> string \<Rightarrow> string \<Rightarrow> object_ref \<Rightarrow> cells list \<Rightarrow>
     'w \<Rightarrow> db \<Rightarrow> ('w \<times> db) \<times> (data_error audited_error + int)" where
  "browser_bulkDelete c a actor conn ref keys =
     deleteMutation c actor conn ref (length keys) (run_deletion a (\<lambda>x. da_bulkDelete x ref keys))"

section \<open>The routes\<close>

datatype route_error = InvalidBody | Refused "data_error audited_error"

definition read_route :: "'w data_adapter option \<Rightarrow> json \<Rightarrow> 'w \<Rightarrow> 'w \<times> (route_error + read_response)" where
  "read_route a v w =
     (case requestInput v of None \<Rightarrow> (w, Inl InvalidBody)
      | Some (i, r) \<Rightarrow> map_prod id (map_sum (Refused \<circ> OperationError) id) (browser_read a r w))"

text \<open>\<open>POST /data/rows/delete\<close>: one key is deleted on its own.\<close>

definition delete_route ::
  "audit_context option \<Rightarrow> 'w data_adapter option \<Rightarrow> string \<Rightarrow> json \<Rightarrow> 'w \<Rightarrow> db \<Rightarrow> ('w \<times> db) \<times> (route_error + int)" where
  "delete_route c a actor v w d =
     (case mutationInput v KindBulkDelete of
        Some (i, ref, DeleteRows keys) \<Rightarrow>
          map_prod id (map_sum Refused id)
            (if length keys = 1 then browser_delete c a actor i ref (hd keys) w d
             else browser_bulkDelete c a actor i ref keys w d)
      | _ \<Rightarrow> ((w, d), Inl InvalidBody))"

section \<open>Deletions\<close>

text \<open>What a deletion stores: a statement for each key, each of which deleted one row.\<close>

definition deletes_each :: "js_reader \<Rightarrow> object_ref \<Rightarrow> data_table \<Rightarrow> cells list \<Rightarrow> entry list \<Rightarrow> bool" where
  "deletes_each js ref t keys log \<longleftrightarrow>
     list_all2 (\<lambda>k (s, ps, rs). buildPostgresqlDeleteQuery js ref k (dt_columns t)
        (resolveRowIdentity ref (dt_columns t) (dt_indexes t)) = Inr \<lparr>bq_sql = s, bq_parameters = ps\<rparr> \<and> length rs = 1) keys log"

context data_session begin

lemma pg_single:
  assumes "pg_delete p js ref key w = (w', r)" "tx w = None"
  shows "(\<exists>e. r = Inl e) \<and> stored w' = stored w \<or>
    (\<exists>t log. dq_describe p ref w = Inr t \<and> stored w' = stored w @ log \<and>
      r = Inr \<lparr>mr_affected = 1, mr_returning = None\<rparr> \<and> deletes_each js ref t [key] log)"
proof (cases "dq_describe p ref w")
  case (Inr t)
  let ?b = "buildPostgresqlDeleteQuery js ref key (dt_columns t) (resolveRowIdentity ref (dt_columns t) (dt_indexes t))"
  show ?thesis
  proof (cases ?b)
    case q: (Inr q)
    let ?op = "continue (pg_execute p q) (\<lambda>rs.
       finish_with (if length rs \<noteq> 1 then Inl row_gone else Inr \<lparr>mr_affected = 1, mr_returning = None\<rparr>))"
    have g: "grows stored tx ?op (\<lambda>m x. m = \<lparr>mr_affected = 1, mr_returning = None\<rparr> \<and> deletes_each js ref t [key] x)"
      by (rule grows_continue [OF pg_execute_grows], rule grows_finish)
        (use q in \<open>auto simp: deletes_each_def split: if_splits\<close>)
    have "transacted p ?op w = (w', r)"
      using assms(1) Inr q by (simp add: pg_delete_def continue_def finish_with_def Let_def)
    from transacted_grows [OF g assms(2) this] show ?thesis using Inr by auto
  qed (use assms(1) Inr in \<open>auto simp: pg_delete_def continue_def finish_with_def Let_def\<close>)
qed (use assms(1) in \<open>auto simp: pg_delete_def continue_def finish_with_def\<close>)

text \<open>Both ways of the route, as a computation before the audit entry.\<close>

lemma pg_run:
  assumes "run_deletion (Some (postgresql_data p js))
      (\<lambda>x. if length keys = 1 then da_delete x ref (hd keys) else da_bulkDelete x ref keys) w = (w', r)" "tx w = None"
  shows "case r of
      Inl e \<Rightarrow> stored w' = stored w
    | Inr n \<Rightarrow> n = int (length keys) \<and> (\<exists>t log. dq_describe p ref w = Inr t \<and> stored w' = stored w @ log \<and> deletes_each js ref t keys log)"
proof (cases "length keys = 1")
  case True
  then obtain k where k: "keys = [k]" by (cases keys) auto
  obtain r1 where r1: "pg_delete p js ref k w = (w', r1)" "r = map_sum id mr_affected r1"
    using assms(1) k by (auto simp: run_deletion_def dataPort_def postgresql_data_def continue_def finish_with_def split: prod.splits sum.splits)
  show ?thesis using pg_single [OF r1(1) assms(2)] by (auto simp: r1(2) k)
next
  case False
  obtain r1 where r1: "pg_bulkDelete p js ref keys w = (w', r1)" "r = map_sum id mr_affected r1"
    using assms(1) False by (auto simp: run_deletion_def dataPort_def postgresql_data_def continue_def finish_with_def split: prod.splits sum.splits)
  show ?thesis using pg_bulk [OF r1(1) assms(2)] by (auto simp: r1(2) deletes_each_def)
qed

end

lemma delete_route_runs:
  assumes "mutationInput v KindBulkDelete = Some (i, ref, DeleteRows keys)"
  shows "delete_route c a actor v w d = map_prod id (map_sum Refused id)
    (deleteMutation c actor i ref (length keys)
      (run_deletion a (\<lambda>x. if length keys = 1 then da_delete x ref (hd keys) else da_bulkDelete x ref keys)) w d)"
  using assms by (simp add: delete_route_def browser_delete_def browser_bulkDelete_def)

text \<open>
  Claim C15: what a request to delete rows does, on PostgreSQL from its body to the database and the audit
  log. If it is answered with a number, this is the number of keys in the body, the database has
  stored one statement for each key in their order that deleted one row, and the log has the entry of
  this deletion with the same number. If it is answered with the error of the deletion, nothing is
  stored and the log has the entry of the failure. The entry is written after the operation, so
  there is a third answer, the failure of the audit log, with the log unchanged: then either the deletion
  had failed, nothing is stored and the entry of the failure was refused, or the rows of all keys are
  deleted, as in the first case, and the entry of the success was refused. No other answer occurs, and in none
  are the rows of some keys deleted and not those of the others.
\<close>

theorem deletions_are_exact_and_audited:
  assumes "data_session p stored tx" "tx w = None" "mutationInput v KindBulkDelete = Some (i, ref, DeleteRows keys)"
    "delete_route (Some c) (Some (postgresql_data p js)) actor v w d = ((w', d'), r)"
  shows "case r of
      Inr n \<Rightarrow> n = int (length keys) \<and>
        (\<exists>t log. dq_describe p ref w = Inr t \<and> stored w' = stored w @ log \<and> deletes_each js ref t keys log) \<and>
        audit_record c (deletion_draft actor i ref (length keys)) Success d = Inr d'
    | Inl (Refused (OperationError e)) \<Rightarrow> stored w' = stored w \<and>
        audit_record c (deletion_draft actor i ref (length keys)) Failure d = Inr d'
    | Inl (Refused NotAudited) \<Rightarrow> d' = d \<and>
        (stored w' = stored w \<and> (\<exists>z. audit_record c (deletion_draft actor i ref (length keys)) Failure d = Inl z)
         \<or> (\<exists>t log. dq_describe p ref w = Inr t \<and> stored w' = stored w @ log \<and> deletes_each js ref t keys log) \<and>
           (\<exists>z. audit_record c (deletion_draft actor i ref (length keys)) Success d = Inl z))
    | _ \<Rightarrow> False"
proof -
  let ?run = "run_deletion (Some (postgresql_data p js))
      (\<lambda>x. if length keys = 1 then da_delete x ref (hd keys) else da_bulkDelete x ref keys)"
  obtain w1 x where x: "?run w = (w1, x)" by (cases "?run w")
  let ?e = "deletion_draft actor i ref (length keys)"
  obtain y d1 where y: "withAudit c ?e (\<lambda>d. (x, d)) d = (y, d1)" by (cases "withAudit c ?e (\<lambda>d. (x, d)) d")
  have e: "w' = w1" "d' = d1" "r = map_sum Refused id y"
    using assms(4) x y unfolding delete_route_runs [OF assms(3)] deleteMutation_def by auto
  have registered: "isAuditAction (daction ?e)" "isRequiredAuditAction (daction ?e)"
    by (simp_all add: required_iff_registered deletion_draft_def isAuditAction_def audit_definitions_def)
  note run = data_session.pg_run [OF assms(1) x assms(2)]
  show ?thesis
  proof (cases x)
    case (Inl err)
    show ?thesis
    proof (cases "audit_record c ?e Failure d")
      case (Inl z)
      then have "y = Inl NotAudited" "d1 = d" using y registered \<open>x = Inl err\<close> by (auto simp: withAudit_def)
      then show ?thesis using run Inl \<open>x = Inl err\<close> by (simp add: e)
    next
      case (Inr d2)
      then have "y = Inl (OperationError err)" "d1 = d2" using y registered \<open>x = Inl err\<close> by (auto simp: withAudit_def)
      then show ?thesis using run Inr \<open>x = Inl err\<close> by (simp add: e)
    qed
  next
    case (Inr n)
    show ?thesis
    proof (cases "audit_record c ?e Success d")
      case (Inl z)
      then have "y = Inl NotAudited" "d1 = d" using y registered \<open>x = Inr n\<close> by (auto simp: withAudit_def)
      then show ?thesis using run Inl \<open>x = Inr n\<close> by (simp add: e)
    next
      case (Inr d2)
      then have "y = Inr n" "d1 = d2" using y registered \<open>x = Inr n\<close> by (auto simp: withAudit_def)
      then show ?thesis using run Inr \<open>x = Inr n\<close> by (simp add: e)
    qed
  qed
qed

text \<open>The deletion of two rows.\<close>

definition two_keys :: json where
  "two_keys = JObj [(''connectionId'', JStr ''c''),
     (''ref'', JObj [(''database'', JStr ''d''), (''schema'', JStr ''s''), (''name'', JStr ''t''), (''type'', JStr ''table'')]),
     (''identities'', JArr [JObj [(''id'', JObj [(''type'', JStr ''number''), (''value'', JStr ''1'')])],
        JObj [(''id'', JObj [(''type'', JStr ''number''), (''value'', JStr ''2'')])]])]"

lemma two_keys_parsed:
  "mutationInput two_keys KindBulkDelete
     = Some (''c'', sample_table_ref, DeleteRows [[(''id'', CNumber ''1'')], [(''id'', CNumber ''2'')]])"
  by code_simp

definition deletes_any :: "row_world data_adapter" where
  "deletes_any = postgresql_data (row_sim sample_described (\<lambda>s ps. Inr [[]])) plain_reader"

definition row_db :: db where
  "row_db = \<lparr>users = [\<lparr>uid = ''u'', username = ''ann'', passwordHash = [], role = RoleAdmin, isActive = True,
     ucreatedAt = 0, updatedAt = 0\<rparr>], sessions = [], audit = []\<rparr>"

definition delete_two :: "(row_world \<times> db) \<times> (route_error + int)" where
  "delete_two = delete_route (Some (plain_context 1 ''x'')) (Some deletes_any) ''u'' two_keys row_start row_db"

lemma delete_two_ends: "snd delete_two = Inr 2"
  by code_simp

theorem deletions_are_exact_and_audited_witness: "length (rw_stored (fst (fst delete_two))) = 2"
proof -
  obtain w' d' where r: "delete_two = ((w', d'), Inr 2)"
    using delete_two_ends by (metis prod.exhaust snd_conv)
  have s: "rw_tx row_start = None" "rw_stored row_start = []" by (simp_all add: row_start_def)
  show ?thesis
    using deletions_are_exact_and_audited [OF row_sim.data_session_axioms s(1) two_keys_parsed
      r [unfolded delete_two_def deletes_any_def]] s(2)
    by (auto simp: r deletes_each_def dest!: list_all2_lengthD)
qed

end
