(* ===== verification/Migrations.thy ===== *)
theory Migrations
  imports Prelude
begin

text \<open>
  The migrations of the internal store: \<open>packages/internal-sqlite/src/migrations/migration-runner.ts\<close>. The
  rest of the database is a state of any type that a migration changes or fails on; the table of the
  history is modelled, and so are the transactions around them. The digest of a migration and the clock
  are arguments. Versions are whole numbers.
\<close>

section \<open>Migrations and their history\<close>

record 'w migration =
  mg_version :: int
  mg_name :: string
  mg_source :: string
  mg_up :: "'w \<Rightarrow> string + 'w"

record applied_migration =
  am_version :: int
  am_name :: string
  am_appliedAt :: time
  am_checksum :: string

text \<open>The table of the history is None until it is created; its primary key is the version.\<close>

record 'w migration_db =
  md_world :: 'w
  md_history :: "applied_migration list option"

datatype migration_error =
    NotPositive | InvalidMigration int | DuplicatedVersion int | NotSequential
  | NotInitialized string | NoLongerAvailable int | ChecksumMismatch int | HistoryNotSequential | MigrationFailed int string

definition migrationChecksum :: "(string \<Rightarrow> string) \<Rightarrow> 'w migration \<Rightarrow> string" where
  "migrationChecksum hash m = hash (show_int (mg_version m) @ CHR 0x00 # mg_name m @ CHR 0x00 # mg_source m)"

section \<open>Checks\<close>

fun check_each :: "int list \<Rightarrow> 'w migration list \<Rightarrow> migration_error + unit" where
  "check_each seen [] = Inr ()"
| "check_each seen (m # ms) =
     (if mg_version m < 1 then Inl NotPositive
      else if js_trim (mg_name m) = [] then Inl (InvalidMigration (mg_version m))
      else if mg_version m \<in> set seen then Inl (DuplicatedVersion (mg_version m))
      else check_each (mg_version m # seen) ms)"

definition normalizedMigrations :: "'w migration list \<Rightarrow> migration_error + 'w migration list" where
  "normalizedMigrations input =
     (let ordered = sort_key mg_version input in
      and_then (check_each [] ordered) (\<lambda>_.
        if map mg_version ordered \<noteq> map int [1..<length ordered + 1] then Inl NotSequential else Inr ordered))"

definition readAppliedMigrations :: "'w migration_db \<Rightarrow> applied_migration list" where
  "readAppliedMigrations d = (case md_history d of None \<Rightarrow> [] | Some rows \<Rightarrow> sort_key am_version rows)"

fun check_applied ::
  "(string \<Rightarrow> string) \<Rightarrow> 'w migration list \<Rightarrow> applied_migration list \<Rightarrow> migration_error + unit" where
  "check_applied hash available [] = Inr ()"
| "check_applied hash available (r # rs) =
     (case find (\<lambda>m. mg_version m = am_version r) available of
        None \<Rightarrow> Inl (NoLongerAvailable (am_version r))
      | Some m \<Rightarrow>
          if am_name r \<noteq> mg_name m \<or> am_checksum r \<noteq> migrationChecksum hash m
          then Inl (ChecksumMismatch (am_version r)) else check_applied hash available rs)"

definition validateAppliedMigrations ::
  "(string \<Rightarrow> string) \<Rightarrow> applied_migration list \<Rightarrow> 'w migration list \<Rightarrow> migration_error + unit" where
  "validateAppliedMigrations hash applied available =
     and_then (check_applied hash available applied) (\<lambda>_.
       if map am_version applied = map mg_version (take (length applied) available) then Inr ()
       else Inl HistoryNotSequential)"

section \<open>Running\<close>

definition ensureMigrationTable :: "'w migration_db \<Rightarrow> 'w migration_db" where
  "ensureMigrationTable d = (case md_history d of None \<Rightarrow> d\<lparr>md_history := Some []\<rparr> | Some _ \<Rightarrow> d)"

definition is_applied :: "applied_migration list \<Rightarrow> 'w migration \<Rightarrow> bool" where
  "is_applied applied m \<longleftrightarrow> list_ex (\<lambda>r. am_version r = mg_version m) applied"

text \<open>The record is inserted in the transaction of the migration; a version that is there is refused.\<close>

definition insert_record :: "applied_migration \<Rightarrow> 'w migration_db \<Rightarrow> string + 'w migration_db" where
  "insert_record r d =
     (case md_history d of
        None \<Rightarrow> Inl ''no such table: migrations''
      | Some rows \<Rightarrow>
          if am_version r \<in> set (map am_version rows) then Inl ''UNIQUE constraint failed: migrations.version''
          else Inr (d\<lparr>md_history := Some (rows @ [r])\<rparr>))"

text \<open>
  A transaction that throws, or whose \<open>COMMIT\<close> fails, is rolled back and leaves the database as it was. Whether
  the commit fails is an argument; the rollback of SQLite does not.
\<close>

definition transaction :: "'e option \<Rightarrow> ('d \<Rightarrow> 'e + 'd) \<Rightarrow> 'd \<Rightarrow> 'd \<times> 'e option" where
  "transaction commit operation d =
     (case operation d of
        Inl e \<Rightarrow> (d, Some e)
      | Inr d' \<Rightarrow> (case commit of Some e \<Rightarrow> (d, Some e) | None \<Rightarrow> (d', None)))"

definition apply_migration :: "'w migration \<Rightarrow> applied_migration \<Rightarrow> 'w migration_db \<Rightarrow> string + 'w migration_db" where
  "apply_migration m r d = and_then (mg_up m (md_world d)) (\<lambda>w. insert_record r (d\<lparr>md_world := w\<rparr>))"

text \<open>\<open>commit\<close> gives the error of the commit for the version of a migration, and for 0 that of the first transaction.\<close>

fun run_pending ::
  "(string \<Rightarrow> string) \<Rightarrow> (int \<Rightarrow> time) \<Rightarrow> (int \<Rightarrow> string option) \<Rightarrow> applied_migration list \<Rightarrow> 'w migration list \<Rightarrow> applied_migration list \<Rightarrow>
     'w migration_db \<Rightarrow> 'w migration_db \<times> (migration_error + applied_migration list)" where
  "run_pending hash now commit applied [] done_now d = (d, Inr done_now)"
| "run_pending hash now commit applied (m # ms) done_now d =
     (if is_applied applied m then run_pending hash now commit applied ms done_now d
      else
        let r = \<lparr>am_version = mg_version m, am_name = mg_name m, am_appliedAt = now (mg_version m),
                 am_checksum = migrationChecksum hash m\<rparr> in
        (case transaction (commit (mg_version m)) (apply_migration m r) d of
           (d', Some e) \<Rightarrow> (d', Inl (MigrationFailed (mg_version m) e))
         | (d', None) \<Rightarrow> run_pending hash now commit applied ms (done_now @ [r]) d'))"

definition last_version :: "applied_migration list \<Rightarrow> int" where
  "last_version rs = (if rs = [] then 0 else am_version (last rs))"

record migration_result =
  mr_initialVersion :: int
  mr_finalVersion :: int
  mr_applied :: "applied_migration list"

definition runMigrations ::
  "(string \<Rightarrow> string) \<Rightarrow> (int \<Rightarrow> time) \<Rightarrow> (int \<Rightarrow> string option) \<Rightarrow> 'w migration list \<Rightarrow> 'w migration_db \<Rightarrow>
     'w migration_db \<times> (migration_error + migration_result)" where
  "runMigrations hash now commit input d =
     (case normalizedMigrations input of
        Inl e \<Rightarrow> (d, Inl e)
      | Inr available \<Rightarrow>
          (case transaction (commit 0) (\<lambda>d. Inr (ensureMigrationTable d)) d of
             (d1, Some e) \<Rightarrow> (d1, Inl (NotInitialized e))
           | (d1, None) \<Rightarrow>
               let applied = readAppliedMigrations d1 in
               (case validateAppliedMigrations hash applied available of
                  Inl e \<Rightarrow> (d1, Inl e)
                | Inr _ \<Rightarrow>
                    (case run_pending hash now commit applied available [] d1 of
                       (d2, Inl e) \<Rightarrow> (d2, Inl e)
                     | (d2, Inr rs) \<Rightarrow>
                         (d2, Inr \<lparr>mr_initialVersion = last_version applied,
                                   mr_finalVersion = (if rs = [] then last_version applied else am_version (last rs)),
                                   mr_applied = rs\<rparr>)))))"

record 'w migration_status =
  ms_currentVersion :: int
  ms_applied :: "applied_migration list"
  ms_pending :: "'w migration list"

definition getMigrationStatus ::
  "(string \<Rightarrow> string) \<Rightarrow> 'w migration list \<Rightarrow> 'w migration_db \<Rightarrow> migration_error + 'w migration_status" where
  "getMigrationStatus hash input d =
     and_then (normalizedMigrations input) (\<lambda>available.
     let applied = readAppliedMigrations d in
     and_then (validateAppliedMigrations hash applied available) (\<lambda>_.
       Inr \<lparr>ms_currentVersion = last_version applied, ms_applied = applied,
            ms_pending = filter (\<lambda>m. \<not> is_applied applied m) available\<rparr>))"

section \<open>Histories\<close>

definition record_of :: "(string \<Rightarrow> string) \<Rightarrow> applied_migration \<Rightarrow> 'w migration \<Rightarrow> bool" where
  "record_of hash r m \<longleftrightarrow> am_version r = mg_version m \<and> am_name r = mg_name m \<and> am_checksum r = migrationChecksum hash m"

definition history_rows :: "'w migration_db \<Rightarrow> applied_migration list" where
  "history_rows d = (case md_history d of None \<Rightarrow> [] | Some rows \<Rightarrow> rows)"

text \<open>All of them one after the other, without any bookkeeping.\<close>

fun run_ups :: "'w migration list \<Rightarrow> 'w \<Rightarrow> 'w option" where
  "run_ups [] w = Some w"
| "run_ups (m # ms) w = (case mg_up m w of Inl _ \<Rightarrow> None | Inr w' \<Rightarrow> run_ups ms w')"

text \<open>The database after the first \<open>k\<close> migrations, started from \<open>w0\<close>.\<close>

definition reached :: "(string \<Rightarrow> string) \<Rightarrow> 'w migration list \<Rightarrow> 'w \<Rightarrow> nat \<Rightarrow> 'w migration_db \<Rightarrow> bool" where
  "reached hash ms w0 k d \<longleftrightarrow> k \<le> length ms \<and> list_all2 (record_of hash) (history_rows d) (take k ms)
     \<and> run_ups (take k ms) w0 = Some (md_world d)"

lemma run_ups_append: "run_ups (xs @ ys) w = Option.bind (run_ups xs w) (run_ups ys)"
  by (induction xs arbitrary: w) (auto split: sum.split)

lemma records_versions: "list_all2 (record_of hash) rs ms \<Longrightarrow> map am_version rs = map mg_version ms"
  by (induction rule: list_all2_induct) (auto simp: record_of_def)

lemma normalized_versions:
  "normalizedMigrations input = Inr ms \<Longrightarrow> map mg_version ms = map int [1..<length ms + 1]"
  by (auto simp: normalizedMigrations_def Let_def and_then_Inr split: if_splits)

lemma version_nth: "map mg_version ms = map int [1..<length ms + 1] \<Longrightarrow> i < length ms \<Longrightarrow> mg_version (ms ! i) = int (i + 1)"
  by (metis (no_types, lifting) add.commute add_diff_cancel_right' length_map length_upt nth_map nth_upt plus_1_eq_Suc less_diff_conv Suc_eq_plus1)

lemma versions_distinct: "map mg_version ms = map int [1..<length ms + 1] \<Longrightarrow> distinct (map mg_version ms)"
  by (simp add: distinct_map)

lemma prefix_rows_sorted:
  assumes "map mg_version ms = map int [1..<length ms + 1]" "list_all2 (record_of hash) rs (take k ms)"
  shows "sort_key am_version rs = rs"
proof -
  have "map am_version rs = take k (map int [1..<length ms + 1])"
    using records_versions [OF assms(2)] assms(1) by (simp add: take_map [symmetric])
  moreover have "sorted (take k (map int [1..<length ms + 1]))"
    by (rule sorted_wrt_take) (simp add: sorted_map del: upt_Suc)
  ultimately show ?thesis by (metis sort_key_id_if_sorted)
qed

text \<open>What is accepted as a history is exactly the record of a prefix.\<close>

lemma checked_records:
  assumes "distinct (map mg_version ms)"
  shows "check_applied hash ms rs = Inr () \<longleftrightarrow> (\<forall>r \<in> set rs. \<exists>m \<in> set ms. record_of hash r m)"
proof (induction rs)
  case (Cons r rs)
  have "find (\<lambda>m. mg_version m = am_version r) ms = Some m" if "m \<in> set ms" "mg_version m = am_version r" for m
    using that assms by (induction ms) (auto simp: image_iff)
  note found = this
  show ?case
  proof (cases "find (\<lambda>m. mg_version m = am_version r) ms")
    case None
    then have "\<not> (\<exists>m \<in> set ms. record_of hash r m)" by (auto simp: record_of_def find_None_iff)
    then show ?thesis using None by simp
  next
    case (Some m)
    then have m: "m \<in> set ms" "mg_version m = am_version r" by (auto simp: find_Some_iff)
    have one: "(\<exists>m \<in> set ms. record_of hash r m) \<longleftrightarrow> record_of hash r m"
      using found Some m(1) by (metis option.inject record_of_def)
    have "check_applied hash ms (r # rs) = Inr () \<longleftrightarrow> record_of hash r m \<and> check_applied hash ms rs = Inr ()"
      using Some m(2) by (auto simp: record_of_def)
    then show ?thesis using one Cons.IH by simp
  qed
qed simp

lemma valid_history:
  assumes "distinct (map mg_version ms)"
  shows "validateAppliedMigrations hash rs ms = Inr () \<longleftrightarrow> (\<exists>k \<le> length ms. list_all2 (record_of hash) rs (take k ms))"
proof
  assume v: "validateAppliedMigrations hash rs ms = Inr ()"
  then have each: "\<forall>r \<in> set rs. \<exists>m \<in> set ms. record_of hash r m"
    and vs: "map am_version rs = map mg_version (take (length rs) ms)"
    using checked_records [OF assms] by (auto simp: validateAppliedMigrations_def and_then_Inr split: if_splits)
  have n: "length rs \<le> length ms" using arg_cong [OF vs, of length] by simp
  have "list_all2 (record_of hash) rs (take (length rs) ms)"
  proof (rule list_all2_all_nthI)
    fix i assume i: "i < length rs"
    obtain m where m: "m \<in> set ms" "record_of hash (rs ! i) m" using each i nth_mem by blast
    have "mg_version m = mg_version (ms ! i)"
      using m(2) arg_cong [OF vs, of "\<lambda>l. l ! i"] i n by (simp add: record_of_def)
    then have "m = ms ! i" using assms m(1) i n
      by (metis distinct_map inj_onD nth_mem order_less_le_trans)
    then show "record_of hash (rs ! i) (take (length rs) ms ! i)" using m(2) i by simp
  qed (use n in simp)
  then show "\<exists>k \<le> length ms. list_all2 (record_of hash) rs (take k ms)" using n by blast
next
  assume "\<exists>k \<le> length ms. list_all2 (record_of hash) rs (take k ms)"
  then obtain k where k: "k \<le> length ms" "list_all2 (record_of hash) rs (take k ms)" by blast
  have "\<exists>m \<in> set ms. record_of hash r m" if "r \<in> set rs" for r
    using that k(2) by (auto simp: list_all2_conv_all_nth in_set_conv_nth dest!: in_set_takeD) (metis k(1) nth_mem order_less_le_trans)
  then show "validateAppliedMigrations hash rs ms = Inr ()"
    using checked_records [OF assms, of hash rs] records_versions [OF k(2)] list_all2_lengthD [OF k(2)] k(1)
    by (simp add: validateAppliedMigrations_def)
qed

lemma skip_applied:
  "list_all (is_applied applied) xs \<Longrightarrow>
   run_pending hash now commit applied (xs @ ys) done_now d = run_pending hash now commit applied ys done_now d"
  by (induction xs) simp_all

text \<open>The migration \<open>k\<close> fails on the database, or its commit does.\<close>

definition fails_at :: "(int \<Rightarrow> string option) \<Rightarrow> 'w migration list \<Rightarrow> nat \<Rightarrow> 'w migration_db \<Rightarrow> string \<Rightarrow> bool" where
  "fails_at commit ms k d x \<longleftrightarrow> mg_up (ms ! k) (md_world d) = Inl x
     \<or> commit (int k + 1) = Some x \<and> (\<exists>w. mg_up (ms ! k) (md_world d) = Inr w)"

text \<open>One migration that is next.\<close>

lemma next_reached:
  assumes "map mg_version ms = map int [1..<length ms + 1]" "reached hash ms w0 j d" "md_history d \<noteq> None" "j < length ms"
    "mg_up (ms ! j) (md_world d) = Inr w" "record_of hash r (ms ! j)"
  shows "\<exists>d'. apply_migration (ms ! j) r d = Inr d' \<and> reached hash ms w0 (Suc j) d' \<and> md_history d' \<noteq> None"
proof -
  obtain rows where rows: "md_history d = Some rows" using assms(3) by blast
  have l: "list_all2 (record_of hash) rows (take j ms)" and u: "run_ups (take j ms) w0 = Some (md_world d)"
    using assms(2) by (simp_all add: reached_def history_rows_def rows)
  have "map am_version rows = map int (take j [1..<length ms + 1])"
    using records_versions [OF l] assms(1) by (metis take_map)
  then have "am_version r \<notin> set (map am_version rows)"
    using assms(4,6) version_nth [OF assms(1,4)] by (auto simp: record_of_def take_upt simp del: upt_Suc)
  then have "apply_migration (ms ! j) r d = Inr (d\<lparr>md_world := w, md_history := Some (rows @ [r])\<rparr>)"
    by (simp add: apply_migration_def assms(5) insert_record_def rows)
  moreover have "reached hash ms w0 (Suc j) (d\<lparr>md_world := w, md_history := Some (rows @ [r])\<rparr>)"
    using l u assms(4,5,6)
    by (simp add: reached_def history_rows_def take_Suc_conv_app_nth run_ups_append list_all2_appendI)
  ultimately show ?thesis by auto
qed

lemma run_rest:
  assumes "map mg_version ms = map int [1..<length ms + 1]" "reached hash ms w0 j d" "md_history d \<noteq> None"
    "run_pending hash now commit applied (drop j ms) done_now d = (d', r)" "\<forall>m \<in> set (drop j ms). \<not> is_applied applied m"
  shows "\<exists>k \<ge> j. reached hash ms w0 k d' \<and> (case r of
      Inr rs \<Rightarrow> k = length ms \<and> (\<exists>new. rs = done_now @ new \<and> list_all2 (record_of hash) new (drop j ms))
    | Inl e \<Rightarrow> k < length ms \<and> (\<exists>x. fails_at commit ms k d' x \<and> e = MigrationFailed (int k + 1) x))"
  using assms(2-5)
proof (induction "length ms - j" arbitrary: j done_now d)
  case 0
  then show ?case by (auto simp: reached_def)
next
  case (Suc n)
  then have j: "j < length ms" "drop j ms = ms ! j # drop (Suc j) ms" by (simp_all add: Cons_nth_drop_Suc)
  let ?r = "\<lparr>am_version = mg_version (ms ! j), am_name = mg_name (ms ! j), am_appliedAt = now (mg_version (ms ! j)),
      am_checksum = migrationChecksum hash (ms ! j)\<rparr>"
  have rec: "record_of hash ?r (ms ! j)" by (simp add: record_of_def)
  have na: "\<not> is_applied applied (ms ! j)" using Suc.prems(4) j(2) by simp
  show ?case
  proof (cases "mg_up (ms ! j) (md_world d)")
    case (Inl x)
    then have "(d', r) = (d, Inl (MigrationFailed (mg_version (ms ! j)) x))"
      using Suc.prems(3) na unfolding j(2) by (simp add: transaction_def apply_migration_def)
    then show ?thesis using Suc.prems(1) j(1) Inl version_nth [OF assms(1) j(1)]
      by (intro exI [of _ j]) (simp add: fails_at_def add.commute)
  next
    case (Inr w)
    obtain d1 where d1: "apply_migration (ms ! j) ?r d = Inr d1" "reached hash ms w0 (Suc j) d1" "md_history d1 \<noteq> None"
      using next_reached [OF assms(1) Suc.prems(1,2) j(1) Inr rec] by blast
    show ?thesis
    proof (cases "commit (mg_version (ms ! j))")
      case (Some x)
      then have "(d', r) = (d, Inl (MigrationFailed (mg_version (ms ! j)) x))"
        using Suc.prems(3) na d1(1) unfolding j(2) by (simp add: transaction_def Let_def)
      then show ?thesis using Suc.prems(1) j(1) Inr Some version_nth [OF assms(1) j(1)]
        by (intro exI [of _ j]) (simp add: fails_at_def add.commute)
    next
    case None
    have run: "run_pending hash now commit applied (drop (Suc j) ms) (done_now @ [?r]) d1 = (d', r)"
      using Suc.prems(3) na d1(1) None unfolding j(2) by (simp add: transaction_def Let_def)
    have n: "n = length ms - Suc j" and nap: "\<forall>m \<in> set (drop (Suc j) ms). \<not> is_applied applied m"
      using Suc.hyps(2) Suc.prems(4) unfolding j(2) by simp_all
    obtain k where "k \<ge> Suc j" "reached hash ms w0 k d'" "case r of
      Inr rs \<Rightarrow> k = length ms \<and> (\<exists>new. rs = (done_now @ [?r]) @ new \<and> list_all2 (record_of hash) new (drop (Suc j) ms))
    | Inl e \<Rightarrow> k < length ms \<and> (\<exists>x. fails_at commit ms k d' x \<and> e = MigrationFailed (int k + 1) x)"
      using Suc.hyps(1) [OF n d1(2,3) run nap] by blast
    then show ?thesis using rec unfolding j(2)
      by (intro exI [of _ k]) (auto split: sum.splits)
    qed
  qed
qed

section \<open>What a run does\<close>

lemma ensured [simp]: "history_rows (ensureMigrationTable d) = history_rows d" "md_world (ensureMigrationTable d) = md_world d"
    "md_history (ensureMigrationTable d) \<noteq> None"
  by (auto simp: ensureMigrationTable_def history_rows_def split: option.splits)

lemma read_rows: "readAppliedMigrations d = sort_key am_version (history_rows d)"
  by (simp add: readAppliedMigrations_def history_rows_def split: option.split)

lemma last_reached:
  assumes "map mg_version ms = map int [1..<length ms + 1]" "k \<le> length ms" "map am_version rs = map mg_version (take k ms)"
  shows "last_version rs = int k"
proof (cases k)
  case 0
  then show ?thesis using assms(3) by (simp add: last_version_def)
next
  case (Suc i)
  have n: "length rs = k" using arg_cong [OF assms(3), of length] assms(2) by simp
  then have "rs \<noteq> []" using Suc by auto
  then have "am_version (last rs) = map am_version rs ! i" using Suc n by (simp add: last_conv_nth)
  also have "\<dots> = int k" using assms(2) Suc version_nth [OF assms(1), of i] by (simp add: assms(3))
  finally show ?thesis using n Suc by (auto simp: last_version_def)
qed

text \<open>
  Claim C14: migrations can be resumed from wherever an earlier run stopped: from a store on which the
  first \<open>k\<close> have run, also none or all of them, a run ends with the first \<open>j \<ge> k\<close> having run in order, each
  once and together with its record. Without an error these are all, the run reports exactly the
  records it added and the versions before and after; otherwise it stopped at the migration that fails or
  cannot be committed, whose changes are undone, or before all of them when the table of the history cannot
  be made. So every way to the last version leads to the same store.
\<close>

theorem migrations_resume:
  assumes "normalizedMigrations input = Inr ms" "reached hash ms w0 k d" "runMigrations hash now commit input d = (d', r)"
  shows "\<exists>j \<ge> k. reached hash ms w0 j d' \<and> (case r of
      Inr res \<Rightarrow> j = length ms \<and> mr_initialVersion res = int k \<and> mr_finalVersion res = int (length ms)
        \<and> list_all2 (record_of hash) (mr_applied res) (drop k ms)
    | Inl e \<Rightarrow> j = k \<and> history_rows d' = history_rows d \<and> (\<exists>x. commit 0 = Some x \<and> e = NotInitialized x)
        \<or> j < length ms \<and> (\<exists>x. fails_at commit ms j d' x \<and> e = MigrationFailed (int j + 1) x))"
proof (cases "commit 0")
  case (Some x)
  then have "d' = d" "r = Inl (NotInitialized x)"
    using assms(1,3) by (simp_all add: runMigrations_def transaction_def)
  then show ?thesis using assms(2) Some by auto
next
  case None
  note v = normalized_versions [OF assms(1)]
  let ?d = "ensureMigrationTable d" and ?rs = "history_rows d"
  have k: "k \<le> length ms" and l: "list_all2 (record_of hash) ?rs (take k ms)"
    using assms(2) by (simp_all add: reached_def)
  have d: "reached hash ms w0 k ?d" using assms(2) by (simp add: reached_def)
  have read: "readAppliedMigrations ?d = ?rs" unfolding read_rows using prefix_rows_sorted [OF v l] by simp
  have valid: "validateAppliedMigrations hash ?rs ms = Inr ()"
    using valid_history [OF versions_distinct [OF v]] k l by blast
  have vs: "set (map am_version ?rs) = mg_version ` set (take k ms)" using records_versions [OF l] by simp
  have applied: "is_applied ?rs m \<longleftrightarrow> mg_version m \<in> mg_version ` set (take k ms)" for m
    unfolding is_applied_def list_ex_iff using vs by force
  have "inj_on mg_version (set ms)" using versions_distinct [OF v] by (simp add: distinct_map)
  then have fresh: "\<forall>m \<in> set (drop k ms). \<not> is_applied ?rs m"
    unfolding applied using versions_distinct [OF v]
    by (metis append_take_drop_id disjoint_iff distinct_append map_append set_map image_eqI)
  have old: "list_all (is_applied ?rs) (take k ms)" by (auto simp: list_all_iff applied)
  obtain d2 x where x: "run_pending hash now commit ?rs ms [] ?d = (d2, x)" by (cases "run_pending hash now commit ?rs ms [] ?d")
  then have rest: "run_pending hash now commit ?rs (drop k ms) [] ?d = (d2, x)"
    using skip_applied [OF old, of hash now commit "drop k ms"] by simp
  have "\<exists>j \<ge> k. reached hash ms w0 j d2 \<and> (case x of
      Inr rs \<Rightarrow> j = length ms \<and> list_all2 (record_of hash) rs (drop k ms)
    | Inl e \<Rightarrow> j < length ms \<and> (\<exists>x. fails_at commit ms j d2 x \<and> e = MigrationFailed (int j + 1) x))"
    using run_rest [OF v d ensured(3) rest fresh] by (cases x) simp_all
  then obtain j where j: "j \<ge> k" "reached hash ms w0 j d2" "case x of
      Inr rs \<Rightarrow> j = length ms \<and> list_all2 (record_of hash) rs (drop k ms)
    | Inl e \<Rightarrow> j < length ms \<and> (\<exists>x. fails_at commit ms j d2 x \<and> e = MigrationFailed (int j + 1) x)" by blast
  have run: "runMigrations hash now commit input d = (case x of Inl e \<Rightarrow> (d2, Inl e)
      | Inr rs \<Rightarrow> (d2, Inr \<lparr>mr_initialVersion = last_version ?rs,
          mr_finalVersion = (if rs = [] then last_version ?rs else am_version (last rs)), mr_applied = rs\<rparr>))"
    using assms(1) read valid x None by (simp add: runMigrations_def transaction_def Let_def split: sum.split)
  show ?thesis
  proof (cases x)
    case (Inl e)
    then show ?thesis using j run assms(3) by auto
  next
    case (Inr rs)
    have first: "last_version ?rs = int k" by (rule last_reached [OF v k records_versions [OF l]])
    have "list_all2 (record_of hash) (?rs @ rs) (take (length ms) ms)"
      using list_all2_appendI [OF l, of rs "drop k ms"] j(3) Inr by simp
    then have "last_version (?rs @ rs) = int (length ms)" by (intro last_reached [OF v order.refl] records_versions)
    then have "(if rs = [] then last_version ?rs else am_version (last rs)) = int (length ms)"
      by (auto simp: last_version_def split: if_splits)
    then show ?thesis using j run assms(3) Inr first by auto
  qed
qed

lemma normalized_input:
  assumes "normalizedMigrations input = Inr ms"
  shows "ms = sort_key mg_version input" "sort (map mg_version input) = map int [1..<length input + 1]"
    "\<forall>m \<in> set input. js_trim (mg_name m) \<noteq> []"
proof -
  have named: "\<forall>m \<in> set xs. js_trim (mg_name m) \<noteq> []" if "check_each seen xs = Inr ()" for seen and xs :: "'w migration list"
    using that by (induction xs arbitrary: seen) (auto split: if_splits)
  have ms: "ms = sort_key mg_version input" "map mg_version (sort_key mg_version input) = map int [1..<length input + 1]"
    "check_each [] (sort_key mg_version input) = Inr ()"
    using assms by (auto simp: normalizedMigrations_def Let_def and_then_Inr split: if_splits)
  have "sort (map mg_version input) = map mg_version (sort_key mg_version input)"
    by (rule properties_for_sort) (simp_all add: mset_map)
  then show "ms = sort_key mg_version input" "sort (map mg_version input) = map int [1..<length input + 1]"
    "\<forall>m \<in> set input. js_trim (mg_name m) \<noteq> []"
    using ms named [OF ms(3)] by simp_all
qed

text \<open>
  Claim C37: migrations are only run when their versions are 1 to n without a gap or a duplicate, all of them
  have a name, and the records of the store are exactly those of the first \<open>k\<close> of them for some \<open>k\<close>, with
  their names and digests. Otherwise the run is refused with nothing changed.
\<close>

theorem foreign_history_refused:
  assumes "sort (map mg_version input) \<noteq> map int [1..<length input + 1] \<or> (\<exists>m \<in> set input. js_trim (mg_name m) = [])
      \<or> \<not> (\<exists>k \<le> length input. list_all2 (record_of hash) (sort_key am_version (history_rows d)) (take k (sort_key mg_version input)))"
    "runMigrations hash now commit input d = (d', r)"
  shows "isl r \<and> md_world d' = md_world d \<and> history_rows d' = history_rows d"
proof (cases "normalizedMigrations input")
  case (Inl e)
  then show ?thesis using assms(2) by (auto simp: runMigrations_def)
next
  case (Inr ms)
  note n = normalized_input [OF Inr]
  have "length ms = length input" by (simp add: n(1))
  then have "validateAppliedMigrations hash (readAppliedMigrations (ensureMigrationTable d)) ms \<noteq> Inr ()"
    unfolding read_rows ensured valid_history [OF versions_distinct [OF normalized_versions [OF Inr]]] using assms(1) n by auto
  then obtain e where "validateAppliedMigrations hash (readAppliedMigrations (ensureMigrationTable d)) ms = Inl e"
    by (cases "validateAppliedMigrations hash (readAppliedMigrations (ensureMigrationTable d)) ms") auto
  then show ?thesis using assms(2) Inr by (auto simp: runMigrations_def transaction_def Let_def split: option.splits)
qed

section \<open>Two migrations\<close>

text \<open>The second one fails on a store that is odd.\<close>

definition two_migrations :: "nat migration list" where
  "two_migrations = [\<lparr>mg_version = 2, mg_name = ''tags'', mg_source = ''b'', mg_up = (\<lambda>n. if even n then Inr (n * 10) else Inl ''odd'')\<rparr>,
     \<lparr>mg_version = 1, mg_name = ''initial'', mg_source = ''a'', mg_up = (\<lambda>n. Inr (n + 1))\<rparr>]"

definition first_applied :: "nat migration_db" where
  "first_applied = \<lparr>md_world = 4, md_history = Some [\<lparr>am_version = 1, am_name = ''initial'', am_appliedAt = 0,
     am_checksum = migrationChecksum id (two_migrations ! 1)\<rparr>]\<rparr>"

lemma two_normalized: "normalizedMigrations two_migrations = Inr (rev two_migrations)"
proof -
  have "js_trim ''tags'' = ''tags''" "js_trim ''initial'' = ''initial''" by code_simp+
  then show ?thesis by (simp add: normalizedMigrations_def two_migrations_def)
qed

lemma first_reached: "reached id (rev two_migrations) 3 1 first_applied"
  by (simp add: reached_def history_rows_def first_applied_def two_migrations_def record_of_def)

theorem migrations_resume_witness:
  "\<exists>j \<ge> 1. reached id (rev two_migrations) 3 j (fst (runMigrations id (\<lambda>_. 7) (\<lambda>_. None) two_migrations first_applied))"
  using migrations_resume [OF two_normalized first_reached prod.collapse [symmetric]] by blast

text \<open>One of the migrations is listed twice.\<close>

theorem foreign_history_refused_witness:
  "md_world (fst (runMigrations id (\<lambda>_. 7) (\<lambda>_. None) (hd two_migrations # two_migrations) first_applied)) = 4"
proof -
  have "sort (map mg_version (hd two_migrations # two_migrations)) \<noteq> map int [1..<length (hd two_migrations # two_migrations) + 1]"
    by (simp add: two_migrations_def)
  from foreign_history_refused [OF disjI1 [OF this] prod.collapse [symmetric], of id "\<lambda>_. 7" "\<lambda>_. None" first_applied]
  show ?thesis by (simp add: first_applied_def)
qed

end
