(* ===== verification/Settings.thy ===== *)
theory Settings
  imports AuditLog
begin

text \<open>
  The settings service: \<open>packages/settings/src/index.ts\<close> on the repositories
  \<open>internal-sqlite/src/repositories/settings.ts\<close> and \<open>preferences.ts\<close>. The check of a value against its
  schema is TypeBox's and an argument. The service keeps a cache of values; its operations are compared
  with the same operations on the store alone.
\<close>

section \<open>The registry\<close>

datatype settings_scope = UserScope | AppScope

datatype value_schema = OneOf "string list" | IntegerBetween int int | BooleanValue

record registry_entry =
  re_key :: string
  re_scope :: settings_scope
  re_schema :: value_schema
  re_default :: json
  re_sensitive :: bool

definition settingsRegistry :: "registry_entry list" where
  "settingsRegistry =
     [\<lparr>re_key = ''ui.theme'', re_scope = UserScope, re_schema = OneOf [''system'', ''light'', ''dark''],
       re_default = JStr ''system'', re_sensitive = False\<rparr>,
      \<lparr>re_key = ''ui.pageSize'', re_scope = UserScope, re_schema = IntegerBetween 1 100,
       re_default = JNum 50, re_sensitive = False\<rparr>,
      \<lparr>re_key = ''editor.fontSize'', re_scope = UserScope, re_schema = IntegerBetween 8 32,
       re_default = JNum 14, re_sensitive = False\<rparr>,
      \<lparr>re_key = ''editor.wordWrap'', re_scope = UserScope, re_schema = BooleanValue,
       re_default = JBool False, re_sensitive = False\<rparr>,
      \<lparr>re_key = ''history.maxEntriesPerUser'', re_scope = AppScope, re_schema = IntegerBetween 1 100000,
       re_default = JNum 1000, re_sensitive = False\<rparr>]"

definition preferenceKeys :: "string list" where
  "preferenceKeys = map re_key (filter (\<lambda>e. re_scope e = UserScope) settingsRegistry)"

definition settingKeys :: "string list" where
  "settingKeys = map re_key (filter (\<lambda>e. re_scope e = AppScope) settingsRegistry)"

definition getRegistryEntry :: "string \<Rightarrow> registry_entry option" where
  "getRegistryEntry k = find (\<lambda>e. re_key e = k) settingsRegistry"

datatype settings_error =
  UnknownKey string | PreferenceKeyRequired string | SettingKeyRequired string | InvalidValue string
| NotStored | NotRecorded audit_error

definition entryFor :: "string \<Rightarrow> settings_scope \<Rightarrow> settings_error + registry_entry" where
  "entryFor k scope =
     (case getRegistryEntry k of
        None \<Rightarrow> Inl (UnknownKey k)
      | Some e \<Rightarrow>
          if re_scope e \<noteq> scope
          then Inl (case scope of UserScope \<Rightarrow> PreferenceKeyRequired k | AppScope \<Rightarrow> SettingKeyRequired k) else Inr e)"

definition validValue :: "(value_schema \<Rightarrow> json \<Rightarrow> bool) \<Rightarrow> registry_entry \<Rightarrow> json \<Rightarrow> settings_error + json" where
  "validValue check e v = (if check (re_schema e) v then Inr v else Inl (InvalidValue (re_key e)))"

section \<open>The store\<close>

text \<open>A preference belongs to a user of the store.\<close>

record settings_store =
  ss_settings :: "(string, json \<times> time) jsmap"
  ss_preferences :: "(string \<times> string, json \<times> time) jsmap"
  ss_db :: db

definition setting_set :: "string \<Rightarrow> json \<Rightarrow> time \<Rightarrow> settings_store \<Rightarrow> settings_store" where
  "setting_set k v now s = s\<lparr>ss_settings := js_set (ss_settings s) k (v, now)\<rparr>"

definition preference_set :: "string \<Rightarrow> string \<Rightarrow> json \<Rightarrow> time \<Rightarrow> settings_store \<Rightarrow> settings_error + settings_store" where
  "preference_set user k v now s =
     (if \<not> list_ex (\<lambda>u. uid u = user) (users (ss_db s)) then Inl NotStored
      else Inr (s\<lparr>ss_preferences := js_set (ss_preferences s) (user, k) (v, now)\<rparr>))"

text \<open>A value that the schema does not accept counts as missing.\<close>

definition stored_or_default ::
  "(value_schema \<Rightarrow> json \<Rightarrow> bool) \<Rightarrow> registry_entry \<Rightarrow> (json \<times> time) option \<Rightarrow> json" where
  "stored_or_default check e stored =
     (case stored of Some (v, _) \<Rightarrow> if check (re_schema e) v then v else re_default e | None \<Rightarrow> re_default e)"

section \<open>The service\<close>

record settings_service =
  sv_store :: settings_store
  sv_cache :: "(string, json) jsmap"

definition preferenceCacheKey :: "string \<Rightarrow> string \<Rightarrow> string" where
  "preferenceCacheKey user k = ''user:'' @ user @ '':'' @ k"

definition settingCacheKey :: "string \<Rightarrow> string" where
  "settingCacheKey k = ''app:'' @ k"

definition cached :: "string \<Rightarrow> (settings_store \<Rightarrow> json) \<Rightarrow> settings_service \<Rightarrow> settings_service \<times> json" where
  "cached ck read sv =
     (case map_of (sv_cache sv) ck of
        Some v \<Rightarrow> (sv, v)
      | None \<Rightarrow> let v = read (sv_store sv) in (sv\<lparr>sv_cache := js_set (sv_cache sv) ck v\<rparr>, v))"

definition getPreference ::
  "(value_schema \<Rightarrow> json \<Rightarrow> bool) \<Rightarrow> string \<Rightarrow> string \<Rightarrow> settings_service \<Rightarrow> settings_service \<times> (settings_error + json)" where
  "getPreference check user k sv =
     (case entryFor k UserScope of
        Inl e \<Rightarrow> (sv, Inl e)
      | Inr e \<Rightarrow> map_prod id Inr
          (cached (preferenceCacheKey user k) (\<lambda>s. stored_or_default check e (map_of (ss_preferences s) (user, k))) sv))"

definition getSetting ::
  "(value_schema \<Rightarrow> json \<Rightarrow> bool) \<Rightarrow> string \<Rightarrow> settings_service \<Rightarrow> settings_service \<times> (settings_error + json)" where
  "getSetting check k sv =
     (case entryFor k AppScope of
        Inl e \<Rightarrow> (sv, Inl e)
      | Inr e \<Rightarrow> map_prod id Inr
          (cached (settingCacheKey k) (\<lambda>s. stored_or_default check e (map_of (ss_settings s) k)) sv))"

definition setPreference ::
  "(value_schema \<Rightarrow> json \<Rightarrow> bool) \<Rightarrow> time \<Rightarrow> string \<Rightarrow> string \<Rightarrow> json \<Rightarrow> settings_service \<Rightarrow>
     settings_service \<times> (settings_error + unit)" where
  "setPreference check now user k v sv =
     (case and_then (entryFor k UserScope) (\<lambda>e. and_then (validValue check e v) (\<lambda>x.
             preference_set user k x now (sv_store sv))) of
        Inl e \<Rightarrow> (sv, Inl e)
      | Inr s \<Rightarrow> (\<lparr>sv_store = s, sv_cache = js_delete (sv_cache sv) (preferenceCacheKey user k)\<rparr>, Inr ()))"

text \<open>The change and its audit entry are one transaction.\<close>

definition setting_draft :: "string \<Rightarrow> registry_entry \<Rightarrow> json \<Rightarrow> json \<Rightarrow> audit_draft" where
  "setting_draft actor e old new =
     \<lparr>daction = ''settings.changed'', dactor = Some actor, dtargetType = Some ''setting'', dtargetRef = Some (re_key e),
      dconnection = None, ddetails = (if re_sensitive e then None else Some [(''oldValue'', old), (''newValue'', new)])\<rparr>"

definition setSetting ::
  "(value_schema \<Rightarrow> json \<Rightarrow> bool) \<Rightarrow> time \<Rightarrow> audit_context \<Rightarrow> string \<Rightarrow> string \<Rightarrow> json \<Rightarrow> settings_service \<Rightarrow>
     settings_service \<times> (settings_error + unit)" where
  "setSetting check now c actor k v sv =
     (case and_then (entryFor k AppScope) (\<lambda>e. map_sum id (\<lambda>x. (e, x)) (validValue check e v)) of
        Inl e \<Rightarrow> (sv, Inl e)
      | Inr (e, x) \<Rightarrow>
          (case getSetting check k sv of
             (sv1, Inl err) \<Rightarrow> (sv1, Inl err)
           | (sv1, Inr old) \<Rightarrow>
               let s = setting_set k x now (sv_store sv1) in
               (case audit_record c (setting_draft actor e old x) Success (ss_db s) of
                  Inl err \<Rightarrow> (sv1, Inl (NotRecorded err))
                | Inr d \<Rightarrow> (\<lparr>sv_store = s\<lparr>ss_db := d\<rparr>, sv_cache = js_delete (sv_cache sv1) (settingCacheKey k)\<rparr>, Inr ()))))"

text \<open>All preferences of a user, in the order in which the service reads them.\<close>

fun read_all :: "(string \<Rightarrow> settings_service \<Rightarrow> settings_service \<times> (settings_error + json)) \<Rightarrow> string list \<Rightarrow>
    settings_service \<Rightarrow> settings_service \<times> (settings_error + (string, json) jsmap)" where
  "read_all get [] sv = (sv, Inr [])"
| "read_all get (k # ks) sv =
     (case get k sv of
        (sv1, Inl e) \<Rightarrow> (sv1, Inl e)
      | (sv1, Inr v) \<Rightarrow> map_prod id (map_sum id (\<lambda>m. (k, v) # m)) (read_all get ks sv1))"

definition getPreferences ::
  "(value_schema \<Rightarrow> json \<Rightarrow> bool) \<Rightarrow> string \<Rightarrow> settings_service \<Rightarrow> settings_service \<times> (settings_error + (string, json) jsmap)" where
  "getPreferences check user = read_all (getPreference check user) [''ui.theme'', ''ui.pageSize'', ''editor.fontSize'', ''editor.wordWrap'']"

definition getSettings ::
  "(value_schema \<Rightarrow> json \<Rightarrow> bool) \<Rightarrow> settings_service \<Rightarrow> settings_service \<times> (settings_error + (string, json) jsmap)" where
  "getSettings check = read_all (getSetting check) [''history.maxEntriesPerUser'']"

section \<open>Without the cache\<close>

text \<open>A request to the service. Its answer is a list of values, empty for a change.\<close>

datatype settings_op =
    GetPreference string string | GetPreferences string | GetSetting string | GetSettings
  | SetPreference time string string json | SetSetting time audit_context string string json

definition answer :: "settings_error + 'a \<Rightarrow> ('a \<Rightarrow> (string, json) jsmap) \<Rightarrow> settings_error + (string, json) jsmap" where
  "answer r f = map_sum id f r"

fun settings_step ::
  "(value_schema \<Rightarrow> json \<Rightarrow> bool) \<Rightarrow> settings_op \<Rightarrow> settings_service \<Rightarrow> settings_service \<times> (settings_error + (string, json) jsmap)" where
  "settings_step check (GetPreference u k) sv = (let (sv', r) = getPreference check u k sv in (sv', answer r (\<lambda>v. [(k, v)])))"
| "settings_step check (GetPreferences u) sv = getPreferences check u sv"
| "settings_step check (GetSetting k) sv = (let (sv', r) = getSetting check k sv in (sv', answer r (\<lambda>v. [(k, v)])))"
| "settings_step check GetSettings sv = getSettings check sv"
| "settings_step check (SetPreference now u k v) sv = (let (sv', r) = setPreference check now u k v sv in (sv', answer r (\<lambda>_. [])))"
| "settings_step check (SetSetting now c a k v) sv = (let (sv', r) = setSetting check now c a k v sv in (sv', answer r (\<lambda>_. [])))"

text \<open>What the values are: those of the store.\<close>

definition the_preference :: "(value_schema \<Rightarrow> json \<Rightarrow> bool) \<Rightarrow> string \<Rightarrow> settings_store \<Rightarrow> string \<Rightarrow> settings_error + json" where
  "the_preference check u s k =
     map_sum id (\<lambda>e. stored_or_default check e (map_of (ss_preferences s) (u, k))) (entryFor k UserScope)"

definition the_setting :: "(value_schema \<Rightarrow> json \<Rightarrow> bool) \<Rightarrow> settings_store \<Rightarrow> string \<Rightarrow> settings_error + json" where
  "the_setting check s k =
     map_sum id (\<lambda>e. stored_or_default check e (map_of (ss_settings s) k)) (entryFor k AppScope)"

fun spec_step ::
  "(value_schema \<Rightarrow> json \<Rightarrow> bool) \<Rightarrow> settings_op \<Rightarrow> settings_store \<Rightarrow> settings_store \<times> (settings_error + (string, json) jsmap)" where
  "spec_step check (GetPreference u k) s = (s, answer (the_preference check u s k) (\<lambda>v. [(k, v)]))"
| "spec_step check (GetPreferences u) s = (s, Inr (map (\<lambda>k. (k, projr (the_preference check u s k))) preferenceKeys))"
| "spec_step check (GetSetting k) s = (s, answer (the_setting check s k) (\<lambda>v. [(k, v)]))"
| "spec_step check GetSettings s = (s, Inr (map (\<lambda>k. (k, projr (the_setting check s k))) settingKeys))"
| "spec_step check (SetPreference now u k v) s =
     (case and_then (entryFor k UserScope) (\<lambda>e. and_then (validValue check e v) (\<lambda>x. preference_set u k x now s)) of
        Inl e \<Rightarrow> (s, Inl e) | Inr s' \<Rightarrow> (s', Inr []))"
| "spec_step check (SetSetting now c a k v) s =
     (case and_then (entryFor k AppScope) (\<lambda>e. map_sum id (\<lambda>x. (e, x)) (validValue check e v)) of
        Inl e \<Rightarrow> (s, Inl e)
      | Inr (e, x) \<Rightarrow>
          (case audit_record c (setting_draft a e (projr (the_setting check s k)) x) Success (ss_db s) of
             Inl err \<Rightarrow> (s, Inl (NotRecorded err))
           | Inr d \<Rightarrow> ((setting_set k x now s)\<lparr>ss_db := d\<rparr>, Inr [])))"

fun run_all :: "('o \<Rightarrow> 's \<Rightarrow> 's \<times> 'r) \<Rightarrow> 'o list \<Rightarrow> 's \<Rightarrow> 's \<times> 'r list" where
  "run_all step [] s = (s, [])"
| "run_all step (x # xs) s = (let (s1, r) = step x s; (s2, rs) = run_all step xs s1 in (s2, r # rs))"

section \<open>The cache is right\<close>

definition cache_holds :: "(value_schema \<Rightarrow> json \<Rightarrow> bool) \<Rightarrow> settings_service \<Rightarrow> bool" where
  "cache_holds check sv \<longleftrightarrow>
     (\<forall>u k v. map_of (sv_cache sv) (preferenceCacheKey u k) = Some v \<longrightarrow> entryFor k UserScope \<in> range Inr \<longrightarrow>
        the_preference check u (sv_store sv) k = Inr v) \<and>
     (\<forall>k v. map_of (sv_cache sv) (settingCacheKey k) = Some v \<longrightarrow> entryFor k AppScope \<in> range Inr \<longrightarrow>
        the_setting check (sv_store sv) k = Inr v)"

lemma registered_keys: "entryFor k scope = Inr e \<Longrightarrow> e \<in> set settingsRegistry \<and> re_key e = k \<and> re_scope e = scope"
  by (auto simp: entryFor_def getRegistryEntry_def find_Some_iff split: option.splits if_splits settings_scope.splits)

lemma no_colon: "entryFor k scope = Inr e \<Longrightarrow> CHR '':'' \<notin> set k"
  using registered_keys [of k scope e] by (auto simp: settingsRegistry_def)

lemma split_last:
  assumes "u @ c # k = u' @ c # k'" "c \<notin> set k" "c \<notin> set k'"
  shows "u = u' \<and> k = k'"
proof -
  have "takeWhile (\<lambda>x. x \<noteq> c) (rev (u @ c # k)) = rev k" "takeWhile (\<lambda>x. x \<noteq> c) (rev (u' @ c # k')) = rev k'"
    using assms(2,3) by (simp_all add: takeWhile_append1 takeWhile_eq_all_conv takeWhile_append)
  then have "k = k'" using assms(1) by simp
  then show ?thesis using assms(1) by simp
qed

lemma preference_keys_differ:
  "entryFor k UserScope = Inr e \<Longrightarrow> entryFor k' UserScope = Inr e' \<Longrightarrow>
   preferenceCacheKey u k = preferenceCacheKey u' k' \<longleftrightarrow> u = u' \<and> k = k'"
  using split_last [of u "CHR '':''" k u' k'] no_colon by (auto simp: preferenceCacheKey_def)

lemma scopes_differ [simp]: "preferenceCacheKey u k \<noteq> settingCacheKey k'" "settingCacheKey k' \<noteq> preferenceCacheKey u k"
  by (simp_all add: preferenceCacheKey_def settingCacheKey_def)

lemma setting_key_inj [simp]: "settingCacheKey k = settingCacheKey k' \<longleftrightarrow> k = k'"
  by (simp add: settingCacheKey_def)

lemma cache_setting:
  "cache_holds check sv \<Longrightarrow> the_setting check (sv_store sv) k = Inr v \<Longrightarrow>
   cache_holds check (sv\<lparr>sv_cache := js_set (sv_cache sv) (settingCacheKey k) v\<rparr>)"
  unfolding cache_holds_def by (auto split: if_splits)

lemma cache_preference:
  assumes "cache_holds check sv" "the_preference check u (sv_store sv) k = Inr v" "entryFor k UserScope = Inr e"
  shows "cache_holds check (sv\<lparr>sv_cache := js_set (sv_cache sv) (preferenceCacheKey u k) v\<rparr>)"
proof -
  have "the_preference check u' (sv_store sv) k' = Inr w"
    if w: "map_of (js_set (sv_cache sv) (preferenceCacheKey u k) v) (preferenceCacheKey u' k') = Some w"
      and e': "entryFor k' UserScope = Inr e'" for u' k' w e'
  proof (cases "u' = u \<and> k' = k")
    case True
    then show ?thesis using w assms(2) by simp
  next
    case False
    then have "preferenceCacheKey u' k' \<noteq> preferenceCacheKey u k" using preference_keys_differ [OF e' assms(3)] by auto
    then show ?thesis using w e' assms(1) by (auto simp: cache_holds_def)
  qed
  then show ?thesis using assms(1) by (auto simp: cache_holds_def)
qed

lemma getPreference_spec:
  assumes "cache_holds check sv" "getPreference check u k sv = (sv', r)"
  shows "r = the_preference check u (sv_store sv) k \<and> sv_store sv' = sv_store sv \<and> cache_holds check sv'"
proof (cases "entryFor k UserScope")
  case (Inl e)
  then show ?thesis using assms by (simp add: getPreference_def the_preference_def)
next
  case (Inr e)
  let ?v = "stored_or_default check e (map_of (ss_preferences (sv_store sv)) (u, k))"
  have v: "the_preference check u (sv_store sv) k = Inr ?v" using Inr by (simp add: the_preference_def)
  show ?thesis
  proof (cases "map_of (sv_cache sv) (preferenceCacheKey u k)")
    case None
    then have "sv' = sv\<lparr>sv_cache := js_set (sv_cache sv) (preferenceCacheKey u k) ?v\<rparr>" "r = Inr ?v"
      using assms(2) Inr by (simp_all add: getPreference_def cached_def Let_def)
    then show ?thesis using cache_preference [OF assms(1) v Inr] v by simp
  next
    case (Some w)
    then have "the_preference check u (sv_store sv) k = Inr w" using assms(1) Inr unfolding cache_holds_def by blast
    then show ?thesis using assms Some Inr by (simp add: getPreference_def cached_def)
  qed
qed

lemma getSetting_spec:
  assumes "cache_holds check sv" "getSetting check k sv = (sv', r)"
  shows "r = the_setting check (sv_store sv) k \<and> sv_store sv' = sv_store sv \<and> cache_holds check sv'"
proof (cases "entryFor k AppScope")
  case (Inl e)
  then show ?thesis using assms by (simp add: getSetting_def the_setting_def)
next
  case (Inr e)
  let ?v = "stored_or_default check e (map_of (ss_settings (sv_store sv)) k)"
  have v: "the_setting check (sv_store sv) k = Inr ?v" using Inr by (simp add: the_setting_def)
  show ?thesis
  proof (cases "map_of (sv_cache sv) (settingCacheKey k)")
    case None
    then have "sv' = sv\<lparr>sv_cache := js_set (sv_cache sv) (settingCacheKey k) ?v\<rparr>" "r = Inr ?v"
      using assms(2) Inr by (simp_all add: getSetting_def cached_def Let_def)
    then show ?thesis using cache_setting [OF assms(1) v] v by simp
  next
    case (Some w)
    then have "the_setting check (sv_store sv) k = Inr w" using assms(1) Inr unfolding cache_holds_def by blast
    then show ?thesis using assms Some Inr by (simp add: getSetting_def cached_def)
  qed
qed

text \<open>Reading several values.\<close>

lemma read_all_spec:
  assumes "\<And>k sv sv' r. cache_holds check sv \<Longrightarrow> get k sv = (sv', r) \<Longrightarrow>
      r = actual k (sv_store sv) \<and> sv_store sv' = sv_store sv \<and> cache_holds check sv'"
    "cache_holds check sv" "\<forall>k \<in> set ks. \<forall>s. actual k s \<in> range Inr" "read_all get ks sv = (sv', r)"
  shows "r = Inr (map (\<lambda>k. (k, projr (actual k (sv_store sv)))) ks) \<and> sv_store sv' = sv_store sv \<and> cache_holds check sv'"
  using assms(2-4)
proof (induction ks arbitrary: sv sv' r)
  case (Cons k ks)
  obtain sv1 r1 where g: "get k sv = (sv1, r1)" by (cases "get k sv")
  have s: "r1 = actual k (sv_store sv)" "sv_store sv1 = sv_store sv" "cache_holds check sv1"
    using assms(1) [OF Cons.prems(1) g] by auto
  obtain v where v: "actual k (sv_store sv) = Inr v" using Cons.prems(2) by fastforce
  obtain sv2 r2 where rest: "read_all get ks sv1 = (sv2, r2)" by (cases "read_all get ks sv1")
  have "r2 = Inr (map (\<lambda>k. (k, projr (actual k (sv_store sv1)))) ks) \<and> sv_store sv2 = sv_store sv1 \<and> cache_holds check sv2"
    using Cons.IH [OF s(3) _ rest] Cons.prems(2) by auto
  then show ?case using Cons.prems(3) g s v rest by auto
qed auto

lemma preferences_registered: "k \<in> set preferenceKeys \<Longrightarrow> the_preference check u s k \<in> range Inr"
  by (auto simp: preferenceKeys_def settingsRegistry_def the_preference_def entryFor_def getRegistryEntry_def)

lemma settings_registered: "k \<in> set settingKeys \<Longrightarrow> the_setting check s k \<in> range Inr"
  by (auto simp: settingKeys_def settingsRegistry_def the_setting_def entryFor_def getRegistryEntry_def)

lemma all_keys: "preferenceKeys = [''ui.theme'', ''ui.pageSize'', ''editor.fontSize'', ''editor.wordWrap'']"
    "settingKeys = [''history.maxEntriesPerUser'']"
  by (simp_all add: preferenceKeys_def settingKeys_def settingsRegistry_def)

lemma setPreference_spec:
  assumes "cache_holds check sv" "setPreference check now u k v sv = (sv', r)"
  shows "spec_step check (SetPreference now u k v) (sv_store sv) = (sv_store sv', answer r (\<lambda>_. [])) \<and> cache_holds check sv'"
proof (cases "and_then (entryFor k UserScope) (\<lambda>e. and_then (validValue check e v) (\<lambda>x. preference_set u k x now (sv_store sv)))")
  case (Inl e)
  then show ?thesis using assms by (auto simp: setPreference_def answer_def)
next
  case (Inr s)
  then obtain e x where e: "entryFor k UserScope = Inr e"
    and s: "s = (sv_store sv)\<lparr>ss_preferences := js_set (ss_preferences (sv_store sv)) (u, k) (x, now)\<rparr>"
    by (auto simp: and_then_Inr preference_set_def split: if_splits)
  have sv': "sv' = \<lparr>sv_store = s, sv_cache = js_delete (sv_cache sv) (preferenceCacheKey u k)\<rparr>" "r = Inr ()"
    using assms(2) Inr by (auto simp: setPreference_def)
  have "the_preference check u' s k' = Inr w"
    if "map_of (js_delete (sv_cache sv) (preferenceCacheKey u k)) (preferenceCacheKey u' k') = Some w" "entryFor k' UserScope = Inr e'" for u' k' w e'
  proof -
    have "(u', k') \<noteq> (u, k)" using that by auto
    then have "the_preference check u' s k' = the_preference check u' (sv_store sv) k'" by (auto simp: the_preference_def s)
    then show ?thesis using that assms(1) by (auto simp: cache_holds_def split: if_splits)
  qed
  moreover have "the_setting check s k' = the_setting check (sv_store sv) k'" for k' by (simp add: the_setting_def s)
  ultimately have "cache_holds check sv'" using assms(1) by (auto simp: cache_holds_def sv')
  then show ?thesis using Inr by (simp add: sv' answer_def)
qed

lemma setSetting_spec:
  assumes "cache_holds check sv" "setSetting check now c a k v sv = (sv', r)"
  shows "spec_step check (SetSetting now c a k v) (sv_store sv) = (sv_store sv', answer r (\<lambda>_. [])) \<and> cache_holds check sv'"
proof (cases "and_then (entryFor k AppScope) (\<lambda>e. map_sum id (\<lambda>x. (e, x)) (validValue check e v))")
  case (Inl e)
  then show ?thesis using assms by (auto simp: setSetting_def answer_def)
next
  case (Inr ex)
  then obtain e x where ex: "ex = (e, x)" "entryFor k AppScope = Inr e" by (auto simp: and_then_Inr validValue_def split: if_splits)
  obtain sv1 old where old: "getSetting check k sv = (sv1, old)" by (cases "getSetting check k sv")
  have g: "old = the_setting check (sv_store sv) k" "sv_store sv1 = sv_store sv" "cache_holds check sv1"
    using getSetting_spec [OF assms(1) old] by auto
  obtain o1 where o1: "old = Inr o1" "the_setting check (sv_store sv) k = Inr o1" using g(1) ex(2) by (simp add: the_setting_def)
  let ?s = "setting_set k x now (sv_store sv)"
  show ?thesis
  proof (cases "audit_record c (setting_draft a e o1 x) Success (ss_db ?s)")
    case a: (Inl err)
    then have "sv' = sv1" "r = Inl (NotRecorded err)" using assms(2) Inr ex old g(2) o1(1) by (auto simp: setSetting_def Let_def)
    then show ?thesis using Inr ex a g(2,3) o1(2) by (simp add: answer_def setting_set_def)
  next
    case a: (Inr d)
    then have sv': "sv' = \<lparr>sv_store = ?s\<lparr>ss_db := d\<rparr>, sv_cache = js_delete (sv_cache sv1) (settingCacheKey k)\<rparr>" "r = Inr ()"
      using assms(2) Inr ex old g(2) o1(1) by (auto simp: setSetting_def Let_def)
    have "the_setting check (?s\<lparr>ss_db := d\<rparr>) k' = the_setting check (sv_store sv1) k'" if "k' \<noteq> k" for k'
      using that g(2) by (simp add: the_setting_def setting_set_def)
    moreover have "the_preference check u (?s\<lparr>ss_db := d\<rparr>) k' = the_preference check u (sv_store sv1) k'" for u k'
      using g(2) by (simp add: the_preference_def setting_set_def)
    ultimately have "cache_holds check sv'" using g(3) by (auto simp: cache_holds_def sv' split: if_splits)
    then show ?thesis using Inr ex a o1(2) by (simp add: answer_def sv' setting_set_def)
  qed
qed

lemma settings_simulated:
  assumes "cache_holds check sv" "settings_step check x sv = (sv', r)"
  shows "spec_step check x (sv_store sv) = (sv_store sv', r) \<and> cache_holds check sv'"
proof (cases x)
  case (GetPreference u k)
  then show ?thesis using assms getPreference_spec [OF assms(1), of u k] by (auto simp: Let_def split: prod.splits)
next
  case (GetPreferences u)
  have "r = Inr (map (\<lambda>k. (k, projr (the_preference check u (sv_store sv) k))) preferenceKeys)
      \<and> sv_store sv' = sv_store sv \<and> cache_holds check sv'"
    by (rule read_all_spec [where actual = "\<lambda>k s. the_preference check u s k" and get = "getPreference check u"])
      (use assms GetPreferences getPreference_spec preferences_registered in \<open>auto simp: getPreferences_def all_keys(1)\<close>)
  then show ?thesis using GetPreferences by simp
next
  case (GetSetting k)
  then show ?thesis using assms getSetting_spec [OF assms(1), of k] by (auto simp: Let_def split: prod.splits)
next
  case GetSettings
  have "r = Inr (map (\<lambda>k. (k, projr (the_setting check (sv_store sv) k))) settingKeys)
      \<and> sv_store sv' = sv_store sv \<and> cache_holds check sv'"
    by (rule read_all_spec [where actual = "\<lambda>k s. the_setting check s k" and get = "getSetting check"])
      (use assms GetSettings getSetting_spec settings_registered in \<open>auto simp: getSettings_def all_keys(2)\<close>)
  then show ?thesis using GetSettings by simp
next
  case (SetPreference now u k v)
  then show ?thesis using assms setPreference_spec [OF assms(1), of now u k v] by (auto simp: Let_def split: prod.splits)
next
  case (SetSetting now c a k v)
  then show ?thesis using assms setSetting_spec [OF assms(1), of now c a k v] by (auto simp: Let_def split: prod.splits)
qed

text \<open>
  Claim C20: the cache of the settings service cannot be seen: whatever preferences and settings are
  read and changed in any order, by any users, with any outcome of the audit log, a service that
  starts with an empty cache gives the answers and leaves the store of one that reads the store every
  time; in particular a value is never out of date and never another user's.
\<close>

theorem settings_cache_transparent:
  "map_prod sv_store id (run_all (settings_step check) xs \<lparr>sv_store = s, sv_cache = []\<rparr>) = run_all (spec_step check) xs s"
proof -
  have "map_prod sv_store id (run_all (settings_step check) xs sv) = run_all (spec_step check) xs (sv_store sv)"
    if "cache_holds check sv" for sv
    using that
  proof (induction xs arbitrary: sv)
    case (Cons x xs)
    obtain sv' r where x: "settings_step check x sv = (sv', r)" by (cases "settings_step check x sv")
    have "spec_step check x (sv_store sv) = (sv_store sv', r)" "cache_holds check sv'"
      using settings_simulated [OF Cons.prems x] by auto
    then show ?case using Cons.IH [of sv'] x by (cases "run_all (settings_step check) xs sv'") (auto simp: Let_def split: prod.splits)
  qed simp
  then show ?thesis by (simp add: cache_holds_def)
qed

end
