(* ===== verification/QueryHistory.thy ===== *)
theory QueryHistory
  imports Settings Dialect "HOL-Library.List_Lexorder" "HOL-Library.Char_ord" "HOL-Library.Product_Lexorder"
begin

text \<open>
  The query history and the saved queries: the repositories
  \<open>internal-sqlite/src/repositories/query-history.ts\<close> and \<open>saved-queries.ts\<close>, and
   \<open>QueryHistoryService\<close> of \<open>apps/server/src/query/query-history.ts\<close>. Times are compared as numbers, which
  agrees with their ISO texts. The redaction of a statement is an argument.
\<close>

section \<open>The history\<close>

record past_query =
  he_id :: string
  he_user :: string
  he_connection :: "string option"
  he_database :: "string option"
  he_schema :: "string option"
  he_sql :: string
  he_status :: string
  he_duration :: "int option"
  he_rows :: "int option"
  he_at :: time

record history_filter =
  hf_text :: "string option"
  hf_q :: "string option"
  hf_connection :: "string option option"
  hf_status :: "string option"
  hf_from :: "time option"
  hf_to :: "time option"

definition opt_holds :: "('a \<Rightarrow> bool) \<Rightarrow> 'a option \<Rightarrow> bool" where
  "opt_holds P x = (case x of None \<Rightarrow> True | Some a \<Rightarrow> P a)"

text \<open>\<open>instr(sql_text, ?) > 0\<close>; the empty text is in every text.\<close>

definition passes :: "history_filter \<Rightarrow> past_query \<Rightarrow> bool" where
  "passes f e \<longleftrightarrow>
     opt_holds (\<lambda>t. js_includes t (he_sql e)) (case hf_text f of Some t \<Rightarrow> Some t | None \<Rightarrow> hf_q f)
     \<and> opt_holds (\<lambda>c. he_connection e = c) (hf_connection f) \<and> opt_holds (\<lambda>s. he_status e = s) (hf_status f)
     \<and> opt_holds (\<lambda>t. t \<le> he_at e) (hf_from f) \<and> opt_holds (\<lambda>t. he_at e \<le> t) (hf_to f)"

text \<open>\<open>ORDER BY executed_at DESC, id DESC\<close>.\<close>

definition newest_first :: "past_query list \<Rightarrow> past_query list" where
  "newest_first es = rev (sort_key (\<lambda>e. (he_at e, he_id e)) es)"

definition validateRetentionLimit :: "int \<Rightarrow> nat option" where
  "validateRetentionLimit n = (if n < 0 then None else Some (nat n))"

definition of_user :: "string \<Rightarrow> past_query list \<Rightarrow> past_query list" where
  "of_user u es = filter (\<lambda>e. he_user e = u) es"

definition enforceRetention :: "string \<Rightarrow> nat \<Rightarrow> past_query list \<Rightarrow> past_query list" where
  "enforceRetention u n es =
     (let kept = map he_id (take n (newest_first (of_user u es))) in
      filter (\<lambda>e. he_user e \<noteq> u \<or> he_id e \<in> set kept) es)"

datatype history_error = HistoryNotStored | HistoryLimit

text \<open>What is read of a connection, and the foreign key to it.\<close>

record connection_row =
  cr_id :: string
  cr_owner :: string
  cr_label :: string
  cr_engine :: string

definition known_connection :: "connection_row list \<Rightarrow> string option \<Rightarrow> bool" where
  "known_connection cs c = opt_holds (\<lambda>i. list_ex (\<lambda>r. cr_id r = i) cs) c"

text \<open>The insertion is refused for an id, a user or a connection that the store does not allow.\<close>

definition history_append ::
  "(string \<Rightarrow> string) \<Rightarrow> int \<Rightarrow> string list \<Rightarrow> connection_row list \<Rightarrow> past_query \<Rightarrow> past_query list \<Rightarrow> past_query list \<times> (history_error + unit)" where
  "history_append redact limit uids cs e es =
     (if he_user e \<notin> set uids \<or> \<not> known_connection cs (he_connection e) \<or> he_id e \<in> set (map he_id es) then (es, Inl HistoryNotStored)
      else
        let es1 = es @ [e\<lparr>he_sql := redact (he_sql e)\<rparr>] in
        (case validateRetentionLimit limit of
           None \<Rightarrow> (es1, Inl HistoryLimit)
         | Some n \<Rightarrow> (enforceRetention (he_user e) n es1, Inr ())))"

definition history_find :: "string \<Rightarrow> past_query list \<Rightarrow> past_query option" where
  "history_find i es = find (\<lambda>e. he_id e = i) es"

definition history_listByUser ::
  "string \<Rightarrow> history_filter option \<Rightarrow> page_request option \<Rightarrow> past_query list \<Rightarrow> past_query page" where
  "history_listByUser u f q es =
     pageOf (newest_first (filter (\<lambda>e. opt_holds (\<lambda>g. passes g e) f) (of_user u es))) (pageWindow q)"

definition history_deleteByUser :: "string \<Rightarrow> past_query list \<Rightarrow> past_query list \<times> nat" where
  "history_deleteByUser u es = (filter (\<lambda>e. he_user e \<noteq> u) es, length (of_user u es))"

definition history_delete :: "string \<Rightarrow> past_query list \<Rightarrow> past_query list" where
  "history_delete i es = filter (\<lambda>e. he_id e \<noteq> i) es"

text \<open>\<open>historyMaxFromSettings\<close>: the setting of the service, which holds a number.\<close>

definition DEFAULT_HISTORY_MAX_ENTRIES :: int where
  "DEFAULT_HISTORY_MAX_ENTRIES = 1000"

definition whole_json :: "json option \<Rightarrow> int option" where
  "whole_json v = (case v of Some (JNum n) \<Rightarrow> if 0 \<le> n then Some n else None | _ \<Rightarrow> None)"

definition historyMaxFromSettings :: "json option \<Rightarrow> json option \<Rightarrow> int" where
  "historyMaxFromSettings runtime stored =
     (case whole_json runtime of
        Some n \<Rightarrow> n
      | None \<Rightarrow> (case whole_json stored of Some n \<Rightarrow> n | None \<Rightarrow> DEFAULT_HISTORY_MAX_ENTRIES))"

section \<open>Saved queries\<close>

record saved_query =
  sq_id :: string
  sq_user :: string
  sq_name :: string
  sq_sql :: string
  sq_tags :: "string list"
  sq_connection :: "string option"
  sq_database :: "string option"
  sq_createdAt :: time
  sq_updatedAt :: time

record history_service =
  hv_history :: "past_query list"
  hv_saved :: "saved_query list"
  hv_connections :: "connection_row list"
  hv_db :: db

text \<open>\<open>UNIQUE (user_id, name)\<close>, the primary key and the foreign keys; None is a constraint that failed.\<close>

definition saved_create :: "saved_query \<Rightarrow> history_service \<Rightarrow> history_service option" where
  "saved_create q s =
     (if list_ex (\<lambda>r. sq_id r = sq_id q \<or> sq_user r = sq_user q \<and> sq_name r = sq_name q) (hv_saved s)
        \<or> \<not> list_ex (\<lambda>u. uid u = sq_user q) (users (hv_db s)) \<or> \<not> known_connection (hv_connections s) (sq_connection q)
      then None else Some (s\<lparr>hv_saved := hv_saved s @ [q]\<rparr>))"

definition saved_overwrite :: "saved_query \<Rightarrow> saved_query \<Rightarrow> saved_query" where
  "saved_overwrite q r = r\<lparr>sq_name := sq_name q, sq_sql := sq_sql q, sq_tags := sq_tags q, sq_connection := sq_connection q,
     sq_database := sq_database q, sq_updatedAt := sq_updatedAt q\<rparr>"

definition saved_update :: "saved_query \<Rightarrow> history_service \<Rightarrow> history_service option" where
  "saved_update q s =
     (if list_ex (\<lambda>r. sq_id r \<noteq> sq_id q \<and> sq_user r = sq_user q \<and> sq_name r = sq_name q) (hv_saved s)
        \<or> \<not> known_connection (hv_connections s) (sq_connection q)
      then None
      else Some (s\<lparr>hv_saved := map (\<lambda>r. if sq_id r = sq_id q then saved_overwrite q r else r) (hv_saved s)\<rparr>))"

definition saved_find :: "string \<Rightarrow> history_service \<Rightarrow> saved_query option" where
  "saved_find i s = find (\<lambda>q. sq_id q = i) (hv_saved s)"

definition saved_delete :: "string \<Rightarrow> history_service \<Rightarrow> history_service" where
  "saved_delete i s = s\<lparr>hv_saved := filter (\<lambda>q. sq_id q \<noteq> i) (hv_saved s)\<rparr>"

text \<open>\<open>ORDER BY name ASC, id ASC\<close>.\<close>

definition saved_listByUserPage :: "string \<Rightarrow> page_request option \<Rightarrow> history_service \<Rightarrow> saved_query page" where
  "saved_listByUserPage u q s =
     pageOf (sort_key (\<lambda>r. (sq_name r, sq_id r)) (filter (\<lambda>r. sq_user r = u) (hv_saved s))) (pageWindow q)"

section \<open>The service\<close>

datatype saved_error =
    HistoryNotFound | SavedNotFound | SavedInvalid string | SavedNameConflict | QueryConnectionNotFound
  | SavedNotAudited audit_error

definition requiredText :: "string \<Rightarrow> string \<Rightarrow> nat option \<Rightarrow> saved_error + string" where
  "requiredText v field maxLength =
     (let s = js_trim v in
      if s = [] \<or> (case maxLength of Some n \<Rightarrow> length s > n | None \<Rightarrow> False) then Inl (SavedInvalid field) else Inr s)"

definition optionalText :: "string option \<Rightarrow> string option" where
  "optionalText v = (case v of None \<Rightarrow> None | Some s \<Rightarrow> if js_trim s = [] then None else Some (js_trim s))"

definition MAX_SAVED_QUERY_NAME_LENGTH :: nat where "MAX_SAVED_QUERY_NAME_LENGTH = 256"
definition MAX_SAVED_QUERY_TAGS :: nat where "MAX_SAVED_QUERY_TAGS = 20"
definition MAX_SAVED_QUERY_TAG_LENGTH :: nat where "MAX_SAVED_QUERY_TAG_LENGTH = 64"

fun collect_tags :: "string list \<Rightarrow> string list \<Rightarrow> saved_error + string list" where
  "collect_tags tags [] = Inr tags"
| "collect_tags tags (t # ts) =
     (let s = js_trim t in
      if s = [] \<or> length s > MAX_SAVED_QUERY_TAG_LENGTH then Inl (SavedInvalid ''tag'')
      else collect_tags (if s \<in> set tags then tags else tags @ [s]) ts)"

definition normalizedTags :: "string list option \<Rightarrow> saved_error + string list" where
  "normalizedTags v =
     (case v of
        None \<Rightarrow> Inr []
      | Some ts \<Rightarrow> if length ts > MAX_SAVED_QUERY_TAGS then Inl (SavedInvalid ''tags'') else collect_tags [] ts)"

definition ownerConnection :: "string \<Rightarrow> string option \<Rightarrow> history_service \<Rightarrow> connection_row option" where
  "ownerConnection u c s =
     (case Option.bind c (\<lambda>i. find (\<lambda>r. cr_id r = i) (hv_connections s)) of
        Some r \<Rightarrow> if cr_owner r = u then Some r else None | None \<Rightarrow> None)"

definition assertConnectionOwner :: "string \<Rightarrow> string option \<Rightarrow> history_service \<Rightarrow> saved_error + unit" where
  "assertConnectionOwner u c s =
     (if c \<noteq> None \<and> ownerConnection u c s = None then Inl QueryConnectionNotFound else Inr ())"

definition ownedSaved :: "string \<Rightarrow> string \<Rightarrow> history_service \<Rightarrow> saved_error + saved_query" where
  "ownedSaved u i s =
     (case saved_find i s of Some q \<Rightarrow> if sq_user q = u then Inr q else Inl SavedNotFound | None \<Rightarrow> Inl SavedNotFound)"

text \<open>An item shows its connection only to the owner of it.\<close>

definition historyItem :: "string \<Rightarrow> past_query \<Rightarrow> history_service \<Rightarrow> past_query \<times> connection_row option" where
  "historyItem u e s = (e, ownerConnection u (he_connection e) s)"

definition savedItem :: "string \<Rightarrow> saved_query \<Rightarrow> history_service \<Rightarrow> saved_query \<times> connection_row option" where
  "savedItem u q s = (q, ownerConnection u (sq_connection q) s)"

definition with_items :: "('a \<Rightarrow> 'b) \<Rightarrow> 'a page \<Rightarrow> 'b page" where
  "with_items f p = \<lparr>pitems = map f (pitems p), ptotal = ptotal p, ppage = ppage p, ppageSize = ppageSize p\<rparr>"

definition safeRetentionLimit :: "int \<Rightarrow> int" where
  "safeRetentionLimit n = (if 0 \<le> n \<and> n \<le> 9007199254740991 then n else 1000)"

definition listHistory ::
  "int \<Rightarrow> string \<Rightarrow> history_filter option \<Rightarrow> page_request option \<Rightarrow> history_service \<Rightarrow> (past_query \<times> connection_row option) page \<times> int" where
  "listHistory retention u f q s =
     (with_items (\<lambda>e. historyItem u e s) (history_listByUser u f q (hv_history s)), safeRetentionLimit retention)"

definition listSaved :: "string \<Rightarrow> page_request option \<Rightarrow> history_service \<Rightarrow> (saved_query \<times> connection_row option) page" where
  "listSaved u q s = with_items (\<lambda>r. savedItem u r s) (saved_listByUserPage u q s)"

text \<open>The entry is recorded after the change, if there is a writer.\<close>

definition record_after ::
  "audit_context option \<Rightarrow> audit_draft \<Rightarrow> 'a \<Rightarrow> history_service \<Rightarrow> history_service \<times> (saved_error + 'a)" where
  "record_after c e a s =
     (case c of
        None \<Rightarrow> (s, Inr a)
      | Some c' \<Rightarrow>
          (case audit_record c' e Success (hv_db s) of
             Inl x \<Rightarrow> (s, Inl (SavedNotAudited x)) | Inr d \<Rightarrow> (s\<lparr>hv_db := d\<rparr>, Inr a)))"

definition query_draft :: "string \<Rightarrow> string \<Rightarrow> string \<Rightarrow> (string, json) jsmap option \<Rightarrow> audit_draft" where
  "query_draft act u ref ds = \<lparr>daction = act, dactor = Some u, dtargetType = None, dtargetRef = Some ref,
     dconnection = None, ddetails = ds\<rparr>"

definition deleteHistoryEntry ::
  "audit_context option \<Rightarrow> string \<Rightarrow> string \<Rightarrow> history_service \<Rightarrow> history_service \<times> (saved_error + unit)" where
  "deleteHistoryEntry c u i s =
     (case history_find i (hv_history s) of
        Some e \<Rightarrow>
          if he_user e \<noteq> u then (s, Inl HistoryNotFound)
          else record_after c (query_draft ''query.history_deleted'' u i None) ()
                 (s\<lparr>hv_history := history_delete i (hv_history s)\<rparr>)
      | None \<Rightarrow> (s, Inl HistoryNotFound))"

definition deleteHistory ::
  "audit_context option \<Rightarrow> string \<Rightarrow> history_service \<Rightarrow> history_service \<times> (saved_error + nat)" where
  "deleteHistory c u s =
     (let (es, n) = history_deleteByUser u (hv_history s); s' = s\<lparr>hv_history := es\<rparr> in
      if n > 0 then record_after c (query_draft ''query.history_deleted'' u u (Some [(''count'', JNum (int n))])) n s'
      else (s', Inr n))"

record saved_input =
  si_name :: string
  si_sql :: string
  si_connection :: "string option"
  si_database :: "string option"
  si_tags :: "string list option"

definition new_saved :: "time \<Rightarrow> string \<Rightarrow> string \<Rightarrow> saved_input \<Rightarrow> history_service \<Rightarrow> saved_error + saved_query" where
  "new_saved now i u input s =
     and_then (requiredText (si_name input) ''Name'' (Some MAX_SAVED_QUERY_NAME_LENGTH)) (\<lambda>name.
     and_then (requiredText (si_sql input) ''SQL'' None) (\<lambda>sql.
     let conn = optionalText (si_connection input) in
     and_then (assertConnectionOwner u conn s) (\<lambda>_.
     and_then (normalizedTags (si_tags input)) (\<lambda>tags.
       Inr \<lparr>sq_id = i, sq_user = u, sq_name = name, sq_sql = sql, sq_tags = tags, sq_connection = conn,
            sq_database = optionalText (si_database input), sq_createdAt = now, sq_updatedAt = now\<rparr>))))"

definition createSaved ::
  "time \<Rightarrow> string \<Rightarrow> string \<Rightarrow> saved_input \<Rightarrow> history_service \<Rightarrow> history_service \<times> (saved_error + (saved_query \<times> connection_row option))" where
  "createSaved now i u input s =
     (case new_saved now i u input s of
        Inl e \<Rightarrow> (s, Inl e)
      | Inr q \<Rightarrow> (case saved_create q s of None \<Rightarrow> (s, Inl SavedNameConflict) | Some s' \<Rightarrow> (s', Inr (savedItem u q s'))))"

text \<open>A patch: None is undefined, \<open>Some None\<close> is \<open>null\<close>.\<close>

record saved_patch =
  sp_name :: "string option"
  sp_sql :: "string option"
  sp_connection :: "string option option"
  sp_database :: "string option option"
  sp_tags :: "string list option"

definition patched :: "'a \<Rightarrow> ('b \<Rightarrow> saved_error + 'a) \<Rightarrow> 'b option \<Rightarrow> saved_error + 'a" where
  "patched old f x = (case x of None \<Rightarrow> Inr old | Some v \<Rightarrow> f v)"

definition changed_saved :: "time \<Rightarrow> string \<Rightarrow> string \<Rightarrow> saved_patch \<Rightarrow> history_service \<Rightarrow> saved_error + saved_query" where
  "changed_saved now u i input s =
     and_then (ownedSaved u i s) (\<lambda>old.
     and_then (patched (sq_name old) (\<lambda>v. requiredText v ''Name'' (Some MAX_SAVED_QUERY_NAME_LENGTH)) (sp_name input)) (\<lambda>name.
     and_then (patched (sq_sql old) (\<lambda>v. requiredText v ''SQL'' None) (sp_sql input)) (\<lambda>sql.
     let conn = (case sp_connection input of None \<Rightarrow> sq_connection old | Some v \<Rightarrow> optionalText v) in
     and_then (assertConnectionOwner u conn s) (\<lambda>_.
     and_then (patched (sq_tags old) (\<lambda>v. normalizedTags (Some v)) (sp_tags input)) (\<lambda>tags.
       Inr (old\<lparr>sq_name := name, sq_sql := sql, sq_tags := tags, sq_connection := conn,
          sq_database := (case sp_database input of None \<Rightarrow> sq_database old | Some v \<Rightarrow> optionalText v),
          sq_updatedAt := now\<rparr>))))))"

definition updateSaved ::
  "time \<Rightarrow> string \<Rightarrow> string \<Rightarrow> saved_patch \<Rightarrow> history_service \<Rightarrow> history_service \<times> (saved_error + (saved_query \<times> connection_row option))" where
  "updateSaved now u i input s =
     (case changed_saved now u i input s of
        Inl e \<Rightarrow> (s, Inl e)
      | Inr q \<Rightarrow> (case saved_update q s of None \<Rightarrow> (s, Inl SavedNameConflict) | Some s' \<Rightarrow> (s', Inr (savedItem u q s'))))"

definition deleteSaved ::
  "audit_context option \<Rightarrow> string \<Rightarrow> string \<Rightarrow> history_service \<Rightarrow> history_service \<times> (saved_error + unit)" where
  "deleteSaved c u i s =
     (case ownedSaved u i s of
        Inl e \<Rightarrow> (s, Inl e)
      | Inr _ \<Rightarrow> record_after c (query_draft ''query.saved_deleted'' u i None) () (saved_delete i s))"

section \<open>Retention\<close>

lemma newest_filter: "newest_first (filter P es) = filter P (newest_first es)"
  by (simp add: newest_first_def filter_sort rev_filter [symmetric])

lemma newest_set [simp]: "set (newest_first es) = set es" "length (newest_first es) = length es"
  by (simp_all add: newest_first_def)

lemma newest_distinct: "distinct (map f es) \<Longrightarrow> distinct (map f (newest_first es))"
  by (simp add: newest_first_def distinct_map)

lemma filter_take_keys:
  assumes "distinct (map f ys)"
  shows "filter (\<lambda>y. f y \<in> set (map f (take n ys))) ys = take n ys"
proof -
  have "f y \<notin> f ` set (take n ys)" if "y \<in> set (drop n ys)" for y
    using assms that by (metis append_take_drop_id disjoint_iff distinct_append image_eqI map_append set_map)
  then have "filter (\<lambda>y. f y \<in> f ` set (take n ys)) (take n ys @ drop n ys) = take n ys"
    unfolding filter_append by (simp add: filter_empty_conv)
  then show ?thesis by simp
qed

lemma kept_newest:
  assumes "distinct (map he_id es)"
  shows "newest_first (of_user u (enforceRetention u n es)) = take n (newest_first (of_user u es))"
proof -
  let ?ys = "newest_first (of_user u es)"
  have "of_user u (enforceRetention u n es) = filter (\<lambda>e. he_id e \<in> set (map he_id (take n ?ys))) (of_user u es)"
    unfolding of_user_def enforceRetention_def Let_def filter_filter by (rule filter_cong) auto
  moreover have "distinct (map he_id ?ys)"
    using assms unfolding of_user_def by (intro newest_distinct distinct_map_filter)
  ultimately show ?thesis by (simp only: newest_filter filter_take_keys)
qed

text \<open>
  Claim C31: the history keeps the newest statements of each user: after a statement was added, the
  history of its user is exactly the newest ones, as many as the limit allows, of the statements there
  were and the new one, whose text is stored redacted. The history of every other user stays as it is.
\<close>

theorem history_keeps_newest:
  assumes "distinct (map he_id es)" "history_append redact limit uids cs e es = (es', Inr ())"
  shows "newest_first (of_user (he_user e) es')
      = take (nat limit) (newest_first (of_user (he_user e) (es @ [e\<lparr>he_sql := redact (he_sql e)\<rparr>])))
    \<and> length (of_user (he_user e) es') \<le> nat limit \<and> distinct (map he_id es')
    \<and> (\<forall>v. v \<noteq> he_user e \<longrightarrow> of_user v es' = of_user v es)"
proof -
  let ?u = "he_user e" and ?es = "es @ [e\<lparr>he_sql := redact (he_sql e)\<rparr>]"
  have new: "he_id e \<notin> set (map he_id es)" and es': "es' = enforceRetention ?u (nat limit) ?es"
    using assms(2) by (auto simp: history_append_def validateRetentionLimit_def Let_def split: if_splits)
  then have d: "distinct (map he_id ?es)" using assms(1) by simp
  have kept: "newest_first (of_user ?u es') = take (nat limit) (newest_first (of_user ?u ?es))"
    unfolding es' by (rule kept_newest [OF d])
  moreover have "length (of_user ?u es') \<le> nat limit"
    using arg_cong [OF kept, of length] by simp
  moreover have "distinct (map he_id es')"
    unfolding es' enforceRetention_def Let_def using d by (rule distinct_map_filter)
  moreover have "of_user v es' = of_user v es" if "v \<noteq> ?u" for v
    unfolding es' enforceRetention_def Let_def of_user_def filter_filter using that by (auto intro: filter_cong)
  ultimately show ?thesis by blast
qed

definition past :: "string \<Rightarrow> string \<Rightarrow> time \<Rightarrow> past_query" where
  "past i u t = \<lparr>he_id = i, he_user = u, he_connection = None, he_database = None, he_schema = None,
     he_sql = ''SELECT 1'', he_status = ''completed'', he_duration = None, he_rows = None, he_at = t\<rparr>"

lemma third_append: "snd (history_append id 2 [''u''] [] (past ''c'' ''u'' 3) [past ''a'' ''u'' 1, past ''b'' ''u'' 2, past ''d'' ''v'' 0]) = Inr ()"
  by (simp add: history_append_def known_connection_def opt_holds_def past_def validateRetentionLimit_def Let_def)

theorem history_keeps_newest_witness:
  "length (of_user ''u'' (fst (history_append id 2 [''u''] [] (past ''c'' ''u'' 3) [past ''a'' ''u'' 1, past ''b'' ''u'' 2, past ''d'' ''v'' 0]))) \<le> 2"
proof -
  let ?es = "[past ''a'' ''u'' 1, past ''b'' ''u'' 2, past ''d'' ''v'' 0]"
  have d: "distinct (map he_id ?es)" by (simp add: past_def)
  obtain es' where e: "history_append id 2 [''u''] [] (past ''c'' ''u'' 3) ?es = (es', Inr ())"
    using third_append by (metis prod.collapse)
  have "length (of_user (he_user (past ''c'' ''u'' 3)) es') \<le> nat 2"
    using history_keeps_newest [OF d e] by blast
  then show ?thesis unfolding e by (simp add: past_def)
qed

section \<open>Pages of the history\<close>

text \<open>
  The pages of the history cut it without gaps or repetitions: the first \<open>m\<close> pages of any
  size, under any filter, are together the first entries that pass it, newest first, and each page
  says how many there are in all.
\<close>

theorem history_pages_partition:
  "concat (map (\<lambda>p. pitems (history_listByUser u f (Some \<lparr>rpage = Some (int p), rpageSize = Some (int (Suc n)),
       rlimit = None, roffset = None\<rparr>) es)) [1..<Suc m])
     = take (m * Suc n) (newest_first (filter (\<lambda>e. he_user e = u \<and> opt_holds (\<lambda>g. passes g e) f) es))
   \<and> ptotal (history_listByUser u f q es) = length (filter (\<lambda>e. he_user e = u \<and> opt_holds (\<lambda>g. passes g e) f) es)"
proof (induction m)
  case 0
  then show ?case by (simp add: history_listByUser_def pageOf_def of_user_def conj_commute)
next
  case (Suc m)
  let ?all = "newest_first (filter (\<lambda>e. he_user e = u \<and> opt_holds (\<lambda>g. passes g e) f) es)"
  have off: "nat (woffset (pageWindow (Some \<lparr>rpage = Some (int (Suc m)), rpageSize = Some (int (Suc n)), rlimit = None, roffset = None\<rparr>))) = m * Suc n"
    "nat (wpageSize (pageWindow (Some \<lparr>rpage = Some (int (Suc m)), rpageSize = Some (int (Suc n)), rlimit = None, roffset = None\<rparr>))) = Suc n"
    by (simp_all add: pageWindow_def Let_def nat_mult_distrib nat_add_distrib)
  have "pitems (history_listByUser u f (Some \<lparr>rpage = Some (int (Suc m)), rpageSize = Some (int (Suc n)), rlimit = None, roffset = None\<rparr>) es)
      = take (Suc n) (drop (m * Suc n) ?all)"
    unfolding history_listByUser_def pageOf_def page.simps off by (simp add: of_user_def conj_commute)
  then show ?case using Suc by (simp add: take_add [symmetric] add.commute add.left_commute)
qed

section \<open>Users and their queries\<close>

text \<open>The requests of a user.\<close>

datatype history_op =
    ListHistory "history_filter option" "page_request option" | DeleteEntry string | DeleteAll
  | ListSaved "page_request option" | CreateSaved time string saved_input | UpdateSaved time string saved_patch
  | DeleteSaved string

fun history_step :: "audit_context option \<Rightarrow> string \<Rightarrow> history_op \<Rightarrow> history_service \<Rightarrow> history_service" where
  "history_step c u (ListHistory f q) s = s"
| "history_step c u (DeleteEntry i) s = fst (deleteHistoryEntry c u i s)"
| "history_step c u DeleteAll s = fst (deleteHistory c u s)"
| "history_step c u (ListSaved q) s = s"
| "history_step c u (CreateSaved now i x) s = fst (createSaved now i u x s)"
| "history_step c u (UpdateSaved now i x) s = fst (updateSaved now u i x s)"
| "history_step c u (DeleteSaved i) s = fst (deleteSaved c u i s)"

definition tags_ok :: "string list \<Rightarrow> bool" where
  "tags_ok ts \<longleftrightarrow> distinct ts \<and> length ts \<le> 20 \<and> (\<forall>t \<in> set ts. t \<noteq> [] \<and> length t \<le> 64)"

definition saved_ok :: "saved_query \<Rightarrow> bool" where
  "saved_ok q \<longleftrightarrow> sq_name q \<noteq> [] \<and> length (sq_name q) \<le> 256 \<and> sq_sql q \<noteq> [] \<and> tags_ok (sq_tags q)"

definition queries_ok :: "history_service \<Rightarrow> bool" where
  "queries_ok s \<longleftrightarrow> distinct (map he_id (hv_history s)) \<and> distinct (map sq_id (hv_saved s))
     \<and> distinct (map (\<lambda>q. (sq_user q, sq_name q)) (hv_saved s)) \<and> (\<forall>q \<in> set (hv_saved s). saved_ok q)"

definition saved_of :: "string \<Rightarrow> history_service \<Rightarrow> saved_query list" where
  "saved_of u s = filter (\<lambda>q. sq_user q = u) (hv_saved s)"

text \<open>A step of \<open>u\<close> that only concerns the rows of \<open>u\<close>.\<close>

definition own_step :: "string \<Rightarrow> history_service \<Rightarrow> history_service \<Rightarrow> bool" where
  "own_step u s s' \<longleftrightarrow> queries_ok s' \<and>
     (\<forall>v. v \<noteq> u \<longrightarrow> of_user v (hv_history s') = of_user v (hv_history s) \<and> saved_of v s' = saved_of v s)"

lemma own_refl: "queries_ok s \<Longrightarrow> own_step u s s"
  by (simp add: own_step_def)

lemma own_recorded: "own_step u s s' \<Longrightarrow> own_step u s (fst (record_after c e a s'))"
  by (auto simp: record_after_def own_step_def queries_ok_def saved_of_def split: option.splits sum.splits)

lemma collected: "collect_tags acc ts = Inr r \<Longrightarrow> distinct acc \<Longrightarrow> \<forall>t \<in> set acc. t \<noteq> [] \<and> length t \<le> 64 \<Longrightarrow>
    distinct r \<and> length r \<le> length acc + length ts \<and> (\<forall>t \<in> set r. t \<noteq> [] \<and> length t \<le> 64)"
proof (induction ts arbitrary: acc)
  case (Cons t ts)
  let ?acc = "if js_trim t \<in> set acc then acc else acc @ [js_trim t]"
  have "collect_tags ?acc ts = Inr r" and t: "js_trim t \<noteq> []" "length (js_trim t) \<le> 64"
    using Cons.prems(1) by (auto simp: Let_def MAX_SAVED_QUERY_TAG_LENGTH_def split: if_splits)
  have "distinct ?acc \<and> (\<forall>t \<in> set ?acc. t \<noteq> [] \<and> length t \<le> 64) \<and> length ?acc \<le> Suc (length acc)"
    using Cons.prems(2,3) t by (cases "js_trim t \<in> set acc") simp_all
  then show ?case using Cons.IH [OF \<open>collect_tags ?acc ts = Inr r\<close>] by fastforce
qed auto

lemma tags_normalized: "normalizedTags v = Inr ts \<Longrightarrow> tags_ok ts"
  using collected [of "[]"] by (fastforce simp: normalizedTags_def tags_ok_def MAX_SAVED_QUERY_TAGS_def split: option.splits if_splits)

lemma text_required: "requiredText v f n = Inr s \<Longrightarrow> s \<noteq> [] \<and> (\<forall>m. n = Some m \<longrightarrow> length s \<le> m)"
  by (auto simp: requiredText_def Let_def split: if_splits option.splits)

lemma name_required: "requiredText v f (Some MAX_SAVED_QUERY_NAME_LENGTH) = Inr s \<Longrightarrow> s \<noteq> [] \<and> length s \<le> 256"
  using text_required by (fastforce simp: MAX_SAVED_QUERY_NAME_LENGTH_def)

lemma patched_Inr: "patched old f x = Inr y \<longleftrightarrow> (case x of None \<Rightarrow> y = old | Some v \<Rightarrow> f v = Inr y)"
  by (auto simp: patched_def split: option.splits)

lemma same_id_user: "distinct (map he_id es) \<Longrightarrow> history_find i es = Some e \<Longrightarrow> x \<in> set es \<Longrightarrow> he_id x = i \<Longrightarrow> x = e"
  by (auto simp: history_find_def find_Some_iff in_set_conv_nth distinct_conv_nth)

lemma same_saved: "distinct (map sq_id qs) \<Longrightarrow> find (\<lambda>q. sq_id q = i) qs = Some q \<Longrightarrow> x \<in> set qs \<Longrightarrow> sq_id x = i \<Longrightarrow> x = q"
  by (auto simp: find_Some_iff in_set_conv_nth distinct_conv_nth)

lemma own_deleteEntry: "queries_ok s \<Longrightarrow> own_step u s (fst (deleteHistoryEntry c u i s))"
proof (cases "history_find i (hv_history s)")
  case (Some e)
  assume ok: "queries_ok s"
  show ?thesis
  proof (cases "he_user e = u")
    case True
    have "filter (\<lambda>e. he_id e \<noteq> i \<and> he_user e = v) (hv_history s) = filter (\<lambda>e. he_user e = v) (hv_history s)" if "v \<noteq> u" for v
      using ok Some True that same_id_user by (intro filter_cong) (auto simp: queries_ok_def)
    then have "own_step u s (s\<lparr>hv_history := history_delete i (hv_history s)\<rparr>)"
      using ok by (auto simp: own_step_def queries_ok_def history_delete_def of_user_def saved_of_def distinct_map_filter conj_commute)
    then show ?thesis using Some True by (simp add: deleteHistoryEntry_def own_recorded)
  qed (use Some own_refl [OF ok] in \<open>simp add: deleteHistoryEntry_def\<close>)
qed (simp add: deleteHistoryEntry_def own_refl)

lemma own_deleteAll: "queries_ok s \<Longrightarrow> own_step u s (fst (deleteHistory c u s))"
proof -
  assume ok: "queries_ok s"
  have "own_step u s (s\<lparr>hv_history := filter (\<lambda>e. he_user e \<noteq> u) (hv_history s)\<rparr>)"
    using ok by (auto simp: own_step_def queries_ok_def of_user_def saved_of_def distinct_map_filter intro: filter_cong)
  then show ?thesis by (auto simp: deleteHistory_def history_deleteByUser_def Let_def own_recorded)
qed

lemma own_deleteSaved: "queries_ok s \<Longrightarrow> own_step u s (fst (deleteSaved c u i s))"
proof (cases "ownedSaved u i s")
  case (Inr q)
  assume ok: "queries_ok s"
  have q: "find (\<lambda>q. sq_id q = i) (hv_saved s) = Some q" "sq_user q = u"
    using Inr by (auto simp: ownedSaved_def saved_find_def split: option.splits if_splits)
  have "filter (\<lambda>q. sq_id q \<noteq> i \<and> sq_user q = v) (hv_saved s) = filter (\<lambda>q. sq_user q = v) (hv_saved s)" if "v \<noteq> u" for v
    using ok q that same_saved by (intro filter_cong) (auto simp: queries_ok_def)
  then have "own_step u s (saved_delete i s)"
    using ok by (auto simp: own_step_def queries_ok_def saved_delete_def saved_of_def distinct_map_filter conj_commute)
  then show ?thesis using Inr by (simp add: deleteSaved_def own_recorded)
qed (simp add: deleteSaved_def own_refl)

lemma own_created:
  assumes "queries_ok s" "saved_create q s = Some s'" "saved_ok q" "sq_user q = u"
  shows "own_step u s s'"
proof -
  have new: "sq_id q \<notin> sq_id ` set (hv_saved s)" "(sq_user q, sq_name q) \<notin> (\<lambda>q. (sq_user q, sq_name q)) ` set (hv_saved s)"
    using assms(2) by (auto simp: saved_create_def list_ex_iff split: if_splits)
  have s': "s' = s\<lparr>hv_saved := hv_saved s @ [q]\<rparr>" using assms(2) by (auto simp: saved_create_def split: if_splits)
  show ?thesis using assms(1,3,4) new by (auto simp: s' own_step_def queries_ok_def saved_of_def)
qed

lemma own_updated:
  assumes "queries_ok s" "saved_update q s = Some s'" "saved_ok q" "ownedSaved u (sq_id q) s = Inr old" "sq_user q = u"
  shows "own_step u s s'"
proof -
  let ?f = "\<lambda>r. if sq_id r = sq_id q then saved_overwrite q r else r"
  have s': "hv_saved s' = map ?f (hv_saved s)" "hv_history s' = hv_history s" "hv_db s' = hv_db s"
    and other: "\<And>r. r \<in> set (hv_saved s) \<Longrightarrow> sq_id r \<noteq> sq_id q \<Longrightarrow> (sq_user r, sq_name r) \<noteq> (u, sq_name q)"
    using assms(2,5) by (auto simp: saved_update_def list_ex_iff split: if_splits)
  have mine: "sq_user r = u" if "r \<in> set (hv_saved s)" "sq_id r = sq_id q" for r
    using assms(1,4) that same_saved by (fastforce simp: ownedSaved_def saved_find_def queries_ok_def split: option.splits if_splits)
  have keep: "sq_id (?f r) = sq_id r" "sq_user (?f r) = sq_user r" for r by (simp_all add: saved_overwrite_def)
  have ids: "distinct (map sq_id (hv_saved s))" using assms(1) by (simp add: queries_ok_def)
  have "distinct (map sq_id (map ?f (hv_saved s)))" using ids by (simp add: comp_def keep)
  moreover have "distinct (map (\<lambda>q. (sq_user q, sq_name q)) (map ?f (hv_saved s)))"
  proof -
    have "(sq_user (?f r), sq_name (?f r)) \<noteq> (sq_user (?f r'), sq_name (?f r'))"
      if r: "r \<in> set (hv_saved s)" "r' \<in> set (hv_saved s)" "r \<noteq> r'" for r r'
    proof -
      have i: "sq_id r \<noteq> sq_id r'" using ids r by (auto simp: distinct_map inj_on_def)
      have n: "(sq_user r, sq_name r) \<noteq> (sq_user r', sq_name r')"
        using assms(1) r by (auto simp: queries_ok_def distinct_map inj_on_def)
      consider "sq_id r = sq_id q" "sq_id r' \<noteq> sq_id q" | "sq_id r \<noteq> sq_id q" "sq_id r' = sq_id q"
        | "sq_id r \<noteq> sq_id q" "sq_id r' \<noteq> sq_id q" using i by argo
      then show ?thesis
      proof cases
        case 1
        then show ?thesis using other [OF r(2)] mine [OF r(1)] by (auto simp: saved_overwrite_def)
      next
        case 2
        then show ?thesis using other [OF r(1)] mine [OF r(2)] by (auto simp: saved_overwrite_def)
      qed (use n in simp)
    qed
    moreover have "distinct (hv_saved s)" using ids by (simp add: distinct_map)
    ultimately show ?thesis unfolding map_map comp_def distinct_map inj_on_def by blast
  qed
  moreover have "\<forall>r \<in> set (map ?f (hv_saved s)). saved_ok r"
    using assms(1,3) by (auto simp: queries_ok_def saved_ok_def saved_overwrite_def)
  moreover have "filter (\<lambda>r. sq_user r = v) (map ?f (hv_saved s)) = filter (\<lambda>r. sq_user r = v) (hv_saved s)" if "v \<noteq> u" for v
  proof -
    have "filter (\<lambda>r. sq_user r = v) (map ?f (hv_saved s)) = map ?f (filter (\<lambda>r. sq_user r = v) (hv_saved s))"
      by (simp add: filter_map comp_def keep)
    also have "\<dots> = filter (\<lambda>r. sq_user r = v) (hv_saved s)" using mine that by (intro map_idI) auto
    finally show ?thesis .
  qed
  ultimately show ?thesis using assms(1) unfolding own_step_def queries_ok_def saved_of_def s' by simp
qed

lemma new_saved_ok: "new_saved now i u input s = Inr q \<Longrightarrow> saved_ok q \<and> sq_user q = u"
  unfolding new_saved_def Let_def
  by (auto simp: and_then_Inr saved_ok_def dest: tags_normalized name_required text_required)

lemma changed_saved_ok:
  assumes "changed_saved now u i input s = Inr q" "queries_ok s"
  shows "saved_ok q \<and> sq_user q = u \<and> sq_id q = i \<and> ownedSaved u i s \<in> range Inr"
proof -
  obtain old name sql conn tags db where old: "ownedSaved u i s = Inr old"
    and name: "patched (sq_name old) (\<lambda>v. requiredText v ''Name'' (Some MAX_SAVED_QUERY_NAME_LENGTH)) (sp_name input) = Inr name"
    and sql: "patched (sq_sql old) (\<lambda>v. requiredText v ''SQL'' None) (sp_sql input) = Inr sql"
    and tags: "patched (sq_tags old) (\<lambda>v. normalizedTags (Some v)) (sp_tags input) = Inr tags"
    and q: "q = old\<lparr>sq_name := name, sq_sql := sql, sq_tags := tags, sq_connection := conn, sq_database := db, sq_updatedAt := now\<rparr>"
    using assms(1) unfolding changed_saved_def Let_def and_then_Inr by blast
  have "saved_ok old" "sq_user old = u" "sq_id old = i"
    using old assms(2) by (auto simp: ownedSaved_def saved_find_def find_Some_iff queries_ok_def split: option.splits if_splits)
  moreover have "name \<noteq> [] \<and> length name \<le> 256" "sql \<noteq> []" "tags_ok tags"
    using name sql tags \<open>saved_ok old\<close>
    by (auto simp: patched_Inr saved_ok_def dest: name_required text_required tags_normalized split: option.splits)
  ultimately show ?thesis using old by (simp add: q saved_ok_def)
qed

text \<open>
  Claim C12: users keep their queries to themselves: whatever a user asks for, also with the id of
  another's entry or query, the history and the saved queries of all other users stay the same; and
  always ids are unique, a user has no two saved queries of one name, and every saved query has a name
  of at most 256 characters, a text, and at most 20 different tags of 1 to 64 characters.
\<close>

theorem users_keep_their_queries:
  assumes "queries_ok s"
  shows "queries_ok (history_step c u x s) \<and>
    (\<forall>v. v \<noteq> u \<longrightarrow> of_user v (hv_history (history_step c u x s)) = of_user v (hv_history s) \<and>
       saved_of v (history_step c u x s) = saved_of v s)"
proof -
  have "own_step u s (history_step c u x s)"
  proof (cases x)
    case (CreateSaved now i input)
    obtain s' r where r: "createSaved now i u input s = (s', r)" by (cases "createSaved now i u input s")
    have "s' = s \<or> (\<exists>q. saved_create q s = Some s' \<and> saved_ok q \<and> sq_user q = u)"
      using r new_saved_ok by (fastforce simp: createSaved_def split: sum.splits option.splits)
    then show ?thesis using CreateSaved r own_created [OF assms] own_refl [OF assms] by auto
  next
    case (UpdateSaved now i input)
    obtain s' r where r: "updateSaved now u i input s = (s', r)" by (cases "updateSaved now u i input s")
    have "s' = s \<or> (\<exists>q old. saved_update q s = Some s' \<and> saved_ok q \<and> sq_user q = u \<and> ownedSaved u (sq_id q) s = Inr old)"
      using r changed_saved_ok [OF _ assms] by (fastforce simp: updateSaved_def split: sum.splits option.splits)
    then show ?thesis using UpdateSaved r own_updated [OF assms] own_refl [OF assms] by auto
  qed (simp_all add: own_refl own_deleteEntry own_deleteAll own_deleteSaved assms)
  then show ?thesis by (simp add: own_step_def)
qed

text \<open>A user cannot delete what another has saved.\<close>

definition ann_saved :: history_service where
  "ann_saved = \<lparr>hv_history = [past ''a'' ''ann'' 1], hv_saved = [\<lparr>sq_id = ''q'', sq_user = ''ann'', sq_name = ''all'',
     sq_sql = ''SELECT 1'', sq_tags = [''x''], sq_connection = None, sq_database = None, sq_createdAt = 1, sq_updatedAt = 1\<rparr>],
     hv_connections = [], hv_db = empty_db\<rparr>"

theorem users_keep_their_queries_witness:
  "saved_of ''ann'' (history_step None ''eve'' (DeleteSaved ''q'') ann_saved) = saved_of ''ann'' ann_saved"
proof -
  have "queries_ok ann_saved" by (simp add: queries_ok_def ann_saved_def saved_ok_def tags_ok_def)
  from users_keep_their_queries [OF this, of None "''eve''" "DeleteSaved ''q''"] show ?thesis by auto
qed

end
