(* ===== verification/Patterns.thy ===== *)
theory Patterns
  imports Dialect
begin

text \<open>
  The regular expressions of the sources as functions: a pattern gives, for a text and a start, the ends
  of its matches in the order in which a backtracking matcher of JavaScript finds them, so that the first
  end of a sequence is the match. \<open>redact_from\<close> is \<open>replace\<close> with the flag \<open>g\<close> where
  a part of each match is replaced by a fixed marker.
\<close>

section \<open>Patterns\<close>

type_synonym pattern = "string \<Rightarrow> nat \<Rightarrow> nat list"

definition one_of :: "(char \<Rightarrow> bool) \<Rightarrow> pattern" where
  "one_of P s i = (if i < length s \<and> P (s ! i) then [Suc i] else [])"

definition run_of :: "(char \<Rightarrow> bool) \<Rightarrow> string \<Rightarrow> nat \<Rightarrow> nat" where
  "run_of P s i = length (takeWhile P (drop i s))"

text \<open>\<open>c*\<close>, \<open>c+\<close> and \<open>c*?\<close> of a class of characters.\<close>

definition many :: "(char \<Rightarrow> bool) \<Rightarrow> pattern" where
  "many P s i = rev [i ..< Suc (i + run_of P s i)]"

definition some :: "(char \<Rightarrow> bool) \<Rightarrow> pattern" where
  "some P s i = rev [Suc i ..< Suc (i + run_of P s i)]"

definition few :: "(char \<Rightarrow> bool) \<Rightarrow> pattern" where
  "few P s i = [i ..< Suc (i + run_of P s i)]"

definition ascii_fold :: "char \<Rightarrow> char" where
  "ascii_fold c = (let n = (of_char c :: nat) in if 65 \<le> n \<and> n \<le> 90 then char_of (n + 32) else c)"

text \<open>A text, and one whose letters match in both cases (the flag \<open>i\<close>; the pattern is in lower case).\<close>

definition exactly :: "string \<Rightarrow> pattern" where
  "exactly t s i = (if take (length t) (drop i s) = t then [i + length t] else [])"

definition ignoring_case :: "string \<Rightarrow> pattern" where
  "ignoring_case t s i = (if map ascii_fold (take (length t) (drop i s)) = t then [i + length t] else [])"

definition either :: "pattern list \<Rightarrow> pattern" where
  "either ps s i = concat (map (\<lambda>p. p s i) ps)"

definition optional :: "pattern \<Rightarrow> pattern" where
  "optional p s i = p s i @ [i]"

fun in_order :: "pattern list \<Rightarrow> pattern" where
  "in_order [] s i = [i]"
| "in_order (p # ps) s i = concat (map (in_order ps s) (p s i))"

text \<open>\<open>\b\<close>, and the ends of lines, which \<open>.\<close> does not match.\<close>

definition word_char :: "char \<Rightarrow> bool" where
  "word_char c \<longleftrightarrow> (let n = (of_char c :: nat) in 48 \<le> n \<and> n \<le> 57 \<or> 65 \<le> n \<and> n \<le> 90 \<or> 97 \<le> n \<and> n \<le> 122 \<or> n = 95)"

definition word_at :: "string \<Rightarrow> nat \<Rightarrow> bool" where
  "word_at s i \<longleftrightarrow> i < length s \<and> word_char (s ! i)"

definition boundary :: pattern where
  "boundary s i = (if word_at s i \<noteq> (0 < i \<and> word_at s (i - 1)) then [i] else [])"

definition line_end :: "char \<Rightarrow> bool" where
  "line_end c \<longleftrightarrow> c = CHR 0x0A \<or> c = CHR 0x0D"

text \<open>A pattern goes forward and stays in the text.\<close>

definition forward :: "pattern \<Rightarrow> bool" where
  "forward p \<longleftrightarrow> (\<forall>s i j. i \<le> length s \<longrightarrow> j \<in> set (p s i) \<longrightarrow> i \<le> j \<and> j \<le> length s)"

named_theorems going \<open>patterns go forward\<close>

lemma forwardI: "(\<And>s i j. i \<le> length s \<Longrightarrow> j \<in> set (p s i) \<Longrightarrow> i \<le> j \<and> j \<le> length s) \<Longrightarrow> forward p"
  unfolding forward_def by blast

lemma forwardD: "forward p \<Longrightarrow> j \<in> set (p s i) \<Longrightarrow> i \<le> length s \<Longrightarrow> i \<le> j \<and> j \<le> length s"
  unfolding forward_def by blast

lemma run_bound: "i \<le> length s \<Longrightarrow> i + run_of P s i \<le> length s"
  using length_takeWhile_le [of P "drop i s"] by (simp add: run_of_def)

lemma forward_one [going]: "forward (one_of P)"
  by (rule forwardI) (auto simp: one_of_def split: if_splits)

lemma forward_run: "(\<And>s i j. j \<in> set (p s i) \<Longrightarrow> i \<le> j \<and> j \<le> i + run_of P s i) \<Longrightarrow> forward p"
  by (meson forwardI order.trans run_bound)

lemma forward_many [going]: "forward (many P)"
  by (rule forward_run [of _ P]) (auto simp: many_def)

lemma forward_some [going]: "forward (some P)"
  by (rule forward_run [of _ P]) (auto simp: some_def)

lemma forward_few [going]: "forward (few P)"
  by (rule forward_run [of _ P]) (auto simp: few_def)

lemma taken_length: "i \<le> length s \<Longrightarrow> length (take n (drop i s)) = n \<Longrightarrow> i + n \<le> length s"
  by simp

lemma forward_exactly [going]: "forward (exactly t)"
proof (rule forwardI)
  fix s i j
  assume i: "i \<le> length s" "j \<in> set (exactly t s i)"
  then have "take (length t) (drop i s) = t" "j = i + length t" by (simp_all add: exactly_def split: if_splits)
  then show "i \<le> j \<and> j \<le> length s" using taken_length [OF i(1), of "length t"] by simp
qed

lemma forward_ignoring [going]: "forward (ignoring_case t)"
proof (rule forwardI)
  fix s i j
  assume i: "i \<le> length s" "j \<in> set (ignoring_case t s i)"
  then have "map ascii_fold (take (length t) (drop i s)) = t" and j: "j = i + length t"
    by (simp_all add: ignoring_case_def split: if_splits)
  then have "length (take (length t) (drop i s)) = length t" by (metis length_map)
  then show "i \<le> j \<and> j \<le> length s" using taken_length [OF i(1)] j by simp
qed

lemma forward_boundary [going]: "forward boundary"
  by (rule forwardI) (simp add: boundary_def split: if_splits)

lemma forward_optional [going]: "forward p \<Longrightarrow> forward (optional p)"
  unfolding optional_def by (rule forwardI) (metis Un_iff forwardD order_refl set_append empty_iff list.set(1) set_ConsD)

lemma forward_either [going]: "list_all forward ps \<Longrightarrow> forward (either ps)"
  unfolding either_def by (rule forwardI) (fastforce simp: list_all_iff dest: forwardD)

lemma forward_order [going]: "list_all forward ps \<Longrightarrow> forward (in_order ps)"
proof (induction ps)
  case (Cons p ps)
  then have p: "forward p" and ps: "forward (in_order ps)" by auto
  show ?case
  proof (rule forwardI)
    fix s i j
    assume i: "i \<le> length s" "j \<in> set (in_order (p # ps) s i)"
    then obtain k where k: "k \<in> set (p s i)" "j \<in> set (in_order ps s k)" by auto
    then show "i \<le> j \<and> j \<le> length s" using forwardD [OF p k(1) i(1)] forwardD [OF ps k(2)] by linarith
  qed
qed (rule forwardI, simp)

section \<open>Replacing\<close>

text \<open>
  A match with its part to be replaced: \<open>(a, b, j)\<close> replaces the text from \<open>a\<close> up to \<open>b\<close> in the match that ends
  at \<open>j\<close>. The patterns of the sources never match the empty text, for which nothing is replaced here.
\<close>

type_synonym marking = "string \<Rightarrow> nat \<Rightarrow> (nat \<times> nat \<times> nat) list"

function redact_from :: "string \<Rightarrow> marking \<Rightarrow> string \<Rightarrow> nat \<Rightarrow> string" where
  "redact_from mark m s i =
     (if length s \<le> i then []
      else case m s i of
        (a, b, j) # _ \<Rightarrow>
          if i < j then js_slice s i a @ mark @ js_slice s b j @ redact_from mark m s j
          else s ! i # redact_from mark m s (Suc i)
      | [] \<Rightarrow> s ! i # redact_from mark m s (Suc i))"
  by pat_completeness auto

termination
  by (relation "measure (\<lambda>(mark, m, s, i). length s - i)") auto

declare redact_from.simps [simp del]

text \<open>\<open>text.split(secret).join(mark)\<close> for a text that is not empty.\<close>

function replace_text :: "string \<Rightarrow> string \<Rightarrow> string \<Rightarrow> string" where
  "replace_text mark w [] = []"
| "replace_text mark w (c # s) =
     (if w \<noteq> [] \<and> take (length w) (c # s) = w then mark @ replace_text mark w (drop (length w) (c # s))
      else c # replace_text mark w s)"
  by pat_completeness auto

termination
  by (relation "measure (\<lambda>(mark, w, s). length s)") (auto simp: neq_Nil_conv less_Suc_eq_le)

text \<open>What replacing leaves: the text with some parts replaced by the marker.\<close>

inductive marked :: "string \<Rightarrow> string \<Rightarrow> string \<Rightarrow> bool" for mark where
  marked_end: "marked mark [] []"
| marked_keep: "marked mark s t \<Longrightarrow> marked mark (c # s) (c # t)"
| marked_cut: "marked mark s t \<Longrightarrow> marked mark (x @ s) (mark @ t)"

inductive_cases marked_keepE: "marked mark s (c # t)"

lemma marked_append: "marked mark s t \<Longrightarrow> marked mark (x @ s) (x @ t)"
  by (induction x) (auto intro: marked.intros)

lemma marked_refl: "marked mark s s"
  using marked_append [OF marked_end, of mark s] by simp

lemma replace_marked: "marked mark s (replace_text mark w s)"
proof (induction mark w s rule: replace_text.induct)
  case (2 mark w c s)
  show ?case
  proof (cases "w \<noteq> [] \<and> take (length w) (c # s) = w")
    case True
    then have "c # s = w @ drop (length w) (c # s)" by (metis append_take_drop_id)
    with marked_cut [OF 2(1) [OF True], of w] True show ?thesis by simp
  next
    case False
    with marked_keep [OF 2(2) [OF False], of c] show ?thesis by auto
  qed
qed (simp add: marked_end)

lemma slices_join: "i \<le> a \<Longrightarrow> a \<le> b \<Longrightarrow> js_slice s i a @ js_slice s a b = js_slice s i b"
proof -
  assume le: "i \<le> a" "a \<le> b"
  have "take (a - i + (b - a)) (drop i s) = take (a - i) (drop i s) @ take (b - a) (drop (a - i) (drop i s))"
    by (rule take_add)
  then show ?thesis using le by (simp add: js_slice_def)
qed

lemma slice_rest: "i \<le> j \<Longrightarrow> js_slice s i j @ drop j s = drop i s"
  by (simp add: js_slice_def) (metis append_take_drop_id drop_drop le_add_diff_inverse2)

lemma redact_marked:
  assumes "\<And>i a b j. i \<le> length s \<Longrightarrow> (a, b, j) \<in> set (m s i) \<Longrightarrow> i \<le> a \<and> a \<le> b \<and> b \<le> j \<and> j \<le> length s"
  shows "marked mark (drop i s) (redact_from mark m s i)"
  using assms
proof (induction mark m s i rule: redact_from.induct)
  case (1 mark m s i)
  show ?case
  proof (cases "length s \<le> i")
    case True
    then show ?thesis by (simp add: redact_from.simps marked_end)
  next
    case False
    have more: "marked mark (drop i s) (s ! i # t)" if "marked mark (drop (Suc i) s) t" for t
      using marked_keep [OF that, of "s ! i"] False by (simp add: Cons_nth_drop_Suc)
    show ?thesis
    proof (cases "m s i")
      case Nil
      show ?thesis using more [OF 1(1) [OF False Nil 1(4)]] False Nil by (simp add: redact_from.simps [of mark m s i])
    next
      case (Cons x xs)
      obtain a b j where x: "x = (a, b, j)" by (cases x)
      have le: "i \<le> a" "a \<le> b" "b \<le> j" using 1(4) [of i a b j] False Cons x by auto
      show ?thesis
      proof (cases "i < j")
        case True
        have "marked mark (drop j s) (redact_from mark m s j)"
          using 1(2) [OF False Cons x [symmetric] _ True 1(4)] by blast
        then have "marked mark (js_slice s i a @ js_slice s a b @ js_slice s b j @ drop j s)
            (js_slice s i a @ mark @ js_slice s b j @ redact_from mark m s j)"
          by (intro marked_append marked_cut)
        moreover have "js_slice s i a @ js_slice s a b @ js_slice s b j @ drop j s = drop i s"
          using le slice_rest by (metis order.trans)
        ultimately show ?thesis using False Cons x True by (simp add: redact_from.simps [of mark m s i])
      next
        case notfurther: False
        have "marked mark (drop (Suc i) s) (redact_from mark m s (Suc i))"
          using 1(3) [OF False Cons x [symmetric] _ notfurther 1(4)] by blast
        then show ?thesis using more False Cons x notfurther by (simp add: redact_from.simps [of mark m s i])
      qed
    qed
  qed
qed

end
