(* ===== verification/Redaction.thy ===== *)
theory Redaction
  imports Patterns AuditLog
begin

text \<open>
  \<open>RedactionEngine\<close> of \<open>packages/crypto/src/redaction/redaction.ts\<close>: the secrets that are in use, and the
  removal of these, of passwords in connection strings and of labelled secrets from texts and objects.
  The results: a secret that is in use is in no text that was redacted, in no string of a redacted
  object, and in no entry that the audit writer stores. The clock is an argument and stands still during
  one call; objects are trees, as JSON is.
\<close>

section \<open>The secrets in use\<close>

definition REDACTED_VALUE :: string where "REDACTED_VALUE = ''[redacted]''"
definition DEFAULT_EPHEMERAL_SECRET_TTL_MS :: int where "DEFAULT_EPHEMERAL_SECRET_TTL_MS = 5 * 60 * 1000"

text \<open>A secret with the time at which it expires.\<close>

type_synonym secrets = "(string, time) jsmap"

definition removeExpired :: "time \<Rightarrow> secrets \<Rightarrow> secrets" where
  "removeExpired now xs = filter (\<lambda>(w, t). now < t) xs"

text \<open>The second component is what the returned function will delete.\<close>

definition registerEphemeralSecret :: "time \<Rightarrow> string \<Rightarrow> int \<Rightarrow> secrets \<Rightarrow> secrets \<times> string option" where
  "registerEphemeralSecret now v ttl xs =
     (if v = [] \<or> ttl \<le> 0 then (xs, None) else (js_set (removeExpired now xs) v (now + ttl), Some v))"

definition dispose_secret :: "string option \<Rightarrow> secrets \<Rightarrow> secrets" where
  "dispose_secret v xs = (case v of None \<Rightarrow> xs | Some v \<Rightarrow> js_delete xs v)"

section \<open>Texts\<close>

definition letter_digit_mark :: "char \<Rightarrow> bool" where
  "letter_digit_mark c \<longleftrightarrow> ascii_lower_or_digit c \<or> ascii_upper_letter c \<or> c = CHR ''_'' \<or> c = CHR ''-''"

definition dash :: "char \<Rightarrow> bool" where "dash c \<longleftrightarrow> c = CHR ''_'' \<or> c = CHR ''-''"
definition assigned :: "char \<Rightarrow> bool" where "assigned c \<longleftrightarrow> c = CHR ''='' \<or> c = CHR '':''"

definition sensitiveLabel :: pattern where
  "sensitiveLabel = either
     [ignoring_case ''password'', ignoring_case ''passwd'', ignoring_case ''pwd'', ignoring_case ''secret'',
      ignoring_case ''token'', ignoring_case ''passphrase'', ignoring_case ''credential'',
      in_order [ignoring_case ''master'', optional (one_of dash), ignoring_case ''key''],
      in_order [optional (either [ignoring_case ''api'', ignoring_case ''private'']), optional (one_of dash),
        ignoring_case ''key'']]"

text \<open>The first group of the two patterns of labels.\<close>

definition label_part :: pattern where
  "label_part = in_order [boundary, sensitiveLabel,
     optional (either [ignoring_case ''s'', in_order [one_of dash, some letter_digit_mark]]),
     boundary, many js_ws, one_of assigned, many js_ws]"

definition quoted_from :: "string \<Rightarrow> nat \<Rightarrow> char \<Rightarrow> (nat \<times> nat \<times> nat) list" where
  "quoted_from s p q =
     concat (map (\<lambda>a. concat (map (\<lambda>b. map (\<lambda>j. (a, b, j)) (one_of (\<lambda>c. c = q) s b))
       (few (\<lambda>c. \<not> line_end c) s a))) (one_of (\<lambda>c. c = q) s p))"

definition quotedLabelPattern :: marking where
  "quotedLabelPattern s i = concat (map (\<lambda>p. concat (map (quoted_from s p) [CHR 0x22, CHR 0x27])) (label_part s i))"

definition unquotedLabelPattern :: marking where
  "unquotedLabelPattern s i =
     concat (map (\<lambda>a. map (\<lambda>b. (a, b, b)) (some (\<lambda>c. \<not> js_ws c \<and> c \<noteq> CHR ''&'' \<and> c \<noteq> CHR '';'' \<and> c \<noteq> CHR '','') s a))
       (label_part s i))"

text \<open>The part before the first colon of the authority is kept.\<close>

definition authority_kept :: "string \<Rightarrow> nat \<Rightarrow> nat \<Rightarrow> nat" where
  "authority_kept s a b =
     (let n = length (takeWhile (\<lambda>c. c \<noteq> CHR '':'') (js_slice s a b)) in if a + n < b then Suc (a + n) else a)"

definition connectionStringPattern :: marking where
  "connectionStringPattern s i =
     concat (map (\<lambda>a. concat (map (\<lambda>b. map (\<lambda>j. (authority_kept s a b, b, j)) (one_of (\<lambda>c. c = CHR ''@'') s b))
         (some (\<lambda>c. \<not> js_ws c \<and> c \<noteq> CHR ''/'' \<and> c \<noteq> CHR ''@'') s a)))
       (in_order [boundary,
          either [in_order [ignoring_case ''postgres'', optional (ignoring_case ''ql'')],
            in_order [ignoring_case ''mysql'', optional (ignoring_case ''2'')], ignoring_case ''mariadb''],
          exactly ''://''] s i))"

definition longest_first :: "secrets \<Rightarrow> string list" where
  "longest_first xs = sort_key (\<lambda>w. - int (length w)) (js_keys xs)"

definition redactText :: "time \<Rightarrow> secrets \<Rightarrow> string \<Rightarrow> string" where
  "redactText now xs text =
     (let t1 = foldl (\<lambda>t w. replace_text REDACTED_VALUE w t) text (longest_first (removeExpired now xs));
          t2 = redact_from REDACTED_VALUE connectionStringPattern t1 0;
          t3 = redact_from REDACTED_VALUE quotedLabelPattern t2 0
      in redact_from REDACTED_VALUE unquotedLabelPattern t3 0)"

section \<open>Objects\<close>

definition sensitiveFieldNames :: "string list" where
  "sensitiveFieldNames = [''password'', ''passwd'', ''pwd'', ''secret'', ''token'', ''passphrase'', ''key'', ''credential'']"

text \<open>\<open>replace(/[^A-Za-z0-9]+/g, '_')\<close>, \<open>split('_')\<close> and \<open>filter(Boolean)\<close> together.\<close>

definition field_words :: "string \<Rightarrow> string list" where
  "field_words n =
     filter (\<lambda>w. w \<noteq> []) (js_split CHR ''_'' (js_lower (map (\<lambda>c. if ascii_lower_or_digit c \<or> ascii_upper_letter c then c else CHR ''_'')
       (camel_split n))))"

definition isSensitiveField :: "string \<Rightarrow> bool" where
  "isSensitiveField n = list_ex (\<lambda>w. w \<in> set sensitiveFieldNames) (field_words n)"

fun hidden_kind :: "json \<Rightarrow> bool" where
  "hidden_kind (JStr s) = True"
| "hidden_kind (JArr vs) = True"
| "hidden_kind (JObj fs) = True"
| "hidden_kind v = False"

fun redactValue :: "(string \<Rightarrow> string) \<Rightarrow> json \<Rightarrow> json" where
  "redactValue f (JStr s) = JStr (f s)"
| "redactValue f (JArr vs) = JArr (map (redactValue f) vs)"
| "redactValue f (JObj fs) =
     JObj (map (\<lambda>(k, v). (k, if isSensitiveField k \<and> hidden_kind v then JStr REDACTED_VALUE else redactValue f v)) fs)"
| "redactValue f v = v"

text \<open>The candidate of the audit writer. Its result is one of three words and its time a \<open>Date\<close>.\<close>

definition redact_event :: "time \<Rightarrow> secrets \<Rightarrow> audit_event \<Rightarrow> audit_event" where
  "redact_event now xs e =
     (let f = redactText now xs in
      e\<lparr>aid := f (aid e), actorUserId := map_option f (actorUserId e), action := f (action e),
        targetType := map_option f (targetType e), targetRef := map_option f (targetRef e),
        connectionId := map_option f (connectionId e), correlationId := map_option f (correlationId e),
        details := (case details e of None \<Rightarrow> None
          | Some fs \<Rightarrow> (case redactValue f (JObj fs) of JObj gs \<Rightarrow> Some gs | _ \<Rightarrow> None))\<rparr>)"

section \<open>Properties\<close>

text \<open>A text that cannot overlap the marker.\<close>

definition unlike_marker :: "string \<Rightarrow> bool" where
  "unlike_marker w \<longleftrightarrow> w \<noteq> [] \<and> CHR ''['' \<notin> set w \<and> CHR '']'' \<notin> set w \<and> \<not> js_includes w ''redacted''"

lemma marker_prefix:
  "marked REDACTED_VALUE s t \<Longrightarrow> t = w @ r \<Longrightarrow> CHR ''['' \<notin> set w \<Longrightarrow> \<exists>r'. s = w @ r'"
proof (induction s t arbitrary: w r rule: marked.induct)
  case (marked_keep s t c)
  then show ?case by (cases w) auto
next
  case (marked_cut s t x)
  then have "w = []" by (cases w) (auto simp: REDACTED_VALUE_def)
  then show ?case by simp
qed simp

lemma split_first:
  assumes "a @ w @ b = m @ z # t" "z \<notin> set w" "w \<noteq> []"
  shows "(\<exists>u. m = a @ w @ u) \<or> (\<exists>u. t = u @ w @ b)"
proof -
  from assms(1) consider (right) us where "us @ w @ b = z # t" | (left) us where "m = a @ us" "w @ b = us @ z # t"
    by (auto simp: append_eq_append_conv2)
  then show ?thesis
  proof cases
    case right
    then show ?thesis using assms(2,3) by (cases us; cases w) auto
  next
    case left
    then show ?thesis using assms(2) by (auto simp: append_eq_append_conv2 Cons_eq_append_conv append_eq_Cons_conv)
  qed
qed

text \<open>What is not in a text and cannot overlap the marker is not in what replacing leaves.\<close>

lemma marked_includes:
  "marked REDACTED_VALUE s t \<Longrightarrow> js_includes w t \<Longrightarrow> unlike_marker w \<Longrightarrow> js_includes w s"
proof (induction s t rule: marked.induct)
  case (marked_keep s t c)
  from marked_keep(3) consider "js_includes w t" | b where "c # t = w @ b"
    by (auto simp: js_includes_iff Cons_eq_append_conv)
  then show ?case
  proof cases
    case 1
    then show ?thesis using marked_keep(2) [OF 1 marked_keep(4)] by (auto simp: js_includes_iff) (metis append_Cons)
  next
    case 2
    then show ?thesis
      using marker_prefix [OF marked.marked_keep [OF marked_keep(1), of c] 2] marked_keep(4)
      by (auto simp: js_includes_iff unlike_marker_def) (metis append_Nil)
  qed
next
  case (marked_cut s t x)
  obtain a b where "REDACTED_VALUE @ t = a @ w @ b" using marked_cut(3) by (auto simp: js_includes_iff)
  then have "a @ w @ b = ''[redacted'' @ CHR '']'' # t" by (simp add: REDACTED_VALUE_def)
  from split_first [OF this] marked_cut(4)
  consider u where "''[redacted'' = a @ w @ u" | u where "t = u @ w @ b" by (auto simp: unlike_marker_def)
  then show ?case
  proof cases
    case 1
    then show ?thesis
    proof (cases a)
      case Nil
      then show ?thesis using 1 marked_cut(4) by (cases w) (auto simp: unlike_marker_def)
    next
      case (Cons c a')
      then have "''redacted'' = a' @ w @ u" using 1 by simp
      then have "js_includes w ''redacted''" unfolding js_includes_iff by blast
      then show ?thesis using marked_cut(4) by (simp add: unlike_marker_def)
    qed
  next
    case 2
    then have "js_includes w t" by simp
    then show ?thesis using marked_cut(2) [OF _ marked_cut(4)] by (auto simp: js_includes_iff) (metis append_assoc)
  qed
qed simp

lemma replaced_absent: "unlike_marker w \<Longrightarrow> \<not> js_includes w (replace_text REDACTED_VALUE w s)"
proof (induction REDACTED_VALUE w s rule: replace_text.induct)
  case (1 w)
  then show ?case by (simp add: unlike_marker_def)
next
  case (2 w c s)
  show ?case
  proof (cases "w \<noteq> [] \<and> take (length w) (c # s) = w")
    case True
    let ?t = "replace_text REDACTED_VALUE w (drop (length w) (c # s))"
    have "marked REDACTED_VALUE (x @ ?t) (REDACTED_VALUE @ ?t)" for x by (intro marked_cut marked_refl)
    from marked_includes [OF this [of "[]"]] show ?thesis using 2(1) [OF True 2(3)] True 2(3) by auto
  next
    case False
    let ?t = "replace_text REDACTED_VALUE w s"
    have absent: "\<not> js_includes w ?t" by (rule 2(2) [OF False 2(3)])
    show ?thesis
    proof
      assume "js_includes w (replace_text REDACTED_VALUE w (c # s))"
      then have "js_includes w (c # ?t)" using False by simp
      then obtain b where "c # ?t = w @ b" using absent by (auto simp: js_includes_iff Cons_eq_append_conv)
      then obtain r where "c # s = w @ r"
        using marker_prefix [OF marked_keep [OF replace_marked], of c w s w b] 2(3) by (auto simp: unlike_marker_def)
      then show False using False 2(3) by (auto simp: unlike_marker_def)
    qed
  qed
qed

subsection \<open>Texts\<close>

lemma label_forward: "forward label_part"
  unfolding label_part_def sensitiveLabel_def by (simp add: going)

lemma scheme_forward: "forward (in_order [boundary,
    either [in_order [ignoring_case ''postgres'', optional (ignoring_case ''ql'')],
      in_order [ignoring_case ''mysql'', optional (ignoring_case ''2'')], ignoring_case ''mariadb''], exactly ''://''])"
  by (simp add: going del: in_order.simps)

lemma kept_bounds: "a \<le> b \<Longrightarrow> a \<le> authority_kept s a b \<and> authority_kept s a b \<le> b"
  by (simp add: authority_kept_def Let_def)

lemma quoted_bounds:
  assumes "(a, b, j) \<in> set (quotedLabelPattern s i)" "i \<le> length s"
  shows "i \<le> a \<and> a \<le> b \<and> b \<le> j \<and> j \<le> length s"
proof -
  obtain p q where p: "p \<in> set (label_part s i)" "a \<in> set (one_of (\<lambda>c. c = q) s p)"
      "b \<in> set (few (\<lambda>c. \<not> line_end c) s a)" "j \<in> set (one_of (\<lambda>c. c = q) s b)"
    using assms(1) by (auto simp: quotedLabelPattern_def quoted_from_def)
  note p1 = forwardD [OF label_forward p(1) assms(2)]
  note a = forwardD [OF forward_one p(2)]
  note b = forwardD [OF forward_few p(3)]
  note j = forwardD [OF forward_one p(4)]
  show ?thesis using p1 a b j by linarith
qed

lemma unquoted_bounds:
  assumes "(a, b, j) \<in> set (unquotedLabelPattern s i)" "i \<le> length s"
  shows "i \<le> a \<and> a \<le> b \<and> b \<le> j \<and> j \<le> length s"
proof -
  obtain P where a: "a \<in> set (label_part s i)" "b \<in> set (some P s a)" "j = b"
    using assms(1) by (auto simp: unquotedLabelPattern_def)
  then show ?thesis using forwardD [OF label_forward a(1) assms(2)] forwardD [OF forward_some a(2)] by linarith
qed

lemma connection_bounds:
  assumes "(a, b, j) \<in> set (connectionStringPattern s i)" "i \<le> length s"
  shows "i \<le> a \<and> a \<le> b \<and> b \<le> j \<and> j \<le> length s"
proof -
  obtain k where k: "k \<in> set (in_order [boundary,
      either [in_order [ignoring_case ''postgres'', optional (ignoring_case ''ql'')],
        in_order [ignoring_case ''mysql'', optional (ignoring_case ''2'')], ignoring_case ''mariadb''], exactly ''://''] s i)"
    "b \<in> set (some (\<lambda>c. \<not> js_ws c \<and> c \<noteq> CHR ''/'' \<and> c \<noteq> CHR ''@'') s k)" "j \<in> set (one_of (\<lambda>c. c = CHR ''@'') s b)"
    and a: "a = authority_kept s k b"
    using assms(1) unfolding connectionStringPattern_def by (auto simp del: in_order.simps)
  have "i \<le> k \<and> k \<le> length s" by (rule forwardD [OF scheme_forward k(1) assms(2)])
  then show ?thesis
    using forwardD [OF forward_some k(2)] forwardD [OF forward_one k(3)] kept_bounds [of k b s] a by linarith
qed

lemma pattern_marked:
  "marked mark s (redact_from mark connectionStringPattern s 0)"
  "marked mark s (redact_from mark quotedLabelPattern s 0)"
  "marked mark s (redact_from mark unquotedLabelPattern s 0)"
  using redact_marked [where i = 0 and s = s and mark = mark, OF connection_bounds]
    redact_marked [where i = 0 and s = s and mark = mark, OF quoted_bounds]
    redact_marked [where i = 0 and s = s and mark = mark, OF unquoted_bounds] by simp_all

lemma later_secrets:
  "\<not> js_includes w t \<Longrightarrow> unlike_marker w \<Longrightarrow> \<not> js_includes w (foldl (\<lambda>t w. replace_text REDACTED_VALUE w t) t ws)"
proof (induction ws arbitrary: t)
  case (Cons v ws)
  then show ?case using marked_includes [OF replace_marked [of REDACTED_VALUE t v]] by auto
qed simp

lemma all_secrets:
  "w \<in> set ws \<Longrightarrow> unlike_marker w \<Longrightarrow> \<not> js_includes w (foldl (\<lambda>t w. replace_text REDACTED_VALUE w t) t ws)"
proof (induction ws arbitrary: t)
  case (Cons v ws)
  then show ?case using later_secrets [OF replaced_absent] by (cases "v = w") auto
qed simp

lemma redacted_text:
  assumes "w \<in> fst ` {p \<in> set xs. now < snd p}" "unlike_marker w"
  shows "\<not> js_includes w (redactText now xs str)"
proof -
  have "w \<in> set (longest_first (removeExpired now xs))"
    using assms(1) by (force simp: longest_first_def removeExpired_def js_keys_def)
  note absent = all_secrets [OF this assms(2), of str]
  let ?t1 = "foldl (\<lambda>t w. replace_text REDACTED_VALUE w t) str (longest_first (removeExpired now xs))"
  let ?t2 = "redact_from REDACTED_VALUE connectionStringPattern ?t1 0"
  let ?t3 = "redact_from REDACTED_VALUE quotedLabelPattern ?t2 0"
  have "\<not> js_includes w ?t2"
    using marked_includes [OF pattern_marked(1), of w ?t1] absent assms(2) by blast
  then have "\<not> js_includes w ?t3"
    using marked_includes [OF pattern_marked(2), of w ?t2] assms(2) by blast
  then show ?thesis
    using marked_includes [OF pattern_marked(3), of w ?t3] assms(2)
    unfolding redactText_def Let_def by blast
qed

text \<open>
  Claim C11: a secret in use is never shown: no text that was redacted contains a secret that is registered
  and has not expired, wherever and however often it stood in the text, next to other secrets, in a
  connection string or after a label; only a secret that could be mistaken for a part of the marker, with a
  bracket or inside of its word, is excepted.
\<close>

theorem secrets_never_shown:
  assumes "map_of xs w = Some e" "now < e" "unlike_marker w"
  shows "\<not> js_includes w (redactText now xs str)"
  using redacted_text [of w xs now str] map_of_SomeD [OF assms(1)] assms(2,3) by force

lemma tiger_unlike: "unlike_marker ''tiger''"
  by (simp add: unlike_marker_def)

subsection \<open>Objects\<close>

text \<open>All texts of a value; names of fields are kept as they are.\<close>

fun json_texts :: "json \<Rightarrow> string list" where
  "json_texts (JStr s) = [s]"
| "json_texts (JArr vs) = concat (map json_texts vs)"
| "json_texts (JObj fs) = concat (map (\<lambda>(k, v). json_texts v) fs)"
| "json_texts v = []"

lemma redacted_json: "\<forall>s. P (f s) \<Longrightarrow> P REDACTED_VALUE \<Longrightarrow> list_all P (json_texts (redactValue f v))"
proof (induction f v rule: redactValue.induct)
  case (3 f fs)
  have "list_all P (json_texts (if isSensitiveField k \<and> hidden_kind v then JStr REDACTED_VALUE else redactValue f v))"
    if "(k, v) \<in> set fs" for k v
    using 3(1) [OF that refl _ 3(2,3)] 3(3) by simp
  then show ?case by (auto simp: list_all_iff)
qed (auto simp: list_all_iff)

definition event_texts :: "audit_event \<Rightarrow> string list" where
  "event_texts e =
     [aid e, action e] @ concat (map (case_option [] (\<lambda>s. [s]))
       [actorUserId e, targetType e, targetRef e, connectionId e, correlationId e])
     @ (case details e of None \<Rightarrow> [] | Some fs \<Rightarrow> json_texts (JObj fs))"

lemma event_texts_all:
  "list_all P (event_texts e) \<longleftrightarrow> P (aid e) \<and> P (action e) \<and>
     list_all (\<lambda>x. case x of None \<Rightarrow> True | Some s \<Rightarrow> P s)
       [actorUserId e, targetType e, targetRef e, connectionId e, correlationId e] \<and>
     (\<forall>fs. details e = Some fs \<longrightarrow> list_all P (json_texts (JObj fs)))"
  by (simp add: event_texts_def del: json_texts.simps split: option.split)

lemma includes_slice: "js_includes w (js_slice s 0 n) \<Longrightarrow> js_includes w s"
  by (simp add: js_slice_def js_includes_iff) (metis append.assoc append_take_drop_id)

lemma marker_shown: "unlike_marker w \<Longrightarrow> \<not> js_includes w REDACTED_VALUE"
  using marked_includes [OF marked_cut [OF marked_end], of w "[]"] by (auto simp: unlike_marker_def)

lemma js_set_members: "set (js_set m k v) \<subseteq> insert (k, v) (set m)"
  by (induction m k v rule: js_set.induct) auto

lemma bounded_texts:
  assumes "list_all P (json_texts (JObj fs))" "boundUsernameAttempted (Some fs) = Some gs"
    and cut: "\<And>s n. P s \<Longrightarrow> P (js_slice s 0 n)"
  shows "list_all P (json_texts (JObj gs))"
proof (cases "\<exists>s. map_of fs ''usernameAttempted'' = Some (JStr s)")
  case True
  then obtain s where s: "map_of fs ''usernameAttempted'' = Some (JStr s)" by blast
  then have "P s" using assms(1) by (force simp: list_all_iff dest: map_of_SomeD)
  moreover have "gs = js_set fs ''usernameAttempted'' (JStr (js_slice s 0 MAX_USERNAME_ATTEMPTED_LENGTH))"
    using assms(2) s by (simp add: boundUsernameAttempted_def)
  moreover have "list_all P (json_texts (JObj (js_set fs k (JStr x))))" if "P x" for k x
    using assms(1) that js_set_members [of fs k "JStr x"] by (fastforce simp: list_all_iff)
  ultimately show ?thesis using cut by simp
next
  case False
  then show ?thesis using assms
    by (auto simp: boundUsernameAttempted_def split: option.splits json.splits)
qed

text \<open>
  Claim C10: the audit log keeps no registered secret: in the entry that the writer stores, no id, no
  action, no target and no text that is a value anywhere in the details contains a secret that is in the
  registry, has not expired and cannot be mistaken for a part of the marker, whatever the caller gave as the
  event and whether or not a name that was tried is cut to its bound. Nothing is said of a secret that is no
  longer registered, which can happen while it is still in use (\<open>second_use_is_shown\<close>), and the names of
  the fields of the details are kept as they are.
\<close>

theorem audit_entries_hide_secrets:
  assumes "map_of xs w = Some t" "now < t" "unlike_marker w" "aredact c = redact_event now xs"
    "audit_record c e r d = Inr d'"
  shows "\<exists>entry. audit d' = audit d @ [entry] \<and> list_all (\<lambda>s. \<not> js_includes w s) (event_texts entry)"
proof -
  let ?P = "\<lambda>s. \<not> js_includes w s" and ?f = "redactText now xs"
  have f: "?P (?f s)" for s
    using redacted_text [of w xs now s] map_of_SomeD [OF assms(1)] assms(2,3) by force
  define safe where "safe = redact_event now xs"
  obtain cand where cand: "d' = d\<lparr>audit := audit d @ [(safe cand)\<lparr>details := boundUsernameAttempted (details (safe cand))\<rparr>]\<rparr>"
    using assms(5) unfolding audit_record_def Let_def assms(4) safe_def
    by (auto split: option.splits sum.splits prod.splits dest!: audit_append_Inr)
  let ?entry = "(safe cand)\<lparr>details := boundUsernameAttempted (details (safe cand))\<rparr>"
  have details: "list_all ?P (json_texts (JObj gs))" if "details ?entry = Some gs" for gs
  proof -
    have g: "boundUsernameAttempted (details (safe cand)) = Some gs" using that by simp
    obtain fs where fs: "details (safe cand) = Some fs" "boundUsernameAttempted (Some fs) = Some gs"
      using g by (cases "details (safe cand)") (simp add: boundUsernameAttempted_def, simp)
    then obtain hs where "JObj fs = redactValue ?f (JObj hs)"
      by (auto simp: safe_def redact_event_def Let_def split: option.splits)
    then have "list_all ?P (json_texts (JObj fs))"
      using redacted_json [of ?P ?f "JObj hs"] f marker_shown [OF assms(3)] by metis
    then show ?thesis by (rule bounded_texts [OF _ fs(2)]) (use includes_slice in blast)
  qed
  have "\<forall>gs. details ?entry = Some gs \<longrightarrow> list_all ?P (json_texts (JObj gs))" using details by blast
  then have "list_all ?P (event_texts ?entry)"
    unfolding event_texts_all using f
    by (simp add: safe_def redact_event_def Let_def del: json_texts.simps split: option.split)
  then show ?thesis using cand by auto
qed

text \<open>A password in a message, a connection string and a label; and one that is used twice.\<close>

theorem secrets_never_shown_witness:
  "\<not> js_includes ''tiger'' (redactText 5 [(''tiger'', 9)] ''login with tiger: mysql://scott:tiger@db'')"
  by (rule secrets_never_shown [of _ _ 9]) (simp_all add: tiger_unlike)

lemma texts_redacted:
  "redactText 5 [(''tiger'', 9)] ''try tiger on mysql://scott:lion@db, token=abc'' =
     ''try [redacted] on mysql://scott:[redacted]@db, token=[redacted]''"
  by code_simp

text \<open>
  The registrations are not counted: where two requests use one secret, the first that ends takes it out
  of the registry while the other still uses it.
\<close>

lemma second_use_is_shown:
  "(let (xs1, first) = registerEphemeralSecret 0 ''tiger'' DEFAULT_EPHEMERAL_SECRET_TTL_MS [];
        (xs2, second) = registerEphemeralSecret 1 ''tiger'' DEFAULT_EPHEMERAL_SECRET_TTL_MS xs1
    in redactText 2 (dispose_secret first xs2) ''refused: tiger'') = ''refused: tiger''"
  by code_simp

text \<open>
  The redaction does not spare the ids of an entry: while a login with the password \<open>u\<close> is verified, no
  entry of the user \<open>u1\<close> can be written, and what has to be audited is refused.
\<close>

definition one_user :: db where
  "one_user = \<lparr>users = [\<lparr>uid = ''u1'', username = ''ann'', passwordHash = [], role = RoleAdmin, isActive = True,
     ucreatedAt = 0, updatedAt = 0\<rparr>], sessions = [], audit = []\<rparr>"

definition logout_draft :: audit_draft where
  "logout_draft = \<lparr>daction = ''auth.logout'', dactor = Some ''u1'', dtargetType = None, dtargetRef = Some ''u1'',
     dconnection = None, ddetails = None\<rparr>"

definition redacting :: "secrets \<Rightarrow> audit_context" where
  "redacting xs = \<lparr>anow = 1, anewId = ''x'', acorrelation = None, aredact = redact_event 1 xs\<rparr>"

lemma short_attempt_blocks_entries:
  "audit_record (redacting [(''u'', 9)]) logout_draft Success one_user = Inl (AuditStore Constraint)"
  by code_simp

lemma entry_written:
  "\<not> isl (audit_record (redacting [(''tiger'', 9)]) (logout_draft\<lparr>ddetails := Some [(''reason'', JStr ''tiger fell asleep'')]\<rparr>)
     Success one_user)"
  by code_simp

theorem audit_entries_hide_secrets_witness:
  "\<exists>d' entry. audit_record (redacting [(''tiger'', 9)]) (logout_draft\<lparr>ddetails := Some [(''reason'', JStr ''tiger fell asleep'')]\<rparr>)
     Success one_user = Inr d' \<and> audit d' = audit one_user @ [entry] \<and>
     list_all (\<lambda>s. \<not> js_includes ''tiger'' s) (event_texts entry)"
proof -
  obtain d' where d': "audit_record (redacting [(''tiger'', 9)])
      (logout_draft\<lparr>ddetails := Some [(''reason'', JStr ''tiger fell asleep'')]\<rparr>) Success one_user = Inr d'"
    using entry_written by (metis isl_def sumE)
  have "\<exists>entry. audit d' = audit one_user @ [entry] \<and> list_all (\<lambda>s. \<not> js_includes ''tiger'' s) (event_texts entry)"
    by (rule audit_entries_hide_secrets [OF _ _ tiger_unlike _ d', of "[(''tiger'', 9)]" 9 1]) (simp_all add: redacting_def)
  then show ?thesis using d' by blast
qed

end
