(* ===== verification/LoginProps.thy ===== *)
theory LoginProps
  imports AuthProps Redaction
begin

text \<open>
  Refused logins with the redaction of the audit writer: what the entry of a refused login can be, and that
  the answer does not tell why a login was refused.
\<close>

section \<open>The redacted entry\<close>

lemma replaced_nothing: "\<not> js_includes w t \<Longrightarrow> replace_text m w t = t"
  by (induction m w t rule: replace_text.induct) auto

lemma fold_replaced_nothing: "\<forall>w \<in> set ws. \<not> js_includes w t \<Longrightarrow> foldl (\<lambda>t w. replace_text m w t) t ws = t"
  by (induction ws) (auto simp: replaced_nothing)

lemma plain_reasons:
  "redact_from REDACTED_VALUE connectionStringPattern ''user_inactive'' 0 = ''user_inactive''"
  "redact_from REDACTED_VALUE quotedLabelPattern ''user_inactive'' 0 = ''user_inactive''"
  "redact_from REDACTED_VALUE unquotedLabelPattern ''user_inactive'' 0 = ''user_inactive''"
  "redact_from REDACTED_VALUE connectionStringPattern ''credentials_invalid'' 0 = ''credentials_invalid''"
  "redact_from REDACTED_VALUE quotedLabelPattern ''credentials_invalid'' 0 = ''credentials_invalid''"
  "redact_from REDACTED_VALUE unquotedLabelPattern ''credentials_invalid'' 0 = ''credentials_invalid''"
  by code_simp+

text \<open>No secret in use is a part of the two reasons.\<close>

definition reasons_spared :: "time \<Rightarrow> secrets \<Rightarrow> bool" where
  "reasons_spared now xs \<longleftrightarrow> list_all (\<lambda>(s, t). now < t \<longrightarrow> \<not> js_includes s ''user_inactive'' \<and> \<not> js_includes s ''credentials_invalid'') xs"

lemma reason_kept:
  assumes "reasons_spared now xs" "w = ''user_inactive'' \<or> w = ''credentials_invalid''"
  shows "redactText now xs w = w"
proof -
  have "\<forall>s \<in> set (longest_first (removeExpired now xs)). \<not> js_includes s w"
    using assms by (auto simp: reasons_spared_def list_all_iff longest_first_def removeExpired_def js_keys_def)
  then show ?thesis using assms(2) by (auto simp: redactText_def Let_def fold_replaced_nothing plain_reasons)
qed

definition failure_reason :: "user option \<Rightarrow> string" where
  "failure_reason found = (if (case found of None \<Rightarrow> False | Some u \<Rightarrow> \<not> isActive u) then ''user_inactive'' else ''credentials_invalid'')"

lemma failed_details_valid:
  "validateAuditDetails (boundUsernameAttempted (Some [(''usernameAttempted'', JStr n), (''reason'', JStr (failure_reason found))])) = Inr ()"
proof -
  let ?n = "js_slice n 0 128"
  let ?ds = "[(''usernameAttempted'', JStr ?n), (''reason'', JStr (failure_reason found))]"
  have "length (json_string ?n) \<le> 6 * 128 + 2"
    using json_string_length [of ?n] by (simp add: order_trans)
  moreover have "length (json_string (failure_reason found)) \<le> 6 * 19 + 2"
    using json_string_length [of "failure_reason found"] by (rule order_trans) (simp add: failure_reason_def)
  moreover have "length (json_string ''usernameAttempted'') = 19" "length (json_string ''reason'') = 8"
    by (simp_all add: json_string_def json_escape_def)
  ultimately have "length (stringify (JObj ?ds)) \<le> 4096" by simp
  moreover have "\<not> containsForbiddenKey (JObj ?ds)"
    by (simp add: normalizedKey_plain forbiddenDetailKeys_def ascii_lower_or_digit_def
        ascii_upper_letter_def digit_def js_lower_def js_lower_char_def)
  ultimately show ?thesis
    by (simp add: validateAuditDetails_def MAX_AUDIT_DETAILS_BYTES_def boundUsernameAttempted_def MAX_USERNAME_ATTEMPTED_LENGTH_def
        del: stringify.simps containsForbiddenKey.simps)
qed

lemma plain_fields: "\<not> isSensitiveField ''usernameAttempted''" "\<not> isSensitiveField ''reason''"
  by code_simp+

lemma login_failed_recorded:
  assumes "aredact ctx = redact_event at xs" "redactText at xs (anewId ctx) \<notin> aid ` set (audit d)" "reasons_spared at xs"
  shows "\<exists>row. recorded ctx (login_failed_event found n) Failure d = Inr (d\<lparr>audit := audit d @ [row]\<rparr>)"
proof -
  have r: "redactText at xs (failure_reason found) = failure_reason found"
    by (rule reason_kept [OF assms(3)]) (simp add: failure_reason_def)
  have a: "getAuditActionDefinition ''auth.login_failed'' = Some (''auth.login_failed'', ''user'', True)"
    by (simp add: getAuditActionDefinition_def audit_definitions_def)
  have i: "\<forall>x \<in> set (audit d). aid x \<noteq> redactText at xs (anewId ctx)" using assms(2) by (metis image_eqI)
  let ?e = "\<lparr>aid = anewId ctx, occurredAt = anow ctx, actorUserId = None, action = ''auth.login_failed'', targetType = Some ''user'',
      targetRef = map_option uid found, connectionId = None, aresult = Failure, correlationId = acorrelation ctx,
      details = Some [(''usernameAttempted'', JStr n), (''reason'', JStr (failure_reason found))]\<rparr>"
  have e: "details (redact_event at xs ?e) = Some [(''usernameAttempted'', JStr (redactText at xs n)), (''reason'', JStr (failure_reason found))]"
    "actorUserId (redact_event at xs ?e) = None" "aid (redact_event at xs ?e) = redactText at xs (anewId ctx)"
    by (simp_all add: redact_event_def Let_def plain_fields r del: redactText_def)
  have "audit_record ctx (login_failed_event found n) Failure d =
      (case audit_append ((redact_event at xs ?e)\<lparr>details := boundUsernameAttempted (details (redact_event at xs ?e))\<rparr>) d of
         Inl x \<Rightarrow> Inl (AuditStore x) | Inr d' \<Rightarrow> Inr d')"
    unfolding audit_record_def login_failed_event_def
    using failed_details_valid [of "redactText at xs n" found]
    by (simp add: a assms(1) e(1) failure_reason_def [symmetric] Let_def)
  moreover have "audit_append ((redact_event at xs ?e)\<lparr>details := x\<rparr>) d = Inr (d\<lparr>audit := audit d @ [(redact_event at xs ?e)\<lparr>details := x\<rparr>]\<rparr>)" for x
    using i by (simp add: audit_append_def e)
  ultimately show ?thesis by (auto simp: Auth.recorded_def)
qed

lemma login_decide_refused:
  assumes "aredact ctx = redact_event at xs" "redactText at xs (anewId ctx) \<notin> aid ` set (audit (adb st))" "reasons_spared at xs"
    and "\<And>u. found = Some u \<Longrightarrow> \<not> isActive u \<or> \<not> ok v"
  shows "\<exists>row. login_decide ctx ip n found v st
     = (Inl AUTH_INVALID_CREDENTIALS, st\<lparr>adb := (adb st)\<lparr>audit := audit (adb st) @ [row]\<rparr>\<rparr>)"
proof -
  obtain row where "recorded ctx (login_failed_event found n) Failure (adb st)
      = Inr ((adb st)\<lparr>audit := audit (adb st) @ [row]\<rparr>)"
    using login_failed_recorded [OF assms(1-3)] by blast
  then show ?thesis
    using assms(4)
    by (intro exI [of _ row]) (cases found; auto simp: login_decide_def transact_def)
qed

section \<open>Properties\<close>

text \<open>
  Claim C38: A refused login does not tell why. Where the rate limiter lets it pass, no secret in use is part of
  the word for the reason and the id of the audit entry is new after its redaction, a login with an unknown
  name, with the name of an inactive user, or with a wrong password gets the same answer, leaves users and
  sessions as they are, and is recorded by one audit entry.
\<close>

theorem login_does_not_enumerate:
  assumes "aredact (env_audit env) = redact_event at xs" "reasons_spared at xs"
    and "redactText at xs (anewId (env_audit env)) \<notin> aid ` set (audit (adb st))"
    and "fst (login_gate (env_gate env) (in_ip inp) (in_username inp) st) = Inr ()"
    and "\<forall>u. user_findByUsername (in_username inp) (adb st) = Some u \<longrightarrow>
        \<not> isActive u \<or> runtime (in_password inp) (passwordHash u) \<noteq> Some True"
  shows "\<exists>row lim. login runtime digest cfg env inp st
     = (Inl AUTH_INVALID_CREDENTIALS,
        st\<lparr>adb := (adb st)\<lparr>audit := audit (adb st) @ [row]\<rparr>, alimiter := lim\<rparr>)"
proof -
  obtain L where gate: "login_gate (env_gate env) (in_ip inp) (in_username inp) st = (Inr (), st\<lparr>alimiter := L\<rparr>)"
    using assms(4) by (auto simp: login_gate_def Let_def split: prod.splits if_splits)
  let ?st1 = "st\<lparr>alimiter := L\<rparr>"
  let ?found = "user_findByUsername (in_username inp) (adb st)"
  let ?v = "hasher_verify (runtime (in_password inp) (login_hash ?found)) (login_hash ?found)"
  have refused: "\<not> isActive u \<or> \<not> ok ?v" if "?found = Some u" for u
    using assms(5) that
    by (auto simp: hasher_verify_def login_hash_def Let_def split: option.splits)
  have "redactText at xs (anewId (env_audit env)) \<notin> aid ` set (audit (adb ?st1))" using assms(3) by simp
  from login_decide_refused [OF assms(1) this assms(2), of ?found ?v] refused
  obtain row where "login_decide (env_audit env) (in_ip inp) (in_username inp) ?found ?v ?st1
      = (Inl AUTH_INVALID_CREDENTIALS, ?st1\<lparr>adb := (adb ?st1)\<lparr>audit := audit (adb ?st1) @ [row]\<rparr>\<rparr>)"
    by blast
  then show ?thesis
    by (intro exI [of _ row] exI [of _ L]) (simp add: login_def gate Let_def)
qed

text \<open>A login with an unknown name, while the password of another one is in use.\<close>

definition redacting_env :: login_env where
  "redacting_env = demo_env\<lparr>env_audit := (plain_context 120 ''x'')\<lparr>aredact := redact_event 100 [(''tiger'', 200)]\<rparr>\<rparr>"

theorem login_does_not_enumerate_witness:
  "fst (login demo_runtime id demo_config redacting_env \<lparr>in_username = ''eve'', in_password = ''pw'', in_ip = ''1.2.3.4''\<rparr> demo_auth)
     = Inl AUTH_INVALID_CREDENTIALS"
proof -
  let ?inp = "\<lparr>in_username = ''eve'', in_password = ''pw'', in_ip = ''1.2.3.4''\<rparr>"
  have "aredact (env_audit redacting_env) = redact_event 100 [(''tiger'', 200)]"
    "redactText 100 [(''tiger'', 200)] (anewId (env_audit redacting_env)) \<notin> aid ` set (audit (adb demo_auth))"
    by (simp_all add: redacting_env_def demo_auth_def)
  moreover have "reasons_spared 100 [(''tiger'', 200)]" by code_simp
  moreover have "fst (login_gate (env_gate redacting_env) (in_ip ?inp) (in_username ?inp) demo_auth) = Inr ()"
    by (simp add: demo_gate redacting_env_def demo_env_def)
  moreover have "\<forall>u. user_findByUsername (in_username ?inp) (adb demo_auth) = Some u \<longrightarrow>
        \<not> isActive u \<or> demo_runtime (in_password ?inp) (passwordHash u) \<noteq> Some True"
    by (simp add: auth_eval)
  ultimately show ?thesis using login_does_not_enumerate by (metis fst_conv)
qed

end
