(* ===== verification/Vault.thy ===== *)
theory Vault
  imports Redaction
begin

text \<open>
  The credential vault, \<open>packages/crypto/src/vault/\<close>: the password of a connection is stored as the output of
  an authenticated encryption that is bound to the id of the connection, and is decrypted only inside of
  a callback, while its strings are registered as secrets. The encryption of the platform, the decoding
  of JSON and the provider of the key are arguments, with what the code relies on in \<open>vault_ok\<close>; a text
  stands for its bytes.
\<close>

section \<open>Credentials\<close>

definition CREDENTIAL_ENCRYPTION_ALGORITHM :: string where "CREDENTIAL_ENCRYPTION_ALGORITHM = ''aes-256-gcm''"
definition CREDENTIAL_ENCRYPTION_NONCE_BYTES :: nat where "CREDENTIAL_ENCRYPTION_NONCE_BYTES = 12"
definition CREDENTIAL_ENCRYPTION_TAG_BYTES :: nat where "CREDENTIAL_ENCRYPTION_TAG_BYTES = 128 div 8"

type_synonym credential_payload = "(string, json) jsmap"

record encrypted_credential =
  en_ciphertext :: string
  en_nonce :: string
  en_algorithm :: string
  en_keyId :: string

datatype vault_error = VAULT_KEY_MISMATCH | VAULT_INTEGRITY_FAILED | VAULT_INVALID_CIPHERTEXT | VAULT_CRYPTO_FAILED
  | KeyUnavailable

text \<open>
  The platform: the active key with its id, if it can be loaded; encryption and decryption with a key, a
  nonce and additional data; and the decoding of JSON.
\<close>

record vault =
  v_load :: "(string \<times> string) option"
  v_seal :: "string \<Rightarrow> string \<Rightarrow> string \<Rightarrow> string \<Rightarrow> string option"
  v_open :: "string \<Rightarrow> string \<Rightarrow> string \<Rightarrow> string \<Rightarrow> string option"
  v_parse :: "string \<Rightarrow> json option"

text \<open>The nonce is filled with random bytes.\<close>

definition encryptCredential :: "vault \<Rightarrow> (nat \<Rightarrow> char) \<Rightarrow> string \<Rightarrow> credential_payload \<Rightarrow> vault_error + encrypted_credential" where
  "encryptCredential v rnd cid payload =
     (let nonce = map rnd [0 ..< CREDENTIAL_ENCRYPTION_NONCE_BYTES] in
      if cid = [] then Inl VAULT_INVALID_CIPHERTEXT
      else case v_load v of
        None \<Rightarrow> Inl KeyUnavailable
      | Some (key, keyId) \<Rightarrow>
          (case v_seal v key nonce cid (stringify (JObj payload)) of
             None \<Rightarrow> Inl VAULT_CRYPTO_FAILED
           | Some c \<Rightarrow> Inr \<lparr>en_ciphertext = c, en_nonce = nonce, en_algorithm = CREDENTIAL_ENCRYPTION_ALGORITHM, en_keyId = keyId\<rparr>))"

definition validateEnvelope :: "encrypted_credential \<Rightarrow> vault_error + unit" where
  "validateEnvelope e =
     (if en_algorithm e \<noteq> CREDENTIAL_ENCRYPTION_ALGORITHM \<or> length (en_nonce e) \<noteq> CREDENTIAL_ENCRYPTION_NONCE_BYTES
         \<or> length (en_ciphertext e) \<le> CREDENTIAL_ENCRYPTION_TAG_BYTES \<or> en_keyId e = []
      then Inl VAULT_INVALID_CIPHERTEXT else Inr ())"

definition parsePayload :: "vault \<Rightarrow> string \<Rightarrow> vault_error + credential_payload" where
  "parsePayload v s = (case v_parse v s of Some (JObj fs) \<Rightarrow> Inr fs | _ \<Rightarrow> Inl VAULT_INTEGRITY_FAILED)"

definition decryptCredential :: "vault \<Rightarrow> string \<Rightarrow> encrypted_credential \<Rightarrow> vault_error + credential_payload" where
  "decryptCredential v cid e =
     (if cid = [] then Inl VAULT_INVALID_CIPHERTEXT
      else case v_load v of
        None \<Rightarrow> Inl KeyUnavailable
      | Some (key, keyId) \<Rightarrow>
          if keyId \<noteq> en_keyId e then Inl VAULT_KEY_MISMATCH
          else and_then (validateEnvelope e) (\<lambda>_.
            case v_open v key (en_nonce e) cid (en_ciphertext e) of
              None \<Rightarrow> Inl VAULT_INTEGRITY_FAILED
            | Some s \<Rightarrow> parsePayload v s))"

text \<open>\<open>stringValues\<close> is \<open>json_texts\<close>; each different one that is not empty is registered.\<close>

fun register_all :: "time \<Rightarrow> string list \<Rightarrow> secrets \<Rightarrow> secrets \<times> string option list" where
  "register_all now [] xs = (xs, [])"
| "register_all now (s # ss) xs =
     (if s = [] then register_all now ss xs
      else let (xs1, d) = registerEphemeralSecret now s DEFAULT_EPHEMERAL_SECRET_TTL_MS xs;
               (xs2, ds) = register_all now ss xs1
           in (xs2, d # ds))"

text \<open>The callback gets the registry, which it and others may change, and can throw errors of its own.\<close>

definition decryptAndUseCredential ::
  "time \<Rightarrow> vault \<Rightarrow> string \<Rightarrow> encrypted_credential \<Rightarrow> (credential_payload \<Rightarrow> secrets \<Rightarrow> secrets \<times> 'r) \<Rightarrow> secrets \<Rightarrow>
     secrets \<times> (vault_error + 'r)" where
  "decryptAndUseCredential now v cid e f xs =
     (case decryptCredential v cid e of
        Inl err \<Rightarrow> (xs, Inl err)
      | Inr payload \<Rightarrow>
          let (xs1, ds) = register_all now (js_unique (json_texts (JObj payload))) xs;
              (xs2, r) = f payload xs1
          in (foldl (\<lambda>xs d. dispose_secret d xs) xs2 ds, Inr r))"

section \<open>What the platform does\<close>

text \<open>
  What is encrypted is decrypted with the same key, nonce and additional data, and with other additional
  data it is refused; the output is longer than the tag. A payload with a password is read back from its
  text.
\<close>

definition password_payload :: "string \<Rightarrow> credential_payload" where
  "password_payload s = [(''password'', JStr s)]"

definition vault_ok :: "vault \<Rightarrow> bool" where
  "vault_ok v \<longleftrightarrow>
     (\<forall>k n a p c. v_seal v k n a p = Some c \<longrightarrow>
        v_open v k n a c = Some p \<and> CREDENTIAL_ENCRYPTION_TAG_BYTES < length c \<and>
        (\<forall>a'. a' \<noteq> a \<longrightarrow> v_open v k n a' c = None))
     \<and> (\<forall>s. v_parse v (stringify (JObj (password_payload s))) = Some (JObj (password_payload s)))
     \<and> (\<forall>k i. v_load v = Some (k, i) \<longrightarrow> i \<noteq> [])"

section \<open>Properties\<close>

lemma sealed:
  assumes "encryptCredential v rnd cid p = Inr e"
  obtains k i c where "cid \<noteq> []" "v_load v = Some (k, i)" "v_seal v k (en_nonce e) cid (stringify (JObj p)) = Some c"
    "e = \<lparr>en_ciphertext = c, en_nonce = en_nonce e, en_algorithm = CREDENTIAL_ENCRYPTION_ALGORITHM, en_keyId = i\<rparr>"
    "length (en_nonce e) = CREDENTIAL_ENCRYPTION_NONCE_BYTES"
  using assms by (auto simp: encryptCredential_def Let_def simp del: stringify.simps split: if_splits option.splits)

lemma decrypted_back:
  assumes "vault_ok v" "encryptCredential v rnd cid (password_payload s) = Inr e"
  shows "decryptCredential v cid e = Inr (password_payload s)"
  using assms(2)
proof (rule sealed)
  fix k i c
  assume a: "cid \<noteq> []" "v_load v = Some (k, i)" "v_seal v k (en_nonce e) cid (stringify (JObj (password_payload s))) = Some c"
    "e = \<lparr>en_ciphertext = c, en_nonce = en_nonce e, en_algorithm = CREDENTIAL_ENCRYPTION_ALGORITHM, en_keyId = i\<rparr>"
    "length (en_nonce e) = CREDENTIAL_ENCRYPTION_NONCE_BYTES"
  then have "v_open v k (en_nonce e) cid c = Some (stringify (JObj (password_payload s)))"
    "CREDENTIAL_ENCRYPTION_TAG_BYTES < length c" "i \<noteq> []"
    using assms(1) unfolding vault_ok_def by blast+
  moreover have "v_parse v (stringify (JObj (password_payload s))) = Some (JObj (password_payload s))"
    using assms(1) unfolding vault_ok_def by blast
  moreover have "en_ciphertext e = c" "en_keyId e = i" "en_algorithm e = CREDENTIAL_ENCRYPTION_ALGORITHM"
    by (subst a(4), simp)+
  ultimately show ?thesis
    using a(1,2,5) by (simp add: decryptCredential_def validateEnvelope_def parsePayload_def del: stringify.simps)
qed

lemma not_for_others:
  assumes "vault_ok v" "encryptCredential v rnd cid p = Inr e" "cid' \<noteq> cid"
  shows "\<exists>x. decryptCredential v cid' e = Inl x"
  using assms(2)
proof (rule sealed)
  fix k i c
  assume a: "cid \<noteq> []" "v_load v = Some (k, i)" "v_seal v k (en_nonce e) cid (stringify (JObj p)) = Some c"
    "e = \<lparr>en_ciphertext = c, en_nonce = en_nonce e, en_algorithm = CREDENTIAL_ENCRYPTION_ALGORITHM, en_keyId = i\<rparr>"
    "length (en_nonce e) = CREDENTIAL_ENCRYPTION_NONCE_BYTES"
  then have "v_open v k (en_nonce e) cid' c = None" using assms(1,3) unfolding vault_ok_def by blast
  moreover have "en_ciphertext e = c" "en_keyId e = i" "en_algorithm e = CREDENTIAL_ENCRYPTION_ALGORITHM"
    by (subst a(4), simp)+
  ultimately show ?thesis using a(1,2,5) by (simp add: decryptCredential_def validateEnvelope_def)
qed

lemma registered_stays:
  "map_of xs s = Some t \<Longrightarrow> now < t \<Longrightarrow> t = now + DEFAULT_EPHEMERAL_SECRET_TTL_MS \<Longrightarrow>
     map_of (fst (register_all now ss xs)) s = Some t"
proof (induction ss arbitrary: xs)
  case (Cons w ss)
  have "map_of (removeExpired now xs) s = Some t"
    using Cons.prems(1,2) unfolding removeExpired_def by (induction xs) (auto split: if_splits)
  then have "map_of (js_set (removeExpired now xs) w (now + DEFAULT_EPHEMERAL_SECRET_TTL_MS)) s = Some t"
    using Cons.prems(3) by simp
  from Cons.IH [OF this Cons.prems(2,3)] show ?case
    using Cons by (auto simp: Let_def registerEphemeralSecret_def DEFAULT_EPHEMERAL_SECRET_TTL_MS_def split: prod.splits)
qed simp

lemma all_registered:
  "s \<in> set ss \<Longrightarrow> s \<noteq> [] \<Longrightarrow>
     map_of (fst (register_all now ss xs)) s = Some (now + DEFAULT_EPHEMERAL_SECRET_TTL_MS)"
proof (induction ss arbitrary: xs)
  case (Cons w ss)
  show ?case
  proof (cases "w = s")
    case True
    then show ?thesis using Cons.prems(2)
        registered_stays [of "js_set (removeExpired now xs) s (now + DEFAULT_EPHEMERAL_SECRET_TTL_MS)" s _ now ss]
      by (auto simp: Let_def registerEphemeralSecret_def DEFAULT_EPHEMERAL_SECRET_TTL_MS_def split: prod.splits)
  next
    case False
    then have s: "s \<in> set ss" using Cons.prems by auto
    then show ?thesis using Cons.IH [OF s Cons.prems(2)] by (simp add: Let_def split_beta)
  qed
qed simp

lemma disposers: "s \<in> set ss \<Longrightarrow> s \<noteq> [] \<Longrightarrow> Some s \<in> set (snd (register_all now ss xs))"
proof (induction ss arbitrary: xs)
  case (Cons w ss)
  then show ?case
    by (cases "s = w")
      (auto simp: Let_def registerEphemeralSecret_def DEFAULT_EPHEMERAL_SECRET_TTL_MS_def split: prod.splits,
       metis snd_conv)
qed simp

lemma disposed: "Some s \<in> set ds \<or> map_of xs s = None \<Longrightarrow> map_of (foldl (\<lambda>xs d. dispose_secret d xs) xs ds) s = None"
proof (induction ds arbitrary: xs)
  case (Cons d ds)
  then show ?case by (cases d) (auto simp: dispose_secret_def)
qed simp

subsection \<open>Everything that happens while a credential is used\<close>

text \<open>
  The operations of the registry that the callback and all other requests perform until the callback ends,
  each with its time, in the order in which they happen; \<open>registry_run\<close> also gives the redacted texts.
\<close>

datatype registry_op =
    Register string int
  | Disposal "string option"
  | Redact string

fun registry_step :: "time \<Rightarrow> registry_op \<Rightarrow> secrets \<Rightarrow> secrets \<times> string list" where
  "registry_step t (Register w ttl) xs = (fst (registerEphemeralSecret t w ttl xs), [])"
| "registry_step t (Disposal d) xs = (dispose_secret d xs, [])"
| "registry_step t (Redact text) xs = (removeExpired t xs, [redactText t xs text])"

fun registry_run :: "(time \<times> registry_op) list \<Rightarrow> secrets \<Rightarrow> secrets \<times> string list" where
  "registry_run [] xs = (xs, [])"
| "registry_run ((t, e) # es) xs =
     (let (xs1, r1) = registry_step t e xs; (xs2, r2) = registry_run es xs1 in (xs2, r1 @ r2))"

text \<open>
  The operations that leave the secret \<open>s\<close> in the registry until \<open>limit\<close>: they are earlier, no other
  request that has registered the same string disposes of it, and none registers it for less time.
\<close>

fun keeps_secret :: "string \<Rightarrow> time \<Rightarrow> time \<times> registry_op \<Rightarrow> bool" where
  "keeps_secret s limit (t, Register w ttl) \<longleftrightarrow> t < limit \<and> (w = s \<longrightarrow> ttl \<le> 0 \<or> limit \<le> t + ttl)"
| "keeps_secret s limit (t, Disposal d) \<longleftrightarrow> t < limit \<and> d \<noteq> Some s"
| "keeps_secret s limit (t, Redact text) \<longleftrightarrow> t < limit"

lemma unexpired_kept: "map_of xs s = Some u \<Longrightarrow> t < u \<Longrightarrow> map_of (removeExpired t xs) s = Some u"
  unfolding removeExpired_def by (induction xs) (auto split: if_splits)

lemma registry_step_keeps:
  assumes "keeps_secret s limit (t, e)" "map_of xs s = Some u" "limit \<le> u" "unlike_marker s"
    "registry_step t e xs = (xs', r)"
  shows "(\<exists>u' \<ge> limit. map_of xs' s = Some u') \<and> list_all (\<lambda>x. \<not> js_includes s x) r"
proof (cases e)
  case (Register w ttl)
  then show ?thesis
    using assms unexpired_kept [OF assms(2), of t] by (auto simp: registerEphemeralSecret_def split: if_splits)
next
  case (Disposal d)
  then show ?thesis using assms by (cases d) (auto simp: dispose_secret_def)
next
  case (Redact str)
  then have "t < u" using assms(1,3) by simp
  then have "\<not> js_includes s (redactText t xs str)"
    using map_of_SomeD [OF assms(2)] by (intro redacted_text [OF _ assms(4)]) force
  then show ?thesis using Redact assms unexpired_kept [OF assms(2) \<open>t < u\<close>] by auto
qed

lemma registry_run_keeps:
  assumes "list_all (keeps_secret s limit) es" "map_of xs s = Some u" "limit \<le> u" "unlike_marker s"
  shows "list_all (\<lambda>x. \<not> js_includes s x) (snd (registry_run es xs))"
  using assms(1-3)
proof (induction es arbitrary: xs u)
  case (Cons e es)
  obtain t op' where e: "e = (t, op')" by (cases e)
  obtain xs1 r where r: "registry_step t op' xs = (xs1, r)" by (cases "registry_step t op' xs")
  obtain u1 where "map_of xs1 s = Some u1" "limit \<le> u1" "list_all (\<lambda>x. \<not> js_includes s x) r"
    using registry_step_keeps [OF _ Cons.prems(2,3) assms(4) r] Cons.prems(1) e by auto
  then show ?case using Cons.IH [of xs1 u1] Cons.prems(1) by (simp add: e r split_beta)
qed simp

text \<open>
  Claim C25: a credential is shown to its callback only. Whatever the callback and other requests do with
  the registry until the callback ends, in any order, no text that is redacted meanwhile contains a string
  of the credential, if it cannot be mistaken for a part of the marker, the callback ends within the
  lifetime of the strings, and no other request that uses the same string disposes of it or registers it for
  less time (\<open>keeps_secret\<close>; that such a disposal shows it is \<open>second_use_is_shown\<close>). And whatever
  happened, afterwards no string of the credential is left in the registry.
\<close>

theorem credentials_in_use_are_hidden:
  assumes "decryptCredential v cid e = Inr payload" "s \<in> set (json_texts (JObj payload))" "s \<noteq> []"
  shows "\<exists>r xs'. decryptAndUseCredential now v cid e (\<lambda>p. registry_run (es p)) xs = (xs', Inr r)
    \<and> map_of xs' s = None
    \<and> (unlike_marker s \<and> list_all (keeps_secret s (now + DEFAULT_EPHEMERAL_SECRET_TTL_MS)) (es payload)
        \<longrightarrow> list_all (\<lambda>x. \<not> js_includes s x) r)"
proof -
  let ?ss = "js_unique (json_texts (JObj payload))"
  have s: "s \<in> set ?ss" using assms(2) by (simp add: js_unique_def)
  obtain xs1 ds where r: "register_all now ?ss xs = (xs1, ds)" by (cases "register_all now ?ss xs")
  obtain xs2 ts where run: "registry_run (es payload) xs1 = (xs2, ts)" by (cases "registry_run (es payload) xs1")
  have "map_of xs1 s = Some (now + DEFAULT_EPHEMERAL_SECRET_TTL_MS)" using all_registered [OF s assms(3), of now xs] r by simp
  note hidden = registry_run_keeps [OF _ this order_refl, of "es payload"]
  moreover have "map_of (foldl (\<lambda>xs d. dispose_secret d xs) xs2 ds) s = None"
    using disposers [OF s assms(3), of now xs] r by (intro disposed) simp
  ultimately show ?thesis using assms(1) r run by (auto simp: decryptAndUseCredential_def Let_def simp del: json_texts.simps)
qed

section \<open>A platform\<close>

text \<open>
  An encryption that keeps all laws (and hides nothing), and the reading of the text of a payload, to
  which the theorems are applied.
\<close>

definition hex_value :: "char \<Rightarrow> nat" where
  "hex_value c = (let n = (of_char c :: nat) in if n < 58 then n - 48 else n - 87)"

fun unescape :: "string \<Rightarrow> (string \<times> string) option" where
  "unescape [] = None"
| "unescape (c # r) =
     (if c = CHR 0x22 then Some ([], r)
      else if c \<noteq> CHR 0x5C then map_option (apfst (Cons c)) (unescape r)
      else case r of
        d # r1 \<Rightarrow>
          if d = CHR ''u'' then
            (case r1 of
               x # y # a # b # r2 \<Rightarrow> map_option (apfst (Cons (char_of (16 * hex_value a + hex_value b)))) (unescape r2)
             | _ \<Rightarrow> None)
          else map_option (apfst (Cons (if d = CHR ''b'' then CHR 0x08 else if d = CHR ''t'' then CHR 0x09
            else if d = CHR ''n'' then CHR 0x0A else if d = CHR ''f'' then CHR 0x0C else if d = CHR ''r'' then CHR 0x0D else d))) (unescape r1)
      | [] \<Rightarrow> None)"

definition read_password :: "string \<Rightarrow> json option" where
  "read_password t =
     (let start = stringify (JObj [(''password'', JStr [])]);
          n = length start - 2 in
      if take n t \<noteq> take n start then None
      else case unescape (drop n t) of
        Some (s, r) \<Rightarrow> if r = ''}'' then Some (JObj (password_payload s)) else None
      | None \<Rightarrow> None)"

definition framed :: "string \<Rightarrow> string" where
  "framed a = replicate 17 CHR ''='' @ concat (map (\<lambda>c. [CHR ''a'', c]) a) @ ''z''"

definition plain_vault :: vault where
  "plain_vault = \<lparr>v_load = Some (''key'', ''id''), v_seal = (\<lambda>k n a p. Some (framed a @ p)),
     v_open = (\<lambda>k n a c. if take (length (framed a)) c = framed a then Some (drop (length (framed a)) c) else None),
     v_parse = read_password\<rparr>"

lemma hex_back: "k < 16 \<Longrightarrow> hex_value (hex_digit k) = k"
  by (simp add: hex_value_def hex_digit_def Let_def)

lemma code_of: "(of_char c :: nat) = of_char d \<longleftrightarrow> c = d"
  by (rule of_char_eq_iff)

lemma escaped_codes:
  "(of_char c :: nat) = 34 \<longleftrightarrow> c = CHR 0x22" "(of_char c :: nat) = 92 \<longleftrightarrow> c = CHR 0x5C"
  "(of_char c :: nat) = 8 \<longleftrightarrow> c = CHR 0x08" "(of_char c :: nat) = 9 \<longleftrightarrow> c = CHR 0x09"
  "(of_char c :: nat) = 10 \<longleftrightarrow> c = CHR 0x0A" "(of_char c :: nat) = 12 \<longleftrightarrow> c = CHR 0x0C"
  "(of_char c :: nat) = 13 \<longleftrightarrow> c = CHR 0x0D"
  using code_of [of c "CHR 0x22"] code_of [of c "CHR 0x5C"] code_of [of c "CHR 0x08"] code_of [of c "CHR 0x09"]
    code_of [of c "CHR 0x0A"] code_of [of c "CHR 0x0C"] code_of [of c "CHR 0x0D"] by simp_all

lemma unescape_escape: "unescape (json_escape c @ t) = map_option (apfst (Cons c)) (unescape t)"
proof -
  let ?n = "of_char c :: nat"
  consider "c \<in> {CHR 0x22, CHR 0x5C, CHR 0x08, CHR 0x09, CHR 0x0A, CHR 0x0C, CHR 0x0D}"
    | "?n < 32" "c \<notin> {CHR 0x22, CHR 0x5C, CHR 0x08, CHR 0x09, CHR 0x0A, CHR 0x0C, CHR 0x0D}"
    | "\<not> ?n < 32" "c \<noteq> CHR 0x22" "c \<noteq> CHR 0x5C" by blast
  then show ?thesis
  proof cases
    case 1
    then show ?thesis by (auto simp: json_escape_def Let_def)
  next
    case 2
    then have "json_escape c = CHR 0x5C # ''u00'' @ [hex_digit (?n div 16), hex_digit (?n mod 16)]"
      by (simp add: json_escape_def Let_def escaped_codes)
    moreover have "16 * hex_value (hex_digit (?n div 16)) + hex_value (hex_digit (?n mod 16)) = ?n"
      using 2(1) by (simp add: hex_back)
    ultimately show ?thesis by simp
  next
    case 3
    have "c \<noteq> CHR 0x08" "c \<noteq> CHR 0x09" "c \<noteq> CHR 0x0A" "c \<noteq> CHR 0x0C" "c \<noteq> CHR 0x0D" using 3(1) by auto
    then have "json_escape c = [c]" using 3 by (simp add: json_escape_def Let_def escaped_codes)
    then show ?thesis using 3 by simp
  qed
qed

lemma unescape_all: "unescape (concat (map json_escape s) @ CHR 0x22 # r) = Some (s, r)"
  by (induction s) (simp_all add: unescape_escape del: unescape.simps(2), simp)

lemma read_back: "read_password (stringify (JObj (password_payload s))) = Some (JObj (password_payload s))"
proof -
  let ?start = "json_string ''password'' @ '':''"
  have "stringify (JObj (password_payload x)) = ''{'' @ ?start @ CHR 0x22 # concat (map json_escape x) @ CHR 0x22 # ''}''" for x
    by (simp add: password_payload_def json_string_def)
  from this [of s] this [of "[]"] show ?thesis
    by (simp add: read_password_def Let_def unescape_all password_payload_def)
qed

lemma framed_prefix: "framed a' @ x = framed a @ y \<longleftrightarrow> a' = a \<and> x = y"
proof -
  have "concat (map (\<lambda>c. [CHR ''a'', c]) a') @ ''z'' @ x = concat (map (\<lambda>c. [CHR ''a'', c]) a) @ ''z'' @ y \<longleftrightarrow> a' = a \<and> x = y"
  proof (induction a' arbitrary: a)
    case Nil
    then show ?case by (cases a) auto
  next
    case (Cons b bs)
    then show ?case by (cases a) auto
  qed
  then show ?thesis by (simp add: framed_def)
qed

lemma plain_vault_ok: "vault_ok plain_vault"
proof -
  have "take (length (framed a')) (framed a @ p) = framed a' \<longleftrightarrow> a' = a" for a a' p
    by (metis append_eq_conv_conj append_take_drop_id framed_prefix)
  moreover have "CREDENTIAL_ENCRYPTION_TAG_BYTES < length (framed a @ p)" for a p
    by (simp add: framed_def CREDENTIAL_ENCRYPTION_TAG_BYTES_def)
  ultimately show ?thesis
    unfolding vault_ok_def plain_vault_def by (auto simp: read_back simp del: stringify.simps)
qed

definition sample_credential :: encrypted_credential where
  "sample_credential = \<lparr>en_ciphertext = framed ''c1'' @ stringify (JObj (password_payload ''tiger'')), en_nonce = replicate 12 CHR ''n'',
     en_algorithm = ''aes-256-gcm'', en_keyId = ''id''\<rparr>"

lemma sample_encrypted:
  "encryptCredential plain_vault (\<lambda>_. CHR ''n'') ''c1'' (password_payload ''tiger'') = Inr sample_credential"
  by (simp add: encryptCredential_def plain_vault_def sample_credential_def CREDENTIAL_ENCRYPTION_ALGORITHM_def
      CREDENTIAL_ENCRYPTION_NONCE_BYTES_def map_replicate_const del: stringify.simps)

text \<open>The callback fails with an error, while a login registers a password of its own and drops it.\<close>

definition sample_use :: "credential_payload \<Rightarrow> (time \<times> registry_op) list" where
  "sample_use p = [(1, Register ''lion'' DEFAULT_EPHEMERAL_SECRET_TTL_MS), (5, Redact ''access denied for scott with tiger''),
     (6, Disposal (Some ''lion'')), (7, Redact ''tiger tiger'')]"

theorem credentials_in_use_are_hidden_witness:
  "\<exists>r. snd (decryptAndUseCredential 0 plain_vault ''c1'' sample_credential (\<lambda>p. registry_run (sample_use p)) []) = Inr r \<and>
     list_all (\<lambda>x. \<not> js_includes ''tiger'' x) r"
proof -
  have "decryptCredential plain_vault ''c1'' sample_credential = Inr (password_payload ''tiger'')"
    by (rule decrypted_back [OF plain_vault_ok sample_encrypted])
  moreover have "list_all (keeps_secret ''tiger'' (0 + DEFAULT_EPHEMERAL_SECRET_TTL_MS)) (sample_use p)" for p
    by (simp add: sample_use_def DEFAULT_EPHEMERAL_SECRET_TTL_MS_def)
  ultimately show ?thesis
    using credentials_in_use_are_hidden [of plain_vault "''c1''" sample_credential "password_payload ''tiger''" "''tiger''" 0 sample_use "[]"]
    by (auto simp: password_payload_def tiger_unlike)
qed

end
