(* ===== verification/Profiles.thy ===== *)
theory Profiles
  imports Vault Settings "HOL-Library.List_Lexorder" "HOL-Library.Char_ord" "HOL-Library.Product_Lexorder"
begin

text \<open>
  Connection profiles, server groups and saved passwords: \<open>ConnectionManagerService\<close> of
  \<open>apps/server/src/connections/connection-manager.ts\<close> apart from the lifecycle of sessions, over the
  repositories \<open>connections.ts\<close>, \<open>credentials.ts\<close> and \<open>server-groups.ts\<close> of \<open>packages/internal-sqlite\<close>. A password
  is encrypted before the transaction, and other requests may run in between: a change is a pair of
  functions, what comes before the wait and the transaction after it.
\<close>

section \<open>The rows\<close>

record tls_options =
  tl_ca :: "string option"
  tl_serverName :: "string option"

record profile =
  pf_id :: string
  pf_owner :: string
  pf_group :: "string option"
  pf_label :: string
  pf_engine :: string
  pf_host :: string
  pf_port :: int
  pf_database :: "string option"
  pf_username :: string
  pf_sslMode :: string
  pf_tls :: "(string, json) jsmap option"
  pf_timeout :: int
  pf_tag :: "string option"
  pf_color :: "string option"
  pf_createdAt :: time
  pf_updatedAt :: time

record server_group =
  gr_id :: string
  gr_owner :: string
  gr_name :: string
  gr_color :: "string option"
  gr_sortOrder :: int

record credential_row =
  cr_connection :: string
  cr_encrypted :: encrypted_credential
  cr_createdAt :: time
  cr_updatedAt :: time

record profile_store =
  ps_db :: db
  ps_groups :: "server_group list"
  ps_profiles :: "profile list"
  ps_credentials :: "credential_row list"

text \<open>A constraint that fails; the uniqueness of a label or name is told apart by its message.\<close>

datatype constraint = UniqueLabel | UniqueName | OtherConstraint

definition profile_find :: "string \<Rightarrow> profile_store \<Rightarrow> profile option" where
  "profile_find i s = find (\<lambda>p. pf_id p = i) (ps_profiles s)"

definition group_find :: "string \<Rightarrow> profile_store \<Rightarrow> server_group option" where
  "group_find i s = find (\<lambda>g. gr_id g = i) (ps_groups s)"

definition known_group :: "string option \<Rightarrow> profile_store \<Rightarrow> bool" where
  "known_group g s = (case g of None \<Rightarrow> True | Some i \<Rightarrow> group_find i s \<noteq> None)"

text \<open>The foreign keys and the check of the table.\<close>

definition row_allowed :: "profile \<Rightarrow> profile_store \<Rightarrow> bool" where
  "row_allowed p s \<longleftrightarrow> user_findById (pf_owner p) (ps_db s) \<noteq> None \<and> known_group (pf_group p) s
     \<and> (pf_engine p = ''postgresql'' \<or> pf_engine p = ''mysql'')"

definition profile_create :: "profile \<Rightarrow> profile_store \<Rightarrow> constraint + profile_store" where
  "profile_create p s =
     (if list_ex (\<lambda>q. pf_owner q = pf_owner p \<and> pf_label q = pf_label p) (ps_profiles s) then Inl UniqueLabel
      else if profile_find (pf_id p) s \<noteq> None \<or> \<not> row_allowed p s then Inl OtherConstraint
      else Inr (s\<lparr>ps_profiles := ps_profiles s @ [p]\<rparr>))"

text \<open>The update does not touch the time of creation; without a row it changes nothing.\<close>

definition profile_update :: "profile \<Rightarrow> profile_store \<Rightarrow> constraint + profile_store" where
  "profile_update p s =
     (if profile_find (pf_id p) s = None then Inr s
      else if list_ex (\<lambda>q. pf_id q \<noteq> pf_id p \<and> pf_owner q = pf_owner p \<and> pf_label q = pf_label p) (ps_profiles s) then Inl UniqueLabel
      else if \<not> row_allowed p s then Inl OtherConstraint
      else Inr (s\<lparr>ps_profiles := map (\<lambda>q. if pf_id q = pf_id p then p\<lparr>pf_createdAt := pf_createdAt q\<rparr> else q) (ps_profiles s)\<rparr>))"

text \<open>The credentials of a connection go with it (\<open>ON DELETE CASCADE\<close>).\<close>

definition credential_delete :: "string \<Rightarrow> profile_store \<Rightarrow> profile_store" where
  "credential_delete i s = s\<lparr>ps_credentials := filter (\<lambda>r. cr_connection r \<noteq> i) (ps_credentials s)\<rparr>"

definition profile_delete :: "string \<Rightarrow> profile_store \<Rightarrow> profile_store" where
  "profile_delete i s = credential_delete i (s\<lparr>ps_profiles := filter (\<lambda>p. pf_id p \<noteq> i) (ps_profiles s)\<rparr>)"

definition listByOwner :: "string \<Rightarrow> profile_store \<Rightarrow> profile list" where
  "listByOwner u s = sort_key (\<lambda>p. (pf_label p, pf_id p)) (filter (\<lambda>p. pf_owner p = u) (ps_profiles s))"

definition listAll :: "profile_store \<Rightarrow> profile list" where
  "listAll s = sort_key (\<lambda>p. (pf_label p, pf_id p)) (ps_profiles s)"

definition credential_get :: "string \<Rightarrow> profile_store \<Rightarrow> credential_row option" where
  "credential_get i s = find (\<lambda>r. cr_connection r = i) (ps_credentials s)"

definition credential_upsert :: "credential_row \<Rightarrow> profile_store \<Rightarrow> constraint + profile_store" where
  "credential_upsert r s =
     (if profile_find (cr_connection r) s = None then Inl OtherConstraint
      else if credential_get (cr_connection r) s = None then Inr (s\<lparr>ps_credentials := ps_credentials s @ [r]\<rparr>)
      else Inr (s\<lparr>ps_credentials := map (\<lambda>q. if cr_connection q = cr_connection r then r\<lparr>cr_createdAt := cr_createdAt q\<rparr> else q)
             (ps_credentials s)\<rparr>))"

definition group_create :: "server_group \<Rightarrow> profile_store \<Rightarrow> constraint + profile_store" where
  "group_create g s =
     (if list_ex (\<lambda>h. gr_owner h = gr_owner g \<and> gr_name h = gr_name g) (ps_groups s) then Inl UniqueName
      else if group_find (gr_id g) s \<noteq> None \<or> user_findById (gr_owner g) (ps_db s) = None then Inl OtherConstraint
      else Inr (s\<lparr>ps_groups := ps_groups s @ [g]\<rparr>))"

definition group_update :: "server_group \<Rightarrow> profile_store \<Rightarrow> constraint + profile_store" where
  "group_update g s =
     (case group_find (gr_id g) s of
        None \<Rightarrow> Inr s
      | Some old \<Rightarrow>
          if list_ex (\<lambda>h. gr_id h \<noteq> gr_id g \<and> gr_owner h = gr_owner old \<and> gr_name h = gr_name g) (ps_groups s) then Inl UniqueName
          else Inr (s\<lparr>ps_groups := map (\<lambda>h. if gr_id h = gr_id g
                 then h\<lparr>gr_name := gr_name g, gr_color := gr_color g, gr_sortOrder := gr_sortOrder g\<rparr> else h) (ps_groups s)\<rparr>))"

text \<open>Connections of a deleted group have no group (\<open>ON DELETE SET NULL\<close>).\<close>

definition group_delete :: "string \<Rightarrow> profile_store \<Rightarrow> profile_store" where
  "group_delete i s =
     s\<lparr>ps_groups := filter (\<lambda>g. gr_id g \<noteq> i) (ps_groups s),
       ps_profiles := map (\<lambda>p. if pf_group p = Some i then p\<lparr>pf_group := None\<rparr> else p) (ps_profiles s)\<rparr>"

definition groups_of :: "string \<Rightarrow> profile_store \<Rightarrow> server_group list" where
  "groups_of u s = sort_key (\<lambda>g. (gr_sortOrder g, gr_name g, gr_id g)) (filter (\<lambda>g. gr_owner g = u) (ps_groups s))"

section \<open>Validation\<close>

datatype manager_error =
    FieldInvalid string string
  | PageInvalid
  | CONNECTION_NOT_FOUND
  | CONNECTION_FORBIDDEN
  | CONNECTION_LABEL_CONFLICT
  | GROUP_NOT_FOUND
  | GROUP_FORBIDDEN
  | GroupInvalid string string
  | GROUP_NAME_CONFLICT
  | SECRET_REQUIRED
  | FromVault vault_error
  | FromStore constraint
  | FromAudit audit_error

record connection_input =
  ci_label :: string
  ci_engine :: string
  ci_host :: string
  ci_port :: int
  ci_database :: "string option"
  ci_username :: string
  ci_sslMode :: string
  ci_tls :: "tls_options option"
  ci_timeout :: int
  ci_group :: "string option"
  ci_tag :: "string option"
  ci_color :: "string option"

definition isDatabaseEngine :: "string \<Rightarrow> bool" where
  "isDatabaseEngine v \<longleftrightarrow> v = ''postgresql'' \<or> v = ''mysql''"

definition isTlsMode :: "string \<Rightarrow> bool" where
  "isTlsMode v \<longleftrightarrow> v = ''disable'' \<or> v = ''require'' \<or> v = ''verify-ca'' \<or> v = ''verify-full''"

definition cleanNullableString :: "string option \<Rightarrow> string option" where
  "cleanNullableString v = (case v of None \<Rightarrow> None | Some s \<Rightarrow> if js_trim s = [] then None else Some (js_trim s))"

definition cleanTlsOptions :: "tls_options option \<Rightarrow> (string, json) jsmap option" where
  "cleanTlsOptions v =
     (case v of
        None \<Rightarrow> None
      | Some t \<Rightarrow>
          let os = (case tl_ca t of None \<Rightarrow> [] | Some s \<Rightarrow> [(''ca'', JStr (js_trim s))])
                 @ (case tl_serverName t of None \<Rightarrow> [] | Some s \<Rightarrow> [(''serverName'', JStr (js_trim s))])
          in if os = [] then None else Some os)"

definition text_field :: "string \<Rightarrow> (string, json) jsmap \<Rightarrow> string option" where
  "text_field k os = (case map_of os k of Some (JStr s) \<Rightarrow> Some s | _ \<Rightarrow> None)"

definition tlsOptionsFromConnection :: "profile \<Rightarrow> tls_options option" where
  "tlsOptionsFromConnection p =
     (case pf_tls p of
        None \<Rightarrow> None
      | Some os \<Rightarrow>
          if text_field ''ca'' os = None \<and> text_field ''serverName'' os = None then None
          else Some \<lparr>tl_ca = text_field ''ca'' os, tl_serverName = text_field ''serverName'' os\<rparr>)"

definition blank :: "string option \<Rightarrow> bool" where
  "blank v \<longleftrightarrow> (case v of None \<Rightarrow> False | Some s \<Rightarrow> js_trim s = [])"

definition too_long :: "string option \<Rightarrow> bool" where
  "too_long v \<longleftrightarrow> (case v of None \<Rightarrow> False | Some s \<Rightarrow> 64 < length s)"

definition validateConnectionInput :: "connection_input \<Rightarrow> manager_error + connection_input" where
  "validateConnectionInput i =
     (let label = js_trim (ci_label i); host = js_trim (ci_host i); username = js_trim (ci_username i);
          database = cleanNullableString (ci_database i); tag = cleanNullableString (ci_tag i); color = cleanNullableString (ci_color i)
      in
      if label = [] \<or> 128 < length label then Inl (FieldInvalid ''label'' ''invalid'')
      else if \<not> isDatabaseEngine (ci_engine i) then Inl (FieldInvalid ''engine'' ''unsupported'')
      else if host = [] \<or> 255 < length host then Inl (FieldInvalid ''host'' ''invalid'')
      else if ci_port i < 1 \<or> 65535 < ci_port i then Inl (FieldInvalid ''port'' ''out_of_range'')
      else if username = [] \<or> 128 < length username then Inl (FieldInvalid ''username'' ''invalid'')
      else if \<not> isTlsMode (ci_sslMode i) then Inl (FieldInvalid ''sslMode'' ''unsupported'')
      else if ci_timeout i < 1 then Inl (FieldInvalid ''connectTimeoutMs'' ''must_be_positive'')
      else if too_long tag then Inl (FieldInvalid ''tag'' ''too_long'')
      else if too_long color then Inl (FieldInvalid ''color'' ''too_long'')
      else if (case ci_tls i of None \<Rightarrow> False | Some t \<Rightarrow> blank (tl_ca t)) then Inl (FieldInvalid ''tlsOptions.ca'' ''invalid'')
      else if (case ci_tls i of None \<Rightarrow> False | Some t \<Rightarrow> blank (tl_serverName t)) then Inl (FieldInvalid ''tlsOptions.serverName'' ''invalid'')
      else if ci_sslMode i = ''disable'' \<and> ci_tls i \<noteq> None then Inl (FieldInvalid ''tlsOptions'' ''not_allowed_when_tls_is_disabled'')
      else Inr \<lparr>ci_label = label, ci_engine = ci_engine i, ci_host = host, ci_port = ci_port i, ci_database = database,
             ci_username = username, ci_sslMode = ci_sslMode i,
             ci_tls = map_option (\<lambda>t. \<lparr>tl_ca = map_option js_trim (tl_ca t), tl_serverName = map_option js_trim (tl_serverName t)\<rparr>) (ci_tls i),
             ci_timeout = ci_timeout i, ci_group = cleanNullableString (ci_group i), ci_tag = tag, ci_color = color\<rparr>)"

definition toConnection :: "string \<Rightarrow> string \<Rightarrow> connection_input \<Rightarrow> time \<Rightarrow> time \<Rightarrow> profile" where
  "toConnection i owner c updated created =
     \<lparr>pf_id = i, pf_owner = owner, pf_group = ci_group c, pf_label = ci_label c, pf_engine = ci_engine c, pf_host = ci_host c,
      pf_port = ci_port c, pf_database = ci_database c, pf_username = ci_username c, pf_sslMode = ci_sslMode c,
      pf_tls = cleanTlsOptions (ci_tls c), pf_timeout = ci_timeout c, pf_tag = ci_tag c, pf_color = ci_color c,
      pf_createdAt = created, pf_updatedAt = updated\<rparr>"

section \<open>Guards\<close>

record manager_actor =
  ma_id :: string
  ma_role :: user_role

definition requireConnection :: "string \<Rightarrow> profile_store \<Rightarrow> manager_error + profile" where
  "requireConnection i s = (case profile_find i s of None \<Rightarrow> Inl CONNECTION_NOT_FOUND | Some p \<Rightarrow> Inr p)"

definition requireGroup :: "string \<Rightarrow> profile_store \<Rightarrow> manager_error + server_group" where
  "requireGroup i s = (case group_find i s of None \<Rightarrow> Inl GROUP_NOT_FOUND | Some g \<Rightarrow> Inr g)"

definition assertConnectionOwner :: "manager_actor \<Rightarrow> profile \<Rightarrow> manager_error + unit" where
  "assertConnectionOwner a p = (if ma_id a \<noteq> pf_owner p then Inl CONNECTION_FORBIDDEN else Inr ())"

definition assertGroupOwner :: "manager_actor \<Rightarrow> server_group \<Rightarrow> manager_error + unit" where
  "assertGroupOwner a g = (if ma_id a \<noteq> gr_owner g then Inl GROUP_FORBIDDEN else Inr ())"

definition assertGroupBelongsToActor :: "manager_actor \<Rightarrow> string option \<Rightarrow> profile_store \<Rightarrow> manager_error + unit" where
  "assertGroupBelongsToActor a g s =
     (case g of None \<Rightarrow> Inr () | Some i \<Rightarrow> and_then (requireGroup i s) (assertGroupOwner a))"

definition assertLabelAvailable :: "string \<Rightarrow> string \<Rightarrow> string option \<Rightarrow> profile_store \<Rightarrow> manager_error + unit" where
  "assertLabelAvailable owner label ignoreId s =
     (if list_ex (\<lambda>p. Some (pf_id p) \<noteq> ignoreId \<and> pf_label p = label) (listByOwner owner s) then Inl CONNECTION_LABEL_CONFLICT
      else Inr ())"

definition assertGroupNameAvailable :: "string \<Rightarrow> string \<Rightarrow> string option \<Rightarrow> profile_store \<Rightarrow> manager_error + unit" where
  "assertGroupNameAvailable owner name ignoreId s =
     (if list_ex (\<lambda>g. Some (gr_id g) \<noteq> ignoreId \<and> gr_name g = name) (groups_of owner s) then Inl GROUP_NAME_CONFLICT
      else Inr ())"

definition conflict :: "constraint \<Rightarrow> manager_error" where
  "conflict c = (case c of UniqueLabel \<Rightarrow> CONNECTION_LABEL_CONFLICT | UniqueName \<Rightarrow> GROUP_NAME_CONFLICT | OtherConstraint \<Rightarrow> FromStore c)"

text \<open>What is encrypted for a connection: \<open>encryptWithRedaction\<close>, and \<open>copyCredential\<close> for a copy of it.\<close>

definition encryptWithRedaction :: "vault \<Rightarrow> (nat \<Rightarrow> char) \<Rightarrow> string \<Rightarrow> string \<Rightarrow> manager_error + encrypted_credential" where
  "encryptWithRedaction v rnd cid secret =
     (case encryptCredential v rnd cid (password_payload secret) of Inl e \<Rightarrow> Inl (FromVault e) | Inr e \<Rightarrow> Inr e)"

definition copyCredential :: "vault \<Rightarrow> (nat \<Rightarrow> char) \<Rightarrow> string \<Rightarrow> string \<Rightarrow> encrypted_credential \<Rightarrow> manager_error + encrypted_credential" where
  "copyCredential v rnd oldId newId e =
     (case decryptCredential v oldId e of
        Inl x \<Rightarrow> Inl (FromVault x)
      | Inr payload \<Rightarrow>
          (case encryptCredential v rnd newId payload of Inl x \<Rightarrow> Inl (FromVault x) | Inr e \<Rightarrow> Inr e))"

definition maybe_throw :: "'a option \<Rightarrow> ('a \<Rightarrow> 'e + 'b) \<Rightarrow> 'e + 'b option" where
  "maybe_throw x f = (case x of None \<Rightarrow> Inr None | Some a \<Rightarrow> (case f a of Inl e \<Rightarrow> Inl e | Inr b \<Rightarrow> Inr (Some b)))"

section \<open>Changing profiles\<close>

text \<open>
  What is left to do after the wait: insert a new profile, or write a changed one; with its credential, if
  there is one, or with the order to remove the saved one.
\<close>

datatype pending =
    Insert profile "encrypted_credential option" "(string, json) jsmap"
  | Change profile "encrypted_credential option" bool bool

definition createConnection ::
  "vault \<Rightarrow> (nat \<Rightarrow> char) \<Rightarrow> time \<Rightarrow> string \<Rightarrow> manager_actor \<Rightarrow> connection_input \<Rightarrow> string option \<Rightarrow> bool \<Rightarrow> profile_store \<Rightarrow> manager_error + pending" where
  "createConnection v rnd now newId a input secret saveSecret s =
     and_then (validateConnectionInput input) (\<lambda>c.
     if saveSecret \<and> secret = None then Inl SECRET_REQUIRED
     else and_then (assertGroupBelongsToActor a (ci_group c) s) (\<lambda>_.
     and_then (assertLabelAvailable (ma_id a) (ci_label c) None s) (\<lambda>_.
     let p = toConnection newId (ma_id a) c now now in
     and_then (maybe_throw (if saveSecret then secret else None) (encryptWithRedaction v rnd (pf_id p))) (\<lambda>cred.
     Inr (Insert p cred [(''engine'', JStr (pf_engine p)), (''savedSecret'', JBool (cred \<noteq> None))])))))"

record connection_patch =
  cp_label :: "string option"
  cp_engine :: "string option"
  cp_host :: "string option"
  cp_port :: "int option"
  cp_database :: "string option option"
  cp_username :: "string option"
  cp_sslMode :: "string option"
  cp_tls :: "tls_options option option"
  cp_timeout :: "int option"
  cp_group :: "string option option"
  cp_tag :: "string option option"
  cp_color :: "string option option"
  cp_secret :: "string option"
  cp_clearSecret :: bool

definition or_old :: "'a option \<Rightarrow> 'a \<Rightarrow> 'a" where
  "or_old x y = (case x of None \<Rightarrow> y | Some a \<Rightarrow> a)"

definition merged_input :: "connection_patch \<Rightarrow> profile \<Rightarrow> connection_input" where
  "merged_input q p =
     \<lparr>ci_label = or_old (cp_label q) (pf_label p), ci_engine = or_old (cp_engine q) (pf_engine p),
      ci_host = or_old (cp_host q) (pf_host p), ci_port = or_old (cp_port q) (pf_port p),
      ci_database = or_old (cp_database q) (pf_database p), ci_username = or_old (cp_username q) (pf_username p),
      ci_sslMode = or_old (cp_sslMode q) (pf_sslMode p), ci_tls = or_old (cp_tls q) (tlsOptionsFromConnection p),
      ci_timeout = or_old (cp_timeout q) (pf_timeout p), ci_group = or_old (cp_group q) (pf_group p),
      ci_tag = or_old (cp_tag q) (pf_tag p), ci_color = or_old (cp_color q) (pf_color p)\<rparr>"

definition updateConnection ::
  "vault \<Rightarrow> (nat \<Rightarrow> char) \<Rightarrow> time \<Rightarrow> manager_actor \<Rightarrow> string \<Rightarrow> connection_patch \<Rightarrow> profile_store \<Rightarrow> manager_error + pending" where
  "updateConnection v rnd now a i q s =
     and_then (requireConnection i s) (\<lambda>old.
     and_then (assertConnectionOwner a old) (\<lambda>_.
     if cp_secret q \<noteq> None \<and> cp_clearSecret q then Inl (FieldInvalid ''secret'' ''mutually_exclusive'')
     else and_then (validateConnectionInput (merged_input q old)) (\<lambda>c.
     and_then (assertGroupBelongsToActor a (ci_group c) s) (\<lambda>_.
     and_then (if ci_label c \<noteq> pf_label old then assertLabelAvailable (ma_id a) (ci_label c) (Some (pf_id old)) s else Inr ()) (\<lambda>_.
     let p = toConnection (pf_id old) (pf_owner old) c now (pf_createdAt old) in
     and_then (maybe_throw (if cp_clearSecret q then None else cp_secret q) (encryptWithRedaction v rnd (pf_id p))) (\<lambda>cred.
     Inr (Change p cred (cp_clearSecret q) (cp_secret q \<noteq> None \<or> cp_clearSecret q))))))))"

definition duplicateConnection ::
  "vault \<Rightarrow> (nat \<Rightarrow> char) \<Rightarrow> time \<Rightarrow> string \<Rightarrow> manager_actor \<Rightarrow> string \<Rightarrow> string \<Rightarrow> bool \<Rightarrow> profile_store \<Rightarrow> manager_error + pending" where
  "duplicateConnection v rnd now newId a i rawLabel copySecret s =
     and_then (requireConnection i s) (\<lambda>old.
     and_then (assertConnectionOwner a old) (\<lambda>_.
     let newLabel = js_trim rawLabel in
     if newLabel = [] \<or> 128 < length newLabel then Inl (FieldInvalid ''newLabel'' ''invalid'')
     else and_then (assertLabelAvailable (ma_id a) newLabel None s) (\<lambda>_.
     let p = old\<lparr>pf_id := newId, pf_label := newLabel, pf_createdAt := now, pf_updatedAt := now\<rparr> in
     and_then (maybe_throw (if copySecret then map_option cr_encrypted (credential_get (pf_id old) s) else None)
       (copyCredential v rnd (pf_id old) newId)) (\<lambda>cred.
     Inr (Insert p cred [(''duplicatedFrom'', JStr (pf_id old)), (''copiedSecret'', JBool (cred \<noteq> None))])))))"

definition profile_draft :: "string \<Rightarrow> manager_actor \<Rightarrow> profile \<Rightarrow> (string, json) jsmap option \<Rightarrow> audit_draft" where
  "profile_draft what a p ds =
     \<lparr>daction = what, dactor = Some (ma_id a), dtargetType = None, dtargetRef = Some (pf_id p), dconnection = Some (pf_id p),
      ddetails = ds\<rparr>"

definition recorded :: "audit_context \<Rightarrow> audit_draft \<Rightarrow> profile_store \<Rightarrow> manager_error + profile_store" where
  "recorded c e s = (case audit_record c e Success (ps_db s) of Inl x \<Rightarrow> Inl (FromAudit x) | Inr d \<Rightarrow> Inr (s\<lparr>ps_db := d\<rparr>))"

definition from_store :: "constraint + 'a \<Rightarrow> manager_error + 'a" where
  "from_store r = (case r of Inl c \<Rightarrow> Inl (conflict c) | Inr x \<Rightarrow> Inr x)"

text \<open>\<open>storedCredential\<close> and its upsert, if there is one.\<close>

definition save_credential :: "time \<Rightarrow> profile \<Rightarrow> encrypted_credential option \<Rightarrow> profile_store \<Rightarrow> manager_error + profile_store" where
  "save_credential now p cred s =
     (case cred of
        None \<Rightarrow> Inr s
      | Some e \<Rightarrow> from_store (credential_upsert \<lparr>cr_connection = pf_id p, cr_encrypted = e, cr_createdAt = now, cr_updatedAt = now\<rparr> s))"

definition hasSavedSecret :: "string \<Rightarrow> profile_store \<Rightarrow> bool" where
  "hasSavedSecret i s = (credential_get i s \<noteq> None)"

text \<open>The transaction: an error leaves the store as it was.\<close>

fun perform :: "audit_context \<Rightarrow> manager_actor \<Rightarrow> pending \<Rightarrow> profile_store \<Rightarrow> manager_error + profile_store" where
  "perform c a (Insert p cred ds) s =
     and_then (from_store (profile_create p s)) (\<lambda>s1.
     and_then (save_credential (pf_updatedAt p) p cred s1)
       (recorded c (profile_draft ''connection.created'' a p (Some ds))))"
| "perform c a (Change p cred clear changed) s =
     and_then (from_store (profile_update p s)) (\<lambda>s1.
     and_then (if clear then Inr (credential_delete (pf_id p) s1) else save_credential (pf_updatedAt p) p cred s1) (\<lambda>s2.
     recorded c (profile_draft ''connection.updated'' a p (Some [(''changedSecret'', JBool changed),
       (''savedSecret'', JBool (\<not> clear \<and> (cred \<noteq> None \<or> hasSavedSecret (pf_id p) s2)))])) s2))"

definition in_transaction :: "(profile_store \<Rightarrow> manager_error + profile_store) \<Rightarrow> profile_store \<Rightarrow> profile_store \<times> (manager_error + unit)" where
  "in_transaction f s = (case f s of Inl e \<Rightarrow> (s, Inl e) | Inr s' \<Rightarrow> (s', Inr ()))"

definition deleteConnection :: "audit_context \<Rightarrow> manager_actor \<Rightarrow> string \<Rightarrow> profile_store \<Rightarrow> profile_store \<times> (manager_error + unit)" where
  "deleteConnection c a i s =
     (case requireConnection i s of
        Inl e \<Rightarrow> (s, Inl e)
      | Inr p \<Rightarrow>
          if ma_role a \<noteq> RoleAdmin \<and> ma_id a \<noteq> pf_owner p then (s, Inl CONNECTION_FORBIDDEN)
          else in_transaction (\<lambda>s. recorded c (profile_draft ''connection.deleted'' a p (Some [(''ownerUserId'', JStr (pf_owner p))]))
                 (credential_delete (pf_id p) (profile_delete (pf_id p) s))) s)"

text \<open>
  Where a saved password is used: to connect, to test a saved connection, to change data, to open a session
  of the query editor. All of them ask for the connection and its owner first.
\<close>

definition savedPassword :: "vault \<Rightarrow> manager_actor \<Rightarrow> string \<Rightarrow> profile_store \<Rightarrow> manager_error + string option" where
  "savedPassword v a i s =
     and_then (requireConnection i s) (\<lambda>p.
     and_then (assertConnectionOwner a p) (\<lambda>_.
     case credential_get (pf_id p) s of
       None \<Rightarrow> Inl SECRET_REQUIRED
     | Some r \<Rightarrow>
         (case decryptCredential v (pf_id p) (cr_encrypted r) of
            Inl e \<Rightarrow> Inl (FromVault e)
          | Inr fs \<Rightarrow> Inr (text_field ''password'' fs))))"

section \<open>Server groups\<close>

definition validateGroupInput :: "string \<Rightarrow> string option \<Rightarrow> int option \<Rightarrow> manager_error + string \<times> string option \<times> int" where
  "validateGroupInput name color order =
     (let n = js_trim name; c = cleanNullableString color in
      if n = [] \<or> 128 < length n then Inl (GroupInvalid ''name'' ''invalid'')
      else if too_long c then Inl (GroupInvalid ''color'' ''too_long'')
      else Inr (n, c, (case order of None \<Rightarrow> 0 | Some k \<Rightarrow> k)))"

definition createGroup ::
  "string \<Rightarrow> manager_actor \<Rightarrow> string \<Rightarrow> string option \<Rightarrow> int option \<Rightarrow> profile_store \<Rightarrow> profile_store \<times> (manager_error + unit)" where
  "createGroup newId a name color order s =
     (case validateGroupInput name color order of
        Inl e \<Rightarrow> (s, Inl e)
      | Inr (n, c, k) \<Rightarrow>
          (case assertGroupNameAvailable (ma_id a) n None s of
             Inl e \<Rightarrow> (s, Inl e)
           | Inr _ \<Rightarrow> in_transaction (\<lambda>s. from_store (group_create
               \<lparr>gr_id = newId, gr_owner = ma_id a, gr_name = n, gr_color = c, gr_sortOrder = k\<rparr> s)) s))"

definition updateGroup ::
  "manager_actor \<Rightarrow> string \<Rightarrow> string option \<Rightarrow> string option option \<Rightarrow> int option \<Rightarrow> profile_store \<Rightarrow>
     profile_store \<times> (manager_error + unit)" where
  "updateGroup a i name color order s =
     (case and_then (requireGroup i s) (\<lambda>g. and_then (assertGroupOwner a g) (\<lambda>_.
         and_then (validateGroupInput (or_old name (gr_name g)) (or_old color (gr_color g)) (Some (or_old order (gr_sortOrder g)))) (\<lambda>(n, c, k).
         and_then (if n \<noteq> gr_name g then assertGroupNameAvailable (ma_id a) n (Some (gr_id g)) s else Inr ()) (\<lambda>_.
         Inr (g\<lparr>gr_name := n, gr_color := c, gr_sortOrder := k\<rparr>))))) of
        Inl e \<Rightarrow> (s, Inl e)
      | Inr g \<Rightarrow> in_transaction (\<lambda>s. from_store (group_update g s)) s)"

text \<open>The connections of the actor leave the group one after the other before it is deleted.\<close>

definition raw_error :: "constraint + 'a \<Rightarrow> manager_error + 'a" where
  "raw_error r = (case r of Inl c \<Rightarrow> Inl (FromStore c) | Inr x \<Rightarrow> Inr x)"

definition leave_group :: "time \<Rightarrow> string \<Rightarrow> profile list \<Rightarrow> profile_store \<Rightarrow> manager_error + profile_store" where
  "leave_group now g ps s =
     foldl (\<lambda>r p. and_then r (\<lambda>s. if pf_group p = Some g
        then raw_error (profile_update (p\<lparr>pf_group := None, pf_updatedAt := now\<rparr>) s) else Inr s)) (Inr s) ps"

definition deleteGroup :: "audit_context \<Rightarrow> time \<Rightarrow> manager_actor \<Rightarrow> string \<Rightarrow> profile_store \<Rightarrow> profile_store \<times> (manager_error + unit)" where
  "deleteGroup c now a i s =
     (case and_then (requireGroup i s) (\<lambda>g. and_then (assertGroupOwner a g) (\<lambda>_. Inr g)) of
        Inl e \<Rightarrow> (s, Inl e)
      | Inr g \<Rightarrow> in_transaction (\<lambda>s. and_then (leave_group now (gr_id g) (listByOwner (ma_id a) s) s) (\<lambda>s1.
          recorded c \<lparr>daction = ''servergroup.deleted'', dactor = Some (ma_id a), dtargetType = None, dtargetRef = Some (gr_id g),
            dconnection = None, ddetails = Some [(''name'', JStr (gr_name g))]\<rparr> (group_delete (gr_id g) s1))) s)"

section \<open>Lists\<close>

definition pageParameters :: "int \<Rightarrow> int \<Rightarrow> manager_error + unit" where
  "pageParameters n sz = (if n < 1 \<or> sz < 1 \<or> 100 < sz then Inl PageInvalid else Inr ())"

definition page_slice :: "'a list \<Rightarrow> int \<Rightarrow> int \<Rightarrow> 'a page" where
  "page_slice items n sz =
     \<lparr>pitems = js_slice items (nat ((n - 1) * sz)) (nat ((n - 1) * sz + sz)), ptotal = length items, ppage = n, ppageSize = sz\<rparr>"

definition ownerView :: "string \<Rightarrow> profile_store \<Rightarrow> string \<times> string" where
  "ownerView u s = (u, case user_findById u (ps_db s) of None \<Rightarrow> ''Unknown user'' | Some w \<Rightarrow> username w)"

text \<open>A view: the connection, its owner and whether a password is saved; never the password.\<close>

definition listConnections :: "manager_actor \<Rightarrow> int \<Rightarrow> int \<Rightarrow> profile_store \<Rightarrow> manager_error + (profile \<times> (string \<times> string) \<times> bool) page" where
  "listConnections a n sz s =
     and_then (pageParameters n sz) (\<lambda>_.
     Inr (page_slice (map (\<lambda>p. (p, ownerView (pf_owner p) s, hasSavedSecret (pf_id p) s))
       (if ma_role a = RoleAdmin then listAll s else listByOwner (ma_id a) s)) n sz))"

definition listGroups :: "manager_actor \<Rightarrow> int \<Rightarrow> int \<Rightarrow> profile_store \<Rightarrow> manager_error + server_group page" where
  "listGroups a n sz s = and_then (pageParameters n sz) (\<lambda>_. Inr (page_slice (groups_of (ma_id a) s) n sz))"

section \<open>Histories\<close>

text \<open>
  Requests and their second halves in any order: the first half of a change leaves a pending one, which is
  carried out by a later event, or never. \<open>createId\<close> never gives an id twice, so an event with one that was
  given before does not occur; the ids are remembered with the user they were made for.
\<close>

datatype manager_op =
    CreateConnection "nat \<Rightarrow> char" time string connection_input "string option" bool
  | UpdateConnection "nat \<Rightarrow> char" time string connection_patch
  | DuplicateConnection "nat \<Rightarrow> char" time string string string bool
  | Perform nat audit_context
  | DeleteConnection string audit_context
  | CreateGroup string string "string option" "int option"
  | UpdateGroup string "string option" "string option option" "int option"
  | DeleteGroup string time audit_context

record manager_state =
  ms_store :: profile_store
  ms_pending :: "(manager_actor \<times> pending) list"
  ms_ids :: "(string \<times> string) list"

definition with_id :: "string \<Rightarrow> manager_actor \<Rightarrow> (manager_state \<Rightarrow> manager_state) \<Rightarrow> manager_state \<Rightarrow> manager_state" where
  "with_id i a f m = (if map_of (ms_ids m) i = None then f (m\<lparr>ms_ids := (i, ma_id a) # ms_ids m\<rparr>) else m)"

definition begin_change :: "manager_actor \<Rightarrow> manager_error + pending \<Rightarrow> manager_state \<Rightarrow> manager_state" where
  "begin_change a r m = (case r of Inl e \<Rightarrow> m | Inr p \<Rightarrow> m\<lparr>ms_pending := ms_pending m @ [(a, p)]\<rparr>)"

fun manager_step :: "vault \<Rightarrow> manager_state \<Rightarrow> manager_actor \<times> manager_op \<Rightarrow> manager_state" where
  "manager_step v m (a, CreateConnection rnd now newId input secret save) =
     with_id newId a (begin_change a (createConnection v rnd now newId a input secret save (ms_store m))) m"
| "manager_step v m (a, UpdateConnection rnd now i q) = begin_change a (updateConnection v rnd now a i q (ms_store m)) m"
| "manager_step v m (a, DuplicateConnection rnd now newId i label copy) =
     with_id newId a (begin_change a (duplicateConnection v rnd now newId a i label copy (ms_store m))) m"
| "manager_step v m (a, Perform k c) =
     (if k < length (ms_pending m)
      then let (b, p) = ms_pending m ! k in
        m\<lparr>ms_store := fst (in_transaction (perform c b p) (ms_store m)),
          ms_pending := take k (ms_pending m) @ drop (Suc k) (ms_pending m)\<rparr>
      else m)"
| "manager_step v m (a, DeleteConnection i c) = m\<lparr>ms_store := fst (deleteConnection c a i (ms_store m))\<rparr>"
| "manager_step v m (a, CreateGroup newId name color order) =
     with_id newId a (\<lambda>m. m\<lparr>ms_store := fst (createGroup newId a name color order (ms_store m))\<rparr>) m"
| "manager_step v m (a, UpdateGroup i name color order) = m\<lparr>ms_store := fst (updateGroup a i name color order (ms_store m))\<rparr>"
| "manager_step v m (a, DeleteGroup i now c) = m\<lparr>ms_store := fst (deleteGroup c now a i (ms_store m))\<rparr>"

definition fresh_manager :: "db \<Rightarrow> manager_state" where
  "fresh_manager d = \<lparr>ms_store = \<lparr>ps_db = d, ps_groups = [], ps_profiles = [], ps_credentials = []\<rparr>, ms_pending = [], ms_ids = []\<rparr>"

end
