(* ===== verification/ProfileProps.thy ===== *)
theory ProfileProps
  imports Profiles
begin

text \<open>
  What the connection manager keeps over any history of requests, however the second halves of changes
  interleave: labels stay unique, stored profiles stay valid, saved passwords stay readable for their own
  connection only, and nobody changes what belongs to another user.
\<close>

section \<open>Validation\<close>

lemma js_trim_twice [simp]: "js_trim (js_trim s) = js_trim s"
proof -
  have d: "dropWhile P (dropWhile P xs) = dropWhile P xs" for P and xs :: string
    by (induction xs) auto
  have k: "dropWhile P (rev (dropWhile P (rev (dropWhile P xs)))) = rev (dropWhile P (rev (dropWhile P xs)))"
    for P and xs :: string
  proof (cases "dropWhile P xs")
    case (Cons x ys)
    then have x: "\<not> P x" by (simp add: dropWhile_eq_Cons_conv)
    have "rev (dropWhile P (rev (x # ys))) = x # rev (dropWhile P (rev ys))"
    proof (cases "\<forall>y \<in> set ys. P y")
      case True
      then have "dropWhile P (rev ys @ [x]) = dropWhile P [x]" by (intro dropWhile_append2) simp
      moreover have "dropWhile P (rev ys) = []" using True by simp
      ultimately show ?thesis using x by simp
    next
      case False
      then obtain y where "y \<in> set (rev ys)" "\<not> P y" by auto
      then have "dropWhile P (rev ys @ [x]) = dropWhile P (rev ys) @ [x]" by (rule dropWhile_append1)
      then show ?thesis by simp
    qed
    then show ?thesis using Cons x by simp
  next
    case Nil
    then show ?thesis by (simp only: rev.simps dropWhile.simps)
  qed
  show ?thesis by (simp add: js_trim_def d k)
qed

lemma cleanNullableString_twice [simp]: "cleanNullableString (cleanNullableString v) = cleanNullableString v"
  by (simp add: cleanNullableString_def split: option.splits)

definition normal_tls :: "tls_options \<Rightarrow> bool" where
  "normal_tls t \<longleftrightarrow> map_option js_trim (tl_ca t) = tl_ca t \<and> map_option js_trim (tl_serverName t) = tl_serverName t
     \<and> \<not> blank (tl_ca t) \<and> \<not> blank (tl_serverName t)"

definition normal_input :: "connection_input \<Rightarrow> bool" where
  "normal_input c \<longleftrightarrow>
     js_trim (ci_label c) = ci_label c \<and> ci_label c \<noteq> [] \<and> length (ci_label c) \<le> 128 \<and> isDatabaseEngine (ci_engine c)
     \<and> js_trim (ci_host c) = ci_host c \<and> ci_host c \<noteq> [] \<and> length (ci_host c) \<le> 255 \<and> 1 \<le> ci_port c \<and> ci_port c \<le> 65535
     \<and> js_trim (ci_username c) = ci_username c \<and> ci_username c \<noteq> [] \<and> length (ci_username c) \<le> 128 \<and> isTlsMode (ci_sslMode c)
     \<and> 1 \<le> ci_timeout c \<and> cleanNullableString (ci_database c) = ci_database c \<and> cleanNullableString (ci_group c) = ci_group c
     \<and> cleanNullableString (ci_tag c) = ci_tag c \<and> \<not> too_long (ci_tag c)
     \<and> cleanNullableString (ci_color c) = ci_color c \<and> \<not> too_long (ci_color c)
     \<and> (\<forall>t. ci_tls c = Some t \<longrightarrow> normal_tls t) \<and> (ci_sslMode c = ''disable'' \<longrightarrow> ci_tls c = None)"

lemma normal_unchanged:
  assumes "normal_input c"
  shows "validateConnectionInput c = Inr c"
proof (cases "ci_tls c")
  case None
  then show ?thesis using assms by (simp add: normal_input_def validateConnectionInput_def Let_def)
next
  case (Some t)
  then show ?thesis using assms by (simp add: normal_input_def normal_tls_def validateConnectionInput_def Let_def)
qed

lemma validated_tls:
  assumes "\<not> (case x of None \<Rightarrow> False | Some t \<Rightarrow> blank (tl_ca t))" "\<not> (case x of None \<Rightarrow> False | Some t \<Rightarrow> blank (tl_serverName t))"
    "map_option (\<lambda>t. \<lparr>tl_ca = map_option js_trim (tl_ca t), tl_serverName = map_option js_trim (tl_serverName t)\<rparr>) x = Some t"
  shows "normal_tls t"
  using assms by (auto simp: normal_tls_def blank_def option.map_comp comp_def split: option.splits)

lemma validated_normal:
  assumes "validateConnectionInput i = Inr c"
  shows "normal_input c"
  using assms
  by (auto simp: validateConnectionInput_def Let_def normal_input_def intro: validated_tls split: if_split_asm)


section \<open>What is kept\<close>

definition no_patch :: connection_patch where
  "no_patch = \<lparr>cp_label = None, cp_engine = None, cp_host = None, cp_port = None, cp_database = None, cp_username = None,
     cp_sslMode = None, cp_tls = None, cp_timeout = None, cp_group = None, cp_tag = None, cp_color = None, cp_secret = None,
     cp_clearSecret = False\<rparr>"

text \<open>A profile that the validation of its own fields leaves as it is.\<close>

definition valid_profile :: "profile \<Rightarrow> bool" where
  "valid_profile p \<longleftrightarrow> normal_input (merged_input no_patch p) \<and> cleanTlsOptions (tlsOptionsFromConnection p) = pf_tls p"

text \<open>An id was made for the user, if there is one.\<close>

definition belongs :: "(string \<times> string) list \<Rightarrow> string \<Rightarrow> string option \<Rightarrow> bool" where
  "belongs ids u x \<longleftrightarrow> (\<forall>i. x = Some i \<longrightarrow> map_of ids i = Some u)"

definition profile_ok :: "(string \<times> string) list \<Rightarrow> profile \<Rightarrow> bool" where
  "profile_ok ids p \<longleftrightarrow> valid_profile p \<and> belongs ids (pf_owner p) (Some (pf_id p)) \<and> belongs ids (pf_owner p) (pf_group p)"

text \<open>A password that was encrypted for a connection.\<close>

definition bound :: "vault \<Rightarrow> string \<Rightarrow> encrypted_credential \<Rightarrow> bool" where
  "bound v i e \<longleftrightarrow> (\<exists>rnd w. encryptCredential v rnd i (password_payload w) = Inr e)"

definition credential_ok :: "vault \<Rightarrow> profile_store \<Rightarrow> credential_row \<Rightarrow> bool" where
  "credential_ok v s r \<longleftrightarrow> profile_find (cr_connection r) s \<noteq> None \<and> bound v (cr_connection r) (cr_encrypted r)"

definition group_ok :: "(string \<times> string) list \<Rightarrow> server_group \<Rightarrow> bool" where
  "group_ok ids g \<longleftrightarrow> belongs ids (gr_owner g) (Some (gr_id g))"

definition unique_rows :: "profile_store \<Rightarrow> bool" where
  "unique_rows s \<longleftrightarrow> distinct (map pf_id (ps_profiles s)) \<and> distinct (map (\<lambda>p. (pf_owner p, pf_label p)) (ps_profiles s))
     \<and> distinct (map gr_id (ps_groups s)) \<and> distinct (map (\<lambda>g. (gr_owner g, gr_name g)) (ps_groups s))
     \<and> distinct (map cr_connection (ps_credentials s))"

definition rows_ok :: "vault \<Rightarrow> (string \<times> string) list \<Rightarrow> profile_store \<Rightarrow> bool" where
  "rows_ok v ids s \<longleftrightarrow> (\<forall>p \<in> set (ps_profiles s). profile_ok ids p \<and> known_group (pf_group p) s)
     \<and> (\<forall>g \<in> set (ps_groups s). group_ok ids g) \<and> (\<forall>r \<in> set (ps_credentials s). credential_ok v s r)"

definition store_ok :: "vault \<Rightarrow> (string \<times> string) list \<Rightarrow> profile_store \<Rightarrow> bool" where
  "store_ok v ids s \<longleftrightarrow> unique_rows s \<and> rows_ok v ids s"

definition pending_profile :: "pending \<Rightarrow> profile" where
  "pending_profile c = (case c of Insert p _ _ \<Rightarrow> p | Change p _ _ _ \<Rightarrow> p)"

definition pending_credential :: "pending \<Rightarrow> encrypted_credential option" where
  "pending_credential c = (case c of Insert _ x _ \<Rightarrow> x | Change _ x _ _ \<Rightarrow> x)"

definition pending_ok :: "vault \<Rightarrow> (string \<times> string) list \<Rightarrow> manager_actor \<times> pending \<Rightarrow> bool" where
  "pending_ok v ids = (\<lambda>(a, c). profile_ok ids (pending_profile c) \<and> pf_owner (pending_profile c) = ma_id a
     \<and> (\<forall>e. pending_credential c = Some e \<longrightarrow> bound v (pf_id (pending_profile c)) e))"

definition manager_ok :: "vault \<Rightarrow> manager_state \<Rightarrow> bool" where
  "manager_ok v m \<longleftrightarrow> store_ok v (ms_ids m) (ms_store m) \<and> list_all (pending_ok v (ms_ids m)) (ms_pending m)"

section \<open>The repositories keep it\<close>

lemma find_map_kept: "(\<And>x. f (g x) = f x) \<Longrightarrow> find (\<lambda>x. f x = i) (map g xs) = map_option g (find (\<lambda>x. f x = i) xs)"
  by (induction xs) auto

lemma find_None: "find P xs = None \<longleftrightarrow> (\<forall>x \<in> set xs. \<not> P x)"
  by (auto simp: find_None_iff)

lemma find_member: "find P xs = Some x \<Longrightarrow> x \<in> set xs \<and> P x"
  by (auto simp: find_Some_iff)

lemma distinct_replaced:
  assumes "distinct (map f xs)" "\<forall>x \<in> set xs. k x = i \<or> f x \<noteq> y" "distinct (map k xs)" "\<And>x. f (g x) = y"
  shows "distinct (map f (map (\<lambda>x. if k x = i then g x else x) xs))"
  using assms(1-3)
proof (induction xs)
  case (Cons a xs)
  then have "distinct (map f (map (\<lambda>x. if k x = i then g x else x) xs))" by simp
  moreover have "f (if k a = i then g a else a) \<noteq> f (if k x = i then g x else x)" if "x \<in> set xs" for x
    using Cons.prems that assms(4) by (cases "k a = i"; cases "k x = i") (force simp: image_iff)+
  ultimately show ?case by (simp only: list.map distinct.simps set_map) blast
qed simp

lemma profile_known: "profile_find i s = None \<longleftrightarrow> i \<notin> pf_id ` set (ps_profiles s)"
  by (auto simp: profile_find_def find_None)

lemma group_known: "group_find i s = None \<longleftrightarrow> i \<notin> gr_id ` set (ps_groups s)"
  by (auto simp: group_find_def find_None)

lemma known_group_iff: "known_group g s \<longleftrightarrow> (\<forall>i. g = Some i \<longrightarrow> i \<in> gr_id ` set (ps_groups s))"
  by (auto simp: known_group_def group_known split: option.splits)

lemma profile_created:
  assumes "store_ok v ids s" "profile_ok ids p" "profile_create p s = Inr s'"
  shows "store_ok v ids s'"
proof -
  have c: "s' = s\<lparr>ps_profiles := ps_profiles s @ [p]\<rparr>" "pf_id p \<notin> pf_id ` set (ps_profiles s)" "known_group (pf_group p) s"
    "\<forall>q \<in> set (ps_profiles s). (pf_owner q, pf_label q) \<noteq> (pf_owner p, pf_label p)"
    using assms(3) by (auto simp: profile_create_def row_allowed_def list_ex_iff profile_known split: if_splits)
  have "unique_rows s'" using assms(1) c by (auto simp: store_ok_def unique_rows_def)
  moreover have "rows_ok v ids s'"
    using assms(1,2) c(3) by (auto simp: c(1) store_ok_def rows_ok_def credential_ok_def profile_known known_group_iff)
  ultimately show ?thesis by (simp add: store_ok_def)
qed


text \<open>Only the owner of an id can be meant by it, so an update stays with the owner of the row.\<close>

lemma profile_updated:
  assumes "store_ok v ids s" "profile_ok ids p" "profile_update p s = Inr s'"
  shows "store_ok v ids s'"
proof (cases "profile_find (pf_id p) s = None")
  case True
  then show ?thesis using assms by (simp add: profile_update_def)
next
  case False
  let ?put = "\<lambda>q. if pf_id q = pf_id p then p\<lparr>pf_createdAt := pf_createdAt q\<rparr> else q"
  have c: "s' = s\<lparr>ps_profiles := map ?put (ps_profiles s)\<rparr>" "known_group (pf_group p) s"
    "\<forall>q \<in> set (ps_profiles s). pf_id q = pf_id p \<or> (pf_owner q, pf_label q) \<noteq> (pf_owner p, pf_label p)"
    using assms(3) False by (auto simp: profile_update_def row_allowed_def list_ex_iff split: if_splits)
  have ids: "map pf_id (map ?put (ps_profiles s)) = map pf_id (ps_profiles s)" by simp
  have "profile_ok ids (p\<lparr>pf_createdAt := t\<rparr>)" for t
    using assms(2) by (simp add: profile_ok_def valid_profile_def merged_input_def tlsOptionsFromConnection_def)
  moreover have "unique_rows s'"
    using assms(1) c(3) ids unfolding c(1) store_ok_def unique_rows_def
    by (auto intro!: distinct_replaced simp del: map_map)
  moreover have "\<exists>t. x = p\<lparr>pf_createdAt := t\<rparr>" if "x \<in> set (map ?put (ps_profiles s))" "x \<notin> set (ps_profiles s)" for x
    using that by (auto split: if_splits)
  moreover have "pf_id ` set (ps_profiles s') = pf_id ` set (ps_profiles s)" "ps_credentials s' = ps_credentials s"
    "ps_groups s' = ps_groups s" "set (ps_profiles s') = set (map ?put (ps_profiles s))"
    using ids by (simp_all add: c(1) del: map_map set_map) (metis set_map)
  ultimately show ?thesis
    using assms(1) c(2) unfolding store_ok_def rows_ok_def credential_ok_def profile_known known_group_iff
    by (auto simp del: set_map) (force simp del: set_map)+
qed

lemma credential_upserted:
  assumes "store_ok v ids s" "bound v (cr_connection r) (cr_encrypted r)" "credential_upsert r s = Inr s'"
  shows "store_ok v ids s'"
proof -
  have known: "profile_find (cr_connection r) s \<noteq> None" using assms(3) by (auto simp: credential_upsert_def split: if_splits)
  then have row: "credential_ok v s (r\<lparr>cr_createdAt := t\<rparr>)" for t using assms(2) by (simp add: credential_ok_def)
  have find: "profile_find i (s\<lparr>ps_credentials := x\<rparr>) = profile_find i s" for i x by (simp add: profile_find_def)
  have known_group: "known_group g (s\<lparr>ps_credentials := x\<rparr>) = known_group g s" for g x
    by (cases g) (simp_all add: known_group_def group_find_def)
  show ?thesis
  proof (cases "credential_get (cr_connection r) s")
    case None
    then have "s' = s\<lparr>ps_credentials := ps_credentials s @ [r]\<rparr>" "cr_connection r \<notin> cr_connection ` set (ps_credentials s)"
      using assms(3) known by (auto simp: credential_upsert_def credential_get_def find_None)
    then show ?thesis using assms(1,2) known
      by (auto simp: store_ok_def unique_rows_def rows_ok_def credential_ok_def find known_group)
  next
    case (Some q)
    let ?put = "\<lambda>q. if cr_connection q = cr_connection r then r\<lparr>cr_createdAt := cr_createdAt q\<rparr> else q"
    have "s' = s\<lparr>ps_credentials := map ?put (ps_credentials s)\<rparr>"
      using Some assms(3) known by (simp add: credential_upsert_def)
    moreover have "map cr_connection (map ?put (ps_credentials s)) = map cr_connection (ps_credentials s)" by simp
    ultimately show ?thesis using assms(1) row
      by (auto simp: store_ok_def unique_rows_def rows_ok_def credential_ok_def find known_group simp del: map_map)
  qed
qed

lemma credential_deleted: "store_ok v ids s \<Longrightarrow> store_ok v ids (credential_delete i s)"
  by (auto simp: store_ok_def unique_rows_def rows_ok_def credential_delete_def credential_ok_def known_group_iff profile_known
      intro: distinct_map_filter)

lemma profile_deleted: "store_ok v ids s \<Longrightarrow> store_ok v ids (profile_delete i s)"
  by (auto simp: store_ok_def unique_rows_def rows_ok_def profile_delete_def credential_delete_def credential_ok_def
      known_group_iff profile_known intro: distinct_map_filter)

lemma group_created:
  assumes "store_ok v ids s" "group_ok ids g" "group_create g s = Inr s'"
  shows "store_ok v ids s'"
proof -
  have "s' = s\<lparr>ps_groups := ps_groups s @ [g]\<rparr>" "gr_id g \<notin> gr_id ` set (ps_groups s)"
    "\<forall>h \<in> set (ps_groups s). (gr_owner h, gr_name h) \<noteq> (gr_owner g, gr_name g)"
    using assms(3) by (auto simp: group_create_def list_ex_iff group_known split: if_splits)
  then show ?thesis using assms(1,2)
    by (auto simp: store_ok_def unique_rows_def rows_ok_def credential_ok_def profile_known known_group_iff)
qed

lemma group_updated:
  assumes "store_ok v ids s" "group_update g s = Inr s'"
  shows "store_ok v ids s'"
proof (cases "group_find (gr_id g) s")
  case None
  then show ?thesis using assms by (simp add: group_update_def)
next
  case (Some old)
  let ?put = "\<lambda>h. if gr_id h = gr_id g then h\<lparr>gr_name := gr_name g, gr_color := gr_color g, gr_sortOrder := gr_sortOrder g\<rparr> else h"
  have old: "old \<in> set (ps_groups s)" "gr_id old = gr_id g" using find_member [OF Some [unfolded group_find_def]] by auto
  have c: "s' = s\<lparr>ps_groups := map ?put (ps_groups s)\<rparr>"
    "\<forall>h \<in> set (ps_groups s). gr_id h = gr_id g \<or> (gr_owner h, gr_name h) \<noteq> (gr_owner old, gr_name g)"
    using assms(2) Some by (auto simp: group_update_def list_ex_iff split: if_splits)
  have d: "distinct (map gr_id (ps_groups s))" "distinct (map (\<lambda>g. (gr_owner g, gr_name g)) (ps_groups s))"
    using assms(1) by (simp_all add: store_ok_def unique_rows_def)
  have "h = old" if "h \<in> set (ps_groups s)" "gr_id h = gr_id g" for h
    using that old d(1) by (metis distinct_map inj_on_eq_iff)
  then have eq: "map ?put (ps_groups s) = map (\<lambda>h. if gr_id h = gr_id g then ?put old else h) (ps_groups s)"
    using old(2) by auto
  have names: "distinct (map (\<lambda>g. (gr_owner g, gr_name g)) (map ?put (ps_groups s)))"
    unfolding eq by (rule distinct_replaced [OF d(2) c(2) d(1)]) (simp add: old(2))
  have ids: "map gr_id (map ?put (ps_groups s)) = map gr_id (ps_groups s)" by simp
  then have "gr_id ` set (ps_groups s') = gr_id ` set (ps_groups s)" by (simp add: c(1) del: map_map set_map) (metis set_map)
  moreover have "\<forall>h \<in> set (ps_groups s'). group_ok ids h" "unique_rows s'"
    using assms(1) names ids by (auto simp: c(1) store_ok_def rows_ok_def unique_rows_def group_ok_def simp del: map_map)
  ultimately show ?thesis
    using assms(1) by (auto simp: c(1) store_ok_def rows_ok_def credential_ok_def profile_known known_group_iff)
qed

lemma without_group: "profile_ok ids p \<Longrightarrow> profile_ok ids (p\<lparr>pf_group := None\<rparr>)"
  by (auto simp: profile_ok_def valid_profile_def belongs_def merged_input_def no_patch_def or_old_def normal_input_def
      tlsOptionsFromConnection_def cleanNullableString_def)

lemma group_deleted:
  assumes "store_ok v ids s"
  shows "store_ok v ids (group_delete i s)"
proof -
  let ?out = "\<lambda>p. if pf_group p = Some i then p\<lparr>pf_group := None\<rparr> else p"
  have "map pf_id (map ?out (ps_profiles s)) = map pf_id (ps_profiles s)"
    "map (\<lambda>p. (pf_owner p, pf_label p)) (map ?out (ps_profiles s)) = map (\<lambda>p. (pf_owner p, pf_label p)) (ps_profiles s)"
    by simp_all
  note kept = this
  have ids: "pf_id ` set (map ?out (ps_profiles s)) = pf_id ` set (ps_profiles s)"
    using arg_cong [OF kept(1), of set] by (simp only: set_map)
  have parts: "ps_profiles (group_delete i s) = map ?out (ps_profiles s)" "ps_credentials (group_delete i s) = ps_credentials s"
    "ps_groups (group_delete i s) = filter (\<lambda>g. gr_id g \<noteq> i) (ps_groups s)" by (simp_all add: group_delete_def)
  have "unique_rows (group_delete i s)"
    using assms unfolding store_ok_def unique_rows_def parts kept by (auto intro: distinct_map_filter)
  moreover have "gr_id ` {g \<in> set (ps_groups s). gr_id g \<noteq> i} = gr_id ` set (ps_groups s) - {i}" by auto
  then have "\<forall>p \<in> set (ps_profiles (group_delete i s)). profile_ok ids p \<and> known_group (pf_group p) (group_delete i s)"
    using assms without_group by (auto simp: store_ok_def rows_ok_def parts known_group_iff)
  moreover have "\<forall>r \<in> set (ps_credentials (group_delete i s)). credential_ok v (group_delete i s) r"
    using assms ids by (auto simp: store_ok_def rows_ok_def group_delete_def credential_ok_def profile_known simp del: set_map)
  ultimately show ?thesis using assms by (auto simp: store_ok_def rows_ok_def group_delete_def)
qed

lemma store_ok_db [simp]: "store_ok v ids (s\<lparr>ps_db := d\<rparr>) = store_ok v ids s"
proof -
  have "known_group g (s\<lparr>ps_db := d\<rparr>) = known_group g s" for g
    by (cases g) (simp_all add: known_group_def group_find_def)
  then show ?thesis by (simp add: store_ok_def unique_rows_def rows_ok_def credential_ok_def profile_find_def)
qed

lemma recorded_kept: "recorded c e s = Inr s' \<Longrightarrow> \<exists>d. s' = s\<lparr>ps_db := d\<rparr>"
  by (auto simp: recorded_def split: sum.splits)

lemma recorded_ok: "recorded c e s = Inr s' \<Longrightarrow> store_ok v ids s \<Longrightarrow> store_ok v ids s'"
  using recorded_kept by fastforce

lemma from_store_Inr [simp]: "from_store r = Inr x \<longleftrightarrow> r = Inr x"
  by (simp add: from_store_def split: sum.splits)

lemma raw_error_Inr [simp]: "raw_error r = Inr x \<longleftrightarrow> r = Inr x"
  by (simp add: raw_error_def split: sum.splits)

section \<open>Transactions keep it\<close>

lemma in_transaction_kept: "P s \<Longrightarrow> (\<And>s'. f s = Inr s' \<Longrightarrow> P s') \<Longrightarrow> P (fst (in_transaction f s))"
  by (simp add: in_transaction_def split: sum.splits)

lemma saved_ok:
  "store_ok v ids s \<Longrightarrow> \<forall>e. x = Some e \<longrightarrow> bound v (pf_id p) e \<Longrightarrow> save_credential now p x s = Inr s' \<Longrightarrow> store_ok v ids s'"
  using credential_upserted [of v ids s "\<lparr>cr_connection = pf_id p, cr_encrypted = the x, cr_createdAt = now, cr_updatedAt = now\<rparr>" s']
  by (auto simp: save_credential_def split: option.splits)

lemma performed_ok:
  assumes "store_ok v ids s" "pending_ok v ids (a, x)" "perform c a x s = Inr s'"
  shows "store_ok v ids s'"
proof (cases x)
  case (Insert p e ds)
  then obtain s1 s2 where s: "profile_create p s = Inr s1" "save_credential (pf_updatedAt p) p e s1 = Inr s2"
    "recorded c (profile_draft ''connection.created'' a p (Some ds)) s2 = Inr s'"
    using assms(3) by (auto simp: and_then_Inr)
  have "store_ok v ids s1"
    using assms(1,2) s(1) Insert by (auto simp: pending_ok_def pending_profile_def intro: profile_created)
  then have "store_ok v ids s2"
    using s(2) assms(2) Insert by (auto simp: pending_ok_def pending_profile_def pending_credential_def intro: saved_ok)
  with s(3) show ?thesis by (rule recorded_ok)
next
  case (Change p e clear changed)
  then obtain s1 s2 where s: "profile_update p s = Inr s1"
    "(if clear then Inr (credential_delete (pf_id p) s1) else save_credential (pf_updatedAt p) p e s1) = Inr s2"
    "\<exists>d. s' = s2\<lparr>ps_db := d\<rparr>"
    using assms(3) by (auto simp: and_then_Inr dest!: recorded_kept)
  have "store_ok v ids s1"
    using assms(1,2) s(1) Change by (auto simp: pending_ok_def pending_profile_def intro: profile_updated)
  then have "store_ok v ids s2" using s(2) assms(2) Change
    by (auto simp: pending_ok_def pending_profile_def pending_credential_def intro: credential_deleted saved_ok split: if_splits)
  then show ?thesis using s(3) by auto
qed

lemma deletion_ok:
  assumes "store_ok v ids s"
  shows "store_ok v ids (fst (deleteConnection c a i s))"
proof -
  have "store_ok v ids (fst (in_transaction (\<lambda>s. recorded c e (credential_delete i (profile_delete i s))) s))" for i e
    by (rule in_transaction_kept [where P = "store_ok v ids", OF assms], erule recorded_ok,
        intro credential_deleted profile_deleted assms)
  then show ?thesis using assms by (cases "requireConnection i s") (simp_all add: deleteConnection_def)
qed

lemma left_ok:
  assumes "store_ok v ids s" "\<forall>p \<in> set ps. profile_ok ids p" "leave_group now g ps s = Inr s'"
  shows "store_ok v ids s'"
proof -
  have "case foldl (\<lambda>r p. and_then r (\<lambda>s. if pf_group p = Some g
          then raw_error (profile_update (p\<lparr>pf_group := None, pf_updatedAt := now\<rparr>) s) else Inr s)) r ps of
        Inl e \<Rightarrow> True | Inr t \<Rightarrow> store_ok v ids t"
    if "case r of Inl e \<Rightarrow> True | Inr t \<Rightarrow> store_ok v ids t" for r
    using that assms(2)
  proof (induction ps arbitrary: r)
    case (Cons p ps)
    have "profile_ok ids (p\<lparr>pf_group := None, pf_updatedAt := now\<rparr>)"
      using without_group [of ids p] Cons.prems(2)
      by (simp add: profile_ok_def valid_profile_def merged_input_def tlsOptionsFromConnection_def)
    then show ?case unfolding foldl.simps
      using Cons.prems by (intro Cons.IH) (auto intro: profile_updated simp: and_then_Inr split: sum.splits)
  qed simp
  from this [of "Inr s"] show ?thesis using assms(1,3) by (simp add: leave_group_def)
qed

lemma own_profiles_ok: "store_ok v ids s \<Longrightarrow> p \<in> set (listByOwner u s) \<Longrightarrow> profile_ok ids p"
  by (auto simp: listByOwner_def store_ok_def rows_ok_def)

lemma group_deletion_ok:
  assumes "store_ok v ids s"
  shows "store_ok v ids (fst (deleteGroup c now a i s))"
proof -
  have "store_ok v ids (fst (in_transaction (\<lambda>s. and_then (leave_group now j (listByOwner (ma_id a) s) s) (\<lambda>s1.
      recorded c e (group_delete j s1))) s))" for j e
    by (rule in_transaction_kept [where P = "store_ok v ids", OF assms])
      (auto simp: and_then_Inr intro: group_deleted left_ok [OF assms] own_profiles_ok [OF assms] elim!: recorded_ok)
  then show ?thesis using assms
    by (auto simp: deleteGroup_def split: sum.split)
qed

lemma group_creation_ok:
  assumes "store_ok v ids s" "map_of ids j = Some (ma_id a)"
  shows "store_ok v ids (fst (createGroup j a name color order s))"
proof -
  have "group_ok ids \<lparr>gr_id = j, gr_owner = ma_id a, gr_name = n, gr_color = x, gr_sortOrder = k\<rparr>" for n x k
    using assms(2) by (simp add: group_ok_def belongs_def)
  from group_created [OF assms(1) this]
  have "store_ok v ids (fst (in_transaction (\<lambda>s. from_store (group_create
      \<lparr>gr_id = j, gr_owner = ma_id a, gr_name = n, gr_color = x, gr_sortOrder = k\<rparr> s)) s))" for n x k
    by (intro in_transaction_kept [where P = "store_ok v ids", OF assms(1)]) auto
  then show ?thesis using assms(1) by (simp add: createGroup_def split: sum.split)
qed

lemma group_change_ok:
  assumes "store_ok v ids s"
  shows "store_ok v ids (fst (updateGroup a i name color order s))"
proof -
  have "store_ok v ids (fst (in_transaction (\<lambda>s. from_store (group_update g s)) s))" for g
    by (rule in_transaction_kept [where P = "store_ok v ids", OF assms]) (auto intro: group_updated [OF assms])
  then show ?thesis using assms by (auto simp: updateGroup_def split: sum.split)
qed

section \<open>What is pending\<close>

lemma encrypted_bound: "encryptWithRedaction v rnd i w = Inr e \<Longrightarrow> bound v i e"
  by (auto simp: encryptWithRedaction_def bound_def split: sum.splits)

lemma copied_bound: "vault_ok v \<Longrightarrow> bound v i e \<Longrightarrow> copyCredential v rnd i j e = Inr e' \<Longrightarrow> bound v j e'"
  by (auto simp: copyCredential_def bound_def decrypted_back split: sum.splits)

lemma maybe_Inr: "maybe_throw x f = Inr y \<Longrightarrow> y = Some e \<Longrightarrow> \<exists>a. x = Some a \<and> f a = Inr e"
  by (auto simp: maybe_throw_def split: option.splits sum.splits)

lemma normal_profile:
  assumes "validateConnectionInput i = Inr c"
  shows "valid_profile (toConnection j u c now created)"
proof -
  have n: "normal_input c" by (rule validated_normal [OF assms])
  let ?tls = "tlsOptionsFromConnection (toConnection j u c now created)"
  have tls: "cleanTlsOptions ?tls = cleanTlsOptions (ci_tls c) \<and> (?tls = None \<or> ?tls = ci_tls c)"
  proof (cases "ci_tls c")
    case None
    then show ?thesis by (simp add: toConnection_def tlsOptionsFromConnection_def cleanTlsOptions_def)
  next
    case (Some t)
    then have "normal_tls t" using n by (simp add: normal_input_def)
    then show ?thesis using Some
      by (cases "tl_ca t"; cases "tl_serverName t"; cases t)
        (auto simp: toConnection_def tlsOptionsFromConnection_def cleanTlsOptions_def text_field_def normal_tls_def Let_def)
  qed
  have "merged_input no_patch (toConnection j u c now created) = c\<lparr>ci_tls := ?tls\<rparr>"
    by (simp add: merged_input_def no_patch_def or_old_def toConnection_def)
  moreover have "normal_input (c\<lparr>ci_tls := ?tls\<rparr>)" using n tls by (auto simp: normal_input_def)
  ultimately show ?thesis using tls by (simp add: valid_profile_def) (simp add: toConnection_def)
qed

lemma own_group:
  assumes "store_ok v ids s" "assertGroupBelongsToActor a g s = Inr ()"
  shows "belongs ids (ma_id a) g"
proof (cases g)
  case (Some i)
  then obtain h where "group_find i s = Some h" "gr_owner h = ma_id a"
    using assms(2) by (auto simp: assertGroupBelongsToActor_def and_then_Inr requireGroup_def assertGroupOwner_def
        split: option.splits if_splits)
  moreover from this(1) have "h \<in> set (ps_groups s)" "gr_id h = i"
    using find_member [of _ "ps_groups s" h] unfolding group_find_def by blast+
  ultimately show ?thesis using assms(1) by (auto simp: store_ok_def rows_ok_def group_ok_def Some belongs_def)
qed (simp add: belongs_def)


lemma creation_pending:
  assumes "store_ok v ids s" "map_of ids j = Some (ma_id a)" "createConnection v rnd now j a input secret save s = Inr x"
  shows "pending_ok v ids (a, x)"
proof -
  obtain c cred ds where c: "validateConnectionInput input = Inr c" "assertGroupBelongsToActor a (ci_group c) s = Inr ()"
    "maybe_throw (if save then secret else None) (encryptWithRedaction v rnd j) = Inr cred"
    "x = Insert (toConnection j (ma_id a) c now now) cred ds"
    using assms(3) by (auto simp: createConnection_def and_then_Inr Let_def toConnection_def split: if_split_asm)
  have "profile_ok ids (toConnection j (ma_id a) c now now)"
    using normal_profile [OF c(1)] own_group [OF assms(1) c(2)] assms(2)
    by (simp add: profile_ok_def belongs_def) (simp add: toConnection_def)
  then show ?thesis using c(3,4) encrypted_bound maybe_Inr
    by (fastforce simp: pending_ok_def pending_profile_def pending_credential_def toConnection_def)
qed

lemma found_profile:
  assumes "store_ok v ids s" "requireConnection i s = Inr p"
  shows "p \<in> set (ps_profiles s)" "pf_id p = i" "profile_ok ids p"
proof -
  have "profile_find i s = Some p" using assms(2) by (simp add: requireConnection_def split: option.splits)
  then show "p \<in> set (ps_profiles s)" "pf_id p = i" using find_member unfolding profile_find_def by fastforce+
  then show "profile_ok ids p" using assms(1) by (simp add: store_ok_def rows_ok_def)
qed

lemma owner_checked: "assertConnectionOwner a p = Inr () \<Longrightarrow> pf_owner p = ma_id a"
  by (simp add: assertConnectionOwner_def split: if_splits)

lemma update_pending:
  assumes "store_ok v ids s" "updateConnection v rnd now a i q s = Inr x"
  shows "pending_ok v ids (a, x)"
proof -
  obtain old c cred where c: "requireConnection i s = Inr old" "assertConnectionOwner a old = Inr ()"
    "validateConnectionInput (merged_input q old) = Inr c" "assertGroupBelongsToActor a (ci_group c) s = Inr ()"
    "maybe_throw (if cp_clearSecret q then None else cp_secret q) (encryptWithRedaction v rnd (pf_id old)) = Inr cred"
    "x = Change (toConnection (pf_id old) (pf_owner old) c now (pf_createdAt old)) cred (cp_clearSecret q) (cp_secret q \<noteq> None \<or> cp_clearSecret q)"
    using assms(2) by (auto simp: updateConnection_def and_then_Inr Let_def toConnection_def split: if_split_asm)
  have "belongs ids (ma_id a) (Some (pf_id old))"
    using found_profile(3) [OF assms(1) c(1)] owner_checked [OF c(2)] by (simp add: profile_ok_def)
  then have "profile_ok ids (toConnection (pf_id old) (pf_owner old) c now (pf_createdAt old))"
    using normal_profile [OF c(3)] own_group [OF assms(1) c(4)] owner_checked [OF c(2)]
    by (simp add: profile_ok_def) (simp add: toConnection_def)
  then show ?thesis using c(5,6) encrypted_bound maybe_Inr owner_checked [OF c(2)]
    by (fastforce simp: pending_ok_def pending_profile_def pending_credential_def toConnection_def)
qed

lemma copy_pending:
  assumes "vault_ok v" "store_ok v ids s" "map_of ids j = Some (ma_id a)" "duplicateConnection v rnd now j a i label copy s = Inr x"
  shows "pending_ok v ids (a, x)"
proof -
  obtain old cred ds where c: "requireConnection i s = Inr old" "assertConnectionOwner a old = Inr ()"
    "js_trim label \<noteq> []" "length (js_trim label) \<le> 128"
    "maybe_throw (if copy then map_option cr_encrypted (credential_get (pf_id old) s) else None) (copyCredential v rnd (pf_id old) j) = Inr cred"
    "x = Insert (old\<lparr>pf_id := j, pf_label := js_trim label, pf_createdAt := now, pf_updatedAt := now\<rparr>) cred ds"
    using assms(4) by (auto simp: duplicateConnection_def and_then_Inr Let_def split: if_split_asm)
  have "profile_ok ids (old\<lparr>pf_id := j, pf_label := js_trim label, pf_createdAt := now, pf_updatedAt := now\<rparr>)"
    using found_profile(3) [OF assms(2) c(1)] owner_checked [OF c(2)] assms(3) c(3,4)
    by (auto simp: profile_ok_def valid_profile_def belongs_def merged_input_def no_patch_def or_old_def normal_input_def
        tlsOptionsFromConnection_def)
  moreover have "bound v j e" if some: "cred = Some e" for e
  proof -
    obtain r where r: "credential_get (pf_id old) s = Some r" "copyCredential v rnd (pf_id old) j (cr_encrypted r) = Inr e"
      using maybe_Inr [OF c(5) some] by (auto split: if_splits)
    then have "r \<in> set (ps_credentials s)" "cr_connection r = pf_id old"
      using find_member unfolding credential_get_def by fastforce+
    then have "bound v (pf_id old) (cr_encrypted r)" using assms(2) by (auto simp: store_ok_def rows_ok_def credential_ok_def)
    then show ?thesis using r(2) by (rule copied_bound [OF assms(1)])
  qed
  ultimately show ?thesis using c(6) owner_checked [OF c(2)]
    by (simp add: pending_ok_def pending_profile_def pending_credential_def)
qed

section \<open>Every event keeps it\<close>

lemma belongs_more: "map_of ids i = None \<Longrightarrow> belongs ids u x \<Longrightarrow> belongs ((i, w) # ids) u x"
  by (auto simp: belongs_def)

lemma store_ok_more: "map_of ids i = None \<Longrightarrow> store_ok v ids s \<Longrightarrow> store_ok v ((i, w) # ids) s"
  by (auto simp: store_ok_def rows_ok_def profile_ok_def group_ok_def intro: belongs_more)

lemma pending_ok_more: "map_of ids i = None \<Longrightarrow> list_all (pending_ok v ids) xs \<Longrightarrow> list_all (pending_ok v ((i, w) # ids)) xs"
  by (auto simp: list_all_iff pending_ok_def profile_ok_def intro: belongs_more)

lemma begin_ok:
  "manager_ok v m \<Longrightarrow> (\<And>x. r = Inr x \<Longrightarrow> pending_ok v (ms_ids m) (a, x)) \<Longrightarrow> manager_ok v (begin_change a r m)"
  by (auto simp: begin_change_def manager_ok_def split: sum.splits)

lemma with_id_ok:
  assumes "manager_ok v m" "\<And>m'. manager_ok v m' \<Longrightarrow> ms_store m' = ms_store m \<Longrightarrow> map_of (ms_ids m') i = Some (ma_id a) \<Longrightarrow> manager_ok v (f m')"
  shows "manager_ok v (with_id i a f m)"
proof (cases "map_of (ms_ids m) i")
  case None
  then have "manager_ok v (m\<lparr>ms_ids := (i, ma_id a) # ms_ids m\<rparr>)"
    using assms(1) by (simp add: manager_ok_def store_ok_more pending_ok_more)
  then show ?thesis using assms(2) None by (simp add: with_id_def)
qed (use assms(1) in \<open>simp add: with_id_def\<close>)

lemma store_event_ok:
  "manager_ok v m \<Longrightarrow> (store_ok v (ms_ids m) (ms_store m) \<Longrightarrow> store_ok v (ms_ids m) s) \<Longrightarrow> manager_ok v (m\<lparr>ms_store := s\<rparr>)"
  by (simp add: manager_ok_def)

lemma store_of_ok: "manager_ok v m \<Longrightarrow> store_ok v (ms_ids m) (ms_store m)"
  by (simp add: manager_ok_def)


lemma manager_step_ok:
  assumes "vault_ok v" "manager_ok v m"
  shows "manager_ok v (manager_step v m e)"
proof (cases "(v, m, e)" rule: manager_step.cases)
  case (1 v' m' a rnd now j input secret save)
  have "pending_ok v (ms_ids n) (a, x)"
    if "manager_ok v n" "ms_store n = ms_store m" "map_of (ms_ids n) j = Some (ma_id a)"
      "createConnection v rnd now j a input secret save (ms_store m) = Inr x" for n x
    using creation_pending [OF _ that(3,4)] store_of_ok [OF that(1)] that(2) by simp
  then show ?thesis using 1 assms by (auto intro!: with_id_ok begin_ok)
next
  case (2 v' m' a rnd now i q)
  then show ?thesis using assms by (auto intro!: begin_ok update_pending store_of_ok)
next
  case (3 v' m' a rnd now j i label copy)
  have "pending_ok v (ms_ids n) (a, x)"
    if "manager_ok v n" "ms_store n = ms_store m" "map_of (ms_ids n) j = Some (ma_id a)"
      "duplicateConnection v rnd now j a i label copy (ms_store m) = Inr x" for n x
    using copy_pending [OF assms(1) _ that(3,4)] store_of_ok [OF that(1)] that(2) by simp
  then show ?thesis using 3 assms by (auto intro!: with_id_ok begin_ok)
next
  case (4 v' m' a k c)
  obtain b x where x: "k < length (ms_pending m) \<Longrightarrow> ms_pending m ! k = (b, x)" by (cases "ms_pending m ! k") auto
  have "store_ok v (ms_ids m) (fst (in_transaction (perform c b x) (ms_store m)))" if k: "k < length (ms_pending m)"
  proof (rule in_transaction_kept)
    have "(b, x) \<in> set (ms_pending m)" using x [OF k] k nth_mem by fastforce
    then have "pending_ok v (ms_ids m) (b, x)" using assms(2) by (auto simp: manager_ok_def list_all_iff)
    then show "store_ok v (ms_ids m) s'" if "perform c b x (ms_store m) = Inr s'" for s'
      using performed_ok that store_of_ok [OF assms(2)] by blast
  qed (rule store_of_ok [OF assms(2)])
  moreover have "list_all (pending_ok v (ms_ids m)) (take k (ms_pending m) @ drop (Suc k) (ms_pending m))"
    using assms(2) by (auto simp: manager_ok_def list_all_iff dest: in_set_takeD in_set_dropD)
  ultimately show ?thesis using 4 assms(2) x by (simp add: manager_ok_def)
next
  case (5 v' m' a i c)
  then show ?thesis using assms by (auto intro!: store_event_ok deletion_ok)
next
  case (6 v' m' a j name color order)
  then show ?thesis using assms by (auto intro!: with_id_ok store_event_ok group_creation_ok)
next
  case (7 v' m' a i name color order)
  then show ?thesis using assms by (auto intro!: store_event_ok group_change_ok)
next
  case (8 v' m' a i now c)
  then show ?thesis using assms by (auto intro!: store_event_ok group_deletion_ok)
qed

interpretation manager: handler_invariant "manager_step v" "\<lambda>m. vault_ok v \<and> manager_ok v m" for v
  by unfold_locales (simp add: manager_step_ok)

lemma fresh_ok: "manager_ok v (fresh_manager d)"
  by (simp add: fresh_manager_def manager_ok_def store_ok_def unique_rows_def rows_ok_def)

lemma reached_ok: "vault_ok v \<Longrightarrow> manager_ok v (foldl (manager_step v) (fresh_manager d) es)"
  using manager.run_inv [of v "fresh_manager d" es] fresh_ok by blast


section \<open>Whose rows change\<close>

definition profiles_of :: "string \<Rightarrow> profile_store \<Rightarrow> profile list" where
  "profiles_of u s = filter (\<lambda>p. pf_owner p = u) (ps_profiles s)"

definition own_groups :: "string \<Rightarrow> profile_store \<Rightarrow> server_group list" where
  "own_groups u s = filter (\<lambda>g. gr_owner g = u) (ps_groups s)"

definition passwords_of :: "string \<Rightarrow> profile_store \<Rightarrow> credential_row list" where
  "passwords_of u s = filter (\<lambda>r. cr_connection r \<in> pf_id ` set (profiles_of u s)) (ps_credentials s)"

definition rows_of :: "string \<Rightarrow> profile_store \<Rightarrow> profile list \<times> server_group list \<times> credential_row list" where
  "rows_of u s = (profiles_of u s, own_groups u s, passwords_of u s)"

text \<open>The actor on whose behalf an event works: the second half of a change works for the one who began it.\<close>

definition acts_for :: "manager_state \<Rightarrow> manager_actor \<times> manager_op \<Rightarrow> manager_actor" where
  "acts_for m e = (case e of (a, Perform k c) \<Rightarrow> if k < length (ms_pending m) then fst (ms_pending m ! k) else a | (a, _) \<Rightarrow> a)"

lemma filter_map_others:
  "(\<And>x. x \<in> set xs \<Longrightarrow> P x \<Longrightarrow> f x = x) \<Longrightarrow> (\<And>x. x \<in> set xs \<Longrightarrow> \<not> P x \<Longrightarrow> \<not> P (f x)) \<Longrightarrow> filter P (map f xs) = filter P xs"
  by (induction xs) auto

lemma foreign_id:
  assumes "store_ok v ids s" "belongs ids w (Some i)" "w \<noteq> u"
  shows "i \<notin> pf_id ` set (profiles_of u s)"
  using assms by (auto simp: store_ok_def rows_ok_def profile_ok_def belongs_def profiles_of_def)

lemma rows_of_db [simp]: "rows_of u (s\<lparr>ps_db := d\<rparr>) = rows_of u s"
  by (simp add: rows_of_def profiles_of_def own_groups_def passwords_of_def)

lemma rows_recorded: "recorded c e s = Inr s' \<Longrightarrow> rows_of u s' = rows_of u s"
  using recorded_kept by fastforce

lemma rows_same:
  "profiles_of u s' = profiles_of u s \<Longrightarrow> ps_groups s' = ps_groups s \<Longrightarrow> ps_credentials s' = ps_credentials s \<Longrightarrow> rows_of u s' = rows_of u s"
  by (simp add: rows_of_def own_groups_def passwords_of_def)

lemma rows_created: "profile_create p s = Inr s' \<Longrightarrow> pf_owner p \<noteq> u \<Longrightarrow> rows_of u s' = rows_of u s"
  by (rule rows_same) (auto simp: profile_create_def profiles_of_def split: if_splits)

lemma rows_updated:
  assumes "store_ok v ids s" "profile_ok ids p" "profile_update p s = Inr s'" "pf_owner p \<noteq> u"
  shows "rows_of u s' = rows_of u s"
proof (cases "profile_find (pf_id p) s = None")
  case False
  then have s': "s' = s\<lparr>ps_profiles := map (\<lambda>q. if pf_id q = pf_id p then p\<lparr>pf_createdAt := pf_createdAt q\<rparr> else q) (ps_profiles s)\<rparr>"
    using assms(3) by (auto simp: profile_update_def split: if_splits)
  have "pf_id p \<notin> pf_id ` set (profiles_of u s)"
    using assms(2,4) by (intro foreign_id [OF assms(1)]) (auto simp: profile_ok_def)
  then have "filter (\<lambda>p. pf_owner p = u) (map (\<lambda>q. if pf_id q = pf_id p then p\<lparr>pf_createdAt := pf_createdAt q\<rparr> else q) (ps_profiles s)) =
      profiles_of u s"
    using assms(4) unfolding profiles_of_def by (intro filter_map_others) (auto simp: image_iff)
  then have "profiles_of u s' = profiles_of u s" by (simp add: s' profiles_of_def)
  then show ?thesis by (rule rows_same) (simp_all add: s')
qed (use assms(3) in \<open>simp add: profile_update_def\<close>)

lemma rows_saved:
  assumes "credential_upsert r s = Inr s'" "cr_connection r \<notin> pf_id ` set (profiles_of u s)"
  shows "rows_of u s' = rows_of u s"
proof -
  let ?put = "\<lambda>q. if cr_connection q = cr_connection r then r\<lparr>cr_createdAt := cr_createdAt q\<rparr> else q"
  have "s' = s\<lparr>ps_credentials := ps_credentials s @ [r]\<rparr> \<or> s' = s\<lparr>ps_credentials := map ?put (ps_credentials s)\<rparr>"
    using assms(1) by (auto simp: credential_upsert_def split: if_splits)
  moreover have "filter (\<lambda>r. cr_connection r \<in> pf_id ` set (profiles_of u s)) (map ?put (ps_credentials s)) = passwords_of u s"
    unfolding passwords_of_def using assms(2) by (intro filter_map_others) auto
  moreover have "profiles_of u (s\<lparr>ps_credentials := x\<rparr>) = profiles_of u s" for x by (simp add: profiles_of_def)
  ultimately show ?thesis using assms(2) by (auto simp: rows_of_def passwords_of_def own_groups_def)
qed

lemma rows_forgotten:
  assumes "i \<notin> pf_id ` set (profiles_of u s)"
  shows "rows_of u (credential_delete i s) = rows_of u s"
proof -
  have "profiles_of u (credential_delete i s) = profiles_of u s" by (simp add: profiles_of_def credential_delete_def)
  then show ?thesis using assms
    by (auto simp: rows_of_def passwords_of_def own_groups_def credential_delete_def intro: filter_cong)
qed

lemma rows_removed:
  assumes "i \<notin> pf_id ` set (profiles_of u s)"
  shows "rows_of u (profile_delete i s) = rows_of u s"
proof -
  let ?s = "s\<lparr>ps_profiles := filter (\<lambda>p. pf_id p \<noteq> i) (ps_profiles s)\<rparr>"
  have "profiles_of u ?s = profiles_of u s" using assms by (auto simp: profiles_of_def intro: filter_cong)
  then have "rows_of u ?s = rows_of u s" "i \<notin> pf_id ` set (profiles_of u ?s)"
    using assms by (simp_all add: rows_of_def passwords_of_def own_groups_def)
  then show ?thesis by (simp add: profile_delete_def rows_forgotten)
qed

lemma rows_group_created: "group_create g s = Inr s' \<Longrightarrow> gr_owner g \<noteq> u \<Longrightarrow> rows_of u s' = rows_of u s"
  by (auto simp: group_create_def rows_of_def profiles_of_def own_groups_def passwords_of_def split: if_splits)


lemma rows_group_updated:
  assumes "group_update g s = Inr s'" "\<forall>h \<in> set (ps_groups s). gr_id h = gr_id g \<longrightarrow> gr_owner h \<noteq> u"
  shows "rows_of u s' = rows_of u s"
proof -
  let ?put = "\<lambda>h. if gr_id h = gr_id g then h\<lparr>gr_name := gr_name g, gr_color := gr_color g, gr_sortOrder := gr_sortOrder g\<rparr> else h"
  have "s' = s \<or> s' = s\<lparr>ps_groups := map ?put (ps_groups s)\<rparr>"
    using assms(1) by (auto simp: group_update_def split: option.splits if_splits)
  moreover have "filter (\<lambda>g. gr_owner g = u) (map ?put (ps_groups s)) = filter (\<lambda>g. gr_owner g = u) (ps_groups s)"
    by (rule filter_map_others) (use assms(2) in auto)
  ultimately have "own_groups u s' = own_groups u s" "ps_profiles s' = ps_profiles s" "ps_credentials s' = ps_credentials s"
    by (auto simp: own_groups_def)
  then show ?thesis by (simp add: rows_of_def passwords_of_def profiles_of_def)
qed

lemma rows_group_deleted:
  assumes "store_ok v ids s" "belongs ids w (Some i)" "w \<noteq> u"
  shows "rows_of u (group_delete i s) = rows_of u s"
proof -
  have "\<forall>p \<in> set (ps_profiles s). pf_group p = Some i \<longrightarrow> pf_owner p \<noteq> u"
    "\<forall>g \<in> set (ps_groups s). gr_id g = i \<longrightarrow> gr_owner g \<noteq> u"
    using assms by (auto simp: store_ok_def rows_ok_def profile_ok_def group_ok_def belongs_def)
  then have "filter (\<lambda>p. pf_owner p = u) (map (\<lambda>p. if pf_group p = Some i then p\<lparr>pf_group := None\<rparr> else p) (ps_profiles s)) =
      filter (\<lambda>p. pf_owner p = u) (ps_profiles s)"
    "own_groups u (group_delete i s) = own_groups u s"
    by (intro filter_map_others, auto simp: own_groups_def group_delete_def intro!: filter_cong)
  then have "profiles_of u (group_delete i s) = profiles_of u s" "own_groups u (group_delete i s) = own_groups u s"
    by (simp_all add: profiles_of_def group_delete_def)
  then show ?thesis by (simp add: rows_of_def passwords_of_def) (simp add: group_delete_def)
qed

lemma rows_left:
  assumes "store_ok v ids s" "\<forall>p \<in> set ps. profile_ok ids p \<and> pf_owner p \<noteq> u" "leave_group now g ps s = Inr s'"
  shows "rows_of u s' = rows_of u s"
proof -
  have "case foldl (\<lambda>r p. and_then r (\<lambda>s. if pf_group p = Some g
          then raw_error (profile_update (p\<lparr>pf_group := None, pf_updatedAt := now\<rparr>) s) else Inr s)) r ps of
        Inl e \<Rightarrow> True | Inr t \<Rightarrow> rows_of u t = rows_of u s"
    if "case r of Inl e \<Rightarrow> True | Inr t \<Rightarrow> store_ok v ids t \<and> rows_of u t = rows_of u s" for r
    using that assms(2)
  proof (induction ps arbitrary: r)
    case (Cons p ps)
    have "profile_ok ids (p\<lparr>pf_group := None, pf_updatedAt := now\<rparr>)"
      using without_group [of ids p] Cons.prems(2)
      by (simp add: profile_ok_def valid_profile_def merged_input_def tlsOptionsFromConnection_def)
    then show ?case unfolding foldl.simps
      using Cons.prems by (intro Cons.IH) (auto simp: and_then_Inr rows_updated intro: profile_updated split: sum.splits)
  qed (auto split: sum.splits)
  from this [of "Inr s"] show ?thesis using assms(1,3) by (simp add: leave_group_def)
qed

lemma rows_credential:
  assumes "store_ok v ids s" "belongs ids (pf_owner p) (Some (pf_id p))" "pf_owner p \<noteq> u" "save_credential now p x s = Inr s'"
  shows "rows_of u s' = rows_of u s"
  using assms(4) rows_saved [of "\<lparr>cr_connection = pf_id p, cr_encrypted = the x, cr_createdAt = now, cr_updatedAt = now\<rparr>" s s' u]
    foreign_id [OF assms(1-3)]
  by (auto simp: save_credential_def split: option.splits)

lemma rows_performed:
  assumes "store_ok v ids s" "pending_ok v ids (a, x)" "perform c a x s = Inr s'" "ma_id a \<noteq> u"
  shows "rows_of u s' = rows_of u s"
proof (cases x)
  case (Insert p e ds)
  then obtain s1 s2 where s: "profile_create p s = Inr s1" "save_credential (pf_updatedAt p) p e s1 = Inr s2"
    "rows_of u s' = rows_of u s2"
    using assms(3) by (auto simp: and_then_Inr dest!: rows_recorded)
  have p: "profile_ok ids p" "pf_owner p \<noteq> u" "belongs ids (pf_owner p) (Some (pf_id p))"
    using assms(2,4) Insert by (auto simp: pending_ok_def pending_profile_def profile_ok_def)
  have "store_ok v ids s1" by (rule profile_created [OF assms(1) p(1) s(1)])
  from rows_credential [OF this p(3,2) s(2)] show ?thesis using rows_created [OF s(1) p(2)] s(3) by simp
next
  case (Change p e clear changed)
  then obtain s1 s2 where s: "profile_update p s = Inr s1"
    "(if clear then Inr (credential_delete (pf_id p) s1) else save_credential (pf_updatedAt p) p e s1) = Inr s2"
    "rows_of u s' = rows_of u s2"
    using assms(3) by (auto simp: and_then_Inr dest!: rows_recorded)
  have p: "profile_ok ids p" "pf_owner p \<noteq> u" "belongs ids (pf_owner p) (Some (pf_id p))"
    using assms(2,4) Change by (auto simp: pending_ok_def pending_profile_def profile_ok_def)
  have o: "store_ok v ids s1" by (rule profile_updated [OF assms(1) p(1) s(1)])
  have "rows_of u s2 = rows_of u s1"
    using s(2) rows_credential [OF o p(3,2)] rows_forgotten [OF foreign_id [OF o p(3,2)]] by (auto split: if_splits)
  then show ?thesis using rows_updated [OF assms(1) p(1) s(1) p(2)] s(3) by simp
qed


lemma rows_kept_in_transaction: "(\<And>s'. f s = Inr s' \<Longrightarrow> rows_of u s' = rows_of u s) \<Longrightarrow> rows_of u (fst (in_transaction f s)) = rows_of u s"
  by (simp add: in_transaction_def split: sum.split)

lemma rows_deleted:
  assumes "store_ok v ids s" "ma_id a \<noteq> u" "ma_role a \<noteq> RoleAdmin"
  shows "rows_of u (fst (deleteConnection c a i s)) = rows_of u s"
proof (cases "requireConnection i s")
  case (Inr p)
  show ?thesis
  proof (cases "ma_id a = pf_owner p")
    case True
    have "i \<notin> pf_id ` set (profiles_of u s)"
      using found_profile [OF assms(1) Inr] True assms(2) by (intro foreign_id [OF assms(1)]) (auto simp: profile_ok_def)
    then have gone: "rows_of u (credential_delete i (profile_delete i s)) = rows_of u s"
      using rows_removed [of i u s] by (subst rows_forgotten) (auto simp: rows_of_def)
    have "rows_of u (fst (in_transaction (\<lambda>s. recorded c e (credential_delete i (profile_delete i s))) s)) = rows_of u s" for e
      by (rule rows_kept_in_transaction, erule rows_recorded [THEN trans], rule gone)
    then show ?thesis using Inr found_profile(2) [OF assms(1) Inr] True by (simp add: deleteConnection_def)
  qed (use Inr assms(3) in \<open>simp add: deleteConnection_def\<close>)
qed (simp add: deleteConnection_def)

lemma rows_group_creation:
  assumes "ma_id a \<noteq> u"
  shows "rows_of u (fst (createGroup j a name color order s)) = rows_of u s"
  using assms by (auto simp: createGroup_def intro!: rows_kept_in_transaction rows_group_created split: sum.split)

lemma found_group:
  assumes "store_ok v ids s" "requireGroup i s = Inr g"
  shows "gr_id g = i" "belongs ids (gr_owner g) (Some i)" "\<forall>h \<in> set (ps_groups s). gr_id h = i \<longrightarrow> gr_owner h = gr_owner g"
proof -
  have "group_find i s = Some g" using assms(2) by (simp add: requireGroup_def split: option.splits)
  then have g: "g \<in> set (ps_groups s)" "gr_id g = i" using find_member unfolding group_find_def by fastforce+
  have o: "\<forall>h \<in> set (ps_groups s). map_of ids (gr_id h) = Some (gr_owner h)"
    using assms(1) by (simp add: store_ok_def rows_ok_def group_ok_def belongs_def)
  show "gr_id g = i" "belongs ids (gr_owner g) (Some i)" using g o by (auto simp: belongs_def)
  show "\<forall>h \<in> set (ps_groups s). gr_id h = i \<longrightarrow> gr_owner h = gr_owner g"
    using g o by (metis option.inject)
qed

lemma group_owner_checked: "assertGroupOwner a g = Inr () \<Longrightarrow> gr_owner g = ma_id a"
  by (simp add: assertGroupOwner_def split: if_splits)

lemma rows_group_change:
  assumes "store_ok v ids s" "ma_id a \<noteq> u"
  shows "rows_of u (fst (updateGroup a i name color order s)) = rows_of u s"
proof -
  have "rows_of u (fst (in_transaction (\<lambda>s. from_store (group_update h s)) s)) = rows_of u s"
    if "requireGroup i s = Inr g" "assertGroupOwner a g = Inr ()" "gr_id h = gr_id g" for g h
    using that(3) found_group [OF assms(1) that(1)] group_owner_checked [OF that(2)] assms(2)
    by (intro rows_kept_in_transaction) (auto intro: rows_group_updated)
  then show ?thesis by (fastforce simp: updateGroup_def and_then_Inr split: sum.split)
qed

lemma rows_group_deletion:
  assumes "store_ok v ids s" "ma_id a \<noteq> u"
  shows "rows_of u (fst (deleteGroup c now a i s)) = rows_of u s"
proof -
  have "rows_of u (fst (in_transaction (\<lambda>s. and_then (leave_group now (gr_id g) (listByOwner (ma_id a) s) s) (\<lambda>s1.
      recorded c e (group_delete (gr_id g) s1))) s)) = rows_of u s"
    if g: "requireGroup i s = Inr g" "assertGroupOwner a g = Inr ()" for g e
  proof (rule rows_kept_in_transaction)
    fix s'
    assume "and_then (leave_group now (gr_id g) (listByOwner (ma_id a) s) s) (\<lambda>s1. recorded c e (group_delete (gr_id g) s1)) = Inr s'"
    then obtain s1 where s: "leave_group now (gr_id g) (listByOwner (ma_id a) s) s = Inr s1" "rows_of u s' = rows_of u (group_delete (gr_id g) s1)"
      by (auto simp: and_then_Inr dest: rows_recorded)
    have o: "\<forall>p \<in> set (listByOwner (ma_id a) s). profile_ok ids p \<and> pf_owner p \<noteq> u"
      using assms own_profiles_ok [OF assms(1)] by (auto simp: listByOwner_def)
    then have "store_ok v ids s1" by (intro left_ok [OF assms(1) _ s(1)]) blast
    then have "rows_of u (group_delete (gr_id g) s1) = rows_of u s1"
      using found_group(1,2) [OF assms(1) g(1)] group_owner_checked [OF g(2)] assms(2) by (auto intro: rows_group_deleted)
    then show "rows_of u s' = rows_of u s" using rows_left [OF assms(1) o s(1)] s(2) by simp
  qed
  then show ?thesis by (auto simp: deleteGroup_def and_then_Inr split: sum.split)
qed

lemma begun_store [simp]: "ms_store (begin_change a r m) = ms_store m"
  by (simp add: begin_change_def split: sum.split)


lemma with_id_rows: "(\<And>n. ms_store n = ms_store m \<Longrightarrow> rows_of u (ms_store (f n)) = rows_of u (ms_store m)) \<Longrightarrow> rows_of u (ms_store (with_id i a f m)) = rows_of u (ms_store m)"
  by (simp add: with_id_def)

lemma rows_of_others:
  assumes "vault_ok v" "manager_ok v m" "ma_id (acts_for m e) \<noteq> u" "\<And>i c. snd e = DeleteConnection i c \<Longrightarrow> ma_role (fst e) \<noteq> RoleAdmin"
  shows "rows_of u (ms_store (manager_step v m e)) = rows_of u (ms_store m)"
proof (cases "(v, m, e)" rule: manager_step.cases)
  case (4 v' m' a k c)
  obtain b x where x: "k < length (ms_pending m) \<Longrightarrow> ms_pending m ! k = (b, x)" by (cases "ms_pending m ! k") auto
  have "rows_of u (fst (in_transaction (perform c b x) (ms_store m))) = rows_of u (ms_store m)" if k: "k < length (ms_pending m)"
  proof (rule rows_kept_in_transaction)
    have "(b, x) \<in> set (ms_pending m)" using x [OF k] k nth_mem by fastforce
    then have "pending_ok v (ms_ids m) (b, x)" using assms(2) by (auto simp: manager_ok_def list_all_iff)
    then show "rows_of u s' = rows_of u (ms_store m)" if "perform c b x (ms_store m) = Inr s'" for s'
      using rows_performed [OF store_of_ok [OF assms(2)] _ that] assms(3) 4 x k by (auto simp: acts_for_def)
  qed
  then show ?thesis using 4 x by simp
qed (use assms store_of_ok [OF assms(2)] in \<open>auto simp: acts_for_def intro!: with_id_rows intro: rows_deleted rows_group_creation rows_group_change rows_group_deletion\<close>)

section \<open>Properties\<close>

text \<open>
  Whatever users ask for and however the halves of their changes interleave, a saved password
  belongs to a connection that exists, can be decrypted for it, and is refused under the id of any other
  connection.
\<close>

theorem saved_passwords_stay_bound:
  assumes "vault_ok v" "m = foldl (manager_step v) (fresh_manager d) es" "r \<in> set (ps_credentials (ms_store m))"
  shows "(\<exists>p \<in> set (ps_profiles (ms_store m)). pf_id p = cr_connection r)
    \<and> (\<exists>w. decryptCredential v (cr_connection r) (cr_encrypted r) = Inr (password_payload w))
    \<and> (\<forall>i. i \<noteq> cr_connection r \<longrightarrow> isl (decryptCredential v i (cr_encrypted r)))"
proof -
  have "credential_ok v (ms_store m) r"
    using reached_ok [OF assms(1)] assms(2,3) by (simp add: manager_ok_def store_ok_def rows_ok_def)
  then obtain rnd w where e: "encryptCredential v rnd (cr_connection r) (password_payload w) = Inr (cr_encrypted r)"
    and p: "profile_find (cr_connection r) (ms_store m) \<noteq> None"
    unfolding credential_ok_def bound_def by blast
  have "\<exists>p \<in> set (ps_profiles (ms_store m)). pf_id p = cr_connection r" using p by (auto simp: profile_known)
  moreover have "isl (decryptCredential v i (cr_encrypted r))" if "i \<noteq> cr_connection r" for i
    using not_for_others [OF assms(1) e that] by (metis sum.disc(1))
  ultimately show ?thesis using decrypted_back [OF assms(1) e] by blast
qed

text \<open>
  Claim C30: over every history that starts without connections, no request and no delayed half of one
  changes the connections, groups or saved passwords of a user it does not work for. The one exception is
  an administrator, who may delete a connection. The ids are never given twice, and the encryption
  keeps its laws (\<open>vault_ok\<close>).
\<close>

theorem others_keep_their_rows:
  assumes "vault_ok v" "m = foldl (manager_step v) (fresh_manager d) es" "ma_id (acts_for m e) \<noteq> u"
    "\<And>i c. snd e = DeleteConnection i c \<Longrightarrow> ma_role (fst e) \<noteq> RoleAdmin"
  shows "rows_of u (ms_store (manager_step v m e)) = rows_of u (ms_store m)"
  using reached_ok [OF assms(1)] assms(2) by (intro rows_of_others assms) simp

text \<open>
  Every stored connection is one that the validation leaves as it is, its label is not used twice
  by its owner, and its group is a group of its owner.
\<close>

theorem stored_profiles_are_valid:
  assumes "vault_ok v" "m = foldl (manager_step v) (fresh_manager d) es" "p \<in> set (ps_profiles (ms_store m))"
  shows "validateConnectionInput (merged_input no_patch p) = Inr (merged_input no_patch p)
    \<and> (\<forall>q \<in> set (ps_profiles (ms_store m)). pf_owner q = pf_owner p \<and> pf_label q = pf_label p \<longrightarrow> q = p)
    \<and> (\<forall>i. pf_group p = Some i \<longrightarrow> (\<exists>g \<in> set (ps_groups (ms_store m)). gr_id g = i \<and> gr_owner g = pf_owner p))"
proof -
  have s: "store_ok v (ms_ids m) (ms_store m)" using reached_ok [OF assms(1)] assms(2) by (simp add: manager_ok_def)
  then have p: "profile_ok (ms_ids m) p" "known_group (pf_group p) (ms_store m)"
    using assms(3) by (simp_all add: store_ok_def rows_ok_def)
  have "\<exists>g \<in> set (ps_groups (ms_store m)). gr_id g = i \<and> gr_owner g = pf_owner p" if "pf_group p = Some i" for i
    using s p that by (fastforce simp: store_ok_def rows_ok_def group_ok_def profile_ok_def belongs_def known_group_iff)
  moreover have "q = p" if "q \<in> set (ps_profiles (ms_store m))" "pf_owner q = pf_owner p \<and> pf_label q = pf_label p" for q
    using s that assms(3) unfolding store_ok_def unique_rows_def distinct_map by (auto dest: inj_onD)
  ultimately show ?thesis using p(1) by (auto simp: profile_ok_def valid_profile_def normal_unchanged)
qed


lemma profile_found_after:
  assumes "profile_find (pf_id p) s = Some q" "profile_update p s = Inr s'"
  shows "profile_find (pf_id p) s' = Some (p\<lparr>pf_createdAt := pf_createdAt q\<rparr>)" "ps_credentials s' = ps_credentials s"
proof -
  have s': "s' = s\<lparr>ps_profiles := map (\<lambda>q. if pf_id q = pf_id p then p\<lparr>pf_createdAt := pf_createdAt q\<rparr> else q) (ps_profiles s)\<rparr>"
    using assms by (auto simp: profile_update_def split: if_splits)
  have "pf_id q = pf_id p" using find_member assms(1) unfolding profile_find_def by fastforce
  then show "profile_find (pf_id p) s' = Some (p\<lparr>pf_createdAt := pf_createdAt q\<rparr>)"
    using assms(1) by (simp add: s' profile_find_def find_map_kept)
qed (use assms in \<open>auto simp: profile_update_def split: if_splits\<close>)

lemma find_last: "find P xs = None \<Longrightarrow> P x \<Longrightarrow> find P (xs @ [x]) = Some x"
  by (induction xs) (auto split: if_splits)

lemma credential_found_after:
  assumes "credential_upsert r s = Inr s'"
  shows "map_option cr_encrypted (credential_get (cr_connection r) s') = Some (cr_encrypted r)" "ps_profiles s' = ps_profiles s"
proof -
  show "map_option cr_encrypted (credential_get (cr_connection r) s') = Some (cr_encrypted r)"
  proof (cases "credential_get (cr_connection r) s")
    case None
    then have "s' = s\<lparr>ps_credentials := ps_credentials s @ [r]\<rparr>" using assms by (auto simp: credential_upsert_def split: if_splits)
    then show ?thesis using None by (simp add: credential_get_def find_last)
  next
    case (Some q)
    then have s': "s' = s\<lparr>ps_credentials := map (\<lambda>q. if cr_connection q = cr_connection r then r\<lparr>cr_createdAt := cr_createdAt q\<rparr> else q) (ps_credentials s)\<rparr>"
      using assms by (auto simp: credential_upsert_def split: if_splits)
    have "cr_connection q = cr_connection r" using find_member Some unfolding credential_get_def by fastforce
    then show ?thesis using Some by (simp add: s' credential_get_def find_map_kept)
  qed
qed (use assms in \<open>auto simp: credential_upsert_def split: if_splits\<close>)

lemma password_of_payload: "text_field ''password'' (password_payload w) = Some w"
  by (simp add: text_field_def password_payload_def)

lemma saved_password_read:
  assumes "profile_find i s = Some p" "pf_owner p = ma_id a"
  shows "savedPassword v a i s = (case map_option cr_encrypted (credential_get i s) of None \<Rightarrow> Inl SECRET_REQUIRED
    | Some e \<Rightarrow> (case decryptCredential v i e of Inl x \<Rightarrow> Inl (FromVault x) | Inr fs \<Rightarrow> Inr (text_field ''password'' fs)))"
proof -
  have "pf_id p = i" using find_member assms(1) unfolding profile_find_def by fastforce
  then show ?thesis using assms
    by (simp add: savedPassword_def requireConnection_def assertConnectionOwner_def split: option.split)
qed

lemma encrypted_password: "vault_ok v \<Longrightarrow> encryptWithRedaction v rnd i w = Inr e \<Longrightarrow> decryptCredential v i e = Inr (password_payload w)"
  by (auto simp: encryptWithRedaction_def intro: decrypted_back split: sum.splits)

lemma update_begun:
  assumes "updateConnection v rnd now a i q s = Inr x"
  obtains old cn cred where "requireConnection i s = Inr old" "pf_owner old = ma_id a"
    "maybe_throw (if cp_clearSecret q then None else cp_secret q) (encryptWithRedaction v rnd (pf_id old)) = Inr cred"
    "x = Change (toConnection (pf_id old) (pf_owner old) cn now (pf_createdAt old)) cred (cp_clearSecret q) (cp_secret q \<noteq> None \<or> cp_clearSecret q)"
proof -
  from assms obtain old where o: "requireConnection i s = Inr old" "assertConnectionOwner a old = Inr ()"
    "\<not> (cp_secret q \<noteq> None \<and> cp_clearSecret q)"
    by (auto simp: updateConnection_def and_then_Inr split: if_split_asm)
  from assms obtain cn where c: "and_then (maybe_throw (if cp_clearSecret q then None else cp_secret q) (encryptWithRedaction v rnd (pf_id old))) (\<lambda>cred.
      Inr (Change (toConnection (pf_id old) (pf_owner old) cn now (pf_createdAt old)) cred (cp_clearSecret q) (cp_secret q \<noteq> None \<or> cp_clearSecret q))) = Inr x"
    unfolding updateConnection_def o(1) o(2) and_then.simps if_not_P [OF o(3)] and_then_Inr Let_def
    by (auto simp: toConnection_def and_then_Inr)
  then show thesis using that o(1) owner_checked [OF o(2)] by (auto simp: and_then_Inr)
qed

text \<open>
  Once a change of a connection is carried out, whatever happened in between, its owner gets the
  password it set, none if it cleared the password, and the one that was saved before otherwise.
\<close>

theorem changed_password_is_used:
  assumes "vault_ok v" "updateConnection v rnd now a i q s = Inr x" "perform c a x t = Inr t'"
    "profile_find i t = Some p" "pf_owner p = ma_id a"
  shows "savedPassword v a i t' =
    (if cp_clearSecret q then Inl SECRET_REQUIRED
     else case cp_secret q of Some w \<Rightarrow> Inr (Some w) | None \<Rightarrow> savedPassword v a i t)"
proof -
  obtain old cn cred where u: "requireConnection i s = Inr old" "pf_owner old = ma_id a"
    "maybe_throw (if cp_clearSecret q then None else cp_secret q) (encryptWithRedaction v rnd (pf_id old)) = Inr cred"
    "x = Change (toConnection (pf_id old) (pf_owner old) cn now (pf_createdAt old)) cred (cp_clearSecret q) (cp_secret q \<noteq> None \<or> cp_clearSecret q)"
    by (rule update_begun [OF assms(2)])
  define np where "np = toConnection (pf_id old) (pf_owner old) cn now (pf_createdAt old)"
  have "pf_id old = i" using u(1) find_member unfolding requireConnection_def profile_find_def by (fastforce split: option.splits)
  then have p: "pf_id old = i" "pf_id np = i" "pf_owner np = ma_id a" "pf_updatedAt np = now" using u(2) by (simp_all add: np_def toConnection_def)
  obtain s1 s2 where pre: "profile_update np t = Inr s1"
    "(if cp_clearSecret q then Inr (credential_delete (pf_id np) s1) else save_credential (pf_updatedAt np) np cred s1) = Inr s2"
    "\<exists>d. t' = s2\<lparr>ps_db := d\<rparr>"
    using assms(3) unfolding u(4) np_def [symmetric] perform.simps and_then_Inr from_store_Inr by (blast dest: recorded_kept)
  then obtain d where t: "profile_update np t = Inr s1"
    "(if cp_clearSecret q then Inr (credential_delete i s1) else save_credential now np cred s1) = Inr s2"
    "t' = s2\<lparr>ps_db := d\<rparr>"
    unfolding p(2,4) by blast
  have s1: "profile_find i s1 = Some (np\<lparr>pf_createdAt := pf_createdAt p\<rparr>)" "ps_credentials s1 = ps_credentials t"
    using profile_found_after [of np t p s1] assms(4) t(1) by (simp_all add: p)
  have owner: "pf_owner (np\<lparr>pf_createdAt := pf_createdAt p\<rparr>) = ma_id a" using p by simp
  have found: "profile_find i t' = Some (np\<lparr>pf_createdAt := pf_createdAt p\<rparr>)" if "ps_profiles s2 = ps_profiles s1"
    using that s1(1) by (simp add: t(3) profile_find_def)
  note read = saved_password_read [OF found owner]
  have cred: "credential_get i t' = credential_get i s2" by (simp add: t(3) credential_get_def)
  consider "cp_clearSecret q" | w where "\<not> cp_clearSecret q" "cp_secret q = Some w" | "\<not> cp_clearSecret q" "cp_secret q = None" by blast
  then show ?thesis
  proof cases
    case 1
    then have "s2 = credential_delete i s1" using t(2) by simp
    then have "ps_profiles s2 = ps_profiles s1" "credential_get i s2 = None"
      by (auto simp: credential_get_def credential_delete_def find_None)
    then show ?thesis using 1 read cred by simp
  next
    case (2 w)
    then obtain e where e: "cred = Some e" "encryptWithRedaction v rnd i w = Inr e"
      using u(3) by (auto simp: maybe_throw_def p split: sum.splits)
    then have up: "credential_upsert \<lparr>cr_connection = i, cr_encrypted = e, cr_createdAt = now, cr_updatedAt = now\<rparr> s1 = Inr s2"
      using t(2) 2 by (simp add: save_credential_def p)
    then obtain z where "credential_get i t' = Some z" "cr_encrypted z = e"
      using credential_found_after(1) [OF up] cred by auto
    then show ?thesis using credential_found_after(2) [OF up] read 2
      by (simp add: encrypted_password [OF assms(1) e(2)] password_of_payload)
  next
    case 3
    then have "cred = None" using u(3) by (simp add: maybe_throw_def)
    then have "s2 = s1" using t(2) 3 by (simp add: save_credential_def)
    then have "credential_get i t' = credential_get i t" unfolding cred by (simp add: credential_get_def s1(2))
    then show ?thesis using 3 read \<open>s2 = s1\<close> saved_password_read [OF assms(4,5)] by simp
  qed
qed


text \<open>
  A stored connection is read back: a change of a connection by its owner that sets nothing writes the
  connection as it is, with a new time of change, and leaves its saved password alone.
\<close>

theorem empty_change_keeps_connection:
  assumes "vault_ok v" "m = foldl (manager_step v) (fresh_manager d) es" "profile_find i (ms_store m) = Some p" "pf_owner p = ma_id a"
  shows "updateConnection v rnd now a i no_patch (ms_store m) = Inr (Change (p\<lparr>pf_updatedAt := now\<rparr>) None False False)"
proof -
  have s: "store_ok v (ms_ids m) (ms_store m)" using reached_ok [OF assms(1)] assms(2) by (simp add: manager_ok_def)
  have r: "requireConnection i (ms_store m) = Inr p" using assms(3) by (simp add: requireConnection_def)
  note p = found_profile [OF s r]
  have v: "validateConnectionInput (merged_input no_patch p) = Inr (merged_input no_patch p)"
    using p(3) by (simp add: profile_ok_def valid_profile_def normal_unchanged)
  have g: "assertGroupBelongsToActor a (ci_group (merged_input no_patch p)) (ms_store m) = Inr ()"
  proof (cases "pf_group p")
    case (Some j)
    then have "known_group (Some j) (ms_store m)" "belongs (ms_ids m) (ma_id a) (Some j)"
      using s p(1,3) assms(4) by (auto simp: store_ok_def rows_ok_def profile_ok_def)
    then obtain g where g: "requireGroup j (ms_store m) = Inr g"
      by (auto simp: known_group_def requireGroup_def)
    have "gr_owner g = ma_id a"
      using found_group(2) [OF s g] \<open>belongs (ms_ids m) (ma_id a) (Some j)\<close> by (simp add: belongs_def)
    then show ?thesis using Some g
      by (simp add: assertGroupBelongsToActor_def merged_input_def no_patch_def or_old_def assertGroupOwner_def)
  qed (simp add: assertGroupBelongsToActor_def merged_input_def no_patch_def or_old_def)
  have "toConnection (pf_id p) (pf_owner p) (merged_input no_patch p) now (pf_createdAt p) = p\<lparr>pf_updatedAt := now\<rparr>"
    using p(3) by (simp add: profile_ok_def valid_profile_def toConnection_def merged_input_def no_patch_def or_old_def)
  moreover have "ci_label (merged_input no_patch p) = pf_label p" "cp_secret no_patch = None" "\<not> cp_clearSecret no_patch"
    by (simp_all add: merged_input_def no_patch_def or_old_def)
  ultimately show ?thesis
    using r v g assms(4) by (simp add: updateConnection_def assertConnectionOwner_def maybe_throw_def)
qed

section \<open>A history\<close>

definition ann :: manager_actor where "ann = \<lparr>ma_id = ''u1'', ma_role = RoleAdmin\<rparr>"

definition plain_audit :: "string \<Rightarrow> audit_context" where
  "plain_audit i = \<lparr>anow = 1, anewId = i, acorrelation = None, aredact = (\<lambda>x. x)\<rparr>"

definition sample_input :: connection_input where
  "sample_input = \<lparr>ci_label = '' shop '', ci_engine = ''mysql'', ci_host = ''db'', ci_port = 3306, ci_database = None,
     ci_username = ''ann'', ci_sslMode = ''require'', ci_tls = Some \<lparr>tl_ca = None, tl_serverName = Some ''db''\<rparr>, ci_timeout = 5000,
     ci_group = Some ''g1'', ci_tag = None, ci_color = None\<rparr>"

definition sample_events :: "(manager_actor \<times> manager_op) list" where
  "sample_events =
     [(ann, CreateGroup ''g1'' ''home'' None None),
      (ann, CreateConnection (\<lambda>_. CHR ''n'') 0 ''c1'' sample_input (Some ''tiger'') True),
      (ann, Perform 0 (plain_audit ''e1''))]"

definition sample_manager :: manager_state where
  "sample_manager = foldl (manager_step plain_vault) (fresh_manager one_user) sample_events"

lemma sample_rows:
  "map (\<lambda>p. (pf_id p, pf_owner p, pf_label p)) (ps_profiles (ms_store sample_manager)) = [(''c1'', ''u1'', ''shop'')]"
  "map cr_connection (ps_credentials (ms_store sample_manager)) = [''c1'']"
  by code_simp+


lemma sample_reached: "sample_manager = foldl (manager_step plain_vault) (fresh_manager one_user) sample_events"
  by (rule sample_manager_def)

lemma sample_first: "hd (ps_credentials (ms_store sample_manager)) \<in> set (ps_credentials (ms_store sample_manager))"
    "hd (ps_profiles (ms_store sample_manager)) \<in> set (ps_profiles (ms_store sample_manager))"
    "cr_connection (hd (ps_credentials (ms_store sample_manager))) = ''c1''"
    "profile_find ''c1'' (ms_store sample_manager) = Some (hd (ps_profiles (ms_store sample_manager)))"
    "pf_owner (hd (ps_profiles (ms_store sample_manager))) = ma_id ann"
  using sample_rows by (auto simp: profile_find_def ann_def)

theorem saved_passwords_stay_bound_witness:
  "isl (decryptCredential plain_vault ''c2'' (cr_encrypted (hd (ps_credentials (ms_store sample_manager)))))"
  using saved_passwords_stay_bound [OF plain_vault_ok sample_reached sample_first(1)] sample_first(3) by simp

theorem others_keep_their_rows_witness:
  "rows_of ''u1'' (ms_store (manager_step plain_vault sample_manager
     (\<lparr>ma_id = ''u2'', ma_role = RoleUser\<rparr>, DeleteConnection ''c1'' (plain_audit ''e2'')))) = rows_of ''u1'' (ms_store sample_manager)"
  by (rule others_keep_their_rows [OF plain_vault_ok sample_reached]) (simp_all add: acts_for_def)

theorem stored_profiles_are_valid_witness:
  "\<exists>g \<in> set (ps_groups (ms_store sample_manager)). gr_id g = ''g1'' \<and> gr_owner g = ''u1''"
proof -
  have "pf_group (hd (ps_profiles (ms_store sample_manager))) = Some ''g1''" by code_simp
  then show ?thesis
    using stored_profiles_are_valid [OF plain_vault_ok sample_reached sample_first(2)] sample_first(5) by (auto simp: ann_def)
qed

definition sample_patch :: connection_patch where
  "sample_patch = no_patch\<lparr>cp_label := Some ''store'', cp_secret := Some ''lion''\<rparr>"

theorem changed_password_is_used_witness:
  "\<exists>x t'. updateConnection plain_vault (\<lambda>_. CHR ''m'') 2 ann ''c1'' sample_patch (ms_store sample_manager) = Inr x
    \<and> perform (plain_audit ''e2'') ann x (ms_store sample_manager) = Inr t' \<and> savedPassword plain_vault ann ''c1'' t' = Inr (Some ''lion'')"
proof -
  let ?u = "updateConnection plain_vault (\<lambda>_. CHR ''m'') 2 ann ''c1'' sample_patch (ms_store sample_manager)"
  have u: "\<not> isl ?u" "\<not> isl (perform (plain_audit ''e2'') ann (projr ?u) (ms_store sample_manager))" by code_simp+
  then obtain x where x: "?u = Inr x" by (cases ?u) auto
  then obtain t' where t: "perform (plain_audit ''e2'') ann x (ms_store sample_manager) = Inr t'"
    using u(2) by (cases "perform (plain_audit ''e2'') ann x (ms_store sample_manager)") auto
  from changed_password_is_used [OF plain_vault_ok x t sample_first(4,5)] x t show ?thesis
    by (simp add: sample_patch_def no_patch_def)
qed

theorem empty_change_keeps_connection_witness:
  "isl (updateConnection plain_vault (\<lambda>_. CHR ''m'') 2 ann ''c1'' no_patch (ms_store sample_manager)) = False"
  using empty_change_keeps_connection [OF plain_vault_ok sample_reached sample_first(4,5), of "\<lambda>_. CHR ''m''" 2] by simp

end
