(* ===== verification/Spec2Isabelle.thy ===== *)
theory Spec2Isabelle
  imports JobsProps SplitPostgresql SplitMysql AuthProps ConnectionsProps ConnectionsRefine QueryEnds WorkspaceProps ExportProps Artifacts Capabilities TableService RowService Migrations QueryHistory LoginProps ProfileProps
begin

text \<open>
  MyAdmin, a self-hosted administration tool for PostgreSQL and MySQL: one server process (\<open>apps/server\<close> over
  \<open>packages/\<close>) with an internal SQLite store and a web application. This development models the core of the
  server: who may do what, what is kept in the internal store, how text of users becomes statements, and
  what these statements can do to a database.

  \<^bold>\<open>The parts and how they interact.\<close> A request carries a session token. \<open>packages/auth\<close> finds its user in the
  internal store (\<open>packages/internal-sqlite\<close>, whose schema is made by its migrations), the rate limiter stands
  in front of login, and every change is recorded by the audit writer (\<open>packages/audit\<close>), which removes secrets in
  use from its entries (\<open>packages/crypto\<close>). A user's connections to databases are saved as
  profiles, opened with credentials from the vault, and live in the registry of \<open>apps/server/src/connections\<close>. The query editor splits a script with the
  provider's splitter and runs its statements in sessions that belong to tabs (\<open>apps/server/src/query\<close>); the data
  browser and the table designer build their own statements from the provider's metadata
  (\<open>packages/database-core\<close>, \<open>database-postgresql\<close>, \<open>database-mysql\<close>). Imports and exports are jobs of the job
  manager (\<open>packages/jobs\<close>). Workspaces, settings, the query history and saved queries are rows per user.

  \<^bold>\<open>How the model is written.\<close> A class is a record of its state, a method a function from arguments and
  state to state and result, an error a value on the left of a sum, an asynchronous method one function per
  stretch between two waits, and a history of requests, answers of providers and timers a list of events
  folded by a step function. A \<open>Map\<close> of JavaScript is an association list in order of insertion, a text a list
  of characters below 256, a number that the code needs whole an integer, a date its milliseconds. The clock,
  new ids, the collation, digests, NFKC, the schema checks of TypeBox, AES-GCM, the answers of databases and
  the children of the platform are arguments of the definitions that use them.

  \<^bold>\<open>The theories, bottom up.\<close>
  \<^item> \<open>Prelude\<close>: strings, maps, index loops with a termination proof, stable sorting by a comparator, and the
    contracts \<open>keyed_store\<close>, \<open>handler_invariant\<close> and \<open>handler_order\<close> (what holds over every history of a
    component follows from one lemma per handler).
  \<^item> \<open>Store\<close>, \<open>AuditLog\<close>: users, sessions and audit entries with the constraints of the schema; the registered
    actions, the bounds on details, and \<open>withAudit\<close> (\<open>packages/internal-sqlite/src/repositories\<close>, \<open>packages/audit/src\<close>).
  \<^item> \<open>Migrations\<close>: \<open>migration-runner.ts\<close>; a run resumes any prefix, also where a commit failed, and refuses every
    other history and every list of migrations with a gap, a duplicate or a blank name.
  \<^item> \<open>Patterns\<close>, \<open>Redaction\<close>, \<open>Vault\<close>: the regular expressions as functions with the order of a backtracking
    matcher, \<open>redaction.ts\<close>, and \<open>packages/crypto/src/vault\<close>; no registered secret is in a redacted text or an audit
    entry, whatever happens to the registry while a credential is used.
  \<^item> \<open>Password\<close>, \<open>RateLimiter\<close>, \<open>Auth\<close>, \<open>UserManagement\<close>, \<open>AuthInv\<close>, \<open>AuthProps\<close>: \<open>packages/auth/src\<close> and
    \<open>packages/crypto/src/password\<close>; one invariant over all histories of login, logout, passwords and users. \<open>LoginProps\<close>:
    the answers of refused logins, with the real redaction of their audit entries.
  \<^item> \<open>Jobs\<close>, \<open>JobsInv\<close>, \<open>JobsProps\<close>: \<open>packages/jobs/src/index.ts\<close>; states follow their table, workers are bounded,
    cancellation holds.
  \<^item> \<open>Connections\<close>, \<open>ConnectionsInv\<close>, \<open>ConnectionsProps\<close>, \<open>ConnectionsRefine\<close>: \<open>ConnectionSessionRegistry\<close> and what the
    manager does with it in \<open>apps/server/src/connections/connection-manager.ts\<close>; handles are accounted for, the one that
    is lost when the entry of a success is refused included, and the registry refines one deterministic link
    per user and connection, in which only the latest attempt counts.
  \<^item> \<open>Profiles\<close>, \<open>ProfileProps\<close>: the rest of the same class over the repositories of connections, groups and
    credentials; a change has two halves with other requests in between, passwords stay bound to their
    connection, and users keep their rows.
  \<^item> \<open>Scanner\<close>, \<open>SplitPostgresql\<close>, \<open>SplitMysql\<close>: the two \<open>split-statements.ts\<close> as interpretations of one contract of scanners.
  \<^item> \<open>QueryResults\<close>, \<open>QueryText\<close>, \<open>QueryExecution\<close>, \<open>QueryInv\<close>, \<open>QueryProps\<close>, \<open>QueryEnds\<close>: \<open>apps/server/src/query/query-execution.ts\<close>;
    statements run once and in order within a tab, each ended execution is given to the history once, whether or
    not the repository accepts it, and the loop of an execution ends (the measure is the number of statements
    without an answer).
  \<^item> \<open>Workspace\<close>, \<open>WorkspaceProps\<close>, \<open>Settings\<close>, \<open>QueryHistory\<close>: \<open>packages/workspace\<close>, \<open>packages/settings\<close>,
    \<open>apps/server/src/query/query-history.ts\<close> with their repositories; loaded states have the shape of the schema,
    the cache of settings cannot be seen, users keep their queries to themselves.
  \<^item> \<open>Csv\<close>, \<open>SqlReader\<close>, \<open>ImportRun\<close>, \<open>ImportProps\<close>, \<open>Uploads\<close>, \<open>Imports\<close>, \<open>Exports\<close>, \<open>ExportProps\<close>, \<open>Artifacts\<close>:
    \<open>packages/import\<close> and \<open>packages/export\<close>; the contract \<open>import_session\<close> states what a database session promises,
    and is interpreted on a session that keeps its rows.
  \<^item> \<open>Dialect\<close>, \<open>Ddl\<close>, \<open>DdlPostgresql\<close>, \<open>DdlMysql\<close>, \<open>DdlPgCompile\<close>, \<open>DdlMyCompile\<close>, \<open>DdlProps\<close>, \<open>DdlApply\<close>, \<open>Capabilities\<close>,
    \<open>TableService\<close>, \<open>TableRequests\<close>: the table designers of both providers, from the body of a request to the statements
    and their transaction; both compilers refine the same abstract change of columns (\<open>ddl_compiler\<close>).
  \<^item> \<open>RowQuery\<close>, \<open>RowEngines\<close>, \<open>RowProps\<close>, \<open>RowText\<close>, \<open>RowMeaning\<close>, \<open>RowSafety\<close>, \<open>RowRequests\<close>, \<open>RowService\<close>: the data browser of
    both providers, from the body of a request to the statement; both are interpretations of \<open>row_dialect\<close>, and
    \<open>data_session\<close> states what a session with transactions promises.

  \<^bold>\<open>What the lemmas show.\<close> The theories named \<open>Inv\<close> hold the invariants and one lemma per handler; the
  theories named \<open>Props\<close>, \<open>Ends\<close>, \<open>Refine\<close>, \<open>Apply\<close>, \<open>Text\<close>, \<open>Meaning\<close> and \<open>Safety\<close> hold the properties, each after a
  text with its number, and, after the properties, histories and inputs in which the code does something
  else than it means to.

  \<^bold>\<open>Bounds and fuel.\<close> Loops of the code are recursive functions with proofs of termination: over the index for
  the scanners, readers and patterns, over the number of queued jobs for the pump, over the statements left
  for an execution. No definition has fuel. The bounds of the code (4096 bytes of audit details, 20 tags, the
  limit of each window, the size of a workspace, the workers of the job manager, the retention of the history)
  are constants or arguments, and theorems are about every value of the arguments.

  \<^bold>\<open>Not modelled.\<close> The web application and the generated client, the command line, start-up, logging and
  routing; the test of a connection and the listing of its databases; backup and restore, which drive native
  tools; the catalog queries of the metadata readers, views, schemas, databases, privileges and monitoring; the
  WebSocket channel; the master key file. Of what is modelled: numbers of JSON are whole, characters are below
  256 and a text stands for its UTF-8 bytes, keys that are names of the object prototype are not considered,
  failures of the file system are only those that the code tells apart, and a call of a provider's method is one
  step. The manifest lists every part with its status.
\<close>

end
